(* ===== verification/Js_Text.thy ===== *)
theory Js_Text
  imports Complex_Main Prelude "HOL-Library.List_Lexorder" "HOL-Library.Char_ord"
begin

text \<open>
  The string operations of the JavaScript standard library the sources use: \<open>trim\<close>,
  \<open>toUpperCase\<close>, \<open>toLowerCase\<close>, the character class \<open>\d\<close>, \<open>BigInt(digits)\<close>,
  \<open>BigInt.prototype.toString\<close> and \<open>padStart\<close>. A string is a list of 8-bit code units; case
  mapping is the one of the ASCII letters, and white space is that of ECMAScript in this range.
\<close>

section \<open>White space and case\<close>

definition is_js_space :: "char \<Rightarrow> bool" where
  "is_js_space c \<longleftrightarrow> (let n = (of_char c :: nat) in (9 \<le> n \<and> n \<le> 13) \<or> n = 32 \<or> n = 160)"

definition trim :: "string \<Rightarrow> string" where
  "trim s = rev (dropWhile is_js_space (rev (dropWhile is_js_space s)))"

definition upper_char :: "char \<Rightarrow> char" where
  "upper_char c = (let n = (of_char c :: nat) in if 97 \<le> n \<and> n \<le> 122 then char_of (n - 32) else c)"

definition lower_char :: "char \<Rightarrow> char" where
  "lower_char c = (let n = (of_char c :: nat) in if 65 \<le> n \<and> n \<le> 90 then char_of (n + 32) else c)"

definition to_upper :: "string \<Rightarrow> string" where
  "to_upper s = map upper_char s"

definition to_lower :: "string \<Rightarrow> string" where
  "to_lower s = map lower_char s"

lemma dropWhile_id: "(xs = [] \<or> \<not> P (hd xs)) \<Longrightarrow> dropWhile P xs = xs"
  by (cases xs) auto

lemma trim_id:
  "(s = [] \<or> (\<not> is_js_space (hd s) \<and> \<not> is_js_space (last s))) \<Longrightarrow> trim s = s"
  by (cases "s = []") (auto simp: trim_def dropWhile_id hd_rev)

lemma hd_dropWhile_not: "dropWhile P xs \<noteq> [] \<Longrightarrow> \<not> P (hd (dropWhile P xs))"
  by (induction xs) auto

lemma last_dropWhile: "dropWhile P xs \<noteq> [] \<Longrightarrow> last (dropWhile P xs) = last xs"
  by (induction xs) (auto split: if_splits)

lemma trim_ends:
  assumes "trim s \<noteq> []"
  shows "\<not> is_js_space (hd (trim s))" and "\<not> is_js_space (last (trim s))"
proof -
  let ?a = "dropWhile is_js_space s"
  let ?b = "dropWhile is_js_space (rev ?a)"
  have b: "?b \<noteq> []" using assms by (simp add: trim_def)
  then show "\<not> is_js_space (last (trim s))"
    using hd_dropWhile_not [OF b] by (simp add: trim_def last_rev)
  have a: "?a \<noteq> []" using b by (cases "?a = []") simp_all
  have "last ?b = hd ?a" using last_dropWhile [OF b] a by (simp add: last_rev)
  then show "\<not> is_js_space (hd (trim s))"
    using hd_dropWhile_not [OF a] b by (simp add: trim_def hd_rev)
qed

lemma trim_idem [simp]: "trim (trim s) = trim s"
  by (rule trim_id) (use trim_ends in blast)

section \<open>Decimal digits\<close>

definition is_digit :: "char \<Rightarrow> bool" where
  "is_digit c \<longleftrightarrow> (let n = (of_char c :: nat) in 48 \<le> n \<and> n \<le> 57)"

definition digit_val :: "char \<Rightarrow> nat" where
  "digit_val c = of_char c - 48"

definition digit_char :: "nat \<Rightarrow> char" where
  "digit_char n = char_of (48 + n)"

text \<open>\<open>BigInt(s)\<close> and \<open>Number(s)\<close> of a string of digits; the empty string gives 0.\<close>

definition digits_val :: "string \<Rightarrow> nat" where
  "digits_val s = foldl (\<lambda>n c. 10 * n + digit_val c) 0 s"

text \<open>\<open>n.toString()\<close> of a non-negative integer.\<close>

fun nat_string :: "nat \<Rightarrow> string" where
  "nat_string n = (if n < 10 then [digit_char n] else nat_string (n div 10) @ [digit_char (n mod 10)])"

declare nat_string.simps [simp del]

definition pad_start :: "nat \<Rightarrow> char \<Rightarrow> string \<Rightarrow> string" where
  "pad_start n c s = replicate (n - length s) c @ s"

lemma digit_char_digit [simp]: "n < 10 \<Longrightarrow> is_digit (digit_char n)"
  by (simp add: is_digit_def digit_char_def Let_def)

lemma digit_val_char [simp]: "n < 10 \<Longrightarrow> digit_val (digit_char n) = n"
  by (simp add: digit_val_def digit_char_def)

lemma digit_val_less [simp]: "is_digit c \<Longrightarrow> digit_val c < 10"
  by (auto simp: is_digit_def digit_val_def Let_def)

lemma digit_not_space: "is_digit c \<Longrightarrow> \<not> is_js_space c"
  by (auto simp: is_digit_def is_js_space_def Let_def)

lemma is_digit_zero [simp]: "is_digit (CHR ''0'')"
  and digit_val_zero [simp]: "digit_val (CHR ''0'') = 0"
  by (simp_all add: is_digit_def digit_val_def)

lemma not_digit_signs [simp]:
  "\<not> is_digit (CHR ''-'')" "\<not> is_digit (CHR ''+'')" "\<not> is_digit (CHR ''.'')"
  by (simp_all add: is_digit_def)

lemma sign_not_space [simp]: "\<not> is_js_space (CHR ''-'')" "\<not> is_js_space (CHR ''.'')"
  by (simp_all add: is_js_space_def)

lemma foldl_digits:
  "foldl (\<lambda>n c. 10 * n + digit_val c) a s = a * 10 ^ length s + digits_val s"
proof (induction s arbitrary: a)
  case Nil
  then show ?case by (simp add: digits_val_def)
next
  case (Cons c s)
  have "digits_val (c # s) = digit_val c * 10 ^ length s + digits_val s"
    using Cons.IH [of "digit_val c"] by (simp add: digits_val_def)
  then show ?case using Cons.IH [of "10 * a + digit_val c"] by (simp add: algebra_simps)
qed

lemma digits_val_Nil [simp]: "digits_val [] = 0"
  by (simp add: digits_val_def)

lemma digits_val_Cons: "digits_val (c # s) = digit_val c * 10 ^ length s + digits_val s"
  using foldl_digits [of "digit_val c" s] by (simp add: digits_val_def)

lemma digits_val_append: "digits_val (s @ t) = digits_val s * 10 ^ length t + digits_val t"
  using foldl_digits [of "digits_val s" t] by (simp add: digits_val_def)

lemma digits_val_single [simp]: "digits_val [c] = digit_val c"
  by (simp add: digits_val_Cons)

lemma digits_val_zeros [simp]: "digits_val (replicate n (CHR ''0'')) = 0"
  by (induction n) (auto simp: digits_val_Cons)

lemma digits_val_less: "\<forall>c \<in> set s. is_digit c \<Longrightarrow> digits_val s < 10 ^ length s"
proof (induction s)
  case (Cons c s)
  then have "digit_val c < 10" "digits_val s < 10 ^ length s" by simp_all
  then have "digit_val c \<le> 9" "digits_val s < 10 ^ length s" by simp_all
  then have "digit_val c * 10 ^ length s + digits_val s < 9 * 10 ^ length s + 10 ^ length s"
    by (intro add_le_less_mono mult_le_mono1) auto
  then show ?case by (simp add: digits_val_Cons)
qed simp

lemma nat_string_nonempty [simp]: "nat_string n \<noteq> []"
  by (subst nat_string.simps) simp

lemma nat_string_digits: "c \<in> set (nat_string n) \<Longrightarrow> is_digit c"
proof (induction n rule: nat_string.induct)
  case (1 n)
  then show ?case
    by (subst (asm) (2) nat_string.simps) (auto split: if_splits)
qed

lemma digits_val_nat_string [simp]: "digits_val (nat_string n) = n"
proof (induction n rule: nat_string.induct)
  case (1 n)
  show ?case
  proof (cases "n < 10")
    case True
    then show ?thesis by (subst nat_string.simps) simp
  next
    case False
    then show ?thesis using 1
      by (subst nat_string.simps) (simp add: digits_val_append)
  qed
qed

lemma nat_string_length_le: "0 < k \<Longrightarrow> n < 10 ^ k \<Longrightarrow> length (nat_string n) \<le> k"
proof (induction n arbitrary: k rule: nat_string.induct)
  case (1 n)
  show ?case
  proof (cases "n < 10")
    case True
    then show ?thesis using "1.prems" by (subst nat_string.simps) simp
  next
    case False
    obtain j where j: "k = Suc j" using "1.prems"(1) by (cases k) simp_all
    with False "1.prems"(2) have "0 < j" by (cases j) simp_all
    with j have k: "k = Suc j" "0 < j" by simp_all
    then have "n div 10 < 10 ^ j" using "1.prems" by (simp add: less_mult_imp_div_less mult.commute)
    then show ?thesis using "1.IH" [OF False k(2)] False k
      by (subst nat_string.simps) simp
  qed
qed

lemma nat_string_inj: "nat_string m = nat_string n \<Longrightarrow> m = n"
  by (metis digits_val_nat_string)

lemma pad_start_length: "length s \<le> n \<Longrightarrow> length (pad_start n c s) = n"
  by (simp add: pad_start_def)

lemma digits_val_pad_start [simp]: "digits_val (pad_start n (CHR ''0'') s) = digits_val s"
  by (simp add: pad_start_def digits_val_append)

lemma pad_start_digits:
  "\<forall>c \<in> set s. is_digit c \<Longrightarrow> \<forall>c \<in> set (pad_start n (CHR ''0'') s). is_digit c"
  by (auto simp: pad_start_def)

text \<open>The longest prefix of digits, as the greedy \<open>\d+\<close> of a pattern matches it.\<close>

lemma takeWhile_digits_append:
  "\<forall>c \<in> set s. is_digit c \<Longrightarrow> (t = [] \<or> \<not> is_digit (hd t)) \<Longrightarrow>
   takeWhile is_digit (s @ t) = s \<and> dropWhile is_digit (s @ t) = t"
  by (induction s) (cases t; auto)+

section \<open>Numbers\<close>

text \<open>
  A JavaScript \<open>number\<close> that the sources only test, compare and convert: the rational it
  denotes, or one of \<open>NaN\<close> and the infinities.
\<close>

datatype js_number = Num rat | NotFinite

definition max_safe_integer :: int where
  "max_safe_integer = 9007199254740991"

definition is_safe_integer :: "js_number \<Rightarrow> bool" where
  "is_safe_integer x = (case x of NotFinite \<Rightarrow> False
     | Num r \<Rightarrow> snd (quotient_of r) = 1 \<and> \<bar>fst (quotient_of r)\<bar> \<le> max_safe_integer)"

definition safe_int :: "int \<Rightarrow> bool" where
  "safe_int n \<longleftrightarrow> \<bar>n\<bar> \<le> max_safe_integer"

lemma is_safe_integer_of_int [simp]: "is_safe_integer (Num (of_int n)) = safe_int n"
  by (simp add: is_safe_integer_def safe_int_def quotient_of_int)

lemma is_safe_integer_cases:
  assumes "is_safe_integer x"
  obtains n where "x = Num (of_int n)" "safe_int n"
proof (cases x)
  case (Num r)
  obtain a b where ab: "quotient_of r = (a, b)" by (cases "quotient_of r")
  with Num assms have b: "b = 1" "\<bar>a\<bar> \<le> max_safe_integer" by (auto simp: is_safe_integer_def)
  then have "r = of_int a" using quotient_of_div [OF ab] by simp
  with b Num show ?thesis using that by (simp add: safe_int_def)
qed (use assms in \<open>simp add: is_safe_integer_def\<close>)

end
