(* ===== verification/Domain_Decimal.thy ===== *)
theory Domain_Decimal
  imports Js_Text
begin

text \<open>
  \<open>packages/domain-core/src/internal/decimal.ts\<close>: decimal strings as integers scaled by a
  power of ten. JavaScript's \<open>BigInt\<close> is unbounded, so scaled values are \<open>int\<close>; its
  division truncates, and the sources only divide non-negative values, where \<open>div\<close> and
  \<open>mod\<close> agree with it.
\<close>

section \<open>The code\<close>

text \<open>The groups of \<open>/^(-?)(\d+)(?:\.(\d+))?$/\<close>: sign, whole digits, fraction digits.\<close>

definition strip_minus :: "string \<Rightarrow> bool \<times> string" where
  "strip_minus s =
     (case s of [] \<Rightarrow> (False, []) | c # r \<Rightarrow> if c = CHR ''-'' then (True, r) else (False, s))"

definition match_fraction :: "string \<Rightarrow> string option" where
  "match_fraction s =
     (case s of
        [] \<Rightarrow> Some []
      | c # f \<Rightarrow> if c = CHR ''.'' \<and> f \<noteq> [] \<and> list_all is_digit f then Some f else None)"

definition match_decimal :: "string \<Rightarrow> (bool \<times> string \<times> string) option" where
  "match_decimal s =
     (let (neg, r) = strip_minus s; w = takeWhile is_digit r in
      if w = [] then None
      else (case match_fraction (dropWhile is_digit r) of
              None \<Rightarrow> None
            | Some f \<Rightarrow> Some (neg, w, f)))"

definition scale_groups :: "bool \<times> string \<times> string \<Rightarrow> nat \<Rightarrow> int" where
  "scale_groups g scale =
     (let (neg, whole, fraction) = g;
          padded = take (scale + 1) (fraction @ replicate (scale + 1) (CHR ''0''));
          kept = take scale padded;
          rounding_digit = digit_val (padded ! scale);
          scaled = int (digits_val whole) * 10 ^ scale
                 + (if kept \<noteq> [] then int (digits_val kept) else 0)
      in (if neg then -1 else 1) * (if rounding_digit \<ge> 5 then scaled + 1 else scaled))"

definition parse_scaled :: "string \<Rightarrow> nat \<Rightarrow> int result" where
  "parse_scaled decimal scale =
     (case match_decimal (trim decimal) of
        None \<Rightarrow> Inl (TypeError ''Expected a plain decimal string'')
      | Some g \<Rightarrow> Inr (scale_groups g scale))"

definition int_string :: "int \<Rightarrow> string" where
  "int_string n = (if n < 0 then ''-'' else []) @ nat_string (nat \<bar>n\<bar>)"

definition format_scaled :: "int \<Rightarrow> nat \<Rightarrow> string" where
  "format_scaled scaled scale =
     (let absolute = nat (if scaled < 0 then - scaled else scaled);
          sign = (if scaled < 0 then ''-'' else [])
      in if scale = 0 then sign @ nat_string absolute
         else sign @ nat_string (absolute div 10 ^ scale) @ ''.''
              @ pad_start scale (CHR ''0'') (nat_string (absolute mod 10 ^ scale)))"

definition divide_half_up :: "int \<Rightarrow> int \<Rightarrow> int result" where
  "divide_half_up numerator denominator =
     (if denominator = 0 then Inl (RangeError ''Cannot divide by zero.'')
      else
        (let negative = ((numerator < 0) \<noteq> (denominator < 0));
             n = \<bar>numerator\<bar>; d = \<bar>denominator\<bar>;
             quotient = n div d; remainder = n mod d;
             rounded = (if remainder * 2 \<ge> d then quotient + 1 else quotient)
         in Inr (if negative then - rounded else rounded)))"

section \<open>Parsing rounds half up\<close>

text \<open>
  The exact value of the groups is \<open>digits_val (whole @ fraction) / 10 ^ length fraction\<close>.
  Looking at one digit after the kept ones is enough to round it half up.
\<close>

definition half_up_nat :: "nat \<Rightarrow> nat \<Rightarrow> nat" where
  "half_up_nat n d = (2 * n + d) div (2 * d)"

lemma half_up_nat_split:
  assumes "0 < d"
  shows "half_up_nat n d = n div d + (if d \<le> 2 * (n mod d) then 1 else 0)"
proof -
  let ?q = "n div d" and ?r = "n mod d"
  have n: "n = d * ?q + ?r" by simp
  have r: "?r < d" using assms by simp
  have "2 * n = 2 * (d * ?q + ?r)" by (simp only: n [symmetric])
  then have eq: "2 * n + d = (2 * ?r + d) + 2 * d * ?q" by (simp only: distrib_left mult.assoc add.assoc add.commute add.left_commute)
  have "half_up_nat n d = ((2 * ?r + d) + 2 * d * ?q) div (2 * d)"
    unfolding half_up_nat_def by (subst eq) simp
  also have "\<dots> = ?q + (2 * ?r + d) div (2 * d)"
    using assms by (subst div_mult_self2) simp_all
  finally have s: "half_up_nat n d = ?q + (2 * ?r + d) div (2 * d)" .
  show ?thesis
  proof (cases "d \<le> 2 * ?r")
    case True
    have "(2 * ?r + d) div (2 * d) = 1"
      using True r by (intro div_nat_eqI) simp_all
    with s True show ?thesis by simp
  next
    case False
    then have "(2 * ?r + d) div (2 * d) = 0" by simp
    with s False show ?thesis by simp
  qed
qed

lemma half_up_nat_exact: "0 < d \<Longrightarrow> half_up_nat (n * d) d = n"
  by (simp add: half_up_nat_split)

lemma half_up_nat_scale: "0 < k \<Longrightarrow> half_up_nat (n * k) (d * k) = half_up_nat n d"
proof -
  assume "0 < k"
  have "(2 * (n * k) + d * k) div (2 * (d * k)) = ((2 * n + d) * k) div ((2 * d) * k)"
    by (simp add: algebra_simps)
  also have "\<dots> = (2 * n + d) div (2 * d)" using \<open>0 < k\<close> by simp
  finally show ?thesis by (simp add: half_up_nat_def)
qed

text \<open>The kept digits and the rounding digit of a fraction with at least \<open>scale + 1\<close> digits.\<close>

lemma half_up_by_digit:
  assumes digits: "list_all is_digit k" "is_digit c" "list_all is_digit t"
  shows "half_up_nat (digits_val (k @ c # t)) (10 ^ (length t + 1))
       = digits_val k + (if 5 \<le> digit_val c then 1 else 0)"
proof -
  let ?d = "10 ^ (length t + 1) :: nat"
  let ?m = "digit_val c * 10 ^ length t + digits_val t"
  have t: "digits_val t < 10 ^ length t"
    using digits(3) by (intro digits_val_less) (simp add: list_all_iff)
  have c: "digit_val c < 10" using digits(2) by simp
  have m: "?m < ?d"
  proof -
    have "?m < (digit_val c + 1) * 10 ^ length t" using t by simp
    also have "\<dots> \<le> 10 * 10 ^ length t" using c by (intro mult_le_mono1) simp
    finally show ?thesis by simp
  qed
  have v: "digits_val (k @ c # t) = digits_val k * ?d + ?m"
    by (simp add: digits_val_append digits_val_Cons)
  have half: "(?d \<le> 2 * ?m) = (5 \<le> digit_val c)"
  proof
    assume h: "?d \<le> 2 * ?m"
    show "5 \<le> digit_val c"
    proof (rule ccontr)
      assume "\<not> 5 \<le> digit_val c"
      then have "digit_val c + 1 \<le> 5" by simp
      then have "(digit_val c + 1) * 10 ^ length t \<le> 5 * 10 ^ length t" by (rule mult_le_mono1)
      moreover have "?m < (digit_val c + 1) * 10 ^ length t" using t by simp
      ultimately have "?m < 5 * 10 ^ length t" by (rule order.strict_trans2 [rotated])
      with h show False by simp
    qed
  next
    assume "5 \<le> digit_val c"
    then have "5 * 10 ^ length t \<le> digit_val c * 10 ^ length t" by (rule mult_le_mono1)
    then have "2 * (5 * 10 ^ length t) \<le> 2 * ?m" by (intro mult_le_mono2) (rule trans_le_add1)
    then show "?d \<le> 2 * ?m" by simp
  qed
  have q: "(digits_val k * ?d + ?m) div ?d = digits_val k" using m by simp
  have r: "(digits_val k * ?d + ?m) mod ?d = ?m" using m by simp
  have "half_up_nat (digits_val k * ?d + ?m) ?d
      = digits_val k + (if ?d \<le> 2 * ?m then 1 else 0)"
    by (subst half_up_nat_split) (simp, simp only: q r)
  then show ?thesis by (simp only: v half)
qed

lemma split_at_scale:
  assumes "scale < length e"
  shows "e = take scale (take (scale + 1) e) @ (take (scale + 1) e ! scale) # drop (scale + 1) e"
  using id_take_nth_drop [OF assms] by (simp add: min_def)

lemma kept_if: "(if k \<noteq> [] then int (digits_val k) else 0) = int (digits_val k)"
  by simp

lemma scale_groups_half_up:
  assumes w: "list_all is_digit whole" and f: "list_all is_digit fraction"
  shows "scale_groups (neg, whole, fraction) scale =
         (if neg then -1 else 1) *
         int (half_up_nat (digits_val (whole @ fraction) * 10 ^ scale) (10 ^ length fraction))"
proof -
  let ?ext = "fraction @ replicate (scale + 1) (CHR ''0'')"
  let ?p = "take (scale + 1) ?ext" and ?t = "drop (scale + 1) ?ext"
  have len: "length ?p = scale + 1" by simp
  have ext: "?ext = take scale ?p @ (?p ! scale) # ?t" by (rule split_at_scale) simp
  have "list_all is_digit ?ext" using f by (auto simp: list_all_iff)
  then have dig: "list_all is_digit (take scale ?p)" "is_digit (?p ! scale)" "list_all is_digit ?t"
    by (subst (asm) ext, simp)+
  have lt: "length ?t = length fraction" by simp
  let ?v = "digits_val (whole @ ?ext)"
  have v: "?v = digits_val (whole @ fraction) * 10 ^ (scale + 1)"
    by (simp add: digits_val_append digits_val_Cons power_add algebra_simps)
  have "half_up_nat (digits_val (whole @ fraction) * 10 ^ scale) (10 ^ length fraction)
      = half_up_nat ((digits_val (whole @ fraction) * 10 ^ scale) * 10) (10 ^ length fraction * 10)"
    by (simp only: half_up_nat_scale)
  also have "\<dots> = half_up_nat ?v (10 ^ (length ?t + 1))"
    unfolding v lt by (simp add: mult.commute mult.left_commute)
  also have "?v = digits_val ((whole @ take scale ?p) @ (?p ! scale) # ?t)"
    by (subst ext) simp
  also have "half_up_nat \<dots> (10 ^ (length ?t + 1))
      = digits_val (whole @ take scale ?p) + (if 5 \<le> digit_val (?p ! scale) then 1 else 0)"
    using w dig by (intro half_up_by_digit) simp_all
  also have "digits_val (whole @ take scale ?p)
      = digits_val whole * 10 ^ scale + digits_val (take scale ?p)"
  proof -
    have "length (take scale ?p) = scale" using len by (simp only: length_take)
    then show ?thesis by (simp only: digits_val_append)
  qed
  finally have h: "half_up_nat (digits_val (whole @ fraction) * 10 ^ scale) (10 ^ length fraction)
      = digits_val whole * 10 ^ scale + digits_val (take scale ?p)
        + (if 5 \<le> digit_val (?p ! scale) then 1 else 0)" .
  show ?thesis
    unfolding scale_groups_def Let_def prod.case kept_if h by simp
qed

lemma match_fraction_digits: "match_fraction s = Some f \<Longrightarrow> list_all is_digit f"
  by (auto simp: match_fraction_def split: list.splits if_splits)

lemma match_decimal_digits:
  assumes "match_decimal s = Some (neg, w, f)"
  shows "list_all is_digit w \<and> list_all is_digit f \<and> w \<noteq> []"
proof -
  obtain neg' r where r: "strip_minus s = (neg', r)" by (cases "strip_minus s")
  with assms have "w = takeWhile is_digit r" "w \<noteq> []"
    and f: "match_fraction (dropWhile is_digit r) = Some f"
    by (auto simp: match_decimal_def Let_def split: if_splits option.splits)
  then show ?thesis
    using match_fraction_digits [OF f] by (auto simp: list_all_iff dest: set_takeWhileD)
qed

text \<open>The whole of parsing: an unmatched string throws, a matched one is rounded half up.\<close>

lemma parse_scaled_eq:
  "parse_scaled s scale =
    (case match_decimal (trim s) of
       None \<Rightarrow> Inl (TypeError ''Expected a plain decimal string'')
     | Some (neg, w, f) \<Rightarrow>
         Inr ((if neg then -1 else 1) * int (half_up_nat (digits_val (w @ f) * 10 ^ scale) (10 ^ length f))))"
proof (cases "match_decimal (trim s)")
  case None
  then show ?thesis by (simp add: parse_scaled_def)
next
  case (Some g)
  obtain neg w f where g: "g = (neg, w, f)" by (cases g)
  with Some match_decimal_digits have "list_all is_digit w" "list_all is_digit f" by blast+
  then show ?thesis
    by (simp only: parse_scaled_def Some g option.case prod.case scale_groups_half_up)
qed

section \<open>Half-up rounding is nearest, ties away from zero\<close>

lemma le_plus_half: "(d::nat) \<le> 2 * r \<Longrightarrow> d \<le> r + d div 2"
  by presburger

lemma twice_less_up: "(r::nat) < d \<Longrightarrow> 2 * (x + r) < 2 * (x + d) + d"
  and twice_less_down: "2 * r < d \<Longrightarrow> 2 * (x + r) < 2 * x + d"
  by simp_all

lemma half_up_nat_nearest:
  assumes "0 < d"
  shows "half_up_nat n d * d \<le> n + d div 2" and "2 * n < 2 * half_up_nat n d * d + d"
proof -
  let ?q = "n div d" and ?r = "n mod d"
  have n: "?q * d + ?r = n" by simp
  have r: "?r < d" using assms by simp
  show "half_up_nat n d * d \<le> n + d div 2"
  proof (cases "d \<le> 2 * ?r")
    case True
    then have "d \<le> ?r + d div 2" by (rule le_plus_half)
    then have "?q * d + d \<le> ?q * d + (?r + d div 2)" by (rule add_left_mono)
    then have "?q * d + d \<le> n + d div 2" by (simp only: add.assoc [symmetric] n)
    then show ?thesis using True n by (simp add: half_up_nat_split [OF assms])
  next
    case False
    have "?q * d \<le> ?q * d + (?r + d div 2)" by (rule le_add1)
    then have "?q * d \<le> n + d div 2" by (simp only: add.assoc [symmetric] n)
    then show ?thesis by (simp only: half_up_nat_split [OF assms] False if_False add_0_right)
  qed
  show "2 * n < 2 * half_up_nat n d * d + d"
  proof (cases "d \<le> 2 * ?r")
    case True
    have "2 * (?q * d + ?r) < 2 * (?q * d + d) + d" by (rule twice_less_up [OF r])
    then have "2 * n < 2 * (?q * d + d) + d" by (simp only: n)
    then show ?thesis using True by (simp add: half_up_nat_split [OF assms] algebra_simps)
  next
    case False
    then have "2 * (?q * d + ?r) < 2 * (?q * d) + d" by (intro twice_less_down) simp
    then have "2 * n < 2 * (?q * d) + d" by (simp only: n)
    then show ?thesis using False by (simp add: half_up_nat_split [OF assms] algebra_simps)
  qed
qed

lemma divide_half_up_nat:
  assumes "d \<noteq> 0"
  shows "divide_half_up n d =
         Inr (sgn n * sgn d * int (half_up_nat (nat \<bar>n\<bar>) (nat \<bar>d\<bar>)))"
proof -
  have d: "0 < nat \<bar>d\<bar>" using assms by simp
  have q: "int (nat \<bar>n\<bar> div nat \<bar>d\<bar>) = \<bar>n\<bar> div \<bar>d\<bar>"
    and r: "int (nat \<bar>n\<bar> mod nat \<bar>d\<bar>) = \<bar>n\<bar> mod \<bar>d\<bar>"
    by (simp_all add: zdiv_int zmod_int)
  have c: "(nat \<bar>d\<bar> \<le> 2 * (nat \<bar>n\<bar> mod nat \<bar>d\<bar>)) = (\<bar>d\<bar> \<le> \<bar>n\<bar> mod \<bar>d\<bar> * 2)"
    using r by linarith
  have h: "int (half_up_nat (nat \<bar>n\<bar>) (nat \<bar>d\<bar>))
         = (if \<bar>n\<bar> mod \<bar>d\<bar> * 2 \<ge> \<bar>d\<bar> then \<bar>n\<bar> div \<bar>d\<bar> + 1 else \<bar>n\<bar> div \<bar>d\<bar>)"
    using q by (simp add: half_up_nat_split [OF d] c)
  show ?thesis
  proof (cases "n = 0")
    case True
    then show ?thesis using assms by (simp add: divide_half_up_def Let_def)
  next
    case False
    then show ?thesis using assms
      by (simp add: divide_half_up_def Let_def h [symmetric] sgn_if)
  qed
qed

lemma mult_regroup: "(a::int) * b * c * e = a * (c * (b * e))"
  by (simp add: ac_simps)

lemma within_half: "(a::int) \<le> x + y div 2 \<Longrightarrow> 2 * x < 2 * a + y \<Longrightarrow> 2 * \<bar>a - x\<bar> \<le> y"
  by presburger

lemma divide_half_up_nearest:
  assumes "divide_half_up n d = Inr q"
  shows "2 * \<bar>q * d - n\<bar> \<le> \<bar>d\<bar>"
proof -
  have d: "d \<noteq> 0" using assms by (auto simp: divide_half_up_def)
  then have d': "0 < nat \<bar>d\<bar>" by simp
  let ?h = "half_up_nat (nat \<bar>n\<bar>) (nat \<bar>d\<bar>)"
  have q: "q = sgn n * sgn d * int ?h" using assms by (simp add: divide_half_up_nat [OF d])
  have "int (?h * nat \<bar>d\<bar>) \<le> int (nat \<bar>n\<bar> + nat \<bar>d\<bar> div 2)"
    and "int (2 * nat \<bar>n\<bar>) < int (2 * ?h * nat \<bar>d\<bar> + nat \<bar>d\<bar>)"
    using half_up_nat_nearest [OF d', of "nat \<bar>n\<bar>"] by (simp_all only: of_nat_le_iff of_nat_less_iff)
  then have b: "int ?h * \<bar>d\<bar> \<le> \<bar>n\<bar> + \<bar>d\<bar> div 2" "2 * \<bar>n\<bar> < 2 * (int ?h * \<bar>d\<bar>) + \<bar>d\<bar>"
    by (simp_all add: zdiv_int)
  show ?thesis
  proof (cases "n = 0")
    case True
    then show ?thesis using q by simp
  next
    case False
    have "q * d = sgn n * (int ?h * (sgn d * d))" unfolding q by (rule mult_regroup)
    moreover have "sgn d * d = \<bar>d\<bar>" by (simp add: sgn_if)
    ultimately have "q * d - sgn n * \<bar>n\<bar> = sgn n * (int ?h * \<bar>d\<bar> - \<bar>n\<bar>)"
      by (simp only: right_diff_distrib)
    then have e: "q * d - n = sgn n * (int ?h * \<bar>d\<bar> - \<bar>n\<bar>)" by (simp only: mult_sgn_abs)
    have "\<bar>sgn n\<bar> = 1" using False by (simp add: abs_sgn_eq)
    then have "\<bar>q * d - n\<bar> = \<bar>int ?h * \<bar>d\<bar> - \<bar>n\<bar>\<bar>" by (simp only: e abs_mult mult_1)
    then show ?thesis using within_half [OF b] by simp
  qed
qed

section \<open>Formatting and parsing back\<close>

lemma match_decimal_formatted:
  assumes "list_all is_digit w" "w \<noteq> []" "list_all is_digit f" "f \<noteq> []"
  shows "match_decimal ((if neg then ''-'' else []) @ w @ ''.'' @ f) = Some (neg, w, f)"
proof -
  have tw: "takeWhile is_digit (w @ ''.'' @ f) = w" "dropWhile is_digit (w @ ''.'' @ f) = ''.'' @ f"
    using takeWhile_digits_append [of w "''.'' @ f"] assms by (auto simp: list_all_iff)
  have "hd w \<noteq> CHR ''-''" using assms by (cases w) auto
  then have "strip_minus ((if neg then ''-'' else []) @ w @ ''.'' @ f) = (neg, w @ ''.'' @ f)"
    using assms by (cases w) (auto simp: strip_minus_def)
  with tw assms show ?thesis
    by (simp add: match_decimal_def match_fraction_def)
qed

lemma match_decimal_whole:
  assumes "list_all is_digit w" "w \<noteq> []"
  shows "match_decimal ((if neg then ''-'' else []) @ w) = Some (neg, w, [])"
proof -
  have tw: "takeWhile is_digit w = w" "dropWhile is_digit w = []"
    using takeWhile_digits_append [of w "[]"] assms by (auto simp: list_all_iff)
  have "hd w \<noteq> CHR ''-''" using assms by (cases w) auto
  then have "strip_minus ((if neg then ''-'' else []) @ w) = (neg, w)"
    using assms by (cases w) (auto simp: strip_minus_def)
  then show ?thesis
    using assms(2) by (simp only: match_decimal_def Let_def prod.case tw) (simp add: match_fraction_def)
qed

lemma trim_number:
  assumes "list_all is_digit w" "w \<noteq> []" "list_all is_digit f" "sep = [] \<longleftrightarrow> f = []" "set sep \<subseteq> {CHR ''.''}"
  shows "trim ((if neg then ''-'' else []) @ w @ sep @ f) = (if neg then ''-'' else []) @ w @ sep @ f"
proof (rule trim_id, rule disjI2, rule conjI)
  have "\<not> is_js_space (hd w)" "\<not> is_js_space (last w)"
    using assms(1,2) by (auto simp: list_all_iff intro!: digit_not_space)
  then show "\<not> is_js_space (hd ((if neg then ''-'' else []) @ w @ sep @ f))"
    using assms(2) by auto
  have "f \<noteq> [] \<Longrightarrow> \<not> is_js_space (last f)"
    using assms(3) by (auto simp: list_all_iff intro!: digit_not_space)
  with \<open>\<not> is_js_space (last w)\<close> assms(2,4)
  show "\<not> is_js_space (last ((if neg then ''-'' else []) @ w @ sep @ f))"
    by (cases "f = []") simp_all
qed

lemma format_scaled_groups:
  assumes "0 < scale"
  shows "format_scaled x scale =
     (if x < 0 then ''-'' else []) @ nat_string (nat \<bar>x\<bar> div 10 ^ scale) @ ''.''
       @ pad_start scale (CHR ''0'') (nat_string (nat \<bar>x\<bar> mod 10 ^ scale))"
  using assms by (auto simp: format_scaled_def Let_def abs_if)

lemma parse_format_scaled: "parse_scaled (format_scaled x scale) scale = Inr x"
proof (cases "scale = 0")
  case True
  let ?w = "nat_string (nat \<bar>x\<bar>)"
  have w: "list_all is_digit ?w" by (simp add: list_all_iff nat_string_digits)
  have f: "format_scaled x scale = (if x < 0 then ''-'' else []) @ ?w"
    using True by (auto simp: format_scaled_def Let_def abs_if)
  have "trim (format_scaled x scale) = format_scaled x scale"
    unfolding f using trim_number [OF w _ , of "[]" "[]" "x < 0"] by simp
  then have "match_decimal (trim (format_scaled x scale)) = Some (x < 0, ?w, [])"
    unfolding f using match_decimal_whole [OF w] by simp
  then show ?thesis
    using True half_up_nat_exact [of 1 "nat \<bar>x\<bar>"] by (simp add: parse_scaled_eq)
next
  case False
  let ?w = "nat_string (nat \<bar>x\<bar> div 10 ^ scale)"
  let ?f = "pad_start scale (CHR ''0'') (nat_string (nat \<bar>x\<bar> mod 10 ^ scale))"
  have w: "list_all is_digit ?w" by (simp add: list_all_iff nat_string_digits)
  have f: "list_all is_digit ?f"
    using pad_start_digits [of "nat_string (nat \<bar>x\<bar> mod 10 ^ scale)" scale]
    by (simp add: list_all_iff nat_string_digits)
  have len: "length ?f = scale"
    using False by (intro pad_start_length nat_string_length_le) simp_all
  then have fne: "?f \<noteq> []" using False by (metis list.size(3))
  have v: "digits_val (?w @ ?f) = nat \<bar>x\<bar>"
    using div_mult_mod_eq [of "nat \<bar>x\<bar>" "10 ^ scale"] by (simp only: digits_val_append len digits_val_pad_start digits_val_nat_string)
  have fmt: "format_scaled x scale = (if x < 0 then ''-'' else []) @ ?w @ ''.'' @ ?f"
    using False by (intro format_scaled_groups) simp
  have "trim (format_scaled x scale) = format_scaled x scale"
    unfolding fmt by (rule trim_number [OF w _ f]) (simp_all add: fne)
  then have m: "match_decimal (trim (format_scaled x scale)) = Some (x < 0, ?w, ?f)"
    unfolding fmt by (simp only: match_decimal_formatted [OF w nat_string_nonempty f fne])
  show ?thesis
    unfolding parse_scaled_eq m option.case prod.case v len by (simp add: half_up_nat_exact)
qed

section \<open>The codec as an interface\<close>

text \<open>What \<open>toWire\<close> and \<open>fromWire\<close> of the value objects rely on.\<close>

locale scaled_codec =
  fixes parse :: "string \<Rightarrow> nat \<Rightarrow> int result"
    and print :: "int \<Rightarrow> nat \<Rightarrow> string"
  assumes parse_print: "parse (print x s) s = Inr x"
begin

lemma print_inj: "print x s = print y s \<Longrightarrow> x = y"
  by (metis parse_print sum.inject(2))

lemma parse_print_all: "map_result (\<lambda>t. parse t s) (map (\<lambda>x. print x s) xs) = Inr xs"
  by (induction xs) (simp_all add: parse_print)

lemma canonical_idem: "parse t s = Inr x \<Longrightarrow> parse (print x s) s = parse t s"
  by (simp add: parse_print)

end

interpretation decimal_codec: scaled_codec parse_scaled format_scaled
  by unfold_locales (rule parse_format_scaled)

end
