(* ===== verification/Domain_Values.thy ===== *)
theory Domain_Values
  imports Domain_Decimal
begin

text \<open>
  The value objects of \<open>packages/domain-core/src\<close>: \<open>Money\<close>, \<open>Percentage\<close>, \<open>Quantity\<close>,
  the opaque ids, \<open>EmailAddress\<close> and \<open>PhoneNumber\<close>. A private constructor is a record; a
  static factory that throws returns a result.
\<close>

section \<open>Money (money.ts)\<close>

text \<open>
  \<open>CURRENCY_POLICIES[code]\<close> reads a property of an object literal, so the members every object
  inherits from \<open>Object.prototype\<close> are found too. They are truthy, and neither their
  \<open>code\<close> nor their \<open>minorUnitScale\<close> is defined.
\<close>

record currency_policy =
  policy_code :: "string option"
  minor_unit_scale :: "nat option"

definition supported_currencies :: "string list" where
  "supported_currencies = [''EGP'', ''USD'', ''SAR'']"

definition object_prototype_members :: "string list" where
  "object_prototype_members =
     [''constructor'', ''toString'', ''toLocaleString'', ''valueOf'', ''hasOwnProperty'',
      ''isPrototypeOf'', ''propertyIsEnumerable'', ''__proto__'', ''__defineGetter__'',
      ''__defineSetter__'', ''__lookupGetter__'', ''__lookupSetter__'']"

definition currency_policy :: "string \<Rightarrow> currency_policy result" where
  "currency_policy code =
     (if code \<in> set supported_currencies
      then Inr \<lparr>policy_code = Some code, minor_unit_scale = Some 2\<rparr>
      else if code \<in> set object_prototype_members
      then Inr \<lparr>policy_code = None, minor_unit_scale = None\<rparr>
      else Inl (RangeError ''Unsupported currency code''))"

record money =
  minor_units :: int
  currency :: "string option"

text \<open>A scale of \<open>undefined\<close> is only seen once the pattern has matched, by \<open>BigInt(scale)\<close>.\<close>

definition parse_with_scale :: "string \<Rightarrow> nat option \<Rightarrow> int result" where
  "parse_with_scale amount scale =
     (case scale of
        Some s \<Rightarrow> parse_scaled amount s
      | None \<Rightarrow> (case match_decimal (trim amount) of
                 None \<Rightarrow> Inl (TypeError ''Expected a plain decimal string'')
               | Some g \<Rightarrow> Inl (TypeError ''Cannot convert undefined to a BigInt'')))"

definition money_of :: "string \<Rightarrow> string \<Rightarrow> money result" where
  "money_of amount code =
     and_then (currency_policy code) (\<lambda>policy.
     and_then (parse_with_scale amount (minor_unit_scale policy)) (\<lambda>n.
     Inr \<lparr>minor_units = n, currency = policy_code policy\<rparr>))"

definition money_from_minor_units :: "int \<Rightarrow> string \<Rightarrow> money result" where
  "money_from_minor_units n code =
     and_then (currency_policy code) (\<lambda>policy.
     Inr \<lparr>minor_units = n, currency = policy_code policy\<rparr>)"

record money_wire =
  wire_amount :: string
  wire_currency :: string

definition money_from_wire :: "money_wire \<Rightarrow> money result" where
  "money_from_wire w = money_of (wire_amount w) (wire_currency w)"

text \<open>An undefined currency is looked up as the property named \<open>undefined\<close>.\<close>

definition currency_key :: "money \<Rightarrow> string" where
  "currency_key m = (case currency m of None \<Rightarrow> ''undefined'' | Some c \<Rightarrow> c)"

definition money_to_wire :: "money \<Rightarrow> money_wire result" where
  "money_to_wire m =
     and_then (currency_policy (currency_key m)) (\<lambda>policy.
     case minor_unit_scale policy of
       None \<Rightarrow> Inl (TypeError ''Cannot convert undefined to a BigInt'')
     | Some s \<Rightarrow> Inr \<lparr>wire_amount = format_scaled (minor_units m) s, wire_currency = currency_key m\<rparr>)"

definition assert_same_currency :: "money \<Rightarrow> money \<Rightarrow> unit result" where
  "assert_same_currency m other =
     throw_if (currency other \<noteq> currency m) (RangeError ''Cannot combine Money'')"

definition money_add :: "money \<Rightarrow> money \<Rightarrow> money result" where
  "money_add m other =
     and_then (assert_same_currency m other) (\<lambda>_.
     Inr \<lparr>minor_units = minor_units m + minor_units other, currency = currency m\<rparr>)"

definition money_subtract :: "money \<Rightarrow> money \<Rightarrow> money result" where
  "money_subtract m other =
     and_then (assert_same_currency m other) (\<lambda>_.
     Inr \<lparr>minor_units = minor_units m - minor_units other, currency = currency m\<rparr>)"

section \<open>Percentage (percentage.ts)\<close>

definition percentage_rate_scale :: nat where
  "percentage_rate_scale = 6"

record percentage =
  scaled_rate :: int

record percentage_wire =
  wire_rate :: string
  wire_display_percent :: string

definition percentage_from_rate :: "string \<Rightarrow> percentage result" where
  "percentage_from_rate rate =
     and_then (parse_scaled rate percentage_rate_scale) (\<lambda>n. Inr \<lparr>scaled_rate = n\<rparr>)"

definition percentage_from_wire :: "percentage_wire \<Rightarrow> percentage result" where
  "percentage_from_wire w = percentage_from_rate (wire_rate w)"

definition percentage_to_wire :: "percentage \<Rightarrow> percentage_wire" where
  "percentage_to_wire p =
     \<lparr>wire_rate = format_scaled (scaled_rate p) percentage_rate_scale,
      wire_display_percent = format_scaled (scaled_rate p) (percentage_rate_scale - 2)\<rparr>"

definition money_multiply_by_rate :: "money \<Rightarrow> percentage \<Rightarrow> money result" where
  "money_multiply_by_rate m rate =
     and_then (divide_half_up (minor_units m * scaled_rate rate) (10 ^ percentage_rate_scale)) (\<lambda>n.
     Inr \<lparr>minor_units = n, currency = currency m\<rparr>)"

section \<open>Opaque ids (ids.ts) and Quantity (quantity.ts)\<close>

definition parse_opaque_id :: "string \<Rightarrow> string \<Rightarrow> string result" where
  "parse_opaque_id value brand =
     (let normalized = trim value in
      if length normalized = 0 then Inl (JsError (brand @ '' ID must not be empty.''))
      else Inr normalized)"

definition parse_aggregate_version :: "js_number \<Rightarrow> js_number result" where
  "parse_aggregate_version value =
     (if \<not> is_safe_integer value \<or> (case value of Num r \<Rightarrow> r < 1 | NotFinite \<Rightarrow> True)
      then Inl (RangeError ''AggregateVersion must be a positive safe integer'')
      else Inr value)"

definition quantity_default_scale :: nat where
  "quantity_default_scale = 3"

record quantity =
  scaled_value :: int
  unit_id :: string
  unit_code :: string

record quantity_wire =
  wire_value :: string
  wire_unit_id :: string
  wire_unit_code :: string

definition quantity_of :: "string \<Rightarrow> string \<Rightarrow> string \<Rightarrow> quantity result" where
  "quantity_of value uid code =
     (let normalized = trim code in
      if length normalized = 0 then Inl (TypeError ''Quantity requires a non-empty unit code.'')
      else and_then (parse_scaled value quantity_default_scale) (\<lambda>n.
           Inr \<lparr>scaled_value = n, unit_id = uid, unit_code = normalized\<rparr>))"

definition quantity_from_wire :: "quantity_wire \<Rightarrow> quantity result" where
  "quantity_from_wire w =
     and_then (parse_opaque_id (wire_unit_id w) ''UnitOfMeasure'') (\<lambda>uid.
     quantity_of (wire_value w) uid (wire_unit_code w))"

definition quantity_to_wire :: "quantity \<Rightarrow> quantity_wire" where
  "quantity_to_wire q =
     \<lparr>wire_value = format_scaled (scaled_value q) quantity_default_scale,
      wire_unit_id = unit_id q, wire_unit_code = unit_code q\<rparr>"

section \<open>Identity value objects (identity-value-objects.ts)\<close>

text \<open>\<open>/^[^\s@]+@[^\s@]+\.[^\s@]+$/\<close>\<close>

definition plain_char :: "char \<Rightarrow> bool" where
  "plain_char c \<longleftrightarrow> \<not> is_js_space c \<and> c \<noteq> CHR ''@''"

definition dotted_domain :: "string \<Rightarrow> bool" where
  "dotted_domain d \<longleftrightarrow>
     list_all plain_char d \<and> list_ex (\<lambda>i. 0 < i \<and> i + 1 < length d \<and> d ! i = CHR ''.'') [0..<length d]"

definition matches_email :: "string \<Rightarrow> bool" where
  "matches_email s \<longleftrightarrow>
     (let local = takeWhile plain_char s; rest = dropWhile plain_char s in
      local \<noteq> [] \<and> rest \<noteq> [] \<and> hd rest = CHR ''@'' \<and> dotted_domain (tl rest))"

definition parse_email :: "string \<Rightarrow> string result" where
  "parse_email value =
     (let normalized = to_lower (trim value) in
      if \<not> matches_email normalized then Inl (TypeError ''EmailAddress requires a valid email address'')
      else Inr normalized)"

text \<open>\<open>/[\s()-]/g\<close> removed, then \<open>/^\+[1-9]\d{1,14}$/\<close>\<close>

definition phone_separator :: "char \<Rightarrow> bool" where
  "phone_separator c \<longleftrightarrow> is_js_space c \<or> c \<in> set ''()-''"

definition matches_e164 :: "string \<Rightarrow> bool" where
  "matches_e164 s \<longleftrightarrow>
     (case s of p # d # r \<Rightarrow> p = CHR ''+'' \<and> is_digit d \<and> d \<noteq> CHR ''0'' \<and> list_all is_digit r
                             \<and> 1 \<le> length r \<and> length r \<le> 14
      | _ \<Rightarrow> False)"

definition parse_phone :: "string \<Rightarrow> string result" where
  "parse_phone value =
     (let normalized = filter (\<lambda>c. \<not> phone_separator c) (trim value) in
      if \<not> matches_e164 normalized then Inl (TypeError ''PhoneNumber requires E.164 format'')
      else Inr normalized)"

section \<open>Properties of Money\<close>

definition wf_money :: "money \<Rightarrow> bool" where
  "wf_money m \<longleftrightarrow> (case currency m of None \<Rightarrow> False | Some c \<Rightarrow> c \<in> set supported_currencies)"

lemma wf_money_currency:
  "wf_money m \<Longrightarrow> \<exists>c. currency m = Some c \<and> currency_policy c = Inr \<lparr>policy_code = Some c, minor_unit_scale = Some 2\<rparr>"
  by (auto simp: wf_money_def currency_policy_def split: option.splits)

lemma currency_policy_scale:
  "currency_policy c = Inr p \<Longrightarrow> minor_unit_scale p = Some s \<Longrightarrow> policy_code p = Some c \<and> c \<in> set supported_currencies \<and> s = 2"
  by (auto simp: currency_policy_def split: if_splits)

lemma money_of_wf:
  assumes "money_of a c = Inr m"
  shows "wf_money m" and "currency m = Some c" and "parse_scaled a 2 = Inr (minor_units m)"
proof -
  from assms obtain p n where p: "currency_policy c = Inr p" "parse_with_scale a (minor_unit_scale p) = Inr n"
    and m: "m = \<lparr>minor_units = n, currency = policy_code p\<rparr>"
    by (auto simp: money_of_def result_simps)
  then obtain s where s: "minor_unit_scale p = Some s" "parse_scaled a s = Inr n"
    by (auto simp: parse_with_scale_def split: option.splits)
  with currency_policy_scale [OF p(1)] m show "wf_money m" "currency m = Some c" "parse_scaled a 2 = Inr (minor_units m)"
    by (auto simp: wf_money_def)
qed

lemma money_to_wire_wf:
  assumes "wf_money m"
  shows "money_to_wire m = Inr \<lparr>wire_amount = format_scaled (minor_units m) 2, wire_currency = currency_key m\<rparr>"
  using wf_money_currency [OF assms] by (auto simp: money_to_wire_def currency_key_def)

lemma money_wire_roundtrip:
  assumes "wf_money m" and "money_to_wire m = Inr w"
  shows "money_from_wire w = Inr m"
proof -
  from wf_money_currency [OF assms(1)] obtain c where c: "currency m = Some c"
    "currency_policy c = Inr \<lparr>policy_code = Some c, minor_unit_scale = Some 2\<rparr>" by blast
  have w: "w = \<lparr>wire_amount = format_scaled (minor_units m) 2, wire_currency = c\<rparr>"
    using assms c by (simp add: money_to_wire_wf currency_key_def)
  show ?thesis
    using c by (simp add: w money_from_wire_def money_of_def parse_with_scale_def decimal_codec.parse_print)
qed

lemma money_wire_total: "wf_money m \<Longrightarrow> \<exists>w. money_to_wire m = Inr w"
  by (simp add: money_to_wire_wf)

lemma money_wire_inj:
  "wf_money m \<Longrightarrow> wf_money n \<Longrightarrow> money_to_wire m = money_to_wire n \<Longrightarrow> m = n"
  by (metis money_wire_roundtrip money_wire_total sum.inject(2))

lemma money_add_result:
  "money_add m n = (if currency n = currency m
     then Inr (m\<lparr>minor_units := minor_units m + minor_units n\<rparr>)
     else Inl (RangeError ''Cannot combine Money''))"
  by (cases m) (auto simp: money_add_def assert_same_currency_def)

lemma money_add_subtract:
  "money_add m n = Inr s \<Longrightarrow> money_subtract s n = Inr m"
  by (cases m) (auto simp: money_add_result money_subtract_def assert_same_currency_def split: if_splits)

lemma money_add_wf: "wf_money m \<Longrightarrow> money_add m n = Inr s \<Longrightarrow> wf_money s"
  by (auto simp: money_add_result wf_money_def split: if_splits)

lemma money_add_comm: "money_add m n = Inr s \<Longrightarrow> money_add n m = Inr s"
  by (cases m; cases n) (auto simp: money_add_result split: if_splits)

lemma money_multiply_total: "\<exists>r. money_multiply_by_rate m p = Inr r \<and> currency r = currency m"
  by (simp add: money_multiply_by_rate_def divide_half_up_nat)

lemma money_multiply_nearest:
  assumes "money_multiply_by_rate m p = Inr r"
  shows "2 * \<bar>minor_units r * 10 ^ 6 - minor_units m * scaled_rate p\<bar> \<le> 10 ^ 6"
proof -
  from assms obtain q where q: "divide_half_up (minor_units m * scaled_rate p) (10 ^ percentage_rate_scale) = Inr q"
    "minor_units r = q"
    by (auto simp: money_multiply_by_rate_def result_simps)
  show ?thesis using divide_half_up_nearest [OF q(1)] q(2) by (simp add: percentage_rate_scale_def)
qed

text \<open>C36: a Money of a supported currency has a wire form, and reading the wire form back gives
  the same Money; two such values with one wire form are equal.\<close>

theorem money_wire_faithful:
  assumes "wf_money m" and "wf_money n"
  shows "\<exists>w. money_to_wire m = Inr w \<and> money_from_wire w = Inr m \<and> (money_to_wire n = Inr w \<longleftrightarrow> n = m)"
  by (metis assms money_wire_total money_wire_roundtrip money_wire_inj)

theorem money_wire_faithful_witness:
  "\<exists>w. money_to_wire \<lparr>minor_units = -1205, currency = Some ''EGP''\<rparr> = Inr w
     \<and> money_from_wire w = Inr \<lparr>minor_units = -1205, currency = Some ''EGP''\<rparr>
     \<and> (money_to_wire \<lparr>minor_units = 1205, currency = Some ''USD''\<rparr> = Inr w
        \<longleftrightarrow> \<lparr>minor_units = 1205, currency = Some ''USD''\<rparr> = \<lparr>minor_units = -1205, currency = Some ''EGP''\<rparr>)"
  by (rule money_wire_faithful) (simp_all add: wf_money_def supported_currencies_def)

text \<open>multiplying by a rate never throws, keeps the currency, and gives the minor units nearest
  to the exact product: within half a minor unit, for either sign.\<close>

theorem money_rate_product_nearest:
  "\<exists>r. money_multiply_by_rate m p = Inr r \<and> currency r = currency m
     \<and> 2 * \<bar>minor_units r * 10 ^ 6 - minor_units m * scaled_rate p\<bar> \<le> 10 ^ 6"
  using money_multiply_total [of m p] money_multiply_nearest by blast

text \<open>\<open>fromMinorUnits\<close> refuses an unknown currency code, except the names of the members a
  plain object inherits: those give a Money without a currency, whose \<open>toWire\<close> throws.\<close>

theorem inherited_member_currency:
  "code \<in> set object_prototype_members \<Longrightarrow>
   money_from_minor_units n code = Inr \<lparr>minor_units = n, currency = None\<rparr>
   \<and> money_to_wire \<lparr>minor_units = n, currency = None\<rparr> = Inl (RangeError ''Unsupported currency code'')"
  by (auto simp: money_from_minor_units_def currency_policy_def money_to_wire_def currency_key_def
      supported_currencies_def object_prototype_members_def)

theorem inherited_member_currency_witness:
  "money_from_minor_units 100 ''toString'' = Inr \<lparr>minor_units = 100, currency = None\<rparr>
   \<and> money_to_wire \<lparr>minor_units = 100, currency = None\<rparr> = Inl (RangeError ''Unsupported currency code'')"
  by (rule inherited_member_currency) (simp add: object_prototype_members_def)

section \<open>Properties of Percentage and Quantity\<close>

lemma percentage_wire_roundtrip: "percentage_from_wire (percentage_to_wire p) = Inr p"
  by (simp add: percentage_from_wire_def percentage_from_rate_def percentage_to_wire_def
      decimal_codec.parse_print)

text \<open>The displayed percentage, read at its own scale, is the same scaled integer as the rate:
  it is exactly a hundred times the rate.\<close>

lemma percentage_display_exact:
  "parse_scaled (wire_display_percent (percentage_to_wire p)) 4 = Inr (scaled_rate p)"
  by (simp add: percentage_to_wire_def percentage_rate_scale_def decimal_codec.parse_print)

definition wf_quantity :: "quantity \<Rightarrow> bool" where
  "wf_quantity q \<longleftrightarrow> unit_id q \<noteq> [] \<and> trim (unit_id q) = unit_id q
                  \<and> unit_code q \<noteq> [] \<and> trim (unit_code q) = unit_code q"

lemma quantity_from_wire_wf: "quantity_from_wire w = Inr q \<Longrightarrow> wf_quantity q"
  by (auto simp: quantity_from_wire_def parse_opaque_id_def quantity_of_def wf_quantity_def
      result_simps Let_def split: if_splits)

lemma quantity_wire_roundtrip: "wf_quantity q \<Longrightarrow> quantity_from_wire (quantity_to_wire q) = Inr q"
  by (simp add: quantity_from_wire_def quantity_to_wire_def parse_opaque_id_def quantity_of_def
      wf_quantity_def decimal_codec.parse_print)

section \<open>Properties of the identity value objects\<close>

lemma lower_char_idem [simp]: "lower_char (lower_char c) = lower_char c"
  by (simp add: lower_char_def Let_def of_char_of)

lemma lower_char_space [simp]: "is_js_space (lower_char c) = is_js_space c"
  by (auto simp: lower_char_def is_js_space_def Let_def of_char_of)

lemma to_lower_idem [simp]: "to_lower (to_lower s) = to_lower s"
  by (simp add: to_lower_def)

lemma trim_to_lower: "trim (to_lower (trim s)) = to_lower (trim s)"
proof (rule trim_id)
  show "to_lower (trim s) = [] \<or>
    (\<not> is_js_space (hd (to_lower (trim s))) \<and> \<not> is_js_space (last (to_lower (trim s))))"
    using trim_ends [of s] by (cases "trim s = []") (simp_all add: to_lower_def hd_map last_map)
qed

lemma parse_email_idem: "parse_email v = Inr e \<Longrightarrow> parse_email e = Inr e"
  by (auto simp: parse_email_def Let_def trim_to_lower split: if_splits)

lemma parse_phone_e164: "parse_phone v = Inr p \<Longrightarrow> matches_e164 p"
  by (auto simp: parse_phone_def Let_def split: if_splits)

lemma digit_not_separator: "is_digit c \<Longrightarrow> \<not> phone_separator c"
  using digit_not_space by (auto simp: phone_separator_def is_digit_def)

lemma e164_no_separator:
  assumes "matches_e164 p"
  shows "\<forall>c \<in> set p. \<not> phone_separator c" and "p \<noteq> []"
proof -
  from assms obtain d r where p: "p = CHR ''+'' # d # r" "is_digit d" "list_all is_digit r"
    by (auto simp: matches_e164_def split: list.splits)
  have "\<not> phone_separator (CHR ''+'')" by (simp add: phone_separator_def is_js_space_def)
  with p show "\<forall>c \<in> set p. \<not> phone_separator c" "p \<noteq> []"
    by (auto simp: list_all_iff digit_not_separator)
qed

lemma parse_phone_idem: "parse_phone v = Inr p \<Longrightarrow> parse_phone p = Inr p"
proof -
  assume "parse_phone v = Inr p"
  then have m: "matches_e164 p" by (rule parse_phone_e164)
  note sep = e164_no_separator [OF m]
  have space: "c \<in> set p \<Longrightarrow> \<not> is_js_space c" for c
    using sep(1) by (auto simp: phone_separator_def)
  have "trim p = p"
    by (rule trim_id) (simp add: space sep(2))
  moreover have "filter (\<lambda>c. \<not> phone_separator c) p = p"
    using sep(1) by (simp add: filter_id_conv)
  ultimately show ?thesis using m by (simp add: parse_phone_def)
qed

end
