(* ===== verification/Pos_Money.thy ===== *)
theory Pos_Money
  imports Domain_Values
begin

text \<open>
  The till's money arithmetic: \<open>pos-electron/electron/money.ts\<close> (cents as safe integers) and
  \<open>pos-electron/electron/money-codec.ts\<close> (minor units of the SQLite columns through
  \<open>domain-core\<close>). A \<open>MoneyInput\<close> is the string \<open>String(value)\<close> both modules start from.

  The sums and products of money.ts are computed on doubles and then checked with
  \<open>Number.isSafeInteger\<close>. Rounding to a double is monotone and exact on the safe range, so
  the check has the outcome it has on the exact integers, and an accepted result is exact.
\<close>

section \<open>money.ts\<close>

text \<open>\<open>/^([+-]?)(\d+)(?:\.(\d*))?$/\<close>\<close>

definition strip_sign :: "string \<Rightarrow> string \<times> string" where
  "strip_sign s =
     (case s of [] \<Rightarrow> ([], []) | c # r \<Rightarrow> if c = CHR ''+'' \<or> c = CHR ''-'' then ([c], r) else ([], s))"

definition match_cents_fraction :: "string \<Rightarrow> string option" where
  "match_cents_fraction s =
     (case s of
        [] \<Rightarrow> Some []
      | c # f \<Rightarrow> if c = CHR ''.'' \<and> list_all is_digit f then Some f else None)"

definition match_money :: "string \<Rightarrow> (string \<times> string \<times> string) option" where
  "match_money s =
     (let (sign, r) = strip_sign s; w = takeWhile is_digit r in
      if w = [] then None
      else (case match_cents_fraction (dropWhile is_digit r) of
              None \<Rightarrow> None
            | Some f \<Rightarrow> Some (sign, w, f)))"

definition to_cents :: "string \<Rightarrow> int result" where
  "to_cents value =
     (case match_money (trim value) of
        None \<Rightarrow> Inl (TypeError ''Money value must be a plain decimal'')
      | Some (sign_text, whole_text, fraction) \<Rightarrow>
          (let sign = (if sign_text = ''-'' then -1 else 1);
               whole = int (digits_val whole_text);
               cents = int (digits_val (take 2 (fraction @ ''00'')));
               rounds_up = (5 \<le> (if 2 < length fraction then digit_val (fraction ! 2) else 0));
               r = sign * (whole * 100 + cents + (if rounds_up then 1 else 0))
           in if \<not> safe_int r then Inl (RangeError ''Money value exceeds the safe cents range'')
              else Inr r))"

definition format_money :: "string \<Rightarrow> string result" where
  "format_money value =
     and_then (to_cents value) (\<lambda>cents.
       let sign = (if cents < 0 then ''-'' else []); absolute = nat \<bar>cents\<bar> in
       Inr (sign @ nat_string (absolute div 100) @ ''.''
            @ pad_start 2 (CHR ''0'') (nat_string (absolute mod 100))))"

definition line_cents :: "string \<Rightarrow> js_number \<Rightarrow> int result" where
  "line_cents unit_value quantity =
     (case quantity of
        NotFinite \<Rightarrow> Inl (TypeError ''Money quantity must be a safe integer'')
      | Num q \<Rightarrow>
          if \<not> is_safe_integer quantity then Inl (TypeError ''Money quantity must be a safe integer'')
          else and_then (to_cents unit_value) (\<lambda>c.
            let r = c * \<lfloor>q\<rfloor> in
            if \<not> safe_int r then Inl (RangeError ''Money line exceeds the safe cents range'')
            else Inr r))"

definition pos_same_money :: "string \<Rightarrow> string \<Rightarrow> bool result" where
  "pos_same_money left right =
     and_then (to_cents left) (\<lambda>l. and_then (to_cents right) (\<lambda>r. Inr (l = r)))"

section \<open>money-codec.ts\<close>

definition pos_currency :: string where
  "pos_currency = ''EGP''"

definition decimal_to_minor_units :: "string \<Rightarrow> int result" where
  "decimal_to_minor_units amount =
     and_then (money_of amount pos_currency) (\<lambda>m.
       if minor_units m > max_safe_integer \<or> minor_units m < - max_safe_integer
       then Inl (RangeError ''Money value exceeds the safe SQLite integer range'')
       else Inr (minor_units m))"

text \<open>\<open>BigInt(minorUnits)\<close> throws on a number that is not an integer.\<close>

definition minor_units_to_decimal :: "js_number \<Rightarrow> string result" where
  "minor_units_to_decimal n =
     (case n of
        NotFinite \<Rightarrow> Inl (RangeError ''cannot be converted to a BigInt'')
      | Num q \<Rightarrow>
          if snd (quotient_of q) \<noteq> 1 then Inl (RangeError ''cannot be converted to a BigInt'')
          else and_then (money_from_minor_units \<lfloor>q\<rfloor> pos_currency) (\<lambda>m.
               and_then (money_to_wire m) (\<lambda>w. Inr (wire_amount w))))"

section \<open>The two codecs agree\<close>

lemma match_fraction_cents: "match_fraction t = Some f \<Longrightarrow> match_cents_fraction t = Some f"
  by (auto simp: match_fraction_def match_cents_fraction_def split: list.splits if_splits)

lemma match_money_of_decimal:
  assumes "match_decimal s = Some (neg, w, f)"
  shows "\<exists>sg. match_money s = Some (sg, w, f) \<and> (sg = ''-'' \<longleftrightarrow> neg)"
proof -
  obtain r where r: "strip_minus s = (neg, r)" "w = takeWhile is_digit r" "w \<noteq> []"
    "match_fraction (dropWhile is_digit r) = Some f"
    using assms by (auto simp: match_decimal_def Let_def split: if_splits option.splits prod.splits)
  have f: "match_cents_fraction (dropWhile is_digit r) = Some f"
    using r(4) by (rule match_fraction_cents)
  have "\<exists>sg. strip_sign s = (sg, r) \<and> (sg = ''-'' \<longleftrightarrow> neg)"
  proof (cases s)
    case Nil
    then show ?thesis using r by (simp add: strip_minus_def)
  next
    case (Cons c t)
    show ?thesis
    proof (cases "c = CHR ''+''")
      case True
      then have "r = s" using Cons r(1) by (simp add: strip_minus_def)
      then have "w = []" using True Cons r(2) by simp
      then show ?thesis using r(3) by simp
    next
      case False
      then show ?thesis using Cons r(1) by (auto simp: strip_minus_def strip_sign_def split: if_splits)
    qed
  qed
  then show ?thesis using r(2,3) f by (auto simp: match_money_def Let_def)
qed

lemma cents_groups:
  "scale_groups (neg, w, f) 2 =
    (if neg then -1 else 1) *
      (int (digits_val w) * 100 + int (digits_val (take 2 (f @ ''00'')))
       + (if 5 \<le> (if 2 < length f then digit_val (f ! 2) else 0) then 1 else 0))"
proof -
  consider "f = []" | a where "f = [a]" | a b where "f = [a, b]" | a b c t where "f = a # b # c # t"
    by (metis list.exhaust)
  then show ?thesis
    by cases (simp_all add: scale_groups_def Let_def numeral_2_eq_2)
qed

text \<open>A string both patterns accept has the same cents in both modules, with the same range.\<close>

lemma codecs_agree:
  assumes "match_decimal (trim s) \<noteq> None"
  shows "decimal_to_minor_units s = Inr c \<longleftrightarrow> to_cents s = Inr c"
proof -
  obtain neg w f where g: "match_decimal (trim s) = Some (neg, w, f)" using assms by auto
  then obtain sg where sg: "match_money (trim s) = Some (sg, w, f)" "sg = ''-'' \<longleftrightarrow> neg"
    using match_money_of_decimal by blast
  let ?v = "scale_groups (neg, w, f) 2"
  have p: "parse_scaled s 2 = Inr ?v" using g by (simp add: parse_scaled_def)
  have d: "decimal_to_minor_units s = Inr c \<longleftrightarrow> c = ?v \<and> safe_int ?v"
    by (auto simp: decimal_to_minor_units_def money_of_def pos_currency_def currency_policy_def
        supported_currencies_def parse_with_scale_def p safe_int_def)
  have "to_cents s = (if safe_int ?v then Inr ?v else Inl (RangeError ''Money value exceeds the safe cents range''))"
    unfolding to_cents_def using sg
    by (cases neg) (simp_all add: cents_groups)
  then show ?thesis using d by auto
qed

lemma to_cents_safe: "to_cents s = Inr c \<Longrightarrow> safe_int c"
  by (auto simp: to_cents_def Let_def split: option.splits if_splits)

lemma line_cents_exact:
  assumes "line_cents u (Num (of_int q)) = Inr r"
  shows "\<exists>c. to_cents u = Inr c \<and> r = c * q \<and> safe_int r"
  using assms by (auto simp: line_cents_def result_simps Let_def split: if_splits)

lemma format_money_shape:
  assumes "to_cents s = Inr c"
  shows "format_money s = Inr (format_scaled c 2)"
  using assms by (simp add: format_money_def Let_def format_scaled_groups)

lemma match_decimal_format: "match_decimal (trim (format_scaled c 2)) \<noteq> None"
  using parse_format_scaled [of c 2] by (auto simp: parse_scaled_def split: option.splits)

lemma minor_units_roundtrip:
  assumes "safe_int c"
  shows "minor_units_to_decimal (Num (of_int c)) = Inr (format_scaled c 2)"
    and "decimal_to_minor_units (format_scaled c 2) = Inr c"
    and "to_cents (format_scaled c 2) = Inr c"
proof -
  show "minor_units_to_decimal (Num (of_int c)) = Inr (format_scaled c 2)"
    by (simp add: minor_units_to_decimal_def quotient_of_int money_from_minor_units_def
        currency_policy_def supported_currencies_def pos_currency_def money_to_wire_def currency_key_def)
  show d: "decimal_to_minor_units (format_scaled c 2) = Inr c"
    using assms
    by (auto simp: decimal_to_minor_units_def money_of_def pos_currency_def currency_policy_def
        supported_currencies_def parse_with_scale_def decimal_codec.parse_print safe_int_def)
  show "to_cents (format_scaled c 2) = Inr c"
    using codecs_agree [OF match_decimal_format] d by blast
qed

text \<open>C37: the till's two money codecs agree. A decimal string that the domain codec's pattern accepts
  is converted to the same cents, or refused as unsafe, by both.\<close>

theorem pos_codecs_agree:
  assumes "match_decimal (trim s) \<noteq> None"
  shows "decimal_to_minor_units s = Inr c \<longleftrightarrow> to_cents s = Inr c"
  using assms by (rule codecs_agree)

theorem pos_codecs_agree_witness:
  "match_decimal (trim '' 12.345 '') \<noteq> None
   \<and> (decimal_to_minor_units '' 12.345 '' = Inr 1235 \<longleftrightarrow> to_cents '' 12.345 '' = Inr 1235)"
proof -
  have h: "match_decimal (trim '' 12.345 '') \<noteq> None"
    by (simp add: trim_def is_js_space_def match_decimal_def strip_minus_def match_fraction_def is_digit_def Let_def)
  show ?thesis using h pos_codecs_agree [OF h] by blast
qed

text \<open>formatting money is canonical: the text \<open>formatMoney\<close> prints reads back as the same cents in
  both modules, and formatting it again gives the same text.\<close>

theorem format_money_canonical:
  assumes "format_money s = Inr t"
  shows "to_cents t = to_cents s \<and> decimal_to_minor_units t = to_cents s \<and> format_money t = Inr t"
proof -
  obtain c where c: "to_cents s = Inr c" using assms by (auto simp: format_money_def result_simps)
  with assms have t: "t = format_scaled c 2" by (simp add: format_money_shape)
  have r: "to_cents t = Inr c" "decimal_to_minor_units t = Inr c"
    using minor_units_roundtrip(2,3) [OF to_cents_safe [OF c]] by (simp_all add: t)
  show ?thesis using r c format_money_shape [OF r(1)] t by simp
qed

theorem format_money_canonical_witness:
  "to_cents ''-0.50'' = to_cents ''-0.495'' \<and> decimal_to_minor_units ''-0.50'' = to_cents ''-0.495''
   \<and> format_money ''-0.50'' = Inr ''-0.50''"
proof (rule format_money_canonical)
  show "format_money ''-0.495'' = Inr ''-0.50''"
    by code_simp
qed

end
