(* ===== verification/Decimal_Js.thy ===== *)
theory Decimal_Js
  imports Domain_Decimal
begin

text \<open>
  The arithmetic of the \<open>Prisma.Decimal\<close> package (decimal.js), which is not part of the
  repository. It is a parameter of every definition that computes with it: a record of the
  operations on finite values. The locale \<open>decimal_js\<close> names what the code relies on, as the
  package documents it: \<open>plus\<close>, \<open>minus\<close>, \<open>times\<close> and \<open>div\<close> return the exact result when it
  has at most 20 significant digits (the default \<open>precision\<close>) and a rounded one with its sign
  otherwise (a quotient then being off by less than a unit of its twentieth digit), and
  \<open>toDecimalPlaces\<close> rounds half away from zero (the default \<open>rounding\<close>, and the one the backend asks for).

  A finite Decimal is the rational it denotes. A value built from a JavaScript number is the
  value of the number's decimal text, as the package's constructor reads it.
\<close>

record dec_lib =
  dec_plus :: "rat \<Rightarrow> rat \<Rightarrow> rat"
  dec_minus :: "rat \<Rightarrow> rat \<Rightarrow> rat"
  dec_mul :: "rat \<Rightarrow> rat \<Rightarrow> rat"
  dec_div :: "rat \<Rightarrow> rat \<Rightarrow> rat"
  dec_places :: "nat \<Rightarrow> rat \<Rightarrow> rat"

definition round_places :: "nat \<Rightarrow> rat \<Rightarrow> rat" where
  "round_places n x = sgn x * of_int \<lfloor>\<bar>x\<bar> * 10 ^ n + 1 / 2\<rfloor> / 10 ^ n"

text \<open>At most 20 significant digits: an integer below \<open>10 ^ 20\<close>, shifted.\<close>

definition fits20 :: "rat \<Rightarrow> bool" where
  "fits20 x \<longleftrightarrow> (\<exists>(m::int) (k::nat). \<bar>m\<bar> < 10 ^ 20 \<and> (x = of_int m * 10 ^ k \<or> x * 10 ^ k = of_int m))"

locale decimal_js =
  fixes L :: dec_lib
  assumes plus_exact: "fits20 (a + b) \<Longrightarrow> dec_plus L a b = a + b"
    and minus_exact: "fits20 (a - b) \<Longrightarrow> dec_minus L a b = a - b"
    and mul_exact: "fits20 (a * b) \<Longrightarrow> dec_mul L a b = a * b"
    and div_exact: "b \<noteq> 0 \<Longrightarrow> fits20 (a / b) \<Longrightarrow> dec_div L a b = a / b"
    and mul_nonneg: "0 \<le> a * b \<Longrightarrow> 0 \<le> dec_mul L a b"
    and div_nonneg: "0 \<le> a \<Longrightarrow> 0 < b \<Longrightarrow> 0 \<le> dec_div L a b"
    and div_close: "b \<noteq> 0 \<Longrightarrow> \<bar>dec_div L a b - a / b\<bar> \<le> \<bar>a / b\<bar> / 10 ^ 19"
    and places: "dec_places L n a = round_places n a"

section \<open>Amounts with a fixed number of decimal places\<close>

definition has_places :: "nat \<Rightarrow> rat \<Rightarrow> bool" where
  "has_places n x \<longleftrightarrow> x * 10 ^ n \<in> \<int>"

named_theorems places_intro "closure of the amounts with a number of decimal places"

lemma has_places_0 [places_intro, simp]: "has_places n 0"
  by (simp add: has_places_def)

lemma has_places_add [places_intro]: "has_places n x \<Longrightarrow> has_places n y \<Longrightarrow> has_places n (x + y)"
  by (simp add: has_places_def distrib_right)

lemma has_places_diff [places_intro]: "has_places n x \<Longrightarrow> has_places n y \<Longrightarrow> has_places n (x - y)"
  by (simp add: has_places_def left_diff_distrib)

lemma has_places_minus [places_intro]: "has_places n x \<Longrightarrow> has_places n (- x)"
  by (simp add: has_places_def)

lemma has_places_mult_int [places_intro]: "has_places n x \<Longrightarrow> has_places n (x * of_int k)"
proof -
  assume h: "has_places n x"
  have "x * of_int k * 10 ^ n = (x * 10 ^ n) * of_int k" by simp
  then show ?thesis using h by (metis has_places_def Ints_mult Ints_of_int)
qed

lemma has_places_of_int [places_intro, simp]: "has_places n (of_int k)"
  by (simp add: has_places_def)

lemma has_places_sum_list [places_intro]:
  "(\<And>x. x \<in> set xs \<Longrightarrow> has_places n (f x)) \<Longrightarrow> has_places n (sum_list (map f xs))"
  by (induction xs) (auto intro: places_intro)

lemma has_places_round [places_intro, simp]: "has_places n (round_places n x)"
proof -
  have "sgn x \<in> \<int>" by (simp add: sgn_if)
  moreover have "round_places n x * 10 ^ n = sgn x * of_int \<lfloor>\<bar>x\<bar> * 10 ^ n + 1 / 2\<rfloor>"
    by (simp add: round_places_def)
  ultimately show ?thesis by (simp add: has_places_def)
qed

lemma round_places_id: "has_places n x \<Longrightarrow> round_places n x = x"
proof -
  assume "has_places n x"
  then obtain m :: int where m: "x * 10 ^ n = of_int m" by (auto simp: has_places_def elim: Ints_cases)
  have a: "\<bar>x\<bar> * 10 ^ n = of_int \<bar>m\<bar>"
    using arg_cong [OF m, of abs] by (simp add: abs_mult)
  have "\<lfloor>(of_int \<bar>m\<bar> :: rat) + 1 / 2\<rfloor> = \<bar>m\<bar>" by linarith
  then have "round_places n x = sgn x * (of_int \<bar>m\<bar> / 10 ^ n)" by (simp add: round_places_def a)
  also have "of_int \<bar>m\<bar> / 10 ^ n = \<bar>x\<bar>" using a by (simp add: field_simps)
  finally show ?thesis by (simp only: mult_sgn_abs)
qed

lemma round_places_idem [simp]: "round_places n (round_places n x) = round_places n x"
  by (rule round_places_id) simp

lemma round_places_0 [simp]: "round_places n 0 = 0"
  by (simp add: round_places_def)

lemma round_places_uminus: "round_places n (- x) = - round_places n x"
  by (simp add: round_places_def)

lemma round_places_nearest: "\<bar>round_places n x - x\<bar> \<le> 1 / (2 * 10 ^ n)"
proof -
  let ?y = "\<bar>x\<bar> * 10 ^ n"
  let ?f = "of_int \<lfloor>?y + 1 / 2\<rfloor> :: rat"
  have f: "\<bar>?f - ?y\<bar> \<le> 1 / 2" by linarith
  have "round_places n x - x = sgn x * ((?f - ?y) / 10 ^ n)"
  proof -
    have "sgn x * ((?f - ?y) / 10 ^ n) = sgn x * (?f / 10 ^ n) - sgn x * \<bar>x\<bar>"
      by (simp add: diff_divide_distrib right_diff_distrib)
    then show ?thesis by (simp only: mult_sgn_abs) (simp add: round_places_def)
  qed
  then have "\<bar>round_places n x - x\<bar> \<le> \<bar>?f - ?y\<bar> / 10 ^ n"
    by (simp add: abs_mult abs_sgn_eq)
  also have "\<dots> \<le> (1 / 2) / 10 ^ n" using f by (intro divide_right_mono) simp_all
  finally show ?thesis by simp
qed

lemma round_places_nonneg: "0 \<le> x \<Longrightarrow> 0 \<le> round_places n x"
proof -
  assume x: "0 \<le> x"
  then have "0 \<le> \<bar>x\<bar> * 10 ^ n + 1 / 2" by simp
  then have "(0::rat) \<le> of_int \<lfloor>\<bar>x\<bar> * 10 ^ n + 1 / 2\<rfloor>" by (simp only: zero_le_floor of_int_0_le_iff)
  moreover have "0 \<le> sgn x" using x by (simp add: sgn_if)
  ultimately show ?thesis unfolding round_places_def by (intro divide_nonneg_nonneg mult_nonneg_nonneg) simp_all
qed

text \<open>An amount of cents below ten to the 18 fits: so does one with any number of places, when it
  is small enough.\<close>

lemma fits20_places: "has_places n x \<Longrightarrow> \<bar>x\<bar> * 10 ^ n < 10 ^ 20 \<Longrightarrow> fits20 x"
proof -
  assume p: "has_places n x" and b: "\<bar>x\<bar> * 10 ^ n < 10 ^ 20"
  from p obtain m :: int where m: "x * 10 ^ n = of_int m" by (auto simp: has_places_def elim: Ints_cases)
  have "\<bar>of_int m :: rat\<bar> = \<bar>x\<bar> * 10 ^ n" by (simp add: m [symmetric] abs_mult)
  with b have "(of_int \<bar>m\<bar> :: rat) < of_int (10 ^ 20)" by simp
  then have "\<bar>m\<bar> < 10 ^ 20" by (simp only: of_int_less_iff)
  with m show ?thesis by (auto simp: fits20_def)
qed

lemma fits20_0 [simp]: "fits20 0"
  by (rule fits20_places [of 0]) simp_all

section \<open>An instance of the interface\<close>

text \<open>
  Rounding half up to 20 significant digits, and the operations that round their exact result
  so. The search range always holds the shift that leaves 20 digits before the point.
\<close>

definition shift_for :: "rat \<Rightarrow> int option" where
  "shift_for x =
     (let (p, q) = quotient_of \<bar>x\<bar>; b = int (length (nat_string (nat p)) + length (nat_string (nat q))) + 20
      in find (\<lambda>k. 10 ^ 19 \<le> \<bar>x\<bar> * 10 powi k \<and> \<bar>x\<bar> * 10 powi k < 10 ^ 20) [-b..b])"

definition round20 :: "rat \<Rightarrow> rat" where
  "round20 x =
     (case shift_for x of
        None \<Rightarrow> x
      | Some k \<Rightarrow> sgn x * of_int \<lfloor>\<bar>x\<bar> * 10 powi k + 1 / 2\<rfloor> * 10 powi (- k))"

definition dec20 :: dec_lib where
  "dec20 = \<lparr>dec_plus = (\<lambda>a b. round20 (a + b)), dec_minus = (\<lambda>a b. round20 (a - b)),
            dec_mul = (\<lambda>a b. round20 (a * b)), dec_div = (\<lambda>a b. round20 (a / b)),
            dec_places = round_places\<rparr>"

lemma shift_for_bounds:
  "shift_for x = Some k \<Longrightarrow> 10 ^ 19 \<le> \<bar>x\<bar> * 10 powi k \<and> \<bar>x\<bar> * 10 powi k < 10 ^ 20"
  by (auto simp: shift_for_def Let_def split: prod.splits dest!: find_Some_iff_set)

lemma round20_integral:
  assumes k: "shift_for x = Some k" and i: "x * 10 powi k = of_int m"
  shows "round20 x = x"
proof -
  have a: "\<bar>x\<bar> * 10 powi k = of_int \<bar>m\<bar>"
    using arg_cong [OF i, of abs] by (simp add: abs_mult power_int_abs [symmetric])
  have "\<lfloor>(of_int \<bar>m\<bar> :: rat) + 1 / 2\<rfloor> = \<bar>m\<bar>" by linarith
  then have "round20 x = sgn x * (\<bar>x\<bar> * 10 powi k) * 10 powi (- k)"
    unfolding round20_def k option.case a by simp
  also have "\<dots> = sgn x * \<bar>x\<bar>" by (simp add: power_int_minus)
  finally show ?thesis by (simp only: mult_sgn_abs)
qed

lemma fits20_shift_integral:
  assumes f: "fits20 x" and k: "shift_for x = Some k"
  shows "\<exists>m. x * 10 powi k = of_int m"
proof -
  from f obtain m :: int and e :: int where m: "\<bar>m\<bar> < 10 ^ 20" "x = of_int m * 10 powi e"
  proof -
    from f obtain m :: int and j :: nat where j: "\<bar>m\<bar> < 10 ^ 20"
      "x = of_int m * 10 ^ j \<or> x * 10 ^ j = of_int m" by (auto simp: fits20_def)
    then have "x = of_int m * 10 powi (int j) \<or> x = of_int m * 10 powi (- int j)"
      by (auto simp: power_int_minus field_simps)
    with j(1) that show thesis by blast
  qed
  have x: "x * 10 powi k = of_int m * 10 powi (e + k)"
    using m(2) by (simp add: power_int_add)
  have "0 \<le> e + k"
  proof (rule ccontr)
    assume "\<not> 0 \<le> e + k"
    then have "(10::rat) powi (e + k) \<le> 10 powi (-1)" by (intro power_int_increasing) simp_all
    then have p: "(10::rat) powi (e + k) \<le> 1 / 10" by (simp add: power_int_minus)
    have "\<bar>x\<bar> * 10 powi k = of_int \<bar>m\<bar> * 10 powi (e + k)"
      using arg_cong [OF x, of abs] by (simp add: abs_mult power_int_abs [symmetric])
    also have "\<dots> \<le> of_int \<bar>m\<bar> * (1 / 10)" by (rule mult_left_mono [OF p]) simp
    also have "\<dots> < 10 ^ 20 * (1 / 10)"
    proof -
      have "(of_int \<bar>m\<bar> :: rat) < of_int (10 ^ 20)" using m(1) by (simp only: of_int_less_iff)
      then show ?thesis by simp
    qed
    finally show False using shift_for_bounds [OF k] by simp
  qed
  then have "(10::rat) powi (e + k) = of_int (10 ^ nat (e + k))"
    by (simp add: power_int_def)
  then have "x * 10 powi k = of_int (m * 10 ^ nat (e + k))" using x by simp
  then show ?thesis by blast
qed

lemma round20_exact: "fits20 x \<Longrightarrow> round20 x = x"
proof (cases "shift_for x")
  case None
  then show ?thesis by (simp add: round20_def)
next
  case (Some k)
  assume "fits20 x"
  then obtain m where "x * 10 powi k = of_int m" using fits20_shift_integral Some by blast
  then show ?thesis by (rule round20_integral [OF Some])
qed

lemma round20_nonneg: "0 \<le> x \<Longrightarrow> 0 \<le> round20 x"
proof (cases "shift_for x")
  case (Some k)
  assume x: "0 \<le> x"
  then have "0 \<le> \<bar>x\<bar> * 10 powi k + 1 / 2" by simp
  then have "(0::rat) \<le> of_int \<lfloor>\<bar>x\<bar> * 10 powi k + 1 / 2\<rfloor>" by (simp only: zero_le_floor of_int_0_le_iff)
  moreover have "0 \<le> sgn x" using x by (simp add: sgn_if)
  ultimately show ?thesis unfolding round20_def Some option.case by (intro mult_nonneg_nonneg) simp_all
qed (simp add: round20_def)

lemma round20_close: "\<bar>round20 x - x\<bar> \<le> \<bar>x\<bar> / 10 ^ 19"
proof (cases "shift_for x")
  case (Some k)
  let ?p = "(10::rat) powi k" and ?y = "\<bar>x\<bar> * 10 powi k"
  let ?f = "of_int \<lfloor>?y + 1 / 2\<rfloor> :: rat"
  have p: "0 < ?p" by simp
  have f: "\<bar>?f - ?y\<bar> \<le> 1 / 2" by linarith
  have xs: "x = sgn x * \<bar>x\<bar>" by (simp only: mult_sgn_abs)
  have "round20 x = sgn x * (?f / ?p)"
    unfolding round20_def Some option.case by (simp only: power_int_minus divide_inverse mult.assoc)
  moreover have y: "?y / ?p = \<bar>x\<bar>" using p by simp
  moreover have "sgn x * ((?f - ?y) / ?p) = sgn x * (?f / ?p) - sgn x * (?y / ?p)"
    by (simp only: right_diff_distrib diff_divide_distrib)
  ultimately have "round20 x - x = sgn x * ((?f - ?y) / ?p)" using xs by simp
  then have "\<bar>round20 x - x\<bar> \<le> \<bar>?f - ?y\<bar> / ?p" using p by (simp add: abs_mult abs_sgn_eq)
  also have "\<dots> \<le> (?y / 10 ^ 19) / ?p"
  proof (rule divide_right_mono)
    have "1 / 2 \<le> ?y / 10 ^ 19" using shift_for_bounds [OF Some] by simp
    with f show "\<bar>?f - ?y\<bar> \<le> ?y / 10 ^ 19" by linarith
  qed (use p in simp)
  also have "\<dots> = (?y / ?p) / 10 ^ 19" by simp
  also have "\<dots> = \<bar>x\<bar> / 10 ^ 19" by (simp only: y)
  finally show ?thesis .
qed (simp add: round20_def)

interpretation dec20: decimal_js dec20
  by unfold_locales
    (simp_all only: dec20_def dec_lib.simps round20_exact round20_nonneg round20_close divide_nonneg_pos)


text \<open>Exact operations satisfy the laws as well, and evaluate quickly.\<close>

definition dec_exact :: dec_lib where
  "dec_exact = \<lparr>dec_plus = (\<lambda>a b. a + b), dec_minus = (\<lambda>a b. a - b), dec_mul = (\<lambda>a b. a * b),
                dec_div = (\<lambda>a b. a / b), dec_places = round_places\<rparr>"

interpretation dec_exact: decimal_js dec_exact
  by unfold_locales (simp_all add: dec_exact_def)

end
