(* ===== verification/Backend_Money.thy ===== *)
theory Backend_Money
  imports Decimal_Js
begin

text \<open>
  \<open>backend/src/common/money.ts\<close>. A \<open>MoneyInput\<close> is a \<open>js_number\<close>: the decimal value the
  package's constructor reads, or \<open>NaN\<close> or an infinity. The services call these functions on
  values of numeric columns and validated fields, which are finite; \<open>moneyq\<close> and the other
  functions on rationals are what the code computes then.
\<close>

definition money_scale :: nat where
  "money_scale = 2"

definition decimal :: "js_number \<Rightarrow> rat result" where
  "decimal value = (case value of NotFinite \<Rightarrow> Inl (TypeError ''Money value must be finite'') | Num r \<Rightarrow> Inr r)"

definition money :: "dec_lib \<Rightarrow> js_number \<Rightarrow> rat result" where
  "money L value = and_then (decimal value) (\<lambda>r. Inr (dec_places L money_scale r))"

text \<open>\<open>toFixed(2)\<close> of a value with two places: the digits of its hundredths.\<close>

definition money_string :: "dec_lib \<Rightarrow> js_number \<Rightarrow> string result" where
  "money_string L value = and_then (money L value) (\<lambda>r. Inr (format_scaled \<lfloor>r * 10 ^ money_scale\<rfloor> money_scale))"

text \<open>\<open>toFixed(n)\<close>.\<close>

definition to_fixed :: "dec_lib \<Rightarrow> nat \<Rightarrow> rat \<Rightarrow> string" where
  "to_fixed L n r = format_scaled \<lfloor>dec_places L n r * 10 ^ n\<rfloor> n"

definition same_money :: "dec_lib \<Rightarrow> js_number \<Rightarrow> js_number \<Rightarrow> bool result" where
  "same_money L left right = and_then (money L left) (\<lambda>l. and_then (money L right) (\<lambda>r. Inr (l = r)))"

definition sum_money :: "dec_lib \<Rightarrow> js_number list \<Rightarrow> rat result" where
  "sum_money L values =
     and_then (fold_result (\<lambda>v total. and_then (decimal v) (\<lambda>r. Inr (dec_plus L total r))) values 0)
       (\<lambda>total. money L (Num total))"

definition line_money :: "dec_lib \<Rightarrow> js_number \<Rightarrow> js_number \<Rightarrow> rat result" where
  "line_money L unit quantity =
     (case quantity of
        NotFinite \<Rightarrow> Inl (TypeError ''Money quantity must be a safe integer'')
      | Num q \<Rightarrow>
          if \<not> is_safe_integer quantity then Inl (TypeError ''Money quantity must be a safe integer'')
          else and_then (decimal unit) (\<lambda>u. money L (Num (dec_mul L u q))))"

section \<open>On finite values\<close>

definition moneyq :: "dec_lib \<Rightarrow> rat \<Rightarrow> rat" where
  "moneyq L r = dec_places L money_scale r"

definition sum_moneyq :: "dec_lib \<Rightarrow> rat list \<Rightarrow> rat" where
  "sum_moneyq L rs = moneyq L (foldl (dec_plus L) 0 rs)"

definition line_moneyq :: "dec_lib \<Rightarrow> rat \<Rightarrow> int \<Rightarrow> rat" where
  "line_moneyq L u q = moneyq L (dec_mul L u (of_int q))"

lemma money_finite [simp]: "money L (Num r) = Inr (moneyq L r)"
  by (simp add: money_def decimal_def moneyq_def)

lemma same_money_finite [simp]: "same_money L (Num a) (Num b) = Inr (moneyq L a = moneyq L b)"
  by (simp add: same_money_def)

lemma line_money_finite [simp]:
  "safe_int q \<Longrightarrow> line_money L (Num u) (Num (of_int q)) = Inr (line_moneyq L u q)"
  by (simp add: line_money_def decimal_def line_moneyq_def)

lemma sum_money_finite [simp]: "sum_money L (map Num rs) = Inr (sum_moneyq L rs)"
proof -
  have "fold_result (\<lambda>v total. and_then (decimal v) (\<lambda>r. Inr (dec_plus L total r))) (map Num rs) t
      = Inr (foldl (dec_plus L) t rs)" for t
    by (induction rs arbitrary: t) (simp_all add: decimal_def)
  then show ?thesis by (simp add: sum_money_def sum_moneyq_def)
qed

section \<open>What the money functions compute\<close>

text \<open>An amount in cents that fits the numeric columns: two places, below ten to the 16.\<close>

definition cents_amount :: "rat \<Rightarrow> bool" where
  "cents_amount x \<longleftrightarrow> has_places 2 x \<and> \<bar>x\<bar> < 10 ^ 16"

text \<open>The partial sums of a list of amounts stay in the range where addition is exact.\<close>

definition sums_in_range :: "rat list \<Rightarrow> bool" where
  "sums_in_range rs \<longleftrightarrow> (\<forall>r \<in> set rs. has_places 2 r) \<and> (\<Sum>r\<leftarrow>rs. \<bar>r\<bar>) < 10 ^ 18"

lemma cents_fits20: "has_places 2 x \<Longrightarrow> \<bar>x\<bar> < 10 ^ 18 \<Longrightarrow> fits20 x"
  by (rule fits20_places [of 2]) simp_all

lemma sums_in_range_Cons: "sums_in_range (r # rs) \<Longrightarrow> sums_in_range rs \<and> has_places 2 r \<and> \<bar>r\<bar> < 10 ^ 18"
proof -
  assume h: "sums_in_range (r # rs)"
  have "0 \<le> (\<Sum>r\<leftarrow>rs. \<bar>r\<bar>)" by (rule sum_list_map_nonneg) simp
  with h show ?thesis by (auto simp: sums_in_range_def)
qed

lemma sum_hundredths: "(\<Sum>l\<leftarrow>xs. of_int (f l) / (100::rat)) = of_int (\<Sum>l\<leftarrow>xs. f l) / 100"
  by (induction xs) (simp_all add: add_divide_distrib)

context decimal_js
begin

lemma moneyq_eq: "moneyq L r = round_places 2 r"
  by (simp add: moneyq_def money_scale_def places)

lemma moneyq_id: "has_places 2 r \<Longrightarrow> moneyq L r = r"
  by (simp add: moneyq_eq round_places_id)

lemma moneyq_places [places_intro, simp]: "has_places 2 (moneyq L r)"
  by (simp add: moneyq_eq)

lemma foldl_plus_exact:
  "has_places 2 t \<Longrightarrow> \<forall>r \<in> set rs. has_places 2 r \<Longrightarrow> \<bar>t\<bar> + (\<Sum>r\<leftarrow>rs. \<bar>r\<bar>) < 10 ^ 18 \<Longrightarrow>
   foldl (dec_plus L) t rs = t + sum_list rs"
proof (induction rs arbitrary: t)
  case (Cons r rs)
  have n: "0 \<le> (\<Sum>r\<leftarrow>rs. \<bar>r\<bar>)" by (rule sum_list_map_nonneg) simp
  have p: "has_places 2 (t + r)" using Cons.prems by (auto intro: places_intro)
  have b: "\<bar>t + r\<bar> + (\<Sum>r\<leftarrow>rs. \<bar>r\<bar>) < 10 ^ 18" using Cons.prems(3) by simp
  with n have "fits20 (t + r)" using p by (intro cents_fits20) linarith+
  then have "foldl (dec_plus L) t (r # rs) = foldl (dec_plus L) (t + r) rs" by (simp add: plus_exact)
  also have "\<dots> = t + r + sum_list rs" using Cons.prems p b by (intro Cons.IH) simp_all
  finally show ?case by simp
qed simp

lemma sum_moneyq_exact: "sums_in_range rs \<Longrightarrow> sum_moneyq L rs = sum_list rs"
proof -
  assume h: "sums_in_range rs"
  then have "foldl (dec_plus L) 0 rs = sum_list rs"
    by (subst foldl_plus_exact) (simp_all add: sums_in_range_def)
  moreover have "has_places 2 (sum_list (map (\<lambda>r. r) rs))"
    using h by (intro has_places_sum_list) (simp add: sums_in_range_def)
  ultimately show ?thesis by (simp add: sum_moneyq_def moneyq_id)
qed

lemma line_moneyq_exact:
  assumes "has_places 2 u" and "\<bar>u * of_int q\<bar> < 10 ^ 18"
  shows "line_moneyq L u q = u * of_int q"
proof -
  have p: "has_places 2 (u * of_int q)" using assms(1) by (rule has_places_mult_int)
  then have "fits20 (u * of_int q)" using assms(2) by (intro cents_fits20)
  then show ?thesis using p by (simp add: line_moneyq_def mul_exact moneyq_id)
qed

lemma sum_lines_exact:
  assumes "\<forall>(u, q) \<in> set ls. has_places 2 u" and "(\<Sum>(u, q)\<leftarrow>ls. \<bar>u * of_int q\<bar>) < 10 ^ 18"
  shows "sum_moneyq L (map (\<lambda>(u, q). line_moneyq L u q) ls) = (\<Sum>(u, q)\<leftarrow>ls. u * of_int q)"
proof -
  have each: "\<bar>u * of_int q\<bar> < 10 ^ 18" if "(u, q) \<in> set ls" for u q
    using member_le_sum_list_map [of ls "\<lambda>(u, q). \<bar>u * of_int q\<bar>" "(u, q)"] assms(2) that
    by auto
  have m: "map (\<lambda>(u, q). line_moneyq L u q) ls = map (\<lambda>(u, q). u * of_int q) ls"
    using assms(1) each by (auto intro!: line_moneyq_exact)
  have "sums_in_range (map (\<lambda>(u, q). u * of_int q) ls)"
    using assms by (auto simp: sums_in_range_def comp_def case_prod_unfold intro: has_places_mult_int)
  then show ?thesis by (simp add: m sum_moneyq_exact)
qed

end

end
