(* ===== verification/Js_Arrays.thy ===== *)
theory Js_Arrays
  imports Js_Text "HOL-Library.Multiset" "HOL-Library.AList" "HOL-Library.Signed_Division"
begin

text \<open>
  Arrays and maps of JavaScript as the sources use them: \<open>Array.prototype.sort\<close> with a comparator,
  a \<open>Map\<close> filled key by key (an association list in insertion order, \<open>AList.update\<close> being \<open>set\<close>
  and \<open>map_of\<close> being \<open>get\<close>), and truthiness of optional strings.
\<close>

section \<open>Sorting with a comparator\<close>

text \<open>
  The language asks for a stable sort. A comparator is a function to a number, negative when its
  first argument comes first. \<open>collates\<close> is what a consistent comparator is: the order it
  compares by is total and transitive. \<open>localeCompare\<close> belongs to the host's collation tables
  and is a parameter of the definitions that sort text.
\<close>

type_synonym 'a comparing = "'a \<Rightarrow> 'a \<Rightarrow> int"

definition collates :: "'a comparing \<Rightarrow> bool" where
  "collates cmp \<longleftrightarrow> (\<forall>x y. cmp x y \<le> 0 \<or> cmp y x \<le> 0)
                  \<and> (\<forall>x y z. cmp x y \<le> 0 \<longrightarrow> cmp y z \<le> 0 \<longrightarrow> cmp x z \<le> 0)"

fun insert_by :: "'a comparing \<Rightarrow> 'a \<Rightarrow> 'a list \<Rightarrow> 'a list" where
  "insert_by cmp x [] = [x]"
| "insert_by cmp x (y # ys) = (if cmp x y \<le> 0 then x # y # ys else y # insert_by cmp x ys)"

definition js_sort :: "'a comparing \<Rightarrow> 'a list \<Rightarrow> 'a list" where
  "js_sort cmp xs = foldr (insert_by cmp) xs []"

lemma mset_insert_by [simp]: "mset (insert_by cmp x ys) = {#x#} + mset ys"
  by (induction ys) auto

lemma js_sort_simps [simp]:
  "js_sort cmp [] = []" "js_sort cmp (x # xs) = insert_by cmp x (js_sort cmp xs)"
  by (simp_all add: js_sort_def)

lemma mset_js_sort [simp]: "mset (js_sort cmp xs) = mset xs"
  by (induction xs) simp_all

lemma set_js_sort [simp]: "set (js_sort cmp xs) = set xs"
  by (metis mset_js_sort set_mset_mset)

lemma length_js_sort [simp]: "length (js_sort cmp xs) = length xs"
  by (metis mset_js_sort size_mset)

lemma sum_list_js_sort [simp]:
  fixes f :: "'a \<Rightarrow> 'b :: comm_monoid_add"
  shows "(\<Sum>x\<leftarrow>js_sort cmp xs. f x) = (\<Sum>x\<leftarrow>xs. f x)"
  by (metis mset_js_sort mset_map sum_mset_sum_list)

lemma distinct_map_js_sort [simp]: "distinct (map f (js_sort cmp xs)) = distinct (map f xs)"
  by (metis mset_js_sort mset_eq_imp_distinct_iff mset_map)

lemma sorted_insert_by:
  assumes c: "collates cmp" and s: "sorted_wrt (\<lambda>x y. cmp x y \<le> 0) ys"
  shows "sorted_wrt (\<lambda>x y. cmp x y \<le> 0) (insert_by cmp x ys)"
  using s
proof (induction ys)
  case (Cons y ys)
  note tot = c [unfolded collates_def, THEN conjunct1, rule_format]
    and trans = c [unfolded collates_def, THEN conjunct2, rule_format]
  have m: "set (insert_by cmp x ys) = insert x (set ys)"
    by (metis mset_insert_by set_mset_mset set_mset_add_mset_insert add_mset_add_single union_commute)
  show ?case
  proof (cases "cmp x y \<le> 0")
    case True
    with Cons.prems trans show ?thesis by auto
  next
    case False
    then have "cmp y x \<le> 0" using tot [of x y] by simp
    with False Cons m show ?thesis by auto
  qed
qed simp

lemma sorted_js_sort: "collates cmp \<Longrightarrow> sorted_wrt (\<lambda>x y. cmp x y \<le> 0) (js_sort cmp xs)"
  by (induction xs) (simp_all add: sorted_insert_by)

lemma collates_on: "collates cmp \<Longrightarrow> collates (\<lambda>x y. cmp (f x) (f y))"
  by (auto simp: collates_def)

text \<open>Sorting by a text key whose collation tells distinct keys apart does not depend on the order
  the elements come in.\<close>

definition separates :: "'a comparing \<Rightarrow> bool" where
  "separates cmp \<longleftrightarrow> (\<forall>x y. cmp x y \<le> 0 \<longrightarrow> cmp y x \<le> 0 \<longrightarrow> x = y)"

lemma js_sort_unique:
  assumes "collates cmp" and "separates cmp" and "mset xs = mset ys"
  shows "js_sort cmp xs = js_sort cmp ys"
proof -
  have u: "us = vs" if "sorted_wrt (\<lambda>x y. cmp x y \<le> 0) us" "sorted_wrt (\<lambda>x y. cmp x y \<le> 0) vs" "mset us = mset vs"
    for us vs
    using that
  proof (induction us arbitrary: vs)
    case (Cons u us)
    then obtain v vs' where v: "vs = v # vs'" by (cases vs) auto
    have "set (u # us) = set vs" using Cons.prems(3) by (metis set_mset_mset)
    then have "cmp u v \<le> 0 \<or> u = v" "cmp v u \<le> 0 \<or> u = v" using Cons.prems(1,2) v by auto
    then have "u = v" using assms(2) by (auto simp: separates_def)
    with Cons v show ?case by simp
  qed simp
  show ?thesis by (rule u) (simp_all add: sorted_js_sort assms)
qed

text \<open>The comparator of code unit order: \<open>Array.prototype.sort\<close> without an argument.\<close>

text \<open>\<open>new Map(entries)\<close> keeps the last entry of a key: with distinct keys, the only one.\<close>

lemma map_of_rev_distinct: "distinct (map fst xs) \<Longrightarrow> map_of (rev xs) = map_of xs"
proof
  fix k
  assume d: "distinct (map fst xs)"
  then have d': "distinct (map fst (rev xs))" by (simp add: rev_map [symmetric])
  show "map_of (rev xs) k = map_of xs k"
  proof (cases "map_of xs k")
    case None
    then show ?thesis by (metis map_of_eq_None_iff set_rev rev_map)
  next
    case (Some v)
    then have "(k, v) \<in> set (rev xs)" using map_of_SomeD by fastforce
    then show ?thesis using d' Some by (simp del: set_rev)
  qed
qed

lemma update_elem: "p \<in> set (AList.update k v al) \<Longrightarrow> p = (k, v) \<or> p \<in> set al"
  by (induction al) (auto split: if_splits)

lemma update_sum:
  fixes f :: "'v \<Rightarrow> 'n :: ab_group_add"
  shows "(\<Sum>p\<leftarrow>AList.update k v al. f (snd p))
       = (\<Sum>p\<leftarrow>al. f (snd p)) - (case map_of al k of None \<Rightarrow> 0 | Some w \<Rightarrow> f w) + f v"
  by (induction al) (auto simp: algebra_simps)

section \<open>A collation\<close>

text \<open>The order of code units is one, and it tells distinct texts apart.\<close>

definition code_unit_compare :: "string comparing" where
  "code_unit_compare a b = (if a = b then 0 else if a < b then -1 else 1)"

lemma collates_code_unit: "collates code_unit_compare" "separates code_unit_compare"
  by (auto simp: collates_def separates_def code_unit_compare_def split: if_splits)

section \<open>Truthiness\<close>

definition truthy :: "string option \<Rightarrow> bool" where
  "truthy s = (case s of None \<Rightarrow> False | Some t \<Rightarrow> t \<noteq> [])"

text \<open>\<open>value || null\<close>\<close>

definition or_null :: "string option \<Rightarrow> string option" where
  "or_null s = (if truthy s then s else None)"

lemma truthy_simps [simp]: "\<not> truthy None" "truthy (Some t) = (t \<noteq> [])"
  by (simp_all add: truthy_def)

end
