(* ===== verification/Purchase_Accounting.thy ===== *)
theory Purchase_Accounting
  imports Backend_Money Js_Arrays
begin

text \<open>
  \<open>backend/src/purchasing/purchasing-accounting.ts\<close>: the accounting of a supplier receipt before it
  is posted (lines aggregated by variant, the invoice discount spread over them cent by cent with
  the largest remainders first) and the credit of a supplier return.

  Quantities are integers and costs finite, as the request validation leaves them. The Unicode
  normalisation, the collation, the date parser and the digest are the host's: parameters.
\<close>

section \<open>Data\<close>

record receipt_item =
  ri_variant :: string
  ri_qty :: int
  ri_unit_cost :: rat

record receipt_dto =
  rd_command_id :: "string option"
  rd_supplier_id :: string
  rd_branch_id :: string
  rd_invoice_number :: "string option"
  rd_invoice_date :: "string option"
  rd_received_at :: "string option"
  rd_discount_amount :: "rat option"
  rd_discount_percent :: "rat option"
  rd_ocr_source_file :: "string option"
  rd_items :: "receipt_item list"

record prepared_line =
  pl_variant :: string
  pl_qty :: int
  pl_unit_cost :: rat
  pl_line_subtotal :: rat
  pl_allocated_discount :: rat
  pl_net_line_total :: rat
  pl_net_unit_cost :: rat

record prepared_receipt =
  pr_invoice_number :: "string option"
  pr_subtotal :: rat
  pr_discount :: rat
  pr_total :: rat
  pr_lines :: "prepared_line list"
  pr_fingerprint :: string
  pr_idempotency_key :: string

text \<open>The object whose JSON text is digested.\<close>

record canonical_receipt =
  ca_supplier_id :: string
  ca_branch_id :: string
  ca_invoice_number :: "string option"
  ca_invoice_date :: "string option"
  ca_received_at :: "string option"
  ca_discount_amount :: string
  ca_discount_percent :: "string option"
  ca_ocr_source_file :: "string option"
  ca_items :: "(string \<times> int \<times> string \<times> string \<times> string) list"

record purchase_host =
  nfkc :: "string \<Rightarrow> string"
  locale_compare :: "string comparing"
  iso_string :: "string \<Rightarrow> string"
  receipt_digest :: "canonical_receipt \<Rightarrow> string"

section \<open>Helpers\<close>

definition cents :: "dec_lib \<Rightarrow> rat \<Rightarrow> int" where
  "cents L v = \<lfloor>dec_places L 0 (dec_mul L (dec_places L 2 v) 100)\<rfloor>"

definition from_cents :: "dec_lib \<Rightarrow> int \<Rightarrow> rat" where
  "from_cents L v = dec_places L 2 (dec_div L (of_int v) 100)"

text \<open>\<open>replace(/\s+/g, ' ')\<close>\<close>

fun collapse_spaces :: "string \<Rightarrow> string" where
  "collapse_spaces [] = []"
| "collapse_spaces (c # s) =
     (if is_js_space c
      then (case s of [] \<Rightarrow> '' '' | d # _ \<Rightarrow> if is_js_space d then collapse_spaces s else CHR '' '' # collapse_spaces s)
      else c # collapse_spaces s)"

definition normalize_supplier_invoice_number :: "purchase_host \<Rightarrow> string option \<Rightarrow> string option result" where
  "normalize_supplier_invoice_number H value =
     (case value of
        None \<Rightarrow> Inr None
      | Some v \<Rightarrow>
          (let normalized = to_upper (collapse_spaces (trim (nfkc H v))) in
           if normalized \<noteq> [] \<and> length normalized > 100
           then Inl (JsError ''Normalized supplier invoice number cannot exceed 100 characters'')
           else Inr (if normalized = [] then None else Some normalized)))"

section \<open>Supplier return credit\<close>

record return_credit =
  rc_remaining_qty :: int
  rc_credit_total :: rat
  rc_credit_unit_cost :: rat

definition calculate_supplier_return_credit ::
  "dec_lib \<Rightarrow> int \<Rightarrow> rat \<Rightarrow> int \<Rightarrow> rat \<Rightarrow> int \<Rightarrow> rat \<Rightarrow> return_credit result" where
  "calculate_supplier_return_credit L line_qty line_credit returned_qty returned_credit requested unit_credit =
     and_then (throw_if (\<not> safe_int line_qty \<or> \<not> safe_int returned_qty \<or> \<not> safe_int requested
                         \<or> line_qty < 1 \<or> returned_qty < 0 \<or> requested < 1)
                (JsError ''Supplier return quantities must be positive integers'')) (\<lambda>_.
     let remaining_qty = line_qty - returned_qty in
     and_then (throw_if (remaining_qty < 0 \<or> requested > remaining_qty)
                (JsError ''unit(s) remain returnable'')) (\<lambda>_.
     let difference = dec_minus L line_credit returned_credit;
         remaining_credit = dec_places L 2 difference in
     and_then (throw_if (difference < 0) (JsError ''Returned supplier credit exceeds the purchase line'')) (\<lambda>_.
     let credit_total =
           (if requested = remaining_qty then remaining_credit
            else min remaining_credit (dec_places L 2 (dec_mul L unit_credit (of_int requested))))
     in Inr \<lparr>rc_remaining_qty = remaining_qty, rc_credit_total = credit_total,
             rc_credit_unit_cost = dec_places L 6 (dec_div L credit_total (of_int requested))\<rparr>)))"

section \<open>Preparing a receipt\<close>

text \<open>Lines aggregated by variant, in the order the variants first occur.\<close>

definition aggregate_item ::
  "dec_lib \<Rightarrow> receipt_item \<Rightarrow> (string \<times> int \<times> rat) list \<Rightarrow> (string \<times> int \<times> rat) list result" where
  "aggregate_item L item agg =
     (let (qty, gross) = (case map_of agg (ri_variant item) of Some c \<Rightarrow> c | None \<Rightarrow> (0, 0));
          next_qty = qty + ri_qty item in
      if \<not> safe_int next_qty \<or> next_qty > 2147483647
      then Inl (JsError ''Purchase quantity exceeds supported range for variant'')
      else Inr (AList.update (ri_variant item)
                  (next_qty, dec_plus L gross (dec_mul L (ri_unit_cost item) (of_int (ri_qty item)))) agg))"

record raw_line =
  rl_variant :: string
  rl_qty :: int
  rl_gross :: rat

definition raw_lines :: "dec_lib \<Rightarrow> purchase_host \<Rightarrow> (string \<times> int \<times> rat) list \<Rightarrow> raw_line list" where
  "raw_lines L H agg =
     js_sort (\<lambda>l r. locale_compare H (rl_variant l) (rl_variant r))
       (map (\<lambda>(v, qty, gross). \<lparr>rl_variant = v, rl_qty = qty, rl_gross = dec_places L 2 gross\<rparr>) agg)"

definition receipt_discount :: "dec_lib \<Rightarrow> receipt_dto \<Rightarrow> rat \<Rightarrow> rat" where
  "receipt_discount L dto subtotal =
     (case rd_discount_amount dto of
        Some a \<Rightarrow> dec_places L 2 a
      | None \<Rightarrow> dec_places L 2 (dec_div L (dec_mul L subtotal
                  (case rd_discount_percent dto of None \<Rightarrow> 0 | Some p \<Rightarrow> p)) 100))"

text \<open>The sign a Decimal keeps through rounding: that of the amount before it.\<close>

definition discount_is_negative :: "receipt_dto \<Rightarrow> bool" where
  "discount_is_negative dto =
     (case rd_discount_amount dto of
        Some a \<Rightarrow> a < 0
      | None \<Rightarrow> (case rd_discount_percent dto of None \<Rightarrow> False | Some p \<Rightarrow> p < 0))"

record allocation =
  al_line :: raw_line
  al_cents :: int
  al_remainder :: int

definition allocate_floor :: "dec_lib \<Rightarrow> int \<Rightarrow> int \<Rightarrow> raw_line \<Rightarrow> allocation" where
  "allocate_floor L subtotal_cents discount_cents line =
     (if subtotal_cents = 0 then \<lparr>al_line = line, al_cents = 0, al_remainder = 0\<rparr>
      else (let numerator = discount_cents * cents L (rl_gross line) in
            \<lparr>al_line = line, al_cents = numerator sdiv subtotal_cents, al_remainder = numerator smod subtotal_cents\<rparr>))"

definition by_remainder :: "purchase_host \<Rightarrow> allocation comparing" where
  "by_remainder H left right =
     (if al_remainder left = al_remainder right
      then locale_compare H (rl_variant (al_line left)) (rl_variant (al_line right))
      else if al_remainder left > al_remainder right then -1 else 1)"

fun distribute :: "int \<Rightarrow> allocation list \<Rightarrow> allocation list" where
  "distribute undistributed [] = []"
| "distribute undistributed (line # lines) =
     (if undistributed \<le> 0 then line # lines
      else line\<lparr>al_cents := al_cents line + 1\<rparr> # distribute (undistributed - 1) lines)"

definition allocation_by_variant :: "purchase_host \<Rightarrow> int \<Rightarrow> allocation list \<Rightarrow> (string \<times> int) list" where
  "allocation_by_variant H discount_cents allocations =
     (let undistributed = discount_cents - (\<Sum>l\<leftarrow>allocations. al_cents l)
      in map (\<lambda>l. (rl_variant (al_line l), al_cents l))
           (distribute undistributed (js_sort (by_remainder H) allocations)))"

definition prepare_line :: "dec_lib \<Rightarrow> (string \<times> int) list \<Rightarrow> raw_line \<Rightarrow> prepared_line" where
  "prepare_line L by_variant line =
     (let allocated = from_cents L (case map_of (rev by_variant) (rl_variant line) of None \<Rightarrow> 0 | Some c \<Rightarrow> c);
          net = dec_places L 2 (dec_minus L (rl_gross line) allocated) in
      \<lparr>pl_variant = rl_variant line, pl_qty = rl_qty line,
       pl_unit_cost = dec_places L 6 (dec_div L (rl_gross line) (of_int (rl_qty line))),
       pl_line_subtotal = rl_gross line, pl_allocated_discount = allocated,
       pl_net_line_total = net,
       pl_net_unit_cost = dec_places L 6 (dec_div L net (of_int (rl_qty line)))\<rparr>)"

definition prepare_lines :: "dec_lib \<Rightarrow> purchase_host \<Rightarrow> rat \<Rightarrow> rat \<Rightarrow> raw_line list \<Rightarrow> prepared_line list" where
  "prepare_lines L H subtotal discount lines =
     map (prepare_line L (allocation_by_variant H (cents L discount)
                            (map (allocate_floor L (cents L subtotal) (cents L discount)) lines))) lines"

definition canonical_of ::
  "dec_lib \<Rightarrow> purchase_host \<Rightarrow> receipt_dto \<Rightarrow> string option \<Rightarrow> rat \<Rightarrow> prepared_line list \<Rightarrow> canonical_receipt" where
  "canonical_of L H dto invoice_number discount lines =
     \<lparr>ca_supplier_id = rd_supplier_id dto, ca_branch_id = rd_branch_id dto,
      ca_invoice_number = invoice_number,
      ca_invoice_date = (if truthy (rd_invoice_date dto)
                         then map_option (\<lambda>d. take 10 (iso_string H d)) (rd_invoice_date dto) else None),
      ca_received_at = (if truthy (rd_received_at dto)
                        then map_option (iso_string H) (rd_received_at dto) else None),
      ca_discount_amount = to_fixed L 2 discount,
      ca_discount_percent = map_option (to_fixed L 2) (rd_discount_percent dto),
      ca_ocr_source_file = or_null (rd_ocr_source_file dto),
      ca_items = map (\<lambda>l. (pl_variant l, pl_qty l, to_fixed L 2 (pl_line_subtotal l),
                            to_fixed L 2 (pl_allocated_discount l), to_fixed L 2 (pl_net_line_total l))) lines\<rparr>"

definition idempotency_key_of :: "receipt_dto \<Rightarrow> string option \<Rightarrow> string \<Rightarrow> string" where
  "idempotency_key_of dto invoice_number fingerprint =
     (if truthy (rd_command_id dto) then ''purchase-command:'' @ the (rd_command_id dto)
      else if truthy invoice_number
      then ''purchase-invoice:'' @ rd_supplier_id dto @ '':'' @ the invoice_number
      else ''purchase-fingerprint:'' @ fingerprint)"

definition prepare_purchase_receipt :: "dec_lib \<Rightarrow> purchase_host \<Rightarrow> receipt_dto \<Rightarrow> prepared_receipt result" where
  "prepare_purchase_receipt L H dto =
     and_then (fold_result (aggregate_item L) (rd_items dto) []) (\<lambda>agg.
     let lines = raw_lines L H agg;
         sum = foldl (\<lambda>s l. dec_plus L s (rl_gross l)) 0 lines;
         subtotal = dec_places L 2 sum in
     and_then (throw_if (sum < 0) (JsError ''Purchase subtotal cannot be negative'')) (\<lambda>_.
     and_then (throw_if (subtotal > 999999999999999999 / 100)
                (JsError ''Purchase subtotal exceeds supported monetary range'')) (\<lambda>_.
     let discount = receipt_discount L dto subtotal in
     and_then (throw_if (discount_is_negative dto \<or> discount > subtotal)
                (JsError ''Discount cannot exceed purchase subtotal'')) (\<lambda>_.
     let prepared = prepare_lines L H subtotal discount lines;
         allocated_total = dec_places L 2 (foldl (\<lambda>s l. dec_plus L s (pl_allocated_discount l)) 0 prepared) in
     and_then (throw_if (allocated_total \<noteq> discount)
                (JsError ''Purchase discount allocation is not exact'')) (\<lambda>_.
     and_then (normalize_supplier_invoice_number H (rd_invoice_number dto)) (\<lambda>number.
     and_then (throw_if (\<not> truthy (rd_command_id dto) \<and> \<not> truthy number)
                (JsError ''command_id is required when supplier invoice number is unavailable'')) (\<lambda>_.
     let fingerprint = receipt_digest H (canonical_of L H dto number discount prepared) in
     Inr \<lparr>pr_invoice_number = number, pr_subtotal = subtotal, pr_discount = discount,
          pr_total = dec_places L 2 (dec_minus L subtotal discount), pr_lines = prepared,
          pr_fingerprint = fingerprint,
          pr_idempotency_key = idempotency_key_of dto number fingerprint\<rparr>)))))))"

section \<open>The largest remainders\<close>

lemma sdiv_nonneg: "0 \<le> (a::int) \<Longrightarrow> 0 < b \<Longrightarrow> a sdiv b = a div b \<and> a smod b = a mod b"
  by (cases "a = 0") (simp_all add: signed_divide_int_def signed_modulo_int_def minus_mult_div_eq_mod mult.commute)

text \<open>What handing out one cent each to the first lines does, when they come by falling remainder.\<close>

lemma distribute_lines:
  "length (distribute u ls) = length ls"
  "map al_line (distribute u ls) = map al_line ls"
  by (induction ls arbitrary: u) auto

definition falling :: "int \<Rightarrow> int \<Rightarrow> allocation list \<Rightarrow> bool" where
  "falling s u ls \<longleftrightarrow> sorted_wrt (\<lambda>l r. al_remainder r \<le> al_remainder l) ls
     \<and> (\<forall>l \<in> set ls. 0 \<le> al_remainder l \<and> al_remainder l < s)
     \<and> u * s \<le> (\<Sum>l\<leftarrow>ls. al_remainder l)"

lemma falling_Nil: "falling s u [] \<Longrightarrow> 0 < s \<Longrightarrow> u \<le> 0"
  by (auto simp: falling_def mult_le_0_iff)

lemma falling_Cons:
  assumes "falling s u (l # ls)" and "0 < u" and "0 < s"
  shows "0 < al_remainder l" and "falling s (u - 1) ls"
proof -
  have le: "al_remainder r \<le> al_remainder l" if "r \<in> set ls" for r
    using assms(1) that by (auto simp: falling_def)
  show "0 < al_remainder l"
  proof (rule ccontr)
    assume n: "\<not> 0 < al_remainder l"
    then have "(\<Sum>r\<leftarrow>ls. al_remainder r) \<le> (\<Sum>r\<leftarrow>ls. 0)"
      using le by (intro sum_list_map_le) fastforce
    then have "(\<Sum>r\<leftarrow>l # ls. al_remainder r) \<le> 0" using n by simp
    moreover have "0 < u * s" using assms(2,3) by simp
    ultimately show False using assms(1) by (simp add: falling_def)
  qed
  show "falling s (u - 1) ls" using assms(1) by (auto simp: falling_def left_diff_distrib)
qed

lemma distribute_sum:
  "falling s u ls \<Longrightarrow> 0 \<le> u \<Longrightarrow> 0 < s \<Longrightarrow>
   (\<Sum>l\<leftarrow>distribute u ls. al_cents l) = (\<Sum>l\<leftarrow>ls. al_cents l) + u"
proof (induction ls arbitrary: u)
  case Nil
  then show ?case using falling_Nil [of s u] by simp
next
  case (Cons l ls)
  show ?case
  proof (cases "u \<le> 0")
    case False
    then show ?thesis using Cons.IH [OF falling_Cons(2) [OF Cons.prems(1)]] Cons.prems by simp
  qed (use Cons.prems in simp)
qed

lemma distribute_elem:
  "falling s u ls \<Longrightarrow> 0 < s \<Longrightarrow> l' \<in> set (distribute u ls) \<Longrightarrow>
   \<exists>l \<in> set ls. al_line l' = al_line l
     \<and> (al_cents l' = al_cents l \<or> 0 < al_remainder l \<and> al_cents l' = al_cents l + 1)"
proof (induction ls arbitrary: u)
  case (Cons l ls)
  show ?case
  proof (cases "u \<le> 0")
    case True
    with Cons.prems show ?thesis by auto
  next
    case False
    then have "l' = l\<lparr>al_cents := al_cents l + 1\<rparr> \<or> l' \<in> set (distribute (u - 1) ls)" using Cons.prems by simp
    then show ?thesis
    proof
      assume "l' = l\<lparr>al_cents := al_cents l + 1\<rparr>"
      then show ?thesis using falling_Cons(1) [OF Cons.prems(1)] False Cons.prems(2) by auto
    next
      assume "l' \<in> set (distribute (u - 1) ls)"
      from Cons.IH [OF falling_Cons(2) [OF Cons.prems(1)] Cons.prems(2) this] False Cons.prems(2)
      show ?thesis by auto
    qed
  qed
qed simp

text \<open>The cents each variant is given: they sum to the discount, and none exceeds its line.\<close>

definition line_cents_ok :: "dec_lib \<Rightarrow> int \<Rightarrow> int \<Rightarrow> raw_line list \<Rightarrow> bool" where
  "line_cents_ok L s d lines \<longleftrightarrow>
     s = (\<Sum>l\<leftarrow>lines. cents L (rl_gross l)) \<and> 0 \<le> d \<and> d \<le> s
     \<and> (\<forall>l \<in> set lines. 0 \<le> cents L (rl_gross l)) \<and> distinct (map rl_variant lines)"

definition allocated_cents :: "dec_lib \<Rightarrow> purchase_host \<Rightarrow> int \<Rightarrow> int \<Rightarrow> raw_line list \<Rightarrow> string \<Rightarrow> int" where
  "allocated_cents L H s d lines v =
     (case map_of (rev (allocation_by_variant H d (map (allocate_floor L s d) lines))) v of
        None \<Rightarrow> 0 | Some c \<Rightarrow> c)"

lemma collates_by_remainder: "collates (locale_compare H) \<Longrightarrow> collates (by_remainder H)"
  unfolding collates_def by_remainder_def by (smt (verit))

lemma allocate_floor_falling:
  assumes ok: "line_cents_ok L s d lines" and s: "0 < s" and c: "collates (locale_compare H)"
  shows "falling s (d - (\<Sum>l\<leftarrow>map (allocate_floor L s d) lines. al_cents l))
           (js_sort (by_remainder H) (map (allocate_floor L s d) lines))"
    and "(\<Sum>l\<leftarrow>map (allocate_floor L s d) lines. al_cents l) \<le> d"
proof -
  let ?g = "\<lambda>l. cents L (rl_gross l)"
  let ?as = "map (allocate_floor L s d) lines"
  have f: "al_cents (allocate_floor L s d l) = d * ?g l div s \<and> al_remainder (allocate_floor L s d l) = d * ?g l mod s"
    if "l \<in> set lines" for l
    using ok s that sdiv_nonneg [of "d * ?g l" s] by (auto simp: line_cents_ok_def allocate_floor_def Let_def)
  have split: "s * (\<Sum>l\<leftarrow>?as. al_cents l) + (\<Sum>l\<leftarrow>?as. al_remainder l) = d * s"
  proof -
    have "s * (\<Sum>l\<leftarrow>?as. al_cents l) + (\<Sum>l\<leftarrow>?as. al_remainder l)
        = (\<Sum>l\<leftarrow>lines. s * al_cents (allocate_floor L s d l) + al_remainder (allocate_floor L s d l))"
      by (simp add: sum_list_addf sum_list_const_mult comp_def)
    also have "\<dots> = (\<Sum>l\<leftarrow>lines. d * ?g l)"
      by (intro arg_cong [of _ _ sum_list] map_cong) (simp_all add: f)
    also have "\<dots> = d * s" using ok by (simp add: sum_list_const_mult line_cents_ok_def)
    finally show ?thesis .
  qed
  have r: "\<forall>l \<in> set ?as. 0 \<le> al_remainder l \<and> al_remainder l < s" using f s by auto
  have "0 \<le> (\<Sum>l\<leftarrow>?as. al_remainder l)" using r by (intro sum_list_map_nonneg) blast
  with split have "s * (\<Sum>l\<leftarrow>?as. al_cents l) \<le> s * d" by (simp add: mult.commute)
  then show "(\<Sum>l\<leftarrow>?as. al_cents l) \<le> d" using s by simp
  have "sorted_wrt (\<lambda>l r. by_remainder H l r \<le> 0) (js_sort (by_remainder H) ?as)"
    by (rule sorted_js_sort) (rule collates_by_remainder [OF c])
  then have "sorted_wrt (\<lambda>l r. al_remainder r \<le> al_remainder l) (js_sort (by_remainder H) ?as)"
    by (rule sorted_wrt_mono_rel [rotated]) (auto simp: by_remainder_def split: if_splits)
  moreover have "(d - (\<Sum>l\<leftarrow>?as. al_cents l)) * s = (\<Sum>l\<leftarrow>?as. al_remainder l)"
    using split by (simp add: algebra_simps)
  ultimately show "falling s (d - (\<Sum>l\<leftarrow>?as. al_cents l)) (js_sort (by_remainder H) ?as)"
    using r by (simp add: falling_def)
qed


definition handed_out :: "dec_lib \<Rightarrow> purchase_host \<Rightarrow> int \<Rightarrow> int \<Rightarrow> raw_line list \<Rightarrow> allocation list" where
  "handed_out L H s d lines =
     (let allocations = map (allocate_floor L s d) lines in
      distribute (d - (\<Sum>l\<leftarrow>allocations. al_cents l)) (js_sort (by_remainder H) allocations))"

lemma allocate_floor_line [simp]: "al_line (allocate_floor L s d l) = l"
  by (simp add: allocate_floor_def Let_def)

lemma handed_out_variants:
  "mset (map (rl_variant \<circ> al_line) (handed_out L H s d lines)) = mset (map rl_variant lines)"
proof -
  have "map (rl_variant \<circ> al_line) (handed_out L H s d lines)
      = map rl_variant (map al_line (js_sort (by_remainder H) (map (allocate_floor L s d) lines)))"
    by (simp only: handed_out_def Let_def map_map [symmetric] distribute_lines)
  then show ?thesis by (simp only: mset_map mset_js_sort) (simp add: image_mset.compositionality comp_def)
qed

lemma handed_out_ok:
  assumes ok: "line_cents_ok L s d lines" and c: "collates (locale_compare H)"
  shows "(\<Sum>l\<leftarrow>handed_out L H s d lines. al_cents l) = d"
    and "a \<in> set (handed_out L H s d lines) \<Longrightarrow>
         al_line a \<in> set lines \<and> 0 \<le> al_cents a \<and> al_cents a \<le> cents L (rl_gross (al_line a))"
proof -
  let ?as = "map (allocate_floor L s d) lines"
  let ?sorted = "js_sort (by_remainder H) ?as"
  let ?u = "d - (\<Sum>l\<leftarrow>?as. al_cents l)"
  have "s = 0 \<or> 0 < s" using ok by (auto simp: line_cents_ok_def)
  then have "(\<Sum>l\<leftarrow>handed_out L H s d lines. al_cents l) = d
    \<and> (a \<in> set (handed_out L H s d lines) \<longrightarrow>
         al_line a \<in> set lines \<and> 0 \<le> al_cents a \<and> al_cents a \<le> cents L (rl_gross (al_line a)))"
  proof
    assume z: "s = 0"
    have zero: "al_cents (allocate_floor L s d l) = 0" for l by (simp add: allocate_floor_def z)
    have "d = 0" using ok z by (simp add: line_cents_ok_def)
    moreover have "(\<Sum>l\<leftarrow>?as. al_cents l) = 0" using zero by (simp add: comp_def)
    moreover have "distribute 0 ls = ls" for ls by (cases ls) simp_all
    ultimately have h: "handed_out L H s d lines = ?sorted" by (simp add: handed_out_def)
    have sum: "(\<Sum>l\<leftarrow>?sorted. al_cents l) = d" using zero \<open>d = 0\<close> by (simp add: comp_def)
    have "al_line a \<in> set lines \<and> al_cents a = 0" if "a \<in> set ?sorted" using that zero by auto
    with sum show ?thesis using ok unfolding h line_cents_ok_def by auto
  next
    assume s: "0 < s"
    note fall = allocate_floor_falling [OF ok s c]
    have h: "handed_out L H s d lines = distribute ?u ?sorted" by (simp add: handed_out_def)
    have sum: "(\<Sum>l\<leftarrow>distribute ?u ?sorted. al_cents l) = d"
      using distribute_sum [OF fall(1) _ s] fall(2) by simp
    have "al_line a \<in> set lines \<and> 0 \<le> al_cents a \<and> al_cents a \<le> cents L (rl_gross (al_line a))"
      if a: "a \<in> set (distribute ?u ?sorted)"
    proof -
      from distribute_elem [OF fall(1) s a] obtain l where l: "l \<in> set lines" "al_line a = l"
        and k: "al_cents a = al_cents (allocate_floor L s d l)
          \<or> 0 < al_remainder (allocate_floor L s d l) \<and> al_cents a = al_cents (allocate_floor L s d l) + 1"
        by auto
      let ?g = "cents L (rl_gross l)"
      have g: "0 \<le> d" "d \<le> s" "0 \<le> ?g" using ok l by (auto simp: line_cents_ok_def)
      have f: "al_cents (allocate_floor L s d l) = d * ?g div s" "al_remainder (allocate_floor L s d l) = d * ?g mod s"
        using s g sdiv_nonneg [of "d * ?g" s] by (auto simp: allocate_floor_def Let_def)
      have le: "d * ?g \<le> s * ?g" using g by (intro mult_right_mono) simp_all
      have lo: "0 \<le> d * ?g div s" using g s by (simp add: pos_imp_zdiv_nonneg_iff)
      have "d * ?g div s \<le> s * ?g div s" using le s by (rule zdiv_mono1)
      then have up: "d * ?g div s \<le> ?g" using s by simp
      have "d * ?g div s < ?g" if "0 < d * ?g mod s"
      proof -
        have "s * (d * ?g div s) + d * ?g mod s = d * ?g" by simp
        then have "s * (d * ?g div s) < s * ?g" using le that by linarith
        then show ?thesis using s by simp
      qed
      with k f lo up l show ?thesis by auto
    qed
    with sum h show ?thesis by simp
  qed
  then show "(\<Sum>l\<leftarrow>handed_out L H s d lines. al_cents l) = d"
    and "a \<in> set (handed_out L H s d lines) \<Longrightarrow>
         al_line a \<in> set lines \<and> 0 \<le> al_cents a \<and> al_cents a \<le> cents L (rl_gross (al_line a))"
    by blast+
qed

lemma allocated_cents_lookup:
  assumes ok: "line_cents_ok L s d lines" and l: "l \<in> set lines"
  shows "\<exists>a \<in> set (handed_out L H s d lines). al_line a = l \<and> allocated_cents L H s d lines (rl_variant l) = al_cents a"
proof -
  let ?ds = "handed_out L H s d lines"
  let ?kv = "map (\<lambda>a. (rl_variant (al_line a), al_cents a)) ?ds"
  have kv: "allocation_by_variant H d (map (allocate_floor L s d) lines) = ?kv"
    by (simp add: allocation_by_variant_def handed_out_def Let_def)
  have dist: "distinct (map fst ?kv)"
    using ok mset_eq_imp_distinct_iff [OF handed_out_variants [of L H s d lines]]
    by (simp add: comp_def line_cents_ok_def)
  have ls: "map al_line ?ds = map al_line (js_sort (by_remainder H) (map (allocate_floor L s d) lines))"
    by (simp add: handed_out_def Let_def distribute_lines)
  have "set (map al_line ?ds) = set lines" by (simp only: ls) (simp add: comp_def image_image)
  then have "l \<in> al_line ` set ?ds" using l by simp
  then obtain a where a: "a \<in> set ?ds" "al_line a = l" by (auto simp: image_iff)
  then have "map_of ?kv (rl_variant l) = Some (al_cents a)"
    using dist by (intro map_of_is_SomeI) auto
  moreover have "map_of (rev ?kv) = map_of ?kv"
    by (rule map_of_rev_distinct [OF dist])
  ultimately show ?thesis using a by (auto simp: allocated_cents_def kv)
qed

lemma allocated_cents_ok:
  assumes ok: "line_cents_ok L s d lines" and c: "collates (locale_compare H)"
  shows "(\<Sum>l\<leftarrow>lines. allocated_cents L H s d lines (rl_variant l)) = d"
    and "l \<in> set lines \<Longrightarrow> 0 \<le> allocated_cents L H s d lines (rl_variant l)
           \<and> allocated_cents L H s d lines (rl_variant l) \<le> cents L (rl_gross l)"
proof -
  let ?ds = "handed_out L H s d lines" and ?f = "allocated_cents L H s d lines"
  have dist: "distinct (map (rl_variant \<circ> al_line) ?ds)"
    using ok mset_eq_imp_distinct_iff [OF handed_out_variants [of L H s d lines]] by (simp add: line_cents_ok_def)
  have f: "?f (rl_variant (al_line a)) = al_cents a" if a: "a \<in> set ?ds" for a
  proof -
    have "al_line a \<in> set lines" using handed_out_ok(2) [OF ok c a] by simp
    from allocated_cents_lookup [OF ok this] obtain b where b: "b \<in> set ?ds" "al_line b = al_line a"
      "?f (rl_variant (al_line a)) = al_cents b" by blast
    have "inj_on (rl_variant \<circ> al_line) (set ?ds)" using dist by (simp add: distinct_map)
    then have "b = a" using a b by (auto simp: inj_on_def)
    with b show ?thesis by simp
  qed
  have "(\<Sum>l\<leftarrow>lines. ?f (rl_variant l)) = sum_mset (image_mset ?f (mset (map rl_variant lines)))"
    by (simp add: sum_mset_sum_list [symmetric] image_mset.compositionality comp_def)
  also have "\<dots> = (\<Sum>a\<leftarrow>?ds. ?f (rl_variant (al_line a)))"
    by (simp only: handed_out_variants [of L H s d lines, symmetric] mset_map [symmetric] sum_mset_sum_list map_map comp_def)
  also have "\<dots> = (\<Sum>a\<leftarrow>?ds. al_cents a)" by (intro arg_cong [of _ _ sum_list] map_cong) (simp_all add: f)
  finally show "(\<Sum>l\<leftarrow>lines. ?f (rl_variant l)) = d" by (simp add: handed_out_ok(1) [OF ok c])
  assume l: "l \<in> set lines"
  from allocated_cents_lookup [OF ok l] obtain a where "a \<in> set ?ds" "al_line a = l" "?f (rl_variant l) = al_cents a"
    by blast
  with handed_out_ok(2) [OF ok c] show "0 \<le> ?f (rl_variant l) \<and> ?f (rl_variant l) \<le> cents L (rl_gross l)"
    by fastforce
qed


section \<open>Amounts of money\<close>

text \<open>What the request validation and the supported monetary range leave: whole quantities of at
  least one, costs in cents, and a total value below ten to the 18.\<close>

definition receipt_in_range :: "receipt_dto \<Rightarrow> bool" where
  "receipt_in_range dto \<longleftrightarrow>
     (\<forall>i \<in> set (rd_items dto). 1 \<le> ri_qty i \<and> 0 \<le> ri_unit_cost i \<and> has_places 2 (ri_unit_cost i))
     \<and> (\<Sum>i\<leftarrow>rd_items dto. ri_unit_cost i * of_int (ri_qty i)) < 10 ^ 18"

definition items_value :: "receipt_item list \<Rightarrow> rat" where
  "items_value items = (\<Sum>i\<leftarrow>items. ri_unit_cost i * of_int (ri_qty i))"

definition agg_ok :: "(string \<times> int \<times> rat) list \<Rightarrow> bool" where
  "agg_ok agg \<longleftrightarrow> distinct (map fst agg) \<and> (\<forall>(v, q, g) \<in> set agg. 0 \<le> g \<and> has_places 2 g)"

definition agg_value :: "(string \<times> int \<times> rat) list \<Rightarrow> rat" where
  "agg_value agg = (\<Sum>p\<leftarrow>agg. snd (snd p))"

lemma agg_value_bound: "agg_ok agg \<Longrightarrow> (v, q, g) \<in> set agg \<Longrightarrow> g \<le> agg_value agg"
  using member_le_sum_list_map [of agg "\<lambda>p. snd (snd p)" "(v, q, g)"]
  by (fastforce simp: agg_ok_def agg_value_def)

lemma agg_value_nonneg: "agg_ok agg \<Longrightarrow> 0 \<le> agg_value agg"
  unfolding agg_value_def by (rule sum_list_map_nonneg) (auto simp: agg_ok_def)

lemma items_value_nonneg: "\<forall>i \<in> set items. 1 \<le> ri_qty i \<and> 0 \<le> ri_unit_cost i \<Longrightarrow> 0 \<le> items_value items"
  unfolding items_value_def by (rule sum_list_map_nonneg) (fastforce intro: mult_nonneg_nonneg)

context decimal_js
begin

lemma cents_eq: "has_places 2 v \<Longrightarrow> \<bar>v\<bar> < 10 ^ 18 \<Longrightarrow> of_int (cents L v) = v * 100"
proof -
  assume p: "has_places 2 v" and b: "\<bar>v\<bar> < 10 ^ 18"
  then obtain m :: int where m: "v * 100 = of_int m" by (auto simp: has_places_def elim: Ints_cases)
  have p0: "has_places 0 (v * 100)" by (simp add: m)
  have "\<bar>v * 100\<bar> < 10 ^ 20" using b by (simp add: abs_mult)
  then have "fits20 (v * 100)" using p0 by (intro fits20_places [of 0]) simp_all
  then show ?thesis using p p0 by (simp add: cents_def places round_places_id mul_exact m)
qed

lemma from_cents_eq: "\<bar>c\<bar> < 10 ^ 20 \<Longrightarrow> from_cents L c = of_int c / 100"
proof -
  assume c: "\<bar>c\<bar> < 10 ^ 20"
  have "fits20 (of_int c / 100)"
    unfolding fits20_def using c by (intro exI [of _ c] exI [of _ 2]) simp
  moreover have "has_places 2 (of_int c / 100)" by (simp add: has_places_def)
  ultimately show ?thesis by (simp add: from_cents_def div_exact places round_places_id)
qed

lemma aggregate_item_ok:
  assumes a: "aggregate_item L i agg = Inr agg'" and ok: "agg_ok agg"
    and i: "1 \<le> ri_qty i" "0 \<le> ri_unit_cost i" "has_places 2 (ri_unit_cost i)"
    and b: "agg_value agg + ri_unit_cost i * of_int (ri_qty i) < 10 ^ 18"
  shows "agg_ok agg' \<and> agg_value agg' = agg_value agg + ri_unit_cost i * of_int (ri_qty i)"
proof -
  let ?x = "ri_unit_cost i * of_int (ri_qty i)"
  obtain q g where qg: "(case map_of agg (ri_variant i) of Some c \<Rightarrow> c | None \<Rightarrow> (0, 0)) = (q, g)" by force
  have g: "0 \<le> g" "has_places 2 g" "g \<le> agg_value agg"
    using qg ok agg_value_nonneg [OF ok] agg_value_bound [OF ok]
    by (auto split: option.splits simp: agg_ok_def dest!: map_of_SomeD)
  have x: "0 \<le> ?x" "has_places 2 ?x" using i by (auto intro: places_intro)
  have e: "agg' = AList.update (ri_variant i) (q + ri_qty i, dec_plus L g (dec_mul L (ri_unit_cost i) (of_int (ri_qty i)))) agg"
    using a by (simp add: aggregate_item_def qg Let_def split: if_splits)
  have "?x < 10 ^ 18" "g + ?x < 10 ^ 18" using b g x agg_value_nonneg [OF ok] by linarith+
  then have "dec_plus L g (dec_mul L (ri_unit_cost i) (of_int (ri_qty i))) = g + ?x"
    using g x by (simp add: mul_exact plus_exact cents_fits20 places_intro)
  with e have e: "agg' = AList.update (ri_variant i) (q + ri_qty i, g + ?x) agg" by simp
  have "agg_ok agg'" unfolding agg_ok_def e
    using ok g x by (auto simp: agg_ok_def distinct_update dest!: update_elem intro: places_intro)
  moreover have "agg_value agg' = agg_value agg + ?x"
    using qg by (auto simp: agg_value_def e update_sum [where f = snd] split: option.splits)
  ultimately show ?thesis by simp
qed

lemma aggregate_ok:
  assumes "fold_result (aggregate_item L) items agg = Inr agg'" and "agg_ok agg"
    and "\<forall>i \<in> set items. 1 \<le> ri_qty i \<and> 0 \<le> ri_unit_cost i \<and> has_places 2 (ri_unit_cost i)"
    and "agg_value agg + items_value items < 10 ^ 18"
  shows "agg_ok agg' \<and> agg_value agg' = agg_value agg + items_value items"
  using assms
proof (induction items arbitrary: agg)
  case (Cons i items)
  from Cons.prems(1) obtain a where a: "aggregate_item L i agg = Inr a" "fold_result (aggregate_item L) items a = Inr agg'"
    by (auto simp: result_simps)
  have "0 \<le> items_value items" using Cons.prems(3) by (intro items_value_nonneg) simp
  with Cons.prems have "agg_ok a \<and> agg_value a = agg_value agg + ri_unit_cost i * of_int (ri_qty i)"
    by (intro aggregate_item_ok [OF a(1)]) (simp_all add: items_value_def)
  with Cons.IH [OF a(2)] Cons.prems show ?case by (simp add: items_value_def)
qed (simp add: items_value_def)

lemma raw_lines_ok:
  assumes ok: "agg_ok agg" and b: "agg_value agg < 10 ^ 18"
  shows "distinct (map rl_variant (raw_lines L H agg))"
    and "l \<in> set (raw_lines L H agg) \<Longrightarrow> 0 \<le> rl_gross l \<and> has_places 2 (rl_gross l) \<and> rl_gross l < 10 ^ 18"
    and "foldl (\<lambda>s l. dec_plus L s (rl_gross l)) 0 (raw_lines L H agg) = agg_value agg"
    and "(\<Sum>l\<leftarrow>raw_lines L H agg. rl_gross l) = agg_value agg"
    and "has_places 2 (agg_value agg)"
proof -
  let ?m = "\<lambda>(v, qty, gross). \<lparr>rl_variant = v, rl_qty = qty, rl_gross = dec_places L 2 gross\<rparr>"
  have g: "rl_gross (?m p) = snd (snd p)" if "p \<in> set agg" for p
    using ok that by (auto simp: agg_ok_def places round_places_id)
  have "map rl_variant (map ?m agg) = map fst agg" by auto
  then show "distinct (map rl_variant (raw_lines L H agg))"
    using ok by (simp add: raw_lines_def agg_ok_def del: map_map)
  show each: "0 \<le> rl_gross l \<and> has_places 2 (rl_gross l) \<and> rl_gross l < 10 ^ 18"
    if l: "l \<in> set (raw_lines L H agg)" for l
  proof -
    from l obtain p where p: "p \<in> set agg" "l = ?m p" by (auto simp: raw_lines_def)
    obtain v q x where "p = (v, q, x)" by (cases p) auto
    with p g [OF p(1)] ok b agg_value_bound [OF ok, of v q x] show ?thesis by (auto simp: agg_ok_def)
  qed
  show sum: "(\<Sum>l\<leftarrow>raw_lines L H agg. rl_gross l) = agg_value agg"
    using g by (auto simp: raw_lines_def agg_value_def intro!: arg_cong [of _ _ sum_list])
  have a: "(\<Sum>l\<leftarrow>raw_lines L H agg. \<bar>rl_gross l\<bar>) = (\<Sum>l\<leftarrow>raw_lines L H agg. rl_gross l)"
    using each by (intro arg_cong [of _ _ sum_list] map_cong) auto
  have "foldl (dec_plus L) 0 (map rl_gross (raw_lines L H agg)) = 0 + sum_list (map rl_gross (raw_lines L H agg))"
    using each a sum b by (intro foldl_plus_exact) (auto simp: comp_def)
  then show "foldl (\<lambda>s l. dec_plus L s (rl_gross l)) 0 (raw_lines L H agg) = agg_value agg"
    by (simp add: foldl_map sum)
  show "has_places 2 (agg_value agg)"
    unfolding sum [symmetric] using each by (intro has_places_sum_list) blast
qed

lemma line_cents_ok_money:
  assumes dist: "distinct (map rl_variant lines)"
    and each: "\<And>l. l \<in> set lines \<Longrightarrow> 0 \<le> rl_gross l \<and> has_places 2 (rl_gross l) \<and> rl_gross l < 10 ^ 18"
    and sum: "(\<Sum>l\<leftarrow>lines. rl_gross l) = subtotal" and b: "subtotal < 10 ^ 18"
    and d: "0 \<le> discount" "discount \<le> subtotal" "has_places 2 discount"
  shows "line_cents_ok L (cents L subtotal) (cents L discount) lines"
proof -
  have c: "of_int (cents L (rl_gross l)) = rl_gross l * 100" if "l \<in> set lines" for l
    using each [OF that] by (intro cents_eq) auto
  have p: "has_places 2 subtotal" unfolding sum [symmetric] using each by (intro has_places_sum_list) blast
  have s: "of_int (cents L subtotal) = subtotal * 100" and e: "of_int (cents L discount) = discount * 100"
    using p b d by (auto intro!: cents_eq)
  have "of_int (\<Sum>l\<leftarrow>lines. cents L (rl_gross l)) = (\<Sum>l\<leftarrow>lines. rl_gross l * (100::rat))"
    unfolding of_int_sum_list by (simp add: comp_def) (intro arg_cong [of _ _ sum_list] map_cong, simp_all add: c)
  also have "\<dots> = of_int (cents L subtotal)" by (simp add: sum_list_mult_const sum s)
  finally have "cents L subtotal = (\<Sum>l\<leftarrow>lines. cents L (rl_gross l))" by (simp only: of_int_eq_iff)
  moreover have "(0::rat) \<le> of_int (cents L discount)" "of_int (cents L discount) \<le> (of_int (cents L subtotal) :: rat)"
    using d by (simp_all add: s e)
  moreover have "0 \<le> cents L (rl_gross l)" if "l \<in> set lines" for l
  proof -
    have "(0::rat) \<le> of_int (cents L (rl_gross l))" using c [OF that] each [OF that] by simp
    then show ?thesis by simp
  qed
  ultimately show ?thesis using dist by (simp add: line_cents_ok_def)
qed

lemma prepare_line_ok:
  assumes ok: "line_cents_ok L (cents L subtotal) (cents L discount) lines" and c: "collates (locale_compare H)"
    and each: "\<And>l. l \<in> set lines \<Longrightarrow> 0 \<le> rl_gross l \<and> has_places 2 (rl_gross l) \<and> rl_gross l < 10 ^ 18"
    and l: "l \<in> set lines"
  defines "a \<equiv> allocated_cents L H (cents L subtotal) (cents L discount) lines (rl_variant l)"
    and "p \<equiv> prepare_line L (allocation_by_variant H (cents L discount)
               (map (allocate_floor L (cents L subtotal) (cents L discount)) lines)) l"
  shows "pl_allocated_discount p = of_int a / 100 \<and> pl_line_subtotal p = rl_gross l \<and> 0 \<le> pl_allocated_discount p
       \<and> pl_allocated_discount p \<le> pl_line_subtotal p \<and> has_places 2 (pl_allocated_discount p)
       \<and> pl_net_line_total p = pl_line_subtotal p - pl_allocated_discount p"
proof -
  note e = each [OF l]
  have b: "0 \<le> a" "a \<le> cents L (rl_gross l)" using allocated_cents_ok(2) [OF ok c l] by (simp_all add: a_def)
  have g: "of_int (cents L (rl_gross l)) = rl_gross l * 100" using e by (intro cents_eq) auto
  have "(of_int a :: rat) \<le> of_int (cents L (rl_gross l))" using b(2) by (simp only: of_int_le_iff)
  then have le: "of_int a \<le> rl_gross l * 100" using g by simp
  then have "(of_int a :: rat) < of_int (10 ^ 20)" using e by simp
  then have "\<bar>a\<bar> < 10 ^ 20" using b(1) by (simp only: of_int_less_iff abs_of_nonneg)
  then have alloc: "pl_allocated_discount p = of_int a / 100"
    by (simp add: p_def prepare_line_def Let_def allocated_cents_def a_def from_cents_eq)
  have pa: "has_places 2 (of_int a / 100)" by (simp add: has_places_def)
  have s: "pl_line_subtotal p = rl_gross l" by (simp add: p_def prepare_line_def Let_def)
  have n: "pl_net_line_total p = dec_places L 2 (dec_minus L (rl_gross l) (pl_allocated_discount p))"
    by (simp add: p_def prepare_line_def Let_def)
  have r: "0 \<le> of_int a / (100::rat)" "of_int a / 100 \<le> rl_gross l" using b(1) le by simp_all
  then have "\<bar>rl_gross l - of_int a / 100\<bar> < 10 ^ 18" using e by linarith
  then have net: "pl_net_line_total p = rl_gross l - of_int a / 100"
    using e pa by (simp add: n alloc minus_exact cents_fits20 places round_places_id places_intro)
  show ?thesis unfolding net s alloc using r pa by simp
qed

lemma receipt_discount_ok:
  assumes "\<not> discount_is_negative dto" and "0 \<le> subtotal"
  shows "0 \<le> receipt_discount L dto subtotal \<and> has_places 2 (receipt_discount L dto subtotal)"
proof -
  have d: "0 \<le> dec_div L (dec_mul L subtotal p) 100" if "0 \<le> p" for p
    using that assms(2) by (intro div_nonneg mul_nonneg) simp_all
  show ?thesis
  proof (cases "rd_discount_amount dto")
    case None
    then have "0 \<le> (case rd_discount_percent dto of None \<Rightarrow> 0 | Some p \<Rightarrow> p)"
      using assms(1) by (simp add: discount_is_negative_def split: option.splits)
    from round_places_nonneg [OF d [OF this]] show ?thesis
      by (simp add: receipt_discount_def None places)
  next
    case (Some x)
    then have "0 \<le> x" using assms(1) by (simp add: discount_is_negative_def)
    from round_places_nonneg [OF this] show ?thesis by (simp add: receipt_discount_def Some places)
  qed
qed

text \<open>The whole preparation, from the requested lines to the prepared ones.\<close>

lemma aggregated_ok:
  assumes range: "receipt_in_range dto"
    and agg: "fold_result (aggregate_item L) (rd_items dto) [] = Inr agg"
  shows "agg_ok agg" and "agg_value agg = items_value (rd_items dto)" and "agg_value agg < 10 ^ 18"
    and "0 \<le> agg_value agg" and "has_places 2 (agg_value agg)"
    and "foldl (\<lambda>s l. dec_plus L s (rl_gross l)) 0 (raw_lines L H agg) = agg_value agg"
proof -
  have "agg_ok agg \<and> agg_value agg = agg_value [] + items_value (rd_items dto)"
    using range by (intro aggregate_ok [OF agg])
      (auto simp: receipt_in_range_def items_value_def agg_ok_def agg_value_def)
  then show ok: "agg_ok agg" and v: "agg_value agg = items_value (rd_items dto)" by (simp_all add: agg_value_def)
  show b: "agg_value agg < 10 ^ 18" using range by (simp add: v receipt_in_range_def items_value_def)
  show "0 \<le> agg_value agg" by (rule agg_value_nonneg [OF ok])
  show "has_places 2 (agg_value agg)" by (rule raw_lines_ok(5) [OF ok b])
  show "foldl (\<lambda>s l. dec_plus L s (rl_gross l)) 0 (raw_lines L H agg) = agg_value agg"
    by (rule raw_lines_ok(3) [OF ok b])
qed

lemma prepare_lines_ok:
  assumes range: "receipt_in_range dto" and c: "collates (locale_compare H)"
    and agg: "fold_result (aggregate_item L) (rd_items dto) [] = Inr agg"
    and d: "0 \<le> discount" "discount \<le> agg_value agg" "has_places 2 discount"
  defines "ps \<equiv> prepare_lines L H (agg_value agg) discount (raw_lines L H agg)"
  shows "foldl (\<lambda>s l. dec_plus L s (pl_allocated_discount l)) 0 ps = discount"
    and "(\<Sum>l\<leftarrow>ps. pl_allocated_discount l) = discount"
    and "(\<Sum>l\<leftarrow>ps. pl_line_subtotal l) = agg_value agg"
    and "p \<in> set ps \<Longrightarrow> 0 \<le> pl_allocated_discount p \<and> pl_allocated_discount p \<le> pl_line_subtotal p
           \<and> pl_net_line_total p = pl_line_subtotal p - pl_allocated_discount p"
proof -
  note ok = aggregated_ok(1) [OF range agg] and b = aggregated_ok(3) [OF range agg]
  note r = raw_lines_ok(1-4) [OF ok b, where H = H] raw_lines_ok(5) [OF ok b]
  let ?lines = "raw_lines L H agg"
  have lc: "line_cents_ok L (cents L (agg_value agg)) (cents L discount) ?lines"
    using r(1,2,4) b d by (intro line_cents_ok_money) auto
  note p = prepare_line_ok [OF lc c r(2)]
  show each: "0 \<le> pl_allocated_discount p \<and> pl_allocated_discount p \<le> pl_line_subtotal p
      \<and> pl_net_line_total p = pl_line_subtotal p - pl_allocated_discount p" if "p \<in> set ps"
    using that p by (auto simp: ps_def prepare_lines_def)
  have a: "(\<Sum>l\<leftarrow>ps. pl_allocated_discount l)
      = (\<Sum>l\<leftarrow>?lines. of_int (allocated_cents L H (cents L (agg_value agg)) (cents L discount) ?lines (rl_variant l)) / 100)"
    unfolding ps_def prepare_lines_def map_map comp_def using p
    by (intro arg_cong [of _ _ sum_list] map_cong) blast+
  also have "\<dots> = of_int (\<Sum>l\<leftarrow>?lines. allocated_cents L H (cents L (agg_value agg)) (cents L discount) ?lines (rl_variant l)) / 100"
    by (rule sum_hundredths)
  also have "\<dots> = of_int (cents L discount) / 100" by (simp only: allocated_cents_ok(1) [OF lc c])
  also have "\<dots> = discount" using d b cents_eq [of discount] by auto
  finally show sum: "(\<Sum>l\<leftarrow>ps. pl_allocated_discount l) = discount" .
  have e: "has_places 2 (pl_allocated_discount l) \<and> 0 \<le> pl_allocated_discount l" if "l \<in> set ps" for l
    using that p by (auto simp: ps_def prepare_lines_def)
  have s: "(\<Sum>l\<leftarrow>ps. \<bar>pl_allocated_discount l\<bar>) = (\<Sum>l\<leftarrow>ps. pl_allocated_discount l)"
    using e by (intro arg_cong [of _ _ sum_list] map_cong) auto
  have "foldl (dec_plus L) 0 (map pl_allocated_discount ps) = 0 + sum_list (map pl_allocated_discount ps)"
    using e s sum d b by (intro foldl_plus_exact) (auto simp: comp_def)
  then show "foldl (\<lambda>s l. dec_plus L s (pl_allocated_discount l)) 0 ps = discount"
    by (simp add: foldl_map sum)
  have "(\<Sum>l\<leftarrow>ps. pl_line_subtotal l) = (\<Sum>l\<leftarrow>?lines. rl_gross l)"
    unfolding ps_def prepare_lines_def map_map comp_def using p
    by (intro arg_cong [of _ _ sum_list] map_cong) blast+
  then show "(\<Sum>l\<leftarrow>ps. pl_line_subtotal l) = agg_value agg" by (simp add: r(4))
qed

end


section \<open>Properties\<close>

definition receipt_split_ok :: "receipt_dto \<Rightarrow> prepared_receipt \<Rightarrow> bool" where
  "receipt_split_ok dto r \<longleftrightarrow>
     pr_subtotal r = items_value (rd_items dto)
     \<and> pr_total r = pr_subtotal r - pr_discount r
     \<and> (\<Sum>l\<leftarrow>pr_lines r. pl_line_subtotal l) = pr_subtotal r
     \<and> (\<Sum>l\<leftarrow>pr_lines r. pl_allocated_discount l) = pr_discount r
     \<and> (\<Sum>l\<leftarrow>pr_lines r. pl_net_line_total l) = pr_total r
     \<and> (\<forall>l \<in> set (pr_lines r). 0 \<le> pl_allocated_discount l \<and> pl_allocated_discount l \<le> pl_line_subtotal l
          \<and> pl_net_line_total l = pl_line_subtotal l - pl_allocated_discount l)"

context decimal_js
begin

lemma prepare_split_ok:
  assumes range: "receipt_in_range dto" and c: "collates (locale_compare H)"
    and r: "prepare_purchase_receipt L H dto = Inr r"
  shows "receipt_split_ok dto r"
proof -
  from r obtain agg where agg: "fold_result (aggregate_item L) (rd_items dto) [] = Inr agg"
    and neg: "\<not> discount_is_negative dto"
    and nonneg: "\<not> foldl (\<lambda>s l. dec_plus L s (rl_gross l)) 0 (raw_lines L H agg) < 0"
    and le: "receipt_discount L dto (pr_subtotal r) \<le> pr_subtotal r"
    and sub: "pr_subtotal r = dec_places L 2 (foldl (\<lambda>s l. dec_plus L s (rl_gross l)) 0 (raw_lines L H agg))"
    and disc: "pr_discount r = receipt_discount L dto (pr_subtotal r)"
    and lines: "pr_lines r = prepare_lines L H (pr_subtotal r) (pr_discount r) (raw_lines L H agg)"
    and total: "pr_total r = dec_places L 2 (dec_minus L (pr_subtotal r) (pr_discount r))"
    by (auto simp: prepare_purchase_receipt_def Let_def result_simps)
  note a = aggregated_ok(2-5) [OF range agg] aggregated_ok(6) [OF range agg, where H = H]
  have sub: "pr_subtotal r = agg_value agg" using sub a by (simp add: places round_places_id)
  have d: "0 \<le> pr_discount r" "pr_discount r \<le> agg_value agg" "has_places 2 (pr_discount r)"
    using receipt_discount_ok [OF neg a(3)] le by (simp_all add: disc sub)
  note p = prepare_lines_ok [OF range c agg d, folded sub, folded lines]
  have "\<bar>pr_subtotal r - pr_discount r\<bar> < 10 ^ 18" using a(2) d sub by linarith
  then have t: "pr_total r = pr_subtotal r - pr_discount r"
    using a(4) d by (simp add: total sub minus_exact cents_fits20 places round_places_id places_intro)
  have "(\<Sum>l\<leftarrow>pr_lines r. pl_net_line_total l) = (\<Sum>l\<leftarrow>pr_lines r. pl_line_subtotal l - pl_allocated_discount l)"
    using p(4) by (intro arg_cong [of _ _ sum_list] map_cong) blast+
  also have "\<dots> = pr_total r" by (simp add: sum_list_subtractf p t)
  finally show ?thesis using p(4) by (simp add: receipt_split_ok_def p t sub a(1))
qed

lemma never_inexact:
  assumes range: "receipt_in_range dto" and c: "collates (locale_compare H)"
  shows "prepare_purchase_receipt L H dto \<noteq> Inl (JsError ''Purchase discount allocation is not exact'')"
proof
  let ?e = "JsError ''Purchase discount allocation is not exact''"
  assume p: "prepare_purchase_receipt L H dto = Inl ?e"
  have no_agg: "fold_result (aggregate_item L) (rd_items dto) [] \<noteq> Inl ?e"
    by (auto simp: aggregate_item_def Let_def split: prod.splits if_splits dest!: fold_result_error)
  have no_number: "normalize_supplier_invoice_number H n \<noteq> Inl ?e" for n
    by (auto simp: normalize_supplier_invoice_number_def Let_def split: option.splits)
  show False
  proof (cases "fold_result (aggregate_item L) (rd_items dto) []")
    case (Inr agg)
    note a = aggregated_ok(2-5) [OF range Inr] aggregated_ok(6) [OF range Inr, where H = H]
    have sub: "dec_places L 2 (agg_value agg) = agg_value agg" using a by (simp add: places round_places_id)
    let ?d = "receipt_discount L dto (agg_value agg)"
    have "dec_places L 2 (foldl (\<lambda>s l. dec_plus L s (pl_allocated_discount l)) 0
        (prepare_lines L H (agg_value agg) ?d (raw_lines L H agg))) = ?d"
      if n: "\<not> discount_is_negative dto" and le: "?d \<le> agg_value agg"
      using receipt_discount_ok [OF n a(3)] prepare_lines_ok(1) [OF range c Inr _ le]
      by (simp add: places round_places_id)
    with p no_number show False
      by (simp add: prepare_purchase_receipt_def Let_def Inr a(5) sub result_simps)
  qed (use p no_agg in \<open>simp add: prepare_purchase_receipt_def\<close>)
qed

end


text \<open>C2: Under a consistent collation and for costs in the supported range, every receipt the code
  prepares splits the money exactly: the subtotal is the value of the requested items, the total
  is the subtotal less the discount, the discounts allocated to the lines sum to the discount and
  none exceeds its line, and the net line totals sum to the total.\<close>

theorem purchase_split_exact:
  assumes "decimal_js L" and "collates (locale_compare H)" and "receipt_in_range dto"
    and "prepare_purchase_receipt L H dto = Inr r"
  shows "receipt_split_ok dto r"
  using assms by (intro decimal_js.prepare_split_ok)

definition plain_host :: purchase_host where
  "plain_host = \<lparr>nfkc = (\<lambda>s. s), locale_compare = code_unit_compare, iso_string = (\<lambda>s. s), receipt_digest = (\<lambda>c. ca_supplier_id c)\<rparr>"

definition three_lines :: receipt_dto where
  "three_lines = \<lparr>rd_command_id = Some ''k'', rd_supplier_id = ''s'', rd_branch_id = ''b'',
     rd_invoice_number = Some '' inv  7 '', rd_invoice_date = None, rd_received_at = None,
     rd_discount_amount = Some 1, rd_discount_percent = None, rd_ocr_source_file = None,
     rd_items = [\<lparr>ri_variant = ''z'', ri_qty = 1, ri_unit_cost = 1\<rparr>, \<lparr>ri_variant = ''y'', ri_qty = 1, ri_unit_cost = 1\<rparr>,
                 \<lparr>ri_variant = ''z'', ri_qty = 2, ri_unit_cost = 5 / 100\<rparr>]\<rparr>"

lemma three_lines_prepared:
  "case prepare_purchase_receipt dec_exact plain_host three_lines of
     Inl e \<Rightarrow> False
   | Inr r \<Rightarrow> map (\<lambda>l. (pl_variant l, pl_allocated_discount l)) (pr_lines r) = [(''y'', 48 / 100), (''z'', 52 / 100)]
           \<and> pr_invoice_number r = Some ''INV 7''"
proof -
  let ?agg = "[(''z'', 3, 11 / 10), (''y'', 1, 1)] :: (string \<times> int \<times> rat) list"
  let ?lines = "[\<lparr>rl_variant = ''y'', rl_qty = 1, rl_gross = 1\<rparr>, \<lparr>rl_variant = ''z'', rl_qty = 3, rl_gross = 11 / 10\<rparr>]"
  let ?prepared = "prepare_lines dec_exact plain_host (21 / 10) 1 ?lines"
  have agg: "fold_result (aggregate_item dec_exact) (rd_items three_lines) [] = Inr ?agg" by code_simp
  have lines: "raw_lines dec_exact plain_host ?agg = ?lines" by code_simp
  have sum: "foldl (\<lambda>s l. dec_plus dec_exact s (rl_gross l)) 0 ?lines = 21 / 10" by code_simp
  have sub: "dec_places dec_exact 2 (21 / 10) = 21 / 10" by code_simp
  have disc: "receipt_discount dec_exact three_lines (21 / 10) = 1" by code_simp
  have alloc: "map (\<lambda>l. (pl_variant l, pl_allocated_discount l)) ?prepared = [(''y'', 48 / 100), (''z'', 52 / 100)]"
    by code_simp
  have total: "dec_places dec_exact 2 (foldl (\<lambda>s l. dec_plus dec_exact s (pl_allocated_discount l)) 0 ?prepared) = 1"
    by code_simp
  have number: "normalize_supplier_invoice_number plain_host (rd_invoice_number three_lines) = Inr (Some ''INV 7'')"
    by code_simp
  have key: "truthy (rd_command_id three_lines)" "\<not> discount_is_negative three_lines" by code_simp+
  show ?thesis
    by (simp only: prepare_purchase_receipt_def agg and_then_simps Let_def lines sum sub disc total number key)
       (simp add: alloc throw_if_def)
qed

lemma three_lines_range: "receipt_in_range three_lines"
  by (auto simp: receipt_in_range_def three_lines_def has_places_def)

theorem purchase_split_exact_witness:
  "\<exists>r. prepare_purchase_receipt dec_exact plain_host three_lines = Inr r \<and> receipt_split_ok three_lines r
     \<and> map (\<lambda>l. (pl_variant l, pl_allocated_discount l)) (pr_lines r) = [(''y'', 48 / 100), (''z'', 52 / 100)]"
  using three_lines_prepared purchase_split_exact [OF dec_exact.decimal_js_axioms _ three_lines_range, of plain_host]
  by (auto simp: plain_host_def collates_code_unit split: sum.splits)

text \<open>For the same inputs the guard against an inexact allocation never fires.\<close>

theorem purchase_never_inexact:
  assumes "decimal_js L" and "collates (locale_compare H)" and "receipt_in_range dto"
  shows "prepare_purchase_receipt L H dto \<noteq> Inl (JsError ''Purchase discount allocation is not exact'')"
  using assms by (intro decimal_js.never_inexact)

theorem purchase_never_inexact_witness:
  "prepare_purchase_receipt dec_exact plain_host three_lines \<noteq> Inl (JsError ''Purchase discount allocation is not exact'')"
  by (rule purchase_never_inexact [OF dec_exact.decimal_js_axioms _ three_lines_range])
     (simp add: plain_host_def collates_code_unit)

section \<open>A series of supplier returns\<close>

text \<open>
  The returns of one purchase line, one after the other: each is given what the earlier ones took
  (the sums of quantity and credit the service reads back).
\<close>

definition next_return :: "dec_lib \<Rightarrow> int \<Rightarrow> rat \<Rightarrow> rat \<Rightarrow> int \<Rightarrow> int \<times> rat \<Rightarrow> (int \<times> rat) result" where
  "next_return L line_qty line_credit unit_credit requested taken =
     and_then (calculate_supplier_return_credit L line_qty line_credit (fst taken) (snd taken) requested unit_credit)
       (\<lambda>c. Inr (fst taken + requested, dec_plus L (snd taken) (rc_credit_total c)))"

definition taken_ok :: "int \<Rightarrow> rat \<Rightarrow> int \<times> rat \<Rightarrow> bool" where
  "taken_ok line_qty line_credit taken \<longleftrightarrow>
     0 \<le> fst taken \<and> fst taken \<le> line_qty \<and> 0 \<le> snd taken \<and> snd taken \<le> line_credit \<and> has_places 2 (snd taken)
     \<and> (fst taken = line_qty \<and> 0 < line_qty \<longrightarrow> snd taken = line_credit)"

context decimal_js
begin

lemma credit_step_ok:
  assumes credit: "has_places 2 line_credit" "line_credit < 10 ^ 18" and unit: "0 \<le> unit_credit"
    and ok: "taken_ok line_qty line_credit (n, t)"
    and step: "calculate_supplier_return_credit L line_qty line_credit n t requested unit_credit = Inr c"
  shows "taken_ok line_qty line_credit (n + requested, t + rc_credit_total c)"
    and "dec_plus L t (rc_credit_total c) = t + rc_credit_total c" and "1 \<le> requested"
proof -
  have t: "0 \<le> n" "0 \<le> t" "t \<le> line_credit" "has_places 2 t" using ok by (simp_all add: taken_ok_def)
  have rest: "has_places 2 (line_credit - t)" using credit t by (intro places_intro)
  have "\<bar>line_credit - t\<bar> < 10 ^ 18" using credit t by linarith
  then have minus: "dec_minus L line_credit t = line_credit - t" using rest by (simp add: minus_exact cents_fits20)
  let ?unit = "round_places 2 (dec_mul L unit_credit (of_int requested))" and ?c = "rc_credit_total c"
  have c: "1 \<le> requested" "requested \<le> line_qty - n"
    "?c = (if requested = line_qty - n then line_credit - t else min (line_credit - t) ?unit)"
    using step rest by (auto simp: calculate_supplier_return_credit_def Let_def result_simps minus places round_places_id)
  have "0 \<le> ?unit" using unit c(1) by (intro round_places_nonneg mul_nonneg) simp
  then have k: "0 \<le> ?c" "?c \<le> line_credit - t" "has_places 2 ?c"
    using c(3) t rest by (auto simp: min_def)
  have "t + ?c < 10 ^ 18" "0 \<le> t + ?c" using k t credit by linarith+
  then show "dec_plus L t ?c = t + ?c" using k t by (simp add: plus_exact cents_fits20 places_intro)
  have "has_places 2 (t + ?c)" using k t by (auto intro: places_intro)
  then show "taken_ok line_qty line_credit (n + requested, t + ?c)" using c k t by (auto simp: taken_ok_def)
  show "1 \<le> requested" by (rule c(1))
qed

lemma next_return_ok:
  assumes credit: "has_places 2 line_credit" "line_credit < 10 ^ 18" and unit: "0 \<le> unit_credit"
    and ok: "taken_ok line_qty line_credit taken"
    and step: "next_return L line_qty line_credit unit_credit requested taken = Inr taken'"
  shows "taken_ok line_qty line_credit taken'"
proof -
  obtain n t where taken: "taken = (n, t)" by (cases taken)
  obtain c where c: "calculate_supplier_return_credit L line_qty line_credit n t requested unit_credit = Inr c"
    "taken' = (n + requested, dec_plus L t (rc_credit_total c))"
    using step by (auto simp: next_return_def taken result_simps)
  show ?thesis using credit_step_ok [OF credit unit ok [unfolded taken] c(1)] c(2) by simp
qed

lemma returns_ok:
  assumes "has_places 2 line_credit" "0 \<le> line_credit" "line_credit < 10 ^ 18" "0 \<le> unit_credit" "1 \<le> line_qty"
    and "fold_result (next_return L line_qty line_credit unit_credit) requests (0, 0) = Inr taken"
  shows "taken_ok line_qty line_credit taken"
proof (rule fold_result_invariant [OF assms(6)])
  show "taken_ok line_qty line_credit (0, 0)" using assms by (simp add: taken_ok_def)
qed (rule next_return_ok [OF assms(1,3,4)])

end

text \<open>However a purchase line is returned piece by piece, the credits never exceed the credit of
  the line, and they sum to exactly that credit once the whole quantity is back, whatever the
  rounded unit credit is.\<close>

theorem supplier_returns_close:
  assumes "decimal_js L" and "has_places 2 line_credit" "0 \<le> line_credit" "line_credit < 10 ^ 18"
    and "0 \<le> unit_credit" and "1 \<le> line_qty"
    and "fold_result (next_return L line_qty line_credit unit_credit) requests (0, 0) = Inr (qty, credit)"
  shows "qty \<le> line_qty \<and> credit \<le> line_credit \<and> (qty = line_qty \<longrightarrow> credit = line_credit)"
  using decimal_js.returns_ok [OF assms(1-7)] assms(6) by (simp add: taken_ok_def)

theorem supplier_returns_close_witness:
  "fold_result (next_return dec_exact 3 10 (333 / 100)) [1, 1, 1] (0, 0) = Inr (3, 10)
   \<and> (3::int) \<le> 3 \<and> (10::rat) \<le> 10"
proof -
  have r: "fold_result (next_return dec_exact 3 10 (333 / 100)) [1, 1, 1] (0, 0) = Inr (3, 10)" by code_simp
  have "has_places 2 10" by (simp add: has_places_def)
  from supplier_returns_close [OF dec_exact.decimal_js_axioms this _ _ _ _ r] r show ?thesis by simp
qed

end
