(* ===== verification/Js_Value.thy ===== *)
theory Js_Value
  imports Js_Text
begin

text \<open>
  Values whose type the sources do not know (\<open>any\<close>, \<open>unknown\<close>): what \<open>JSON.parse\<close> and the IPC
  channel deliver. \<open>String(v)\<close> and \<open>Number(v)\<close> need the decimal text of a number and back; these
  two conversions are the record \<open>number_text\<close>, a parameter.

  The regular expressions for identifiers, Egyptian phone numbers and decimal sequences, which
  several files repeat, are here as well.
\<close>

datatype js_value =
    Undefined
  | Null
  | Boolean bool
  | Number rat
  | NaN
  | Infinity bool
  | String string
  | Array "js_value list"
  | Object "(string \<times> js_value) list"

record number_text =
  text_of_number :: "rat \<Rightarrow> string"
  number_of_text :: "string \<Rightarrow> js_value"

fun truthy_value :: "js_value \<Rightarrow> bool" where
  "truthy_value Undefined = False"
| "truthy_value Null = False"
| "truthy_value (Boolean b) = b"
| "truthy_value (Number r) = (r \<noteq> 0)"
| "truthy_value NaN = False"
| "truthy_value (Infinity positive) = True"
| "truthy_value (String s) = (s \<noteq> [])"
| "truthy_value (Array vs) = True"
| "truthy_value (Object fs) = True"

fun join_commas :: "string list \<Rightarrow> string" where
  "join_commas [] = []"
| "join_commas [s] = s"
| "join_commas (s # t # ts) = s @ '','' @ join_commas (t # ts)"

fun string_of :: "number_text \<Rightarrow> js_value \<Rightarrow> string" where
  "string_of T Undefined = ''undefined''"
| "string_of T Null = ''null''"
| "string_of T (Boolean b) = (if b then ''true'' else ''false'')"
| "string_of T (Number r) = text_of_number T r"
| "string_of T NaN = ''NaN''"
| "string_of T (Infinity positive) = (if positive then ''Infinity'' else ''-Infinity'')"
| "string_of T (String s) = s"
| "string_of T (Array vs) =
     join_commas (map (\<lambda>v. case v of Undefined \<Rightarrow> [] | Null \<Rightarrow> [] | w \<Rightarrow> string_of T v) vs)"
| "string_of T (Object fs) = ''[object Object]''"

text \<open>\<open>Number(v)\<close>: a number, \<open>NaN\<close> or an infinity.\<close>

fun number_of :: "number_text \<Rightarrow> js_value \<Rightarrow> js_value" where
  "number_of T Undefined = NaN"
| "number_of T Null = Number 0"
| "number_of T (Boolean b) = Number (if b then 1 else 0)"
| "number_of T (Number r) = Number r"
| "number_of T NaN = NaN"
| "number_of T (Infinity positive) = Infinity positive"
| "number_of T (String s) = number_of_text T s"
| "number_of T (Array vs) = number_of_text T (string_of T (Array vs))"
| "number_of T (Object fs) = NaN"

text \<open>\<open>String(v || fallback)\<close>, the property access \<open>v?.k\<close>, \<open>Number.isInteger\<close>, \<open>Number.isFinite\<close>
  and \<open>Number.isSafeInteger\<close>.\<close>

definition string_or :: "number_text \<Rightarrow> js_value \<Rightarrow> string \<Rightarrow> string" where
  "string_or T v fallback = (if truthy_value v then string_of T v else fallback)"

fun field :: "js_value \<Rightarrow> string \<Rightarrow> js_value" where
  "field (Object fs) k = (case map_of (rev fs) k of None \<Rightarrow> Undefined | Some v \<Rightarrow> v)"
| "field v k = Undefined"

fun finite_number :: "js_value \<Rightarrow> rat option" where
  "finite_number (Number r) = Some r"
| "finite_number v = None"

definition integer_number :: "js_value \<Rightarrow> int option" where
  "integer_number v = (case finite_number v of None \<Rightarrow> None | Some r \<Rightarrow> if r = of_int \<lfloor>r\<rfloor> then Some \<lfloor>r\<rfloor> else None)"

definition safe_integer_number :: "js_value \<Rightarrow> int option" where
  "safe_integer_number v = (case integer_number v of None \<Rightarrow> None | Some n \<Rightarrow> if safe_int n then Some n else None)"

lemma integer_number_of_int [simp]: "integer_number (Number (of_int n)) = Some n"
  by (simp add: integer_number_def)

lemma string_or_String [simp]: "string_or T (String s) [] = s"
  by (simp add: string_or_def)

section \<open>JSON text\<close>

text \<open>\<open>JSON.stringify\<close>: a field whose value is undefined is left out, an element becomes null.\<close>

definition json_char :: "char \<Rightarrow> string" where
  "json_char c =
     (let n = (of_char c :: nat) in
      if n = 34 then [CHR 0x5C, CHR 0x22] else if n = 92 then [CHR 0x5C, CHR 0x5C]
      else if n = 8 then [CHR 0x5C, CHR ''b''] else if n = 12 then [CHR 0x5C, CHR ''f'']
      else if n = 10 then [CHR 0x5C, CHR ''n''] else if n = 13 then [CHR 0x5C, CHR ''r'']
      else if n = 9 then [CHR 0x5C, CHR ''t'']
      else if n < 32 then CHR 0x5C # ''u00'' @ [''0123456789abcdef'' ! (n div 16), ''0123456789abcdef'' ! (n mod 16)]
      else [c])"

definition json_quote :: "string \<Rightarrow> string" where
  "json_quote s = CHR 0x22 # concat (map json_char s) @ [CHR 0x22]"

fun json_text :: "number_text \<Rightarrow> js_value \<Rightarrow> string" where
  "json_text T Undefined = ''null''"
| "json_text T Null = ''null''"
| "json_text T (Boolean b) = (if b then ''true'' else ''false'')"
| "json_text T (Number r) = text_of_number T r"
| "json_text T NaN = ''null''"
| "json_text T (Infinity positive) = ''null''"
| "json_text T (String s) = json_quote s"
| "json_text T (Array vs) = ''['' @ join_commas (map (json_text T) vs) @ '']''"
| "json_text T (Object fs) =
     ''{'' @ join_commas (map (\<lambda>(k, v). json_quote k @ '':'' @ json_text T v)
                        (filter (\<lambda>(k, v). v \<noteq> Undefined) fs)) @ ''}''"

section \<open>Regular expressions\<close>

definition hex_char :: "char \<Rightarrow> bool" where
  "hex_char c \<longleftrightarrow> is_digit c \<or> (let n = (of_char c :: nat) in (97 \<le> n \<and> n \<le> 102) \<or> (65 \<le> n \<and> n \<le> 70))"

text \<open>\<open>/^[0-9a-f]{8}-[0-9a-f]{4}-[1-8][0-9a-f]{3}-[89ab][0-9a-f]{3}-[0-9a-f]{12}$/i\<close>\<close>

definition uuid :: "string \<Rightarrow> bool" where
  "uuid s \<longleftrightarrow>
     length s = 36
     \<and> list_all (\<lambda>(i, c).
         if i \<in> {8, 13, 18, 23} then c = CHR ''-''
         else if i = 14 then c \<in> set ''12345678''
         else if i = 19 then c \<in> set ''89abAB''
         else hex_char c) (zip [0..<36] s)"

text \<open>\<open>/^(?:\+20|0)1[0125]\d{8}$/\<close>\<close>

definition egyptian_rest :: "string \<Rightarrow> bool" where
  "egyptian_rest s \<longleftrightarrow>
     (case s of c # d # ds \<Rightarrow> c = CHR ''1'' \<and> d \<in> set ''0125'' \<and> length ds = 8 \<and> list_all is_digit ds | _ \<Rightarrow> False)"

definition egyptian_phone :: "string \<Rightarrow> bool" where
  "egyptian_phone s \<longleftrightarrow>
     (take 3 s = ''+20'' \<and> egyptian_rest (drop 3 s)) \<or> (take 1 s = ''0'' \<and> egyptian_rest (drop 1 s))"

text \<open>\<open>replace(/\s+/g, '')\<close> and \<open>replace(/[\s-]+/g, '')\<close>\<close>

definition strip_spaces :: "string \<Rightarrow> string" where
  "strip_spaces s = filter (\<lambda>c. \<not> is_js_space c) s"

definition strip_separators :: "string \<Rightarrow> string" where
  "strip_separators s = filter (\<lambda>c. \<not> is_js_space c \<and> c \<noteq> CHR ''-'') s"

lemma uuid_nonempty: "uuid s \<Longrightarrow> s \<noteq> []"
  by (auto simp: uuid_def)

text \<open>A host whose number texts are the unsigned whole numbers, for the examples.\<close>

definition plain_numbers :: number_text where
  "plain_numbers = \<lparr>text_of_number = (\<lambda>r. []), number_of_text = (\<lambda>s. if s \<noteq> [] \<and> list_all is_digit s then Number (of_nat (digits_val s)) else NaN)\<rparr>"

end
