(* ===== verification/Pos_Validation.thy ===== *)
theory Pos_Validation
  imports Js_Value
begin

text \<open>
  What the till accepts from its window before it touches the local database:
  \<open>pos-electron/electron/sale-validation.ts\<close> (a sale to commit) and
  \<open>pos-electron/electron/held-sale.ts\<close> (a sale put on hold). The error carries the code of the
  sources; their Arabic messages are left out.
\<close>

section \<open>Sales to commit\<close>

definition payment_methods :: "string list" where
  "payment_methods = [''cash'', ''card'', ''instapay'', ''vodafone_cash'', ''installment'']"

record sale_item =
  si_variant_id :: string
  si_qty :: int
  si_unit_price :: rat
  si_unit_tax :: rat
  si_sku :: string
  si_name_ar :: string
  si_name_en :: string
  si_size :: "string option"
  si_color :: "string option"

record local_sale =
  ls_sync_id :: string
  ls_branch_id :: string
  ls_seller_id :: string
  ls_payment_method :: string
  ls_customer_phone :: "string option"
  ls_language :: string
  ls_local_total :: js_value
  ls_items :: "sale_item list"

text \<open>An item of the array, once it is normalised and passes its checks.\<close>

definition normalize_item :: "number_text \<Rightarrow> js_value \<Rightarrow> sale_item option" where
  "normalize_item T item =
     (let variant_id = string_or T (field item ''variant_id'') '''';
          qty = integer_number (number_of T (field item ''qty''));
          unit_price = finite_number (number_of T (field item ''unit_price''));
          unit_tax = finite_number (number_of T (field item ''unit_tax''));
          sku = trim (string_or T (field item ''sku'') '''');
          name_ar = trim (string_or T (field item ''name_ar'') '''');
          name_en = trim (string_or T (field item ''name_en'') '''');
          size = (if truthy_value (field item ''size'') then Some (trim (string_of T (field item ''size''))) else None);
          color = (if truthy_value (field item ''color'') then Some (trim (string_of T (field item ''color''))) else None)
      in case (qty, unit_price, unit_tax) of
           (Some q, Some p, Some t) \<Rightarrow>
             if \<not> uuid variant_id \<or> q < 1 \<or> q > 1000 \<or> p \<le> 0 \<or> t < 0 \<or> sku = [] \<or> (name_ar = [] \<and> name_en = [])
             then None
             else Some \<lparr>si_variant_id = variant_id, si_qty = q, si_unit_price = p, si_unit_tax = t, si_sku = sku,
                        si_name_ar = name_ar, si_name_en = name_en, si_size = size, si_color = color\<rparr>
         | _ \<Rightarrow> None)"

text \<open>The callback of \<open>map\<close>, with the set of identifiers it has seen.\<close>

fun validate_items :: "number_text \<Rightarrow> string list \<Rightarrow> js_value list \<Rightarrow> sale_item list result" where
  "validate_items T seen [] = Inr []"
| "validate_items T seen (item # items) =
     and_then (or_throw (normalize_item T item) (JsError ''SALE_ITEM_INVALID'')) (\<lambda>n.
     and_then (throw_if (si_variant_id n \<in> set seen) (JsError ''DUPLICATE_SALE_ITEM'')) (\<lambda>_.
     and_then (validate_items T (si_variant_id n # seen) items) (\<lambda>ns. Inr (n # ns))))"

definition validate_local_sale_input :: "number_text \<Rightarrow> js_value \<Rightarrow> string \<Rightarrow> local_sale result" where
  "validate_local_sale_input T sale enrolled_branch_id =
     (let sync_id = string_or T (field sale ''sync_id'') '''';
          branch_id = string_or T (field sale ''branch_id'') '''';
          seller_id = string_or T (field sale ''seller_id'') '''';
          payment_method = string_or T (field sale ''payment_method'') '''';
          phone = field sale ''customer_phone'';
          customer_phone = (if truthy_value phone then Some (strip_spaces (trim (string_of T phone))) else None)
      in
      and_then (throw_if (\<not> uuid sync_id) (JsError ''INVALID_SYNC_ID'')) (\<lambda>_.
      and_then (throw_if (\<not> uuid branch_id \<or> branch_id \<noteq> enrolled_branch_id) (JsError ''BRANCH_MISMATCH'')) (\<lambda>_.
      and_then (throw_if (\<not> uuid seller_id) (JsError ''SELLER_REQUIRED'')) (\<lambda>_.
      and_then (throw_if (payment_method \<notin> set payment_methods) (JsError ''PAYMENT_METHOD_INVALID'')) (\<lambda>_.
      and_then (throw_if (case customer_phone of None \<Rightarrow> False | Some p \<Rightarrow> p \<noteq> [] \<and> \<not> egyptian_phone p)
                 (JsError ''CUSTOMER_PHONE_INVALID'')) (\<lambda>_.
      case field sale ''items'' of
        Array items \<Rightarrow>
          and_then (throw_if (length items < 1 \<or> length items > 100) (JsError ''SALE_ITEMS_INVALID'')) (\<lambda>_.
          and_then (validate_items T [] items) (\<lambda>ns.
          Inr \<lparr>ls_sync_id = sync_id, ls_branch_id = branch_id, ls_seller_id = seller_id,
               ls_payment_method = payment_method, ls_customer_phone = customer_phone,
               ls_language = (if field sale ''language'' = String ''en'' then ''en'' else ''ar''),
               ls_local_total = number_of T (field sale ''local_total''), ls_items = ns\<rparr>))
      | _ \<Rightarrow> Inl (JsError ''SALE_ITEMS_INVALID'')))))))"

section \<open>Sales on hold\<close>

record held_item =
  hi_variant_id :: string
  hi_qty :: int

record held_customer =
  hc_id :: "string option"
  hc_name :: "string option"
  hc_phone :: string

record held_scope =
  hs_branch_id :: string
  hs_cashier_id :: string
  hs_shift_id :: string

text \<open>A stored row of held sales; a column that is missing is \<open>undefined\<close>.\<close>

record held_row =
  hr_branch_id :: "string option"
  hr_cashier_id :: "string option"
  hr_shift_id :: "string option"

definition required_id :: "number_text \<Rightarrow> js_value \<Rightarrow> string result" where
  "required_id T value =
     (let normalized = string_or T value '''' in
      if \<not> uuid normalized then Inl (JsError ''is invalid'') else Inr normalized)"

fun held_items :: "number_text \<Rightarrow> string list \<Rightarrow> js_value list \<Rightarrow> held_item list result" where
  "held_items T seen [] = Inr []"
| "held_items T seen (item # items) =
     and_then (required_id T (field item ''variant_id'')) (\<lambda>variant_id.
     and_then (or_throw (integer_number (number_of T (field item ''qty''))) (JsError ''Held sale quantity is invalid'')) (\<lambda>qty.
     and_then (throw_if (qty < 1 \<or> qty > 1000) (JsError ''Held sale quantity is invalid'')) (\<lambda>_.
     and_then (throw_if (variant_id \<in> set seen) (JsError ''Held sale contains a duplicate variant'')) (\<lambda>_.
     and_then (held_items T (variant_id # seen) items) (\<lambda>hs.
     Inr (\<lparr>hi_variant_id = variant_id, hi_qty = qty\<rparr> # hs))))))"

definition validate_held_sale_items :: "number_text \<Rightarrow> js_value \<Rightarrow> held_item list result" where
  "validate_held_sale_items T value =
     (case value of
        Array items \<Rightarrow>
          and_then (throw_if (length items < 1 \<or> length items > 100)
                     (JsError ''Held sale must contain one to 100 items'')) (\<lambda>_. held_items T [] items)
      | _ \<Rightarrow> Inl (JsError ''Held sale must contain one to 100 items''))"

definition sanitize_held_sale_customer :: "number_text \<Rightarrow> js_value \<Rightarrow> held_customer option result" where
  "sanitize_held_sale_customer T value =
     (if value = Null \<or> value = Undefined then Inr None
      else
        (let phone = strip_separators (trim (string_or T (field value ''phone'') ''''));
             name = trim (string_or T (field value ''name'') '''') in
         and_then (throw_if (\<not> egyptian_phone phone) (JsError ''Held sale customer phone is invalid'')) (\<lambda>_.
         and_then (throw_if (length name > 120) (JsError ''Held sale customer name is too long'')) (\<lambda>_.
         and_then (if truthy_value (field value ''id'') then map_sum id Some (required_id T (field value ''id'')) else Inr None) (\<lambda>i.
         Inr (Some \<lparr>hc_id = i, hc_name = (if name = [] then None else Some name), hc_phone = phone\<rparr>))))))"

text \<open>\<open>JSON.parse\<close> of the stored text is a parameter; \<open>None\<close> is a syntax error.\<close>

definition parse_held_sale_items :: "number_text \<Rightarrow> (string \<Rightarrow> js_value option) \<Rightarrow> js_value \<Rightarrow> held_item list result" where
  "parse_held_sale_items T json serialized =
     (case serialized of
        String s \<Rightarrow>
          (case json s of
             None \<Rightarrow> Inl (JsError ''Held sale item storage is invalid'')
           | Some v \<Rightarrow> validate_held_sale_items T v)
      | _ \<Rightarrow> Inl (JsError ''Held sale item storage is invalid''))"

definition held_sale_belongs_to_scope :: "held_row \<Rightarrow> held_scope \<Rightarrow> bool" where
  "held_sale_belongs_to_scope row scope \<longleftrightarrow>
     hr_branch_id row = Some (hs_branch_id scope) \<and> hr_cashier_id row = Some (hs_cashier_id scope)
     \<and> hr_shift_id row = Some (hs_shift_id scope)"

section \<open>What an accepted sale satisfies\<close>

definition item_ok :: "sale_item \<Rightarrow> bool" where
  "item_ok n \<longleftrightarrow> uuid (si_variant_id n) \<and> 1 \<le> si_qty n \<and> si_qty n \<le> 1000 \<and> 0 < si_unit_price n
     \<and> 0 \<le> si_unit_tax n \<and> si_sku n \<noteq> [] \<and> (si_name_ar n \<noteq> [] \<or> si_name_en n \<noteq> [])"

definition sale_ok :: "string \<Rightarrow> local_sale \<Rightarrow> bool" where
  "sale_ok branch s \<longleftrightarrow>
     uuid (ls_sync_id s) \<and> ls_branch_id s = branch \<and> uuid (ls_branch_id s) \<and> uuid (ls_seller_id s)
     \<and> ls_payment_method s \<in> set payment_methods
     \<and> (case ls_customer_phone s of None \<Rightarrow> True | Some p \<Rightarrow> p = [] \<or> egyptian_phone p)
     \<and> ls_items s \<noteq> [] \<and> length (ls_items s) \<le> 100
     \<and> list_all item_ok (ls_items s) \<and> distinct (map si_variant_id (ls_items s))"

lemma normalize_item_ok: "normalize_item T item = Some n \<Longrightarrow> item_ok n"
  by (auto simp: normalize_item_def Let_def item_ok_def split: option.splits if_splits)

lemma validate_items_ok:
  "validate_items T seen items = Inr ns \<Longrightarrow>
   length ns = length items \<and> list_all item_ok ns \<and> distinct (map si_variant_id ns)
   \<and> set (map si_variant_id ns) \<inter> set seen = {}"
proof (induction items arbitrary: seen ns)
  case (Cons item items)
  from Cons.prems obtain n rest where n: "normalize_item T item = Some n" "si_variant_id n \<notin> set seen"
    "validate_items T (si_variant_id n # seen) items = Inr rest" "ns = n # rest"
    by (auto simp: result_simps)
  from Cons.IH [OF n(3)] n normalize_item_ok [OF n(1)] show ?case by auto
qed simp

lemma validated_sale_ok:
  assumes v: "validate_local_sale_input T sale branch = Inr s"
  shows "sale_ok branch s"
proof -
  let ?phone = "field sale ''customer_phone''"
  let ?customer = "if truthy_value ?phone then Some (strip_spaces (trim (string_of T ?phone))) else None"
  obtain items where items: "field sale ''items'' = Array items"
    using v by (cases "field sale ''items''") (simp_all add: validate_local_sale_input_def Let_def result_simps split del: if_split)
  note v = v [unfolded validate_local_sale_input_def Let_def items js_value.case and_then_Inr_iff throw_if_Inr_iff]
  from v obtain ns where n: "items \<noteq> []" "\<not> 100 < length items" "validate_items T [] items = Inr ns"
    and p: "\<not> (case ?customer of None \<Rightarrow> False | Some p \<Rightarrow> p \<noteq> [] \<and> \<not> egyptian_phone p)"
    and s: "uuid (ls_sync_id s)" "uuid (ls_branch_id s)" "ls_branch_id s = branch" "uuid (ls_seller_id s)"
      "ls_payment_method s \<in> set payment_methods" "ls_items s = ns" "ls_customer_phone s = ?customer"
    by (elim exE conjE) (simp only: sum.inject, clarsimp split del: if_split)
  note i = validate_items_ok [OF n(3)]
  then have "ns \<noteq> []" "length ns \<le> 100" using n by auto
  moreover have "case ?customer of None \<Rightarrow> True | Some p \<Rightarrow> p = [] \<or> egyptian_phone p"
    using p by (cases ?customer) auto
  ultimately show ?thesis using s i by (simp add: sale_ok_def)
qed

definition held_ok :: "held_item list \<Rightarrow> bool" where
  "held_ok hs \<longleftrightarrow> hs \<noteq> [] \<and> length hs \<le> 100 \<and> distinct (map hi_variant_id hs)
     \<and> (\<forall>h \<in> set hs. uuid (hi_variant_id h) \<and> 1 \<le> hi_qty h \<and> hi_qty h \<le> 1000)"

lemma held_items_ok:
  "held_items T seen items = Inr hs \<Longrightarrow>
   length hs = length items \<and> distinct (map hi_variant_id hs) \<and> set (map hi_variant_id hs) \<inter> set seen = {}
   \<and> (\<forall>h \<in> set hs. uuid (hi_variant_id h) \<and> 1 \<le> hi_qty h \<and> hi_qty h \<le> 1000)"
proof (induction items arbitrary: seen hs)
  case (Cons item items)
  from Cons.prems obtain v q rest where n: "uuid v" "1 \<le> q" "q \<le> 1000" "v \<notin> set seen"
    "held_items T (v # seen) items = Inr rest" "hs = \<lparr>hi_variant_id = v, hi_qty = q\<rparr> # rest"
    by (auto simp: result_simps required_id_def Let_def split: if_splits)
  from Cons.IH [OF n(5)] n show ?case by auto
qed simp

lemma validated_held_ok: "validate_held_sale_items T v = Inr hs \<Longrightarrow> held_ok hs"
  by (auto simp: validate_held_sale_items_def result_simps held_ok_def dest!: held_items_ok split: js_value.splits)

text \<open>What the till stores of a held sale, and reads back.\<close>

definition held_item_value :: "held_item \<Rightarrow> js_value" where
  "held_item_value h = Object [(''variant_id'', String (hi_variant_id h)), (''qty'', Number (of_int (hi_qty h)))]"

lemma held_items_stored:
  assumes "distinct (map hi_variant_id hs)" "set (map hi_variant_id hs) \<inter> set seen = {}"
    and "\<forall>h \<in> set hs. uuid (hi_variant_id h) \<and> 1 \<le> hi_qty h \<and> hi_qty h \<le> 1000"
  shows "held_items T seen (map held_item_value hs) = Inr hs"
  using assms
proof (induction hs arbitrary: seen)
  case (Cons h hs)
  have f: "field (held_item_value h) ''variant_id'' = String (hi_variant_id h)"
    "field (held_item_value h) ''qty'' = Number (of_int (hi_qty h))" by (simp_all add: held_item_value_def)
  have "held_items T (hi_variant_id h # seen) (map held_item_value hs) = Inr hs"
    using Cons.prems by (intro Cons.IH) auto
  with Cons.prems f show ?case by (simp add: required_id_def throw_if_def)
qed simp

lemma held_sale_restored:
  assumes "validate_held_sale_items T v = Inr hs"
    and "json stored = Some (Array (map held_item_value hs))"
  shows "parse_held_sale_items T json (String stored) = Inr hs"
  using validated_held_ok [OF assms(1)] assms(2)
  by (simp add: parse_held_sale_items_def validate_held_sale_items_def held_ok_def held_items_stored throw_if_def)

section \<open>Properties\<close>

definition sample_uuid :: string where
  "sample_uuid = ''00000000-0000-4000-8000-00000000000a''"

definition sample_sale :: js_value where
  "sample_sale = Object
     [(''sync_id'', String sample_uuid), (''branch_id'', String sample_uuid), (''seller_id'', String sample_uuid),
      (''payment_method'', String ''cash''), (''customer_phone'', String '' 010 12345678''),
      (''items'', Array [Object [(''variant_id'', String sample_uuid), (''qty'', String ''2''), (''unit_price'', Number (5 / 2)),
         (''unit_tax'', Number 0), (''sku'', String '' A1 ''), (''name_en'', String ''Shirt'')]])]"

text \<open>C33: Whatever value the window sends, a sale the till accepts belongs to the enrolled branch, has
  well-formed identifiers, a known payment method and one to a hundred items of distinct variants,
  each with a whole quantity of 1 to 1000, a positive price, no negative tax and a name.\<close>

theorem accepted_sale_ok:
  assumes "validate_local_sale_input T sale branch = Inr s"
  shows "sale_ok branch s"
  using assms by (rule validated_sale_ok)

theorem accepted_sale_ok_witness:
  "\<exists>s. validate_local_sale_input plain_numbers sample_sale sample_uuid = Inr s \<and> sale_ok sample_uuid s
     \<and> ls_customer_phone s = Some ''01012345678'' \<and> map si_qty (ls_items s) = [2]"
proof -
  have "case validate_local_sale_input plain_numbers sample_sale sample_uuid of
      Inl e \<Rightarrow> False | Inr s \<Rightarrow> ls_customer_phone s = Some ''01012345678'' \<and> map si_qty (ls_items s) = [2]"
    by code_simp
  then show ?thesis by (auto split: sum.splits intro: accepted_sale_ok)
qed

text \<open>A held sale survives its storage: the items the till accepted, written to the database and
  read back through the JSON parser, are accepted again and are the same.\<close>

theorem held_sale_roundtrip:
  assumes "validate_held_sale_items T v = Inr hs"
    and "json stored = Some (Array (map held_item_value hs))"
  shows "parse_held_sale_items T json (String stored) = Inr hs \<and> held_ok hs"
  using held_sale_restored [OF assms(1), of json stored] validated_held_ok [OF assms(1)] assms(2) by simp

theorem held_sale_roundtrip_witness:
  "parse_held_sale_items plain_numbers (\<lambda>s. Some (Array [held_item_value \<lparr>hi_variant_id = sample_uuid, hi_qty = 3\<rparr>])) (String '''')
   = Inr [\<lparr>hi_variant_id = sample_uuid, hi_qty = 3\<rparr>]"
proof -
  have v: "validate_held_sale_items plain_numbers
      (Array [Object [(''variant_id'', String sample_uuid), (''qty'', String ''3'')]])
      = Inr [\<lparr>hi_variant_id = sample_uuid, hi_qty = 3\<rparr>]"
    by code_simp
  show ?thesis by (rule held_sale_roundtrip [OF v, THEN conjunct1]) simp
qed

end
