(* ===== verification/Offline_Accounting.thy ===== *)
theory Offline_Accounting
  imports Js_Value
begin

text \<open>
  \<open>pos-electron/electron/offline-accounting.ts\<close>: the numbering of the sales of a terminal, and the
  accounting context that lets a cashier sell without a connection. Sequence numbers are decimal
  texts, read as unbounded integers. \<open>Date.parse\<close> is a parameter that gives the instant, or
  \<open>None\<close> for \<open>NaN\<close>.
\<close>

section \<open>Sequence numbers\<close>

definition non_empty_string :: "js_value \<Rightarrow> bool" where
  "non_empty_string value =
     (case value of String s \<Rightarrow> trim s \<noteq> [] \<and> s \<noteq> ''undefined'' \<and> s \<noteq> ''null'' | _ \<Rightarrow> False)"

text \<open>\<open>/^(0|[1-9]\d*)$/\<close>\<close>

definition decimal_sequence :: "string \<Rightarrow> bool" where
  "decimal_sequence s \<longleftrightarrow> s = ''0'' \<or> (s \<noteq> [] \<and> hd s \<noteq> CHR ''0'' \<and> list_all is_digit s)"

definition is_terminal_sequence :: "js_value \<Rightarrow> bool" where
  "is_terminal_sequence value = (case value of String s \<Rightarrow> decimal_sequence s | _ \<Rightarrow> False)"

definition parse_terminal_sequence :: "js_value \<Rightarrow> nat result" where
  "parse_terminal_sequence value =
     (case value of
        String s \<Rightarrow> if decimal_sequence s then Inr (digits_val s)
                    else Inl (JsError ''Terminal sequence must be a non-negative decimal integer'')
      | _ \<Rightarrow> Inl (JsError ''Terminal sequence must be a non-negative decimal integer''))"

text \<open>One round of the loop of \<open>maxTerminalSequence\<close>.\<close>

definition max_sequence_step :: "number_text \<Rightarrow> js_value \<Rightarrow> nat \<Rightarrow> nat result" where
  "max_sequence_step T value maximum =
     (if value = Undefined \<or> value = Null \<or> value = String [] then Inr maximum
      else and_then (parse_terminal_sequence (String (string_of T value)))
             (\<lambda>parsed. Inr (if parsed > maximum then parsed else maximum)))"

definition max_terminal_sequence :: "number_text \<Rightarrow> js_value list \<Rightarrow> string result" where
  "max_terminal_sequence T values =
     and_then (fold_result (max_sequence_step T) values 0) (\<lambda>maximum. Inr (nat_string maximum))"

definition next_terminal_sequence :: "number_text \<Rightarrow> js_value list \<Rightarrow> string result" where
  "next_terminal_sequence T values =
     and_then (max_terminal_sequence T values) (\<lambda>maximum. Inr (nat_string (digits_val maximum + 1)))"

section \<open>The accounting context\<close>

record expected_context =
  ec_user_id :: string
  ec_user_role :: string
  ec_user_branch :: string
  ec_device_branch :: string
  ec_device_terminal :: string
  ec_shift_id :: string
  ec_shift_branch :: string

definition is_object :: "js_value \<Rightarrow> bool" where
  "is_object v = (case v of Object fs \<Rightarrow> True | Array vs \<Rightarrow> True | _ \<Rightarrow> False)"

definition is_valid_offline_accounting_context :: "number_text \<Rightarrow> (string \<Rightarrow> rat option) \<Rightarrow> js_value \<Rightarrow> bool" where
  "is_valid_offline_accounting_context T date context \<longleftrightarrow>
     is_object context
     \<and> (let issued_at = date (string_or T (field context ''issued_at'') []);
            expires_at = date (string_or T (field context ''expires_at'') []) in
        field context ''context_version'' = Number 2
        \<and> non_empty_string (field context ''session_id'')
        \<and> non_empty_string (field context ''user_id'')
        \<and> string_of T (field context ''role'') \<in> {''cashier'', ''branch_manager''}
        \<and> non_empty_string (field context ''branch_id'')
        \<and> non_empty_string (field context ''terminal_id'')
        \<and> non_empty_string (field context ''shift_id'')
        \<and> (case (issued_at, expires_at) of (Some i, Some e) \<Rightarrow> e > i | _ \<Rightarrow> False)
        \<and> is_terminal_sequence (field context ''server_last_sale_sequence''))"

definition offline_accounting_context_matches ::
  "number_text \<Rightarrow> (string \<Rightarrow> rat option) \<Rightarrow> js_value \<Rightarrow> expected_context \<Rightarrow> bool" where
  "offline_accounting_context_matches T date context e \<longleftrightarrow>
     is_valid_offline_accounting_context T date context
     \<and> field context ''user_id'' = String (ec_user_id e)
     \<and> field context ''role'' = String (ec_user_role e)
     \<and> field context ''branch_id'' = String (ec_user_branch e)
     \<and> field context ''branch_id'' = String (ec_device_branch e)
     \<and> field context ''branch_id'' = String (ec_shift_branch e)
     \<and> field context ''terminal_id'' = String (ec_device_terminal e)
     \<and> field context ''shift_id'' = String (ec_shift_id e)"

text \<open>\<open>{...context, authorized: true}\<close>\<close>

definition to_offline_accounting_summary :: "js_value \<Rightarrow> js_value" where
  "to_offline_accounting_summary context =
     (case context of Object fs \<Rightarrow> Object (fs @ [(''authorized'', Boolean True)])
      | _ \<Rightarrow> Object [(''authorized'', Boolean True)])"

definition is_valid_offline_accounting_summary :: "number_text \<Rightarrow> (string \<Rightarrow> rat option) \<Rightarrow> js_value \<Rightarrow> bool" where
  "is_valid_offline_accounting_summary T date value \<longleftrightarrow>
     field value ''authorized'' = Boolean True \<and> is_valid_offline_accounting_context T date value"

definition offline_accounting_summary_matches ::
  "number_text \<Rightarrow> (string \<Rightarrow> rat option) \<Rightarrow> js_value \<Rightarrow> expected_context \<Rightarrow> bool" where
  "offline_accounting_summary_matches T date summary e \<longleftrightarrow>
     is_valid_offline_accounting_summary T date summary \<and> offline_accounting_context_matches T date summary e"

section \<open>Lemmas\<close>

lemma decimal_sequence_nat_string: "decimal_sequence (nat_string n)"
proof -
  have "nat_string n = ''0'' \<or> (nat_string n \<noteq> [] \<and> hd (nat_string n) \<noteq> CHR ''0'' \<and> list_all is_digit (nat_string n))"
  proof (induction n rule: nat_string.induct)
    case (1 n)
    show ?case
    proof (cases "n < 10")
      case True
      then have n: "nat_string n = [digit_char n]" by (simp add: nat_string.simps [of n])
      show ?thesis
      proof (cases "n = 0")
        case True
        have "digit_char 0 = CHR ''0''" by code_simp
        with True show ?thesis using n by simp
      next
        case False
        then have "digit_char n \<noteq> CHR ''0''"
          using True digit_val_char [of n] by (auto simp: digit_val_def)
        then show ?thesis using n True by simp
      qed
    next
      case False
      then have n: "nat_string n = nat_string (n div 10) @ [digit_char (n mod 10)]" by (simp add: nat_string.simps [of n])
      have "nat_string (n div 10) \<noteq> ''0''"
      proof
        assume "nat_string (n div 10) = ''0''"
        then have "n div 10 = digits_val ''0''" using digits_val_nat_string [of "n div 10"] by simp
        moreover have "digits_val ''0'' = 0" by code_simp
        ultimately show False using False by simp
      qed
      with 1 False have "hd (nat_string (n div 10)) \<noteq> CHR ''0''" by simp
      then have "hd (nat_string n) \<noteq> CHR ''0''" using n by simp
      moreover have "list_all is_digit (nat_string n)" by (auto simp: list_all_iff nat_string_digits)
      ultimately show ?thesis by simp
    qed
  qed
  then show ?thesis by (auto simp: decimal_sequence_def)
qed

lemma max_sequence_step_ok:
  assumes "max_sequence_step T value m = Inr m'"
  shows "m \<le> m' \<and> (\<forall>s. value = String s \<longrightarrow> s \<noteq> [] \<longrightarrow> digits_val s \<le> m')"
  using assms by (auto simp: max_sequence_step_def parse_terminal_sequence_def split: if_splits)

lemma max_sequence_ok:
  assumes "fold_result (max_sequence_step T) values m = Inr m'"
  shows "m \<le> m' \<and> (\<forall>s. String s \<in> set values \<longrightarrow> s \<noteq> [] \<longrightarrow> digits_val s \<le> m')"
  using assms
proof (induction "values" arbitrary: m)
  case (Cons v vs)
  then obtain k where k: "max_sequence_step T v m = Inr k" "fold_result (max_sequence_step T) vs k = Inr m'"
    by (auto simp: result_simps)
  from max_sequence_step_ok [OF k(1)] Cons.IH [OF k(2)] show ?case by fastforce
qed simp

lemma next_sequence_fresh:
  assumes "next_terminal_sequence T values = Inr n"
  shows "decimal_sequence n \<and> (\<forall>s. String s \<in> set values \<longrightarrow> s \<noteq> [] \<longrightarrow> digits_val s < digits_val n)"
proof -
  from assms obtain m where m: "fold_result (max_sequence_step T) values 0 = Inr m" "n = nat_string (m + 1)"
    by (auto simp: next_terminal_sequence_def max_terminal_sequence_def result_simps)
  from max_sequence_ok [OF m(1)] show ?thesis
    by (simp only: m(2) digits_val_nat_string) (auto simp: decimal_sequence_nat_string less_Suc_eq_le)
qed

lemma next_sequence_defined:
  assumes "\<forall>v \<in> set values. v = Undefined \<or> v = Null \<or> (\<exists>s. v = String s \<and> (s = [] \<or> decimal_sequence s))"
  shows "\<exists>n. next_terminal_sequence T values = Inr n"
proof -
  have "\<exists>m'. fold_result (max_sequence_step T) values m = Inr m'" for m
    using assms
  proof (induction "values" arbitrary: m)
    case (Cons v vs)
    then have "\<exists>k. max_sequence_step T v m = Inr k"
      by (auto simp: max_sequence_step_def parse_terminal_sequence_def)
    with Cons show ?case by auto
  qed simp
  from this [of 0] obtain m where "fold_result (max_sequence_step T) values 0 = Inr m" ..
  then show ?thesis by (simp add: next_terminal_sequence_def max_terminal_sequence_def)
qed

lemma summary_fields:
  "k \<noteq> ''authorized'' \<Longrightarrow> field (to_offline_accounting_summary (Object fs)) k = field (Object fs) k"
  "field (to_offline_accounting_summary (Object fs)) ''authorized'' = Boolean True"
  by (auto simp: to_offline_accounting_summary_def split: option.splits)

lemma summary_matches:
  "offline_accounting_summary_matches T date (to_offline_accounting_summary (Object fs)) e
   \<longleftrightarrow> offline_accounting_context_matches T date (Object fs) e"
proof -
  have "is_valid_offline_accounting_context T date (to_offline_accounting_summary (Object fs))
      \<longleftrightarrow> is_valid_offline_accounting_context T date (Object fs)"
    by (simp add: is_valid_offline_accounting_context_def summary_fields is_object_def del: field.simps)
       (simp add: to_offline_accounting_summary_def)
  then show ?thesis
    by (auto simp: offline_accounting_summary_matches_def offline_accounting_context_matches_def
        is_valid_offline_accounting_summary_def summary_fields simp del: field.simps)
qed

section \<open>Properties\<close>

text \<open>C34: A new sequence number is a canonical decimal text above every number it was computed from,
  and it is computed whenever the values read from storage are canonical or absent: a terminal
  never gives two sales one number.\<close>

theorem terminal_sequence_fresh:
  assumes "\<forall>v \<in> set values. v = Undefined \<or> v = Null \<or> (\<exists>s. v = String s \<and> (s = [] \<or> decimal_sequence s))"
  shows "\<exists>n. next_terminal_sequence T values = Inr n \<and> decimal_sequence n
           \<and> (\<forall>s. String s \<in> set values \<longrightarrow> s \<noteq> [] \<longrightarrow> digits_val s < digits_val n)"
  using next_sequence_defined [OF assms, of T] next_sequence_fresh by blast

theorem terminal_sequence_fresh_witness:
  "\<exists>n. next_terminal_sequence plain_numbers [String ''9'', String ''10'', Null] = Inr n \<and> decimal_sequence n
     \<and> digits_val ''10'' < digits_val n"
  using terminal_sequence_fresh [of "[String ''9'', String ''10'', Null]" plain_numbers]
  by (fastforce simp: decimal_sequence_def is_digit_def)

end
