(* ===== verification/Update_Policy.thy ===== *)
theory Update_Policy
  imports Js_Value Js_Arrays "HOL-Library.Log_Nat"
begin

text \<open>
  Versions of the till: \<open>pos-electron/electron/update-policy.ts\<close> (which update manifest to take)
  and \<open>pos-electron/src/pos-compatibility.ts\<close> (whether the till may talk to this backend).

  \<open>Number(digits)\<close> is the double nearest to the number, ties to even, and \<open>Infinity\<close> from the end of the
  range of doubles on. The URL parser, the date parser and the collation are the host's.
\<close>

section \<open>Semantic versions\<close>

datatype double = Finite nat | Infinite

definition to_double :: "nat \<Rightarrow> double" where
  "to_double n =
     (let u = 2 ^ (floorlog 2 n - 53); q = n div u; r = n mod u;
          m = (if 2 * r < u \<or> (2 * r = u \<and> even q) then q * u else (q + 1) * u) in
      if m < 2 ^ 1024 then Finite m else Infinite)"

text \<open>The range is \<open>2 ^ 1024\<close>; counting digits is how a number is compared with it.\<close>

lemma to_double_code [code]:
  "to_double n =
     (let u = 2 ^ (floorlog 2 n - 53); q = n div u; r = n mod u;
          m = (if 2 * r < u \<or> (2 * r = u \<and> even q) then q * u else (q + 1) * u) in
      if floorlog 2 m \<le> 1024 then Finite m else Infinite)"
  unfolding to_double_def floorlog_le_iff by simp

record version =
  ve_core :: "double \<times> double \<times> double"
  ve_prerelease :: "string list"

fun split_on :: "char \<Rightarrow> string \<Rightarrow> string list" where
  "split_on sep [] = [[]]"
| "split_on sep (c # s) =
     (case split_on sep s of
        [] \<Rightarrow> [[c]]
      | part # parts \<Rightarrow> if c = sep then [] # part # parts else (c # part) # parts)"

definition digits_only :: "string \<Rightarrow> bool" where
  "digits_only s \<longleftrightarrow> s \<noteq> [] \<and> list_all is_digit s"

definition prerelease_char :: "char \<Rightarrow> bool" where
  "prerelease_char c \<longleftrightarrow> is_digit c \<or> c = CHR ''.'' \<or> c = CHR ''-''
     \<or> (let n = (of_char c :: nat) in (65 \<le> n \<and> n \<le> 90) \<or> (97 \<le> n \<and> n \<le> 122))"

text \<open>The core \<open>(\d+)\.(\d+)\.(\d+)\<close>: what is before the first dash, or everything.\<close>

definition match_core :: "string \<Rightarrow> (double \<times> double \<times> double) option" where
  "match_core s =
     (case split_on (CHR ''.'') s of
        [a, b, c] \<Rightarrow>
          if digits_only a \<and> digits_only b \<and> digits_only c
          then Some (to_double (digits_val a), to_double (digits_val b), to_double (digits_val c)) else None
      | _ \<Rightarrow> None)"

definition strip_v :: "string \<Rightarrow> string" where
  "strip_v s = (case s of [] \<Rightarrow> [] | c # t \<Rightarrow> if c = CHR ''v'' \<or> c = CHR ''V'' then t else s)"

definition parse_version :: "string \<Rightarrow> version option" where
  "parse_version value =
     (let s = strip_v (trim value);
          core = takeWhile (\<lambda>c. c \<noteq> CHR ''-'') s;
          rest = dropWhile (\<lambda>c. c \<noteq> CHR ''-'') s in
      case match_core core of
        None \<Rightarrow> None
      | Some c \<Rightarrow>
          (case rest of
             [] \<Rightarrow> Some \<lparr>ve_core = c, ve_prerelease = []\<rparr>
           | _ # pre \<Rightarrow>
               if pre \<noteq> [] \<and> list_all prerelease_char pre
               then Some \<lparr>ve_core = c, ve_prerelease = split_on (CHR ''.'') pre\<rparr> else None))"

text \<open>
  The difference of two doubles, of which the code only asks for the sign; \<open>None\<close> is \<open>NaN\<close>, the difference of
  two infinities. \<open>NaN\<close> is not 0, not below 0 and not above.
\<close>

fun number_diff :: "double \<Rightarrow> double \<Rightarrow> int option" where
  "number_diff (Finite a) (Finite b) = Some (int a - int b)"
| "number_diff (Finite a) Infinite = Some (-1)"
| "number_diff Infinite (Finite b) = Some 1"
| "number_diff Infinite Infinite = None"

definition compare_identifier :: "string comparing \<Rightarrow> string \<Rightarrow> string \<Rightarrow> int option" where
  "compare_identifier lc left right =
     (let left_numeric = digits_only left; right_numeric = digits_only right in
      if left_numeric \<and> right_numeric
      then number_diff (to_double (digits_val left)) (to_double (digits_val right))
      else if left_numeric \<noteq> right_numeric then Some (if left_numeric then -1 else 1)
      else Some (lc left right))"

fun compare_prerelease :: "string comparing \<Rightarrow> string list \<Rightarrow> string list \<Rightarrow> int option" where
  "compare_prerelease lc [] [] = Some 0"
| "compare_prerelease lc [] (r # rs) = Some (-1)"
| "compare_prerelease lc (l # ls) [] = Some 1"
| "compare_prerelease lc (l # ls) (r # rs) =
     (let difference = compare_identifier lc l r in
      if difference \<noteq> Some 0 then difference else compare_prerelease lc ls rs)"

definition compare_parsed :: "string comparing \<Rightarrow> version \<Rightarrow> version \<Rightarrow> int option" where
  "compare_parsed lc l r =
     (let (a, b, c) = ve_core l; (a', b', c') = ve_core r in
      if number_diff a a' \<noteq> Some 0 then number_diff a a'
      else if number_diff b b' \<noteq> Some 0 then number_diff b b'
      else if number_diff c c' \<noteq> Some 0 then number_diff c c'
      else if ve_prerelease l = [] \<and> ve_prerelease r \<noteq> [] then Some 1
      else if ve_prerelease r = [] \<and> ve_prerelease l \<noteq> [] then Some (-1)
      else compare_prerelease lc (ve_prerelease l) (ve_prerelease r))"

definition compare_versions :: "string comparing \<Rightarrow> string \<Rightarrow> string \<Rightarrow> int option result" where
  "compare_versions lc left right =
     (case (parse_version left, parse_version right) of
        (Some l, Some r) \<Rightarrow> Inr (compare_parsed lc l r)
      | _ \<Rightarrow> Inl (JsError ''Invalid semantic version''))"

definition at_most_zero :: "int option \<Rightarrow> bool" where
  "at_most_zero c \<longleftrightarrow> (case c of None \<Rightarrow> False | Some n \<Rightarrow> n \<le> 0)"

definition below_zero :: "int option \<Rightarrow> bool" where
  "below_zero c \<longleftrightarrow> (case c of None \<Rightarrow> False | Some n \<Rightarrow> n < 0)"

section \<open>Update manifests\<close>

record update_host =
  uh_compare :: "string comparing"
  uh_url :: "string \<Rightarrow> (string \<times> string) option"
  uh_date_ok :: "string \<Rightarrow> bool"
  uh_numbers :: number_text

record update_manifest =
  um_version :: string
  um_url :: string
  um_sha256 :: string
  um_notes :: "string option"
  um_mandatory :: bool
  um_published_at :: "string option"

text \<open>\<open>new URL(text)\<close> gives the protocol and the canonical text, or throws.\<close>

definition https_url :: "update_host \<Rightarrow> js_value \<Rightarrow> string option" where
  "https_url H value =
     (case uh_url H (trim (string_or (uh_numbers H) value [])) of
        None \<Rightarrow> None
      | Some (protocol, href) \<Rightarrow> if protocol = ''https:'' then Some href else None)"

definition sha256_text :: "string \<Rightarrow> bool" where
  "sha256_text s \<longleftrightarrow> length s = 64 \<and> list_all (\<lambda>c. is_digit c \<or> c \<in> set ''abcdef'') s"

text \<open>A payload that is an array is an object without these properties.\<close>

definition select_update :: "update_host \<Rightarrow> js_value \<Rightarrow> string \<Rightarrow> update_manifest option result" where
  "select_update H payload current_version =
     (if field payload ''available'' \<noteq> Boolean True then Inr None
      else
        (let T = uh_numbers H;
             version = trim (string_or T (field payload ''version'') []);
             url = https_url H (field payload ''url'');
             sha256 = to_lower (trim (string_or T (field payload ''sha256'') []));
             published = field payload ''published_at'';
             published_at = (if truthy_value published then Some (trim (string_of T published)) else None);
             notes = field payload ''notes'' in
         if parse_version version = None \<or> parse_version current_version = None
            \<or> (case url of None \<Rightarrow> True | Some u \<Rightarrow> u = []) \<or> \<not> sha256_text sha256
            \<or> (case published_at of None \<Rightarrow> False | Some p \<Rightarrow> p \<noteq> [] \<and> \<not> uh_date_ok H p)
         then Inl (JsError ''Invalid POS update manifest'')
         else and_then (compare_versions (uh_compare H) version current_version) (\<lambda>c.
              if at_most_zero c then Inr None
              else Inr (Some \<lparr>um_version = version, um_url = the url, um_sha256 = sha256,
                     um_notes = (if truthy_value notes then Some (take 2000 (string_of T notes)) else None),
                     um_mandatory = (field payload ''mandatory'' = Boolean True),
                     um_published_at = published_at\<rparr>))))"

section \<open>Compatibility with a backend\<close>

record compatible_backend =
  cb_protocol :: int
  cb_backend_version :: string
  cb_deployment_sha :: "string option"
  cb_minimum_pos_version :: string

definition positive_integer :: "number_text \<Rightarrow> js_value \<Rightarrow> int option" where
  "positive_integer T value =
     (case safe_integer_number (number_of T value) of None \<Rightarrow> None | Some n \<Rightarrow> if n > 0 then Some n else None)"

definition assert_pos_compatibility ::
  "update_host \<Rightarrow> int \<Rightarrow> js_value \<Rightarrow> string \<Rightarrow> compatible_backend result" where
  "assert_pos_compatibility H protocol_version payload current_version =
     (let T = uh_numbers H;
          protocol = field payload ''api_protocol'';
          minimum = positive_integer T (field protocol ''minimum'');
          maximum = positive_integer T (field protocol ''maximum'');
          minimum_pos_version = trim (string_or T (field payload ''minimum_pos_version'') []);
          backend_version = trim (string_or T (field payload ''backend_version'') []);
          sha = field payload ''deployment_sha'';
          deployment_sha = (if truthy_value sha then Some (trim (string_of T sha)) else None) in
      case (minimum, maximum) of
        (Some lo, Some hi) \<Rightarrow>
          and_then (throw_if (lo > hi \<or> minimum_pos_version = [] \<or> backend_version = [])
                     (JsError ''POS_COMPATIBILITY_RESPONSE_INVALID'')) (\<lambda>_.
          and_then (throw_if (protocol_version < lo \<or> protocol_version > hi) (JsError ''POS_PROTOCOL_UNSUPPORTED'')) (\<lambda>_.
          case compare_versions (uh_compare H) current_version minimum_pos_version of
            Inl e \<Rightarrow> Inl (JsError ''POS_COMPATIBILITY_RESPONSE_INVALID'')
          | Inr c \<Rightarrow>
              if below_zero c then Inl (JsError ''POS_UPDATE_REQUIRED'')
              else Inr \<lparr>cb_protocol = protocol_version, cb_backend_version = backend_version,
                        cb_deployment_sha = deployment_sha, cb_minimum_pos_version = minimum_pos_version\<rparr>))
      | _ \<Rightarrow> Inl (JsError ''POS_COMPATIBILITY_RESPONSE_INVALID''))"

section \<open>The order of versions\<close>

text \<open>
  A comparator whose sign is that of a total preorder. \<open>localeCompare\<close> promises this of texts; the
  comparators built from it keep it.
\<close>

definition orders :: "'a comparing \<Rightarrow> bool" where
  "orders c \<longleftrightarrow> (\<forall>x y. c x y \<le> 0 \<longleftrightarrow> 0 \<le> c y x) \<and> (\<forall>x y z. c x y \<le> 0 \<longrightarrow> c y z \<le> 0 \<longrightarrow> c x z \<le> 0)"

lemma ordersI:
  "(\<And>x y. c x y \<le> 0 \<longleftrightarrow> 0 \<le> c y x) \<Longrightarrow> (\<And>x y z. c x y \<le> 0 \<Longrightarrow> c y z \<le> 0 \<Longrightarrow> c x z \<le> 0) \<Longrightarrow> orders c"
  unfolding orders_def by blast

lemma orders_flip: "orders c \<Longrightarrow> c x y \<le> 0 \<longleftrightarrow> 0 \<le> c y x"
  unfolding orders_def by blast

lemma orders_swap: "orders c \<Longrightarrow> (c x y = 0 \<and> c y x = 0) \<or> (0 < c x y \<and> c y x < 0) \<or> (c x y < 0 \<and> 0 < c y x)"
  using orders_flip [of c x y] orders_flip [of c y x] by linarith

lemma orders_trans: "orders c \<Longrightarrow> c x y \<le> 0 \<Longrightarrow> c y z \<le> 0 \<Longrightarrow> c x z \<le> 0"
  unfolding orders_def by blast

lemma orders_refl: "orders c \<Longrightarrow> c x x = 0"
  using orders_swap [of c x x] by auto

lemma orders_tight:
  assumes "orders c" "c x y \<le> 0" "c y z \<le> 0" "c x z = 0"
  shows "c x y = 0 \<and> c y z = 0"
proof -
  have "c z x = 0" using orders_swap [OF assms(1), of x z] assms(4) by auto
  then have "c y x \<le> 0" "c z y \<le> 0"
    using orders_trans [OF assms(1,3), of x] orders_trans [OF assms(1) _ assms(2), of z] by simp_all
  then show ?thesis using orders_swap [OF assms(1), of x y] orders_swap [OF assms(1), of y z] assms(2,3) by auto
qed

lemma orders_by: "orders c \<Longrightarrow> orders (\<lambda>x y. c (f x) (f y))"
  unfolding orders_def by blast

text \<open>
  Of versions whose numbers are in the range of doubles the comparison is a whole number; the comparators
  below are that number, and orders.
\<close>

fun double_value :: "double \<Rightarrow> nat" where
  "double_value (Finite n) = n"
| "double_value Infinite = 0"

definition number_gap :: "double comparing" where
  "number_gap a b = int (double_value a) - int (double_value b)"

lemma number_diff_gap: "a \<noteq> Infinite \<Longrightarrow> b \<noteq> Infinite \<Longrightarrow> number_diff a b = Some (number_gap a b)"
  by (cases a; cases b) (simp_all add: number_gap_def)

definition identifier_gap :: "string comparing \<Rightarrow> string comparing" where
  "identifier_gap lc left right =
     (let left_numeric = digits_only left; right_numeric = digits_only right in
      if left_numeric \<and> right_numeric
      then number_gap (to_double (digits_val left)) (to_double (digits_val right))
      else if left_numeric \<noteq> right_numeric then (if left_numeric then -1 else 1)
      else lc left right)"

fun prerelease_gap :: "string comparing \<Rightarrow> string list \<Rightarrow> string list \<Rightarrow> int" where
  "prerelease_gap lc [] [] = 0"
| "prerelease_gap lc [] (r # rs) = -1"
| "prerelease_gap lc (l # ls) [] = 1"
| "prerelease_gap lc (l # ls) (r # rs) =
     (if identifier_gap lc l r \<noteq> 0 then identifier_gap lc l r else prerelease_gap lc ls rs)"

definition parsed_gap :: "string comparing \<Rightarrow> version \<Rightarrow> version \<Rightarrow> int" where
  "parsed_gap lc l r =
     (let (a, b, c) = ve_core l; (a', b', c') = ve_core r in
      if number_gap a a' \<noteq> 0 then number_gap a a'
      else if number_gap b b' \<noteq> 0 then number_gap b b'
      else if number_gap c c' \<noteq> 0 then number_gap c c'
      else if ve_prerelease l = [] \<and> ve_prerelease r \<noteq> [] then 1
      else if ve_prerelease r = [] \<and> ve_prerelease l \<noteq> [] then -1
      else prerelease_gap lc (ve_prerelease l) (ve_prerelease r))"

definition small_identifier :: "string \<Rightarrow> bool" where
  "small_identifier s \<longleftrightarrow> (digits_only s \<longrightarrow> to_double (digits_val s) \<noteq> Infinite)"

definition small_parsed :: "version \<Rightarrow> bool" where
  "small_parsed v \<longleftrightarrow> (case ve_core v of (a, b, c) \<Rightarrow> a \<noteq> Infinite \<and> b \<noteq> Infinite \<and> c \<noteq> Infinite)
     \<and> list_all small_identifier (ve_prerelease v)"

lemma identifier_diff_gap:
  "small_identifier l \<Longrightarrow> small_identifier r \<Longrightarrow> compare_identifier lc l r = Some (identifier_gap lc l r)"
  by (simp add: compare_identifier_def identifier_gap_def small_identifier_def number_diff_gap Let_def)

lemma prerelease_diff_gap:
  "list_all small_identifier ls \<Longrightarrow> list_all small_identifier rs \<Longrightarrow> compare_prerelease lc ls rs = Some (prerelease_gap lc ls rs)"
  by (induction lc ls rs rule: compare_prerelease.induct) (simp_all add: identifier_diff_gap Let_def)

lemma parsed_diff_gap:
  assumes "small_parsed l" and "small_parsed r"
  shows "compare_parsed lc l r = Some (parsed_gap lc l r)"
proof -
  obtain a b c a' b' c' where e: "ve_core l = (a, b, c)" "ve_core r = (a', b', c')"
    by (cases "ve_core l"; cases "ve_core r") auto
  have n: "number_diff a a' = Some (number_gap a a')" "number_diff b b' = Some (number_gap b b')"
    "number_diff c c' = Some (number_gap c c')"
    using assms e by (auto simp: small_parsed_def intro: number_diff_gap)
  have p: "compare_prerelease lc (ve_prerelease l) (ve_prerelease r) = Some (prerelease_gap lc (ve_prerelease l) (ve_prerelease r))"
    using assms by (intro prerelease_diff_gap) (simp_all add: small_parsed_def)
  show ?thesis by (simp add: compare_parsed_def parsed_gap_def e n p)
qed

lemma orders_diff: "orders number_gap"
  by (simp add: orders_def number_gap_def)

lemma orders_lex:
  assumes "orders c" "orders d"
  shows "orders (\<lambda>x y. if c x y \<noteq> 0 then c x y else d x y)"
proof (rule ordersI)
  fix x y
  show "(if c x y \<noteq> 0 then c x y else d x y) \<le> 0 \<longleftrightarrow> 0 \<le> (if c y x \<noteq> 0 then c y x else d y x)"
    using orders_swap [OF assms(1), of x y] orders_swap [OF assms(2), of x y] by auto
next
  fix x y z
  assume h: "(if c x y \<noteq> 0 then c x y else d x y) \<le> 0" "(if c y z \<noteq> 0 then c y z else d y z) \<le> 0"
  then have l: "c x y \<le> 0" "c y z \<le> 0" by (auto split: if_splits)
  have t: "c x z \<le> 0" by (rule orders_trans [OF assms(1) l])
  show "(if c x z \<noteq> 0 then c x z else d x z) \<le> 0"
    using orders_tight [OF assms(1) l] t h orders_trans [OF assms(2), of x y z] by auto
qed

lemma orders_identifier:
  assumes "orders lc"
  shows "orders (identifier_gap lc)"
proof -
  have "identifier_gap lc = (\<lambda>x y. if digits_only x \<and> digits_only y
      then number_gap (to_double (digits_val x)) (to_double (digits_val y))
      else if digits_only x then -1 else if digits_only y then 1 else lc x y)"
    by (intro ext) (simp add: identifier_gap_def Let_def)
  moreover have "orders (\<lambda>x y. if digits_only x \<and> digits_only y
      then number_gap (to_double (digits_val x)) (to_double (digits_val y))
      else if digits_only x then -1 else if digits_only y then 1 else lc x y)"
  proof (rule ordersI)
    fix x y
    show "((if digits_only x \<and> digits_only y then number_gap (to_double (digits_val x)) (to_double (digits_val y))
        else if digits_only x then -1 else if digits_only y then 1 else lc x y) \<le> 0) =
      (0 \<le> (if digits_only y \<and> digits_only x then number_gap (to_double (digits_val y)) (to_double (digits_val x))
        else if digits_only y then -1 else if digits_only x then 1 else lc y x))"
      using orders_flip [OF assms, of x y] by (simp add: number_gap_def)
  next
    fix x y z
    assume "(if digits_only x \<and> digits_only y then number_gap (to_double (digits_val x)) (to_double (digits_val y))
        else if digits_only x then -1 else if digits_only y then 1 else lc x y) \<le> 0"
      "(if digits_only y \<and> digits_only z then number_gap (to_double (digits_val y)) (to_double (digits_val z))
        else if digits_only y then -1 else if digits_only z then 1 else lc y z) \<le> 0"
    then show "(if digits_only x \<and> digits_only z then number_gap (to_double (digits_val x)) (to_double (digits_val z))
        else if digits_only x then -1 else if digits_only z then 1 else lc x z) \<le> 0"
      using orders_trans [OF assms, of x y z] by (simp add: number_gap_def split: if_splits)
  qed
  ultimately show ?thesis by simp
qed

lemma prerelease_flip:
  assumes "orders lc"
  shows "prerelease_gap lc ls rs \<le> 0 \<longleftrightarrow> 0 \<le> prerelease_gap lc rs ls"
  using assms
proof (induction lc ls rs rule: prerelease_gap.induct)
  case (4 lc l ls r rs)
  from orders_swap [OF orders_identifier [OF 4(2)], of l r] show ?case
    using 4(1) [OF _ 4(2)] by auto
qed simp_all

lemma prerelease_trans:
  assumes "orders lc"
  shows "prerelease_gap lc ls rs \<le> 0 \<Longrightarrow> prerelease_gap lc rs ts \<le> 0 \<Longrightarrow> prerelease_gap lc ls ts \<le> 0"
proof (induction ls arbitrary: rs ts)
  case Nil
  then show ?case by (cases ts) simp_all
next
  case (Cons l ls)
  then obtain r rs' t ts' where e: "rs = r # rs'" "ts = t # ts'" by (cases rs; cases ts) auto
  note o = orders_identifier [OF assms]
  from Cons.prems e have h: "identifier_gap lc l r \<le> 0" "identifier_gap lc r t \<le> 0"
    by (auto simp: Let_def split: if_splits)
  show ?case
  proof (cases "identifier_gap lc l t = 0")
    case True
    with orders_tight [OF o h] Cons e show ?thesis by (auto simp: Let_def)
  next
    case False
    with orders_trans [OF o h] e show ?thesis by (simp add: Let_def)
  qed
qed

lemma orders_prerelease: "orders lc \<Longrightarrow> orders (prerelease_gap lc)"
  by (rule ordersI) (erule prerelease_flip, rule prerelease_trans)

definition release_last :: "string list comparing" where
  "release_last ls rs = (if ls = [] \<and> rs \<noteq> [] then 1 else if rs = [] \<and> ls \<noteq> [] then -1 else 0)"

lemma orders_release_last: "orders release_last"
proof -
  have "release_last = (\<lambda>ls rs. number_gap (Finite (if ls = [] then 1 else 0)) (Finite (if rs = [] then 1 else 0)))"
    by (intro ext) (simp add: release_last_def number_gap_def)
  moreover have "orders \<dots>" by (rule orders_by [OF orders_diff])
  ultimately show ?thesis by simp
qed

lemma orders_parsed:
  assumes "orders lc"
  shows "orders (parsed_gap lc)"
proof -
  let ?c1 = "\<lambda>l r. number_gap (fst (ve_core l)) (fst (ve_core r))"
  let ?c2 = "\<lambda>l r. number_gap (fst (snd (ve_core l))) (fst (snd (ve_core r)))"
  let ?c3 = "\<lambda>l r. number_gap (snd (snd (ve_core l))) (snd (snd (ve_core r)))"
  let ?e = "\<lambda>l r. release_last (ve_prerelease l) (ve_prerelease r)"
  let ?p = "\<lambda>l r. prerelease_gap lc (ve_prerelease l) (ve_prerelease r)"
  have "parsed_gap lc l r =
      (if ?c1 l r \<noteq> 0 then ?c1 l r else if ?c2 l r \<noteq> 0 then ?c2 l r else if ?c3 l r \<noteq> 0 then ?c3 l r
       else if ?e l r \<noteq> 0 then ?e l r else ?p l r)" for l r
    by (auto simp: parsed_gap_def release_last_def split: prod.splits)
  then have "parsed_gap lc = (\<lambda>l r. if ?c1 l r \<noteq> 0 then ?c1 l r else if ?c2 l r \<noteq> 0 then ?c2 l r
      else if ?c3 l r \<noteq> 0 then ?c3 l r else if ?e l r \<noteq> 0 then ?e l r else ?p l r)" by (intro ext)
  moreover have "orders \<dots>"
    by (intro orders_lex orders_by [OF orders_diff] orders_by [OF orders_release_last]
        orders_by [OF orders_prerelease [OF assms]])
  ultimately show ?thesis by simp
qed

definition newer :: "string comparing \<Rightarrow> string \<Rightarrow> string \<Rightarrow> bool" where
  "newer lc v w \<longleftrightarrow> (case compare_versions lc v w of Inr (Some c) \<Rightarrow> 0 < c | _ \<Rightarrow> False)"

text \<open>A version whose numbers are all in the range of doubles.\<close>

definition small_version :: "string \<Rightarrow> bool" where
  "small_version v \<longleftrightarrow> (case parse_version v of None \<Rightarrow> False | Some p \<Rightarrow> small_parsed p)"

lemma newer_small:
  assumes "parse_version v = Some a" "parse_version w = Some b" "small_parsed a" "small_parsed b"
  shows "newer lc v w \<longleftrightarrow> 0 < parsed_gap lc a b"
  using assms by (simp add: newer_def compare_versions_def parsed_diff_gap)

lemma newer_trans:
  assumes "orders lc" "newer lc v w" "newer lc w u" and "small_version v" "small_version w" "small_version u"
  shows "newer lc v u"
proof -
  note p = orders_parsed [OF assms(1)]
  obtain a b c where v: "parse_version v = Some a" "parse_version w = Some b" "parse_version u = Some c"
      "small_parsed a" "small_parsed b" "small_parsed c"
    using assms(4-6) by (auto simp: small_version_def split: option.splits)
  have g: "0 < parsed_gap lc a b" "0 < parsed_gap lc b c" using assms(2,3) v by (simp_all add: newer_small)
  have r: "parsed_gap lc b a \<le> 0" "parsed_gap lc c b \<le> 0"
    using orders_swap [OF p, of a b] orders_swap [OF p, of b c] g by auto
  have "0 < parsed_gap lc a c"
  proof (rule ccontr)
    assume "\<not> ?thesis"
    then have "parsed_gap lc a c \<le> 0" by simp
    from orders_trans [OF p this r(2)] g show False by simp
  qed
  with v show ?thesis by (simp add: newer_small)
qed

lemma newer_irrefl: "orders lc \<Longrightarrow> small_version v \<Longrightarrow> \<not> newer lc v v"
  using orders_refl [OF orders_parsed] by (auto simp: newer_small small_version_def split: option.splits)

lemma orders_code_unit: "orders code_unit_compare"
  by (auto simp: orders_def code_unit_compare_def)

lemma selected_update:
  assumes "select_update H payload current = Inr (Some m)"
  shows "sha256_text (um_sha256 m)" and "\<exists>text. uh_url H text = Some (''https:'', um_url m)"
    and "small_version (um_version m) \<Longrightarrow> small_version current \<Longrightarrow> newer (uh_compare H) (um_version m) current"
proof -
  show "sha256_text (um_sha256 m)" "\<exists>text. uh_url H text = Some (''https:'', um_url m)"
    using assms by (auto simp: select_update_def Let_def result_simps https_url_def split: if_splits option.splits prod.splits)
  assume small: "small_version (um_version m)" "small_version current"
  then obtain a b where p: "parse_version (um_version m) = Some a" "parse_version current = Some b" "small_parsed a" "small_parsed b"
    by (auto simp: small_version_def split: option.splits)
  have "\<exists>c. compare_versions (uh_compare H) (um_version m) current = Inr c \<and> \<not> at_most_zero c"
    using assms by (auto simp: select_update_def Let_def result_simps split: if_splits option.splits prod.splits)
  then show "newer (uh_compare H) (um_version m) current"
    using p by (auto simp: newer_small compare_versions_def parsed_diff_gap at_most_zero_def)
qed

section \<open>Properties\<close>

lemma sorted_wrt_distinct: "sorted_wrt R xs \<Longrightarrow> (\<And>x. x \<in> set xs \<Longrightarrow> \<not> R x x) \<Longrightarrow> distinct xs"
  by (induction xs) auto

text \<open>The updates a till takes one after the other, each checked against the version then running.\<close>

fun takes_updates :: "update_host \<Rightarrow> string \<Rightarrow> (js_value \<times> update_manifest) list \<Rightarrow> bool" where
  "takes_updates H current [] = True"
| "takes_updates H current ((payload, m) # us) =
     (select_update H payload current = Inr (Some m) \<and> takes_updates H (um_version m) us)"

definition running_versions :: "string \<Rightarrow> (js_value \<times> update_manifest) list \<Rightarrow> string list" where
  "running_versions current us = current # map (\<lambda>u. um_version (snd u)) us"

lemma takes_secure:
  "takes_updates H current us \<Longrightarrow> \<forall>(payload, m) \<in> set us. sha256_text (um_sha256 m) \<and> (\<exists>text. uh_url H text = Some (''https:'', um_url m))"
  by (induction H current us rule: takes_updates.induct) (auto dest: selected_update(1,2))

lemma takes_newer:
  assumes "orders (uh_compare H)"
  shows "takes_updates H current us \<Longrightarrow> \<forall>v \<in> set (running_versions current us). small_version v
    \<Longrightarrow> sorted_wrt (\<lambda>v w. newer (uh_compare H) w v) (running_versions current us)"
proof (induction us arbitrary: current)
  case (Cons u us)
  obtain payload m where u: "u = (payload, m)" by (cases u)
  have rv: "running_versions current (u # us) = current # running_versions (um_version m) us"
    by (simp add: running_versions_def u)
  have small: "small_version current" "\<forall>v \<in> set (running_versions (um_version m) us). small_version v"
    using Cons.prems(2) by (simp_all add: rv)
  have m: "um_version m \<in> set (running_versions (um_version m) us)" by (simp add: running_versions_def)
  have "takes_updates H (um_version m) us" using Cons.prems(1) u by simp
  note rest = Cons.IH [OF this small(2)]
  have first: "newer (uh_compare H) (um_version m) current"
    using selected_update(3) Cons.prems(1) u small m by auto
  have "newer (uh_compare H) v current" if v: "v \<in> set (running_versions (um_version m) us)" for v
  proof (cases "v = um_version m")
    case False
    then have "newer (uh_compare H) v (um_version m)" using rest v by (auto simp: running_versions_def)
    then show ?thesis using newer_trans [OF assms(1) _ first] small v m by blast
  qed (use first in simp)
  then show ?case using rest by (simp add: rv)
qed (simp add: running_versions_def)

text \<open>C35: The updates a till takes, any number of them one after the other. Each comes over https with a SHA-256 digest.
  As long as the numbers in the versions are in the range of doubles, each is strictly newer than the version that runs
  when it is taken and than every version that ever ran before, so no version comes back. (A number above the range is
  \<open>Infinity\<close>: see \<open>same_version_again\<close>.)\<close>
theorem updates_only_advance:
  assumes "orders (uh_compare H)" and "takes_updates H current us"
  shows "(\<forall>(payload, m) \<in> set us. sha256_text (um_sha256 m) \<and> (\<exists>text. uh_url H text = Some (''https:'', um_url m)))
    \<and> ((\<forall>v \<in> set (running_versions current us). small_version v) \<longrightarrow>
         sorted_wrt (\<lambda>v w. newer (uh_compare H) w v \<and> \<not> newer (uh_compare H) v w) (running_versions current us)
         \<and> distinct (running_versions current us))"
proof (intro conjI impI)
  show "\<forall>(payload, m) \<in> set us. sha256_text (um_sha256 m) \<and> (\<exists>text. uh_url H text = Some (''https:'', um_url m))"
    by (rule takes_secure [OF assms(2)])
  assume small: "\<forall>v \<in> set (running_versions current us). small_version v"
  have s: "sorted_wrt (\<lambda>v w. newer (uh_compare H) w v) (running_versions current us)"
    by (rule takes_newer [OF assms small])
  then show "distinct (running_versions current us)"
    using newer_irrefl [OF assms(1)] small by (intro sorted_wrt_distinct) auto
  show "sorted_wrt (\<lambda>v w. newer (uh_compare H) w v \<and> \<not> newer (uh_compare H) v w) (running_versions current us)"
    by (rule sorted_wrt_mono_rel [OF _ s]) (use newer_trans [OF assms(1)] newer_irrefl [OF assms(1)] small in blast)
qed

definition sample_update_host :: update_host where
  "sample_update_host = \<lparr>uh_compare = code_unit_compare, uh_url = (\<lambda>s. Some (''https:'', s)), uh_date_ok = (\<lambda>s. True),
     uh_numbers = \<lparr>text_of_number = (\<lambda>r. []), number_of_text = (\<lambda>s. NaN)\<rparr>\<rparr>"

definition sample_payload :: "string \<Rightarrow> js_value" where
  "sample_payload v = Object [(''available'', Boolean True), (''version'', String v), (''url'', String ''https://u''),
     (''sha256'', String (replicate 64 (CHR ''a'')))]"

lemma sample_updates:
  "case select_update sample_update_host (sample_payload '' v1.10.0-rc.2'') ''1.9.3'' of
     Inr (Some m) \<Rightarrow> um_version m = ''v1.10.0-rc.2'' | _ \<Rightarrow> False"
  "case select_update sample_update_host (sample_payload ''1.10.0'') ''v1.10.0-rc.2'' of
     Inr (Some m) \<Rightarrow> um_version m = ''1.10.0'' | _ \<Rightarrow> False"
  "select_update sample_update_host (sample_payload ''1.10.0-rc.10'') ''1.10.0'' = Inr None"
  by code_simp+

lemma small_samples: "small_version ''1.9.3''" "small_version ''v1.10.0-rc.2''" "small_version ''1.10.0''"
  by code_simp+

theorem updates_only_advance_witness:
  "newer code_unit_compare ''1.10.0'' ''1.9.3'' \<and> \<not> newer code_unit_compare ''1.9.3'' ''1.10.0''
   \<and> distinct [''1.9.3'', ''v1.10.0-rc.2'', ''1.10.0'']"
proof -
  obtain m where m: "select_update sample_update_host (sample_payload '' v1.10.0-rc.2'') ''1.9.3'' = Inr (Some m)"
    "um_version m = ''v1.10.0-rc.2''"
    using sample_updates(1) by (auto split: sum.splits option.splits)
  obtain m' where m': "select_update sample_update_host (sample_payload ''1.10.0'') (um_version m) = Inr (Some m')"
    "um_version m' = ''1.10.0''"
    using sample_updates(2) m(2) by (auto split: sum.splits option.splits)
  let ?us = "[(sample_payload '' v1.10.0-rc.2'', m), (sample_payload ''1.10.0'', m')]"
  have t: "takes_updates sample_update_host ''1.9.3'' ?us" using m(1) m'(1) by simp
  have v: "running_versions ''1.9.3'' ?us = [''1.9.3'', ''v1.10.0-rc.2'', ''1.10.0'']"
    using m(2) m'(2) by (simp add: running_versions_def)
  have o: "orders (uh_compare sample_update_host)" "uh_compare sample_update_host = code_unit_compare"
    by (simp_all add: sample_update_host_def orders_code_unit)
  have "\<forall>v \<in> set (running_versions ''1.9.3'' ?us). small_version v" unfolding v using small_samples by simp
  with conjunct2 [OF updates_only_advance [OF o(1) t]] show ?thesis unfolding v o(2) by simp
qed

text \<open>Beyond the range of doubles the order breaks down: two numbers above it are both \<open>Infinity\<close>, their
  difference is \<open>NaN\<close>, and \<open>NaN \<le> 0\<close> is false, so a manifest with the running version itself is an update.\<close>

lemma to_double_huge:
  assumes "2 ^ 1024 \<le> n"
  shows "to_double n = Infinite"
proof -
  define k where "k = floorlog 2 n"
  have k: "1025 \<le> k" "2 ^ (k - 1) \<le> n"
    using floorlog_ge_SucI [of 2 1024 n] floorlog_bounds [of n 2] assms by (simp_all add: k_def)
  have e: "k - 1 = 52 + (k - 53)" using k(1) by simp
  have "2 ^ (k - 1) = (2 :: nat) ^ 52 * 2 ^ (k - 53)" unfolding e power_add ..
  then have "2 ^ 52 \<le> n div 2 ^ (k - 53)" using k(2) by (simp add: less_eq_div_iff_mult_less_eq)
  then have "2 ^ 52 * 2 ^ (k - 53) \<le> n div 2 ^ (k - 53) * 2 ^ (k - 53)" by (rule mult_right_mono) simp
  moreover have "(2 :: nat) ^ 1024 \<le> 2 ^ 52 * 2 ^ (k - 53)"
    using k(1) power_increasing [of 1024 "k - 1" "2 :: nat"] unfolding e power_add by simp
  ultimately have "2 ^ 1024 \<le> n div 2 ^ (k - 53) * 2 ^ (k - 53)" by (rule order.trans [rotated])
  then have "\<not> n div 2 ^ (k - 53) * 2 ^ (k - 53) < 2 ^ 1024" "\<not> (n div 2 ^ (k - 53) + 1) * 2 ^ (k - 53) < 2 ^ 1024"
    by (simp_all only: not_less add_mult_distrib trans_le_add1 simp_thms)
  then show ?thesis unfolding to_double_def k_def [symmetric] Let_def by simp
qed

lemma digits_nines: "digits_val (replicate n (CHR ''9'')) + 1 = 10 ^ n"
proof (induction n)
  case (Suc n)
  have "digit_val (CHR ''9'') = 9" by code_simp
  then show ?case using Suc by (simp add: digits_val_Cons)
qed simp

definition huge_version :: string where
  "huge_version = replicate 310 (CHR ''9'') @ ''.0.0''"

lemma huge_parsed: "parse_version huge_version = Some \<lparr>ve_core = (Infinite, Finite 0, Finite 0), ve_prerelease = []\<rparr>"
proof -
  have "(2 :: nat) ^ 1024 + 1 \<le> 10 ^ 310" by simp
  then have "2 ^ 1024 \<le> digits_val (replicate 310 (CHR ''9''))" using digits_nines [of 310] by linarith
  then have d: "to_double (digits_val (replicate 310 (CHR ''9''))) = Infinite" by (rule to_double_huge)
  have z: "digits_val ''0'' = 0" "to_double 0 = Finite 0" by (code_simp, simp add: to_double_def floorlog_def)
  have p: "trim huge_version = huge_version" "strip_v huge_version = huge_version"
    "takeWhile (\<lambda>c. c \<noteq> CHR ''-'') huge_version = huge_version" "dropWhile (\<lambda>c. c \<noteq> CHR ''-'') huge_version = []"
    "split_on (CHR ''.'') huge_version = [replicate 310 (CHR ''9''), ''0'', ''0'']"
    "digits_only (replicate 310 (CHR ''9''))" "digits_only ''0''"
    by code_simp+
  show ?thesis by (simp add: parse_version_def Let_def match_core_def p d z)
qed

theorem same_version_again:
  "compare_versions code_unit_compare huge_version huge_version = Inr None
   \<and> (\<exists>m. select_update sample_update_host (sample_payload huge_version) huge_version = Inr (Some m) \<and> um_version m = huge_version)"
proof
  show c: "compare_versions code_unit_compare huge_version huge_version = Inr None"
    by (simp add: compare_versions_def compare_parsed_def huge_parsed)
  have f: "field (sample_payload huge_version) ''available'' = Boolean True" "field (sample_payload huge_version) ''version'' = String huge_version"
    "field (sample_payload huge_version) ''url'' = String ''https://u''"
    "field (sample_payload huge_version) ''sha256'' = String (replicate 64 (CHR ''a''))"
    "field (sample_payload huge_version) ''published_at'' = Undefined" "field (sample_payload huge_version) ''notes'' = Undefined"
    "field (sample_payload huge_version) ''mandatory'' = Undefined"
    by (simp_all add: sample_payload_def)
  have t: "trim huge_version = huge_version" "trim ''https://u'' = ''https://u''"
    "to_lower (trim (replicate 64 (CHR ''a''))) = replicate 64 (CHR ''a'')" "sha256_text (replicate 64 (CHR ''a''))"
    by code_simp+
  have h: "uh_compare sample_update_host = code_unit_compare" "uh_url sample_update_host u = Some (''https:'', u)" for u
    by (simp_all add: sample_update_host_def)
  show "\<exists>m. select_update sample_update_host (sample_payload huge_version) huge_version = Inr (Some m) \<and> um_version m = huge_version"
    by (simp add: select_update_def Let_def f t h huge_parsed https_url_def c at_most_zero_def)
qed

end
