(* ===== verification/Sync_Policy.thy ===== *)
theory Sync_Policy
  imports Js_Value "HOL-Library.Word"
begin

unbundle bit_operations_syntax

text \<open>
  \<open>pos-electron/src/sync-policy.ts\<close>: whether a failed upload is tried again, and when. Instants and
  delays are milliseconds; the ISO text of an instant stands for the instant itself. The jitter is
  computed on 32-bit integers, as the bitwise operators and \<open>Math.imul\<close> do.
\<close>

section \<open>Errors and decisions\<close>

datatype sync_error =
    Compatibility_Error string
  | Integrity_Error
  | Api_Error "string" "int option" "rat option"
  | Other_Error

datatype failure_class = Network | Rate_Limit | Server | Authentication | Terminal | Compatibility
  | Validation | Integrity | Unknown

record decision =
  de_retryable :: bool
  de_class :: failure_class
  de_next_attempt_at :: "int option"
  de_blocked_reason :: "string option"

section \<open>Delays\<close>

definition retry_delays_ms :: "rat list" where
  "retry_delays_ms = [15000, 30000, 60000, 120000, 300000, 600000, 900000]"

definition retry_delay_ms :: "int \<Rightarrow> rat option \<Rightarrow> rat" where
  "retry_delay_ms attempt retry_after =
     (case retry_after of
        Some r \<Rightarrow> if r > 0 then min 900000 (max 1000 r)
                  else retry_delays_ms ! nat (min 6 (max 0 (attempt - 1)))
      | None \<Rightarrow> retry_delays_ms ! nat (min 6 (max 0 (attempt - 1))))"

text \<open>A round of the hash: exclusive or with the code unit, then \<open>Math.imul\<close>.\<close>

definition hash_step :: "char \<Rightarrow> 32 word \<Rightarrow> 32 word" where
  "hash_step c h = (h XOR word_of_nat (of_char c)) * 16777619"

definition stable_retry_jitter_ms :: "string \<Rightarrow> int \<Rightarrow> rat \<Rightarrow> int" where
  "stable_retry_jitter_ms i attempt delay_ms =
     (if i = [] then 0
      else
        (let value = i @ '':'' @ (if attempt < 0 then ''-'' @ nat_string (nat (- attempt)) else nat_string (nat attempt));
             hash = fold hash_step value 2166136261;
             window_ms = max 1 \<lfloor>delay_ms * (2 / 10)\<rfloor>
         in uint hash mod window_ms))"

text \<open>\<open>new Date(ms)\<close> drops the fraction of a millisecond.\<close>

definition retry :: "failure_class \<Rightarrow> int \<Rightarrow> int \<Rightarrow> rat option \<Rightarrow> string \<Rightarrow> decision" where
  "retry cls attempt now_ms retry_after operation_id =
     (let delay = retry_delay_ms attempt retry_after in
      \<lparr>de_retryable = True, de_class = cls,
       de_next_attempt_at = Some \<lfloor>of_int now_ms + delay + of_int (stable_retry_jitter_ms operation_id attempt delay)\<rfloor>,
       de_blocked_reason = None\<rparr>)"

definition block :: "failure_class \<Rightarrow> string \<Rightarrow> decision" where
  "block cls reason =
     \<lparr>de_retryable = False, de_class = cls, de_next_attempt_at = None, de_blocked_reason = Some reason\<rparr>"

definition terminal_codes :: "string list" where
  "terminal_codes = [''TERMINAL_REVOKED'', ''TERMINAL_NOT_ENROLLED'', ''TERMINAL_CREDENTIAL_INVALID'']"

definition auth_codes :: "string list" where
  "auth_codes = [''TOKEN_EXPIRED'', ''AUTH_EXPIRED'', ''UNAUTHORIZED'']"

definition classify_sync_error :: "sync_error \<Rightarrow> int \<Rightarrow> int \<Rightarrow> string \<Rightarrow> decision" where
  "classify_sync_error e attempt now_ms operation_id =
     (case e of
        Compatibility_Error code \<Rightarrow> block Compatibility code
      | Integrity_Error \<Rightarrow> block Integrity ''SYNC_RESPONSE_QUARANTINED''
      | Other_Error \<Rightarrow> block Unknown ''SYNC_UNKNOWN_ERROR_REVIEW_REQUIRED''
      | Api_Error code status retry_after \<Rightarrow>
          if code = ''NETWORK_ERROR'' \<or> status = Some 408 then retry Network attempt now_ms None operation_id
          else if status = Some 429 then retry Rate_Limit attempt now_ms retry_after operation_id
          else if (case status of None \<Rightarrow> False | Some n \<Rightarrow> n \<ge> 500)
          then retry Server attempt now_ms retry_after operation_id
          else if code \<in> set terminal_codes then block Terminal code
          else if code \<in> set auth_codes \<or> status = Some 401 then block Authentication code
          else if status \<in> Some ` {403, 409, 422, 426} then block Validation code
          else block Unknown (if code = [] then ''SYNC_OPERATION_QUARANTINED'' else code))"

text \<open>When an operation of the outbox is due again.\<close>

definition outbox_item_due_at :: "string \<Rightarrow> int \<Rightarrow> int option \<Rightarrow> int \<Rightarrow> rat" where
  "outbox_item_due_at i attempt_count last_attempt now_ms =
     (case last_attempt of
        None \<Rightarrow> of_int now_ms
      | Some t \<Rightarrow>
          if attempt_count \<le> 0 then of_int now_ms
          else (let delay = retry_delay_ms attempt_count None in
                of_int t + delay + of_int (stable_retry_jitter_ms i attempt_count delay)))"

section \<open>Lemmas\<close>

lemma retry_table:
  "0 \<le> i \<Longrightarrow> i \<le> (6::int) \<Longrightarrow> 15000 \<le> retry_delays_ms ! nat i \<and> retry_delays_ms ! nat i \<le> 900000"
proof -
  assume "0 \<le> i" "i \<le> 6"
  then have "nat i \<in> {0, 1, 2, 3, 4, 5, 6}" by auto
  then show ?thesis by (auto simp: retry_delays_ms_def)
qed

lemma retry_delay_bounds: "1000 \<le> retry_delay_ms attempt after \<and> retry_delay_ms attempt after \<le> 900000"
  using retry_table [of "min 6 (max 0 (attempt - 1))"]
  by (auto simp: retry_delay_ms_def split: option.splits)

lemma retry_delay_doubling:
  "0 \<le> a \<Longrightarrow> a \<le> b \<Longrightarrow> retry_delay_ms a None \<le> retry_delay_ms b None"
proof -
  assume ab: "0 \<le> a" "a \<le> b"
  have "i \<le> j \<Longrightarrow> j \<le> 6 \<Longrightarrow> retry_delays_ms ! i \<le> retry_delays_ms ! j" for i j
  proof -
    assume "i \<le> j" "j \<le> 6"
    then have "j \<in> {0, 1, 2, 3, 4, 5, 6}" "i \<in> {0, 1, 2, 3, 4, 5, 6}" by auto
    then show ?thesis using \<open>i \<le> j\<close> by (auto simp: retry_delays_ms_def)
  qed
  then show ?thesis using ab by (simp add: retry_delay_ms_def nat_mono)
qed

lemma jitter_bounds:
  assumes "1000 \<le> d"
  shows "0 \<le> stable_retry_jitter_ms i attempt d \<and> of_int (stable_retry_jitter_ms i attempt d) < d / 5"
proof -
  have f: "200 \<le> \<lfloor>d * (2 / 10)\<rfloor>" using assms by linarith
  then have m: "max 1 \<lfloor>d * (2 / 10)\<rfloor> = \<lfloor>d * (2 / 10)\<rfloor>" by simp
  have "of_int (x mod \<lfloor>d * (2 / 10)\<rfloor>) < d / 5" for x
  proof -
    have "x mod \<lfloor>d * (2 / 10)\<rfloor> < \<lfloor>d * (2 / 10)\<rfloor>" using f by (intro pos_mod_bound) simp
    then have "of_int (x mod \<lfloor>d * (2 / 10)\<rfloor>) < (of_int \<lfloor>d * (2 / 10)\<rfloor> :: rat)" by (simp only: of_int_less_iff)
    also have "\<dots> \<le> d * (2 / 10)" by (rule of_int_floor_le)
    finally show ?thesis by simp
  qed
  then show ?thesis using assms f by (simp add: stable_retry_jitter_ms_def Let_def m)
qed

lemma retry_bounds:
  assumes "de_next_attempt_at (retry cls attempt now after i) = Some t"
  shows "now + 1000 \<le> t \<and> t \<le> now + 1080000"
proof -
  let ?d = "retry_delay_ms attempt after" and ?j = "stable_retry_jitter_ms i attempt (retry_delay_ms attempt after)"
  note d = retry_delay_bounds [of attempt after]
  note j = jitter_bounds [OF d [THEN conjunct1], of i attempt]
  have t: "t = \<lfloor>of_int now + ?d + of_int ?j\<rfloor>" using assms by (simp add: retry_def Let_def)
  have "0 \<le> (of_int ?j :: rat)" using j by simp
  then have "of_int (now + 1000) \<le> of_int now + ?d + of_int ?j" using d by simp
  then have "now + 1000 \<le> t" by (simp only: t le_floor_iff)
  moreover have "of_int now + ?d + of_int ?j < of_int (now + 1080000)" using d j by simp
  then have "t < now + 1080000" by (simp only: t floor_less_iff)
  ultimately show ?thesis by simp
qed

lemma classify_retry:
  "de_retryable (classify_sync_error e a n i) \<Longrightarrow>
   \<exists>cls after. classify_sync_error e a n i = retry cls a n after i \<and> cls \<in> {Network, Rate_Limit, Server}"
  by (cases e) (auto simp: classify_sync_error_def block_def split: if_splits)

lemma retry_simps [simp]: "de_retryable (retry c a n r i)" "de_class (retry c a n r i) = c"
  "de_blocked_reason (retry c a n r i) = None" "\<not> de_retryable (block c s)" "de_class (block c s) = c"
  "de_next_attempt_at (block c s) = None" "de_blocked_reason (block c s) = Some s"
  by (simp_all add: retry_def block_def Let_def)

lemma due_bounds:
  assumes "0 < attempt_count"
  shows "of_int t + 15000 \<le> outbox_item_due_at i attempt_count (Some t) now
       \<and> outbox_item_due_at i attempt_count (Some t) now \<le> of_int t + 1080000"
proof -
  let ?d = "retry_delay_ms attempt_count None"
  have d: "15000 \<le> ?d" "?d \<le> 900000"
    using retry_table [of "min 6 (max 0 (attempt_count - 1))"] by (simp_all add: retry_delay_ms_def)
  then have "1000 \<le> ?d" by simp
  note j = jitter_bounds [OF this, of i attempt_count]
  then have "0 \<le> (of_int (stable_retry_jitter_ms i attempt_count ?d) :: rat)" by simp
  with d j assms show ?thesis by (simp add: outbox_item_due_at_def Let_def)
qed

section \<open>Properties\<close>

text \<open>A failed upload is either tried again between one second and eighteen minutes later, with no
  reason to block, or it is blocked with a reason and no further attempt; and an answer the server
  could not give (no connection, a timeout, status 500 and above) is always tried again.\<close>

theorem sync_decision_sound:
  assumes "d = classify_sync_error e attempt now i"
  shows "(de_retryable d \<longrightarrow> de_blocked_reason d = None
            \<and> (\<exists>t. de_next_attempt_at d = Some t \<and> now + 1000 \<le> t \<and> t \<le> now + 1080000))
       \<and> (\<not> de_retryable d \<longrightarrow> de_next_attempt_at d = None \<and> de_blocked_reason d \<noteq> None)
       \<and> (\<forall>code status after. e = Api_Error code status after \<longrightarrow>
            code = ''NETWORK_ERROR'' \<or> (\<exists>n. status = Some n \<and> (n = 408 \<or> n \<ge> 500)) \<longrightarrow> de_retryable d)"
proof (intro conjI)
  show "de_retryable d \<longrightarrow> de_blocked_reason d = None
            \<and> (\<exists>t. de_next_attempt_at d = Some t \<and> now + 1000 \<le> t \<and> t \<le> now + 1080000)"
  proof
    assume "de_retryable d"
    then obtain cls after where d: "d = retry cls attempt now after i" using classify_retry assms by blast
    obtain t where "de_next_attempt_at d = Some t" by (simp add: d retry_def Let_def)
    with retry_bounds [of cls attempt now after i t] d
    show "de_blocked_reason d = None \<and> (\<exists>t. de_next_attempt_at d = Some t \<and> now + 1000 \<le> t \<and> t \<le> now + 1080000)"
      by auto
  qed
  show "\<not> de_retryable d \<longrightarrow> de_next_attempt_at d = None \<and> de_blocked_reason d \<noteq> None"
    unfolding assms by (cases e) (auto simp: classify_sync_error_def)
  show "\<forall>code status after. e = Api_Error code status after \<longrightarrow>
            code = ''NETWORK_ERROR'' \<or> (\<exists>n. status = Some n \<and> (n = 408 \<or> n \<ge> 500)) \<longrightarrow> de_retryable d"
    unfolding assms by (auto simp: classify_sync_error_def)
qed

theorem sync_decision_sound_witness:
  "de_retryable (classify_sync_error (Api_Error ''HTTP_503'' (Some 503) None) 3 0 ''a'')
   \<and> \<not> de_retryable (classify_sync_error (Api_Error ''STALE'' (Some 409) None) 1 0 ''a'')
   \<and> de_blocked_reason (classify_sync_error (Api_Error ''STALE'' (Some 409) None) 1 0 ''a'') \<noteq> None"
  using sync_decision_sound [OF refl, of "Api_Error ''HTTP_503'' (Some 503) None" 3 0 "''a''"]
    sync_decision_sound [OF refl, of "Api_Error ''STALE'' (Some 409) None" 1 0 "''a''"]
  by (simp add: classify_sync_error_def terminal_codes_def auth_codes_def)

end
