(* ===== verification/Pos_Store.thy ===== *)
theory Pos_Store
  imports Pos_Money Pos_Validation Offline_Accounting Js_Arrays
begin

text \<open>
  The local database of the till and the handlers of \<open>pos-electron/electron/main.ts\<close> that write it:
  committing a sale, the states an upload goes through, and applying a catalog page. A handler runs
  in one transaction (\<open>persistedMutation\<close>); an error leaves the database as it was. The factory reset
  (\<open>factory-reset-policy.ts\<close>, \<open>factory-reset-runtime.ts\<close>) deletes the database; it is the last section.

  The stored JSON of a command stands for the command itself. Instants are ISO texts. Columns that
  are only displayed (barcodes, size, colour) are left out.
\<close>

section \<open>Tables\<close>

datatype outbox_status = Pending | Sending | Sent | Sent_With_Warning | Quarantined

record command_item =
  ci_variant_id :: string
  ci_qty :: int
  ci_unit_price :: rat
  ci_unit_tax :: rat
  ci_sku :: string
  ci_name_ar :: string
  ci_name_en :: "string option"
  ci_size :: "string option"
  ci_color :: "string option"

record sale_command =
  sc_event_version :: nat
  sc_sync_id :: string
  sc_branch_id :: string
  sc_shift_id :: string
  sc_cashier_id :: string
  sc_cashier_name :: string
  sc_seller_id :: string
  sc_seller_name :: string
  sc_session_id :: string
  sc_sequence :: string
  sc_occurred_at :: string
  sc_customer_phone :: "string option"
  sc_items :: "command_item list"
  sc_payment_method :: string
  sc_language :: string
  sc_local_total :: js_value

record outbox_row =
  ob_id :: string
  ob_payload :: sale_command
  ob_status :: outbox_status
  ob_created_at :: string
  ob_attempts :: int
  ob_last_attempt_at :: "string option"
  ob_last_error :: "string option"
  ob_document_id :: "string option"
  ob_document_number :: "string option"
  ob_sequence :: string
  ob_warnings :: "string list"

record local_sale_row =
  lr_invoice_number :: string
  lr_total :: js_value
  lr_total_minor_units :: int
  lr_occurred_at :: string
  lr_payment_method :: string
  lr_customer_phone :: "string option"
  lr_cashier_id :: string
  lr_seller_id :: string
  lr_shift_id :: string
  lr_session_id :: string
  lr_sequence :: string
  lr_server_invoice_id :: "string option"
  lr_server_invoice_number :: "string option"
  lr_synced_at :: "string option"
  lr_sync_result :: "outbox_status option"

record product_row =
  pd_sku :: string
  pd_name_en :: string
  pd_name_ar :: string
  pd_selling_price :: rat
  pd_unit_tax :: rat
  pd_catalog_version :: rat
  pd_selling_minor_units :: int
  pd_unit_tax_minor_units :: int

record pos_db =
  po_products :: "string \<Rightarrow> product_row option"
  po_stock :: "string \<Rightarrow> int option"
  po_sellers :: "string \<Rightarrow> string option"
  po_outbox :: "outbox_row list"
  po_sales :: "string \<Rightarrow> local_sale_row option"
  po_meta :: "string \<Rightarrow> string option"

definition get_meta :: "pos_db \<Rightarrow> string \<Rightarrow> string" where
  "get_meta d k = (case po_meta d k of None \<Rightarrow> [] | Some v \<Rightarrow> v)"

definition set_meta :: "string \<Rightarrow> string \<Rightarrow> pos_db \<Rightarrow> pos_db" where
  "set_meta k v d = d\<lparr>po_meta := (po_meta d)(k \<mapsto> v)\<rparr>"

text \<open>The decrypted state of the device.\<close>

record device_state =
  dv_branch_id :: string
  dv_terminal_id :: string
  dv_terminal_code :: string
  dv_device_id :: string

record cashier =
  ca_id :: string
  ca_name :: string
  ca_role :: string
  ca_branch_id :: string

record secure_state =
  ss_device :: "device_state option"
  ss_user :: "cashier option"
  ss_context :: js_value

section \<open>Committing a sale\<close>

text \<open>\<open>context.k\<close> of a context that passed its checks, where the field is a string.\<close>

definition context_text :: "js_value \<Rightarrow> string \<Rightarrow> string" where
  "context_text context k = (case field context k of String s \<Rightarrow> s | _ \<Rightarrow> [])"

definition sale_context_ok :: "number_text \<Rightarrow> (string \<Rightarrow> rat option) \<Rightarrow> secure_state \<Rightarrow> bool" where
  "sale_context_ok T date secure =
     (case (ss_user secure, ss_device secure) of
        (Some user, Some device) \<Rightarrow>
          is_object (ss_context secure)
          \<and> offline_accounting_context_matches T date (ss_context secure)
              \<lparr>ec_user_id = ca_id user, ec_user_role = ca_role user, ec_user_branch = ca_branch_id user,
               ec_device_branch = dv_branch_id device, ec_device_terminal = dv_terminal_id device,
               ec_shift_id = context_text (ss_context secure) ''shift_id'',
               ec_shift_branch = context_text (ss_context secure) ''branch_id''\<rparr>
      | _ \<Rightarrow> False)"

definition total_step :: "number_text \<Rightarrow> sale_item \<Rightarrow> int \<Rightarrow> int result" where
  "total_step T item acc =
     and_then (line_cents (text_of_number T (si_unit_price item)) (Num (of_int (si_qty item)))) (\<lambda>p.
     and_then (line_cents (text_of_number T (si_unit_tax item)) (Num (of_int (si_qty item)))) (\<lambda>t.
     Inr (acc + p + t)))"

definition pos_from_cents :: "int \<Rightarrow> rat result" where
  "pos_from_cents c = (if safe_int c then Inr (of_int c / 100) else Inl (TypeError ''Cents value must be a safe integer''))"

definition check_total :: "number_text \<Rightarrow> js_value \<Rightarrow> sale_item list \<Rightarrow> unit result" where
  "check_total T local_total items =
     and_then (fold_result (total_step T) items 0) (\<lambda>cents.
     and_then (to_cents (string_of T local_total)) (\<lambda>local_cents.
     if local_cents < 0 then Inl (JsError ''Sale total does not match the immutable local price snapshots'')
     else and_then (pos_from_cents cents) (\<lambda>total.
          and_then (pos_same_money (string_of T local_total) (text_of_number T total)) (\<lambda>same.
          throw_if (\<not> same) (JsError ''Sale total does not match the immutable local price snapshots'')))))"

text \<open>\<open>UPDATE stock SET qty = qty - ? WHERE variant_id = ? AND qty >= ?\<close>, which has to change one row.\<close>

definition take_local_stock :: "sale_item \<Rightarrow> pos_db \<Rightarrow> pos_db result" where
  "take_local_stock item d =
     (case po_stock d (si_variant_id item) of
        None \<Rightarrow> Inl (JsError ''Insufficient local stock'')
      | Some qty \<Rightarrow>
          if qty \<ge> si_qty item
          then Inr (d\<lparr>po_stock := (po_stock d)(si_variant_id item \<mapsto> qty - si_qty item)\<rparr>)
          else Inl (JsError ''Insufficient local stock''))"

definition blank_none :: "string \<Rightarrow> string option" where
  "blank_none s = (if s = [] then None else Some s)"

definition command_of :: "device_state \<Rightarrow> cashier \<Rightarrow> js_value \<Rightarrow> string \<Rightarrow> string \<Rightarrow> string \<Rightarrow> local_sale \<Rightarrow> sale_command" where
  "command_of device user context seller_name sequence now s =
     \<lparr>sc_event_version = 2, sc_sync_id = ls_sync_id s, sc_branch_id = dv_branch_id device,
      sc_shift_id = context_text context ''shift_id'', sc_cashier_id = context_text context ''user_id'',
      sc_cashier_name = trim (ca_name user), sc_seller_id = ls_seller_id s, sc_seller_name = trim seller_name,
      sc_session_id = context_text context ''session_id'', sc_sequence = sequence, sc_occurred_at = now,
      sc_customer_phone = ls_customer_phone s,
      sc_items = map (\<lambda>i. \<lparr>ci_variant_id = si_variant_id i, ci_qty = si_qty i, ci_unit_price = si_unit_price i,
                             ci_unit_tax = si_unit_tax i, ci_sku = si_sku i, ci_name_ar = si_name_ar i,
                             ci_name_en = blank_none (si_name_en i), ci_size = or_null (si_size i),
                             ci_color = or_null (si_color i)\<rparr>) (ls_items s),
      sc_payment_method = ls_payment_method s, sc_language = ls_language s, sc_local_total = ls_local_total s\<rparr>"

definition sale_row_of :: "sale_command \<Rightarrow> string \<Rightarrow> int \<Rightarrow> local_sale_row" where
  "sale_row_of c invoice_number units =
     \<lparr>lr_invoice_number = invoice_number, lr_total = sc_local_total c, lr_total_minor_units = units,
      lr_occurred_at = sc_occurred_at c, lr_payment_method = sc_payment_method c,
      lr_customer_phone = or_null (sc_customer_phone c), lr_cashier_id = sc_cashier_id c,
      lr_seller_id = sc_seller_id c, lr_shift_id = sc_shift_id c, lr_session_id = sc_session_id c,
      lr_sequence = sc_sequence c, lr_server_invoice_id = None, lr_server_invoice_number = None,
      lr_synced_at = None, lr_sync_result = None\<rparr>"

definition outbox_row_of :: "sale_command \<Rightarrow> outbox_row" where
  "outbox_row_of c =
     \<lparr>ob_id = sc_sync_id c, ob_payload = c, ob_status = Pending, ob_created_at = sc_occurred_at c,
      ob_attempts = 0, ob_last_attempt_at = None, ob_last_error = None, ob_document_id = None,
      ob_document_number = None, ob_sequence = sc_sequence c, ob_warnings = []\<rparr>"

record sale_result =
  sr_sync_id :: string
  sr_invoice_number :: string
  sr_sequence :: string
  sr_occurred_at :: string
  sr_replayed :: bool

text \<open>The transaction of \<open>pos:sale\<close>.\<close>

definition commit_sale :: "number_text \<Rightarrow> string \<Rightarrow> sale_command \<Rightarrow> sale_item list \<Rightarrow> pos_db \<Rightarrow> pos_db result" where
  "commit_sale T invoice_number c items d =
     and_then (fold_result take_local_stock items d) (\<lambda>d1.
     and_then (decimal_to_minor_units (string_of T (sc_local_total c))) (\<lambda>minor_units.
     and_then (throw_if (po_sales d1 (sc_sync_id c) \<noteq> None) (JsError ''UNIQUE constraint failed: sales_local.sync_id'')) (\<lambda>_.
     let d2 = d1\<lparr>po_sales := (po_sales d1)(sc_sync_id c \<mapsto> sale_row_of c invoice_number minor_units)\<rparr> in
     and_then (throw_if (list_ex (\<lambda>r. ob_id r = sc_sync_id c) (po_outbox d2)) (JsError ''UNIQUE constraint failed: outbox.id'')) (\<lambda>_.
     Inr (set_meta ''terminal_sale_sequence'' (sc_sequence c)
            (d2\<lparr>po_outbox := po_outbox d2 @ [outbox_row_of c]\<rparr>))))))"

text \<open>The handler, once no earlier sale has the identifier.\<close>

definition new_sale ::
  "number_text \<Rightarrow> (string \<Rightarrow> rat option) \<Rightarrow> secure_state \<Rightarrow> string \<Rightarrow> device_state \<Rightarrow> string \<Rightarrow> local_sale \<Rightarrow> pos_db
   \<Rightarrow> (sale_result \<times> pos_db) result" where
  "new_sale T date secure now device seller_name v d =
     and_then (throw_if (\<not> sale_context_ok T date secure) (JsError ''Offline accounting authorization is missing'')) (\<lambda>_.
     and_then (or_throw (ss_user secure) (JsError ''Offline accounting authorization is missing'')) (\<lambda>user.
     and_then (check_total T (ls_local_total v) (ls_items v)) (\<lambda>_.
     and_then (next_terminal_sequence T [String (get_meta d ''terminal_sale_sequence''),
                 field (ss_context secure) ''server_last_sale_sequence'']) (\<lambda>sequence.
     let invoice_number = ''LOCAL-'' @ dv_terminal_code device @ ''-'' @ sequence;
         c = command_of device user (ss_context secure) seller_name sequence now v in
     and_then (commit_sale T invoice_number c (ls_items v) d) (\<lambda>d'.
     Inr (\<lparr>sr_sync_id = ls_sync_id v, sr_invoice_number = invoice_number, sr_sequence = sequence,
           sr_occurred_at = now, sr_replayed = False\<rparr>, d'))))))"

definition pos_sale ::
  "number_text \<Rightarrow> (string \<Rightarrow> rat option) \<Rightarrow> secure_state \<Rightarrow> string \<Rightarrow> js_value \<Rightarrow> pos_db \<Rightarrow> (sale_result \<times> pos_db) result" where
  "pos_sale T date secure now sale d =
     and_then (or_throw (ss_device secure) (JsError ''This POS terminal is not enrolled'')) (\<lambda>device.
     and_then (validate_local_sale_input T sale (dv_branch_id device)) (\<lambda>v.
     and_then (or_throw (po_sellers d (ls_seller_id v)) (JsError ''unknown seller'')) (\<lambda>seller_name.
     case po_sales d (ls_sync_id v) of
       Some row \<Rightarrow>
         Inr (\<lparr>sr_sync_id = ls_sync_id v, sr_invoice_number = lr_invoice_number row, sr_sequence = lr_sequence row,
               sr_occurred_at = lr_occurred_at row, sr_replayed = True\<rparr>, d)
     | None \<Rightarrow> new_sale T date secure now device seller_name v d)))"

section \<open>The outbox\<close>

text \<open>\<open>ORDER BY LENGTH(terminal_sequence), terminal_sequence, created_at\<close>\<close>

definition outbox_compare :: "outbox_row comparing" where
  "outbox_compare a b =
     (if length (ob_sequence a) \<noteq> length (ob_sequence b)
      then int (length (ob_sequence a)) - int (length (ob_sequence b))
      else if ob_sequence a \<noteq> ob_sequence b then code_unit_compare (ob_sequence a) (ob_sequence b)
      else code_unit_compare (ob_created_at a) (ob_created_at b))"

definition sync_get_outbox :: "pos_db \<Rightarrow> outbox_row list" where
  "sync_get_outbox d = js_sort outbox_compare (filter (\<lambda>r. ob_status r = Pending) (po_outbox d))"

definition update_outbox :: "(outbox_row \<Rightarrow> bool) \<Rightarrow> (outbox_row \<Rightarrow> outbox_row) \<Rightarrow> pos_db \<Rightarrow> pos_db" where
  "update_outbox P f d = d\<lparr>po_outbox := map (\<lambda>r. if P r then f r else r) (po_outbox d)\<rparr>"

definition sync_mark_sending :: "string \<Rightarrow> string \<Rightarrow> pos_db \<Rightarrow> pos_db result" where
  "sync_mark_sending now i d =
     (if length (filter (\<lambda>r. ob_id r = i \<and> ob_status r = Pending) (po_outbox d)) \<noteq> 1
      then Inl (JsError ''Outbox operation is not pending'')
      else Inr (update_outbox (\<lambda>r. ob_id r = i \<and> ob_status r = Pending)
             (\<lambda>r. r\<lparr>ob_status := Sending, ob_attempts := ob_attempts r + 1, ob_last_attempt_at := Some now,
                    ob_last_error := None\<rparr>) d))"

record server_document =
  sd_id :: "string option"
  sd_number :: "string option"
  sd_warnings :: "string list"

text \<open>\<open>Array.from(new Set(codes))\<close> keeps the first of equal codes.\<close>

definition clean_warnings :: "string list \<Rightarrow> string list" where
  "clean_warnings ws = rev (remdups (rev (filter (\<lambda>w. w \<noteq> []) (map trim ws))))"

definition sync_mark_sent :: "string \<Rightarrow> string \<Rightarrow> server_document \<Rightarrow> pos_db \<Rightarrow> pos_db" where
  "sync_mark_sent now i doc d =
     (let warnings = clean_warnings (sd_warnings doc);
          sync_result = (if warnings = [] then Sent else Sent_With_Warning);
          d1 = update_outbox (\<lambda>r. ob_id r = i)
                 (\<lambda>r. r\<lparr>ob_status := sync_result, ob_document_id := or_null (sd_id doc),
                        ob_document_number := or_null (sd_number doc), ob_warnings := warnings, ob_last_error := None\<rparr>) d
      in d1\<lparr>po_sales := (po_sales d1)(i := map_option
             (\<lambda>r. r\<lparr>lr_server_invoice_id := or_null (sd_id doc), lr_server_invoice_number := or_null (sd_number doc),
                    lr_synced_at := Some now, lr_sync_result := Some sync_result\<rparr>) (po_sales d1 i))\<rparr>)"

definition sync_mark_failed :: "string \<Rightarrow> string \<Rightarrow> bool \<Rightarrow> pos_db \<Rightarrow> pos_db" where
  "sync_mark_failed i message retryable d =
     update_outbox (\<lambda>r. ob_id r = i)
       (\<lambda>r. r\<lparr>ob_status := (if retryable then Pending else Quarantined),
              ob_last_error := Some (take 1000 (if message = [] then ''Unknown synchronization error'' else message))\<rparr>) d"

text \<open>What start-up does with operations a crash left in flight.\<close>

definition recover_outbox :: "pos_db \<Rightarrow> pos_db" where
  "recover_outbox d = update_outbox (\<lambda>r. ob_status r = Sending) (\<lambda>r. r\<lparr>ob_status := Pending\<rparr>) d"

section \<open>Applying a catalog page\<close>

text \<open>\<open>pos-electron/electron/catalog-format.ts\<close>\<close>

definition catalog_format_version :: string where
  "catalog_format_version = ''offline-sales-v2''"

definition catalog_text :: "js_value \<Rightarrow> bool" where
  "catalog_text v = (case v of String s \<Rightarrow> trim s \<noteq> [] | _ \<Rightarrow> False)"

definition is_valid_catalog_product :: "number_text \<Rightarrow> js_value \<Rightarrow> bool" where
  "is_valid_catalog_product T product \<longleftrightarrow>
     catalog_text (field product ''id'') \<and> catalog_text (field product ''sku'')
     \<and> (catalog_text (field product ''name_ar'') \<or> catalog_text (field product ''name_en''))
     \<and> (case finite_number (number_of T (field product ''selling_price'')) of None \<Rightarrow> False | Some p \<Rightarrow> p \<ge> 0)
     \<and> (case finite_number (number_of T (field product ''unit_tax'')) of None \<Rightarrow> False | Some t \<Rightarrow> t \<ge> 0)
     \<and> number_of T (field product ''catalog_version'') = Number 2"

definition is_valid_catalog_stock :: "number_text \<Rightarrow> js_value \<Rightarrow> bool" where
  "is_valid_catalog_stock T stock \<longleftrightarrow>
     catalog_text (field stock ''variant_id'')
     \<and> (case integer_number (number_of T (field stock ''qty_on_hand'')) of None \<Rightarrow> False | Some q \<Rightarrow> q \<ge> 0)"

definition requires_full_catalog_refresh :: "string \<Rightarrow> nat \<Rightarrow> bool" where
  "requires_full_catalog_refresh stored invalid_count \<longleftrightarrow> stored \<noteq> catalog_format_version \<or> invalid_count > 0"

text \<open>The query for an invalid product looks at every row; it is given the list of their keys.\<close>

definition product_invalid :: "product_row \<Rightarrow> bool" where
  "product_invalid p \<longleftrightarrow> pd_catalog_version p \<noteq> 2 \<or> pd_sku p = [] \<or> (pd_name_ar p = [] \<and> pd_name_en p = [])"

definition catalog_needs_full_refresh :: "string list \<Rightarrow> pos_db \<Rightarrow> bool" where
  "catalog_needs_full_refresh ids d =
     requires_full_catalog_refresh (get_meta d ''catalog_format_version'')
       (if list_ex (\<lambda>i. case po_products d i of None \<Rightarrow> False | Some p \<Rightarrow> product_invalid p) ids then 1 else 0)"

definition require_full_catalog_refresh :: "pos_db \<Rightarrow> pos_db" where
  "require_full_catalog_refresh d =
     set_meta ''catalog_valid_until'' [] (set_meta ''sync_cursor'' [] (set_meta ''catalog_format_version'' [] d))"

text \<open>\<open>/^[0-9a-f-]{36}$/i\<close>\<close>

definition seller_valid :: "number_text \<Rightarrow> js_value \<Rightarrow> bool" where
  "seller_valid T seller \<longleftrightarrow>
     (let i = string_or T (field seller ''id'') [] in
      length i = 36 \<and> list_all (\<lambda>c. hex_char c \<or> c = CHR ''-'') i
      \<and> trim (string_or T (field seller ''name'') []) \<noteq> [])"

definition elements :: "js_value \<Rightarrow> js_value list" where
  "elements v = (case v of Array vs \<Rightarrow> vs | _ \<Rightarrow> [])"

text \<open>The value bound to a text column.\<close>

definition column_text :: "js_value \<Rightarrow> string" where
  "column_text v = (case v of String s \<Rightarrow> s | _ \<Rightarrow> [])"

definition number_or_zero :: "number_text \<Rightarrow> js_value \<Rightarrow> js_value" where
  "number_or_zero T v = (if truthy_value v then number_of T v else Number 0)"

definition put_product :: "number_text \<Rightarrow> js_value \<Rightarrow> pos_db \<Rightarrow> pos_db result" where
  "put_product T p d =
     (let selling = number_or_zero T (field p ''selling_price'');
          tax = number_or_zero T (field p ''unit_tax'') in
      and_then (decimal_to_minor_units (string_of T selling)) (\<lambda>selling_units.
      and_then (decimal_to_minor_units (string_of T tax)) (\<lambda>tax_units.
      Inr (d\<lparr>po_products := (po_products d)(column_text (field p ''id'') \<mapsto>
        \<lparr>pd_sku = column_text (field p ''sku''), pd_name_en = column_text (field p ''name_en''),
         pd_name_ar = column_text (field p ''name_ar''),
         pd_selling_price = (case finite_number selling of None \<Rightarrow> 0 | Some r \<Rightarrow> r),
         pd_unit_tax = (case finite_number tax of None \<Rightarrow> 0 | Some r \<Rightarrow> r),
         pd_catalog_version = (case finite_number (number_or_zero T (field p ''catalog_version'')) of None \<Rightarrow> 0 | Some r \<Rightarrow> r),
         pd_selling_minor_units = selling_units, pd_unit_tax_minor_units = tax_units\<rparr>)\<rparr>))))"

definition put_stock :: "number_text \<Rightarrow> js_value \<Rightarrow> pos_db \<Rightarrow> pos_db" where
  "put_stock T s d =
     d\<lparr>po_stock := (po_stock d)(column_text (field s ''variant_id'') \<mapsto>
         (case integer_number (number_of T (field s ''qty_on_hand'')) of None \<Rightarrow> 0 | Some q \<Rightarrow> q))\<rparr>"

definition put_seller :: "number_text \<Rightarrow> js_value \<Rightarrow> pos_db \<Rightarrow> pos_db" where
  "put_seller T s d =
     d\<lparr>po_sellers := (po_sellers d)(string_of T (field s ''id'') \<mapsto> trim (string_of T (field s ''name'')))\<rparr>"

definition drop_variant :: "js_value \<Rightarrow> pos_db \<Rightarrow> pos_db" where
  "drop_variant v d =
     (case v of
        String i \<Rightarrow> d\<lparr>po_products := (po_products d)(i := None), po_stock := (po_stock d)(i := None)\<rparr>
      | _ \<Rightarrow> d)"

text \<open>The page's own cursor and validity are stored when the page has them.\<close>

definition put_page_meta :: "number_text \<Rightarrow> js_value \<Rightarrow> pos_db \<Rightarrow> pos_db" where
  "put_page_meta T page d =
     (let d1 = (if truthy_value (field page ''reset_products'')
                then set_meta ''catalog_format_version'' catalog_format_version d else d);
          d2 = (if field page ''cursor'' \<noteq> Undefined
                then set_meta ''sync_cursor'' (string_of T (field page ''cursor'')) d1 else d1)
      in if field page ''catalog_valid_until'' \<noteq> Undefined
         then set_meta ''catalog_valid_until'' (string_or T (field page ''catalog_valid_until'') []) d2 else d2)"

definition sync_apply_pull :: "number_text \<Rightarrow> string list \<Rightarrow> js_value \<Rightarrow> pos_db \<Rightarrow> pos_db result" where
  "sync_apply_pull T product_ids page d =
     (let products = elements (field page ''products'');
          stock = elements (field page ''stock'');
          sellers = elements (field page ''sellers'') in
      and_then (throw_if (catalog_needs_full_refresh product_ids d \<and> \<not> truthy_value (field page ''reset_products''))
                 (JsError ''A complete v2 catalog snapshot is required before delta synchronization'')) (\<lambda>_.
      and_then (throw_if (list_ex (\<lambda>p. \<not> is_valid_catalog_product T p) products)
                 (JsError ''The server returned an invalid v2 catalog product'')) (\<lambda>_.
      and_then (throw_if (list_ex (\<lambda>s. \<not> is_valid_catalog_stock T s) stock)
                 (JsError ''The server returned invalid branch stock data'')) (\<lambda>_.
      and_then (throw_if (list_ex (\<lambda>s. \<not> seller_valid T s) sellers)
                 (JsError ''The server returned invalid branch seller data'')) (\<lambda>_.
      let d1 = (if truthy_value (field page ''reset_products'') then d\<lparr>po_products := Map.empty\<rparr> else d);
          d2 = (if truthy_value (field page ''reset_stock'') then d1\<lparr>po_stock := Map.empty\<rparr> else d1);
          d3 = (if truthy_value (field page ''reset_sellers'') then d2\<lparr>po_sellers := Map.empty\<rparr> else d2);
          d4 = fold drop_variant (elements (field page ''deleted_variant_ids'')) d3 in
      and_then (fold_result (put_product T) products d4) (\<lambda>d5.
      Inr (put_page_meta T page (fold (put_seller T) sellers (fold (put_stock T) stock d5)))))))))"

section \<open>The invariant of the local store\<close>

text \<open>
  Each committed sale has its row of the outbox and the other way round, with the same sequence
  number, which no other sale has and the stored counter bounds; and no local stock is negative.
\<close>

definition outbox_keys :: "pos_db \<Rightarrow> (string \<times> string) list" where
  "outbox_keys d = map (\<lambda>r. (ob_id r, ob_sequence r)) (po_outbox d)"

definition store_inv :: "pos_db \<Rightarrow> bool" where
  "store_inv d \<longleftrightarrow>
     distinct (map fst (outbox_keys d)) \<and> distinct (map snd (outbox_keys d))
     \<and> (\<forall>(i, q) \<in> set (outbox_keys d).
          decimal_sequence q \<and> digits_val q \<le> digits_val (get_meta d ''terminal_sale_sequence'')
          \<and> (case po_sales d i of None \<Rightarrow> False | Some s \<Rightarrow> lr_sequence s = q))
     \<and> (\<forall>i. po_sales d i \<noteq> None \<longrightarrow> i \<in> fst ` set (outbox_keys d))
     \<and> (get_meta d ''terminal_sale_sequence'' = [] \<longrightarrow> po_outbox d = [])
     \<and> (get_meta d ''terminal_sale_sequence'' \<noteq> [] \<longrightarrow> decimal_sequence (get_meta d ''terminal_sale_sequence''))
     \<and> (\<forall>v q. po_stock d v = Some q \<longrightarrow> 0 \<le> q)"

definition sale_ids :: "pos_db \<Rightarrow> string set" where
  "sale_ids d = {i. po_sales d i \<noteq> None}"

lemma get_set_meta [simp]: "get_meta (set_meta k v d) k' = (if k' = k then v else get_meta d k')"
  by (simp add: get_meta_def set_meta_def)

lemma set_meta_tables [simp]: "po_products (set_meta k v d) = po_products d" "po_stock (set_meta k v d) = po_stock d"
  "po_sellers (set_meta k v d) = po_sellers d" "po_outbox (set_meta k v d) = po_outbox d" "po_sales (set_meta k v d) = po_sales d"
  by (simp_all add: set_meta_def)

text \<open>Changes of an upload's state keep identifiers and sequence numbers.\<close>

lemma update_outbox_keys:
  assumes "\<And>r. ob_id (f r) = ob_id r \<and> ob_sequence (f r) = ob_sequence r"
  shows "outbox_keys (update_outbox P f d) = outbox_keys d"
  using assms by (simp add: outbox_keys_def update_outbox_def comp_def if_distrib cong: if_cong)

lemma update_outbox_tables [simp]:
  "get_meta (update_outbox P f d) k = get_meta d k" "po_sales (update_outbox P f d) = po_sales d"
  "po_stock (update_outbox P f d) = po_stock d" "po_outbox (update_outbox P f d) = [] \<longleftrightarrow> po_outbox d = []"
  "po_products (update_outbox P f d) = po_products d" "po_sellers (update_outbox P f d) = po_sellers d"
  by (simp_all add: update_outbox_def get_meta_def)

lemma update_outbox_inv:
  assumes "store_inv d" and "\<And>r. ob_id (f r) = ob_id r \<and> ob_sequence (f r) = ob_sequence r"
  shows "store_inv (update_outbox P f d)"
  using assms(1) by (simp add: store_inv_def update_outbox_keys [OF assms(2)])

lemma mark_sending_inv: "store_inv d \<Longrightarrow> sync_mark_sending now i d = Inr d' \<Longrightarrow> store_inv d'"
  by (auto simp: sync_mark_sending_def split: if_splits intro!: update_outbox_inv)

lemma mark_failed_inv: "store_inv d \<Longrightarrow> store_inv (sync_mark_failed i m r d)"
  by (auto simp: sync_mark_failed_def intro!: update_outbox_inv)

lemma recover_inv: "store_inv d \<Longrightarrow> store_inv (recover_outbox d)"
  by (auto simp: recover_outbox_def intro!: update_outbox_inv)

lemma sales_update_inv:
  assumes inv: "store_inv d" and f: "\<And>r. lr_sequence (f r) = lr_sequence r"
  shows "store_inv (d\<lparr>po_sales := (po_sales d)(i := map_option f (po_sales d i))\<rparr>)"
proof -
  let ?d = "d\<lparr>po_sales := (po_sales d)(i := map_option f (po_sales d i))\<rparr>"
  have t: "outbox_keys ?d = outbox_keys d" "get_meta ?d k = get_meta d k" "po_outbox ?d = po_outbox d"
    "po_stock ?d = po_stock d" for k
    by (simp_all add: outbox_keys_def get_meta_def)
  have s: "(po_sales ?d j \<noteq> None) = (po_sales d j \<noteq> None)"
    "(case po_sales ?d j of None \<Rightarrow> False | Some s \<Rightarrow> lr_sequence s = q)
     = (case po_sales d j of None \<Rightarrow> False | Some s \<Rightarrow> lr_sequence s = q)" for j q
    using f by (auto split: option.splits)
  show ?thesis using inv unfolding store_inv_def t s .
qed

lemma mark_sent_inv: "store_inv d \<Longrightarrow> store_inv (sync_mark_sent now i doc d)"
  unfolding sync_mark_sent_def Let_def by (intro sales_update_inv update_outbox_inv) simp_all

section \<open>Committing a sale keeps the invariant\<close>

definition tables_kept :: "pos_db \<Rightarrow> pos_db \<Rightarrow> bool" where
  "tables_kept d d' \<longleftrightarrow> po_outbox d' = po_outbox d \<and> po_sales d' = po_sales d \<and> po_meta d' = po_meta d
     \<and> po_sellers d' = po_sellers d \<and> po_products d' = po_products d"

definition stock_nonneg :: "pos_db \<Rightarrow> bool" where
  "stock_nonneg d \<longleftrightarrow> (\<forall>v q. po_stock d v = Some q \<longrightarrow> 0 \<le> q)"

lemma take_stock_kept:
  assumes "fold_result take_local_stock items d = Inr d'" and "stock_nonneg d"
  shows "tables_kept d d' \<and> stock_nonneg d'"
  by (rule fold_result_invariant [OF assms(1)])
    (use assms(2) in \<open>auto simp: tables_kept_def stock_nonneg_def take_local_stock_def split: option.splits if_splits\<close>)

text \<open>Each line takes its quantity, which was there; nothing else changes.\<close>

lemma take_stock_exact:
  assumes "fold_result take_local_stock items d = Inr d'" and "distinct (map si_variant_id items)"
  shows "(\<forall>n \<in> set items. \<exists>q. po_stock d (si_variant_id n) = Some q \<and> si_qty n \<le> q
            \<and> po_stock d' (si_variant_id n) = Some (q - si_qty n))
       \<and> (\<forall>v. v \<notin> si_variant_id ` set items \<longrightarrow> po_stock d' v = po_stock d v)"
  using assms
proof (induction items arbitrary: d)
  case (Cons n items)
  from Cons.prems(1) obtain d1 where d1: "take_local_stock n d = Inr d1" "fold_result take_local_stock items d1 = Inr d'"
    by (auto simp: result_simps)
  then obtain q where q: "po_stock d (si_variant_id n) = Some q" "si_qty n \<le> q"
    "d1 = d\<lparr>po_stock := (po_stock d)(si_variant_id n \<mapsto> q - si_qty n)\<rparr>"
    by (auto simp: take_local_stock_def split: option.splits if_splits)
  have ih: "(\<forall>m \<in> set items. \<exists>q. po_stock d1 (si_variant_id m) = Some q \<and> si_qty m \<le> q
            \<and> po_stock d' (si_variant_id m) = Some (q - si_qty m))
       \<and> (\<forall>v. v \<notin> si_variant_id ` set items \<longrightarrow> po_stock d' v = po_stock d1 v)"
    using Cons.IH [OF d1(2)] Cons.prems(2) by simp
  have n: "si_variant_id n \<notin> si_variant_id ` set items" using Cons.prems(2) by simp
  have "po_stock d1 (si_variant_id m) = po_stock d (si_variant_id m)" if "m \<in> set items" for m
  proof -
    have "si_variant_id m \<noteq> si_variant_id n" using n that by (metis image_eqI)
    then show ?thesis using q by simp
  qed
  then show ?case using ih n q by auto
qed simp

lemma commit_sale_effect:
  assumes c: "commit_sale T invoice_number c items d = Inr d'" and inv: "store_inv d"
    and q: "decimal_sequence (sc_sequence c)"
    and fresh: "get_meta d ''terminal_sale_sequence'' \<noteq> [] \<Longrightarrow>
                digits_val (get_meta d ''terminal_sale_sequence'') < digits_val (sc_sequence c)"
  shows "store_inv d'" and "po_sales d (sc_sync_id c) = None"
    and "\<exists>units. po_sales d' = (po_sales d)(sc_sync_id c \<mapsto> sale_row_of c invoice_number units)"
    and "po_outbox d' = po_outbox d @ [outbox_row_of c]"
    and "\<exists>d1. fold_result take_local_stock items d = Inr d1 \<and> po_stock d' = po_stock d1"
    and "po_sellers d' = po_sellers d"
proof -
  obtain d1 units where d1: "fold_result take_local_stock items d = Inr d1"
    and none: "po_sales d1 (sc_sync_id c) = None" "\<not> list_ex (\<lambda>r. ob_id r = sc_sync_id c) (po_outbox d1)"
    and d': "d' = set_meta ''terminal_sale_sequence'' (sc_sequence c)
       (d1\<lparr>po_sales := (po_sales d1)(sc_sync_id c \<mapsto> sale_row_of c invoice_number units),
          po_outbox := po_outbox d1 @ [outbox_row_of c]\<rparr>)"
    using c by (auto simp: commit_sale_def Let_def result_simps)
  have sn: "stock_nonneg d" using inv by (simp add: store_inv_def stock_nonneg_def)
  note k = take_stock_kept [OF d1 sn]
  then have t: "po_outbox d1 = po_outbox d" "po_sales d1 = po_sales d" "po_meta d1 = po_meta d" "stock_nonneg d1"
    "po_sellers d1 = po_sellers d" by (simp_all add: tables_kept_def)
  show n: "po_sales d (sc_sync_id c) = None" using none t by simp
  show "\<exists>units. po_sales d' = (po_sales d)(sc_sync_id c \<mapsto> sale_row_of c invoice_number units)"
    using t by (auto simp: d')
  show "po_outbox d' = po_outbox d @ [outbox_row_of c]" "po_sellers d' = po_sellers d" by (simp_all add: d' t)
  show "\<exists>d1. fold_result take_local_stock items d = Inr d1 \<and> po_stock d' = po_stock d1" using d1 by (simp add: d')
  have keys: "outbox_keys d' = outbox_keys d @ [(sc_sync_id c, sc_sequence c)]"
    by (simp add: outbox_keys_def d' t outbox_row_of_def)
  have new_id: "sc_sync_id c \<notin> fst ` set (outbox_keys d)"
    using none t by (auto simp: outbox_keys_def list_ex_iff)
  have less: "digits_val x < digits_val (sc_sequence c)" if "(i, x) \<in> set (outbox_keys d)" for i x
  proof -
    have "get_meta d ''terminal_sale_sequence'' \<noteq> []" using that inv by (auto simp: store_inv_def outbox_keys_def)
    moreover have "digits_val x \<le> digits_val (get_meta d ''terminal_sale_sequence'')" using that inv by (auto simp: store_inv_def)
    ultimately show ?thesis using fresh by simp
  qed
  have new_seq: "sc_sequence c \<notin> snd ` set (outbox_keys d)" using less by fastforce
  have q': "sc_sequence c \<noteq> []" using q by (auto simp: decimal_sequence_def)
  have m: "get_meta d' ''terminal_sale_sequence'' = sc_sequence c" by (simp add: d')
  have s: "po_sales d' = (po_sales d)(sc_sync_id c \<mapsto> sale_row_of c invoice_number units)" by (simp add: d' t)
  have row: "(case po_sales d' i of None \<Rightarrow> False | Some s \<Rightarrow> lr_sequence s = x)" if "(i, x) \<in> set (outbox_keys d')" for i x
  proof (cases "i = sc_sync_id c")
    case True
    then have "x = sc_sequence c" using that new_id by (auto simp: keys image_iff)
    then show ?thesis using True by (simp add: s sale_row_of_def)
  next
    case False
    then show ?thesis using that inv by (auto simp: s keys store_inv_def)
  qed
  show "store_inv d'"
    unfolding store_inv_def
  proof (intro conjI)
    show "distinct (map fst (outbox_keys d'))" "distinct (map snd (outbox_keys d'))"
      using inv new_id new_seq by (simp_all add: keys store_inv_def)
    show "\<forall>(i, x) \<in> set (outbox_keys d'). decimal_sequence x
        \<and> digits_val x \<le> digits_val (get_meta d' ''terminal_sale_sequence'')
        \<and> (case po_sales d' i of None \<Rightarrow> False | Some s \<Rightarrow> lr_sequence s = x)"
      using row less inv q by (fastforce simp: keys m store_inv_def)
    show "\<forall>i. po_sales d' i \<noteq> None \<longrightarrow> i \<in> fst ` set (outbox_keys d')"
      using inv by (auto simp: s keys store_inv_def)
    show "get_meta d' ''terminal_sale_sequence'' = [] \<longrightarrow> po_outbox d' = []" using q' by (simp add: m)
    show "get_meta d' ''terminal_sale_sequence'' \<noteq> [] \<longrightarrow> decimal_sequence (get_meta d' ''terminal_sale_sequence'')"
      using q by (simp add: m)
    show "\<forall>v q. po_stock d' v = Some q \<longrightarrow> 0 \<le> q" using t(4) by (simp add: d' stock_nonneg_def)
  qed
qed

lemma new_sale_ok:
  assumes "new_sale T date secure now device name v d = Inr (r, d')"
  obtains user sequence invoice_number where "sale_context_ok T date secure" "ss_user secure = Some user"
    "next_terminal_sequence T [String (get_meta d ''terminal_sale_sequence''),
       field (ss_context secure) ''server_last_sale_sequence''] = Inr sequence"
    "commit_sale T invoice_number (command_of device user (ss_context secure) name sequence now v) (ls_items v) d = Inr d'"
    "r = \<lparr>sr_sync_id = ls_sync_id v, sr_invoice_number = invoice_number, sr_sequence = sequence,
          sr_occurred_at = now, sr_replayed = False\<rparr>"
proof -
  from assms obtain u x user q d1 where h: "throw_if (\<not> sale_context_ok T date secure) (JsError ''Offline accounting authorization is missing'') = Inr u"
    "or_throw (ss_user secure) (JsError ''Offline accounting authorization is missing'') = Inr user"
    "check_total T (ls_local_total v) (ls_items v) = Inr x"
    "next_terminal_sequence T [String (get_meta d ''terminal_sale_sequence''),
       field (ss_context secure) ''server_last_sale_sequence''] = Inr q"
    "commit_sale T (''LOCAL-'' @ dv_terminal_code device @ ''-'' @ q)
       (command_of device user (ss_context secure) name q now v) (ls_items v) d = Inr d1"
    "Inr (\<lparr>sr_sync_id = ls_sync_id v, sr_invoice_number = ''LOCAL-'' @ dv_terminal_code device @ ''-'' @ q,
           sr_sequence = q, sr_occurred_at = now, sr_replayed = False\<rparr>, d1) = (Inr (r, d') :: (sale_result \<times> pos_db) result)"
    unfolding new_sale_def Let_def and_then_Inr_iff by (elim exE conjE) (rule that)
  show thesis
  proof (rule that)
    show "sale_context_ok T date secure" "ss_user secure = Some user" using h(1,2) by (simp_all add: result_simps)
    show "commit_sale T (''LOCAL-'' @ dv_terminal_code device @ ''-'' @ q)
       (command_of device user (ss_context secure) name q now v) (ls_items v) d = Inr d'" using h(5,6) by simp
    show "r = \<lparr>sr_sync_id = ls_sync_id v, sr_invoice_number = ''LOCAL-'' @ dv_terminal_code device @ ''-'' @ q,
           sr_sequence = q, sr_occurred_at = now, sr_replayed = False\<rparr>" using h(6) by simp
  qed (rule h(4))
qed

lemma pos_sale_cases:
  assumes "pos_sale T date secure now sale d = Inr (r, d')"
  obtains (replay) device v name row where "ss_device secure = Some device"
      "validate_local_sale_input T sale (dv_branch_id device) = Inr v" "po_sellers d (ls_seller_id v) = Some name"
      "po_sales d (ls_sync_id v) = Some row" "d' = d"
      "r = \<lparr>sr_sync_id = ls_sync_id v, sr_invoice_number = lr_invoice_number row, sr_sequence = lr_sequence row,
            sr_occurred_at = lr_occurred_at row, sr_replayed = True\<rparr>"
  | (committed) device v name user sequence invoice_number where "ss_device secure = Some device"
      "validate_local_sale_input T sale (dv_branch_id device) = Inr v" "po_sellers d (ls_seller_id v) = Some name"
      "po_sales d (ls_sync_id v) = None" "sale_context_ok T date secure" "ss_user secure = Some user"
      "next_terminal_sequence T [String (get_meta d ''terminal_sale_sequence''),
         field (ss_context secure) ''server_last_sale_sequence''] = Inr sequence"
      "commit_sale T invoice_number (command_of device user (ss_context secure) name sequence now v) (ls_items v) d = Inr d'"
      "r = \<lparr>sr_sync_id = ls_sync_id v, sr_invoice_number = invoice_number, sr_sequence = sequence,
            sr_occurred_at = now, sr_replayed = False\<rparr>"
proof -
  from assms obtain device v name where dv: "ss_device secure = Some device"
    "validate_local_sale_input T sale (dv_branch_id device) = Inr v" "po_sellers d (ls_seller_id v) = Some name"
    unfolding pos_sale_def by (auto simp only: and_then_Inr_iff or_throw_Inr_iff)
  show ?thesis
  proof (cases "po_sales d (ls_sync_id v)")
    case None
    with assms dv have "new_sale T date secure now device name v d = Inr (r, d')" by (simp add: pos_sale_def)
    then show ?thesis by (rule new_sale_ok) (rule committed [OF dv None])
  next
    case (Some row)
    with assms dv have "d' = d" "r = \<lparr>sr_sync_id = ls_sync_id v, sr_invoice_number = lr_invoice_number row,
        sr_sequence = lr_sequence row, sr_occurred_at = lr_occurred_at row, sr_replayed = True\<rparr>"
      by (simp_all add: pos_sale_def)
    then show ?thesis by (rule replay [OF dv Some])
  qed
qed

lemma command_of_simps [simp]: "sc_sync_id (command_of dv u c n q now v) = ls_sync_id v"
  "sc_sequence (command_of dv u c n q now v) = q" "sc_occurred_at (command_of dv u c n q now v) = now"
  by (simp_all add: command_of_def)

definition sale_effect :: "sale_result \<Rightarrow> pos_db \<Rightarrow> pos_db \<Rightarrow> bool" where
  "sale_effect r d d' \<longleftrightarrow>
     (if sr_replayed r then d' = d \<and> sr_sync_id r \<in> sale_ids d
      else sr_sync_id r \<notin> sale_ids d \<and> sale_ids d' = insert (sr_sync_id r) (sale_ids d)
         \<and> outbox_keys d' = outbox_keys d @ [(sr_sync_id r, sr_sequence r)]
         \<and> (\<forall>(i, q) \<in> set (outbox_keys d). digits_val q < digits_val (sr_sequence r)))"

lemma pos_sale_effect:
  assumes sale: "pos_sale T date secure now sale d = Inr (r, d')" and inv: "store_inv d"
  shows "store_inv d' \<and> sale_effect r d d'"
  using sale
proof (cases rule: pos_sale_cases)
  case (replay device v name row)
  with inv show ?thesis by (simp add: sale_effect_def sale_ids_def)
next
  case (committed device v name user sequence invoice_number)
  let ?c = "command_of device user (ss_context secure) name sequence now v"
  note n = next_sequence_fresh [OF committed(7)]
  have fresh: "get_meta d ''terminal_sale_sequence'' \<noteq> [] \<Longrightarrow>
      digits_val (get_meta d ''terminal_sale_sequence'') < digits_val (sc_sequence ?c)"
    using n by simp
  note e = commit_sale_effect [OF committed(8) inv _ fresh]
  have q: "decimal_sequence (sc_sequence ?c)" using n by simp
  obtain units where s: "po_sales d' = (po_sales d)(ls_sync_id v \<mapsto> sale_row_of ?c invoice_number units)"
    using e(3) [OF q] by auto
  have keys: "outbox_keys d' = outbox_keys d @ [(ls_sync_id v, sequence)]"
    using e(4) [OF q] by (simp add: outbox_keys_def outbox_row_of_def)
  have "digits_val x < digits_val sequence" if "(i, x) \<in> set (outbox_keys d)" for i x
  proof -
    have "get_meta d ''terminal_sale_sequence'' \<noteq> []" using that inv by (auto simp: store_inv_def outbox_keys_def)
    moreover have "digits_val x \<le> digits_val (get_meta d ''terminal_sale_sequence'')" using that inv by (auto simp: store_inv_def)
    ultimately show ?thesis using fresh by simp
  qed
  moreover have "sale_ids d' = insert (ls_sync_id v) (sale_ids d)" by (auto simp: sale_ids_def s)
  moreover have "ls_sync_id v \<notin> sale_ids d" using committed(4) by (simp add: sale_ids_def)
  ultimately show ?thesis using e(1) [OF q] keys committed(9) by (auto simp: sale_effect_def)
qed


text \<open>A catalog page changes neither the sales nor their uploads, and leaves no negative stock.\<close>

definition sales_kept :: "pos_db \<Rightarrow> pos_db \<Rightarrow> bool" where
  "sales_kept d d' \<longleftrightarrow> po_outbox d' = po_outbox d \<and> po_sales d' = po_sales d
     \<and> get_meta d' ''terminal_sale_sequence'' = get_meta d ''terminal_sale_sequence''"

lemma sales_kept_inv: "store_inv d \<Longrightarrow> sales_kept d d' \<Longrightarrow> stock_nonneg d' \<Longrightarrow> store_inv d'"
  by (simp add: store_inv_def sales_kept_def outbox_keys_def stock_nonneg_def)

lemma put_page_meta_kept: "sales_kept d (put_page_meta T page d)" "po_stock (put_page_meta T page d) = po_stock d"
  by (simp_all add: sales_kept_def put_page_meta_def Let_def)

lemma put_product_kept: "put_product T p d = Inr d' \<Longrightarrow> sales_kept d d' \<and> po_stock d' = po_stock d"
  by (auto simp: put_product_def Let_def result_simps sales_kept_def get_meta_def)

lemma fold_kept:
  assumes "\<And>x t. x \<in> set xs \<Longrightarrow> sales_kept d t \<and> stock_nonneg t \<Longrightarrow> sales_kept d (f x t) \<and> stock_nonneg (f x t)"
  shows "sales_kept d t \<and> stock_nonneg t \<Longrightarrow> sales_kept d (fold f xs t) \<and> stock_nonneg (fold f xs t)"
  using assms by (induction xs arbitrary: t) auto

lemma apply_pull_kept:
  assumes "sync_apply_pull T ids page d = Inr d'" and "stock_nonneg d"
  shows "sales_kept d d' \<and> stock_nonneg d'"
proof -
  let ?stock = "elements (field page ''stock'')" and ?sellers = "elements (field page ''sellers'')"
  let ?d1 = "if truthy_value (field page ''reset_products'') then d\<lparr>po_products := Map.empty\<rparr> else d"
  let ?d2 = "if truthy_value (field page ''reset_stock'') then ?d1\<lparr>po_stock := Map.empty\<rparr> else ?d1"
  let ?d3 = "if truthy_value (field page ''reset_sellers'') then ?d2\<lparr>po_sellers := Map.empty\<rparr> else ?d2"
  let ?d4 = "fold drop_variant (elements (field page ''deleted_variant_ids'')) ?d3"
  from assms(1) obtain d5 where ok: "\<not> list_ex (\<lambda>s. \<not> is_valid_catalog_stock T s) ?stock"
    and d5: "fold_result (put_product T) (elements (field page ''products'')) ?d4 = Inr d5"
    and d': "d' = put_page_meta T page (fold (put_seller T) ?sellers (fold (put_stock T) ?stock d5))"
    unfolding sync_apply_pull_def Let_def by (auto simp only: and_then_Inr_iff throw_if_Inr_iff sum.inject)
  have "sales_kept d ?d3 \<and> stock_nonneg ?d3"
    using assms(2) by (auto simp: sales_kept_def stock_nonneg_def get_meta_def)
  then have d4: "sales_kept d ?d4 \<and> stock_nonneg ?d4"
    by (rule fold_kept [rotated])
      (auto simp: drop_variant_def sales_kept_def stock_nonneg_def get_meta_def split: js_value.splits if_splits)
  have "sales_kept d d5 \<and> stock_nonneg d5"
    using d5 d4 by (rule fold_result_invariant) (auto simp: sales_kept_def stock_nonneg_def dest: put_product_kept)
  then have "sales_kept d (fold (put_stock T) ?stock d5) \<and> stock_nonneg (fold (put_stock T) ?stock d5)"
    by (rule fold_kept [rotated])
      (use ok in \<open>auto simp: put_stock_def sales_kept_def stock_nonneg_def get_meta_def list_ex_iff
        is_valid_catalog_stock_def split: option.splits\<close>)
  then have "sales_kept d (fold (put_seller T) ?sellers (fold (put_stock T) ?stock d5))
      \<and> stock_nonneg (fold (put_seller T) ?sellers (fold (put_stock T) ?stock d5))"
    by (rule fold_kept [rotated]) (auto simp: put_seller_def sales_kept_def stock_nonneg_def get_meta_def)
  then show ?thesis unfolding d' using put_page_meta_kept
    by (auto simp: sales_kept_def stock_nonneg_def)
qed

lemma apply_pull_inv: "sync_apply_pull T ids page d = Inr d' \<Longrightarrow> store_inv d \<Longrightarrow> store_inv d'"
  using apply_pull_kept [of T ids page d d'] sales_kept_inv [of d d'] by (auto simp: store_inv_def stock_nonneg_def)

section \<open>Status, start-up and the reachable stores\<close>

record status_update =
  su_sync_status :: string
  su_last_sync_at :: "string option"
  su_catalog_valid_until :: "string option option"
  su_last_error :: "string option"

text \<open>A field that is absent is \<open>None\<close>; of \<open>catalog_valid_until\<close> the code tells absent from null.\<close>

definition sync_set_status :: "status_update \<Rightarrow> pos_db \<Rightarrow> pos_db" where
  "sync_set_status u d =
     (let d1 = (if su_sync_status u \<noteq> [] then set_meta ''sync_status'' (su_sync_status u) d else d);
          d2 = (if truthy (su_last_sync_at u) then set_meta ''last_sync_at'' (the (su_last_sync_at u)) d1 else d1);
          d3 = (case su_catalog_valid_until u of None \<Rightarrow> d2
                | Some v \<Rightarrow> set_meta ''catalog_valid_until'' (if truthy v then the v else []) d2)
      in set_meta ''last_error'' (if truthy (su_last_error u) then take 500 (the (su_last_error u)) else []) d3)"

definition align_local_sequence :: "number_text \<Rightarrow> (string \<Rightarrow> rat option) \<Rightarrow> js_value \<Rightarrow> pos_db \<Rightarrow> pos_db result" where
  "align_local_sequence T date context d =
     (if \<not> is_valid_offline_accounting_context T date context then Inr d
      else and_then (max_terminal_sequence T [String (get_meta d ''terminal_sale_sequence''),
                      field context ''server_last_sale_sequence''])
             (\<lambda>m. Inr (set_meta ''terminal_sale_sequence'' m d)))"

lemma set_status_kept: "sales_kept d (sync_set_status u d) \<and> po_stock (sync_set_status u d) = po_stock d"
  by (simp add: sync_set_status_def Let_def sales_kept_def split: option.splits)

lemma align_inv:
  assumes "align_local_sequence T date context d = Inr d'" and inv: "store_inv d"
  shows "store_inv d' \<and> po_outbox d' = po_outbox d \<and> po_sales d' = po_sales d"
proof (cases "is_valid_offline_accounting_context T date context")
  case True
  with assms(1) obtain m where m: "fold_result (max_sequence_step T) [String (get_meta d ''terminal_sale_sequence''),
      field context ''server_last_sale_sequence''] 0 = Inr m"
    "d' = set_meta ''terminal_sale_sequence'' (nat_string m) d"
    by (auto simp: align_local_sequence_def max_terminal_sequence_def result_simps)
  from max_sequence_ok [OF m(1)] have le: "digits_val (get_meta d ''terminal_sale_sequence'') \<le> m"
    by (cases "get_meta d ''terminal_sale_sequence'' = []") auto
  have k: "outbox_keys d' = outbox_keys d" "po_sales d' = po_sales d" "po_stock d' = po_stock d"
    "get_meta d' ''terminal_sale_sequence'' = nat_string m" "po_outbox d' = po_outbox d"
    by (simp_all add: m(2) outbox_keys_def)
  have "digits_val x \<le> m" if "(i, x) \<in> set (outbox_keys d)" for i x
    using inv that le unfolding store_inv_def by fastforce
  then show ?thesis using inv unfolding store_inv_def k
    by (auto simp: k decimal_sequence_nat_string)
qed (use assms in \<open>simp add: align_local_sequence_def\<close>)

text \<open>The store of a fresh installation.\<close>

definition empty_store :: pos_db where
  "empty_store = \<lparr>po_products = Map.empty, po_stock = Map.empty, po_sellers = Map.empty, po_outbox = [],
     po_sales = Map.empty, po_meta = [''terminal_sale_sequence'' \<mapsto> ''0'', ''sync_status'' \<mapsto> ''never'']\<rparr>"

text \<open>Any handler, with any arguments, in any order; a handler that fails leaves no step.\<close>

inductive pos_step :: "pos_db \<Rightarrow> pos_db \<Rightarrow> bool" where
  step_sale: "pos_sale T date secure now sale d = Inr (r, d') \<Longrightarrow> pos_step d d'"
| step_sending: "sync_mark_sending now i d = Inr d' \<Longrightarrow> pos_step d d'"
| step_sent: "pos_step d (sync_mark_sent now i doc d)"
| step_failed: "pos_step d (sync_mark_failed i message retryable d)"
| step_status: "pos_step d (sync_set_status u d)"
| step_pull: "sync_apply_pull T ids page d = Inr d' \<Longrightarrow> pos_step d d'"
| step_recover: "pos_step d (recover_outbox d)"
| step_align: "align_local_sequence T date context d = Inr d' \<Longrightarrow> pos_step d d'"

inductive_cases pos_stepE: "pos_step d d'"

lemma update_outbox_grows:
  assumes "\<And>r. ob_id (f r) = ob_id r \<and> ob_sequence (f r) = ob_sequence r"
  shows "outbox_keys (update_outbox P f d) = outbox_keys d \<and> sale_ids (update_outbox P f d) = sale_ids d"
  using update_outbox_keys [of f] assms by (simp add: sale_ids_def)

definition grows :: "pos_db \<Rightarrow> pos_db \<Rightarrow> bool" where
  "grows d d' \<longleftrightarrow> (\<exists>new. outbox_keys d' = outbox_keys d @ new) \<and> sale_ids d \<subseteq> sale_ids d'"

lemma grows_refl: "outbox_keys d' = outbox_keys d \<Longrightarrow> sale_ids d' = sale_ids d \<Longrightarrow> grows d d'"
  by (simp add: grows_def)

lemma sales_kept_grows: "sales_kept d d' \<Longrightarrow> grows d d'"
  by (simp add: sales_kept_def grows_def outbox_keys_def sale_ids_def)

lemma pos_step_inv:
  assumes "pos_step d d'" and "store_inv d"
  shows "store_inv d' \<and> grows d d'"
  using assms
proof (induction rule: pos_step.induct)
  case (step_sale T date secure now sale d r d')
  from pos_sale_effect [OF step_sale(1,2)] show ?case by (auto simp: sale_effect_def grows_def split: if_splits)
next
  case (step_sending now i d d')
  then show ?case using mark_sending_inv [OF step_sending(2,1)]
    by (auto simp: sync_mark_sending_def update_outbox_grows split: if_splits intro!: grows_refl)
next
  case (step_sent d now i doc)
  let ?f = "\<lambda>s r. r\<lparr>ob_status := s, ob_document_id := or_null (sd_id doc), ob_document_number := or_null (sd_number doc),
      ob_warnings := clean_warnings (sd_warnings doc), ob_last_error := None\<rparr>"
  have "outbox_keys (sync_mark_sent now i doc d) = outbox_keys d"
    using update_outbox_keys [of "?f (if clean_warnings (sd_warnings doc) = [] then Sent else Sent_With_Warning)"]
    by (simp add: sync_mark_sent_def Let_def outbox_keys_def)
  moreover have "sale_ids (sync_mark_sent now i doc d) = sale_ids d"
    by (auto simp: sync_mark_sent_def Let_def sale_ids_def)
  ultimately show ?case using mark_sent_inv [OF step_sent] by (simp add: grows_refl)
next
  case (step_failed d i message retryable)
  then show ?case using mark_failed_inv [OF step_failed]
    by (auto simp: sync_mark_failed_def update_outbox_grows intro!: grows_refl)
next
  case (step_status d u)
  note k = set_status_kept [of d u]
  have "stock_nonneg (sync_set_status u d)" using k step_status by (simp add: stock_nonneg_def store_inv_def)
  with k sales_kept_inv [OF step_status] show ?case by (simp add: sales_kept_grows)
next
  case (step_pull T ids page d d')
  have "stock_nonneg d" using step_pull(2) by (simp add: stock_nonneg_def store_inv_def)
  with apply_pull_kept [OF step_pull(1)] apply_pull_inv [OF step_pull] show ?case by (simp add: sales_kept_grows)
next
  case (step_recover d)
  then show ?case using recover_inv [OF step_recover]
    by (auto simp: recover_outbox_def update_outbox_grows intro!: grows_refl)
next
  case (step_align T date ctx d d')
  from align_inv [OF step_align] show ?case by (simp add: grows_refl outbox_keys_def sale_ids_def)
qed

lemma grows_trans: "grows d d' \<Longrightarrow> grows d' d'' \<Longrightarrow> grows d d''"
  by (auto simp: grows_def)

lemma empty_store_inv: "store_inv empty_store"
  by (simp add: store_inv_def empty_store_def outbox_keys_def get_meta_def decimal_sequence_def)

section \<open>Decommissioning the till\<close>

text \<open>
  \<open>factory-reset-policy.ts\<close> and \<open>factory-reset-runtime.ts\<close>: the one handler that deletes the local database. It checks
  the facts of the till, raises the flag \<open>resetInProgress\<close>, awaits the answer of the backend, and
  then moves the files away and restarts. The two counts are of rows, which are safe integers. The held
  drafts of the counter are not modelled: their number is an argument. A row of the outbox is
  pending as long as it is not \<open>sent\<close>.
\<close>

record reset_facts =
  rf_role :: "string option"
  rf_terminal_code :: "string option"
  rf_pending :: nat
  rf_held :: nat
  rf_sync_status :: string
  rf_in_progress :: bool

definition current_facts :: "secure_state \<Rightarrow> nat \<Rightarrow> bool \<Rightarrow> pos_db \<Rightarrow> reset_facts" where
  "current_facts secure held resetting d =
     \<lparr>rf_role = or_null (map_option ca_role (ss_user secure)),
      rf_terminal_code = or_null (map_option dv_terminal_code (ss_device secure)),
      rf_pending = length (filter (\<lambda>r. ob_status r \<noteq> Sent) (po_outbox d)), rf_held = held,
      rf_sync_status = (if get_meta d ''sync_status'' = [] then ''never'' else get_meta d ''sync_status''),
      rf_in_progress = resetting\<rparr>"

datatype reset_blocker =
  Manager_Required | Device_Required | Pending_Operations | Held_Sales | Sync_In_Progress | Reset_In_Progress

record reset_status =
  rs_manager :: bool
  rs_enrolled :: bool
  rs_in_progress :: bool
  rs_terminal_code :: "string option"
  rs_pending :: nat
  rs_held :: nat
  rs_sync_status :: string
  rs_blockers :: "reset_blocker list"
  rs_can_reset :: bool

definition factory_reset_status :: "reset_facts \<Rightarrow> reset_status" where
  "factory_reset_status f =
     (let manager = (rf_role f = Some ''branch_manager'');
          code = to_upper (trim (case rf_terminal_code f of None \<Rightarrow> [] | Some c \<Rightarrow> c));
          sync_status = (if rf_sync_status f = [] then ''never'' else rf_sync_status f);
          blockers = (if manager then [] else [Manager_Required])
            @ (if code = [] then [Device_Required] else [])
            @ (if 0 < rf_pending f then [Pending_Operations] else [])
            @ (if 0 < rf_held f then [Held_Sales] else [])
            @ (if sync_status = ''syncing'' then [Sync_In_Progress] else [])
            @ (if rf_in_progress f then [Reset_In_Progress] else [])
      in \<lparr>rs_manager = manager, rs_enrolled = (code \<noteq> []), rs_in_progress = rf_in_progress f,
          rs_terminal_code = (if code = [] then None else Some code), rs_pending = rf_pending f, rs_held = rf_held f,
          rs_sync_status = sync_status, rs_blockers = blockers, rs_can_reset = (blockers = [])\<rparr>)"

definition assert_factory_reset_allowed :: "number_text \<Rightarrow> reset_facts \<Rightarrow> js_value \<Rightarrow> reset_status result" where
  "assert_factory_reset_allowed T f confirmation =
     (let s = factory_reset_status f in
      and_then (throw_if (rs_in_progress s) (DomainError ''FACTORY_RESET_IN_PROGRESS'')) (\<lambda>_.
      and_then (throw_if (\<not> rs_manager s) (DomainError ''FACTORY_RESET_MANAGER_REQUIRED'')) (\<lambda>_.
      and_then (throw_if (\<not> rs_enrolled s) (DomainError ''FACTORY_RESET_DEVICE_REQUIRED'')) (\<lambda>_.
      and_then (throw_if (0 < rs_pending s) (DomainError ''FACTORY_RESET_PENDING_OPERATIONS'')) (\<lambda>_.
      and_then (throw_if (0 < rs_held s) (DomainError ''FACTORY_RESET_HELD_SALES'')) (\<lambda>_.
      and_then (throw_if (rs_sync_status s = ''syncing'') (DomainError ''FACTORY_RESET_SYNC_IN_PROGRESS'')) (\<lambda>_.
      and_then (throw_if (Some (to_upper (trim (string_or T confirmation []))) \<noteq> rs_terminal_code s)
                  (DomainError ''FACTORY_RESET_CONFIRMATION_MISMATCH'')) (\<lambda>_.
      Inr s))))))))"

text \<open>The till as the main process sees it: the database and \<open>resetInProgress\<close>.\<close>

record till =
  tl_db :: pos_db
  tl_resetting :: bool

text \<open>Called first by every handler that changes sales, uploads, drafts or the catalog.\<close>

definition assert_factory_reset_idle :: "till \<Rightarrow> unit result" where
  "assert_factory_reset_idle t = throw_if (tl_resetting t) (DomainError ''FACTORY_RESET_IN_PROGRESS'')"

definition factory_reset_start :: "number_text \<Rightarrow> secure_state \<Rightarrow> nat \<Rightarrow> js_value \<Rightarrow> till \<Rightarrow> till result" where
  "factory_reset_start T secure held confirmation t =
     and_then (assert_factory_reset_allowed T (current_facts secure held (tl_resetting t) (tl_db t)) confirmation) (\<lambda>status.
     and_then (or_throw (ss_device secure) (DomainError ''FACTORY_RESET_DEVICE_REQUIRED'')) (\<lambda>device.
     and_then (throw_if (dv_device_id device = [] \<or> dv_terminal_code device = []) (DomainError ''FACTORY_RESET_DEVICE_REQUIRED'')) (\<lambda>_.
     Inr (t\<lparr>tl_resetting := True\<rparr>))))"

text \<open>
  What follows the answer of the backend. Moving the files away may fail, and so may moving them back;
  a database that is gone is opened as a new one. (\<open>local-state-migration.ts\<close>, which at a start without a database
  copies one an older product left behind, is not modelled.)
\<close>

definition factory_reset_finish :: "unit result \<Rightarrow> bool \<Rightarrow> bool \<Rightarrow> till \<Rightarrow> till \<times> unit result" where
  "factory_reset_finish answer moved restored t =
     (case answer of
        Inl e \<Rightarrow>
          if e \<noteq> DomainError ''TERMINAL_REVOKED'' then (t\<lparr>tl_resetting := False\<rparr>, Inl e)
          else if moved then (\<lparr>tl_db = empty_store, tl_resetting = False\<rparr>, Inr ())
          else (\<lparr>tl_db = (if restored then tl_db t else empty_store), tl_resetting = False\<rparr>,
                Inl (DomainError ''FACTORY_RESET_LOCAL_CLEANUP_FAILED''))
      | Inr _ \<Rightarrow>
          if moved then (\<lparr>tl_db = empty_store, tl_resetting = False\<rparr>, Inr ())
          else (\<lparr>tl_db = (if restored then tl_db t else empty_store), tl_resetting = False\<rparr>,
                Inl (DomainError ''FACTORY_RESET_LOCAL_CLEANUP_FAILED'')))"

text \<open>
  Everything the main process does to the till: a handler, the alignment of the counter after a login (which
  does not ask whether a reset is on its way), a restart at any moment, and the two parts of a reset.
\<close>

inductive till_step :: "till \<Rightarrow> till \<Rightarrow> bool" where
  Till_Serves: "assert_factory_reset_idle t = Inr () \<Longrightarrow> pos_step (tl_db t) d' \<Longrightarrow> till_step t (t\<lparr>tl_db := d'\<rparr>)"
| Till_Aligns: "align_local_sequence T date context (tl_db t) = Inr d' \<Longrightarrow> till_step t (t\<lparr>tl_db := d'\<rparr>)"
| Till_Restarts: "till_step t \<lparr>tl_db = recover_outbox (tl_db t), tl_resetting = False\<rparr>"
| Till_Reset_Starts: "factory_reset_start T secure held confirmation t = Inr t' \<Longrightarrow> till_step t t'"
| Till_Reset_Ends: "tl_resetting t \<Longrightarrow> till_step t (fst (factory_reset_finish answer moved restored t))"

definition all_sent :: "pos_db \<Rightarrow> bool" where
  "all_sent d \<longleftrightarrow> (\<forall>r \<in> set (po_outbox d). ob_status r = Sent)"

text \<open>A reset that is accepted: by a branch manager who typed the code of the till, with nothing left to upload.\<close>

lemma factory_reset_start_Inr:
  assumes "factory_reset_start T secure held confirmation t = Inr t'"
  shows "t' = t\<lparr>tl_resetting := True\<rparr>" and "\<not> tl_resetting t" and "all_sent (tl_db t)" and "held = 0"
    and "\<exists>user device. ss_user secure = Some user \<and> ca_role user = ''branch_manager'' \<and> ss_device secure = Some device
           \<and> to_upper (trim (string_or T confirmation [])) = to_upper (trim (dv_terminal_code device))"
  using assms
  by (auto simp: factory_reset_start_def assert_factory_reset_allowed_def factory_reset_status_def current_facts_def Let_def
      result_simps all_sent_def filter_empty_conv or_null_def split: option.splits if_splits)

text \<open>The status the screen shows says it can be reset exactly when nothing but the confirmation can refuse it.\<close>

lemma to_upper_trim_again: "to_upper (trim (to_upper (trim s))) = to_upper (trim s)"
proof -
  have u: "is_js_space (upper_char c) \<longleftrightarrow> is_js_space c" "upper_char (upper_char c) = upper_char c" for c
    by (auto simp: upper_char_def is_js_space_def Let_def)
  have d: "dropWhile is_js_space (map upper_char xs) = map upper_char (dropWhile is_js_space xs)" for xs
    by (induction xs) (simp_all add: u)
  have "trim (map upper_char xs) = map upper_char (trim xs)" for xs
    by (simp only: trim_def d rev_map)
  then show ?thesis by (simp add: to_upper_def u)
qed

lemma can_reset_iff:
  "rs_can_reset (factory_reset_status f)
     \<longleftrightarrow> (\<exists>c. assert_factory_reset_allowed T f (String c) = Inr (factory_reset_status f))"
proof
  let ?s = "factory_reset_status f"
  assume c: "rs_can_reset ?s"
  define code where "code = to_upper (trim (case rf_terminal_code f of None \<Rightarrow> [] | Some c \<Rightarrow> c))"
  have "code \<noteq> []" using c by (auto simp: factory_reset_status_def code_def Let_def split: if_splits)
  moreover have "to_upper (trim code) = code"
    unfolding code_def by (rule to_upper_trim_again)
  ultimately have "assert_factory_reset_allowed T f (String code) = Inr ?s"
    using c by (auto simp: assert_factory_reset_allowed_def factory_reset_status_def Let_def throw_if_def string_or_def
        code_def split: if_splits)
  then show "\<exists>c. assert_factory_reset_allowed T f (String c) = Inr ?s" ..
qed (auto simp: assert_factory_reset_allowed_def factory_reset_status_def Let_def result_simps)

definition till_ok :: "till \<Rightarrow> bool" where
  "till_ok t \<longleftrightarrow> store_inv (tl_db t) \<and> (tl_resetting t \<longrightarrow> all_sent (tl_db t))"

lemma till_step_ok:
  assumes "till_step t t'" and "till_ok t"
  shows "till_ok t' \<and> (grows (tl_db t) (tl_db t') \<or> (tl_resetting t \<and> all_sent (tl_db t) \<and> tl_db t' = empty_store))"
  using assms
proof (induction rule: till_step.induct)
  case (Till_Serves t d')
  then show ?case using pos_step_inv [of "tl_db t" d']
    by (auto simp: till_ok_def assert_factory_reset_idle_def result_simps)
next
  case (Till_Aligns T date ctx t d')
  then show ?case using align_inv [OF Till_Aligns(1)]
    by (auto simp: till_ok_def all_sent_def grows_refl outbox_keys_def sale_ids_def)
next
  case (Till_Restarts t)
  then show ?case using pos_step_inv [OF step_recover [of "tl_db t"]] by (auto simp: till_ok_def)
next
  case (Till_Reset_Starts T secure held confirmation t t')
  note r = factory_reset_start_Inr [OF Till_Reset_Starts(1)]
  then show ?case using Till_Reset_Starts(2) by (simp add: till_ok_def grows_refl)
next
  case (Till_Reset_Ends t answer moved restored)
  have "grows (tl_db t) (tl_db t)" by (simp add: grows_refl)
  then show ?case using Till_Reset_Ends empty_store_inv
    by (auto simp: till_ok_def factory_reset_finish_def split: sum.splits)
qed

lemma till_run_ok:
  assumes "till_step\<^sup>*\<^sup>* t t'" and "till_ok t"
  shows "till_ok t' \<and> (grows (tl_db t) (tl_db t')
    \<or> (\<exists>u u'. till_step\<^sup>*\<^sup>* t u \<and> till_step u u' \<and> till_step\<^sup>*\<^sup>* u' t' \<and> grows (tl_db t) (tl_db u) \<and> tl_resetting u
         \<and> all_sent (tl_db u) \<and> tl_db u' = empty_store))"
  using assms
proof (induction rule: rtranclp_induct)
  case base
  then show ?case by (simp add: grows_refl)
next
  case (step x y)
  have IH: "till_ok x" using step by blast
  note s = till_step_ok [OF step.hyps(2) IH]
  from step.IH [OF step.prems] show ?case
  proof (elim conjE disjE)
    assume g: "grows (tl_db t) (tl_db x)"
    then show ?thesis using s step.hyps grows_trans [OF g] by blast
  next
    assume "\<exists>u u'. till_step\<^sup>*\<^sup>* t u \<and> till_step u u' \<and> till_step\<^sup>*\<^sup>* u' x \<and> grows (tl_db t) (tl_db u) \<and> tl_resetting u
         \<and> all_sent (tl_db u) \<and> tl_db u' = empty_store"
    then show ?thesis using s rtranclp.rtrancl_into_rtrancl [of till_step, OF _ step.hyps(2)] by blast
  qed
qed

section \<open>Properties\<close>

text \<open>C5: Whatever handlers of the till run, in whatever order, from a store in good order such as a fresh
  installation: every committed sale has exactly one row of the outbox, no two sales share a sequence number, the stored
  counter bounds them all, and no local stock is negative. No handler loses a sale or its upload, except the
  factory reset, which deletes the database; and it does so only when a branch manager typed
  the code of the till and every row of the outbox was answered by the server without warnings, a
  state no handler can change while the reset is waiting for the server.\<close>

theorem local_sales_never_lost:
  assumes "store_inv (tl_db t0)" and "\<not> tl_resetting t0" and "till_step\<^sup>*\<^sup>* t0 t" and "till_step\<^sup>*\<^sup>* t t'"
  shows "store_inv (tl_db t')
    \<and> (sale_ids (tl_db t) \<subseteq> sale_ids (tl_db t') \<and> (\<exists>new. outbox_keys (tl_db t') = outbox_keys (tl_db t) @ new)
       \<or> (\<exists>u u'. till_step\<^sup>*\<^sup>* t u \<and> till_step u u' \<and> till_step\<^sup>*\<^sup>* u' t'
            \<and> sale_ids (tl_db t) \<subseteq> sale_ids (tl_db u) \<and> (\<exists>new. outbox_keys (tl_db u) = outbox_keys (tl_db t) @ new)
            \<and> tl_resetting u \<and> (\<forall>r \<in> set (po_outbox (tl_db u)). ob_status r = Sent) \<and> tl_db u' = empty_store))
    \<and> (\<forall>T secure held confirmation u. factory_reset_start T secure held confirmation t = Inr u \<longrightarrow>
         (\<forall>r \<in> set (po_outbox (tl_db t)). ob_status r = Sent) \<and> held = 0
         \<and> (\<exists>user device. ss_user secure = Some user \<and> ca_role user = ''branch_manager'' \<and> ss_device secure = Some device
              \<and> to_upper (trim (string_or T confirmation [])) = to_upper (trim (dv_terminal_code device))))"
proof -
  have "till_ok t0" using assms(1,2) by (simp add: till_ok_def)
  then have "till_ok t" using till_run_ok [OF assms(3)] by blast
  note run = till_run_ok [OF assms(4) this]
  have r: "(\<forall>r \<in> set (po_outbox (tl_db t)). ob_status r = Sent) \<and> held = 0
         \<and> (\<exists>user device. ss_user secure = Some user \<and> ca_role user = ''branch_manager'' \<and> ss_device secure = Some device
              \<and> to_upper (trim (string_or T confirmation [])) = to_upper (trim (dv_terminal_code device)))"
    if "factory_reset_start T secure held confirmation t = Inr u" for T secure held confirmation u
    using factory_reset_start_Inr(3-5) [OF that] by (simp add: all_sent_def)
  show ?thesis
  proof (intro conjI)
    show "store_inv (tl_db t')" using run by (simp add: till_ok_def)
    show "sale_ids (tl_db t) \<subseteq> sale_ids (tl_db t') \<and> (\<exists>new. outbox_keys (tl_db t') = outbox_keys (tl_db t) @ new)
       \<or> (\<exists>u u'. till_step\<^sup>*\<^sup>* t u \<and> till_step u u' \<and> till_step\<^sup>*\<^sup>* u' t'
            \<and> sale_ids (tl_db t) \<subseteq> sale_ids (tl_db u) \<and> (\<exists>new. outbox_keys (tl_db u) = outbox_keys (tl_db t) @ new)
            \<and> tl_resetting u \<and> (\<forall>r \<in> set (po_outbox (tl_db u)). ob_status r = Sent) \<and> tl_db u' = empty_store)"
      using run unfolding grows_def all_sent_def by blast
  qed (use r in blast)
qed

definition till_numbers :: number_text where
  "till_numbers = \<lparr>text_of_number = (\<lambda>r. if r = of_int \<lfloor>r\<rfloor> then int_string \<lfloor>r\<rfloor> else format_scaled \<lfloor>r * 100\<rfloor> 2),
                   number_of_text = (\<lambda>s. if s \<noteq> [] \<and> list_all is_digit s then Number (of_nat (digits_val s)) else NaN)\<rparr>"

definition till_dates :: "string \<Rightarrow> rat option" where
  "till_dates s = (if s = ''today'' then Some 1 else if s = ''tomorrow'' then Some 2 else None)"

definition till_state :: secure_state where
  "till_state = \<lparr>ss_device = Some \<lparr>dv_branch_id = sample_uuid, dv_terminal_id = ''t'', dv_terminal_code = ''T1'', dv_device_id = ''d''\<rparr>,
     ss_user = Some \<lparr>ca_id = ''u'', ca_name = '' Mona '', ca_role = ''cashier'', ca_branch_id = sample_uuid\<rparr>,
     ss_context = Object [(''context_version'', Number 2), (''session_id'', String ''s''), (''user_id'', String ''u''),
       (''role'', String ''cashier''), (''branch_id'', String sample_uuid), (''terminal_id'', String ''t''),
       (''shift_id'', String ''h''), (''issued_at'', String ''today''), (''expires_at'', String ''tomorrow''),
       (''server_last_sale_sequence'', String ''9'')]\<rparr>"

definition till_sale :: js_value where
  "till_sale = Object
     [(''sync_id'', String sample_uuid), (''branch_id'', String sample_uuid), (''seller_id'', String sample_uuid),
      (''payment_method'', String ''cash''), (''local_total'', Number 5),
      (''items'', Array [Object [(''variant_id'', String sample_uuid), (''qty'', String ''2''), (''unit_price'', Number (5 / 2)),
         (''unit_tax'', Number 0), (''sku'', String ''A1''), (''name_en'', String ''Shirt'')]])]"

definition till_store :: pos_db where
  "till_store = empty_store\<lparr>po_stock := [sample_uuid \<mapsto> 3], po_sellers := [sample_uuid \<mapsto> ''Ali'']\<rparr>"

definition till_validated :: local_sale where
  "till_validated = \<lparr>ls_sync_id = sample_uuid, ls_branch_id = sample_uuid, ls_seller_id = sample_uuid,
     ls_payment_method = ''cash'', ls_customer_phone = None, ls_language = ''ar'', ls_local_total = Number 5,
     ls_items = [\<lparr>si_variant_id = sample_uuid, si_qty = 2, si_unit_price = 5 / 2, si_unit_tax = 0, si_sku = ''A1'',
                  si_name_ar = [], si_name_en = ''Shirt'', si_size = None, si_color = None\<rparr>]\<rparr>"

lemma till_validates: "validate_local_sale_input till_numbers till_sale sample_uuid = Inr till_validated"
  by code_simp

lemma till_commits:
  "\<exists>d'. commit_sale till_numbers number (command_of dv u c n ''10'' now till_validated) (ls_items till_validated) till_store = Inr d'
      \<and> po_stock d' sample_uuid = Some 1"
proof -
  have units: "decimal_to_minor_units (string_of till_numbers (Number 5)) = Inr 500" by code_simp
  show ?thesis
    by (simp add: commit_sale_def till_validated_def till_store_def empty_store_def take_local_stock_def
        command_of_def units Let_def set_meta_def throw_if_def del: string_of.simps)
qed

lemma till_sale_runs:
  "\<exists>r d'. pos_sale till_numbers till_dates till_state ''now'' till_sale till_store = Inr (r, d')
     \<and> sr_sequence r = ''10'' \<and> sr_sync_id r = sample_uuid \<and> \<not> sr_replayed r \<and> po_stock d' sample_uuid = Some 1"
proof -
  have ctx: "sale_context_ok till_numbers till_dates till_state" by code_simp
  have total: "check_total till_numbers (ls_local_total till_validated) (ls_items till_validated) = Inr ()" by code_simp
  have seq: "next_terminal_sequence till_numbers [String ''0'', String ''9''] = Inr ''10''" by code_simp
  have meta: "get_meta till_store ''terminal_sale_sequence'' = ''0''"
    by (simp add: till_store_def empty_store_def get_meta_def)
  have server: "field (ss_context till_state) ''server_last_sale_sequence'' = String ''9''" by code_simp
  obtain device where device: "ss_device till_state = Some device" "dv_branch_id device = sample_uuid"
    by (simp add: till_state_def)
  obtain user where user: "ss_user till_state = Some user" by (simp add: till_state_def)
  have v: "ls_sync_id till_validated = sample_uuid" "ls_seller_id till_validated = sample_uuid"
    by (simp_all add: till_validated_def)
  have row: "po_sellers till_store sample_uuid = Some ''Ali''" "po_sales till_store sample_uuid = None"
    by (simp_all add: till_store_def empty_store_def)
  obtain d' where d': "commit_sale till_numbers (''LOCAL-'' @ dv_terminal_code device @ ''-'' @ ''10'')
      (command_of device user (ss_context till_state) ''Ali'' ''10'' ''now'' till_validated)
      (ls_items till_validated) till_store = Inr d'" "po_stock d' sample_uuid = Some 1"
    using till_commits by blast
  show ?thesis
    unfolding pos_sale_def new_sale_def Let_def device user or_throw_simps and_then_simps till_validates v row option.case
      meta server seq ctx total d' using d'(2) ctx by (simp add: throw_if_def)
qed

lemma till_store_inv: "store_inv till_store"
  by (simp add: store_inv_def till_store_def empty_store_def outbox_keys_def get_meta_def decimal_sequence_def)

text \<open>The manager of the till, and the uploaded sale.\<close>

definition till_manager :: secure_state where
  "till_manager = till_state\<lparr>ss_user := Some \<lparr>ca_id = ''m'', ca_name = ''Amal'', ca_role = ''branch_manager'', ca_branch_id = sample_uuid\<rparr>\<rparr>"

definition till_document :: server_document where
  "till_document = \<lparr>sd_id = Some ''i'', sd_number = Some ''N1'', sd_warnings = []\<rparr>"

definition till_synced :: status_update where
  "till_synced = \<lparr>su_sync_status = ''success'', su_last_sync_at = None, su_catalog_valid_until = None, su_last_error = None\<rparr>"

definition till_uploaded :: "pos_db \<Rightarrow> pos_db" where
  "till_uploaded d = sync_set_status till_synced (sync_mark_sent ''now'' sample_uuid till_document d)"

lemma till_uploaded_sent:
  assumes "outbox_keys d = [(sample_uuid, q)]"
  shows "all_sent (till_uploaded d)" and "get_meta (till_uploaded d) ''sync_status'' = ''success''"
proof -
  obtain r where r: "po_outbox d = [r]" "ob_id r = sample_uuid"
    using assms by (cases "po_outbox d") (auto simp: outbox_keys_def)
  show "all_sent (till_uploaded d)"
    using r by (simp add: all_sent_def till_uploaded_def sync_set_status_def sync_mark_sent_def till_synced_def till_document_def
        clean_warnings_def update_outbox_def Let_def)
  show "get_meta (till_uploaded d) ''sync_status'' = ''success''"
    by (simp add: till_uploaded_def sync_set_status_def till_synced_def Let_def)
qed

lemma till_reset_accepted:
  assumes "outbox_keys d = [(sample_uuid, q)]"
  shows "factory_reset_start till_numbers till_manager 0 (String ''t1 '') \<lparr>tl_db = till_uploaded d, tl_resetting = False\<rparr>
    = Inr \<lparr>tl_db = till_uploaded d, tl_resetting = True\<rparr>"
proof -
  have f: "filter (\<lambda>r. ob_status r \<noteq> Sent) (po_outbox (till_uploaded d)) = []"
    using till_uploaded_sent(1) [OF assms] by (auto simp: all_sent_def filter_empty_conv)
  have t: "to_upper (trim ''t1 '') = ''T1''" "to_upper (trim ''T1'') = ''T1''" by code_simp+
  show ?thesis
    by (simp add: factory_reset_start_def assert_factory_reset_allowed_def factory_reset_status_def current_facts_def Let_def
        f t till_uploaded_sent(2) [OF assms] till_manager_def till_state_def string_or_def or_null_def throw_if_def)
qed

lemma till_reset_runs:
  assumes "outbox_keys d = [(sample_uuid, q)]"
  shows "till_step\<^sup>*\<^sup>* \<lparr>tl_db = d, tl_resetting = False\<rparr> \<lparr>tl_db = empty_store, tl_resetting = False\<rparr>"
proof -
  let ?d1 = "sync_mark_sent ''now'' sample_uuid till_document d"
  note c = converse_rtranclp_into_rtranclp [of till_step]
  have s1: "till_step \<lparr>tl_db = d, tl_resetting = False\<rparr> \<lparr>tl_db = ?d1, tl_resetting = False\<rparr>"
    using Till_Serves [of "\<lparr>tl_db = d, tl_resetting = False\<rparr>"] step_sent by (simp add: assert_factory_reset_idle_def throw_if_def)
  have s2: "till_step \<lparr>tl_db = ?d1, tl_resetting = False\<rparr> \<lparr>tl_db = till_uploaded d, tl_resetting = False\<rparr>"
    using Till_Serves [of "\<lparr>tl_db = ?d1, tl_resetting = False\<rparr>"] step_status
    by (simp add: assert_factory_reset_idle_def throw_if_def till_uploaded_def)
  have s3: "till_step \<lparr>tl_db = till_uploaded d, tl_resetting = False\<rparr> \<lparr>tl_db = till_uploaded d, tl_resetting = True\<rparr>"
    by (rule Till_Reset_Starts [OF till_reset_accepted [OF assms]])
  have s4: "till_step \<lparr>tl_db = till_uploaded d, tl_resetting = True\<rparr> \<lparr>tl_db = empty_store, tl_resetting = False\<rparr>"
    using Till_Reset_Ends [of "\<lparr>tl_db = till_uploaded d, tl_resetting = True\<rparr>" "Inr ()" True True]
    by (simp add: factory_reset_finish_def)
  show ?thesis by (rule c [OF s1 c [OF s2 c [OF s3 c [OF s4 rtranclp.rtrancl_refl]]]])
qed

text \<open>A sale is committed and uploaded, and then the till is reset.\<close>

theorem local_sales_never_lost_witness:
  "\<exists>r d. pos_sale till_numbers till_dates till_state ''now'' till_sale till_store = Inr (r, d)
     \<and> sale_ids d = {sample_uuid} \<and> outbox_keys d = [(sample_uuid, ''10'')]
     \<and> till_step\<^sup>*\<^sup>* \<lparr>tl_db = d, tl_resetting = False\<rparr> \<lparr>tl_db = empty_store, tl_resetting = False\<rparr>
     \<and> (\<exists>u. till_step\<^sup>*\<^sup>* \<lparr>tl_db = d, tl_resetting = False\<rparr> u \<and> sample_uuid \<in> sale_ids (tl_db u) \<and> tl_resetting u
            \<and> (\<forall>r \<in> set (po_outbox (tl_db u)). ob_status r = Sent))"
proof -
  obtain r d where s: "pos_sale till_numbers till_dates till_state ''now'' till_sale till_store = Inr (r, d)"
    "sr_sequence r = ''10''" "sr_sync_id r = sample_uuid" "\<not> sr_replayed r"
    using till_sale_runs by blast
  let ?t = "\<lambda>d. \<lparr>tl_db = d, tl_resetting = False\<rparr>"
  have e: "outbox_keys till_store = []" "sale_ids till_store = {}"
    by (simp_all add: till_store_def empty_store_def outbox_keys_def sale_ids_def)
  have d: "sale_ids d = {sample_uuid}" "outbox_keys d = [(sample_uuid, ''10'')]"
    using pos_sale_effect [OF s(1) till_store_inv] s(2-4) e by (auto simp: sale_effect_def)
  have run: "till_step\<^sup>*\<^sup>* (?t d) (?t empty_store)" by (rule till_reset_runs [OF d(2)])
  have "till_step (?t till_store) (?t d)"
    using Till_Serves [of "?t till_store"] step_sale [OF s(1)] by (simp add: assert_factory_reset_idle_def throw_if_def)
  then have "till_step\<^sup>*\<^sup>* (?t till_store) (?t d)" by (rule r_into_rtranclp)
  note l = local_sales_never_lost [OF _ _ this run]
  have "sale_ids (tl_db (?t empty_store)) = {}" by (simp add: sale_ids_def empty_store_def)
  then have "\<exists>u. till_step\<^sup>*\<^sup>* (?t d) u \<and> sample_uuid \<in> sale_ids (tl_db u) \<and> tl_resetting u
      \<and> (\<forall>r \<in> set (po_outbox (tl_db u)). ob_status r = Sent)"
    using l till_store_inv d(1) by auto
  then show ?thesis using s(1) d run by blast
qed

text \<open>
  A sale the server answered with a warning is \<open>sent_with_warning\<close>, not \<open>sent\<close>: it stays among the unresolved operations,
  though nothing is left to synchronise, and the till can no longer be reset.
\<close>

lemma warned_sale_blocks_reset:
  assumes "r \<in> set (po_outbox (tl_db t))" and "ob_status r = Sent_With_Warning"
  shows "factory_reset_start T secure held confirmation t \<noteq> Inr t'"
  using factory_reset_start_Inr(3) [of T secure held confirmation t t'] assms by (auto simp: all_sent_def)



end
