(* ===== verification/Pos_Sync.thy ===== *)
theory Pos_Sync
  imports Pos_Store Sync_Policy Update_Policy
begin

text \<open>
  \<open>pos-electron/src/sync.ts\<close>: one synchronisation of the till with the backend. Committed sales go
  first, then the compatibility check, then the catalog pages.

  The backend is a parameter: a record of operations on a world that holds the local store, the
  backend and the clock. The store is in the world because the cashier keeps working while an
  answer is awaited: an operation may return a store that other handlers have changed. Instants are
  milliseconds; the texts shown to the cashier are left out.
\<close>

section \<open>The backend and the state of a synchronisation\<close>

record sync_state =
  st_sync_status :: string
  st_last_sync_at :: "string option"
  st_last_error :: "string option"
  st_pending_count :: nat
  st_quarantined_count :: nat
  st_next_sync_at :: "int option"
  st_blocked_reason :: "string option"
  st_sync_cursor :: "string option"
  st_catalog_valid_until :: "string option"
  st_app_version :: string
  st_backend_version :: string
  st_api_protocol :: int

record 'n backend =
  be_sale :: "sale_command \<Rightarrow> js_value \<Rightarrow> pos_db \<times> 'n \<Rightarrow> (sync_error + js_value) \<times> (pos_db \<times> 'n)"
  be_compatibility :: "pos_db \<times> 'n \<Rightarrow> (sync_error + js_value) \<times> (pos_db \<times> 'n)"
  be_heartbeat :: "sync_state \<Rightarrow> pos_db \<times> 'n \<Rightarrow> (sync_error + unit) \<times> (pos_db \<times> 'n)"
  be_pull :: "string \<Rightarrow> string option \<Rightarrow> pos_db \<times> 'n \<Rightarrow> (sync_error + js_value) \<times> (pos_db \<times> 'n)"
  be_now :: "'n \<Rightarrow> int"
  be_now_text :: "'n \<Rightarrow> string"
  be_instant :: "string \<Rightarrow> int option"
  be_product_ids :: "pos_db \<Rightarrow> string list"
  be_numbers :: number_text
  be_host :: update_host
  be_protocol :: int
  be_version :: string

text \<open>\<open>sync:get_status\<close>\<close>

definition count_status :: "outbox_status set \<Rightarrow> pos_db \<Rightarrow> nat" where
  "count_status S d = length (filter (\<lambda>r. ob_status r \<in> S) (po_outbox d))"

definition sync_get_status :: "'n backend \<Rightarrow> pos_db \<Rightarrow> sync_state" where
  "sync_get_status B d =
     (let refresh = catalog_needs_full_refresh (be_product_ids B d) d in
      \<lparr>st_sync_status = (if get_meta d ''sync_status'' = [] then ''never'' else get_meta d ''sync_status''),
       st_last_sync_at = blank_none (get_meta d ''last_sync_at''),
       st_last_error = blank_none (get_meta d ''last_error''),
       st_pending_count = count_status {Pending, Sending} d,
       st_quarantined_count = count_status {Quarantined} d,
       st_next_sync_at = None, st_blocked_reason = None,
       st_sync_cursor = (if refresh then None else blank_none (get_meta d ''sync_cursor'')),
       st_catalog_valid_until = (if refresh then None else blank_none (get_meta d ''catalog_valid_until'')),
       st_app_version = be_version B, st_backend_version = [], st_api_protocol = 0\<rparr>)"

definition status_of :: "sync_state \<Rightarrow> status_update" where
  "status_of s = \<lparr>su_sync_status = st_sync_status s, su_last_sync_at = st_last_sync_at s,
                  su_catalog_valid_until = Some (st_catalog_valid_until s), su_last_error = st_last_error s\<rparr>"

definition put_status :: "sync_state \<Rightarrow> pos_db \<times> 'n \<Rightarrow> pos_db \<times> 'n" where
  "put_status s w = (sync_set_status (status_of s) (fst w), snd w)"

text \<open>A heartbeat whose failure is ignored.\<close>

definition heartbeat :: "'n backend \<Rightarrow> sync_state \<Rightarrow> pos_db \<times> 'n \<Rightarrow> pos_db \<times> 'n" where
  "heartbeat B s w = snd (be_heartbeat B s w)"

definition due_at :: "'n backend \<Rightarrow> int \<Rightarrow> outbox_row \<Rightarrow> rat" where
  "due_at B now r =
     outbox_item_due_at (ob_id r) (ob_attempts r)
       (case ob_last_attempt_at r of None \<Rightarrow> None | Some t \<Rightarrow> be_instant B t) now"

definition min_due :: "'n backend \<Rightarrow> int \<Rightarrow> outbox_row list \<Rightarrow> rat" where
  "min_due B now rows = (case rows of [] \<Rightarrow> 0 | r # rs \<Rightarrow> foldr min (map (due_at B now) rs) (due_at B now r))"

section \<open>Uploading the outbox\<close>

text \<open>The fields of the answer that are kept.\<close>

definition document_field :: "number_text \<Rightarrow> js_value \<Rightarrow> string \<Rightarrow> string option" where
  "document_field T result k = (if truthy_value (field result k) then Some (string_of T (field result k)) else None)"

definition server_document_of :: "number_text \<Rightarrow> js_value \<Rightarrow> server_document" where
  "server_document_of T result =
     \<lparr>sd_id = document_field T result ''id'', sd_number = document_field T result ''invoice_number'',
      sd_warnings = (case field result ''warning_codes'' of
                       Array ws \<Rightarrow> map (\<lambda>w. string_or T w []) ws | _ \<Rightarrow> [])\<rparr>"

text \<open>\<open>Number(item.local_total ?? stored.local_total ?? 0)\<close>: the stored cents of the joined sale.\<close>

definition upload_total :: "'n backend \<Rightarrow> pos_db \<Rightarrow> outbox_row \<Rightarrow> js_value" where
  "upload_total B d r =
     (case po_sales d (ob_id r) of
        Some s \<Rightarrow> Number (of_int (lr_total_minor_units s) / 100)
      | None \<Rightarrow> (case sc_local_total (ob_payload r) of
                    Undefined \<Rightarrow> Number 0 | Null \<Rightarrow> Number 0 | v \<Rightarrow> number_of (be_numbers B) v))"

text \<open>The body of the \<open>try\<close> block: the error it ends with, if any, and the world.\<close>

definition try_upload :: "'n backend \<Rightarrow> outbox_row \<Rightarrow> js_value \<Rightarrow> pos_db \<times> 'n \<Rightarrow> sync_error option \<times> (pos_db \<times> 'n)" where
  "try_upload B r amount w =
     (case sync_mark_sending (be_now_text B (snd w)) (ob_id r) (fst w) of
        Inl e \<Rightarrow> (Some Other_Error, w)
      | Inr d1 \<Rightarrow>
          (case be_sale B (ob_payload r) amount (d1, snd w) of
             (Inl e, w2) \<Rightarrow> (Some e, w2)
           | (Inr result, w2) \<Rightarrow>
               (None, (sync_mark_sent (be_now_text B (snd w2)) (ob_id r) (server_document_of (be_numbers B) result) (fst w2),
                       snd w2))))"

definition sync_status_for_failure :: "decision \<Rightarrow> string" where
  "sync_status_for_failure d = (if de_class d = Network then ''offline'' else ''error'')"

text \<open>
  The loop over the due operations. \<open>Some state\<close> is the early return after a failure that is to be
  retried; a failure that is not leaves the operation quarantined and goes on. The total to send
  was read with the outbox.
\<close>

fun upload_all :: "'n backend \<Rightarrow> sync_state \<Rightarrow> (outbox_row \<times> js_value) list \<Rightarrow> pos_db \<times> 'n
    \<Rightarrow> sync_state option \<times> (pos_db \<times> 'n)" where
  "upload_all B state [] w = (None, w)"
| "upload_all B state ((r, amount) # rs) w =
     (case try_upload B r amount w of
        (None, w1) \<Rightarrow> upload_all B state rs w1
      | (Some e, w1) \<Rightarrow>
          (let decision = classify_sync_error e (ob_attempts r + 1) (be_now B (snd w1)) (ob_id r);
               w2 = (sync_mark_failed (ob_id r) ''error'' (de_retryable decision) (fst w1), snd w1) in
           if \<not> de_retryable decision then upload_all B state rs w2
           else
             (let failed = state\<lparr>st_sync_status := sync_status_for_failure decision, st_last_error := Some ''error'',
                    st_pending_count := st_pending_count (sync_get_status B (fst w2)),
                    st_next_sync_at := de_next_attempt_at decision,
                    st_blocked_reason := de_blocked_reason decision\<rparr>
              in (Some failed, heartbeat B failed (put_status failed w2)))))"

section \<open>Pulling the catalog\<close>

text \<open>\<open>BigInt(text)\<close>: decimal with an optional sign, or an unsigned literal with a base prefix.\<close>

definition base_digit :: "nat \<Rightarrow> char \<Rightarrow> nat option" where
  "base_digit b c =
     (let n = (of_char c :: nat);
          v = (if is_digit c then n - 48 else if 97 \<le> n \<and> n \<le> 122 then n - 87 else if 65 \<le> n \<and> n \<le> 90 then n - 55 else 99)
      in if v < b then Some v else None)"

definition base_value :: "nat \<Rightarrow> string \<Rightarrow> int option" where
  "base_value b s =
     (if s = [] then None
      else map_option int (fold (\<lambda>c acc. case (acc, base_digit b c) of (Some a, Some v) \<Rightarrow> Some (a * b + v) | _ \<Rightarrow> None) s (Some 0)))"

definition bigint_of :: "string \<Rightarrow> int option" where
  "bigint_of text =
     (let s = trim text; prefix = to_lower (take 2 s) in
      if s = [] then Some 0
      else if prefix = ''0x'' then base_value 16 (drop 2 s)
      else if prefix = ''0o'' then base_value 8 (drop 2 s)
      else if prefix = ''0b'' then base_value 2 (drop 2 s)
      else if hd s = CHR ''-'' then map_option uminus (base_value 10 (tl s))
      else if hd s = CHR ''+'' then base_value 10 (tl s)
      else base_value 10 s)"

definition cursor_transition_is_valid :: "string option \<Rightarrow> string option \<Rightarrow> bool \<Rightarrow> bool" where
  "cursor_transition_is_valid current nxt has_more =
     (case nxt of
        None \<Rightarrow> False
      | Some n \<Rightarrow>
          (case bigint_of n of
             None \<Rightarrow> False
           | Some next_value \<Rightarrow>
               if next_value < 0 then False
               else (case current of
                       None \<Rightarrow> \<not> has_more
                     | Some c \<Rightarrow>
                         (case bigint_of c of
                            None \<Rightarrow> False
                          | Some current_value \<Rightarrow>
                              if has_more then next_value > current_value else next_value \<ge> current_value))))"

text \<open>The page as it is applied: an intermediate one clears the validity of the catalog.\<close>

definition page_to_apply :: "js_value \<Rightarrow> js_value" where
  "page_to_apply response =
     (let valid = (if truthy_value (field response ''has_more'') then Null else field response ''catalog_valid_until'')
      in case response of
           Object fs \<Rightarrow> Object (fs @ [(''catalog_valid_until'', valid)])
         | _ \<Rightarrow> Object [(''catalog_valid_until'', valid)])"

definition next_cursor :: "number_text \<Rightarrow> string option \<Rightarrow> js_value \<Rightarrow> string option" where
  "next_cursor T cursor response =
     (case field response ''cursor'' of
        Undefined \<Rightarrow> cursor | Null \<Rightarrow> cursor | v \<Rightarrow> Some (string_of T v))"

definition max_sync_pull_pages :: nat where
  "max_sync_pull_pages = 100"

text \<open>The loop \<open>while (true)\<close>, with the number of pages it may still pull.\<close>

fun pull_pages :: "nat \<Rightarrow> 'n backend \<Rightarrow> string \<Rightarrow> string option \<Rightarrow> pos_db \<times> 'n
    \<Rightarrow> (sync_error + (string option \<times> js_value)) \<times> (pos_db \<times> 'n)" where
  "pull_pages 0 B branch cursor w = (Inl Integrity_Error, w)"
| "pull_pages (Suc left) B branch cursor w =
     (case be_pull B branch cursor w of
        (Inl e, w1) \<Rightarrow> (Inl e, w1)
      | (Inr response, w1) \<Rightarrow>
          if response = Undefined \<or> response = Null then (Inl Other_Error, w1)
          else
            (let nxt = next_cursor (be_numbers B) cursor response; has_more = truthy_value (field response ''has_more'') in
             if \<not> cursor_transition_is_valid cursor nxt has_more then (Inl Integrity_Error, w1)
             else
               (case sync_apply_pull (be_numbers B) (be_product_ids B (fst w1)) (page_to_apply response) (fst w1) of
                  Inl e \<Rightarrow> (Inl Other_Error, w1)
                | Inr d2 \<Rightarrow>
                    if \<not> has_more then (Inr (nxt, response), (d2, snd w1))
                    else pull_pages left B branch nxt (d2, snd w1))))"

section \<open>One synchronisation\<close>

text \<open>Everything after the uploads.\<close>

definition sync_catalog :: "'n backend \<Rightarrow> string \<Rightarrow> sync_state \<Rightarrow> pos_db \<times> 'n
    \<Rightarrow> (sync_error + sync_state) \<times> (pos_db \<times> 'n)" where
  "sync_catalog B branch state w =
     (let local_status = sync_get_status B (fst w) in
      case be_compatibility B w of
        (Inl e, w1) \<Rightarrow>
          (Inl (case e of
                  Api_Error code status after \<Rightarrow>
                    if status = Some 404 then Compatibility_Error ''POS_BACKEND_TOO_OLD'' else e
                | _ \<Rightarrow> e), w1)
      | (Inr payload, w1) \<Rightarrow>
          (case assert_pos_compatibility (be_host B) (be_protocol B) payload (st_app_version state) of
             Inl e \<Rightarrow> (Inl (Compatibility_Error (case e of JsError code \<Rightarrow> code | _ \<Rightarrow> [])), w1)
           | Inr compatible \<Rightarrow>
               (let state1 = state\<lparr>st_backend_version := cb_backend_version compatible,
                                   st_api_protocol := cb_protocol compatible\<rparr> in
                case be_heartbeat B state1 w1 of
                  (Inl e, w2) \<Rightarrow> (Inl e, w2)
                | (Inr _, w2) \<Rightarrow>
                    (case pull_pages max_sync_pull_pages B branch (or_null (st_sync_cursor state1)) w2 of
                       (Inl e, w3) \<Rightarrow> (Inl e, w3)
                     | (Inr (cursor, response), w3) \<Rightarrow>
                         (let T = be_numbers B;
                              completed = state1\<lparr>st_sync_status := ''success'',
                                st_last_sync_at := Some (string_or T (field response ''server_time'') (be_now_text B (snd w3))),
                                st_last_error := (if st_quarantined_count local_status > 0 then Some ''quarantined'' else None),
                                st_pending_count := 0, st_quarantined_count := st_quarantined_count local_status,
                                st_next_sync_at := None, st_blocked_reason := None, st_sync_cursor := cursor,
                                st_catalog_valid_until :=
                                  (if truthy_value (field response ''catalog_valid_until'')
                                   then Some (string_of T (field response ''catalog_valid_until''))
                                   else or_null (st_catalog_valid_until state1))\<rparr>;
                              w4 = put_status completed w3 in
                          case be_heartbeat B completed w4 of
                            (Inl e, w5) \<Rightarrow> (Inl e, w5)
                          | (Inr _, w5) \<Rightarrow> (Inr completed, w5))))))"

definition sync_begun :: "'n backend \<Rightarrow> pos_db \<Rightarrow> sync_state" where
  "sync_begun B d = (sync_get_status B d)\<lparr>st_sync_status := ''syncing'', st_last_error := None,
                      st_next_sync_at := None, st_blocked_reason := None\<rparr>"

definition perform_sync :: "'n backend \<Rightarrow> string \<Rightarrow> bool \<Rightarrow> pos_db \<times> 'n \<Rightarrow> (sync_error + sync_state) \<times> (pos_db \<times> 'n)" where
  "perform_sync B branch force w =
     (let state = sync_begun B (fst w);
          d1 = sync_set_status \<lparr>su_sync_status = ''syncing'', su_last_sync_at = None,
                 su_catalog_valid_until = None, su_last_error = None\<rparr> (fst w);
          w1 = (d1, snd w);
          outbox = sync_get_outbox d1;
          now = be_now B (snd w);
          due = filter (\<lambda>r. force \<or> due_at B now r \<le> of_int now) outbox in
      if outbox \<noteq> [] \<and> due = [] then
        (let waiting = state\<lparr>st_sync_status := ''error'', st_last_error := Some ''waiting'',
               st_pending_count := length outbox, st_next_sync_at := Some \<lfloor>min_due B now outbox\<rfloor>,
               st_blocked_reason := None\<rparr>
         in (Inr waiting, heartbeat B waiting (put_status waiting w1)))
      else
        (case upload_all B state (map (\<lambda>r. (r, upload_total B d1 r)) due) w1 of
           (Some failed, w2) \<Rightarrow> (Inr failed, w2)
         | (None, w2) \<Rightarrow>
             (let remaining = sync_get_outbox (fst w2) in
              if remaining \<noteq> [] then
                (let remaining_now = be_now B (snd w2);
                     pending = state\<lparr>st_sync_status := ''error'', st_last_error := Some ''pending'',
                       st_pending_count := length remaining,
                       st_next_sync_at := Some \<lfloor>max (of_int (remaining_now + 1000)) (min_due B remaining_now remaining)\<rfloor>,
                       st_blocked_reason := None\<rparr>
                 in (Inr pending, heartbeat B pending (put_status pending w2)))
              else sync_catalog B branch state w2)))"

section \<open>What a synchronisation leaves\<close>

definition row_ids :: "outbox_status set \<Rightarrow> pos_db \<Rightarrow> string set" where
  "row_ids S d = {ob_id r | r. r \<in> set (po_outbox d) \<and> ob_status r \<in> S}"

definition extends :: "pos_db \<Rightarrow> pos_db \<Rightarrow> bool" where
  "extends d d' \<longleftrightarrow> (\<exists>new. po_outbox d' = po_outbox d @ new)"

text \<open>While an answer is awaited, the other handlers only commit new sales.\<close>

definition quiet :: "pos_db \<Rightarrow> pos_db \<Rightarrow> bool" where
  "quiet d d' \<longleftrightarrow> (\<exists>new. po_outbox d' = po_outbox d @ new \<and> (\<forall>r \<in> set new. ob_status r = Pending))
                \<and> (store_inv d \<longrightarrow> store_inv d')"

lemma quiet_refl [simp]: "quiet d d"
  by (simp add: quiet_def)

lemma quiet_sale:
  assumes "pos_sale T date secure now sale d = Inr (r, d')" and "store_inv d"
  shows "quiet d d'"
  using assms(1)
proof (cases rule: pos_sale_cases)
  case (committed device v name user sequence invoice_number)
  have "decimal_sequence sequence" using next_sequence_fresh [OF committed(7)] by simp
  then have "po_outbox d' = po_outbox d @ [outbox_row_of (command_of device user (ss_context secure) name sequence now v)]"
    using commit_sale_effect(4) [OF committed(8) assms(2)] next_sequence_fresh [OF committed(7)] by simp
  then show ?thesis using pos_sale_effect [OF assms] by (simp add: quiet_def outbox_row_of_def)
qed simp

lemma quiet_extends: "quiet d d' \<Longrightarrow> extends d d'"
  by (auto simp: quiet_def extends_def)

lemma extends_refl [simp]: "extends d d"
  by (simp add: extends_def)

lemma extends_trans: "extends d d' \<Longrightarrow> extends d' d'' \<Longrightarrow> extends d d''"
  by (auto simp: extends_def)

lemma quiet_sending: "quiet d d' \<Longrightarrow> row_ids {Sending} d' = row_ids {Sending} d"
  by (auto simp: quiet_def row_ids_def)

lemma put_status_simps [simp]: "snd (put_status s w) = snd w" "po_outbox (fst (put_status s w)) = po_outbox (fst w)"
  "store_inv (fst w) \<Longrightarrow> store_inv (fst (put_status s w))"
proof -
  note k = set_status_kept [of "fst w" "status_of s"]
  show "snd (put_status s w) = snd w" "po_outbox (fst (put_status s w)) = po_outbox (fst w)"
    using k by (simp_all add: put_status_def sales_kept_def)
  assume i: "store_inv (fst w)"
  then have "stock_nonneg (sync_set_status (status_of s) (fst w))" using k by (simp add: stock_nonneg_def store_inv_def)
  with k i sales_kept_inv show "store_inv (fst (put_status s w))" by (simp add: put_status_def)
qed

text \<open>An upload may leave its row in flight only until its outcome is recorded.\<close>

lemma mark_sending_rows: "sync_mark_sending now i d = Inr d' \<Longrightarrow> row_ids {Sending} d' \<subseteq> insert i (row_ids {Sending} d)"
  by (auto simp: sync_mark_sending_def row_ids_def update_outbox_def split: if_splits)

lemma update_rows:
  assumes "\<And>r. ob_id (f r) = ob_id r" and "\<And>r. ob_status (f r) \<notin> S"
  shows "row_ids S (update_outbox (\<lambda>r. ob_id r = i) f d) \<subseteq> row_ids S d - {i}"
proof
  fix x
  assume "x \<in> row_ids S (update_outbox (\<lambda>r. ob_id r = i) f d)"
  then obtain r where r: "r \<in> set (po_outbox d)" "x = ob_id (if ob_id r = i then f r else r)"
    "ob_status (if ob_id r = i then f r else r) \<in> S"
    unfolding row_ids_def update_outbox_def by (auto simp del: if_split)
  show "x \<in> row_ids S d - {i}"
  proof (cases "ob_id r = i")
    case True
    with r(3) assms(2) [of r] show ?thesis by simp
  next
    case False
    with r show ?thesis by (auto simp: row_ids_def)
  qed
qed

lemma mark_sent_rows: "row_ids {Sending} (sync_mark_sent now i doc d) \<subseteq> row_ids {Sending} d - {i}"
proof -
  let ?s = "if clean_warnings (sd_warnings doc) = [] then Sent else Sent_With_Warning"
  let ?f = "\<lambda>r. r\<lparr>ob_status := ?s, ob_document_id := or_null (sd_id doc), ob_document_number := or_null (sd_number doc),
      ob_warnings := clean_warnings (sd_warnings doc), ob_last_error := None\<rparr>"
  have "row_ids {Sending} (sync_mark_sent now i doc d) = row_ids {Sending} (update_outbox (\<lambda>r. ob_id r = i) ?f d)"
    by (simp add: sync_mark_sent_def Let_def row_ids_def)
  moreover have "row_ids {Sending} (update_outbox (\<lambda>r. ob_id r = i) ?f d) \<subseteq> row_ids {Sending} d - {i}"
    by (rule update_rows) simp_all
  ultimately show ?thesis by simp
qed

lemma mark_failed_rows: "row_ids {Sending} (sync_mark_failed i m r d) \<subseteq> row_ids {Sending} d - {i}"
  unfolding sync_mark_failed_def by (rule update_rows) simp_all

definition kept :: "pos_db \<Rightarrow> pos_db \<Rightarrow> bool" where
  "kept d d' \<longleftrightarrow> store_inv d' \<and> row_ids {Sending} d' \<subseteq> row_ids {Sending} d \<and> row_ids UNIV d \<subseteq> row_ids UNIV d'"

lemma kept_trans: "kept d d' \<Longrightarrow> kept d' d'' \<Longrightarrow> kept d d''"
  by (auto simp: kept_def)

lemma row_ids_grow: "outbox_keys d' = outbox_keys d @ new \<Longrightarrow> row_ids UNIV d \<subseteq> row_ids UNIV d'"
proof -
  assume k: "outbox_keys d' = outbox_keys d @ new"
  have "row_ids UNIV x = fst ` set (outbox_keys x)" for x by (auto simp: row_ids_def outbox_keys_def image_iff)
  then show ?thesis by (auto simp: k)
qed

lemma row_ids_step: "pos_step d d' \<Longrightarrow> store_inv d \<Longrightarrow> row_ids UNIV d \<subseteq> row_ids UNIV d' \<and> store_inv d'"
  using pos_step_inv [of d d'] row_ids_grow by (auto simp: grows_def)

lemma quiet_kept: "quiet d d' \<Longrightarrow> store_inv d \<Longrightarrow> kept d d'"
  using quiet_sending [of d d'] by (auto simp: kept_def quiet_def row_ids_def)

text \<open>What the till relies on of the operations of a backend.\<close>

locale quiet_backend =
  fixes B :: "'n backend"
  assumes sale_quiet: "be_sale B c t w = (res, w') \<Longrightarrow> quiet (fst w) (fst w')"
    and compatibility_quiet: "be_compatibility B w = (res', w') \<Longrightarrow> quiet (fst w) (fst w')"
    and heartbeat_quiet: "be_heartbeat B s w = (res'', w') \<Longrightarrow> quiet (fst w) (fst w')"
    and pull_quiet: "be_pull B branch cursor w = (res', w') \<Longrightarrow> quiet (fst w) (fst w')"
begin

lemma heartbeat_kept: "quiet (fst w) (fst (heartbeat B s w))"
  unfolding heartbeat_def by (metis heartbeat_quiet surjective_pairing)

text \<open>The world after an upload: in flight are at most the rows that were and, after a failure, this one.\<close>

lemma try_upload_kept:
  assumes u: "try_upload B r amount w = (res, w')" and inv: "store_inv (fst w)"
  shows "store_inv (fst w')" and "row_ids UNIV (fst w) \<subseteq> row_ids UNIV (fst w')"
    and "row_ids {Sending} (fst w') \<subseteq> insert (ob_id r) (row_ids {Sending} (fst w))"
    and "res = None \<Longrightarrow> row_ids {Sending} (fst w') \<subseteq> row_ids {Sending} (fst w)"
proof -
  have "store_inv (fst w') \<and> row_ids UNIV (fst w) \<subseteq> row_ids UNIV (fst w')
    \<and> row_ids {Sending} (fst w') \<subseteq> insert (ob_id r) (row_ids {Sending} (fst w))
    \<and> (res = None \<longrightarrow> row_ids {Sending} (fst w') \<subseteq> row_ids {Sending} (fst w))"
  proof (cases "sync_mark_sending (be_now_text B (snd w)) (ob_id r) (fst w)")
    case (Inl e)
    with u inv show ?thesis by (auto simp: try_upload_def)
  next
    case (Inr d1)
    note a = row_ids_step [OF step_sending [OF Inr] inv] mark_sending_rows [OF Inr]
    obtain res2 w2 where b: "be_sale B (ob_payload r) amount (d1, snd w) = (res2, w2)" by (cases "be_sale B (ob_payload r) amount (d1, snd w)")
    note q = sale_quiet [OF b, simplified]
    have k: "kept d1 (fst w2)" using quiet_kept [OF q] a by simp
    show ?thesis
    proof (cases res2)
      case (Inl e)
      with u Inr b k a show ?thesis by (auto simp: try_upload_def kept_def)
    next
      case (Inr result)
      let ?d = "sync_mark_sent (be_now_text B (snd w2)) (ob_id r) (server_document_of (be_numbers B) result) (fst w2)"
      have w': "w' = (?d, snd w2)" "res = None"
        using u Inr b \<open>sync_mark_sending _ _ _ = Inr d1\<close> by (simp_all add: try_upload_def)
      have s: "row_ids {Sending} ?d \<subseteq> row_ids {Sending} (fst w2) - {ob_id r}" by (rule mark_sent_rows)
      have "store_inv (fst w2)" using k by (simp add: kept_def)
      with row_ids_step [OF step_sent] have "row_ids UNIV (fst w2) \<subseteq> row_ids UNIV ?d \<and> store_inv ?d" .
      then show ?thesis unfolding w' fst_conv using s k [unfolded kept_def] a w'(2) by blast
    qed
  qed
  then show "store_inv (fst w')" "row_ids UNIV (fst w) \<subseteq> row_ids UNIV (fst w')"
    "row_ids {Sending} (fst w') \<subseteq> insert (ob_id r) (row_ids {Sending} (fst w))"
    "res = None \<Longrightarrow> row_ids {Sending} (fst w') \<subseteq> row_ids {Sending} (fst w)" by blast+
qed

lemma upload_failed_kept:
  assumes u: "try_upload B r amount w = (res, w')" and inv: "store_inv (fst w)"
  shows "kept (fst w) (sync_mark_failed (ob_id r) m b (fst w'))"
proof -
  note t = try_upload_kept [OF u inv]
  have "row_ids UNIV (fst w') \<subseteq> row_ids UNIV (sync_mark_failed (ob_id r) m b (fst w')) \<and> store_inv (sync_mark_failed (ob_id r) m b (fst w'))"
    by (rule row_ids_step [OF step_failed t(1)])
  with t mark_failed_rows [of "ob_id r" m b "fst w'"] show ?thesis by (auto simp: kept_def)
qed

lemma upload_all_kept:
  "upload_all B state rows w = (res, w') \<Longrightarrow> store_inv (fst w) \<Longrightarrow> kept (fst w) (fst w')"
proof (induction rows arbitrary: w)
  case Nil
  then show ?case by (simp add: kept_def)
next
  case (Cons p rows)
  obtain r amount where p: "p = (r, amount)" by (cases "p")
  obtain x w1 where u: "try_upload B r amount w = (x, w1)" by (cases "try_upload B r amount w")
  note t = try_upload_kept [OF u Cons.prems(2)]
  show ?case
  proof (cases x)
    case None
    then have "kept (fst w) (fst w1)" using t by (simp add: kept_def)
    moreover have "kept (fst w1) (fst w')" using Cons.IH [of w1] Cons.prems(1) u None p t(1) by simp
    ultimately show ?thesis by (rule kept_trans)
  next
    case (Some e)
    let ?dec = "classify_sync_error e (ob_attempts r + 1) (be_now B (snd w1)) (ob_id r)"
    let ?w2 = "(sync_mark_failed (ob_id r) ''error'' (de_retryable ?dec) (fst w1), snd w1)"
    have k: "kept (fst w) (fst ?w2)" using upload_failed_kept [OF u Cons.prems(2)] by simp
    show ?thesis
    proof (cases "de_retryable ?dec")
      case False
      then have "upload_all B state rows ?w2 = (res, w')" using Cons.prems(1) u Some p by (simp add: Let_def)
      then have "kept (fst ?w2) (fst w')" by (rule Cons.IH) (use k in \<open>simp add: kept_def\<close>)
      with k show ?thesis by (rule kept_trans)
    next
      case True
      then obtain s where w': "w' = heartbeat B s (put_status s ?w2)" using Cons.prems(1) u Some p by (auto simp: Let_def)
      have "store_inv (fst (put_status s ?w2))" using k by (simp add: kept_def)
      then have "kept (fst (put_status s ?w2)) (fst w')" using heartbeat_kept quiet_kept w' by blast
      moreover have "kept (fst ?w2) (fst (put_status s ?w2))"
        using k put_status_simps(2,3) [where s = s and w = ?w2] by (auto simp: kept_def row_ids_def)
      ultimately show ?thesis using k kept_trans by blast
    qed
  qed
qed

lemma pull_pages_extends:
  "pull_pages left B branch cursor w = (res, w') \<Longrightarrow> store_inv (fst w) \<Longrightarrow> extends (fst w) (fst w') \<and> store_inv (fst w')"
proof (induction left arbitrary: cursor w)
  case (Suc left)
  obtain x w1 where x: "be_pull B branch cursor w = (x, w1)" by (cases "be_pull B branch cursor w")
  note q = pull_quiet [OF x]
  have i1: "store_inv (fst w1)" "extends (fst w) (fst w1)" using q Suc.prems(2) quiet_extends by (auto simp: quiet_def)
  show ?case
  proof (cases x)
    case (Inl e)
    with Suc.prems x i1 show ?thesis by auto
  next
    case (Inr response)
    let ?nxt = "next_cursor (be_numbers B) cursor response" and ?more = "truthy_value (field response ''has_more'')"
    let ?pull = "sync_apply_pull (be_numbers B) (be_product_ids B (fst w1)) (page_to_apply response) (fst w1)"
    show ?thesis
    proof (cases "\<exists>d2. ?pull = Inr d2 \<and> response \<noteq> Undefined \<and> response \<noteq> Null \<and> cursor_transition_is_valid cursor ?nxt ?more")
      case False
      with Suc.prems x Inr i1 show ?thesis by (auto simp: Let_def split: if_splits sum.splits)
    next
      case True
      then obtain d2 where d2: "?pull = Inr d2" by blast
      have "stock_nonneg (fst w1)" using i1 by (simp add: stock_nonneg_def store_inv_def)
      then have i2: "store_inv d2" "po_outbox d2 = po_outbox (fst w1)"
        using apply_pull_inv [OF d2 i1(1)] apply_pull_kept [OF d2] by (simp_all add: sales_kept_def)
      then have e2: "extends (fst w) d2" using i1 by (simp add: extends_def)
      show ?thesis
      proof (cases ?more)
        case False
        with Suc.prems x Inr True d2 i2 e2 show ?thesis by (auto simp: Let_def)
      next
        case More: True
        with Suc.prems(1) x Inr True d2 have "pull_pages left B branch ?nxt (d2, snd w1) = (res, w')" by (simp add: Let_def)
        from Suc.IH [OF this] i2 e2 show ?thesis using extends_trans by auto
      qed
    qed
  qed
qed simp

lemma sync_catalog_extends:
  assumes s: "sync_catalog B branch state w = (res, w')" and inv: "store_inv (fst w)"
  shows "extends (fst w) (fst w') \<and> store_inv (fst w')"
proof -
  obtain x w1 where x: "be_compatibility B w = (x, w1)" by (cases "be_compatibility B w")
  have q1: "extends (fst w) (fst w1)" "store_inv (fst w1)"
    using compatibility_quiet [OF x] inv quiet_extends by (auto simp: quiet_def)
  show ?thesis
  proof (cases x)
    case (Inl e)
    with s x q1 show ?thesis by (simp add: sync_catalog_def Let_def)
  next
    case X: (Inr payload)
    show ?thesis
    proof (cases "assert_pos_compatibility (be_host B) (be_protocol B) payload (st_app_version state)")
      case (Inl e)
      with s x X q1 show ?thesis by (simp add: sync_catalog_def Let_def)
    next
      case C: (Inr compatible)
      let ?s1 = "state\<lparr>st_backend_version := cb_backend_version compatible, st_api_protocol := cb_protocol compatible\<rparr>"
      obtain y w2 where y: "be_heartbeat B ?s1 w1 = (y, w2)" by (cases "be_heartbeat B ?s1 w1")
      have q2: "extends (fst w) (fst w2)" "store_inv (fst w2)"
        using heartbeat_quiet [OF y] q1 quiet_extends extends_trans by (auto simp: quiet_def)
      obtain z w3 where z: "pull_pages max_sync_pull_pages B branch (or_null (st_sync_cursor ?s1)) w2 = (z, w3)" by (cases "pull_pages max_sync_pull_pages B branch (or_null (st_sync_cursor ?s1)) w2")
      have q3: "extends (fst w) (fst w3)" "store_inv (fst w3)"
        using pull_pages_extends [OF z q2(2)] q2 extends_trans by auto
      show ?thesis
      proof (cases "\<exists>u c r. y = Inr u \<and> z = Inr (c, r)")
        case False
        then show ?thesis using s x X C y z q2 q3
          by (auto simp: sync_catalog_def Let_def split: sum.splits prod.splits)
      next
        case True
        then obtain c r where cr: "z = Inr (c, r)" by blast
        from True s x X C y z obtain st r5 where hb: "be_heartbeat B st (put_status st w3) = (r5, w')"
          unfolding sync_catalog_def Let_def by (auto split: prod.splits sum.splits)
        have "store_inv (fst (put_status st w3))" "extends (fst w) (fst (put_status st w3))"
          using q3 by (simp_all add: extends_def)
        then show ?thesis using heartbeat_quiet [OF hb] quiet_extends extends_trans by (auto simp: quiet_def)
      qed
    qed
  qed
qed


text \<open>A run that ends in success went through the uploads with nothing left to send.\<close>

lemma perform_sync_success:
  assumes p: "perform_sync B branch force (d, n) = (Inr s, w')" and ok: "st_sync_status s = ''success''"
  obtains rows w1 w2 where "upload_all B (sync_begun B d) rows w1 = (None, w2)"
    "fst w1 = sync_set_status \<lparr>su_sync_status = ''syncing'', su_last_sync_at = None,
                 su_catalog_valid_until = None, su_last_error = None\<rparr> d"
    "sync_get_outbox (fst w2) = []" "sync_catalog B branch (sync_begun B d) w2 = (Inr s, w')"
proof -
  let ?d1 = "sync_set_status \<lparr>su_sync_status = ''syncing'', su_last_sync_at = None,
                 su_catalog_valid_until = None, su_last_error = None\<rparr> d"
  let ?due = "filter (\<lambda>r. force \<or> due_at B (be_now B n) r \<le> of_int (be_now B n)) (sync_get_outbox ?d1)"
  let ?rows = "map (\<lambda>r. (r, upload_total B ?d1 r)) ?due"
  obtain res w2 where u: "upload_all B (sync_begun B d) ?rows (?d1, n) = (res, w2)"
    by (cases "upload_all B (sync_begun B d) ?rows (?d1, n)")
  have no_failed: "st_sync_status x \<noteq> ''success''"
    if "upload_all B st rs w = (Some x, w'')" for st rs w x w''
    using that
  proof (induction rs arbitrary: w)
    case (Cons q rs)
    then show ?case
      by (cases q) (auto simp: Let_def sync_status_for_failure_def split: prod.splits option.splits if_splits)
  qed simp
  show thesis
  proof (rule that)
    show "upload_all B (sync_begun B d) ?rows (?d1, n) = (None, w2)"
      using p ok u no_failed [of "sync_begun B d" ?rows "(?d1, n)" s]
      by (cases res) (auto simp: perform_sync_def Let_def split: if_splits)
    then have r: "res = None" using u by simp
    show "sync_get_outbox (fst w2) = []" "sync_catalog B branch (sync_begun B d) w2 = (Inr s, w')"
      using p ok u r by (auto simp: perform_sync_def Let_def split: if_splits)
  qed simp
qed

lemma uploaded_when_successful:
  assumes p: "perform_sync B branch force (d, n) = (Inr s, w')" and ok: "st_sync_status s = ''success''"
    and inv: "store_inv d" and i: "i \<in> row_ids {Pending} d"
  shows "store_inv (fst w') \<and> (\<exists>r \<in> set (po_outbox (fst w')). ob_id r = i \<and> ob_status r \<in> {Sent, Sent_With_Warning, Quarantined})"
proof -
  obtain rows w1 w2 where u: "upload_all B (sync_begun B d) rows w1 = (None, w2)"
    and w1: "fst w1 = sync_set_status \<lparr>su_sync_status = ''syncing'', su_last_sync_at = None,
                 su_catalog_valid_until = None, su_last_error = None\<rparr> d"
    and none: "sync_get_outbox (fst w2) = []" and cat: "sync_catalog B branch (sync_begun B d) w2 = (Inr s, w')"
    using perform_sync_success [OF p ok] .
  have o1: "po_outbox (fst w1) = po_outbox d" using set_status_kept [of d] by (simp add: w1 sales_kept_def)
  have i1: "store_inv (fst w1)" unfolding w1 by (rule row_ids_step [OF step_status inv, THEN conjunct2])
  have k: "kept (fst w1) (fst w2)" by (rule upload_all_kept [OF u i1])
  have "distinct (map ob_id (po_outbox d))" using inv by (simp add: store_inv_def outbox_keys_def comp_def)
  then have one: "r = r'" if "r \<in> set (po_outbox d)" "r' \<in> set (po_outbox d)" "ob_id r = ob_id r'" for r r'
    using that by (auto simp: distinct_map inj_on_def)
  have "i \<notin> row_ids {Sending} d" using i one by (auto simp: row_ids_def) (metis outbox_status.distinct(1))
  then have s2: "i \<notin> row_ids {Sending} (fst w2)" using k o1 by (auto simp: kept_def row_ids_def)
  have "i \<in> row_ids UNIV d" using i by (auto simp: row_ids_def)
  then have "i \<in> row_ids UNIV (fst w2)" using k o1 by (auto simp: kept_def row_ids_def)
  then obtain r where r: "r \<in> set (po_outbox (fst w2))" "ob_id r = i" by (auto simp: row_ids_def)
  have "filter (\<lambda>r. ob_status r = Pending) (po_outbox (fst w2)) = []"
    using none length_js_sort [of outbox_compare "filter (\<lambda>r. ob_status r = Pending) (po_outbox (fst w2))"]
    by (simp add: sync_get_outbox_def)
  then have "ob_status r \<noteq> Pending" using r by (auto simp: filter_empty_conv)
  moreover have "ob_status r \<noteq> Sending" using s2 r by (auto simp: row_ids_def)
  ultimately have st: "ob_status r \<in> {Sent, Sent_With_Warning, Quarantined}" by (cases "ob_status r") auto
  have "extends (fst w2) (fst w') \<and> store_inv (fst w')"
    using sync_catalog_extends [OF cat] k by (simp add: kept_def)
  with r st show ?thesis by (auto simp: extends_def)
qed

lemma pull_pages_cursor:
  "pull_pages left B branch cursor w = (Inr (nxt, response), w') \<Longrightarrow>
   \<exists>t v. nxt = Some t \<and> bigint_of t = Some v \<and> 0 \<le> v
     \<and> (\<forall>c u. cursor = Some c \<longrightarrow> bigint_of c = Some u \<longrightarrow> u \<le> v)"
proof (induction left arbitrary: cursor w)
  case (Suc left)
  obtain x w1 where x: "be_pull B branch cursor w = (x, w1)" by (cases "be_pull B branch cursor w")
  with Suc.prems obtain page where page: "x = Inr page" "page \<noteq> Undefined" "page \<noteq> Null"
    by (cases x) (auto split: if_splits)
  let ?nxt = "next_cursor (be_numbers B) cursor page" and ?more = "truthy_value (field page ''has_more'')"
  from Suc.prems x page obtain d2 where v: "cursor_transition_is_valid cursor ?nxt ?more"
    and rest: "if \<not> ?more then nxt = ?nxt else pull_pages left B branch ?nxt (d2, snd w1) = (Inr (nxt, response), w')"
    by (auto simp: Let_def split: if_splits sum.splits)
  from v obtain t m where t: "?nxt = Some t" "bigint_of t = Some m" "0 \<le> m"
    "\<forall>c u. cursor = Some c \<longrightarrow> bigint_of c = Some u \<longrightarrow> u \<le> m"
    by (auto simp: cursor_transition_is_valid_def split: option.splits if_splits)
  show ?case
  proof (cases ?more)
    case False
    with rest t show ?thesis by auto
  next
    case True
    with rest have "pull_pages left B branch ?nxt (d2, snd w1) = (Inr (nxt, response), w')" by simp
    from Suc.IH [OF this] t show ?thesis by (auto intro: order_trans)
  qed
qed simp

lemma sync_catalog_cursor:
  assumes "sync_catalog B branch state w = (Inr s, w')"
  shows "\<exists>t v. st_sync_cursor s = Some t \<and> bigint_of t = Some v \<and> 0 \<le> v
     \<and> (\<forall>c u. or_null (st_sync_cursor state) = Some c \<longrightarrow> bigint_of c = Some u \<longrightarrow> u \<le> v)"
proof -
  from assms obtain w2 cursor response w3 st where z:
    "pull_pages max_sync_pull_pages B branch (or_null (st_sync_cursor state)) w2 = (Inr (cursor, response), w3)"
    and s: "st_sync_cursor s = cursor"
    unfolding sync_catalog_def Let_def by (auto split: sum.splits prod.splits)
  from pull_pages_cursor [OF z] show ?thesis by (simp add: s)
qed

end

lemma page_cursor_stored:
  "field page ''cursor'' \<noteq> Undefined \<Longrightarrow>
   get_meta (put_page_meta T page d) ''sync_cursor'' = string_of T (field page ''cursor'')"
  by (simp add: put_page_meta_def Let_def)

section \<open>A backend\<close>

text \<open>One that accepts every sale, is compatible and answers with an empty complete catalog.\<close>

definition echo_backend :: "int backend" where
  "echo_backend = \<lparr>be_sale = (\<lambda>c t w. (Inr (Object [(''id'', String (sc_sync_id c))]), w)),
     be_compatibility = (\<lambda>w. (Inr (Object [(''api_protocol'', Object [(''minimum'', Number 1), (''maximum'', Number 1)]),
        (''minimum_pos_version'', String ''1.0.0''), (''backend_version'', String ''2.0.0'')]), w)),
     be_heartbeat = (\<lambda>s w. (Inr (), w)),
     be_pull = (\<lambda>b c w. (Inr (Object [(''cursor'', String ''7''), (''reset_products'', Boolean True)]), w)),
     be_now = (\<lambda>n. n), be_now_text = (\<lambda>n. ''now''), be_instant = (\<lambda>s. None), be_product_ids = (\<lambda>d. []),
     be_numbers = till_numbers, be_host = sample_update_host, be_protocol = 1, be_version = ''1.2.0''\<rparr>"

interpretation echo: quiet_backend echo_backend
  by unfold_locales (auto simp: echo_backend_def)

definition waiting_command :: sale_command where
  "waiting_command = \<lparr>sc_event_version = 2, sc_sync_id = ''a'', sc_branch_id = ''b'', sc_shift_id = ''h'', sc_cashier_id = ''u'',
     sc_cashier_name = ''Mona'', sc_seller_id = ''l'', sc_seller_name = ''Ali'', sc_session_id = ''s'', sc_sequence = ''1'',
     sc_occurred_at = ''t'', sc_customer_phone = None, sc_items = [], sc_payment_method = ''cash'', sc_language = ''ar'',
     sc_local_total = Number 5\<rparr>"

definition waiting_store :: pos_db where
  "waiting_store = empty_store\<lparr>po_outbox := [outbox_row_of waiting_command],
     po_sales := [''a'' \<mapsto> sale_row_of waiting_command ''LOCAL-T1-1'' 500],
     po_meta := [''terminal_sale_sequence'' \<mapsto> ''1'']\<rparr>"

lemma waiting_store_inv: "store_inv waiting_store"
  by (simp add: store_inv_def waiting_store_def empty_store_def outbox_keys_def get_meta_def decimal_sequence_def
      outbox_row_of_def sale_row_of_def waiting_command_def is_digit_def)

lemma echo_run:
  "case perform_sync echo_backend ''b'' False (waiting_store, 0) of
     (Inl e, w) \<Rightarrow> False
   | (Inr s, w) \<Rightarrow> st_sync_status s = ''success'' \<and> map ob_status (po_outbox (fst w)) = [Sent] \<and> st_sync_cursor s = Some ''7''"
  by code_simp

section \<open>Properties\<close>

text \<open>C28: When a synchronisation reports success, every sale that waited for upload when it began has
  been answered: its row is sent, sent with a warning, or set aside for review after a refusal that
  is not retried. The cashier may commit sales all the while.\<close>

theorem sync_success_uploads_all:
  assumes "quiet_backend B" and "store_inv d"
    and "perform_sync B branch force (d, n) = (Inr s, w')" and "st_sync_status s = ''success''"
  shows "store_inv (fst w') \<and> (\<forall>i \<in> row_ids {Pending} d. \<exists>r \<in> set (po_outbox (fst w')).
           ob_id r = i \<and> ob_status r \<in> {Sent, Sent_With_Warning, Quarantined})"
proof -
  have "store_inv (fst w')"
  proof -
    obtain rows w1 w2 where u: "upload_all B (sync_begun B d) rows w1 = (None, w2)"
      and w1: "fst w1 = sync_set_status \<lparr>su_sync_status = ''syncing'', su_last_sync_at = None,
                   su_catalog_valid_until = None, su_last_error = None\<rparr> d"
      and cat: "sync_catalog B branch (sync_begun B d) w2 = (Inr s, w')"
      using quiet_backend.perform_sync_success [OF assms(1,3,4)] .
    have "store_inv (fst w1)" unfolding w1 by (rule row_ids_step [OF step_status assms(2), THEN conjunct2])
    then have "store_inv (fst w2)" using quiet_backend.upload_all_kept [OF assms(1) u] by (simp add: kept_def)
    then show ?thesis using quiet_backend.sync_catalog_extends [OF assms(1) cat] by simp
  qed
  then show ?thesis using quiet_backend.uploaded_when_successful [OF assms(1,3,4,2)] by blast
qed

theorem sync_success_uploads_all_witness:
  "\<exists>s w'. perform_sync echo_backend ''b'' False (waiting_store, 0) = (Inr s, w') \<and> store_inv (fst w')
     \<and> (\<exists>r \<in> set (po_outbox (fst w')). ob_id r = ''a'' \<and> ob_status r \<in> {Sent, Sent_With_Warning, Quarantined})"
proof -
  obtain s w' where r: "perform_sync echo_backend ''b'' False (waiting_store, 0) = (Inr s, w')" "st_sync_status s = ''success''"
    using echo_run by (auto split: prod.splits sum.splits)
  have "''a'' \<in> row_ids {Pending} waiting_store"
    by (simp add: row_ids_def waiting_store_def outbox_row_of_def waiting_command_def)
  with sync_success_uploads_all [OF echo.quiet_backend_axioms waiting_store_inv r] r(1) show ?thesis by blast
qed

text \<open>C23: The catalog cursor of a successful synchronisation is a natural number that is at least the
  one the synchronisation started from: the till never goes back in the change feed.\<close>

theorem sync_cursor_advances:
  assumes "quiet_backend B" and "perform_sync B branch force (d, n) = (Inr s, w')" and "st_sync_status s = ''success''"
  shows "\<exists>t v. st_sync_cursor s = Some t \<and> bigint_of t = Some v \<and> 0 \<le> v
     \<and> (\<forall>c u. st_sync_cursor (sync_begun B d) = Some c \<longrightarrow> c \<noteq> [] \<longrightarrow> bigint_of c = Some u \<longrightarrow> u \<le> v)"
proof -
  obtain rows w1 w2 where "sync_catalog B branch (sync_begun B d) w2 = (Inr s, w')"
    using quiet_backend.perform_sync_success [OF assms] .
  from quiet_backend.sync_catalog_cursor [OF assms(1) this] show ?thesis by (auto simp: or_null_def)
qed

theorem sync_cursor_advances_witness:
  "\<exists>s w'. perform_sync echo_backend ''b'' False (waiting_store, 0) = (Inr s, w')
     \<and> (\<exists>t v. st_sync_cursor s = Some t \<and> bigint_of t = Some v \<and> 0 \<le> v)"
proof -
  obtain s w' where r: "perform_sync echo_backend ''b'' False (waiting_store, 0) = (Inr s, w')" "st_sync_status s = ''success''"
    using echo_run by (auto split: prod.splits sum.splits)
  with sync_cursor_advances [OF echo.quiet_backend_axioms r] show ?thesis by blast
qed

text \<open>A page whose cursor is null is accepted by the loop, which keeps the cursor it has, but the
  store is given the text null; no later page can follow that cursor.\<close>

theorem null_cursor_wedges:
  assumes "sync_apply_pull T ids (page_to_apply (Object ((''cursor'', Null) # fs))) d = Inr d'"
    and "''cursor'' \<notin> fst ` set fs"
  shows "next_cursor T (Some c) (Object ((''cursor'', Null) # fs)) = Some c
       \<and> get_meta d' ''sync_cursor'' = ''null''
       \<and> \<not> cursor_transition_is_valid (Some (get_meta d' ''sync_cursor'')) nxt has_more"
proof -
  let ?page = "Object ((''cursor'', Null) # fs)"
  have none: "map_of (rev fs) ''cursor'' = None" using assms(2) by (simp add: map_of_eq_None_iff)
  then have c: "field ?page ''cursor'' = Null" by (simp add: map_add_def)
  have p: "field (page_to_apply ?page) ''cursor'' = Null"
    using none by (simp add: page_to_apply_def Let_def map_add_def)
  obtain d5 where "d' = put_page_meta T (page_to_apply ?page) d5"
    using assms(1) unfolding sync_apply_pull_def Let_def
    by (auto simp only: and_then_Inr_iff throw_if_Inr_iff sum.inject)
  then have m: "get_meta d' ''sync_cursor'' = ''null''" by (simp only: page_cursor_stored p) (simp add: page_cursor_stored p)
  have "bigint_of ''null'' = None" by code_simp
  then show ?thesis using c m
    by (simp add: next_cursor_def cursor_transition_is_valid_def split: option.splits)
qed

theorem null_cursor_wedges_witness:
  "\<exists>d'. sync_apply_pull till_numbers [] (page_to_apply (Object [(''cursor'', Null), (''reset_products'', Boolean True)])) empty_store = Inr d'
     \<and> get_meta d' ''sync_cursor'' = ''null'' \<and> \<not> cursor_transition_is_valid (Some (get_meta d' ''sync_cursor'')) (Some ''8'') False"
proof -
  have "case sync_apply_pull till_numbers [] (page_to_apply (Object [(''cursor'', Null), (''reset_products'', Boolean True)])) empty_store of
      Inl e \<Rightarrow> False | Inr d' \<Rightarrow> True"
    by code_simp
  then obtain d' where d': "sync_apply_pull till_numbers []
      (page_to_apply (Object [(''cursor'', Null), (''reset_products'', Boolean True)])) empty_store = Inr d'"
    by (auto split: sum.splits)
  have "''cursor'' \<notin> fst ` set [(''reset_products'', Boolean True)]" by simp
  from null_cursor_wedges [OF d' this] d' show ?thesis by blast
qed

end
