(* ===== verification/Ledger.thy ===== *)
theory Ledger
  imports Js_Arrays Js_Value
begin

text \<open>
  The inventory ledger: the tables \<open>InventoryStock\<close> and \<open>InventoryMovement\<close>, the statements with
  which the services change stock, the database function \<open>record_inventory_movement\<close>
  (\<open>backend/prisma/migrations/202608040112_fix_ledger_triggers_tenant_id\<close>, its latest definition)
  and the reconciliation of \<open>backend/src/inventory\<close>.

  A table with a unique key is a map from the key; the movements are the list of rows in the
  order of their sequence. An exception aborts the transaction, so it is an error result and the
  state before the transaction stays. JSON metadata is left out, as nothing reads it back.
\<close>

section \<open>State\<close>

type_synonym id = string

datatype movement_type = Opening_Balance | Sale_Movement | Return_Movement | Purchase_Receipt
  | Transfer_Out | Transfer_In | Reversal

record stock_row =
  qty_on_hand :: int
  qty_reserved :: int
  last_sold_at :: "int option"
  stock_tenant :: id

record movement =
  mv_branch :: id
  mv_variant :: id
  mv_type :: movement_type
  mv_on_hand_delta :: int
  mv_reserved_delta :: int
  mv_on_hand_after :: int
  mv_reserved_after :: int
  mv_reference_type :: string
  mv_reference_id :: string
  mv_reference_line :: "string option"
  mv_key :: string
  mv_occurred_at :: int
  mv_created_by :: "id option"
  mv_tenant :: id

text \<open>Tables the services share.\<close>

record branch_row =
  br_id :: id
  br_tenant :: id
  br_code :: string
  br_active :: bool

record audit_row =
  au_tenant :: id
  au_user :: "id option"
  au_action :: string
  au_entity :: string
  au_entity_id :: id

record ledger_db =
  stock :: "id \<times> id \<Rightarrow> stock_row option"
  movements :: "movement list"

text \<open>The arguments of \<open>record_inventory_movement\<close>.\<close>

record movement_command =
  mc_branch :: id
  mc_variant :: id
  mc_type :: movement_type
  mc_on_hand_delta :: int
  mc_reserved_delta :: int
  mc_reference_type :: string
  mc_reference_id :: string
  mc_reference_line :: "string option"
  mc_key :: string
  mc_occurred_at :: int
  mc_created_by :: "id option"

section \<open>Statements that change stock\<close>

definition int4 :: "int \<Rightarrow> bool" where
  "int4 n \<longleftrightarrow> - 2147483648 \<le> n \<and> n \<le> 2147483647"

text \<open>The check constraints of \<open>InventoryStock\<close>: a reservation is covered by stock that is there.\<close>

definition stock_row_ok :: "stock_row \<Rightarrow> bool" where
  "stock_row_ok r \<longleftrightarrow> 0 \<le> qty_reserved r \<and> qty_reserved r \<le> max (qty_on_hand r) 0"

text \<open>\<open>inventoryStock.upsert\<close> with an increment; the column is a 32-bit integer.\<close>

definition upsert_stock :: "id \<Rightarrow> id \<Rightarrow> id \<Rightarrow> int \<Rightarrow> int option \<Rightarrow> ('a ledger_db_scheme) \<Rightarrow> ('a ledger_db_scheme) result" where
  "upsert_stock tenant branch variant delta sold_at d =
     (let row = (case stock d (branch, variant) of
                   Some r \<Rightarrow> r\<lparr>qty_on_hand := qty_on_hand r + delta,
                               last_sold_at := (if sold_at = None then last_sold_at r else sold_at)\<rparr>
                 | None \<Rightarrow> \<lparr>qty_on_hand = delta, qty_reserved = 0, last_sold_at = sold_at, stock_tenant = tenant\<rparr>)
      in if \<not> int4 (qty_on_hand row) then Inl (JsError ''integer out of range'')
         else if \<not> stock_row_ok row then Inl (JsError ''check constraint failed'')
         else Inr (d\<lparr>stock := (stock d)((branch, variant) \<mapsto> row)\<rparr>))"

text \<open>
  \<open>UPDATE "InventoryStock" SET qty_on_hand = qty_on_hand - q WHERE \<dots> AND qty_on_hand >= q AND
  (qty_on_hand - q) >= qty_reserved\<close>: the number of rows it changed, and the new state.
\<close>

definition take_unreserved :: "id \<Rightarrow> id \<Rightarrow> id \<Rightarrow> int \<Rightarrow> ('a ledger_db_scheme) \<Rightarrow> nat \<times> ('a ledger_db_scheme)" where
  "take_unreserved tenant branch variant q d =
     (case stock d (branch, variant) of
        None \<Rightarrow> (0, d)
      | Some r \<Rightarrow>
          if stock_tenant r = tenant \<and> qty_on_hand r \<ge> q \<and> qty_on_hand r - q \<ge> qty_reserved r
          then (1, d\<lparr>stock := (stock d)((branch, variant) \<mapsto> r\<lparr>qty_on_hand := qty_on_hand r - q\<rparr>)\<rparr>)
          else (0, d))"

section \<open>record_inventory_movement\<close>

definition movements_at :: "movement list \<Rightarrow> id \<Rightarrow> id \<Rightarrow> movement list" where
  "movements_at ms branch variant = filter (\<lambda>m. mv_branch m = branch \<and> mv_variant m = variant) ms"

definition ledger_on_hand :: "movement list \<Rightarrow> id \<Rightarrow> id \<Rightarrow> int" where
  "ledger_on_hand ms branch variant = (\<Sum>m\<leftarrow>movements_at ms branch variant. mv_on_hand_delta m)"

definition ledger_reserved :: "movement list \<Rightarrow> id \<Rightarrow> id \<Rightarrow> int" where
  "ledger_reserved ms branch variant = (\<Sum>m\<leftarrow>movements_at ms branch variant. mv_reserved_delta m)"

definition opening_key :: "id \<Rightarrow> id \<Rightarrow> string" where
  "opening_key branch variant = ''auto-opening:'' @ branch @ '':'' @ variant"

definition opening_movement :: "movement_command \<Rightarrow> int \<Rightarrow> int \<Rightarrow> id \<Rightarrow> movement" where
  "opening_movement c on_hand reserved tenant =
     \<lparr>mv_branch = mc_branch c, mv_variant = mc_variant c, mv_type = Opening_Balance,
      mv_on_hand_delta = on_hand, mv_reserved_delta = reserved,
      mv_on_hand_after = on_hand, mv_reserved_after = reserved,
      mv_reference_type = ''InventoryStock'', mv_reference_id = mc_branch c @ '':'' @ mc_variant c,
      mv_reference_line = None, mv_key = opening_key (mc_branch c) (mc_variant c),
      mv_occurred_at = mc_occurred_at c, mv_created_by = None, mv_tenant = tenant\<rparr>"

definition command_movement :: "movement_command \<Rightarrow> stock_row \<Rightarrow> movement" where
  "command_movement c r =
     \<lparr>mv_branch = mc_branch c, mv_variant = mc_variant c, mv_type = mc_type c,
      mv_on_hand_delta = mc_on_hand_delta c, mv_reserved_delta = mc_reserved_delta c,
      mv_on_hand_after = qty_on_hand r, mv_reserved_after = qty_reserved r,
      mv_reference_type = mc_reference_type c, mv_reference_id = mc_reference_id c,
      mv_reference_line = mc_reference_line c, mv_key = mc_key c,
      mv_occurred_at = mc_occurred_at c, mv_created_by = mc_created_by c, mv_tenant = stock_tenant r\<rparr>"

definition same_command :: "movement \<Rightarrow> movement_command \<Rightarrow> bool" where
  "same_command m c \<longleftrightarrow>
     mv_branch m = mc_branch c \<and> mv_variant m = mc_variant c \<and> mv_type m = mc_type c
     \<and> mv_on_hand_delta m = mc_on_hand_delta c \<and> mv_reserved_delta m = mc_reserved_delta c
     \<and> mv_reference_type m = mc_reference_type c \<and> mv_reference_id m = mc_reference_id c
     \<and> mv_reference_line m = mc_reference_line c"

text \<open>The opening balance of a stock row without movements, and the ledger it leaves.\<close>

definition opening_step :: "movement_command \<Rightarrow> stock_row \<Rightarrow> movement list \<Rightarrow> (movement list \<times> int \<times> int) result" where
  "opening_step c r ms =
     (let branch = mc_branch c; variant = mc_variant c in
      if movements_at ms branch variant \<noteq> [] then
        Inr (ms, ledger_on_hand ms branch variant, ledger_reserved ms branch variant)
      else
        (let previous_on_hand = qty_on_hand r - mc_on_hand_delta c;
             previous_reserved = qty_reserved r - mc_reserved_delta c in
         if previous_on_hand < 0 \<or> previous_reserved < 0 \<or> previous_reserved > previous_on_hand
            \<or> previous_on_hand > 2147483647 \<or> previous_reserved > 2147483647
         then Inl (JsError ''Cannot infer a valid opening inventory balance'')
         else if (previous_on_hand \<noteq> 0 \<or> previous_reserved \<noteq> 0)
                 \<and> \<not> list_ex (\<lambda>m. mv_key m = opening_key branch variant) ms
         then Inr (ms @ [opening_movement c previous_on_hand previous_reserved (stock_tenant r)],
                   previous_on_hand, previous_reserved)
         else Inr (ms, previous_on_hand, previous_reserved)))"

definition record_inventory_movement :: "movement_command \<Rightarrow> ('a ledger_db_scheme) \<Rightarrow> ('a ledger_db_scheme) result" where
  "record_inventory_movement c d =
     (let branch = mc_branch c; variant = mc_variant c; ms = movements d in
      and_then (throw_if (mc_on_hand_delta c = 0 \<and> mc_reserved_delta c = 0)
                 (JsError ''Inventory movement must change on-hand or reserved quantity'')) (\<lambda>_.
      and_then (or_throw (stock d (branch, variant)) (JsError ''InventoryStock row does not exist'')) (\<lambda>r.
      case find (\<lambda>m. mv_key m = mc_key c) ms of
        Some existing \<Rightarrow>
          and_then (throw_if (\<not> same_command existing c)
                     (JsError ''Inventory movement idempotency key belongs to a different command'')) (\<lambda>_.
          and_then (throw_if (ledger_on_hand ms branch variant \<noteq> qty_on_hand r
                              \<or> ledger_reserved ms branch variant \<noteq> qty_reserved r)
                     (JsError ''Inventory ledger mismatch after idempotent replay'')) (\<lambda>_.
          Inr d))
      | None \<Rightarrow>
          and_then (opening_step c r ms) (\<lambda>(ms', on_hand, reserved).
          and_then (throw_if (on_hand + mc_on_hand_delta c \<noteq> qty_on_hand r
                              \<or> reserved + mc_reserved_delta c \<noteq> qty_reserved r)
                     (JsError ''Inventory ledger mismatch'')) (\<lambda>_.
          and_then (throw_if (list_ex (\<lambda>m. mv_key m = mc_key c) ms') (JsError ''unique constraint failed'')) (\<lambda>_.
          Inr (d\<lparr>movements := ms' @ [command_movement c r]\<rparr>)))))))"

section \<open>Reconciliation (inventory.repository.ts, inventory.service.ts)\<close>

record reconciliation_row =
  rr_branch :: id
  rr_variant :: id
  rr_stock_on_hand :: int
  rr_stock_reserved :: int
  rr_ledger_on_hand :: int
  rr_ledger_reserved :: int

text \<open>
  The rows of the full outer join for the keys given (the query enumerates the keys of the stock
  and movement tables), of one tenant, with \<open>COALESCE(\<dots>, 0)\<close> on either side. The result is cut
  to its first thousand rows.
\<close>

definition tenant_stock :: "id \<Rightarrow> ('a ledger_db_scheme) \<Rightarrow> id \<times> id \<Rightarrow> stock_row option" where
  "tenant_stock tenant d k =
     (case stock d k of None \<Rightarrow> None | Some r \<Rightarrow> if stock_tenant r = tenant then Some r else None)"

definition tenant_movements :: "id \<Rightarrow> ('a ledger_db_scheme) \<Rightarrow> movement list" where
  "tenant_movements tenant d = filter (\<lambda>m. mv_tenant m = tenant) (movements d)"

definition reconcile_row :: "id \<Rightarrow> ('a ledger_db_scheme) \<Rightarrow> id \<times> id \<Rightarrow> reconciliation_row" where
  "reconcile_row tenant d k =
     (let ms = tenant_movements tenant d; s = tenant_stock tenant d k in
      \<lparr>rr_branch = fst k, rr_variant = snd k,
       rr_stock_on_hand = (case s of None \<Rightarrow> 0 | Some r \<Rightarrow> qty_on_hand r),
       rr_stock_reserved = (case s of None \<Rightarrow> 0 | Some r \<Rightarrow> qty_reserved r),
       rr_ledger_on_hand = ledger_on_hand ms (fst k) (snd k),
       rr_ledger_reserved = ledger_reserved ms (fst k) (snd k)\<rparr>)"

definition reconciliation_mismatches :: "id \<Rightarrow> id option \<Rightarrow> (id \<times> id) list \<Rightarrow> ('a ledger_db_scheme) \<Rightarrow> reconciliation_row list" where
  "reconciliation_mismatches tenant branch keys d =
     take 1000
       (filter (\<lambda>row. (rr_stock_on_hand row \<noteq> rr_ledger_on_hand row
                       \<or> rr_stock_reserved row \<noteq> rr_ledger_reserved row)
                      \<and> (case branch of None \<Rightarrow> True | Some b \<Rightarrow> rr_branch row = b))
          (map (reconcile_row tenant d) keys))"

record reconciliation_item =
  ri_row :: reconciliation_row
  ri_on_hand_difference :: int
  ri_reserved_difference :: int

record reconciliation =
  is_consistent :: bool
  mismatch_count :: nat
  rc_branch :: "id option"
  rc_items :: "reconciliation_item list"

definition reconcile :: "id \<Rightarrow> id option \<Rightarrow> (id \<times> id) list \<Rightarrow> ('a ledger_db_scheme) \<Rightarrow> reconciliation" where
  "reconcile tenant branch keys d =
     (let items = map (\<lambda>row. \<lparr>ri_row = row,
                              ri_on_hand_difference = rr_stock_on_hand row - rr_ledger_on_hand row,
                              ri_reserved_difference = rr_stock_reserved row - rr_ledger_reserved row\<rparr>)
                    (reconciliation_mismatches tenant branch keys d)
      in \<lparr>is_consistent = (length items = 0), mismatch_count = length items, rc_branch = branch, rc_items = items\<rparr>)"

text \<open>
  \<open>lookup\<close> and \<open>movements\<close>: the stock rows of a variant with units on hand, for the keys given, and
  its latest movements. The ledger is in the order of recording, so the stable sort of its reverse
  puts the later recorded of two movements with one time first.
\<close>

definition find_stock :: "id \<Rightarrow> id \<Rightarrow> id option \<Rightarrow> (id \<times> id) list \<Rightarrow> ('a ledger_db_scheme) \<Rightarrow> ((id \<times> id) \<times> stock_row) list" where
  "find_stock tenant variant branch keys d =
     concat (map (\<lambda>k. case tenant_stock tenant d k of
        None \<Rightarrow> []
      | Some r \<Rightarrow> if snd k = variant \<and> qty_on_hand r > 0 \<and> (truthy branch \<longrightarrow> branch = Some (fst k)) then [(k, r)] else [])
       keys)"

definition list_movements :: "id \<Rightarrow> id \<Rightarrow> id option \<Rightarrow> int \<Rightarrow> ('a ledger_db_scheme) \<Rightarrow> movement list" where
  "list_movements tenant variant branch taken d =
     take (nat (min 500 (max 1 taken)))
       (js_sort (\<lambda>x y. mv_occurred_at y - mv_occurred_at x)
         (rev (filter (\<lambda>m. mv_variant m = variant \<and> (truthy branch \<longrightarrow> branch = Some (mv_branch m))) (tenant_movements tenant d))))"

section \<open>Stock and ledger agree\<close>

text \<open>
  A stock row that movements touched holds exactly their sums, and they carry its tenant. A row no
  movement touched yet may hold any balance: its first movement opens the ledger with it.
\<close>

definition reconciled :: "('a ledger_db_scheme) \<Rightarrow> id \<Rightarrow> id \<Rightarrow> bool" where
  "reconciled d b v \<longleftrightarrow>
     (case stock d (b, v) of
        None \<Rightarrow> False
      | Some r \<Rightarrow> ledger_on_hand (movements d) b v = qty_on_hand r
                \<and> ledger_reserved (movements d) b v = qty_reserved r
                \<and> list_all (\<lambda>m. mv_tenant m = stock_tenant r) (movements_at (movements d) b v))"

definition balanced :: "('a ledger_db_scheme) \<Rightarrow> id \<Rightarrow> id \<Rightarrow> bool" where
  "balanced d b v \<longleftrightarrow> movements_at (movements d) b v = [] \<or> reconciled d b v"

definition plain_id :: "id \<Rightarrow> bool" where
  "plain_id b \<longleftrightarrow> CHR '':'' \<notin> set b"

definition opening_keys_ok :: "movement list \<Rightarrow> bool" where
  "opening_keys_ok ms \<longleftrightarrow>
     (\<forall>m \<in> set ms. \<forall>b v. plain_id b \<and> mv_key m = opening_key b v \<longrightarrow> mv_branch m = b \<and> mv_variant m = v)"

definition ledger_inv :: "('a ledger_db_scheme) \<Rightarrow> bool" where
  "ledger_inv d \<longleftrightarrow> (\<forall>b v. balanced d b v) \<and> opening_keys_ok (movements d)"

text \<open>The keys the services use start with their own prefix, never with that of an opening balance.\<close>

definition safe_key :: "string \<Rightarrow> bool" where
  "safe_key k \<longleftrightarrow> take 13 k \<noteq> ''auto-opening:''"

lemma safe_key_not_opening: "safe_key k \<Longrightarrow> k \<noteq> opening_key b v"
  by (auto simp: safe_key_def opening_key_def)

lemma opening_key_inj:
  assumes "plain_id b" "plain_id b'" "opening_key b v = opening_key b' v'"
  shows "b = b' \<and> v = v'"
proof -
  have e: "b @ '':'' @ v = b' @ '':'' @ v'" using assms(3) by (simp add: opening_key_def)
  have "takeWhile (\<lambda>c. c \<noteq> CHR '':'') (x @ '':'' @ y) = x" if "plain_id x" for x y
    using that by (induction x) (auto simp: plain_id_def)
  from this [OF assms(1)] this [OF assms(2)] have "b = b'" using e by metis
  with e show ?thesis by simp
qed

lemma movements_at_append [simp]:
  "movements_at (ms @ ns) b v = movements_at ms b v @ movements_at ns b v"
  by (simp add: movements_at_def)

lemma movements_at_single:
  "movements_at [m] b v = (if mv_branch m = b \<and> mv_variant m = v then [m] else [])"
  by (simp add: movements_at_def)

lemma movements_at_Nil [simp]: "movements_at [] b v = []"
  by (simp add: movements_at_def)

lemma movements_at_elem: "m \<in> set (movements_at ms b v) \<longleftrightarrow> m \<in> set ms \<and> mv_branch m = b \<and> mv_variant m = v"
  by (auto simp: movements_at_def)

lemmas ledger_sums = ledger_on_hand_def ledger_reserved_def

lemma command_movement_at [simp]: "mv_branch (command_movement c r) = mc_branch c" "mv_variant (command_movement c r) = mc_variant c"
    "mv_on_hand_delta (command_movement c r) = mc_on_hand_delta c" "mv_reserved_delta (command_movement c r) = mc_reserved_delta c"
    "mv_tenant (command_movement c r) = stock_tenant r" "mv_key (command_movement c r) = mc_key c"
  by (simp_all add: command_movement_def)

lemma opening_movement_at [simp]: "mv_branch (opening_movement c x y t) = mc_branch c" "mv_variant (opening_movement c x y t) = mc_variant c"
    "mv_on_hand_delta (opening_movement c x y t) = x" "mv_reserved_delta (opening_movement c x y t) = y"
    "mv_tenant (opening_movement c x y t) = t" "mv_key (opening_movement c x y t) = opening_key (mc_branch c) (mc_variant c)"
  by (simp_all add: opening_movement_def)

text \<open>What the opening step leaves: the sums it reports, other keys untouched, keys well-formed.\<close>

lemma opening_step_ok:
  assumes s: "opening_step c r ms = Inr (ms', x, y)" and k: "opening_keys_ok ms" and p: "plain_id (mc_branch c)"
    and t: "list_all (\<lambda>m. mv_tenant m = stock_tenant r) (movements_at ms (mc_branch c) (mc_variant c))"
  shows "ledger_on_hand ms' (mc_branch c) (mc_variant c) = x"
    and "ledger_reserved ms' (mc_branch c) (mc_variant c) = y"
    and "list_all (\<lambda>m. mv_tenant m = stock_tenant r) (movements_at ms' (mc_branch c) (mc_variant c))"
    and "(b, v) \<noteq> (mc_branch c, mc_variant c) \<Longrightarrow> movements_at ms' b v = movements_at ms b v"
    and "opening_keys_ok ms'"
proof -
  let ?b = "mc_branch c" and ?v = "mc_variant c"
  have none: "\<not> list_ex (\<lambda>m. mv_key m = opening_key ?b ?v) ms" if "movements_at ms ?b ?v = []"
  proof
    assume "list_ex (\<lambda>m. mv_key m = opening_key ?b ?v) ms"
    then obtain m where m: "m \<in> set ms" "mv_key m = opening_key ?b ?v" by (auto simp: list_ex_iff)
    then have "m \<in> set (movements_at ms ?b ?v)" using k p by (auto simp: opening_keys_ok_def movements_at_elem)
    with that show False by simp
  qed
  consider "ms' = ms" "x = ledger_on_hand ms ?b ?v" "y = ledger_reserved ms ?b ?v"
    | "movements_at ms ?b ?v = []" "ms' = ms @ [opening_movement c x y (stock_tenant r)]"
    using s none by (auto simp: opening_step_def Let_def ledger_sums split: if_splits)
  note cases = this
  show "ledger_on_hand ms' ?b ?v = x" "ledger_reserved ms' ?b ?v = y"
    by (cases rule: cases, simp_all add: ledger_sums movements_at_single)+
  show "list_all (\<lambda>m. mv_tenant m = stock_tenant r) (movements_at ms' ?b ?v)"
    using t by (cases rule: cases) (simp_all add: movements_at_single)
  show "(b, v) \<noteq> (?b, ?v) \<Longrightarrow> movements_at ms' b v = movements_at ms b v"
    by (cases rule: cases) (auto simp: movements_at_single)
  show "opening_keys_ok ms'"
  proof (cases rule: cases)
    case 2
    have "plain_id b' \<Longrightarrow> opening_key ?b ?v = opening_key b' v' \<Longrightarrow> ?b = b' \<and> ?v = v'" for b' v'
      using opening_key_inj [OF p] by blast
    with k 2 show ?thesis by (auto simp: opening_keys_ok_def)
  qed (use k in simp)
qed

lemma record_new:
  assumes "record_inventory_movement c d = Inr d'" and "find (\<lambda>m. mv_key m = mc_key c) (movements d) = None"
  obtains r ms' x y where "stock d (mc_branch c, mc_variant c) = Some r" "opening_step c r (movements d) = Inr (ms', x, y)"
    "x + mc_on_hand_delta c = qty_on_hand r" "y + mc_reserved_delta c = qty_reserved r"
    "d' = d\<lparr>movements := ms' @ [command_movement c r]\<rparr>"
  using assms by (auto simp: record_inventory_movement_def Let_def result_simps)

lemma record_replay:
  assumes "record_inventory_movement c d = Inr d'" and "find (\<lambda>m. mv_key m = mc_key c) (movements d) = Some m"
  shows "d' = d" and "same_command m c"
  using assms by (auto simp: record_inventory_movement_def Let_def result_simps)

text \<open>
  Recording a movement restores the agreement at its key, whatever the preceding stock statement
  did there, and keeps it everywhere else.
\<close>

definition tenants_agree :: "('a ledger_db_scheme) \<Rightarrow> id \<Rightarrow> id \<Rightarrow> bool" where
  "tenants_agree d b v \<longleftrightarrow>
     (case stock d (b, v) of None \<Rightarrow> movements_at (movements d) b v = []
      | Some r \<Rightarrow> list_all (\<lambda>m. mv_tenant m = stock_tenant r) (movements_at (movements d) b v))"

lemma balanced_tenants: "balanced d b v \<Longrightarrow> tenants_agree d b v"
  by (auto simp: balanced_def reconciled_def tenants_agree_def split: option.splits)

lemma record_restores:
  assumes rec: "record_inventory_movement c d = Inr d'"
    and others: "\<And>b v. (b, v) \<noteq> (mc_branch c, mc_variant c) \<Longrightarrow> balanced d b v"
    and here: "tenants_agree d (mc_branch c) (mc_variant c)"
    and keys: "opening_keys_ok (movements d)" and plain: "plain_id (mc_branch c)" and key: "safe_key (mc_key c)"
  shows "ledger_inv d' \<and> reconciled d' (mc_branch c) (mc_variant c) \<and> stock d' = stock d"
proof (cases "find (\<lambda>m. mv_key m = mc_key c) (movements d)")
  case None
  obtain r ms' x y where r: "stock d (mc_branch c, mc_variant c) = Some r"
    and s: "opening_step c r (movements d) = Inr (ms', x, y)"
    and sums: "x + mc_on_hand_delta c = qty_on_hand r" "y + mc_reserved_delta c = qty_reserved r"
    and d': "d' = d\<lparr>movements := ms' @ [command_movement c r]\<rparr>"
    using record_new [OF rec None] .
  have t: "list_all (\<lambda>m. mv_tenant m = stock_tenant r) (movements_at (movements d) (mc_branch c) (mc_variant c))"
    using here r by (simp add: tenants_agree_def)
  note o = opening_step_ok [OF s keys plain t]
  have rc: "reconciled d' (mc_branch c) (mc_variant c)"
    using o(1-3) sums r by (simp add: reconciled_def d' ledger_sums movements_at_single)
  have "balanced d' b v" for b v
  proof (cases "(b, v) = (mc_branch c, mc_variant c)")
    case True
    then show ?thesis using rc by (simp add: balanced_def)
  next
    case False
    have "movements_at (movements d') b v = movements_at (movements d) b v"
      using o(4) [OF False] False by (auto simp: d' movements_at_single)
    moreover have "stock d' = stock d" by (simp add: d')
    ultimately show ?thesis
      using others [OF False] by (auto simp: balanced_def reconciled_def ledger_sums split: option.splits)
  qed
  moreover have "opening_keys_ok (movements d')"
    using o(5) safe_key_not_opening [OF key] by (auto simp: opening_keys_ok_def d')
  ultimately show ?thesis using rc by (simp add: ledger_inv_def d')
next
  case (Some m)
  then have same: "d' = d" using record_replay [OF rec] by simp
  from rec Some obtain r where r: "stock d (mc_branch c, mc_variant c) = Some r"
    "ledger_on_hand (movements d) (mc_branch c) (mc_variant c) = qty_on_hand r"
    "ledger_reserved (movements d) (mc_branch c) (mc_variant c) = qty_reserved r"
    by (auto simp: record_inventory_movement_def Let_def result_simps)
  with here have "reconciled d (mc_branch c) (mc_variant c)"
    by (simp add: reconciled_def tenants_agree_def)
  moreover have "balanced d b v" for b v
    using others [of b v] calculation by (cases "(b, v) = (mc_branch c, mc_variant c)") (auto simp: balanced_def)
  ultimately show ?thesis using same keys by (simp add: ledger_inv_def)
qed

lemma upsert_stock_effect:
  assumes "upsert_stock t b v q s d = Inr d'"
  shows "movements d' = movements d"
    and "(b', v') \<noteq> (b, v) \<Longrightarrow> stock d' (b', v') = stock d (b', v')"
    and "\<exists>r. stock d' (b, v) = Some r \<and> int4 (qty_on_hand r)
         \<and> qty_on_hand r = (case stock d (b, v) of None \<Rightarrow> 0 | Some r \<Rightarrow> qty_on_hand r) + q
         \<and> qty_reserved r = (case stock d (b, v) of None \<Rightarrow> 0 | Some r \<Rightarrow> qty_reserved r)
         \<and> stock_tenant r = (case stock d (b, v) of None \<Rightarrow> t | Some r \<Rightarrow> stock_tenant r)"
  using assms by (auto simp: upsert_stock_def Let_def split: option.splits if_splits)

lemma take_unreserved_effect:
  assumes "take_unreserved t b v q d = (n, d')"
  shows "movements d' = movements d"
    and "(b', v') \<noteq> (b, v) \<Longrightarrow> stock d' (b', v') = stock d (b', v')"
    and "n \<noteq> 1 \<Longrightarrow> d' = d"
    and "n = 1 \<Longrightarrow> \<exists>r. stock d (b, v) = Some r \<and> stock_tenant r = t \<and> q \<le> qty_on_hand r
           \<and> qty_reserved r \<le> qty_on_hand r - q
           \<and> stock d' (b, v) = Some (r\<lparr>qty_on_hand := qty_on_hand r - q\<rparr>)"
  using assms by (auto simp: take_unreserved_def split: option.splits if_splits)

lemma balanced_frame:
  "movements d' = movements d \<Longrightarrow> stock d' (b, v) = stock d (b, v) \<Longrightarrow> balanced d b v \<Longrightarrow> balanced d' b v"
  by (auto simp: balanced_def reconciled_def split: option.splits)

text \<open>A stock statement followed by its movement, as every audited writer pairs them.\<close>

lemma upsert_then_record:
  assumes inv: "ledger_inv d" and u: "upsert_stock t b v q s d = Inr d1"
    and rec: "record_inventory_movement c d1 = Inr d2"
    and c: "mc_branch c = b" "mc_variant c = v" and plain: "plain_id b" and key: "safe_key (mc_key c)"
  shows "ledger_inv d2 \<and> reconciled d2 b v"
proof -
  note e = upsert_stock_effect [OF u]
  obtain r where r: "stock d1 (b, v) = Some r" "stock_tenant r = (case stock d (b, v) of None \<Rightarrow> t | Some r \<Rightarrow> stock_tenant r)"
    using e(3) by blast
  have "tenants_agree d b v" using inv by (simp add: ledger_inv_def balanced_tenants)
  then have "tenants_agree d1 b v" using r e(1) by (auto simp: tenants_agree_def split: option.splits)
  moreover have "balanced d1 b' v'" if "(b', v') \<noteq> (b, v)" for b' v'
    using inv e(1) e(2) [OF that] by (auto simp: ledger_inv_def intro: balanced_frame)
  ultimately show ?thesis
    using record_restores [OF rec] inv e(1) c plain key by (simp add: ledger_inv_def)
qed

lemma take_then_record:
  assumes inv: "ledger_inv d" and u: "take_unreserved t b v q d = (1, d1)"
    and rec: "record_inventory_movement c d1 = Inr d2"
    and c: "mc_branch c = b" "mc_variant c = v" and plain: "plain_id b" and key: "safe_key (mc_key c)"
  shows "ledger_inv d2 \<and> reconciled d2 b v"
proof -
  note e = take_unreserved_effect [OF u]
  obtain r where r: "stock d (b, v) = Some r" "stock d1 (b, v) = Some (r\<lparr>qty_on_hand := qty_on_hand r - q\<rparr>)"
    using e(4) by auto
  have "tenants_agree d b v" using inv by (simp add: ledger_inv_def balanced_tenants)
  then have "tenants_agree d1 b v" using r e(1) by (simp add: tenants_agree_def)
  moreover have "balanced d1 b' v'" if "(b', v') \<noteq> (b, v)" for b' v'
    using inv e(1) e(2) [OF that] by (auto simp: ledger_inv_def intro: balanced_frame)
  ultimately show ?thesis
    using record_restores [OF rec] inv e(1) c plain key by (simp add: ledger_inv_def)
qed

lemma uuid_plain: "uuid s \<Longrightarrow> plain_id s"
proof -
  assume u: "uuid s"
  have colon: "\<not> hex_char (CHR '':'')" by (simp add: hex_char_def is_digit_def Let_def)
  show "plain_id s" unfolding plain_id_def
  proof
    assume "CHR '':'' \<in> set s"
    then obtain i where i: "i < length s" "s ! i = CHR '':''" by (auto simp: in_set_conv_nth)
    have l: "length s = 36" using u by (simp add: uuid_def)
    have "(i, CHR '':'') \<in> set (zip [0..<36] s)" using i l by (auto simp: set_zip intro!: exI [of _ i])
    then have c: "if i \<in> {8, 13, 18, 23} then CHR '':'' = CHR ''-''
         else if i = 14 then CHR '':'' \<in> set ''12345678''
         else if i = 19 then CHR '':'' \<in> set ''89abAB''
         else hex_char (CHR '':'')" using u unfolding uuid_def list_all_iff by blast
    have "CHR '':'' \<noteq> CHR ''-''" "CHR '':'' \<notin> set ''12345678''" "CHR '':'' \<notin> set ''89abAB''" by simp_all
    with c colon show False by (metis (full_types))
  qed
qed

section \<open>Recording while other changes are pending\<close>

text \<open>A recorded movement reconciles its own key and touches no other.\<close>

lemma record_fresh:
  assumes rec: "record_inventory_movement c d = Inr d'" and new: "\<forall>m \<in> set (movements d). mv_key m \<noteq> mc_key c"
  obtains r os where "stock d (mc_branch c, mc_variant c) = Some r"
    and "movements d' = movements d @ os @ [command_movement c r]"
    and "os = [] \<or> (\<exists>x y. os = [opening_movement c x y (stock_tenant r)])" and "d' = d\<lparr>movements := movements d'\<rparr>"
proof -
  have n: "find (\<lambda>m. mv_key m = mc_key c) (movements d) = None" using new by (simp add: find_None_set)
  obtain r ms' x y where r: "stock d (mc_branch c, mc_variant c) = Some r"
    and s: "opening_step c r (movements d) = Inr (ms', x, y)"
    and d': "d' = d\<lparr>movements := ms' @ [command_movement c r]\<rparr>"
    using record_new [OF rec n] .
  have "ms' = movements d \<or> (\<exists>x y. ms' = movements d @ [opening_movement c x y (stock_tenant r)])"
    using s by (auto simp: opening_step_def Let_def split: if_splits)
  then obtain os where os: "ms' = movements d @ os" "os = [] \<or> (\<exists>x y. os = [opening_movement c x y (stock_tenant r)])"
    by (elim disjE exE) auto
  show thesis by (rule that [OF r]) (use d' os in auto)
qed

definition tenants_ok :: "'a ledger_db_scheme \<Rightarrow> bool" where
  "tenants_ok d \<longleftrightarrow> (\<forall>b v. tenants_agree d b v)"

lemma record_at:
  assumes rec: "record_inventory_movement c d = Inr d'" and t: "tenants_ok d"
    and keys: "opening_keys_ok (movements d)" and plain: "plain_id (mc_branch c)" and key: "safe_key (mc_key c)"
  shows "balanced d' (mc_branch c) (mc_variant c)" and "stock d' = stock d" and "opening_keys_ok (movements d')"
    and "(b, v) \<noteq> (mc_branch c, mc_variant c) \<Longrightarrow> movements_at (movements d') b v = movements_at (movements d) b v"
    and "tenants_ok d'"
proof -
  let ?b = "mc_branch c" and ?v = "mc_variant c"
  have here: "tenants_agree d ?b ?v" using t by (simp add: tenants_ok_def)
  have all: "reconciled d' ?b ?v \<and> stock d' = stock d \<and> opening_keys_ok (movements d')
      \<and> (\<forall>b v. (b, v) \<noteq> (?b, ?v) \<longrightarrow> movements_at (movements d') b v = movements_at (movements d) b v)"
  proof (cases "find (\<lambda>m. mv_key m = mc_key c) (movements d)")
    case None
    obtain r ms' x y where r: "stock d (?b, ?v) = Some r"
      and s: "opening_step c r (movements d) = Inr (ms', x, y)"
      and sums: "x + mc_on_hand_delta c = qty_on_hand r" "y + mc_reserved_delta c = qty_reserved r"
      and d': "d' = d\<lparr>movements := ms' @ [command_movement c r]\<rparr>"
      using record_new [OF rec None] .
    have tr: "list_all (\<lambda>m. mv_tenant m = stock_tenant r) (movements_at (movements d) ?b ?v)"
      using here r by (simp add: tenants_agree_def)
    note o = opening_step_ok [OF s keys plain tr]
    have "reconciled d' ?b ?v" using o(1-3) sums r by (simp add: reconciled_def d' ledger_sums movements_at_single)
    moreover have "opening_keys_ok (movements d')"
      using o(5) safe_key_not_opening [OF key] by (auto simp: opening_keys_ok_def d')
    moreover have "movements_at (movements d') b v = movements_at (movements d) b v" if "(b, v) \<noteq> (?b, ?v)" for b v
      using o(4) [OF that] that by (auto simp: d' movements_at_single)
    ultimately show ?thesis by (simp add: d')
  next
    case (Some m)
    then have same: "d' = d" using record_replay [OF rec] by simp
    from rec Some obtain r where r: "stock d (?b, ?v) = Some r"
      "ledger_on_hand (movements d) ?b ?v = qty_on_hand r" "ledger_reserved (movements d) ?b ?v = qty_reserved r"
      by (auto simp: record_inventory_movement_def Let_def result_simps)
    with here have "reconciled d ?b ?v" by (simp add: reconciled_def tenants_agree_def)
    with same keys show ?thesis by simp
  qed
  then show "balanced d' ?b ?v" "stock d' = stock d" "opening_keys_ok (movements d')" by (simp_all add: balanced_def)
  show m: "(b, v) \<noteq> (?b, ?v) \<Longrightarrow> movements_at (movements d') b v = movements_at (movements d) b v" for b v
    using all by blast
  show "tenants_ok d'" unfolding tenants_ok_def
  proof (intro allI)
    fix b v
    show "tenants_agree d' b v"
    proof (cases "(b, v) = (?b, ?v)")
      case True
      then show ?thesis using all balanced_tenants by (auto simp: balanced_def)
    next
      case False
      then have e: "movements_at (movements d') b v = movements_at (movements d) b v" "stock d' (b, v) = stock d (b, v)"
        using all by auto
      have "tenants_agree d b v" using t by (simp add: tenants_ok_def)
      then show ?thesis unfolding tenants_agree_def e .
    qed
  qed
qed

lemma same_stock:
  assumes "movements d' = movements d" and "stock d' = stock d"
  shows "balanced d' b v = balanced d b v" and "tenants_ok d' = tenants_ok d"
  unfolding balanced_def reconciled_def tenants_ok_def tenants_agree_def assms by (rule refl)+

lemma record_keeps: "record_inventory_movement c d = Inr d1 \<Longrightarrow> d1 = d\<lparr>movements := movements d1\<rparr>"
proof (cases "\<exists>m \<in> set (movements d). mv_key m = mc_key c")
  case True
  assume rec: "record_inventory_movement c d = Inr d1"
  obtain m where "find (\<lambda>m. mv_key m = mc_key c) (movements d) = Some m"
    using True by (cases "find (\<lambda>m. mv_key m = mc_key c) (movements d)") (auto simp: find_None_set)
  then show ?thesis using record_replay(1) [OF rec] by simp
next
  case False
  assume rec: "record_inventory_movement c d = Inr d1"
  have new: "\<forall>m \<in> set (movements d). mv_key m \<noteq> mc_key c" using False by blast
  show ?thesis by (rule record_fresh [OF rec new])
qed

lemma tenants_ok_stock:
  assumes "tenants_ok d" and "movements d' = movements d"
    and "\<And>b v. stock d' (b, v) = stock d (b, v) \<or> (\<exists>r. stock d' (b, v) = Some r
          \<and> (case stock d (b, v) of None \<Rightarrow> True | Some r0 \<Rightarrow> stock_tenant r = stock_tenant r0))"
  shows "tenants_ok d'"
  unfolding tenants_ok_def
proof (intro allI)
  fix b v
  have t: "tenants_agree d b v" using assms(1) by (simp add: tenants_ok_def)
  from assms(3) [of b v] t show "tenants_agree d' b v"
    by (auto simp: tenants_agree_def assms(2) split: option.splits)
qed

lemma balanced_elsewhere:
  assumes "movements d' = movements d" and "stock d' = (stock d)(k \<mapsto> r)" and "(b, v) \<noteq> k" and "balanced d b v"
  shows "balanced d' b v"
  by (rule balanced_frame [OF assms(1) _ assms(4)]) (use assms(2,3) in auto)

text \<open>
  A handler changes several stock rows and records their movements afterwards. In between, every key
  is balanced but the pending ones.
\<close>

definition pending :: "'a ledger_db_scheme \<Rightarrow> (id \<times> id) set \<Rightarrow> bool" where
  "pending d P \<longleftrightarrow> tenants_ok d \<and> opening_keys_ok (movements d) \<and> (\<forall>b v. (b, v) \<notin> P \<longrightarrow> balanced d b v)"

lemma pending_none: "pending d {} \<longleftrightarrow> ledger_inv d"
  by (auto simp: pending_def ledger_inv_def tenants_ok_def intro: balanced_tenants)

lemma pending_frame: "pending d P \<Longrightarrow> stock d' = stock d \<Longrightarrow> movements d' = movements d \<Longrightarrow> pending d' P"
  using same_stock [of d' d] by (simp add: pending_def)

lemma pending_upsert:
  assumes p: "pending d P" and u: "upsert_stock t b v q s d = Inr d'"
  shows "pending d' (insert (b, v) P)"
proof -
  note e = upsert_stock_effect [OF u]
  have "tenants_ok d'"
  proof (rule tenants_ok_stock [OF _ e(1)])
    show "tenants_ok d" using p by (simp add: pending_def)
    show "stock d' (b', v') = stock d (b', v') \<or> (\<exists>r. stock d' (b', v') = Some r
          \<and> (case stock d (b', v') of None \<Rightarrow> True | Some r0 \<Rightarrow> stock_tenant r = stock_tenant r0))" for b' v'
      using e(2) [of b' v'] e(3) by (cases "(b', v') = (b, v)") (auto split: option.splits)
  qed
  moreover have "balanced d' b' v'" if "(b', v') \<notin> insert (b, v) P" for b' v'
    using p e(1) e(2) [of b' v'] that by (intro balanced_frame [of d' d]) (auto simp: pending_def)
  ultimately show ?thesis using p e(1) by (simp add: pending_def)
qed

lemma pending_record:
  assumes p: "pending d P" and rec: "record_inventory_movement c d = Inr d'"
    and plain: "plain_id (mc_branch c)" and key: "safe_key (mc_key c)"
  shows "pending d' (P - {(mc_branch c, mc_variant c)})"
proof -
  have h: "tenants_ok d" "opening_keys_ok (movements d)" using p by (simp_all add: pending_def)
  note r = record_at [OF rec h plain key]
  have "balanced d' b v" if "(b, v) \<notin> P - {(mc_branch c, mc_variant c)}" for b v
  proof (cases "(b, v) = (mc_branch c, mc_variant c)")
    case False
    with that p have "balanced d b v" by (auto simp: pending_def)
    then show ?thesis unfolding balanced_def reconciled_def ledger_sums r(2) r(4) [OF False] .
  qed (use r(1) in simp)
  then show ?thesis using r(3,5) by (simp add: pending_def)
qed

lemma upsert_keeps: "upsert_stock t b v q s d = Inr d' \<Longrightarrow> \<exists>st. d' = d\<lparr>stock := st\<rparr>"
  by (auto simp: upsert_stock_def Let_def split: if_splits)

lemma record_only_movements: "record_inventory_movement c d = Inr d' \<Longrightarrow> \<exists>ms. d' = d\<lparr>movements := ms\<rparr>"
  using record_keeps by blast

lemma pending_record_loop:
  assumes "fold_result (\<lambda>x. record_inventory_movement (f x)) xs d = Inr d'" and "pending d P"
    and "\<And>x. x \<in> set xs \<Longrightarrow> plain_id (mc_branch (f x)) \<and> safe_key (mc_key (f x))"
  shows "pending d' (P - (\<lambda>x. (mc_branch (f x), mc_variant (f x))) ` set xs) \<and> (\<exists>ms. d' = d\<lparr>movements := ms\<rparr>)"
  using assms
proof (induction xs arbitrary: d P)
  case Nil
  then have "d' = d\<lparr>movements := movements d\<rparr>" "pending d' P" by simp_all
  then show ?case by (metis Diff_empty image_empty list.set(1))
next
  case (Cons x xs)
  from Cons.prems(1) obtain d1 where d1: "record_inventory_movement (f x) d = Inr d1"
    and r: "fold_result (\<lambda>x. record_inventory_movement (f x)) xs d1 = Inr d'" by (auto simp: result_simps)
  have "pending d1 (P - {(mc_branch (f x), mc_variant (f x))})"
    using pending_record [OF Cons.prems(2) d1] Cons.prems(3) [of x] by simp
  from Cons.IH [OF r this] Cons.prems(3) record_only_movements [OF d1] show ?case
    by (auto simp: set_diff_eq Diff_insert2 [symmetric])
qed

section \<open>What reconciliation reports\<close>

lemma tenant_sums:
  assumes "list_all (\<lambda>m. mv_tenant m = t) (movements_at (movements d) b v)"
  shows "movements_at (tenant_movements t d) b v = movements_at (movements d) b v"
proof -
  have "movements_at (tenant_movements t d) b v = filter (\<lambda>m. mv_tenant m = t) (movements_at (movements d) b v)"
    by (simp add: movements_at_def tenant_movements_def conj_commute conj_left_commute)
  with assms show ?thesis by (simp add: filter_id_conv list_all_iff)
qed

lemma foreign_tenant_sums:
  assumes "list_all (\<lambda>m. mv_tenant m = t') (movements_at (movements d) b v)" and "t' \<noteq> t"
  shows "movements_at (tenant_movements t d) b v = []"
proof -
  have "movements_at (tenant_movements t d) b v = filter (\<lambda>m. mv_tenant m = t) (movements_at (movements d) b v)"
    by (simp add: movements_at_def tenant_movements_def conj_commute conj_left_commute)
  with assms show ?thesis by (auto simp: filter_empty_conv list_all_iff)
qed

lemma reconciliation_row_reconciled:
  assumes "reconciled d b v"
  shows "rr_stock_on_hand (reconcile_row t d (b, v)) = rr_ledger_on_hand (reconcile_row t d (b, v))
       \<and> rr_stock_reserved (reconcile_row t d (b, v)) = rr_ledger_reserved (reconcile_row t d (b, v))"
proof -
  from assms obtain r where r: "stock d (b, v) = Some r" "ledger_on_hand (movements d) b v = qty_on_hand r"
    "ledger_reserved (movements d) b v = qty_reserved r"
    and t: "list_all (\<lambda>m. mv_tenant m = stock_tenant r) (movements_at (movements d) b v)"
    by (auto simp: reconciled_def split: option.splits)
  show ?thesis
  proof (cases "stock_tenant r = t")
    case True
    with r tenant_sums [of t d b v] t show ?thesis
      by (simp add: reconcile_row_def Let_def tenant_stock_def ledger_sums)
  next
    case False
    with r foreign_tenant_sums [OF t False] show ?thesis
      by (simp add: reconcile_row_def Let_def tenant_stock_def ledger_sums)
  qed
qed

text \<open>Under the invariant, only stock rows that no movement ever touched are reported.\<close>

lemma mismatch_untouched:
  assumes "ledger_inv d" and "row \<in> set (reconciliation_mismatches t br keys d)"
  shows "movements_at (movements d) (rr_branch row) (rr_variant row) = []"
proof -
  from assms(2) obtain k where k: "row = reconcile_row t d k"
    "rr_stock_on_hand row \<noteq> rr_ledger_on_hand row \<or> rr_stock_reserved row \<noteq> rr_ledger_reserved row"
    by (auto simp: reconciliation_mismatches_def dest!: in_set_takeD)
  obtain b v where bv: "k = (b, v)" by (cases k)
  have f: "rr_branch row = b" "rr_variant row = v" using k(1) bv by (simp_all add: reconcile_row_def Let_def)
  have "balanced d b v" using assms(1) by (simp add: ledger_inv_def)
  moreover have "\<not> reconciled d b v" using reconciliation_row_reconciled [of d b v t] k bv by auto
  ultimately show ?thesis using f by (simp add: balanced_def)
qed

section \<open>Property\<close>

lemma reconcile_rows: "ri \<in> set (rc_items (reconcile t br keys d)) \<Longrightarrow> ri_row ri \<in> set (reconciliation_mismatches t br keys d)"
  by (auto simp: reconcile_def Let_def)

text \<open>C30: a stock statement followed by its movement keeps the stock and the ledger together: the sums
  of the movements are the balances again, at the changed row and everywhere else, and the
  reconciliation, for any tenant and branch, can only report rows that no movement ever touched.\<close>

theorem stock_change_recorded:
  assumes "ledger_inv d" and "upsert_stock t b v q s d = Inr d1" and "record_inventory_movement c d1 = Inr d2"
    and "mc_branch c = b" "mc_variant c = v" and "plain_id b" and "safe_key (mc_key c)"
  shows "ledger_inv d2 \<and> reconciled d2 b v
       \<and> (\<forall>ri \<in> set (rc_items (reconcile tenant br keys d2)).
            movements_at (movements d2) (rr_branch (ri_row ri)) (rr_variant (ri_row ri)) = [])"
proof -
  have i: "ledger_inv d2" "reconciled d2 b v" using upsert_then_record [OF assms] by simp_all
  then show ?thesis using mismatch_untouched reconcile_rows by blast
qed

definition sample_ledger :: ledger_db where
  "sample_ledger =
     \<lparr>stock = [(''b'', ''v'') \<mapsto> \<lparr>qty_on_hand = 4, qty_reserved = 0, last_sold_at = None, stock_tenant = ''t''\<rparr>], movements = []\<rparr>"

definition sample_movement :: movement_command where
  "sample_movement = \<lparr>mc_branch = ''b'', mc_variant = ''v'', mc_type = Sale_Movement, mc_on_hand_delta = -6,
     mc_reserved_delta = 0, mc_reference_type = ''SalesInvoice'', mc_reference_id = ''i'', mc_reference_line = None,
     mc_key = ''sale:1'', mc_occurred_at = 5, mc_created_by = None\<rparr>"

theorem stock_change_recorded_witness:
  "\<exists>d1 d2. upsert_stock ''t'' ''b'' ''v'' (-6) (Some 5) sample_ledger = Inr d1
     \<and> record_inventory_movement sample_movement d1 = Inr d2 \<and> ledger_inv d2
     \<and> map mv_on_hand_delta (movements d2) = [4, -6]"
proof -
  have "(case upsert_stock ''t'' ''b'' ''v'' (-6) (Some 5) sample_ledger of Inl e \<Rightarrow> False
         | Inr d1 \<Rightarrow> (case record_inventory_movement sample_movement d1 of Inl e \<Rightarrow> False
             | Inr d2 \<Rightarrow> map mv_on_hand_delta (movements d2) = [4, -6]))" by code_simp
  then obtain d1 d2 where d: "upsert_stock ''t'' ''b'' ''v'' (-6) (Some 5) sample_ledger = Inr d1"
    "record_inventory_movement sample_movement d1 = Inr d2" "map mv_on_hand_delta (movements d2) = [4, -6]"
    by (auto split: sum.splits)
  have "ledger_inv sample_ledger" by (simp add: ledger_inv_def balanced_def opening_keys_ok_def sample_ledger_def)
  from stock_change_recorded [OF this d(1,2), of "''t''" None "[]"] d show ?thesis
    by (auto simp: sample_movement_def plain_id_def safe_key_def)
qed

end
