(* ===== verification/Tax.thy ===== *)
theory Tax
  imports Backend_Money
begin

text \<open>
  \<open>backend/src/tax/tax-resolution.service.ts\<close> and \<open>sales-tax-snapshot.service.ts\<close>: which tax code
  applies to a variant, how an authored price splits into net, tax and gross, when an exemption
  may be applied, and the rows a sale records as evidence.
\<close>

section \<open>Data\<close>

datatype tax_mode = Inclusive | Exclusive

record tax_code =
  tc_id :: string
  tc_tenant :: string
  tc_category :: string
  tc_code :: string
  tc_rate :: rat
  tc_version :: int
  tc_rounding :: string
  tc_status :: string

record tax_exemption =
  te_id :: string
  te_status :: string
  te_customer :: string
  te_category :: "string option"
  te_expires_at :: "int option"

record tax_resolution =
  tr_code_id :: string
  tr_code :: string
  tr_rate :: rat
  tr_base :: rat
  tr_tax :: rat
  tr_mode :: tax_mode
  tr_version :: int
  tr_rounding :: string
  tr_exemption :: "string option"
  tr_net :: rat
  tr_gross :: rat

text \<open>A variant joined with its product, as the callers select it.\<close>

record priceable_variant =
  pv_id :: string
  pv_product :: string
  pv_cost_price :: rat
  pv_tax_category :: "string option"
  pv_product_category :: "string option"
  pv_product_brand :: "string option"
  pv_product_tax_category :: "string option"

section \<open>Which code applies\<close>

definition resolve_category_id :: "priceable_variant \<Rightarrow> string result" where
  "resolve_category_id v =
     (let category = (case pv_tax_category v of Some c \<Rightarrow> Some c | None \<Rightarrow> pv_product_tax_category v) in
      case category of
        None \<Rightarrow> Inl (DomainError ''TAX_NO_ACTIVE_CODE'')
      | Some c \<Rightarrow> if c = [] then Inl (DomainError ''TAX_NO_ACTIVE_CODE'') else Inr c)"

text \<open>\<open>new Map(codes.map(c => [c.tax_category_id, c]))\<close>: the last active code of a category stays.\<close>

type_synonym tax_index = "string \<Rightarrow> tax_code option"

definition active_codes :: "string \<Rightarrow> tax_code list \<Rightarrow> tax_code list" where
  "active_codes tenant codes = filter (\<lambda>c. tc_tenant c = tenant \<and> tc_status c = ''active'') codes"

definition load_active_code_index :: "string \<Rightarrow> tax_code list \<Rightarrow> tax_index" where
  "load_active_code_index tenant codes = map_of (rev (map (\<lambda>c. (tc_category c, c)) (active_codes tenant codes)))"

section \<open>How much it is\<close>

definition net_of_gross :: "dec_lib \<Rightarrow> rat \<Rightarrow> rat \<Rightarrow> rat" where
  "net_of_gross L gross rate = moneyq L (dec_div L gross (dec_plus L 1 (dec_div L rate 100)))"

definition tax_calculate :: "dec_lib \<Rightarrow> tax_code \<Rightarrow> rat \<Rightarrow> tax_mode \<Rightarrow> tax_exemption option \<Rightarrow> tax_resolution" where
  "tax_calculate L code authored_amount mode exemption =
     (let authored = moneyq L authored_amount; rate = tc_rate code in
      case exemption of
        Some e \<Rightarrow>
          (let net = (if mode = Inclusive then net_of_gross L authored rate else authored) in
           \<lparr>tr_code_id = tc_id code, tr_code = tc_code code, tr_rate = 0, tr_base = net,
            tr_tax = moneyq L 0, tr_mode = mode, tr_version = tc_version code,
            tr_rounding = tc_rounding code, tr_exemption = Some (te_id e), tr_net = net, tr_gross = net\<rparr>)
      | None \<Rightarrow>
          (let (net, tax, gross) =
             (if mode = Inclusive then
                (let net = net_of_gross L authored rate in (net, moneyq L (dec_minus L authored net), authored))
              else
                (let tax = moneyq L (dec_div L (dec_mul L authored rate) 100)
                 in (authored, tax, moneyq L (dec_plus L authored tax))))
           in \<lparr>tr_code_id = tc_id code, tr_code = tc_code code, tr_rate = rate, tr_base = net,
               tr_tax = tax, tr_mode = mode, tr_version = tc_version code,
               tr_rounding = tc_rounding code, tr_exemption = None, tr_net = net, tr_gross = gross\<rparr>))"

definition resolve_for_variant ::
  "dec_lib \<Rightarrow> string \<Rightarrow> tax_code list \<Rightarrow> tax_index option \<Rightarrow> priceable_variant \<Rightarrow> rat \<Rightarrow> tax_mode
   \<Rightarrow> tax_exemption option \<Rightarrow> tax_resolution result" where
  "resolve_for_variant L tenant codes index v amount mode exemption =
     and_then (resolve_category_id v) (\<lambda>category.
       let indexed = (case index of None \<Rightarrow> None | Some i \<Rightarrow> i category);
           code = (case indexed of Some c \<Rightarrow> Some c
                   | None \<Rightarrow> find (\<lambda>c. tc_tenant c = tenant \<and> tc_category c = category \<and> tc_status c = ''active'') codes)
       in case code of
            None \<Rightarrow> Inl (DomainError ''TAX_NO_ACTIVE_CODE'')
          | Some c \<Rightarrow> Inr (tax_calculate L c amount mode exemption))"

section \<open>When an exemption applies\<close>

definition assert_exemption_applicable :: "tax_exemption \<Rightarrow> string option \<Rightarrow> string \<Rightarrow> int \<Rightarrow> unit result" where
  "assert_exemption_applicable e customer category instant =
     (let rejected = DomainError ''TAX_EXEMPTION_NOT_APPLICABLE'' in
      and_then (throw_if (te_status e \<noteq> ''approved'') rejected) (\<lambda>_.
      and_then (throw_if (case customer of None \<Rightarrow> True | Some c \<Rightarrow> c = [] \<or> te_customer e \<noteq> c) rejected) (\<lambda>_.
      and_then (throw_if (case te_category e of None \<Rightarrow> False | Some c \<Rightarrow> c \<noteq> [] \<and> c \<noteq> category) rejected) (\<lambda>_.
      throw_if (case te_expires_at e of None \<Rightarrow> False | Some t \<Rightarrow> t \<le> instant) rejected))))"

section \<open>The evidence a sale records\<close>

record snapshot_line =
  sn_item :: string
  sn_tax :: tax_resolution

record snapshot_row =
  sr_tenant :: string
  sr_invoice :: string
  sr_item :: string
  sr_code_id :: string
  sr_code :: string
  sr_rate :: rat
  sr_base :: rat
  sr_tax :: rat
  sr_mode :: tax_mode
  sr_version :: int
  sr_rounding :: string
  sr_exemption :: "string option"

definition assert_no_silent_zero :: "snapshot_line \<Rightarrow> unit result" where
  "assert_no_silent_zero line =
     (let t = sn_tax line in
      throw_if (\<not> (tr_tax t \<noteq> 0 \<or> tr_rate t = 0 \<or> tr_base t = 0 \<or> tr_exemption t \<noteq> None))
        (DomainError ''TAX_EXEMPTION_EVIDENCE_REQUIRED''))"

definition snapshot_row_of :: "string \<Rightarrow> string \<Rightarrow> snapshot_line \<Rightarrow> snapshot_row" where
  "snapshot_row_of tenant invoice line =
     (let t = sn_tax line in
      \<lparr>sr_tenant = tenant, sr_invoice = invoice, sr_item = sn_item line, sr_code_id = tr_code_id t,
       sr_code = tr_code t, sr_rate = tr_rate t, sr_base = tr_base t, sr_tax = tr_tax t,
       sr_mode = tr_mode t, sr_version = tr_version t, sr_rounding = tr_rounding t,
       sr_exemption = tr_exemption t\<rparr>)"

definition record_snapshots :: "string \<Rightarrow> string \<Rightarrow> snapshot_line list \<Rightarrow> snapshot_row list result" where
  "record_snapshots tenant invoice lines =
     and_then (map_result assert_no_silent_zero lines) (\<lambda>_. Inr (map (snapshot_row_of tenant invoice) lines))"

lemma record_snapshots_Inr:
  "record_snapshots t i lines = Inr rows \<longleftrightarrow>
     rows = map (snapshot_row_of t i) lines \<and> (\<forall>l \<in> set lines. assert_no_silent_zero l = Inr ())"
proof -
  have "(\<exists>us. map_result assert_no_silent_zero lines = Inr us) \<longleftrightarrow> (\<forall>l \<in> set lines. assert_no_silent_zero l = Inr ())"
    by (induction lines) (auto simp: result_simps)
  then show ?thesis by (auto simp: record_snapshots_def result_simps)
qed

section \<open>The split is exact, and near the true tax\<close>

text \<open>Prices and rates as their columns hold them: \<open>Decimal(12,2)\<close> and a percentage \<open>Decimal(7,4)\<close>.\<close>

definition price_column :: "rat \<Rightarrow> bool" where
  "price_column x \<longleftrightarrow> has_places 2 x \<and> 0 \<le> x \<and> x < 10 ^ 10"

definition rate_column :: "rat \<Rightarrow> bool" where
  "rate_column r \<longleftrightarrow> has_places 4 r \<and> 0 \<le> r \<and> r < 1000"

context decimal_js
begin

lemma rate_factor:
  assumes "rate_column r"
  shows "dec_plus L 1 (dec_div L r 100) = 1 + r / 100"
proof -
  have r: "0 \<le> r" "r < 1000" "has_places 4 r" using assms by (auto simp: rate_column_def)
  have p: "has_places 6 (r / 100)"
  proof -
    have "r / 100 * 10 ^ 6 = r * 10 ^ 4" by simp
    then show ?thesis using r(3) by (simp only: has_places_def)
  qed
  have "has_places 6 (1 + r / 100)"
    using has_places_add [OF has_places_of_int [of 6 1] p] by simp
  then have "fits20 (1 + r / 100)" using r(1,2) by (intro fits20_places [of 6]) simp_all
  moreover have "fits20 (r / 100)" using p r(1,2) by (intro fits20_places [of 6]) simp_all
  ultimately show ?thesis by (simp add: div_exact plus_exact)
qed

lemma net_of_gross_bounds:
  assumes g: "price_column g" and r: "rate_column r"
  shows "0 \<le> net_of_gross L g r" and "net_of_gross L g r \<le> g"
    and "\<bar>net_of_gross L g r - g / (1 + r / 100)\<bar> \<le> 1 / 200 + 1 / 10 ^ 9"
    and "has_places 2 (net_of_gross L g r)"
proof -
  have g': "0 \<le> g" "g < 10 ^ 10" "has_places 2 g" using g by (auto simp: price_column_def)
  have f: "1 \<le> 1 + r / 100" using r by (simp add: rate_column_def)
  let ?q = "g / (1 + r / 100)"
  let ?d = "dec_div L g (1 + r / 100)"
  have n: "net_of_gross L g r = round_places 2 ?d" by (simp add: net_of_gross_def moneyq_eq rate_factor [OF r])
  show "0 \<le> net_of_gross L g r" using f g'(1) by (simp add: n div_nonneg round_places_nonneg)
  show "has_places 2 (net_of_gross L g r)" by (simp add: n)
  have q: "0 \<le> ?q" "?q \<le> g" using f g'(1) by (simp_all add: divide_le_eq mult_le_cancel_left1)
  have "\<bar>?d - ?q\<bar> \<le> \<bar>?q\<bar> / 10 ^ 19" using f by (intro div_close) simp
  also have "\<bar>?q\<bar> = ?q" using q(1) by (rule abs_of_nonneg)
  also have "?q / 10 ^ 19 \<le> 10 ^ 10 / 10 ^ 19" using q(2) g'(2) by (intro divide_right_mono order.trans [OF q(2)]) simp_all
  finally have d: "\<bar>?d - ?q\<bar> \<le> 1 / 10 ^ 9" by simp
  have rn: "\<bar>round_places 2 ?d - ?d\<bar> \<le> 1 / 200" using round_places_nearest [of 2 ?d] by simp
  show "\<bar>net_of_gross L g r - ?q\<bar> \<le> 1 / 200 + 1 / 10 ^ 9" using d rn unfolding n by linarith
  show "net_of_gross L g r \<le> g"
  proof -
    have "round_places 2 ?d \<le> g + 1 / 200 + 1 / 10 ^ 9" using d rn q(2) by linarith
    moreover obtain m where m: "round_places 2 ?d * 10 ^ 2 = of_int m"
      using has_places_round [of 2 ?d] by (auto simp: has_places_def elim: Ints_cases)
    moreover obtain k where k: "g * 10 ^ 2 = of_int k" using g'(3) by (auto simp: has_places_def elim: Ints_cases)
    ultimately have "(of_int m :: rat) < of_int (k + 1)" by simp
    then have "m \<le> k" by (simp only: of_int_less_iff)
    then have "(of_int m :: rat) \<le> of_int k" by simp
    then show ?thesis using m k n by simp
  qed
qed

lemma exclusive_tax:
  assumes g: "price_column g" and r: "rate_column r"
  shows "moneyq L (dec_div L (dec_mul L g r) 100) = round_places 2 (g * r / 100)"
    and "0 \<le> round_places 2 (g * r / 100)" and "round_places 2 (g * r / 100) < 10 ^ 12"
proof -
  have g': "0 \<le> g" "g < 10 ^ 10" "has_places 2 g" using g by (auto simp: price_column_def)
  have r': "0 \<le> r" "r < 1000" "has_places 4 r" using r by (auto simp: rate_column_def)
  have b: "g * r < 10 ^ 13"
  proof -
    have "g * r \<le> 10 ^ 10 * r" using g' r' by (intro mult_right_mono) simp_all
    also have "\<dots> < 10 ^ 13" using r' by simp
    finally show ?thesis .
  qed
  have nn: "0 \<le> g * r" using g' r' by simp
  have i: "(g * 10 ^ 2) * (r * 10 ^ 4) \<in> \<int>" using g'(3) r'(3) by (simp only: has_places_def Ints_mult)
  have e: "g * r * 10 ^ 6 = (g * 10 ^ 2) * (r * 10 ^ 4)" by simp
  have p: "has_places 6 (g * r)" using i unfolding has_places_def e .
  have p8: "has_places 8 (g * r / 100)" using i by (simp add: has_places_def ac_simps)
  have "fits20 (g * r)" using p b nn by (intro fits20_places [of 6]) (simp_all add: abs_of_nonneg del: abs_mult)
  moreover have "fits20 (g * r / 100)" using p8 b nn by (intro fits20_places [of 8]) (simp_all add: abs_of_nonneg del: abs_mult)
  ultimately show "moneyq L (dec_div L (dec_mul L g r) 100) = round_places 2 (g * r / 100)"
    by (simp add: moneyq_eq mul_exact div_exact)
  show "0 \<le> round_places 2 (g * r / 100)" using nn by (simp add: round_places_nonneg)
  have "\<bar>round_places 2 (g * r / 100) - g * r / 100\<bar> \<le> 1 / 200" using round_places_nearest [of 2 "g * r / 100"] by simp
  moreover have "g * r / 100 < 100000000000" using b by simp
  ultimately have "round_places 2 (g * r / 100) < 1000000000000" by linarith
  then show "round_places 2 (g * r / 100) < 10 ^ 12" by simp
qed

lemma split_exact:
  assumes a: "price_column a" and r: "rate_column (tc_rate code)" and t: "t = tax_calculate L code a mode None"
  shows "tr_net t + tr_tax t = tr_gross t" and "0 \<le> tr_net t" and "0 \<le> tr_tax t"
    and "if mode = Inclusive then tr_gross t = a else tr_net t = a"
    and "\<bar>tr_tax t - (if mode = Inclusive then a - a / (1 + tc_rate code / 100) else a * tc_rate code / 100)\<bar>
         \<le> 1 / 200 + 1 / 10 ^ 9"
proof -
  have a': "0 \<le> a" "a < 10 ^ 10" "has_places 2 a" using a by (auto simp: price_column_def)
  have m: "moneyq L a = a" using a'(3) by (rule moneyq_id)
  let ?goal = "tr_net t + tr_tax t = tr_gross t \<and> 0 \<le> tr_net t \<and> 0 \<le> tr_tax t
      \<and> (if mode = Inclusive then tr_gross t = a else tr_net t = a)
      \<and> \<bar>tr_tax t - (if mode = Inclusive then a - a / (1 + tc_rate code / 100) else a * tc_rate code / 100)\<bar>
         \<le> 1 / 200 + 1 / 10 ^ 9"
  have ?goal
  proof (cases mode)
    case Inclusive
    let ?n = "net_of_gross L a (tc_rate code)"
    note n = net_of_gross_bounds [OF a r]
    have p: "has_places 2 (a - ?n)" using a'(3) n(4) by (rule has_places_diff)
    have "\<bar>a - ?n\<bar> \<le> a" using n(1,2) by linarith
    also have "a < 10 ^ 18" using a'(2) by simp
    finally have "fits20 (a - ?n)" using p by (intro cents_fits20)
    with p have d: "moneyq L (dec_minus L a ?n) = a - ?n" by (simp add: minus_exact moneyq_id)
    have "tr_net t = ?n" "tr_tax t = a - ?n" "tr_gross t = a"
      using Inclusive by (simp_all add: t tax_calculate_def Let_def m d)
    moreover have "\<bar>(a - ?n) - (a - a / (1 + tc_rate code / 100))\<bar> \<le> 1 / 200 + 1 / 10 ^ 9" using n(3) by linarith
    ultimately show ?thesis using Inclusive n(1,2) by simp
  next
    case Exclusive
    let ?x = "round_places 2 (a * tc_rate code / 100)"
    note x = exclusive_tax [OF a r]
    have p: "has_places 2 (a + ?x)" using a'(3) by (rule has_places_add) simp
    have "\<bar>a + ?x\<bar> = a + ?x" using x(2) a'(1) by (intro abs_of_nonneg add_nonneg_nonneg)
    also have "\<dots> < 10 ^ 18" using x(3) a'(2) by simp
    finally have "fits20 (a + ?x)" using p by (intro cents_fits20)
    with p have d: "moneyq L (dec_plus L a ?x) = a + ?x" by (simp add: plus_exact moneyq_id)
    have e: "tr_net t = a" "tr_tax t = ?x" "tr_gross t = a + ?x"
      using Exclusive by (simp_all add: t tax_calculate_def Let_def m x(1) d)
    have "\<bar>?x - a * tc_rate code / 100\<bar> \<le> 1 / 200" using round_places_nearest [of 2 "a * tc_rate code / 100"] by simp
    also have "1 / 200 \<le> 1 / 200 + 1 / (10::rat) ^ 9" by simp
    finally have "\<bar>?x - a * tc_rate code / 100\<bar> \<le> 1 / 200 + 1 / 10 ^ 9" .
    then show ?thesis using Exclusive e x(2) a'(1) by simp
  qed
  then show "tr_net t + tr_tax t = tr_gross t" and "0 \<le> tr_net t" and "0 \<le> tr_tax t"
    and "if mode = Inclusive then tr_gross t = a else tr_net t = a"
    and "\<bar>tr_tax t - (if mode = Inclusive then a - a / (1 + tc_rate code / 100) else a * tc_rate code / 100)\<bar>
         \<le> 1 / 200 + 1 / 10 ^ 9" by blast+
qed

end

section \<open>Properties\<close>

text \<open>C31: the tax of a line is its share to the cent: net and tax sum to the gross exactly, the
  authored price is the gross of an inclusive line and the net of an exclusive one, nothing is
  negative, and the tax is within half a cent (and the rounding of one division) of the true tax.\<close>

theorem tax_split_exact:
  assumes "decimal_js L" and "price_column a" and "rate_column (tc_rate code)"
    and "t = tax_calculate L code a mode None"
  shows "tr_net t + tr_tax t = tr_gross t \<and> 0 \<le> tr_net t \<and> 0 \<le> tr_tax t
       \<and> (if mode = Inclusive then tr_gross t = a else tr_net t = a)
       \<and> \<bar>tr_tax t - (if mode = Inclusive then a - a / (1 + tc_rate code / 100) else a * tc_rate code / 100)\<bar>
         \<le> 1 / 200 + 1 / 10 ^ 9"
  using decimal_js.split_exact [OF assms] by blast

definition sample_code :: tax_code where
  "sample_code = \<lparr>tc_id = ''code'', tc_tenant = ''tenant'', tc_category = ''standard'', tc_code = ''VAT'',
     tc_rate = 14, tc_version = 1, tc_rounding = ''line'', tc_status = ''active''\<rparr>"

theorem tax_split_exact_witness:
  "tr_net (tax_calculate dec_exact sample_code 100 Inclusive None) = 8772 / 100
   \<and> tr_tax (tax_calculate dec_exact sample_code 100 Inclusive None) = 1228 / 100
   \<and> tr_net (tax_calculate dec_exact sample_code 100 Inclusive None)
     + tr_tax (tax_calculate dec_exact sample_code 100 Inclusive None) = 100"
proof -
  have p: "price_column 100" using has_places_of_int [of 2 100] by (simp add: price_column_def)
  have r: "rate_column (tc_rate sample_code)"
    using has_places_of_int [of 4 14] by (simp add: rate_column_def sample_code_def)
  have v: "tr_net (tax_calculate dec_exact sample_code 100 Inclusive None) = 8772 / 100
    \<and> tr_tax (tax_calculate dec_exact sample_code 100 Inclusive None) = 1228 / 100" by code_simp
  show ?thesis
    using v tax_split_exact [OF dec_exact.decimal_js_axioms p r refl, of Inclusive] by simp
qed

end
