(* ===== verification/Pricing.thy ===== *)
theory Pricing
  imports Tax Js_Arrays
begin

text \<open>
  \<open>backend/src/pricing/pricing.service.ts\<close>: the price of a variant at a quantity, resolved against
  the active entries of the tenant's default price book. The scopes are tried from the variant to
  the global one; in the first with an entry for the quantity, the tightest quantity break wins.

  A \<open>ReadonlyMap\<close> of buckets is an association list. The quantity is an integer; \<open>toNumber\<close> of the
  amounts, which have two decimal places, keeps their value.
\<close>

section \<open>Data\<close>

datatype scope_type = Variant_Scope | Product_Scope | Brand_Scope | Category_Scope | Global_Scope

record price_entry =
  pe_id :: string
  pe_book :: string
  pe_scope :: scope_type
  pe_scope_id :: "string option"
  pe_min_qty :: rat
  pe_unit_price :: rat
  pe_tax_mode :: tax_mode
  pe_floor_price :: "rat option"

text \<open>A row of \<open>PriceBookEntry\<close> with the columns of its book that the query filters by.\<close>

record price_entry_row = price_entry +
  pe_tenant :: string
  pe_status :: string
  pe_effective_from :: int
  pe_effective_to :: "int option"
  pe_book_tenant :: string
  pe_book_status :: string
  pe_book_default :: bool

record price_source =
  ps_book :: string
  ps_entry :: string
  ps_scope :: scope_type
  ps_scope_id :: "string option"
  ps_min_qty :: rat

record price_quote =
  pq_qty :: int
  pq_unit_price :: rat
  pq_net_price :: rat
  pq_tax_percent :: rat
  pq_tax_amount :: rat
  pq_selling_price :: rat
  pq_tax :: tax_resolution
  pq_min_allowed_price :: rat
  pq_floor_is_cost_derived :: bool
  pq_source :: price_source

record priceable_line =
  ln_variant :: priceable_variant
  ln_qty :: int

section \<open>Entries and their index\<close>

definition load_active_rules :: "string \<Rightarrow> int \<Rightarrow> price_entry_row list \<Rightarrow> price_entry_row list" where
  "load_active_rules tenant now rows =
     filter (\<lambda>e. pe_tenant e = tenant \<and> pe_status e = ''active'' \<and> pe_effective_from e \<le> now
                 \<and> (case pe_effective_to e of None \<Rightarrow> True | Some t \<Rightarrow> t \<ge> now)
                 \<and> pe_book_tenant e = tenant \<and> pe_book_status e = ''active'' \<and> pe_book_default e) rows"

fun scope_name :: "scope_type \<Rightarrow> string" where
  "scope_name Variant_Scope = ''variant''"
| "scope_name Product_Scope = ''product''"
| "scope_name Brand_Scope = ''brand''"
| "scope_name Category_Scope = ''category''"
| "scope_name Global_Scope = ''global''"

definition scope_key :: "scope_type \<Rightarrow> string option \<Rightarrow> string" where
  "scope_key scope i =
     scope_name scope @ '':'' @ (if scope = Global_Scope then [] else case i of None \<Rightarrow> [] | Some s \<Rightarrow> s)"

type_synonym 'a price_index = "(string \<times> 'a price_entry_scheme list) list"

definition index_entry :: "'a price_entry_scheme \<Rightarrow> 'a price_index \<Rightarrow> 'a price_index" where
  "index_entry e index =
     (let key = scope_key (pe_scope e) (pe_scope_id e) in
      case map_of index key of
        Some bucket \<Rightarrow> AList.update key (bucket @ [e]) index
      | None \<Rightarrow> AList.update key [e] index)"

definition build_index :: "'a price_entry_scheme list \<Rightarrow> 'a price_index" where
  "build_index entries = fold index_entry entries []"

section \<open>Quotes\<close>

definition price_from_entry ::
  "dec_lib \<Rightarrow> priceable_variant \<Rightarrow> 'a price_entry_scheme \<Rightarrow> int \<Rightarrow> tax_index \<Rightarrow> price_quote result" where
  "price_from_entry L v e qty codes =
     (let authored = moneyq L (pe_unit_price e) in
      and_then (resolve_category_id v) (\<lambda>category.
      and_then (or_throw (codes category) (DomainError ''TAX_NO_ACTIVE_CODE'')) (\<lambda>code.
      let tax = tax_calculate L code authored (pe_tax_mode e) None;
          floor_price = (case pe_floor_price e of None \<Rightarrow> moneyq L (pv_cost_price v) | Some f \<Rightarrow> moneyq L f)
      in Inr \<lparr>pq_qty = qty, pq_unit_price = tr_net tax, pq_net_price = tr_net tax,
              pq_tax_percent = tr_rate tax, pq_tax_amount = tr_tax tax, pq_selling_price = tr_gross tax,
              pq_tax = tax, pq_min_allowed_price = floor_price,
              pq_floor_is_cost_derived = (pe_floor_price e = None),
              pq_source = \<lparr>ps_book = pe_book e, ps_entry = pe_id e, ps_scope = pe_scope e,
                           ps_scope_id = pe_scope_id e, ps_min_qty = pe_min_qty e\<rparr>\<rparr>)))"

definition scope_priority :: "scope_type list" where
  "scope_priority = [Variant_Scope, Product_Scope, Brand_Scope, Category_Scope, Global_Scope]"

fun level_id :: "priceable_variant \<Rightarrow> scope_type \<Rightarrow> string option" where
  "level_id v Variant_Scope = Some (pv_id v)"
| "level_id v Product_Scope = Some (pv_product v)"
| "level_id v Brand_Scope = pv_product_brand v"
| "level_id v Category_Scope = pv_product_category v"
| "level_id v Global_Scope = None"

text \<open>\<open>candidates.reduce((best, current) => current.min_qty > best.min_qty ? current : best)\<close>\<close>

definition tightest_break :: "'a price_entry_scheme list \<Rightarrow> 'a price_entry_scheme" where
  "tightest_break es =
     foldl (\<lambda>best current. if pe_min_qty current > pe_min_qty best then current else best) (hd es) (tl es)"

fun quote_levels ::
  "dec_lib \<Rightarrow> priceable_variant \<Rightarrow> 'a price_index \<Rightarrow> int \<Rightarrow> tax_index \<Rightarrow> scope_type list \<Rightarrow> price_quote option result" where
  "quote_levels L v index qty codes [] = Inr None"
| "quote_levels L v index qty codes (level # levels) =
     (let target = level_id v level in
      if level \<noteq> Global_Scope \<and> \<not> truthy target then quote_levels L v index qty codes levels
      else
        (let bucket = (case map_of index (scope_key level target) of None \<Rightarrow> [] | Some es \<Rightarrow> es);
             candidates = filter (\<lambda>e. pe_min_qty e \<le> of_int qty) bucket in
         if candidates = [] then quote_levels L v index qty codes levels
         else and_then (price_from_entry L v (tightest_break candidates) qty codes) (\<lambda>q. Inr (Some q))))"

definition quote_indexed ::
  "dec_lib \<Rightarrow> priceable_variant \<Rightarrow> 'a price_index \<Rightarrow> int \<Rightarrow> tax_index \<Rightarrow> price_quote option result" where
  "quote_indexed L v index qty codes = quote_levels L v index qty codes scope_priority"

definition quote ::
  "dec_lib \<Rightarrow> priceable_variant \<Rightarrow> 'a price_entry_scheme list \<Rightarrow> int \<Rightarrow> tax_index \<Rightarrow> price_quote option result" where
  "quote L v entries qty codes = quote_indexed L v (build_index entries) qty codes"

text \<open>The catalog snapshot leaves out a variant that has no price, or no active tax code.\<close>

definition quote_many ::
  "dec_lib \<Rightarrow> priceable_variant list \<Rightarrow> 'a price_entry_scheme list \<Rightarrow> tax_index \<Rightarrow> (string \<times> price_quote) list result" where
  "quote_many L variants entries codes =
     (let index = build_index entries in
      fold_result (\<lambda>v quotes.
        case quote_indexed L v index 1 codes of
          Inl e \<Rightarrow> if e = DomainError ''TAX_NO_ACTIVE_CODE'' then Inr quotes else Inl e
        | Inr None \<Rightarrow> Inr quotes
        | Inr (Some q) \<Rightarrow> Inr (AList.update (pv_id v) q quotes)) variants [])"

definition price_line ::
  "dec_lib \<Rightarrow> 'a price_index \<Rightarrow> tax_index \<Rightarrow> priceable_line \<Rightarrow> (string \<times> price_quote) list \<times> string list
   \<Rightarrow> ((string \<times> price_quote) list \<times> string list) result" where
  "price_line L index codes line st =
     and_then (quote_indexed L (ln_variant line) index (ln_qty line) codes) (\<lambda>q.
       case q of
         None \<Rightarrow> Inr (fst st, snd st @ [pv_id (ln_variant line)])
       | Some p \<Rightarrow> Inr (AList.update (pv_id (ln_variant line)) p (fst st), snd st))"

definition calculate_many ::
  "dec_lib \<Rightarrow> 'a price_entry_scheme list \<Rightarrow> tax_index \<Rightarrow> priceable_line list \<Rightarrow> (string \<times> price_quote) list result" where
  "calculate_many L entries codes lines =
     and_then (fold_result (price_line L (build_index entries) codes) lines ([], [])) (\<lambda>st.
     and_then (throw_if (snd st \<noteq> []) (DomainError ''PRICING_NO_PRICE_AVAILABLE'')) (\<lambda>_. Inr (fst st)))"

definition calculate ::
  "dec_lib \<Rightarrow> priceable_variant option \<Rightarrow> 'a price_entry_scheme list \<Rightarrow> tax_index \<Rightarrow> int \<Rightarrow> price_quote result" where
  "calculate L variant entries codes qty =
     and_then (or_throw variant (DomainError ''RESOURCE_NOT_FOUND'')) (\<lambda>v.
     and_then (quote L v entries qty codes) (\<lambda>q.
     or_throw q (DomainError ''PRICING_NO_PRICE_AVAILABLE'')))"

section \<open>The index finds what a scan of the entries finds\<close>

definition bucket_of :: "'a price_index \<Rightarrow> string \<Rightarrow> 'a price_entry_scheme list" where
  "bucket_of index key = (case map_of index key of None \<Rightarrow> [] | Some es \<Rightarrow> es)"

lemma bucket_index_entry:
  "bucket_of (index_entry e index) key =
     (if key = scope_key (pe_scope e) (pe_scope_id e) then bucket_of index key @ [e] else bucket_of index key)"
  by (auto simp: bucket_of_def index_entry_def Let_def update_conv split: option.splits)

lemma bucket_fold:
  "bucket_of (fold index_entry es index) key =
     bucket_of index key @ filter (\<lambda>e. scope_key (pe_scope e) (pe_scope_id e) = key) es"
  by (induction es arbitrary: index) (auto simp: bucket_index_entry)

lemma bucket_build_index:
  "bucket_of (build_index es) key = filter (\<lambda>e. scope_key (pe_scope e) (pe_scope_id e) = key) es"
  by (simp add: build_index_def bucket_fold) (simp add: bucket_of_def)

lemma scope_key_iff:
  "truthy i \<Longrightarrow> scope_key s j = scope_key s' i \<longleftrightarrow> s = s' \<and> (s' = Global_Scope \<or> j = i)"
  by (cases s; cases s'; cases i; cases j) (auto simp: scope_key_def)

lemma scope_key_global: "scope_key s j = scope_key Global_Scope i \<longleftrightarrow> s = Global_Scope"
  by (cases s; cases j) (auto simp: scope_key_def)

definition qualifies :: "priceable_variant \<Rightarrow> int \<Rightarrow> 'a price_entry_scheme \<Rightarrow> bool" where
  "qualifies v qty e \<longleftrightarrow>
     (pe_scope e = Global_Scope \<or> (truthy (level_id v (pe_scope e)) \<and> pe_scope_id e = level_id v (pe_scope e)))
     \<and> pe_min_qty e \<le> of_int qty"

fun scope_rank :: "scope_type \<Rightarrow> nat" where
  "scope_rank Variant_Scope = 0"
| "scope_rank Product_Scope = 1"
| "scope_rank Brand_Scope = 2"
| "scope_rank Category_Scope = 3"
| "scope_rank Global_Scope = 4"

definition tighter :: "'a price_entry_scheme \<Rightarrow> 'a price_entry_scheme \<Rightarrow> 'a price_entry_scheme" where
  "tighter best current = (if pe_min_qty current > pe_min_qty best then current else best)"

lemma tighter_fold:
  "foldl tighter b es \<in> insert b (set es) \<and> (\<forall>e \<in> insert b (set es). pe_min_qty e \<le> pe_min_qty (foldl tighter b es))"
proof (induction es arbitrary: b)
  case (Cons e es)
  from Cons [of "tighter b e"] show ?case by (auto simp: tighter_def split: if_splits)
qed simp

lemma tightest_break:
  assumes "es \<noteq> []"
  shows "tightest_break es \<in> set es" and "e \<in> set es \<Longrightarrow> pe_min_qty e \<le> pe_min_qty (tightest_break es)"
proof -
  obtain b bs where es: "es = b # bs" using assms by (cases es) auto
  have t: "tightest_break es = foldl tighter b bs" by (simp add: tightest_break_def es tighter_def [abs_def])
  note f = tighter_fold [of b bs]
  show "tightest_break es \<in> set es" using f unfolding t by (auto simp: es)
  show "e \<in> set es \<Longrightarrow> pe_min_qty e \<le> pe_min_qty (tightest_break es)" using f unfolding t by (auto simp: es)
qed

lemma candidates_eq:
  assumes "\<not> (level \<noteq> Global_Scope \<and> \<not> truthy (level_id v level))"
  shows "filter (\<lambda>e. pe_min_qty e \<le> of_int qty) (bucket_of (build_index es) (scope_key level (level_id v level)))
       = filter (\<lambda>e. pe_scope e = level \<and> qualifies v qty e) es"
proof (cases "level = Global_Scope")
  case True
  show ?thesis unfolding True bucket_build_index filter_filter
    by (rule filter_cong) (auto simp: qualifies_def scope_key_global)
next
  case False
  then have t: "truthy (level_id v level)" using assms by simp
  show ?thesis unfolding bucket_build_index filter_filter
    by (rule filter_cong) (use False t in \<open>auto simp: qualifies_def scope_key_iff\<close>)
qed

text \<open>The reference: the first scope, in the order of priority, that has a qualifying entry.\<close>

fun resolve_levels :: "priceable_variant \<Rightarrow> int \<Rightarrow> 'a price_entry_scheme list \<Rightarrow> scope_type list \<Rightarrow> 'a price_entry_scheme option" where
  "resolve_levels v qty es [] = None"
| "resolve_levels v qty es (level # levels) =
     (let found = filter (\<lambda>e. pe_scope e = level \<and> qualifies v qty e) es in
      if found = [] then resolve_levels v qty es levels else Some (tightest_break found))"

lemma no_candidates:
  assumes "level \<noteq> Global_Scope" and "\<not> truthy (level_id v level)"
  shows "filter (\<lambda>e. pe_scope e = level \<and> qualifies v qty e) es = []"
  using assms by (auto simp: filter_empty_conv qualifies_def)

lemma quote_levels_resolve:
  "quote_levels L v (build_index es) qty codes levels =
     (case resolve_levels v qty es levels of
        None \<Rightarrow> Inr None
      | Some e \<Rightarrow> and_then (price_from_entry L v e qty codes) (\<lambda>q. Inr (Some q)))"
proof (induction levels)
  case (Cons level levels)
  show ?case
  proof (cases "level \<noteq> Global_Scope \<and> \<not> truthy (level_id v level)")
    case True
    then have n: "filter (\<lambda>e. pe_scope e = level \<and> qualifies v qty e) es = []" by (intro no_candidates) simp_all
    show ?thesis unfolding quote_levels.simps resolve_levels.simps n Let_def using True Cons.IH by simp
  next
    case False
    note c = candidates_eq [OF False, of qty es, unfolded bucket_of_def]
    show ?thesis
      unfolding quote_levels.simps resolve_levels.simps Let_def c using False Cons.IH
      by auto
  qed
qed simp

lemma quote_resolve:
  "quote L v es qty codes =
     (case resolve_levels v qty es scope_priority of
        None \<Rightarrow> Inr None
      | Some e \<Rightarrow> and_then (price_from_entry L v e qty codes) (\<lambda>q. Inr (Some q)))"
  by (simp add: quote_def quote_indexed_def quote_levels_resolve)

lemma resolve_levels_Some:
  assumes "resolve_levels v qty es levels = Some e" and "sorted (map scope_rank levels)" and "distinct levels"
  shows "e \<in> set es \<and> qualifies v qty e
       \<and> (\<forall>e' \<in> set es. qualifies v qty e' \<and> pe_scope e' \<in> set levels \<longrightarrow>
            scope_rank (pe_scope e) < scope_rank (pe_scope e')
            \<or> (pe_scope e = pe_scope e' \<and> pe_min_qty e' \<le> pe_min_qty e))"
  using assms
proof (induction levels)
  case (Cons level levels)
  let ?found = "filter (\<lambda>e. pe_scope e = level \<and> qualifies v qty e) es"
  have rank: "scope_rank level < scope_rank s" if "s \<in> set levels" for s
  proof -
    have "scope_rank level \<le> scope_rank s" "level \<noteq> s" using Cons.prems(2,3) that by auto
    then show ?thesis by (cases level; cases s) auto
  qed
  show ?case
  proof (cases "?found = []")
    case True
    then have "resolve_levels v qty es levels = Some e" using Cons.prems(1) by simp
    then have ih: "e \<in> set es \<and> qualifies v qty e
       \<and> (\<forall>e' \<in> set es. qualifies v qty e' \<and> pe_scope e' \<in> set levels \<longrightarrow>
            scope_rank (pe_scope e) < scope_rank (pe_scope e')
            \<or> (pe_scope e = pe_scope e' \<and> pe_min_qty e' \<le> pe_min_qty e))" using Cons by simp
    have "pe_scope e' \<noteq> level" if "e' \<in> set es" "qualifies v qty e'" for e'
      using True that by (auto simp: filter_empty_conv)
    with ih show ?thesis by auto
  next
    case False
    then have e: "e = tightest_break ?found" using Cons.prems(1) by simp
    have m: "e \<in> set ?found" unfolding e by (rule tightest_break(1) [OF False])
    have b: "pe_min_qty e' \<le> pe_min_qty e" if "e' \<in> set ?found" for e'
      unfolding e by (rule tightest_break(2) [OF False that])
    show ?thesis using m b rank by auto
  qed
qed simp

lemma resolve_levels_None:
  "resolve_levels v qty es levels = None \<longleftrightarrow> (\<forall>e \<in> set es. qualifies v qty e \<longrightarrow> pe_scope e \<notin> set levels)"
  by (induction levels) (auto simp: Let_def filter_empty_conv)

lemma all_scopes: "s \<in> set scope_priority"
  by (cases s) (simp_all add: scope_priority_def)

lemma scope_priority_sorted: "sorted (map scope_rank scope_priority)" "distinct scope_priority"
  by (simp_all add: scope_priority_def)

lemma price_from_entry_source:
  "price_from_entry L v e qty codes = Inr q \<Longrightarrow>
     ps_entry (pq_source q) = pe_id e \<and> ps_scope (pq_source q) = pe_scope e \<and> pq_qty q = qty
     \<and> (\<exists>category code. resolve_category_id v = Inr category \<and> codes category = Some code
          \<and> pq_tax q = tax_calculate L code (moneyq L (pe_unit_price e)) (pe_tax_mode e) None
          \<and> pq_net_price q = tr_net (pq_tax q) \<and> pq_tax_amount q = tr_tax (pq_tax q)
          \<and> pq_selling_price q = tr_gross (pq_tax q))"
  by (auto simp: price_from_entry_def Let_def result_simps)

text \<open>Pricing the lines of a sale prices each of them, or none.\<close>

lemma price_line_step:
  assumes "price_line L (build_index es) codes line st = Inr st'" and "snd st' = []"
  shows "snd st = [] \<and> (\<exists>q. quote L (ln_variant line) es (ln_qty line) codes = Inr (Some q)
           \<and> fst st' = AList.update (pv_id (ln_variant line)) q (fst st))"
  using assms by (auto simp: price_line_def quote_def result_simps split: option.splits)

lemma price_lines:
  assumes "fold_result (price_line L (build_index es) codes) lines st = Inr st'" and "snd st' = []"
    and "distinct (map (\<lambda>l. pv_id (ln_variant l)) lines)"
  shows "snd st = []
       \<and> (\<forall>line \<in> set lines. \<exists>q. map_of (fst st') (pv_id (ln_variant line)) = Some q
            \<and> quote L (ln_variant line) es (ln_qty line) codes = Inr (Some q))
       \<and> (\<forall>k. k \<notin> (\<lambda>l. pv_id (ln_variant l)) ` set lines \<longrightarrow> map_of (fst st') k = map_of (fst st) k)"
  using assms
proof (induction lines arbitrary: st)
  case (Cons line lines)
  from Cons.prems(1) obtain t where t: "price_line L (build_index es) codes line st = Inr t"
    "fold_result (price_line L (build_index es) codes) lines t = Inr st'" by (auto simp: result_simps)
  have ih: "snd t = []
       \<and> (\<forall>line \<in> set lines. \<exists>q. map_of (fst st') (pv_id (ln_variant line)) = Some q
            \<and> quote L (ln_variant line) es (ln_qty line) codes = Inr (Some q))
       \<and> (\<forall>k. k \<notin> (\<lambda>l. pv_id (ln_variant l)) ` set lines \<longrightarrow> map_of (fst st') k = map_of (fst t) k)"
    using Cons.IH [OF t(2) Cons.prems(2)] Cons.prems(3) by simp
  with price_line_step [OF t(1)] obtain q where q: "snd st = []"
    "quote L (ln_variant line) es (ln_qty line) codes = Inr (Some q)"
    "fst t = AList.update (pv_id (ln_variant line)) q (fst st)" by blast
  have "map_of (fst st') (pv_id (ln_variant line)) = Some q"
    using ih Cons.prems(3) q(3) by (simp add: update_conv)
  with ih q show ?case by (auto simp: update_conv)
qed simp

lemma calculate_many_quotes:
  assumes "calculate_many L es codes lines = Inr m" and "distinct (map (\<lambda>l. pv_id (ln_variant l)) lines)"
    and "line \<in> set lines"
  shows "\<exists>q. map_of m (pv_id (ln_variant line)) = Some q
           \<and> quote L (ln_variant line) es (ln_qty line) codes = Inr (Some q)"
proof -
  from assms(1) obtain st where st: "fold_result (price_line L (build_index es) codes) lines ([], []) = Inr st"
    "snd st = []" "m = fst st" by (auto simp: calculate_many_def result_simps)
  from price_lines [OF st(1,2) assms(2)] assms(3) st(3) show ?thesis by blast
qed

section \<open>Properties\<close>

lemma quote_spec:
  "(quote L v es qty codes = Inr None \<longleftrightarrow> (\<forall>e \<in> set es. \<not> qualifies v qty e))
   \<and> (\<forall>q. quote L v es qty codes = Inr (Some q) \<longrightarrow>
        (\<exists>e \<in> set es. qualifies v qty e \<and> ps_entry (pq_source q) = pe_id e
           \<and> (\<forall>e' \<in> set es. qualifies v qty e' \<longrightarrow>
                scope_rank (pe_scope e) < scope_rank (pe_scope e')
                \<or> (pe_scope e = pe_scope e' \<and> pe_min_qty e' \<le> pe_min_qty e))
           \<and> (\<exists>category code. resolve_category_id v = Inr category \<and> codes category = Some code
                \<and> pq_tax q = tax_calculate L code (moneyq L (pe_unit_price e)) (pe_tax_mode e) None)))"
proof (cases "resolve_levels v qty es scope_priority")
  case None
  then show ?thesis using resolve_levels_None [of v qty es scope_priority] all_scopes by (auto simp: quote_resolve)
next
  case (Some e)
  note r = resolve_levels_Some [OF Some scope_priority_sorted]
  have n: "quote L v es qty codes \<noteq> Inr None" using Some by (auto simp: quote_resolve result_simps)
  have "\<exists>e \<in> set es. qualifies v qty e" using r by blast
  moreover have "ps_entry (pq_source q) = pe_id e \<and> (\<exists>category code. resolve_category_id v = Inr category
      \<and> codes category = Some code
      \<and> pq_tax q = tax_calculate L code (moneyq L (pe_unit_price e)) (pe_tax_mode e) None)"
    if "quote L v es qty codes = Inr (Some q)" for q
    using that Some price_from_entry_source [of L v e qty codes q] by (auto simp: quote_resolve result_simps)
  ultimately show ?thesis using n r all_scopes by blast
qed

text \<open>C29: the price of a variant is found through the bucketed index exactly when some entry
  qualifies; it is then the entry of the most specific scope, there the one with the largest
  quantity break the quantity clears, taxed at the active code of the variant's tax category.\<close>

theorem price_resolution:
  "(quote L v es qty codes = Inr None \<longleftrightarrow> (\<forall>e \<in> set es. \<not> qualifies v qty e))
   \<and> (\<forall>q. quote L v es qty codes = Inr (Some q) \<longrightarrow>
        (\<exists>e \<in> set es. qualifies v qty e \<and> ps_entry (pq_source q) = pe_id e
           \<and> (\<forall>e' \<in> set es. qualifies v qty e' \<longrightarrow>
                scope_rank (pe_scope e) < scope_rank (pe_scope e')
                \<or> (pe_scope e = pe_scope e' \<and> pe_min_qty e' \<le> pe_min_qty e))
           \<and> (\<exists>category code. resolve_category_id v = Inr category \<and> codes category = Some code
                \<and> pq_tax q = tax_calculate L code (moneyq L (pe_unit_price e)) (pe_tax_mode e) None)))"
  by (rule quote_spec)

definition sample_variant :: priceable_variant where
  "sample_variant = \<lparr>pv_id = ''v1'', pv_product = ''p1'', pv_cost_price = 60, pv_tax_category = None,
     pv_product_category = None, pv_product_brand = None, pv_product_tax_category = Some ''standard''\<rparr>"

definition sample_entry :: "string \<Rightarrow> scope_type \<Rightarrow> string option \<Rightarrow> rat \<Rightarrow> rat \<Rightarrow> price_entry" where
  "sample_entry i scope scope_id qty price =
     \<lparr>pe_id = i, pe_book = ''book'', pe_scope = scope, pe_scope_id = scope_id, pe_min_qty = qty,
      pe_unit_price = price, pe_tax_mode = Exclusive, pe_floor_price = None\<rparr>"

definition sample_entries :: "price_entry list" where
  "sample_entries = [sample_entry ''g'' Global_Scope None 1 100, sample_entry ''v'' Variant_Scope (Some ''v1'') 1 90,
     sample_entry ''v10'' Variant_Scope (Some ''v1'') 10 80]"

definition sample_codes :: tax_index where
  "sample_codes category = (if category = ''standard'' then Some sample_code else None)"

theorem price_resolution_witness:
  "\<exists>q. quote dec_exact sample_variant sample_entries 12 sample_codes = Inr (Some q)
     \<and> ps_entry (pq_source q) = ''v10'' \<and> pq_net_price q = 80 \<and> pq_tax_amount q = 112 / 10
     \<and> (\<exists>e \<in> set sample_entries. qualifies sample_variant 12 e \<and> ps_entry (pq_source q) = pe_id e)"
proof -
  have "(case quote dec_exact sample_variant sample_entries 12 sample_codes of
          Inr (Some q) \<Rightarrow> ps_entry (pq_source q) = ''v10'' \<and> pq_net_price q = 80 \<and> pq_tax_amount q = 112 / 10
        | _ \<Rightarrow> False)" by code_simp
  then obtain q where q: "quote dec_exact sample_variant sample_entries 12 sample_codes = Inr (Some q)"
    "ps_entry (pq_source q) = ''v10'' \<and> pq_net_price q = 80 \<and> pq_tax_amount q = 112 / 10"
    by (auto split: sum.splits option.splits)
  then show ?thesis
    using price_resolution [of dec_exact sample_variant sample_entries 12 sample_codes] by blast
qed

end
