(* ===== verification/Branch_Access.thy ===== *)
theory Branch_Access
  imports Js_Arrays
begin

text \<open>
  \<open>backend/src/auth/branch-access.ts\<close>: which branches a signed-in user may act for.
\<close>

datatype role = Owner | Branch_Manager | Cashier | Warehouse_Manager | Seller

record actor =
  ac_sub :: string
  ac_role :: role
  ac_branch :: "string option"

definition assert_branch_access :: "actor \<Rightarrow> string \<Rightarrow> role list \<Rightarrow> unit result" where
  "assert_branch_access user branch global_roles =
     (if ac_role user \<in> set global_roles then Inr ()
      else throw_if (\<not> truthy (ac_branch user) \<or> ac_branch user \<noteq> Some branch)
             (Forbidden ''You cannot access another branch''))"

definition resolve_branch_scope :: "actor \<Rightarrow> string option \<Rightarrow> role list \<Rightarrow> string option result" where
  "resolve_branch_scope user requested global_roles =
     (if ac_role user \<in> set global_roles then Inr requested
      else and_then (throw_if (\<not> truthy (ac_branch user) \<or> (truthy requested \<and> requested \<noteq> ac_branch user))
                      (Forbidden ''You cannot access another branch'')) (\<lambda>_. Inr (ac_branch user)))"

lemma assert_branch_access_Inr:
  "assert_branch_access user branch roles = Inr u \<longleftrightarrow>
     ac_role user \<in> set roles \<or> (branch \<noteq> [] \<and> ac_branch user = Some branch)"
  by (cases "ac_branch user") (auto simp: assert_branch_access_def result_simps)

end
