(* ===== verification/Transfers.thy ===== *)
theory Transfers
  imports Ledger Branch_Access Js_Value Domain_Decimal
begin

text \<open>
  Stock transfers between branches: \<open>backend/src/transfers/transfers.service.ts\<close> and
  \<open>transfer-command.ts\<close>, with the database triggers the service relies on (migrations
  \<open>202607230002_transfer_state_machine\<close> and \<open>202608040112_fix_ledger_triggers_tenant_id\<close>):
  the guard of the posted documents, run before each update, and the constraint trigger that
  writes the inventory and transit movements of an item, deferred to the commit.

  A handler is one serializable transaction: it returns the transfer it loads and the new state, or
  an error, and then the state is unchanged. \<open>randomUUID()\<close>, the digest and the collation are
  parameters.
\<close>

section \<open>Tables\<close>

datatype transfer_status = Pending | Shipped | Partially_Received | Received | Cancelled

datatype command_type = Ship | Receive | Cancel

datatype transit_type = Transit_Shipped | Transit_Received | Transit_Damaged | Transit_Missing

record transfer =
  xf_id :: id
  xf_tenant :: id
  xf_from :: id
  xf_to :: id
  xf_status :: transfer_status
  xf_number :: string
  xf_key :: string
  xf_fingerprint :: string
  xf_created_by :: id
  xf_shipped_by :: "id option"
  xf_shipped_at :: "int option"
  xf_received_by :: "id option"
  xf_received_at :: "int option"
  xf_cancelled_by :: "id option"
  xf_cancelled_at :: "int option"
  xf_reason :: "string option"
  xf_created_at :: int

record transfer_item =
  xi_id :: id
  xi_transfer :: id
  xi_variant :: id
  xi_qty :: int
  xi_shipped :: int
  xi_received :: int
  xi_damaged :: int
  xi_missing :: int
  xi_tenant :: id

record command_row =
  co_transfer :: id
  co_type :: command_type
  co_key :: string
  co_fingerprint :: string
  co_result :: transfer_status
  co_by :: id
  co_tenant :: id

record transit_row =
  tm_transfer :: id
  tm_item :: id
  tm_variant :: id
  tm_type :: transit_type
  tm_delta :: int
  tm_after :: int
  tm_key :: string
  tm_tenant :: id

record transfer_db = ledger_db +
  branches :: "branch_row list"
  variant_tenants :: "(id \<times> id) list"
  transfers :: "transfer list"
  transfer_items :: "transfer_item list"
  commands :: "command_row list"
  transit :: "transit_row list"
  audits :: "audit_row list"
  number_sequence :: int

text \<open>What a call brings along: the tenant, the signed-in user, the clock and the identifiers it draws
  (the command id if it brings none, the transfer, its items).\<close>

record transfer_call =
  xc_tenant :: id
  xc_actor :: actor
  xc_now :: int
  xc_uuid :: "nat \<Rightarrow> id"

record transfer_host =
  th_compare :: "string comparing"
  th_text :: number_text
  th_sha256 :: "string \<Rightarrow> string"
  th_date :: "int \<Rightarrow> string"

section \<open>Command identity (transfer-command.ts)\<close>

fun canonicalize :: "string comparing \<Rightarrow> js_value \<Rightarrow> js_value" where
  "canonicalize cmp (Array vs) = Array (map (canonicalize cmp) vs)"
| "canonicalize cmp (Object fs) =
     Object (js_sort (\<lambda>l r. cmp (fst l) (fst r)) (map (\<lambda>(k, v). (k, canonicalize cmp v)) fs))"
| "canonicalize cmp v = v"

definition resolve_command_id :: "string option \<Rightarrow> id \<Rightarrow> string" where
  "resolve_command_id command_id fresh = (if truthy command_id then the command_id else fresh)"

definition command_fingerprint :: "transfer_host \<Rightarrow> js_value \<Rightarrow> string" where
  "command_fingerprint H payload = th_sha256 H (json_text (th_text H) (canonicalize (th_compare H) payload))"

section \<open>Statements\<close>

definition db_error :: "string \<Rightarrow> error" where
  "db_error what = JsError what"

definition find_transfer :: "id \<Rightarrow> id \<Rightarrow> ('a transfer_db_scheme) \<Rightarrow> transfer option" where
  "find_transfer tenant i d = find (\<lambda>t. xf_id t = i \<and> xf_tenant t = tenant) (transfers d)"

definition items_of :: "id \<Rightarrow> ('a transfer_db_scheme) \<Rightarrow> transfer_item list" where
  "items_of i d = filter (\<lambda>x. xi_transfer x = i) (transfer_items d)"

definition outstanding :: "transfer_item \<Rightarrow> int" where
  "outstanding x = xi_shipped x - xi_received x - xi_damaged x - xi_missing x"

definition resolved :: "transfer_item \<Rightarrow> int" where
  "resolved x = xi_received x + xi_damaged x + xi_missing x"

definition load_transfer :: "id \<Rightarrow> id \<Rightarrow> ('a transfer_db_scheme) \<Rightarrow> (transfer \<times> transfer_item list) result" where
  "load_transfer tenant i d =
     and_then (or_throw (find_transfer tenant i d) (db_error ''No record was found'')) (\<lambda>t. Inr (t, items_of i d))"

definition lock_transfer :: "id \<Rightarrow> id \<Rightarrow> ('a transfer_db_scheme) \<Rightarrow> transfer result" where
  "lock_transfer tenant i d = or_throw (find_transfer tenant i d) (NotFound ''Transfer not found'')"

text \<open>\<open>ORDER BY "variant_id", "id"\<close>: columns of type uuid, compared byte by byte.\<close>

definition item_order :: "transfer_item comparing" where
  "item_order x y =
     (if xi_variant x = xi_variant y then code_unit_compare (xi_id x) (xi_id y)
      else code_unit_compare (xi_variant x) (xi_variant y))"

definition lock_items :: "id \<Rightarrow> id \<Rightarrow> ('a transfer_db_scheme) \<Rightarrow> transfer_item list" where
  "lock_items tenant i d = js_sort item_order (filter (\<lambda>x. xi_tenant x = tenant) (items_of i d))"

text \<open>The check constraints of \<open>TransferItem\<close> and the guard before an update of its rows.\<close>

definition item_constraints :: "transfer_item \<Rightarrow> bool" where
  "item_constraints x \<longleftrightarrow>
     0 < xi_qty x \<and> int4 (xi_qty x) \<and> 0 \<le> xi_shipped x \<and> xi_shipped x \<le> xi_qty x
     \<and> 0 \<le> xi_received x \<and> 0 \<le> xi_damaged x \<and> 0 \<le> xi_missing x \<and> resolved x \<le> xi_shipped x"

definition item_update_allowed :: "transfer_item \<Rightarrow> transfer_item \<Rightarrow> bool" where
  "item_update_allowed old new \<longleftrightarrow>
     xi_transfer new = xi_transfer old \<and> xi_variant new = xi_variant old \<and> xi_qty new = xi_qty old
     \<and> xi_shipped old \<le> xi_shipped new \<and> xi_received old \<le> xi_received new
     \<and> xi_damaged old \<le> xi_damaged new \<and> xi_missing old \<le> xi_missing new"

text \<open>\<open>UPDATE "TransferItem" SET \<dots> WHERE "id" = \<dots>\<close>: the row before and after it, for the deferred
  trigger, and the new state.\<close>

definition update_item ::
  "id \<Rightarrow> (transfer_item \<Rightarrow> transfer_item) \<Rightarrow> ('a transfer_db_scheme)
   \<Rightarrow> ((transfer_item \<times> transfer_item) list \<times> ('a transfer_db_scheme)) result" where
  "update_item i f d =
     (case find (\<lambda>x. xi_id x = i) (transfer_items d) of
        None \<Rightarrow> Inr ([], d)
      | Some old \<Rightarrow>
          (let new = f old in
           and_then (throw_if (\<not> item_update_allowed old new) (db_error ''Transfer item cumulative quantities cannot decrease'')) (\<lambda>_.
           and_then (throw_if (\<not> item_constraints new) (db_error ''check constraint failed'')) (\<lambda>_.
           Inr ([(old, new)], d\<lparr>transfer_items := map (\<lambda>x. if xi_id x = i then new else x) (transfer_items d)\<rparr>)))))"

text \<open>The guard before an update of a transfer: the transitions, and what each state asks of the items.\<close>

definition transition_allowed :: "transfer_status \<Rightarrow> transfer_status \<Rightarrow> bool" where
  "transition_allowed old new \<longleftrightarrow>
     old = new \<or> (old = Pending \<and> new \<in> {Shipped, Cancelled})
     \<or> (old = Shipped \<and> new \<in> {Partially_Received, Received})
     \<or> (old = Partially_Received \<and> new = Received)"

definition status_fits :: "transfer_status \<Rightarrow> transfer_item list \<Rightarrow> bool" where
  "status_fits s xs \<longleftrightarrow>
     (let resolved_quantity = (\<Sum>x\<leftarrow>xs. resolved x); outstanding_quantity = (\<Sum>x\<leftarrow>xs. outstanding x);
          complete = list_all (\<lambda>x. xi_shipped x = xi_qty x) xs in
      case s of
        Pending \<Rightarrow> resolved_quantity = 0 \<and> outstanding_quantity = 0
      | Cancelled \<Rightarrow> resolved_quantity = 0 \<and> outstanding_quantity = 0
      | Shipped \<Rightarrow> complete \<and> resolved_quantity = 0 \<and> outstanding_quantity > 0
      | Partially_Received \<Rightarrow> complete \<and> resolved_quantity > 0 \<and> outstanding_quantity > 0
      | Received \<Rightarrow> complete \<and> outstanding_quantity = 0)"

definition update_transfer ::
  "id \<Rightarrow> (transfer \<Rightarrow> transfer) \<Rightarrow> ('a transfer_db_scheme) \<Rightarrow> ('a transfer_db_scheme) result" where
  "update_transfer i f d =
     (case find (\<lambda>t. xf_id t = i) (transfers d) of
        None \<Rightarrow> Inr d
      | Some old \<Rightarrow>
          (let new = f old; xs = items_of i d in
           and_then (throw_if (\<not> transition_allowed (xf_status old) (xf_status new)) (db_error ''Invalid transfer state transition'')) (\<lambda>_.
           and_then (throw_if (xs = []) (db_error ''Transfer must contain at least one item'')) (\<lambda>_.
           and_then (throw_if (\<not> status_fits (xf_status new) xs) (db_error ''Transfer items do not fit the state'')) (\<lambda>_.
           and_then (throw_if (xf_status new = Cancelled \<and> (xf_reason new = None \<or> xf_reason new = Some [])) (db_error ''check constraint failed'')) (\<lambda>_.
           Inr (d\<lparr>transfers := map (\<lambda>t. if xf_id t = i then new else t) (transfers d)\<rparr>)))))))"

definition replay_command :: "id \<Rightarrow> id \<Rightarrow> command_type \<Rightarrow> string \<Rightarrow> string \<Rightarrow> ('a transfer_db_scheme) \<Rightarrow> bool result" where
  "replay_command tenant i type key fingerprint d =
     (case find (\<lambda>c. co_key c = key \<and> co_tenant c = tenant) (commands d) of
        None \<Rightarrow> Inr False
      | Some existing \<Rightarrow>
          and_then (throw_if (co_fingerprint existing \<noteq> fingerprint)
                     (Conflict ''Transfer command id belongs to a different payload'')) (\<lambda>_.
          and_then (throw_if (\<not> list_ex (\<lambda>c. co_key c = key \<and> co_tenant c = tenant \<and> co_transfer c = i \<and> co_type c = type) (commands d))
                     (Conflict ''Transfer command id belongs to a different transfer or action'')) (\<lambda>_.
          Inr True)))"

text \<open>The unique index is on the key alone, over all tenants.\<close>

definition record_command ::
  "id \<Rightarrow> id \<Rightarrow> command_type \<Rightarrow> string \<Rightarrow> string \<Rightarrow> transfer_status \<Rightarrow> id \<Rightarrow> ('a transfer_db_scheme) \<Rightarrow> ('a transfer_db_scheme) result" where
  "record_command tenant i type key fingerprint status user d =
     and_then (throw_if (list_ex (\<lambda>c. co_key c = key) (commands d)) (db_error ''unique constraint failed'')) (\<lambda>_.
     Inr (d\<lparr>commands := commands d @ [\<lparr>co_transfer = i, co_type = type, co_key = key, co_fingerprint = fingerprint,
                                       co_result = status, co_by = user, co_tenant = tenant\<rparr>]\<rparr>))"

definition audit :: "id \<Rightarrow> id option \<Rightarrow> string \<Rightarrow> string \<Rightarrow> id \<Rightarrow> ('a transfer_db_scheme) \<Rightarrow> ('a transfer_db_scheme)" where
  "audit tenant user action entity i d =
     d\<lparr>audits := audits d @ [\<lparr>au_tenant = tenant, au_user = user, au_action = action, au_entity = entity, au_entity_id = i\<rparr>]\<rparr>"

section \<open>The deferred trigger of an item\<close>

definition insert_transit :: "transit_row \<Rightarrow> ('a transfer_db_scheme) \<Rightarrow> ('a transfer_db_scheme) result" where
  "insert_transit r d =
     and_then (throw_if (tm_delta r = 0 \<or> tm_after r < 0) (db_error ''check constraint failed'')) (\<lambda>_.
     and_then (throw_if (list_ex (\<lambda>m. tm_key m = tm_key r) (transit d)) (db_error ''unique constraint failed'')) (\<lambda>_.
     Inr (d\<lparr>transit := transit d @ [r]\<rparr>)))"

definition transit_of :: "transfer \<Rightarrow> transfer_item \<Rightarrow> transit_type \<Rightarrow> string \<Rightarrow> int \<Rightarrow> int \<Rightarrow> int \<Rightarrow> transit_row" where
  "transit_of t x type prefix total_qty delta after =
     \<lparr>tm_transfer = xi_transfer x, tm_item = xi_id x, tm_variant = xi_variant x, tm_type = type,
      tm_delta = delta, tm_after = after, tm_key = prefix @ xi_id x @ '':'' @ int_string total_qty,
      tm_tenant = xf_tenant t\<rparr>"

definition movement_of :: "transfer_item \<Rightarrow> id \<Rightarrow> movement_type \<Rightarrow> int \<Rightarrow> string \<Rightarrow> int \<Rightarrow> int \<Rightarrow> id option \<Rightarrow> movement_command" where
  "movement_of x branch type delta prefix total_qty at_time user =
     \<lparr>mc_branch = branch, mc_variant = xi_variant x, mc_type = type, mc_on_hand_delta = delta,
      mc_reserved_delta = 0, mc_reference_type = ''Transfer'', mc_reference_id = xi_transfer x,
      mc_reference_line = Some (xi_id x), mc_key = prefix @ xi_id x @ '':'' @ int_string total_qty,
      mc_occurred_at = at_time, mc_created_by = user\<rparr>"

definition coalesce :: "'a option \<Rightarrow> 'a \<Rightarrow> 'a" where
  "coalesce x y = (case x of None \<Rightarrow> y | Some z \<Rightarrow> z)"

definition ship_movements :: "int \<Rightarrow> transfer \<Rightarrow> transfer_item \<Rightarrow> int \<Rightarrow> int \<Rightarrow> ('a transfer_db_scheme) \<Rightarrow> ('a transfer_db_scheme) result" where
  "ship_movements now t new delta cursor d =
     (if delta > 0 then
        and_then (record_inventory_movement
                    (movement_of new (xf_from t) Transfer_Out (- delta) ''transfer-out:'' (xi_shipped new)
                       (coalesce (xf_shipped_at t) now) (xf_shipped_by t)) d)
          (insert_transit (transit_of t new Transit_Shipped ''transit-shipped:'' (xi_shipped new) delta (cursor + delta)))
      else Inr d)"

definition receive_movements :: "int \<Rightarrow> transfer \<Rightarrow> transfer_item \<Rightarrow> int \<Rightarrow> int \<Rightarrow> ('a transfer_db_scheme) \<Rightarrow> ('a transfer_db_scheme) result" where
  "receive_movements now t new delta cursor d =
     (if delta > 0 then
        and_then (record_inventory_movement
                    (movement_of new (xf_to t) Transfer_In delta ''transfer-in:'' (xi_received new) now (xf_received_by t)) d)
          (insert_transit (transit_of t new Transit_Received ''transit-received:'' (xi_received new) (- delta) (cursor - delta)))
      else Inr d)"

definition loss_movement :: "transfer \<Rightarrow> transfer_item \<Rightarrow> transit_type \<Rightarrow> string \<Rightarrow> int \<Rightarrow> int \<Rightarrow> int \<Rightarrow> ('a transfer_db_scheme) \<Rightarrow> ('a transfer_db_scheme) result" where
  "loss_movement t new type prefix total_qty delta cursor d =
     (if delta > 0 then insert_transit (transit_of t new type prefix total_qty (- delta) (cursor - delta)) d
      else Inr d)"

definition record_item_movements :: "int \<Rightarrow> transfer_item \<times> transfer_item \<Rightarrow> ('a transfer_db_scheme) \<Rightarrow> ('a transfer_db_scheme) result" where
  "record_item_movements now event d =
     (let old = fst event; new = snd event in
      and_then (or_throw (find (\<lambda>t. xf_id t = xi_transfer new) (transfers d)) (db_error ''Transfer does not exist'')) (\<lambda>t.
      let shipped = xi_shipped new - xi_shipped old; received = xi_received new - xi_received old;
          damaged = xi_damaged new - xi_damaged old; missing = xi_missing new - xi_missing old in
      and_then (throw_if (shipped < 0 \<or> received < 0 \<or> damaged < 0 \<or> missing < 0)
                 (db_error ''Transfer item cumulative quantities cannot decrease outside a correction workflow'')) (\<lambda>_.
      and_then (throw_if (shipped > 0 \<and> xf_status t \<notin> {Shipped, Partially_Received, Received})
                 (db_error ''Transfer item shipment requires a shipped transfer state'')) (\<lambda>_.
      and_then (throw_if ((received > 0 \<or> damaged > 0 \<or> missing > 0) \<and> xf_status t \<notin> {Partially_Received, Received})
                 (db_error ''Transfer item resolution requires a receiving transfer state'')) (\<lambda>_.
      let c0 = outstanding old; c1 = c0 + shipped; c2 = c1 - received; c3 = c2 - damaged; c4 = c3 - missing in
      and_then (ship_movements now t new shipped c0 d) (\<lambda>d1.
      and_then (receive_movements now t new received c1 d1) (\<lambda>d2.
      and_then (loss_movement t new Transit_Damaged ''transit-damaged:'' (xi_damaged new) damaged c2 d2) (\<lambda>d3.
      and_then (loss_movement t new Transit_Missing ''transit-missing:'' (xi_missing new) missing c3 d3) (\<lambda>d4.
      and_then (throw_if (c4 \<noteq> outstanding new) (db_error ''Transfer transit balance mismatch'')) (\<lambda>_.
      Inr d4))))))))))"

definition commit :: "int \<Rightarrow> (transfer_item \<times> transfer_item) list \<Rightarrow> ('a transfer_db_scheme) \<Rightarrow> ('a transfer_db_scheme) result" where
  "commit now events d = fold_result (record_item_movements now) events d"

section \<open>Handlers\<close>

record transfer_item_dto =
  td_variant :: id
  td_qty :: int

record create_transfer_dto =
  ct_from :: id
  ct_to :: id
  ct_command :: "string option"
  ct_items :: "transfer_item_dto list"

record receipt_line =
  rl_item :: id
  rl_received :: int
  rl_damaged :: int
  rl_missing :: int

type_synonym 'a transfer_outcome = "((transfer \<times> transfer_item list) \<times> 'a transfer_db_scheme) result"

definition outcome :: "id \<Rightarrow> id \<Rightarrow> 'a transfer_db_scheme \<Rightarrow> 'a transfer_outcome" where
  "outcome tenant i d = and_then (load_transfer tenant i d) (\<lambda>r. Inr (r, d))"

subsection \<open>create\<close>

definition merged_quantities :: "transfer_host \<Rightarrow> transfer_item_dto list \<Rightarrow> (id \<times> int) list" where
  "merged_quantities H items =
     js_sort (\<lambda>l r. th_compare H (fst l) (fst r))
       (fold (\<lambda>x q. AList.update (td_variant x) ((case map_of q (td_variant x) of None \<Rightarrow> 0 | Some n \<Rightarrow> n) + td_qty x) q) items [])"

definition create_payload :: "create_transfer_dto \<Rightarrow> (id \<times> int) list \<Rightarrow> js_value" where
  "create_payload dto items =
     Object [(''from_branch_id'', String (ct_from dto)), (''to_branch_id'', String (ct_to dto)),
             (''items'', Array (map (\<lambda>(v, q). Object [(''variant_id'', String v), (''qty'', Number (of_int q))]) items))]"

definition transfer_number :: "transfer_host \<Rightarrow> int \<Rightarrow> int \<Rightarrow> string" where
  "transfer_number H now n = ''TR-'' @ th_date H now @ ''-'' @ pad_start 8 (CHR ''0'') (int_string n)"

definition new_transfer_item :: "id \<Rightarrow> id \<Rightarrow> id \<Rightarrow> id \<times> int \<Rightarrow> transfer_item" where
  "new_transfer_item tenant transfer_id i vq =
     \<lparr>xi_id = i, xi_transfer = transfer_id, xi_variant = fst vq, xi_qty = snd vq, xi_shipped = 0,
      xi_received = 0, xi_damaged = 0, xi_missing = 0, xi_tenant = tenant\<rparr>"

definition insert_items :: "transfer_item list \<Rightarrow> 'a transfer_db_scheme \<Rightarrow> 'a transfer_db_scheme result" where
  "insert_items xs d =
     and_then (throw_if (\<not> list_all item_constraints xs) (db_error ''check constraint failed'')) (\<lambda>_.
     and_then (throw_if (list_ex (\<lambda>x. list_ex (\<lambda>y. xi_id y = xi_id x) (transfer_items d)) xs \<or> \<not> distinct (map xi_id xs))
                (db_error ''unique constraint failed'')) (\<lambda>_.
     Inr (d\<lparr>transfer_items := transfer_items d @ xs\<rparr>)))"

definition insert_transfer :: "transfer \<Rightarrow> 'a transfer_db_scheme \<Rightarrow> 'a transfer_db_scheme result" where
  "insert_transfer t d =
     and_then (throw_if (list_ex (\<lambda>u. xf_id u = xf_id t \<or> xf_key u = xf_key t) (transfers d)) (db_error ''unique constraint failed'')) (\<lambda>_.
     Inr (d\<lparr>transfers := transfers d @ [t]\<rparr>))"

definition post_transfer ::
  "transfer_host \<Rightarrow> transfer_call \<Rightarrow> create_transfer_dto \<Rightarrow> (id \<times> int) list \<Rightarrow> string \<Rightarrow> string \<Rightarrow> 'a transfer_db_scheme \<Rightarrow> 'a transfer_outcome" where
  "post_transfer H C dto items key fingerprint d =
     (let tenant = xc_tenant C; i = xc_uuid C 1 in
      and_then (throw_if (length (filter (\<lambda>b. (br_id b = ct_from dto \<or> br_id b = ct_to dto) \<and> br_tenant b = tenant \<and> br_active b) (branches d)) \<noteq> 2)
                 (NotFound ''One or more active branches were not found'')) (\<lambda>_.
      and_then (throw_if (length (filter (\<lambda>v. fst v \<in> fst ` set items \<and> snd v = tenant) (variant_tenants d)) \<noteq> length items)
                 (NotFound ''One or more product variants were not found'')) (\<lambda>_.
      and_then (insert_transfer
                 \<lparr>xf_id = i, xf_tenant = tenant, xf_from = ct_from dto, xf_to = ct_to dto, xf_status = Pending,
                  xf_number = transfer_number H (xc_now C) (number_sequence d), xf_key = key,
                  xf_fingerprint = fingerprint, xf_created_by = ac_sub (xc_actor C),
                  xf_shipped_by = None, xf_shipped_at = None, xf_received_by = None, xf_received_at = None,
                  xf_cancelled_by = None, xf_cancelled_at = None, xf_reason = None, xf_created_at = xc_now C\<rparr>
                 (d\<lparr>number_sequence := number_sequence d + 1\<rparr>)) (\<lambda>d1.
      and_then (insert_items (map (\<lambda>(k, vq). new_transfer_item tenant i (xc_uuid C (2 + k)) vq) (enumerate 0 items)) d1) (\<lambda>d2.
      outcome tenant i (audit tenant (Some (ac_sub (xc_actor C))) ''transfer.created'' ''Transfer'' i d2))))))"

definition transfer_create :: "transfer_host \<Rightarrow> transfer_call \<Rightarrow> create_transfer_dto \<Rightarrow> 'a transfer_db_scheme \<Rightarrow> 'a transfer_outcome" where
  "transfer_create H C dto d =
     (let tenant = xc_tenant C; items = merged_quantities H (ct_items dto);
          key = resolve_command_id (ct_command dto) (xc_uuid C 0);
          fingerprint = command_fingerprint H (create_payload dto items) in
      and_then (throw_if (ct_from dto = ct_to dto) (BadRequest ''Source and destination branches must be different'')) (\<lambda>_.
      and_then (assert_branch_access (xc_actor C) (ct_from dto) [Owner, Warehouse_Manager]) (\<lambda>_.
      case find (\<lambda>t. xf_key t = key \<and> xf_tenant t = tenant) (transfers d) of
        Some existing \<Rightarrow>
          and_then (throw_if (xf_fingerprint existing \<noteq> fingerprint) (Conflict ''Transfer command id belongs to a different payload'')) (\<lambda>_.
          outcome tenant (xf_id existing) d)
      | None \<Rightarrow> post_transfer H C dto items key fingerprint d)))"

subsection \<open>ship\<close>

text \<open>\<open>UPDATE "InventoryStock" SET \<dots> WHERE \<dots> ("qty_on_hand" - "qty_reserved") >= q\<close>.\<close>

definition take_available :: "id \<Rightarrow> id \<Rightarrow> id \<Rightarrow> int \<Rightarrow> ('a ledger_db_scheme) \<Rightarrow> nat \<times> ('a ledger_db_scheme)" where
  "take_available tenant branch variant q d =
     (case stock d (branch, variant) of
        None \<Rightarrow> (0, d)
      | Some r \<Rightarrow>
          if stock_tenant r = tenant \<and> qty_on_hand r - qty_reserved r \<ge> q
          then (1, d\<lparr>stock := (stock d)((branch, variant) \<mapsto> r\<lparr>qty_on_hand := qty_on_hand r - q\<rparr>)\<rparr>)
          else (0, d))"

type_synonym 'a with_events = "(transfer_item \<times> transfer_item) list \<times> 'a transfer_db_scheme"

definition ship_item :: "id \<Rightarrow> id \<Rightarrow> transfer_item \<Rightarrow> 'a with_events \<Rightarrow> 'a with_events result" where
  "ship_item tenant from_branch x st =
     (let (changed, d1) = take_available tenant from_branch (xi_variant x) (xi_qty x) (snd st) in
      and_then (throw_if (changed \<noteq> 1) (Conflict ''INVENTORY_INSUFFICIENT_AVAILABLE_QUANTITY'')) (\<lambda>_.
      and_then (update_item (xi_id x) (\<lambda>y. y\<lparr>xi_shipped := xi_qty y\<rparr>) d1) (\<lambda>(events, d2).
      Inr (fst st @ events, d2))))"

definition ship_payload :: "id \<Rightarrow> js_value" where
  "ship_payload i = Object [(''transfer_id'', String i), (''action'', String ''ship'')]"

definition post_shipment :: "transfer_call \<Rightarrow> id \<Rightarrow> transfer \<Rightarrow> string \<Rightarrow> string \<Rightarrow> 'a transfer_db_scheme \<Rightarrow> 'a transfer_outcome" where
  "post_shipment C i t key fingerprint d =
     (let tenant = xc_tenant C; user = ac_sub (xc_actor C); now = xc_now C in
      and_then (throw_if (xf_status t \<noteq> Pending) (Conflict ''Only a pending transfer can be shipped'')) (\<lambda>_.
      and_then (fold_result (ship_item tenant (xf_from t)) (lock_items tenant i d) ([], d)) (\<lambda>(events, d1).
      and_then (update_transfer i (\<lambda>t. t\<lparr>xf_status := Shipped, xf_shipped_by := Some user, xf_shipped_at := Some now\<rparr>) d1) (\<lambda>d2.
      and_then (record_command tenant i Ship key fingerprint Shipped user d2) (\<lambda>d3.
      and_then (commit now events (audit tenant (Some user) ''transfer.shipped'' ''Transfer'' i d3)) (\<lambda>d4.
      outcome tenant i d4))))))"

definition transfer_ship :: "transfer_host \<Rightarrow> transfer_call \<Rightarrow> id \<Rightarrow> string option \<Rightarrow> 'a transfer_db_scheme \<Rightarrow> 'a transfer_outcome" where
  "transfer_ship H C i command d =
     (let tenant = xc_tenant C; key = resolve_command_id command (xc_uuid C 0);
          fingerprint = command_fingerprint H (ship_payload i) in
      and_then (lock_transfer tenant i d) (\<lambda>t.
      and_then (assert_branch_access (xc_actor C) (xf_from t) [Owner, Warehouse_Manager]) (\<lambda>_.
      and_then (replay_command tenant i Ship key fingerprint d) (\<lambda>replayed.
      if replayed then outcome tenant i d else post_shipment C i t key fingerprint d))))"

subsection \<open>receive\<close>

definition receive_payload :: "id \<Rightarrow> receipt_line list \<Rightarrow> js_value" where
  "receive_payload i rs =
     Object [(''transfer_id'', String i), (''action'', String ''receive''),
       (''items'', Array (map (\<lambda>r. Object [(''transfer_item_id'', String (rl_item r)),
          (''received_qty'', Number (of_int (rl_received r))), (''damaged_qty'', Number (of_int (rl_damaged r))),
          (''missing_qty'', Number (of_int (rl_missing r)))]) rs))]"

text \<open>\<open>update: {}, create: { qty_on_hand: 0 }\<close>\<close>

definition ensure_stock :: "id \<Rightarrow> id \<Rightarrow> id \<Rightarrow> ('a ledger_db_scheme) \<Rightarrow> ('a ledger_db_scheme)" where
  "ensure_stock tenant branch variant d =
     (case stock d (branch, variant) of
        Some r \<Rightarrow> d
      | None \<Rightarrow> d\<lparr>stock := (stock d)((branch, variant) \<mapsto>
                   \<lparr>qty_on_hand = 0, qty_reserved = 0, last_sold_at = None, stock_tenant = tenant\<rparr>)\<rparr>)"

definition all_outstanding :: "transfer_item list \<Rightarrow> receipt_line list" where
  "all_outstanding xs = map (\<lambda>x. \<lparr>rl_item = xi_id x, rl_received = outstanding x, rl_damaged = 0, rl_missing = 0\<rparr>) xs"

definition receipt_total :: "receipt_line \<Rightarrow> int" where
  "receipt_total r = rl_received r + rl_damaged r + rl_missing r"

definition receive_item :: "id \<Rightarrow> id \<Rightarrow> transfer_item list \<Rightarrow> receipt_line \<Rightarrow> 'a with_events \<Rightarrow> 'a with_events result" where
  "receive_item tenant to_branch locked r st =
     and_then (or_throw (find (\<lambda>x. xi_id x = rl_item r) locked) (BadRequest ''Transfer item does not belong to this transfer'')) (\<lambda>x.
     and_then (throw_if (receipt_total r \<le> 0 \<or> receipt_total r > outstanding x)
                (BadRequest ''Invalid receipt quantities for transfer item'')) (\<lambda>_.
     and_then (if rl_received r > 0 then upsert_stock tenant to_branch (xi_variant x) (rl_received r) None (snd st)
               else Inr (ensure_stock tenant to_branch (xi_variant x) (snd st))) (\<lambda>d1.
     and_then (update_item (xi_id x) (\<lambda>y. y\<lparr>xi_received := xi_received y + rl_received r,
                 xi_damaged := xi_damaged y + rl_damaged r, xi_missing := xi_missing y + rl_missing r\<rparr>) d1) (\<lambda>(events, d2).
     Inr (fst st @ events, d2)))))"

definition post_receipt ::
  "transfer_call \<Rightarrow> id \<Rightarrow> transfer \<Rightarrow> receipt_line list \<Rightarrow> string \<Rightarrow> string \<Rightarrow> 'a transfer_db_scheme \<Rightarrow> 'a transfer_outcome" where
  "post_receipt C i t lines key fingerprint d =
     (let tenant = xc_tenant C; user = ac_sub (xc_actor C); now = xc_now C in
      and_then (throw_if (xf_status t \<notin> {Shipped, Partially_Received}) (Conflict ''Only a shipped transfer can be received'')) (\<lambda>_.
      let locked = lock_items tenant i d;
          requested = (if lines = [] then all_outstanding locked else lines) in
      and_then (throw_if (\<not> distinct (map rl_item requested)) (BadRequest ''Duplicate transfer item in receipt'')) (\<lambda>_.
      and_then (fold_result (receive_item tenant (xf_to t) locked) requested ([], d)) (\<lambda>(events, d1).
      let next_status = (if (\<Sum>x\<leftarrow>items_of i d1. outstanding x) = 0 then Received else Partially_Received) in
      and_then (update_transfer i (\<lambda>t. t\<lparr>xf_status := next_status, xf_received_by := Some user,
                  xf_received_at := (if next_status = Received then Some now else xf_received_at t)\<rparr>) d1) (\<lambda>d2.
      and_then (record_command tenant i Receive key fingerprint next_status user d2) (\<lambda>d3.
      and_then (commit now events (audit tenant (Some user) ''transfer.received'' ''Transfer'' i d3)) (\<lambda>d4.
      outcome tenant i d4)))))))"

text \<open>\<open>damaged_qty\<close> and \<open>missing_qty\<close> default to 0; the lines are sorted for the fingerprint.\<close>

definition transfer_receive :: "transfer_host \<Rightarrow> transfer_call \<Rightarrow> id \<Rightarrow> string option \<Rightarrow> receipt_line list \<Rightarrow> 'a transfer_db_scheme \<Rightarrow> 'a transfer_outcome" where
  "transfer_receive H C i command items d =
     (let tenant = xc_tenant C; lines = js_sort (\<lambda>l r. th_compare H (rl_item l) (rl_item r)) items;
          key = resolve_command_id command (xc_uuid C 0);
          fingerprint = command_fingerprint H (receive_payload i lines) in
      and_then (lock_transfer tenant i d) (\<lambda>t.
      and_then (assert_branch_access (xc_actor C) (xf_to t) [Owner, Warehouse_Manager]) (\<lambda>_.
      and_then (replay_command tenant i Receive key fingerprint d) (\<lambda>replayed.
      if replayed then outcome tenant i d else post_receipt C i t lines key fingerprint d))))"

subsection \<open>cancel\<close>

definition cancel_payload :: "id \<Rightarrow> string \<Rightarrow> js_value" where
  "cancel_payload i reason = Object [(''transfer_id'', String i), (''action'', String ''cancel''), (''reason'', String reason)]"

definition post_cancellation :: "transfer_call \<Rightarrow> id \<Rightarrow> transfer \<Rightarrow> string \<Rightarrow> string \<Rightarrow> string \<Rightarrow> 'a transfer_db_scheme \<Rightarrow> 'a transfer_outcome" where
  "post_cancellation C i t reason key fingerprint d =
     (let tenant = xc_tenant C; user = ac_sub (xc_actor C); now = xc_now C in
      and_then (throw_if (xf_status t \<noteq> Pending) (Conflict ''Only a pending transfer can be cancelled'')) (\<lambda>_.
      and_then (update_transfer i (\<lambda>t. t\<lparr>xf_status := Cancelled, xf_cancelled_by := Some user,
                  xf_cancelled_at := Some now, xf_reason := Some reason\<rparr>) d) (\<lambda>d1.
      and_then (record_command tenant i Cancel key fingerprint Cancelled user d1) (\<lambda>d2.
      outcome tenant i (audit tenant (Some user) ''transfer.cancelled'' ''Transfer'' i d2)))))"

definition transfer_cancel :: "transfer_host \<Rightarrow> transfer_call \<Rightarrow> id \<Rightarrow> string option \<Rightarrow> string \<Rightarrow> 'a transfer_db_scheme \<Rightarrow> 'a transfer_outcome" where
  "transfer_cancel H C i command reason_text d =
     (let tenant = xc_tenant C; reason = trim reason_text; key = resolve_command_id command (xc_uuid C 0);
          fingerprint = command_fingerprint H (cancel_payload i reason) in
      and_then (lock_transfer tenant i d) (\<lambda>t.
      and_then (assert_branch_access (xc_actor C) (xf_from t) [Owner, Warehouse_Manager]) (\<lambda>_.
      and_then (replay_command tenant i Cancel key fingerprint d) (\<lambda>replayed.
      if replayed then outcome tenant i d else post_cancellation C i t reason key fingerprint d))))"

subsection \<open>Reading and reconciliation\<close>

definition assert_transfer_visibility :: "actor \<Rightarrow> transfer \<Rightarrow> unit result" where
  "assert_transfer_visibility user t =
     (if ac_role user = Owner \<or> ac_role user = Warehouse_Manager then Inr ()
      else if ac_branch user \<noteq> Some (xf_from t) \<and> ac_branch user \<noteq> Some (xf_to t)
      then assert_branch_access user (xf_from t) [Owner] else Inr ())"

definition transfer_get :: "id \<Rightarrow> id \<Rightarrow> actor \<Rightarrow> 'a transfer_db_scheme \<Rightarrow> (transfer \<times> transfer_item list) result" where
  "transfer_get tenant i user d =
     and_then (or_throw (find_transfer tenant i d) (NotFound ''Transfer not found'')) (\<lambda>t.
     and_then (assert_transfer_visibility user t) (\<lambda>_. Inr (t, items_of i d)))"

text \<open>\<open>orderBy: { created_at: 'desc' }, take: 50\<close>\<close>

definition transfer_list :: "id \<Rightarrow> id option \<Rightarrow> 'a transfer_db_scheme \<Rightarrow> transfer list" where
  "transfer_list tenant branch d =
     take 50 (js_sort (\<lambda>x y. xf_created_at y - xf_created_at x)
       (filter (\<lambda>t. xf_tenant t = tenant
                    \<and> (if truthy branch then Some (xf_from t) = branch \<or> Some (xf_to t) = branch else True)) (transfers d)))"

record transit_mismatch =
  tx_transfer :: id
  tx_item :: id
  tx_expected :: int
  tx_ledger :: int

definition transit_ledger :: "id \<Rightarrow> 'a transfer_db_scheme \<Rightarrow> id \<Rightarrow> int" where
  "transit_ledger tenant d i =
     (\<Sum>m\<leftarrow>filter (\<lambda>m. tm_tenant m = tenant \<and> tm_item m = i) (transit d). tm_delta m)"

definition transit_mismatches :: "id \<Rightarrow> 'a transfer_db_scheme \<Rightarrow> transit_mismatch list" where
  "transit_mismatches tenant d =
     take 500
       (js_sort (\<lambda>x y. if tx_transfer x = tx_transfer y then code_unit_compare (tx_item x) (tx_item y)
                       else code_unit_compare (tx_transfer x) (tx_transfer y))
         (filter (\<lambda>m. tx_expected m \<noteq> tx_ledger m)
           (map (\<lambda>x. \<lparr>tx_transfer = xi_transfer x, tx_item = xi_id x, tx_expected = outstanding x,
                      tx_ledger = transit_ledger tenant d (xi_id x)\<rparr>)
              (filter (\<lambda>x. xi_tenant x = tenant) (transfer_items d)))))"

definition reconcile_in_transit :: "id \<Rightarrow> actor \<Rightarrow> 'a transfer_db_scheme \<Rightarrow> (bool \<times> transit_mismatch list) result" where
  "reconcile_in_transit tenant user d =
     and_then (throw_if (ac_role user \<noteq> Owner \<and> ac_role user \<noteq> Warehouse_Manager)
                (Conflict ''Only owner or warehouse manager can reconcile in-transit inventory'')) (\<lambda>_.
     let ms = transit_mismatches tenant d in Inr (length ms = 0, ms))"

section \<open>Requests\<close>

datatype transfer_request =
    Create_Request create_transfer_dto
  | Ship_Request id "string option"
  | Receive_Request id "string option" "receipt_line list"
  | Cancel_Request id "string option" string

fun transfer_handle :: "transfer_host \<Rightarrow> transfer_call \<Rightarrow> transfer_request \<Rightarrow> 'a transfer_db_scheme \<Rightarrow> 'a transfer_outcome" where
  "transfer_handle H C (Create_Request dto) d = transfer_create H C dto d"
| "transfer_handle H C (Ship_Request i command) d = transfer_ship H C i command d"
| "transfer_handle H C (Receive_Request i command items) d = transfer_receive H C i command items d"
| "transfer_handle H C (Cancel_Request i command reason) d = transfer_cancel H C i command reason d"

text \<open>What the validation of \<open>CreateTransferDto\<close> leaves: the branches are UUIDs.\<close>

fun wf_request :: "transfer_request \<Rightarrow> bool" where
  "wf_request (Create_Request dto) = (uuid (ct_from dto) \<and> uuid (ct_to dto))"
| "wf_request r = True"

end
