(* ===== verification/Transfers_Correct.thy ===== *)
theory Transfers_Correct
  imports Transfers
begin

text \<open>
  What holds of the transfers in every state the service can reach: the stock ledger and the
  ledger of the goods in transit agree with the quantities of the items, the states of a transfer
  follow their order, and a repeated command changes nothing.

  While a handler runs, the movements of the items it changed are still to be written: the
  deferred trigger writes them at the commit. \<open>in_flight d E\<close> is the invariant with these pending
  events; with none it is the invariant of the states between two transactions.
\<close>

section \<open>Ledger sums of an item\<close>

definition transit_sum :: "'a transfer_db_scheme \<Rightarrow> id \<Rightarrow> int" where
  "transit_sum d i = (\<Sum>m\<leftarrow>filter (\<lambda>m. tm_item m = i) (transit d). tm_delta m)"

definition of_item :: "id \<Rightarrow> movement \<Rightarrow> bool" where
  "of_item i m \<longleftrightarrow> mv_reference_type m = ''Transfer'' \<and> mv_reference_line m = Some i"

definition item_ledger :: "'a ledger_db_scheme \<Rightarrow> id \<Rightarrow> int" where
  "item_ledger d i = (\<Sum>m\<leftarrow>filter (of_item i) (movements d). mv_on_hand_delta m)"

text \<open>Each movement of a transfer came with its transit row, which a unique key guards.\<close>

definition keys_linked :: "movement list \<Rightarrow> transit_row list \<Rightarrow> bool" where
  "keys_linked ms ts \<longleftrightarrow>
     (\<forall>m \<in> set ms. \<forall>s.
        (mv_key m = ''transfer-out:'' @ s \<longrightarrow> (\<exists>r \<in> set ts. tm_key r = ''transit-shipped:'' @ s))
        \<and> (mv_key m = ''transfer-in:'' @ s \<longrightarrow> (\<exists>r \<in> set ts. tm_key r = ''transit-received:'' @ s)))"

lemma keys_linked_Nil [simp]: "keys_linked [] ts"
  by (simp add: keys_linked_def)

lemma keys_linked_more: "keys_linked ms ts \<Longrightarrow> keys_linked ms (ts @ us)"
  unfolding keys_linked_def set_append bex_Un by blast

lemma opening_key_no_transfer: "opening_key b v \<noteq> ''transfer-out:'' @ s" "opening_key b v \<noteq> ''transfer-in:'' @ s"
  by (simp_all add: opening_key_def)

text \<open>A movement with its transit row, as the trigger writes them.\<close>

definition linked_prefixes :: "(string \<times> string) set" where
  "linked_prefixes = {(''transfer-out:'', ''transit-shipped:''), (''transfer-in:'', ''transit-received:'')}"

lemma linked_paired:
  assumes link: "keys_linked ms ts" and P: "(P, Q) \<in> linked_prefixes" and s: "tm_key r = Q @ s"
    and os: "\<forall>m \<in> set os. \<exists>b v. mv_key m = opening_key b v" and m: "mv_key m = P @ s"
  shows "keys_linked (ms @ os @ [m]) (ts @ [r])"
proof -
  have "keys_linked os (ts @ [r])"
    unfolding keys_linked_def using os opening_key_no_transfer by metis
  moreover have "keys_linked [m] (ts @ [r])" using P s m by (auto simp: keys_linked_def linked_prefixes_def)
  moreover have "keys_linked ms (ts @ [r])" using link by (rule keys_linked_more)
  ultimately show ?thesis by (auto simp: keys_linked_def)
qed

lemma paired_step:
  assumes rec: "record_inventory_movement c d = Inr d1" and ins: "insert_transit r d1 = Inr d2"
    and P: "(P, Q) \<in> linked_prefixes" and ck: "mc_key c = P @ s" and rk: "tm_key r = Q @ s"
    and link: "keys_linked (movements d) (transit d)" and ref: "mc_reference_type c = ''Transfer''" "mc_reference_line c = Some i"
    and t: "tenants_ok d" and keys: "opening_keys_ok (movements d)" and plain: "plain_id (mc_branch c)"
  shows "d2 = d\<lparr>movements := movements d2, transit := transit d @ [r]\<rparr>"
    and "item_ledger d2 j = item_ledger d j + (if j = i then mc_on_hand_delta c else 0)"
    and "keys_linked (movements d2) (transit d2)" and "balanced d2 (mc_branch c) (mc_variant c)"
    and "balanced d b v \<Longrightarrow> balanced d2 b v" and "tenants_ok d2" and "opening_keys_ok (movements d2)"
    and "\<forall>m \<in> set (movements d2). m \<in> set (movements d) \<or> mv_reference_type m \<noteq> ''Transfer'' \<or> mv_reference_line m = Some i"
proof -
  have d2: "d2 = d1\<lparr>transit := transit d1 @ [r]\<rparr>" and fresh: "\<forall>m \<in> set (transit d1). tm_key m \<noteq> tm_key r"
    using ins by (auto simp: insert_transit_def result_simps list_ex_iff)
  note keep = record_keeps [OF rec]
  have tr: "transit d1 = transit d" by (subst keep) simp
  have new: "\<forall>m \<in> set (movements d). mv_key m \<noteq> mc_key c"
  proof
    fix m assume m: "m \<in> set (movements d)"
    show "mv_key m \<noteq> mc_key c"
    proof
      assume "mv_key m = mc_key c"
      then have "\<exists>r' \<in> set (transit d). tm_key r' = Q @ s" using link m ck P by (auto simp: keys_linked_def linked_prefixes_def)
      then show False using fresh rk tr by auto
    qed
  qed
  have safe: "safe_key (mc_key c)" using ck P by (auto simp: safe_key_def linked_prefixes_def)
  obtain q os where ms: "movements d1 = movements d @ os @ [command_movement c q]"
    and os: "os = [] \<or> (\<exists>x y. os = [opening_movement c x y (stock_tenant q)])"
    by (rule record_fresh [OF rec new]) blast
  have ms2: "movements d2 = movements d @ os @ [command_movement c q]" by (simp add: d2 ms)
  show "d2 = d\<lparr>movements := movements d2, transit := transit d @ [r]\<rparr>"
    by (subst d2, subst keep) (simp add: d2 tr)
  have ref_q: "mv_reference_type (command_movement c q) = ''Transfer''" "mv_reference_line (command_movement c q) = Some i"
    using ref by (simp_all add: command_movement_def)
  have ref_o: "\<forall>m \<in> set os. mv_reference_type m = ''InventoryStock'' \<and> (\<exists>b v. mv_key m = opening_key b v)"
    using os by (elim disjE exE) (simp_all, simp add: opening_movement_def, blast)
  have "filter (of_item j) os = []" using ref_o by (auto simp: filter_empty_conv of_item_def)
  then show "item_ledger d2 j = item_ledger d j + (if j = i then mc_on_hand_delta c else 0)"
    using ref_q by (simp add: item_ledger_def ms2 of_item_def)
  show "keys_linked (movements d2) (transit d2)"
    unfolding ms2 using linked_paired [OF link P rk, of os "command_movement c q"] ref_o ck by (simp add: d2 tr)
  show "\<forall>m \<in> set (movements d2). m \<in> set (movements d) \<or> mv_reference_type m \<noteq> ''Transfer'' \<or> mv_reference_line m = Some i"
    using ms2 ref_o ref_q by auto
  note a = record_at [OF rec t keys plain safe]
  have "movements d2 = movements d1" "stock d2 = stock d1" by (simp_all add: d2)
  note same = same_stock [OF this]
  show "balanced d2 (mc_branch c) (mc_variant c)" "tenants_ok d2" using a same by simp_all
  show "opening_keys_ok (movements d2)" using a(3) d2 by simp
  show "balanced d2 b v" if "balanced d b v"
  proof (cases "(b, v) = (mc_branch c, mc_variant c)")
    case True
    then show ?thesis using a(1) same by simp
  next
    case False
    have m: "movements_at (movements d1) b v = movements_at (movements d) b v" using a(4) [OF False] .
    have "balanced d1 b v" using that unfolding balanced_def reconciled_def ledger_sums m a(2) .
    then show ?thesis using same by simp
  qed
qed

section \<open>The invariant\<close>

definition item_exists :: "'a transfer_db_scheme \<Rightarrow> id \<Rightarrow> id \<Rightarrow> bool" where
  "item_exists d i tenant \<longleftrightarrow> (\<exists>x \<in> set (transfer_items d). xi_id x = i \<and> xi_tenant x = tenant)"

definition rows_ok :: "'a transfer_db_scheme \<Rightarrow> bool" where
  "rows_ok d \<longleftrightarrow>
     distinct (map xf_id (transfers d)) \<and> distinct (map xi_id (transfer_items d))
     \<and> (\<forall>x \<in> set (transfer_items d). item_constraints x
          \<and> (\<exists>t \<in> set (transfers d). xf_id t = xi_transfer x \<and> xf_tenant t = xi_tenant x))
     \<and> (\<forall>t \<in> set (transfers d). plain_id (xf_from t) \<and> plain_id (xf_to t))
     \<and> (\<forall>r \<in> set (transit d). item_exists d (tm_item r) (tm_tenant r))
     \<and> (\<forall>m \<in> set (movements d). mv_reference_type m = ''Transfer'' \<longrightarrow>
          (\<exists>x \<in> set (transfer_items d). mv_reference_line m = Some (xi_id x)))"

type_synonym item_event = "transfer_item \<times> transfer_item"

definition pending_transit :: "item_event list \<Rightarrow> id \<Rightarrow> int" where
  "pending_transit E i = (\<Sum>e\<leftarrow>filter (\<lambda>e. xi_id (snd e) = i) E. outstanding (snd e) - outstanding (fst e))"

definition pending_ledger :: "item_event list \<Rightarrow> id \<Rightarrow> int" where
  "pending_ledger E i =
     (\<Sum>e\<leftarrow>filter (\<lambda>e. xi_id (snd e) = i) E.
        (xi_received (snd e) - xi_received (fst e)) - (xi_shipped (snd e) - xi_shipped (fst e)))"

text \<open>The stock rows an event's movements are still to account for.\<close>

definition touches :: "'a transfer_db_scheme \<Rightarrow> item_event \<Rightarrow> id \<Rightarrow> id \<Rightarrow> bool" where
  "touches d e b v \<longleftrightarrow>
     (\<exists>t \<in> set (transfers d). xf_id t = xi_transfer (snd e) \<and> xi_variant (snd e) = v
        \<and> ((xi_shipped (snd e) > xi_shipped (fst e) \<and> b = xf_from t)
           \<or> (xi_received (snd e) > xi_received (fst e) \<and> b = xf_to t)))"

definition stock_ok :: "'a transfer_db_scheme \<Rightarrow> item_event list \<Rightarrow> bool" where
  "stock_ok d E \<longleftrightarrow>
     tenants_ok d \<and> opening_keys_ok (movements d)
     \<and> (\<forall>b v. balanced d b v \<or> (\<exists>e \<in> set E. touches d e b v))"

definition event_ok :: "'a transfer_db_scheme \<Rightarrow> item_event \<Rightarrow> bool" where
  "event_ok d e \<longleftrightarrow>
     item_update_allowed (fst e) (snd e)
     \<and> (\<exists>x \<in> set (transfer_items d). xi_id x = xi_id (snd e) \<and> xi_transfer x = xi_transfer (snd e))"

definition in_flight :: "'a transfer_db_scheme \<Rightarrow> item_event list \<Rightarrow> bool" where
  "in_flight d E \<longleftrightarrow>
     rows_ok d \<and> stock_ok d E \<and> keys_linked (movements d) (transit d) \<and> (\<forall>e \<in> set E. event_ok d e)
     \<and> (\<forall>x \<in> set (transfer_items d).
          transit_sum d (xi_id x) + pending_transit E (xi_id x) = outstanding x
          \<and> item_ledger d (xi_id x) + pending_ledger E (xi_id x) = xi_received x - xi_shipped x)"

definition statuses_ok :: "'a transfer_db_scheme \<Rightarrow> bool" where
  "statuses_ok d \<longleftrightarrow> (\<forall>t \<in> set (transfers d). status_fits (xf_status t) (items_of (xf_id t) d))"

definition transfer_inv :: "'a transfer_db_scheme \<Rightarrow> bool" where
  "transfer_inv d \<longleftrightarrow> in_flight d [] \<and> statuses_ok d \<and> distinct (map co_key (commands d)) \<and> distinct (map xf_key (transfers d))"

lemma pending_simps [simp]:
  "pending_transit [] i = 0" "pending_ledger [] i = 0"
  "pending_transit (e # E) i = (if xi_id (snd e) = i then outstanding (snd e) - outstanding (fst e) else 0) + pending_transit E i"
  "pending_ledger (e # E) i = (if xi_id (snd e) = i
      then (xi_received (snd e) - xi_received (fst e)) - (xi_shipped (snd e) - xi_shipped (fst e)) else 0) + pending_ledger E i"
  by (simp_all add: pending_transit_def pending_ledger_def)

lemma pending_append [simp]:
  "pending_transit (E @ F) i = pending_transit E i + pending_transit F i"
  "pending_ledger (E @ F) i = pending_ledger E i + pending_ledger F i"
  by (simp_all add: pending_transit_def pending_ledger_def)

section \<open>The commit\<close>

text \<open>While the movements of one event are written: what its item is still owed in the transit ledger
  and in the stock ledger, and the stock rows still to be settled.\<close>

definition settling :: "'a transfer_db_scheme \<Rightarrow> item_event list \<Rightarrow> (id \<Rightarrow> id \<Rightarrow> bool) \<Rightarrow> id \<Rightarrow> int \<Rightarrow> int \<Rightarrow> bool" where
  "settling d E T i a l \<longleftrightarrow>
     rows_ok d \<and> tenants_ok d \<and> opening_keys_ok (movements d) \<and> keys_linked (movements d) (transit d)
     \<and> (\<forall>e \<in> set E. event_ok d e)
     \<and> (\<forall>b v. balanced d b v \<or> T b v \<or> (\<exists>e \<in> set E. touches d e b v))
     \<and> (\<forall>x \<in> set (transfer_items d).
          transit_sum d (xi_id x) + (if xi_id x = i then a else 0) + pending_transit E (xi_id x) = outstanding x
          \<and> item_ledger d (xi_id x) + (if xi_id x = i then l else 0) + pending_ledger E (xi_id x) = xi_received x - xi_shipped x)"

lemma in_flight_settling:
  "in_flight d (e # E) \<longleftrightarrow>
     event_ok d e \<and> settling d E (touches d e) (xi_id (snd e)) (outstanding (snd e) - outstanding (fst e))
       ((xi_received (snd e) - xi_received (fst e)) - (xi_shipped (snd e) - xi_shipped (fst e)))"
  by (auto simp: in_flight_def settling_def stock_ok_def add.assoc)

lemma settled_in_flight: "settling d E (\<lambda>b v. False) i 0 0 \<Longrightarrow> in_flight d E"
  by (auto simp: in_flight_def settling_def stock_ok_def)

text \<open>Only the two ledgers change.\<close>

definition ledger_frame :: "'a transfer_db_scheme \<Rightarrow> 'a transfer_db_scheme \<Rightarrow> bool" where
  "ledger_frame d d' \<longleftrightarrow>
     stock d' = stock d \<and> branches d' = branches d \<and> variant_tenants d' = variant_tenants d
     \<and> transfers d' = transfers d \<and> transfer_items d' = transfer_items d \<and> commands d' = commands d
     \<and> audits d' = audits d \<and> number_sequence d' = number_sequence d"

lemma ledger_frame_refl [simp]: "ledger_frame d d"
  by (simp add: ledger_frame_def)

lemma ledger_frame_trans: "ledger_frame d d' \<Longrightarrow> ledger_frame d' d'' \<Longrightarrow> ledger_frame d d''"
  by (simp add: ledger_frame_def)

lemma ledger_frame_update: "d' = d\<lparr>movements := ms, transit := ts\<rparr> \<Longrightarrow> ledger_frame d d'"
  by (simp add: ledger_frame_def)

lemma touches_frame: "ledger_frame d d' \<Longrightarrow> touches d' = touches d"
  by (simp add: touches_def ledger_frame_def fun_eq_iff)

lemma event_frame: "ledger_frame d d' \<Longrightarrow> event_ok d' = event_ok d"
  by (simp add: event_ok_def ledger_frame_def fun_eq_iff)

lemma rows_ok_ledgers:
  assumes "rows_ok d" and "ledger_frame d d'"
    and "\<forall>r \<in> set (transit d'). r \<in> set (transit d) \<or> item_exists d (tm_item r) (tm_tenant r)"
    and "\<forall>m \<in> set (movements d'). m \<in> set (movements d) \<or> mv_reference_type m \<noteq> ''Transfer''
           \<or> (\<exists>x \<in> set (transfer_items d). mv_reference_line m = Some (xi_id x))"
  shows "rows_ok d'"
proof -
  have e: "item_exists d' = item_exists d" using assms(2) by (simp add: item_exists_def ledger_frame_def fun_eq_iff)
  show ?thesis using assms(1,3,4) unfolding rows_ok_def e
    using assms(2) by (simp add: ledger_frame_def) blast
qed

lemma transit_sum_append: "transit d' = transit d @ [r] \<Longrightarrow> transit_sum d' j = transit_sum d j + (if j = tm_item r then tm_delta r else 0)"
  by (auto simp: transit_sum_def)

lemma settle_pair:
  assumes st: "settling d E T i a l" and rec: "record_inventory_movement c d = Inr d1" and ins: "insert_transit r d1 = Inr d2"
    and P: "(P, Q) \<in> linked_prefixes" and ck: "mc_key c = P @ s" and rk: "tm_key r = Q @ s"
    and ref: "mc_reference_type c = ''Transfer''" "mc_reference_line c = Some i" "tm_item r = i"
    and ex: "item_exists d i (tm_tenant r)" and plain: "plain_id (mc_branch c)"
  shows "settling d2 E (\<lambda>b v. T b v \<and> (b, v) \<noteq> (mc_branch c, mc_variant c)) i (a - tm_delta r) (l - mc_on_hand_delta c)"
    and "ledger_frame d d2"
proof -
  from st have inv: "rows_ok d" "tenants_ok d" "opening_keys_ok (movements d)" "keys_linked (movements d) (transit d)"
    by (simp_all add: settling_def)
  note p = paired_step [OF rec ins P ck rk inv(4) ref(1,2) inv(2,3) plain]
  show f: "ledger_frame d d2" by (rule ledger_frame_update [OF p(1)])
  have tr: "transit d2 = transit d @ [r]" by (subst p(1)) simp
  have rows: "rows_ok d2"
  proof (rule rows_ok_ledgers [OF inv(1) f])
    show "\<forall>r \<in> set (transit d2). r \<in> set (transit d) \<or> item_exists d (tm_item r) (tm_tenant r)" using ex ref(3) by (simp add: tr)
    show "\<forall>m \<in> set (movements d2). m \<in> set (movements d) \<or> mv_reference_type m \<noteq> ''Transfer''
           \<or> (\<exists>x \<in> set (transfer_items d). mv_reference_line m = Some (xi_id x))"
      using p(8) ex by (auto simp: item_exists_def)
  qed
  have clean: "balanced d2 b v \<or> (T b v \<and> (b, v) \<noteq> (mc_branch c, mc_variant c)) \<or> (\<exists>e \<in> set E. touches d e b v)" for b v
    using st p(4) p(5) [of b v] unfolding settling_def by blast
  have items: "transfer_items d2 = transfer_items d" using f by (simp add: ledger_frame_def)
  have sums: "transit_sum d2 (xi_id x) + (if xi_id x = i then a - tm_delta r else 0) + pending_transit E (xi_id x) = outstanding x
      \<and> item_ledger d2 (xi_id x) + (if xi_id x = i then l - mc_on_hand_delta c else 0) + pending_ledger E (xi_id x) = xi_received x - xi_shipped x"
    if "x \<in> set (transfer_items d)" for x
    using st that p(2) [of "xi_id x"] transit_sum_append [OF tr, of "xi_id x"] ref(3) unfolding settling_def by (auto split: if_splits)
  show "settling d2 E (\<lambda>b v. T b v \<and> (b, v) \<noteq> (mc_branch c, mc_variant c)) i (a - tm_delta r) (l - mc_on_hand_delta c)"
    unfolding settling_def touches_frame [OF f] event_frame [OF f] items
    using rows p(3,6,7) clean sums st by (simp add: settling_def)
qed

lemma settle_transit:
  assumes st: "settling d E T i a l" and ins: "insert_transit r d = Inr d2"
    and ref: "tm_item r = i" and ex: "item_exists d i (tm_tenant r)"
  shows "settling d2 E T i (a - tm_delta r) l" and "ledger_frame d d2"
proof -
  have d2: "d2 = d\<lparr>transit := transit d @ [r]\<rparr>" using ins by (auto simp: insert_transit_def result_simps)
  then show f: "ledger_frame d d2" by (simp add: ledger_frame_def)
  have tr: "transit d2 = transit d @ [r]" and ms: "movements d2 = movements d" "stock d2 = stock d" by (simp_all add: d2)
  from st have rows: "rows_ok d2"
    by (intro rows_ok_ledgers [OF _ f]) (use ex ref in \<open>auto simp: settling_def tr ms\<close>)
  have items: "transfer_items d2 = transfer_items d" using f by (simp add: ledger_frame_def)
  have il: "item_ledger d2 j = item_ledger d j" for j by (simp add: item_ledger_def ms)
  have sums: "transit_sum d2 (xi_id x) + (if xi_id x = i then a - tm_delta r else 0) + pending_transit E (xi_id x) = outstanding x
      \<and> item_ledger d2 (xi_id x) + (if xi_id x = i then l else 0) + pending_ledger E (xi_id x) = xi_received x - xi_shipped x"
    if "x \<in> set (transfer_items d)" for x
    using st that transit_sum_append [OF tr, of "xi_id x"] ref il unfolding settling_def by (auto split: if_splits)
  show "settling d2 E T i (a - tm_delta r) l"
    unfolding settling_def touches_frame [OF f] event_frame [OF f] items same_stock [OF ms] ms tr
    using rows sums st by (simp add: settling_def keys_linked_more)
qed

lemma settling_weaken:
  assumes "settling d E T i a l" and "\<And>b v. T b v \<Longrightarrow> T' b v"
  shows "settling d E T' i a l"
  using assms unfolding settling_def by blast

lemma movement_of_simps [simp]:
  "mc_branch (movement_of x b ty q pre n at_time u) = b" "mc_variant (movement_of x b ty q pre n at_time u) = xi_variant x"
  "mc_on_hand_delta (movement_of x b ty q pre n at_time u) = q"
  "mc_key (movement_of x b ty q pre n at_time u) = pre @ xi_id x @ '':'' @ int_string n"
  "mc_reference_type (movement_of x b ty q pre n at_time u) = ''Transfer''"
  "mc_reference_line (movement_of x b ty q pre n at_time u) = Some (xi_id x)"
  by (simp_all add: movement_of_def)

lemma transit_of_simps [simp]:
  "tm_item (transit_of t x ty pre n q after) = xi_id x" "tm_delta (transit_of t x ty pre n q after) = q"
  "tm_key (transit_of t x ty pre n q after) = pre @ xi_id x @ '':'' @ int_string n"
  "tm_tenant (transit_of t x ty pre n q after) = xf_tenant t"
  by (simp_all add: transit_of_def)

lemma settle_ship:
  assumes st: "settling d E T (xi_id n) a l" and run: "ship_movements now t n q c d = Inr d'" and q: "0 \<le> q"
    and ex: "item_exists d (xi_id n) (xf_tenant t)" and plain: "plain_id (xf_from t)"
  shows "settling d' E (\<lambda>b v. T b v \<and> (0 < q \<longrightarrow> (b, v) \<noteq> (xf_from t, xi_variant n))) (xi_id n) (a - q) (l + q)"
    and "ledger_frame d d'"
proof -
  have "settling d' E (\<lambda>b v. T b v \<and> (0 < q \<longrightarrow> (b, v) \<noteq> (xf_from t, xi_variant n))) (xi_id n) (a - q) (l + q)
      \<and> ledger_frame d d'"
  proof (cases "q = 0")
    case True
    then show ?thesis using st run by (simp add: ship_movements_def)
  next
    case False
    with q have pos: "0 < q" by simp
    let ?c = "movement_of n (xf_from t) Transfer_Out (- q) ''transfer-out:'' (xi_shipped n) (coalesce (xf_shipped_at t) now) (xf_shipped_by t)"
    let ?r = "transit_of t n Transit_Shipped ''transit-shipped:'' (xi_shipped n) q (c + q)"
    from run pos obtain d1 where d1: "record_inventory_movement ?c d = Inr d1" "insert_transit ?r d1 = Inr d'"
      by (auto simp: ship_movements_def result_simps)
    note p = settle_pair [OF st d1, of "''transfer-out:''" "''transit-shipped:''" "xi_id n @ '':'' @ int_string (xi_shipped n)"]
    show ?thesis using p ex plain pos by (simp add: linked_prefixes_def)
  qed
  then show "settling d' E (\<lambda>b v. T b v \<and> (0 < q \<longrightarrow> (b, v) \<noteq> (xf_from t, xi_variant n))) (xi_id n) (a - q) (l + q)"
    and "ledger_frame d d'" by blast+
qed

lemma settle_receive:
  assumes st: "settling d E T (xi_id n) a l" and run: "receive_movements now t n q c d = Inr d'" and q: "0 \<le> q"
    and ex: "item_exists d (xi_id n) (xf_tenant t)" and plain: "plain_id (xf_to t)"
  shows "settling d' E (\<lambda>b v. T b v \<and> (0 < q \<longrightarrow> (b, v) \<noteq> (xf_to t, xi_variant n))) (xi_id n) (a + q) (l - q)"
    and "ledger_frame d d'"
proof -
  have "settling d' E (\<lambda>b v. T b v \<and> (0 < q \<longrightarrow> (b, v) \<noteq> (xf_to t, xi_variant n))) (xi_id n) (a + q) (l - q)
      \<and> ledger_frame d d'"
  proof (cases "q = 0")
    case True
    then show ?thesis using st run by (simp add: receive_movements_def)
  next
    case False
    with q have pos: "0 < q" by simp
    let ?c = "movement_of n (xf_to t) Transfer_In q ''transfer-in:'' (xi_received n) now (xf_received_by t)"
    let ?r = "transit_of t n Transit_Received ''transit-received:'' (xi_received n) (- q) (c - q)"
    from run pos obtain d1 where d1: "record_inventory_movement ?c d = Inr d1" "insert_transit ?r d1 = Inr d'"
      by (auto simp: receive_movements_def result_simps)
    note p = settle_pair [OF st d1, of "''transfer-in:''" "''transit-received:''" "xi_id n @ '':'' @ int_string (xi_received n)"]
    show ?thesis using p ex plain pos by (simp add: linked_prefixes_def)
  qed
  then show "settling d' E (\<lambda>b v. T b v \<and> (0 < q \<longrightarrow> (b, v) \<noteq> (xf_to t, xi_variant n))) (xi_id n) (a + q) (l - q)"
    and "ledger_frame d d'" by blast+
qed

lemma settle_loss:
  assumes st: "settling d E T (xi_id n) a l" and run: "loss_movement t n ty pre total_qty q c d = Inr d'" and q: "0 \<le> q"
    and ex: "item_exists d (xi_id n) (xf_tenant t)"
  shows "settling d' E T (xi_id n) (a + q) l" and "ledger_frame d d'"
proof -
  have "settling d' E T (xi_id n) (a + q) l \<and> ledger_frame d d'"
  proof (cases "q = 0")
    case True
    then show ?thesis using st run by (simp add: loss_movement_def)
  next
    case False
    with q run have "insert_transit (transit_of t n ty pre total_qty (- q) (c - q)) d = Inr d'" by (simp add: loss_movement_def)
    from settle_transit [OF st this] ex show ?thesis by simp
  qed
  then show "settling d' E T (xi_id n) (a + q) l" and "ledger_frame d d'" by blast+
qed

lemma transfer_unique:
  assumes "rows_ok d" and "find (\<lambda>t. xf_id t = i) (transfers d) = Some t" and "t' \<in> set (transfers d)" and "xf_id t' = i"
  shows "t' = t"
proof -
  have "t \<in> set (transfers d)" "xf_id t = i" using find_Some_iff_set [OF assms(2)] by simp_all
  then show ?thesis using assms(1,3,4) by (auto simp: rows_ok_def distinct_map inj_on_def)
qed

lemma commit_event:
  assumes fl: "in_flight d (e # E)" and rec: "record_item_movements now e d = Inr d'"
  shows "in_flight d' E" and "ledger_frame d d'"
proof -
  obtain old n where e: "e = (old, n)" by (cases e)
  let ?s = "xi_shipped n - xi_shipped old" and ?r = "xi_received n - xi_received old"
    and ?g = "xi_damaged n - xi_damaged old" and ?m = "xi_missing n - xi_missing old"
  from rec [unfolded record_item_movements_def Let_def e fst_conv snd_conv and_then_Inr_iff throw_if_Inr_iff or_throw_Inr_iff sum.inject]
  obtain t d1 d2 d3 d4 where t: "find (\<lambda>t. xf_id t = xi_transfer n) (transfers d) = Some t"
    and nn: "\<not> (?s < 0 \<or> ?r < 0 \<or> ?g < 0 \<or> ?m < 0)"
    and d1: "ship_movements now t n ?s (outstanding old) d = Inr d1"
    and d2: "receive_movements now t n ?r (outstanding old + ?s) d1 = Inr d2"
    and d3: "loss_movement t n Transit_Damaged ''transit-damaged:'' (xi_damaged n) ?g (outstanding old + ?s - ?r) d2 = Inr d3"
    and d4: "loss_movement t n Transit_Missing ''transit-missing:'' (xi_missing n) ?m (outstanding old + ?s - ?r - ?g) d3 = Inr d4"
    and d': "d4 = d'"
    by (elim exE conjE) (rule that; assumption)
  from fl have ev: "event_ok d e" and st: "settling d E (touches d e) (xi_id n) (outstanding n - outstanding old) (?r - ?s)"
    by (simp_all add: in_flight_settling e)
  then have rows: "rows_ok d" by (simp add: settling_def)
  have tin: "t \<in> set (transfers d)" using find_Some_iff_set [OF t] by simp
  have plain: "plain_id (xf_from t)" "plain_id (xf_to t)" using rows tin by (simp_all add: rows_ok_def)
  from ev obtain x where x: "x \<in> set (transfer_items d)" "xi_id x = xi_id n" "xi_transfer x = xi_transfer n"
    by (auto simp: event_ok_def e)
  then obtain t' where "t' \<in> set (transfers d)" "xf_id t' = xi_transfer x" "xf_tenant t' = xi_tenant x"
    using rows by (auto simp: rows_ok_def)
  with x transfer_unique [OF rows t] have ex: "item_exists d (xi_id n) (xf_tenant t)" by (auto simp: item_exists_def)
  have T: "touches d e b v \<Longrightarrow> (0 < ?s \<and> (b, v) = (xf_from t, xi_variant n)) \<or> (0 < ?r \<and> (b, v) = (xf_to t, xi_variant n))" for b v
    using transfer_unique [OF rows t] by (auto simp: touches_def e)
  note ex_frame = item_exists_def ledger_frame_def
  note s1 = settle_ship [OF st d1 _ ex plain(1)]
  have f1: "ledger_frame d d1" using s1(2) nn by simp
  have ex1: "item_exists d1 (xi_id n) (xf_tenant t)" using ex f1 by (simp add: ex_frame)
  note s2 = settle_receive [OF s1(1) d2 _ ex1 plain(2)]
  have f2: "ledger_frame d1 d2" using s2(2) nn by simp
  have ex2: "item_exists d2 (xi_id n) (xf_tenant t)" using ex1 f2 by (simp add: ex_frame)
  have st2: "settling d2 E (\<lambda>b v. False) (xi_id n) (outstanding n - outstanding old - ?s + ?r) (?r - ?s + ?s - ?r)"
    by (rule settling_weaken [OF s2(1)]) (use nn T in auto)
  note s3 = settle_loss [OF st2 d3 _ ex2]
  have f3: "ledger_frame d2 d3" using s3(2) nn by simp
  have ex3: "item_exists d3 (xi_id n) (xf_tenant t)" using ex2 f3 by (simp add: ex_frame)
  have st3: "settling d3 E (\<lambda>b v. False) (xi_id n) (outstanding n - outstanding old - ?s + ?r + ?g) (?r - ?s + ?s - ?r)"
    using s3(1) nn by simp
  note s4 = settle_loss [OF st3 d4 _ ex3]
  have st4: "settling d4 E (\<lambda>b v. False) (xi_id n) (outstanding n - outstanding old - ?s + ?r + ?g + ?m) (?r - ?s + ?s - ?r)"
    using s4(1) nn by simp
  have "outstanding n - outstanding old - ?s + ?r + ?g + ?m = 0" "?r - ?s + ?s - ?r = 0" by (simp_all add: outstanding_def)
  with st4 have "settling d4 E (\<lambda>b v. False) (xi_id n) 0 0" by simp
  then show "in_flight d' E" unfolding d' by (rule settled_in_flight)
  have "ledger_frame d3 d4" using s4(2) nn by simp
  with f1 f2 f3 d' show "ledger_frame d d'" using ledger_frame_trans by blast
qed

lemma commit_flight:
  assumes "in_flight d E" and "commit now E d = Inr d'"
  shows "in_flight d' [] \<and> ledger_frame d d'"
  using assms
proof (induction E arbitrary: d)
  case (Cons e E)
  from Cons.prems(2) obtain d1 where d1: "record_item_movements now e d = Inr d1" "commit now E d1 = Inr d'"
    by (auto simp: commit_def result_simps)
  note c = commit_event [OF Cons.prems(1) d1(1)]
  show ?case using Cons.IH [OF c(1) d1(2)] c(2) ledger_frame_trans by blast
qed (simp add: commit_def)

section \<open>Changing an item\<close>

definition stock_frame :: "'a transfer_db_scheme \<Rightarrow> 'a transfer_db_scheme \<Rightarrow> bool" where
  "stock_frame d d' \<longleftrightarrow>
     movements d' = movements d \<and> transit d' = transit d \<and> branches d' = branches d
     \<and> variant_tenants d' = variant_tenants d \<and> transfers d' = transfers d \<and> transfer_items d' = transfer_items d
     \<and> commands d' = commands d \<and> audits d' = audits d \<and> number_sequence d' = number_sequence d"

definition same_identity :: "transfer_item \<Rightarrow> transfer_item \<Rightarrow> bool" where
  "same_identity x y \<longleftrightarrow> xi_id y = xi_id x \<and> xi_tenant y = xi_tenant x \<and> xi_transfer y = xi_transfer x \<and> xi_variant y = xi_variant x
     \<and> xi_qty y = xi_qty x"

definition replace_item :: "transfer_item \<Rightarrow> transfer_item list \<Rightarrow> transfer_item list" where
  "replace_item y xs = map (\<lambda>x. if xi_id x = xi_id y then y else x) xs"

lemma replace_item_ids [simp]: "map xi_id (replace_item y xs) = map xi_id xs"
  by (simp add: replace_item_def)

lemma find_by_key:
  assumes "distinct (map f xs)" and "x \<in> set xs"
  shows "find (\<lambda>y. f y = f x) xs = Some x"
  using assms by (induction xs) auto

lemmas find_item = find_by_key [of xi_id]

lemma in_replace_item:
  assumes "distinct (map xi_id xs)" and "x \<in> set xs" and "xi_id y = xi_id x"
  shows "z \<in> set (replace_item y xs) \<longleftrightarrow> z = y \<or> (z \<in> set xs \<and> xi_id z \<noteq> xi_id x)"
  using assms by (auto simp: replace_item_def)

text \<open>What \<open>update_item\<close> does to a row that exists.\<close>

lemma update_item_Inr:
  assumes "update_item (xi_id x) f d = Inr (ev, d2)" and "distinct (map xi_id (transfer_items d))" and "x \<in> set (transfer_items d)"
    and "xi_id (f x) = xi_id x"
  shows "ev = [(x, f x)]" and "item_update_allowed x (f x)" and "item_constraints (f x)"
    and "d2 = d\<lparr>transfer_items := replace_item (f x) (transfer_items d)\<rparr>"
  using assms(1,4) by (auto simp: update_item_def find_item [OF assms(2,3)] Let_def result_simps replace_item_def)

lemma in_flight_update:
  assumes fl: "in_flight d E" and fr: "stock_frame d d1" and ten: "tenants_ok d1"
    and bal: "\<And>b v. balanced d b v \<Longrightarrow> balanced d1 b v \<or> touches d (x, f x) b v"
    and x: "x \<in> set (transfer_items d)" and up: "update_item (xi_id x) f d1 = Inr (ev, d2)"
    and idf: "same_identity x (f x)"
  shows "in_flight d2 (E @ ev)" and "ev = [(x, f x)]"
    and "transfer_items d2 = replace_item (f x) (transfer_items d)" and "stock_frame d (d2\<lparr>transfer_items := transfer_items d\<rparr>)"
proof -
  have items: "transfer_items d1 = transfer_items d" using fr by (simp add: stock_frame_def)
  from fl have rows: "rows_ok d" by (simp add: in_flight_def)
  then have dist: "distinct (map xi_id (transfer_items d))" by (simp add: rows_ok_def)
  have fid: "xi_id (f x) = xi_id x" using idf by (simp add: same_identity_def)
  note u = update_item_Inr [OF up, unfolded items, OF dist x fid]
  show ev: "ev = [(x, f x)]" by (rule u(1))
  show i2: "transfer_items d2 = replace_item (f x) (transfer_items d)" by (simp add: u(4))
  show "stock_frame d (d2\<lparr>transfer_items := transfer_items d\<rparr>)" using fr by (simp add: u(4) stock_frame_def)
  note mem = in_replace_item [OF dist x fid]
  have same: "movements d2 = movements d" "transit d2 = transit d" "transfers d2 = transfers d" "stock d2 = stock d1"
    using fr by (simp_all add: u(4) stock_frame_def)
  have ex: "\<exists>y \<in> set (transfer_items d2). P (xi_id y) (xi_tenant y) (xi_transfer y)"
    if "\<exists>y \<in> set (transfer_items d). P (xi_id y) (xi_tenant y) (xi_transfer y)" for P
  proof -
    from that obtain y where y: "y \<in> set (transfer_items d)" "P (xi_id y) (xi_tenant y) (xi_transfer y)" by blast
    have "f x \<in> set (transfer_items d2)" by (simp add: i2 mem)
    show ?thesis
    proof (cases "xi_id y = xi_id x")
      case True
      then have "y = x" using y(1) x dist by (auto simp: distinct_map inj_on_def)
      then have "P (xi_id (f x)) (xi_tenant (f x)) (xi_transfer (f x))" using y(2) idf by (simp add: same_identity_def)
      with \<open>f x \<in> _\<close> show ?thesis by blast
    next
      case False
      then have "y \<in> set (transfer_items d2)" using y(1) by (simp add: i2 mem)
      with y(2) show ?thesis by blast
    qed
  qed
  have rows2: "rows_ok d2"
    unfolding rows_ok_def same item_exists_def
  proof (intro conjI)
    show "distinct (map xf_id (transfers d))" using rows by (simp add: rows_ok_def)
    show "distinct (map xi_id (transfer_items d2))" using dist by (simp add: i2)
    show "\<forall>y\<in>set (transfer_items d2). item_constraints y \<and> (\<exists>t\<in>set (transfers d). xf_id t = xi_transfer y \<and> xf_tenant t = xi_tenant y)"
      using rows u(3) x idf by (auto simp: i2 mem rows_ok_def same_identity_def)
    show "\<forall>t\<in>set (transfers d). plain_id (xf_from t) \<and> plain_id (xf_to t)" using rows by (simp add: rows_ok_def)
    show "\<forall>r\<in>set (transit d). \<exists>y\<in>set (transfer_items d2). xi_id y = tm_item r \<and> xi_tenant y = tm_tenant r"
      using rows by (intro ballI ex [of "\<lambda>a b c. a = _ \<and> b = _"]) (simp add: rows_ok_def item_exists_def)
    show "\<forall>m\<in>set (movements d). mv_reference_type m = ''Transfer'' \<longrightarrow> (\<exists>y\<in>set (transfer_items d2). mv_reference_line m = Some (xi_id y))"
      using rows by (intro ballI impI ex [of "\<lambda>a b c. _ = Some a"]) (simp add: rows_ok_def)
  qed
  have tch: "touches d2 = touches d" by (simp add: touches_def same fun_eq_iff)
  have bd: "balanced d2 b v = balanced d1 b v" "tenants_ok d2 = tenants_ok d1" for b v
    using fr same by (intro same_stock; simp add: stock_frame_def)+
  have stk: "stock_ok d2 (E @ ev)"
    unfolding stock_ok_def bd tch same ev
    using fl ten bal by (auto simp: in_flight_def stock_ok_def)
  have evs: "event_ok d2 e" if "e \<in> set (E @ ev)" for e
  proof -
    have "\<exists>y \<in> set (transfer_items d). xi_id y = xi_id (snd e) \<and> xi_transfer y = xi_transfer (snd e)" "item_update_allowed (fst e) (snd e)"
      using that fl x idf u(2) by (auto simp: in_flight_def event_ok_def ev same_identity_def)
    then show ?thesis unfolding event_ok_def using ex [of "\<lambda>a b c. a = xi_id (snd e) \<and> c = xi_transfer (snd e)"] by blast
  qed
  have sums: "transit_sum d2 (xi_id y) + pending_transit (E @ ev) (xi_id y) = outstanding y
          \<and> item_ledger d2 (xi_id y) + pending_ledger (E @ ev) (xi_id y) = xi_received y - xi_shipped y"
    if "y \<in> set (transfer_items d2)" for y
  proof -
    have l: "transit_sum d2 i = transit_sum d i" "item_ledger d2 i = item_ledger d i" for i
      by (simp_all add: transit_sum_def item_ledger_def same)
    have old: "transit_sum d (xi_id z) + pending_transit E (xi_id z) = outstanding z
          \<and> item_ledger d (xi_id z) + pending_ledger E (xi_id z) = xi_received z - xi_shipped z"
      if "z \<in> set (transfer_items d)" for z using fl that by (simp add: in_flight_def)
    from that consider "y = f x" | "y \<in> set (transfer_items d)" "xi_id y \<noteq> xi_id x" by (auto simp: i2 mem)
    then show ?thesis
    proof cases
      case 1
      then show ?thesis using old [OF x] by (simp add: l ev fid)
    next
      case 2
      then show ?thesis using old [OF 2(1)] by (simp add: l ev fid)
    qed
  qed
  show "in_flight d2 (E @ ev)"
    unfolding in_flight_def using rows2 stk evs sums fl by (simp add: in_flight_def same)
qed

text \<open>What the loops over the items of a transfer leave alone.\<close>

definition loop_frame :: "id \<Rightarrow> 'a transfer_db_scheme \<Rightarrow> 'a transfer_db_scheme \<Rightarrow> bool" where
  "loop_frame i d d' \<longleftrightarrow>
     (\<forall>j. j \<noteq> i \<longrightarrow> items_of j d' = items_of j d) \<and> movements d' = movements d \<and> transit d' = transit d
     \<and> branches d' = branches d \<and> variant_tenants d' = variant_tenants d \<and> transfers d' = transfers d
     \<and> commands d' = commands d \<and> audits d' = audits d \<and> number_sequence d' = number_sequence d"

lemma loop_frame_refl [simp]: "loop_frame i d d"
  by (simp add: loop_frame_def)

lemma loop_frame_trans: "loop_frame i d d' \<Longrightarrow> loop_frame i d' d'' \<Longrightarrow> loop_frame i d d''"
  by (simp add: loop_frame_def)

lemma items_of_replace:
  assumes "distinct (map xi_id xs)" and "x \<in> set xs" and "xi_id y = xi_id x" and "xi_transfer x = i" and "xi_transfer y = i"
    and "j \<noteq> i"
  shows "filter (\<lambda>z. xi_transfer z = j) (replace_item y xs) = filter (\<lambda>z. xi_transfer z = j) xs"
proof -
  have "filter (\<lambda>z. xi_transfer z = j) (replace_item y zs) = filter (\<lambda>z. xi_transfer z = j) zs" if "set zs \<subseteq> set xs" for zs
    using that
  proof (induction zs)
    case (Cons z zs)
    have "z = x" if "xi_id z = xi_id x" using that Cons.prems assms(1,2) by (auto simp: distinct_map inj_on_def)
    then show ?case using Cons assms by (auto simp: replace_item_def)
  qed (simp add: replace_item_def)
  then show ?thesis by simp
qed

lemma replaced_loop_frame:
  assumes "in_flight d E" and "x \<in> set (transfer_items d)" and "same_identity x y" and "xi_transfer x = i"
    and "transfer_items d2 = replace_item y (transfer_items d)" and "stock_frame d (d2\<lparr>transfer_items := transfer_items d\<rparr>)"
  shows "loop_frame i d d2"
proof -
  have "distinct (map xi_id (transfer_items d))" using assms(1) by (simp add: in_flight_def rows_ok_def)
  from items_of_replace [OF this assms(2), of y i] assms show ?thesis
    by (simp add: loop_frame_def stock_frame_def items_of_def same_identity_def)
qed

lemma take_available_effect:
  assumes "take_available t b v q d = (1, d1)"
  shows "\<exists>r. stock d (b, v) = Some r \<and> stock_tenant r = t \<and> q \<le> qty_on_hand r - qty_reserved r
           \<and> d1 = d\<lparr>stock := (stock d)((b, v) \<mapsto> r\<lparr>qty_on_hand := qty_on_hand r - q\<rparr>)\<rparr>"
  using assms by (auto simp: take_available_def split: option.splits if_splits)

lemma ship_item_flight:
  assumes fl: "in_flight d E" and x: "x \<in> set (transfer_items d)" and ns: "xi_shipped x = 0" and tr: "xi_transfer x = i"
    and t: "t \<in> set (transfers d)" "xf_id t = i"
    and run: "ship_item tenant (xf_from t) x (E, d) = Inr st"
  shows "in_flight (snd st) (fst st)" and "loop_frame i d (snd st)"
    and "transfer_items (snd st) = replace_item (x\<lparr>xi_shipped := xi_qty x\<rparr>) (transfer_items d)"
proof -
  let ?f = "\<lambda>y. y\<lparr>xi_shipped := xi_qty y\<rparr>"
  obtain n d1 where take: "take_available tenant (xf_from t) (xi_variant x) (xi_qty x) d = (n, d1)"
    by (cases "take_available tenant (xf_from t) (xi_variant x) (xi_qty x) d")
  from run take have n: "n = 1" by (auto simp: ship_item_def result_simps)
  with run take obtain ev d2 where up: "update_item (xi_id x) ?f d1 = Inr (ev, d2)" and st: "st = (E @ ev, d2)"
    by (auto simp: ship_item_def result_simps)
  obtain r where r: "stock d (xf_from t, xi_variant x) = Some r"
    and d1: "d1 = d\<lparr>stock := (stock d)((xf_from t, xi_variant x) \<mapsto> r\<lparr>qty_on_hand := qty_on_hand r - xi_qty x\<rparr>)\<rparr>"
    using take_available_effect take n by blast
  have fr: "stock_frame d d1" by (simp add: stock_frame_def d1)
  have ten: "tenants_ok d1" by (rule tenants_ok_stock [of d]) (use fl r in \<open>auto simp: in_flight_def stock_ok_def d1\<close>)
  have pos: "0 < xi_qty x" using fl x by (auto simp: in_flight_def rows_ok_def item_constraints_def)
  have bal: "balanced d1 b v \<or> touches d (x, ?f x) b v" if "balanced d b v" for b v
  proof (cases "(b, v) = (xf_from t, xi_variant x)")
    case True
    then have "touches d (x, ?f x) b v" using t tr ns pos by (auto simp: touches_def)
    then show ?thesis ..
  next
    case False
    have "balanced d1 b v" by (rule balanced_elsewhere [OF _ _ False that]) (simp_all add: d1)
    then show ?thesis ..
  qed
  have idf: "same_identity x (?f x)" by (simp add: same_identity_def)
  note u = in_flight_update [OF fl fr ten bal x up idf]
  show "in_flight (snd st) (fst st)" using u(1) st by simp
  show "transfer_items (snd st) = replace_item (x\<lparr>xi_shipped := xi_qty x\<rparr>) (transfer_items d)" using u(3) st by simp
  show "loop_frame i d (snd st)" using replaced_loop_frame [OF fl x idf tr u(3,4)] st by simp
qed

lemma ship_loop:
  assumes "fold_result (ship_item tenant (xf_from t)) xs (E, d) = Inr st" and "in_flight d E"
    and "distinct (map xi_id xs)" and "\<forall>x \<in> set xs. x \<in> set (transfer_items d) \<and> xi_shipped x = 0 \<and> xi_transfer x = i"
    and "t \<in> set (transfers d)" and "xf_id t = i"
  shows "in_flight (snd st) (fst st) \<and> loop_frame i d (snd st)"
  using assms
proof (induction xs arbitrary: E d)
  case (Cons x xs)
  from Cons.prems(1) obtain st1 where s1: "ship_item tenant (xf_from t) x (E, d) = Inr st1"
    "fold_result (ship_item tenant (xf_from t)) xs st1 = Inr st" by (auto simp: result_simps)
  obtain E1 d1 where st1: "st1 = (E1, d1)" by (cases st1)
  have x: "x \<in> set (transfer_items d)" "xi_shipped x = 0" "xi_transfer x = i" using Cons.prems(4) by simp_all
  note f = ship_item_flight [OF Cons.prems(2) x Cons.prems(5,6) s1(1)]
  have dist: "distinct (map xi_id (transfer_items d))" using Cons.prems(2) by (simp add: in_flight_def rows_ok_def)
  have "\<forall>y \<in> set xs. y \<in> set (transfer_items d1) \<and> xi_shipped y = 0 \<and> xi_transfer y = i"
  proof
    fix y assume y: "y \<in> set xs"
    then have "xi_id y \<noteq> xi_id x" using Cons.prems(3) by (metis distinct.simps(2) imageI list.set_map list.simps(9))
    moreover have "y \<in> set (transfer_items d)" using y Cons.prems(4) by simp
    ultimately have "y \<in> set (transfer_items d1)"
      using f(3) st1 in_replace_item [OF dist x(1), of "x\<lparr>xi_shipped := xi_qty x\<rparr>" y] by simp
    with y Cons.prems(4) show "y \<in> set (transfer_items d1) \<and> xi_shipped y = 0 \<and> xi_transfer y = i" by simp
  qed
  moreover have "t \<in> set (transfers d1)" using f(2) Cons.prems(5) st1 by (simp add: loop_frame_def)
  ultimately have "in_flight (snd st) (fst st) \<and> loop_frame i d1 (snd st)"
    using Cons.IH [of E1 d1] s1(2) f(1) st1 Cons.prems(3,6) by simp
  with f(2) st1 show ?case using loop_frame_trans [of i d d1] by simp
qed auto

text \<open>An item of a receipt: the guards bound what it resolves by what is outstanding.\<close>

definition receipt_update :: "receipt_line \<Rightarrow> transfer_item \<Rightarrow> transfer_item" where
  "receipt_update r y = y\<lparr>xi_received := xi_received y + rl_received r, xi_damaged := xi_damaged y + rl_damaged r,
                          xi_missing := xi_missing y + rl_missing r\<rparr>"

lemma receive_item_flight:
  assumes fl: "in_flight d E" and x: "x \<in> set (transfer_items d)" and tr: "xi_transfer x = i"
    and lk: "find (\<lambda>y. xi_id y = rl_item r) locked = Some x0" and idx: "xi_id x = rl_item r" "xi_variant x = xi_variant x0"
    and t: "t \<in> set (transfers d)" "xf_id t = i"
    and run: "receive_item tenant (xf_to t) locked r (E, d) = Inr st"
  shows "in_flight (snd st) (fst st)" and "loop_frame i d (snd st)"
    and "transfer_items (snd st) = replace_item (receipt_update r x) (transfer_items d)"
proof -
  let ?f = "receipt_update r"
  have x0: "xi_id x0 = xi_id x" using find_Some_iff_set [OF lk] idx(1) by simp
  from run [unfolded receive_item_def lk or_throw_simps and_then_simps fst_conv snd_conv and_then_Inr_iff throw_if_Inr_iff]
  obtain d1 p where
    d1: "(if rl_received r > 0 then upsert_stock tenant (xf_to t) (xi_variant x) (rl_received r) None d
          else Inr (ensure_stock tenant (xf_to t) (xi_variant x) d)) = Inr d1"
    and up0: "update_item (xi_id x) ?f d1 = Inr p" and p: "(case p of (events, d2) \<Rightarrow> Inr (E @ events, d2)) = (Inr st :: _ result)"
    unfolding idx(2) x0 [symmetric] receipt_update_def [abs_def] by blast
  obtain ev d2 where "p = (ev, d2)" by (cases p)
  with up0 p have up: "update_item (xi_id x) ?f d1 = Inr (ev, d2)" and st: "st = (E @ ev, d2)" by simp_all
  have eff: "movements d1 = movements d \<and> (\<exists>q. stock d1 = (stock d)((xf_to t, xi_variant x) \<mapsto> q)
      \<and> (case stock d (xf_to t, xi_variant x) of None \<Rightarrow> True | Some q0 \<Rightarrow> stock_tenant q = stock_tenant q0 \<and> (rl_received r \<le> 0 \<longrightarrow> q = q0)))
      \<and> stock_frame d d1"
  proof (cases "rl_received r > 0")
    case True
    then show ?thesis using d1 by (auto simp: upsert_stock_def Let_def stock_frame_def split: if_splits option.splits)
  next
    case False
    then have "d1 = ensure_stock tenant (xf_to t) (xi_variant x) d" using d1 by simp
    moreover have "stock d = (stock d)(k \<mapsto> q0)" if "stock d k = Some q0" for k q0
      using that by (simp add: fun_upd_idem)
    ultimately show ?thesis by (auto simp: ensure_stock_def stock_frame_def split: option.splits)
  qed
  then obtain q where ms: "movements d1 = movements d" and q: "stock d1 = (stock d)((xf_to t, xi_variant x) \<mapsto> q)"
    and qt: "case stock d (xf_to t, xi_variant x) of None \<Rightarrow> True | Some q0 \<Rightarrow> stock_tenant q = stock_tenant q0 \<and> (rl_received r \<le> 0 \<longrightarrow> q = q0)"
    and fr: "stock_frame d d1" by blast
  have ten: "tenants_ok d1" by (rule tenants_ok_stock [of d]) (use fl qt in \<open>auto simp: in_flight_def stock_ok_def ms q split: option.splits\<close>)
  have bal: "balanced d1 b v \<or> touches d (x, ?f x) b v" if "balanced d b v" for b v
  proof (cases "(b, v) = (xf_to t, xi_variant x)")
    case True
    show ?thesis
    proof (cases "rl_received r > 0")
      case True
      then have "touches d (x, ?f x) b v" using t tr \<open>(b, v) = _\<close> by (auto simp: touches_def receipt_update_def)
      then show ?thesis ..
    next
      case False
      have "balanced d1 b v"
      proof (cases "stock d (b, v)")
        case None
        then have "movements_at (movements d) b v = []" using that by (auto simp: balanced_def reconciled_def)
        then show ?thesis by (simp add: balanced_def ms)
      next
        case (Some q0)
        then have "stock d1 (b, v) = stock d (b, v)" using q qt False \<open>(b, v) = _\<close> by auto
        then show ?thesis using balanced_frame [OF ms _ that] by simp
      qed
      then show ?thesis ..
    qed
  next
    case False
    have "balanced d1 b v" by (rule balanced_elsewhere [OF ms q False that])
    then show ?thesis ..
  qed
  have idf: "same_identity x (?f x)" by (simp add: same_identity_def receipt_update_def)
  note u = in_flight_update [OF fl fr ten bal x up idf]
  show "in_flight (snd st) (fst st)" using u(1) st by simp
  show "transfer_items (snd st) = replace_item (receipt_update r x) (transfer_items d)" using u(3) st by simp
  show "loop_frame i d (snd st)" using replaced_loop_frame [OF fl x idf tr u(3,4)] st by simp
qed

lemma receive_loop:
  assumes "fold_result (receive_item tenant (xf_to t) locked) rs (E, d) = Inr st" and "in_flight d E"
    and "\<forall>x0 \<in> set locked. xi_transfer x0 = i \<and> (\<exists>x \<in> set (transfer_items d). same_identity x0 x)"
    and "t \<in> set (transfers d)" and "xf_id t = i"
  shows "in_flight (snd st) (fst st) \<and> loop_frame i d (snd st)"
  using assms
proof (induction rs arbitrary: E d)
  case (Cons r rs)
  from Cons.prems(1) obtain st1 where s1: "receive_item tenant (xf_to t) locked r (E, d) = Inr st1"
    "fold_result (receive_item tenant (xf_to t) locked) rs st1 = Inr st" by (auto simp: result_simps)
  obtain E1 d1 where st1: "st1 = (E1, d1)" by (cases st1)
  from s1(1) obtain x0 where lk: "find (\<lambda>y. xi_id y = rl_item r) locked = Some x0"
    by (auto simp: receive_item_def result_simps)
  then have x0: "x0 \<in> set locked" "xi_id x0 = rl_item r" using find_Some_iff_set by fastforce+
  then obtain x where x: "x \<in> set (transfer_items d)" "same_identity x0 x" using Cons.prems(3) by blast
  then have idx: "xi_id x = rl_item r" "xi_variant x = xi_variant x0" "xi_transfer x = i"
    using x0 Cons.prems(3) by (simp_all add: same_identity_def)
  note f = receive_item_flight [OF Cons.prems(2) x(1) idx(3) lk idx(1,2) Cons.prems(4,5) s1(1)]
  have dist: "distinct (map xi_id (transfer_items d))" using Cons.prems(2) by (simp add: in_flight_def rows_ok_def)
  have "\<exists>z \<in> set (transfer_items d1). same_identity y z" if "y \<in> set locked" for y
  proof -
    from that obtain z where z: "z \<in> set (transfer_items d)" "same_identity y z" using Cons.prems(3) by blast
    have mem: "w \<in> set (transfer_items d1) \<longleftrightarrow> w = receipt_update r x \<or> (w \<in> set (transfer_items d) \<and> xi_id w \<noteq> xi_id x)" for w
      using f(3) st1 in_replace_item [OF dist x(1), of "receipt_update r x" w] by (simp add: receipt_update_def)
    show ?thesis
    proof (cases "xi_id z = xi_id x")
      case True
      then have "z = x" using z(1) x(1) dist by (auto simp: distinct_map inj_on_def)
      then have "same_identity y (receipt_update r x)" using z(2) by (simp add: same_identity_def receipt_update_def)
      then show ?thesis using mem by blast
    next
      case False
      then show ?thesis using z mem by blast
    qed
  qed
  moreover have "t \<in> set (transfers d1)" using f(2) Cons.prems(4) st1 by (simp add: loop_frame_def)
  ultimately have "in_flight (snd st) (fst st) \<and> loop_frame i d1 (snd st)"
    using Cons.IH [of E1 d1] s1(2) f(1) st1 Cons.prems(3,5) by simp
  with f(2) st1 show ?case using loop_frame_trans [of i d d1] by simp
qed auto

section \<open>The handlers keep the invariant\<close>

lemma in_flight_cong:
  assumes "movements d' = movements d" "transit d' = transit d" "stock d' = stock d" "transfers d' = transfers d"
    "transfer_items d' = transfer_items d"
  shows "in_flight d' E = in_flight d E" and "statuses_ok d' = statuses_ok d"
proof -
  have t: "touches d' = touches d" "event_ok d' = event_ok d" by (simp_all add: touches_def event_ok_def assms fun_eq_iff)
  show "in_flight d' E = in_flight d E"
    unfolding in_flight_def rows_ok_def stock_ok_def t same_stock [OF assms(1,3)] transit_sum_def item_ledger_def item_exists_def assms ..
  show "statuses_ok d' = statuses_ok d" unfolding statuses_ok_def items_of_def assms ..
qed

definition same_route :: "transfer \<Rightarrow> transfer \<Rightarrow> bool" where
  "same_route t u \<longleftrightarrow> xf_id u = xf_id t \<and> xf_tenant u = xf_tenant t \<and> xf_from u = xf_from t \<and> xf_to u = xf_to t
     \<and> xf_key u = xf_key t \<and> xf_fingerprint u = xf_fingerprint t"

lemma update_transfer_Inr:
  assumes "update_transfer i g d = Inr d'" and "distinct (map xf_id (transfers d))" and "t \<in> set (transfers d)" and "xf_id t = i"
  shows "d' = d\<lparr>transfers := map (\<lambda>t. if xf_id t = i then g t else t) (transfers d)\<rparr>"
    and "transition_allowed (xf_status t) (xf_status (g t))" and "status_fits (xf_status (g t)) (items_of i d)"
proof -
  have "find (\<lambda>t. xf_id t = i) (transfers d) = Some t" using find_by_key [OF assms(2,3)] assms(4) by simp
  moreover have "map (\<lambda>u. if xf_id u = i then g t else u) (transfers d) = map (\<lambda>t. if xf_id t = i then g t else t) (transfers d)"
    using assms(2-4) by (auto simp: distinct_map inj_on_def)
  ultimately show "d' = d\<lparr>transfers := map (\<lambda>t. if xf_id t = i then g t else t) (transfers d)\<rparr>"
    "transition_allowed (xf_status t) (xf_status (g t))" "status_fits (xf_status (g t)) (items_of i d)"
    using assms(1) by (auto simp: update_transfer_def Let_def result_simps)
qed

lemma in_flight_route:
  assumes fl: "in_flight d E" and g: "\<And>t. same_route t (g t)"
    and d': "d' = d\<lparr>transfers := map (\<lambda>t. if xf_id t = i then g t else t) (transfers d)\<rparr>"
  shows "in_flight d' E"
proof -
  let ?h = "\<lambda>t. if xf_id t = i then g t else t"
  have h: "xf_id (?h t) = xf_id t" "xf_tenant (?h t) = xf_tenant t" "xf_from (?h t) = xf_from t" "xf_to (?h t) = xf_to t" for t
    using g [of t] by (simp_all add: same_route_def)
  have same: "movements d' = movements d" "stock d' = stock d" "transit d' = transit d" "transfer_items d' = transfer_items d"
    "transfers d' = map ?h (transfers d)" by (simp_all add: d')
  have m: "map xf_id (map ?h (transfers d)) = map xf_id (transfers d)" by (simp add: comp_def h)
  have ex: "(\<exists>t \<in> set (map ?h (transfers d)). P (xf_id t) (xf_tenant t) (xf_from t) (xf_to t))
      = (\<exists>t \<in> set (transfers d). P (xf_id t) (xf_tenant t) (xf_from t) (xf_to t))" for P
    by (simp only: set_map bex_simps h)
  have t: "touches d' = touches d"
  proof (intro ext)
    fix e b v
    show "touches d' e b v = touches d e b v" unfolding touches_def same
      by (rule ex [of "\<lambda>a b' c d. a = _ \<and> _ \<and> ((_ \<and> _ = c) \<or> (_ \<and> _ = d))"])
  qed
  have e: "event_ok d' = event_ok d" by (simp add: event_ok_def same fun_eq_iff)
  have r: "rows_ok d'"
  proof -
    have "\<exists>t \<in> set (map ?h (transfers d)). xf_id t = xi_transfer x \<and> xf_tenant t = xi_tenant x"
      if "x \<in> set (transfer_items d)" for x
      using ex [of "\<lambda>a b _ _. a = xi_transfer x \<and> b = xi_tenant x"] fl that by (auto simp: in_flight_def rows_ok_def)
    moreover have "plain_id (xf_from t) \<and> plain_id (xf_to t)" if "t \<in> set (map ?h (transfers d))" for t
      using that fl g by (auto simp: in_flight_def rows_ok_def same_route_def)
    moreover have "distinct (map xf_id (map ?h (transfers d)))" unfolding m using fl by (simp add: in_flight_def rows_ok_def)
    ultimately show ?thesis using fl unfolding in_flight_def rows_ok_def same item_exists_def by blast
  qed
  show ?thesis using fl r
    unfolding in_flight_def stock_ok_def t e same_stock [OF same(1,2)] transit_sum_def item_ledger_def same by blast
qed

text \<open>What a step does to the transfers and the commands that exist.\<close>

definition evolves :: "'a transfer_db_scheme \<Rightarrow> 'a transfer_db_scheme \<Rightarrow> bool" where
  "evolves d d' \<longleftrightarrow>
     (\<forall>t \<in> set (transfers d). \<exists>u \<in> set (transfers d'). same_route t u \<and> transition_allowed (xf_status t) (xf_status u))
     \<and> (\<exists>cs. commands d' = commands d @ cs) \<and> (\<exists>ts. map xf_id (transfers d') = map xf_id (transfers d) @ ts)"

definition command_recorded :: "'a transfer_db_scheme \<Rightarrow> id \<Rightarrow> id \<Rightarrow> command_type \<Rightarrow> string \<Rightarrow> string \<Rightarrow> bool" where
  "command_recorded d tenant i type key fingerprint \<longleftrightarrow>
     (\<exists>c \<in> set (commands d). co_tenant c = tenant \<and> co_transfer c = i \<and> co_type c = type \<and> co_key c = key
        \<and> co_fingerprint c = fingerprint)"

lemma same_route_refl [simp]: "same_route t t"
  by (simp add: same_route_def)

lemma transition_allowed_refl [simp]: "transition_allowed s s"
  by (simp add: transition_allowed_def)

lemma evolves_same: "transfers d' = transfers d \<Longrightarrow> commands d' = commands d \<Longrightarrow> evolves d d'"
  unfolding evolves_def using same_route_refl transition_allowed_refl by (metis append_Nil2)

lemma evolves_refl [simp]: "evolves d d"
  by (rule evolves_same) simp_all

lemma record_command_Inr:
  "record_command tenant i type key fp status user d = Inr d' \<longleftrightarrow>
     (\<forall>c \<in> set (commands d). co_key c \<noteq> key)
     \<and> d' = d\<lparr>commands := commands d @ [\<lparr>co_transfer = i, co_type = type, co_key = key, co_fingerprint = fp,
                                       co_result = status, co_by = user, co_tenant = tenant\<rparr>]\<rparr>"
  by (auto simp: record_command_def result_simps list_ex_iff)

lemma finish_command:
  assumes inv: "transfer_inv d" and fl: "in_flight d1 E" and fr: "loop_frame i d d1"
    and t: "t \<in> set (transfers d)" "xf_id t = i" and g: "\<And>u. same_route u (g u)"
    and up: "update_transfer i g d1 = Inr d2" and rc: "record_command tenant i type key fp status user d2 = Inr d3"
    and cm: "commit now E (audit au1 au2 au3 au4 au5 d3) = Inr d4"
  shows "transfer_inv d4" and "evolves d d4" and "command_recorded d4 tenant i type key fp"
    and "\<exists>u \<in> set (transfers d4). same_route t u \<and> xf_status u = xf_status (g t)"
proof -
  have same: "transfers d1 = transfers d" "commands d1 = commands d" using fr by (simp_all add: loop_frame_def)
  have dist: "distinct (map xf_id (transfers d))" using inv by (simp add: transfer_inv_def in_flight_def rows_ok_def)
  note u = update_transfer_Inr [OF up, unfolded same, OF dist t]
  have fl2: "in_flight d2 E" by (rule in_flight_route [OF fl g, of _ i]) (simp add: u(1) same)
  have st2: "statuses_ok d2"
    unfolding statuses_ok_def
  proof
    fix v assume "v \<in> set (transfers d2)"
    then obtain v0 where v0: "v0 \<in> set (transfers d)" "v = (if xf_id v0 = i then g v0 else v0)" by (auto simp: u(1))
    have items: "items_of j d2 = items_of j d1" for j by (simp add: u(1) items_of_def)
    show "status_fits (xf_status v) (items_of (xf_id v) d2)"
    proof (cases "xf_id v0 = i")
      case True
      then have "v0 = t" using v0(1) t dist by (auto simp: distinct_map inj_on_def)
      then have "v = g t" "xf_id v = i" using v0 True g [of t] by (simp_all add: same_route_def)
      then show ?thesis using u(3) by (simp add: items)
    next
      case False
      then show ?thesis using v0 inv fr by (simp add: items transfer_inv_def statuses_ok_def loop_frame_def)
    qed
  qed
  from rc have d3: "d3 = d2\<lparr>commands := commands d2 @ [\<lparr>co_transfer = i, co_type = type, co_key = key, co_fingerprint = fp,
      co_result = status, co_by = user, co_tenant = tenant\<rparr>]\<rparr>" by (simp add: record_command_Inr)
  let ?d = "audit au1 au2 au3 au4 au5 d3"
  have "in_flight ?d E = in_flight d2 E" "statuses_ok ?d = statuses_ok d2"
    by (intro in_flight_cong; simp add: audit_def d3)+
  with fl2 st2 have q: "in_flight ?d E" "statuses_ok ?d" by simp_all
  from commit_flight [OF q(1) cm] have c: "in_flight d4 []" "ledger_frame ?d d4" by simp_all
  have "statuses_ok d4 = statuses_ok ?d" using c(2) unfolding statuses_ok_def items_of_def ledger_frame_def by simp
  note st4 = this
  have tr4: "transfers d4 = map (\<lambda>t. if xf_id t = i then g t else t) (transfers d)"
    and co4: "commands d4 = commands d @ [\<lparr>co_transfer = i, co_type = type, co_key = key, co_fingerprint = fp,
      co_result = status, co_by = user, co_tenant = tenant\<rparr>]"
    using c(2) by (simp_all add: ledger_frame_def audit_def d3 u(1) same)
  have "map xf_key (transfers d4) = map xf_key (transfers d)" using g by (simp add: tr4 same_route_def)
  moreover have "\<forall>c \<in> set (commands d). co_key c \<noteq> key" using rc by (simp add: record_command_Inr u(1) same)
  then have "distinct (map co_key (commands d4))" using inv by (auto simp: transfer_inv_def co4)
  ultimately show "transfer_inv d4" using q c(1) st4 inv by (simp add: transfer_inv_def)
  show "command_recorded d4 tenant i type key fp" by (simp add: command_recorded_def co4)
  show "\<exists>u \<in> set (transfers d4). same_route t u \<and> xf_status u = xf_status (g t)"
    using t g [of t] by (auto simp: tr4)
  have "\<exists>u \<in> set (transfers d4). same_route v u \<and> transition_allowed (xf_status v) (xf_status u)" if "v \<in> set (transfers d)" for v
  proof (cases "xf_id v = i")
    case True
    then have "v = t" using that t dist by (auto simp: distinct_map inj_on_def)
    then show ?thesis using t g [of t] u(2) by (auto simp: tr4)
  next
    case False
    with that have "v \<in> set (transfers d4)" by (auto simp: tr4)
    then show ?thesis using same_route_refl transition_allowed_refl by blast
  qed
  moreover have "map xf_id (transfers d4) = map xf_id (transfers d)"
    using g by (simp add: tr4 same_route_def)
  ultimately show "evolves d d4" using co4 by (simp add: evolves_def)
qed

lemma lock_items_props:
  assumes "x \<in> set (lock_items tenant i d)"
  shows "x \<in> set (transfer_items d)" and "xi_transfer x = i" and "xi_tenant x = tenant"
  using assms by (simp_all add: lock_items_def items_of_def)

lemma lock_items_distinct: "distinct (map xi_id (transfer_items d)) \<Longrightarrow> distinct (map xi_id (lock_items tenant i d))"
  by (simp add: lock_items_def items_of_def distinct_map_filter)

text \<open>A pending transfer has shipped nothing.\<close>

lemma pending_unshipped:
  assumes inv: "transfer_inv d" and t: "t \<in> set (transfers d)" "xf_id t = i" "xf_status t = Pending"
    and x: "x \<in> set (transfer_items d)" "xi_transfer x = i"
  shows "xi_shipped x = 0"
proof -
  have fit: "status_fits Pending (items_of i d)" using inv t by (auto simp: transfer_inv_def statuses_ok_def)
  have c: "item_constraints y" if "y \<in> set (items_of i d)" for y
    using inv that by (auto simp: transfer_inv_def in_flight_def rows_ok_def items_of_def)
  have nn: "0 \<le> resolved y" "0 \<le> outstanding y" if "y \<in> set (items_of i d)" for y
    using c [OF that] by (auto simp: item_constraints_def resolved_def outstanding_def)
  have xin: "x \<in> set (items_of i d)" using x by (simp add: items_of_def)
  have "resolved x \<le> (\<Sum>y\<leftarrow>items_of i d. resolved y)" "outstanding x \<le> (\<Sum>y\<leftarrow>items_of i d. outstanding y)"
    using nn xin by (auto intro: member_le_sum_list_map)
  then have "resolved x = 0" "outstanding x = 0" using fit nn [OF xin] by (simp_all add: status_fits_def Let_def)
  then show ?thesis by (simp add: resolved_def outstanding_def)
qed

lemma post_shipment_keeps:
  assumes inv: "transfer_inv d" and t: "t \<in> set (transfers d)" "xf_id t = i"
    and run: "post_shipment C i t key fp d = Inr (r, d')"
  shows "transfer_inv d'" and "evolves d d'" and "command_recorded d' (xc_tenant C) i Ship key fp"
    and "xf_status t = Pending" and "\<exists>u \<in> set (transfers d'). same_route t u \<and> xf_status u = Shipped"
proof -
  from run [unfolded post_shipment_def Let_def and_then_Inr_iff throw_if_Inr_iff outcome_def]
  obtain p d2 d3 d4 where pend: "xf_status t = Pending"
    and loop: "fold_result (ship_item (xc_tenant C) (xf_from t)) (lock_items (xc_tenant C) i d) ([], d) = Inr p"
    and up: "update_transfer i (\<lambda>t. t\<lparr>xf_status := Shipped, xf_shipped_by := Some (ac_sub (xc_actor C)),
                 xf_shipped_at := Some (xc_now C)\<rparr>) (snd p) = Inr d2"
    and rc: "record_command (xc_tenant C) i Ship key fp Shipped (ac_sub (xc_actor C)) d2 = Inr d3"
    and cm: "commit (xc_now C) (fst p) (audit (xc_tenant C) (Some (ac_sub (xc_actor C))) ''transfer.shipped'' ''Transfer'' i d3) = Inr d4"
    and d': "d' = d4"
    by (auto simp: result_simps split: prod.splits)
  have fl: "in_flight d []" using inv by (simp add: transfer_inv_def)
  then have dist: "distinct (map xi_id (transfer_items d))" by (simp add: in_flight_def rows_ok_def)
  have "\<forall>x \<in> set (lock_items (xc_tenant C) i d). x \<in> set (transfer_items d) \<and> xi_shipped x = 0 \<and> xi_transfer x = i"
    using lock_items_props pending_unshipped [OF inv t pend] by blast
  from ship_loop [OF loop fl lock_items_distinct [OF dist] this t]
  have l: "in_flight (snd p) (fst p)" "loop_frame i d (snd p)" by simp_all
  note f = finish_command [OF inv l t _ up rc cm]
  show "transfer_inv d'" "evolves d d'" "command_recorded d' (xc_tenant C) i Ship key fp" "xf_status t = Pending"
    "\<exists>u \<in> set (transfers d'). same_route t u \<and> xf_status u = Shipped"
    using f pend by (simp_all add: same_route_def d')
qed

lemma post_receipt_keeps:
  assumes inv: "transfer_inv d" and t: "t \<in> set (transfers d)" "xf_id t = i"
    and run: "post_receipt C i t rs key fp d = Inr (r, d')"
  shows "transfer_inv d'" and "evolves d d'" and "command_recorded d' (xc_tenant C) i Receive key fp"
    and "xf_status t \<in> {Shipped, Partially_Received}"
proof -
  from run obtain p d2 d3 d4 requested status where pend: "xf_status t \<in> {Shipped, Partially_Received}"
    and loop: "fold_result (receive_item (xc_tenant C) (xf_to t) (lock_items (xc_tenant C) i d)) requested ([], d) = Inr p"
    and up: "update_transfer i (\<lambda>t. t\<lparr>xf_status := status, xf_received_by := Some (ac_sub (xc_actor C)),
                 xf_received_at := (if status = Received then Some (xc_now C) else xf_received_at t)\<rparr>) (snd p) = Inr d2"
    and rc: "record_command (xc_tenant C) i Receive key fp status (ac_sub (xc_actor C)) d2 = Inr d3"
    and cm: "commit (xc_now C) (fst p) (audit (xc_tenant C) (Some (ac_sub (xc_actor C))) ''transfer.received'' ''Transfer'' i d3) = Inr d4"
    and d': "d' = d4"
    unfolding post_receipt_def Let_def and_then_Inr_iff throw_if_Inr_iff outcome_def case_prod_unfold by (elim exE conjE) auto
  have fl: "in_flight d []" using inv by (simp add: transfer_inv_def)
  have "\<forall>x0 \<in> set (lock_items (xc_tenant C) i d). xi_transfer x0 = i \<and> (\<exists>x \<in> set (transfer_items d). same_identity x0 x)"
    using lock_items_props by (fastforce simp: same_identity_def)
  from receive_loop [OF loop fl this t]
  have l: "in_flight (snd p) (fst p)" "loop_frame i d (snd p)" by simp_all
  note f = finish_command [OF inv l t _ up rc cm]
  show "transfer_inv d'" "evolves d d'" "command_recorded d' (xc_tenant C) i Receive key fp" "xf_status t \<in> {Shipped, Partially_Received}"
    using f pend by (simp_all add: same_route_def d')
qed

lemma post_cancellation_keeps:
  assumes inv: "transfer_inv d" and t: "t \<in> set (transfers d)" "xf_id t = i"
    and run: "post_cancellation C i t reason key fp d = Inr (r, d')"
  shows "transfer_inv d'" and "evolves d d'" and "command_recorded d' (xc_tenant C) i Cancel key fp"
    and "xf_status t = Pending"
proof -
  from run obtain d1 d2 where pend: "xf_status t = Pending"
    and up: "update_transfer i (\<lambda>t. t\<lparr>xf_status := Cancelled, xf_cancelled_by := Some (ac_sub (xc_actor C)),
                  xf_cancelled_at := Some (xc_now C), xf_reason := Some reason\<rparr>) d = Inr d1"
    and rc: "record_command (xc_tenant C) i Cancel key fp Cancelled (ac_sub (xc_actor C)) d1 = Inr d2"
    and d': "d' = audit (xc_tenant C) (Some (ac_sub (xc_actor C))) ''transfer.cancelled'' ''Transfer'' i d2"
    unfolding post_cancellation_def Let_def and_then_Inr_iff throw_if_Inr_iff outcome_def by (elim exE conjE) auto
  have fl: "in_flight d []" using inv by (simp add: transfer_inv_def)
  have "commit (xc_now C) [] d' = Inr d'" by (simp add: commit_def)
  note f = finish_command [OF inv fl loop_frame_refl t _ up rc this [unfolded d']]
  show "transfer_inv d'" "evolves d d'" "command_recorded d' (xc_tenant C) i Cancel key fp" "xf_status t = Pending"
    using f pend by (simp_all add: same_route_def d')
qed

section \<open>Creating a transfer\<close>

lemma inserted_keeps:
  assumes inv: "transfer_inv d" and new: "\<forall>u \<in> set (transfers d). xf_id u \<noteq> xf_id t \<and> xf_key u \<noteq> xf_key t"
    and pend: "xf_status t = Pending" and plain: "plain_id (xf_from t)" "plain_id (xf_to t)"
    and xs: "\<forall>x \<in> set xs. item_constraints x \<and> xi_shipped x = 0 \<and> xi_transfer x = xf_id t \<and> xi_tenant x = xf_tenant t"
    and ids: "distinct (map xi_id xs)" "\<forall>x \<in> set xs. \<forall>y \<in> set (transfer_items d). xi_id y \<noteq> xi_id x"
    and d': "movements d' = movements d" "transit d' = transit d" "stock d' = stock d" "transfers d' = transfers d @ [t]"
      "transfer_items d' = transfer_items d @ xs" "commands d' = commands d"
  shows "transfer_inv d'" and "evolves d d'"
proof -
  from inv have fl: "in_flight d []" and rows: "rows_ok d" by (simp_all add: transfer_inv_def in_flight_def)
  have zero: "resolved x = 0" "outstanding x = 0" "xi_received x = 0" if "x \<in> set xs" for x
    using xs that by (auto simp: item_constraints_def resolved_def outstanding_def)
  have notin: "xi_transfer x \<noteq> xf_id t" if "x \<in> set (transfer_items d)" for x
    using rows that new by (auto simp: rows_ok_def)
  have rows': "rows_ok d'"
    using rows new plain xs ids by (auto simp: rows_ok_def item_exists_def d')
  have sums: "transit_sum d' (xi_id x) = outstanding x \<and> item_ledger d' (xi_id x) = xi_received x - xi_shipped x"
    if x: "x \<in> set (transfer_items d')" for x
  proof -
    have l: "transit_sum d' j = transit_sum d j" "item_ledger d' j = item_ledger d j" for j
      by (simp_all add: transit_sum_def item_ledger_def d')
    show ?thesis
    proof (cases "x \<in> set (transfer_items d)")
      case True
      then show ?thesis using fl by (simp add: in_flight_def l)
    next
      case False
      then have xin: "x \<in> set xs" using x by (simp add: d')
      have no_rows: "\<not> (\<exists>m \<in> set (transit d). tm_item m = xi_id x)"
        using rows ids(2) xin by (auto simp: rows_ok_def item_exists_def)
      have no_moves: "\<not> (\<exists>m \<in> set (movements d). of_item (xi_id x) m)"
        using rows ids(2) xin by (auto simp: rows_ok_def of_item_def)
      have "transit_sum d (xi_id x) = 0" using no_rows by (auto simp: transit_sum_def filter_empty_conv intro!: sum_list_0)
      moreover have "filter (of_item (xi_id x)) (movements d) = []" using no_moves by (auto simp: filter_empty_conv)
      then have "item_ledger d (xi_id x) = 0" by (simp add: item_ledger_def)
      ultimately show ?thesis using zero [OF xin] xs xin by (simp add: l)
    qed
  qed
  have stk: "stock_ok d' []" using fl by (simp add: in_flight_def stock_ok_def same_stock [OF d'(1,3)] d')
  have fl': "in_flight d' []" using rows' stk sums fl by (simp add: in_flight_def d')
  have st: "statuses_ok d'"
    unfolding statuses_ok_def
  proof
    fix u assume "u \<in> set (transfers d')"
    then consider "u = t" | "u \<in> set (transfers d)" "xf_id u \<noteq> xf_id t" using new by (auto simp: d')
    then show "status_fits (xf_status u) (items_of (xf_id u) d')"
    proof cases
      case 1
      have "items_of (xf_id t) d' = xs" using xs notin by (auto simp: items_of_def d' filter_id_conv filter_empty_conv)
      moreover have "(\<Sum>x\<leftarrow>xs. resolved x) = 0" "(\<Sum>x\<leftarrow>xs. outstanding x) = 0"
        using zero by (auto intro!: sum_list_0 simp: map_idI cong: map_cong)
      ultimately show ?thesis using 1 pend by (simp add: status_fits_def Let_def)
    next
      case 2
      have "items_of (xf_id u) d' = items_of (xf_id u) d" using xs 2(2) by (auto simp: items_of_def d' filter_empty_conv)
      then show ?thesis using 2(1) inv by (simp add: transfer_inv_def statuses_ok_def)
    qed
  qed
  have "distinct (map xf_key (transfers d'))" using inv new by (auto simp: transfer_inv_def d')
  then show "transfer_inv d'" using fl' st inv by (simp add: transfer_inv_def d')
  have "\<exists>u \<in> set (transfers d'). same_route v u \<and> transition_allowed (xf_status v) (xf_status u)" if "v \<in> set (transfers d)" for v
    using that by (intro bexI [of _ v]) (simp_all add: d')
  then show "evolves d d'" by (simp add: evolves_def d')
qed

lemma outcome_Inr:
  "outcome tenant i d = Inr (r, d') \<longleftrightarrow> d' = d \<and> (\<exists>t. find_transfer tenant i d = Some t \<and> r = (t, items_of i d))"
  by (auto simp: outcome_def load_transfer_def result_simps)

lemma find_transfer_Some:
  "find_transfer tenant i d = Some t \<Longrightarrow> t \<in> set (transfers d) \<and> xf_id t = i \<and> xf_tenant t = tenant"
  unfolding find_transfer_def by (drule find_Some_iff_set) simp

lemma post_transfer_keeps:
  assumes inv: "transfer_inv d" and plain: "plain_id (ct_from dto)" "plain_id (ct_to dto)"
    and run: "post_transfer H C dto items key fp d = Inr (r, d')"
  shows "transfer_inv d'" and "evolves d d'"
    and "\<exists>t \<in> set (transfers d'). xf_id t = xf_id (fst r) \<and> xf_key t = key \<and> xf_tenant t = xc_tenant C \<and> xf_fingerprint t = fp"
proof -
  let ?i = "xc_uuid C 1" and ?xs = "map (\<lambda>(k, vq). new_transfer_item (xc_tenant C) (xc_uuid C 1) (xc_uuid C (2 + k)) vq) (enumerate 0 items)"
  from run obtain t d1 d2 where t: "xf_id t = ?i" "xf_tenant t = xc_tenant C" "xf_from t = ct_from dto" "xf_to t = ct_to dto"
      "xf_status t = Pending" "xf_key t = key" "xf_fingerprint t = fp"
    and i1: "insert_transfer t (d\<lparr>number_sequence := number_sequence d + 1\<rparr>) = Inr d1"
    and i2: "insert_items ?xs d1 = Inr d2"
    and o: "outcome (xc_tenant C) ?i (audit (xc_tenant C) (Some (ac_sub (xc_actor C))) ''transfer.created'' ''Transfer'' ?i d2) = Inr (r, d')"
    unfolding post_transfer_def Let_def and_then_Inr_iff throw_if_Inr_iff
    by (elim exE conjE) (rule that; (assumption | simp))
  from i1 have new: "\<forall>u \<in> set (transfers d). xf_id u \<noteq> xf_id t \<and> xf_key u \<noteq> xf_key t"
    and d1: "d1 = d\<lparr>number_sequence := number_sequence d + 1, transfers := transfers d @ [t]\<rparr>"
    by (auto simp: insert_transfer_def result_simps list_ex_iff)
  from i2 have c: "list_all item_constraints ?xs" and ids: "distinct (map xi_id ?xs)"
      "\<forall>x \<in> set ?xs. \<forall>y \<in> set (transfer_items d). xi_id y \<noteq> xi_id x"
    and d2: "d2 = d1\<lparr>transfer_items := transfer_items d @ ?xs\<rparr>"
    unfolding insert_items_def by (auto simp: result_simps list_ex_iff d1)
  have xs: "\<forall>x \<in> set ?xs. item_constraints x \<and> xi_shipped x = 0 \<and> xi_transfer x = xf_id t \<and> xi_tenant x = xf_tenant t"
    using c by (auto simp: list_all_iff new_transfer_item_def t)
  from o have d': "d' = audit (xc_tenant C) (Some (ac_sub (xc_actor C))) ''transfer.created'' ''Transfer'' ?i d2"
    and r: "\<exists>u. find_transfer (xc_tenant C) ?i d' = Some u \<and> fst r = u" by (auto simp: outcome_Inr)
  have f: "movements d' = movements d" "transit d' = transit d" "stock d' = stock d" "transfers d' = transfers d @ [t]"
      "transfer_items d' = transfer_items d @ ?xs" "commands d' = commands d"
    by (simp_all add: d' audit_def d2 d1)
  note k = inserted_keeps [OF inv new t(5) _ _ xs ids f]
  show "transfer_inv d'" "evolves d d'" using k plain by (simp_all add: t)
  have "xf_id (fst r) = ?i" using r find_transfer_Some by auto
  then show "\<exists>t \<in> set (transfers d'). xf_id t = xf_id (fst r) \<and> xf_key t = key \<and> xf_tenant t = xc_tenant C \<and> xf_fingerprint t = fp"
    by (intro bexI [of _ t]) (simp_all add: t f)
qed

section \<open>Every request\<close>

lemma replay_recorded:
  assumes "distinct (map co_key (commands d))" and "command_recorded d tenant i type key fp"
  shows "replay_command tenant i type key fp d = Inr True"
proof -
  from assms(2) obtain c where c: "c \<in> set (commands d)" "co_tenant c = tenant" "co_transfer c = i" "co_type c = type"
    "co_key c = key" "co_fingerprint c = fp" by (auto simp: command_recorded_def)
  have "find (\<lambda>x. co_key x = key \<and> co_tenant x = tenant) (commands d) = Some c"
    using assms(1) c
  proof (induction "commands d" arbitrary: d)
    case (Cons x xs)
    show ?case
    proof (cases "x = c")
      case True
      then show ?thesis using Cons.hyps(2) [symmetric] c by simp
    next
      case False
      then have "c \<in> set xs" using Cons.prems(2) Cons.hyps(2) by (metis set_ConsD)
      then have "co_key x \<noteq> key" using Cons.prems(1) c(5) Cons.hyps(2) by (metis distinct.simps(2) imageI list.set_map list.simps(9))
      moreover have "find (\<lambda>x. co_key x = key \<and> co_tenant x = tenant) (commands (d\<lparr>commands := xs\<rparr>)) = Some c"
        by (rule Cons.hyps(1)) (use \<open>c \<in> set xs\<close> Cons.prems(1) Cons.hyps(2) c in \<open>simp_all, metis distinct.simps(2) list.simps(9)\<close>)
      ultimately show ?thesis using Cons.hyps(2) [symmetric] by simp
    qed
  qed simp
  moreover have "list_ex (\<lambda>c. co_key c = key \<and> co_tenant c = tenant \<and> co_transfer c = i \<and> co_type c = type) (commands d)"
    unfolding list_ex_iff using c by (intro bexI [of _ c]) simp_all
  ultimately show ?thesis using c by (simp add: replay_command_def)
qed

text \<open>The three commands on an existing transfer have one shape.\<close>

definition command_step ::
  "transfer_call \<Rightarrow> id \<Rightarrow> (transfer \<Rightarrow> id) \<Rightarrow> command_type \<Rightarrow> string \<Rightarrow> string
   \<Rightarrow> (transfer \<Rightarrow> 'a transfer_db_scheme \<Rightarrow> 'a transfer_outcome) \<Rightarrow> 'a transfer_db_scheme \<Rightarrow> 'a transfer_outcome" where
  "command_step C i branch type key fp post d =
     and_then (lock_transfer (xc_tenant C) i d) (\<lambda>t.
     and_then (assert_branch_access (xc_actor C) (branch t) [Owner, Warehouse_Manager]) (\<lambda>_.
     and_then (replay_command (xc_tenant C) i type key fp d) (\<lambda>replayed.
     if replayed then outcome (xc_tenant C) i d else post t d)))"

lemma command_steps:
  "transfer_ship H C i command d =
     command_step C i xf_from Ship (resolve_command_id command (xc_uuid C 0)) (command_fingerprint H (ship_payload i))
       (\<lambda>t. post_shipment C i t (resolve_command_id command (xc_uuid C 0)) (command_fingerprint H (ship_payload i))) d"
  "transfer_receive H C i command items d =
     (let lines = js_sort (\<lambda>l r. th_compare H (rl_item l) (rl_item r)) items in
      command_step C i xf_to Receive (resolve_command_id command (xc_uuid C 0)) (command_fingerprint H (receive_payload i lines))
       (\<lambda>t. post_receipt C i t lines (resolve_command_id command (xc_uuid C 0)) (command_fingerprint H (receive_payload i lines))) d)"
  "transfer_cancel H C i command reason d =
     command_step C i xf_from Cancel (resolve_command_id command (xc_uuid C 0)) (command_fingerprint H (cancel_payload i (trim reason)))
       (\<lambda>t. post_cancellation C i t (trim reason) (resolve_command_id command (xc_uuid C 0)) (command_fingerprint H (cancel_payload i (trim reason)))) d"
  by (simp_all add: transfer_ship_def transfer_receive_def transfer_cancel_def command_step_def Let_def)

lemma command_step_keeps:
  assumes inv: "transfer_inv d" and run: "command_step C i branch type key fp post d = Inr (r, d')"
    and post: "\<And>t r d'. t \<in> set (transfers d) \<Longrightarrow> xf_id t = i \<Longrightarrow> post t d = Inr (r, d') \<Longrightarrow>
      transfer_inv d' \<and> evolves d d' \<and> command_recorded d' (xc_tenant C) i type key fp"
    and loads: "\<And>t r d'. post t d = Inr (r, d') \<Longrightarrow> find_transfer (xc_tenant C) i d' = Some (fst r)"
  shows "transfer_inv d'" and "evolves d d'" and "xf_id (fst r) = i"
    and "command_recorded d' (xc_tenant C) i type key fp"
    and "\<exists>t \<in> set (transfers d). xf_id t = i \<and> xf_tenant t = xc_tenant C
          \<and> assert_branch_access (xc_actor C) (branch t) [Owner, Warehouse_Manager] = Inr ()"
proof -
  from run obtain t replayed where lt: "find_transfer (xc_tenant C) i d = Some t"
    and acc: "assert_branch_access (xc_actor C) (branch t) [Owner, Warehouse_Manager] = Inr ()"
    and rp: "replay_command (xc_tenant C) i type key fp d = Inr replayed"
    and rest: "(if replayed then outcome (xc_tenant C) i d else post t d) = Inr (r, d')"
    by (auto simp: command_step_def lock_transfer_def result_simps)
  note t = find_transfer_Some [OF lt]
  have "transfer_inv d' \<and> evolves d d' \<and> xf_id (fst r) = i \<and> command_recorded d' (xc_tenant C) i type key fp"
  proof (cases replayed)
    case True
    from rest True have d': "d' = d" "fst r = t" using lt by (auto simp: outcome_Inr)
    have "command_recorded d (xc_tenant C) i type key fp"
    proof -
      from rp True obtain c where c: "find (\<lambda>c. co_key c = key \<and> co_tenant c = xc_tenant C) (commands d) = Some c"
        "co_fingerprint c = fp" and ex: "\<exists>c \<in> set (commands d). co_key c = key \<and> co_tenant c = xc_tenant C \<and> co_transfer c = i \<and> co_type c = type"
        by (auto simp: replay_command_def result_simps list_ex_iff split: option.splits)
      from ex obtain c' where c': "c' \<in> set (commands d)" "co_key c' = key" "co_tenant c' = xc_tenant C" "co_transfer c' = i" "co_type c' = type" by blast
      have "c \<in> set (commands d)" "co_key c = key" using find_Some_iff_set [OF c(1)] by simp_all
      then have "c = c'" using c' inv by (auto simp: transfer_inv_def distinct_map inj_on_def)
      then show ?thesis using c' c(2) by (auto simp: command_recorded_def)
    qed
    with d' inv t show ?thesis by simp
  next
    case False
    then have p: "post t d = Inr (r, d')" using rest by simp
    from loads [OF p] have "xf_id (fst r) = i" using find_transfer_Some by blast
    with post [OF _ _ p] t show ?thesis by simp
  qed
  then show "transfer_inv d'" "evolves d d'" "xf_id (fst r) = i" "command_recorded d' (xc_tenant C) i type key fp" by simp_all
  show "\<exists>t \<in> set (transfers d). xf_id t = i \<and> xf_tenant t = xc_tenant C
          \<and> assert_branch_access (xc_actor C) (branch t) [Owner, Warehouse_Manager] = Inr ()" using t acc by blast
qed

lemma post_loads:
  "post_shipment C i t key fp d = Inr (r, d') \<Longrightarrow> find_transfer (xc_tenant C) i d' = Some (fst r)"
  "post_receipt C i t rs key fp d = Inr (r, d') \<Longrightarrow> find_transfer (xc_tenant C) i d' = Some (fst r)"
  "post_cancellation C i t reason key fp d = Inr (r, d') \<Longrightarrow> find_transfer (xc_tenant C) i d' = Some (fst r)"
  unfolding post_shipment_def post_receipt_def post_cancellation_def Let_def and_then_Inr_iff throw_if_Inr_iff case_prod_unfold outcome_Inr
  by (elim exE conjE, simp)+

text \<open>The command id a request brings along.\<close>

fun request_command :: "transfer_request \<Rightarrow> string option" where
  "request_command (Create_Request dto) = ct_command dto"
| "request_command (Ship_Request i command) = command"
| "request_command (Receive_Request i command items) = command"
| "request_command (Cancel_Request i command reason) = command"

lemma transfer_create_keeps:
  assumes inv: "transfer_inv d" and plain: "plain_id (ct_from dto)" "plain_id (ct_to dto)"
    and run: "transfer_create H C dto d = Inr (r, d')"
  shows "transfer_inv d'" and "evolves d d'"
    and "\<exists>t \<in> set (transfers d'). xf_id t = xf_id (fst r) \<and> xf_key t = resolve_command_id (ct_command dto) (xc_uuid C 0)
          \<and> xf_tenant t = xc_tenant C
          \<and> xf_fingerprint t = command_fingerprint H (create_payload dto (merged_quantities H (ct_items dto)))"
    and "ct_from dto \<noteq> ct_to dto" and "assert_branch_access (xc_actor C) (ct_from dto) [Owner, Warehouse_Manager] = Inr ()"
proof -
  let ?key = "resolve_command_id (ct_command dto) (xc_uuid C 0)"
  let ?fp = "command_fingerprint H (create_payload dto (merged_quantities H (ct_items dto)))"
  have g: "ct_from dto \<noteq> ct_to dto" "assert_branch_access (xc_actor C) (ct_from dto) [Owner, Warehouse_Manager] = Inr ()"
    using run by (simp_all add: transfer_create_def Let_def result_simps)
  then show "ct_from dto \<noteq> ct_to dto" "assert_branch_access (xc_actor C) (ct_from dto) [Owner, Warehouse_Manager] = Inr ()" .
  have "transfer_inv d' \<and> evolves d d' \<and> (\<exists>t \<in> set (transfers d'). xf_id t = xf_id (fst r) \<and> xf_key t = ?key
          \<and> xf_tenant t = xc_tenant C \<and> xf_fingerprint t = ?fp)"
  proof (cases "find (\<lambda>t. xf_key t = ?key \<and> xf_tenant t = xc_tenant C) (transfers d)")
    case None
    then have "post_transfer H C dto (merged_quantities H (ct_items dto)) ?key ?fp d = Inr (r, d')"
      using run g by (simp add: transfer_create_def Let_def)
    from post_transfer_keeps [OF inv plain this] show ?thesis by simp
  next
    case (Some t)
    then have fp: "xf_fingerprint t = ?fp" and o: "outcome (xc_tenant C) (xf_id t) d = Inr (r, d')"
      using run g by (auto simp: transfer_create_def Let_def result_simps)
    have t: "t \<in> set (transfers d)" "xf_key t = ?key" "xf_tenant t = xc_tenant C" using find_Some_iff_set [OF Some] by simp_all
    from o obtain u where "find_transfer (xc_tenant C) (xf_id t) d = Some u" "d' = d" "fst r = u" by (auto simp: outcome_Inr)
    then have d': "d' = d" "xf_id (fst r) = xf_id t" using find_transfer_Some by blast+
    have "\<exists>t \<in> set (transfers d). xf_id t = xf_id (fst r) \<and> xf_key t = ?key \<and> xf_tenant t = xc_tenant C \<and> xf_fingerprint t = ?fp"
      using t fp d'(2) by (intro bexI [OF _ t(1)]) simp
    then show ?thesis using inv by (simp add: d'(1))
  qed
  then show "transfer_inv d'" "evolves d d'" "\<exists>t \<in> set (transfers d'). xf_id t = xf_id (fst r) \<and> xf_key t = ?key
          \<and> xf_tenant t = xc_tenant C \<and> xf_fingerprint t = ?fp" by simp_all
qed

lemma ship_keeps:
  assumes inv: "transfer_inv d" and run: "transfer_ship H C i command d = Inr (r, d')"
  shows "transfer_inv d' \<and> evolves d d' \<and> xf_id (fst r) = i
    \<and> command_recorded d' (xc_tenant C) i Ship (resolve_command_id command (xc_uuid C 0)) (command_fingerprint H (ship_payload i))
    \<and> (\<exists>t \<in> set (transfers d). xf_id t = i \<and> xf_tenant t = xc_tenant C
          \<and> assert_branch_access (xc_actor C) (xf_from t) [Owner, Warehouse_Manager] = Inr ())"
proof -
  note k = command_step_keeps [OF inv run [unfolded command_steps Let_def] _ post_loads(1)]
  show ?thesis using k post_shipment_keeps [OF inv] by simp
qed

lemma receive_keeps:
  assumes inv: "transfer_inv d" and run: "transfer_receive H C i command items d = Inr (r, d')"
  shows "transfer_inv d' \<and> evolves d d' \<and> xf_id (fst r) = i
    \<and> command_recorded d' (xc_tenant C) i Receive (resolve_command_id command (xc_uuid C 0)) (command_fingerprint H (receive_payload i (js_sort (\<lambda>l r. th_compare H (rl_item l) (rl_item r)) items)))
    \<and> (\<exists>t \<in> set (transfers d). xf_id t = i \<and> xf_tenant t = xc_tenant C
          \<and> assert_branch_access (xc_actor C) (xf_to t) [Owner, Warehouse_Manager] = Inr ())"
proof -
  note k = command_step_keeps [OF inv run [unfolded command_steps Let_def] _ post_loads(2)]
  show ?thesis using k post_receipt_keeps [OF inv] by simp
qed

lemma cancel_keeps:
  assumes inv: "transfer_inv d" and run: "transfer_cancel H C i command reason d = Inr (r, d')"
  shows "transfer_inv d' \<and> evolves d d' \<and> xf_id (fst r) = i
    \<and> command_recorded d' (xc_tenant C) i Cancel (resolve_command_id command (xc_uuid C 0)) (command_fingerprint H (cancel_payload i (trim reason)))
    \<and> (\<exists>t \<in> set (transfers d). xf_id t = i \<and> xf_tenant t = xc_tenant C
          \<and> assert_branch_access (xc_actor C) (xf_from t) [Owner, Warehouse_Manager] = Inr ())"
proof -
  note k = command_step_keeps [OF inv run [unfolded command_steps Let_def] _ post_loads(3)]
  show ?thesis using k post_cancellation_keeps [OF inv] by simp
qed

text \<open>What a handled request leaves: the invariant, transfers and commands that only move on, and, for
  a command on a transfer, its record.\<close>

lemma handle_keeps:
  assumes inv: "transfer_inv d" and wf: "wf_request req" and run: "transfer_handle H C req d = Inr (r, d')"
  shows "transfer_inv d' \<and> evolves d d'"
proof (cases req)
  case (Create_Request dto)
  then have "plain_id (ct_from dto)" "plain_id (ct_to dto)" "transfer_create H C dto d = Inr (r, d')"
    using wf run uuid_plain by simp_all
  from transfer_create_keeps(1,2) [OF inv this] show ?thesis ..
next
  case (Ship_Request i command)
  with run ship_keeps [OF inv] show ?thesis by fastforce
next
  case (Receive_Request i command items)
  with run receive_keeps [OF inv] show ?thesis by fastforce
next
  case (Cancel_Request i command reason)
  with run cancel_keeps [OF inv] show ?thesis by fastforce
qed

section \<open>Reachable states\<close>

text \<open>Other services write stock and movements of their own, with their own keys and references.\<close>

definition foreign_movement :: "movement \<Rightarrow> bool" where
  "foreign_movement m \<longleftrightarrow> mv_reference_type m \<noteq> ''Transfer''
     \<and> (\<forall>s. mv_key m \<noteq> ''transfer-out:'' @ s \<and> mv_key m \<noteq> ''transfer-in:'' @ s)"

definition other_writer :: "'a transfer_db_scheme \<Rightarrow> 'a transfer_db_scheme \<Rightarrow> bool" where
  "other_writer d d' \<longleftrightarrow>
     transfers d' = transfers d \<and> transfer_items d' = transfer_items d \<and> commands d' = commands d \<and> transit d' = transit d
     \<and> ledger_inv d' \<and> (\<exists>ms. movements d' = movements d @ ms \<and> (\<forall>m \<in> set ms. foreign_movement m))"

definition no_transfers :: "'a transfer_db_scheme \<Rightarrow> bool" where
  "no_transfers d \<longleftrightarrow> transfers d = [] \<and> transfer_items d = [] \<and> commands d = [] \<and> transit d = []
     \<and> ledger_inv d \<and> (\<forall>m \<in> set (movements d). foreign_movement m)"

inductive transfer_step :: "transfer_host \<Rightarrow> 'a transfer_db_scheme \<Rightarrow> 'a transfer_db_scheme \<Rightarrow> bool" for H where
  handled: "wf_request req \<Longrightarrow> transfer_handle H C req d = Inr (r, d') \<Longrightarrow> transfer_step H d d'"
| elsewhere: "other_writer d d' \<Longrightarrow> transfer_step H d d'"

inductive transfer_reach :: "transfer_host \<Rightarrow> 'a transfer_db_scheme \<Rightarrow> bool" for H where
  fresh: "no_transfers d \<Longrightarrow> transfer_reach H d"
| step: "transfer_reach H d \<Longrightarrow> transfer_step H d d' \<Longrightarrow> transfer_reach H d'"

lemma keys_linked_foreign:
  "keys_linked ms ts \<Longrightarrow> \<forall>m \<in> set ns. foreign_movement m \<Longrightarrow> keys_linked (ms @ ns) ts"
  by (auto simp: keys_linked_def foreign_movement_def)

lemma item_ledger_foreign: "movements d' = movements d @ ms \<Longrightarrow> \<forall>m \<in> set ms. foreign_movement m \<Longrightarrow> item_ledger d' i = item_ledger d i"
  by (auto simp: item_ledger_def foreign_movement_def of_item_def filter_empty_conv)

lemma ledger_inv_stock_ok: "ledger_inv d \<Longrightarrow> stock_ok d []"
  by (auto simp: ledger_inv_def stock_ok_def tenants_ok_def intro: balanced_tenants)

lemma stock_ok_ledger_inv: "stock_ok d [] \<Longrightarrow> ledger_inv d"
  by (simp add: ledger_inv_def stock_ok_def)

lemma other_writer_keeps:
  assumes inv: "transfer_inv d" and w: "other_writer d d'"
  shows "transfer_inv d' \<and> evolves d d'"
proof -
  from w obtain ms where ms: "movements d' = movements d @ ms" "\<forall>m \<in> set ms. foreign_movement m"
    and same: "transfers d' = transfers d" "transfer_items d' = transfer_items d" "commands d' = commands d" "transit d' = transit d"
    and led: "ledger_inv d'" by (auto simp: other_writer_def)
  have fl: "in_flight d []" using inv by (simp add: transfer_inv_def)
  have "rows_ok d'" using fl ms by (auto simp: in_flight_def rows_ok_def same item_exists_def foreign_movement_def)
  then have "in_flight d' []"
    using fl keys_linked_foreign [of "movements d" "transit d" ms] ms ledger_inv_stock_ok [OF led] item_ledger_foreign [OF ms]
    by (simp add: in_flight_def same transit_sum_def)
  moreover have "statuses_ok d'" using inv by (simp add: transfer_inv_def statuses_ok_def items_of_def same)
  ultimately have "transfer_inv d'" using inv by (simp add: transfer_inv_def same)
  moreover have "evolves d d'" by (rule evolves_same [OF same(1,3)])
  ultimately show ?thesis ..
qed

lemma step_keeps: "transfer_step H d d' \<Longrightarrow> transfer_inv d \<Longrightarrow> transfer_inv d' \<and> evolves d d'"
  by (erule transfer_step.cases) (use handle_keeps other_writer_keeps in blast)+

lemma no_transfers_inv: "no_transfers d \<Longrightarrow> transfer_inv d"
proof -
  assume n: "no_transfers d"
  then have "rows_ok d" by (auto simp: no_transfers_def rows_ok_def foreign_movement_def)
  moreover have "keys_linked (movements d) (transit d)" using n by (auto simp: no_transfers_def keys_linked_def foreign_movement_def)
  ultimately show ?thesis using n ledger_inv_stock_ok
    by (auto simp: transfer_inv_def in_flight_def statuses_ok_def no_transfers_def)
qed

lemma reach_inv: "transfer_reach H d \<Longrightarrow> transfer_inv d"
  by (induction rule: transfer_reach.induct) (use no_transfers_inv step_keeps in blast)+

lemma later_keeps:
  assumes "(transfer_step H)\<^sup>*\<^sup>* d d'" and "transfer_inv d"
  shows "transfer_inv d' \<and> (\<forall>t \<in> set (transfers d). \<exists>u \<in> set (transfers d'). same_route t u) \<and> set (commands d) \<subseteq> set (commands d')"
  using assms
proof (induction rule: rtranclp_induct)
  case base
  then show ?case using same_route_refl by blast
next
  case (step y z)
  then have y: "transfer_inv y" "\<forall>t \<in> set (transfers d). \<exists>u \<in> set (transfers y). same_route t u" "set (commands d) \<subseteq> set (commands y)"
    by simp_all
  from step_keeps [OF step.hyps(2) y(1)] have z: "transfer_inv z" "\<forall>t \<in> set (transfers y). \<exists>u \<in> set (transfers z). same_route t u"
    "set (commands y) \<subseteq> set (commands z)" by (auto simp: evolves_def)
  have "\<exists>u \<in> set (transfers z). same_route t u" if "t \<in> set (transfers d)" for t
  proof -
    from y(2) that obtain u where u: "u \<in> set (transfers y)" "same_route t u" by blast
    with z(2) obtain w where "w \<in> set (transfers z)" "same_route u w" by blast
    with u(2) show ?thesis by (auto simp: same_route_def)
  qed
  with y z show ?case by blast
qed

section \<open>Reconciliation\<close>

lemma transit_ledger_sum:
  assumes "rows_ok d" and "x \<in> set (transfer_items d)" and "xi_tenant x = tenant"
  shows "transit_ledger tenant d (xi_id x) = transit_sum d (xi_id x)"
proof -
  have "tm_tenant m = tenant" if "m \<in> set (transit d)" "tm_item m = xi_id x" for m
  proof -
    from assms(1) that(1) obtain y where "y \<in> set (transfer_items d)" "xi_id y = tm_item m" "xi_tenant y = tm_tenant m"
      by (auto simp: rows_ok_def item_exists_def)
    with that(2) assms show ?thesis by (auto simp: rows_ok_def distinct_map inj_on_def)
  qed
  then have "filter (\<lambda>m. tm_tenant m = tenant \<and> tm_item m = xi_id x) (transit d) = filter (\<lambda>m. tm_item m = xi_id x) (transit d)"
    by (intro filter_cong) auto
  then show ?thesis by (simp add: transit_ledger_def transit_sum_def)
qed

lemma no_transit_mismatches: "transfer_inv d \<Longrightarrow> transit_mismatches tenant d = []"
proof -
  assume inv: "transfer_inv d"
  then have rows: "rows_ok d" and sums: "\<forall>x \<in> set (transfer_items d). transit_sum d (xi_id x) = outstanding x"
    by (simp_all add: transfer_inv_def in_flight_def)
  have "filter (\<lambda>m. tx_expected m \<noteq> tx_ledger m)
           (map (\<lambda>x. \<lparr>tx_transfer = xi_transfer x, tx_item = xi_id x, tx_expected = outstanding x,
                      tx_ledger = transit_ledger tenant d (xi_id x)\<rparr>)
              (filter (\<lambda>x. xi_tenant x = tenant) (transfer_items d))) = []"
    using transit_ledger_sum [OF rows] sums by (auto simp: filter_empty_conv)
  then show ?thesis by (simp add: transit_mismatches_def)
qed

lemma fold_result_stuck:
  assumes "x \<in> set xs" and "\<And>s. \<exists>e. f x s = Inl e"
  shows "\<exists>e. fold_result f xs s = Inl e"
  using assms(1)
proof (induction xs arbitrary: s)
  case (Cons y ys)
  show ?case
  proof (cases "x = y")
    case True
    then show ?thesis using assms(2) [of s] by auto
  next
    case False
    then show ?thesis using Cons by (cases "f y s") auto
  qed
qed simp

lemma receive_settled_item:
  assumes inv: "transfer_inv d" and x: "x \<in> set (lock_items tenant i d)" and o: "outstanding x = 0"
  shows "\<exists>e. fold_result (receive_item tenant b (lock_items tenant i d)) (all_outstanding (lock_items tenant i d)) st = Inl e"
proof (rule fold_result_stuck)
  let ?r = "\<lparr>rl_item = xi_id x, rl_received = outstanding x, rl_damaged = 0, rl_missing = 0\<rparr>"
  show "?r \<in> set (all_outstanding (lock_items tenant i d))" using x by (simp add: all_outstanding_def)
  have "distinct (map xi_id (transfer_items d))" using inv by (simp add: transfer_inv_def in_flight_def rows_ok_def)
  then have "find (\<lambda>y. xi_id y = xi_id x) (lock_items tenant i d) = Some x" by (intro find_item lock_items_distinct x)
  then show "\<exists>e. receive_item tenant b (lock_items tenant i d) ?r s = Inl e" for s
    by (simp add: receive_item_def receipt_total_def o)
qed

section \<open>A repeated request\<close>

lemma find_transfer_route:
  assumes inv: "transfer_inv d" and t: "t \<in> set (transfers d)"
  shows "find_transfer (xf_tenant t) (xf_id t) d = Some t"
proof -
  have "distinct (map xf_id (transfers d))" using inv by (simp add: transfer_inv_def in_flight_def rows_ok_def)
  then have "distinct (map (\<lambda>t. (xf_id t, xf_tenant t)) (transfers d))" by (simp add: distinct_map inj_on_def)
  from find_by_key [OF this t] show ?thesis by (simp add: find_transfer_def)
qed

lemma command_step_replayed:
  assumes inv: "transfer_inv d" and t: "t \<in> set (transfers d)" "xf_id t = i" "xf_tenant t = xc_tenant C"
    and acc: "assert_branch_access (xc_actor C) (branch t) [Owner, Warehouse_Manager] = Inr ()"
    and rec: "command_recorded d (xc_tenant C) i type key fp"
  shows "command_step C i branch type key fp post d = Inr ((t, items_of i d), d)"
proof -
  have l: "find_transfer (xc_tenant C) i d = Some t" using find_transfer_route [OF inv t(1)] t(2,3) by simp
  have "replay_command (xc_tenant C) i type key fp d = Inr True"
    by (rule replay_recorded [OF _ rec]) (use inv in \<open>simp add: transfer_inv_def\<close>)
  then show ?thesis using acc l by (simp add: command_step_def lock_transfer_def outcome_def load_transfer_def)
qed

lemma recorded_later:
  "command_recorded d tenant i type key fp \<Longrightarrow> set (commands d) \<subseteq> set (commands d') \<Longrightarrow> command_recorded d' tenant i type key fp"
  by (auto simp: command_recorded_def)

lemma resolve_given: "k \<noteq> [] \<Longrightarrow> resolve_command_id (Some k) fresh = k"
  by (simp add: resolve_command_id_def)

lemma retry_once:
  assumes reach: "transfer_reach H d" and wf: "wf_request req" and k: "request_command req = Some k" "k \<noteq> []"
    and run: "transfer_handle H C req d = Inr (r, d')" and later: "(transfer_step H)\<^sup>*\<^sup>* d' d''"
    and same: "xc_tenant C' = xc_tenant C" "xc_actor C' = xc_actor C"
  shows "\<exists>r'. transfer_handle H C' req d'' = Inr (r', d'') \<and> xf_id (fst r') = xf_id (fst r)"
proof -
  have inv: "transfer_inv d" by (rule reach_inv [OF reach])
  have step: "transfer_step H d d'" by (rule transfer_step.handled [OF wf run])
  note l0 = step_keeps [OF step inv]
  note l = later_keeps [OF later l0 [THEN conjunct1]]
  have inv'': "transfer_inv d''" using l by simp
  have carried: "\<exists>u \<in> set (transfers d''). same_route t u" if "t \<in> set (transfers d)" for t
  proof -
    from that l0 obtain u where "u \<in> set (transfers d')" "same_route t u" by (auto simp: evolves_def)
    moreover from this l obtain w where "w \<in> set (transfers d'')" "same_route u w" by blast
    ultimately show ?thesis by (auto simp: same_route_def)
  qed
  have again: "\<exists>r'. command_step C' i branch type k fp post d'' = Inr (r', d'') \<and> xf_id (fst r') = i"
    if t: "\<exists>t \<in> set (transfers d). xf_id t = i \<and> xf_tenant t = xc_tenant C
          \<and> assert_branch_access (xc_actor C) (branch t) [Owner, Warehouse_Manager] = Inr ()"
      and rec: "command_recorded d' (xc_tenant C) i type k fp" and b: "branch = xf_from \<or> branch = xf_to"
    for i branch type fp and post :: "transfer \<Rightarrow> 'a transfer_db_scheme \<Rightarrow> 'a transfer_outcome"
  proof -
    from t obtain t where t: "t \<in> set (transfers d)" "xf_id t = i" "xf_tenant t = xc_tenant C"
      "assert_branch_access (xc_actor C) (branch t) [Owner, Warehouse_Manager] = Inr ()" by blast
    from carried [OF t(1)] obtain u where u: "u \<in> set (transfers d'')" "same_route t u" by blast
    have "branch u = branch t" using b u(2) by (auto simp: same_route_def)
    with t u same have "assert_branch_access (xc_actor C') (branch u) [Owner, Warehouse_Manager] = Inr ()"
      "xf_id u = i" "xf_tenant u = xc_tenant C'" by (simp_all add: same_route_def)
    moreover have "command_recorded d'' (xc_tenant C') i type k fp" using recorded_later [OF rec, of d''] l same by simp
    ultimately have "command_step C' i branch type k fp post d'' = Inr ((u, items_of i d''), d'')"
      by (intro command_step_replayed [OF inv'' u(1)])
    with \<open>xf_id u = i\<close> show ?thesis by simp
  qed
  show ?thesis
  proof (cases req)
    case (Create_Request dto)
    then have p: "plain_id (ct_from dto)" "plain_id (ct_to dto)" "transfer_create H C dto d = Inr (r, d')" "ct_command dto = Some k"
      using wf run k uuid_plain by simp_all
    note c = transfer_create_keeps [OF inv p(1-3), unfolded p(4) resolve_given [OF k(2)]]
    from c(3) obtain t where t: "t \<in> set (transfers d')" "xf_id t = xf_id (fst r)" "xf_key t = k" "xf_tenant t = xc_tenant C"
      "xf_fingerprint t = command_fingerprint H (create_payload dto (merged_quantities H (ct_items dto)))" by blast
    with l obtain u where u: "u \<in> set (transfers d'')" "same_route t u" by blast
    have dk: "distinct (map (\<lambda>t. (xf_key t, xf_tenant t)) (transfers d''))"
      using inv'' by (simp add: transfer_inv_def distinct_map inj_on_def)
    have f: "find (\<lambda>t. xf_key t = k \<and> xf_tenant t = xc_tenant C) (transfers d'') = Some u"
      using find_by_key [OF dk u(1)] u(2) t by (simp add: same_route_def)
    have o: "find_transfer (xc_tenant C) (xf_id u) d'' = Some u"
      using find_transfer_route [OF inv'' u(1)] u(2) t(4) by (simp add: same_route_def)
    show ?thesis
      using Create_Request p(4) c(4,5) f o u(2) t same resolve_given [OF k(2)]
      by (simp add: transfer_create_def Let_def outcome_def load_transfer_def same_route_def)
  next
    case (Ship_Request i command)
    with k have "command = Some k" by simp
    with Ship_Request run ship_keeps [OF inv, of H C i command r d'] again [of i xf_from Ship] resolve_given [OF k(2)]
    show ?thesis by (simp add: command_steps)
  next
    case (Receive_Request i command items)
    with k have "command = Some k" by simp
    with Receive_Request run receive_keeps [OF inv, of H C i command items r d'] again [of i xf_to Receive] resolve_given [OF k(2)]
    show ?thesis by (simp add: command_steps Let_def)
  next
    case (Cancel_Request i command reason)
    with k have "command = Some k" by simp
    with Cancel_Request run cancel_keeps [OF inv, of H C i command reason r d'] again [of i xf_from Cancel] resolve_given [OF k(2)]
    show ?thesis by (simp add: command_steps)
  qed
qed

section \<open>A sample run\<close>

definition sample_branch :: "string \<Rightarrow> id" where
  "sample_branch digit = digit @ ''1111111-1111-4111-8111-111111111111''"

definition sample_host :: transfer_host where
  "sample_host = \<lparr>th_compare = code_unit_compare,
     th_text = \<lparr>text_of_number = (\<lambda>r. int_string \<lfloor>r\<rfloor>), number_of_text = (\<lambda>s. NaN)\<rparr>,
     th_sha256 = (\<lambda>s. s), th_date = (\<lambda>n. ''20260101'')\<rparr>"

definition sample_transfer_call :: transfer_call where
  "sample_transfer_call = \<lparr>xc_tenant = ''t1'', xc_actor = \<lparr>ac_sub = ''owner'', ac_role = Owner, ac_branch = None\<rparr>,
     xc_now = 1000, xc_uuid = (\<lambda>k. ''id'' @ nat_string k)\<rparr>"

definition sample_transfer_db :: transfer_db where
  "sample_transfer_db =
     \<lparr>stock = (\<lambda>k. if k = (sample_branch ''1'', ''v1'') then Some \<lparr>qty_on_hand = 10, qty_reserved = 0, last_sold_at = None, stock_tenant = ''t1''\<rparr>
                   else if k = (sample_branch ''1'', ''v2'') then Some \<lparr>qty_on_hand = 5, qty_reserved = 1, last_sold_at = None, stock_tenant = ''t1''\<rparr>
                   else None),
      movements = [],
      branches = [\<lparr>br_id = sample_branch ''1'', br_tenant = ''t1'', br_code = ''A'', br_active = True\<rparr>, \<lparr>br_id = sample_branch ''2'', br_tenant = ''t1'', br_code = ''B'', br_active = True\<rparr>],
      variant_tenants = [(''v1'', ''t1''), (''v2'', ''t1'')],
      transfers = [], transfer_items = [], commands = [], transit = [], audits = [], number_sequence = 1\<rparr>"

definition sample_create :: transfer_request where
  "sample_create = Create_Request \<lparr>ct_from = sample_branch ''1'', ct_to = sample_branch ''2'', ct_command = Some ''c1'',
     ct_items = [\<lparr>td_variant = ''v1'', td_qty = 3\<rparr>, \<lparr>td_variant = ''v2'', td_qty = 2\<rparr>]\<rparr>"

definition sample_ship :: transfer_request where
  "sample_ship = Ship_Request ''id1'' (Some ''c2'')"

definition sample_receive :: transfer_request where
  "sample_receive = Receive_Request ''id1'' (Some ''c3'')
     [\<lparr>rl_item = ''id2'', rl_received = 2, rl_damaged = 0, rl_missing = 1\<rparr>]"

definition sample_handle :: "transfer_request \<Rightarrow> transfer_db \<Rightarrow> unit transfer_outcome" where
  "sample_handle req d = transfer_handle sample_host sample_transfer_call req d"

definition sample_transfer_run :: "unit transfer_outcome" where
  "sample_transfer_run =
     and_then (sample_handle sample_create sample_transfer_db) (\<lambda>p.
     and_then (sample_handle sample_ship (snd p)) (\<lambda>q.
     sample_handle sample_receive (snd q)))"

lemma sample_transfer_evaluated:
  "(case sample_transfer_run of
      Inr (r, d) \<Rightarrow> xf_status (fst r) = Partially_Received \<and> xf_from (fst r) = sample_branch ''1''
        \<and> xf_to (fst r) = sample_branch ''2'' \<and> xf_id (fst r) = ''id1''
        \<and> map (\<lambda>x. (xi_id x, xi_variant x, outstanding x)) (transfer_items d) = [(''id2'', ''v1'', 0), (''id3'', ''v2'', 2)]
        \<and> map tm_delta (transit d) = [3, 2, - 2, - 1]
        \<and> find_transfer ''t1'' ''id1'' d \<noteq> None
    | Inl e \<Rightarrow> False)"
  by code_simp

lemma sample_steps:
  "\<exists>r d1 d2 d3 p q. transfer_reach sample_host sample_transfer_db \<and> transfer_reach sample_host d1 \<and> transfer_reach sample_host d2
     \<and> transfer_reach sample_host d3
     \<and> sample_handle sample_create sample_transfer_db = Inr (p, d1) \<and> sample_handle sample_ship d1 = Inr (q, d2)
     \<and> sample_handle sample_receive d2 = Inr (r, d3) \<and> xf_status (fst r) = Partially_Received
     \<and> map (\<lambda>x. (xi_id x, xi_variant x, outstanding x)) (transfer_items d3) = [(''id2'', ''v1'', 0), (''id3'', ''v2'', 2)]"
proof -
  obtain p d1 where s1: "sample_handle sample_create sample_transfer_db = Inr (p, d1)"
    using sample_transfer_evaluated by (cases "sample_handle sample_create sample_transfer_db") (auto simp: sample_transfer_run_def)
  obtain q d2 where s2: "sample_handle sample_ship d1 = Inr (q, d2)"
    using sample_transfer_evaluated s1 by (cases "sample_handle sample_ship d1") (auto simp: sample_transfer_run_def)
  obtain r d3 where s3: "sample_handle sample_receive d2 = Inr (r, d3)"
    using sample_transfer_evaluated s1 s2 by (cases "sample_handle sample_receive d2") (auto simp: sample_transfer_run_def)
  have "\<forall>b v. balanced sample_transfer_db b v" by (simp add: balanced_def sample_transfer_db_def)
  then have "no_transfers sample_transfer_db"
    by (simp add: no_transfers_def ledger_inv_def opening_keys_ok_def) (simp add: sample_transfer_db_def)
  then have r0: "transfer_reach sample_host sample_transfer_db" by (rule transfer_reach.fresh)
  have wf: "wf_request sample_create" by code_simp
  have r1: "transfer_reach sample_host d1"
    by (rule transfer_reach.step [OF r0 transfer_step.handled [OF wf s1 [unfolded sample_handle_def]]])
  have r2: "transfer_reach sample_host d2"
    by (rule transfer_reach.step [OF r1 transfer_step.handled [OF _ s2 [unfolded sample_handle_def]]]) (simp add: sample_ship_def)
  have r3: "transfer_reach sample_host d3"
    by (rule transfer_reach.step [OF r2 transfer_step.handled [OF _ s3 [unfolded sample_handle_def]]]) (simp add: sample_receive_def)
  have "xf_status (fst r) = Partially_Received"
    "map (\<lambda>x. (xi_id x, xi_variant x, outstanding x)) (transfer_items d3) = [(''id2'', ''v1'', 0), (''id3'', ''v2'', 2)]"
    using sample_transfer_evaluated s1 s2 s3 by (simp_all add: sample_transfer_run_def)
  note fin = this
  show ?thesis
    by (rule exI [of _ r], rule exI [of _ d1], rule exI [of _ d2], rule exI [of _ d3], rule exI [of _ p], rule exI [of _ q])
      (intro conjI r0 r1 r2 r3 s1 s2 s3 fin)
qed

section \<open>Properties\<close>

text \<open>C1: in every reachable state no unit is lost between two branches. The stock ledger agrees with
  the stock; reconciling the goods in transit finds no mismatch; and the stock movements of an item
  sum to what arrived less what left, so that what left is what arrived, is in transit, or was
  recorded as damaged or missing.\<close>

theorem transfer_units_conserved:
  assumes "transfer_reach H d"
  shows "ledger_inv d
       \<and> (ac_role user = Owner \<or> ac_role user = Warehouse_Manager \<longrightarrow> reconcile_in_transit tenant user d = Inr (True, []))
       \<and> (\<forall>x \<in> set (transfer_items d).
            - item_ledger d (xi_id x) = outstanding x + xi_damaged x + xi_missing x
            \<and> transit_ledger (xi_tenant x) d (xi_id x) = outstanding x \<and> 0 \<le> outstanding x)"
proof -
  have inv: "transfer_inv d" by (rule reach_inv [OF assms])
  then have fl: "in_flight d []" and rows: "rows_ok d" by (simp_all add: transfer_inv_def in_flight_def)
  have "0 \<le> outstanding x" if "x \<in> set (transfer_items d)" for x
    using rows that by (auto simp: rows_ok_def item_constraints_def outstanding_def resolved_def)
  moreover have "- item_ledger d (xi_id x) = outstanding x + xi_damaged x + xi_missing x
      \<and> transit_ledger (xi_tenant x) d (xi_id x) = outstanding x" if "x \<in> set (transfer_items d)" for x
    using fl that transit_ledger_sum [OF rows that refl] by (simp add: in_flight_def) (simp add: outstanding_def)
  moreover have "ledger_inv d" using fl by (simp add: in_flight_def stock_ok_ledger_inv)
  ultimately show ?thesis using no_transit_mismatches [OF inv, of tenant] by (auto simp: reconcile_in_transit_def)
qed

theorem transfer_units_conserved_witness:
  "\<exists>d. transfer_reach sample_host (d :: transfer_db) \<and> ledger_inv d \<and> transfer_items d \<noteq> []
     \<and> reconcile_in_transit ''t1'' (xc_actor sample_transfer_call) d = Inr (True, [])"
proof -
  from sample_steps obtain d :: transfer_db where d: "transfer_reach sample_host d" "transfer_items d \<noteq> []" by fastforce
  then show ?thesis
    using transfer_units_conserved [OF d(1), of "xc_actor sample_transfer_call" "''t1''"]
    by (intro exI [of _ d]) (simp add: sample_transfer_call_def)
qed

text \<open>C27: a transfer keeps its route and goes through its states in order, from pending to shipped or
  cancelled and from shipped to received, partially or at once; a cancelled or received transfer stays
  so; and in each state its items hold the quantities that state means.\<close>

theorem transfer_states_ordered:
  assumes "transfer_reach H d" and "transfer_step H d d'"
  shows "(\<forall>t \<in> set (transfers d). \<exists>u \<in> set (transfers d').
            xf_id u = xf_id t \<and> xf_from u = xf_from t \<and> xf_to u = xf_to t \<and> transition_allowed (xf_status t) (xf_status u))
       \<and> (\<forall>u \<in> set (transfers d'). status_fits (xf_status u) (items_of (xf_id u) d'))"
proof -
  have "transfer_inv d' \<and> evolves d d'" by (rule step_keeps [OF assms(2) reach_inv [OF assms(1)]])
  then show ?thesis by (auto simp: evolves_def same_route_def transfer_inv_def statuses_ok_def)
qed

theorem transfer_states_ordered_witness:
  "\<exists>d d'. transfer_reach sample_host (d :: transfer_db) \<and> transfer_step sample_host d d' \<and> transfers d' \<noteq> []
     \<and> (\<forall>u \<in> set (transfers d'). status_fits (xf_status u) (items_of (xf_id u) d'))"
proof -
  from sample_steps obtain r d2 d3 where d: "transfer_reach sample_host (d2 :: transfer_db)"
    "sample_handle sample_receive d2 = Inr (r, d3)" by blast
  have st: "transfer_step sample_host d2 d3"
    by (rule transfer_step.handled [OF _ d(2) [unfolded sample_handle_def]]) (simp add: sample_receive_def)
  have "find_transfer ''t1'' ''id1'' d3 \<noteq> None"
    using receive_keeps [OF reach_inv [OF d(1)] d(2) [unfolded sample_handle_def sample_receive_def transfer_handle.simps]]
      d(2) [unfolded sample_handle_def sample_receive_def transfer_handle.simps transfer_receive_def]
    by (auto simp: result_simps Let_def outcome_Inr lock_transfer_def sample_transfer_call_def split: if_splits dest: post_loads(2))
  then have "transfers d3 \<noteq> []" by (auto simp: find_transfer_def)
  then show ?thesis using transfer_states_ordered [OF d(1) st] d(1) st by blast
qed

text \<open>C24: a command is carried out once. Whenever a request with a command id succeeded, sending it
  again, at any later time and whatever happened in between, returns the same transfer and changes
  nothing.\<close>

theorem transfer_retry_once:
  assumes "transfer_reach H d" and "wf_request req" and "request_command req = Some k" "k \<noteq> []"
    and "transfer_handle H C req d = Inr (r, d')" and "(transfer_step H)\<^sup>*\<^sup>* d' d''"
    and "xc_tenant C' = xc_tenant C" and "xc_actor C' = xc_actor C"
  shows "\<exists>r'. transfer_handle H C' req d'' = Inr (r', d'') \<and> xf_id (fst r') = xf_id (fst r)"
  by (rule retry_once [OF assms])

theorem transfer_retry_once_witness:
  "\<exists>d d' r r'. sample_handle sample_ship (d :: transfer_db) = Inr (r, d') \<and> sample_handle sample_ship d' = Inr (r', d')
     \<and> xf_id (fst r') = xf_id (fst r)"
proof -
  from sample_steps obtain q d1 d2 where d: "transfer_reach sample_host (d1 :: transfer_db)"
    "sample_handle sample_ship d1 = Inr (q, d2)" by blast
  have "\<exists>r'. transfer_handle sample_host sample_transfer_call sample_ship d2 = Inr (r', d2) \<and> xf_id (fst r') = xf_id (fst q)"
    by (rule transfer_retry_once [OF d(1) _ _ _ d(2) [unfolded sample_handle_def] rtranclp.rtrancl_refl, of "''c2''"])
      (simp_all add: sample_ship_def)
  then show ?thesis using d(2) unfolding sample_handle_def by blast
qed

text \<open>a receipt that names no items, which means all that is outstanding, is refused as soon as one
  item of the transfer has nothing outstanding: the rest of a partially received transfer can only be
  received item by item.\<close>

theorem receive_rest_refused:
  assumes "transfer_reach H d" and "x \<in> set (lock_items (xc_tenant C) i d)" and "outstanding x = 0"
    and "\<forall>c \<in> set (commands d). co_key c \<noteq> k" and "k \<noteq> []"
  shows "\<exists>e. transfer_receive H C i (Some k) [] d = Inl e"
proof -
  let ?fp = "command_fingerprint H (receive_payload i [])"
  have "\<exists>e. post_receipt C i t [] k ?fp d = Inl e" for t
  proof -
    obtain e where "fold_result (receive_item (xc_tenant C) (xf_to t) (lock_items (xc_tenant C) i d))
        (all_outstanding (lock_items (xc_tenant C) i d)) ([], d) = Inl e"
      using receive_settled_item [OF reach_inv [OF assms(1)] assms(2,3)] by blast
    then show ?thesis by (cases "post_receipt C i t [] k ?fp d") (auto simp: post_receipt_def Let_def result_simps)
  qed
  moreover have "replay_command (xc_tenant C) i Receive k ?fp d = Inr False"
    using assms(4) by (auto simp: replay_command_def split: option.splits dest!: find_Some_iff_set)
  ultimately show ?thesis
    by (cases "transfer_receive H C i (Some k) [] d")
      (auto simp: transfer_receive_def Let_def resolve_given [OF assms(5)] result_simps, metis Inl_Inr_False)
qed

theorem receive_rest_refused_witness:
  "\<exists>d e. transfer_reach sample_host (d :: transfer_db)
     \<and> transfer_receive sample_host sample_transfer_call ''id1'' (Some ''c4'') [] d = Inl e"
proof -
  let ?P = "\<lambda>d :: transfer_db. map xi_id (filter (\<lambda>x. outstanding x = 0) (lock_items ''t1'' ''id1'' d)) = [''id2'']
      \<and> list_all (\<lambda>c. co_key c \<noteq> ''c4'') (commands d)"
  have ev: "(case sample_transfer_run of Inr (r, d) \<Rightarrow> ?P d | Inl e \<Rightarrow> False)" by code_simp
  from sample_steps obtain d1 d2 d3 p q r where d: "transfer_reach sample_host (d3 :: transfer_db)"
    "sample_handle sample_create sample_transfer_db = Inr (p, d1)" "sample_handle sample_ship d1 = Inr (q, d2)"
    "sample_handle sample_receive d2 = Inr (r, d3)" by blast
  then have P: "?P d3" using ev by (simp add: sample_transfer_run_def)
  then have "''id2'' \<in> set (map xi_id (filter (\<lambda>x. outstanding x = 0) (lock_items ''t1'' ''id1'' d3)))" by simp
  then obtain x where x: "x \<in> set (lock_items ''t1'' ''id1'' d3)" "outstanding x = 0" by auto
  have "\<exists>e. transfer_receive sample_host sample_transfer_call ''id1'' (Some ''c4'') [] d3 = Inl e"
    by (rule receive_rest_refused [OF d(1)]) (use x P in \<open>auto simp: sample_transfer_call_def list_all_iff\<close>)
  then show ?thesis using d(1) by blast
qed

end
