(* ===== verification/Cost_Ledger.thy ===== *)
theory Cost_Ledger
  imports Ledger Tax
begin

text \<open>
  The cost ledger: the moving-average cost of a variant over all branches. The database function
  \<open>record_inventory_cost_movement\<close> (migration \<open>202608040112_fix_ledger_triggers_tenant_id\<close>, its
  latest definition) writes a movement and the variant's cost; purchases, supplier returns and
  customer returns call it.

  \<open>NUMERIC\<close> arithmetic is exact, except division, which keeps at least sixteen significant digits:
  it is a parameter. The open quantities of the transfers, which these functions only read, are a
  function of the variant. JSON metadata is left out.
\<close>

section \<open>State\<close>

record variant_row = priceable_variant +
  va_tenant :: id
  va_product_tenant :: id
  va_active :: bool
  va_product_active :: bool
  va_return_count :: int
  va_qa_flag :: bool

datatype cost_type = Cost_Opening | Cost_Purchase_Receipt | Cost_Customer_Return
  | Cost_Purchase_Reversal | Cost_Supplier_Return

record cost_movement =
  cm_variant :: id
  cm_branch :: "id option"
  cm_type :: cost_type
  cm_quantity_delta :: int
  cm_quantity_before :: int
  cm_quantity_after :: int
  cm_unit_cost :: rat
  cm_cost_before :: rat
  cm_cost_after :: rat
  cm_value_before :: rat
  cm_movement_value :: rat
  cm_value_after :: rat
  cm_rounding :: rat
  cm_reference_type :: string
  cm_reference_id :: string
  cm_reference_line :: "string option"
  cm_purchase :: "id option"
  cm_purchase_item :: "id option"
  cm_supplier_return :: "id option"
  cm_supplier_return_item :: "id option"
  cm_key :: string
  cm_occurred_at :: int
  cm_created_by :: "id option"
  cm_tenant :: id

text \<open>The arguments of the function.\<close>

record cost_command =
  cc_variant :: id
  cc_branch :: id
  cc_type :: cost_type
  cc_delta :: int
  cc_value :: rat
  cc_reference_type :: string
  cc_reference_id :: string
  cc_reference_line :: "string option"
  cc_purchase :: "id option"
  cc_purchase_item :: "id option"
  cc_supplier_return :: "id option"
  cc_supplier_return_item :: "id option"
  cc_key :: string
  cc_occurred_at :: int
  cc_created_by :: "id option"
  cc_restore_cost :: "rat option"

record retail_db = ledger_db +
  rt_branches :: "branch_row list"
  rt_variants :: "variant_row list"
  rt_in_transit :: "id \<Rightarrow> int"
  rt_costs :: "cost_movement list"
  rt_audits :: "audit_row list"

section \<open>The function\<close>

type_synonym quotient = "rat \<Rightarrow> rat \<Rightarrow> rat"

definition int4_range :: "int \<Rightarrow> bool" where
  "int4_range n \<longleftrightarrow> \<not> (n < -2147483648 \<or> n > 2147483647)"

text \<open>A value that a \<open>DECIMAL(p, s)\<close> column holds: below \<open>10 ^ (p - s)\<close>.\<close>

definition fits_numeric :: "nat \<Rightarrow> nat \<Rightarrow> rat \<Rightarrow> bool" where
  "fits_numeric p s x \<longleftrightarrow> \<bar>x\<bar> < 10 ^ (p - s)"

text \<open>Units of the variant in all branches and between them. A stock row belongs to a branch.\<close>

definition global_quantity :: "('a retail_db_scheme) \<Rightarrow> id \<Rightarrow> int" where
  "global_quantity d v =
     (\<Sum>b\<leftarrow>rt_branches d. case stock d (br_id b, v) of None \<Rightarrow> 0 | Some r \<Rightarrow> qty_on_hand r) + rt_in_transit d v"

definition latest_cost :: "cost_movement list \<Rightarrow> id \<Rightarrow> cost_movement option" where
  "latest_cost ms v = find (\<lambda>m. cm_variant m = v) (rev ms)"

definition same_cost_command :: "cost_movement \<Rightarrow> cost_command \<Rightarrow> bool" where
  "same_cost_command m c \<longleftrightarrow>
     cm_variant m = cc_variant c \<and> cm_branch m = Some (cc_branch c) \<and> cm_type m = cc_type c
     \<and> cm_quantity_delta m = cc_delta c \<and> cm_movement_value m = cc_value c
     \<and> cm_reference_type m = cc_reference_type c \<and> cm_reference_id m = cc_reference_id c
     \<and> cm_reference_line m = cc_reference_line c
     \<and> cm_purchase m = cc_purchase c \<and> cm_purchase_item m = cc_purchase_item c
     \<and> cm_supplier_return m = cc_supplier_return c \<and> cm_supplier_return_item m = cc_supplier_return_item c
     \<and> (cc_type c = Cost_Purchase_Reversal \<longrightarrow> Some (cm_cost_after m) = cc_restore_cost c)"

definition opening_cost :: "id \<Rightarrow> id \<Rightarrow> int \<Rightarrow> rat \<Rightarrow> int \<Rightarrow> cost_movement" where
  "opening_cost v tenant quantity cost at_time =
     (let worth = round_places 2 (of_int quantity * cost) in
      \<lparr>cm_variant = v, cm_branch = None, cm_type = Cost_Opening, cm_quantity_delta = quantity,
       cm_quantity_before = 0, cm_quantity_after = quantity, cm_unit_cost = cost,
       cm_cost_before = 0, cm_cost_after = cost, cm_value_before = 0, cm_movement_value = worth,
       cm_value_after = worth, cm_rounding = 0, cm_reference_type = ''InventoryStock'', cm_reference_id = v,
       cm_reference_line = None, cm_purchase = None, cm_purchase_item = None, cm_supplier_return = None,
       cm_supplier_return_item = None, cm_key = ''cost-auto-opening:'' @ v, cm_occurred_at = at_time,
       cm_created_by = None, cm_tenant = tenant\<rparr>)"

text \<open>\<open>IF latest."id" IS NULL AND previous_quantity > 0 THEN INSERT \<dots> ON CONFLICT DO NOTHING\<close>\<close>

definition open_costs :: "id \<Rightarrow> id \<Rightarrow> int \<Rightarrow> rat \<Rightarrow> int \<Rightarrow> cost_movement list \<Rightarrow> cost_movement list result" where
  "open_costs v tenant previous cost at_time ms =
     (if latest_cost ms v = None \<and> previous > 0 then
        (let m = opening_cost v tenant previous cost at_time in
         and_then (throw_if (\<not> fits_numeric 18 2 (cm_movement_value m)) (JsError ''numeric field overflow'')) (\<lambda>_.
         Inr (if list_ex (\<lambda>x. cm_key x = cm_key m) ms then ms else ms @ [m])))
      else Inr ms)"

text \<open>The cost after the movement, by its type.\<close>

definition incoming_cost :: "quotient \<Rightarrow> cost_command \<Rightarrow> rat \<Rightarrow> int \<Rightarrow> int \<Rightarrow> rat" where
  "incoming_cost q c cost previous current =
     (if current \<le> 0 then cost
      else if previous < 0 then q (cc_value c) (of_int (cc_delta c))
      else q (cost * of_int previous + cc_value c) (of_int current))"

definition next_cost :: "quotient \<Rightarrow> cost_command \<Rightarrow> rat \<Rightarrow> int \<Rightarrow> int \<Rightarrow> rat result" where
  "next_cost q c cost previous current =
     (case cc_type c of
        Cost_Opening \<Rightarrow> Inl (JsError ''Unsupported inventory cost movement type for posting function'')
      | Cost_Purchase_Reversal \<Rightarrow>
          (case cc_restore_cost c of
             None \<Rightarrow> Inl (JsError ''Invalid purchase reversal cost movement'')
           | Some restored \<Rightarrow>
               and_then (throw_if (cc_delta c \<ge> 0 \<or> cc_value c > 0) (JsError ''Invalid purchase reversal cost movement'')) (\<lambda>_.
               Inr (round_places 2 restored)))
      | Cost_Supplier_Return \<Rightarrow>
          and_then (throw_if (cc_delta c \<ge> 0 \<or> cc_value c > 0 \<or> cc_restore_cost c \<noteq> None
                              \<or> cc_value c \<noteq> round_places 2 (of_int (cc_delta c) * cost))
                     (JsError ''Supplier return must remove inventory at the current moving-average cost'')) (\<lambda>_.
          Inr cost)
      | _ \<Rightarrow>
          and_then (throw_if (cc_delta c \<le> 0 \<or> cc_value c < 0) (JsError ''Invalid incoming inventory cost movement'')) (\<lambda>_.
          let calculated = incoming_cost q c cost previous current in
          and_then (throw_if (calculated < 0 \<or> calculated > 999999999999 / 100)
                     (JsError ''Calculated moving-average cost is outside DECIMAL(12,2) range'')) (\<lambda>_.
          Inr (round_places 2 calculated))))"

definition cost_movement_of :: "quotient \<Rightarrow> cost_command \<Rightarrow> id \<Rightarrow> rat \<Rightarrow> rat \<Rightarrow> int \<Rightarrow> int \<Rightarrow> cost_movement" where
  "cost_movement_of q c tenant cost new_cost previous current =
     (let value_before = round_places 2 (of_int (max previous 0) * cost);
          value_after = round_places 2 (of_int (max current 0) * new_cost) in
      \<lparr>cm_variant = cc_variant c, cm_branch = Some (cc_branch c), cm_type = cc_type c,
       cm_quantity_delta = cc_delta c, cm_quantity_before = previous, cm_quantity_after = current,
       cm_unit_cost = round_places 6 \<bar>q (cc_value c) (of_int (cc_delta c))\<bar>,
       cm_cost_before = cost, cm_cost_after = new_cost, cm_value_before = value_before,
       cm_movement_value = cc_value c, cm_value_after = value_after,
       cm_rounding = value_after - (value_before + cc_value c),
       cm_reference_type = cc_reference_type c, cm_reference_id = cc_reference_id c,
       cm_reference_line = cc_reference_line c, cm_purchase = cc_purchase c,
       cm_purchase_item = cc_purchase_item c, cm_supplier_return = cc_supplier_return c,
       cm_supplier_return_item = cc_supplier_return_item c, cm_key = cc_key c,
       cm_occurred_at = cc_occurred_at c, cm_created_by = cc_created_by c, cm_tenant = tenant\<rparr>)"

definition set_variant_cost :: "id \<Rightarrow> rat \<Rightarrow> ('a retail_db_scheme) \<Rightarrow> ('a retail_db_scheme)" where
  "set_variant_cost v cost d =
     d\<lparr>rt_variants := map (\<lambda>x. if pv_id x = v then x\<lparr>pv_cost_price := cost\<rparr> else x) (rt_variants d)\<rparr>"

text \<open>The columns the movement is written to.\<close>

definition cost_columns_fit :: "cost_movement \<Rightarrow> bool" where
  "cost_columns_fit m \<longleftrightarrow>
     fits_numeric 18 6 (cm_unit_cost m) \<and> fits_numeric 12 2 (cm_cost_after m) \<and> fits_numeric 18 2 (cm_value_before m)
     \<and> fits_numeric 18 2 (cm_value_after m) \<and> fits_numeric 18 2 (cm_rounding m)"

definition post_cost :: "quotient \<Rightarrow> cost_command \<Rightarrow> variant_row \<Rightarrow> ('a retail_db_scheme) \<Rightarrow> (cost_movement \<times> ('a retail_db_scheme)) result" where
  "post_cost q c v d =
     (let cost = pv_cost_price v; current = global_quantity d (cc_variant c); previous = current - cc_delta c in
      and_then (throw_if (\<not> int4_range previous) (JsError ''Invalid global inventory quantity transition'')) (\<lambda>_.
      and_then (open_costs (cc_variant c) (va_tenant v) previous cost (cc_occurred_at c) (rt_costs d)) (\<lambda>ms.
      and_then (throw_if (case latest_cost ms (cc_variant c) of None \<Rightarrow> False | Some m \<Rightarrow> cm_cost_after m \<noteq> cost)
                 (JsError ''Inventory cost ledger mismatch'')) (\<lambda>_.
      and_then (next_cost q c cost previous current) (\<lambda>new_cost.
      and_then (throw_if (cc_delta c < 0 \<and> current < 0)
                 (JsError ''Outgoing cost movement cannot deepen a negative inventory deficit'')) (\<lambda>_.
      and_then (throw_if (new_cost < 0) (JsError ''Inventory cost cannot become negative'')) (\<lambda>_.
      and_then (throw_if (of_int previous * cost > 999999999999999999 / 100 \<or> of_int current * new_cost > 999999999999999999 / 100
                          \<or> \<bar>cc_value c\<bar> > 999999999999999999 / 100)
                 (JsError ''Inventory value is outside DECIMAL(18,2) range'')) (\<lambda>_.
      let m = cost_movement_of q c (va_tenant v) cost new_cost previous current in
      and_then (throw_if (\<not> cost_columns_fit m) (JsError ''numeric field overflow'')) (\<lambda>_.
      and_then (throw_if (list_ex (\<lambda>x. cm_key x = cc_key c) ms) (JsError ''unique constraint failed'')) (\<lambda>_.
      and_then (throw_if (cc_type c = Cost_Purchase_Receipt \<and> (cc_purchase c = None \<or> cc_purchase_item c = None))
                 (JsError ''Purchase receipt cost movements require invoice and line references'')) (\<lambda>_.
      Inr (m, set_variant_cost (cc_variant c) new_cost (d\<lparr>rt_costs := ms @ [m]\<rparr>)))))))))))))"

definition record_inventory_cost_movement ::
  "quotient \<Rightarrow> cost_command \<Rightarrow> ('a retail_db_scheme) \<Rightarrow> (cost_movement \<times> ('a retail_db_scheme)) result" where
  "record_inventory_cost_movement q c d =
     (let current = global_quantity d (cc_variant c) in
      and_then (throw_if (cc_delta c = 0) (JsError ''Inventory cost movement quantity delta cannot be zero'')) (\<lambda>_.
      and_then (or_throw (find (\<lambda>v. pv_id v = cc_variant c) (rt_variants d)) (JsError ''ProductVariant does not exist'')) (\<lambda>v.
      case find (\<lambda>m. cm_key m = cc_key c) (rt_costs d) of
        Some existing \<Rightarrow>
          and_then (throw_if (\<not> same_cost_command existing c)
                     (JsError ''Inventory cost movement idempotency key belongs to a different command'')) (\<lambda>_.
          and_then (throw_if (\<not> int4_range current) (JsError ''Invalid global inventory quantity'')) (\<lambda>_.
          and_then (throw_if (case latest_cost (rt_costs d) (cc_variant c) of None \<Rightarrow> True | Some m \<Rightarrow> cm_cost_after m \<noteq> pv_cost_price v)
                     (JsError ''Inventory cost ledger mismatch after idempotent replay'')) (\<lambda>_.
          Inr (existing, d))))
      | None \<Rightarrow>
          and_then (throw_if (\<not> int4_range current) (JsError ''Invalid global inventory quantity'')) (\<lambda>_.
          post_cost q c v d))))"

section \<open>The ledger and the costs agree\<close>

definition costs_of :: "id \<Rightarrow> cost_movement list \<Rightarrow> cost_movement list" where
  "costs_of v ms = filter (\<lambda>m. cm_variant m = v) ms"

lemma find_hd_filter: "find P xs = (if filter P xs = [] then None else Some (hd (filter P xs)))"
  by (induction xs) auto

lemma latest_cost_costs_of: "latest_cost ms v = (if costs_of v ms = [] then None else Some (last (costs_of v ms)))"
  unfolding latest_cost_def costs_of_def find_hd_filter rev_filter [symmetric] by (simp add: hd_rev)

text \<open>Each movement starts from the cost its predecessor left, and its quantities and values add up.\<close>

definition cost_movement_ok :: "cost_movement \<Rightarrow> bool" where
  "cost_movement_ok m \<longleftrightarrow>
     cm_quantity_after m = cm_quantity_before m + cm_quantity_delta m
     \<and> cm_value_after m = cm_value_before m + cm_movement_value m + cm_rounding m \<and> 0 \<le> cm_cost_after m"

fun cost_chain :: "rat option \<Rightarrow> cost_movement list \<Rightarrow> bool" where
  "cost_chain previous [] = True"
| "cost_chain previous (m # ms) =
     ((previous = None \<or> previous = Some (cm_cost_before m)) \<and> cost_movement_ok m \<and> cost_chain (Some (cm_cost_after m)) ms)"

lemma cost_chain_snoc:
  "cost_chain p (ms @ [m]) \<longleftrightarrow>
     cost_chain p ms \<and> cost_movement_ok m
     \<and> (if ms = [] then p = None \<or> p = Some (cm_cost_before m) else cm_cost_after (last ms) = cm_cost_before m)"
  by (induction ms arbitrary: p) auto

definition variant_costs_ok :: "cost_movement list \<Rightarrow> id \<Rightarrow> rat \<Rightarrow> bool" where
  "variant_costs_ok ms v cost \<longleftrightarrow>
     cost_chain None (costs_of v ms) \<and> (costs_of v ms \<noteq> [] \<longrightarrow> cm_cost_after (last (costs_of v ms)) = cost)"

definition cost_inv :: "('a retail_db_scheme) \<Rightarrow> bool" where
  "cost_inv d \<longleftrightarrow>
     distinct (map pv_id (rt_variants d))
     \<and> (\<forall>v \<in> set (rt_variants d). 0 \<le> pv_cost_price v \<and> has_places 2 (pv_cost_price v)
          \<and> variant_costs_ok (rt_costs d) (pv_id v) (pv_cost_price v))"

lemma costs_of_snoc: "costs_of v (ms @ [m]) = (if cm_variant m = v then costs_of v ms @ [m] else costs_of v ms)"
  by (simp add: costs_of_def)

lemma open_costs_effect:
  assumes o: "open_costs v tenant previous cost t ms = Inr ms'" and ok: "variant_costs_ok ms v cost" and c: "0 \<le> cost"
  shows "variant_costs_ok ms' v cost" and "w \<noteq> v \<Longrightarrow> costs_of w ms' = costs_of w ms"
proof -
  consider "ms' = ms" | "costs_of v ms = []" "ms' = ms @ [opening_cost v tenant previous cost t]"
  proof (cases "latest_cost ms v = None \<and> previous > 0")
    case True
    then have "costs_of v ms = []" by (simp add: latest_cost_costs_of split: if_splits)
    moreover have "ms' = ms \<or> ms' = ms @ [opening_cost v tenant previous cost t]"
      using o True by (auto simp: open_costs_def Let_def and_then_Inr_iff split: if_splits)
    ultimately show thesis using that by blast
  next
    case False
    then show thesis using o that(1) by (simp add: open_costs_def split: if_splits)
  qed
  note cases = this
  have m: "cm_variant (opening_cost v tenant previous cost t) = v"
    "cost_movement_ok (opening_cost v tenant previous cost t)"
    "cm_cost_after (opening_cost v tenant previous cost t) = cost"
    using c by (simp_all add: opening_cost_def Let_def cost_movement_ok_def)
  show "variant_costs_ok ms' v cost"
    using cases ok by cases (simp_all add: variant_costs_ok_def costs_of_snoc m)
  show "w \<noteq> v \<Longrightarrow> costs_of w ms' = costs_of w ms"
    using cases by cases (simp_all add: costs_of_snoc m)
qed

lemma post_costE:
  assumes "post_cost q c v d = Inr (m, d')"
  obtains ms new_cost where
    "open_costs (cc_variant c) (va_tenant v) (global_quantity d (cc_variant c) - cc_delta c) (pv_cost_price v) (cc_occurred_at c) (rt_costs d) = Inr ms"
    and "next_cost q c (pv_cost_price v) (global_quantity d (cc_variant c) - cc_delta c) (global_quantity d (cc_variant c)) = Inr new_cost"
    and "0 \<le> new_cost" and "\<not> list_ex (\<lambda>x. cm_key x = cc_key c) ms"
    and "int4_range (global_quantity d (cc_variant c) - cc_delta c)"
    and "m = cost_movement_of q c (va_tenant v) (pv_cost_price v) new_cost
               (global_quantity d (cc_variant c) - cc_delta c) (global_quantity d (cc_variant c))"
    and "d' = set_variant_cost (cc_variant c) new_cost (d\<lparr>rt_costs := ms @ [m]\<rparr>)"
  using assms unfolding post_cost_def Let_def and_then_Inr_iff throw_if_Inr_iff sum.inject prod.inject not_less
  by (elim exE conjE) (rule that, assumption, assumption, assumption, assumption, drule notnotD, assumption, rule sym, assumption, hypsubst, rule refl)

lemma next_cost_places: "next_cost q c cost p n = Inr new_cost \<Longrightarrow> has_places 2 cost \<Longrightarrow> has_places 2 new_cost"
  by (auto simp: next_cost_def Let_def result_simps split: cost_type.splits option.splits)

lemma post_cost_keeps:
  assumes p: "post_cost q c v d = Inr (m, d')" and inv: "cost_inv d"
    and v: "find (\<lambda>v. pv_id v = cc_variant c) (rt_variants d) = Some v"
  shows "cost_inv d'" and "find (\<lambda>v. pv_id v = cc_variant c) (rt_variants d') = Some (v\<lparr>pv_cost_price := cm_cost_after m\<rparr>)"
proof -
  from post_costE [OF p] obtain ms new_cost where
    o: "open_costs (cc_variant c) (va_tenant v) (global_quantity d (cc_variant c) - cc_delta c) (pv_cost_price v) (cc_occurred_at c) (rt_costs d) = Inr ms"
    and nc: "next_cost q c (pv_cost_price v) (global_quantity d (cc_variant c) - cc_delta c) (global_quantity d (cc_variant c)) = Inr new_cost"
    and n: "0 \<le> new_cost"
    and m: "m = cost_movement_of q c (va_tenant v) (pv_cost_price v) new_cost
               (global_quantity d (cc_variant c) - cc_delta c) (global_quantity d (cc_variant c))"
    and d': "d' = set_variant_cost (cc_variant c) new_cost (d\<lparr>rt_costs := ms @ [m]\<rparr>)" by metis
  from find_Some_iff_set [OF v] have vin: "v \<in> set (rt_variants d)" and vid: "pv_id v = cc_variant c" by auto
  have f: "cm_variant m = pv_id v" "cm_cost_before m = pv_cost_price v" "cm_cost_after m = new_cost" "cost_movement_ok m"
    using n by (simp_all add: m vid cost_movement_of_def Let_def cost_movement_ok_def)
  have c0: "0 \<le> pv_cost_price v" "has_places 2 (pv_cost_price v)" "variant_costs_ok (rt_costs d) (pv_id v) (pv_cost_price v)"
    using inv vin by (auto simp: cost_inv_def)
  note oe = open_costs_effect [OF o [folded vid] c0(3) c0(1)]
  note places = next_cost_places [OF nc c0(2)]
  have this_one: "variant_costs_ok (ms @ [m]) (pv_id v) new_cost"
    using oe(1) f by (auto simp: variant_costs_ok_def costs_of_snoc cost_chain_snoc)
  have others: "variant_costs_ok (ms @ [m]) w cost" if "w \<noteq> pv_id v" "variant_costs_ok (rt_costs d) w cost" for w cost
    using that oe(2) [OF that(1)] f(1) by (simp add: variant_costs_ok_def costs_of_snoc)
  have ids: "map pv_id (rt_variants d') = map pv_id (rt_variants d)"
    by (simp add: d' set_variant_cost_def comp_def if_distrib cong: if_cong)
  show "cost_inv d'"
    unfolding cost_inv_def ids
  proof (intro conjI ballI)
    show "distinct (map pv_id (rt_variants d))" using inv by (simp add: cost_inv_def)
    fix x assume "x \<in> set (rt_variants d')"
    then obtain y where y: "y \<in> set (rt_variants d)" "x = (if pv_id y = pv_id v then y\<lparr>pv_cost_price := new_cost\<rparr> else y)"
      by (auto simp: d' set_variant_cost_def vid)
    have "0 \<le> pv_cost_price y" "has_places 2 (pv_cost_price y)" "variant_costs_ok (rt_costs d) (pv_id y) (pv_cost_price y)"
      using inv y(1) by (auto simp: cost_inv_def)
    then show "0 \<le> pv_cost_price x" "has_places 2 (pv_cost_price x)" "variant_costs_ok (rt_costs d') (pv_id x) (pv_cost_price x)"
      using y(2) this_one others n places by (auto simp: d' set_variant_cost_def)
  qed
  have "find (\<lambda>v. pv_id v = k) (map (\<lambda>x. if pv_id x = k then x\<lparr>pv_cost_price := z\<rparr> else x) xs)
      = map_option (\<lambda>x. x\<lparr>pv_cost_price := z\<rparr>) (find (\<lambda>v. pv_id v = k) xs)" for k z and xs :: "variant_row list"
    by (induction xs) auto
  then show "find (\<lambda>v. pv_id v = cc_variant c) (rt_variants d') = Some (v\<lparr>pv_cost_price := cm_cost_after m\<rparr>)"
    using v by (simp add: d' set_variant_cost_def f(3))
qed

lemma record_costE:
  assumes "record_inventory_cost_movement q c d = Inr (m, d')"
  obtains (replay) "m \<in> set (rt_costs d)" "cm_key m = cc_key c" "same_cost_command m c" "d' = d"
  | (posted) v where "find (\<lambda>v. pv_id v = cc_variant c) (rt_variants d) = Some v"
      "find (\<lambda>m. cm_key m = cc_key c) (rt_costs d) = None" "post_cost q c v d = Inr (m, d')"
proof -
  from assms obtain v where v: "find (\<lambda>v. pv_id v = cc_variant c) (rt_variants d) = Some v"
    by (auto simp: record_inventory_cost_movement_def Let_def and_then_Inr_iff or_throw_Inr_iff)
  show thesis
  proof (cases "find (\<lambda>m. cm_key m = cc_key c) (rt_costs d)")
    case None
    then show thesis using assms v posted
      by (auto simp: record_inventory_cost_movement_def Let_def and_then_Inr_iff or_throw_Inr_iff)
  next
    case (Some x)
    then have "m = x" "same_cost_command x c" "d' = d" using assms v
      by (auto simp: record_inventory_cost_movement_def Let_def and_then_Inr_iff or_throw_Inr_iff throw_if_Inr_iff)
    then show thesis using replay find_Some_iff_set [OF Some] by blast
  qed
qed

section \<open>The moving average\<close>

text \<open>A quotient with at least sixteen significant digits.\<close>

definition numeric_quotient :: "quotient \<Rightarrow> bool" where
  "numeric_quotient q \<longleftrightarrow> (\<forall>a b. b \<noteq> 0 \<longrightarrow> \<bar>q a b - a / b\<bar> \<le> \<bar>a / b\<bar> / 10 ^ 15)"

text \<open>Half a cent, and what the quotient may be off.\<close>

definition cost_tolerance :: rat where
  "cost_tolerance = 1 / 200 + 1 / 10 ^ 4"

lemma rounded_quotient:
  assumes q: "numeric_quotient q" and b: "b \<noteq> 0" and r: "\<bar>a / b\<bar> \<le> 10 ^ 11"
  shows "\<bar>round_places 2 (q a b) - a / b\<bar> \<le> cost_tolerance"
proof -
  have "\<bar>q a b - a / b\<bar> \<le> \<bar>a / b\<bar> / 10 ^ 15" using q b by (simp add: numeric_quotient_def)
  also have "\<dots> \<le> 10 ^ 11 / 10 ^ 15" using r by (rule divide_right_mono) simp
  finally have 1: "\<bar>q a b - a / b\<bar> \<le> 1 / 10 ^ 4" by simp
  have 2: "\<bar>round_places 2 (q a b) - q a b\<bar> \<le> 1 / 200" using round_places_nearest [of 2 "q a b"] by simp
  show ?thesis using 1 2 unfolding cost_tolerance_def by linarith
qed

lemma quotient_range:
  assumes q: "numeric_quotient q" and b: "b \<noteq> 0" and r: "\<bar>q a b\<bar> \<le> 10 ^ 10"
  shows "\<bar>a / b\<bar> \<le> 10 ^ 11"
proof -
  have "\<bar>q a b - a / b\<bar> \<le> \<bar>a / b\<bar> / 10 ^ 15" using q b by (simp add: numeric_quotient_def)
  then have "\<bar>a / b\<bar> - \<bar>a / b\<bar> / 10 ^ 15 \<le> \<bar>q a b\<bar>" by linarith
  with r have "\<bar>a / b\<bar> - \<bar>a / b\<bar> / 10 ^ 15 \<le> 10000000000" by simp
  then show ?thesis by simp
qed

text \<open>An incoming movement is a receipt of units from a supplier or back from a customer.\<close>

definition incoming :: "cost_command \<Rightarrow> bool" where
  "incoming c \<longleftrightarrow> cc_type c = Cost_Purchase_Receipt \<or> cc_type c = Cost_Customer_Return"

lemma next_cost_incoming:
  assumes "incoming c" and "next_cost q c cost p n = Inr new_cost"
  shows "new_cost = round_places 2 (incoming_cost q c cost p n)" and "0 < cc_delta c" and "0 \<le> cc_value c"
    and "0 \<le> incoming_cost q c cost p n" and "incoming_cost q c cost p n \<le> 999999999999 / 100"
  using assms by (auto simp: incoming_def next_cost_def Let_def result_simps not_le not_less)

lemma weighted_between:
  fixes cost unit p w :: rat
  assumes "0 \<le> p" and "0 < w"
  shows "min cost unit \<le> (cost * p + unit * w) / (p + w)" and "(cost * p + unit * w) / (p + w) \<le> max cost unit"
proof -
  have pw: "0 < p + w" using assms by simp
  have "min cost unit * (p + w) = min cost unit * p + min cost unit * w" by (simp add: algebra_simps)
  also have "\<dots> \<le> cost * p + unit * w" using assms by (intro add_mono mult_right_mono) simp_all
  finally show "min cost unit \<le> (cost * p + unit * w) / (p + w)" using pw by (simp add: le_divide_eq)
  have "cost * p + unit * w \<le> max cost unit * p + max cost unit * w" using assms by (intro add_mono mult_right_mono) simp_all
  also have "\<dots> = max cost unit * (p + w)" by (simp add: algebra_simps)
  finally show "(cost * p + unit * w) / (p + w) \<le> max cost unit" using pw by (simp add: divide_le_eq)
qed

text \<open>A cost to restore is one the column held.\<close>

definition restores_column :: "cost_command \<Rightarrow> bool" where
  "restores_column c \<longleftrightarrow> (case cc_restore_cost c of None \<Rightarrow> True | Some r \<Rightarrow> has_places 2 r)"

lemma post_cost_records:
  assumes p: "post_cost q c v d = Inr (m, d')" and r: "restores_column c"
  shows "find (\<lambda>m. cm_key m = cc_key c) (rt_costs d') = Some m" and "same_cost_command m c" and "stock d' = stock d"
    and "rt_branches d' = rt_branches d" and "rt_in_transit d' = rt_in_transit d" and "latest_cost (rt_costs d') (cc_variant c) = Some m"
proof -
  from post_costE [OF p] obtain ms new_cost where
    nc: "next_cost q c (pv_cost_price v) (global_quantity d (cc_variant c) - cc_delta c) (global_quantity d (cc_variant c)) = Inr new_cost"
    and u: "\<not> list_ex (\<lambda>x. cm_key x = cc_key c) ms"
    and m: "m = cost_movement_of q c (va_tenant v) (pv_cost_price v) new_cost
               (global_quantity d (cc_variant c) - cc_delta c) (global_quantity d (cc_variant c))"
    and d': "d' = set_variant_cost (cc_variant c) new_cost (d\<lparr>rt_costs := ms @ [m]\<rparr>)" by metis
  have "\<forall>x \<in> set ms. cm_key x \<noteq> cc_key c" using u by (auto simp: list_ex_iff)
  then have "find (\<lambda>m. cm_key m = cc_key c) (ms @ [m]) = Some m"
    by (induction ms) (simp_all add: m cost_movement_of_def Let_def)
  then show "find (\<lambda>m. cm_key m = cc_key c) (rt_costs d') = Some m" by (simp add: d' set_variant_cost_def)
  have "cc_type c = Cost_Purchase_Reversal \<Longrightarrow> Some new_cost = cc_restore_cost c"
    using nc r by (auto simp: next_cost_def result_simps restores_column_def round_places_id split: option.splits)
  then show "same_cost_command m c" by (simp add: m same_cost_command_def cost_movement_of_def Let_def)
  show "latest_cost (rt_costs d') (cc_variant c) = Some m"
    by (simp add: d' set_variant_cost_def latest_cost_def) (simp add: m cost_movement_of_def Let_def)
  show "stock d' = stock d" "rt_branches d' = rt_branches d" "rt_in_transit d' = rt_in_transit d"
    by (simp_all add: d' set_variant_cost_def)
qed

lemma cost_recorded_once:
  assumes "cost_inv d" and "restores_column c" and rec: "record_inventory_cost_movement q c d = Inr (m, d')"
  shows "cost_inv d'" and "record_inventory_cost_movement q c d' = Inr (m, d')"
proof -
  from rec have z: "cc_delta c \<noteq> 0" by (auto simp: record_inventory_cost_movement_def Let_def and_then_Inr_iff throw_if_Inr_iff)
  show "cost_inv d'" by (rule record_costE [OF rec]) (use assms(1) post_cost_keeps(1) in auto)
  show "record_inventory_cost_movement q c d' = Inr (m, d')"
  proof (rule record_costE [OF rec])
    fix v assume v: "find (\<lambda>v. pv_id v = cc_variant c) (rt_variants d) = Some v"
      and n: "find (\<lambda>m. cm_key m = cc_key c) (rt_costs d) = None" and p: "post_cost q c v d = Inr (m, d')"
    note pr = post_cost_records [OF p assms(2)]
    have g: "global_quantity d' (cc_variant c) = global_quantity d (cc_variant c)" by (simp add: global_quantity_def pr)
    have "int4_range (global_quantity d (cc_variant c))"
      using rec v n by (auto simp: record_inventory_cost_movement_def Let_def and_then_Inr_iff throw_if_Inr_iff)
    then show ?thesis
      using post_cost_keeps(2) [OF p assms(1) v] pr z by (simp add: record_inventory_cost_movement_def Let_def g)
  qed (use rec in simp)
qed

lemma cost_frame: "record_inventory_cost_movement q c d = Inr (m, d') \<Longrightarrow> \<exists>vs cs. d' = d\<lparr>rt_costs := cs, rt_variants := vs\<rparr>"
proof (erule record_costE)
  assume "d' = d"
  then have "d' = d\<lparr>rt_costs := rt_costs d, rt_variants := rt_variants d\<rparr>" by simp
  then show ?thesis by blast
next
  fix v assume "post_cost q c v d = Inr (m, d')"
  then obtain ms new_cost where "d' = set_variant_cost (cc_variant c) new_cost (d\<lparr>rt_costs := ms @ [m]\<rparr>)"
    by (metis post_costE)
  then show ?thesis by (auto simp: set_variant_cost_def)
qed

text \<open>The invariant only looks at the costs.\<close>

lemma cost_inv_same:
  assumes "map (\<lambda>v. (pv_id v, pv_cost_price v)) (rt_variants d') = map (\<lambda>v. (pv_id v, pv_cost_price v)) (rt_variants d)"
    and "rt_costs d' = rt_costs d"
  shows "cost_inv d' = cost_inv d"
proof -
  have e: "cost_inv x \<longleftrightarrow> distinct (map fst (map (\<lambda>v. (pv_id v, pv_cost_price v)) (rt_variants x)))
      \<and> (\<forall>p \<in> set (map (\<lambda>v. (pv_id v, pv_cost_price v)) (rt_variants x)).
           0 \<le> snd p \<and> has_places 2 (snd p) \<and> variant_costs_ok (rt_costs x) (fst p) (snd p))" for x :: "'x retail_db_scheme"
    by (simp add: cost_inv_def comp_def)
  show ?thesis unfolding e assms ..
qed

section \<open>Properties\<close>

text \<open>C25: posting to the cost ledger keeps it consistent with the cost of every variant: each movement
  starts from the cost its predecessor left, its quantities and values add up, and the last one
  holds the variant's cost. Posting the same command again returns the same movement and changes
  nothing.\<close>

theorem cost_ledger_kept:
  assumes "cost_inv d" and "restores_column c" and "record_inventory_cost_movement q c d = Inr (m, d')"
  shows "cost_inv d' \<and> record_inventory_cost_movement q c d' = Inr (m, d')"
  using cost_recorded_once [OF assms] by simp

text \<open>
  The units of an incoming movement that only fill the hole sales left below zero: they have no value in
  the stock afterwards.
\<close>

definition hole_units :: "cost_movement \<Rightarrow> int" where
  "hole_units m = min (cm_quantity_delta m) (max 0 (- cm_quantity_before m))"

lemma moving_average:
  assumes q: "numeric_quotient q" and inv: "cost_inv d" and inc: "incoming c" and vp: "has_places 2 (cc_value c)"
    and rec: "record_inventory_cost_movement q c d = Inr (m, d')"
    and new: "find (\<lambda>x. cm_key x = cc_key c) (rt_costs d) = None"
  shows "min (cm_cost_before m) (cc_value c / of_int (cc_delta c)) - cost_tolerance \<le> cm_cost_after m
    \<and> cm_cost_after m \<le> max (cm_cost_before m) (cc_value c / of_int (cc_delta c)) + cost_tolerance
    \<and> \<bar>cm_rounding m + of_int (hole_units m) * (cc_value c / of_int (cc_delta c))\<bar>
        \<le> of_int (max 0 (cm_quantity_after m)) * cost_tolerance"
proof -
  obtain v where
    v: "find (\<lambda>v. pv_id v = cc_variant c) (rt_variants d) = Some v" and p: "post_cost q c v d = Inr (m, d')"
  proof (rule record_costE [OF rec])
    assume "m \<in> set (rt_costs d)" "cm_key m = cc_key c"
    with new show thesis by (auto simp: find_None_set)
  qed (rule that)
  let ?n = "global_quantity d (cc_variant c)" and ?cost = "pv_cost_price v"
  let ?p = "?n - cc_delta c"
  from post_costE [OF p] obtain new_cost where
    nc: "next_cost q c ?cost ?p ?n = Inr new_cost" and m: "m = cost_movement_of q c (va_tenant v) ?cost new_cost ?p ?n" by metis
  note ni = next_cost_incoming [OF inc nc]
  have cost: "0 \<le> ?cost" "has_places 2 ?cost" using inv find_Some_iff_set [OF v] by (auto simp: cost_inv_def)
  let ?w = "of_int (cc_delta c) :: rat" and ?P = "of_int ?p :: rat" and ?unit = "cc_value c / of_int (cc_delta c)"
  let ?avg = "(?cost * ?P + cc_value c) / of_int ?n"
  have w: "0 < ?w" "?P + ?w = of_int ?n" "?unit * ?w = cc_value c" using ni(2) by simp_all
  have f: "cm_cost_before m = ?cost" "cm_cost_after m = new_cost" "cm_quantity_after m = ?n"
    "cm_quantity_before m = ?p" "cm_quantity_delta m = cc_delta c"
    by (simp_all add: m cost_movement_of_def Let_def)
  have np: "has_places 2 new_cost" using ni(1) by simp
  have "cm_rounding m = round_places 2 (new_cost * of_int (max ?n 0)) - (round_places 2 (?cost * of_int (max ?p 0)) + cc_value c)"
    by (simp add: m cost_movement_of_def Let_def mult.commute)
  then have rd: "cm_rounding m = new_cost * of_int (max ?n 0) - (?cost * of_int (max ?p 0) + cc_value c)"
    using np cost(2) by (simp only: round_places_id has_places_mult_int)
  have tol: "0 \<le> cost_tolerance" by (simp add: cost_tolerance_def)
  have far: "\<bar>of_int k * x\<bar> \<le> of_int k * cost_tolerance" if "\<bar>x\<bar> \<le> cost_tolerance" "0 \<le> k" for k :: int and x
    using that by (simp add: abs_mult mult_left_mono)
  consider (hole) "?n \<le> 0" | (filled) "0 < ?n" "?p < 0" | (stocked) "0 < ?n" "0 \<le> ?p" by linarith
  then show ?thesis
  proof cases
    case hole
    then have "new_cost = ?cost" using ni(1) cost(2) by (simp add: incoming_cost_def round_places_id)
    moreover have "hole_units m = cc_delta c" using hole ni(2) by (simp add: hole_units_def f min_def max_def)
    ultimately show ?thesis using hole ni(2) w rd tol by (simp add: f max_def)
  next
    case filled
    have d0: "?w \<noteq> 0" using w(1) by simp
    have ic: "incoming_cost q c ?cost ?p ?n = q (cc_value c) ?w" using filled by (simp add: incoming_cost_def)
    have "\<bar>?unit\<bar> \<le> 10 ^ 11" by (rule quotient_range [OF q d0]) (use ni(4,5) ic in simp)
    then have close: "\<bar>new_cost - ?unit\<bar> \<le> cost_tolerance" using rounded_quotient [OF q d0] ni(1) ic by simp
    have h: "hole_units m = cc_delta c - ?n" using filled ni(2) by (simp add: hole_units_def f min_def max_def)
    have "cm_rounding m + of_int (hole_units m) * ?unit = of_int ?n * new_cost - ?unit * ?w + (?w - of_int ?n) * ?unit"
      unfolding rd h w(3) using filled by (simp add: max_def mult.commute)
    also have "\<dots> = of_int ?n * (new_cost - ?unit)" by (simp add: algebra_simps)
    finally have "\<bar>cm_rounding m + of_int (hole_units m) * ?unit\<bar> \<le> of_int ?n * cost_tolerance"
      using far [OF close, of ?n] filled by simp
    moreover have "min ?cost ?unit \<le> ?unit" "?unit \<le> max ?cost ?unit" by simp_all
    then have "min ?cost ?unit - cost_tolerance \<le> new_cost" "new_cost \<le> max ?cost ?unit + cost_tolerance" using close by linarith+
    moreover have "max 0 ?n = ?n" using filled by simp
    ultimately show ?thesis by (simp only: f simp_thms)
  next
    case stocked
    have ic: "incoming_cost q c ?cost ?p ?n = q (?cost * ?P + cc_value c) (of_int ?n)"
      using stocked by (simp add: incoming_cost_def)
    have n0: "(of_int ?n :: rat) \<noteq> 0" using stocked by simp
    have "\<bar>?avg\<bar> \<le> 10 ^ 11" by (rule quotient_range [OF q n0]) (use ni(4,5) ic in simp)
    then have close: "\<bar>new_cost - ?avg\<bar> \<le> cost_tolerance" using rounded_quotient [OF q n0] ni(1) ic by simp
    have P: "0 \<le> ?P" using stocked by simp
    have b: "min ?cost ?unit \<le> ?avg" "?avg \<le> max ?cost ?unit"
      using weighted_between [OF P w(1), of ?cost ?unit] by (simp_all only: w(2,3))
    have "hole_units m = 0" using stocked ni(2) by (simp add: hole_units_def f)
    then have "cm_rounding m + of_int (hole_units m) * ?unit = of_int ?n * new_cost - (?cost * ?P + cc_value c)"
      unfolding rd using stocked by (simp add: max_def mult.commute)
    also have "\<dots> = of_int ?n * (new_cost - ?avg)" using n0 by (simp add: field_simps)
    finally have "\<bar>cm_rounding m + of_int (hole_units m) * ?unit\<bar> \<le> of_int ?n * cost_tolerance"
      using far [OF close, of ?n] stocked by simp
    moreover have "min ?cost ?unit - cost_tolerance \<le> new_cost" "new_cost \<le> max ?cost ?unit + cost_tolerance" using close b by linarith+
    moreover have "max 0 ?n = ?n" using stocked by simp
    ultimately show ?thesis by (simp only: f simp_thms)
  qed
qed

lemma delta_positive:
  assumes "incoming c" and "record_inventory_cost_movement q c d = Inr (m, d')"
    and "find (\<lambda>x. cm_key x = cc_key c) (rt_costs d) = None"
  shows "0 < cm_quantity_delta m"
proof (rule record_costE [OF assms(2)])
  assume "m \<in> set (rt_costs d)" "cm_key m = cc_key c"
  with assms(3) show ?thesis by (auto simp: find_None_set)
next
  fix v assume "post_cost q c v d = Inr (m, d')"
  from post_costE [OF this] obtain new_cost p where "next_cost q c (pv_cost_price v) p (p + cc_delta c) = Inr new_cost"
      "m = cost_movement_of q c (va_tenant v) (pv_cost_price v) new_cost p (p + cc_delta c)"
    by (metis diff_add_cancel)
  then show ?thesis using next_cost_incoming(2) [OF assms(1)] by (auto simp: cost_movement_of_def Let_def)
qed

text \<open>C26: The moving average, whatever the stock before, negative stock included. The cost after a receipt or a
  customer return lies between the cost before and the unit cost of what came in, to half a cent and what the
  quotient may be off. The value of the stock grows by the value of what came in, less the
  incoming units that only fill what sales took below zero, off by no more than that tolerance for each unit on hand afterwards;
  so where the stock was not negative nothing but rounding is lost.\<close>

theorem moving_average_bounded:
  assumes "numeric_quotient q" and "cost_inv d" and "incoming c" and "has_places 2 (cc_value c)"
    and "record_inventory_cost_movement q c d = Inr (m, d')"
    and "find (\<lambda>x. cm_key x = cc_key c) (rt_costs d) = None"
  shows "min (cm_cost_before m) (cc_value c / of_int (cc_delta c)) - cost_tolerance \<le> cm_cost_after m
       \<and> cm_cost_after m \<le> max (cm_cost_before m) (cc_value c / of_int (cc_delta c)) + cost_tolerance
       \<and> \<bar>cm_rounding m + of_int (hole_units m) * (cc_value c / of_int (cc_delta c))\<bar>
           \<le> of_int (max 0 (cm_quantity_after m)) * cost_tolerance
       \<and> (0 \<le> cm_quantity_before m \<longrightarrow> \<bar>cm_rounding m\<bar> \<le> of_int (max 0 (cm_quantity_after m)) * cost_tolerance)"
proof -
  have "cm_quantity_delta m > 0" using delta_positive [OF assms(3,5,6)] .
  then have "0 \<le> cm_quantity_before m \<Longrightarrow> hole_units m = 0" by (simp add: hole_units_def)
  then show ?thesis using moving_average [OF assms] by auto
qed

section \<open>Witnesses\<close>

definition sample_cost_variant :: variant_row where
  "sample_cost_variant =
     \<lparr>pv_id = ''v'', pv_product = ''p'', pv_cost_price = 10, pv_tax_category = None,
      pv_product_category = None, pv_product_brand = None, pv_product_tax_category = None,
      va_tenant = ''t'', va_product_tenant = ''t'', va_active = True, va_product_active = True,
      va_return_count = 0, va_qa_flag = False\<rparr>"

definition sample_retail :: retail_db where
  "sample_retail =
     \<lparr>stock = (\<lambda>k. if k = (''b'', ''v'') then Some \<lparr>qty_on_hand = 8, qty_reserved = 0, last_sold_at = None, stock_tenant = ''t''\<rparr> else None),
      movements = [], rt_branches = [\<lparr>br_id = ''b'', br_tenant = ''t'', br_code = ''B'', br_active = True\<rparr>],
      rt_variants = [sample_cost_variant], rt_in_transit = (\<lambda>_. 0), rt_costs = [], rt_audits = []\<rparr>"

definition sample_receipt :: cost_command where
  "sample_receipt =
     \<lparr>cc_variant = ''v'', cc_branch = ''b'', cc_type = Cost_Purchase_Receipt, cc_delta = 3, cc_value = 35,
      cc_reference_type = ''PurchaseInvoice'', cc_reference_id = ''i'', cc_reference_line = None,
      cc_purchase = Some ''i'', cc_purchase_item = Some ''l'', cc_supplier_return = None,
      cc_supplier_return_item = None, cc_key = ''k'', cc_occurred_at = 0, cc_created_by = None,
      cc_restore_cost = None\<rparr>"

lemma sample_retail_costs: "cost_inv sample_retail"
  by (simp add: cost_inv_def sample_retail_def sample_cost_variant_def variant_costs_ok_def costs_of_def
      has_places_of_int [of 2 10, simplified])

lemma sample_receipt_costs:
  "\<exists>m d'. record_inventory_cost_movement (\<lambda>a b. a / b) sample_receipt sample_retail = Inr (m, d')
     \<and> cm_cost_before m = 10 \<and> cm_cost_after m = 1063 / 100 \<and> cm_rounding m = 4 / 100
     \<and> cm_quantity_before m = 5 \<and> cm_quantity_after m = 8"
proof -
  have "(case record_inventory_cost_movement (\<lambda>a b. a / b) sample_receipt sample_retail of Inl e \<Rightarrow> False
       | Inr (m, d') \<Rightarrow> cm_cost_before m = 10 \<and> cm_cost_after m = 1063 / 100 \<and> cm_rounding m = 4 / 100
           \<and> cm_quantity_before m = 5 \<and> cm_quantity_after m = 8)"
    by code_simp
  then show ?thesis by (auto split: sum.splits)
qed

theorem cost_ledger_kept_witness:
  "\<exists>m d'. cm_cost_after m = 1063 / 100 \<and> cost_inv d'
     \<and> record_inventory_cost_movement (\<lambda>a b. a / b) sample_receipt (d' :: retail_db) = Inr (m, d')"
proof -
  obtain m d' where "record_inventory_cost_movement (\<lambda>a b. a / b) sample_receipt sample_retail = Inr (m, d')"
    "cm_cost_after m = 1063 / 100" using sample_receipt_costs by blast
  moreover have "restores_column sample_receipt" by (simp add: restores_column_def sample_receipt_def)
  ultimately show ?thesis using cost_ledger_kept [OF sample_retail_costs] by blast
qed

text \<open>Ten units worth a hundred arrive where sales left the stock at minus five: fifty are in the stock.\<close>

definition sample_deficit :: retail_db where
  "sample_deficit = sample_retail\<lparr>stock :=
     (\<lambda>k. if k = (''b'', ''v'') then Some \<lparr>qty_on_hand = 5, qty_reserved = 0, last_sold_at = None, stock_tenant = ''t''\<rparr> else None)\<rparr>"

lemma sample_deficit_costs:
  "\<exists>m d'. record_inventory_cost_movement (\<lambda>a b. a / b) (sample_receipt\<lparr>cc_delta := 10, cc_value := 100\<rparr>) sample_deficit = Inr (m, d')
     \<and> cm_cost_after m = 10 \<and> cm_rounding m = - 50 \<and> cm_quantity_before m = - 5 \<and> cm_quantity_after m = 5 \<and> hole_units m = 5"
proof -
  have "(case record_inventory_cost_movement (\<lambda>a b. a / b) (sample_receipt\<lparr>cc_delta := 10, cc_value := 100\<rparr>) sample_deficit of Inl e \<Rightarrow> False
       | Inr (m, d') \<Rightarrow> cm_cost_after m = 10 \<and> cm_rounding m = - 50 \<and> cm_quantity_before m = - 5 \<and> cm_quantity_after m = 5
           \<and> hole_units m = 5)"
    by code_simp
  then show ?thesis by (auto split: sum.splits)
qed

theorem moving_average_bounded_witness:
  "(\<exists>m d'. record_inventory_cost_movement (\<lambda>a b. a / b) sample_receipt sample_retail = Inr (m, d')
     \<and> cm_cost_after m = 1063 / 100 \<and> \<bar>cm_rounding m\<bar> \<le> 8 * cost_tolerance)
   \<and> (\<exists>m d'. record_inventory_cost_movement (\<lambda>a b. a / b) (sample_receipt\<lparr>cc_delta := 10, cc_value := 100\<rparr>) sample_deficit = Inr (m, d')
     \<and> cm_rounding m = - 50 \<and> \<bar>cm_rounding m + 5 * (100 / 10)\<bar> \<le> 5 * cost_tolerance)"
proof
  obtain m d' where r: "record_inventory_cost_movement (\<lambda>a b. a / b) sample_receipt sample_retail = Inr (m, d')"
    "cm_cost_after m = 1063 / 100" "cm_quantity_before m = 5" "cm_quantity_after m = 8" using sample_receipt_costs by blast
  have "has_places 2 (cc_value sample_receipt)"
    using has_places_of_int [of 2 35] by (simp add: sample_receipt_def)
  then have "\<bar>cm_rounding m\<bar> \<le> of_int (max 0 (cm_quantity_after m)) * cost_tolerance"
    using moving_average_bounded [OF _ sample_retail_costs _ _ r(1)] r(3)
    by (simp add: numeric_quotient_def incoming_def sample_receipt_def sample_retail_def)
  with r show "\<exists>m d'. record_inventory_cost_movement (\<lambda>a b. a / b) sample_receipt sample_retail = Inr (m, d')
     \<and> cm_cost_after m = 1063 / 100 \<and> \<bar>cm_rounding m\<bar> \<le> 8 * cost_tolerance" by auto
next
  let ?c = "sample_receipt\<lparr>cc_delta := 10, cc_value := 100\<rparr>"
  obtain m d' where r: "record_inventory_cost_movement (\<lambda>a b. a / b) ?c sample_deficit = Inr (m, d')"
    "cm_rounding m = - 50" "cm_quantity_after m = 5" "hole_units m = 5" using sample_deficit_costs by blast
  have i: "cost_inv sample_deficit" "has_places 2 (cc_value ?c)"
    using sample_retail_costs has_places_of_int [of 2 100] by (simp_all add: sample_deficit_def cost_inv_def)
  have "\<bar>cm_rounding m + of_int (hole_units m) * (cc_value ?c / of_int (cc_delta ?c))\<bar> \<le> of_int (max 0 (cm_quantity_after m)) * cost_tolerance"
    using moving_average_bounded [OF _ i(1) _ i(2) r(1)]
    by (simp add: numeric_quotient_def incoming_def sample_receipt_def sample_deficit_def sample_retail_def)
  then show "\<exists>m d'. record_inventory_cost_movement (\<lambda>a b. a / b) ?c sample_deficit = Inr (m, d')
     \<and> cm_rounding m = - 50 \<and> \<bar>cm_rounding m + 5 * (100 / 10)\<bar> \<le> 5 * cost_tolerance"
    using r by (intro exI [of _ m] exI [of _ d']) simp
qed

end
