(* ===== verification/Sales.thy ===== *)
theory Sales
  imports Cost_Ledger Pricing Branch_Access Domain_Values
begin

text \<open>
  \<open>backend/src/sales/sales.service.ts\<close>: sales uploaded by the tills and returns of sold goods, with the
  triggers of the database that write the movements of a return.

  A handler runs in one transaction: it returns what the service answers and the new state, or an
  error, and then the state is unchanged. The digest, the collation, the date parser and
  \<open>randomUUID()\<close> are the host's. Requests have passed their validation, so quantities are integers,
  amounts finite and the sequence number is a text of digits. The masking of costs in answers, the
  log and the cache of counts are left out.
\<close>

section \<open>Tables\<close>

record user_row =
  us_id :: id
  us_branch :: "id option"
  us_role :: role
  us_name :: string
  us_tenants :: "id list"

record pos_terminal =
  pt_id :: id
  pt_tenant :: id
  pt_branch :: id
  pt_last_sequence :: int

record shift_row =
  sh_id :: id
  sh_tenant :: id
  sh_branch :: id
  sh_opened_by :: id
  sh_closed_by :: "id option"
  sh_opening_cash :: rat
  sh_closing_cash :: "rat option"
  sh_expected_cash :: "rat option"
  sh_difference :: "rat option"
  sh_opened_at :: int
  sh_closed_at :: "int option"
  sh_status :: string

record customer_row =
  cu_id :: id
  cu_tenant :: id
  cu_phone :: "string option"
  cu_invoices :: int
  cu_spent :: rat

record priced_item =
  pi_variant :: id
  pi_qty :: int
  pi_price :: rat
  pi_cost :: rat
  pi_tax :: rat
  pi_sku :: string
  pi_name_ar :: string
  pi_name_en :: "string option"
  pi_size :: "string option"
  pi_color :: "string option"

record invoice_item = priced_item +
  ii_id :: id

record invoice_row =
  in_id :: id
  in_tenant :: id
  in_number :: string
  in_version :: int
  in_warnings :: "string list"
  in_branch :: id
  in_customer :: "id option"
  in_cashier :: "id option"
  in_cashier_name :: string
  in_seller :: "id option"
  in_seller_name :: string
  in_received_by :: "id option"
  in_terminal :: "id option"
  in_shift :: "id option"
  in_session :: "id option"
  in_sequence :: "int option"
  in_fingerprint :: "string option"
  in_occurred_at :: int
  in_received_at :: int
  in_subtotal :: rat
  in_tax :: rat
  in_total :: rat
  in_payment :: string
  in_language :: string
  in_sync_id :: "id option"
  in_status :: string
  in_items :: "invoice_item list"

record return_item =
  ri_id :: id
  ri_sale_item :: id
  ri_variant_id :: id
  ri_qty_back :: int
  ri_price :: rat
  ri_cost :: rat
  ri_tax :: rat

record return_row =
  re_id :: id
  re_tenant :: id
  re_invoice :: id
  re_branch :: id
  re_shift :: "id option"
  re_number :: string
  re_reason :: "string option"
  re_partial :: bool
  re_created_by :: id
  re_subtotal :: rat
  re_tax :: rat
  re_total :: rat
  re_status :: string
  re_created_at :: int
  re_items :: "return_item list"

record sales_db = retail_db +
  sd_users :: "user_row list"
  sd_terminals :: "pos_terminal list"
  sd_shifts :: "shift_row list"
  sd_customers :: "customer_row list"
  sd_prices :: "price_entry_row list"
  sd_tax_codes :: "tax_code list"
  sd_invoices :: "invoice_row list"
  sd_snapshots :: "snapshot_row list"
  sd_returns :: "return_row list"

section \<open>Requests\<close>

record sale_line =
  sl_variant :: id
  sl_qty :: int
  sl_price :: rat
  sl_tax :: rat
  sl_sku :: string
  sl_name_ar :: string
  sl_name_en :: "string option"
  sl_size :: "string option"
  sl_color :: "string option"

record create_sale_dto =
  cs_version :: int
  cs_sync_id :: id
  cs_branch :: id
  cs_shift :: id
  cs_cashier :: id
  cs_cashier_name :: string
  cs_seller :: id
  cs_seller_name :: string
  cs_session :: id
  cs_sequence :: string
  cs_occurred_at :: string
  cs_phone :: "string option"
  cs_items :: "sale_line list"
  cs_payment :: string
  cs_language :: "string option"
  cs_local_total :: rat

record create_return_dto =
  cr_invoice :: id
  cr_items :: "(id \<times> int) list"
  cr_reason :: "string option"

text \<open>The host, and what a call brings along: the clock and the identifiers it draws.\<close>

record sale_host =
  so_compare :: "string comparing"
  so_text :: number_text
  so_sha256 :: "string \<Rightarrow> string"
  so_date :: "string \<Rightarrow> int"
  so_iso :: "int \<Rightarrow> string"

record sale_call =
  sv_now :: int
  sv_uuid :: "nat \<Rightarrow> id"

section \<open>Lines and fingerprint\<close>

definition trimmed :: "string option \<Rightarrow> string" where
  "trimmed s = (case s of None \<Rightarrow> [] | Some t \<Rightarrow> trim t)"

definition trimmed_or_null :: "string option \<Rightarrow> string option" where
  "trimmed_or_null s = or_null (map_option trim s)"

definition same_snapshot :: "dec_lib \<Rightarrow> sale_line \<Rightarrow> sale_line \<Rightarrow> bool" where
  "same_snapshot L a b \<longleftrightarrow>
     moneyq L (sl_price a) = moneyq L (sl_price b) \<and> moneyq L (sl_tax a) = moneyq L (sl_tax b)
     \<and> trim (sl_sku a) = trim (sl_sku b) \<and> trim (sl_name_ar a) = trim (sl_name_ar b)
     \<and> trimmed (sl_name_en a) = trimmed (sl_name_en b) \<and> trimmed (sl_size a) = trimmed (sl_size b)
     \<and> trimmed (sl_color a) = trimmed (sl_color b)"

definition merge_line :: "dec_lib \<Rightarrow> sale_line \<Rightarrow> (id \<times> sale_line) list \<Rightarrow> (id \<times> sale_line) list result" where
  "merge_line L item lines =
     (case map_of lines (sl_variant item) of
        None \<Rightarrow> Inr (AList.update (sl_variant item) item lines)
      | Some existing \<Rightarrow>
          and_then (throw_if (\<not> same_snapshot L existing item) (Unprocessable ''CONFLICTING_ITEM_SNAPSHOTS'')) (\<lambda>_.
          Inr (AList.update (sl_variant item) (existing\<lparr>sl_qty := sl_qty existing + sl_qty item\<rparr>) lines)))"

definition normalize_lines :: "dec_lib \<Rightarrow> sale_line list \<Rightarrow> sale_line list result" where
  "normalize_lines L items = and_then (fold_result (merge_line L) items []) (\<lambda>lines. Inr (map snd lines))"

definition opt_string :: "string option \<Rightarrow> js_value" where
  "opt_string s = (case s of None \<Rightarrow> Null | Some t \<Rightarrow> String t)"

definition money_text :: "dec_lib \<Rightarrow> rat \<Rightarrow> string" where
  "money_text L r = format_scaled \<lfloor>moneyq L r * 10 ^ money_scale\<rfloor> money_scale"

definition line_payload :: "dec_lib \<Rightarrow> sale_line \<Rightarrow> js_value" where
  "line_payload L l =
     Object [(''variant_id'', String (sl_variant l)), (''qty'', Number (of_int (sl_qty l))),
             (''unit_price'', String (money_text L (sl_price l))), (''unit_tax'', String (money_text L (sl_tax l))),
             (''sku_snapshot'', String (trim (sl_sku l))), (''name_ar_snapshot'', String (trim (sl_name_ar l))),
             (''name_en_snapshot'', opt_string (trimmed_or_null (sl_name_en l))),
             (''size_snapshot'', opt_string (trimmed_or_null (sl_size l))),
             (''color_snapshot'', opt_string (trimmed_or_null (sl_color l)))]"

definition language_of :: "create_sale_dto \<Rightarrow> string" where
  "language_of dto = (if truthy (cs_language dto) then the (cs_language dto) else ''ar'')"

definition sale_payload :: "dec_lib \<Rightarrow> sale_host \<Rightarrow> create_sale_dto \<Rightarrow> id \<Rightarrow> int \<Rightarrow> sale_line list \<Rightarrow> js_value" where
  "sale_payload L H dto terminal occurred lines =
     Object [(''v'', Number (of_int (cs_version dto))), (''branch_id'', String (cs_branch dto)),
             (''terminal_id'', String terminal), (''shift_id'', String (cs_shift dto)),
             (''origin_cashier_id'', String (cs_cashier dto)),
             (''cashier_name_snapshot'', String (trim (cs_cashier_name dto))),
             (''seller_id'', String (cs_seller dto)), (''seller_name_snapshot'', String (trim (cs_seller_name dto))),
             (''offline_session_id'', String (cs_session dto)), (''terminal_sequence'', String (cs_sequence dto)),
             (''occurred_at'', String (so_iso H occurred)), (''customer_phone'', opt_string (or_null (cs_phone dto))),
             (''payment_method'', String (cs_payment dto)), (''language'', String (language_of dto)),
             (''local_total'', String (money_text L (cs_local_total dto))),
             (''items'', Array (map (line_payload L) (js_sort (\<lambda>l r. so_compare H (sl_variant l) (sl_variant r)) lines)))]"

definition sale_fingerprint :: "dec_lib \<Rightarrow> sale_host \<Rightarrow> create_sale_dto \<Rightarrow> id \<Rightarrow> int \<Rightarrow> sale_line list \<Rightarrow> string" where
  "sale_fingerprint L H dto terminal occurred lines =
     so_sha256 H (json_text (so_text H) (sale_payload L H dto terminal occurred lines))"

section \<open>What the sale refers to\<close>

definition device_tenant :: "pos_terminal \<Rightarrow> id result" where
  "device_tenant terminal =
     and_then (throw_if (pt_tenant terminal = []) (DomainError ''TENANT_CONTEXT_UNRESOLVABLE'')) (\<lambda>_.
     parse_opaque_id (pt_tenant terminal) ''Tenant'')"

definition lock_terminal :: "pos_terminal \<Rightarrow> create_sale_dto \<Rightarrow> ('a sales_db_scheme) \<Rightarrow> pos_terminal result" where
  "lock_terminal terminal dto d =
     (let wrong = Forbidden ''The terminal is not assigned to the sale branch'' in
      and_then (or_throw (find (\<lambda>t. pt_id t = pt_id terminal) (sd_terminals d)) wrong) (\<lambda>locked.
      and_then (throw_if (pt_branch locked \<noteq> cs_branch dto) wrong) (\<lambda>_. Inr locked)))"

definition find_sale :: "id \<Rightarrow> id \<Rightarrow> ('a sales_db_scheme) \<Rightarrow> invoice_row option" where
  "find_sale tenant sync_id d = find (\<lambda>i. in_tenant i = tenant \<and> in_sync_id i = Some sync_id) (sd_invoices d)"

definition same_accounting_context :: "create_sale_dto \<Rightarrow> id \<Rightarrow> int \<Rightarrow> string \<Rightarrow> invoice_row \<Rightarrow> bool" where
  "same_accounting_context dto terminal sequence fingerprint i \<longleftrightarrow>
     in_branch i = cs_branch dto \<and> in_terminal i = Some terminal \<and> in_session i = Some (cs_session dto)
     \<and> in_sequence i = Some sequence \<and> in_fingerprint i = Some fingerprint"

definition member_in :: "id \<Rightarrow> id \<Rightarrow> ('a sales_db_scheme) \<Rightarrow> user_row option" where
  "member_in tenant user d = find (\<lambda>u. us_id u = user \<and> tenant \<in> set (us_tenants u)) (sd_users d)"

definition linked_cashier :: "id \<Rightarrow> create_sale_dto \<Rightarrow> ('a sales_db_scheme) \<Rightarrow> user_row option" where
  "linked_cashier tenant dto d =
     (case member_in tenant (cs_cashier dto) d of
        None \<Rightarrow> None | Some u \<Rightarrow> if us_branch u = Some (cs_branch dto) then Some u else None)"

definition linked_seller :: "id \<Rightarrow> create_sale_dto \<Rightarrow> ('a sales_db_scheme) \<Rightarrow> user_row option" where
  "linked_seller tenant dto d =
     (case member_in tenant (cs_seller dto) d of
        None \<Rightarrow> None
      | Some u \<Rightarrow> if us_branch u = Some (cs_branch dto) \<and> us_role u = Seller then Some u else None)"

definition linked_shift :: "id \<Rightarrow> create_sale_dto \<Rightarrow> ('a sales_db_scheme) \<Rightarrow> shift_row option" where
  "linked_shift tenant dto d =
     (case find (\<lambda>s. sh_id s = cs_shift dto \<and> sh_tenant s = tenant) (sd_shifts d) of
        None \<Rightarrow> None | Some s \<Rightarrow> if sh_branch s = cs_branch dto then Some s else None)"

text \<open>Warnings are a set of codes in insertion order.\<close>

definition warn :: "bool \<Rightarrow> string \<Rightarrow> string list \<Rightarrow> string list" where
  "warn c code codes = (if c \<and> code \<notin> set codes then codes @ [code] else codes)"

definition late_for_shift :: "int \<Rightarrow> shift_row option \<Rightarrow> bool" where
  "late_for_shift occurred shift =
     (case shift of
        None \<Rightarrow> False
      | Some s \<Rightarrow> sh_status s = ''closed'' \<or> occurred < sh_opened_at s
                \<or> (case sh_closed_at s of None \<Rightarrow> False | Some t \<Rightarrow> occurred > t))"

definition reference_warnings :: "user_row option \<Rightarrow> user_row option \<Rightarrow> shift_row option \<Rightarrow> int \<Rightarrow> string list" where
  "reference_warnings cashier seller shift occurred =
     warn (late_for_shift occurred shift) ''LATE_SYNC''
       (warn (shift = None) ''SHIFT_REFERENCE_MISSING''
         (warn (seller = None) ''SELLER_REFERENCE_MISSING''
           (warn (cashier = None) ''CASHIER_REFERENCE_MISSING'' [])))"

definition sequence_warnings :: "int \<Rightarrow> int \<Rightarrow> string list \<Rightarrow> string list" where
  "sequence_warnings sequence last_one codes =
     (if sequence > last_one + 1 then warn True ''SEQUENCE_GAP'' codes
      else warn (sequence \<le> last_one) ''OUT_OF_ORDER_SEQUENCE'' codes)"

section \<open>Lines priced, stock taken\<close>

definition sale_variants :: "id \<Rightarrow> sale_line list \<Rightarrow> ('a sales_db_scheme) \<Rightarrow> variant_row list result" where
  "sale_variants tenant lines d =
     (let ids = map sl_variant lines;
          found = filter (\<lambda>v. pv_id v \<in> set ids \<and> va_tenant v = tenant \<and> va_product_tenant v = tenant) (rt_variants d) in
      and_then (throw_if (length found \<noteq> length ids) (NotFound ''Variant not found'')) (\<lambda>_. Inr found))"

definition variant_by_id :: "variant_row list \<Rightarrow> id \<Rightarrow> variant_row" where
  "variant_by_id vs i = the (map_of (map (\<lambda>v. (pv_id v, v)) vs) i)"

definition sale_quotes :: "dec_lib \<Rightarrow> id \<Rightarrow> int \<Rightarrow> variant_row list \<Rightarrow> sale_line list \<Rightarrow> ('a sales_db_scheme) \<Rightarrow> (string \<times> price_quote) list result" where
  "sale_quotes L tenant now vs lines d =
     calculate_many L (load_active_rules tenant now (sd_prices d)) (load_active_code_index tenant (sd_tax_codes d))
       (map (\<lambda>l. \<lparr>ln_variant = priceable_variant.truncate (variant_by_id vs (sl_variant l)), ln_qty = sl_qty l\<rparr>) lines)"

definition price_differs :: "dec_lib \<Rightarrow> (string \<times> price_quote) list \<Rightarrow> sale_line \<Rightarrow> bool" where
  "price_differs L quotes l =
     (let q = the (map_of quotes (sl_variant l)) in
      \<not> (moneyq L (moneyq L (sl_price l)) = moneyq L (pq_net_price q) \<and> moneyq L (moneyq L (sl_tax l)) = moneyq L (pq_tax_amount q)))"

definition price_item :: "dec_lib \<Rightarrow> variant_row list \<Rightarrow> sale_line \<Rightarrow> priced_item" where
  "price_item L vs l =
     \<lparr>pi_variant = sl_variant l, pi_qty = sl_qty l, pi_price = moneyq L (sl_price l),
      pi_cost = moneyq L (pv_cost_price (variant_by_id vs (sl_variant l))), pi_tax = moneyq L (sl_tax l),
      pi_sku = trim (sl_sku l), pi_name_ar = trim (sl_name_ar l), pi_name_en = trimmed_or_null (sl_name_en l),
      pi_size = trimmed_or_null (sl_size l), pi_color = trimmed_or_null (sl_color l)\<rparr>"

definition items_subtotal :: "dec_lib \<Rightarrow> 'a priced_item_scheme list \<Rightarrow> rat" where
  "items_subtotal L items = sum_moneyq L (map (\<lambda>i. line_moneyq L (pi_price i) (pi_qty i)) items)"

definition items_tax :: "dec_lib \<Rightarrow> 'a priced_item_scheme list \<Rightarrow> rat" where
  "items_tax L items = sum_moneyq L (map (\<lambda>i. line_moneyq L (pi_tax i) (pi_qty i)) items)"

definition items_total :: "dec_lib \<Rightarrow> 'a priced_item_scheme list \<Rightarrow> rat" where
  "items_total L items = moneyq L (dec_plus L (items_subtotal L items) (items_tax L items))"

definition sell_item :: "id \<Rightarrow> id \<Rightarrow> int \<Rightarrow> priced_item \<Rightarrow> string list \<times> ('a sales_db_scheme) \<Rightarrow> (string list \<times> ('a sales_db_scheme)) result" where
  "sell_item tenant branch received item st =
     and_then (upsert_stock tenant branch (pi_variant item) (- pi_qty item) (Some received) (snd st)) (\<lambda>d.
     let short = (case stock d (branch, pi_variant item) of None \<Rightarrow> False | Some r \<Rightarrow> qty_on_hand r - qty_reserved r < 0) in
     Inr (warn short ''NEGATIVE_STOCK'' (fst st), d))"

section \<open>The documents\<close>

definition sale_customer :: "sale_call \<Rightarrow> id \<Rightarrow> string option \<Rightarrow> ('a sales_db_scheme) \<Rightarrow> (id option \<times> ('a sales_db_scheme)) result" where
  "sale_customer C tenant phone d =
     (if \<not> truthy phone then Inr (None, d)
      else case find (\<lambda>c. cu_phone c = phone \<and> cu_tenant c = tenant) (sd_customers d) of
        Some c \<Rightarrow> Inr (Some (cu_id c), d)
      | None \<Rightarrow>
          (let new = sv_uuid C 2 in
           and_then (throw_if (list_ex (\<lambda>c. cu_id c = new) (sd_customers d)) (JsError ''unique constraint failed'')) (\<lambda>_.
           Inr (Some new, d\<lparr>sd_customers := sd_customers d @
                  [\<lparr>cu_id = new, cu_tenant = tenant, cu_phone = phone, cu_invoices = 0, cu_spent = 0\<rparr>]\<rparr>))))"

definition number_items :: "sale_call \<Rightarrow> priced_item list \<Rightarrow> invoice_item list" where
  "number_items C items = map (\<lambda>(k, i). priced_item.extend i \<lparr>ii_id = sv_uuid C (3 + k)\<rparr>) (enumerate 0 items)"

definition item_columns_fit :: "invoice_item \<Rightarrow> bool" where
  "item_columns_fit i \<longleftrightarrow>
     int4 (pi_qty i) \<and> fits_numeric 12 2 (pi_price i) \<and> fits_numeric 12 2 (pi_cost i) \<and> fits_numeric 12 2 (pi_tax i)"

definition all_items :: "('a sales_db_scheme) \<Rightarrow> invoice_item list" where
  "all_items d = concat (map in_items (sd_invoices d))"

text \<open>
  The CHECK constraints of the table \<open>SalesInvoice\<close>: an invoice of a till names its terminal, shift, session, cashier and
  receiver, and carries a sequence number and the fingerprint of the command.
\<close>

definition is_hash_text :: "string \<Rightarrow> bool" where
  "is_hash_text s \<longleftrightarrow> length s = 64 \<and> list_all (\<lambda>c. c \<in> set ''0123456789abcdef'') s"

definition accounting_context_complete :: "invoice_row \<Rightarrow> bool" where
  "accounting_context_complete i \<longleftrightarrow>
     (in_sequence i = None \<and> in_shift i = None \<and> in_session i = None \<and> in_fingerprint i = None)
     \<or> (in_terminal i \<noteq> None \<and> in_sequence i \<noteq> None \<and> in_shift i \<noteq> None \<and> in_session i \<noteq> None \<and> in_cashier i \<noteq> None
        \<and> in_received_by i \<noteq> None \<and> in_fingerprint i \<noteq> None)"

definition invoice_checks :: "invoice_row \<Rightarrow> bool" where
  "invoice_checks i \<longleftrightarrow>
     (case in_sequence i of None \<Rightarrow> True | Some n \<Rightarrow> 0 < n)
     \<and> (case in_fingerprint i of None \<Rightarrow> True | Some f \<Rightarrow> is_hash_text f) \<and> accounting_context_complete i"

definition insert_invoice :: "invoice_row \<Rightarrow> ('a sales_db_scheme) \<Rightarrow> ('a sales_db_scheme) result" where
  "insert_invoice i d =
     and_then (throw_if (\<not> (fits_numeric 12 2 (in_subtotal i) \<and> fits_numeric 12 2 (in_tax i) \<and> fits_numeric 12 2 (in_total i)
                            \<and> list_all item_columns_fit (in_items i))) (JsError ''numeric field overflow'')) (\<lambda>_.
     and_then (throw_if (\<not> invoice_checks i) (JsError ''check constraint failed'')) (\<lambda>_.
     and_then (throw_if (list_ex (\<lambda>x. in_id x = in_id i \<or> (in_sync_id i \<noteq> None \<and> in_sync_id x = in_sync_id i)
                            \<or> (in_tenant x = in_tenant i \<and> in_number x = in_number i)
                            \<or> (in_terminal i \<noteq> None \<and> in_sequence i \<noteq> None \<and> in_terminal x = in_terminal i \<and> in_sequence x = in_sequence i))
                          (sd_invoices d)
                         \<or> \<not> distinct (map ii_id (in_items i))
                         \<or> list_ex (\<lambda>x. ii_id x \<in> ii_id ` set (in_items i)) (all_items d))
                (JsError ''unique constraint failed'')) (\<lambda>_.
     Inr (d\<lparr>sd_invoices := sd_invoices d @ [i]\<rparr>))))"

definition tax_line :: "dec_lib \<Rightarrow> (string \<times> price_quote) list \<Rightarrow> invoice_item \<Rightarrow> snapshot_line" where
  "tax_line L quotes i =
     (let t = pq_tax (the (map_of quotes (pi_variant i))) in
      \<lparr>sn_item = ii_id i,
       sn_tax = t\<lparr>tr_base := line_moneyq L (tr_base t) (pi_qty i), tr_tax := line_moneyq L (tr_tax t) (pi_qty i)\<rparr>\<rparr>)"

definition insert_snapshots :: "dec_lib \<Rightarrow> (string \<times> price_quote) list \<Rightarrow> invoice_row \<Rightarrow> ('a sales_db_scheme) \<Rightarrow> ('a sales_db_scheme) result" where
  "insert_snapshots L quotes i d =
     and_then (record_snapshots (in_tenant i) (in_id i) (map (tax_line L quotes) (in_items i))) (\<lambda>rows.
     and_then (throw_if (list_ex (\<lambda>r. \<not> (fits_numeric 12 2 (sr_base r) \<and> fits_numeric 12 2 (sr_tax r))) rows)
                (JsError ''numeric field overflow'')) (\<lambda>_.
     Inr (d\<lparr>sd_snapshots := sd_snapshots d @ rows\<rparr>)))"

definition sale_movement :: "invoice_row \<Rightarrow> id \<Rightarrow> invoice_item \<Rightarrow> movement_command" where
  "sale_movement i sync_id item =
     \<lparr>mc_branch = in_branch i, mc_variant = pi_variant item, mc_type = Sale_Movement,
      mc_on_hand_delta = - pi_qty item, mc_reserved_delta = 0, mc_reference_type = ''SalesInvoice'',
      mc_reference_id = in_id i, mc_reference_line = Some (ii_id item),
      mc_key = ''sale:'' @ sync_id @ '':'' @ pi_variant item, mc_occurred_at = in_occurred_at i,
      mc_created_by = in_cashier i\<rparr>"

definition sale_audit :: "id \<Rightarrow> id option \<Rightarrow> string \<Rightarrow> string \<Rightarrow> id \<Rightarrow> ('a sales_db_scheme) \<Rightarrow> ('a sales_db_scheme)" where
  "sale_audit tenant user action entity i d =
     d\<lparr>rt_audits := rt_audits d @ [\<lparr>au_tenant = tenant, au_user = user, au_action = action, au_entity = entity, au_entity_id = i\<rparr>]\<rparr>"

definition advance_terminal :: "id \<Rightarrow> int \<Rightarrow> int \<Rightarrow> ('a sales_db_scheme) \<Rightarrow> ('a sales_db_scheme)" where
  "advance_terminal i sequence last_one d =
     (if sequence > last_one
      then d\<lparr>sd_terminals := map (\<lambda>t. if pt_id t = i then t\<lparr>pt_last_sequence := sequence\<rparr> else t) (sd_terminals d)\<rparr>
      else d)"

text \<open>A sale that arrives after its shift was closed corrects the expected cash of the shift.\<close>

definition add_late_cash :: "rat \<Rightarrow> shift_row \<Rightarrow> shift_row" where
  "add_late_cash cash s =
     s\<lparr>sh_expected_cash := map_option (\<lambda>e. e + cash) (sh_expected_cash s),
       sh_difference := map_option (\<lambda>e. e - cash) (sh_difference s)\<rparr>"

definition shift_columns_fit :: "shift_row \<Rightarrow> bool" where
  "shift_columns_fit s \<longleftrightarrow>
     (case sh_expected_cash s of None \<Rightarrow> True | Some e \<Rightarrow> fits_numeric 12 2 e)
     \<and> (case sh_difference s of None \<Rightarrow> True | Some e \<Rightarrow> fits_numeric 12 2 e)"

definition reconcile_late_sale :: "invoice_row \<Rightarrow> string \<Rightarrow> shift_row option \<Rightarrow> ('a sales_db_scheme) \<Rightarrow> ('a sales_db_scheme) result" where
  "reconcile_late_sale i payment shift d =
     (case shift of
        None \<Rightarrow> Inr d
      | Some s \<Rightarrow>
          if sh_status s = ''closed'' \<and> payment = ''cash'' \<and> sh_expected_cash s \<noteq> None \<and> sh_difference s \<noteq> None then
            and_then (throw_if (\<not> shift_columns_fit (add_late_cash (in_total i) s)) (JsError ''numeric field overflow'')) (\<lambda>_.
            Inr (sale_audit (in_tenant i) (in_cashier i) ''shift.late_offline_sale.reconciled'' ''Shift'' (sh_id s)
                  (d\<lparr>sd_shifts := map (\<lambda>x. if sh_id x = sh_id s then add_late_cash (in_total i) x else x) (sd_shifts d)\<rparr>)))
          else Inr d)"

definition credit_customer :: "invoice_row \<Rightarrow> ('a sales_db_scheme) \<Rightarrow> ('a sales_db_scheme) result" where
  "credit_customer i d =
     (case in_customer i of
        None \<Rightarrow> Inr d
      | Some customer \<Rightarrow>
          (let new = map (\<lambda>c. if cu_id c = customer
                              then c\<lparr>cu_invoices := cu_invoices c + 1, cu_spent := cu_spent c + in_total i\<rparr> else c) (sd_customers d) in
           and_then (throw_if (list_ex (\<lambda>c. \<not> (int4 (cu_invoices c) \<and> fits_numeric 12 2 (cu_spent c))) new)
                      (JsError ''numeric field overflow'')) (\<lambda>_.
           Inr (d\<lparr>sd_customers := new\<rparr>))))"

section \<open>createSale\<close>

text \<open>What the handler has settled before it opens the transaction.\<close>

record sale_command_context =
  sx_tenant :: id
  sx_terminal :: id
  sx_occurred :: int
  sx_received :: int
  sx_sequence :: int
  sx_fingerprint :: string

definition sale_invoice ::
  "dec_lib \<Rightarrow> sale_call \<Rightarrow> sale_command_context \<Rightarrow> create_sale_dto \<Rightarrow> branch_row \<Rightarrow> string list \<Rightarrow> id option
   \<Rightarrow> user_row option \<Rightarrow> user_row option \<Rightarrow> shift_row option \<Rightarrow> priced_item list \<Rightarrow> invoice_row" where
  "sale_invoice L C x dto branch codes customer cashier seller shift items =
     \<lparr>in_id = sv_uuid C 0, in_tenant = sx_tenant x,
      in_number = ''B-'' @ br_code branch @ ''-'' @ int_string (sx_received x) @ ''-'' @ take 8 (sv_uuid C 1),
      in_version = cs_version dto, in_warnings = js_sort code_unit_compare codes, in_branch = cs_branch dto,
      in_customer = customer, in_cashier = map_option us_id cashier, in_cashier_name = trim (cs_cashier_name dto),
      in_seller = map_option us_id seller, in_seller_name = trim (cs_seller_name dto),
      in_received_by = map_option us_id cashier,
      in_terminal = Some (sx_terminal x), in_shift = map_option sh_id shift, in_session = Some (cs_session dto),
      in_sequence = Some (sx_sequence x), in_fingerprint = Some (sx_fingerprint x),
      in_occurred_at = sx_occurred x, in_received_at = sx_received x,
      in_subtotal = items_subtotal L items, in_tax = items_tax L items, in_total = items_total L items,
      in_payment = cs_payment dto, in_language = language_of dto, in_sync_id = Some (cs_sync_id dto),
      in_status = ''completed'', in_items = number_items C items\<rparr>"

definition finish_sale :: "sale_command_context \<Rightarrow> create_sale_dto \<Rightarrow> pos_terminal \<Rightarrow> shift_row option \<Rightarrow> invoice_row \<Rightarrow> ('a sales_db_scheme) \<Rightarrow> ('a sales_db_scheme) result" where
  "finish_sale x dto locked shift i d =
     (let d1 = advance_terminal (sx_terminal x) (sx_sequence x) (pt_last_sequence locked) d;
          action = (if in_warnings i \<noteq> [] then ''sale.accepted_with_warning'' else ''sale.accepted'');
          d2 = sale_audit (sx_tenant x) (in_cashier i) action ''SalesInvoice'' (in_id i) d1 in
      and_then (reconcile_late_sale i (cs_payment dto) shift d2) (credit_customer i))"

definition post_sale ::
  "dec_lib \<Rightarrow> sale_call \<Rightarrow> sale_command_context \<Rightarrow> create_sale_dto \<Rightarrow> pos_terminal \<Rightarrow> sale_line list \<Rightarrow> ('a sales_db_scheme)
   \<Rightarrow> (invoice_row \<times> ('a sales_db_scheme)) result" where
  "post_sale L C x dto locked lines d =
     (let tenant = sx_tenant x; cashier = linked_cashier tenant dto d; seller = linked_seller tenant dto d;
          shift = linked_shift tenant dto d in
      and_then (or_throw (find (\<lambda>b. br_id b = cs_branch dto \<and> br_tenant b = tenant) (rt_branches d)) (NotFound ''Branch not found'')) (\<lambda>branch.
      and_then (throw_if (list_ex (\<lambda>i. in_tenant i = tenant \<and> in_terminal i = Some (sx_terminal x) \<and> in_sequence i = Some (sx_sequence x)) (sd_invoices d))
                 (Conflict ''TERMINAL_SEQUENCE_CONFLICT'')) (\<lambda>_.
      and_then (sale_variants tenant lines d) (\<lambda>vs.
      and_then (sale_quotes L tenant (sx_received x) vs lines d) (\<lambda>quotes.
      let items = map (price_item L vs) lines;
          codes = warn (list_ex (price_differs L quotes) lines) ''PRICE_VARIANCE''
                    (sequence_warnings (sx_sequence x) (pt_last_sequence locked)
                      (reference_warnings cashier seller shift (sx_occurred x))) in
      and_then (throw_if (moneyq L (cs_local_total dto) \<noteq> moneyq L (items_total L items)) (Unprocessable ''LOCAL_TOTAL_MISMATCH'')) (\<lambda>_.
      and_then (fold_result (sell_item tenant (cs_branch dto) (sx_received x)) items (codes, d)) (\<lambda>sold.
      and_then (sale_customer C tenant (cs_phone dto) (snd sold)) (\<lambda>bought.
      let i = sale_invoice L C x dto branch (fst sold) (fst bought) cashier seller shift items in
      and_then (insert_invoice i (snd bought)) (\<lambda>d1.
      and_then (insert_snapshots L quotes i d1) (\<lambda>d2.
      and_then (fold_result (\<lambda>item. record_inventory_movement (sale_movement i (cs_sync_id dto) item)) (in_items i) d2) (\<lambda>d3.
      and_then (finish_sale x dto locked shift i d3) (\<lambda>d4.
      Inr (i, d4)))))))))))))"

definition sale_transaction ::
  "dec_lib \<Rightarrow> sale_call \<Rightarrow> sale_command_context \<Rightarrow> create_sale_dto \<Rightarrow> pos_terminal \<Rightarrow> sale_line list \<Rightarrow> ('a sales_db_scheme)
   \<Rightarrow> (invoice_row \<times> ('a sales_db_scheme)) result" where
  "sale_transaction L C x dto terminal lines d =
     and_then (lock_terminal terminal dto d) (\<lambda>locked.
     case find_sale (sx_tenant x) (cs_sync_id dto) d of
       Some existing \<Rightarrow>
         and_then (throw_if (\<not> same_accounting_context dto (pt_id terminal) (sx_sequence x) (sx_fingerprint x) existing)
                    (Conflict ''SALE_IDEMPOTENCY_CONTEXT_CONFLICT'')) (\<lambda>_. Inr (existing, d))
     | None \<Rightarrow> post_sale L C x dto locked lines d)"

definition sale_context :: "dec_lib \<Rightarrow> sale_host \<Rightarrow> sale_call \<Rightarrow> create_sale_dto \<Rightarrow> pos_terminal \<Rightarrow> (sale_command_context \<times> sale_line list) result" where
  "sale_context L H C dto terminal =
     and_then (throw_if (pt_branch terminal \<noteq> cs_branch dto) (Forbidden ''The terminal is not assigned to the sale branch'')) (\<lambda>_.
     and_then (device_tenant terminal) (\<lambda>tenant.
     let occurred = so_date H (cs_occurred_at dto); sequence = int (digits_val (cs_sequence dto)) in
     and_then (throw_if (sequence < 1 \<or> sequence > 9223372036854775807)
                (BadRequest ''terminal_sequence exceeds PostgreSQL BIGINT range'')) (\<lambda>_.
     and_then (normalize_lines L (cs_items dto)) (\<lambda>lines.
     Inr (\<lparr>sx_tenant = tenant, sx_terminal = pt_id terminal, sx_occurred = occurred, sx_received = sv_now C,
           sx_sequence = sequence, sx_fingerprint = sale_fingerprint L H dto (pt_id terminal) occurred lines\<rparr>, lines)))))"

definition create_sale ::
  "dec_lib \<Rightarrow> sale_host \<Rightarrow> sale_call \<Rightarrow> create_sale_dto \<Rightarrow> pos_terminal \<Rightarrow> ('a sales_db_scheme)
   \<Rightarrow> (invoice_row \<times> ('a sales_db_scheme)) result" where
  "create_sale L H C dto terminal d =
     and_then (sale_context L H C dto terminal) (\<lambda>x. sale_transaction L C (fst x) dto terminal (snd x) d)"

section \<open>createReturn\<close>

definition add_requested :: "id \<times> int \<Rightarrow> (id \<times> int) list \<Rightarrow> (id \<times> int) list" where
  "add_requested item requested =
     AList.update (fst item) ((case map_of requested (fst item) of None \<Rightarrow> 0 | Some q \<Rightarrow> q) + snd item) requested"

definition requested_units :: "create_return_dto \<Rightarrow> (id \<times> int) list" where
  "requested_units dto = fold add_requested (cr_items dto) []"

text \<open>The shift the return belongs to: the open one of the branch, unless the owner returns.\<close>

definition return_shift :: "id \<Rightarrow> actor \<Rightarrow> invoice_row \<Rightarrow> ('a sales_db_scheme) \<Rightarrow> id option result" where
  "return_shift tenant user original d =
     (if ac_role user = Owner then Inr None
      else and_then (or_throw (find (\<lambda>s. sh_tenant s = tenant \<and> sh_branch s = in_branch original \<and> sh_status s = ''open'') (sd_shifts d))
                      (Conflict ''An open shift is required to record a POS return'')) (\<lambda>s. Inr (Some (sh_id s))))"

definition already_returned :: "id \<Rightarrow> id \<Rightarrow> ('a sales_db_scheme) \<Rightarrow> int" where
  "already_returned tenant item d =
     (\<Sum>r\<leftarrow>filter (\<lambda>r. re_tenant r = tenant \<and> re_status r = ''completed'') (sd_returns d).
        \<Sum>x\<leftarrow>filter (\<lambda>x. ri_sale_item x = item) (re_items r). ri_qty_back x)"

definition unit_tax_back :: "dec_lib \<Rightarrow> invoice_row \<Rightarrow> invoice_item \<Rightarrow> rat" where
  "unit_tax_back L original item =
     (let unit_tax = moneyq L (pi_tax item) in
      if unit_tax = 0 \<and> in_subtotal original > 0
      then moneyq L (dec_div L (dec_mul L (pi_price item) (in_tax original)) (in_subtotal original))
      else unit_tax)"

definition return_item_of :: "dec_lib \<Rightarrow> id \<Rightarrow> invoice_row \<Rightarrow> ('a sales_db_scheme) \<Rightarrow> id \<times> int \<Rightarrow> return_item result" where
  "return_item_of L tenant original d request =
     (let item = fst request; qty = snd request in
      and_then (or_throw (find (\<lambda>i. ii_id i = item) (in_items original))
                 (BadRequest ''Item does not belong to the original invoice'')) (\<lambda>sold.
      and_then (throw_if (qty > pi_qty sold - already_returned tenant item d)
                 (Conflict ''Fewer units remain returnable for the item'')) (\<lambda>_.
      Inr \<lparr>ri_id = [], ri_sale_item = item, ri_variant_id = pi_variant sold, ri_qty_back = qty,
           ri_price = moneyq L (pi_price sold), ri_cost = moneyq L (pi_cost sold), ri_tax = unit_tax_back L original sold\<rparr>)))"

definition refund_subtotal :: "dec_lib \<Rightarrow> return_item list \<Rightarrow> rat" where
  "refund_subtotal L items = sum_moneyq L (map (\<lambda>i. line_moneyq L (ri_price i) (ri_qty_back i)) items)"

definition refund_tax :: "dec_lib \<Rightarrow> return_item list \<Rightarrow> rat" where
  "refund_tax L items = sum_moneyq L (map (\<lambda>i. line_moneyq L (ri_tax i) (ri_qty_back i)) items)"

definition return_of ::
  "dec_lib \<Rightarrow> sale_call \<Rightarrow> id \<Rightarrow> actor \<Rightarrow> create_return_dto \<Rightarrow> invoice_row \<Rightarrow> id option \<Rightarrow> return_item list \<Rightarrow> return_row" where
  "return_of L C tenant user dto original shift items =
     \<lparr>re_id = sv_uuid C 0, re_tenant = tenant, re_invoice = in_id original, re_branch = in_branch original,
      re_shift = shift, re_number = ''R-'' @ int_string (sv_now C) @ ''-'' @ take 8 (sv_uuid C 1),
      re_reason = cr_reason dto,
      re_partial = ((\<Sum>i\<leftarrow>items. ri_qty_back i) < (\<Sum>i\<leftarrow>in_items original. pi_qty i)),
      re_created_by = ac_sub user, re_subtotal = refund_subtotal L items, re_tax = refund_tax L items,
      re_total = moneyq L (dec_plus L (refund_subtotal L items) (refund_tax L items)),
      re_status = ''completed'', re_created_at = sv_now C,
      re_items = map (\<lambda>(k, i). i\<lparr>ri_id := sv_uuid C (2 + k)\<rparr>) (enumerate 0 items)\<rparr>"

definition insert_return :: "return_row \<Rightarrow> ('a sales_db_scheme) \<Rightarrow> ('a sales_db_scheme) result" where
  "insert_return r d =
     and_then (throw_if (\<not> (fits_numeric 12 2 (re_subtotal r) \<and> fits_numeric 12 2 (re_tax r) \<and> fits_numeric 12 2 (re_total r)))
                (JsError ''numeric field overflow'')) (\<lambda>_.
     and_then (throw_if (list_ex (\<lambda>i. \<not> (0 < ri_qty_back i \<and> int4 (ri_qty_back i))) (re_items r)) (JsError ''check constraint failed'')) (\<lambda>_.
     and_then (throw_if (list_ex (\<lambda>x. re_id x = re_id r \<or> (re_tenant x = re_tenant r \<and> re_number x = re_number r)) (sd_returns d)
                         \<or> \<not> distinct (map ri_id (re_items r))
                         \<or> list_ex (\<lambda>x. list_ex (\<lambda>y. ri_id y \<in> ri_id ` set (re_items r)) (re_items x)) (sd_returns d))
                (JsError ''unique constraint failed'')) (\<lambda>_.
     Inr (d\<lparr>sd_returns := sd_returns d @ [r]\<rparr>))))"

definition count_return :: "return_item \<Rightarrow> variant_row \<Rightarrow> variant_row" where
  "count_return i v = (if pv_id v = ri_variant_id i then v\<lparr>va_return_count := va_return_count v + ri_qty_back i\<rparr> else v)"

definition restock_item :: "id \<Rightarrow> id \<Rightarrow> return_item \<Rightarrow> ('a sales_db_scheme) \<Rightarrow> ('a sales_db_scheme) result" where
  "restock_item tenant branch i d =
     and_then (upsert_stock tenant branch (ri_variant_id i) (ri_qty_back i) None d) (\<lambda>d1.
     let vs = map (count_return i) (rt_variants d1) in
     and_then (throw_if (list_ex (\<lambda>v. \<not> int4 (va_return_count v)) vs) (JsError ''integer out of range'')) (\<lambda>_.
     Inr (d1\<lparr>rt_variants := vs\<rparr>)))"

definition flag_variants :: "return_item list \<Rightarrow> ('a sales_db_scheme) \<Rightarrow> ('a sales_db_scheme)" where
  "flag_variants items d =
     d\<lparr>rt_variants := map (\<lambda>v. if pv_id v \<in> ri_variant_id ` set items \<and> va_return_count v \<ge> 3 then v\<lparr>va_qa_flag := True\<rparr> else v) (rt_variants d)\<rparr>"

definition debit_customer :: "dec_lib \<Rightarrow> id \<Rightarrow> id option \<Rightarrow> rat \<Rightarrow> ('a sales_db_scheme) \<Rightarrow> ('a sales_db_scheme)" where
  "debit_customer L tenant customer refund d =
     (case customer of
        None \<Rightarrow> d
      | Some i \<Rightarrow>
          (case find (\<lambda>c. cu_tenant c = tenant \<and> cu_id c = i) (sd_customers d) of
             None \<Rightarrow> d
           | Some c \<Rightarrow> d\<lparr>sd_customers := map (\<lambda>x. if cu_id x = i then x\<lparr>cu_spent := max 0 (dec_minus L (cu_spent c) refund)\<rparr> else x) (sd_customers d)\<rparr>))"

subsection \<open>The triggers of a return, at its commit\<close>

definition return_movement :: "return_row \<Rightarrow> return_item \<Rightarrow> movement_command" where
  "return_movement r i =
     \<lparr>mc_branch = re_branch r, mc_variant = ri_variant_id i, mc_type = Return_Movement, mc_on_hand_delta = ri_qty_back i,
      mc_reserved_delta = 0, mc_reference_type = ''Return'', mc_reference_id = re_id r, mc_reference_line = Some (ri_id i),
      mc_key = ''return:'' @ ri_id i, mc_occurred_at = re_created_at r, mc_created_by = Some (re_created_by r)\<rparr>"

definition return_cost :: "return_row \<Rightarrow> id \<Rightarrow> cost_command" where
  "return_cost r v =
     (let items = filter (\<lambda>i. ri_variant_id i = v) (re_items r) in
      \<lparr>cc_variant = v, cc_branch = re_branch r, cc_type = Cost_Customer_Return, cc_delta = (\<Sum>i\<leftarrow>items. ri_qty_back i),
       cc_value = round_places 2 (\<Sum>i\<leftarrow>items. ri_cost i * of_int (ri_qty_back i)), cc_reference_type = ''Return'',
       cc_reference_id = re_id r, cc_reference_line = Some v, cc_purchase = None, cc_purchase_item = None,
       cc_supplier_return = None, cc_supplier_return_item = None,
       cc_key = ''customer-return-cost:'' @ re_id r @ '':'' @ v, cc_occurred_at = re_created_at r,
       cc_created_by = Some (re_created_by r), cc_restore_cost = None\<rparr>)"

definition record_return_costs :: "quotient \<Rightarrow> return_row \<Rightarrow> ('a sales_db_scheme) \<Rightarrow> ('a sales_db_scheme) result" where
  "record_return_costs q r d =
     (if re_status r \<noteq> ''completed''
         \<or> list_ex (\<lambda>m. cm_type m = Cost_Customer_Return \<and> cm_reference_type m = ''Return'' \<and> cm_reference_id m = re_id r) (rt_costs d)
      then Inr d
      else fold_result (\<lambda>v s. and_then (record_inventory_cost_movement q (return_cost r v) s) (\<lambda>x. Inr (snd x)))
             (js_sort code_unit_compare (remdups (map ri_variant_id (re_items r)))) d)"

definition commit_return :: "quotient \<Rightarrow> return_row \<Rightarrow> ('a sales_db_scheme) \<Rightarrow> ('a sales_db_scheme) result" where
  "commit_return q r d =
     fold_result (\<lambda>i s. and_then (record_return_costs q r s) (record_inventory_movement (return_movement r i))) (re_items r) d"

definition return_window_ms :: int where
  "return_window_ms = 14 * 86400000"

definition create_return ::
  "dec_lib \<Rightarrow> quotient \<Rightarrow> sale_call \<Rightarrow> id \<Rightarrow> actor \<Rightarrow> create_return_dto \<Rightarrow> ('a sales_db_scheme)
   \<Rightarrow> (return_row \<times> ('a sales_db_scheme)) result" where
  "create_return L q C tenant user dto d =
     (let requested = requested_units dto in
      and_then (or_throw (find (\<lambda>i. in_tenant i = tenant \<and> in_id i = cr_invoice dto) (sd_invoices d)) (NotFound ''Original invoice not found'')) (\<lambda>original.
      and_then (throw_if (ac_role user \<noteq> Owner \<and> ac_branch user \<noteq> Some (in_branch original))
                 (Forbidden ''You cannot return a sale from another branch'')) (\<lambda>_.
      and_then (return_shift tenant user original d) (\<lambda>shift.
      and_then (throw_if (sv_now C - in_occurred_at original > return_window_ms) (BadRequest ''Return window expired (14 days)'')) (\<lambda>_.
      and_then (map_result (return_item_of L tenant original d) requested) (\<lambda>items.
      let r = return_of L C tenant user dto original shift items in
      and_then (insert_return r d) (\<lambda>d1.
      and_then (fold_result (restock_item tenant (in_branch original)) items d1) (\<lambda>d2.
      let d3 = debit_customer L tenant (in_customer original) (re_total r) (flag_variants items d2) in
      and_then (commit_return q r d3) (\<lambda>d4.
      Inr (r, d4))))))))))"

end
