(* ===== verification/Shifts.thy ===== *)
theory Shifts
  imports Sales
begin

text \<open>
  \<open>backend/src/shifts\<close>: the cash shifts of a branch. Opening is one transaction under a lock of the
  branch. Closing is not a transaction: it reads the shift, then the two cash sums, and then updates
  the shift if it is still open. These are separate definitions, so that other handlers can
  run in between; \<open>close_shift\<close> is all of them, with nothing in between.
\<close>

section \<open>Reading shifts (shifts.repository.ts)\<close>

definition find_shift :: "id \<Rightarrow> id \<Rightarrow> ('a sales_db_scheme) \<Rightarrow> shift_row option" where
  "find_shift tenant i d = find (\<lambda>s. sh_id s = i \<and> sh_tenant s = tenant) (sd_shifts d)"

definition find_open_shift :: "id \<Rightarrow> id \<Rightarrow> ('a sales_db_scheme) \<Rightarrow> shift_row option" where
  "find_open_shift tenant branch d =
     find (\<lambda>s. sh_tenant s = tenant \<and> sh_branch s = branch \<and> sh_status s = ''open'') (sd_shifts d)"

definition list_shifts :: "id \<Rightarrow> string option \<Rightarrow> ('a sales_db_scheme) \<Rightarrow> shift_row list" where
  "list_shifts tenant branch d =
     take 50 (js_sort (\<lambda>x y. sh_opened_at y - sh_opened_at x)
       (filter (\<lambda>s. sh_tenant s = tenant \<and> (truthy branch \<longrightarrow> branch = Some (sh_branch s))) (sd_shifts d)))"

definition sum_cash_sales :: "id \<Rightarrow> id \<Rightarrow> ('a sales_db_scheme) \<Rightarrow> rat" where
  "sum_cash_sales tenant shift d =
     (\<Sum>i\<leftarrow>filter (\<lambda>i. in_tenant i = tenant \<and> in_shift i = Some shift \<and> in_status i = ''completed'' \<and> in_payment i = ''cash'')
             (sd_invoices d). in_total i)"

definition paid_in_cash :: "id \<Rightarrow> id \<Rightarrow> ('a sales_db_scheme) \<Rightarrow> bool" where
  "paid_in_cash tenant invoice d =
     list_ex (\<lambda>i. in_id i = invoice \<and> in_tenant i = tenant \<and> in_payment i = ''cash'') (sd_invoices d)"

definition sum_cash_returns :: "id \<Rightarrow> id \<Rightarrow> ('a sales_db_scheme) \<Rightarrow> rat" where
  "sum_cash_returns tenant shift d =
     (\<Sum>r\<leftarrow>filter (\<lambda>r. re_tenant r = tenant \<and> re_shift r = Some shift \<and> re_status r = ''completed''
                     \<and> paid_in_cash tenant (re_invoice r) d) (sd_returns d). re_total r)"

section \<open>Opening\<close>

definition save_shift :: "shift_row \<Rightarrow> ('a sales_db_scheme) \<Rightarrow> ('a sales_db_scheme) result" where
  "save_shift s d =
     and_then (throw_if (list_ex (\<lambda>x. sh_id x = sh_id s) (sd_shifts d)) (JsError ''unique constraint failed'')) (\<lambda>_.
     and_then (throw_if (\<not> fits_numeric 12 2 (sh_opening_cash s)) (JsError ''numeric field overflow'')) (\<lambda>_.
     Inr (d\<lparr>sd_shifts := sd_shifts d @ [s]\<rparr>)))"

definition open_shift ::
  "sale_call \<Rightarrow> id \<Rightarrow> id \<Rightarrow> actor \<Rightarrow> rat \<Rightarrow> ('a sales_db_scheme) \<Rightarrow> (shift_row \<times> ('a sales_db_scheme)) result" where
  "open_shift C tenant branch user opening_cash d =
     and_then (assert_branch_access user branch [Owner]) (\<lambda>_.
     and_then (throw_if (\<not> list_ex (\<lambda>b. br_id b = branch \<and> br_tenant b = tenant \<and> br_active b) (rt_branches d))
                (NotFound ''Active branch not found'')) (\<lambda>_.
     case find_open_shift tenant branch d of
       Some existing \<Rightarrow> Inr (existing, d)
     | None \<Rightarrow>
         (let s = \<lparr>sh_id = sv_uuid C 0, sh_tenant = tenant, sh_branch = branch, sh_opened_by = ac_sub user,
                   sh_closed_by = None, sh_opening_cash = round_places 2 opening_cash, sh_closing_cash = None,
                   sh_expected_cash = None, sh_difference = None, sh_opened_at = sv_now C,
                   sh_closed_at = None, sh_status = ''open''\<rparr> in
          and_then (save_shift s d) (\<lambda>d1. Inr (s, d1)))))"

section \<open>Closing\<close>

definition require_resource_id :: "(string \<Rightarrow> bool) \<Rightarrow> string \<Rightarrow> string result" where
  "require_resource_id is_uuid value =
     (let normalized = trim value in
      and_then (throw_if (normalized = [] \<or> \<not> is_uuid normalized) (BadRequest ''RESOURCE_ID_INVALID'')) (\<lambda>_. Inr normalized))"

record shift_closing =
  sg_id :: id
  sg_by :: id
  sg_cash :: rat
  sg_expected :: rat
  sg_difference :: rat
  sg_at :: int

text \<open>
  The handler reads the shift, then the two sums in statements of their own, and computes what it is
  going to write.
\<close>

definition close_shift_check ::
  "(string \<Rightarrow> bool) \<Rightarrow> id \<Rightarrow> string \<Rightarrow> actor \<Rightarrow> ('a sales_db_scheme) \<Rightarrow> shift_row result" where
  "close_shift_check is_uuid tenant i user d =
     and_then (require_resource_id is_uuid i) (\<lambda>shift_id.
     and_then (or_throw (find_shift tenant shift_id d) (NotFound ''Shift not found'')) (\<lambda>shift.
     and_then (assert_branch_access user (sh_branch shift) [Owner]) (\<lambda>_.
     and_then (throw_if (sh_status shift \<noteq> ''open'') (Conflict ''Shift is not open'')) (\<lambda>_. Inr shift))))"

definition closing_of :: "dec_lib \<Rightarrow> actor \<Rightarrow> int \<Rightarrow> rat \<Rightarrow> shift_row \<Rightarrow> rat \<Rightarrow> rat \<Rightarrow> shift_closing" where
  "closing_of L user now closing_cash shift cash_sales cash_returns =
     (let expected = dec_places L 2 (dec_minus L (dec_plus L (sh_opening_cash shift) cash_sales) cash_returns) in
      \<lparr>sg_id = sh_id shift, sg_by = ac_sub user, sg_cash = closing_cash, sg_expected = expected,
       sg_difference = dec_places L 2 (dec_minus L closing_cash expected), sg_at = now\<rparr>)"

text \<open>All that a closing reads, at one moment.\<close>

definition close_shift_read ::
  "dec_lib \<Rightarrow> (string \<Rightarrow> bool) \<Rightarrow> sale_call \<Rightarrow> id \<Rightarrow> string \<Rightarrow> actor \<Rightarrow> rat \<Rightarrow> ('a sales_db_scheme) \<Rightarrow> shift_closing result" where
  "close_shift_read L is_uuid C tenant i user closing_cash d =
     and_then (close_shift_check is_uuid tenant i user d) (\<lambda>shift.
     Inr (closing_of L user (sv_now C) closing_cash shift (sum_cash_sales tenant (sh_id shift) d) (sum_cash_returns tenant (sh_id shift) d)))"

definition closed_with :: "shift_closing \<Rightarrow> shift_row \<Rightarrow> shift_row" where
  "closed_with g s =
     s\<lparr>sh_closed_by := Some (sg_by g), sh_closing_cash := Some (round_places 2 (sg_cash g)),
       sh_expected_cash := Some (sg_expected g), sh_difference := Some (sg_difference g),
       sh_closed_at := Some (sg_at g), sh_status := ''closed''\<rparr>"

text \<open>\<open>updateMany \<dots> WHERE "status" = 'open'\<close>: the number of rows it changed, and the new state.\<close>

definition close_if_open :: "id \<Rightarrow> shift_closing \<Rightarrow> ('a sales_db_scheme) \<Rightarrow> nat \<times> ('a sales_db_scheme)" where
  "close_if_open tenant g d =
     (let hit = (\<lambda>s. sh_id s = sg_id g \<and> sh_tenant s = tenant \<and> sh_status s = ''open'') in
      (length (filter hit (sd_shifts d)),
       d\<lparr>sd_shifts := map (\<lambda>s. if hit s then closed_with g s else s) (sd_shifts d)\<rparr>))"

definition close_shift_write :: "id \<Rightarrow> shift_closing \<Rightarrow> ('a sales_db_scheme) \<Rightarrow> (shift_row option \<times> ('a sales_db_scheme)) result" where
  "close_shift_write tenant g d =
     and_then (throw_if (\<not> (fits_numeric 12 2 (sg_cash g) \<and> fits_numeric 12 2 (sg_expected g) \<and> fits_numeric 12 2 (sg_difference g)))
                (JsError ''numeric field overflow'')) (\<lambda>_.
     let (changed, d1) = close_if_open tenant g d in
     and_then (throw_if (changed \<noteq> 1) (Conflict ''Shift was already closed'')) (\<lambda>_.
     Inr (find_shift tenant (sg_id g) d1, d1)))"

definition close_shift ::
  "dec_lib \<Rightarrow> (string \<Rightarrow> bool) \<Rightarrow> sale_call \<Rightarrow> id \<Rightarrow> string \<Rightarrow> actor \<Rightarrow> rat \<Rightarrow> ('a sales_db_scheme)
   \<Rightarrow> (shift_row option \<times> ('a sales_db_scheme)) result" where
  "close_shift L is_uuid C tenant i user closing_cash d =
     and_then (close_shift_read L is_uuid C tenant i user closing_cash d) (\<lambda>g. close_shift_write tenant g d)"

section \<open>The offline context of a till\<close>

record offline_context =
  oc_version :: int
  oc_session :: id
  oc_user :: id
  oc_role :: role
  oc_branch :: id
  oc_terminal :: id
  oc_shift :: id
  oc_issued_at :: string
  oc_expires_at :: string
  oc_last_sequence :: string

text \<open>\<open>Number(process.env.POS_OFFLINE_CONTEXT_TTL_MS || 24 * 60 * 60 * 1000)\<close>, if it is at least a quarter of an hour.\<close>

definition context_ttl_ms :: "number_text \<Rightarrow> string option \<Rightarrow> int" where
  "context_ttl_ms T setting =
     (case (if truthy setting then integer_number (number_of T (String (the setting))) else None) of
        None \<Rightarrow> 86400000 | Some ttl \<Rightarrow> if ttl \<ge> 900000 then ttl else 86400000)"

definition issue_offline_context ::
  "(string \<Rightarrow> bool) \<Rightarrow> sale_host \<Rightarrow> sale_call \<Rightarrow> string option \<Rightarrow> id \<Rightarrow> string \<Rightarrow> actor \<Rightarrow> pos_terminal \<Rightarrow> ('a sales_db_scheme)
   \<Rightarrow> offline_context result" where
  "issue_offline_context is_uuid H C setting tenant i user terminal d =
     and_then (require_resource_id is_uuid i) (\<lambda>shift_id.
     and_then (throw_if (ac_role user \<noteq> Cashier \<and> ac_role user \<noteq> Branch_Manager)
                (Forbidden ''Only POS cashiers and branch managers can receive an offline accounting context'')) (\<lambda>_.
     and_then (or_throw (find_shift tenant shift_id d) (NotFound ''Shift not found'')) (\<lambda>shift.
     and_then (throw_if (sh_status shift \<noteq> ''open'' \<or> sh_closed_at shift \<noteq> None)
                (Conflict ''Offline accounting context requires an open shift'')) (\<lambda>_.
     and_then (throw_if (ac_branch user \<noteq> Some (sh_branch shift) \<or> pt_branch terminal \<noteq> sh_branch shift)
                (Forbidden ''The cashier, terminal and shift must belong to the same branch'')) (\<lambda>_.
     let now = sv_now C in
     Inr \<lparr>oc_version = 2, oc_session = sv_uuid C 0, oc_user = ac_sub user, oc_role = ac_role user,
          oc_branch = sh_branch shift, oc_terminal = pt_id terminal, oc_shift = sh_id shift,
          oc_issued_at = so_iso H now, oc_expires_at = so_iso H (now + context_ttl_ms (so_text H) setting),
          oc_last_sequence = int_string (pt_last_sequence terminal)\<rparr>)))))"

end
