(* ===== verification/Sales_Correct.thy ===== *)
theory Sales_Correct
  imports Shifts
begin

text \<open>
  What holds of sales, returns and shifts whatever handlers run: the stock ledger and the cost ledger
  stay consistent, no more units come back than were sold, a repeated upload changes nothing, and a
  closed shift accounts for its cash, but for what is committed while it is being closed.
\<close>

section \<open>What the steps of a handler leave alone\<close>

text \<open>The tables the invariants are about, but for stock, movements and the one a step writes.\<close>

definition same_tables :: "('a sales_db_scheme) \<Rightarrow> ('a sales_db_scheme) \<Rightarrow> bool" where
  "same_tables d d' \<longleftrightarrow>
     rt_branches d' = rt_branches d \<and> rt_in_transit d' = rt_in_transit d \<and> rt_variants d' = rt_variants d
     \<and> rt_costs d' = rt_costs d \<and> sd_terminals d' = sd_terminals d \<and> sd_shifts d' = sd_shifts d
     \<and> sd_invoices d' = sd_invoices d \<and> sd_returns d' = sd_returns d"

lemma same_tables_refl [simp]: "same_tables d d"
  by (simp add: same_tables_def)

lemma same_tables_trans [trans]: "same_tables d d' \<Longrightarrow> same_tables d' d'' \<Longrightarrow> same_tables d d''"
  by (simp add: same_tables_def)

lemma same_tables_updates [simp]:
  "same_tables d (d\<lparr>stock := st\<rparr>)" "same_tables d (d\<lparr>movements := ms\<rparr>)" "same_tables d (d\<lparr>sd_customers := cs\<rparr>)"
  "same_tables d (d\<lparr>sd_snapshots := ss\<rparr>)" "same_tables d (d\<lparr>rt_audits := as\<rparr>)"
  by (simp_all add: same_tables_def)

lemma same_tables_upsert: "upsert_stock t b v q s d = Inr d' \<Longrightarrow> same_tables d d'"
  using upsert_keeps by fastforce

section \<open>A sale, step by step\<close>

definition sold_keys :: "id \<Rightarrow> 'a priced_item_scheme list \<Rightarrow> (id \<times> id) set" where
  "sold_keys branch items = (\<lambda>i. (branch, pi_variant i)) ` set items"

lemma sell_item_effect:
  assumes "sell_item t b now i st = Inr st'" and "pending (snd st) P"
  shows "pending (snd st') (insert (b, pi_variant i) P) \<and> same_tables (snd st) (snd st')"
proof -
  from assms(1) have "upsert_stock t b (pi_variant i) (- pi_qty i) (Some now) (snd st) = Inr (snd st')"
    by (auto simp: sell_item_def Let_def result_simps)
  then show ?thesis using pending_upsert [OF assms(2)] same_tables_upsert by blast
qed

lemma sell_loop:
  assumes "fold_result (sell_item t b now) items st = Inr st'" and "pending (snd st) P"
  shows "pending (snd st') (P \<union> sold_keys b items) \<and> same_tables (snd st) (snd st')"
  using assms
proof (induction items arbitrary: st P)
  case (Cons i items)
  from Cons.prems(1) obtain st1 where s: "sell_item t b now i st = Inr st1"
    and r: "fold_result (sell_item t b now) items st1 = Inr st'" by (auto simp: result_simps)
  note e = sell_item_effect [OF s Cons.prems(2)]
  have k: "P \<union> sold_keys b (i # items) = insert (b, pi_variant i) P \<union> sold_keys b items" by (auto simp: sold_keys_def)
  show ?case unfolding k using Cons.IH [OF r, of "insert (b, pi_variant i) P"] e by (blast intro: same_tables_trans)
qed (simp add: sold_keys_def)

lemma sale_customer_effect:
  assumes "sale_customer C tenant phone d = Inr (c, d')"
  shows "same_tables d d' \<and> stock d' = stock d \<and> movements d' = movements d"
  using assms by (auto simp: sale_customer_def Let_def result_simps split: if_splits option.splits)

lemma number_items_fields:
  assumes "\<And>i j. f (priced_item.extend i \<lparr>ii_id = j\<rparr>) = g i"
  shows "map f (number_items C items) = map g items"
proof -
  have "map f (map (\<lambda>(k, i). priced_item.extend i \<lparr>ii_id = sv_uuid C (3 + k)\<rparr>) (enumerate n items)) = map g items" for n
    by (induction items arbitrary: n) (simp_all add: assms)
  then show ?thesis by (simp add: number_items_def)
qed

lemma number_items_same [simp]:
  "map pi_variant (number_items C items) = map pi_variant items"
  "map pi_qty (number_items C items) = map pi_qty items"
  by (rule number_items_fields; simp add: priced_item.defs)+

lemma number_items_sums:
  "items_subtotal L (number_items C items) = items_subtotal L items"
  "items_tax L (number_items C items) = items_tax L items"
  "items_total L (number_items C items) = items_total L items"
proof -
  have "map (\<lambda>i. line_moneyq L (pi_price i) (pi_qty i)) (number_items C items) = map (\<lambda>i. line_moneyq L (pi_price i) (pi_qty i)) items"
    "map (\<lambda>i. line_moneyq L (pi_tax i) (pi_qty i)) (number_items C items) = map (\<lambda>i. line_moneyq L (pi_tax i) (pi_qty i)) items"
    by (rule number_items_fields; simp add: priced_item.defs)+
  then show "items_subtotal L (number_items C items) = items_subtotal L items" "items_tax L (number_items C items) = items_tax L items"
    by (simp_all add: items_subtotal_def items_tax_def)
  then show "items_total L (number_items C items) = items_total L items" by (simp add: items_total_def)
qed

lemma sold_keys_map: "sold_keys b xs = (\<lambda>v. (b, v)) ` set (map pi_variant xs)"
  by (auto simp: sold_keys_def)

lemma sold_keys_number [simp]: "sold_keys b (number_items C items) = sold_keys b items"
  by (simp only: sold_keys_map number_items_same)

text \<open>What a posted sale consists of.\<close>

lemma post_saleE:
  assumes "post_sale L C x dto locked lines d = Inr (i, d')"
  obtains branch vs quotes sold bought d1 d2 d3 where
    "find (\<lambda>b. br_id b = cs_branch dto \<and> br_tenant b = sx_tenant x) (rt_branches d) = Some branch"
    and "sale_variants (sx_tenant x) lines d = Inr vs"
    and "sale_quotes L (sx_tenant x) (sx_received x) vs lines d = Inr quotes"
    and "moneyq L (cs_local_total dto) = moneyq L (items_total L (map (price_item L vs) lines))"
    and "\<exists>codes. fold_result (sell_item (sx_tenant x) (cs_branch dto) (sx_received x)) (map (price_item L vs) lines) (codes, d) = Inr sold"
    and "sale_customer C (sx_tenant x) (cs_phone dto) (snd sold) = Inr bought"
    and "i = sale_invoice L C x dto branch (fst sold) (fst bought) (linked_cashier (sx_tenant x) dto d)
               (linked_seller (sx_tenant x) dto d) (linked_shift (sx_tenant x) dto d) (map (price_item L vs) lines)"
    and "insert_invoice i (snd bought) = Inr d1" and "insert_snapshots L quotes i d1 = Inr d2"
    and "fold_result (\<lambda>item. record_inventory_movement (sale_movement i (cs_sync_id dto) item)) (in_items i) d2 = Inr d3"
    and "finish_sale x dto locked (linked_shift (sx_tenant x) dto d) i d3 = Inr d'"
  using assms unfolding post_sale_def Let_def and_then_Inr_iff throw_if_Inr_iff or_throw_Inr_iff sum.inject prod.inject not_not
  apply (elim exE conjE)
  subgoal premises p for branch u1 vs quotes u2 sold bought d1 d2 d3 d4
    using p by (intro that [of branch vs quotes sold bought d1 d2 d3]) blast+
  done

definition terminal_places :: "('a sales_db_scheme) \<Rightarrow> (id \<times> id \<times> id) list" where
  "terminal_places d = map (\<lambda>t. (pt_id t, pt_tenant t, pt_branch t)) (sd_terminals d)"

text \<open>The shifts after a sale: a closed one takes late cash.\<close>

definition after_late_sale :: "invoice_row \<Rightarrow> shift_row option \<Rightarrow> shift_row list \<Rightarrow> shift_row list" where
  "after_late_sale i shift ss =
     (case shift of
        None \<Rightarrow> ss
      | Some s \<Rightarrow>
          if sh_status s = ''closed'' \<and> in_payment i = ''cash'' \<and> sh_expected_cash s \<noteq> None \<and> sh_difference s \<noteq> None
          then map (\<lambda>x. if sh_id x = sh_id s then add_late_cash (in_total i) x else x) ss else ss)"

text \<open>What a sale, a return and a shift command each keep of the rest.\<close>

definition sale_frame :: "('a sales_db_scheme) \<Rightarrow> ('a sales_db_scheme) \<Rightarrow> bool" where
  "sale_frame d d' \<longleftrightarrow>
     rt_branches d' = rt_branches d \<and> rt_in_transit d' = rt_in_transit d \<and> rt_variants d' = rt_variants d
     \<and> rt_costs d' = rt_costs d \<and> sd_returns d' = sd_returns d \<and> terminal_places d' = terminal_places d"

lemma finish_sale_effect:
  assumes "finish_sale x dto locked shift i d = Inr d'" and "in_payment i = cs_payment dto"
  shows "sale_frame d d' \<and> sd_invoices d' = sd_invoices d \<and> sd_shifts d' = after_late_sale i shift (sd_shifts d)
       \<and> stock d' = stock d \<and> movements d' = movements d"
proof -
  let ?d1 = "advance_terminal (sx_terminal x) (sx_sequence x) (pt_last_sequence locked) d"
  obtain action d3 where r: "reconcile_late_sale i (cs_payment dto) shift (sale_audit (sx_tenant x) (in_cashier i) action ''SalesInvoice'' (in_id i) ?d1) = Inr d3"
    and d': "credit_customer i d3 = Inr d'"
    using assms(1) unfolding finish_sale_def Let_def and_then_Inr_iff by blast
  define d2 where "d2 = sale_audit (sx_tenant x) (in_cashier i) action ''SalesInvoice'' (in_id i) ?d1"
  have d3: "reconcile_late_sale i (cs_payment dto) shift d2 = Inr d3" using r by (simp add: d2_def)
  have d2: "stock d2 = stock ?d1 \<and> movements d2 = movements ?d1 \<and> same_tables ?d1 d2" by (simp add: d2_def sale_audit_def)
  have t: "terminal_places ?d1 = terminal_places d"
    by (simp add: advance_terminal_def terminal_places_def comp_def if_distrib cong: if_cong)
  have 1: "sale_frame d ?d1 \<and> sd_invoices ?d1 = sd_invoices d \<and> sd_shifts ?d1 = sd_shifts d \<and> stock ?d1 = stock d \<and> movements ?d1 = movements d"
    using t by (simp add: sale_frame_def advance_terminal_def)
  have 3: "sale_frame d2 d3 \<and> sd_invoices d3 = sd_invoices d2 \<and> sd_shifts d3 = after_late_sale i shift (sd_shifts d2)
       \<and> stock d3 = stock d2 \<and> movements d3 = movements d2"
    using d3 by (auto simp: reconcile_late_sale_def after_late_sale_def sale_frame_def sale_audit_def assms(2) terminal_places_def
        and_then_Inr_iff split: option.splits if_splits)
  have 4: "sale_frame d3 d' \<and> sd_invoices d' = sd_invoices d3 \<and> sd_shifts d' = sd_shifts d3 \<and> stock d' = stock d3 \<and> movements d' = movements d3"
    using d' by (auto simp: credit_customer_def sale_frame_def Let_def terminal_places_def and_then_Inr_iff split: option.splits)
  show ?thesis using 1 d2 3 4 by (simp add: sale_frame_def same_tables_def terminal_places_def)
qed

lemma insert_invoice_effect:
  assumes "insert_invoice i d = Inr d'"
  shows "d' = d\<lparr>sd_invoices := sd_invoices d @ [i]\<rparr>" and "list_all item_columns_fit (in_items i)"
    and "\<forall>y \<in> set (sd_invoices d). in_id y \<noteq> in_id i \<and> (in_sync_id i \<noteq> None \<longrightarrow> in_sync_id y \<noteq> in_sync_id i)"
    and "distinct (map ii_id (in_items i))" and "\<forall>y \<in> set (all_items d). ii_id y \<notin> ii_id ` set (in_items i)"
  using assms by (auto simp: insert_invoice_def result_simps list_ex_iff)

lemma insert_snapshots_effect:
  "insert_snapshots L quotes i d = Inr d' \<Longrightarrow> same_tables d d' \<and> stock d' = stock d \<and> movements d' = movements d"
  by (auto simp: insert_snapshots_def result_simps)

lemma sale_movement_key [simp]:
  "mc_branch (sale_movement i s item) = in_branch i" "mc_variant (sale_movement i s item) = pi_variant item"
  "safe_key (mc_key (sale_movement i s item))"
  by (simp_all add: sale_movement_def safe_key_def)

lemma sale_invoice_fields [simp]:
  "in_id (sale_invoice L C x dto b ws cu ca se sh items) = sv_uuid C 0"
  "in_tenant (sale_invoice L C x dto b ws cu ca se sh items) = sx_tenant x"
  "in_branch (sale_invoice L C x dto b ws cu ca se sh items) = cs_branch dto"
  "in_shift (sale_invoice L C x dto b ws cu ca se sh items) = map_option sh_id sh"
  "in_subtotal (sale_invoice L C x dto b ws cu ca se sh items) = items_subtotal L items"
  "in_tax (sale_invoice L C x dto b ws cu ca se sh items) = items_tax L items"
  "in_total (sale_invoice L C x dto b ws cu ca se sh items) = items_total L items"
  "in_payment (sale_invoice L C x dto b ws cu ca se sh items) = cs_payment dto"
  "in_sync_id (sale_invoice L C x dto b ws cu ca se sh items) = Some (cs_sync_id dto)"
  "in_status (sale_invoice L C x dto b ws cu ca se sh items) = ''completed''"
  "in_items (sale_invoice L C x dto b ws cu ca se sh items) = number_items C items"
  "in_terminal (sale_invoice L C x dto b ws cu ca se sh items) = Some (sx_terminal x)"
  "in_session (sale_invoice L C x dto b ws cu ca se sh items) = Some (cs_session dto)"
  "in_sequence (sale_invoice L C x dto b ws cu ca se sh items) = Some (sx_sequence x)"
  "in_fingerprint (sale_invoice L C x dto b ws cu ca se sh items) = Some (sx_fingerprint x)"
  by (simp_all add: sale_invoice_def)

definition plain_branches :: "('a sales_db_scheme) \<Rightarrow> bool" where
  "plain_branches d \<longleftrightarrow> (\<forall>b \<in> set (rt_branches d). plain_id (br_id b))"

lemma post_sale_effect:
  assumes post: "post_sale L C x dto locked lines d = Inr (i, d')" and led: "ledger_inv d" and br: "plain_branches d"
  shows "ledger_inv d'" and "sale_frame d d'" and "sd_invoices d' = sd_invoices d @ [i]"
    and "sd_shifts d' = after_late_sale i (linked_shift (sx_tenant x) dto d) (sd_shifts d)" and "plain_id (in_branch i)"
    and "\<forall>y \<in> set (sd_invoices d). in_id y \<noteq> in_id i \<and> in_sync_id y \<noteq> in_sync_id i"
    and "distinct (map ii_id (in_items i))" and "\<forall>y \<in> set (all_items d). ii_id y \<notin> ii_id ` set (in_items i)"
proof -
  obtain branch vs quotes sold bought d1 d2 d3 where
    b: "find (\<lambda>b. br_id b = cs_branch dto \<and> br_tenant b = sx_tenant x) (rt_branches d) = Some branch"
    and so: "\<exists>codes. fold_result (sell_item (sx_tenant x) (cs_branch dto) (sx_received x)) (map (price_item L vs) lines) (codes, d) = Inr sold"
    and bo: "sale_customer C (sx_tenant x) (cs_phone dto) (snd sold) = Inr bought"
    and i: "i = sale_invoice L C x dto branch (fst sold) (fst bought) (linked_cashier (sx_tenant x) dto d)
               (linked_seller (sx_tenant x) dto d) (linked_shift (sx_tenant x) dto d) (map (price_item L vs) lines)"
    and d1: "insert_invoice i (snd bought) = Inr d1" and d2: "insert_snapshots L quotes i d1 = Inr d2"
    and d3: "fold_result (\<lambda>item. record_inventory_movement (sale_movement i (cs_sync_id dto) item)) (in_items i) d2 = Inr d3"
    and fin: "finish_sale x dto locked (linked_shift (sx_tenant x) dto d) i d3 = Inr d'"
    by (rule post_saleE [OF post]) blast
  show pl: "plain_id (in_branch i)" using find_Some_iff_set [OF b] br by (auto simp: i plain_branches_def)
  let ?K = "sold_keys (cs_branch dto) (map (price_item L vs) lines)"
  from so sell_loop [of "sx_tenant x" "cs_branch dto" "sx_received x" _ _ sold "{}"] led
  have s1: "pending (snd sold) ?K \<and> same_tables d (snd sold)" by (force simp: pending_none)
  from bo sale_customer_effect [of C "sx_tenant x" "cs_phone dto" "snd sold" "fst bought" "snd bought"]
  have s2: "same_tables (snd sold) (snd bought) \<and> stock (snd bought) = stock (snd sold) \<and> movements (snd bought) = movements (snd sold)"
    by simp
  note ii = insert_invoice_effect [OF d1]
  note ss = insert_snapshots_effect [OF d2]
  have "pending d2 ?K" by (rule pending_frame [of "snd sold"]) (use s1 s2 ii(1) ss in auto)
  moreover have "plain_id (mc_branch (sale_movement i (cs_sync_id dto) item)) \<and> safe_key (mc_key (sale_movement i (cs_sync_id dto) item))" for item
    using pl by simp
  ultimately have r: "pending d3 (?K - (\<lambda>item. (mc_branch (sale_movement i (cs_sync_id dto) item), mc_variant (sale_movement i (cs_sync_id dto) item))) ` set (in_items i))
      \<and> (\<exists>ms. d3 = d2\<lparr>movements := ms\<rparr>)"
    by (rule pending_record_loop [OF d3])
  have "(\<lambda>item. (mc_branch (sale_movement i (cs_sync_id dto) item), mc_variant (sale_movement i (cs_sync_id dto) item))) ` set (in_items i) = ?K"
  proof -
    have "?K = sold_keys (cs_branch dto) (in_items i)" by (simp add: i)
    then show ?thesis by (simp add: sold_keys_def) (simp add: i)
  qed
  with r have d3': "ledger_inv d3" "same_tables d2 d3" by (auto simp: pending_none)
  have "in_payment i = cs_payment dto" by (simp add: i)
  note f = finish_sale_effect [OF fin this]
  show "ledger_inv d'" using pending_frame [of d3 "{}" d'] d3'(1) f by (simp add: pending_none)
  have inv1: "sd_invoices d3 = sd_invoices d @ [i]" using s1 s2 ii(1) ss d3'(2) by (simp add: same_tables_def)
  then show "sd_invoices d' = sd_invoices d @ [i]" using f by simp
  show "sale_frame d d'" using s1 s2 ii(1) ss d3'(2) f by (simp add: sale_frame_def same_tables_def terminal_places_def)
  show "sd_shifts d' = after_late_sale i (linked_shift (sx_tenant x) dto d) (sd_shifts d)"
    using s1 s2 ii(1) ss d3'(2) f by (simp add: same_tables_def)
  have e: "sd_invoices (snd bought) = sd_invoices d" using s1 s2 by (simp add: same_tables_def)
  show "\<forall>y \<in> set (sd_invoices d). in_id y \<noteq> in_id i \<and> in_sync_id y \<noteq> in_sync_id i" using ii(3) e by (simp add: i)
  show "distinct (map ii_id (in_items i))" by (rule ii(4))
  show "\<forall>y \<in> set (all_items d). ii_id y \<notin> ii_id ` set (in_items i)" using ii(5) e by (simp add: all_items_def)
qed

section \<open>A return, step by step\<close>

definition return_frame :: "('a sales_db_scheme) \<Rightarrow> ('a sales_db_scheme) \<Rightarrow> bool" where
  "return_frame d d' \<longleftrightarrow>
     rt_branches d' = rt_branches d \<and> rt_in_transit d' = rt_in_transit d \<and> sd_terminals d' = sd_terminals d
     \<and> sd_shifts d' = sd_shifts d \<and> sd_invoices d' = sd_invoices d \<and> sd_returns d' = sd_returns d"

lemma return_frame_refl [simp]: "return_frame d d"
  by (simp add: return_frame_def)

lemma return_frame_trans: "return_frame d d' \<Longrightarrow> return_frame d' d'' \<Longrightarrow> return_frame d d''"
  by (simp add: return_frame_def)

lemma return_frame_updates [simp]:
  "return_frame d (d\<lparr>stock := st\<rparr>)" "return_frame d (d\<lparr>movements := ms\<rparr>)" "return_frame d (d\<lparr>sd_customers := cs\<rparr>)"
  "return_frame d (d\<lparr>rt_variants := vs\<rparr>)" "return_frame d (d\<lparr>rt_costs := co, rt_variants := vs\<rparr>)"
  by (simp_all add: return_frame_def)

text \<open>The part of the invariant that a handler suspends: pending stock keys, and the cost ledger.\<close>

definition goods_ok :: "('a sales_db_scheme) \<Rightarrow> (id \<times> id) set \<Rightarrow> bool" where
  "goods_ok d P \<longleftrightarrow> pending d P \<and> cost_inv d"

lemma restock_item_effect:
  assumes "restock_item t b i d = Inr d'" and g: "goods_ok d P"
  shows "goods_ok d' (insert (b, ri_variant_id i) P) \<and> return_frame d d'"
proof -
  obtain d1 where u: "upsert_stock t b (ri_variant_id i) (ri_qty_back i) None d = Inr d1"
    and d': "d' = d1\<lparr>rt_variants := map (count_return i) (rt_variants d1)\<rparr>"
    using assms(1) by (auto simp: restock_item_def Let_def result_simps)
  obtain st where d1: "d1 = d\<lparr>stock := st\<rparr>" using upsert_keeps [OF u] by blast
  have c: "(\<lambda>v. (pv_id v, pv_cost_price v)) \<circ> count_return i = (\<lambda>v. (pv_id v, pv_cost_price v))"
    by (auto simp: count_return_def)
  have "pending d1 (insert (b, ri_variant_id i) P)" using g by (intro pending_upsert [OF _ u]) (simp add: goods_ok_def)
  then have "pending d' (insert (b, ri_variant_id i) P)" by (rule pending_frame) (simp_all add: d')
  moreover have "cost_inv d'" using g by (subst cost_inv_same [of d' d]) (simp_all add: d' d1 c goods_ok_def)
  moreover have "return_frame d d'" by (simp add: return_frame_def d' d1)
  ultimately show ?thesis by (simp add: goods_ok_def)
qed

definition back_keys :: "id \<Rightarrow> return_item list \<Rightarrow> (id \<times> id) set" where
  "back_keys branch items = (\<lambda>i. (branch, ri_variant_id i)) ` set items"

lemma restock_loop:
  assumes "fold_result (restock_item t b) items d = Inr d'" and "goods_ok d P"
  shows "goods_ok d' (P \<union> back_keys b items) \<and> return_frame d d'"
  using assms
proof (induction items arbitrary: d P)
  case (Cons i items)
  from Cons.prems(1) obtain d1 where s: "restock_item t b i d = Inr d1"
    and r: "fold_result (restock_item t b) items d1 = Inr d'" by (auto simp: result_simps)
  note e = restock_item_effect [OF s Cons.prems(2)]
  have k: "P \<union> back_keys b (i # items) = insert (b, ri_variant_id i) P \<union> back_keys b items" by (auto simp: back_keys_def)
  show ?case unfolding k using Cons.IH [OF r, of "insert (b, ri_variant_id i) P"] e by (blast intro: return_frame_trans)
qed (simp add: back_keys_def)

lemma debit_flag_effect:
  assumes "goods_ok d P"
  shows "goods_ok (debit_customer L t c a (flag_variants items d)) P \<and> return_frame d (debit_customer L t c a (flag_variants items d))"
proof -
  let ?d1 = "flag_variants items d" and ?d2 = "debit_customer L t c a (flag_variants items d)"
  have s: "stock ?d2 = stock d" "movements ?d2 = movements d" "return_frame d ?d2" "rt_costs ?d2 = rt_costs d"
    "rt_variants ?d2 = rt_variants ?d1"
    by (auto simp: debit_customer_def flag_variants_def return_frame_def split: option.splits)
  have "map (\<lambda>v. (pv_id v, pv_cost_price v)) (rt_variants ?d2) = map (\<lambda>v. (pv_id v, pv_cost_price v)) (rt_variants d)"
    unfolding s(5) by (simp add: flag_variants_def)
  then have "cost_inv ?d2" using cost_inv_same [of ?d2 d] s(4) assms by (simp add: goods_ok_def)
  moreover have "pending ?d2 P" using assms s(1,2) by (intro pending_frame [of d P ?d2]) (simp_all add: goods_ok_def)
  ultimately show ?thesis using s(3) by (simp add: goods_ok_def)
qed

lemma return_costs_effect:
  assumes "record_return_costs q r d = Inr d'" and "goods_ok d P"
  shows "goods_ok d' P \<and> return_frame d d'"
proof -
  let ?step = "\<lambda>v s. and_then (record_inventory_cost_movement q (return_cost r v) s) (\<lambda>x. Inr (snd x))"
  have step: "goods_ok t' P \<and> return_frame t t'" if "?step v t = Inr t'" "goods_ok t P" for v t t'
  proof -
    from that(1) obtain m where m: "record_inventory_cost_movement q (return_cost r v) t = Inr (m, t')"
      by (auto simp: result_simps)
    obtain vs cs where t': "t' = t\<lparr>rt_costs := cs, rt_variants := vs\<rparr>" using cost_frame [OF m] by blast
    have "restores_column (return_cost r v)" by (simp add: restores_column_def return_cost_def Let_def)
    then have "cost_inv t'" using that(2) cost_recorded_once(1) [OF _ _ m] by (simp add: goods_ok_def)
    moreover have "pending t' P" by (rule pending_frame [of t]) (use that(2) t' in \<open>simp_all add: goods_ok_def\<close>)
    ultimately show ?thesis by (simp add: goods_ok_def t')
  qed
  have "goods_ok d' P \<and> return_frame d d'" if f: "fold_result ?step vs d = Inr d'" for vs
  proof (rule fold_result_invariant [OF f, of "\<lambda>s. goods_ok s P \<and> return_frame d s"])
    show "goods_ok d P \<and> return_frame d d" using assms(2) by simp
    fix v s s' assume "goods_ok s P \<and> return_frame d s" "?step v s = Inr s'"
    then show "goods_ok s' P \<and> return_frame d s'" using step return_frame_trans by blast
  qed
  then show ?thesis using assms by (auto simp: record_return_costs_def split: if_splits)
qed

lemma return_movement_key [simp]:
  "mc_branch (return_movement r i) = re_branch r" "mc_variant (return_movement r i) = ri_variant_id i"
  "safe_key (mc_key (return_movement r i))"
  by (simp_all add: return_movement_def safe_key_def)

lemma commit_return_loop:
  assumes "fold_result (\<lambda>i s. and_then (record_return_costs q r s) (record_inventory_movement (return_movement r i))) items d = Inr d'"
    and "goods_ok d P" and "plain_id (re_branch r)"
  shows "goods_ok d' (P - back_keys (re_branch r) items) \<and> return_frame d d'"
  using assms(1,2)
proof (induction items arbitrary: d P)
  case (Cons i items)
  from Cons.prems(1) obtain d1 d2 where c: "record_return_costs q r d = Inr d1"
    and m: "record_inventory_movement (return_movement r i) d1 = Inr d2"
    and r: "fold_result (\<lambda>i s. and_then (record_return_costs q r s) (record_inventory_movement (return_movement r i))) items d2 = Inr d'"
    by (auto simp: result_simps)
  note e = return_costs_effect [OF c Cons.prems(2)]
  obtain ms where d2: "d2 = d1\<lparr>movements := ms\<rparr>" using record_only_movements [OF m] by blast
  have "pending d2 (P - {(re_branch r, ri_variant_id i)})"
    using pending_record [OF _ m, of P] e assms(3) by (simp add: goods_ok_def)
  moreover have "cost_inv d2" using e by (subst cost_inv_same [of d2 d1]) (simp_all add: d2 goods_ok_def)
  ultimately have g: "goods_ok d2 (P - {(re_branch r, ri_variant_id i)})" by (simp add: goods_ok_def)
  have k: "P - back_keys (re_branch r) (i # items) = P - {(re_branch r, ri_variant_id i)} - back_keys (re_branch r) items"
    by (auto simp: back_keys_def)
  have "return_frame d d2" using e by (simp add: return_frame_def d2)
  then show ?case unfolding k using Cons.IH [OF r g] by (blast intro: return_frame_trans)
qed (simp add: back_keys_def)

lemma create_returnE:
  assumes "create_return L q C tenant user dto d = Inr (r, d')"
  obtains original shift items d1 d2 where
    "find (\<lambda>i. in_tenant i = tenant \<and> in_id i = cr_invoice dto) (sd_invoices d) = Some original"
    and "return_shift tenant user original d = Inr shift"
    and "map_result (return_item_of L tenant original d) (requested_units dto) = Inr items"
    and "r = return_of L C tenant user dto original shift items" and "insert_return r d = Inr d1"
    and "fold_result (restock_item tenant (in_branch original)) items d1 = Inr d2"
    and "commit_return q r (debit_customer L tenant (in_customer original) (re_total r) (flag_variants items d2)) = Inr d'"
  using assms unfolding create_return_def Let_def and_then_Inr_iff throw_if_Inr_iff or_throw_Inr_iff sum.inject prod.inject
  apply (elim exE conjE)
  subgoal premises p for original u1 shift u2 items d1 d2 d4
    using p by (intro that [of original shift items d1 d2]) blast+
  done

definition item_ids :: "return_row \<Rightarrow> id set" where
  "item_ids r = ri_sale_item ` set (re_items r)"

lemma return_of_fields [simp]:
  "re_tenant (return_of L C t u dto o1 sh items) = t" "re_invoice (return_of L C t u dto o1 sh items) = in_id o1"
  "re_branch (return_of L C t u dto o1 sh items) = in_branch o1" "re_shift (return_of L C t u dto o1 sh items) = sh"
  "re_status (return_of L C t u dto o1 sh items) = ''completed''"
  "re_subtotal (return_of L C t u dto o1 sh items) = refund_subtotal L items"
  "re_tax (return_of L C t u dto o1 sh items) = refund_tax L items"
  "re_total (return_of L C t u dto o1 sh items) = moneyq L (dec_plus L (refund_subtotal L items) (refund_tax L items))"
  by (simp_all add: return_of_def)

text \<open>Numbering the items of a return changes nothing else of them.\<close>

lemma return_items_fields:
  assumes "\<And>i j. f (i\<lparr>ri_id := j\<rparr>) = f i"
  shows "map f (re_items (return_of L C t u dto o1 sh items)) = map f items"
proof -
  have "map f (map (\<lambda>(k, i). i\<lparr>ri_id := sv_uuid C (2 + k)\<rparr>) (enumerate n items)) = map f items" for n
    by (induction items arbitrary: n) (simp_all add: assms)
  then show ?thesis by (simp add: return_of_def)
qed

lemma back_keys_return [simp]: "back_keys b (re_items (return_of L C t u dto o1 sh items)) = back_keys b items"
proof -
  have "back_keys b xs = (\<lambda>v. (b, v)) ` set (map ri_variant_id xs)" for xs by (auto simp: back_keys_def)
  moreover have "map ri_variant_id (re_items (return_of L C t u dto o1 sh items)) = map ri_variant_id items"
    by (rule return_items_fields) simp
  ultimately show ?thesis by metis
qed

definition units_of :: "id \<Rightarrow> return_item list \<Rightarrow> int" where
  "units_of item items = (\<Sum>x\<leftarrow>filter (\<lambda>x. ri_sale_item x = item) items. ri_qty_back x)"

lemma already_returned_append:
  assumes "sd_returns d' = sd_returns d @ [r]" and "re_tenant r = t" and "re_status r = ''completed''"
  shows "already_returned t item d' = already_returned t item d + units_of item (re_items r)"
  by (simp add: already_returned_def assms units_of_def)

lemma already_returned_same: "sd_returns d' = sd_returns d \<Longrightarrow> already_returned t item d' = already_returned t item d"
  by (simp add: already_returned_def)

lemma already_returned_other_tenant:
  assumes "sd_returns d' = sd_returns d @ [r]" and "re_tenant r \<noteq> t"
  shows "already_returned t item d' = already_returned t item d"
  by (simp add: already_returned_def assms)

lemma units_of_return [simp]: "units_of item (re_items (return_of L C t u dto o1 sh items)) = units_of item items"
proof -
  have "units_of item xs = (\<Sum>p\<leftarrow>filter (\<lambda>p. fst p = item) (map (\<lambda>x. (ri_sale_item x, ri_qty_back x)) xs). snd p)" for xs
    by (induction xs) (simp_all add: units_of_def)
  moreover have "map (\<lambda>x. (ri_sale_item x, ri_qty_back x)) (re_items (return_of L C t u dto o1 sh items)) = map (\<lambda>x. (ri_sale_item x, ri_qty_back x)) items"
    by (rule return_items_fields) simp
  ultimately show ?thesis by metis
qed

lemma requested_distinct: "distinct (map fst (requested_units dto))"
proof -
  have "distinct (map fst xs) \<Longrightarrow> distinct (map fst (fold add_requested ys xs))" for xs ys
    by (induction ys arbitrary: xs) (simp_all add: add_requested_def distinct_update)
  then show ?thesis by (simp add: requested_units_def)
qed

text \<open>Each requested item comes back at most up to what is left of it.\<close>

lemma return_item_ofE:
  assumes "return_item_of L t original d p = Inr y"
  obtains s where "s \<in> set (in_items original)" "ii_id s = fst p" "ri_sale_item y = fst p" "ri_variant_id y = pi_variant s"
    "ri_qty_back y \<le> pi_qty s - already_returned t (ii_id s) d" "ri_price y = moneyq L (pi_price s)"
    "ri_tax y = unit_tax_back L original s"
proof -
  from assms obtain s where s: "find (\<lambda>i. ii_id i = fst p) (in_items original) = Some s" "snd p \<le> pi_qty s - already_returned t (fst p) d"
    "y = \<lparr>ri_id = [], ri_sale_item = fst p, ri_variant_id = pi_variant s, ri_qty_back = snd p,
          ri_price = moneyq L (pi_price s), ri_cost = moneyq L (pi_cost s), ri_tax = unit_tax_back L original s\<rparr>"
    by (auto simp: return_item_of_def Let_def result_simps)
  show thesis by (rule that [of s]) (use s find_Some_iff_set [OF s(1)] in simp_all)
qed

lemma return_items_ids:
  assumes "map_result (return_item_of L t original d) rs = Inr items"
  shows "map ri_sale_item items = map fst rs"
  using assms by (induction rs arbitrary: items) (auto simp: result_simps elim: return_item_ofE)

definition returnable :: "dec_lib \<Rightarrow> id \<Rightarrow> invoice_row \<Rightarrow> ('a sales_db_scheme) \<Rightarrow> return_item \<Rightarrow> bool" where
  "returnable L t original d x \<longleftrightarrow>
     (\<exists>s \<in> set (in_items original). ii_id s = ri_sale_item x \<and> ri_variant_id x = pi_variant s
        \<and> ri_qty_back x \<le> pi_qty s - already_returned t (ii_id s) d \<and> ri_price x = moneyq L (pi_price s)
        \<and> ri_tax x = unit_tax_back L original s)"

lemma return_items_ok:
  assumes "map_result (return_item_of L t original d) rs = Inr items"
  shows "\<forall>x \<in> set items. returnable L t original d x"
  using assms
proof (induction rs arbitrary: items)
  case (Cons p rs)
  from Cons.prems obtain y ys where y: "return_item_of L t original d p = Inr y"
    and ys: "map_result (return_item_of L t original d) rs = Inr ys" and i: "items = y # ys" by (auto simp: result_simps)
  have "returnable L t original d y" by (rule return_item_ofE [OF y]) (auto simp: returnable_def)
  with Cons.IH [OF ys] i show ?case by simp
qed auto

lemma units_of_distinct:
  assumes "distinct (map ri_sale_item items)"
  shows "units_of item items = (case find (\<lambda>x. ri_sale_item x = item) items of None \<Rightarrow> 0 | Some x \<Rightarrow> ri_qty_back x)"
  using assms
proof (induction items)
  case (Cons x items)
  then have "ri_sale_item x = item \<Longrightarrow> filter (\<lambda>y. ri_sale_item y = item) items = []" by (auto simp: filter_empty_conv image_iff)
  with Cons show ?case by (auto simp: units_of_def)
qed (simp add: units_of_def)

section \<open>The invariant\<close>

definition documents_ok :: "('a sales_db_scheme) \<Rightarrow> bool" where
  "documents_ok d \<longleftrightarrow>
     distinct (map in_id (sd_invoices d)) \<and> distinct (map ii_id (all_items d))
     \<and> (\<forall>i \<in> set (sd_invoices d). plain_id (in_branch i))
     \<and> (\<forall>r \<in> set (sd_returns d). \<exists>i \<in> set (sd_invoices d). in_id i = re_invoice r \<and> in_tenant i = re_tenant r
          \<and> item_ids r \<subseteq> ii_id ` set (in_items i))"

definition returned_ok :: "('a sales_db_scheme) \<Rightarrow> bool" where
  "returned_ok d \<longleftrightarrow>
     (\<forall>i \<in> set (sd_invoices d). \<forall>s \<in> set (in_items i). already_returned (in_tenant i) (ii_id s) d \<le> pi_qty s)"

definition sales_inv :: "('a sales_db_scheme) \<Rightarrow> bool" where
  "sales_inv d \<longleftrightarrow> ledger_inv d \<and> cost_inv d \<and> plain_branches d \<and> documents_ok d \<and> returned_ok d"

lemma item_unique:
  assumes "documents_ok d" and "i \<in> set (sd_invoices d)" "s \<in> set (in_items i)" and "j \<in> set (sd_invoices d)" "s' \<in> set (in_items j)"
    and "ii_id s = ii_id s'"
  shows "s = s'"
proof -
  have "s \<in> set (all_items d)" "s' \<in> set (all_items d)" using assms(2-5) by (auto simp: all_items_def)
  then show ?thesis using assms(1,6) by (auto simp: documents_ok_def distinct_map dest: inj_onD)
qed

lemma not_returned_yet:
  assumes "documents_ok d" and "item \<notin> ii_id ` set (all_items d)"
  shows "already_returned t item d = 0"
proof -
  have "filter (\<lambda>x. ri_sale_item x = item) (re_items r) = []" if r: "r \<in> set (sd_returns d)" for r
  proof -
    obtain i where "i \<in> set (sd_invoices d)" "item_ids r \<subseteq> ii_id ` set (in_items i)"
      using assms(1) r by (auto simp: documents_ok_def)
    moreover have "ii_id ` set (in_items i) \<subseteq> ii_id ` set (all_items d)"
      using calculation(1) by (intro image_mono) (auto simp: all_items_def)
    ultimately have "item_ids r \<subseteq> ii_id ` set (all_items d)" by blast
    then show ?thesis using assms(2) by (auto simp: filter_empty_conv item_ids_def)
  qed
  then have "map (\<lambda>r. \<Sum>x\<leftarrow>filter (\<lambda>x. ri_sale_item x = item) (re_items r). ri_qty_back x)
               (filter (\<lambda>r. re_tenant r = t \<and> re_status r = ''completed'') (sd_returns d))
           = map (\<lambda>r. 0) (filter (\<lambda>r. re_tenant r = t \<and> re_status r = ''completed'') (sd_returns d))"
    by (intro map_cong) auto
  then show ?thesis unfolding already_returned_def by (simp only: sum_list_0)
qed

lemma create_return_effect:
  assumes inv: "sales_inv d" and run: "create_return L q C tenant user dto d = Inr (r, d')"
  shows "sales_inv d'" and "sd_invoices d' = sd_invoices d" and "sd_returns d' = sd_returns d @ [r]" and "sd_shifts d' = sd_shifts d"
    and "sd_terminals d' = sd_terminals d" and "rt_branches d' = rt_branches d"
proof -
  obtain original shift items d1 d2 where
    o: "find (\<lambda>i. in_tenant i = tenant \<and> in_id i = cr_invoice dto) (sd_invoices d) = Some original"
    and items: "map_result (return_item_of L tenant original d) (requested_units dto) = Inr items"
    and r: "r = return_of L C tenant user dto original shift items" and d1: "insert_return r d = Inr d1"
    and d2: "fold_result (restock_item tenant (in_branch original)) items d1 = Inr d2"
    and fin: "commit_return q r (debit_customer L tenant (in_customer original) (re_total r) (flag_variants items d2)) = Inr d'"
    by (rule create_returnE [OF run]) (rule that; assumption)
  have o': "original \<in> set (sd_invoices d)" "in_tenant original = tenant" using find_Some_iff_set [OF o] by auto
  have d1': "d1 = d\<lparr>sd_returns := sd_returns d @ [r]\<rparr>" using d1 by (auto simp: insert_return_def result_simps)
  have docs: "documents_ok d" and ret: "returned_ok d" using inv by (simp_all add: sales_inv_def)
  have plain: "plain_id (re_branch r)" using docs o' by (simp add: r documents_ok_def)
  have "pending d1 {}" by (rule pending_frame [of d]) (use inv in \<open>simp_all add: d1' sales_inv_def pending_none\<close>)
  moreover have "cost_inv d1" using inv by (subst cost_inv_same [of d1 d]) (simp_all add: d1' sales_inv_def)
  ultimately have g1: "goods_ok d1 {}" by (simp add: goods_ok_def)
  have g2: "goods_ok d2 (back_keys (in_branch original) items)" "return_frame d1 d2" using restock_loop [OF d2 g1] by simp_all
  let ?d3 = "debit_customer L tenant (in_customer original) (re_total r) (flag_variants items d2)"
  have g3: "goods_ok ?d3 (back_keys (in_branch original) items)" "return_frame d2 ?d3" using debit_flag_effect [OF g2(1)] by simp_all
  have g4: "goods_ok d' {}" "return_frame ?d3 d'"
    using commit_return_loop [OF fin [unfolded commit_return_def] g3(1) plain] by (simp_all add: r)
  have f: "return_frame d1 d'" using g2(2) g3(2) g4(2) by (blast intro: return_frame_trans)
  show inv': "sd_invoices d' = sd_invoices d" and rets: "sd_returns d' = sd_returns d @ [r]" and "sd_shifts d' = sd_shifts d"
    and "sd_terminals d' = sd_terminals d" and br: "rt_branches d' = rt_branches d"
    using f by (simp_all add: return_frame_def d1')
  have ok: "\<forall>x \<in> set items. returnable L tenant original d x" by (rule return_items_ok [OF items])
  have dist: "distinct (map ri_sale_item items)" using return_items_ids [OF items] requested_distinct by simp
  have ids: "item_ids r \<subseteq> ii_id ` set (in_items original)"
  proof -
    have "item_ids r = set (map ri_sale_item (re_items r))" by (simp add: item_ids_def)
    also have "map ri_sale_item (re_items r) = map ri_sale_item items" unfolding r by (rule return_items_fields) simp
    finally have e: "item_ids r = ri_sale_item ` set items" by simp
    show ?thesis
    proof
      fix k assume "k \<in> item_ids r"
      then obtain x where x: "x \<in> set items" "k = ri_sale_item x" by (auto simp: e)
      then obtain s where "s \<in> set (in_items original)" "ii_id s = ri_sale_item x" using ok by (auto simp: returnable_def)
      then show "k \<in> ii_id ` set (in_items original)" by (metis x(2) imageI)
    qed
  qed
  have ai: "all_items d' = all_items d" by (simp add: all_items_def inv')
  have "\<exists>i \<in> set (sd_invoices d). in_id i = re_invoice r \<and> in_tenant i = re_tenant r \<and> item_ids r \<subseteq> ii_id ` set (in_items i)"
    using o' ids by (intro bexI [of _ original]) (simp_all add: r)
  then have docs': "documents_ok d'" using docs unfolding documents_ok_def ai inv' rets by simp
  have "returned_ok d'"
    unfolding returned_ok_def inv'
  proof (intro ballI)
    fix i s assume i: "i \<in> set (sd_invoices d)" and s: "s \<in> set (in_items i)"
    have old: "already_returned (in_tenant i) (ii_id s) d \<le> pi_qty s" using ret i s by (simp add: returned_ok_def)
    show "already_returned (in_tenant i) (ii_id s) d' \<le> pi_qty s"
    proof (cases "in_tenant i = tenant")
      case False
      then show ?thesis using old already_returned_other_tenant [OF rets, of "in_tenant i"] by (simp add: r)
    next
      case True
      have a: "already_returned tenant (ii_id s) d' = already_returned tenant (ii_id s) d + units_of (ii_id s) items"
        using already_returned_append [OF rets, of tenant] by (simp add: r)
      show ?thesis
      proof (cases "find (\<lambda>x. ri_sale_item x = ii_id s) items")
        case None
        then show ?thesis using a old True by (simp add: units_of_distinct [OF dist])
      next
        case (Some x)
        then have x: "x \<in> set items" "ri_sale_item x = ii_id s" using find_Some_iff_set [OF Some] by auto
        then obtain s' where s': "s' \<in> set (in_items original)" "ii_id s' = ri_sale_item x"
          "ri_qty_back x \<le> pi_qty s' - already_returned tenant (ii_id s') d" using ok by (auto simp: returnable_def)
        have "s' = s" using item_unique [OF docs o'(1) s'(1) i s] s'(2) x(2) by simp
        then show ?thesis using a Some s'(3) True by (simp add: units_of_distinct [OF dist])
      qed
    qed
  qed
  then show "sales_inv d'" using g4(1) docs' inv br by (simp add: sales_inv_def goods_ok_def pending_none plain_branches_def)
qed

section \<open>Requests as validated, and their merged lines\<close>

text \<open>What the validation of a request leaves: amounts of cents that are not negative, at least one unit,
  and sums below ten to the 16.\<close>

definition line_ok :: "sale_line \<Rightarrow> bool" where
  "line_ok l \<longleftrightarrow> 1 \<le> sl_qty l \<and> has_places 2 (sl_price l) \<and> 0 \<le> sl_price l \<and> has_places 2 (sl_tax l) \<and> 0 \<le> sl_tax l"

definition lines_price :: "sale_line list \<Rightarrow> rat" where
  "lines_price ls = (\<Sum>l\<leftarrow>ls. sl_price l * of_int (sl_qty l))"

definition lines_tax :: "sale_line list \<Rightarrow> rat" where
  "lines_tax ls = (\<Sum>l\<leftarrow>ls. sl_tax l * of_int (sl_qty l))"

definition sale_ok :: "create_sale_dto \<Rightarrow> bool" where
  "sale_ok dto \<longleftrightarrow>
     (\<forall>l \<in> set (cs_items dto). line_ok l) \<and> lines_price (cs_items dto) < 10 ^ 16 \<and> lines_tax (cs_items dto) < 10 ^ 16
     \<and> has_places 2 (cs_local_total dto)"

definition merged_ok :: "(id \<times> sale_line) list \<Rightarrow> bool" where
  "merged_ok ls \<longleftrightarrow> distinct (map fst ls) \<and> (\<forall>(k, l) \<in> set ls. k = sl_variant l \<and> line_ok l)"

lemma update_sum_list:
  fixes f :: "'v \<Rightarrow> rat"
  shows "(\<Sum>p\<leftarrow>AList.update k v al. f (snd p)) = (\<Sum>p\<leftarrow>al. f (snd p)) - (case map_of al k of None \<Rightarrow> 0 | Some w \<Rightarrow> f w) + f v"
  by (rule update_sum)

lemma price_item_fields [simp]:
  "pi_variant (price_item L vs l) = sl_variant l" "pi_qty (price_item L vs l) = sl_qty l"
  "pi_price (price_item L vs l) = moneyq L (sl_price l)" "pi_tax (price_item L vs l) = moneyq L (sl_tax l)"
  by (simp_all add: price_item_def)

context decimal_js
begin

lemma merge_line_ok:
  assumes "merge_line L item ls = Inr ls'" and ok: "merged_ok ls" and l: "line_ok item"
  shows "merged_ok ls'"
    and "lines_price (map snd ls') = lines_price (map snd ls) + sl_price item * of_int (sl_qty item)"
    and "lines_tax (map snd ls') = lines_tax (map snd ls) + sl_tax item * of_int (sl_qty item)"
proof -
  obtain new where ls': "ls' = AList.update (sl_variant item) new ls" and nv: "sl_variant new = sl_variant item" "line_ok new"
    and p: "sl_price new * of_int (sl_qty new) = (case map_of ls (sl_variant item) of None \<Rightarrow> 0 | Some w \<Rightarrow> sl_price w * of_int (sl_qty w)) + sl_price item * of_int (sl_qty item)"
    and t: "sl_tax new * of_int (sl_qty new) = (case map_of ls (sl_variant item) of None \<Rightarrow> 0 | Some w \<Rightarrow> sl_tax w * of_int (sl_qty w)) + sl_tax item * of_int (sl_qty item)"
  proof (cases "map_of ls (sl_variant item)")
    case None
    then show thesis using assms(1) l by (intro that [of item]) (simp_all add: merge_line_def)
  next
    case (Some e)
    then have e: "line_ok e" "sl_variant e = sl_variant item" using ok map_of_SomeD by (fastforce simp: merged_ok_def)+
    have s: "same_snapshot L e item" "ls' = AList.update (sl_variant item) (e\<lparr>sl_qty := sl_qty e + sl_qty item\<rparr>) ls"
      using assms(1) Some by (auto simp: merge_line_def result_simps)
    have "sl_price e = sl_price item" "sl_tax e = sl_tax item"
      using s(1) e(1) l by (auto simp: same_snapshot_def line_ok_def moneyq_id)
    then show thesis using s(2) e l Some
      by (intro that [of "e\<lparr>sl_qty := sl_qty e + sl_qty item\<rparr>"]) (auto simp: line_ok_def algebra_simps)
  qed
  show "merged_ok ls'" using ok nv unfolding ls' merged_ok_def by (auto simp: distinct_update dest: update_elem)
  have sums: "lines_price (map snd xs) = (\<Sum>p\<leftarrow>xs. sl_price (snd p) * of_int (sl_qty (snd p)))"
    "lines_tax (map snd xs) = (\<Sum>p\<leftarrow>xs. sl_tax (snd p) * of_int (sl_qty (snd p)))" for xs :: "(id \<times> sale_line) list"
    by (simp_all add: lines_price_def lines_tax_def comp_def)
  show "lines_price (map snd ls') = lines_price (map snd ls) + sl_price item * of_int (sl_qty item)"
    unfolding sums ls' update_sum_list [where f = "\<lambda>l. sl_price l * of_int (sl_qty l)"] p by (simp split: option.splits)
  show "lines_tax (map snd ls') = lines_tax (map snd ls) + sl_tax item * of_int (sl_qty item)"
    unfolding sums ls' update_sum_list [where f = "\<lambda>l. sl_tax l * of_int (sl_qty l)"] t by (simp split: option.splits)
qed

lemma merge_lines_ok:
  assumes "fold_result (merge_line L) items ls = Inr ls'" and "merged_ok ls" and "\<forall>l \<in> set items. line_ok l"
  shows "merged_ok ls' \<and> lines_price (map snd ls') = lines_price (map snd ls) + lines_price items
       \<and> lines_tax (map snd ls') = lines_tax (map snd ls) + lines_tax items"
  using assms
proof (induction items arbitrary: ls)
  case (Cons l items)
  from Cons.prems(1) obtain ls1 where m: "merge_line L l ls = Inr ls1" and r: "fold_result (merge_line L) items ls1 = Inr ls'"
    by (auto simp: result_simps)
  have "line_ok l" using Cons.prems(3) by simp
  note e = merge_line_ok [OF m Cons.prems(2) this]
  from Cons.IH [OF r e(1)] Cons.prems(3) e(2,3) show ?case by (simp add: lines_price_def lines_tax_def)
qed (simp add: lines_price_def lines_tax_def)

text \<open>Merging lines of one variant keeps what they cost.\<close>

lemma normalized_lines:
  assumes "normalize_lines L items = Inr lines" and "\<forall>l \<in> set items. line_ok l"
  shows "\<forall>l \<in> set lines. line_ok l" and "distinct (map sl_variant lines)"
    and "lines_price lines = lines_price items" and "lines_tax lines = lines_tax items"
proof -
  obtain ls where f: "fold_result (merge_line L) items [] = Inr ls" and l: "lines = map snd ls"
    using assms(1) by (auto simp: normalize_lines_def result_simps)
  note m = merge_lines_ok [OF f _ assms(2)]
  have m': "merged_ok ls" "lines_price lines = lines_price items" "lines_tax lines = lines_tax items"
    using m by (simp_all add: merged_ok_def l) (simp_all add: lines_price_def lines_tax_def)
  show "\<forall>l \<in> set lines. line_ok l" using m'(1) by (auto simp: merged_ok_def l)
  have "map sl_variant lines = map fst ls" using m'(1) by (auto simp: merged_ok_def l)
  then show "distinct (map sl_variant lines)" using m'(1) by (simp add: merged_ok_def)
  show "lines_price lines = lines_price items" "lines_tax lines = lines_tax items" by (rule m')+
qed

text \<open>The sums of the invoice are exact.\<close>

lemma items_exact:
  assumes ok: "\<forall>l \<in> set lines. line_ok l" and p: "lines_price lines < 10 ^ 16" and t: "lines_tax lines < 10 ^ 16"
  shows "items_subtotal L (map (price_item L vs) lines) = lines_price lines"
    and "items_tax L (map (price_item L vs) lines) = lines_tax lines"
    and "items_total L (map (price_item L vs) lines) = lines_price lines + lines_tax lines"
proof -
  have exact: "sum_moneyq L (map (\<lambda>l. line_moneyq L (f l) (sl_qty l)) lines) = (\<Sum>l\<leftarrow>lines. f l * of_int (sl_qty l))"
    if f: "\<And>l. l \<in> set lines \<Longrightarrow> has_places 2 (f l) \<and> 0 \<le> f l" and b: "(\<Sum>l\<leftarrow>lines. f l * of_int (sl_qty l)) < 10 ^ 16" for f
  proof -
    let ?ls = "map (\<lambda>l. (f l, sl_qty l)) lines"
    have "(\<Sum>(u, q)\<leftarrow>?ls. \<bar>u * of_int q\<bar>) = (\<Sum>l\<leftarrow>lines. f l * of_int (sl_qty l))"
    proof -
      have "(\<Sum>(u, q)\<leftarrow>?ls. \<bar>u * of_int q\<bar>) = (\<Sum>l\<leftarrow>lines. \<bar>f l * of_int (sl_qty l)\<bar>)" by (simp add: comp_def)
      also have "map (\<lambda>l. \<bar>f l * of_int (sl_qty l)\<bar>) lines = map (\<lambda>l. f l * of_int (sl_qty l)) lines"
        by (rule map_cong) (use f ok in \<open>auto simp: line_ok_def abs_mult\<close>)
      finally show ?thesis .
    qed
    with b have "(\<Sum>(u, q)\<leftarrow>?ls. \<bar>u * of_int q\<bar>) < 10 ^ 18" by simp
    then have "sum_moneyq L (map (\<lambda>(u, q). line_moneyq L u q) ?ls) = (\<Sum>(u, q)\<leftarrow>?ls. u * of_int q)"
      by (intro sum_lines_exact) (use f in auto)
    then show ?thesis by (simp add: comp_def)
  qed
  have id: "l \<in> set lines \<Longrightarrow> moneyq L (sl_price l) = sl_price l \<and> moneyq L (sl_tax l) = sl_tax l" for l
    using ok by (simp add: line_ok_def moneyq_id)
  have "map (\<lambda>i. line_moneyq L (pi_price i) (pi_qty i)) (map (price_item L vs) lines) = map (\<lambda>l. line_moneyq L (sl_price l) (sl_qty l)) lines"
    "map (\<lambda>i. line_moneyq L (pi_tax i) (pi_qty i)) (map (price_item L vs) lines) = map (\<lambda>l. line_moneyq L (sl_tax l) (sl_qty l)) lines"
    using id by simp_all
  then show s: "items_subtotal L (map (price_item L vs) lines) = lines_price lines"
    and x: "items_tax L (map (price_item L vs) lines) = lines_tax lines"
    unfolding items_subtotal_def items_tax_def lines_price_def lines_tax_def
    by (simp_all only:) (rule exact; use ok p t in \<open>simp add: line_ok_def lines_price_def lines_tax_def\<close>)+
  have pl: "has_places 2 (lines_price lines + lines_tax lines)" unfolding lines_price_def lines_tax_def
    by (intro has_places_add has_places_sum_list has_places_mult_int) (use ok in \<open>simp_all add: line_ok_def\<close>)
  have nn: "0 \<le> lines_price lines" "0 \<le> lines_tax lines" unfolding lines_price_def lines_tax_def
    by (rule sum_list_map_nonneg, use ok in \<open>auto simp: line_ok_def intro!: mult_nonneg_nonneg\<close>)+
  have "fits20 (lines_price lines + lines_tax lines)" by (rule cents_fits20 [OF pl]) (use nn p t in simp)
  then show "items_total L (map (price_item L vs) lines) = lines_price lines + lines_tax lines"
    unfolding items_total_def s x using pl by (simp add: plus_exact moneyq_id)
qed

end

section \<open>The handlers keep the invariant\<close>

lemma post_sale_invoice:
  assumes "post_sale L C x dto locked lines d = Inr (i, d')"
  shows "\<exists>branch codes customer vs. i = sale_invoice L C x dto branch codes customer (linked_cashier (sx_tenant x) dto d)
            (linked_seller (sx_tenant x) dto d) (linked_shift (sx_tenant x) dto d) (map (price_item L vs) lines)
          \<and> moneyq L (cs_local_total dto) = moneyq L (items_total L (map (price_item L vs) lines))"
  by (rule post_saleE [OF assms]) blast

lemma create_saleE:
  assumes "create_sale L H C dto terminal d = Inr (i, d')"
  obtains (replay) x lines locked where "sale_context L H C dto terminal = Inr (x, lines)" "lock_terminal terminal dto d = Inr locked"
      "find_sale (sx_tenant x) (cs_sync_id dto) d = Some i"
      "same_accounting_context dto (pt_id terminal) (sx_sequence x) (sx_fingerprint x) i" "d' = d"
  | (posted) x lines locked where "sale_context L H C dto terminal = Inr (x, lines)" "lock_terminal terminal dto d = Inr locked"
      "find_sale (sx_tenant x) (cs_sync_id dto) d = None" "post_sale L C x dto locked lines d = Inr (i, d')"
proof -
  from assms obtain x lines where x: "sale_context L H C dto terminal = Inr (x, lines)"
    and t: "sale_transaction L C x dto terminal lines d = Inr (i, d')" by (auto simp: create_sale_def result_simps)
  from t obtain locked where l: "lock_terminal terminal dto d = Inr locked" by (auto simp: sale_transaction_def result_simps)
  show thesis
  proof (cases "find_sale (sx_tenant x) (cs_sync_id dto) d")
    case None
    then show thesis using posted [OF x l None] t l by (simp add: sale_transaction_def)
  next
    case (Some e)
    then have "same_accounting_context dto (pt_id terminal) (sx_sequence x) (sx_fingerprint x) i" "e = i" "d' = d"
      using t l by (auto simp: sale_transaction_def and_then_Inr_iff throw_if_Inr_iff)
    then show thesis using replay [OF x l] Some by blast
  qed
qed

lemma sale_contextE:
  assumes "sale_context L H C dto terminal = Inr (x, lines)"
  shows "normalize_lines L (cs_items dto) = Inr lines" and "sx_terminal x = pt_id terminal" and "sx_received x = sv_now C"
    and "sale_context L H C' dto terminal = Inr (x\<lparr>sx_received := sv_now C'\<rparr>, lines)"
  using assms by (auto simp: sale_context_def Let_def result_simps)

lemma create_sale_effect:
  assumes L: "decimal_js L" and inv: "sales_inv d" and req: "sale_ok dto"
    and run: "create_sale L H C dto terminal d = Inr (i, d')"
  shows "sales_inv d'" and "terminal_places d' = terminal_places d" and "\<exists>new. sd_invoices d' = sd_invoices d @ new"
    and "rt_branches d' = rt_branches d"
proof -
  have "sales_inv d' \<and> terminal_places d' = terminal_places d \<and> (\<exists>new. sd_invoices d' = sd_invoices d @ new) \<and> rt_branches d' = rt_branches d"
  proof (rule create_saleE [OF run])
    fix x lines locked
    assume x: "sale_context L H C dto terminal = Inr (x, lines)" and post: "post_sale L C x dto locked lines d = Inr (i, d')"
    have docs: "documents_ok d" and ret: "returned_ok d" using inv by (simp_all add: sales_inv_def)
    have led: "ledger_inv d" "plain_branches d" using inv by (simp_all add: sales_inv_def)
    note e = post_sale_effect [OF post led]
    note f = e(2) [unfolded sale_frame_def]
    have ok: "\<forall>l \<in> set lines. line_ok l"
      by (rule decimal_js.normalized_lines(1) [OF L sale_contextE(1) [OF x]]) (use req in \<open>simp add: sale_ok_def\<close>)
    have qty: "0 \<le> pi_qty s" if "s \<in> set (in_items i)" for s
    proof -
      have "map pi_qty (in_items i) = map sl_qty lines" using post_sale_invoice [OF post] by (auto simp: comp_def)
      then have "pi_qty s \<in> sl_qty ` set lines" using that by (metis image_eqI set_map)
      then show ?thesis using ok by (auto simp: line_ok_def)
    qed
    have ai: "all_items d' = all_items d @ in_items i" by (simp add: all_items_def e(3))
    have rets: "sd_returns d' = sd_returns d" using f by simp
    have docs': "documents_ok d'"
      using docs e(5-8) unfolding documents_ok_def ai rets e(3) by (force simp: image_iff)
    have "returned_ok d'" unfolding returned_ok_def e(3) already_returned_same [OF rets]
    proof (intro ballI)
      fix j s assume j: "j \<in> set (sd_invoices d @ [i])" and s: "s \<in> set (in_items j)"
      show "already_returned (in_tenant j) (ii_id s) d \<le> pi_qty s"
      proof (cases "j = i")
        case True
        then have "ii_id s \<notin> ii_id ` set (all_items d)" using e(8) s by (metis imageE imageI)
        then show ?thesis using not_returned_yet [OF docs] qty s True by simp
      next
        case False
        then show ?thesis using ret j s by (simp add: returned_ok_def)
      qed
    qed
    moreover have "cost_inv d'" using inv f by (subst cost_inv_same [of d' d]) (simp_all add: sales_inv_def)
    ultimately show ?thesis using e(1,3) docs' led(2) f by (simp add: sales_inv_def plain_branches_def)
  qed (use inv in simp)
  then show "sales_inv d'" "terminal_places d' = terminal_places d" "\<exists>new. sd_invoices d' = sd_invoices d @ new"
    "rt_branches d' = rt_branches d" by auto
qed

section \<open>Cash of a shift\<close>

text \<open>The cash a drawer should hold: what it opened with, and the cash documents of the shift.\<close>

definition drawer_cash :: "shift_row \<Rightarrow> ('a sales_db_scheme) \<Rightarrow> rat" where
  "drawer_cash s d = sh_opening_cash s + sum_cash_sales (sh_tenant s) (sh_id s) d - sum_cash_returns (sh_tenant s) (sh_id s) d"

text \<open>A closed shift expects that, but for an amount \<open>x\<close> it missed, and its difference is what was counted less what it expects.\<close>

definition accounted :: "rat \<Rightarrow> shift_row \<Rightarrow> ('a sales_db_scheme) \<Rightarrow> bool" where
  "accounted x s d \<longleftrightarrow>
     sh_expected_cash s = Some (drawer_cash s d - x)
     \<and> (\<exists>c. sh_closing_cash s = Some c \<and> sh_difference s = Some (c - (drawer_cash s d - x)))"

definition money_column :: "rat \<Rightarrow> bool" where
  "money_column x \<longleftrightarrow> has_places 2 x \<and> fits_numeric 12 2 x"

definition cash_inv :: "(id \<Rightarrow> rat) \<Rightarrow> ('a sales_db_scheme) \<Rightarrow> bool" where
  "cash_inv m d \<longleftrightarrow>
     distinct (map sh_id (sd_shifts d)) \<and> (\<forall>i \<in> set (sd_invoices d). money_column (in_total i))
     \<and> (\<forall>r \<in> set (sd_returns d). money_column (re_total r))
     \<and> (\<forall>s \<in> set (sd_shifts d). money_column (sh_opening_cash s) \<and> (sh_status s = ''closed'' \<longrightarrow> accounted (m (sh_id s)) s d))"

definition cash_sale_of :: "shift_row \<Rightarrow> invoice_row \<Rightarrow> bool" where
  "cash_sale_of s i \<longleftrightarrow> in_tenant i = sh_tenant s \<and> in_shift i = Some (sh_id s) \<and> in_status i = ''completed'' \<and> in_payment i = ''cash''"

lemma sum_cash_sales_append:
  assumes "sd_invoices d' = sd_invoices d @ [i]"
  shows "sum_cash_sales (sh_tenant s) (sh_id s) d' = sum_cash_sales (sh_tenant s) (sh_id s) d + (if cash_sale_of s i then in_total i else 0)"
  by (simp add: sum_cash_sales_def assms cash_sale_of_def)

lemma sum_cash_returns_invoice:
  assumes docs: "documents_ok d" and inv: "sd_invoices d' = sd_invoices d @ [i]" and ret: "sd_returns d' = sd_returns d"
    and new: "\<forall>y \<in> set (sd_invoices d). in_id y \<noteq> in_id i"
  shows "sum_cash_returns t k d' = sum_cash_returns t k d"
proof -
  have "paid_in_cash t (re_invoice r) d' = paid_in_cash t (re_invoice r) d" if "r \<in> set (sd_returns d)" for r
    using docs new that by (fastforce simp: paid_in_cash_def inv documents_ok_def)
  then have "filter (\<lambda>r. re_tenant r = t \<and> re_shift r = Some k \<and> re_status r = ''completed'' \<and> paid_in_cash t (re_invoice r) d') (sd_returns d)
      = filter (\<lambda>r. re_tenant r = t \<and> re_shift r = Some k \<and> re_status r = ''completed'' \<and> paid_in_cash t (re_invoice r) d) (sd_returns d)"
    by (intro filter_cong) auto
  then show ?thesis by (simp add: sum_cash_returns_def ret)
qed

lemma linked_shiftE:
  assumes "linked_shift t dto d = Some s"
  shows "s \<in> set (sd_shifts d)" and "sh_tenant s = t" and "sh_id s = cs_shift dto"
  using assms find_Some_iff_set [of _ "sd_shifts d"] by (auto simp: linked_shift_def split: option.splits if_splits)

text \<open>A sale keeps the cash of closed shifts accounted, as it corrects the shift it came too late for.\<close>

lemma sale_keeps_cash:
  assumes L: "decimal_js L" and inv: "sales_inv d" and cash: "cash_inv m d"
    and post: "post_sale L C x dto locked lines d = Inr (i, d')"
  shows "cash_inv m d'"
proof -
  have docs: "documents_ok d" and led: "ledger_inv d" "plain_branches d" using inv by (simp_all add: sales_inv_def)
  note e = post_sale_effect [OF post led]
  have rets: "sd_returns d' = sd_returns d" using e(2) by (simp add: sale_frame_def)
  let ?shift = "linked_shift (sx_tenant x) dto d"
  from post_sale_invoice [OF post] obtain branch codes customer vs where
    i: "i = sale_invoice L C x dto branch codes customer (linked_cashier (sx_tenant x) dto d)
          (linked_seller (sx_tenant x) dto d) ?shift (map (price_item L vs) lines)" by blast
  have f: "in_tenant i = sx_tenant x" "in_shift i = map_option sh_id ?shift" "in_status i = ''completed''" "in_payment i = cs_payment dto"
    by (simp_all add: i)
  have total_ok: "money_column (in_total i)"
  proof -
    have "has_places 2 (in_total i)" by (simp add: i items_total_def decimal_js.moneyq_places [OF L])
    moreover have "fits_numeric 12 2 (in_total i)" by (rule post_saleE [OF post]) (auto simp: insert_invoice_def result_simps)
    ultimately show ?thesis by (simp add: money_column_def)
  qed
  have dist: "distinct (map sh_id (sd_shifts d))" using cash by (simp add: cash_inv_def)
  have ids: "map sh_id (sd_shifts d') = map sh_id (sd_shifts d)"
    by (simp add: e(4) after_late_sale_def add_late_cash_def comp_def if_distrib cong: if_cong split: option.splits)
  have sums: "drawer_cash s d' = drawer_cash s d + (if cash_sale_of s i then in_total i else 0)" for s
    using sum_cash_sales_append [OF e(3), of s] sum_cash_returns_invoice [OF docs e(3) rets] e(6)
    by (simp add: drawer_cash_def)
  have shift: "money_column (sh_opening_cash s') \<and> (sh_status s' = ''closed'' \<longrightarrow> accounted (m (sh_id s')) s' d')" if s': "s' \<in> set (sd_shifts d')" for s'
  proof -
    let ?late = "\<lambda>s. \<exists>l. ?shift = Some l \<and> sh_status l = ''closed'' \<and> cs_payment dto = ''cash'' \<and> sh_expected_cash l \<noteq> None
                  \<and> sh_difference l \<noteq> None \<and> sh_id s = sh_id l"
    obtain s where s: "s \<in> set (sd_shifts d)" and e': "s' = (if ?late s then add_late_cash (in_total i) s else s)"
      using s' by (auto simp: e(4) after_late_sale_def f(4) split: option.splits if_splits)
    have a: "money_column (sh_opening_cash s)" "sh_status s = ''closed'' \<longrightarrow> accounted (m (sh_id s)) s d" using cash s by (auto simp: cash_inv_def)
    have same: "s = l" if "?shift = Some l" "sh_id s = sh_id l" for l
      using linked_shiftE(1) [OF that(1)] s that(2) dist by (auto simp: distinct_map dest: inj_onD)
    show ?thesis
    proof (cases "?late s")
      case True
      then obtain l where l: "?shift = Some l" "sh_status l = ''closed''" "cs_payment dto = ''cash''" "sh_id s = sh_id l" by blast
      have sl: "s = l" by (rule same [OF l(1,4)])
      then have c: "cash_sale_of s i" using l linked_shiftE [OF l(1)] by (simp add: cash_sale_of_def f)
      have e'': "s' = add_late_cash (in_total i) s" by (rule trans [OF e' if_P [OF True]])
      have d2: "drawer_cash s' d' = drawer_cash s d + in_total i"
        using sums [of s] c by (simp add: e'' drawer_cash_def add_late_cash_def)
      have acc: "accounted (m (sh_id s)) s d" using a(2) l(2) sl by simp
      obtain c where c': "sh_closing_cash s = Some c" "sh_expected_cash s = Some (drawer_cash s d - m (sh_id s))"
          "sh_difference s = Some (c - (drawer_cash s d - m (sh_id s)))" using acc by (auto simp: accounted_def)
      have "accounted (m (sh_id s')) s' d'"
        unfolding accounted_def d2 by (intro conjI exI [of _ c]) (simp_all add: e'' add_late_cash_def c')
      then show ?thesis using a(1) by (simp add: e'' add_late_cash_def)
    next
      case False
      have e'': "s' = s" by (rule trans [OF e' if_not_P [OF False]])
      have "\<not> cash_sale_of s i" if closed: "sh_status s = ''closed''"
      proof
        assume c: "cash_sale_of s i"
        then obtain l where l: "?shift = Some l" "sh_id s = sh_id l" by (auto simp: cash_sale_of_def f)
        have "accounted (m (sh_id s)) s d" using a(2) closed by simp
        then have "sh_expected_cash s \<noteq> None" "sh_difference s \<noteq> None" by (auto simp: accounted_def)
        then show False using False c closed l same [OF l] by (auto simp: cash_sale_of_def f)
      qed
      then show ?thesis using a sums [of s] by (auto simp: e'' accounted_def)
    qed
  qed
  then show ?thesis using cash total_ok dist ids by (auto simp: cash_inv_def e(3) rets)
qed

text \<open>A return belongs to an open shift, so closed ones keep their cash.\<close>

lemma return_keeps_cash:
  assumes L: "decimal_js L" and inv: "sales_inv d" and cash: "cash_inv m d"
    and run: "create_return L q C tenant user dto d = Inr (r, d')"
  shows "cash_inv m d'"
proof -
  note e = create_return_effect [OF inv run]
  obtain original shift items d1 where
    sh: "return_shift tenant user original d = Inr shift" and r: "r = return_of L C tenant user dto original shift items"
    and d1: "insert_return r d = Inr d1"
    by (rule create_returnE [OF run]) (rule that; assumption)
  have total_ok: "money_column (re_total r)"
  proof -
    have "has_places 2 (re_total r)" by (simp add: r decimal_js.moneyq_places [OF L])
    moreover have "fits_numeric 12 2 (re_total r)" using d1 by (auto simp: insert_return_def result_simps)
    ultimately show ?thesis by (simp add: money_column_def)
  qed
  have dist: "distinct (map sh_id (sd_shifts d))" using cash by (simp add: cash_inv_def)
  have "drawer_cash s d' = drawer_cash s d" if s: "s \<in> set (sd_shifts d)" and closed: "sh_status s = ''closed''" for s
  proof -
    have "\<not> (re_shift r = Some (sh_id s))"
    proof
      assume a: "re_shift r = Some (sh_id s)"
      then obtain o1 where o: "find (\<lambda>s. sh_tenant s = tenant \<and> sh_branch s = in_branch original \<and> sh_status s = ''open'') (sd_shifts d) = Some o1"
        and id: "sh_id o1 = sh_id s" using sh by (auto simp: r return_shift_def result_simps split: if_splits)
      have "o1 \<in> set (sd_shifts d)" "sh_status o1 = ''open''" using find_Some_iff_set [OF o] by auto
      moreover have "o1 = s" using calculation(1) s id dist by (auto simp: distinct_map dest: inj_onD)
      ultimately show False using closed by simp
    qed
    moreover have "paid_in_cash t k d' = paid_in_cash t k d" for t k by (simp add: paid_in_cash_def e(2))
    ultimately show ?thesis by (simp add: drawer_cash_def sum_cash_sales_def sum_cash_returns_def e(2,3))
  qed
  then show ?thesis using cash total_ok by (auto simp: cash_inv_def e(2-4) accounted_def)
qed

lemma drawer_cash_shifts [simp]: "drawer_cash s (d\<lparr>sd_shifts := ss\<rparr>) = drawer_cash s d"
proof -
  have "paid_in_cash t k (d\<lparr>sd_shifts := ss\<rparr>) = paid_in_cash t k d" for t k by (simp add: paid_in_cash_def)
  then show ?thesis by (simp add: drawer_cash_def sum_cash_sales_def sum_cash_returns_def)
qed

lemma shifts_only:
  assumes "d' = d\<lparr>sd_shifts := ss\<rparr>"
  shows "sales_inv d' = sales_inv d" and "terminal_places d' = terminal_places d" and "sd_invoices d' = sd_invoices d"
    and "sd_returns d' = sd_returns d" and "rt_branches d' = rt_branches d"
proof -
  have "all_items d' = all_items d" "already_returned t k d' = already_returned t k d" for t k
    by (simp_all add: assms all_items_def already_returned_def)
  moreover have "ledger_inv d' = ledger_inv d" using pending_frame [of d "{}" d'] pending_frame [of d' "{}" d] by (auto simp: assms pending_none)
  moreover have "cost_inv d' = cost_inv d" by (rule cost_inv_same) (simp_all add: assms)
  ultimately show "sales_inv d' = sales_inv d" by (simp add: sales_inv_def documents_ok_def returned_ok_def plain_branches_def) (simp add: assms)
qed (simp_all add: assms terminal_places_def)

lemma open_shift_effect:
  assumes "open_shift C t b user c d = Inr (s, d')"
  shows "\<exists>ss. d' = d\<lparr>sd_shifts := ss\<rparr>" and "cash_inv m d \<Longrightarrow> cash_inv m d'"
proof -
  from assms consider "d' = d" | s where "d' = d\<lparr>sd_shifts := sd_shifts d @ [s]\<rparr>" "sh_status s = ''open''"
      "money_column (sh_opening_cash s)" "\<forall>x \<in> set (sd_shifts d). sh_id x \<noteq> sh_id s"
    by (auto simp: open_shift_def save_shift_def Let_def result_simps list_ex_iff money_column_def split: option.splits)
  note cases = this
  show "\<exists>ss. d' = d\<lparr>sd_shifts := ss\<rparr>"
  proof (cases rule: cases)
    case 1
    then have "d' = d\<lparr>sd_shifts := sd_shifts d\<rparr>" by simp
    then show ?thesis by blast
  qed blast
  show "cash_inv m d \<Longrightarrow> cash_inv m d'"
  proof (cases rule: cases)
    case 2
    assume "cash_inv m d"
    then show ?thesis using 2(2-) by (auto simp: cash_inv_def 2(1) accounted_def)
  qed simp
qed

text \<open>The documents that make up a drawer's cash stay in the range of the decimal package while there are fewer
  than ten million of them.\<close>

definition few_documents :: "('a sales_db_scheme) \<Rightarrow> bool" where
  "few_documents d \<longleftrightarrow> length (sd_invoices d) + length (sd_returns d) < 10 ^ 7"

lemma sum_columns:
  assumes "\<forall>x \<in> set xs. money_column (f x)"
  shows "has_places 2 (\<Sum>x\<leftarrow>xs. f x)" and "\<bar>\<Sum>x\<leftarrow>xs. f x\<bar> \<le> of_nat (length xs) * 10 ^ 10"
  using assms
proof (induction xs)
  case (Cons x xs)
  {
    case 1
    then show ?case using Cons.IH(1) by (auto simp: money_column_def intro: places_intro)
  next
    case 2
    then have "\<bar>f x\<bar> \<le> 10 ^ 10" by (auto simp: money_column_def fits_numeric_def)
    moreover have "\<bar>\<Sum>x\<leftarrow>xs. f x\<bar> \<le> of_nat (length xs) * 10 ^ 10" using Cons.IH(2) 2 by simp
    ultimately show ?case by (simp add: algebra_simps)
  }
qed simp_all

context decimal_js
begin

lemma drawer_sums_exact:
  assumes "cash_inv m1 d1" "few_documents d1" and "cash_inv m2 d2" "few_documents d2" and "money_column opening"
  shows "dec_places L 2 (dec_minus L (dec_plus L opening (sum_cash_sales t k d1)) (sum_cash_returns t k d2))
      = opening + sum_cash_sales t k d1 - sum_cash_returns t k d2"
    and "has_places 2 (opening + sum_cash_sales t k d1 - sum_cash_returns t k d2)"
proof -
  let ?a = "sum_cash_sales t k d1" and ?b = "sum_cash_returns t k d2" and ?r = "opening + sum_cash_sales t k d1 - sum_cash_returns t k d2"
  have o: "has_places 2 opening" "\<bar>opening\<bar> < 10 ^ 10" using assms(5) by (auto simp: money_column_def fits_numeric_def)
  have ia: "\<forall>i \<in> set (filter P (sd_invoices d1)). money_column (in_total i)" for P using assms(1) by (simp add: cash_inv_def)
  have rb: "\<forall>r \<in> set (filter P (sd_returns d2)). money_column (re_total r)" for P using assms(3) by (simp add: cash_inv_def)
  have n: "(of_nat (length (filter P xs)) :: rat) * 10 ^ 10 \<le> of_nat (length xs) * 10 ^ 10" for P and xs :: "'x list"
    by (intro mult_right_mono) simp_all
  have a: "has_places 2 ?a" "\<bar>?a\<bar> \<le> of_nat (length (sd_invoices d1)) * 10 ^ 10"
    unfolding sum_cash_sales_def by (rule sum_columns(1) [OF ia]) (rule order_trans [OF sum_columns(2) [OF ia] n])
  have b: "has_places 2 ?b" "\<bar>?b\<bar> \<le> of_nat (length (sd_returns d2)) * 10 ^ 10"
    unfolding sum_cash_returns_def by (rule sum_columns(1) [OF rb]) (rule order_trans [OF sum_columns(2) [OF rb] n])
  have few: "(of_nat k :: rat) * 10 ^ 10 < 10 ^ 17" if "k < 10 ^ 7" for k
  proof -
    have "(of_nat k :: rat) < of_nat (10 ^ 7)" using that by (simp only: of_nat_less_iff)
    then show ?thesis by simp
  qed
  have "length (sd_invoices d1) < 10 ^ 7" "length (sd_returns d2) < 10 ^ 7" using assms(2,4) by (simp_all add: few_documents_def)
  then have r: "\<bar>?a\<bar> < 10 ^ 17" "\<bar>?b\<bar> < 10 ^ 17" using a(2) b(2) few le_less_trans by blast+
  have e: "(10::rat) ^ 10 = 10000000000" "(10::rat) ^ 17 = 100000000000000000" "(10::rat) ^ 18 = 1000000000000000000" by simp_all
  have "fits20 (opening + ?a)" by (rule cents_fits20) (use o a r e in \<open>auto intro: places_intro\<close>)
  moreover have d2: "has_places 2 ?r" using o a b by (intro places_intro)
  moreover have "fits20 ?r" by (rule cents_fits20 [OF d2]) (use o r e in auto)
  ultimately show "dec_places L 2 (dec_minus L (dec_plus L opening ?a) ?b) = ?r"
    by (simp add: plus_exact minus_exact places round_places_id)
  show "has_places 2 ?r" by (rule d2)
qed

end

end
