(* ===== verification/Sales_Runs.thy ===== *)
theory Sales_Runs
  imports Sales_Correct
begin

text \<open>
  Runs of the sales handlers: sales, returns, and the opening and closing of shifts, in any order. A sale,
  a return and an opening are transactions; a closing is not, and anything may run between its
  statements. The properties that hold along the runs, what a sale during a closing
  does, and examples.
\<close>

section \<open>Closing a shift\<close>

lemma closed_with_fields [simp]:
  "sh_id (closed_with g s) = sh_id s" "sh_tenant (closed_with g s) = sh_tenant s"
  "sh_opening_cash (closed_with g s) = sh_opening_cash s" "sh_status (closed_with g s) = ''closed''"
  "sh_expected_cash (closed_with g s) = Some (sg_expected g)" "sh_difference (closed_with g s) = Some (sg_difference g)"
  "sh_closing_cash (closed_with g s) = Some (round_places 2 (sg_cash g))"
  by (simp_all add: closed_with_def)

lemma drawer_cash_closed [simp]: "drawer_cash (closed_with g s) d = drawer_cash s d"
  by (simp add: drawer_cash_def)

lemma accounted_shifts [simp]: "accounted x s (d\<lparr>sd_shifts := ss\<rparr>) = accounted x s d"
  by (simp add: accounted_def)

definition to_close :: "id \<Rightarrow> shift_closing \<Rightarrow> shift_row \<Rightarrow> bool" where
  "to_close tenant g s \<longleftrightarrow> sh_id s = sg_id g \<and> sh_tenant s = tenant \<and> sh_status s = ''open''"

lemma close_shift_writeE:
  assumes "close_shift_write tenant g d = Inr (r, d')"
  shows "d' = d\<lparr>sd_shifts := map (\<lambda>s. if to_close tenant g s then closed_with g s else s) (sd_shifts d)\<rparr>"
    and "fits_numeric 12 2 (sg_cash g)" and "fits_numeric 12 2 (sg_expected g)" and "\<exists>s \<in> set (sd_shifts d). to_close tenant g s"
proof -
  have e: "close_if_open tenant g d = (length (filter (to_close tenant g) (sd_shifts d)),
      d\<lparr>sd_shifts := map (\<lambda>s. if to_close tenant g s then closed_with g s else s) (sd_shifts d)\<rparr>)"
    by (simp add: close_if_open_def Let_def to_close_def [abs_def])
  from assms have g: "fits_numeric 12 2 (sg_cash g)" "fits_numeric 12 2 (sg_expected g)" "length (filter (to_close tenant g) (sd_shifts d)) = 1"
    "d' = d\<lparr>sd_shifts := map (\<lambda>s. if to_close tenant g s then closed_with g s else s) (sd_shifts d)\<rparr>"
    by (simp_all add: close_shift_write_def e result_simps)
  then show "d' = d\<lparr>sd_shifts := map (\<lambda>s. if to_close tenant g s then closed_with g s else s) (sd_shifts d)\<rparr>"
    "fits_numeric 12 2 (sg_cash g)" "fits_numeric 12 2 (sg_expected g)" by simp_all
  have "filter (to_close tenant g) (sd_shifts d) \<noteq> []" using g(3) by auto
  then show "\<exists>s \<in> set (sd_shifts d). to_close tenant g s" by (auto simp: filter_empty_conv)
qed

lemma close_shift_checkE:
  assumes "close_shift_check is_uuid tenant i user d = Inr s"
  shows "s \<in> set (sd_shifts d)" and "sh_tenant s = tenant" and "sh_status s = ''open''"
  using assms find_Some_iff_set [of _ "sd_shifts d"] by (auto simp: close_shift_check_def result_simps find_shift_def)

text \<open>What a closing writes is exact for the sums it read, each at its own moment.\<close>

lemma closing_exact:
  assumes L: "decimal_js L" and c1: "cash_inv m1 d1" "few_documents d1" and c2: "cash_inv m2 d2" "few_documents d2"
    and o: "money_column (sh_opening_cash s)" and p: "has_places 2 closing"
    and g: "g = closing_of L user now closing s (sum_cash_sales t (sh_id s) d1) (sum_cash_returns t (sh_id s) d2)"
    and fit: "fits_numeric 12 2 (sg_cash g)" "fits_numeric 12 2 (sg_expected g)"
  shows "sg_expected g = sh_opening_cash s + sum_cash_sales t (sh_id s) d1 - sum_cash_returns t (sh_id s) d2"
    and "sg_difference g = closing - sg_expected g"
proof -
  note x = decimal_js.drawer_sums_exact [OF L c1 c2 o, of t "sh_id s"]
  show e: "sg_expected g = sh_opening_cash s + sum_cash_sales t (sh_id s) d1 - sum_cash_returns t (sh_id s) d2"
    using x(1) by (simp add: g closing_of_def Let_def)
  have d2: "has_places 2 (closing - sg_expected g)" unfolding e by (rule has_places_diff [OF p x(2)])
  have "\<bar>closing\<bar> < 10000000000" "\<bar>sg_expected g\<bar> < 10000000000" using fit by (simp_all add: fits_numeric_def g closing_of_def Let_def)
  then have "fits20 (closing - sg_expected g)" by (intro cents_fits20 [OF d2]) simp
  moreover have "sg_difference g = dec_places L 2 (dec_minus L closing (sg_expected g))" by (simp add: g closing_of_def Let_def)
  ultimately show "sg_difference g = closing - sg_expected g"
    by (simp add: decimal_js.minus_exact [OF L] decimal_js.places [OF L] round_places_id [OF d2])
qed


section \<open>Refunds\<close>

text \<open>The amounts of an invoice as a sale leaves them, and the case in which a refund takes the tax of
  each unit: every unit was taxed, or nothing was.\<close>

definition item_sum :: "('i \<Rightarrow> rat) \<Rightarrow> ('i \<Rightarrow> int) \<Rightarrow> 'i list \<Rightarrow> rat" where
  "item_sum amount qty items = (\<Sum>i\<leftarrow>items. amount i * of_int (qty i))"

definition whole_cents :: "rat \<Rightarrow> bool" where
  "whole_cents x \<longleftrightarrow> has_places 2 x \<and> 0 \<le> x"

definition invoice_sums :: "invoice_row \<Rightarrow> bool" where
  "invoice_sums i \<longleftrightarrow>
     (\<forall>s \<in> set (in_items i). whole_cents (pi_price s) \<and> whole_cents (pi_tax s) \<and> 0 \<le> pi_qty s)
     \<and> in_subtotal i = item_sum pi_price pi_qty (in_items i) \<and> in_tax i = item_sum pi_tax pi_qty (in_items i)
     \<and> in_total i = in_subtotal i + in_tax i \<and> in_subtotal i < 10 ^ 16 \<and> in_tax i < 10 ^ 16"

definition evenly_taxed :: "invoice_row \<Rightarrow> bool" where
  "evenly_taxed i \<longleftrightarrow> in_tax i = 0 \<or> (\<forall>s \<in> set (in_items i). pi_tax s \<noteq> 0)"

definition pays_back :: "invoice_row \<Rightarrow> return_row \<Rightarrow> bool" where
  "pays_back i r \<longleftrightarrow>
     re_total r = item_sum (\<lambda>x. ri_price x + ri_tax x) ri_qty_back (re_items r)
     \<and> (\<forall>x \<in> set (re_items r). \<exists>s \<in> set (in_items i). ii_id s = ri_sale_item x \<and> ri_price x = pi_price s \<and> ri_tax x = pi_tax s)"

definition refund_inv :: "('a sales_db_scheme) \<Rightarrow> bool" where
  "refund_inv d \<longleftrightarrow>
     (\<forall>i \<in> set (sd_invoices d). invoice_sums i)
     \<and> (\<forall>r \<in> set (sd_returns d). re_status r = ''completed'' \<and> (\<forall>x \<in> set (re_items r). 0 < ri_qty_back x)
          \<and> (\<forall>i \<in> set (sd_invoices d). in_id i = re_invoice r \<longrightarrow> evenly_taxed i \<longrightarrow> pays_back i r))"

lemma sum_single:
  fixes w :: "'s \<Rightarrow> rat"
  assumes "distinct (map f S)" and "s \<in> set S"
  shows "(\<Sum>y\<leftarrow>S. if f y = f s then w y else 0) = w s"
  using assms
proof (induction S)
  case (Cons y S)
  show ?case
  proof (cases "f y = f s")
    case True
    then have "y = s" "\<forall>z \<in> set S. f z \<noteq> f s" using Cons.prems by (auto simp: image_iff)
    moreover from this(2) have "(\<Sum>z\<leftarrow>S. if f z = f s then w z else 0) = (\<Sum>z\<leftarrow>S. 0)" by (intro arg_cong [where f = sum_list] map_cong) auto
    ultimately show ?thesis using True by (simp only: list.map sum_list.Cons if_True) (simp add: sum_list_0)
  qed (use Cons in auto)
qed simp

text \<open>Units that came back, item by item.\<close>

lemma matched_sum:
  assumes dist: "distinct (map ii_id S)" and m: "\<forall>x \<in> set xs. \<exists>s \<in> set S. ii_id s = ri_sale_item x \<and> v x = w s"
  shows "item_sum v ri_qty_back xs = item_sum w (\<lambda>s. units_of (ii_id s) xs) S"
  using m
proof (induction xs)
  case (Cons x xs)
  then obtain s where s: "s \<in> set S" "ii_id s = ri_sale_item x" "v x = w s" by auto
  have u: "of_int (units_of (ii_id y) (x # xs)) = of_int (units_of (ii_id y) xs) + (if ii_id y = ii_id s then of_int (ri_qty_back x) else (0::rat))" for y
    using s(2) by (auto simp: units_of_def)
  have "item_sum w (\<lambda>s. units_of (ii_id s) (x # xs)) S
      = (\<Sum>y\<leftarrow>S. w y * of_int (units_of (ii_id y) xs) + (if ii_id y = ii_id s then w y * of_int (ri_qty_back x) else 0))"
    unfolding item_sum_def u by (intro arg_cong [where f = sum_list] map_cong) (auto simp: distrib_left)
  also have "\<dots> = item_sum w (\<lambda>s. units_of (ii_id s) xs) S + w s * of_int (ri_qty_back x)"
    unfolding sum_list_addf sum_single [OF dist s(1), of "\<lambda>y. w y * of_int (ri_qty_back x)"] by (simp add: item_sum_def)
  finally show ?case using Cons s(3) by (simp add: item_sum_def)
qed (simp add: item_sum_def units_of_def sum_list_0)

lemma item_sum_mono:
  assumes "\<And>s. s \<in> set S \<Longrightarrow> 0 \<le> w s \<and> n s \<le> m s"
  shows "item_sum w n S \<le> item_sum w m S"
  unfolding item_sum_def using assms by (intro sum_list_mono mult_left_mono) auto

lemma item_sum_add: "item_sum (\<lambda>x. f x + g x) n S = item_sum f n S + item_sum g n S"
  by (simp add: item_sum_def distrib_right sum_list_addf)

lemma matched_bound:
  assumes dist: "distinct (map ii_id S)" and m: "\<forall>x \<in> set xs. \<exists>s \<in> set S. ii_id s = ri_sale_item x \<and> v x = w s"
    and b: "\<forall>s \<in> set S. 0 \<le> w s \<and> units_of (ii_id s) xs \<le> pi_qty s"
  shows "item_sum v ri_qty_back xs \<le> item_sum w pi_qty S"
  unfolding matched_sum [OF dist m] by (rule item_sum_mono) (use b in blast)

lemma filter_sum_mono:
  fixes f :: "'x \<Rightarrow> int"
  assumes "\<forall>x \<in> set xs. 0 \<le> f x \<and> (P x \<longrightarrow> Q x)"
  shows "(\<Sum>x\<leftarrow>filter P xs. f x) \<le> (\<Sum>x\<leftarrow>filter Q xs. f x)"
  using assms by (induction xs) auto

lemma units_of_nonneg: "\<forall>x \<in> set xs. 0 < ri_qty_back x \<Longrightarrow> 0 \<le> units_of k xs"
  unfolding units_of_def by (rule sum_list_nonneg) auto

lemma units_of_concat: "units_of k (concat (map re_items rs)) = (\<Sum>r\<leftarrow>rs. units_of k (re_items r))"
  by (induction rs) (simp_all add: units_of_def)

lemma already_returned_units:
  "already_returned t k d = (\<Sum>r\<leftarrow>filter (\<lambda>r. re_tenant r = t \<and> re_status r = ''completed'') (sd_returns d). units_of k (re_items r))"
  by (simp add: already_returned_def units_of_def)

lemma returns_positive: "refund_inv d \<Longrightarrow> r \<in> set (sd_returns d) \<Longrightarrow> \<forall>x \<in> set (re_items r). 0 < ri_qty_back x"
  unfolding refund_inv_def by blast

lemma already_returned_nonneg: "refund_inv d \<Longrightarrow> 0 \<le> already_returned t k d"
  unfolding already_returned_units
  by (rule sum_list_nonneg) (auto intro: units_of_nonneg dest: returns_positive)

text \<open>All that was ever paid back for an invoice.\<close>

definition paid_back :: "invoice_row \<Rightarrow> ('a sales_db_scheme) \<Rightarrow> rat" where
  "paid_back i d = (\<Sum>r\<leftarrow>filter (\<lambda>r. re_invoice r = in_id i) (sd_returns d). re_total r)"

lemma refunds_bounded:
  assumes inv: "sales_inv d" and ref: "refund_inv d" and i: "i \<in> set (sd_invoices d)" and ev: "evenly_taxed i"
  shows "paid_back i d \<le> in_total i"
proof -
  let ?rs = "filter (\<lambda>r. re_invoice r = in_id i) (sd_returns d)"
  let ?xs = "concat (map re_items ?rs)"
  let ?w = "\<lambda>s. pi_price s + pi_tax s"
  have docs: "documents_ok d" and ret: "returned_ok d" using inv by (simp_all add: sales_inv_def)
  have sums: "invoice_sums i" using ref i by (simp add: refund_inv_def)
  have dist: "distinct (map ii_id (in_items i))"
  proof -
    obtain ys zs where "sd_invoices d = ys @ i # zs" using i by (auto simp: in_set_conv_decomp)
    then show ?thesis using docs by (simp add: documents_ok_def all_items_def)
  qed
  have pb: "pays_back i r" if "r \<in> set ?rs" for r using ref i ev that by (simp add: refund_inv_def)
  have "item_sum (\<lambda>x. ri_price x + ri_tax x) ri_qty_back (concat (map re_items rs)) = (\<Sum>r\<leftarrow>rs. re_total r)"
    if "\<forall>r \<in> set rs. pays_back i r" for rs
    using that by (induction rs) (simp_all add: item_sum_def pays_back_def)
  then have e: "paid_back i d = item_sum (\<lambda>x. ri_price x + ri_tax x) ri_qty_back ?xs" using pb by (simp add: paid_back_def)
  have m: "\<forall>x \<in> set ?xs. \<exists>s \<in> set (in_items i). ii_id s = ri_sale_item x \<and> ri_price x + ri_tax x = ?w s"
    using pb by (fastforce simp: pays_back_def)
  have "re_tenant r = in_tenant i" if r: "r \<in> set ?rs" for r
  proof -
    obtain j where j: "j \<in> set (sd_invoices d)" "in_id j = re_invoice r" "in_tenant j = re_tenant r"
      using docs r by (auto simp: documents_ok_def)
    have "j = i" using j(1,2) i r docs inj_onD [of in_id "set (sd_invoices d)" j i] by (simp add: documents_ok_def distinct_map)
    with j show ?thesis by simp
  qed
  then have t: "re_invoice r = in_id i \<longrightarrow> re_tenant r = in_tenant i \<and> re_status r = ''completed''" if "r \<in> set (sd_returns d)" for r
    using that ref by (simp add: refund_inv_def)
  have "units_of (ii_id s) ?xs \<le> pi_qty s" if s: "s \<in> set (in_items i)" for s
  proof -
    have "units_of (ii_id s) ?xs \<le> already_returned (in_tenant i) (ii_id s) d"
      unfolding units_of_concat already_returned_units
      using t returns_positive [OF ref] by (intro filter_sum_mono) (auto intro: units_of_nonneg)
    also have "\<dots> \<le> pi_qty s" using ret i s by (simp add: returned_ok_def)
    finally show ?thesis .
  qed
  then have "item_sum (\<lambda>x. ri_price x + ri_tax x) ri_qty_back ?xs \<le> item_sum ?w pi_qty (in_items i)"
    using sums by (intro matched_bound [OF dist m]) (simp add: invoice_sums_def whole_cents_def)
  also have "\<dots> = in_total i" using sums by (simp add: invoice_sums_def item_sum_add)
  finally show ?thesis by (simp add: e)
qed

context decimal_js
begin

lemma unit_tax_back_even:
  assumes "evenly_taxed i" and "invoice_sums i" and "s \<in> set (in_items i)"
  shows "unit_tax_back L i s = pi_tax s"
proof -
  have c: "has_places 2 (pi_tax s)" using assms(2,3) by (simp add: invoice_sums_def whole_cents_def)
  have "moneyq L (dec_div L (dec_mul L (pi_price s) 0) x) = 0" if "0 < x" for x
    using that mul_exact [of "pi_price s" 0] div_exact [of x 0] by (simp add: moneyq_id)
  then show ?thesis using assms(1,3) c by (auto simp: unit_tax_back_def Let_def moneyq_id evenly_taxed_def)
qed

text \<open>What a return pays back is exact.\<close>

lemma item_sum_moneyq:
  assumes "\<forall>x \<in> set xs. whole_cents (f x) \<and> 0 \<le> n x" and "item_sum f n xs < 10 ^ 18"
  shows "sum_moneyq L (map (\<lambda>x. line_moneyq L (f x) (n x)) xs) = item_sum f n xs" and "0 \<le> item_sum f n xs"
    and "has_places 2 (item_sum f n xs)"
proof -
  let ?ls = "map (\<lambda>x. (f x, n x)) xs"
  have a: "(\<Sum>(u, q)\<leftarrow>?ls. \<bar>u * of_int q\<bar>) = item_sum f n xs"
    unfolding item_sum_def list.map_comp by (rule arg_cong [where f = sum_list], rule map_cong) (use assms(1) in \<open>auto simp: whole_cents_def abs_mult\<close>)
  have "sum_moneyq L (map (\<lambda>(u, q). line_moneyq L u q) ?ls) = (\<Sum>(u, q)\<leftarrow>?ls. u * of_int q)"
    using assms a by (intro sum_lines_exact) (auto simp: whole_cents_def)
  then show "sum_moneyq L (map (\<lambda>x. line_moneyq L (f x) (n x)) xs) = item_sum f n xs" by (simp add: comp_def item_sum_def)
  show "0 \<le> item_sum f n xs" unfolding item_sum_def by (rule sum_list_nonneg) (use assms(1) in \<open>auto simp: whole_cents_def\<close>)
  show "has_places 2 (item_sum f n xs)" unfolding item_sum_def using assms(1) by (auto simp: whole_cents_def intro!: places_intro)
qed

lemma refund_exact:
  assumes sums: "invoice_sums i" and ev: "evenly_taxed i" and dist: "distinct (map ii_id (in_items i))"
    and ok: "\<forall>x \<in> set items. returnable L t i d x" and pos: "\<forall>x \<in> set items. 0 < ri_qty_back x"
    and once: "distinct (map ri_sale_item items)" and past: "\<And>k. 0 \<le> already_returned t k d"
  shows "moneyq L (dec_plus L (refund_subtotal L items) (refund_tax L items)) = item_sum (\<lambda>x. ri_price x + ri_tax x) ri_qty_back items"
    and "\<forall>x \<in> set items. \<exists>s \<in> set (in_items i). ii_id s = ri_sale_item x \<and> ri_price x = pi_price s \<and> ri_tax x = pi_tax s"
proof -
  have c: "whole_cents (pi_price s)" "whole_cents (pi_tax s)" "0 \<le> pi_qty s" if "s \<in> set (in_items i)" for s
    using sums that by (simp_all add: invoice_sums_def)
  have m: "\<exists>s \<in> set (in_items i). ii_id s = ri_sale_item x \<and> ri_price x = pi_price s \<and> ri_tax x = pi_tax s
      \<and> ri_qty_back x \<le> pi_qty s" if x: "x \<in> set items" for x
  proof -
    obtain s where s: "s \<in> set (in_items i)" "ii_id s = ri_sale_item x" "ri_price x = moneyq L (pi_price s)" "ri_tax x = unit_tax_back L i s"
      "ri_qty_back x \<le> pi_qty s - already_returned t (ii_id s) d" using ok x by (auto simp: returnable_def)
    have "ri_price x = pi_price s" "ri_tax x = pi_tax s"
      using s(3,4) c [OF s(1)] unit_tax_back_even [OF ev sums s(1)] by (simp_all add: whole_cents_def moneyq_id)
    moreover have "ri_qty_back x \<le> pi_qty s" using s(5) past [of "ii_id s"] by simp
    ultimately show ?thesis using s(1,2) by blast
  qed
  then show "\<forall>x \<in> set items. \<exists>s \<in> set (in_items i). ii_id s = ri_sale_item x \<and> ri_price x = pi_price s \<and> ri_tax x = pi_tax s" by blast
  have u: "units_of (ii_id s) items \<le> pi_qty s" if s: "s \<in> set (in_items i)" for s
  proof (cases "find (\<lambda>x. ri_sale_item x = ii_id s) items")
    case None
    then show ?thesis using c(3) [OF s] by (simp add: units_of_distinct [OF once])
  next
    case (Some x)
    then have x: "x \<in> set items" "ri_sale_item x = ii_id s" using find_Some_iff_set [OF Some] by auto
    then obtain s' where s': "s' \<in> set (in_items i)" "ii_id s' = ri_sale_item x" "ri_qty_back x \<le> pi_qty s'" using m by blast
    have "s' = s" using s' x(2) s dist inj_onD [of ii_id "set (in_items i)" s' s] by (simp add: distinct_map)
    then show ?thesis using Some s'(3) by (simp add: units_of_distinct [OF once])
  qed
  have p: "item_sum ri_price ri_qty_back items \<le> in_subtotal i"
  proof -
    have "item_sum ri_price ri_qty_back items \<le> item_sum pi_price pi_qty (in_items i)"
      by (rule matched_bound [OF dist]) (use m u c in \<open>auto simp: whole_cents_def\<close>, blast)
    then show ?thesis using sums by (simp add: invoice_sums_def)
  qed
  have x: "item_sum ri_tax ri_qty_back items \<le> in_tax i"
  proof -
    have "item_sum ri_tax ri_qty_back items \<le> item_sum pi_tax pi_qty (in_items i)"
      by (rule matched_bound [OF dist]) (use m u c in \<open>auto simp: whole_cents_def\<close>, blast)
    then show ?thesis using sums by (simp add: invoice_sums_def)
  qed
  have b: "(10::rat) ^ 16 = 10000000000000000" "(10::rat) ^ 18 = 1000000000000000000" by simp_all
  have i16: "in_subtotal i < 10 ^ 16" "in_tax i < 10 ^ 16" using sums by (simp_all add: invoice_sums_def)
  have cx: "whole_cents (ri_price y) \<and> 0 \<le> ri_qty_back y" "whole_cents (ri_tax y) \<and> 0 \<le> ri_qty_back y" if "y \<in> set items" for y
    using m [OF that] c pos that by fastforce+
  have p1: "item_sum ri_price ri_qty_back items < 10 ^ 18" and x1: "item_sum ri_tax ri_qty_back items < 10 ^ 18"
    using p x i16 unfolding b by linarith+
  note ps = item_sum_moneyq [of items ri_price ri_qty_back, OF _ p1]
  note xs = item_sum_moneyq [of items ri_tax ri_qty_back, OF _ x1]
  have s: "refund_subtotal L items = item_sum ri_price ri_qty_back items" "refund_tax L items = item_sum ri_tax ri_qty_back items"
    unfolding refund_subtotal_def refund_tax_def using ps(1) xs(1) cx by blast+
  have pl: "has_places 2 (item_sum ri_price ri_qty_back items + item_sum ri_tax ri_qty_back items)"
    using ps(3) xs(3) cx by (intro places_intro) blast+
  have "0 \<le> item_sum ri_price ri_qty_back items" "0 \<le> item_sum ri_tax ri_qty_back items" using ps(2) xs(2) cx by blast+
  then have "fits20 (item_sum ri_price ri_qty_back items + item_sum ri_tax ri_qty_back items)"
    using p x i16 unfolding b by (intro cents_fits20 [OF pl]) (unfold b, linarith)
  then show "moneyq L (dec_plus L (refund_subtotal L items) (refund_tax L items)) = item_sum (\<lambda>x. ri_price x + ri_tax x) ri_qty_back items"
    by (simp add: s plus_exact moneyq_id pl item_sum_add)
qed

end

lemma return_keeps_refunds:
  assumes L: "decimal_js L" and inv: "sales_inv d" and ref: "refund_inv d"
    and run: "create_return L q C tenant user request d = Inr (r, d')"
  shows "refund_inv d'"
proof -
  note e = create_return_effect [OF inv run]
  obtain original shift items d1 where
    o: "find (\<lambda>i. in_tenant i = tenant \<and> in_id i = cr_invoice request) (sd_invoices d) = Some original"
    and items: "map_result (return_item_of L tenant original d) (requested_units request) = Inr items"
    and r: "r = return_of L C tenant user request original shift items" and d1: "insert_return r d = Inr d1"
    by (rule create_returnE [OF run]) (rule that; assumption)
  have o': "original \<in> set (sd_invoices d)" using find_Some_iff_set [OF o] by auto
  have docs: "documents_ok d" using inv by (simp add: sales_inv_def)
  have dist: "distinct (map ii_id (in_items original))"
  proof -
    obtain ys zs where "sd_invoices d = ys @ original # zs" using o' by (auto simp: in_set_conv_decomp)
    then show ?thesis using docs by (simp add: documents_ok_def all_items_def)
  qed
  have same: "map (\<lambda>x. (ri_sale_item x, ri_price x, ri_tax x, ri_qty_back x)) (re_items r)
      = map (\<lambda>x. (ri_sale_item x, ri_price x, ri_tax x, ri_qty_back x)) items"
    unfolding r by (rule return_items_fields) simp
  have all_same: "(\<forall>x \<in> set (re_items r). P (ri_sale_item x) (ri_price x) (ri_tax x) (ri_qty_back x))
      = (\<forall>x \<in> set items. P (ri_sale_item x) (ri_price x) (ri_tax x) (ri_qty_back x))" for P
  proof -
    have e: "(\<forall>x \<in> set xs. P (ri_sale_item x) (ri_price x) (ri_tax x) (ri_qty_back x))
        = list_all (\<lambda>(a, b, c, n). P a b c n) (map (\<lambda>x. (ri_sale_item x, ri_price x, ri_tax x, ri_qty_back x)) xs)" for xs
      by (simp add: list_all_iff)
    show ?thesis unfolding e same ..
  qed
  have pos': "\<forall>x \<in> set (re_items r). 0 < ri_qty_back x"
    using d1 by (auto simp: insert_return_def result_simps list_ex_iff)
  then have pos: "\<forall>x \<in> set items. 0 < ri_qty_back x" using all_same [of "\<lambda>a b c n. 0 < n"] by simp
  have "pays_back i r" if i: "i \<in> set (sd_invoices d)" "in_id i = re_invoice r" "evenly_taxed i" for i
  proof -
    have io: "i = original" using i(1,2) o' docs inj_onD [of in_id "set (sd_invoices d)" i original]
      by (simp add: documents_ok_def distinct_map r)
    have sums: "invoice_sums original" using ref o' by (simp add: refund_inv_def)
    have ev: "evenly_taxed original" using i(3) io by simp
    have "distinct (map ri_sale_item items)" using return_items_ids [OF items] requested_distinct by simp
    note x = decimal_js.refund_exact [OF L sums ev dist return_items_ok [OF items] pos this already_returned_nonneg [OF ref]]
    have "re_total r = item_sum (\<lambda>x. ri_price x + ri_tax x) ri_qty_back items" using x(1) by (simp add: r)
    also have "\<dots> = item_sum (\<lambda>x. ri_price x + ri_tax x) ri_qty_back (re_items r)"
    proof -
      have e: "item_sum (\<lambda>x. ri_price x + ri_tax x) ri_qty_back xs
          = (\<Sum>(a, b, c, n)\<leftarrow>map (\<lambda>x. (ri_sale_item x, ri_price x, ri_tax x, ri_qty_back x)) xs. (b + c) * of_int n)" for xs
        by (simp add: item_sum_def comp_def)
      show ?thesis unfolding e same ..
    qed
    finally show ?thesis
      using x(2) unfolding pays_back_def io
        all_same [of "\<lambda>a b c n. \<exists>s \<in> set (in_items original). ii_id s = a \<and> b = pi_price s \<and> c = pi_tax s"] by simp
  qed
  moreover have "re_status r = ''completed''" by (simp add: r)
  ultimately show ?thesis using ref pos' unfolding refund_inv_def e(2,3) by auto
qed

lemma number_items_amounts:
  "item_sum pi_price pi_qty (number_items C items) = item_sum pi_price pi_qty items"
  "item_sum pi_tax pi_qty (number_items C items) = item_sum pi_tax pi_qty items"
  "(\<forall>s \<in> set (number_items C items). P (pi_price s) (pi_tax s) (pi_qty s)) = (\<forall>s \<in> set items. P (pi_price s) (pi_tax s) (pi_qty s))"
proof -
  have "map (\<lambda>i. pi_price i * of_int (pi_qty i)) (number_items C items) = map (\<lambda>i. pi_price i * of_int (pi_qty i)) items"
    "map (\<lambda>i. pi_tax i * of_int (pi_qty i)) (number_items C items) = map (\<lambda>i. pi_tax i * of_int (pi_qty i)) items"
    by (rule number_items_fields; simp add: priced_item.defs)+
  then show "item_sum pi_price pi_qty (number_items C items) = item_sum pi_price pi_qty items"
    "item_sum pi_tax pi_qty (number_items C items) = item_sum pi_tax pi_qty items" by (simp_all add: item_sum_def)
  have "map (\<lambda>s. P (pi_price s) (pi_tax s) (pi_qty s)) (number_items C items) = map (\<lambda>s. P (pi_price s) (pi_tax s) (pi_qty s)) items"
    by (rule number_items_fields) (simp add: priced_item.defs)
  then have "list_all id (map (\<lambda>s. P (pi_price s) (pi_tax s) (pi_qty s)) (number_items C items))
      = list_all id (map (\<lambda>s. P (pi_price s) (pi_tax s) (pi_qty s)) items)" by simp
  then show "(\<forall>s \<in> set (number_items C items). P (pi_price s) (pi_tax s) (pi_qty s)) = (\<forall>s \<in> set items. P (pi_price s) (pi_tax s) (pi_qty s))"
    by (simp add: list_all_iff)
qed

text \<open>The amounts of an accepted sale are those of its request.\<close>

lemma posted_sums:
  assumes L: "decimal_js L" and req: "sale_ok dto" and x: "sale_context L H C dto terminal = Inr (x, lines)"
    and post: "post_sale L C x dto locked lines d = Inr (i, d')"
  shows "invoice_sums i" and "in_subtotal i = lines_price (cs_items dto)" and "in_tax i = lines_tax (cs_items dto)"
    and "in_total i = cs_local_total dto"
proof -
  note n = decimal_js.normalized_lines [OF L sale_contextE(1) [OF x]]
  have l: "\<forall>l \<in> set lines. line_ok l" "lines_price lines = lines_price (cs_items dto)" "lines_tax lines = lines_tax (cs_items dto)"
    using n req by (simp_all add: sale_ok_def)
  have b: "lines_price lines < 10 ^ 16" "lines_tax lines < 10 ^ 16" using l(2,3) req by (simp_all add: sale_ok_def)
  obtain branch codes customer vs where
    i: "i = sale_invoice L C x dto branch codes customer (linked_cashier (sx_tenant x) dto d)
          (linked_seller (sx_tenant x) dto d) (linked_shift (sx_tenant x) dto d) (map (price_item L vs) lines)"
    and tot: "moneyq L (cs_local_total dto) = moneyq L (items_total L (map (price_item L vs) lines))"
    using post_sale_invoice [OF post] by blast
  note ex = decimal_js.items_exact [OF L l(1) b, of vs]
  have s: "item_sum pi_price pi_qty (map (price_item L vs) lines) = lines_price lines"
    "item_sum pi_tax pi_qty (map (price_item L vs) lines) = lines_tax lines"
    unfolding item_sum_def lines_price_def lines_tax_def list.map_comp
    by (rule arg_cong [where f = sum_list], rule map_cong, use l(1) in \<open>auto simp: line_ok_def decimal_js.moneyq_id [OF L]\<close>)+
  show 1: "in_subtotal i = lines_price (cs_items dto)" and 2: "in_tax i = lines_tax (cs_items dto)"
    using ex(1,2) l(2,3) by (simp_all add: i)
  have "has_places 2 (items_total L (map (price_item L vs) lines))" by (simp add: items_total_def decimal_js.moneyq_places [OF L])
  then show "in_total i = cs_local_total dto"
    using tot req by (simp add: i sale_ok_def decimal_js.moneyq_id [OF L])
  have "\<forall>s \<in> set (map (price_item L vs) lines). whole_cents (pi_price s) \<and> whole_cents (pi_tax s) \<and> 0 \<le> pi_qty s"
    using l(1) by (auto simp: line_ok_def whole_cents_def decimal_js.moneyq_id [OF L])
  then have "\<forall>s \<in> set (in_items i). whole_cents (pi_price s) \<and> whole_cents (pi_tax s) \<and> 0 \<le> pi_qty s"
    unfolding i sale_invoice_fields number_items_amounts(3) [of _ _ "\<lambda>p t n. whole_cents p \<and> whole_cents t \<and> 0 \<le> n"] .
  then show "invoice_sums i"
    using ex b by (simp add: invoice_sums_def i number_items_amounts(1,2) s)
qed

section \<open>Runs\<close>

text \<open>
  A closing under way: the shift it read, and the sums it has read so far. The system is the database, the
  closings under way, and, for each shift, what its closing missed: the cash that was
  committed for the shift after the closing had read the sums and before it wrote them. (The
  last is not stored anywhere.)
\<close>

record open_closing =
  og_tenant :: id
  og_user :: actor
  og_cash :: rat
  og_at :: int
  og_shift :: shift_row
  og_sales :: "rat option"
  og_returns :: "rat option"

record sales_system =
  sy_db :: sales_db
  sy_closings :: "open_closing list"
  sy_missed :: "id \<Rightarrow> rat"

definition missed_cash :: "open_closing \<Rightarrow> rat \<Rightarrow> rat \<Rightarrow> sales_db \<Rightarrow> rat" where
  "missed_cash g a b d =
     (sum_cash_sales (og_tenant g) (sh_id (og_shift g)) d - a) - (sum_cash_returns (og_tenant g) (sh_id (og_shift g)) d - b)"

inductive sales_step :: "dec_lib \<Rightarrow> quotient \<Rightarrow> sale_host \<Rightarrow> (string \<Rightarrow> bool) \<Rightarrow> sales_system \<Rightarrow> sales_system \<Rightarrow> bool"
  for L q H is_uuid where
  step_sale: "sale_ok dto \<Longrightarrow> create_sale L H C dto terminal (sy_db y) = Inr (i, d') \<Longrightarrow> sales_step L q H is_uuid y (y\<lparr>sy_db := d'\<rparr>)"
| step_return: "create_return L q C tenant user request (sy_db y) = Inr (r, d') \<Longrightarrow> sales_step L q H is_uuid y (y\<lparr>sy_db := d'\<rparr>)"
| step_open: "open_shift C tenant branch user cash (sy_db y) = Inr (s, d') \<Longrightarrow> sales_step L q H is_uuid y (y\<lparr>sy_db := d'\<rparr>)"
| step_close_check: "has_places 2 cash \<Longrightarrow> close_shift_check is_uuid tenant i user (sy_db y) = Inr s \<Longrightarrow>
    sales_step L q H is_uuid y (y\<lparr>sy_closings := \<lparr>og_tenant = tenant, og_user = user, og_cash = cash, og_at = now, og_shift = s,
      og_sales = None, og_returns = None\<rparr> # sy_closings y\<rparr>)"
| step_close_sales: "g \<in> set (sy_closings y) \<Longrightarrow> few_documents (sy_db y) \<Longrightarrow>
    sales_step L q H is_uuid y (y\<lparr>sy_closings :=
      g\<lparr>og_sales := Some (sum_cash_sales (og_tenant g) (sh_id (og_shift g)) (sy_db y))\<rparr> # remove1 g (sy_closings y)\<rparr>)"
| step_close_returns: "g \<in> set (sy_closings y) \<Longrightarrow> few_documents (sy_db y) \<Longrightarrow>
    sales_step L q H is_uuid y (y\<lparr>sy_closings :=
      g\<lparr>og_returns := Some (sum_cash_returns (og_tenant g) (sh_id (og_shift g)) (sy_db y))\<rparr> # remove1 g (sy_closings y)\<rparr>)"
| step_close_write: "g \<in> set (sy_closings y) \<Longrightarrow> og_sales g = Some a \<Longrightarrow> og_returns g = Some b \<Longrightarrow>
    close_shift_write (og_tenant g) (closing_of L (og_user g) (og_at g) (og_cash g) (og_shift g) a b) (sy_db y) = Inr (r, d') \<Longrightarrow>
    sales_step L q H is_uuid y (y\<lparr>sy_db := d', sy_closings := remove1 g (sy_closings y),
      sy_missed := (sy_missed y)(sh_id (og_shift g) := missed_cash g a b (sy_db y))\<rparr>)"
| step_close_stop: "g \<in> set (sy_closings y) \<Longrightarrow> sales_step L q H is_uuid y (y\<lparr>sy_closings := remove1 g (sy_closings y)\<rparr>)"

abbreviation sales_run :: "dec_lib \<Rightarrow> quotient \<Rightarrow> sale_host \<Rightarrow> (string \<Rightarrow> bool) \<Rightarrow> sales_system \<Rightarrow> sales_system \<Rightarrow> bool" where
  "sales_run L q H is_uuid \<equiv> (sales_step L q H is_uuid)\<^sup>*\<^sup>*"

text \<open>No closing is under way, and none has missed anything.\<close>

definition at_rest :: "sales_db \<Rightarrow> sales_system" where
  "at_rest d = \<lparr>sy_db = d, sy_closings = [], sy_missed = (\<lambda>_. 0)\<rparr>"

lemma at_rest_db [simp]: "sy_db (at_rest d) = d"
  by (simp add: at_rest_def)

text \<open>Handlers that run one after the other, each closing in one piece.\<close>

inductive serial_step :: "dec_lib \<Rightarrow> quotient \<Rightarrow> sale_host \<Rightarrow> (string \<Rightarrow> bool) \<Rightarrow> sales_db \<Rightarrow> sales_db \<Rightarrow> bool"
  for L q H is_uuid where
  serial_sale: "sale_ok dto \<Longrightarrow> create_sale L H C dto terminal d = Inr (i, d') \<Longrightarrow> serial_step L q H is_uuid d d'"
| serial_return: "create_return L q C tenant user request d = Inr (r, d') \<Longrightarrow> serial_step L q H is_uuid d d'"
| serial_open: "open_shift C tenant branch user cash d = Inr (s, d') \<Longrightarrow> serial_step L q H is_uuid d d'"
| serial_close: "few_documents d \<Longrightarrow> has_places 2 cash \<Longrightarrow> close_shift L is_uuid C tenant i user cash d = Inr (s', d') \<Longrightarrow>
    serial_step L q H is_uuid d d'"

abbreviation serial_run :: "dec_lib \<Rightarrow> quotient \<Rightarrow> sale_host \<Rightarrow> (string \<Rightarrow> bool) \<Rightarrow> sales_db \<Rightarrow> sales_db \<Rightarrow> bool" where
  "serial_run L q H is_uuid \<equiv> (serial_step L q H is_uuid)\<^sup>*\<^sup>*"

text \<open>They are runs in which no closing misses anything.\<close>

lemma serial_step_run:
  assumes "serial_step L q H is_uuid d d'"
  shows "sales_run L q H is_uuid (at_rest d) (at_rest d')"
  using assms
proof cases
  case (serial_sale dto C terminal i)
  then have "sales_step L q H is_uuid (at_rest d) ((at_rest d)\<lparr>sy_db := d'\<rparr>)" by (intro step_sale) simp_all
  then show ?thesis by (simp add: at_rest_def r_into_rtranclp)
next
  case (serial_return C tenant user request r)
  then have "sales_step L q H is_uuid (at_rest d) ((at_rest d)\<lparr>sy_db := d'\<rparr>)" by (intro step_return) simp
  then show ?thesis by (simp add: at_rest_def r_into_rtranclp)
next
  case (serial_open C tenant branch user cash s)
  then have "sales_step L q H is_uuid (at_rest d) ((at_rest d)\<lparr>sy_db := d'\<rparr>)" by (intro step_open) simp
  then show ?thesis by (simp add: at_rest_def r_into_rtranclp)
next
  case (serial_close cash C tenant i user s')
  then obtain s where s: "close_shift_check is_uuid tenant i user d = Inr s"
    "close_shift_write tenant (closing_of L user (sv_now C) cash s (sum_cash_sales tenant (sh_id s) d) (sum_cash_returns tenant (sh_id s) d)) d
       = Inr (s', d')"
    by (auto simp: close_shift_def close_shift_read_def result_simps)
  let ?g = "\<lambda>a b. \<lparr>og_tenant = tenant, og_user = user, og_cash = cash, og_at = sv_now C, og_shift = s, og_sales = a, og_returns = b\<rparr>"
  let ?y = "\<lambda>a b. (at_rest d)\<lparr>sy_closings := [?g a b]\<rparr>"
  let ?a = "Some (sum_cash_sales tenant (sh_id s) d)" and ?b = "Some (sum_cash_returns tenant (sh_id s) d)"
  have 1: "sales_step L q H is_uuid (at_rest d) (?y None None)"
    using step_close_check [OF serial_close(2), of is_uuid tenant i user "at_rest d" s L q H "sv_now C"] s(1) by (simp add: at_rest_def)
  have 2: "sales_step L q H is_uuid (?y None None) (?y ?a None)"
    using step_close_sales [of "?g None None" "?y None None" L q H is_uuid] serial_close(1) by simp
  have 3: "sales_step L q H is_uuid (?y ?a None) (?y ?a ?b)"
    using step_close_returns [of "?g ?a None" "?y ?a None" L q H is_uuid] serial_close(1) by simp
  have "missed_cash (?g ?a ?b) (the ?a) (the ?b) d = 0" by (simp add: missed_cash_def)
  then have "(\<lambda>_. 0)(sh_id s := missed_cash (?g ?a ?b) (the ?a) (the ?b) d) = (\<lambda>_. 0)" by auto
  then have 4: "sales_step L q H is_uuid (?y ?a ?b) (at_rest d')"
    using step_close_write [of "?g ?a ?b" "?y ?a ?b" "the ?a" "the ?b" L s' d' q H is_uuid] s(2) by (simp add: at_rest_def)
  note c = converse_rtranclp_into_rtranclp [of "sales_step L q H is_uuid"]
  show ?thesis by (rule c [OF 1 c [OF 2 c [OF 3 c [OF 4 rtranclp.rtrancl_refl]]]])
qed


text \<open>What every step keeps, whatever the closings do.\<close>

definition shifts_kept :: "sales_db \<Rightarrow> sales_db \<Rightarrow> bool" where
  "shifts_kept d d' \<longleftrightarrow> (\<forall>s \<in> set (sd_shifts d). \<exists>s' \<in> set (sd_shifts d').
     sh_id s' = sh_id s \<and> sh_tenant s' = sh_tenant s \<and> sh_opening_cash s' = sh_opening_cash s)"

lemma shifts_keptI: "sd_shifts d' = map f (sd_shifts d) @ new \<Longrightarrow> (\<And>s. sh_id (f s) = sh_id s \<and> sh_tenant (f s) = sh_tenant s
    \<and> sh_opening_cash (f s) = sh_opening_cash s) \<Longrightarrow> shifts_kept d d'"
  by (auto simp: shifts_kept_def)

definition sales_kept :: "sales_db \<Rightarrow> sales_db \<Rightarrow> bool" where
  "sales_kept d d' \<longleftrightarrow> sales_inv d' \<and> terminal_places d' = terminal_places d \<and> (\<exists>new. sd_invoices d' = sd_invoices d @ new)
     \<and> shifts_kept d d'"

lemma create_sale_kept:
  assumes L: "decimal_js L" and req: "sale_ok dto" and run: "create_sale L H C dto terminal d = Inr (i, d')" and inv: "sales_inv d"
  shows "sales_kept d d'" and "cash_inv m d \<Longrightarrow> cash_inv m d'" and "refund_inv d \<Longrightarrow> refund_inv d'"
proof -
  have docs: "documents_ok d" and led: "ledger_inv d" "plain_branches d" using inv by (simp_all add: sales_inv_def)
  note e = create_sale_effect [OF L inv req run]
  have "shifts_kept d d' \<and> (cash_inv m d \<longrightarrow> cash_inv m d') \<and> (refund_inv d \<longrightarrow> refund_inv d')"
  proof (rule create_saleE [OF run])
    fix x lines locked
    assume x: "sale_context L H C dto terminal = Inr (x, lines)" and post: "post_sale L C x dto locked lines d = Inr (i, d')"
    note p = post_sale_effect [OF post led]
    have "shifts_kept d d'"
    proof (cases "sd_shifts d' = sd_shifts d")
      case True
      then show ?thesis by (auto simp: shifts_kept_def)
    next
      case False
      then obtain l where "linked_shift (sx_tenant x) dto d = Some l"
        and l: "sd_shifts d' = map (\<lambda>x. if sh_id x = sh_id l then add_late_cash (in_total i) x else x) (sd_shifts d) @ []"
        unfolding p(4) after_late_sale_def by (auto split: option.splits if_splits)
      from l show ?thesis by (rule shifts_keptI) (simp add: add_late_cash_def)
    qed
    moreover have "cash_inv m d'" if "cash_inv m d" by (rule sale_keeps_cash [OF L inv that post])
    moreover have "refund_inv d'" if ref: "refund_inv d"
    proof -
      have r: "sd_returns d' = sd_returns d" using p(2) by (simp add: sale_frame_def)
      have "in_id i \<noteq> re_invoice r" if "r \<in> set (sd_returns d)" for r
        using docs p(6) that unfolding documents_ok_def by metis
      then show ?thesis using ref posted_sums(1) [OF L req x post] by (simp add: refund_inv_def p(3) r)
    qed
    ultimately show ?thesis by blast
  qed (auto simp: shifts_kept_def)
  with e show "sales_kept d d'" "cash_inv m d \<Longrightarrow> cash_inv m d'" "refund_inv d \<Longrightarrow> refund_inv d'" by (auto simp: sales_kept_def)
qed

lemma create_return_kept:
  assumes L: "decimal_js L" and run: "create_return L q C tenant user request d = Inr (r, d')" and inv: "sales_inv d"
  shows "sales_kept d d'" and "cash_inv m d \<Longrightarrow> cash_inv m d'" and "refund_inv d \<Longrightarrow> refund_inv d'"
  using create_return_effect [OF inv run] return_keeps_cash [OF L inv _ run] return_keeps_refunds [OF L inv _ run]
  by (auto simp: sales_kept_def terminal_places_def shifts_kept_def)

lemma shifts_only_kept:
  assumes "d' = d\<lparr>sd_shifts := ss\<rparr>" and "shifts_kept d d'" and "sales_inv d"
  shows "sales_kept d d'" and "refund_inv d \<Longrightarrow> refund_inv d'"
  using shifts_only [OF assms(1)] assms(2,3) by (auto simp: sales_kept_def refund_inv_def)

lemma open_shift_kept:
  assumes run: "open_shift C tenant branch user cash d = Inr (s, d')" and inv: "sales_inv d"
  shows "sales_kept d d'" and "cash_inv m d \<Longrightarrow> cash_inv m d'" and "refund_inv d \<Longrightarrow> refund_inv d'"
proof -
  obtain ss where ss: "d' = d\<lparr>sd_shifts := ss\<rparr>" using open_shift_effect(1) [OF run] by blast
  have k: "shifts_kept d d'"
    using run by (auto simp: open_shift_def save_shift_def Let_def result_simps shifts_kept_def split: option.splits)
  show "sales_kept d d'" "refund_inv d \<Longrightarrow> refund_inv d'" using shifts_only_kept [OF ss k inv] by blast+
  show "cash_inv m d \<Longrightarrow> cash_inv m d'" by (rule open_shift_effect(2) [OF run])
qed

lemma close_write_kept:
  assumes run: "close_shift_write tenant g d = Inr (r, d')" and inv: "sales_inv d"
  shows "sales_kept d d'" and "refund_inv d \<Longrightarrow> refund_inv d'"
proof -
  note w = close_shift_writeE(1) [OF run]
  have "shifts_kept d d'" by (rule shifts_keptI [of _ "\<lambda>s. if to_close tenant g s then closed_with g s else s" _ "[]"]) (simp_all add: w)
  then show "sales_kept d d'" "refund_inv d \<Longrightarrow> refund_inv d'" using shifts_only_kept [OF w _ inv] by blast+
qed

lemma sales_step_kept:
  assumes L: "decimal_js L" and step: "sales_step L q H is_uuid y y'" and inv: "sales_inv (sy_db y)"
  shows "sales_kept (sy_db y) (sy_db y')" and "refund_inv (sy_db y) \<Longrightarrow> refund_inv (sy_db y')"
proof -
  have same: "sales_kept d d" if "sales_inv d" for d using that by (auto simp: sales_kept_def shifts_kept_def)
  have "sales_kept (sy_db y) (sy_db y') \<and> (refund_inv (sy_db y) \<longrightarrow> refund_inv (sy_db y'))"
    using step
  proof cases
    case (step_sale dto C terminal i d')
    then show ?thesis using create_sale_kept [OF L step_sale(2,3) inv] by auto
  next
    case (step_return C tenant user request r d')
    then show ?thesis using create_return_kept [OF L step_return(2) inv] by auto
  next
    case (step_open C tenant branch user cash s d')
    then show ?thesis using open_shift_kept [OF step_open(2) inv] by auto
  next
    case (step_close_write g a b r d')
    then show ?thesis using close_write_kept [OF step_close_write(5) inv] by auto
  qed (use same [OF inv] in auto)
  then show "sales_kept (sy_db y) (sy_db y')" "refund_inv (sy_db y) \<Longrightarrow> refund_inv (sy_db y')" by blast+
qed

lemma sales_run_kept:
  assumes L: "decimal_js L" and run: "sales_run L q H is_uuid y y'" and inv: "sales_inv (sy_db y)"
  shows "sales_inv (sy_db y') \<and> terminal_places (sy_db y') = terminal_places (sy_db y)
    \<and> (\<exists>new. sd_invoices (sy_db y') = sd_invoices (sy_db y) @ new) \<and> (refund_inv (sy_db y) \<longrightarrow> refund_inv (sy_db y'))"
  using run
proof (induction rule: rtranclp_induct)
  case (step y1 y2)
  have "sales_inv (sy_db y1)" using step.IH by simp
  note k = sales_step_kept [OF L step.hyps(2) this]
  then show ?case using step.IH by (auto simp: sales_kept_def)
qed (simp add: inv)









section \<open>A repeated upload\<close>

lemma find_append: "find P xs = None \<Longrightarrow> P x \<Longrightarrow> find P ((xs @ [x]) @ ys) = Some x"
  by (induction xs) (auto split: if_splits)

lemma find_prefix: "find P xs = Some x \<Longrightarrow> find P (xs @ ys) = Some x"
  by (induction xs) (auto split: if_splits)

lemma lock_terminal_places:
  assumes "lock_terminal terminal dto d = Inr locked" and "terminal_places d' = terminal_places d"
  shows "\<exists>l. lock_terminal terminal dto d' = Inr l"
proof -
  have p: "map_option pt_branch (find (\<lambda>t. pt_id t = pt_id terminal) ts)
      = map_option (snd \<circ> snd) (find (\<lambda>p. fst p = pt_id terminal) (map (\<lambda>t. (pt_id t, pt_tenant t, pt_branch t)) ts))" for ts
    by (induction ts) auto
  have "map_option pt_branch (find (\<lambda>t. pt_id t = pt_id terminal) (sd_terminals d'))
      = map_option pt_branch (find (\<lambda>t. pt_id t = pt_id terminal) (sd_terminals d))"
    using assms(2) unfolding p terminal_places_def by simp
  then show ?thesis using assms(1)
    by (cases "find (\<lambda>t. pt_id t = pt_id terminal) (sd_terminals d')") (auto simp: lock_terminal_def Let_def result_simps)
qed

text \<open>What a request for a sale that is already there answers, at any later time.\<close>

lemma sale_found_again:
  assumes x: "sale_context L H C dto terminal = Inr (x, lines)" and l: "\<exists>l. lock_terminal terminal dto d = Inr l"
    and f: "find_sale (sx_tenant x) (cs_sync_id dto) d = Some i"
    and s: "same_accounting_context dto (pt_id terminal) (sx_sequence x) (sx_fingerprint x) i"
  shows "create_sale L H C' dto terminal d = Inr (i, d)"
proof -
  obtain locked where "lock_terminal terminal dto d = Inr locked" using l by blast
  then show ?thesis using sale_contextE(4) [OF x, of C'] f s by (simp add: create_sale_def sale_transaction_def result_simps)
qed

lemma retry_returns_same:
  assumes L: "decimal_js L" and inv: "sales_inv d" and req: "sale_ok dto"
    and sale: "create_sale L H C dto terminal d = Inr (i, d')"
    and run: "sales_run L q H is_uuid y y'" "sy_db y = d'" "sy_db y' = d''"
  shows "create_sale L H C' dto terminal d'' = Inr (i, d'')"
proof -
  have k: "sales_inv d'" "terminal_places d' = terminal_places d"
    using create_sale_kept(1) [OF L req sale inv] by (simp_all add: sales_kept_def)
  have run': "terminal_places d'' = terminal_places d'" "\<exists>new. sd_invoices d'' = sd_invoices d' @ new"
    using sales_run_kept [OF L run(1)] k(1) run(2,3) by simp_all
  obtain new where new: "sd_invoices d'' = sd_invoices d' @ new" using run' by blast
  have tp: "terminal_places d'' = terminal_places d" using run' k(2) by simp
  show ?thesis
  proof (rule create_saleE [OF sale])
    fix x lines locked
    assume x: "sale_context L H C dto terminal = Inr (x, lines)" and l: "lock_terminal terminal dto d = Inr locked"
      and f: "find_sale (sx_tenant x) (cs_sync_id dto) d = Some i"
      and s: "same_accounting_context dto (pt_id terminal) (sx_sequence x) (sx_fingerprint x) i" and d': "d' = d"
    have "find_sale (sx_tenant x) (cs_sync_id dto) d'' = Some i"
      using f unfolding find_sale_def new d' by (rule find_prefix)
    then show ?thesis by (rule sale_found_again [OF x lock_terminal_places [OF l tp] _ s])
  next
    fix x lines locked
    assume x: "sale_context L H C dto terminal = Inr (x, lines)" and l: "lock_terminal terminal dto d = Inr locked"
      and f: "find_sale (sx_tenant x) (cs_sync_id dto) d = None" and post: "post_sale L C x dto locked lines d = Inr (i, d')"
    have led: "ledger_inv d" "plain_branches d" using inv by (simp_all add: sales_inv_def)
    note e = post_sale_effect [OF post led]
    have i: "in_tenant i = sx_tenant x" "in_sync_id i = Some (cs_sync_id dto)"
      "same_accounting_context dto (pt_id terminal) (sx_sequence x) (sx_fingerprint x) i"
      using post_sale_invoice [OF post] sale_contextE(2) [OF x] by (auto simp: same_accounting_context_def)
    have "find_sale (sx_tenant x) (cs_sync_id dto) d'' = Some i"
      unfolding find_sale_def new e(3) by (rule find_append) (use f i in \<open>simp_all add: find_sale_def\<close>)
    then show ?thesis by (rule sale_found_again [OF x lock_terminal_places [OF l tp] _ i(3)])
  qed
qed

section \<open>A sale while the shift is being closed\<close>

lemma cash_sale_not_counted:
  assumes L: "decimal_js L" and inv: "sales_inv d" and cash: "cash_inv m d" and few: "few_documents d" and p: "has_places 2 closing"
    and reads: "close_shift_read L is_uuid C tenant k user closing d = Inr g"
    and post: "post_sale L C' x dto locked lines d = Inr (i, d1)"
    and s: "s \<in> set (sd_shifts d)" "to_close tenant g s" and c: "cash_sale_of s i"
    and writes: "close_shift_write tenant g d1 = Inr (r, d2)"
  shows "\<exists>s' \<in> set (sd_shifts d2). sh_id s' = sh_id s \<and> sh_status s' = ''closed''
           \<and> sh_expected_cash s' = Some (drawer_cash s' d2 - in_total i)"
proof -
  note w = close_shift_writeE [OF writes]
  obtain y where y: "close_shift_check is_uuid tenant k user d = Inr y"
    and g: "g = closing_of L user (sv_now C) closing y (sum_cash_sales tenant (sh_id y) d) (sum_cash_returns tenant (sh_id y) d)"
    using reads by (auto simp: close_shift_read_def result_simps)
  note yc = close_shift_checkE [OF y]
  have "money_column (sh_opening_cash y)" using cash yc(1) by (simp add: cash_inv_def)
  from closing_exact(1) [OF L cash few cash few this p g w(2,3)]
  have y: "y \<in> set (sd_shifts d)" "to_close tenant g y" "sg_expected g = drawer_cash y d"
    using yc by (simp_all add: drawer_cash_def to_close_def g closing_of_def Let_def)
  have dist: "distinct (map sh_id (sd_shifts d))" using cash by (simp add: cash_inv_def)
  have ys: "y = s" using y(1,2) s dist inj_onD [of sh_id "set (sd_shifts d)" y s] by (simp add: to_close_def distinct_map)
  have docs: "documents_ok d" and led: "ledger_inv d" "plain_branches d" using inv by (simp_all add: sales_inv_def)
  note e = post_sale_effect [OF post led]
  have rets: "sd_returns d1 = sd_returns d" using e(2) by (simp add: sale_frame_def)
  have dc: "drawer_cash s d1 = drawer_cash s d + in_total i"
    using sum_cash_sales_append [OF e(3), of s] sum_cash_returns_invoice [OF docs e(3) rets] e(6) c by (simp add: drawer_cash_def)
  have "s \<in> set (sd_shifts d1)"
  proof -
    have "sh_id l \<noteq> sh_id s" if l: "linked_shift (sx_tenant x) dto d = Some l" "sh_status l = ''closed''" for l
      using linked_shiftE(1) [OF l(1)] l(2) s dist inj_onD [of sh_id "set (sd_shifts d)" l s] by (auto simp: to_close_def distinct_map)
    then show ?thesis using s(1) by (auto simp: e(4) after_late_sale_def image_iff split: option.splits)
  qed
  then have "closed_with g s \<in> set (sd_shifts d2)" using s(2) by (force simp: w(1) image_iff)
  moreover have "drawer_cash (closed_with g s) d2 = drawer_cash s d1" by (simp add: w(1))
  ultimately show ?thesis using y(3) ys dc by (intro bexI [of _ "closed_with g s"]) auto
qed

section \<open>Properties\<close>

text \<open>C6: Whatever sales, returns, openings and closings of shifts run, and whatever runs between the statements of
  a closing, no item of an invoice has more units returned than were sold, the stock ledger sums to the stock, and the
  cost ledger to the variants' costs.\<close>

theorem returns_within_sales:
  assumes "decimal_js L" and "sales_run L q H is_uuid y y'" and "sales_inv (sy_db y)"
  shows "(\<forall>i \<in> set (sd_invoices (sy_db y')). \<forall>s \<in> set (in_items i).
            already_returned (in_tenant i) (ii_id s) (sy_db y') \<le> pi_qty s)
       \<and> ledger_inv (sy_db y') \<and> cost_inv (sy_db y')"
  using sales_run_kept [OF assms] by (simp add: sales_inv_def returned_ok_def)


text \<open>C20: What was paid back for an invoice never exceeds its total, if each of its units was taxed or
  none was.\<close>

theorem refunds_within_invoice:
  assumes "decimal_js L" and "sales_run L q H is_uuid y y'" and "sales_inv (sy_db y)" and "refund_inv (sy_db y)"
    and "i \<in> set (sd_invoices (sy_db y'))" and "in_tax i = 0 \<or> (\<forall>s \<in> set (in_items i). pi_tax s \<noteq> 0)"
  shows "(\<Sum>r\<leftarrow>filter (\<lambda>r. re_invoice r = in_id i) (sd_returns (sy_db y')). re_total r) \<le> in_total i"
  using refunds_bounded [OF _ _ assms(5)] sales_run_kept [OF assms(1-3)] assms(4,6)
  by (simp add: evenly_taxed_def paid_back_def)

text \<open>C7: A new sale is one invoice, whose subtotal and tax are the sums over the lines of the request,
  and whose total is their sum and the total the till computed.\<close>

theorem sale_totals_exact:
  assumes "decimal_js L" and "sales_inv d" and "sale_ok dto" and "create_sale L H C dto terminal d = Inr (i, d')"
    and "i \<notin> set (sd_invoices d)"
  shows "sd_invoices d' = sd_invoices d @ [i]
       \<and> in_subtotal i = (\<Sum>l\<leftarrow>cs_items dto. sl_price l * of_int (sl_qty l))
       \<and> in_tax i = (\<Sum>l\<leftarrow>cs_items dto. sl_tax l * of_int (sl_qty l))
       \<and> in_total i = in_subtotal i + in_tax i \<and> in_total i = cs_local_total dto"
proof (rule create_saleE [OF assms(4)])
  fix x assume "find_sale (sx_tenant x) (cs_sync_id dto) d = Some i"
  then show ?thesis using assms(5) find_Some_iff_set [of _ "sd_invoices d" i] by (simp add: find_sale_def)
next
  fix x lines locked
  assume x: "sale_context L H C dto terminal = Inr (x, lines)" and post: "post_sale L C x dto locked lines d = Inr (i, d')"
  have led: "ledger_inv d" "plain_branches d" using assms(2) by (simp_all add: sales_inv_def)
  from posted_sums [OF assms(1,3) x post] post_sale_effect(3) [OF post led] show ?thesis
    by (simp add: invoice_sums_def lines_price_def lines_tax_def)
qed

text \<open>C8: The same upload again, at any later time and whatever ran in between, closings under way
  included, answers the same invoice and changes nothing.\<close>

theorem sale_retry_once:
  assumes "decimal_js L" and "sales_inv d" and "sale_ok dto" and "create_sale L H C dto terminal d = Inr (i, d')"
    and "sales_run L q H is_uuid y y'" and "sy_db y = d'"
  shows "create_sale L H C' dto terminal (sy_db y') = Inr (i, sy_db y')"
  by (rule retry_returns_same [OF assms refl])

text \<open>C40: A cash sale that commits after the closing of its shift has read the sums and before it
  writes them is in no one's expectation: the closed shift expects the sale's total too little. (The
  closing neither locks the shift nor runs in a transaction, and the sale, which sees an open shift,
  does not correct it.)\<close>

theorem sale_during_close_lost:
  assumes "decimal_js L" and "sales_inv d" and "cash_inv m d" and "few_documents d" and "has_places 2 closing"
    and "close_shift_read L is_uuid C tenant k user closing d = Inr g"
    and "create_sale L H C' dto terminal d = Inr (i, d1)" and "i \<notin> set (sd_invoices d)"
    and "close_shift_write tenant g d1 = Inr (r, d2)"
    and "s \<in> set (sd_shifts d)" and "sh_id s = sg_id g" and "sh_tenant s = tenant" and "sh_status s = ''open''"
    and "in_tenant i = tenant" and "in_shift i = Some (sh_id s)" and "in_payment i = ''cash''"
  shows "\<exists>s' \<in> set (sd_shifts d2). sh_id s' = sh_id s \<and> sh_status s' = ''closed''
           \<and> sh_expected_cash s' = Some (drawer_cash s' d2 - in_total i)"
proof (rule create_saleE [OF assms(7)])
  fix x assume "find_sale (sx_tenant x) (cs_sync_id dto) d = Some i"
  then show ?thesis using assms(8) find_Some_iff_set [of _ "sd_invoices d" i] by (simp add: find_sale_def)
next
  fix x lines locked assume post: "post_sale L C' x dto locked lines d = Inr (i, d1)"
  have c: "cash_sale_of s i" using post_sale_invoice [OF post] assms(12,14-16) by (auto simp: cash_sale_of_def)
  have t: "to_close tenant g s" by (simp add: to_close_def assms(11-13))
  show ?thesis by (rule cash_sale_not_counted [OF assms(1-6) post assms(10) t c assms(9)])
qed

text \<open>
  The handler of a sale tolerates a cashier or a shift it does not find and warns of it, but the table does not: a
  new sale is refused unless both are found.
\<close>

lemma unlinked_sale_refused:
  assumes "create_sale L H C dto terminal d = Inr (i, d')" and "sales_inv d"
  shows "i \<in> set (sd_invoices d)
       \<or> (linked_cashier (in_tenant i) dto d \<noteq> None \<and> linked_shift (in_tenant i) dto d \<noteq> None \<and> invoice_checks i)"
  using assms(1)
proof (rule create_saleE)
  fix x assume "find_sale (sx_tenant x) (cs_sync_id dto) d = Some i"
  then show ?thesis using find_Some_iff_set [of _ "sd_invoices d" i] by (simp add: find_sale_def)
next
  fix x lines locked assume post: "post_sale L C x dto locked lines d = Inr (i, d')"
  then have c: "invoice_checks i" by (rule post_saleE) (auto simp: insert_invoice_def result_simps)
  obtain branch codes customer vs where i: "i = sale_invoice L C x dto branch codes customer (linked_cashier (sx_tenant x) dto d)
      (linked_seller (sx_tenant x) dto d) (linked_shift (sx_tenant x) dto d) (map (price_item L vs) lines)"
    using post_sale_invoice [OF post] by blast
  then have "linked_cashier (sx_tenant x) dto d \<noteq> None \<and> linked_shift (sx_tenant x) dto d \<noteq> None"
    using c by (auto simp: invoice_checks_def accounting_context_complete_def sale_invoice_def)
  then show ?thesis using c by (simp add: i)
qed

section \<open>Witnesses\<close>

text \<open>A shop with one till, an open shift, and a variant that is not taxed. The examples are run by
  rewriting.\<close>

definition shop_variant :: "string \<Rightarrow> string \<Rightarrow> variant_row" where
  "shop_variant v category =
     \<lparr>pv_id = v, pv_product = ''p'', pv_cost_price = 1, pv_tax_category = Some category,
      pv_product_category = None, pv_product_brand = None, pv_product_tax_category = None,
      va_tenant = ''t'', va_product_tenant = ''t'', va_active = True, va_product_active = True,
      va_return_count = 0, va_qa_flag = False\<rparr>"

definition shop_code :: "string \<Rightarrow> rat \<Rightarrow> tax_code" where
  "shop_code category rate = \<lparr>tc_id = category, tc_tenant = ''t'', tc_category = category, tc_code = category, tc_rate = rate,
     tc_version = 1, tc_rounding = ''line'', tc_status = ''active''\<rparr>"

definition shop_price :: price_entry_row where
  "shop_price = \<lparr>pe_id = ''e'', pe_book = ''k'', pe_scope = Global_Scope, pe_scope_id = None, pe_min_qty = 1,
     pe_unit_price = 1, pe_tax_mode = Exclusive, pe_floor_price = None, pe_tenant = ''t'', pe_status = ''active'',
     pe_effective_from = 0, pe_effective_to = None, pe_book_tenant = ''t'', pe_book_status = ''active'', pe_book_default = True\<rparr>"

definition shop_shift :: shift_row where
  "shop_shift = \<lparr>sh_id = ''s'', sh_tenant = ''t'', sh_branch = ''b'', sh_opened_by = ''c'', sh_closed_by = None,
     sh_opening_cash = 500, sh_closing_cash = None, sh_expected_cash = None, sh_difference = None, sh_opened_at = 0,
     sh_closed_at = None, sh_status = ''open''\<rparr>"

definition shop_cashier :: user_row where
  "shop_cashier = \<lparr>us_id = ''c'', us_branch = Some ''b'', us_role = Cashier, us_name = ''C'', us_tenants = [''t'']\<rparr>"

definition shop :: sales_db where
  "shop =
     \<lparr>stock = (\<lambda>k. if k = (''b'', ''u'')
                 then Some \<lparr>qty_on_hand = 8, qty_reserved = 0, last_sold_at = None, stock_tenant = ''t''\<rparr> else None),
      movements = [], rt_branches = [\<lparr>br_id = ''b'', br_tenant = ''t'', br_code = ''B'', br_active = True\<rparr>],
      rt_variants = [shop_variant ''u'' ''nil''], rt_in_transit = (\<lambda>_. 0), rt_costs = [], rt_audits = [],
      sd_users = [shop_cashier], sd_terminals = [\<lparr>pt_id = ''d'', pt_tenant = ''t'', pt_branch = ''b'', pt_last_sequence = 0\<rparr>],
      sd_shifts = [shop_shift], sd_customers = [], sd_prices = [shop_price],
      sd_tax_codes = [shop_code ''nil'' 0], sd_invoices = [], sd_snapshots = [], sd_returns = []\<rparr>"

definition shop_line :: "string \<Rightarrow> rat \<Rightarrow> sale_line" where
  "shop_line v tax = \<lparr>sl_variant = v, sl_qty = 1, sl_price = 1, sl_tax = tax, sl_sku = v, sl_name_ar = v, sl_name_en = None,
     sl_size = None, sl_color = None\<rparr>"

definition shop_lines :: "sale_line list" where
  "shop_lines = [shop_line ''u'' 0]"

definition shop_sale :: create_sale_dto where
  "shop_sale = \<lparr>cs_version = 2, cs_sync_id = ''y'', cs_branch = ''b'', cs_shift = ''s'', cs_cashier = ''c'',
     cs_cashier_name = ''C'', cs_seller = ''e'', cs_seller_name = ''E'', cs_session = ''o'', cs_sequence = ''1'',
     cs_occurred_at = ''x'', cs_phone = None, cs_items = shop_lines, cs_payment = ''cash'',
     cs_language = None, cs_local_total = 1\<rparr>"

definition shop_host :: sale_host where
  "shop_host = \<lparr>so_compare = code_unit_compare, so_text = plain_numbers, so_sha256 = (\<lambda>_. replicate 64 (CHR ''0'')), so_date = (\<lambda>_. 1), so_iso = (\<lambda>_. ''z'')\<rparr>"

definition shop_call :: "string \<Rightarrow> sale_call" where
  "shop_call p = \<lparr>sv_now = 2, sv_uuid = (\<lambda>n. p @ replicate n (CHR ''0''))\<rparr>"

definition shop_till :: pos_terminal where
  "shop_till = \<lparr>pt_id = ''d'', pt_tenant = ''t'', pt_branch = ''b'', pt_last_sequence = 0\<rparr>"

definition shop_context :: "string \<Rightarrow> sale_command_context" where
  "shop_context f = \<lparr>sx_tenant = ''t'', sx_terminal = ''d'', sx_occurred = 1, sx_received = 2, sx_sequence = 1, sx_fingerprint = f\<rparr>"

lemma shop_context_fields:
  "sx_tenant (shop_context f) = ''t''" "sx_terminal (shop_context f) = ''d''" "sx_occurred (shop_context f) = 1"
  "sx_received (shop_context f) = 2" "sx_sequence (shop_context f) = 1" "sx_fingerprint (shop_context f) = f"
  by (simp_all add: shop_context_def)

lemma shop_sale_context:
  "sale_context dec_exact shop_host (shop_call p) shop_sale shop_till
     = Inr (shop_context (replicate 64 (CHR ''0'')), shop_lines)"
proof -
  have "normalize_lines dec_exact (cs_items shop_sale) = Inr shop_lines" "device_tenant shop_till = Inr ''t''"
    "int (digits_val (cs_sequence shop_sale)) = 1" by code_simp+
  moreover have "pt_branch shop_till = cs_branch shop_sale" "so_date shop_host t = 1" "sv_now (shop_call p) = 2" "pt_id shop_till = ''d''" for t
    by (simp_all add: shop_till_def shop_sale_def shop_host_def shop_call_def)
  moreover have "sale_fingerprint L shop_host dto t o' ls = replicate 64 (CHR ''0'')" for L dto t o' ls
    by (simp only: sale_fingerprint_def shop_host_def sale_host.simps)
  ultimately show ?thesis by (simp only: sale_context_def Let_def shop_context_def) simp
qed

lemma dec_exact_ops [simp]:
  "dec_plus dec_exact = (+)" "dec_minus dec_exact = (-)" "dec_mul dec_exact = (*)" "dec_div dec_exact = (/)"
  by (auto simp: dec_exact_def)

lemma has_places_numeral [simp]: "has_places n (numeral k)" "has_places n 1"
  using has_places_of_int [of n "numeral k"] has_places_of_int [of n 1] by simp_all

lemma moneyq_whole [simp]: "moneyq dec_exact 0 = 0" "moneyq dec_exact 1 = 1" "moneyq dec_exact (numeral k) = numeral k"
  by (simp_all add: dec_exact.moneyq_id)

lemma shop_variants: "sale_variants ''t'' shop_lines shop = Inr [shop_variant ''u'' ''nil'']"
  by (simp add: sale_variants_def shop_lines_def shop_def shop_variant_def shop_line_def)

definition shop_quote :: price_quote where
  "shop_quote = \<lparr>pq_qty = 1, pq_unit_price = 1, pq_net_price = 1, pq_tax_percent = 0, pq_tax_amount = 0, pq_selling_price = 1,
     pq_tax = \<lparr>tr_code_id = ''nil'', tr_code = ''nil'', tr_rate = 0, tr_base = 1, tr_tax = 0, tr_mode = Exclusive, tr_version = 1,
       tr_rounding = ''line'', tr_exemption = None, tr_net = 1, tr_gross = 1\<rparr>,
     pq_min_allowed_price = 1, pq_floor_is_cost_derived = True,
     pq_source = \<lparr>ps_book = ''k'', ps_entry = ''e'', ps_scope = Global_Scope, ps_scope_id = None, ps_min_qty = 1\<rparr>\<rparr>"

lemma shop_quotes: "sale_quotes dec_exact ''t'' 2 [shop_variant ''u'' ''nil''] shop_lines shop = Inr [(''u'', shop_quote)]"
  by (simp add: sale_quotes_def shop_lines_def shop_def shop_variant_def shop_line_def shop_price_def shop_code_def variant_by_id_def
    calculate_many_def price_line_def load_active_rules_def load_active_code_index_def active_codes_def build_index_def index_entry_def
    quote_indexed_def scope_priority_def scope_key_def priceable_variant.defs resolve_category_id_def price_from_entry_def tightest_break_def
    tax_calculate_def Let_def shop_quote_def truthy_def cong: and_then_weak_cong)

lemma shop_sold:
  "fold_result (sell_item ''t'' ''b'' 2) (map (price_item dec_exact [shop_variant ''u'' ''nil'']) shop_lines) (ws, shop)
     = Inr (ws, shop\<lparr>stock := (stock shop)((''b'', ''u'') \<mapsto> \<lparr>qty_on_hand = 7, qty_reserved = 0, last_sold_at = Some 2, stock_tenant = ''t''\<rparr>)\<rparr>)"
  by (simp add: shop_lines_def sell_item_def upsert_stock_def price_item_def shop_line_def shop_def warn_def Let_def int4_def stock_row_ok_def
    cong: and_then_weak_cong)

lemma shop_parts:
  "lock_terminal shop_till shop_sale shop = Inr shop_till" "find_sale t k shop = None" "linked_cashier ''t'' shop_sale shop = Some shop_cashier"
  "linked_seller t shop_sale shop = None" "linked_shift ''t'' shop_sale shop = Some shop_shift"
  "sd_invoices shop = []" "sd_returns shop = []" "sd_shifts shop = [shop_shift]" "movements shop = []" "pt_last_sequence shop_till = 0"
  "cs_branch shop_sale = ''b''" "cs_local_total shop_sale = 1" "cs_sync_id shop_sale = ''y''" "cs_payment shop_sale = ''cash''"
  "cs_phone shop_sale = None" "cs_items shop_sale = shop_lines" "pt_id shop_till = ''d''"
  "find (\<lambda>b. br_id b = ''b'' \<and> br_tenant b = ''t'') (rt_branches shop) = Some (hd (rt_branches shop))"
  "sh_status shop_shift = ''open''" "sh_id shop_shift = ''s''" "sh_tenant shop_shift = ''t''" "sh_opening_cash shop_shift = 500"
  "sh_branch shop_shift = ''b''"
  "sl_variant (shop_line v x) = v" "sl_qty (shop_line v x) = 1" "sl_price (shop_line v x) = 1" "sl_tax (shop_line v x) = x"
  "pv_id (shop_variant v c) = v" "pv_cost_price (shop_variant v c) = 1"
  by (simp_all add: lock_terminal_def shop_def shop_sale_def shop_till_def find_sale_def linked_cashier_def member_in_def
    linked_seller_def linked_shift_def shop_cashier_def shop_shift_def shop_line_def shop_variant_def)

lemma shop_sums:
  "items_subtotal dec_exact (map (price_item dec_exact [shop_variant ''u'' ''nil'']) shop_lines) = 1"
  "items_tax dec_exact (map (price_item dec_exact [shop_variant ''u'' ''nil'']) shop_lines) = 0"
  "items_total dec_exact (map (price_item dec_exact [shop_variant ''u'' ''nil'']) shop_lines) = 1"
  by (simp_all add: items_total_def items_subtotal_def items_tax_def shop_lines_def shop_line_def sum_moneyq_def line_moneyq_def)

lemma shop_items:
  "number_items (shop_call ''i'') (map (price_item dec_exact [shop_variant ''u'' ''nil'']) shop_lines)
     = [priced_item.extend (price_item dec_exact [shop_variant ''u'' ''nil''] (shop_line ''u'' 0)) \<lparr>ii_id = sv_uuid (shop_call ''i'') 3\<rparr>]"
  by (simp add: number_items_def shop_lines_def)

lemma extend_fields [simp]:
  "pi_variant (priced_item.extend i e) = pi_variant i" "pi_qty (priced_item.extend i e) = pi_qty i"
  "pi_price (priced_item.extend i e) = pi_price i" "pi_tax (priced_item.extend i e) = pi_tax i" "pi_cost (priced_item.extend i e) = pi_cost i"
  "ii_id (priced_item.extend i \<lparr>ii_id = x\<rparr>) = x"
  by (simp_all add: priced_item.defs)

lemma shop_sale_runs:
  "\<exists>i d'. create_sale dec_exact shop_host (shop_call ''i'') shop_sale shop_till shop = Inr (i, d') \<and> in_total i = 1 \<and> in_tenant i = ''t''
     \<and> in_shift i = Some ''s'' \<and> in_payment i = ''cash''"
proof -
  have c: "in_customer (sale_invoice L C x dto b ws cu ca se sh items) = cu" for L C x dto b ws cu ca se sh items
    by (simp add: sale_invoice_def)
  have f: "is_hash_text (replicate 64 (CHR ''0''))" by code_simp
  have k: "invoice_checks (sale_invoice L C (shop_context (replicate 64 (CHR ''0''))) dto b ws cu (Some ca) se (Some sh) items)" for L C dto b ws cu ca se sh items
    by (simp only: invoice_checks_def accounting_context_complete_def sale_invoice_def shop_context_def invoice_row.simps
        sale_command_context.simps option.simps f) simp
  have "\<exists>i d'. post_sale dec_exact (shop_call ''i'') (shop_context (replicate 64 (CHR ''0''))) shop_sale shop_till shop_lines shop = Inr (i, d')
      \<and> in_total i = 1 \<and> in_tenant i = ''t'' \<and> in_shift i = Some ''s'' \<and> in_payment i = ''cash''"
    by (simp add: post_sale_def shop_parts Let_def shop_context_fields shop_variants shop_quotes shop_sums shop_sold sale_customer_def truthy_def
      insert_invoice_def k all_items_def fits_numeric_def item_columns_fit_def shop_items price_item_def variant_by_id_def int4_def
      insert_snapshots_def record_snapshots_def tax_line_def assert_no_silent_zero_def shop_quote_def snapshot_row_of_def line_moneyq_def
      record_inventory_movement_def sale_movement_def opening_step_def movements_at_def opening_movement_def opening_key_def
      ledger_on_hand_def ledger_reserved_def finish_sale_def reconcile_late_sale_def credit_customer_def c
      cong: and_then_weak_cong)
  then show ?thesis by (simp add: create_sale_def shop_sale_context sale_transaction_def shop_parts shop_context_fields)
qed

lemma shop_inv: "sales_inv shop" "cash_inv m shop" "refund_inv shop" "few_documents shop" "sale_ok shop_sale"
proof -
  have "ledger_inv shop" by (simp add: ledger_inv_def balanced_def opening_keys_ok_def shop_def)
  moreover have "cost_inv shop" by (simp add: cost_inv_def shop_def shop_variant_def variant_costs_ok_def costs_of_def)
  moreover have "plain_branches shop" by (simp add: plain_branches_def shop_def plain_id_def)
  moreover have "documents_ok shop" "returned_ok shop" by (simp_all add: documents_ok_def returned_ok_def all_items_def shop_parts)
  ultimately show "sales_inv shop" by (simp add: sales_inv_def)
  show "cash_inv m shop" by (simp add: cash_inv_def shop_parts money_column_def fits_numeric_def)
  show "refund_inv shop" by (simp add: refund_inv_def shop_parts)
  show "few_documents shop" by (simp add: few_documents_def shop_parts)
  show "sale_ok shop_sale" by (simp add: sale_ok_def shop_parts shop_lines_def line_ok_def lines_price_def lines_tax_def)
qed

text \<open>The shop after its sale, and the same with the shift closed.\<close>

lemma shop_after_sale:
  obtains i d1 where "create_sale dec_exact shop_host (shop_call ''i'') shop_sale shop_till shop = Inr (i, d1)"
    "in_total i = 1" "in_tenant i = ''t''" "in_shift i = Some ''s''" "in_payment i = ''cash''"
    "sd_invoices d1 = [i]" "sd_returns d1 = []" "sd_shifts d1 = [shop_shift]" "sales_inv d1"
    "\<And>q U. serial_run dec_exact q shop_host U shop d1"
proof -
  obtain i d1 where r: "create_sale dec_exact shop_host (shop_call ''i'') shop_sale shop_till shop = Inr (i, d1)"
    and f: "in_total i = 1" "in_tenant i = ''t''" "in_shift i = Some ''s''" "in_payment i = ''cash''" using shop_sale_runs by blast
  have st: "serial_step dec_exact q shop_host U shop d1" for q U by (rule serial_sale [OF shop_inv(5) r])
  have k: "sales_inv d1" using create_sale_kept(1) [OF dec_exact.decimal_js_axioms shop_inv(5) r shop_inv(1)] by (simp add: sales_kept_def)
  have led: "ledger_inv shop" "plain_branches shop" using shop_inv(1) by (simp_all add: sales_inv_def)
  have "sd_invoices d1 = [i] \<and> sd_returns d1 = [] \<and> sd_shifts d1 = [shop_shift]"
  proof (rule create_saleE [OF r])
    fix x lines locked assume x: "sale_context dec_exact shop_host (shop_call ''i'') shop_sale shop_till = Inr (x, lines)"
      and p: "post_sale dec_exact (shop_call ''i'') x shop_sale locked lines shop = Inr (i, d1)"
    note e = post_sale_effect [OF p led]
    have "sx_tenant x = ''t''" using x by (auto simp: shop_sale_context shop_context_def)
    then show ?thesis using e(2-4) by (simp add: shop_parts sale_frame_def after_late_sale_def)
  qed (simp add: shop_parts)
  then show thesis using k st by (intro that [OF r f]) blast+
qed

definition shop_owner :: actor where
  "shop_owner = \<lparr>ac_sub = ''o'', ac_role = Owner, ac_branch = None\<rparr>"

lemma shop_closing:
  assumes "sd_shifts d = [shop_shift]" and "sd_invoices d = is" and "sum_cash_sales ''t'' ''s'' d = x" and "sum_cash_returns ''t'' ''s'' d = 0"
    and "\<bar>x\<bar> < 1000"
  shows "\<exists>g. close_shift_read dec_exact (\<lambda>_. True) (shop_call ''z'') ''t'' ''s'' shop_owner 501 d = Inr g \<and> sg_id g = ''s''
           \<and> fits_numeric 12 2 (sg_cash g) \<and> fits_numeric 12 2 (sg_expected g) \<and> fits_numeric 12 2 (sg_difference g)"
proof -
  have t: "trim ''s'' = ''s''" by code_simp
  have "\<bar>round_places 2 y - y\<bar> \<le> 1" for y by (rule order_trans [OF round_places_nearest]) simp
  note this [of "500 + x"] this [of "501 - round_places 2 (500 + x)"]
  then have "\<bar>round_places 2 (500 + x)\<bar> < 2000" "\<bar>round_places 2 (501 - round_places 2 (500 + x))\<bar> < 3000"
    using assms(5) by linarith+
  then show ?thesis
    using assms t
    by (simp add: close_shift_read_def close_shift_check_def closing_of_def require_resource_id_def find_shift_def shop_parts assert_branch_access_def shop_owner_def Let_def
      fits_numeric_def dec_exact.places)
qed

lemma shop_writes:
  assumes "sd_shifts d = [shop_shift]" and "sg_id g = ''s''"
    and "fits_numeric 12 2 (sg_cash g) \<and> fits_numeric 12 2 (sg_expected g) \<and> fits_numeric 12 2 (sg_difference g)"
  shows "close_shift_write ''t'' g d = Inr (Some (closed_with g shop_shift), d\<lparr>sd_shifts := [closed_with g shop_shift]\<rparr>)"
  using assms by (simp add: close_shift_write_def close_if_open_def shop_parts Let_def find_shift_def)

text \<open>The shop after its sale, with the shift closed.\<close>

lemma shop_closed:
  obtains i d1 r d2 where "create_sale dec_exact shop_host (shop_call ''i'') shop_sale shop_till shop = Inr (i, d1)"
    "close_shift dec_exact (\<lambda>_. True) (shop_call ''z'') ''t'' ''s'' shop_owner 501 d1 = Inr (r, d2)"
    "\<And>q. serial_run dec_exact q shop_host (\<lambda>_. True) shop d2"
    "\<exists>s \<in> set (sd_shifts d2). sh_status s = ''closed'' \<and> sh_opening_cash s = 500"
proof -
  obtain i d1 where r: "create_sale dec_exact shop_host (shop_call ''i'') shop_sale shop_till shop = Inr (i, d1)"
    and f: "in_total i = 1" "in_tenant i = ''t''" "in_shift i = Some ''s''" "in_payment i = ''cash''"
    and d1: "sd_invoices d1 = [i]" "sd_returns d1 = []" "sd_shifts d1 = [shop_shift]" 
    and run: "\<And>q U. serial_run dec_exact q shop_host U shop d1" by (rule shop_after_sale) (rule that; assumption)
  have sums: "\<bar>sum_cash_sales ''t'' ''s'' d1\<bar> < 1000" "sum_cash_returns ''t'' ''s'' d1 = 0"
    using f by (simp_all add: sum_cash_sales_def sum_cash_returns_def d1)
  obtain g where g: "close_shift_read dec_exact (\<lambda>_. True) (shop_call ''z'') ''t'' ''s'' shop_owner 501 d1 = Inr g"
    "sg_id g = ''s''" "fits_numeric 12 2 (sg_cash g) \<and> fits_numeric 12 2 (sg_expected g) \<and> fits_numeric 12 2 (sg_difference g)"
    using shop_closing [OF d1(3,1) refl sums(2,1)] by blast
  have c: "close_shift dec_exact (\<lambda>_. True) (shop_call ''z'') ''t'' ''s'' shop_owner 501 d1
      = Inr (Some (closed_with g shop_shift), d1\<lparr>sd_shifts := [closed_with g shop_shift]\<rparr>)"
    by (simp add: close_shift_def g(1) shop_writes [OF d1(3) g(2,3)])
  have "few_documents d1" by (simp add: few_documents_def d1)
  then have "serial_step dec_exact q shop_host (\<lambda>_. True) d1 (d1\<lparr>sd_shifts := [closed_with g shop_shift]\<rparr>)" for q
    by (rule serial_close [OF _ _ c]) simp
  then have "serial_run dec_exact q shop_host (\<lambda>_. True) shop (d1\<lparr>sd_shifts := [closed_with g shop_shift]\<rparr>)" for q
    using run [of q "\<lambda>_. True"] by (rule rtranclp.rtrancl_into_rtrancl [rotated])
  then show thesis by (rule that [OF r c]) (simp add: shop_parts)
qed



theorem sale_totals_exact_witness:
  "\<exists>i d'. create_sale dec_exact shop_host (shop_call ''i'') shop_sale shop_till shop = Inr (i, d') \<and> sd_invoices d' = [i]
     \<and> in_subtotal i = 1 \<and> in_tax i = 0 \<and> in_total i = cs_local_total shop_sale"
proof -
  obtain i d1 where r: "create_sale dec_exact shop_host (shop_call ''i'') shop_sale shop_till shop = Inr (i, d1)" by (rule shop_after_sale) (rule that; assumption)
  have "i \<notin> set (sd_invoices shop)" by (simp add: shop_parts)
  from sale_totals_exact [OF dec_exact.decimal_js_axioms shop_inv(1,5) r this] r show ?thesis
    by (intro exI [of _ i] exI [of _ d1]) (simp add: shop_parts shop_lines_def)
qed

theorem sale_retry_once_witness:
  "\<exists>i d1 r d2. create_sale dec_exact shop_host (shop_call ''i'') shop_sale shop_till shop = Inr (i, d1)
     \<and> close_shift dec_exact (\<lambda>_. True) (shop_call ''z'') ''t'' ''s'' shop_owner 501 d1 = Inr (r, d2)
     \<and> create_sale dec_exact shop_host (shop_call ''j'') shop_sale shop_till d2 = Inr (i, d2)"
proof -
  obtain i d1 r d2 where s: "create_sale dec_exact shop_host (shop_call ''i'') shop_sale shop_till shop = Inr (i, d1)"
    and c: "close_shift dec_exact (\<lambda>_. True) (shop_call ''z'') ''t'' ''s'' shop_owner 501 d1 = Inr (r, d2)" by (rule shop_closed) (rule that; assumption)
  obtain i' d1' where d: "create_sale dec_exact shop_host (shop_call ''i'') shop_sale shop_till shop = Inr (i', d1')"
    "sd_invoices d1' = [i']" "sd_returns d1' = []" by (rule shop_after_sale) (rule that; assumption)
  have "few_documents d1" using d s by (simp add: few_documents_def)
  then have "serial_step dec_exact (\<lambda>a b. a / b) shop_host (\<lambda>_. True) d1 d2" by (rule serial_close [OF _ _ c]) simp
  from sale_retry_once [OF dec_exact.decimal_js_axioms shop_inv(1,5) s serial_step_run [OF this], of "shop_call ''j''"] s c
  show ?thesis by auto
qed

theorem sale_during_close_lost_witness:
  "\<exists>g i d1 r d2. close_shift_read dec_exact (\<lambda>_. True) (shop_call ''z'') ''t'' ''s'' shop_owner 501 shop = Inr g
     \<and> create_sale dec_exact shop_host (shop_call ''i'') shop_sale shop_till shop = Inr (i, d1)
     \<and> close_shift_write ''t'' g d1 = Inr (r, d2)
     \<and> (\<exists>s \<in> set (sd_shifts d2). sh_status s = ''closed'' \<and> sh_expected_cash s = Some (drawer_cash s d2 - 1))"
proof -
  obtain i d1 where s: "create_sale dec_exact shop_host (shop_call ''i'') shop_sale shop_till shop = Inr (i, d1)"
    and f: "in_total i = 1" "in_tenant i = ''t''" "in_shift i = Some ''s''" "in_payment i = ''cash''"
    and d: "sd_shifts d1 = [shop_shift]" by (rule shop_after_sale) (rule that; assumption)
  have sums: "\<bar>sum_cash_sales ''t'' ''s'' shop\<bar> < 1000" "sum_cash_returns ''t'' ''s'' shop = 0"
    by (simp_all add: sum_cash_sales_def sum_cash_returns_def shop_parts)
  obtain g where g: "close_shift_read dec_exact (\<lambda>_. True) (shop_call ''z'') ''t'' ''s'' shop_owner 501 shop = Inr g" "sg_id g = ''s''"
    "fits_numeric 12 2 (sg_cash g) \<and> fits_numeric 12 2 (sg_expected g) \<and> fits_numeric 12 2 (sg_difference g)"
    using shop_closing [OF _ refl refl sums(2,1)] by (auto simp: shop_parts)
  note w = shop_writes [OF d g(2,3)]
  have "\<exists>s' \<in> set (sd_shifts (d1\<lparr>sd_shifts := [closed_with g shop_shift]\<rparr>)). sh_id s' = sh_id shop_shift \<and> sh_status s' = ''closed''
      \<and> sh_expected_cash s' = Some (drawer_cash s' (d1\<lparr>sd_shifts := [closed_with g shop_shift]\<rparr>) - in_total i)"
    by (rule sale_during_close_lost [OF dec_exact.decimal_js_axioms shop_inv(1,2,4) _ g(1) s _ w, of shop_shift])
      (simp_all add: shop_parts g(2) f)
  with g(1) s w f(1) show ?thesis by auto
qed



section \<open>Returns\<close>

text \<open>An invoice with a taxed unit and one that is taxed \<open>x\<close>.\<close>

definition mixed_item :: "string \<Rightarrow> string \<Rightarrow> rat \<Rightarrow> invoice_item" where
  "mixed_item i v tax = \<lparr>pi_variant = v, pi_qty = 1, pi_price = 100, pi_cost = 1, pi_tax = tax, pi_sku = v, pi_name_ar = v,
     pi_name_en = None, pi_size = None, pi_color = None, ii_id = i\<rparr>"

definition mixed_invoice :: "rat \<Rightarrow> invoice_row" where
  "mixed_invoice x =
     (sale_invoice dec_exact (shop_call ''i'') (shop_context (replicate 64 (CHR ''0''))) shop_sale (hd (rt_branches shop)) [] None
        (Some shop_cashier) None (Some shop_shift) [])
     \<lparr>in_subtotal := 200, in_tax := 14 + x, in_total := 214 + x, in_items := [mixed_item ''1'' ''v'' 14, mixed_item ''2'' ''u'' x]\<rparr>"

definition mixed_stock :: stock_row where
  "mixed_stock = \<lparr>qty_on_hand = 8, qty_reserved = 0, last_sold_at = None, stock_tenant = ''t''\<rparr>"

definition mixed_shop :: "rat \<Rightarrow> sales_db" where
  "mixed_shop x = shop\<lparr>stock := [(''b'', ''u'') \<mapsto> mixed_stock, (''b'', ''v'') \<mapsto> mixed_stock],
     rt_variants := [shop_variant ''v'' ''std'', shop_variant ''u'' ''nil''], sd_invoices := [mixed_invoice x]\<rparr>"

definition full_return :: create_return_dto where
  "full_return = \<lparr>cr_invoice = ''i'', cr_items = [(''1'', 1), (''2'', 1)], cr_reason = None\<rparr>"

lemma mixed_parts:
  "sd_invoices (mixed_shop x) = [mixed_invoice x]" "sd_returns (mixed_shop x) = []" "movements (mixed_shop x) = []" "rt_costs (mixed_shop x) = []"
  "rt_variants (mixed_shop x) = [shop_variant ''v'' ''std'', shop_variant ''u'' ''nil'']" "sd_customers (mixed_shop x) = []"
  "stock (mixed_shop x) = [(''b'', ''u'') \<mapsto> mixed_stock, (''b'', ''v'') \<mapsto> mixed_stock]" "rt_in_transit (mixed_shop x) = (\<lambda>_. 0)"
  "rt_branches (mixed_shop x) = [\<lparr>br_id = ''b'', br_tenant = ''t'', br_code = ''B'', br_active = True\<rparr>]"
  "in_id (mixed_invoice x) = ''i''" "in_tenant (mixed_invoice x) = ''t''" "in_branch (mixed_invoice x) = ''b''" "in_subtotal (mixed_invoice x) = 200"
  "in_tax (mixed_invoice x) = 14 + x" "in_total (mixed_invoice x) = 214 + x" "in_customer (mixed_invoice x) = None" "in_occurred_at (mixed_invoice x) = 1"
  "in_items (mixed_invoice x) = [mixed_item ''1'' ''v'' 14, mixed_item ''2'' ''u'' x]"
  "ii_id (mixed_item i v z) = i" "pi_variant (mixed_item i v z) = v" "pi_qty (mixed_item i v z) = 1" "pi_price (mixed_item i v z) = 100"
  "pi_cost (mixed_item i v z) = 1" "pi_tax (mixed_item i v z) = z" "sv_now (shop_call c) = 2" 
  "cr_invoice full_return = ''i''" "cr_items full_return = [(''1'', 1), (''2'', 1)]" "ac_role shop_owner = Owner"
  by (simp_all add: mixed_shop_def shop_def mixed_invoice_def mixed_item_def full_return_def shop_owner_def shop_call_def) 
   (simp_all add: sale_invoice_def shop_call_def shop_context_def shop_parts)

text \<open>What comes back of the second unit: its tax, or a share of the whole tax if it has none.\<close>

lemma mixed_back:
  assumes "(x, y) \<in> {(0, 7), (14, 14)}"
  shows "map_result (return_item_of dec_exact ''t'' (mixed_invoice x) (mixed_shop x)) (requested_units full_return)
     = Inr [\<lparr>ri_id = [], ri_sale_item = ''1'', ri_variant_id = ''v'', ri_qty_back = 1, ri_price = 100, ri_cost = 1, ri_tax = 14\<rparr>,
            \<lparr>ri_id = [], ri_sale_item = ''2'', ri_variant_id = ''u'', ri_qty_back = 1, ri_price = 100, ri_cost = 1, ri_tax = y\<rparr>]"
  using assms
  by (auto simp: requested_units_def mixed_parts add_requested_def return_item_of_def Let_def already_returned_def unit_tax_back_def cong: and_then_weak_cong)

lemma mixed_return:
  assumes "(x, y) \<in> {(0, 7), (14, 14)}"
  shows "\<exists>r d'. create_return dec_exact (\<lambda>a b. a / b) (shop_call ''r'') ''t'' shop_owner full_return (mixed_shop x) = Inr (r, d')
     \<and> re_invoice r = ''i'' \<and> re_total r = 214 + y"
proof -
  have u: "sv_uuid (shop_call p) n = p @ replicate n (CHR ''0'')" for p n by (simp add: shop_call_def)
  have c: "code_unit_compare ''v'' ''u'' = 1" "code_unit_compare ''u'' ''v'' = -1" by code_simp+
  have r: "round_places n (numeral k) = numeral k" "round_places n 1 = 1" for n k by (simp_all add: round_places_id)
  have y: "y = 7 \<or> y = 14" using assms by auto
  then have "round_places 2 y = y" "moneyq dec_exact y = y" "moneyq dec_exact (14 + y) = 14 + y" "moneyq dec_exact (214 + y) = 214 + y"
    "\<bar>14 + y\<bar> < 10000000000" "\<bar>214 + y\<bar> < 10000000000" "\<bar>y\<bar> < 10000000000" by (auto simp: r)
  then show ?thesis
    by (simp add: create_return_def mixed_parts mixed_back [OF assms] Let_def return_shift_def return_window_ms_def
      insert_return_def return_of_def refund_subtotal_def refund_tax_def sum_moneyq_def line_moneyq_def fits_numeric_def int4_def
      restock_item_def upsert_stock_def mixed_stock_def stock_row_ok_def count_return_def shop_variant_def flag_variants_def
      debit_customer_def u commit_return_def record_return_costs_def record_inventory_cost_movement_def return_cost_def
      global_quantity_def c int4_range_def post_cost_def open_costs_def opening_cost_def latest_cost_def next_cost_def
      incoming_cost_def cost_movement_of_def cost_columns_fit_def set_variant_cost_def r record_inventory_movement_def
      return_movement_def opening_step_def movements_at_def opening_movement_def opening_key_def ledger_on_hand_def
      ledger_reserved_def command_movement_def cong: and_then_weak_cong)
qed

lemma mixed_inv:
  assumes "x \<in> {0, 14}"
  shows "sales_inv (mixed_shop x)" and "cash_inv m (mixed_shop x)" and "refund_inv (mixed_shop x)"
proof -
  have "ledger_inv (mixed_shop x)" by (simp add: ledger_inv_def balanced_def opening_keys_ok_def mixed_parts mixed_stock_def)
  moreover have "cost_inv (mixed_shop x)" by (simp add: cost_inv_def mixed_parts shop_variant_def variant_costs_ok_def costs_of_def)
  moreover have "plain_branches (mixed_shop x)" by (simp add: plain_branches_def mixed_parts plain_id_def)
  moreover have "documents_ok (mixed_shop x)" "returned_ok (mixed_shop x)"
    by (simp_all add: documents_ok_def returned_ok_def all_items_def mixed_parts already_returned_def plain_id_def)
  ultimately show "sales_inv (mixed_shop x)" by (simp add: sales_inv_def)
  have "money_column (214 + x)" using assms by (auto simp: money_column_def fits_numeric_def)
  then show "cash_inv m (mixed_shop x)"
    by (simp add: cash_inv_def mixed_parts) (simp add: mixed_shop_def shop_parts money_column_def fits_numeric_def)
  have "has_places 2 x \<and> 0 \<le> x" using assms by auto
  then show "refund_inv (mixed_shop x)"
    using assms by (auto simp: refund_inv_def mixed_parts invoice_sums_def item_sum_def whole_cents_def)
qed

text \<open>Both units come back.\<close>

lemma mixed_run:
  assumes "(x, y) \<in> {(0, 7), (14, 14)}"
  obtains r d' where "create_return dec_exact (\<lambda>a b. a / b) (shop_call ''r'') ''t'' shop_owner full_return (mixed_shop x) = Inr (r, d')"
    "re_invoice r = ''i''" "re_total r = 214 + y" "sd_invoices d' = [mixed_invoice x]" "sd_returns d' = [r]"
    "sales_run dec_exact (\<lambda>a b. a / b) shop_host (\<lambda>_. True) (at_rest (mixed_shop x)) (at_rest d')"
proof -
  obtain r d' where r: "create_return dec_exact (\<lambda>a b. a / b) (shop_call ''r'') ''t'' shop_owner full_return (mixed_shop x) = Inr (r, d')"
    "re_invoice r = ''i''" "re_total r = 214 + y" using mixed_return [OF assms] by blast
  have x: "x \<in> {0, 14}" using assms by auto
  note e = create_return_effect [OF mixed_inv(1) [OF x] r(1)]
  have "sd_invoices d' = [mixed_invoice x]" "sd_returns d' = [r]" using e(2,3) by (simp_all add: mixed_parts)
  then show thesis using that [OF r] serial_step_run [OF serial_return [OF r(1)]] by blast
qed

theorem returns_within_sales_witness:
  "\<exists>y. sales_run dec_exact (\<lambda>a b. a / b) shop_host (\<lambda>_. True) (at_rest (mixed_shop 14)) y \<and> length (sd_returns (sy_db y)) = 1
     \<and> already_returned ''t'' ''1'' (sy_db y) \<le> 1 \<and> ledger_inv (sy_db y) \<and> cost_inv (sy_db y)"
proof -
  obtain r d' where d: "sd_invoices d' = [mixed_invoice 14]" "sd_returns d' = [r]"
    "sales_run dec_exact (\<lambda>a b. a / b) shop_host (\<lambda>_. True) (at_rest (mixed_shop 14)) (at_rest d')"
    by (rule mixed_run [of 14 14]) simp_all
  have "sales_inv (sy_db (at_rest (mixed_shop 14)))" using mixed_inv(1) by simp
  from returns_within_sales [OF dec_exact.decimal_js_axioms d(3) this] d show ?thesis
    by (intro exI [of _ "at_rest d'"]) (simp add: mixed_parts)
qed

theorem refunds_within_invoice_witness:
  "\<exists>y r. sales_run dec_exact (\<lambda>a b. a / b) shop_host (\<lambda>_. True) (at_rest (mixed_shop 14)) y \<and> sd_returns (sy_db y) = [r]
     \<and> re_total r = 228 \<and> (\<Sum>r\<leftarrow>filter (\<lambda>r. re_invoice r = in_id (mixed_invoice 14)) (sd_returns (sy_db y)). re_total r) \<le> 228"
proof -
  obtain r d' where d: "sd_invoices d' = [mixed_invoice 14]" "sd_returns d' = [r]" "re_total r = 214 + 14"
    "sales_run dec_exact (\<lambda>a b. a / b) shop_host (\<lambda>_. True) (at_rest (mixed_shop 14)) (at_rest d')"
    by (rule mixed_run [of 14 14]) simp_all
  have "sales_inv (sy_db (at_rest (mixed_shop 14)))" "refund_inv (sy_db (at_rest (mixed_shop 14)))" using mixed_inv by simp_all
  from refunds_within_invoice [OF dec_exact.decimal_js_axioms d(4) this, of "mixed_invoice 14"] d show ?thesis
    by (intro exI [of _ "at_rest d'"] exI [of _ r]) (simp add: mixed_parts)
qed

text \<open>The condition on taxed units is needed. In a consistent state, returning all of an invoice with
  a taxed and an untaxed line pays back more than the invoice charged: for the untaxed line, whose
  unit tax is zero, the handler takes a share of the whole invoice's tax.\<close>

theorem untaxed_unit_refunds_tax:
  "\<exists>(d :: sales_db) i C user request r d'.
     sales_inv d \<and> cash_inv (\<lambda>_. 0) d \<and> refund_inv d \<and> i \<in> set (sd_invoices d)
     \<and> create_return dec_exact (\<lambda>a b. a / b) C ''t'' user request d = Inr (r, d')
     \<and> re_invoice r = in_id i \<and> in_total i < re_total r"
proof -
  obtain r d' where "create_return dec_exact (\<lambda>a b. a / b) (shop_call ''r'') ''t'' shop_owner full_return (mixed_shop 0) = Inr (r, d')"
    "re_invoice r = ''i''" "re_total r = 214 + 7" by (rule mixed_run [of 0 7]) simp_all
  then show ?thesis using mixed_inv [of 0]
    by (intro exI [of _ "mixed_shop 0"] exI [of _ "mixed_invoice 0"] exI [of _ "shop_call ''r''"] exI [of _ shop_owner] exI [of _ full_return]
      exI [of _ r] exI [of _ d']) (simp add: mixed_parts)
qed

end
