(* ===== verification/Purchasing.thy ===== *)
theory Purchasing
  imports Cost_Ledger Purchase_Accounting Branch_Access
begin

text \<open>
  \<open>backend/src/purchasing/purchasing.service.ts\<close> and its controller: posting a supplier receipt,
  returning goods to the supplier, reversing a receipt, and the queries.

  A handler runs in one serializable transaction, which is tried again when it could not be
  serialized: here it is atomic. It returns what the service answers and the new state, or an error,
  and then the state is unchanged. A failure of a unique constraint in a table the client writes to
  is the error \<open>P2002\<close>, which two of the handlers catch; one inside a database function is not.
  Locks, JSON metadata, the length check of the digests and the joined tables of the answers are
  left out.
\<close>

section \<open>Tables\<close>

record supplier_row =
  sp_id :: id
  sp_tenant :: id

text \<open>
  The columns of a line that accounting version 1 leaves empty are options. The four columns of the
  cost snapshot are all empty or all set, by a check constraint.
\<close>

record purchase_line =
  li_id :: id
  li_variant :: id
  li_qty :: int
  li_unit_cost :: rat
  li_subtotal :: "rat option"
  li_discount :: "rat option"
  li_net_total :: "rat option"
  li_net_unit :: "rat option"
  li_snapshot :: "(int \<times> int \<times> rat \<times> rat) option"

record purchase_row =
  pu_id :: id
  pu_tenant :: id
  pu_supplier :: id
  pu_branch :: id
  pu_number :: "string option"
  pu_normalized :: "string option"
  pu_invoice_date :: "int option"
  pu_status :: string
  pu_version :: int
  pu_key :: string
  pu_fingerprint :: "string option"
  pu_subtotal :: rat
  pu_discount :: rat
  pu_percent :: rat
  pu_total :: rat
  pu_source :: "string option"
  pu_received_at :: int
  pu_created_by :: "id option"
  pu_reversal_key :: "string option"
  pu_reversal_fingerprint :: "string option"
  pu_reversal_reason :: "string option"
  pu_reversed_at :: "int option"
  pu_reversed_by :: "id option"
  pu_lines :: "purchase_line list"

record supplier_return_line =
  sx_id :: id
  sx_line :: id
  sx_variant :: id
  sx_qty :: int
  sx_credit_unit :: rat
  sx_credit :: rat
  sx_unit_cost :: rat
  sx_value :: rat
  sx_variance :: rat

record supplier_return =
  su_id :: id
  su_tenant :: id
  su_purchase :: id
  su_supplier :: id
  su_branch :: id
  su_number :: string
  su_key :: string
  su_fingerprint :: string
  su_reason :: string
  su_credit :: rat
  su_value :: rat
  su_variance :: rat
  su_occurred_at :: int
  su_created_by :: "id option"
  su_lines :: "supplier_return_line list"

record purchasing_db = retail_db +
  ps_suppliers :: "supplier_row list"
  ps_invoices :: "purchase_row list"
  ps_returns :: "supplier_return list"

section \<open>Requests and host\<close>

record supplier_return_dto =
  sq_command_id :: string
  sq_reason :: string
  sq_occurred_at :: "string option"
  sq_items :: "(id \<times> int) list"

record reverse_dto =
  rq_command_id :: "string option"
  rq_reason :: string

text \<open>
  \<open>new Date(s)\<close> is \<open>None\<close> for an invalid date. A call brings along the clock and the identifiers it
  draws.
\<close>

record purchasing_host = purchase_host +
  pc_text :: number_text
  pc_sha256 :: "string \<Rightarrow> string"
  pc_date :: "string \<Rightarrow> int option"
  pc_iso :: "int \<Rightarrow> string"

record purchase_call =
  pc_now :: int
  pc_uuid :: "nat \<Rightarrow> id"

definition unique_conflict :: error where
  "unique_conflict = JsError ''P2002''"

definition warehouse_roles :: "role list" where
  "warehouse_roles = [Owner, Warehouse_Manager]"

definition other_branch :: "actor \<Rightarrow> id \<Rightarrow> bool" where
  "other_branch user branch \<longleftrightarrow> ac_role user \<noteq> Owner \<and> ac_role user \<noteq> Warehouse_Manager \<and> ac_branch user \<noteq> Some branch"

text \<open>The time of a document: given, or now; at most five minutes ahead of the clock.\<close>

definition document_time :: "('a purchasing_host_scheme) \<Rightarrow> purchase_call \<Rightarrow> string option \<Rightarrow> error \<Rightarrow> int result" where
  "document_time H C given e =
     (case (if truthy given then pc_date H (the given) else Some (pc_now C)) of
        None \<Rightarrow> Inl e
      | Some t \<Rightarrow> and_then (throw_if (t > pc_now C + 300000) e) (\<lambda>_. Inr t))"

section \<open>Posting to the two ledgers\<close>

definition set_snapshot :: "id \<Rightarrow> cost_movement \<Rightarrow> purchase_line \<Rightarrow> purchase_line" where
  "set_snapshot i m l =
     (if li_id l = i
      then l\<lparr>li_snapshot := Some (cm_quantity_before m, cm_quantity_after m, cm_cost_before m, cm_cost_after m)\<rparr>
      else l)"

text \<open>
  \<open>UPDATE "PurchaseInvoiceItem"\<close> in \<open>record_inventory_cost_movement\<close>: a new receipt movement writes the
  quantities and costs to its line, under the constraint \<open>PurchaseInvoiceItem_cost_snapshot\<close>.
\<close>

definition store_snapshot :: "cost_movement \<Rightarrow> ('a purchasing_db_scheme) \<Rightarrow> ('a purchasing_db_scheme) result" where
  "store_snapshot m d =
     (let invoice = the (cm_purchase m); line = the (cm_purchase_item m) in
      and_then (or_throw (find (\<lambda>i. pu_id i = invoice) (ps_invoices d)) (JsError ''PurchaseInvoiceItem does not belong to PurchaseInvoice'')) (\<lambda>i.
      and_then (or_throw (find (\<lambda>l. li_id l = line) (pu_lines i)) (JsError ''PurchaseInvoiceItem does not belong to PurchaseInvoice'')) (\<lambda>l.
      and_then (throw_if (\<not> (cm_quantity_before m \<ge> 0 \<and> cm_quantity_after m = cm_quantity_before m + li_qty l
                              \<and> cm_cost_before m \<ge> 0 \<and> cm_cost_after m \<ge> 0))
                 (JsError ''check constraint failed'')) (\<lambda>_.
      Inr (d\<lparr>ps_invoices := map (\<lambda>x. if pu_id x = invoice then x\<lparr>pu_lines := map (set_snapshot line m) (pu_lines x)\<rparr> else x)
                              (ps_invoices d)\<rparr>)))))"

definition record_purchase_cost :: "quotient \<Rightarrow> cost_command \<Rightarrow> ('a purchasing_db_scheme) \<Rightarrow> ('a purchasing_db_scheme) result" where
  "record_purchase_cost q c d =
     and_then (record_inventory_cost_movement q c d) (\<lambda>(m, d').
     if cc_type c = Cost_Purchase_Receipt \<and> find (\<lambda>m. cm_key m = cc_key c) (rt_costs d) = None
     then store_snapshot m d' else Inr d')"

definition purchase_audit :: "id \<Rightarrow> actor \<Rightarrow> string \<Rightarrow> string \<Rightarrow> id \<Rightarrow> ('a purchasing_db_scheme) \<Rightarrow> ('a purchasing_db_scheme)" where
  "purchase_audit tenant user action entity i d =
     d\<lparr>rt_audits := rt_audits d @ [\<lparr>au_tenant = tenant, au_user = Some (ac_sub user), au_action = action, au_entity = entity, au_entity_id = i\<rparr>]\<rparr>"

definition not_enough_unreserved :: error where
  "not_enough_unreserved = Conflict ''INVENTORY_INSUFFICIENT_AVAILABLE_QUANTITY''"

text \<open>The update that takes units out, and its guard on the number of rows.\<close>

definition take_out :: "id \<Rightarrow> id \<Rightarrow> id \<Rightarrow> int \<Rightarrow> ('a ledger_db_scheme) \<Rightarrow> ('a ledger_db_scheme) result" where
  "take_out tenant branch variant qty d =
     (let (changed, d') = take_unreserved tenant branch variant qty d in
      and_then (throw_if (changed \<noteq> 1) not_enough_unreserved) (\<lambda>_. Inr d'))"

section \<open>receive\<close>

definition find_replay :: "id \<Rightarrow> prepared_receipt \<Rightarrow> id \<Rightarrow> ('a purchasing_db_scheme) \<Rightarrow> purchase_row option result" where
  "find_replay tenant p supplier d =
     (case find (\<lambda>i. pu_tenant i = tenant
                     \<and> (pu_key i = pr_idempotency_key p
                        \<or> (truthy (pr_invoice_number p) \<and> pu_supplier i = supplier \<and> pu_normalized i = pr_invoice_number p)))
             (ps_invoices d) of
        None \<Rightarrow> Inr None
      | Some existing \<Rightarrow>
          and_then (throw_if (pu_fingerprint existing \<noteq> Some (pr_fingerprint p))
                     (Conflict ''Purchase command or supplier invoice number belongs to different receipt data'')) (\<lambda>_.
          Inr (Some existing)))"

definition invoice_line :: "id \<Rightarrow> prepared_line \<Rightarrow> purchase_line" where
  "invoice_line i l =
     \<lparr>li_id = i, li_variant = pl_variant l, li_qty = pl_qty l, li_unit_cost = pl_unit_cost l,
      li_subtotal = Some (pl_line_subtotal l), li_discount = Some (pl_allocated_discount l),
      li_net_total = Some (pl_net_line_total l), li_net_unit = Some (pl_net_unit_cost l), li_snapshot = None\<rparr>"

definition purchase_of ::
  "('a purchasing_host_scheme) \<Rightarrow> purchase_call \<Rightarrow> id \<Rightarrow> actor \<Rightarrow> receipt_dto \<Rightarrow> prepared_receipt \<Rightarrow> int \<Rightarrow> purchase_row" where
  "purchase_of H C tenant user dto p at_time =
     \<lparr>pu_id = pc_uuid C 0, pu_tenant = tenant, pu_supplier = rd_supplier_id dto, pu_branch = rd_branch_id dto,
      pu_number = or_null (map_option trim (rd_invoice_number dto)), pu_normalized = pr_invoice_number p,
      pu_invoice_date = (if truthy (rd_invoice_date dto) then pc_date H (the (rd_invoice_date dto)) else None),
      pu_status = ''posted'', pu_version = 2, pu_key = pr_idempotency_key p, pu_fingerprint = Some (pr_fingerprint p),
      pu_subtotal = pr_subtotal p, pu_discount = pr_discount p,
      pu_percent = (case rd_discount_percent dto of None \<Rightarrow> 0 | Some x \<Rightarrow> x), pu_total = pr_total p,
      pu_source = rd_ocr_source_file dto, pu_received_at = at_time, pu_created_by = Some (ac_sub user),
      pu_reversal_key = None, pu_reversal_fingerprint = None, pu_reversal_reason = None, pu_reversed_at = None,
      pu_reversed_by = None, pu_lines = map (\<lambda>(k, l). invoice_line (pc_uuid C (1 + k)) l) (enumerate 0 (pr_lines p))\<rparr>"

definition all_lines :: "('a purchasing_db_scheme) \<Rightarrow> purchase_line list" where
  "all_lines d = concat (map pu_lines (ps_invoices d))"

text \<open>The column types and check constraints of the two tables.\<close>

definition line_columns_ok :: "purchase_line \<Rightarrow> bool" where
  "line_columns_ok l \<longleftrightarrow>
     0 < li_qty l \<and> int4 (li_qty l) \<and> 0 \<le> li_unit_cost l \<and> fits_numeric 18 6 (li_unit_cost l)
     \<and> (case (li_subtotal l, li_discount l, li_net_total l, li_net_unit l) of
          (Some s, Some a, Some n, Some u) \<Rightarrow>
            0 \<le> s \<and> 0 \<le> a \<and> 0 \<le> n \<and> 0 \<le> u \<and> a \<le> s \<and> n = s - a \<and> fits_numeric 18 2 s \<and> fits_numeric 18 6 u
        | (None, None, None, None) \<Rightarrow> True
        | _ \<Rightarrow> False)"

definition invoice_columns_ok :: "purchase_row \<Rightarrow> bool" where
  "invoice_columns_ok i \<longleftrightarrow>
     0 \<le> pu_subtotal i \<and> 0 \<le> pu_discount i \<and> pu_discount i \<le> pu_subtotal i \<and> 0 \<le> pu_total i
     \<and> pu_key i \<noteq> [] \<and> pu_total i = pu_subtotal i - pu_discount i
     \<and> fits_numeric 18 2 (pu_subtotal i) \<and> fits_numeric 5 2 (pu_percent i)"

definition insert_purchase :: "purchase_row \<Rightarrow> ('a purchasing_db_scheme) \<Rightarrow> ('a purchasing_db_scheme) result" where
  "insert_purchase i d =
     and_then (throw_if (\<not> (invoice_columns_ok i \<and> list_all line_columns_ok (pu_lines i))) (JsError ''check constraint failed'')) (\<lambda>_.
     and_then (throw_if (list_ex (\<lambda>x. pu_id x = pu_id i \<or> pu_key x = pu_key i
                            \<or> (pu_normalized i \<noteq> None \<and> pu_supplier x = pu_supplier i \<and> pu_normalized x = pu_normalized i)) (ps_invoices d)
                         \<or> \<not> distinct (map li_id (pu_lines i))
                         \<or> list_ex (\<lambda>l. li_id l \<in> li_id ` set (pu_lines i)) (all_lines d))
                unique_conflict) (\<lambda>_.
     Inr (d\<lparr>ps_invoices := ps_invoices d @ [i]\<rparr>)))"

text \<open>The keys under which the movements of a receipt are found again.\<close>

definition receipt_key :: "id \<Rightarrow> string" where
  "receipt_key line = ''purchase-receipt:'' @ line"

definition receipt_cost_key :: "id \<Rightarrow> string" where
  "receipt_cost_key line = ''purchase-cost:'' @ line"

definition receipt_movement :: "purchase_row \<Rightarrow> prepared_line \<Rightarrow> id \<Rightarrow> movement_command" where
  "receipt_movement i l line =
     \<lparr>mc_branch = pu_branch i, mc_variant = pl_variant l, mc_type = Purchase_Receipt, mc_on_hand_delta = pl_qty l,
      mc_reserved_delta = 0, mc_reference_type = ''PurchaseInvoice'', mc_reference_id = pu_id i,
      mc_reference_line = Some line, mc_key = receipt_key line, mc_occurred_at = pu_received_at i,
      mc_created_by = pu_created_by i\<rparr>"

definition receipt_cost :: "purchase_row \<Rightarrow> prepared_line \<Rightarrow> id \<Rightarrow> cost_command" where
  "receipt_cost i l line =
     \<lparr>cc_variant = pl_variant l, cc_branch = pu_branch i, cc_type = Cost_Purchase_Receipt, cc_delta = pl_qty l,
      cc_value = pl_net_line_total l, cc_reference_type = ''PurchaseInvoice'', cc_reference_id = pu_id i,
      cc_reference_line = Some line, cc_purchase = Some (pu_id i), cc_purchase_item = Some line,
      cc_supplier_return = None, cc_supplier_return_item = None, cc_key = receipt_cost_key line,
      cc_occurred_at = pu_received_at i, cc_created_by = pu_created_by i, cc_restore_cost = None\<rparr>"

definition post_receipt_line :: "quotient \<Rightarrow> purchase_row \<Rightarrow> prepared_line \<Rightarrow> ('a purchasing_db_scheme) \<Rightarrow> ('a purchasing_db_scheme) result" where
  "post_receipt_line q i l d =
     and_then (or_throw (find (\<lambda>x. li_variant x = pl_variant l) (pu_lines i)) (NotFound ''Created purchase line is missing'')) (\<lambda>line.
     and_then (upsert_stock (pu_tenant i) (pu_branch i) (pl_variant l) (pl_qty l) None d) (\<lambda>d1.
     and_then (record_inventory_movement (receipt_movement i l (li_id line)) d1) (\<lambda>d2.
     record_purchase_cost q (receipt_cost i l (li_id line)) d2)))"

definition purchase_by_id :: "id \<Rightarrow> id \<Rightarrow> ('a purchasing_db_scheme) \<Rightarrow> purchase_row result" where
  "purchase_by_id tenant i d =
     or_throw (find (\<lambda>x. pu_id x = i \<and> pu_tenant x = tenant) (ps_invoices d)) (NotFound ''Purchase invoice not found'')"

definition post_purchase ::
  "quotient \<Rightarrow> ('a purchasing_host_scheme) \<Rightarrow> purchase_call \<Rightarrow> id \<Rightarrow> actor \<Rightarrow> receipt_dto \<Rightarrow> prepared_receipt \<Rightarrow> int
   \<Rightarrow> ('b purchasing_db_scheme) \<Rightarrow> (purchase_row \<times> ('b purchasing_db_scheme)) result" where
  "post_purchase q H C tenant user dto p at_time d =
     and_then (throw_if (\<not> list_ex (\<lambda>b. br_id b = rd_branch_id dto \<and> br_tenant b = tenant \<and> br_active b) (rt_branches d))
                (NotFound ''Active branch not found'')) (\<lambda>_.
     and_then (throw_if (\<not> list_ex (\<lambda>s. sp_id s = rd_supplier_id dto \<and> sp_tenant s = tenant) (ps_suppliers d))
                (NotFound ''Supplier not found'')) (\<lambda>_.
     let ids = map pl_variant (pr_lines p) in
     and_then (throw_if (length (filter (\<lambda>v. pv_id v \<in> set ids \<and> va_tenant v = tenant) (rt_variants d)) \<noteq> length ids)
                (NotFound ''One or more product variants were not found'')) (\<lambda>_.
     let i = purchase_of H C tenant user dto p at_time in
     and_then (insert_purchase i d) (\<lambda>d1.
     and_then (fold_result (post_receipt_line q i) (pr_lines p) d1) (\<lambda>d2.
     let d3 = purchase_audit tenant user ''purchase.receipt.posted'' ''PurchaseInvoice'' (pu_id i) d2 in
     and_then (purchase_by_id tenant (pu_id i) d3) (\<lambda>row.
     Inr (row, d3)))))))"

definition receive ::
  "dec_lib \<Rightarrow> quotient \<Rightarrow> ('a purchasing_host_scheme) \<Rightarrow> purchase_call \<Rightarrow> id \<Rightarrow> actor \<Rightarrow> receipt_dto
   \<Rightarrow> ('b purchasing_db_scheme) \<Rightarrow> (purchase_row \<times> ('b purchasing_db_scheme)) result" where
  "receive L q H C tenant user dto d =
     and_then (throw_if (rd_discount_amount dto \<noteq> None \<and> rd_discount_percent dto \<noteq> None)
                (BadRequest ''Use either discount_amount or discount_percent, not both'')) (\<lambda>_.
     case prepare_purchase_receipt L (purchase_host.truncate H) dto of
       Inl e \<Rightarrow> Inl (BadRequest (case e of JsError m \<Rightarrow> m | _ \<Rightarrow> ''Invalid purchase receipt''))
     | Inr p \<Rightarrow>
         and_then (throw_if (other_branch user (rd_branch_id dto)) (Forbidden ''You cannot receive stock for another branch'')) (\<lambda>_.
         and_then (document_time H C (rd_received_at dto) (BadRequest ''received_at must be a valid time that is not in the future'')) (\<lambda>at_time.
         and_then (find_replay tenant p (rd_supplier_id dto) d) (\<lambda>replay.
         case replay of
           Some existing \<Rightarrow> Inr (existing, d)
         | None \<Rightarrow>
             (case post_purchase q H C tenant user dto p at_time d of
                Inr answer \<Rightarrow> Inr answer
              | Inl e \<Rightarrow>
                  if e = unique_conflict
                  then and_then (find_replay tenant p (rd_supplier_id dto) d) (\<lambda>again.
                       case again of
                         Some existing \<Rightarrow> Inr (existing, d)
                       | None \<Rightarrow> Inl (Conflict ''Supplier invoice number or purchase command was already used''))
                  else Inl e)))))"

section \<open>returnToSupplier\<close>

definition add_returned :: "id \<times> int \<Rightarrow> (id \<times> int) list \<Rightarrow> (id \<times> int) list result" where
  "add_returned item requested =
     (let next = (case map_of requested (fst item) of None \<Rightarrow> 0 | Some q \<Rightarrow> q) + snd item in
      and_then (throw_if (\<not> safe_int next \<or> next > 2147483647) (BadRequest ''Supplier return quantity exceeds supported range'')) (\<lambda>_.
      Inr (AList.update (fst item) next requested)))"

definition canonical_items :: "('a purchasing_host_scheme) \<Rightarrow> supplier_return_dto \<Rightarrow> (id \<times> int) list result" where
  "canonical_items H dto =
     and_then (fold_result add_returned (sq_items dto) []) (\<lambda>requested.
     Inr (js_sort (\<lambda>l r. locale_compare H (fst l) (fst r)) requested))"

definition return_fingerprint :: "('a purchasing_host_scheme) \<Rightarrow> id \<Rightarrow> string \<Rightarrow> supplier_return_dto \<Rightarrow> int \<Rightarrow> (id \<times> int) list \<Rightarrow> string" where
  "return_fingerprint H purchase reason dto at_time items =
     pc_sha256 H (json_text (pc_text H)
       (Object [(''version'', Number 1), (''purchase_invoice_id'', String purchase), (''reason'', String reason),
                (''occurred_at'', if truthy (sq_occurred_at dto) then String (pc_iso H at_time) else Null),
                (''items'', Array (map (\<lambda>(line, qty). Object [(''purchase_invoice_item_id'', String line), (''qty'', Number (of_int qty))]) items))]))"

text \<open>Replay of a command: the stored return, if it is of the same data.\<close>

definition find_return :: "id \<Rightarrow> string \<Rightarrow> ('a purchasing_db_scheme) \<Rightarrow> supplier_return option" where
  "find_return tenant key d = find (\<lambda>r. su_tenant r = tenant \<and> su_key r = key) (ps_returns d)"

definition replay_return :: "string \<Rightarrow> supplier_return \<Rightarrow> ('a purchasing_db_scheme) \<Rightarrow> (supplier_return \<times> ('a purchasing_db_scheme)) result" where
  "replay_return fingerprint r d =
     and_then (throw_if (su_fingerprint r \<noteq> fingerprint) (Conflict ''Supplier return command belongs to different return data'')) (\<lambda>_.
     Inr (r, d))"

text \<open>What the earlier returns took of a purchase line: units and credit.\<close>

definition returns_of_line :: "id \<Rightarrow> ('a purchasing_db_scheme) \<Rightarrow> supplier_return_line list" where
  "returns_of_line line d = filter (\<lambda>x. sx_line x = line) (concat (map su_lines (ps_returns d)))"

definition line_taken :: "id \<Rightarrow> ('a purchasing_db_scheme) \<Rightarrow> int \<times> rat" where
  "line_taken line d = ((\<Sum>x\<leftarrow>returns_of_line line d. sx_qty x), (\<Sum>x\<leftarrow>returns_of_line line d. sx_credit x))"

definition line_credit :: "dec_lib \<Rightarrow> purchase_line \<Rightarrow> rat" where
  "line_credit L l =
     dec_places L 2 (case li_net_total l of
        Some n \<Rightarrow> n | None \<Rightarrow> dec_places L 2 (dec_mul L (li_unit_cost l) (of_int (li_qty l))))"

definition unit_credit :: "purchase_line \<Rightarrow> rat" where
  "unit_credit l = (case li_net_unit l of Some u \<Rightarrow> u | None \<Rightarrow> li_unit_cost l)"

definition prepare_return_line ::
  "dec_lib \<Rightarrow> id \<Rightarrow> purchase_row \<Rightarrow> ('a purchasing_db_scheme) \<Rightarrow> id \<times> int \<Rightarrow> supplier_return_line result" where
  "prepare_return_line L tenant i d request =
     (let line = the (find (\<lambda>l. li_id l = fst request) (pu_lines i)); qty = snd request; taken = line_taken (li_id line) d in
      and_then (or_throw (find (\<lambda>v. pv_id v = li_variant line \<and> va_tenant v = tenant) (rt_variants d)) (NotFound ''Variant not found'')) (\<lambda>v.
      and_then (case calculate_supplier_return_credit L (li_qty line) (line_credit L line) (fst taken) (snd taken) qty (unit_credit line) of
                  Inl e \<Rightarrow> Inl (Conflict (case e of JsError m \<Rightarrow> m | _ \<Rightarrow> ''Invalid supplier return for purchase line''))
                | Inr c \<Rightarrow> Inr c) (\<lambda>c.
      let unit_cost = dec_places L 2 (pv_cost_price v); worth = dec_places L 2 (dec_mul L unit_cost (of_int qty)) in
      Inr \<lparr>sx_id = [], sx_line = li_id line, sx_variant = li_variant line, sx_qty = qty,
           sx_credit_unit = rc_credit_unit_cost c, sx_credit = rc_credit_total c, sx_unit_cost = unit_cost, sx_value = worth,
           sx_variance = dec_places L 2 (dec_minus L (rc_credit_total c) worth)\<rparr>)))"

definition sum_places :: "dec_lib \<Rightarrow> rat list \<Rightarrow> rat" where
  "sum_places L xs = dec_places L 2 (foldl (dec_plus L) 0 xs)"

definition supplier_return_of ::
  "dec_lib \<Rightarrow> purchase_call \<Rightarrow> purchase_row \<Rightarrow> id \<Rightarrow> actor \<Rightarrow> string \<Rightarrow> string \<Rightarrow> string \<Rightarrow> int \<Rightarrow> supplier_return_line list \<Rightarrow> supplier_return" where
  "supplier_return_of L C i tenant user key fingerprint reason at_time items =
     (let credit = sum_places L (map sx_credit items); worth = sum_places L (map sx_value items) in
      \<lparr>su_id = pc_uuid C 0, su_tenant = tenant, su_purchase = pu_id i, su_supplier = pu_supplier i, su_branch = pu_branch i,
       su_number = ''SR-'' @ int_string at_time @ ''-'' @ take 8 (pc_uuid C 1), su_key = key, su_fingerprint = fingerprint,
       su_reason = reason, su_credit = credit, su_value = worth, su_variance = dec_places L 2 (dec_minus L credit worth),
       su_occurred_at = at_time, su_created_by = Some (ac_sub user),
       su_lines = map (\<lambda>(k, x). x\<lparr>sx_id := pc_uuid C (2 + k)\<rparr>) (enumerate 0 items)\<rparr>)"

definition return_line_columns_ok :: "supplier_return_line \<Rightarrow> bool" where
  "return_line_columns_ok x \<longleftrightarrow>
     0 < sx_qty x \<and> 0 \<le> sx_credit_unit x \<and> 0 \<le> sx_credit x \<and> 0 \<le> sx_unit_cost x \<and> 0 \<le> sx_value x
     \<and> sx_variance x = sx_credit x - sx_value x \<and> fits_numeric 18 6 (sx_credit_unit x) \<and> fits_numeric 12 2 (sx_unit_cost x)"

definition insert_supplier_return :: "supplier_return \<Rightarrow> ('a purchasing_db_scheme) \<Rightarrow> ('a purchasing_db_scheme) result" where
  "insert_supplier_return r d =
     and_then (throw_if (\<not> (0 \<le> su_credit r \<and> 0 \<le> su_value r \<and> su_variance r = su_credit r - su_value r
                            \<and> list_all return_line_columns_ok (su_lines r))) (JsError ''check constraint failed'')) (\<lambda>_.
     and_then (throw_if (list_ex (\<lambda>x. su_id x = su_id r \<or> su_key x = su_key r
                            \<or> (su_tenant x = su_tenant r \<and> su_number x = su_number r)) (ps_returns d)
                         \<or> \<not> distinct (map sx_id (su_lines r))
                         \<or> list_ex (\<lambda>x. list_ex (\<lambda>y. sx_id y \<in> sx_id ` set (su_lines r)) (su_lines x)) (ps_returns d))
                unique_conflict) (\<lambda>_.
     Inr (d\<lparr>ps_returns := ps_returns d @ [r]\<rparr>)))"

definition return_key :: "id \<Rightarrow> string" where
  "return_key line = ''supplier-return-stock:'' @ line"

definition supplier_return_movement :: "supplier_return \<Rightarrow> supplier_return_line \<Rightarrow> movement_command" where
  "supplier_return_movement r x =
     \<lparr>mc_branch = su_branch r, mc_variant = sx_variant x, mc_type = Reversal, mc_on_hand_delta = - sx_qty x,
      mc_reserved_delta = 0, mc_reference_type = ''SupplierReturn'', mc_reference_id = su_id r,
      mc_reference_line = Some (sx_id x), mc_key = return_key (sx_id x),
      mc_occurred_at = su_occurred_at r, mc_created_by = su_created_by r\<rparr>"

definition supplier_return_cost :: "supplier_return \<Rightarrow> supplier_return_line \<Rightarrow> cost_command" where
  "supplier_return_cost r x =
     \<lparr>cc_variant = sx_variant x, cc_branch = su_branch r, cc_type = Cost_Supplier_Return, cc_delta = - sx_qty x,
      cc_value = - sx_value x, cc_reference_type = ''SupplierReturn'', cc_reference_id = su_id r,
      cc_reference_line = Some (sx_id x), cc_purchase = Some (su_purchase r), cc_purchase_item = Some (sx_line x),
      cc_supplier_return = Some (su_id r), cc_supplier_return_item = Some (sx_id x),
      cc_key = ''supplier-return-cost:'' @ sx_id x, cc_occurred_at = su_occurred_at r,
      cc_created_by = su_created_by r, cc_restore_cost = None\<rparr>"

definition post_return_line :: "quotient \<Rightarrow> supplier_return \<Rightarrow> supplier_return_line \<Rightarrow> ('a purchasing_db_scheme) \<Rightarrow> ('a purchasing_db_scheme) result" where
  "post_return_line q r x d =
     and_then (take_out (su_tenant r) (su_branch r) (sx_variant x) (sx_qty x) d) (\<lambda>d1.
     and_then (record_inventory_movement (supplier_return_movement r x) d1) (\<lambda>d2.
     record_purchase_cost q (supplier_return_cost r x) d2))"

definition max_accounting_value :: rat where
  "max_accounting_value = 999999999999999999 / 100"

definition post_supplier_return ::
  "dec_lib \<Rightarrow> quotient \<Rightarrow> purchase_call \<Rightarrow> id \<Rightarrow> actor \<Rightarrow> id \<Rightarrow> string \<Rightarrow> string \<Rightarrow> string \<Rightarrow> int \<Rightarrow> (id \<times> int) list
   \<Rightarrow> ('b purchasing_db_scheme) \<Rightarrow> (supplier_return \<times> ('b purchasing_db_scheme)) result" where
  "post_supplier_return L q C tenant user purchase key fingerprint reason at_time items d =
     and_then (purchase_by_id tenant purchase d) (\<lambda>i.
     and_then (throw_if (pu_status i \<noteq> ''posted'') (Conflict ''Supplier returns require a posted purchase invoice'')) (\<lambda>_.
     and_then (throw_if (pu_version i < 2 \<and> pu_discount i > 0)
                (Conflict ''A discounted legacy purchase has no reproducible line allocation and requires manual accounting review'')) (\<lambda>_.
     and_then (throw_if (other_branch user (pu_branch i)) (Forbidden ''You cannot return stock for another branch'')) (\<lambda>_.
     and_then (throw_if (list_ex (\<lambda>x. fst x \<notin> li_id ` set (pu_lines i)) items)
                (BadRequest ''Purchase line does not belong to the invoice'')) (\<lambda>_.
     and_then (map_result (prepare_return_line L tenant i d) items) (\<lambda>prepared.
     let r = supplier_return_of L C i tenant user key fingerprint reason at_time prepared in
     and_then (throw_if (su_credit r > max_accounting_value \<or> su_value r > max_accounting_value \<or> \<bar>su_variance r\<bar> > max_accounting_value)
                (BadRequest ''Supplier return exceeds supported accounting value range'')) (\<lambda>_.
     and_then (insert_supplier_return r d) (\<lambda>d1.
     and_then (fold_result (post_return_line q r) (su_lines r) d1) (\<lambda>d2.
     Inr (r, purchase_audit tenant user ''purchase.supplier_return.posted'' ''SupplierReturn'' (su_id r) d2))))))))))"

definition return_to_supplier ::
  "dec_lib \<Rightarrow> quotient \<Rightarrow> ('a purchasing_host_scheme) \<Rightarrow> purchase_call \<Rightarrow> id \<Rightarrow> actor \<Rightarrow> id \<Rightarrow> supplier_return_dto
   \<Rightarrow> ('b purchasing_db_scheme) \<Rightarrow> (supplier_return \<times> ('b purchasing_db_scheme)) result" where
  "return_to_supplier L q H C tenant user purchase dto d =
     (let reason = trim (sq_reason dto); key = ''supplier-return:'' @ sq_command_id dto in
      and_then (throw_if (sq_command_id dto = []) (BadRequest ''command_id is required for supplier returns'')) (\<lambda>_.
      and_then (throw_if (reason = []) (BadRequest ''Supplier return reason is required'')) (\<lambda>_.
      and_then (document_time H C (sq_occurred_at dto) (BadRequest ''occurred_at must be a valid time that is not in the future'')) (\<lambda>at_time.
      and_then (canonical_items H dto) (\<lambda>items.
      let fingerprint = return_fingerprint H purchase reason dto at_time items in
      case find_return tenant key d of
        Some r \<Rightarrow> replay_return fingerprint r d
      | None \<Rightarrow>
          (case post_supplier_return L q C tenant user purchase key fingerprint reason at_time items d of
             Inr answer \<Rightarrow> Inr answer
           | Inl e \<Rightarrow>
               (if e = unique_conflict
                then (case find_return tenant key d of Some r \<Rightarrow> replay_return fingerprint r d | None \<Rightarrow> Inl e)
                else Inl e)))))))"

section \<open>reverse\<close>

text \<open>The movements of the variant recorded after the one with the key (the sequence is the order of the list).\<close>

definition recorded_after :: "('m \<Rightarrow> string) \<Rightarrow> string \<Rightarrow> 'm list \<Rightarrow> 'm list" where
  "recorded_after key k ms = tl (dropWhile (\<lambda>m. key m \<noteq> k) ms)"

definition has_downstream :: "cost_movement \<Rightarrow> string \<Rightarrow> id \<Rightarrow> id \<Rightarrow> string \<Rightarrow> ('a purchasing_db_scheme) \<Rightarrow> bool" where
  "has_downstream receipt cost_key tenant variant stock_key d \<longleftrightarrow>
     list_ex (\<lambda>m. cm_variant m = variant) (recorded_after cm_key cost_key (rt_costs d))
     \<or> list_ex (\<lambda>m. mv_variant m = variant) (recorded_after mv_key stock_key (movements d))
     \<or> global_quantity d variant \<noteq> cm_quantity_after receipt
     \<or> (case find (\<lambda>v. pv_id v = variant \<and> va_tenant v = tenant) (rt_variants d) of
          None \<Rightarrow> True | Some v \<Rightarrow> pv_cost_price v \<noteq> cm_cost_after receipt)"

definition reversal_key :: "id \<Rightarrow> string" where
  "reversal_key line = ''purchase-reversal-stock:'' @ line"

definition cost_reversal_key :: "id \<Rightarrow> string" where
  "cost_reversal_key line = ''purchase-cost-reversal:'' @ line"

definition reversal_movement :: "purchase_call \<Rightarrow> actor \<Rightarrow> purchase_row \<Rightarrow> purchase_line \<Rightarrow> movement_command" where
  "reversal_movement C user i l =
     \<lparr>mc_branch = pu_branch i, mc_variant = li_variant l, mc_type = Reversal, mc_on_hand_delta = - li_qty l,
      mc_reserved_delta = 0, mc_reference_type = ''PurchaseInvoice'', mc_reference_id = pu_id i,
      mc_reference_line = Some (li_id l), mc_key = reversal_key (li_id l), mc_occurred_at = pc_now C,
      mc_created_by = Some (ac_sub user)\<rparr>"

definition reversal_cost :: "purchase_call \<Rightarrow> actor \<Rightarrow> purchase_row \<Rightarrow> purchase_line \<Rightarrow> cost_movement \<Rightarrow> cost_command" where
  "reversal_cost C user i l receipt =
     \<lparr>cc_variant = li_variant l, cc_branch = pu_branch i, cc_type = Cost_Purchase_Reversal, cc_delta = - li_qty l,
      cc_value = - cm_movement_value receipt, cc_reference_type = ''PurchaseInvoice'', cc_reference_id = pu_id i,
      cc_reference_line = Some (li_id l), cc_purchase = Some (pu_id i), cc_purchase_item = Some (li_id l),
      cc_supplier_return = None, cc_supplier_return_item = None, cc_key = cost_reversal_key (li_id l),
      cc_occurred_at = pc_now C, cc_created_by = Some (ac_sub user), cc_restore_cost = Some (cm_cost_before receipt)\<rparr>"

definition reverse_line ::
  "quotient \<Rightarrow> purchase_call \<Rightarrow> id \<Rightarrow> actor \<Rightarrow> purchase_row \<Rightarrow> purchase_line \<Rightarrow> ('a purchasing_db_scheme) \<Rightarrow> ('a purchasing_db_scheme) result" where
  "reverse_line q C tenant user i l d =
     (let cost_key = receipt_cost_key (li_id l); stock_key = receipt_key (li_id l);
          legacy = Conflict ''Legacy or incomplete purchase receipts cannot be reversed automatically'' in
      and_then (or_throw (find (\<lambda>m. cm_tenant m = tenant \<and> cm_key m = cost_key) (rt_costs d)) legacy) (\<lambda>receipt.
      and_then (or_throw (find (\<lambda>m. mv_tenant m = tenant \<and> mv_key m = stock_key) (movements d)) legacy) (\<lambda>_.
      and_then (throw_if (has_downstream receipt cost_key tenant (li_variant l) stock_key d)
                 (Conflict ''Purchase receipt has downstream inventory activity and cannot be fully reversed'')) (\<lambda>_.
      and_then (take_out tenant (pu_branch i) (li_variant l) (li_qty l) d) (\<lambda>d1.
      and_then (record_inventory_movement (reversal_movement C user i l) d1) (\<lambda>d2.
      record_purchase_cost q (reversal_cost C user i l receipt) d2))))))"

definition mark_reversed :: "purchase_call \<Rightarrow> actor \<Rightarrow> string \<Rightarrow> string \<Rightarrow> string \<Rightarrow> purchase_row \<Rightarrow> purchase_row" where
  "mark_reversed C user key fingerprint reason i =
     i\<lparr>pu_status := ''reversed'', pu_reversal_key := Some key, pu_reversal_fingerprint := Some fingerprint,
       pu_reversal_reason := Some reason, pu_reversed_at := Some (pc_now C), pu_reversed_by := Some (ac_sub user)\<rparr>"

definition store_reversal :: "purchase_call \<Rightarrow> actor \<Rightarrow> string \<Rightarrow> string \<Rightarrow> string \<Rightarrow> id \<Rightarrow> ('a purchasing_db_scheme) \<Rightarrow> ('a purchasing_db_scheme) result" where
  "store_reversal C user key fingerprint reason i d =
     and_then (throw_if (list_ex (\<lambda>x. pu_id x \<noteq> i \<and> pu_reversal_key x = Some key) (ps_invoices d)) unique_conflict) (\<lambda>_.
     Inr (d\<lparr>ps_invoices := map (\<lambda>x. if pu_id x = i then mark_reversed C user key fingerprint reason x else x) (ps_invoices d)\<rparr>))"

definition reversal_fingerprint :: "('a purchasing_host_scheme) \<Rightarrow> id \<Rightarrow> string \<Rightarrow> string" where
  "reversal_fingerprint H purchase reason =
     pc_sha256 H (json_text (pc_text H) (Object [(''version'', Number 1), (''invoice_id'', String purchase), (''reason'', String reason)]))"

definition reverse_purchase ::
  "quotient \<Rightarrow> ('a purchasing_host_scheme) \<Rightarrow> purchase_call \<Rightarrow> id \<Rightarrow> actor \<Rightarrow> id \<Rightarrow> reverse_dto
   \<Rightarrow> ('b purchasing_db_scheme) \<Rightarrow> (purchase_row \<times> ('b purchasing_db_scheme)) result" where
  "reverse_purchase q H C tenant user purchase dto d =
     (let reason = trim (rq_reason dto); fingerprint = reversal_fingerprint H purchase reason;
          key = ''purchase-reversal:'' @ (if truthy (rq_command_id dto) then the (rq_command_id dto) else purchase) in
      and_then (throw_if (reason = []) (BadRequest ''Reversal reason is required'')) (\<lambda>_.
      and_then (purchase_by_id tenant purchase d) (\<lambda>i.
      and_then (throw_if (other_branch user (pu_branch i)) (Forbidden ''You cannot reverse a purchase for another branch'')) (\<lambda>_.
      if pu_status i = ''reversed''
      then and_then (throw_if (\<not> (pu_reversal_key i = Some key \<and> pu_reversal_fingerprint i = Some fingerprint))
                       (Conflict ''Purchase invoice was already reversed by a different command'')) (\<lambda>_. Inr (i, d))
      else
        and_then (throw_if (pu_status i \<noteq> ''posted'') (Conflict ''Only a posted purchase invoice can be reversed'')) (\<lambda>_.
        and_then (fold_result (reverse_line q C tenant user i) (pu_lines i) d) (\<lambda>d1.
        and_then (store_reversal C user key fingerprint reason (pu_id i) d1) (\<lambda>d2.
        let d3 = purchase_audit tenant user ''purchase.receipt.reversed'' ''PurchaseInvoice'' (pu_id i) d2 in
        and_then (purchase_by_id tenant (pu_id i) d3) (\<lambda>row. Inr (row, d3)))))))))"

section \<open>Queries\<close>

text \<open>\<open>Math.min(most, Math.max(1, take || otherwise))\<close>\<close>

definition safe_take :: "int \<Rightarrow> int \<Rightarrow> int \<Rightarrow> nat" where
  "safe_take most otherwise n = nat (min most (max 1 (if n = 0 then otherwise else n)))"

text \<open>Latest first, and among those of one time the largest identifier.\<close>

definition latest_first :: "('x \<Rightarrow> int) \<Rightarrow> ('x \<Rightarrow> id) \<Rightarrow> 'x list \<Rightarrow> 'x list" where
  "latest_first at_time ident =
     js_sort (\<lambda>x y. if at_time x = at_time y then code_unit_compare (ident y) (ident x) else at_time y - at_time x)"

definition in_branch_scope :: "id option \<Rightarrow> id \<Rightarrow> bool" where
  "in_branch_scope branch b \<longleftrightarrow> (truthy branch \<longrightarrow> branch = Some b)"

definition list_purchases :: "id \<Rightarrow> id option \<Rightarrow> int \<Rightarrow> ('a purchasing_db_scheme) \<Rightarrow> purchase_row list" where
  "list_purchases tenant branch n d =
     take (safe_take 200 50 n)
       (latest_first pu_received_at pu_id
         (filter (\<lambda>i. pu_tenant i = tenant \<and> in_branch_scope branch (pu_branch i)) (ps_invoices d)))"

definition list_supplier_returns :: "id \<Rightarrow> id option \<Rightarrow> int \<Rightarrow> ('a purchasing_db_scheme) \<Rightarrow> supplier_return list" where
  "list_supplier_returns tenant branch n d =
     take (safe_take 500 100 n)
       (latest_first su_occurred_at su_id
         (filter (\<lambda>r. su_tenant r = tenant \<and> in_branch_scope branch (su_branch r)) (ps_returns d)))"

definition list_cost_movements :: "id \<Rightarrow> id option \<Rightarrow> id option \<Rightarrow> int \<Rightarrow> ('a purchasing_db_scheme) \<Rightarrow> cost_movement list" where
  "list_cost_movements tenant branch variant n d =
     take (safe_take 500 100 n)
       (filter (\<lambda>m. cm_tenant m = tenant \<and> (truthy branch \<longrightarrow> cm_branch m = branch) \<and> (truthy variant \<longrightarrow> variant = Some (cm_variant m)))
         (rev (rt_costs d)))"

text \<open>
  The reconciliation compares with SQL's three values: without a ledger row the comparison of costs
  is \<open>NULL\<close>, and \<open>false OR NULL\<close> is \<open>NULL\<close>. The stock rows and transfers of a variant are of its
  tenant; the order by SKU is left out.
\<close>

record cost_reconciliation_row =
  cq_variant :: id
  cq_materialized :: rat
  cq_ledger :: "rat option"
  cq_quantity :: int
  cq_reconciled :: "bool option"

definition reconcile_cost :: "id \<Rightarrow> ('a purchasing_db_scheme) \<Rightarrow> variant_row \<Rightarrow> cost_reconciliation_row" where
  "reconcile_cost tenant d v =
     (let ledger = map_option cm_cost_after (latest_cost (filter (\<lambda>m. cm_tenant m = tenant) (rt_costs d)) (pv_id v));
          quantity = global_quantity d (pv_id v) in
      \<lparr>cq_variant = pv_id v, cq_materialized = pv_cost_price v, cq_ledger = ledger, cq_quantity = quantity,
       cq_reconciled = (case ledger of None \<Rightarrow> if quantity = 0 then Some True else None
                                     | Some c \<Rightarrow> Some (c = pv_cost_price v))\<rparr>)"

text \<open>Ascending, with \<open>NULL\<close> last.\<close>

definition reconciled_rank :: "bool option \<Rightarrow> int" where
  "reconciled_rank b = (case b of None \<Rightarrow> 2 | Some False \<Rightarrow> 0 | Some True \<Rightarrow> 1)"

definition cost_reconciliation :: "id \<Rightarrow> id option \<Rightarrow> ('a purchasing_db_scheme) \<Rightarrow> cost_reconciliation_row list" where
  "cost_reconciliation tenant variant d =
     js_sort (\<lambda>x y. reconciled_rank (cq_reconciled x) - reconciled_rank (cq_reconciled y))
       (map (reconcile_cost tenant d)
         (filter (\<lambda>v. va_tenant v = tenant \<and> va_product_tenant v = tenant \<and> (truthy variant \<longrightarrow> variant = Some (pv_id v))) (rt_variants d)))"

section \<open>The controller\<close>

definition get_purchase :: "id \<Rightarrow> actor \<Rightarrow> id \<Rightarrow> ('a purchasing_db_scheme) \<Rightarrow> purchase_row result" where
  "get_purchase tenant user purchase d =
     and_then (purchase_by_id tenant purchase d) (\<lambda>i.
     and_then (assert_branch_access user (pu_branch i) warehouse_roles) (\<lambda>_. Inr i))"

definition handle_receive ::
  "dec_lib \<Rightarrow> quotient \<Rightarrow> ('a purchasing_host_scheme) \<Rightarrow> purchase_call \<Rightarrow> id \<Rightarrow> actor \<Rightarrow> receipt_dto
   \<Rightarrow> ('b purchasing_db_scheme) \<Rightarrow> (purchase_row \<times> ('b purchasing_db_scheme)) result" where
  "handle_receive L q H C tenant user dto d =
     and_then (assert_branch_access user (rd_branch_id dto) warehouse_roles) (\<lambda>_. receive L q H C tenant user dto d)"

definition handle_return ::
  "dec_lib \<Rightarrow> quotient \<Rightarrow> ('a purchasing_host_scheme) \<Rightarrow> purchase_call \<Rightarrow> id \<Rightarrow> actor \<Rightarrow> id \<Rightarrow> supplier_return_dto
   \<Rightarrow> ('b purchasing_db_scheme) \<Rightarrow> (supplier_return \<times> ('b purchasing_db_scheme)) result" where
  "handle_return L q H C tenant user purchase dto d =
     and_then (get_purchase tenant user purchase d) (\<lambda>_. return_to_supplier L q H C tenant user purchase dto d)"

definition handle_reverse ::
  "quotient \<Rightarrow> ('a purchasing_host_scheme) \<Rightarrow> purchase_call \<Rightarrow> id \<Rightarrow> actor \<Rightarrow> id \<Rightarrow> reverse_dto
   \<Rightarrow> ('b purchasing_db_scheme) \<Rightarrow> (purchase_row \<times> ('b purchasing_db_scheme)) result" where
  "handle_reverse q H C tenant user purchase dto d =
     and_then (get_purchase tenant user purchase d) (\<lambda>_. reverse_purchase q H C tenant user purchase dto d)"

definition handle_list :: "id \<Rightarrow> actor \<Rightarrow> id option \<Rightarrow> int \<Rightarrow> ('a purchasing_db_scheme) \<Rightarrow> purchase_row list result" where
  "handle_list tenant user branch n d =
     and_then (resolve_branch_scope user branch warehouse_roles) (\<lambda>scope. Inr (list_purchases tenant scope n d))"

definition handle_list_returns :: "id \<Rightarrow> actor \<Rightarrow> id option \<Rightarrow> int \<Rightarrow> ('a purchasing_db_scheme) \<Rightarrow> supplier_return list result" where
  "handle_list_returns tenant user branch n d =
     and_then (resolve_branch_scope user branch warehouse_roles) (\<lambda>scope. Inr (list_supplier_returns tenant scope n d))"

definition handle_list_costs :: "id \<Rightarrow> actor \<Rightarrow> id option \<Rightarrow> id option \<Rightarrow> int \<Rightarrow> ('a purchasing_db_scheme) \<Rightarrow> cost_movement list result" where
  "handle_list_costs tenant user branch variant n d =
     and_then (resolve_branch_scope user branch warehouse_roles) (\<lambda>scope. Inr (list_cost_movements tenant scope variant n d))"

end
