(* ===== verification/Purchasing_Correct.thy ===== *)
theory Purchasing_Correct
  imports Purchasing
begin

text \<open>
  What holds of purchases whatever handlers run: the stock follows the posted documents, the two
  ledgers stay consistent, credits stay within what was bought, goods that went back to the supplier
  keep their invoice posted, and reversing a receipt restores stock and costs.
\<close>

section \<open>What the steps of a handler leave alone\<close>

definition on_hand :: "('a ledger_db_scheme) \<Rightarrow> id \<Rightarrow> id \<Rightarrow> int" where
  "on_hand d b v = (case stock d (b, v) of None \<Rightarrow> 0 | Some r \<Rightarrow> qty_on_hand r)"

text \<open>The documents without the snapshots the cost ledger writes into their lines.\<close>

definition bare_line :: "purchase_line \<Rightarrow> purchase_line" where
  "bare_line l = l\<lparr>li_snapshot := None\<rparr>"

definition bare :: "purchase_row \<Rightarrow> purchase_row" where
  "bare i = i\<lparr>pu_lines := map bare_line (pu_lines i)\<rparr>"

definition papers :: "('a purchasing_db_scheme) \<Rightarrow> purchase_row list" where
  "papers d = map bare (ps_invoices d)"

lemma bare_line_fields [simp]:
  "li_id (bare_line l) = li_id l" "li_variant (bare_line l) = li_variant l" "li_qty (bare_line l) = li_qty l"
  "li_unit_cost (bare_line l) = li_unit_cost l" "li_subtotal (bare_line l) = li_subtotal l" "li_discount (bare_line l) = li_discount l"
  "li_net_total (bare_line l) = li_net_total l" "li_net_unit (bare_line l) = li_net_unit l"
  "bare_line (bare_line l) = bare_line l"
  by (simp_all add: bare_line_def)

lemma bare_fields [simp]:
  "pu_id (bare i) = pu_id i" "pu_tenant (bare i) = pu_tenant i" "pu_supplier (bare i) = pu_supplier i"
  "pu_branch (bare i) = pu_branch i" "pu_status (bare i) = pu_status i" "pu_key (bare i) = pu_key i"
  "pu_fingerprint (bare i) = pu_fingerprint i" "pu_normalized (bare i) = pu_normalized i"
  "pu_lines (bare i) = map bare_line (pu_lines i)"
  by (simp_all add: bare_def)

definition goods_frame :: "('a purchasing_db_scheme) \<Rightarrow> ('a purchasing_db_scheme) \<Rightarrow> bool" where
  "goods_frame d d' \<longleftrightarrow>
     rt_branches d' = rt_branches d \<and> rt_in_transit d' = rt_in_transit d \<and> ps_suppliers d' = ps_suppliers d
     \<and> ps_returns d' = ps_returns d \<and> papers d' = papers d
     \<and> map (\<lambda>v. (pv_id v, va_tenant v)) (rt_variants d') = map (\<lambda>v. (pv_id v, va_tenant v)) (rt_variants d)"

lemma goods_frame_refl [simp]: "goods_frame d d"
  by (simp add: goods_frame_def)

lemma goods_frame_trans [trans]: "goods_frame d d' \<Longrightarrow> goods_frame d' d'' \<Longrightarrow> goods_frame d d''"
  by (simp add: goods_frame_def)

lemma goods_frame_updates [simp]:
  "goods_frame d (d\<lparr>stock := st\<rparr>)" "goods_frame d (d\<lparr>movements := ms\<rparr>)" "goods_frame d (d\<lparr>rt_costs := cs\<rparr>)"
  "goods_frame d (d\<lparr>rt_audits := as\<rparr>)"
  by (simp_all add: goods_frame_def papers_def)

lemma bare_snapshot: "map bare_line (map (set_snapshot line m) ls) = map bare_line ls"
  by (simp add: set_snapshot_def bare_line_def)

lemma store_snapshotE:
  assumes "store_snapshot m d = Inr d'"
  obtains invs where "d' = d\<lparr>ps_invoices := invs\<rparr>" and "map bare invs = map bare (ps_invoices d)"
    and "0 \<le> cm_quantity_before m"
proof -
  let ?f = "\<lambda>x. if pu_id x = the (cm_purchase m) then x\<lparr>pu_lines := map (set_snapshot (the (cm_purchase_item m)) m) (pu_lines x)\<rparr> else x"
  have e: "d' = d\<lparr>ps_invoices := map ?f (ps_invoices d)\<rparr>" "0 \<le> cm_quantity_before m"
    using assms by (auto simp: store_snapshot_def Let_def result_simps)
  have "bare (?f x) = bare x" for x by (simp add: bare_def bare_snapshot [simplified] comp_def)
  then have "map bare (map ?f (ps_invoices d)) = map bare (ps_invoices d)" unfolding map_map comp_def by simp
  then show thesis by (rule that [OF e(1) _ e(2)])
qed

lemma cost_variants:
  assumes "record_inventory_cost_movement q c d = Inr (m, d')"
  shows "map (\<lambda>v. (pv_id v, va_tenant v)) (rt_variants d') = map (\<lambda>v. (pv_id v, va_tenant v)) (rt_variants d)"
  by (rule record_costE [OF assms]) (auto elim!: post_costE simp: set_variant_cost_def)

lemma record_purchase_costE:
  assumes "record_purchase_cost q c d = Inr d'"
  obtains m d1 where "record_inventory_cost_movement q c d = Inr (m, d1)"
    and "stock d' = stock d" "movements d' = movements d" "goods_frame d d'"
    and "rt_costs d' = rt_costs d1" "rt_variants d' = rt_variants d1"
    and "cc_type c = Cost_Purchase_Receipt \<Longrightarrow> find (\<lambda>m. cm_key m = cc_key c) (rt_costs d) = None \<Longrightarrow> 0 \<le> cm_quantity_before m"
    and "cc_type c \<noteq> Cost_Purchase_Receipt \<Longrightarrow> d' = d1"
proof -
  obtain m d1 where r: "record_inventory_cost_movement q c d = Inr (m, d1)"
    and s: "(if cc_type c = Cost_Purchase_Receipt \<and> find (\<lambda>m. cm_key m = cc_key c) (rt_costs d) = None
             then store_snapshot m d1 else Inr d1) = Inr d'"
    using assms by (auto simp: record_purchase_cost_def result_simps)
  obtain vs cs where d1: "d1 = d\<lparr>rt_costs := cs, rt_variants := vs\<rparr>" using cost_frame [OF r] by blast
  have v: "map (\<lambda>v. (pv_id v, va_tenant v)) (rt_variants d1) = map (\<lambda>v. (pv_id v, va_tenant v)) (rt_variants d)"
    by (rule cost_variants [OF r])
  have f1: "goods_frame d d1" using v by (simp add: goods_frame_def d1 papers_def)
  obtain invs where inv: "d' = d1\<lparr>ps_invoices := invs\<rparr>" "map bare invs = map bare (ps_invoices d1)"
    "cc_type c = Cost_Purchase_Receipt \<Longrightarrow> find (\<lambda>m. cm_key m = cc_key c) (rt_costs d) = None \<Longrightarrow> 0 \<le> cm_quantity_before m"
    "cc_type c \<noteq> Cost_Purchase_Receipt \<Longrightarrow> d' = d1"
  proof (cases "cc_type c = Cost_Purchase_Receipt \<and> find (\<lambda>m. cm_key m = cc_key c) (rt_costs d) = None")
    case True
    then have "store_snapshot m d1 = Inr d'" using s by simp
    then show thesis using that True by (auto elim: store_snapshotE)
  next
    case False
    then have "d' = d1" using s by (simp split: if_splits)
    moreover have "d1 = d1\<lparr>ps_invoices := ps_invoices d1\<rparr>" by simp
    ultimately show thesis using that [of "ps_invoices d1"] False by auto
  qed
  have "goods_frame d d'" using f1 inv(1,2) by (simp add: goods_frame_def papers_def)
  then show thesis by (intro that [OF r]) (use inv d1 in simp_all)
qed

lemma purchase_cost_inv:
  assumes "record_purchase_cost q c d = Inr d'" and "cost_inv d"
  shows "cost_inv d'"
proof (rule record_purchase_costE [OF assms(1)])
  fix m d1 assume r: "record_inventory_cost_movement q c d = Inr (m, d1)"
    and e: "rt_costs d' = rt_costs d1" "rt_variants d' = rt_variants d1"
  have "cost_inv d1" by (rule record_costE [OF r]) (use assms(2) post_cost_keeps(1) in auto)
  then show ?thesis by (subst cost_inv_same [of d' d1]) (simp_all add: e)
qed

lemma upsert_on_hand:
  "upsert_stock t b v n s d = Inr d' \<Longrightarrow> on_hand d' b' v' = on_hand d b' v' + (if b' = b \<and> v' = v then n else 0)"
  by (auto simp: upsert_stock_def on_hand_def Let_def split: option.splits if_splits)

lemma take_outE:
  assumes "take_out t b v n d = Inr d'"
  obtains "take_unreserved t b v n d = (1, d')" and "\<exists>st. d' = d\<lparr>stock := st\<rparr>"
    and "\<And>b' v'. on_hand d' b' v' = on_hand d b' v' + (if b' = b \<and> v' = v then - n else 0)"
proof -
  have t: "take_unreserved t b v n d = (1, d')"
    using assms by (auto simp: take_out_def result_simps split: prod.splits)
  moreover have "\<exists>st. d' = d\<lparr>stock := st\<rparr>" using t by (auto simp: take_unreserved_def split: option.splits if_splits)
  moreover have "on_hand d' b' v' = on_hand d b' v' + (if b' = b \<and> v' = v then - n else 0)" for b' v'
    using t by (auto simp: take_unreserved_def on_hand_def split: option.splits if_splits)
  ultimately show thesis by (rule that)
qed

section \<open>One posting: stock, movement and cost of a variant\<close>

lemma replay_needs_same_stock:
  assumes inv: "ledger_inv d" and ms: "movements d1 = movements d"
    and change: "on_hand d1 (mc_branch c) (mc_variant c) \<noteq> on_hand d (mc_branch c) (mc_variant c)"
    and rec: "record_inventory_movement c d1 = Inr d2"
  shows "\<forall>m \<in> set (movements d1). mv_key m \<noteq> mc_key c"
proof (rule ccontr)
  let ?b = "mc_branch c" and ?v = "mc_variant c"
  assume "\<not> ?thesis"
  then obtain m where m: "find (\<lambda>m. mv_key m = mc_key c) (movements d1) = Some m"
    by (cases "find (\<lambda>m. mv_key m = mc_key c) (movements d1)") (auto simp: find_None_set)
  then obtain r where r: "stock d1 (?b, ?v) = Some r" "same_command m c" "ledger_on_hand (movements d1) ?b ?v = qty_on_hand r"
    using rec by (auto simp: record_inventory_movement_def Let_def result_simps)
  have "m \<in> set (movements_at (movements d) ?b ?v)"
    using find_Some_iff_set [OF m] r(2) ms by (simp add: movements_at_elem same_command_def)
  then have "movements_at (movements d) ?b ?v \<noteq> []" by auto
  then have "reconciled d ?b ?v" using inv unfolding ledger_inv_def balanced_def by blast
  then have "on_hand d ?b ?v = ledger_on_hand (movements d1) ?b ?v" by (auto simp: reconciled_def on_hand_def ms split: option.splits)
  then show False using change r by (simp add: on_hand_def)
qed

text \<open>What posting \<open>n\<close> units of a variant in a branch, under the key \<open>k\<close>, does.\<close>

definition opening_or :: "(string \<Rightarrow> bool) \<Rightarrow> movement list \<Rightarrow> bool" where
  "opening_or K ms \<longleftrightarrow> (\<forall>m \<in> set ms. K (mv_key m) \<or> take 13 (mv_key m) = ''auto-opening:'')"

definition posts :: "id \<Rightarrow> id \<Rightarrow> int \<Rightarrow> string \<Rightarrow> ('a purchasing_db_scheme) \<Rightarrow> ('a purchasing_db_scheme) \<Rightarrow> bool" where
  "posts b v n k d d' \<longleftrightarrow>
     goods_frame d d' \<and> (\<forall>b' v'. on_hand d' b' v' = on_hand d b' v' + (if b' = b \<and> v' = v then n else 0))
     \<and> (\<exists>os. movements d' = movements d @ os \<and> opening_or (\<lambda>x. x = k) os
          \<and> (plain_id b \<and> ledger_inv d \<and> cost_inv d \<longrightarrow>
               ledger_inv d' \<and> cost_inv d' \<and> (n \<noteq> 0 \<longrightarrow> (\<exists>m \<in> set os. mv_variant m = v))))"

definition units_of :: "('x \<Rightarrow> id) \<Rightarrow> ('x \<Rightarrow> int) \<Rightarrow> 'x list \<Rightarrow> id \<Rightarrow> int" where
  "units_of f n xs v = (\<Sum>x\<leftarrow>filter (\<lambda>x. f x = v) xs. n x)"

text \<open>A loop that posts one variant after the other in one branch.\<close>

definition posts_all ::
  "id \<Rightarrow> ('x \<Rightarrow> id) \<Rightarrow> ('x \<Rightarrow> int) \<Rightarrow> ('x \<Rightarrow> string) \<Rightarrow> 'x list \<Rightarrow> ('a purchasing_db_scheme) \<Rightarrow> ('a purchasing_db_scheme) \<Rightarrow> bool" where
  "posts_all b f n k xs d d' \<longleftrightarrow>
     goods_frame d d' \<and> (\<forall>b' v. on_hand d' b' v = on_hand d b' v + (if b' = b then units_of f n xs v else 0))
     \<and> (\<exists>os. movements d' = movements d @ os \<and> opening_or (\<lambda>y. y \<in> k ` set xs) os
          \<and> (plain_id b \<and> ledger_inv d \<and> cost_inv d \<longrightarrow>
               ledger_inv d' \<and> cost_inv d' \<and> (\<forall>x \<in> set xs. n x \<noteq> 0 \<longrightarrow> (\<exists>m \<in> set os. mv_variant m = f x))))"

lemma posting_loop:
  assumes "fold_result g xs d = Inr d'" and "\<And>x s s'. x \<in> set xs \<Longrightarrow> g x s = Inr s' \<Longrightarrow> posts b (f x) (n x) (k x) s s'"
  shows "posts_all b f n k xs d d'"
  using assms
proof (induction xs arbitrary: d)
  case (Cons x xs)
  from Cons.prems(1) obtain d1 where d1: "g x d = Inr d1" "fold_result g xs d1 = Inr d'" by (auto simp: result_simps)
  have "posts b (f x) (n x) (k x) d d1" using Cons.prems(2) d1(1) by simp
  then obtain os where p: "goods_frame d d1" "\<And>b' v'. on_hand d1 b' v' = on_hand d b' v' + (if b' = b \<and> v' = f x then n x else 0)"
    "movements d1 = movements d @ os" "opening_or (\<lambda>y. y = k x) os"
    "plain_id b \<and> ledger_inv d \<and> cost_inv d \<longrightarrow> ledger_inv d1 \<and> cost_inv d1 \<and> (n x \<noteq> 0 \<longrightarrow> (\<exists>m \<in> set os. mv_variant m = f x))"
    by (auto simp: posts_def)
  have "posts_all b f n k xs d1 d'" by (rule Cons.IH [OF d1(2)]) (use Cons.prems(2) in simp)
  then obtain os' where r: "goods_frame d1 d'" "\<And>b' v. on_hand d' b' v = on_hand d1 b' v + (if b' = b then units_of f n xs v else 0)"
    "movements d' = movements d1 @ os'" "opening_or (\<lambda>y. y \<in> k ` set xs) os'"
    "plain_id b \<and> ledger_inv d1 \<and> cost_inv d1 \<longrightarrow> ledger_inv d' \<and> cost_inv d' \<and> (\<forall>x \<in> set xs. n x \<noteq> 0 \<longrightarrow> (\<exists>m \<in> set os'. mv_variant m = f x))"
    by (auto simp: posts_all_def)
  have "goods_frame d d'" using p(1) r(1) by (rule goods_frame_trans)
  moreover have "on_hand d' b' v = on_hand d b' v + (if b' = b then units_of f n (x # xs) v else 0)" for b' v
    using p(2) r(2) by (simp add: units_of_def)
  moreover have "movements d' = movements d @ (os @ os')" using p(3) r(3) by simp
  moreover have "opening_or (\<lambda>y. y \<in> k ` set (x # xs)) (os @ os')" using p(4) r(4) by (auto simp: opening_or_def)
  moreover have "plain_id b \<and> ledger_inv d \<and> cost_inv d \<longrightarrow>
      ledger_inv d' \<and> cost_inv d' \<and> (\<forall>y \<in> set (x # xs). n y \<noteq> 0 \<longrightarrow> (\<exists>m \<in> set (os @ os'). mv_variant m = f y))"
    using p(5) r(5) by auto
  ultimately show ?case unfolding posts_all_def by blast
qed (simp add: posts_all_def units_of_def opening_or_def)

lemma posts_by:
  assumes d1: "d1 = d\<lparr>stock := st\<rparr>"
    and oh: "\<And>b' v'. on_hand d1 b' v' = on_hand d b' v' + (if b' = b \<and> v' = v then n else 0)"
    and keep: "plain_id b \<Longrightarrow> ledger_inv d \<Longrightarrow> ledger_inv d2"
    and m: "record_inventory_movement c d1 = Inr d2" and k: "record_purchase_cost q kc d2 = Inr d'"
    and c: "mc_branch c = b" "mc_variant c = v"
  shows "posts b v n (mc_key c) d d'"
proof -
  obtain ms where d2: "d2 = d1\<lparr>movements := ms\<rparr>" using record_only_movements [OF m] by blast
  obtain f: "stock d' = stock d2" "movements d' = movements d2" "goods_frame d2 d'"
    by (rule record_purchase_costE [OF k]) (rule that; assumption)
  have "goods_frame d d'" using f(3) by (simp add: goods_frame_def d1 d2 papers_def)
  moreover have "on_hand d' b' v' = on_hand d b' v' + (if b' = b \<and> v' = v then n else 0)" for b' v'
    using oh [of b' v'] by (simp add: on_hand_def f d2)
  moreover have "\<exists>os. movements d' = movements d @ os \<and> opening_or (\<lambda>x. x = mc_key c) os
          \<and> (plain_id b \<and> ledger_inv d \<and> cost_inv d \<longrightarrow>
               ledger_inv d' \<and> cost_inv d' \<and> (n \<noteq> 0 \<longrightarrow> (\<exists>m \<in> set os. mv_variant m = v)))"
  proof -
    have kept: "ledger_inv d' \<and> cost_inv d'" if "plain_id b" "ledger_inv d" "cost_inv d"
    proof -
      have "ledger_inv d'" using pending_frame [of d2 "{}" d'] f keep that by (simp add: pending_none)
      moreover have "cost_inv d2" using that(3) by (subst cost_inv_same [of d2 d]) (simp_all add: d1 d2)
      ultimately show ?thesis using purchase_cost_inv [OF k] by simp
    qed
    show ?thesis
    proof (cases "\<forall>m \<in> set (movements d1). mv_key m \<noteq> mc_key c")
      case True
      obtain r os where r: "movements d2 = movements d1 @ os @ [command_movement c r]"
        "os = [] \<or> (\<exists>x y. os = [opening_movement c x y (stock_tenant r)])"
        by (rule record_fresh [OF m True]) (rule that; assumption)
      let ?os = "os @ [command_movement c r]"
      have "opening_or (\<lambda>x. x = mc_key c) ?os" using r(2)
        by (auto simp: opening_or_def opening_movement_def opening_key_def)
      moreover have "command_movement c r \<in> set ?os" "mv_variant (command_movement c r) = v" using c by simp_all
      ultimately show ?thesis using r(1) f(2) kept by (intro exI [of _ ?os]) (auto simp: d1)
    next
      case False
      then obtain m where "find (\<lambda>m. mv_key m = mc_key c) (movements d1) = Some m"
        by (cases "find (\<lambda>m. mv_key m = mc_key c) (movements d1)") (auto simp: find_None_set)
      then have same: "d2 = d1" using record_replay [OF m] by simp
      have "n = 0" if "ledger_inv d"
        using replay_needs_same_stock [OF that _ _ m] False oh [of b v] by (auto simp: d1 c)
      then show ?thesis using kept by (intro exI [of _ "[]"]) (auto simp: f(2) same d1 opening_or_def)
    qed
  qed
  ultimately show ?thesis unfolding posts_def by blast
qed

lemma posts_in:
  assumes u: "upsert_stock t b v n s d = Inr d1" and m: "record_inventory_movement c d1 = Inr d2"
    and k: "record_purchase_cost q kc d2 = Inr d'"
    and c: "mc_branch c = b" "mc_variant c = v" and key: "safe_key (mc_key c)"
  shows "posts b v n (mc_key c) d d'"
proof -
  obtain st where d1: "d1 = d\<lparr>stock := st\<rparr>" using upsert_keeps [OF u] by blast
  show ?thesis by (rule posts_by [OF d1 upsert_on_hand [OF u] _ m k c]) (use upsert_then_record [OF _ u m c _ key] in blast)
qed

lemma posts_out:
  assumes u: "take_out t b v n d = Inr d1" and m: "record_inventory_movement c d1 = Inr d2"
    and k: "record_purchase_cost q kc d2 = Inr d'"
    and c: "mc_branch c = b" "mc_variant c = v" and key: "safe_key (mc_key c)"
  shows "posts b v (- n) (mc_key c) d d'"
proof -
  obtain t: "take_unreserved t b v n d = (1, d1)" "\<exists>st. d1 = d\<lparr>stock := st\<rparr>"
    "\<And>b' v'. on_hand d1 b' v' = on_hand d b' v' + (if b' = b \<and> v' = v then - n else 0)"
    by (rule take_outE [OF u]) (rule that; assumption)
  obtain st where d1: "d1 = d\<lparr>stock := st\<rparr>" using t(2) by blast
  show ?thesis by (rule posts_by [OF d1 t(3) _ m k c]) (use take_then_record [OF _ t(1) m c _ key] in blast)
qed

section \<open>The lines of the three documents\<close>

definition line_of :: "purchase_row \<Rightarrow> id \<Rightarrow> purchase_line" where
  "line_of i v = the (find (\<lambda>x. li_variant x = v) (pu_lines i))"

lemma safe_keys [simp]:
  "safe_key (receipt_key x)" "safe_key (return_key x)" "safe_key (reversal_key x)"
  by (simp_all add: safe_key_def receipt_key_def return_key_def reversal_key_def)

lemma post_receipt_lineE:
  assumes "post_receipt_line q i l d = Inr d'"
  obtains line d1 d2 where "find (\<lambda>x. li_variant x = pl_variant l) (pu_lines i) = Some line"
    and "upsert_stock (pu_tenant i) (pu_branch i) (pl_variant l) (pl_qty l) None d = Inr d1"
    and "record_inventory_movement (receipt_movement i l (li_id line)) d1 = Inr d2"
    and "record_purchase_cost q (receipt_cost i l (li_id line)) d2 = Inr d'"
  using assms that by (auto simp: post_receipt_line_def result_simps)

lemma receipt_line_posts:
  assumes "post_receipt_line q i l d = Inr d'"
  shows "posts (pu_branch i) (pl_variant l) (pl_qty l) (receipt_key (li_id (line_of i (pl_variant l)))) d d'"
proof (rule post_receipt_lineE [OF assms])
  fix line d1 d2 assume f: "find (\<lambda>x. li_variant x = pl_variant l) (pu_lines i) = Some line"
    and u: "upsert_stock (pu_tenant i) (pu_branch i) (pl_variant l) (pl_qty l) None d = Inr d1"
    and m: "record_inventory_movement (receipt_movement i l (li_id line)) d1 = Inr d2"
    and k: "record_purchase_cost q (receipt_cost i l (li_id line)) d2 = Inr d'"
  show ?thesis using posts_in [OF u m k] by (simp add: receipt_movement_def line_of_def f)
qed

lemma return_line_posts:
  assumes "post_return_line q r x d = Inr d'"
  shows "posts (su_branch r) (sx_variant x) (- sx_qty x) (return_key (sx_id x)) d d'"
proof -
  obtain d1 d2 where u: "take_out (su_tenant r) (su_branch r) (sx_variant x) (sx_qty x) d = Inr d1"
    and m: "record_inventory_movement (supplier_return_movement r x) d1 = Inr d2"
    and k: "record_purchase_cost q (supplier_return_cost r x) d2 = Inr d'"
    using assms by (auto simp: post_return_line_def result_simps)
  show ?thesis using posts_out [OF u m k] by (simp add: supplier_return_movement_def)
qed

lemma reverse_lineE:
  assumes "reverse_line q C tenant user i l d = Inr d'"
  obtains receipt stock_receipt d1 d2 where
    "find (\<lambda>m. cm_tenant m = tenant \<and> cm_key m = receipt_cost_key (li_id l)) (rt_costs d) = Some receipt"
    and "find (\<lambda>m. mv_tenant m = tenant \<and> mv_key m = receipt_key (li_id l)) (movements d) = Some stock_receipt"
    and "\<not> has_downstream receipt (receipt_cost_key (li_id l)) tenant (li_variant l) (receipt_key (li_id l)) d"
    and "take_out tenant (pu_branch i) (li_variant l) (li_qty l) d = Inr d1"
    and "record_inventory_movement (reversal_movement C user i l) d1 = Inr d2"
    and "record_purchase_cost q (reversal_cost C user i l receipt) d2 = Inr d'"
  using assms unfolding reverse_line_def Let_def and_then_Inr_iff throw_if_Inr_iff or_throw_Inr_iff
  by (elim exE conjE) (rule that; assumption)

lemma reverse_line_posts:
  assumes "reverse_line q C tenant user i l d = Inr d'"
  shows "posts (pu_branch i) (li_variant l) (- li_qty l) (reversal_key (li_id l)) d d'"
proof (rule reverse_lineE [OF assms])
  fix receipt d1 d2
  assume u: "take_out tenant (pu_branch i) (li_variant l) (li_qty l) d = Inr d1"
    and m: "record_inventory_movement (reversal_movement C user i l) d1 = Inr d2"
    and k: "record_purchase_cost q (reversal_cost C user i l receipt) d2 = Inr d'"
  show ?thesis using posts_out [OF u m k] by (simp add: reversal_movement_def)
qed

section \<open>The handlers\<close>

lemma insert_purchase_effect:
  assumes "insert_purchase i d = Inr d'"
  shows "d' = d\<lparr>ps_invoices := ps_invoices d @ [i]\<rparr>" and "list_all line_columns_ok (pu_lines i)"
    and "pu_id i \<notin> pu_id ` set (ps_invoices d)" and "distinct (map li_id (pu_lines i))"
    and "li_id ` set (pu_lines i) \<inter> li_id ` set (all_lines d) = {}"
proof -
  from assms have g: "list_all line_columns_ok (pu_lines i)" "distinct (map li_id (pu_lines i))"
      "\<not> list_ex (\<lambda>l. li_id l \<in> li_id ` set (pu_lines i)) (all_lines d)"
      "\<not> list_ex (\<lambda>x. pu_id x = pu_id i \<or> pu_key x = pu_key i
         \<or> (pu_normalized i \<noteq> None \<and> pu_supplier x = pu_supplier i \<and> pu_normalized x = pu_normalized i)) (ps_invoices d)"
    and d': "d' = d\<lparr>ps_invoices := ps_invoices d @ [i]\<rparr>"
    by (simp_all add: insert_purchase_def and_then_Inr_iff throw_if_Inr_iff)
  show "d' = d\<lparr>ps_invoices := ps_invoices d @ [i]\<rparr>" "list_all line_columns_ok (pu_lines i)" "distinct (map li_id (pu_lines i))"
    by (fact d' g)+
  show "li_id ` set (pu_lines i) \<inter> li_id ` set (all_lines d) = {}" 
  proof (rule equals0I)
    fix k assume k: "k \<in> li_id ` set (pu_lines i) \<inter> li_id ` set (all_lines d)"
    then obtain l where "l \<in> set (all_lines d)" "k = li_id l" by auto
    with g(3) k show False by (simp add: list_ex_iff)
  qed
  show "pu_id i \<notin> pu_id ` set (ps_invoices d)" using g(4) by (auto simp: list_ex_iff)
qed

lemma post_purchaseE:
  assumes "post_purchase q H C tenant user dto p t d = Inr (row, d')"
  obtains d1 d2 where "list_ex (\<lambda>b. br_id b = rd_branch_id dto \<and> br_tenant b = tenant \<and> br_active b) (rt_branches d)"
    and "insert_purchase (purchase_of H C tenant user dto p t) d = Inr d1"
    and "fold_result (post_receipt_line q (purchase_of H C tenant user dto p t)) (pr_lines p) d1 = Inr d2"
    and "d' = purchase_audit tenant user ''purchase.receipt.posted'' ''PurchaseInvoice'' (pc_uuid C 0) d2"
    and "find (\<lambda>x. pu_id x = pc_uuid C 0 \<and> pu_tenant x = tenant) (ps_invoices d') = Some row"
    and "length (filter (\<lambda>v. pv_id v \<in> set (map pl_variant (pr_lines p)) \<and> va_tenant v = tenant) (rt_variants d)) = length (map pl_variant (pr_lines p))"
proof -
  have i: "pu_id (purchase_of H C tenant user dto p t) = pc_uuid C 0" by (simp add: purchase_of_def)
  from assms show thesis
    unfolding post_purchase_def Let_def and_then_Inr_iff throw_if_Inr_iff or_throw_Inr_iff purchase_by_id_def i
      sum.inject prod.inject not_not
    by (elim exE conjE) (rule that; (assumption | (rule sym, assumption) | simp))
qed

lemma receiveE:
  assumes "receive L q H C tenant user dto d = Inr (row, d')"
  obtains (replay) p where "prepare_purchase_receipt L (purchase_host.truncate H) dto = Inr p" and "d' = d"
      and "find_replay tenant p (rd_supplier_id dto) d = Inr (Some row)"
  | (posted) p t where "prepare_purchase_receipt L (purchase_host.truncate H) dto = Inr p"
      and "find_replay tenant p (rd_supplier_id dto) d = Inr None"
      and "post_purchase q H C tenant user dto p t d = Inr (row, d')"
proof -
  obtain p t replay where p: "prepare_purchase_receipt L (purchase_host.truncate H) dto = Inr p"
    and r: "find_replay tenant p (rd_supplier_id dto) d = Inr replay"
    and c: "(case replay of
           Some existing \<Rightarrow> Inr (existing, d)
         | None \<Rightarrow>
             (case post_purchase q H C tenant user dto p t d of
                Inr answer \<Rightarrow> Inr answer
              | Inl e \<Rightarrow>
                  if e = unique_conflict
                  then and_then (find_replay tenant p (rd_supplier_id dto) d) (\<lambda>again.
                       case again of
                         Some existing \<Rightarrow> Inr (existing, d)
                       | None \<Rightarrow> Inl (Conflict ''Supplier invoice number or purchase command was already used''))
                  else Inl e)) = Inr (row, d')"
    using assms unfolding receive_def and_then_Inr_iff
    by (cases "prepare_purchase_receipt L (purchase_host.truncate H) dto") (auto simp: result_simps)
  show thesis
  proof (cases replay)
    case None
    with c r have "post_purchase q H C tenant user dto p t d = Inr (row, d')"
      by (auto split: sum.splits if_splits)
    then show thesis using posted p r None by blast
  next
    case (Some i)
    then show thesis using replay [OF p] c r by simp
  qed
qed

lemma post_supplier_returnE:
  assumes "post_supplier_return L q C tenant user purchase key fingerprint reason t items d = Inr (r, d')"
  obtains i prepared d1 d2 where "find (\<lambda>x. pu_id x = purchase \<and> pu_tenant x = tenant) (ps_invoices d) = Some i"
    and "pu_status i = ''posted''" and "\<forall>x \<in> set items. fst x \<in> li_id ` set (pu_lines i)"
    and "map_result (prepare_return_line L tenant i d) items = Inr prepared"
    and "r = supplier_return_of L C i tenant user key fingerprint reason t prepared"
    and "insert_supplier_return r d = Inr d1"
    and "fold_result (post_return_line q r) (su_lines r) d1 = Inr d2"
    and "d' = purchase_audit tenant user ''purchase.supplier_return.posted'' ''SupplierReturn'' (su_id r) d2"
  using assms
  unfolding post_supplier_return_def Let_def and_then_Inr_iff throw_if_Inr_iff or_throw_Inr_iff purchase_by_id_def
    sum.inject prod.inject not_not list_ex_iff
  apply (elim exE conjE)
  subgoal premises p for i u1 u2 u3 u4 prepared u5 d1 d2
    by (rule that [of i prepared d1 d2]) (use p in \<open>simp_all\<close>)
  done

lemma return_to_supplierE:
  assumes "return_to_supplier L q H C tenant user purchase dto d = Inr (r, d')"
  obtains (replay) "d' = d" and "r \<in> set (ps_returns d)"
  | (posted) t items where "canonical_items H dto = Inr items"
      and "post_supplier_return L q C tenant user purchase (''supplier-return:'' @ sq_command_id dto)
             (return_fingerprint H purchase (trim (sq_reason dto)) dto t items) (trim (sq_reason dto)) t items d = Inr (r, d')"
proof -
  let ?key = "''supplier-return:'' @ sq_command_id dto"
  obtain t items where items: "canonical_items H dto = Inr items"
    and c: "(case find_return tenant ?key d of
        Some r \<Rightarrow> replay_return (return_fingerprint H purchase (trim (sq_reason dto)) dto t items) r d
      | None \<Rightarrow>
          (case post_supplier_return L q C tenant user purchase ?key
                  (return_fingerprint H purchase (trim (sq_reason dto)) dto t items) (trim (sq_reason dto)) t items d of
             Inr answer \<Rightarrow> Inr answer
           | Inl e \<Rightarrow>
               (if e = unique_conflict
                then (case find_return tenant ?key d of
                        Some r \<Rightarrow> replay_return (return_fingerprint H purchase (trim (sq_reason dto)) dto t items) r d
                      | None \<Rightarrow> Inl e)
                else Inl e))) = Inr (r, d')"
    using assms unfolding return_to_supplier_def Let_def and_then_Inr_iff throw_if_Inr_iff by blast
  show thesis
  proof (cases "find_return tenant ?key d")
    case None
    then show thesis using posted [OF items] c by (auto split: sum.splits if_splits)
  next
    case (Some x)
    then have "r = x" "d' = d" using c by (auto simp: replay_return_def result_simps)
    then show thesis using replay find_Some_iff_set [OF Some [unfolded find_return_def]] by simp
  qed
qed

lemma reverse_purchaseE:
  assumes "reverse_purchase q H C tenant user purchase dto d = Inr (row, d')"
  obtains (replay) "d' = d" and "find (\<lambda>x. pu_id x = purchase \<and> pu_tenant x = tenant) (ps_invoices d) = Some row"
      and "pu_status row = ''reversed''"
  | (posted) i key fingerprint d1 where
      "find (\<lambda>x. pu_id x = purchase \<and> pu_tenant x = tenant) (ps_invoices d) = Some i" and "pu_status i = ''posted''"
      and "fold_result (reverse_line q C tenant user i) (pu_lines i) d = Inr d1"
      and "d' = purchase_audit tenant user ''purchase.receipt.reversed'' ''PurchaseInvoice'' (pu_id i)
             (d1\<lparr>ps_invoices := map (\<lambda>x. if pu_id x = pu_id i then mark_reversed C user key fingerprint (trim (rq_reason dto)) x else x)
                                (ps_invoices d1)\<rparr>)"
      and "find (\<lambda>x. pu_id x = pu_id i \<and> pu_tenant x = tenant) (ps_invoices d') = Some row"
proof -
  obtain i where i: "find (\<lambda>x. pu_id x = purchase \<and> pu_tenant x = tenant) (ps_invoices d) = Some i"
    using assms by (auto simp: reverse_purchase_def Let_def result_simps purchase_by_id_def)
  show thesis
  proof (cases "pu_status i = ''reversed''")
    case True
    note c = assms [unfolded reverse_purchase_def Let_def purchase_by_id_def i or_throw_simps and_then_simps if_P [OF True]
        and_then_Inr_iff throw_if_Inr_iff sum.inject prod.inject]
    from c have "row = i" "d' = d" by simp_all
    then show thesis using replay i True by simp
  next
    case False
    obtain key where key: "''purchase-reversal:'' @ (if truthy (rq_command_id dto) then the (rq_command_id dto) else purchase) = key"
      by simp
    note c = assms [unfolded reverse_purchase_def Let_def key purchase_by_id_def i or_throw_simps and_then_simps if_not_P [OF False]
        store_reversal_def and_then_Inr_iff throw_if_Inr_iff or_throw_Inr_iff sum.inject prod.inject not_not]
    from c show thesis
      apply (elim exE conjE)
      subgoal premises p
        by (rule posted [OF i, where key = key and fingerprint = "reversal_fingerprint H purchase (trim (rq_reason dto))"]) (use p in \<open>auto\<close>)
      done
  qed
qed

section \<open>The stock follows the documents\<close>

text \<open>The units a branch holds by its posted receipts, less what went back to the suppliers.\<close>

definition received_units :: "purchase_row list \<Rightarrow> id \<Rightarrow> id \<Rightarrow> int" where
  "received_units ps b v =
     (\<Sum>i\<leftarrow>filter (\<lambda>i. pu_status i = ''posted'' \<and> pu_branch i = b) ps. units_of li_variant li_qty (pu_lines i) v)"

definition returned_units :: "supplier_return list \<Rightarrow> id \<Rightarrow> id \<Rightarrow> int" where
  "returned_units rs b v = (\<Sum>r\<leftarrow>filter (\<lambda>r. su_branch r = b) rs. units_of sx_variant sx_qty (su_lines r) v)"

definition documented :: "('a purchasing_db_scheme) \<Rightarrow> id \<Rightarrow> id \<Rightarrow> int" where
  "documented d b v = received_units (ps_invoices d) b v - returned_units (ps_returns d) b v"

lemma units_of_map: "(\<And>x. f (h x) = f' x) \<Longrightarrow> (\<And>x. n (h x) = n' x) \<Longrightarrow> units_of f n (map h xs) v = units_of f' n' xs v"
  by (induction xs) (simp_all add: units_of_def)

lemma units_of_bare [simp]: "units_of li_variant li_qty (map bare_line ls) = units_of li_variant li_qty ls"
  by (rule ext) (rule units_of_map; simp)

lemma received_bare: "received_units (map bare ps) = received_units ps"
  by (intro ext, induction ps) (simp_all add: received_units_def)

lemma received_papers: "papers d = ps \<Longrightarrow> received_units (ps_invoices d) = received_units ps"
  using received_bare [of "ps_invoices d"] by (simp add: papers_def)

lemma invoice_lines_units:
  "units_of li_variant li_qty (pu_lines (purchase_of H C tenant user dto p t)) = units_of pl_variant pl_qty (pr_lines p)"
proof (rule ext)
  fix v
  have "units_of li_variant li_qty (map (\<lambda>(k, l). invoice_line (pc_uuid C (1 + k)) l) (enumerate m ls)) v
      = units_of pl_variant pl_qty ls v" for m ls
    by (induction ls arbitrary: m) (simp_all add: units_of_def invoice_line_def)
  then show "units_of li_variant li_qty (pu_lines (purchase_of H C tenant user dto p t)) v = units_of pl_variant pl_qty (pr_lines p) v"
    by (simp add: purchase_of_def)
qed

lemma received_append: "received_units (ps @ [i]) b v
    = received_units ps b v + (if pu_status i = ''posted'' \<and> pu_branch i = b then units_of li_variant li_qty (pu_lines i) v else 0)"
  by (simp add: received_units_def)

lemma received_reversed:
  assumes "distinct (map pu_id ps)" and "i \<in> set ps" and "pu_status i = ''posted''"
    and f: "\<And>x. pu_status (f x) = ''reversed''"
  shows "received_units (map (\<lambda>x. if pu_id x = pu_id i then f x else x) ps) b v
       = received_units ps b v - (if pu_branch i = b then units_of li_variant li_qty (pu_lines i) v else 0)"
  using assms(1,2)
proof (induction ps)
  case (Cons x ps)
  show ?case
  proof (cases "x = i")
    case True
    then have "pu_id i \<notin> pu_id ` set ps" using Cons.prems by auto
    then have "map (\<lambda>x. if pu_id x = pu_id i then f x else x) ps = ps" by (intro map_idI) (metis image_eqI)
    then show ?thesis using True assms(3) f by (simp add: received_units_def)
  next
    case False
    then have i: "i \<in> set ps" using Cons.prems by simp
    then have "pu_id x \<noteq> pu_id i" using Cons.prems by auto
    then show ?thesis using Cons.IH Cons.prems i by (simp add: received_units_def)
  qed
qed simp

section \<open>The invariant\<close>

definition papers_ok :: "purchase_row list \<Rightarrow> bool" where
  "papers_ok ps \<longleftrightarrow>
     distinct (map pu_id ps) \<and> distinct (map li_id (concat (map pu_lines ps)))
     \<and> (\<forall>i \<in> set ps. plain_id (pu_branch i) \<and> list_all line_columns_ok (pu_lines i))"

text \<open>A supplier return belongs to a posted receipt, and each of its lines to one of the receipt's.\<close>

definition belongs :: "purchase_row list \<Rightarrow> supplier_return \<Rightarrow> bool" where
  "belongs ps r \<longleftrightarrow>
     (\<exists>i \<in> set ps. pu_id i = su_purchase r \<and> pu_branch i = su_branch r \<and> pu_status i = ''posted''
        \<and> (\<forall>x \<in> set (su_lines r). 0 < sx_qty x \<and> (\<exists>l \<in> set (pu_lines i). li_id l = sx_line x \<and> li_variant l = sx_variant x)))"

text \<open>Each line of a supplier return is recorded in the ledger after the receipt of its purchase line.\<close>

definition booked_after :: "movement list \<Rightarrow> string \<Rightarrow> id \<Rightarrow> bool" where
  "booked_after ms k v \<longleftrightarrow> (\<forall>m \<in> set ms. mv_key m \<noteq> k) \<or> list_ex (\<lambda>m. mv_variant m = v) (recorded_after mv_key k ms)"

definition returns_booked :: "('a purchasing_db_scheme) \<Rightarrow> bool" where
  "returns_booked d \<longleftrightarrow>
     (\<forall>r \<in> set (ps_returns d). belongs (papers d) r
        \<and> su_lines r \<noteq> [] \<and> (\<forall>x \<in> set (su_lines r). booked_after (movements d) (receipt_key (sx_line x)) (sx_variant x)))"

definition purchasing_inv :: "('a purchasing_db_scheme) \<Rightarrow> bool" where
  "purchasing_inv d \<longleftrightarrow>
     ledger_inv d \<and> cost_inv d \<and> (\<forall>b \<in> set (rt_branches d). plain_id (br_id b)) \<and> papers_ok (papers d) \<and> returns_booked d"

lemma line_columns_bare [simp]: "line_columns_ok (bare_line l) = line_columns_ok l"
  by (simp add: line_columns_ok_def)

lemma papers_elem: "x \<in> set (papers d) \<longleftrightarrow> (\<exists>i \<in> set (ps_invoices d). x = bare i)"
  by (auto simp: papers_def)

lemma papers_lines: "map li_id (concat (map pu_lines (papers d))) = map li_id (all_lines d)"
  by (simp add: papers_def all_lines_def map_concat comp_def)

lemma papers_okD:
  assumes "papers_ok (papers d)"
  shows "distinct (map pu_id (ps_invoices d))" and "distinct (map li_id (all_lines d))"
    and "i \<in> set (ps_invoices d) \<Longrightarrow> plain_id (pu_branch i)"
    and "i \<in> set (ps_invoices d) \<Longrightarrow> list_all line_columns_ok (pu_lines i)"
proof -
  show "distinct (map li_id (all_lines d))" using assms unfolding papers_ok_def papers_lines by blast
  show "distinct (map pu_id (ps_invoices d))" using assms by (simp add: papers_ok_def papers_def comp_def)
  assume "i \<in> set (ps_invoices d)"
  then have "bare i \<in> set (papers d)" by (auto simp: papers_elem)
  then have "plain_id (pu_branch (bare i)) \<and> list_all line_columns_ok (pu_lines (bare i))" using assms by (simp only: papers_ok_def)
  then show "plain_id (pu_branch i)" "list_all line_columns_ok (pu_lines i)" by (simp_all add: list_all_iff)
qed

lemma recorded_after_append:
  "\<exists>m \<in> set ms. key m = k \<Longrightarrow> recorded_after key k (ms @ ns) = recorded_after key k ms @ ns"
proof (induction ms)
  case (Cons m ms)
  then show ?case by (cases "key m = k") (auto simp: recorded_after_def)
qed simp

lemma booked_after_append:
  assumes "booked_after ms k v" and "\<forall>m \<in> set ns. mv_key m \<noteq> k"
  shows "booked_after (ms @ ns) k v"
proof (cases "\<exists>m \<in> set ms. mv_key m = k")
  case True
  then show ?thesis using assms by (auto simp: booked_after_def recorded_after_append list_ex_iff)
qed (use assms in \<open>auto simp: booked_after_def\<close>)

lemma booked_after_new:
  assumes "\<forall>m \<in> set ns. mv_key m \<noteq> k" and "\<exists>m \<in> set ns. mv_variant m = v"
  shows "booked_after (ms @ ns) k v"
proof (cases "\<exists>m \<in> set ms. mv_key m = k")
  case True
  then show ?thesis using assms by (auto simp: booked_after_def recorded_after_append list_ex_iff)
qed (use assms in \<open>auto simp: booked_after_def\<close>)

text \<open>The keys of the different movements differ.\<close>

lemma key_shapes:
  "receipt_key x \<noteq> return_key y" "receipt_key x \<noteq> reversal_key y" "receipt_key x = receipt_key y \<longleftrightarrow> x = y"
  "take 13 (receipt_key x) \<noteq> ''auto-opening:''"
  by (simp_all add: receipt_key_def return_key_def reversal_key_def)

lemma opening_or_other:
  assumes "opening_or K ms" and "\<not> K (receipt_key x)"
  shows "\<forall>m \<in> set ms. mv_key m \<noteq> receipt_key x"
  using assms key_shapes(4) [of x] unfolding opening_or_def by metis

lemma returns_booked_more:
  assumes "returns_booked d" and "ps_returns d' = ps_returns d" and "\<And>r. r \<in> set (ps_returns d) \<Longrightarrow> belongs (papers d) r \<Longrightarrow> belongs (papers d') r"
    and "movements d' = movements d @ os"
    and "\<And>r x. belongs (papers d) r \<Longrightarrow> x \<in> set (su_lines r) \<Longrightarrow> \<forall>m \<in> set os. mv_key m \<noteq> receipt_key (sx_line x)"
  shows "returns_booked d'"
  unfolding returns_booked_def assms(2,4)
proof (intro ballI conjI)
  fix r assume r: "r \<in> set (ps_returns d)"
  have o: "belongs (papers d) r" "su_lines r \<noteq> []"
    "\<And>x. x \<in> set (su_lines r) \<Longrightarrow> booked_after (movements d) (receipt_key (sx_line x)) (sx_variant x)"
    using assms(1) r by (simp_all add: returns_booked_def)
  show "belongs (papers d') r" "su_lines r \<noteq> []" by (rule assms(3) [OF r o(1)], rule o(2))
  fix x assume x: "x \<in> set (su_lines r)"
  show "booked_after (movements d @ os) (receipt_key (sx_line x)) (sx_variant x)"
    by (rule booked_after_append [OF o(3) [OF x] assms(5) [OF o(1) x]])
qed

lemma belongs_line:
  assumes "belongs (papers d) r" and "x \<in> set (su_lines r)"
  shows "sx_line x \<in> li_id ` set (all_lines d)"
proof -
  from assms obtain i l where "i \<in> set (papers d)" "l \<in> set (pu_lines i)" "li_id l = sx_line x" by (auto simp: belongs_def)
  then have "sx_line x \<in> set (map li_id (concat (map pu_lines (papers d))))" by force
  then show ?thesis unfolding papers_lines by simp
qed

section \<open>Receiving\<close>

lemma posted_lines:
  assumes "insert_purchase i d = Inr d1" and "x \<in> set (pu_lines i)"
  shows "li_id x \<notin> li_id ` set (all_lines d)"
  using insert_purchase_effect(5) [OF assms(1)] assms(2) by blast

lemma receive_effect:
  assumes inv: "purchasing_inv d" and run: "post_purchase q H C tenant user dto p t d = Inr (row, d')"
  shows "purchasing_inv d'" and "papers d' = papers d @ [bare (purchase_of H C tenant user dto p t)]"
    and "ps_returns d' = ps_returns d"
    and "on_hand d' b v = on_hand d b v + (if b = rd_branch_id dto then units_of pl_variant pl_qty (pr_lines p) v else 0)"
    and "rt_branches d' = rt_branches d"
proof -
  let ?i = "purchase_of H C tenant user dto p t"
  obtain d1 d2 where br: "list_ex (\<lambda>b. br_id b = rd_branch_id dto \<and> br_tenant b = tenant \<and> br_active b) (rt_branches d)"
    and ins: "insert_purchase ?i d = Inr d1" and loop: "fold_result (post_receipt_line q ?i) (pr_lines p) d1 = Inr d2"
    and d': "d' = purchase_audit tenant user ''purchase.receipt.posted'' ''PurchaseInvoice'' (pc_uuid C 0) d2"
    by (rule post_purchaseE [OF run]) (rule that; assumption)
  note e = insert_purchase_effect [OF ins]
  have b: "pu_branch ?i = rd_branch_id dto" by (simp add: purchase_of_def)
  have plain: "plain_id (rd_branch_id dto)" using inv br by (auto simp: purchasing_inv_def list_ex_iff)
  let ?key = "\<lambda>l. receipt_key (li_id (line_of ?i (pl_variant l)))"
  have "posts_all (pu_branch ?i) pl_variant pl_qty ?key (pr_lines p) d1 d2"
    by (rule posting_loop [OF loop]) (rule receipt_line_posts)
  then obtain os where f: "goods_frame d1 d2"
    "\<And>b v. on_hand d2 b v = on_hand d1 b v + (if b = rd_branch_id dto then units_of pl_variant pl_qty (pr_lines p) v else 0)"
    "movements d2 = movements d1 @ os" "opening_or (\<lambda>y. y \<in> ?key ` set (pr_lines p)) os"
    "ledger_inv d1 \<and> cost_inv d1 \<longrightarrow> ledger_inv d2 \<and> cost_inv d2"
    using plain unfolding posts_all_def b by blast
  have l1: "ledger_inv d1" using inv pending_frame [of d "{}" d1] by (simp add: purchasing_inv_def pending_none e(1))
  have c1: "cost_inv d1" using inv by (subst cost_inv_same [of d1 d]) (simp_all add: purchasing_inv_def e(1))
  have "ledger_inv d'" using f(5) l1 c1 pending_frame [of d2 "{}" d'] by (simp add: pending_none d' purchase_audit_def)
  moreover have "cost_inv d'" using f(5) l1 c1 by (subst cost_inv_same [of d' d2]) (simp_all add: d' purchase_audit_def)
  moreover show papers: "papers d' = papers d @ [bare ?i]" and rets: "ps_returns d' = ps_returns d" and brs: "rt_branches d' = rt_branches d"
    using f(1) by (simp_all add: goods_frame_def d' purchase_audit_def papers_def e(1))
  moreover have "papers_ok (papers d @ [bare ?i])"
  proof -
    have old: "papers_ok (papers d)" using inv by (simp add: purchasing_inv_def)
    have "pu_id ?i \<notin> pu_id ` set (papers d)" using e(3) by (auto simp: papers_elem)
    moreover have "distinct (map li_id (concat (map pu_lines (papers d @ [bare ?i]))))"
    proof -
      have "map li_id (concat (map pu_lines (papers d @ [bare ?i]))) = map li_id (all_lines d) @ map li_id (pu_lines ?i)"
        unfolding map_append concat_append papers_lines by (simp add: comp_def)
      then show ?thesis using papers_okD(2) [OF old] e(4,5) by (simp add: Int_commute comp_def)
    qed
    moreover have "plain_id (pu_branch (bare ?i)) \<and> list_all line_columns_ok (pu_lines (bare ?i))"
      using e(2) plain b by (simp add: list_all_iff)
    ultimately show ?thesis using old by (simp add: papers_ok_def)
  qed
  moreover have "returns_booked d'"
  proof (rule returns_booked_more [of d])
    show "returns_booked d" using inv by (simp add: purchasing_inv_def)
    show "movements d' = movements d @ os" by (simp add: d' purchase_audit_def f(3) e(1))
    show "belongs (papers d') r" if "belongs (papers d) r" for r using that by (auto simp: belongs_def papers)
    fix r x assume r: "belongs (papers d) r" "x \<in> set (su_lines r)"
    have old: "sx_line x \<in> li_id ` set (all_lines d)" by (rule belongs_line [OF r])
    have "receipt_key (sx_line x) \<notin> ?key ` set (pr_lines p)"
    proof
      assume "receipt_key (sx_line x) \<in> ?key ` set (pr_lines p)"
      then obtain l where l: "l \<in> set (pr_lines p)" "sx_line x = li_id (line_of ?i (pl_variant l))"
        by (auto simp: key_shapes)
      have "\<exists>y \<in> set (pu_lines ?i). li_variant y = pl_variant l"
      proof -
        have "map li_variant (map (\<lambda>(k, l). invoice_line (pc_uuid C (1 + k)) l) (enumerate m ls)) = map pl_variant ls" for m ls
          by (induction ls arbitrary: m) (simp_all add: invoice_line_def)
        then have "map li_variant (pu_lines ?i) = map pl_variant (pr_lines p)" by (simp add: purchase_of_def)
        moreover have "pl_variant l \<in> set (map pl_variant (pr_lines p))" using l(1) by simp
        ultimately have "pl_variant l \<in> set (map li_variant (pu_lines ?i))" by simp
        then show ?thesis by auto
      qed
      then obtain y where y: "find (\<lambda>y. li_variant y = pl_variant l) (pu_lines ?i) = Some y"
        by (cases "find (\<lambda>y. li_variant y = pl_variant l) (pu_lines ?i)") (auto simp: find_None_set)
      then have "y \<in> set (pu_lines ?i)" "line_of ?i (pl_variant l) = y" using find_Some_iff_set [OF y] by (simp_all add: line_of_def)
      then show False using posted_lines [OF ins] old l(2) by simp
    qed
    then show "\<forall>m \<in> set os. mv_key m \<noteq> receipt_key (sx_line x)" by (rule opening_or_other [OF f(4)])
  qed (rule rets)
  ultimately show "purchasing_inv d'" using inv by (simp add: purchasing_inv_def)
  show "on_hand d' b v = on_hand d b v + (if b = rd_branch_id dto then units_of pl_variant pl_qty (pr_lines p) v else 0)"
    using f(2) [of b v] by (simp add: on_hand_def d' purchase_audit_def e(1))
qed

section \<open>Returning to the supplier\<close>

lemma canonical_items_distinct:
  assumes "canonical_items H dto = Inr items"
  shows "distinct (map fst items)" and "sq_items dto \<noteq> [] \<Longrightarrow> items \<noteq> []"
proof -
  obtain r where r: "fold_result add_returned (sq_items dto) [] = Inr r"
    and i: "items = js_sort (\<lambda>l r. locale_compare H (fst l) (fst r)) r"
    using assms by (auto simp: canonical_items_def result_simps)
  have "distinct (map fst r)"
    by (rule fold_result_invariant [OF r]) (auto simp: add_returned_def Let_def result_simps distinct_update)
  moreover have m: "mset items = mset r" by (simp add: i)
  ultimately show "distinct (map fst items)" by (metis mset_map mset_eq_imp_distinct_iff)
  assume "sq_items dto \<noteq> []"
  then obtain x xs where x: "sq_items dto = x # xs" by (cases "sq_items dto") auto
  then obtain r0 where r0: "add_returned x [] = Inr r0" "fold_result add_returned xs r0 = Inr r" using r by (auto simp: result_simps)
  have ne: "s' \<noteq> []" if "add_returned y s = Inr s'" for y s s'
    using that by (cases y) (auto simp: add_returned_def Let_def result_simps update_nonempty)
  have "r \<noteq> []"
    by (rule fold_result_invariant [OF r0(2), where P = "\<lambda>s. s \<noteq> []"]) (use ne r0(1) in blast)+
  then show "items \<noteq> []" using m by auto
qed

definition return_line_of :: "dec_lib \<Rightarrow> purchase_row \<Rightarrow> ('a purchasing_db_scheme) \<Rightarrow> id \<times> int \<Rightarrow> supplier_return_line \<Rightarrow> bool" where
  "return_line_of L i d request x \<longleftrightarrow>
     (\<exists>l \<in> set (pu_lines i). li_id l = fst request \<and> sx_line x = li_id l \<and> sx_variant x = li_variant l \<and> sx_qty x = snd request
        \<and> (\<exists>c. calculate_supplier_return_credit L (li_qty l) (line_credit L l) (fst (line_taken (li_id l) d)) (snd (line_taken (li_id l) d))
                 (sx_qty x) (unit_credit l) = Inr c \<and> sx_credit x = rc_credit_total c))"

lemma prepare_return_line_of:
  assumes "prepare_return_line L tenant i d request = Inr x" and "fst request \<in> li_id ` set (pu_lines i)"
  shows "return_line_of L i d request x"
proof -
  obtain l where f: "find (\<lambda>l. li_id l = fst request) (pu_lines i) = Some l"
    using assms(2) by (cases "find (\<lambda>l. li_id l = fst request) (pu_lines i)") (auto simp: find_None_set)
  have l: "l \<in> set (pu_lines i)" "li_id l = fst request" using find_Some_iff_set [OF f] by auto
  obtain c where c: "calculate_supplier_return_credit L (li_qty l) (line_credit L l) (fst (line_taken (li_id l) d))
      (snd (line_taken (li_id l) d)) (snd request) (unit_credit l) = Inr c"
    and x: "sx_line x = li_id l" "sx_variant x = li_variant l" "sx_qty x = snd request" "sx_credit x = rc_credit_total c"
    using assms(1) by (auto simp: prepare_return_line_def f Let_def result_simps split: sum.splits)
  show ?thesis unfolding return_line_of_def using l c x by (intro bexI [of _ l] conjI exI [of _ c]) simp_all
qed

lemma prepared_lines_of:
  assumes "map_result (prepare_return_line L tenant i d) items = Inr xs" and "\<forall>x \<in> set items. fst x \<in> li_id ` set (pu_lines i)"
  shows "list_all2 (return_line_of L i d) items xs"
  using assms unfolding map_result_Inr_iff
  by (auto simp: list_all2_conv_all_nth intro!: prepare_return_line_of)

lemma numbered_lines:
  assumes "\<And>x j. f (x\<lparr>sx_id := j\<rparr>) = f x"
  shows "map f (map (\<lambda>(k, x). x\<lparr>sx_id := g k\<rparr>) (enumerate m xs)) = map f xs"
  by (induction xs arbitrary: m) (simp_all add: assms)

lemma supplier_return_lines:
  assumes "\<And>x j. f (x\<lparr>sx_id := j\<rparr>) = f x"
  shows "map f (su_lines (supplier_return_of L C i tenant user key fingerprint reason t xs)) = map f xs"
  using numbered_lines [of f, OF assms] by (simp add: supplier_return_of_def Let_def)

lemma insert_supplier_return_effect:
  assumes "insert_supplier_return r d = Inr d'"
  shows "d' = d\<lparr>ps_returns := ps_returns d @ [r]\<rparr>" and "\<forall>x \<in> set (su_lines r). 0 < sx_qty x"
  using assms by (auto simp: insert_supplier_return_def result_simps list_all_iff return_line_columns_ok_def)

lemma return_effect:
  assumes inv: "purchasing_inv d" and ne: "items \<noteq> []"
    and run: "post_supplier_return L q C tenant user purchase key fingerprint reason t items d = Inr (r, d')"
  shows "purchasing_inv d'" and "papers d' = papers d" and "ps_returns d' = ps_returns d @ [r]"
    and "on_hand d' b v = on_hand d b v - (if b = su_branch r then units_of sx_variant sx_qty (su_lines r) v else 0)"
    and "\<exists>i \<in> set (ps_invoices d). pu_status i = ''posted'' \<and> pu_id i = su_purchase r \<and> pu_branch i = su_branch r
           \<and> list_all2 (\<lambda>request x. \<exists>y. return_line_of L i d request y \<and> sx_line x = sx_line y \<and> sx_qty x = sx_qty y \<and> sx_credit x = sx_credit y)
               items (su_lines r)"
    and "rt_branches d' = rt_branches d"
proof -
  obtain i prepared d1 d2 where f: "find (\<lambda>x. pu_id x = purchase \<and> pu_tenant x = tenant) (ps_invoices d) = Some i"
    and st: "pu_status i = ''posted''" and ids: "\<forall>x \<in> set items. fst x \<in> li_id ` set (pu_lines i)"
    and prep: "map_result (prepare_return_line L tenant i d) items = Inr prepared"
    and r: "r = supplier_return_of L C i tenant user key fingerprint reason t prepared"
    and ins: "insert_supplier_return r d = Inr d1"
    and loop: "fold_result (post_return_line q r) (su_lines r) d1 = Inr d2"
    and d': "d' = purchase_audit tenant user ''purchase.supplier_return.posted'' ''SupplierReturn'' (su_id r) d2"
    by (rule post_supplier_returnE [OF run]) (rule that; assumption)
  have i: "i \<in> set (ps_invoices d)" using find_Some_iff_set [OF f] by auto
  note e = insert_supplier_return_effect [OF ins]
  note lo = prepared_lines_of [OF prep ids]
  have rb: "su_branch r = pu_branch i" "su_purchase r = pu_id i" by (simp_all add: r supplier_return_of_def Let_def)
  have ok: "papers_ok (papers d)" using inv by (simp add: purchasing_inv_def)
  have plain: "plain_id (su_branch r)" using papers_okD(3) [OF ok i] by (simp add: rb)
  have "posts_all (su_branch r) sx_variant (\<lambda>x. - sx_qty x) (\<lambda>x. return_key (sx_id x)) (su_lines r) d1 d2"
    by (rule posting_loop [OF loop]) (rule return_line_posts)
  then obtain os where g: "goods_frame d1 d2"
    "\<And>b v. on_hand d2 b v = on_hand d1 b v + (if b = su_branch r then units_of sx_variant (\<lambda>x. - sx_qty x) (su_lines r) v else 0)"
    "movements d2 = movements d1 @ os" "opening_or (\<lambda>y. y \<in> (\<lambda>x. return_key (sx_id x)) ` set (su_lines r)) os"
    "ledger_inv d1 \<and> cost_inv d1 \<longrightarrow> ledger_inv d2 \<and> cost_inv d2 \<and> (\<forall>x \<in> set (su_lines r). - sx_qty x \<noteq> 0 \<longrightarrow> (\<exists>m \<in> set os. mv_variant m = sx_variant x))"
    using plain unfolding posts_all_def by blast
  have l1: "ledger_inv d1" using inv pending_frame [of d "{}" d1] by (simp add: purchasing_inv_def pending_none e(1))
  have c1: "cost_inv d1" using inv by (subst cost_inv_same [of d1 d]) (simp_all add: purchasing_inv_def e(1))
  have "ledger_inv d'" using g(5) l1 c1 pending_frame [of d2 "{}" d'] by (simp add: pending_none d' purchase_audit_def)
  moreover have "cost_inv d'" using g(5) l1 c1 by (subst cost_inv_same [of d' d2]) (simp_all add: d' purchase_audit_def)
  moreover show papers: "papers d' = papers d" and rets: "ps_returns d' = ps_returns d @ [r]" and brs: "rt_branches d' = rt_branches d"
    using g(1) by (simp_all add: goods_frame_def d' purchase_audit_def papers_def e(1))
  have lines: "map (\<lambda>x. (sx_line x, sx_variant x, sx_qty x, sx_credit x)) (su_lines r) = map (\<lambda>x. (sx_line x, sx_variant x, sx_qty x, sx_credit x)) prepared"
    unfolding r by (rule supplier_return_lines) simp
  have len: "length (su_lines r) = length prepared" using arg_cong [OF lines, of length] by simp
  have at: "sx_line (su_lines r ! k) = sx_line (prepared ! k) \<and> sx_variant (su_lines r ! k) = sx_variant (prepared ! k)
      \<and> sx_qty (su_lines r ! k) = sx_qty (prepared ! k) \<and> sx_credit (su_lines r ! k) = sx_credit (prepared ! k)" if "k < length prepared" for k
    using arg_cong [OF lines, of "\<lambda>ys. ys ! k"] that len by simp
  have l2: "list_all2 (\<lambda>request x. \<exists>y. return_line_of L i d request y \<and> sx_line x = sx_line y \<and> sx_variant x = sx_variant y
        \<and> sx_qty x = sx_qty y \<and> sx_credit x = sx_credit y) items (su_lines r)"
    using lo at len by (auto simp: list_all2_conv_all_nth intro!: exI)
  show "\<exists>i \<in> set (ps_invoices d). pu_status i = ''posted'' \<and> pu_id i = su_purchase r \<and> pu_branch i = su_branch r
           \<and> list_all2 (\<lambda>request x. \<exists>y. return_line_of L i d request y \<and> sx_line x = sx_line y \<and> sx_qty x = sx_qty y \<and> sx_credit x = sx_credit y)
               items (su_lines r)"
    using i st l2 rb by (intro bexI [of _ i] conjI) (auto elim!: list_all2_mono)
  have nonempty: "su_lines r \<noteq> []" using l2 ne by (auto dest: list_all2_lengthD)
  have inside: "\<exists>l \<in> set (pu_lines i). li_id l = sx_line x \<and> li_variant l = sx_variant x" if "x \<in> set (su_lines r)" for x
    using l2 that by (fastforce simp: list_all2_conv_all_nth in_set_conv_nth return_line_of_def)
  have "belongs (papers d) r"
    unfolding belongs_def
  proof (intro bexI [of _ "bare i"] conjI ballI)
    show "bare i \<in> set (papers d)" using i by (auto simp: papers_elem)
    fix x assume x: "x \<in> set (su_lines r)"
    show "0 < sx_qty x" using e(2) x by blast
    show "\<exists>l \<in> set (pu_lines (bare i)). li_id l = sx_line x \<and> li_variant l = sx_variant x" using inside [OF x] by auto
  qed (simp_all add: rb st)
  moreover have key: "\<forall>m \<in> set os. mv_key m \<noteq> receipt_key k" for k
    by (rule opening_or_other [OF g(4)]) (use key_shapes(1) in auto)
  moreover have ms: "movements d' = movements d @ os" by (simp add: d' purchase_audit_def g(3) e(1))
  moreover have "booked_after (movements d') (receipt_key (sx_line x)) (sx_variant x)" if "x \<in> set (su_lines r)" for x
    unfolding ms using g(5) l1 c1 e(2) that key by (intro booked_after_new) auto
  moreover have "returns_booked d" using inv by (simp add: purchasing_inv_def)
  ultimately have "returns_booked d'"
    using nonempty by (auto simp: returns_booked_def rets papers intro: booked_after_append)
  with \<open>ledger_inv d'\<close> \<open>cost_inv d'\<close> show "purchasing_inv d'" using inv by (simp add: purchasing_inv_def papers brs)
  have neg: "units_of sx_variant (\<lambda>x. - sx_qty x) xs v = - units_of sx_variant sx_qty xs v" for xs :: "supplier_return_line list"
    by (induction xs) (simp_all add: units_of_def)
  show "on_hand d' b v = on_hand d b v - (if b = su_branch r then units_of sx_variant sx_qty (su_lines r) v else 0)"
    using g(2) [of b v] neg by (simp add: on_hand_def d' purchase_audit_def e(1))
qed

section \<open>Reversing\<close>

lemma fold_result_at:
  assumes "fold_result g xs d = Inr d'" and "x \<in> set xs"
  obtains ys zs s s' where "xs = ys @ x # zs" and "fold_result g ys d = Inr s" and "g x s = Inr s'" and "fold_result g zs s' = Inr d'"
proof -
  obtain ys zs where xs: "xs = ys @ x # zs" using split_list [OF assms(2)] by blast
  show thesis using assms(1) by (auto simp: xs fold_result_append result_simps intro: that [OF xs])
qed

lemma reverse_loop:
  assumes "fold_result (reverse_line q C tenant user i) ls d = Inr d'"
  shows "posts_all (pu_branch i) li_variant (\<lambda>l. - li_qty l) (\<lambda>l. reversal_key (li_id l)) ls d d'"
  by (rule posting_loop [OF assms]) (rule reverse_line_posts)

lemma reversed_line_not_booked:
  assumes loop: "fold_result (reverse_line q C tenant user i) (pu_lines i) d = Inr d1" and l: "l \<in> set (pu_lines i)"
  shows "\<not> booked_after (movements d) (receipt_key (li_id l)) (li_variant l)"
proof -
  obtain ys zs s s' where s: "fold_result (reverse_line q C tenant user i) ys d = Inr s"
    "reverse_line q C tenant user i l s = Inr s'"
    by (rule fold_result_at [OF loop l]) (rule that; assumption)
  obtain os where os: "movements s = movements d @ os" "opening_or (\<lambda>y. y \<in> (\<lambda>l. reversal_key (li_id l)) ` set ys) os"
    using reverse_loop [OF s(1)] by (auto simp: posts_all_def)
  have new: "\<forall>m \<in> set os. mv_key m \<noteq> receipt_key (li_id l)"
    by (rule opening_or_other [OF os(2)]) (use key_shapes(2) in auto)
  obtain receipt m where m: "find (\<lambda>m. mv_tenant m = tenant \<and> mv_key m = receipt_key (li_id l)) (movements s) = Some m"
    and n: "\<not> has_downstream receipt (receipt_cost_key (li_id l)) tenant (li_variant l) (receipt_key (li_id l)) s"
    by (rule reverse_lineE [OF s(2)]) (rule that; assumption)
  have "m \<in> set (movements s)" "mv_key m = receipt_key (li_id l)" using find_Some_iff_set [OF m] by auto
  then have here: "\<exists>m \<in> set (movements d). mv_key m = receipt_key (li_id l)" using new os(1) by auto
  have "\<not> list_ex (\<lambda>m. mv_variant m = li_variant l) (recorded_after mv_key (receipt_key (li_id l)) (movements s))"
    using n by (simp add: has_downstream_def)
  then have "\<not> list_ex (\<lambda>m. mv_variant m = li_variant l) (recorded_after mv_key (receipt_key (li_id l)) (movements d))"
    by (simp add: os(1) recorded_after_append [OF here])
  then show ?thesis using here by (auto simp: booked_after_def)
qed

lemma reverse_effect:
  assumes inv: "purchasing_inv d" and f: "find (\<lambda>x. pu_id x = purchase \<and> pu_tenant x = tenant) (ps_invoices d) = Some i"
    and st: "pu_status i = ''posted''" and loop: "fold_result (reverse_line q C tenant user i) (pu_lines i) d = Inr d1"
    and d': "d' = purchase_audit tenant user ''purchase.receipt.reversed'' ''PurchaseInvoice'' (pu_id i)
             (d1\<lparr>ps_invoices := map (\<lambda>x. if pu_id x = pu_id i then mark_reversed C user key fingerprint reason x else x) (ps_invoices d1)\<rparr>)"
  shows "purchasing_inv d'"
    and "papers d' = map (\<lambda>x. if pu_id x = pu_id i then mark_reversed C user key fingerprint reason x else x) (papers d)"
    and "ps_returns d' = ps_returns d"
    and "on_hand d' b v = on_hand d b v - (if b = pu_branch i then units_of li_variant li_qty (pu_lines i) v else 0)"
    and "\<forall>r \<in> set (ps_returns d). su_purchase r \<noteq> pu_id i" and "rt_branches d' = rt_branches d"
proof -
  let ?mark = "\<lambda>x. if pu_id x = pu_id i then mark_reversed C user key fingerprint reason x else x"
  have i: "i \<in> set (ps_invoices d)" using find_Some_iff_set [OF f] by auto
  have ok: "papers_ok (papers d)" using inv by (simp add: purchasing_inv_def)
  have plain: "plain_id (pu_branch i)" by (rule papers_okD(3) [OF ok i])
  obtain os where g: "goods_frame d d1"
    "\<And>b v. on_hand d1 b v = on_hand d b v + (if b = pu_branch i then units_of li_variant (\<lambda>l. - li_qty l) (pu_lines i) v else 0)"
    "movements d1 = movements d @ os" "opening_or (\<lambda>y. y \<in> (\<lambda>l. reversal_key (li_id l)) ` set (pu_lines i)) os"
    "ledger_inv d \<and> cost_inv d \<longrightarrow> ledger_inv d1 \<and> cost_inv d1"
    using plain reverse_loop [OF loop] unfolding posts_all_def by blast
  have l1: "ledger_inv d1" "cost_inv d1" using inv g(5) by (simp_all add: purchasing_inv_def)
  have "ledger_inv d'" using l1 pending_frame [of d1 "{}" d'] by (simp add: pending_none d' purchase_audit_def)
  moreover have "cost_inv d'" using l1 by (subst cost_inv_same [of d' d1]) (simp_all add: d' purchase_audit_def)
  moreover show papers: "papers d' = map ?mark (papers d)"
  proof -
    have "bare (?mark x) = ?mark (bare x)" for x by (simp add: mark_reversed_def bare_def)
    then have "papers d' = map ?mark (papers d1)" by (simp add: d' purchase_audit_def papers_def comp_def del: bare_fields)
    then show ?thesis using g(1) by (simp add: goods_frame_def)
  qed
  moreover show rets: "ps_returns d' = ps_returns d" and brs: "rt_branches d' = rt_branches d"
    using g(1) by (simp_all add: goods_frame_def d' purchase_audit_def)
  have mark [simp]: "pu_id (?mark x) = pu_id x" "pu_lines (?mark x) = pu_lines x" "pu_branch (?mark x) = pu_branch x" for x
    by (simp_all add: mark_reversed_def)
  have "papers_ok (map ?mark (papers d))"
    using ok unfolding papers_ok_def map_map comp_def mark by (auto simp: mark_reversed_def)
  moreover have keep: "\<forall>r \<in> set (ps_returns d). su_purchase r \<noteq> pu_id i"
  proof
    fix r assume r: "r \<in> set (ps_returns d)"
    have o: "belongs (papers d) r" "su_lines r \<noteq> []"
      "\<And>x. x \<in> set (su_lines r) \<Longrightarrow> booked_after (movements d) (receipt_key (sx_line x)) (sx_variant x)"
      using inv r by (simp_all add: purchasing_inv_def returns_booked_def)
    obtain j where j: "j \<in> set (ps_invoices d)" "pu_id j = su_purchase r"
      "\<And>x. x \<in> set (su_lines r) \<Longrightarrow> \<exists>l \<in> set (pu_lines (bare j)). li_id l = sx_line x \<and> li_variant l = sx_variant x"
      using o(1) by (fastforce simp: belongs_def papers_elem)
    obtain x where x: "x \<in> set (su_lines r)" using o(2) by (cases "su_lines r") auto
    obtain l where l: "l \<in> set (pu_lines j)" "li_id l = sx_line x" "li_variant l = sx_variant x" using j(3) [OF x] by auto
    show "su_purchase r \<noteq> pu_id i"
    proof
      assume "su_purchase r = pu_id i"
      then have "j = i" using papers_okD(1) [OF ok] i j(1,2) by (auto simp: distinct_map inj_on_def)
      with l(1) have "\<not> booked_after (movements d) (receipt_key (li_id l)) (li_variant l)"
        by (intro reversed_line_not_booked [OF loop]) simp
      with l(2,3) o(3) [OF x] show False by simp
    qed
  qed
  moreover have "returns_booked d'"
  proof (rule returns_booked_more [of d])
    show "returns_booked d" using inv by (simp add: purchasing_inv_def)
    show "movements d' = movements d @ os" by (simp add: d' purchase_audit_def g(3))
    show "\<forall>m \<in> set os. mv_key m \<noteq> receipt_key (sx_line x)" for x :: supplier_return_line
      by (rule opening_or_other [OF g(4)]) (use key_shapes(2) in auto)
    fix r assume r: "r \<in> set (ps_returns d)" "belongs (papers d) r"
    then obtain j where j: "j \<in> set (papers d)" "pu_id j = su_purchase r" "pu_branch j = su_branch r" "pu_status j = ''posted''"
      "\<forall>x \<in> set (su_lines r). 0 < sx_qty x \<and> (\<exists>l \<in> set (pu_lines j). li_id l = sx_line x \<and> li_variant l = sx_variant x)"
      by (auto simp: belongs_def)
    have "?mark j = j" using keep r(1) j(2) by simp
    moreover have "?mark j \<in> set (papers d')" unfolding papers set_map by (rule imageI [OF j(1)])
    ultimately have "j \<in> set (papers d')" by (simp only:)
    then show "belongs (papers d') r" unfolding belongs_def using j(2-5) by blast
  qed (rule rets)
  ultimately show "purchasing_inv d'" using inv by (simp add: purchasing_inv_def brs)
  have neg: "units_of li_variant (\<lambda>l. - li_qty l) xs v = - units_of li_variant li_qty xs v" for xs :: "purchase_line list"
    by (induction xs) (simp_all add: units_of_def)
  show "on_hand d' b v = on_hand d b v - (if b = pu_branch i then units_of li_variant li_qty (pu_lines i) v else 0)"
    using g(2) [of b v] neg by (simp add: on_hand_def d' purchase_audit_def)
  show "\<forall>r \<in> set (ps_returns d). su_purchase r \<noteq> pu_id i" by (rule keep)
qed

section \<open>Credits\<close>

definition credits_ok :: "dec_lib \<Rightarrow> ('a purchasing_db_scheme) \<Rightarrow> bool" where
  "credits_ok L d \<longleftrightarrow>
     (\<forall>i \<in> set (papers d). \<forall>l \<in> set (pu_lines i). li_net_total l \<noteq> None \<longrightarrow> taken_ok (li_qty l) (line_credit L l) (line_taken (li_id l) d))"

lemma line_taken_same: "ps_returns d' = ps_returns d \<Longrightarrow> line_taken k d' = line_taken k d"
  by (simp add: line_taken_def returns_of_line_def)

lemma line_taken_append:
  assumes "ps_returns d' = ps_returns d @ [r]"
  shows "line_taken k d' = (fst (line_taken k d) + (\<Sum>x\<leftarrow>filter (\<lambda>x. sx_line x = k) (su_lines r). sx_qty x),
                            snd (line_taken k d) + (\<Sum>x\<leftarrow>filter (\<lambda>x. sx_line x = k) (su_lines r). sx_credit x))"
  by (simp add: line_taken_def returns_of_line_def assms)

lemma line_credit_bare [simp]: "line_credit L (bare_line l) = line_credit L l" "unit_credit (bare_line l) = unit_credit l"
  by (simp_all add: line_credit_def unit_credit_def split: option.split)

lemma filter_distinct:
  "distinct (map f xs) \<Longrightarrow> x \<in> set xs \<Longrightarrow> filter (\<lambda>y. f y = f x) xs = [x]"
proof (induction xs)
  case (Cons y ys)
  show ?case
  proof (cases "y = x")
    case True
    then have "f z \<noteq> f x" if "z \<in> set ys" for z using Cons.prems(1) that by (metis distinct.simps(2) image_eqI list.simps(9) set_map)
    then have "filter (\<lambda>y. f y = f x) ys = []" by (simp add: filter_empty_conv)
    then show ?thesis using True by simp
  next
    case False
    then have x: "x \<in> set ys" using Cons.prems by simp
    then have "f y \<noteq> f x" using Cons.prems(1) by (metis distinct.simps(2) image_eqI list.simps(9) set_map)
    then show ?thesis using Cons.IH Cons.prems(1) x by simp
  qed
qed simp

context decimal_js
begin

lemma line_credit_ok:
  assumes "line_columns_ok l" and "li_net_total l \<noteq> None"
  shows "has_places 2 (line_credit L l)" and "0 \<le> line_credit L l" and "line_credit L l < 10 ^ 18" and "0 \<le> unit_credit l"
    and "0 < li_qty l"
proof -
  obtain s a n u where n: "li_net_total l = Some n" "li_subtotal l = Some s" "li_discount l = Some a" "li_net_unit l = Some u"
      "0 \<le> a" "0 \<le> n" "0 \<le> u" "n = s - a" "fits_numeric 18 2 s"
    using assms by (auto simp: line_columns_ok_def split: option.splits)
  have c: "line_credit L l = round_places 2 n" by (simp add: line_credit_def n(1) places)
  show "has_places 2 (line_credit L l)" "0 \<le> line_credit L l" using n(6) by (simp_all add: c round_places_nonneg)
  have "n < 10 ^ 16" using n by (simp add: fits_numeric_def)
  moreover have "\<bar>round_places 2 n - n\<bar> \<le> 1 / 200" using round_places_nearest [of 2 n] by simp
  then have "round_places 2 n \<le> n + 1 / 200" by linarith
  ultimately show "line_credit L l < 10 ^ 18" unfolding c by simp
  show "0 \<le> unit_credit l" using n by (simp add: unit_credit_def)
  show "0 < li_qty l" using assms(1) by (simp add: line_columns_ok_def)
qed

lemma fresh_line_credit:
  assumes "line_columns_ok l" and "li_net_total l \<noteq> None"
  shows "taken_ok (li_qty l) (line_credit L l) (0, 0)"
  using line_credit_ok [OF assms] by (simp add: taken_ok_def)

lemma return_keeps_credits:
  assumes inv: "purchasing_inv d" and c: "credits_ok L d" and dist: "distinct (map fst items)" and ne: "items \<noteq> []"
    and run: "post_supplier_return L q C tenant user purchase key fingerprint reason t items d = Inr (r, d')"
  shows "credits_ok L d'"
proof -
  note e = return_effect [OF inv ne run]
  have ok: "papers_ok (papers d)" using inv by (simp add: purchasing_inv_def)
  obtain i where i: "i \<in> set (ps_invoices d)" and l2: "list_all2 (\<lambda>request x. \<exists>y. return_line_of L i d request y
      \<and> sx_line x = sx_line y \<and> sx_qty x = sx_qty y \<and> sx_credit x = sx_credit y) items (su_lines r)"
    using e(5) by blast
  have "map sx_line (su_lines r) = map fst items"
    using l2 by (auto simp: list_all2_conv_all_nth list_eq_iff_nth_eq return_line_of_def)
  then have lines: "distinct (map sx_line (su_lines r))" using dist by simp
  have line: "\<exists>l \<in> set (pu_lines i). sx_line x = li_id l
      \<and> (\<exists>c. calculate_supplier_return_credit L (li_qty l) (line_credit L l) (fst (line_taken (li_id l) d)) (snd (line_taken (li_id l) d))
               (sx_qty x) (unit_credit l) = Inr c \<and> sx_credit x = rc_credit_total c)" if x: "x \<in> set (su_lines r)" for x
  proof -
    obtain k where k: "k < length (su_lines r)" "su_lines r ! k = x" using x by (auto simp: in_set_conv_nth)
    then obtain y where "return_line_of L i d (items ! k) y" "sx_line x = sx_line y" "sx_qty x = sx_qty y" "sx_credit x = sx_credit y"
      using l2 by (auto simp: list_all2_conv_all_nth)
    then show ?thesis unfolding return_line_of_def by metis
  qed
  show ?thesis
    unfolding credits_ok_def e(2)
  proof (intro ballI impI)
    fix j l assume j: "j \<in> set (papers d)" and l: "l \<in> set (pu_lines j)" and v2: "li_net_total l \<noteq> None"
    have cols: "line_columns_ok l" using ok j l by (simp add: papers_ok_def list_all_iff)
    have old: "taken_ok (li_qty l) (line_credit L l) (line_taken (li_id l) d)" using c j l v2 by (simp add: credits_ok_def)
    show "taken_ok (li_qty l) (line_credit L l) (line_taken (li_id l) d')"
    proof (cases "\<exists>x \<in> set (su_lines r). sx_line x = li_id l")
      case False
      then have "filter (\<lambda>x. sx_line x = li_id l) (su_lines r) = []" by (auto simp: filter_empty_conv)
      then have "line_taken (li_id l) d' = line_taken (li_id l) d" using line_taken_append [OF e(3), of "li_id l"] by simp
      then show ?thesis using old by simp
    next
      case True
      then obtain x where x: "x \<in> set (su_lines r)" "sx_line x = li_id l" by blast
      obtain k cr where k: "k \<in> set (pu_lines i)" "sx_line x = li_id k"
        and cr: "calculate_supplier_return_credit L (li_qty k) (line_credit L k) (fst (line_taken (li_id k) d)) (snd (line_taken (li_id k) d))
               (sx_qty x) (unit_credit k) = Inr cr" "sx_credit x = rc_credit_total cr" using line [OF x(1)] by blast
      have "bare_line k \<in> set (concat (map pu_lines (papers d)))" "l \<in> set (concat (map pu_lines (papers d)))"
        using i k(1) j l by (force simp: papers_elem)+
      then have "bare_line k = l"
        using ok x(2) k(2) unfolding papers_ok_def distinct_map inj_on_def by (metis bare_line_fields(1))
      then have same: "li_qty k = li_qty l" "line_credit L k = line_credit L l" "unit_credit k = unit_credit l" "li_id k = li_id l" by auto
      note lc = line_credit_ok [OF cols v2]
      have f: "filter (\<lambda>y. sx_line y = li_id l) (su_lines r) = [x]"
        using filter_distinct [OF lines x(1)] x(2) by simp
      have "line_taken (li_id l) d' = (fst (line_taken (li_id l) d) + sx_qty x, snd (line_taken (li_id l) d) + rc_credit_total cr)"
        using line_taken_append [OF e(3), of "li_id l"] cr(2) by (simp add: f)
      then show ?thesis using credit_step_ok(1) [OF lc(1,3,4) _ cr(1) [unfolded same]] old by simp
    qed
  qed
qed

end

end
