(* ===== verification/Purchasing_Runs.thy ===== *)
theory Purchasing_Runs
  imports Purchasing_Correct
begin

text \<open>
  Sequences of purchasing commands: every run keeps the ledgers consistent and the stock in step with
  the documents, credits stay within the lines, and reversing a receipt undoes it. Two receipts the
  code cannot post: one for a variant that sales have taken below zero, and the one that corrects a
  reversed receipt.
\<close>

section \<open>Steps\<close>

inductive purchasing_step :: "dec_lib \<Rightarrow> quotient \<Rightarrow> purchasing_host \<Rightarrow> purchasing_db \<Rightarrow> purchasing_db \<Rightarrow> bool" for L q H where
  step_receive: "handle_receive L q H C tenant user dto d = Inr (i, d') \<Longrightarrow> purchasing_step L q H d d'"
| step_return: "sq_items request \<noteq> [] \<Longrightarrow> handle_return L q H C tenant user purchase request d = Inr (r, d') \<Longrightarrow> purchasing_step L q H d d'"
| step_reverse: "handle_reverse q H C tenant user purchase reversal d = Inr (i, d') \<Longrightarrow> purchasing_step L q H d d'"

abbreviation purchasing_run :: "dec_lib \<Rightarrow> quotient \<Rightarrow> purchasing_host \<Rightarrow> purchasing_db \<Rightarrow> purchasing_db \<Rightarrow> bool" where
  "purchasing_run L q H \<equiv> (purchasing_step L q H)\<^sup>*\<^sup>*"

text \<open>The controller only adds the check of the branch.\<close>

lemma handlers:
  "handle_receive L q H C tenant user dto d = Inr x \<Longrightarrow> receive L q H C tenant user dto d = Inr x"
  "handle_return L q H C tenant user purchase request d = Inr y \<Longrightarrow> return_to_supplier L q H C tenant user purchase request d = Inr y"
  "handle_reverse q H C tenant user purchase reversal d = Inr z \<Longrightarrow> reverse_purchase q H C tenant user purchase reversal d = Inr z"
  by (auto simp: handle_receive_def handle_return_def handle_reverse_def result_simps)

text \<open>What a step does: nothing, one receipt, one supplier return or one reversal.\<close>

lemma purchasing_step_cases:
  assumes "purchasing_step L q H d d'"
  obtains (same) "d' = d"
  | (received) C tenant user dto p t row where "post_purchase q H C tenant user dto p t d = Inr (row, d')"
  | (returned) C tenant user purchase key fingerprint reason t items r where "distinct (map fst items)" and "items \<noteq> []"
      and "post_supplier_return L q C tenant user purchase key fingerprint reason t items d = Inr (r, d')"
  | (reversed) C tenant user purchase i key fingerprint reason d1 where
      "find (\<lambda>x. pu_id x = purchase \<and> pu_tenant x = tenant) (ps_invoices d) = Some i" and "pu_status i = ''posted''"
      and "fold_result (reverse_line q C tenant user i) (pu_lines i) d = Inr d1"
      and "d' = purchase_audit tenant user ''purchase.receipt.reversed'' ''PurchaseInvoice'' (pu_id i)
             (d1\<lparr>ps_invoices := map (\<lambda>x. if pu_id x = pu_id i then mark_reversed C user key fingerprint reason x else x) (ps_invoices d1)\<rparr>)"
  using assms
proof cases
  case (step_receive C tenant user dto i)
  show thesis by (rule receiveE [OF handlers(1) [OF step_receive]]) (use same received in blast)+
next
  case (step_return request C tenant user purchase r)
  show thesis
  proof (rule return_to_supplierE [OF handlers(2) [OF step_return(2)]])
    fix t items
    assume "canonical_items H request = Inr items"
      and p: "post_supplier_return L q C tenant user purchase (''supplier-return:'' @ sq_command_id request)
             (return_fingerprint H purchase (trim (sq_reason request)) request t items) (trim (sq_reason request)) t items d = Inr (r, d')"
    then have "distinct (map fst items)" "items \<noteq> []" using canonical_items_distinct step_return(1) by blast+
    then show thesis using p by (rule returned)
  qed (rule same)
next
  case (step_reverse C tenant user purchase reversal i)
  show thesis by (rule reverse_purchaseE [OF handlers(3) [OF step_reverse]]) (use same reversed in blast)+
qed

definition undocumented :: "('a purchasing_db_scheme) \<Rightarrow> id \<Rightarrow> id \<Rightarrow> int" where
  "undocumented d b v = on_hand d b v - documented d b v"

lemma returned_append: "returned_units (rs @ [r]) b v
    = returned_units rs b v + (if su_branch r = b then units_of sx_variant sx_qty (su_lines r) v else 0)"
  by (simp add: returned_units_def)

lemma documented_papers: "documented d b v = received_units (papers d) b v - returned_units (ps_returns d) b v"
  by (simp add: documented_def received_papers [OF refl])

lemma purchasing_step_keeps:
  assumes inv: "purchasing_inv d" and step: "purchasing_step L q H d d'"
  shows "purchasing_inv d' \<and> undocumented d' b v = undocumented d b v \<and> rt_branches d' = rt_branches d"
  using step
proof (cases rule: purchasing_step_cases)
  case (received C tenant user dto p t row)
  note e = receive_effect [OF inv received]
  let ?i = "bare (purchase_of H C tenant user dto p t)"
  have "units_of li_variant li_qty (pu_lines ?i) = units_of pl_variant pl_qty (pr_lines p)" by (simp add: invoice_lines_units)
  moreover have "pu_status ?i = ''posted''" "pu_branch ?i = rd_branch_id dto" by (simp_all add: purchase_of_def)
  ultimately have "undocumented d' b v = undocumented d b v"
    unfolding undocumented_def documented_papers e(2,3) received_append using e(4) [of b v] by (simp del: bare_fields)
  then show ?thesis using e(1,5) by simp
next
  case (returned C tenant user purchase key fingerprint reason t items r)
  note e = return_effect [OF inv returned(2,3)]
  have "undocumented d' b v = undocumented d b v"
    unfolding undocumented_def documented_papers e(2,3) returned_append using e(4) [of b v] by simp
  then show ?thesis using e(1,6) by simp
next
  case (reversed C tenant user purchase i key fingerprint reason d1)
  note e = reverse_effect [OF inv reversed]
  have i: "bare i \<in> set (papers d)" using find_Some_iff_set [OF reversed(1)] by (auto simp: papers_elem)
  have "distinct (map pu_id (papers d))" using inv by (simp add: purchasing_inv_def papers_ok_def)
  from received_reversed [OF this i, of "mark_reversed C user key fingerprint reason" b v] reversed(2)
  have "undocumented d' b v = undocumented d b v"
    unfolding undocumented_def documented_papers e(2,3) using e(4) [of b v] by (simp add: mark_reversed_def)
  then show ?thesis using e(1,6) by simp
qed (use inv in simp)

lemma run_keeps:
  assumes "purchasing_run L q H d d'" and "purchasing_inv d"
  shows "purchasing_inv d' \<and> undocumented d' b v = undocumented d b v \<and> rt_branches d' = rt_branches d"
  using assms(1)
proof (induction rule: rtranclp_induct)
  case (step d1 d2)
  have "purchasing_inv d1" using step.IH by simp
  from purchasing_step_keeps [OF this step.hyps(2), of b v] step.IH show ?case by simp
qed (use assms(2) in simp)

context decimal_js
begin

lemma step_credits:
  assumes inv: "purchasing_inv d" and c: "credits_ok L d" and step: "purchasing_step L q H d d'"
  shows "credits_ok L d'"
  using step
proof (cases rule: purchasing_step_cases)
  case (received C tenant user dto p t row)
  let ?i = "purchase_of H C tenant user dto p t"
  note e = receive_effect [OF inv received]
  obtain d1 where ins: "insert_purchase ?i d = Inr d1" by (rule post_purchaseE [OF received]) (rule that; assumption)
  show ?thesis
    unfolding credits_ok_def e(2) line_taken_same [OF e(3)]
  proof (intro ballI impI)
    fix j l assume j: "j \<in> set (papers d @ [bare ?i])" and l: "l \<in> set (pu_lines j)" and v2: "li_net_total l \<noteq> None"
    show "taken_ok (li_qty l) (line_credit L l) (line_taken (li_id l) d)"
    proof (cases "j \<in> set (papers d)")
      case False
      then obtain k where k: "k \<in> set (pu_lines ?i)" "l = bare_line k" using j l by auto
      have new: "li_id l \<notin> li_id ` set (all_lines d)" using posted_lines [OF ins k(1)] k(2) by simp
      have "belongs (papers d) r" if "r \<in> set (ps_returns d)" for r using inv that by (simp add: purchasing_inv_def returns_booked_def)
      then have "\<forall>r \<in> set (ps_returns d). \<forall>x \<in> set (su_lines r). sx_line x \<noteq> li_id l" using belongs_line new by metis
      then have "returns_of_line (li_id l) d = []" by (auto simp: returns_of_line_def filter_empty_conv)
      then have "line_taken (li_id l) d = (0, 0)" by (simp add: line_taken_def)
      moreover have "line_columns_ok l" using insert_purchase_effect(2) [OF ins] k by (simp add: list_all_iff)
      ultimately show ?thesis using fresh_line_credit [OF _ v2] by simp
    qed (use c l v2 in \<open>simp add: credits_ok_def\<close>)
  qed
next
  case (returned C tenant user purchase key fingerprint reason t items r)
  show ?thesis by (rule return_keeps_credits [OF inv c returned])
next
  case (reversed C tenant user purchase i key fingerprint reason d1)
  note e = reverse_effect [OF inv reversed]
  show ?thesis using c unfolding credits_ok_def e(2) line_taken_same [OF e(3)] by (auto simp: mark_reversed_def)
qed (use c in simp)

lemma run_credits:
  assumes "purchasing_run L q H d d'" and "purchasing_inv d" and "credits_ok L d"
  shows "credits_ok L d' \<and> purchasing_inv d'"
  using assms(1)
proof (induction rule: rtranclp_induct)
  case (step d1 d2)
  then show ?case using step_credits purchasing_step_keeps by blast
qed (use assms(2,3) in simp)

end

lemma credits_within:
  assumes "credits_ok L d" and "i \<in> set (ps_invoices d)" and "l \<in> set (pu_lines i)" and "li_net_total l \<noteq> None"
  shows "taken_ok (li_qty l) (line_credit L l) (line_taken (li_id l) d)"
proof -
  have "bare i \<in> set (papers d)" "bare_line l \<in> set (pu_lines (bare i))" using assms(2,3) by (auto simp: papers_elem)
  then have "taken_ok (li_qty (bare_line l)) (line_credit L (bare_line l)) (line_taken (li_id (bare_line l)) d)"
    using assms(1,4) unfolding credits_ok_def by (metis bare_line_fields(7))
  then show ?thesis by simp
qed

lemma returned_stays_posted:
  assumes "purchasing_inv d" and "r \<in> set (ps_returns d)"
  shows "\<exists>i \<in> set (ps_invoices d). pu_id i = su_purchase r \<and> pu_status i = ''posted''"
proof -
  have "belongs (papers d) r" using assms by (simp add: purchasing_inv_def returns_booked_def)
  then obtain j where j: "j \<in> set (papers d)" "pu_id j = su_purchase r" "pu_status j = ''posted''" by (auto simp: belongs_def)
  then obtain i where "i \<in> set (ps_invoices d)" "j = bare i" by (auto simp: papers_elem)
  then show ?thesis using j by (intro bexI [of _ i]) simp_all
qed

section \<open>Costs, line by line\<close>

definition cost_of :: "('a retail_db_scheme) \<Rightarrow> id \<Rightarrow> rat option" where
  "cost_of d v = map_option pv_cost_price (find (\<lambda>x. pv_id x = v) (rt_variants d))"

lemma cost_key_shapes:
  "receipt_cost_key x = receipt_cost_key y \<longleftrightarrow> x = y" "cost_reversal_key x = cost_reversal_key y \<longleftrightarrow> x = y"
  "receipt_cost_key x \<noteq> cost_reversal_key y" "take 18 (receipt_cost_key x) \<noteq> ''cost-auto-opening:''"
  "take 18 (cost_reversal_key x) \<noteq> ''cost-auto-opening:''"
  by (simp_all add: receipt_cost_key_def cost_reversal_key_def)

lemma find_set_cost:
  "find (\<lambda>x. pv_id x = w) (map (\<lambda>x. if pv_id x = v then x\<lparr>pv_cost_price := c\<rparr> else x) vs)
     = map_option (\<lambda>x. if w = v then x\<lparr>pv_cost_price := c\<rparr> else x) (find (\<lambda>x. pv_id x = w) (vs :: variant_row list))"
  by (induction vs) auto

lemma cost_of_set: "cost_of (set_variant_cost v c d) w = (if w = v \<and> cost_of d w \<noteq> None then Some c else cost_of d w)"
  by (cases "find (\<lambda>x. pv_id x = w) (rt_variants d)") (auto simp: cost_of_def set_variant_cost_def find_set_cost)

lemma cost_of_updates [simp]:
  "cost_of (d\<lparr>stock := st\<rparr>) w = cost_of d w" "cost_of (d\<lparr>movements := ms\<rparr>) w = cost_of d w"
  "cost_of (d\<lparr>rt_audits := as\<rparr>) w = cost_of d w" "cost_of (d\<lparr>rt_costs := cs\<rparr>) w = cost_of d w"
  by (simp_all add: cost_of_def)

text \<open>A posting under a new key adds its movement, after an opening one where the variant had none.\<close>

definition opened_costs :: "cost_movement list \<Rightarrow> bool" where
  "opened_costs os \<longleftrightarrow> (\<forall>m \<in> set os. take 18 (cm_key m) = ''cost-auto-opening:'')"

definition cost_posted :: "cost_command \<Rightarrow> cost_movement \<Rightarrow> ('a purchasing_db_scheme) \<Rightarrow> ('a purchasing_db_scheme) \<Rightarrow> bool" where
  "cost_posted c m d d' \<longleftrightarrow>
     (\<exists>os. rt_costs d' = rt_costs d @ os @ [m] \<and> opened_costs os) \<and> cm_key m = cc_key c
     \<and> cost_of d (cc_variant c) = Some (cm_cost_before m)
     \<and> (\<forall>w. cost_of d' w = (if w = cc_variant c then Some (cm_cost_after m) else cost_of d w))
     \<and> cm_quantity_before m = global_quantity d (cc_variant c) - cc_delta c
     \<and> (cc_type c = Cost_Purchase_Reversal \<longrightarrow> Some (cm_cost_after m) = map_option (round_places 2) (cc_restore_cost c))
     \<and> (cc_type c = Cost_Purchase_Receipt \<longrightarrow> 0 \<le> cm_quantity_before m)"

lemma purchase_cost_posted:
  assumes k: "record_purchase_cost q c d = Inr d'" and new: "\<forall>m \<in> set (rt_costs d). cm_key m \<noteq> cc_key c"
  shows "\<exists>m. cost_posted c m d d'"
proof -
  have none: "find (\<lambda>m. cm_key m = cc_key c) (rt_costs d) = None" using new by (simp add: find_None_set)
  obtain m d1 where r: "record_inventory_cost_movement q c d = Inr (m, d1)"
    and same: "rt_costs d' = rt_costs d1" "rt_variants d' = rt_variants d1"
    and snap: "cc_type c = Cost_Purchase_Receipt \<Longrightarrow> find (\<lambda>m. cm_key m = cc_key c) (rt_costs d) = None \<Longrightarrow> 0 \<le> cm_quantity_before m"
    by (rule record_purchase_costE [OF k]) (rule that; assumption)
  obtain v where v: "find (\<lambda>v. pv_id v = cc_variant c) (rt_variants d) = Some v" and p: "post_cost q c v d = Inr (m, d1)"
    by (rule record_costE [OF r]) (use new in \<open>auto intro: that\<close>)
  from post_costE [OF p] obtain ms new_cost where
    o: "open_costs (cc_variant c) (va_tenant v) (global_quantity d (cc_variant c) - cc_delta c) (pv_cost_price v) (cc_occurred_at c) (rt_costs d) = Inr ms"
    and nc: "next_cost q c (pv_cost_price v) (global_quantity d (cc_variant c) - cc_delta c) (global_quantity d (cc_variant c)) = Inr new_cost"
    and m: "m = cost_movement_of q c (va_tenant v) (pv_cost_price v) new_cost
               (global_quantity d (cc_variant c) - cc_delta c) (global_quantity d (cc_variant c))"
    and d1: "d1 = set_variant_cost (cc_variant c) new_cost (d\<lparr>rt_costs := ms @ [m]\<rparr>)" by metis
  have "\<exists>os. ms = rt_costs d @ os \<and> opened_costs os"
    using o by (auto simp: open_costs_def Let_def result_simps opened_costs_def opening_cost_def split: if_splits)
  then obtain os where os: "ms = rt_costs d @ os" "opened_costs os" by blast
  have before: "cost_of d (cc_variant c) = Some (pv_cost_price v)" by (simp add: cost_of_def v)
  have after: "cost_of d' w = (if w = cc_variant c then Some new_cost else cost_of d w)" for w
  proof -
    have "cost_of d' w = cost_of d1 w" by (simp add: cost_of_def same)
    then show ?thesis using before by (simp add: d1 cost_of_set)
  qed
  have f: "cm_key m = cc_key c" "cm_cost_before m = pv_cost_price v" "cm_cost_after m = new_cost"
    "cm_quantity_before m = global_quantity d (cc_variant c) - cc_delta c"
    by (simp_all add: m cost_movement_of_def Let_def)
  have "Some new_cost = map_option (round_places 2) (cc_restore_cost c)" if "cc_type c = Cost_Purchase_Reversal"
    using nc that by (auto simp: next_cost_def result_simps split: option.splits)
  then show ?thesis
    unfolding cost_posted_def using os before after f snap [OF _ none] same(1)
    by (intro exI [of _ m] conjI exI [of _ os]) (simp_all add: d1 set_variant_cost_def)
qed

text \<open>The lines of a receipt: nothing of a later line touches an earlier one, as their variants differ.\<close>

definition line_receipted :: "('a purchasing_db_scheme) \<Rightarrow> ('a purchasing_db_scheme) \<Rightarrow> id \<Rightarrow> id \<Rightarrow> bool" where
  "line_receipted d d' line v \<longleftrightarrow> (\<forall>m \<in> set (rt_costs d'). cm_key m = receipt_cost_key line \<longrightarrow> cost_of d v = Some (cm_cost_before m))"

lemma receipt_line_costs:
  assumes run: "post_receipt_line q i l d = Inr d'" and new: "\<forall>m \<in> set (rt_costs d). cm_key m \<noteq> receipt_cost_key (li_id (line_of i (pl_variant l)))"
  shows "\<exists>os m. rt_costs d' = rt_costs d @ os @ [m] \<and> opened_costs os \<and> cm_key m = receipt_cost_key (li_id (line_of i (pl_variant l)))
      \<and> cost_of d (pl_variant l) = Some (cm_cost_before m)" and "w \<noteq> pl_variant l \<Longrightarrow> cost_of d' w = cost_of d w"
    and "\<exists>d1. upsert_stock (pu_tenant i) (pu_branch i) (pl_variant l) (pl_qty l) None d = Inr d1 \<and> pl_qty l \<le> global_quantity d1 (pl_variant l)"
proof -
  obtain line d1 d2 where f: "find (\<lambda>x. li_variant x = pl_variant l) (pu_lines i) = Some line"
    and u: "upsert_stock (pu_tenant i) (pu_branch i) (pl_variant l) (pl_qty l) None d = Inr d1"
    and m: "record_inventory_movement (receipt_movement i l (li_id line)) d1 = Inr d2"
    and k: "record_purchase_cost q (receipt_cost i l (li_id line)) d2 = Inr d'"
    by (rule post_receipt_lineE [OF run]) (rule that; assumption)
  obtain st where d1: "d1 = d\<lparr>stock := st\<rparr>" using upsert_keeps [OF u] by blast
  obtain ms where d2: "d2 = d1\<lparr>movements := ms\<rparr>" using record_only_movements [OF m] by blast
  have l: "line_of i (pl_variant l) = line" by (simp add: line_of_def f)
  have c: "cc_key (receipt_cost i l (li_id line)) = receipt_cost_key (li_id line)" "cc_variant (receipt_cost i l (li_id line)) = pl_variant l"
    "cc_type (receipt_cost i l (li_id line)) = Cost_Purchase_Receipt" "cc_delta (receipt_cost i l (li_id line)) = pl_qty l"
    by (simp_all add: receipt_cost_def)
  obtain m where p: "cost_posted (receipt_cost i l (li_id line)) m d2 d'"
    using purchase_cost_posted [OF k] new by (auto simp: c d1 d2 l)
  have g: "global_quantity d2 (pl_variant l) = global_quantity d1 (pl_variant l)" by (simp add: global_quantity_def d2)
  show "\<exists>os m. rt_costs d' = rt_costs d @ os @ [m] \<and> opened_costs os \<and> cm_key m = receipt_cost_key (li_id (line_of i (pl_variant l)))
      \<and> cost_of d (pl_variant l) = Some (cm_cost_before m)" "w \<noteq> pl_variant l \<Longrightarrow> cost_of d' w = cost_of d w"
    using p by (auto simp: cost_posted_def c d1 d2 l)
  show "\<exists>d1. upsert_stock (pu_tenant i) (pu_branch i) (pl_variant l) (pl_qty l) None d = Inr d1 \<and> pl_qty l \<le> global_quantity d1 (pl_variant l)"
    using p u g by (auto simp: cost_posted_def c)
qed

lemma receipt_loop_costs:
  assumes "fold_result (post_receipt_line q i) ls d = Inr d'" and "distinct (map pl_variant ls)"
    and "inj_on (\<lambda>v. li_id (line_of i v)) (set (map pl_variant ls))"
    and "\<forall>l \<in> set ls. \<forall>m \<in> set (rt_costs d). cm_key m \<noteq> receipt_cost_key (li_id (line_of i (pl_variant l)))"
  shows "(\<forall>w. w \<notin> set (map pl_variant ls) \<longrightarrow> cost_of d' w = cost_of d w)
    \<and> (\<forall>l \<in> set ls. line_receipted d d' (li_id (line_of i (pl_variant l))) (pl_variant l))
    \<and> (\<exists>os. rt_costs d' = rt_costs d @ os
         \<and> (\<forall>m \<in> set os. take 18 (cm_key m) = ''cost-auto-opening:'' \<or> (\<exists>l \<in> set ls. cm_key m = receipt_cost_key (li_id (line_of i (pl_variant l))))))"
  using assms
proof (induction ls arbitrary: d)
  case (Cons l ls)
  let ?K = "\<lambda>l. receipt_cost_key (li_id (line_of i (pl_variant l)))"
  from Cons.prems(1) obtain d1 where d1: "post_receipt_line q i l d = Inr d1" "fold_result (post_receipt_line q i) ls d1 = Inr d'"
    by (auto simp: result_simps)
  have new: "\<forall>m \<in> set (rt_costs d). cm_key m \<noteq> ?K l" using Cons.prems(4) by simp
  obtain os m where m: "rt_costs d1 = rt_costs d @ os @ [m]" "opened_costs os" "cm_key m = ?K l" "cost_of d (pl_variant l) = Some (cm_cost_before m)"
    using receipt_line_costs(1) [OF d1(1) new] by blast
  have diff: "pl_variant y \<noteq> pl_variant l" if "y \<in> set ls" for y
    using Cons.prems(2) imageI [OF that, of pl_variant] by auto
  have others: "?K y \<noteq> ?K l" if "y \<in> set ls" for y
    using inj_on_eq_iff [OF Cons.prems(3), of "pl_variant y" "pl_variant l"] diff [OF that] that by (simp add: cost_key_shapes(1))
  have opened: "cm_key x \<noteq> ?K y" if "x \<in> set os" for x y
    using m(2) that cost_key_shapes(4) by (metis opened_costs_def)
  have "\<forall>y \<in> set ls. \<forall>x \<in> set (rt_costs d1). cm_key x \<noteq> ?K y"
    using Cons.prems(4) not_sym [OF others] opened by (auto simp: m(1,3))
  moreover have "inj_on (\<lambda>v. li_id (line_of i v)) (set (map pl_variant ls))" using Cons.prems(3) by (rule inj_on_subset) auto
  ultimately have ih: "\<forall>w. w \<notin> set (map pl_variant ls) \<longrightarrow> cost_of d' w = cost_of d1 w"
    "\<forall>y \<in> set ls. line_receipted d1 d' (li_id (line_of i (pl_variant y))) (pl_variant y)"
    "\<exists>os. rt_costs d' = rt_costs d1 @ os \<and> (\<forall>m \<in> set os. take 18 (cm_key m) = ''cost-auto-opening:'' \<or> (\<exists>l \<in> set ls. cm_key m = ?K l))"
    using Cons.IH [OF d1(2)] Cons.prems(2) by simp_all
  obtain os' where os': "rt_costs d' = rt_costs d1 @ os'"
    "\<forall>m \<in> set os'. take 18 (cm_key m) = ''cost-auto-opening:'' \<or> (\<exists>l \<in> set ls. cm_key m = ?K l)" using ih(3) by blast
  have 1: "cost_of d' w = cost_of d w" if "w \<notin> set (map pl_variant (l # ls))" for w
    using that ih(1) receipt_line_costs(2) [OF d1(1) new] by simp
  have 2: "line_receipted d d' (li_id (line_of i (pl_variant y))) (pl_variant y)" if y: "y \<in> set (l # ls)" for y
  proof (cases "y \<in> set ls")
    case True
    show ?thesis using bspec [OF ih(2) True] unfolding line_receipted_def receipt_line_costs(2) [OF d1(1) new diff [OF True]] .
  next
    case False
    then have "y = l" using y by simp
    moreover have "x = m" if "x \<in> set (rt_costs d')" "cm_key x = ?K l" for x
    proof -
      have "x \<notin> set os'"
      proof
        assume "x \<in> set os'"
        then have "take 18 (cm_key x) = ''cost-auto-opening:'' \<or> (\<exists>y \<in> set ls. cm_key x = ?K y)" using os'(2) by blast
        then show False using others cost_key_shapes(4) unfolding that(2) by metis
      qed
      then show ?thesis using that new opened by (auto simp: os'(1) m(1))
    qed
    ultimately show ?thesis using m(4) by (auto simp: line_receipted_def)
  qed
  have 3: "rt_costs d' = rt_costs d @ (os @ [m] @ os')" by (simp add: os'(1) m(1))
  have 4: "\<forall>x \<in> set (os @ [m] @ os'). take 18 (cm_key x) = ''cost-auto-opening:'' \<or> (\<exists>y \<in> set (l # ls). cm_key x = ?K y)"
    using m(2,3) os'(2) by (auto simp: opened_costs_def)
  show ?case using 1 2 3 4 by blast
qed simp

section \<open>A reversal gives the costs back\<close>

lemma reverse_line_costs:
  assumes run: "reverse_line q C tenant user i l d = Inr d'" and new: "\<forall>m \<in> set (rt_costs d). cm_key m \<noteq> cost_reversal_key (li_id l)"
  shows "\<exists>m \<in> set (rt_costs d). cm_key m = receipt_cost_key (li_id l) \<and> cost_of d' (li_variant l) = Some (round_places 2 (cm_cost_before m))"
    and "w \<noteq> li_variant l \<Longrightarrow> cost_of d' w = cost_of d w"
    and "\<exists>os m. rt_costs d' = rt_costs d @ os @ [m] \<and> opened_costs os \<and> cm_key m = cost_reversal_key (li_id l)"
proof -
  obtain receipt d1 d2 where f: "find (\<lambda>m. cm_tenant m = tenant \<and> cm_key m = receipt_cost_key (li_id l)) (rt_costs d) = Some receipt"
    and u: "take_out tenant (pu_branch i) (li_variant l) (li_qty l) d = Inr d1"
    and m: "record_inventory_movement (reversal_movement C user i l) d1 = Inr d2"
    and k: "record_purchase_cost q (reversal_cost C user i l receipt) d2 = Inr d'"
    by (rule reverse_lineE [OF run]) (rule that; assumption)
  obtain st where d1: "d1 = d\<lparr>stock := st\<rparr>" by (rule take_outE [OF u]) blast
  obtain ms where d2: "d2 = d1\<lparr>movements := ms\<rparr>" using record_only_movements [OF m] by blast
  have c: "cc_key (reversal_cost C user i l receipt) = cost_reversal_key (li_id l)" "cc_variant (reversal_cost C user i l receipt) = li_variant l"
    "cc_type (reversal_cost C user i l receipt) = Cost_Purchase_Reversal" "cc_restore_cost (reversal_cost C user i l receipt) = Some (cm_cost_before receipt)"
    by (simp_all add: reversal_cost_def)
  obtain n where p: "cost_posted (reversal_cost C user i l receipt) n d2 d'"
    using purchase_cost_posted [OF k] new by (auto simp: c d1 d2)
  have r: "receipt \<in> set (rt_costs d)" "cm_key receipt = receipt_cost_key (li_id l)" using find_Some_iff_set [OF f] by auto
  have "cost_of d' (li_variant l) = Some (round_places 2 (cm_cost_before receipt))" using p by (auto simp: cost_posted_def c)
  then show "\<exists>m \<in> set (rt_costs d). cm_key m = receipt_cost_key (li_id l) \<and> cost_of d' (li_variant l) = Some (round_places 2 (cm_cost_before m))"
    using r by (intro bexI [of _ receipt]) simp_all
  show "w \<noteq> li_variant l \<Longrightarrow> cost_of d' w = cost_of d w"
    and "\<exists>os m. rt_costs d' = rt_costs d @ os @ [m] \<and> opened_costs os \<and> cm_key m = cost_reversal_key (li_id l)"
    using p by (auto simp: cost_posted_def c d1 d2)
qed

lemma reverse_loop_costs:
  assumes "fold_result (reverse_line q C tenant user i) ls d = Inr d'" and "distinct (map li_variant ls)" and "distinct (map li_id ls)"
    and "\<forall>l \<in> set ls. \<forall>m \<in> set (rt_costs d). cm_key m \<noteq> cost_reversal_key (li_id l)"
  shows "(\<forall>w. w \<notin> set (map li_variant ls) \<longrightarrow> cost_of d' w = cost_of d w)
    \<and> (\<forall>l \<in> set ls. \<exists>m \<in> set (rt_costs d). cm_key m = receipt_cost_key (li_id l) \<and> cost_of d' (li_variant l) = Some (round_places 2 (cm_cost_before m)))"
  using assms
proof (induction ls arbitrary: d)
  case (Cons l ls)
  from Cons.prems(1) obtain d1 where d1: "reverse_line q C tenant user i l d = Inr d1" "fold_result (reverse_line q C tenant user i) ls d1 = Inr d'"
    by (auto simp: result_simps)
  have new: "\<forall>m \<in> set (rt_costs d). cm_key m \<noteq> cost_reversal_key (li_id l)" using Cons.prems(4) by simp
  note e = reverse_line_costs [OF d1(1) new]
  obtain os m where m: "rt_costs d1 = rt_costs d @ os @ [m]" "opened_costs os" "cm_key m = cost_reversal_key (li_id l)" using e(3) by blast
  have opened: "cm_key x \<noteq> cost_reversal_key y" "cm_key x \<noteq> receipt_cost_key y" if "x \<in> set os" for x y
    using m(2) that cost_key_shapes(4,5) by (metis opened_costs_def)+
  have diff: "li_variant y \<noteq> li_variant l" "li_id y \<noteq> li_id l" if "y \<in> set ls" for y
    using Cons.prems(2,3) imageI [OF that, of li_variant] imageI [OF that, of li_id] by auto
  have "\<forall>y \<in> set ls. \<forall>x \<in> set (rt_costs d1). cm_key x \<noteq> cost_reversal_key (li_id y)"
    using Cons.prems(4) opened(1) not_sym [OF diff(2)] by (auto simp: m(1,3) cost_key_shapes(2))
  then have ih: "\<forall>w. w \<notin> set (map li_variant ls) \<longrightarrow> cost_of d' w = cost_of d1 w"
    "\<And>y. y \<in> set ls \<Longrightarrow> \<exists>m \<in> set (rt_costs d1). cm_key m = receipt_cost_key (li_id y) \<and> cost_of d' (li_variant y) = Some (round_places 2 (cm_cost_before m))"
    using Cons.IH [OF d1(2)] Cons.prems(2,3) by simp_all
  have 1: "cost_of d' w = cost_of d w" if "w \<notin> set (map li_variant (l # ls))" for w
    using that ih(1) e(2) by simp
  have 2: "\<exists>m \<in> set (rt_costs d). cm_key m = receipt_cost_key (li_id y) \<and> cost_of d' (li_variant y) = Some (round_places 2 (cm_cost_before m))"
    if y: "y \<in> set (l # ls)" for y
  proof (cases "y \<in> set ls")
    case True
    obtain x where x: "x \<in> set (rt_costs d1)" "cm_key x = receipt_cost_key (li_id y)" "cost_of d' (li_variant y) = Some (round_places 2 (cm_cost_before x))"
      using ih(2) [OF True] by blast
    moreover have "x \<in> set (rt_costs d)" using x(1,2) opened(2) m(3) not_sym [OF cost_key_shapes(3)] by (auto simp: m(1))
    ultimately show ?thesis by blast
  next
    case False
    then have l: "y = l" using y by simp
    have "li_variant l \<notin> set (map li_variant ls)" using not_sym [OF diff(1)] by auto
    then show ?thesis using e(1) ih(1) l by simp
  qed
  show ?case using 1 2 by blast
qed simp

text \<open>Every variant occurs once on a receipt the code posts, as its lines have been checked against the variants.\<close>

lemma checked_distinct:
  assumes "distinct (map pv_id vs)" and "length (filter (\<lambda>v. pv_id v \<in> set ids \<and> P v) vs) = length ids"
  shows "distinct ids"
proof -
  let ?f = "filter (\<lambda>v. pv_id v \<in> set ids \<and> P v) vs"
  have "distinct (map pv_id ?f)" using assms(1) by (rule distinct_map_filter)
  from distinct_card [OF this] have "length ?f = card (set (map pv_id ?f))" by simp
  moreover have "card (set (map pv_id ?f)) \<le> card (set ids)" by (rule card_mono) auto
  ultimately have "length ids \<le> card (set ids)" unfolding assms(2) by (rule ord_eq_le_trans)
  then have "card (set ids) = length ids" using card_length [of ids] by linarith
  then show ?thesis by (rule card_distinct)
qed

section \<open>Receiving and reversing\<close>

text \<open>The identifiers a call draws are new to the cost ledger.\<close>

definition fresh_call :: "purchase_call \<Rightarrow> ('a purchasing_db_scheme) \<Rightarrow> bool" where
  "fresh_call C d \<longleftrightarrow>
     (\<forall>m \<in> set (rt_costs d). \<forall>k. cm_key m \<noteq> receipt_cost_key (pc_uuid C k) \<and> cm_key m \<noteq> cost_reversal_key (pc_uuid C k))"

lemma purchase_of_lines:
  "map li_variant (pu_lines (purchase_of H C tenant user dto p t)) = map pl_variant (pr_lines p)"
  "\<forall>l \<in> set (pu_lines (purchase_of H C tenant user dto p t)). \<exists>k. li_id l = pc_uuid C k"
proof -
  have "map li_variant (map (\<lambda>(k, l). invoice_line (pc_uuid C (1 + k)) l) (enumerate m ls)) = map pl_variant ls" for m ls
    by (induction ls arbitrary: m) (simp_all add: invoice_line_def)
  then show "map li_variant (pu_lines (purchase_of H C tenant user dto p t)) = map pl_variant (pr_lines p)"
    by (simp add: purchase_of_def)
  show "\<forall>l \<in> set (pu_lines (purchase_of H C tenant user dto p t)). \<exists>k. li_id l = pc_uuid C k"
    by (auto simp: purchase_of_def invoice_line_def)
qed

lemma line_of_variant:
  assumes "distinct (map li_variant (pu_lines i))" and "l \<in> set (pu_lines i)"
  shows "line_of i (li_variant l) = l"
proof -
  obtain y where y: "find (\<lambda>x. li_variant x = li_variant l) (pu_lines i) = Some y"
    using assms(2) by (cases "find (\<lambda>x. li_variant x = li_variant l) (pu_lines i)") (auto simp: find_None_set)
  have "y \<in> set (pu_lines i)" "li_variant y = li_variant l" using find_Some_iff_set [OF y] by auto
  then have "y = l" using assms by (simp add: distinct_map inj_on_def)
  then show ?thesis by (simp add: line_of_def y)
qed

text \<open>What a posted receipt leaves in the cost ledger.\<close>

lemma receive_costs:
  assumes inv: "purchasing_inv d" and fresh: "fresh_call C d" and run: "post_purchase q H C tenant user dto p t d = Inr (row, d')"
  defines "i \<equiv> purchase_of H C tenant user dto p t"
  shows "distinct (map li_variant (pu_lines i))" and "distinct (map li_id (pu_lines i))"
    and "w \<notin> set (map li_variant (pu_lines i)) \<Longrightarrow> cost_of d' w = cost_of d w"
    and "l \<in> set (pu_lines i) \<Longrightarrow> line_receipted d d' (li_id l) (li_variant l)"
    and "l \<in> set (pu_lines i) \<Longrightarrow> m \<in> set (rt_costs d') \<Longrightarrow> cm_key m \<noteq> cost_reversal_key (li_id l)"
    and "find (\<lambda>x. pu_id x = pu_id i \<and> pu_tenant x = tenant) (ps_invoices d') = Some row"
proof -
  obtain d1 d2 where ins: "insert_purchase i d = Inr d1" and loop: "fold_result (post_receipt_line q i) (pr_lines p) d1 = Inr d2"
    and d': "d' = purchase_audit tenant user ''purchase.receipt.posted'' ''PurchaseInvoice'' (pc_uuid C 0) d2"
    and row: "find (\<lambda>x. pu_id x = pc_uuid C 0 \<and> pu_tenant x = tenant) (ps_invoices d') = Some row"
    and len: "length (filter (\<lambda>v. pv_id v \<in> set (map pl_variant (pr_lines p)) \<and> va_tenant v = tenant) (rt_variants d)) = length (map pl_variant (pr_lines p))"
    by (rule post_purchaseE [OF run, folded i_def]) (rule that; assumption)
  note e = insert_purchase_effect [OF ins]
  have vs: "map li_variant (pu_lines i) = map pl_variant (pr_lines p)" unfolding i_def by (rule purchase_of_lines)
  have pd: "distinct (map pl_variant (pr_lines p))"
    by (rule checked_distinct [OF _ len]) (use inv in \<open>simp add: purchasing_inv_def cost_inv_def\<close>)
  show dv: "distinct (map li_variant (pu_lines i))" unfolding vs by (rule pd)
  show di: "distinct (map li_id (pu_lines i))" by (rule e(4))
  show "find (\<lambda>x. pu_id x = pu_id i \<and> pu_tenant x = tenant) (ps_invoices d') = Some row" using row by (simp add: i_def purchase_of_def)
  have at: "line_of i v \<in> set (pu_lines i) \<and> li_variant (line_of i v) = v" if v: "v \<in> set (map pl_variant (pr_lines p))" for v
  proof -
    obtain l where "l \<in> set (pu_lines i)" "li_variant l = v" using v unfolding vs [symmetric] by auto
    then show ?thesis using line_of_variant [OF dv] by auto
  qed
  have inj: "inj_on (\<lambda>v. li_id (line_of i v)) (set (map pl_variant (pr_lines p)))"
  proof (rule inj_onI)
    fix v w assume v: "v \<in> set (map pl_variant (pr_lines p))" "w \<in> set (map pl_variant (pr_lines p))"
      and same: "li_id (line_of i v) = li_id (line_of i w)"
    have "inj_on li_id (set (pu_lines i))" using di by (simp add: distinct_map)
    then have "line_of i v = line_of i w" using same conjunct1 [OF at [OF v(1)]] conjunct1 [OF at [OF v(2)]] by (rule inj_onD)
    then have "li_variant (line_of i v) = li_variant (line_of i w)" by (rule arg_cong)
    then show "v = w" unfolding conjunct2 [OF at [OF v(1)]] conjunct2 [OF at [OF v(2)]] .
  qed
  have ids: "\<exists>k. li_id l = pc_uuid C k" if "l \<in> set (pu_lines i)" for l using purchase_of_lines(2) that unfolding i_def by blast
  have new: "\<forall>l \<in> set (pr_lines p). \<forall>m \<in> set (rt_costs d1). cm_key m \<noteq> receipt_cost_key (li_id (line_of i (pl_variant l)))"
  proof (intro ballI)
    fix l m assume l: "l \<in> set (pr_lines p)" and m: "m \<in> set (rt_costs d1)"
    obtain k where "li_id (line_of i (pl_variant l)) = pc_uuid C k" using ids at [of "pl_variant l"] l by auto
    then show "cm_key m \<noteq> receipt_cost_key (li_id (line_of i (pl_variant l)))" using fresh m by (simp add: fresh_call_def e(1))
  qed
  note c = receipt_loop_costs [OF loop pd inj new]
  have start: "cost_of d1 w = cost_of d w" for w by (simp add: e(1) cost_of_def)
  have stop: "cost_of d' w = cost_of d2 w" "rt_costs d' = rt_costs d2" for w by (simp_all add: d' purchase_audit_def)
  show "w \<notin> set (map li_variant (pu_lines i)) \<Longrightarrow> cost_of d' w = cost_of d w" using c unfolding vs by (simp add: start stop)
  show "line_receipted d d' (li_id l) (li_variant l)" if l: "l \<in> set (pu_lines i)"
  proof -
    have "li_variant l \<in> set (map pl_variant (pr_lines p))" unfolding vs [symmetric] using l by simp
    then obtain x where "x \<in> set (pr_lines p)" "pl_variant x = li_variant l" by auto
    then have "line_receipted d1 d2 (li_id (line_of i (li_variant l))) (li_variant l)" using c by metis
    then show ?thesis by (simp add: line_receipted_def line_of_variant [OF dv l] start stop)
  qed
  show "cm_key m \<noteq> cost_reversal_key (li_id l)" if l: "l \<in> set (pu_lines i)" and m: "m \<in> set (rt_costs d')" for l m
  proof -
    obtain os where os: "rt_costs d2 = rt_costs d1 @ os"
      "\<forall>m \<in> set os. take 18 (cm_key m) = ''cost-auto-opening:'' \<or> (\<exists>l \<in> set (pr_lines p). cm_key m = receipt_cost_key (li_id (line_of i (pl_variant l))))"
      using c by blast
    show ?thesis
    proof (cases "m \<in> set os")
      case True
      then show ?thesis using os(2) cost_key_shapes(3,5) by metis
    next
      case False
      then have "m \<in> set (rt_costs d)" using m by (simp add: stop os(1) e(1))
      then show ?thesis using fresh ids [OF l] unfolding fresh_call_def by metis
    qed
  qed
qed

lemma receipt_undone:
  assumes inv: "purchasing_inv d" and fresh: "fresh_call C d" and post: "post_purchase q H C tenant user dto p t d = Inr (row, d1)"
    and run: "reverse_purchase q H' C' tenant user' (pu_id row) request d1 = Inr (row', d2)"
  shows "on_hand d2 b v = on_hand d b v" and "cost_of d2 v = cost_of d v" and "ps_returns d2 = ps_returns d" and "purchasing_inv d2"
proof -
  let ?i = "purchase_of H C tenant user dto p t"
  note e = receive_effect [OF inv post] and c = receive_costs [OF inv fresh post]
  have row: "row \<in> set (ps_invoices d1)" "pu_id row = pu_id ?i" using find_Some_iff_set [OF c(6)] by auto
  have ids: "distinct (map pu_id (papers d1))" using e(1) by (simp add: purchasing_inv_def papers_ok_def)
  have same: "bare j = bare ?i" if "j \<in> set (ps_invoices d1)" "pu_id j = pu_id ?i" for j
  proof -
    have "bare j \<in> set (papers d1)" using that(1) by (auto simp: papers_elem)
    moreover have "bare ?i \<in> set (papers d1)" by (simp add: e(2))
    ultimately show ?thesis using ids that(2) by (auto simp: distinct_map inj_on_def)
  qed
  have posted: "pu_status ?i = ''posted''" "pu_branch ?i = rd_branch_id dto" by (simp_all add: purchase_of_def)
  have "on_hand d2 b v = on_hand d b v \<and> cost_of d2 v = cost_of d v \<and> ps_returns d2 = ps_returns d \<and> purchasing_inv d2"
  proof (rule reverse_purchaseE [OF run])
    assume "find (\<lambda>x. pu_id x = pu_id row \<and> pu_tenant x = tenant) (ps_invoices d1) = Some row'" "pu_status row' = ''reversed''"
    then have "pu_status row = ''reversed''" using c(6) row(2) by simp
    moreover have "pu_status row = ''posted''" using same [OF row] posted(1) by (metis bare_fields(5))
    ultimately have False by simp
    then show "on_hand d2 b v = on_hand d b v \<and> cost_of d2 v = cost_of d v \<and> ps_returns d2 = ps_returns d \<and> purchasing_inv d2" by simp
  next
    fix j key fingerprint d3
    assume f: "find (\<lambda>x. pu_id x = pu_id row \<and> pu_tenant x = tenant) (ps_invoices d1) = Some j" and st: "pu_status j = ''posted''"
      and loop: "fold_result (reverse_line q C' tenant user' j) (pu_lines j) d1 = Inr d3"
      and d2: "d2 = purchase_audit tenant user' ''purchase.receipt.reversed'' ''PurchaseInvoice'' (pu_id j)
             (d3\<lparr>ps_invoices := map (\<lambda>x. if pu_id x = pu_id j then mark_reversed C' user' key fingerprint (trim (rq_reason request)) x else x) (ps_invoices d3)\<rparr>)"
    note r = reverse_effect [OF e(1) f st loop d2]
    have j: "j \<in> set (ps_invoices d1)" "pu_id j = pu_id ?i" using find_Some_iff_set [OF f] row(2) by auto
    note bj = same [OF j]
    have lines: "map bare_line (pu_lines j) = map bare_line (pu_lines ?i)" using bj by (metis bare_fields(9))
    have br: "pu_branch j = rd_branch_id dto" using bj posted(2) by (metis bare_fields(4))
    have units: "units_of li_variant li_qty (pu_lines j) = units_of pl_variant pl_qty (pr_lines p)"
      using units_of_bare [of "pu_lines j"] units_of_bare [of "pu_lines ?i"] lines invoice_lines_units [of H C tenant user dto p t] by simp
    have cols: "map li_variant (pu_lines j) = map li_variant (pu_lines ?i)" "map li_id (pu_lines j) = map li_id (pu_lines ?i)"
      using arg_cong [OF lines, of "map li_variant"] arg_cong [OF lines, of "map li_id"] by (simp_all add: comp_def)
    have twin: "\<exists>k \<in> set (pu_lines ?i). li_id k = li_id l \<and> li_variant k = li_variant l" if "l \<in> set (pu_lines j)" for l
    proof -
      have "bare_line l \<in> set (map bare_line (pu_lines ?i))" using that unfolding lines [symmetric] by simp
      then obtain k where "k \<in> set (pu_lines ?i)" "bare_line l = bare_line k" by auto
      then show ?thesis by (metis bare_line_fields(1,2))
    qed
    have new: "\<forall>l \<in> set (pu_lines j). \<forall>m \<in> set (rt_costs d1). cm_key m \<noteq> cost_reversal_key (li_id l)"
      using twin c(5) by metis
    note rc = reverse_loop_costs [OF loop c(1,2) [folded cols] new]
    have end_cost: "cost_of d2 w = cost_of d3 w" for w by (simp add: d2 purchase_audit_def cost_of_def)
    have "cost_of d2 v = cost_of d v"
    proof (cases "v \<in> set (map li_variant (pu_lines j))")
      case False
      then show ?thesis using rc c(3) unfolding end_cost cols(1) by metis
    next
      case True
      then obtain l where l: "l \<in> set (pu_lines j)" "li_variant l = v" by auto
      obtain m where m: "m \<in> set (rt_costs d1)" "cm_key m = receipt_cost_key (li_id l)" "cost_of d3 v = Some (round_places 2 (cm_cost_before m))"
        using rc l by blast
      obtain k where k: "k \<in> set (pu_lines ?i)" "li_id k = li_id l" "li_variant k = li_variant l" using twin [OF l(1)] by blast
      have before: "cost_of d v = Some (cm_cost_before m)" using c(4) [OF k(1)] m(1,2) k(2,3) l(2) by (simp add: line_receipted_def)
      then obtain x where "find (\<lambda>x. pv_id x = v) (rt_variants d) = Some x" "pv_cost_price x = cm_cost_before m" by (auto simp: cost_of_def)
      then have "has_places 2 (cm_cost_before m)"
        using inv find_Some_iff_set by (fastforce simp: purchasing_inv_def cost_inv_def)
      then show ?thesis using before m(3) by (simp add: end_cost round_places_id)
    qed
    then show "on_hand d2 b v = on_hand d b v \<and> cost_of d2 v = cost_of d v \<and> ps_returns d2 = ps_returns d \<and> purchasing_inv d2"
      using r(1,3) r(4) [of b v] e(3) e(4) [of b v] br units by simp
  qed
  then show "on_hand d2 b v = on_hand d b v" "cost_of d2 v = cost_of d v" "ps_returns d2 = ps_returns d" "purchasing_inv d2" by simp_all
qed

section \<open>Variants below zero\<close>

lemma global_on_hand: "global_quantity d v = (\<Sum>b\<leftarrow>rt_branches d. on_hand d (br_id b) v) + rt_in_transit d v"
  by (simp add: global_quantity_def on_hand_def)

lemma sum_list_one:
  "distinct (map f xs) \<Longrightarrow> k \<in> f ` set xs \<Longrightarrow> (\<Sum>x\<leftarrow>xs. g x + (if f x = k then n else 0)) = (\<Sum>x\<leftarrow>xs. g x) + (n :: int)"
proof (induction xs)
  case (Cons y ys)
  show ?case
  proof (cases "f y = k")
    case True
    then have no: "f x \<noteq> k" if "x \<in> set ys" for x using Cons.prems(1) True imageI [OF that, of f] by (auto dest: sym)
    have "(\<Sum>x\<leftarrow>ys. g x + (if f x = k then n else 0)) = (\<Sum>x\<leftarrow>ys. g x)"
      by (intro arg_cong [of _ _ sum_list] map_cong) (use no in auto)
    then show ?thesis using True by simp
  next
    case False
    then show ?thesis using Cons by auto
  qed
qed simp

lemma units_of_none: "v \<notin> f ` set xs \<Longrightarrow> units_of f n xs v = 0"
  by (induction xs) (auto simp: units_of_def)

lemma receipt_needs_stock:
  assumes inv: "purchasing_inv d" and fresh: "fresh_call C d" and br: "distinct (map br_id (rt_branches d))"
    and run: "post_purchase q H C tenant user dto p t d = Inr (row, d')" and l: "l \<in> set (pr_lines p)"
  shows "0 \<le> global_quantity d (pl_variant l)"
proof -
  let ?i = "purchase_of H C tenant user dto p t" and ?v = "pl_variant l"
  obtain d1 d2 where ins: "insert_purchase ?i d = Inr d1" and loop: "fold_result (post_receipt_line q ?i) (pr_lines p) d1 = Inr d2"
    and here: "list_ex (\<lambda>b. br_id b = rd_branch_id dto \<and> br_tenant b = tenant \<and> br_active b) (rt_branches d)"
    by (rule post_purchaseE [OF run]) (rule that; assumption)
  note e = insert_purchase_effect [OF ins] and c = receive_costs [OF inv fresh run]
  have pd: "distinct (map pl_variant (pr_lines p))" using c(1) unfolding purchase_of_lines .
  obtain ys zs s s' where at: "pr_lines p = ys @ l # zs" and s: "fold_result (post_receipt_line q ?i) ys d1 = Inr s"
    and s': "post_receipt_line q ?i l s = Inr s'" by (rule fold_result_at [OF loop l])
  have yd: "distinct (map pl_variant ys)" "?v \<notin> pl_variant ` set ys" using pd by (simp_all add: at)
  let ?K = "\<lambda>l. receipt_cost_key (li_id (line_of ?i (pl_variant l)))"
  have line: "line_of ?i (pl_variant y) \<in> set (pu_lines ?i) \<and> li_variant (line_of ?i (pl_variant y)) = pl_variant y" if y: "y \<in> set (pr_lines p)" for y
  proof -
    have "pl_variant y \<in> set (map li_variant (pu_lines ?i))" unfolding purchase_of_lines using y by simp
    then obtain x where x: "x \<in> set (pu_lines ?i)" "li_variant x = pl_variant y" by auto
    then show ?thesis using line_of_variant [OF c(1) x(1)] by simp
  qed
  have ids: "\<exists>k. li_id (line_of ?i (pl_variant y)) = pc_uuid C k" if "y \<in> set (pr_lines p)" for y
    using purchase_of_lines(2) conjunct1 [OF line [OF that]] by blast
  have new: "cm_key m \<noteq> ?K y" if y: "y \<in> set (pr_lines p)" and m: "m \<in> set (rt_costs d1)" for y m
  proof -
    obtain k where "li_id (line_of ?i (pl_variant y)) = pc_uuid C k" using ids [OF y] by blast
    then show ?thesis using fresh m by (simp add: fresh_call_def e(1))
  qed
  have inj: "x = y" if "x \<in> set (pr_lines p)" "y \<in> set (pr_lines p)" "?K x = ?K y" for x y
  proof -
    have "inj_on li_id (set (pu_lines ?i))" using c(2) by (simp add: distinct_map)
    moreover have "li_id (line_of ?i (pl_variant x)) = li_id (line_of ?i (pl_variant y))" using that(3) by (simp only: cost_key_shapes)
    ultimately have "line_of ?i (pl_variant x) = line_of ?i (pl_variant y)"
      using conjunct1 [OF line [OF that(1)]] conjunct1 [OF line [OF that(2)]] by (rule inj_onD)
    then have "li_variant (line_of ?i (pl_variant x)) = li_variant (line_of ?i (pl_variant y))" by (rule arg_cong)
    then have same: "pl_variant x = pl_variant y" unfolding conjunct2 [OF line [OF that(1)]] conjunct2 [OF line [OF that(2)]] .
    have "inj_on pl_variant (set (pr_lines p))" using pd by (simp add: distinct_map)
    then show "x = y" using same that(1,2) by (rule inj_onD)
  qed
  have "inj_on (\<lambda>v. li_id (line_of ?i v)) (set (map pl_variant ys))"
  proof (rule inj_onI)
    fix v w assume v: "v \<in> set (map pl_variant ys)" "w \<in> set (map pl_variant ys)"
      and same: "li_id (line_of ?i v) = li_id (line_of ?i w)"
    then obtain x y where x: "x \<in> set ys" "v = pl_variant x" "y \<in> set ys" "w = pl_variant y" by auto
    then have "x = y" using inj [of x y] same by (simp add: at)
    then show "v = w" using x by simp
  qed
  note lc = receipt_loop_costs [OF s yd(1) this]
  have "\<forall>m \<in> set (rt_costs s). cm_key m \<noteq> ?K l"
  proof
    fix m assume m: "m \<in> set (rt_costs s)"
    obtain os where os: "rt_costs s = rt_costs d1 @ os"
      "\<forall>m \<in> set os. take 18 (cm_key m) = ''cost-auto-opening:'' \<or> (\<exists>y \<in> set ys. cm_key m = ?K y)" using lc new by (auto simp: at)
    show "cm_key m \<noteq> ?K l"
    proof
      assume k: "cm_key m = ?K l"
      then have "m \<in> set os" using m new [OF l] by (auto simp: os(1))
      then consider "take 18 (?K l) = ''cost-auto-opening:''" | y where "y \<in> set ys" "?K l = ?K y" using os(2) k by metis
      then show False
      proof cases
        case 2
        then have "l = y" using inj [of l y] l by (simp add: at)
        then show False using 2 yd(2) by auto
      qed (use cost_key_shapes(4) in simp)
    qed
  qed
  from receipt_line_costs(3) [OF s' this] obtain s1 where
    u: "upsert_stock (pu_tenant ?i) (pu_branch ?i) ?v (pl_qty l) None s = Inr s1" and g: "pl_qty l \<le> global_quantity s1 ?v" by blast
  obtain st where s1: "s1 = s\<lparr>stock := st\<rparr>" using upsert_keeps [OF u] by blast
  have "posts_all (pu_branch ?i) pl_variant pl_qty (\<lambda>l. receipt_key (li_id (line_of ?i (pl_variant l)))) ys d1 s"
    by (rule posting_loop [OF s]) (rule receipt_line_posts)
  then have f: "goods_frame d1 s" "\<And>b v. on_hand s b v = on_hand d1 b v + (if b = pu_branch ?i then units_of pl_variant pl_qty ys v else 0)"
    unfolding posts_all_def by blast+
  have frame: "rt_branches s = rt_branches d" "rt_in_transit s = rt_in_transit d" using f(1) by (simp_all add: goods_frame_def e(1))
  have "on_hand s b ?v = on_hand d b ?v" for b using f(2) [of b ?v] by (simp add: units_of_none [OF yd(2)] on_hand_def e(1))
  then have oh: "on_hand s1 b ?v = on_hand d b ?v + (if b = rd_branch_id dto then pl_qty l else 0)" for b
    using upsert_on_hand [OF u, of b ?v] by (simp add: purchase_of_def)
  have "global_quantity s1 ?v = (\<Sum>b\<leftarrow>rt_branches d. on_hand d (br_id b) ?v + (if br_id b = rd_branch_id dto then pl_qty l else 0)) + rt_in_transit d ?v"
    unfolding global_on_hand oh by (simp add: s1 frame)
  also have "\<dots> = global_quantity d ?v + pl_qty l"
  proof -
    obtain b where "b \<in> set (rt_branches d)" "rd_branch_id dto = br_id b" using here by (auto simp: list_ex_iff)
    then have "rd_branch_id dto \<in> br_id ` set (rt_branches d)" by simp
    from sum_list_one [OF br this, of "\<lambda>b. on_hand d (br_id b) ?v" "pl_qty l"] show ?thesis by (simp add: global_on_hand)
  qed
  finally show ?thesis using g by simp
qed

text \<open>The variants of a prepared receipt are those of the request.\<close>

lemma prepared_variants:
  assumes "prepare_purchase_receipt L H dto = Inr p"
  shows "pl_variant ` set (pr_lines p) = ri_variant ` set (rd_items dto)"
proof -
  obtain agg where agg: "fold_result (aggregate_item L) (rd_items dto) [] = Inr agg"
    and lines: "pr_lines p = prepare_lines L H (pr_subtotal p) (pr_discount p) (raw_lines L H agg)"
    using assms by (auto simp: prepare_purchase_receipt_def Let_def result_simps)
  have "fst ` set agg' = fst ` set agg0 \<union> ri_variant ` set items" if "fold_result (aggregate_item L) items agg0 = Inr agg'" for items agg0 agg'
    using that
  proof (induction items arbitrary: agg0)
    case (Cons x xs)
    from Cons.prems obtain a where a: "aggregate_item L x agg0 = Inr a" "fold_result (aggregate_item L) xs a = Inr agg'"
      by (auto simp: result_simps)
    obtain y where "a = AList.update (ri_variant x) y agg0" using a(1) by (auto simp: aggregate_item_def Let_def split: prod.splits if_splits)
    then have "fst ` set a = insert (ri_variant x) (fst ` set agg0)" by (simp add: dom_update)
    then show ?case using Cons.IH [OF a(2)] by auto
  qed simp
  from this [OF agg] have a: "fst ` set agg = ri_variant ` set (rd_items dto)" by simp
  have "pl_variant ` set (pr_lines p) = rl_variant ` set (raw_lines L H agg)"
    unfolding lines prepare_lines_def by (simp add: image_image prepare_line_def Let_def)
  also have "\<dots> = fst ` set agg" by (force simp: raw_lines_def)
  finally show ?thesis using a by simp
qed

section \<open>A supplier invoice number is used once\<close>

definition number_used :: "id \<Rightarrow> id \<Rightarrow> string option \<Rightarrow> purchase_row list \<Rightarrow> bool" where
  "number_used tenant supplier n ps \<longleftrightarrow> (\<exists>i \<in> set ps. pu_tenant i = tenant \<and> pu_supplier i = supplier \<and> pu_normalized i = n)"

lemma number_used_papers: "number_used tenant supplier n (papers d) = number_used tenant supplier n (ps_invoices d)"
  by (auto simp: number_used_def papers_def)

lemma run_keeps_numbers:
  assumes "purchasing_run L q H d d'" and "purchasing_inv d" and "number_used tenant supplier n (ps_invoices d)"
  shows "number_used tenant supplier n (ps_invoices d') \<and> purchasing_inv d'"
  using assms(1)
proof (induction rule: rtranclp_induct)
  case (step d1 d2)
  have inv: "purchasing_inv d1" and used: "number_used tenant supplier n (papers d1)" using step.IH by (simp_all add: number_used_papers)
  have "number_used tenant supplier n (papers d2)" using step.hyps(2)
  proof (cases rule: purchasing_step_cases)
    case (received C at user dto p t row)
    show ?thesis using used unfolding receive_effect(2) [OF inv received] by (auto simp: number_used_def)
  next
    case (returned C at user purchase key fingerprint reason t items r)
    show ?thesis using used unfolding return_effect(2) [OF inv returned(2,3)] .
  next
    case (reversed C at user purchase i key fingerprint reason d3)
    let ?mark = "\<lambda>x. if pu_id x = pu_id i then mark_reversed C user key fingerprint reason x else x"
    obtain x where x: "x \<in> set (papers d1)" "pu_tenant x = tenant \<and> pu_supplier x = supplier \<and> pu_normalized x = n"
      using used unfolding number_used_def by blast
    have "pu_tenant (?mark x) = tenant \<and> pu_supplier (?mark x) = supplier \<and> pu_normalized (?mark x) = n"
      using x(2) by (simp add: mark_reversed_def)
    moreover have "?mark x \<in> set (map ?mark (papers d1))" unfolding set_map by (rule imageI [OF x(1)])
    ultimately show ?thesis unfolding reverse_effect(2) [OF inv reversed] number_used_def by (rule bexI)
  qed (use used in simp)
  then show ?case using purchasing_step_keeps [OF inv step.hyps(2)] by (simp add: number_used_papers)
qed (use assms(2,3) in simp)

lemma used_number_not_posted:
  assumes p: "prepare_purchase_receipt L (purchase_host.truncate H) dto = Inr p" and n: "truthy (pr_invoice_number p)"
    and used: "number_used tenant (rd_supplier_id dto) (pr_invoice_number p) (ps_invoices d)"
    and run: "receive L q H C tenant user dto d = Inr (row, d')"
  shows "d' = d"
proof (rule receiveE [OF run])
  fix p' t assume p': "prepare_purchase_receipt L (purchase_host.truncate H) dto = Inr p'"
    and none: "find_replay tenant p' (rd_supplier_id dto) d = Inr None"
  have "p' = p" using p p' by simp
  then have "\<forall>i \<in> set (ps_invoices d). \<not> (pu_tenant i = tenant \<and> (pu_key i = pr_idempotency_key p
      \<or> (truthy (pr_invoice_number p) \<and> pu_supplier i = rd_supplier_id dto \<and> pu_normalized i = pr_invoice_number p)))"
    using none by (auto simp: find_replay_def find_None_set result_simps split: option.splits)
  then show ?thesis using used n by (auto simp: number_used_def)
qed

end
