(* ===== verification/Purchasing_Lots.thy ===== *)
theory Purchasing_Lots
  imports Purchasing_Runs
begin

text \<open>
  The abstract specification of the purchasing workflows: goods are lots, one for each line of a
  receipt, that are delivered, sent back piece by piece, or undone as long as nothing was sent back.
  The specification knows no keys, ledgers, costs or audits. What the service does is a step of it or
  leaves the goods as they are.
\<close>

section \<open>The specification\<close>

record lot =
  lo_line :: id
  lo_receipt :: id
  lo_branch :: id
  lo_variant :: id
  lo_qty :: int
  lo_back :: int
  lo_open :: bool

record goods =
  gd_units :: "id \<Rightarrow> id \<Rightarrow> int"
  gd_lots :: "lot list"

definition lots_units :: "(lot \<Rightarrow> int) \<Rightarrow> lot list \<Rightarrow> id \<Rightarrow> id \<Rightarrow> int" where
  "lots_units n ls b v = (\<Sum>x\<leftarrow>filter (\<lambda>x. lo_branch x = b \<and> lo_variant x = v) ls. n x)"

inductive goods_step :: "goods \<Rightarrow> goods \<Rightarrow> bool" where
  deliver:
    "\<forall>x \<in> set ls. lo_open x \<and> lo_back x = 0 \<and> 0 < lo_qty x \<and> lo_receipt x = r \<Longrightarrow>
     r \<notin> lo_receipt ` set (gd_lots g) \<Longrightarrow> distinct (map lo_line (gd_lots g @ ls)) \<Longrightarrow>
     goods_step g \<lparr>gd_units = (\<lambda>b v. gd_units g b v + lots_units lo_qty ls b v), gd_lots = gd_lots g @ ls\<rparr>"
| send_back:
    "\<forall>x \<in> set (gd_lots g). u (lo_line x) = 0
       \<or> 0 < u (lo_line x) \<and> lo_receipt x = r \<and> lo_open x \<and> lo_back x + u (lo_line x) \<le> lo_qty x \<Longrightarrow>
     goods_step g \<lparr>gd_units = (\<lambda>b v. gd_units g b v - lots_units (\<lambda>x. u (lo_line x)) (gd_lots g) b v),
                   gd_lots = map (\<lambda>x. x\<lparr>lo_back := lo_back x + u (lo_line x)\<rparr>) (gd_lots g)\<rparr>"
| undo:
    "\<forall>x \<in> set (gd_lots g). lo_receipt x = r \<longrightarrow> lo_open x \<and> lo_back x = 0 \<Longrightarrow>
     goods_step g \<lparr>gd_units = (\<lambda>b v. gd_units g b v - lots_units lo_qty (filter (\<lambda>x. lo_receipt x = r) (gd_lots g)) b v),
                   gd_lots = map (\<lambda>x. if lo_receipt x = r then x\<lparr>lo_open := False\<rparr> else x) (gd_lots g)\<rparr>"

text \<open>
  What the specification promises: no lot gives back more than came in, nothing comes back from an
  undone lot, and the units beyond what the open lots hold never change.
\<close>

definition goods_ok :: "goods \<Rightarrow> bool" where
  "goods_ok g \<longleftrightarrow> distinct (map lo_line (gd_lots g))
     \<and> (\<forall>x \<in> set (gd_lots g). 0 \<le> lo_back x \<and> lo_back x \<le> lo_qty x \<and> (lo_open x \<or> lo_back x = 0))"

definition held :: "lot \<Rightarrow> int" where
  "held x = (if lo_open x then lo_qty x - lo_back x else 0)"

definition beyond_lots :: "goods \<Rightarrow> id \<Rightarrow> id \<Rightarrow> int" where
  "beyond_lots g b v = gd_units g b v - lots_units held (gd_lots g) b v"

lemma lots_units_append: "lots_units n (ls @ ks) b v = lots_units n ls b v + lots_units n ks b v"
  by (simp add: lots_units_def)

lemma lots_units_Nil [simp]: "lots_units n [] b v = 0"
  by (simp add: lots_units_def)

lemma lots_units_Cons: "lots_units n (x # ls) b v = (if lo_branch x = b \<and> lo_variant x = v then n x else 0) + lots_units n ls b v"
  by (simp add: lots_units_def)

lemma lots_units_cong: "(\<And>x. x \<in> set ls \<Longrightarrow> n x = m x) \<Longrightarrow> lots_units n ls b v = lots_units m ls b v"
  unfolding lots_units_def by (rule arg_cong [where f = sum_list]) (auto intro: map_cong)

lemma goods_step_ok:
  assumes "goods_step g h" and "goods_ok g"
  shows "goods_ok h \<and> beyond_lots h b v = beyond_lots g b v"
  using assms
proof cases
  case (deliver ls r)
  have "lots_units held ls b v = lots_units lo_qty ls b v" by (rule lots_units_cong) (use deliver(2) in \<open>simp add: held_def\<close>)
  then show ?thesis using assms(2) deliver by (auto simp: goods_ok_def beyond_lots_def lots_units_append)
next
  case (send_back u r)
  let ?more = "\<lambda>x. x\<lparr>lo_back := lo_back x + u (lo_line x)\<rparr>"
  have "lots_units held (map ?more ls) b v = lots_units held ls b v - lots_units (\<lambda>x. u (lo_line x)) ls b v"
    if "\<forall>x \<in> set ls. u (lo_line x) = 0 \<or> lo_open x" for ls
    using that by (induction ls) (auto simp: lots_units_Cons held_def)
  moreover have "\<forall>x \<in> set (gd_lots g). u (lo_line x) = 0 \<or> lo_open x" using send_back(2) by blast
  ultimately have "beyond_lots h b v = beyond_lots g b v" by (simp add: send_back(1) beyond_lots_def)
  moreover have "goods_ok h"
    unfolding goods_ok_def
  proof (intro conjI ballI)
    show "distinct (map lo_line (gd_lots h))" using assms(2) by (simp add: send_back(1) goods_ok_def comp_def)
    fix y assume "y \<in> set (gd_lots h)"
    then obtain x where "x \<in> set (gd_lots g)" "y = ?more x" by (auto simp: send_back(1))
    then show "0 \<le> lo_back y" "lo_back y \<le> lo_qty y" "lo_open y \<or> lo_back y = 0"
      using assms(2) send_back(2) by (fastforce simp: goods_ok_def)+
  qed
  ultimately show ?thesis by simp
next
  case (undo r)
  let ?close = "\<lambda>x. if lo_receipt x = r then x\<lparr>lo_open := False\<rparr> else x"
  have "lots_units held (map ?close ls) b v = lots_units held ls b v - lots_units lo_qty (filter (\<lambda>x. lo_receipt x = r) ls) b v"
    if "\<forall>x \<in> set ls. lo_receipt x = r \<longrightarrow> lo_open x \<and> lo_back x = 0" for ls
    using that by (induction ls) (auto simp: lots_units_Cons held_def)
  from this [of "gd_lots g"] undo(2) have "beyond_lots h b v = beyond_lots g b v" by (simp add: undo(1) beyond_lots_def)
  moreover have "map lo_line (gd_lots h) = map lo_line (gd_lots g)" by (simp add: undo(1) comp_def if_distrib cong: if_cong)
  moreover have "\<forall>y \<in> set (gd_lots h). 0 \<le> lo_back y \<and> lo_back y \<le> lo_qty y \<and> (lo_open y \<or> lo_back y = 0)"
    using assms(2) undo(2) by (auto simp: goods_ok_def undo(1))
  ultimately show ?thesis using assms(2) by (simp add: goods_ok_def)
qed

lemma goods_run_ok:
  assumes "goods_step\<^sup>*\<^sup>* g h" and "goods_ok g"
  shows "goods_ok h \<and> beyond_lots h b v = beyond_lots g b v"
  using assms(1)
proof (induction rule: rtranclp_induct)
  case (step h1 h2)
  then show ?case using goods_step_ok [of h1 h2 b v] by simp
qed (use assms(2) in simp)

section \<open>The abstraction\<close>

definition lot_of :: "(id \<Rightarrow> int) \<Rightarrow> purchase_row \<Rightarrow> purchase_line \<Rightarrow> lot" where
  "lot_of taken i l =
     \<lparr>lo_line = li_id l, lo_receipt = pu_id i, lo_branch = pu_branch i, lo_variant = li_variant l, lo_qty = li_qty l,
      lo_back = taken (li_id l), lo_open = (pu_status i = ''posted'')\<rparr>"

definition lots_of :: "(id \<Rightarrow> int) \<Rightarrow> purchase_row list \<Rightarrow> lot list" where
  "lots_of taken ps = concat (map (\<lambda>i. map (lot_of taken i) (pu_lines i)) ps)"

definition taken_back :: "('a purchasing_db_scheme) \<Rightarrow> id \<Rightarrow> int" where
  "taken_back d k = fst (line_taken k d)"

definition goods_of :: "('a purchasing_db_scheme) \<Rightarrow> goods" where
  "goods_of d = \<lparr>gd_units = on_hand d, gd_lots = lots_of (taken_back d) (ps_invoices d)\<rparr>"

lemma lot_of_fields [simp]:
  "lo_line (lot_of t i l) = li_id l" "lo_receipt (lot_of t i l) = pu_id i" "lo_branch (lot_of t i l) = pu_branch i"
  "lo_variant (lot_of t i l) = li_variant l" "lo_qty (lot_of t i l) = li_qty l" "lo_back (lot_of t i l) = t (li_id l)"
  "lo_open (lot_of t i l) = (pu_status i = ''posted'')"
  by (simp_all add: lot_of_def)

lemma lot_of_bare [simp]: "lot_of t (bare i) (bare_line l) = lot_of t i l"
  by (simp add: lot_of_def)

lemma lots_of_papers: "lots_of t (ps_invoices d) = lots_of t (papers d)"
  by (simp add: lots_of_def papers_def comp_def)

lemma lots_of_back:
  assumes "\<And>k. t' k = t k + u k"
  shows "lots_of t' ps = map (\<lambda>x. x\<lparr>lo_back := lo_back x + u (lo_line x)\<rparr>) (lots_of t ps)"
proof -
  have "lot_of t' i = (\<lambda>l. (lot_of t i l)\<lparr>lo_back := lo_back (lot_of t i l) + u (lo_line (lot_of t i l))\<rparr>)" for i
    by (rule ext) (simp add: lot_of_def assms)
  then show ?thesis by (simp add: lots_of_def map_concat comp_def)
qed

lemma lots_of_append: "lots_of t (ps @ qs) = lots_of t ps @ lots_of t qs"
  by (simp add: lots_of_def)

lemma lots_of_elem: "x \<in> set (lots_of t ps) \<longleftrightarrow> (\<exists>i \<in> set ps. \<exists>l \<in> set (pu_lines i). x = lot_of t i l)"
  by (auto simp: lots_of_def)

lemma lots_of_line: "map lo_line (lots_of t ps) = map li_id (concat (map pu_lines ps))"
  by (simp add: lots_of_def map_concat comp_def)

lemma lots_of_one: "lots_units lo_qty (lots_of t [i]) b v = (if b = pu_branch i then units_of li_variant li_qty (pu_lines i) v else 0)"
proof -
  have "lots_units lo_qty (map (lot_of t i) ls) b v = (if b = pu_branch i then units_of li_variant li_qty ls v else 0)" for ls
    by (induction ls) (simp_all add: lots_units_Cons units_of_def)
  then show ?thesis by (simp add: lots_of_def)
qed

text \<open>A line identifier belongs to one line of one receipt.\<close>

lemma line_owner:
  assumes "distinct (map li_id (concat (map pu_lines ps)))" and "i \<in> set ps" and "j \<in> set ps"
    and "l \<in> set (pu_lines i)" and "k \<in> set (pu_lines j)" and "li_id l = li_id k"
  shows "i = j \<and> l = k"
  using assms
proof (induction ps)
  case (Cons p ps)
  have apart: "li_id x \<noteq> li_id y" if "x \<in> set (pu_lines p)" "q \<in> set ps" "y \<in> set (pu_lines q)" for x y q
    using Cons.prems(1) that by (fastforce simp: distinct_append)
  have one: "x = y" if "x \<in> set (pu_lines p)" "y \<in> set (pu_lines p)" "li_id x = li_id y" for x y
    using Cons.prems(1) that by (auto simp: distinct_map inj_on_def)
  show ?case
  proof (cases "i = p"; cases "j = p")
    assume "i \<noteq> p" "j \<noteq> p"
    then show ?thesis using Cons by auto
  next
    assume "i = p" "j \<noteq> p"
    then show ?thesis using Cons.prems apart [of l j k] by auto
  next
    assume "i \<noteq> p" "j = p"
    then show ?thesis using Cons.prems apart [of k i l] by auto
  qed (use Cons.prems one in auto)
qed simp

lemma papers_owner:
  assumes "purchasing_inv d" and "i \<in> set (papers d)" and "j \<in> set (papers d)"
    and "l \<in> set (pu_lines i)" and "k \<in> set (pu_lines j)" and "li_id l = li_id k"
  shows "i = j \<and> l = k"
  by (rule line_owner [OF _ assms(2-6)]) (use assms(1) in \<open>simp add: purchasing_inv_def papers_ok_def\<close>)


lemma untaken_line:
  assumes "\<forall>r \<in> set (ps_returns d). \<forall>x \<in> set (su_lines r). sx_line x \<noteq> k"
  shows "taken_back d k = 0"
proof -
  have "returns_of_line k d = []" using assms by (auto simp: returns_of_line_def filter_empty_conv)
  then show ?thesis by (simp add: taken_back_def line_taken_def)
qed

section \<open>The simulation\<close>

lemma received_simulates:
  assumes inv: "purchasing_inv d" and run: "post_purchase q H C tenant user dto p t d = Inr (row, d')"
  shows "goods_step (goods_of d) (goods_of d')"
proof -
  let ?i = "bare (purchase_of H C tenant user dto p t)"
  note e = receive_effect [OF inv run]
  have taken: "taken_back d' = taken_back d" by (rule ext) (simp add: taken_back_def line_taken_same [OF e(3)])
  have ok: "papers_ok (papers d @ [?i])" using e(1,2) by (simp add: purchasing_inv_def)
  have lots: "gd_lots (goods_of d') = gd_lots (goods_of d) @ lots_of (taken_back d) [?i]"
    by (simp add: goods_of_def lots_of_papers e(2) lots_of_append taken)
  have i: "pu_status ?i = ''posted''" "pu_branch ?i = rd_branch_id dto" by (simp_all add: purchase_of_def)
  have "on_hand d' b v = on_hand d b v + lots_units lo_qty (lots_of (taken_back d) [?i]) b v" for b v
    using e(4) [of b v] by (simp add: lots_of_one i(2) invoice_lines_units del: bare_fields(4))
  then have g: "goods_of d' = \<lparr>gd_units = (\<lambda>b v. gd_units (goods_of d) b v + lots_units lo_qty (lots_of (taken_back d) [?i]) b v),
      gd_lots = gd_lots (goods_of d) @ lots_of (taken_back d) [?i]\<rparr>"
    using lots by (simp add: goods_of_def fun_eq_iff)
  have new: "taken_back d (li_id l) = 0" if l: "l \<in> set (pu_lines ?i)" for l
  proof (rule untaken_line, intro ballI notI)
    fix r x assume r: "r \<in> set (ps_returns d)" "x \<in> set (su_lines r)" "sx_line x = li_id l"
    have "belongs (papers d) r" using inv r(1) by (simp add: purchasing_inv_def returns_booked_def)
    then have "li_id l \<in> set (map li_id (concat (map pu_lines (papers d))))"
      using belongs_line [of d r x] r(2,3) unfolding papers_lines by simp
    moreover have "distinct (map li_id (concat (map pu_lines (papers d))) @ map li_id (pu_lines ?i))"
      using ok by (simp add: papers_ok_def del: bare_fields)
    ultimately show False using l unfolding distinct_append by (metis disjoint_iff image_eqI set_map)
  qed
  show ?thesis
    unfolding g
  proof (rule deliver)
    show "\<forall>x \<in> set (lots_of (taken_back d) [?i]). lo_open x \<and> lo_back x = 0 \<and> 0 < lo_qty x \<and> lo_receipt x = pu_id ?i"
    proof
      fix x assume "x \<in> set (lots_of (taken_back d) [?i])"
      then obtain l where l: "l \<in> set (pu_lines ?i)" "x = lot_of (taken_back d) ?i l" by (auto simp: lots_of_elem simp del: bare_fields)
      moreover have "line_columns_ok l" using ok l(1) by (simp add: papers_ok_def list_all_iff del: bare_fields)
      ultimately show "lo_open x \<and> lo_back x = 0 \<and> 0 < lo_qty x \<and> lo_receipt x = pu_id ?i"
        using new i(1) by (simp add: line_columns_ok_def del: bare_fields)
    qed
    show "pu_id ?i \<notin> lo_receipt ` set (gd_lots (goods_of d))"
      using ok by (auto simp: papers_ok_def goods_of_def lots_of_papers lots_of_elem simp del: bare_fields)
    show "distinct (map lo_line (gd_lots (goods_of d) @ lots_of (taken_back d) [?i]))"
      using ok by (simp add: goods_of_def lots_of_papers lots_of_append [symmetric] lots_of_line papers_ok_def del: bare_fields)
  qed
qed

text \<open>The units a return takes from each line, summed over the lots of a variant.\<close>

definition returned_of :: "supplier_return_line list \<Rightarrow> id \<Rightarrow> int" where
  "returned_of xs k = (\<Sum>x\<leftarrow>filter (\<lambda>x. sx_line x = k) xs. sx_qty x)"

lemma lots_units_one:
  assumes "distinct (map lo_line ls)" and "y \<in> set ls"
  shows "lots_units (\<lambda>x. if lo_line x = lo_line y then n else 0) ls b v = (if lo_branch y = b \<and> lo_variant y = v then n else 0)"
  using assms
proof (induction ls)
  case (Cons x ls)
  have none: "lots_units (\<lambda>x. if lo_line x = k then n else 0) ls b v = 0" if "k \<notin> lo_line ` set ls" for k
    using that by (induction ls) (auto simp: lots_units_Cons)
  show ?case
  proof (cases "x = y")
    case True
    then show ?thesis using Cons.prems none [of "lo_line y"] by (simp add: lots_units_Cons)
  next
    case False
    then have "y \<in> set ls" "lo_line x \<noteq> lo_line y" using Cons.prems by auto
    then show ?thesis using Cons by (simp add: lots_units_Cons)
  qed
qed simp

lemma lots_units_plus: "lots_units (\<lambda>x. n x + m x) ls b v = lots_units n ls b v + lots_units m ls b v"
  by (induction ls) (simp_all add: lots_units_Cons)

lemma lots_units_returned:
  assumes "distinct (map lo_line ls)" and "\<forall>x \<in> set xs. \<exists>y \<in> set ls. lo_line y = sx_line x \<and> lo_branch y = c \<and> lo_variant y = sx_variant x"
  shows "lots_units (\<lambda>y. returned_of xs (lo_line y)) ls b v = (if b = c then units_of sx_variant sx_qty xs v else 0)"
  using assms(2)
proof (induction xs)
  case Nil
  have "lots_units (\<lambda>y. 0) ls b v = 0" by (induction ls) (simp_all add: lots_units_Cons)
  then show ?case by (simp add: returned_of_def units_of_def)
next
  case (Cons x xs)
  obtain y where y: "y \<in> set ls" "lo_line y = sx_line x" "lo_branch y = c" "lo_variant y = sx_variant x" using Cons.prems by auto
  have "returned_of (x # xs) k = (if k = lo_line y then sx_qty x else 0) + returned_of xs k" for k
    by (simp add: returned_of_def y(2))
  then have "lots_units (\<lambda>y. returned_of (x # xs) (lo_line y)) ls b v
      = lots_units (\<lambda>z. if lo_line z = lo_line y then sx_qty x else 0) ls b v + lots_units (\<lambda>y. returned_of xs (lo_line y)) ls b v"
    by (simp add: lots_units_plus)
  then show ?case using lots_units_one [OF assms(1) y(1)] Cons y(3,4) by (auto simp: units_of_def)
qed


lemma returned_line:
  assumes "list_all2 (\<lambda>request x. \<exists>y. return_line_of L i d request y \<and> sx_line x = sx_line y \<and> sx_qty x = sx_qty y \<and> sx_credit x = sx_credit y)
             items xs" and "x \<in> set xs"
  shows "\<exists>l \<in> set (pu_lines i). sx_line x = li_id l \<and> 0 < sx_qty x \<and> taken_back d (li_id l) + sx_qty x \<le> li_qty l"
proof -
  obtain k where k: "k < length xs" "xs ! k = x" using assms(2) by (auto simp: in_set_conv_nth)
  then obtain y where y: "return_line_of L i d (items ! k) y" "sx_line x = sx_line y" "sx_qty x = sx_qty y"
    using assms(1) by (auto simp: list_all2_conv_all_nth)
  then obtain l c where l: "l \<in> set (pu_lines i)" "sx_line x = li_id l"
    and c: "calculate_supplier_return_credit L (li_qty l) (line_credit L l) (fst (line_taken (li_id l) d)) (snd (line_taken (li_id l) d))
                 (sx_qty x) (unit_credit l) = Inr c"
    unfolding return_line_of_def by metis
  then show ?thesis by (intro bexI [of _ l]) (auto simp: calculate_supplier_return_credit_def Let_def result_simps taken_back_def)
qed

lemma returned_simulates:
  assumes inv: "purchasing_inv d" and dist: "distinct (map fst items)" and ne: "items \<noteq> []"
    and run: "post_supplier_return L q C tenant user purchase key fingerprint reason t items d = Inr (r, d')"
  shows "goods_step (goods_of d) (goods_of d')"
proof -
  note e = return_effect [OF inv ne run]
  let ?u = "returned_of (su_lines r)"
  obtain i where i: "i \<in> set (ps_invoices d)" "pu_status i = ''posted''" "pu_id i = su_purchase r" "pu_branch i = su_branch r"
    and l2: "list_all2 (\<lambda>request x. \<exists>y. return_line_of L i d request y
      \<and> sx_line x = sx_line y \<and> sx_qty x = sx_qty y \<and> sx_credit x = sx_credit y) items (su_lines r)"
    using e(5) by blast
  have bi: "bare i \<in> set (papers d)" using i(1) by (auto simp: papers_elem)
  have "map sx_line (su_lines r) = map fst items"
    using l2 by (auto simp: list_all2_conv_all_nth list_eq_iff_nth_eq return_line_of_def)
  then have lines: "distinct (map sx_line (su_lines r))" using dist by simp
  have u: "?u (sx_line x) = sx_qty x" if "x \<in> set (su_lines r)" for x
    using filter_distinct [OF lines that] by (simp add: returned_of_def)
  have u0: "?u k = 0" if "k \<notin> sx_line ` set (su_lines r)" for k
  proof -
    have "filter (\<lambda>x. sx_line x = k) (su_lines r) = []" using that by (auto simp: filter_empty_conv)
    then show ?thesis by (simp add: returned_of_def)
  qed
  have taken: "taken_back d' k = taken_back d k + ?u k" for k
    by (simp add: taken_back_def line_taken_append [OF e(3)] returned_of_def)
  have ok: "distinct (map lo_line (gd_lots (goods_of d)))"
    using inv by (simp add: goods_of_def lots_of_papers lots_of_line purchasing_inv_def papers_ok_def)
  have lots: "gd_lots (goods_of d') = map (\<lambda>x. x\<lparr>lo_back := lo_back x + ?u (lo_line x)\<rparr>) (gd_lots (goods_of d))"
    by (simp add: goods_of_def lots_of_papers e(2) lots_of_back [of "taken_back d'", OF taken])
  have belongs': "belongs (papers d) r" using e(1,2,3) by (simp add: purchasing_inv_def returns_booked_def)
  have "\<exists>y \<in> set (gd_lots (goods_of d)). lo_line y = sx_line x \<and> lo_branch y = su_branch r \<and> lo_variant y = sx_variant x"
    if x: "x \<in> set (su_lines r)" for x
  proof -
    obtain j l where "j \<in> set (papers d)" "pu_branch j = su_branch r" "l \<in> set (pu_lines j)" "li_id l = sx_line x" "li_variant l = sx_variant x"
      using belongs' x unfolding belongs_def by blast
    then show ?thesis by (intro bexI [of _ "lot_of (taken_back d) j l"]) (auto simp: goods_of_def lots_of_papers lots_of_elem)
  qed
  then have "\<forall>x \<in> set (su_lines r). \<exists>y \<in> set (gd_lots (goods_of d)).
      lo_line y = sx_line x \<and> lo_branch y = su_branch r \<and> lo_variant y = sx_variant x" by blast
  note units = lots_units_returned [OF ok this]
  have "on_hand d' b v = on_hand d b v - lots_units (\<lambda>x. ?u (lo_line x)) (gd_lots (goods_of d)) b v" for b v
    using e(4) [of b v] units [of b v] by simp
  then have g: "goods_of d' = \<lparr>gd_units = (\<lambda>b v. gd_units (goods_of d) b v - lots_units (\<lambda>x. ?u (lo_line x)) (gd_lots (goods_of d)) b v),
      gd_lots = map (\<lambda>x. x\<lparr>lo_back := lo_back x + ?u (lo_line x)\<rparr>) (gd_lots (goods_of d))\<rparr>"
    using lots by (simp add: goods_of_def fun_eq_iff)
  show ?thesis
    unfolding g
  proof (rule send_back, intro ballI)
    fix y assume "y \<in> set (gd_lots (goods_of d))"
    then obtain j k where y: "j \<in> set (papers d)" "k \<in> set (pu_lines j)" "y = lot_of (taken_back d) j k"
      by (auto simp: goods_of_def lots_of_papers lots_of_elem)
    show "?u (lo_line y) = 0
        \<or> 0 < ?u (lo_line y) \<and> lo_receipt y = su_purchase r \<and> lo_open y \<and> lo_back y + ?u (lo_line y) \<le> lo_qty y"
    proof (cases "li_id k \<in> sx_line ` set (su_lines r)")
      case True
      then obtain x where x: "x \<in> set (su_lines r)" "sx_line x = li_id k" by auto
      obtain l where l: "l \<in> set (pu_lines i)" "sx_line x = li_id l" "0 < sx_qty x" "taken_back d (li_id l) + sx_qty x \<le> li_qty l"
        using returned_line [OF l2 x(1)] by blast
      have "bare_line l \<in> set (pu_lines (bare i))" using l(1) by simp
      from papers_owner [OF inv y(1) bi y(2) this] l(2) x(2) have "j = bare i" "k = bare_line l" by simp_all
      then show ?thesis using l u [OF x(1)] x(2) i y(3) by simp
    qed (use u0 y(3) in simp)
  qed
qed

lemma reversed_simulates:
  assumes inv: "purchasing_inv d" and f: "find (\<lambda>x. pu_id x = purchase \<and> pu_tenant x = tenant) (ps_invoices d) = Some i"
    and st: "pu_status i = ''posted''" and loop: "fold_result (reverse_line q C tenant user i) (pu_lines i) d = Inr d1"
    and d': "d' = purchase_audit tenant user ''purchase.receipt.reversed'' ''PurchaseInvoice'' (pu_id i)
             (d1\<lparr>ps_invoices := map (\<lambda>x. if pu_id x = pu_id i then mark_reversed C user key fingerprint reason x else x) (ps_invoices d1)\<rparr>)"
  shows "goods_step (goods_of d) (goods_of d')"
proof -
  let ?mark = "mark_reversed C user key fingerprint reason"
  note e = reverse_effect [OF inv f st loop d']
  have bi: "bare i \<in> set (papers d)" using find_Some_iff_set [OF f] by (auto simp: papers_elem)
  have ids: "distinct (map pu_id (papers d))" using inv by (simp add: purchasing_inv_def papers_ok_def)
  have only: "j = bare i" if "j \<in> set (papers d)" "pu_id j = pu_id i" for j
    using ids that bi by (auto simp: distinct_map inj_on_def)
  have taken: "taken_back d' = taken_back d" by (rule ext) (simp add: taken_back_def line_taken_same [OF e(3)])
  have marked: "pu_lines (?mark j) = pu_lines j" "lot_of t (?mark j) l = (lot_of t j l)\<lparr>lo_open := False\<rparr>" for j t l
    by (simp_all add: mark_reversed_def lot_of_def)
  have lots_map: "lots_of t (map (\<lambda>x. if pu_id x = pu_id i then ?mark x else x) ps)
      = map (\<lambda>x. if lo_receipt x = pu_id i then x\<lparr>lo_open := False\<rparr> else x) (lots_of t ps)" for t ps
    by (induction ps) (auto simp: lots_of_def marked)
  have lots: "gd_lots (goods_of d') = map (\<lambda>x. if lo_receipt x = pu_id i then x\<lparr>lo_open := False\<rparr> else x) (gd_lots (goods_of d))"
    by (simp add: goods_of_def lots_of_papers e(2) lots_map taken)
  have mine: "filter (\<lambda>x. lo_receipt x = pu_id i) (lots_of t ps) = lots_of t (filter (\<lambda>j. pu_id j = pu_id i) ps)" for t ps
    by (induction ps) (auto simp: lots_of_def filter_empty_conv)
  have "filter (\<lambda>j. pu_id j = pu_id i) (papers d) = [bare i]" using filter_distinct [OF ids bi] by simp
  then have one: "filter (\<lambda>x. lo_receipt x = pu_id i) (gd_lots (goods_of d)) = lots_of (taken_back d) [bare i]"
    by (simp add: goods_of_def lots_of_papers mine)
  have "on_hand d' b v = on_hand d b v - lots_units lo_qty (lots_of (taken_back d) [bare i]) b v" for b v
    using e(4) [of b v] by (simp add: lots_of_one)
  then have g: "goods_of d' = \<lparr>gd_units = (\<lambda>b v. gd_units (goods_of d) b v
          - lots_units lo_qty (filter (\<lambda>x. lo_receipt x = pu_id i) (gd_lots (goods_of d))) b v),
      gd_lots = map (\<lambda>x. if lo_receipt x = pu_id i then x\<lparr>lo_open := False\<rparr> else x) (gd_lots (goods_of d))\<rparr>"
    using lots one by (simp add: goods_of_def fun_eq_iff)
  have none: "taken_back d (li_id l) = 0" if l: "l \<in> set (pu_lines (bare i))" for l
  proof (rule untaken_line, intro ballI notI)
    fix r x assume r: "r \<in> set (ps_returns d)" "x \<in> set (su_lines r)" "sx_line x = li_id l"
    have "belongs (papers d) r" using inv r(1) by (simp add: purchasing_inv_def returns_booked_def)
    then obtain j k where j: "j \<in> set (papers d)" "pu_id j = su_purchase r" "k \<in> set (pu_lines j)" "li_id k = sx_line x"
      using r(2) unfolding belongs_def by blast
    from papers_owner [OF inv j(1) bi j(3) l] j(4) r(3) have "j = bare i" by simp
    then have "su_purchase r = pu_id i" using j(2) by simp
    then show False using e(5) r(1) by blast
  qed
  show ?thesis
    unfolding g
  proof (rule undo, intro ballI impI)
    fix x assume "x \<in> set (gd_lots (goods_of d))" "lo_receipt x = pu_id i"
    then obtain j k where j: "j \<in> set (papers d)" "k \<in> set (pu_lines j)" "x = lot_of (taken_back d) j k" "pu_id j = pu_id i"
      by (auto simp: goods_of_def lots_of_papers lots_of_elem)
    then show "lo_open x \<and> lo_back x = 0" using only [OF j(1,4)] none st by simp
  qed
qed

lemma step_simulates:
  assumes inv: "purchasing_inv d" and step: "purchasing_step L q H d d'"
  shows "goods_step\<^sup>*\<^sup>* (goods_of d) (goods_of d')"
  using step
proof (cases rule: purchasing_step_cases)
  case (received C tenant user dto p t row)
  show ?thesis by (rule r_into_rtranclp) (rule received_simulates [OF inv received])
next
  case (returned C tenant user purchase key fingerprint reason t items r)
  show ?thesis by (rule r_into_rtranclp) (rule returned_simulates [OF inv returned])
next
  case (reversed C tenant user purchase i key fingerprint reason d1)
  show ?thesis by (rule r_into_rtranclp) (rule reversed_simulates [OF inv reversed])
qed simp

lemma run_simulates:
  assumes "purchasing_run L q H d d'" and "purchasing_inv d"
  shows "goods_step\<^sup>*\<^sup>* (goods_of d) (goods_of d')"
  using assms(1)
proof (induction rule: rtranclp_induct)
  case (step d1 d2)
  have "purchasing_inv d1" using run_keeps [OF step.hyps(1) assms(2)] by blast
  from step_simulates [OF this step.hyps(2)] step.IH show ?case by simp
qed simp

end
