(* ===== verification/Purchasing_Properties.thy ===== *)
theory Purchasing_Properties
  imports Purchasing_Lots
begin

text \<open>
  What the purchasing workflows promise: the stock follows the documents, credits stay within the
  lines, reversing a receipt undoes it; and two receipts the code cannot post. The examples run one
  depot of six units through a receipt, a supplier return and a reversal.
\<close>

section \<open>An example depot\<close>

definition depot_variant :: variant_row where
  "depot_variant =
     \<lparr>pv_id = ''v'', pv_product = ''p'', pv_cost_price = 2, pv_tax_category = None, pv_product_category = None,
      pv_product_brand = None, pv_product_tax_category = None, va_tenant = ''t'', va_product_tenant = ''t'', va_active = True,
      va_product_active = True, va_return_count = 0, va_qa_flag = False\<rparr>"

definition depot :: "int \<Rightarrow> purchasing_db" where
  "depot n =
     \<lparr>stock = [(''b'', ''v'') \<mapsto> \<lparr>qty_on_hand = n, qty_reserved = 0, last_sold_at = None, stock_tenant = ''t''\<rparr>],
      movements = [], rt_branches = [\<lparr>br_id = ''b'', br_tenant = ''t'', br_code = ''B'', br_active = True\<rparr>],
      rt_variants = [depot_variant], rt_in_transit = (\<lambda>_. 0), rt_costs = [], rt_audits = [],
      ps_suppliers = [\<lparr>sp_id = ''s'', sp_tenant = ''t''\<rparr>], ps_invoices = [], ps_returns = []\<rparr>"

definition depot_host :: purchasing_host where
  "depot_host = purchase_host.extend plain_host
     \<lparr>pc_text = plain_numbers, pc_sha256 = (\<lambda>s. s), pc_date = (\<lambda>s. None), pc_iso = (\<lambda>t. [])\<rparr>"

definition depot_call :: "char \<Rightarrow> purchase_call" where
  "depot_call c = \<lparr>pc_now = 0, pc_uuid = (\<lambda>n. c # replicate n CHR ''x'')\<rparr>"

definition depot_keeper :: actor where
  "depot_keeper = \<lparr>ac_sub = ''w'', ac_role = Warehouse_Manager, ac_branch = None\<rparr>"

definition depot_receipt :: receipt_dto where
  "depot_receipt =
     \<lparr>rd_command_id = None, rd_supplier_id = ''s'', rd_branch_id = ''b'', rd_invoice_number = Some ''7'',
      rd_invoice_date = None, rd_received_at = None, rd_discount_amount = None, rd_discount_percent = None,
      rd_ocr_source_file = None, rd_items = [\<lparr>ri_variant = ''v'', ri_qty = 4, ri_unit_cost = 7\<rparr>]\<rparr>"

definition depot_line :: prepared_line where
  "depot_line = \<lparr>pl_variant = ''v'', pl_qty = 4, pl_unit_cost = 7, pl_line_subtotal = 28, pl_allocated_discount = 0,
     pl_net_line_total = 28, pl_net_unit_cost = 7\<rparr>"

definition depot_prepared :: prepared_receipt where
  "depot_prepared =
     \<lparr>pr_invoice_number = Some ''7'', pr_subtotal = 28, pr_discount = 0, pr_total = 28, pr_lines = [depot_line],
      pr_fingerprint = ''s'', pr_idempotency_key = ''purchase-invoice:s:7''\<rparr>"

lemma depot_prepares: "prepare_purchase_receipt dec_exact (purchase_host.truncate depot_host) depot_receipt = Inr depot_prepared"
proof -
  have t: "purchase_host.truncate depot_host = plain_host" by (simp add: depot_host_def purchase_host.defs plain_host_def)
  let ?agg = "[(''v'', 4, 28)] :: (string \<times> int \<times> rat) list"
  let ?lines = "[\<lparr>rl_variant = ''v'', rl_qty = 4, rl_gross = 28\<rparr>]"
  have agg: "fold_result (aggregate_item dec_exact) (rd_items depot_receipt) [] = Inr ?agg" by code_simp
  have lines: "raw_lines dec_exact plain_host ?agg = ?lines" by code_simp
  have sum: "foldl (\<lambda>s l. dec_plus dec_exact s (rl_gross l)) 0 ?lines = 28" by code_simp
  have sub: "dec_places dec_exact 2 28 = 28" by code_simp
  have disc: "receipt_discount dec_exact depot_receipt 28 = 0" by code_simp
  have alloc: "prepare_lines dec_exact plain_host 28 0 ?lines = [depot_line]" by code_simp
  have total: "dec_places dec_exact 2 (foldl (\<lambda>s l. dec_plus dec_exact s (pl_allocated_discount l)) 0 [depot_line]) = 0"
    "dec_places dec_exact 2 (dec_minus dec_exact 28 0) = 28"
    by code_simp+
  have number: "normalize_supplier_invoice_number plain_host (rd_invoice_number depot_receipt) = Inr (Some ''7'')" by code_simp
  have key: "\<not> truthy (rd_command_id depot_receipt)" "truthy (Some ''7'')" "\<not> discount_is_negative depot_receipt" by code_simp+
  have digest: "receipt_digest plain_host (canonical_of dec_exact plain_host depot_receipt (Some ''7'') 0 [depot_line]) = ''s''"
    by (simp add: plain_host_def canonical_of_def depot_receipt_def)
  have ident: "idempotency_key_of depot_receipt (Some ''7'') ''s'' = ''purchase-invoice:s:7''" by code_simp
  show ?thesis unfolding t
    by (simp only: prepare_purchase_receipt_def agg and_then_simps Let_def lines sum sub disc alloc total number key digest ident depot_prepared_def)
       (simp add: throw_if_def)
qed


lemma round_whole [simp]: "round_places n 0 = 0" "round_places n 1 = 1" "round_places n (numeral k) = numeral k"
    "round_places n (- numeral k) = - numeral k" "round_places n (-1) = -1"
  using has_places_of_int [of n 0] has_places_of_int [of n 1] has_places_of_int [of n "numeral k"] has_places_of_int [of n "- numeral k"] has_places_of_int [of n "-1"]
  by (simp_all add: round_places_id)

lemma dec_ex: "dec_plus dec_exact = (+)" "dec_minus dec_exact = (-)" "dec_mul dec_exact = (*)" "dec_div dec_exact = (/)" "dec_places dec_exact = round_places"
  by (auto simp: dec_exact_def)

lemma trim7: "trim ''7'' = ''7''" by code_simp

lemmas run_simps = Let_def post_purchase_def insert_purchase_def invoice_line_def invoice_columns_ok_def line_columns_ok_def int4_def fits_numeric_def
  all_lines_def or_null_def trim7 post_receipt_line_def upsert_stock_def stock_row_ok_def record_inventory_movement_def receipt_movement_def
  opening_step_def opening_movement_def command_movement_def opening_key_def receipt_key_def movements_at_def receipt_cost_def
  record_purchase_cost_def record_inventory_cost_movement_def global_quantity_def post_cost_def int4_range_def open_costs_def latest_cost_def
  opening_cost_def receipt_cost_key_def next_cost_def incoming_cost_def cost_movement_of_def cost_columns_fit_def set_variant_cost_def
  ledger_on_hand_def ledger_reserved_def store_snapshot_def set_snapshot_def purchase_audit_def purchase_by_id_def


definition depot_lines :: "(int \<times> int \<times> rat \<times> rat) option \<Rightarrow> purchase_line list" where
  "depot_lines snapshot =
     [\<lparr>li_id = ''ax'', li_variant = ''v'', li_qty = 4, li_unit_cost = 7, li_subtotal = Some 28, li_discount = Some 0,
       li_net_total = Some 28, li_net_unit = Some 7, li_snapshot = snapshot\<rparr>]"

definition depot_invoice :: purchase_row where
  "depot_invoice =
     \<lparr>pu_id = ''a'', pu_tenant = ''t'', pu_supplier = ''s'', pu_branch = ''b'', pu_number = Some ''7'', pu_normalized = Some ''7'',
      pu_invoice_date = None, pu_status = ''posted'', pu_version = 2, pu_key = ''purchase-invoice:s:7'', pu_fingerprint = Some ''s'',
      pu_subtotal = 28, pu_discount = 0, pu_percent = 0, pu_total = 28, pu_source = None, pu_received_at = 0,
      pu_created_by = Some ''w'', pu_reversal_key = None, pu_reversal_fingerprint = None, pu_reversal_reason = None,
      pu_reversed_at = None, pu_reversed_by = None, pu_lines = depot_lines (Some (6, 10, 2, 4))\<rparr>"

definition depot_movement :: "movement_type \<Rightarrow> int \<Rightarrow> int \<Rightarrow> movement" where
  "depot_movement kind delta balance =
     \<lparr>mv_branch = ''b'', mv_variant = ''v'', mv_type = kind, mv_on_hand_delta = delta, mv_reserved_delta = 0,
      mv_on_hand_after = balance, mv_reserved_after = 0, mv_reference_type = ''InventoryStock'', mv_reference_id = ''b:v'',
      mv_reference_line = None, mv_key = ''auto-opening:b:v'', mv_occurred_at = 0, mv_created_by = None, mv_tenant = ''t''\<rparr>"

definition depot_cost :: cost_movement where
  "depot_cost =
     \<lparr>cm_variant = ''v'', cm_branch = None, cm_type = Cost_Opening, cm_quantity_delta = 6, cm_quantity_before = 0,
      cm_quantity_after = 6, cm_unit_cost = 2, cm_cost_before = 0, cm_cost_after = 2, cm_value_before = 0, cm_movement_value = 12,
      cm_value_after = 12, cm_rounding = 0, cm_reference_type = ''InventoryStock'', cm_reference_id = ''v'', cm_reference_line = None,
      cm_purchase = None, cm_purchase_item = None, cm_supplier_return = None, cm_supplier_return_item = None,
      cm_key = ''cost-auto-opening:v'', cm_occurred_at = 0, cm_created_by = None, cm_tenant = ''t''\<rparr>"

definition depot_filled :: purchasing_db where
  "depot_filled = (depot 10)
     \<lparr>movements :=
        [depot_movement Opening_Balance 6 6,
         (depot_movement Purchase_Receipt 4 10)
           \<lparr>mv_reference_type := ''PurchaseInvoice'', mv_reference_id := ''a'', mv_reference_line := Some ''ax'',
             mv_key := ''purchase-receipt:ax'', mv_created_by := Some ''w''\<rparr>],
      rt_variants := [depot_variant\<lparr>pv_cost_price := 4\<rparr>],
      rt_costs :=
        [depot_cost,
         depot_cost\<lparr>cm_branch := Some ''b'', cm_type := Cost_Purchase_Receipt, cm_quantity_delta := 4, cm_quantity_before := 6,
           cm_quantity_after := 10, cm_unit_cost := 7, cm_cost_before := 2, cm_cost_after := 4, cm_value_before := 12,
           cm_movement_value := 28, cm_value_after := 40, cm_reference_type := ''PurchaseInvoice'', cm_reference_id := ''a'',
           cm_reference_line := Some ''ax'', cm_purchase := Some ''a'', cm_purchase_item := Some ''ax'', cm_key := ''purchase-cost:ax'',
           cm_created_by := Some ''w''\<rparr>],
      rt_audits := [\<lparr>au_tenant = ''t'', au_user = Some ''w'', au_action = ''purchase.receipt.posted'', au_entity = ''PurchaseInvoice'', au_entity_id = ''a''\<rparr>],
      ps_invoices := [depot_invoice]\<rparr>"

lemma depot_fields [simp]:
  "pc_now (depot_call c) = 0" "pc_uuid (depot_call c) n = c # replicate n CHR ''x''" "ac_sub depot_keeper = ''w''"
  "assert_branch_access depot_keeper b warehouse_roles = Inr ()" "\<not> other_branch depot_keeper b"
  by (simp_all add: depot_call_def depot_keeper_def assert_branch_access_def other_branch_def warehouse_roles_def)

lemmas depot_defs = purchase_of_def depot_def depot_prepared_def depot_receipt_def depot_line_def depot_variant_def
  depot_filled_def depot_invoice_def depot_lines_def depot_movement_def depot_cost_def

lemma depot_posts:
  "post_purchase (\<lambda>a b. a / b) depot_host (depot_call CHR ''a'') ''t'' depot_keeper depot_receipt depot_prepared 0 (depot 6) = Inr (depot_invoice, depot_filled)"
  by (simp add: run_simps depot_defs cong: and_then_weak_cong)

lemma depot_receives:
  "handle_receive dec_exact (\<lambda>a b. a / b) depot_host (depot_call CHR ''a'') ''t'' depot_keeper depot_receipt (depot 6) = Inr (depot_invoice, depot_filled)"
proof -
  have time: "document_time depot_host (depot_call CHR ''a'') (rd_received_at depot_receipt) e = Inr 0" for e
    by (simp add: document_time_def depot_receipt_def depot_call_def truthy_def)
  have none: "find_replay ''t'' depot_prepared (rd_supplier_id depot_receipt) (depot 6) = Inr None" by (simp add: find_replay_def depot_def)
  have dto: "rd_discount_amount depot_receipt = None" by (simp add: depot_receipt_def)
  show ?thesis by (simp add: handle_receive_def receive_def depot_prepares time none depot_posts dto)
qed

definition depot_return :: supplier_return_dto where
  "depot_return = \<lparr>sq_command_id = ''c'', sq_reason = ''r'', sq_occurred_at = None, sq_items = [(''ax'', 1)]\<rparr>"

lemma depot_returns:
  "case handle_return dec_exact (\<lambda>a b. a / b) depot_host (depot_call CHR ''d'') ''t'' depot_keeper ''a'' depot_return depot_filled of
     Inl e \<Rightarrow> False
   | Inr (r, d) \<Rightarrow> on_hand d ''b'' ''v'' = 9 \<and> ps_returns d = [r] \<and> su_credit r = 7 \<and> su_value r = 4
       \<and> ps_invoices d = [depot_invoice] \<and> line_taken ''ax'' d = (1, 7)"
proof -
  have time: "document_time depot_host (depot_call CHR ''d'') (sq_occurred_at depot_return) e = Inr 0" for e
    by (simp add: document_time_def depot_return_def depot_call_def truthy_def)
  have items: "canonical_items depot_host depot_return = Inr [(''ax'', 1)]"
    by (simp add: canonical_items_def depot_return_def add_returned_def safe_int_def max_safe_integer_def js_sort_def Let_def)
  have return_dto: "sq_command_id depot_return = ''c''" by (simp add: depot_return_def)
  have reason: "trim (sq_reason depot_return) = ''r''" by (simp add: depot_return_def) code_simp
  show ?thesis
    by (simp add: handle_return_def get_purchase_def purchase_by_id_def depot_defs return_to_supplier_def reason time items
        return_dto find_return_def post_supplier_return_def prepare_return_line_def line_taken_def returns_of_line_def
        line_credit_def unit_credit_def dec_ex calculate_supplier_return_credit_def safe_int_def max_safe_integer_def
        supplier_return_of_def sum_places_def insert_supplier_return_def return_line_columns_ok_def max_accounting_value_def
        post_return_line_def take_out_def take_unreserved_def supplier_return_movement_def supplier_return_cost_def return_key_def
        run_simps on_hand_def cong: and_then_weak_cong)
qed

definition depot_reversal :: reverse_dto where
  "depot_reversal = \<lparr>rq_command_id = None, rq_reason = ''r''\<rparr>"

lemma depot_reverses:
  "case handle_reverse (\<lambda>a b. a / b) depot_host (depot_call CHR ''d'') ''t'' depot_keeper ''a'' depot_reversal depot_filled of
     Inl e \<Rightarrow> False
   | Inr (i, d) \<Rightarrow> pu_status i = ''reversed'' \<and> ps_invoices d = [i] \<and> on_hand d ''b'' ''v'' = 6
     \<and> pu_tenant i = ''t'' \<and> pu_supplier i = ''s'' \<and> pu_normalized i = Some ''7'' \<and> pu_fingerprint i = Some ''s''"
proof -
  have reversal_dto: "rq_command_id depot_reversal = None" by (simp add: depot_reversal_def)
  have reason: "trim (rq_reason depot_reversal) = ''r''" by (simp add: depot_reversal_def) code_simp
  show ?thesis
    by (simp add: handle_reverse_def get_purchase_def purchase_by_id_def depot_defs reverse_purchase_def reason reversal_dto truthy_def
        reverse_line_def has_downstream_def recorded_after_def take_out_def take_unreserved_def reversal_movement_def reversal_cost_def
        reversal_key_def cost_reversal_key_def store_reversal_def mark_reversed_def run_simps on_hand_def cong: and_then_weak_cong)
qed

lemma depot_stock: "stock (depot n) (b, v) = (if b = ''b'' \<and> v = ''v'' then Some \<lparr>qty_on_hand = n, qty_reserved = 0, last_sold_at = None, stock_tenant = ''t''\<rparr> else None)"
  by (simp add: depot_def)

lemma depot_inv: "purchasing_inv (depot n)"
  by (simp add: purchasing_inv_def ledger_inv_def balanced_def movements_at_def depot_stock cost_inv_def variant_costs_ok_def costs_of_def
      opening_keys_ok_def papers_ok_def papers_def returns_booked_def depot_def depot_variant_def plain_id_def
      has_places_of_int [of 2 2, simplified])


lemma depot_fresh: "fresh_call (depot_call c) (depot n)"
  by (simp add: fresh_call_def depot_def)

lemma depot_credits: "credits_ok L (depot n)"
  by (simp add: credits_ok_def papers_def depot_def)

lemma depot_filled_run: "purchasing_run dec_exact (\<lambda>a b. a / b) depot_host (depot 6) depot_filled"
  by (rule r_into_rtranclp) (rule step_receive [OF depot_receives])

lemma depot_return_step:
  assumes "handle_return dec_exact (\<lambda>a b. a / b) depot_host (depot_call CHR ''d'') ''t'' depot_keeper ''a'' depot_return depot_filled = Inr (r, d)"
  shows "purchasing_run dec_exact (\<lambda>a b. a / b) depot_host (depot 6) d"
  by (rule rtranclp.rtrancl_into_rtrancl [OF depot_filled_run]) (rule step_return [OF _ assms], simp add: depot_return_def)

lemma depot_reversal_step:
  assumes "handle_reverse (\<lambda>a b. a / b) depot_host (depot_call CHR ''d'') ''t'' depot_keeper ''a'' depot_reversal depot_filled = Inr (i, d)"
  shows "purchasing_run dec_exact (\<lambda>a b. a / b) depot_host (depot 6) d"
  by (rule rtranclp.rtrancl_into_rtrancl [OF depot_filled_run]) (rule step_reverse [OF assms])

section \<open>The properties\<close>

text \<open>C4: Whatever receipts, supplier returns and reversals run, in any order, the stock of a branch moves
  exactly as the documents say: units on hand less the units of the posted receipts, plus the units
  returned to suppliers, stay what they were; the stock ledger keeps summing to the stock, the cost
  ledger to the costs, and every supplier return keeps belonging to a posted receipt.
\<close>

theorem purchases_documented:
  assumes "purchasing_inv d" and "purchasing_run L q H d d'"
  shows "purchasing_inv d'
    \<and> on_hand d' b v - (received_units (ps_invoices d') b v - returned_units (ps_returns d') b v)
       = on_hand d b v - (received_units (ps_invoices d) b v - returned_units (ps_returns d) b v)"
  using run_keeps [OF assms(2,1), of b v] by (simp add: undocumented_def documented_def)

lemma purchases_documented_witness:
  "case handle_return dec_exact (\<lambda>a b. a / b) depot_host (depot_call CHR ''d'') ''t'' depot_keeper ''a'' depot_return depot_filled of
     Inl e \<Rightarrow> False
   | Inr (r, d) \<Rightarrow> purchasing_inv d \<and> on_hand d ''b'' ''v'' = 9
       \<and> received_units (ps_invoices d) ''b'' ''v'' - returned_units (ps_returns d) ''b'' ''v'' = 3"
proof -
  obtain r d where run: "handle_return dec_exact (\<lambda>a b. a / b) depot_host (depot_call CHR ''d'') ''t'' depot_keeper ''a'' depot_return depot_filled = Inr (r, d)"
    and nine: "on_hand d ''b'' ''v'' = 9"
    using depot_returns by (auto split: sum.splits)
  have "on_hand (depot 6) ''b'' ''v'' = 6" "received_units (ps_invoices (depot 6)) ''b'' ''v'' = 0" "returned_units (ps_returns (depot 6)) ''b'' ''v'' = 0"
    by (simp_all add: on_hand_def depot_stock received_units_def returned_units_def) (simp_all add: depot_def)
  with purchases_documented [OF depot_inv depot_return_step [OF run], where b = "''b''" and v = "''v''"] run nine show ?thesis by simp
qed

text \<open>C3: The purchasing service implements the specification of goods in lots: whatever receipts, supplier
  returns and reversals run, what happens to the stock and to the lines of the receipts is a sequence of
  deliveries, partial send-backs within the lots and undoings of untouched receipts. So no line ever gives
  back more than it brought, and the stock beyond what the open lots hold never changes.
\<close>

theorem purchasing_implements_lots:
  assumes "purchasing_inv d" and "goods_ok (goods_of d)" and "purchasing_run L q H d d'"
  shows "goods_step\<^sup>*\<^sup>* (goods_of d) (goods_of d') \<and> goods_ok (goods_of d')
    \<and> beyond_lots (goods_of d') b v = beyond_lots (goods_of d) b v"
  using run_simulates [OF assms(3,1)] goods_run_ok [OF _ assms(2)] by blast

lemma purchasing_implements_lots_witness:
  "case handle_return dec_exact (\<lambda>a b. a / b) depot_host (depot_call CHR ''d'') ''t'' depot_keeper ''a'' depot_return depot_filled of
     Inl e \<Rightarrow> False
   | Inr (r, d) \<Rightarrow> goods_step\<^sup>*\<^sup>* (goods_of (depot 6)) (goods_of d) \<and> beyond_lots (goods_of d) ''b'' ''v'' = 6
       \<and> map (\<lambda>x. (lo_qty x, lo_back x)) (gd_lots (goods_of d)) = [(4, 1)]"
proof -
  obtain r d where run: "handle_return dec_exact (\<lambda>a b. a / b) depot_host (depot_call CHR ''d'') ''t'' depot_keeper ''a'' depot_return depot_filled = Inr (r, d)"
    and out: "ps_invoices d = [depot_invoice]" "line_taken ''ax'' d = (1, 7)"
    using depot_returns by (auto split: sum.splits)
  have "goods_ok (goods_of (depot 6))" "beyond_lots (goods_of (depot 6)) ''b'' ''v'' = 6"
    by (simp_all add: goods_ok_def goods_of_def lots_of_def beyond_lots_def on_hand_def depot_stock) (simp_all add: depot_def)
  moreover have "map (\<lambda>x. (lo_qty x, lo_back x)) (gd_lots (goods_of d)) = [(4, 1)]"
    by (simp add: goods_of_def lots_of_def taken_back_def out depot_invoice_def depot_lines_def)
  ultimately show ?thesis
    using purchasing_implements_lots [OF depot_inv _ depot_return_step [OF run], where b = "''b''" and v = "''v''"] run by simp
qed

text \<open>C22: Whatever runs, the units taken back to the supplier on a receipt line never exceed the line,
  their credits are exact in cents and never exceed the credit of the line, and equal it once the
  whole line is back; and a receipt with a supplier return is never reversed, now or later.
  A line that receive creates stores its net total; a line without one, stored before costs were
  accounted for, is outside this statement.
\<close>

theorem supplier_credits_kept:
  assumes "decimal_js L" and "purchasing_inv d" and "credits_ok L d" and "purchasing_run L q H d d'"
    and "i \<in> set (ps_invoices d')" and "l \<in> set (pu_lines i)" and "li_net_total l = Some n"
  shows "taken_ok (li_qty l) (line_credit L l) (line_taken (li_id l) d')
    \<and> (\<forall>r \<in> set (ps_returns d'). su_purchase r = pu_id i \<longrightarrow> pu_status i = ''posted'')"
proof (intro conjI ballI impI)
  note ok = decimal_js.run_credits [OF assms(1,4,2,3)]
  show "taken_ok (li_qty l) (line_credit L l) (line_taken (li_id l) d')"
    using credits_within [of L d' i l] ok assms(5,6,7) by simp
  fix r
  assume "r \<in> set (ps_returns d')" "su_purchase r = pu_id i"
  then obtain j where j: "j \<in> set (ps_invoices d')" "pu_id j = pu_id i" "pu_status j = ''posted''"
    using returned_stays_posted [of d' r] ok by auto
  have "distinct (map pu_id (ps_invoices d'))" using ok by (intro papers_okD(1)) (simp add: purchasing_inv_def)
  then have "j = i" using j(1,2) assms(5) by (simp add: distinct_map inj_on_def)
  then show "pu_status i = ''posted''" using j(3) by simp
qed

lemma supplier_credits_kept_witness:
  "case handle_return dec_exact (\<lambda>a b. a / b) depot_host (depot_call CHR ''d'') ''t'' depot_keeper ''a'' depot_return depot_filled of
     Inl e \<Rightarrow> False
   | Inr (r, d) \<Rightarrow> \<exists>i l. i \<in> set (ps_invoices d) \<and> l \<in> set (pu_lines i) \<and> pu_status i = ''posted''
       \<and> line_taken (li_id l) d = (1, 7) \<and> taken_ok 4 28 (line_taken (li_id l) d)"
proof -
  let ?l = "hd (depot_lines (Some (6, 10, 2, 4)))"
  obtain r d where run: "handle_return dec_exact (\<lambda>a b. a / b) depot_host (depot_call CHR ''d'') ''t'' depot_keeper ''a'' depot_return depot_filled = Inr (r, d)"
    and out: "ps_invoices d = [depot_invoice]" "line_taken ''ax'' d = (1, 7)"
    using depot_returns by (auto split: sum.splits)
  have l: "?l \<in> set (pu_lines depot_invoice)" "li_net_total ?l = Some 28" "li_qty ?l = 4" "li_id ?l = ''ax''"
    "pu_status depot_invoice = ''posted''"
    by (simp_all add: depot_invoice_def depot_lines_def)
  have i: "depot_invoice \<in> set (ps_invoices d)" by (simp add: out)
  have "line_credit dec_exact ?l = 28" by (simp add: line_credit_def l(2) dec_ex)
  with supplier_credits_kept [OF dec_exact.decimal_js_axioms depot_inv depot_credits depot_return_step [OF run] i l(1,2)]
  have "taken_ok 4 28 (line_taken ''ax'' d)" by (simp add: l)
  then show ?thesis using run out i l by (auto intro!: exI [of _ depot_invoice] exI [of _ ?l])
qed

text \<open>C21: Reversing a receipt undoes it: after a receipt that was posted and then reversed, every branch
  holds the units it held before and every variant has the cost it had before, both ledgers agree with
  that, and no supplier return was touched. (The identifiers the database draws for the receipt are new.)
\<close>

theorem receipt_reversal_roundtrip:
  assumes "purchasing_inv d" and "fresh_call C d" and "receive L q H C tenant user dto d = Inr (i, d1)"
    and "i \<notin> set (ps_invoices d)" and "reverse_purchase q H' C' tenant user' (pu_id i) request d1 = Inr (i', d2)"
  shows "on_hand d2 b v = on_hand d b v \<and> cost_of d2 v = cost_of d v \<and> ps_returns d2 = ps_returns d \<and> purchasing_inv d2"
proof (rule receiveE [OF assms(3)])
  fix p
  assume "find_replay tenant p (rd_supplier_id dto) d = Inr (Some i)"
  then have "i \<in> set (ps_invoices d)" by (auto simp: find_replay_def result_simps split: option.splits dest: find_Some_iff_set)
  then show ?thesis using assms(4) by simp
next
  fix p t
  assume "post_purchase q H C tenant user dto p t d = Inr (i, d1)"
  from receipt_undone [OF assms(1,2) this assms(5)] show ?thesis by simp
qed

lemma receipt_reversal_roundtrip_witness:
  "case handle_reverse (\<lambda>a b. a / b) depot_host (depot_call CHR ''d'') ''t'' depot_keeper ''a'' depot_reversal depot_filled of
     Inl e \<Rightarrow> False
   | Inr (i, d) \<Rightarrow> on_hand depot_filled ''b'' ''v'' = 10 \<and> on_hand d ''b'' ''v'' = 6
       \<and> cost_of depot_filled ''v'' = Some 4 \<and> cost_of d ''v'' = Some 2"
proof -
  obtain i d where run: "handle_reverse (\<lambda>a b. a / b) depot_host (depot_call CHR ''d'') ''t'' depot_keeper ''a'' depot_reversal depot_filled = Inr (i, d)"
    using depot_reverses by (auto split: sum.splits)
  have recv: "receive dec_exact (\<lambda>a b. a / b) depot_host (depot_call CHR ''a'') ''t'' depot_keeper depot_receipt (depot 6) = Inr (depot_invoice, depot_filled)"
    by (rule handlers(1) [OF depot_receives])
  have rev: "reverse_purchase (\<lambda>a b. a / b) depot_host (depot_call CHR ''d'') ''t'' depot_keeper (pu_id depot_invoice) depot_reversal depot_filled = Inr (i, d)"
    using handlers(3) [OF run] by (simp add: depot_invoice_def)
  have new: "depot_invoice \<notin> set (ps_invoices (depot 6))" by (simp add: depot_def)
  have "on_hand (depot 6) ''b'' ''v'' = 6" "cost_of (depot 6) ''v'' = Some 2" "on_hand depot_filled ''b'' ''v'' = 10" "cost_of depot_filled ''v'' = Some 4"
    by (simp_all add: on_hand_def cost_of_def depot_defs)
  with receipt_reversal_roundtrip [OF depot_inv depot_fresh recv new rev, where b = "''b''" and v = "''v''"] run show ?thesis by simp
qed

text \<open>C38: While sales have taken a variant below zero over all branches, no receipt that contains it can be
  posted, however many units it brings: the service refuses it or changes nothing. The cost snapshot it
  writes into the line keeps the quantity before the receipt, which the database requires to be at least
  zero, although a sale may leave the stock negative.
\<close>

theorem negative_stock_blocks_receipt:
  assumes "purchasing_inv d" and "fresh_call C d" and "distinct (map br_id (rt_branches d))"
    and "item \<in> set (rd_items dto)" and "global_quantity d (ri_variant item) < 0"
  shows "case receive L q H C tenant user dto d of Inl e \<Rightarrow> True | Inr (i, d') \<Rightarrow> d' = d"
proof (cases "receive L q H C tenant user dto d")
  case (Inr answer)
  obtain i d' where a: "answer = (i, d')" by (cases answer)
  have "d' = d"
  proof (rule receiveE [OF Inr [unfolded a]])
    fix p t
    assume p: "prepare_purchase_receipt L (purchase_host.truncate H) dto = Inr p"
      and post: "post_purchase q H C tenant user dto p t d = Inr (i, d')"
    obtain l where l: "l \<in> set (pr_lines p)" "pl_variant l = ri_variant item"
      using prepared_variants [OF p] assms(4) by (metis imageE imageI)
    from receipt_needs_stock [OF assms(1-3) post l(1)] l(2) assms(5) show ?thesis by simp
  qed
  then show ?thesis by (simp add: Inr a)
qed simp

definition overdrawn :: purchasing_db where
  "overdrawn = (depot (- 1))\<lparr>movements := [(depot_movement Sale_Movement (- 1) (- 1))\<lparr>mv_key := ''sale:x''\<rparr>]\<rparr>"

lemma overdrawn_inv: "purchasing_inv overdrawn"
proof -
  have "movements_at (movements overdrawn) b v = (if b = ''b'' \<and> v = ''v'' then movements overdrawn else [])" for b v
    by (simp add: movements_at_def overdrawn_def depot_movement_def)
  moreover have "reconciled overdrawn ''b'' ''v''"
    by (simp add: reconciled_def overdrawn_def depot_movement_def movements_at_def depot_stock ledger_on_hand_def ledger_reserved_def)
  moreover have "opening_keys_ok (movements overdrawn)"
    by (simp add: opening_keys_ok_def overdrawn_def depot_movement_def opening_key_def)
  moreover have "cost_inv overdrawn = cost_inv (depot 0)" "papers overdrawn = papers (depot 0)" "rt_branches overdrawn = rt_branches (depot 0)" "ps_returns overdrawn = []"
    by (simp_all add: overdrawn_def cost_inv_def papers_def depot_def)
  ultimately show ?thesis using depot_inv [of 0] by (simp add: purchasing_inv_def ledger_inv_def balanced_def returns_booked_def)
qed

lemma overdrawn_refused:
  "receive dec_exact (\<lambda>a b. a / b) depot_host (depot_call CHR ''a'') ''t'' depot_keeper depot_receipt
     overdrawn = Inl (JsError ''check constraint failed'')"
proof -
  have time: "document_time depot_host (depot_call CHR ''a'') (rd_received_at depot_receipt) e = Inr 0" for e
    by (simp add: document_time_def depot_receipt_def depot_call_def truthy_def)
  have none: "find_replay ''t'' depot_prepared (rd_supplier_id depot_receipt) overdrawn = Inr None" by (simp add: find_replay_def overdrawn_def depot_def)
  have dto: "rd_discount_amount depot_receipt = None" by (simp add: depot_receipt_def)
  have "post_purchase (\<lambda>a b. a / b) depot_host (depot_call CHR ''a'') ''t'' depot_keeper depot_receipt depot_prepared 0 overdrawn = Inl (JsError ''check constraint failed'')"
    by (simp add: run_simps overdrawn_def depot_defs cong: and_then_weak_cong)
  then show ?thesis by (simp add: receive_def depot_prepares time none dto unique_conflict_def)
qed

lemma negative_stock_blocks_receipt_witness:
  "global_quantity overdrawn ''v'' = - 1
   \<and> receive dec_exact (\<lambda>a b. a / b) depot_host (depot_call CHR ''a'') ''t'' depot_keeper depot_receipt overdrawn
     = Inl (JsError ''check constraint failed'')
   \<and> (case receive dec_exact (\<lambda>a b. a / b) depot_host (depot_call CHR ''e'') ''t'' depot_keeper depot_receipt overdrawn of
        Inl e \<Rightarrow> True | Inr (i, d') \<Rightarrow> d' = overdrawn)"
proof -
  have fresh: "fresh_call (depot_call CHR ''e'') overdrawn" by (simp add: fresh_call_def overdrawn_def depot_def)
  have one: "distinct (map br_id (rt_branches overdrawn))" by (simp add: overdrawn_def depot_def)
  have item: "hd (rd_items depot_receipt) \<in> set (rd_items depot_receipt)" "ri_variant (hd (rd_items depot_receipt)) = ''v''"
    by (simp_all add: depot_receipt_def)
  have short: "global_quantity overdrawn ''v'' = - 1" by (simp add: global_quantity_def overdrawn_def depot_def)
  from negative_stock_blocks_receipt [OF overdrawn_inv fresh one item(1)] short item(2) overdrawn_refused show ?thesis by auto
qed

text \<open>C39: A supplier's invoice number can be received once: whatever ran since, a receipt with a number that
  some receipt of that supplier bears, a reversed one too, is refused or answered with the old receipt,
  and nothing changes. So a receipt that was reversed because it was wrong cannot be entered again under
  its number.
\<close>

theorem supplier_number_used_once:
  assumes "purchasing_inv d" and "i \<in> set (ps_invoices d)" and "purchasing_run L q H d d1"
    and "prepare_purchase_receipt L (purchase_host.truncate H) dto = Inr p" and "truthy (pr_invoice_number p)"
    and "pu_tenant i = tenant" and "pu_supplier i = rd_supplier_id dto" and "pu_normalized i = pr_invoice_number p"
  shows "case receive L q H C tenant user dto d1 of Inl e \<Rightarrow> True | Inr (row, d2) \<Rightarrow> d2 = d1"
proof (cases "receive L q H C tenant user dto d1")
  case (Inr answer)
  obtain row d2 where a: "answer = (row, d2)" by (cases answer)
  have "number_used tenant (rd_supplier_id dto) (pr_invoice_number p) (ps_invoices d)"
    unfolding number_used_def using assms(2,6-8) by blast
  with run_keeps_numbers [OF assms(3,1)] have "number_used tenant (rd_supplier_id dto) (pr_invoice_number p) (ps_invoices d1)" by blast
  from used_number_not_posted [OF assms(4,5) this Inr [unfolded a]] show ?thesis by (simp add: Inr a)
qed simp

lemma supplier_number_used_once_witness:
  "case handle_reverse (\<lambda>a b. a / b) depot_host (depot_call CHR ''d'') ''t'' depot_keeper ''a'' depot_reversal depot_filled of
     Inl e \<Rightarrow> False
   | Inr (i, d) \<Rightarrow> pu_status i = ''reversed''
       \<and> (case receive dec_exact (\<lambda>a b. a / b) depot_host (depot_call CHR ''e'') ''t'' depot_keeper depot_receipt d of
            Inl e \<Rightarrow> True | Inr (row, d') \<Rightarrow> d' = d)"
proof -
  obtain i d where run: "handle_reverse (\<lambda>a b. a / b) depot_host (depot_call CHR ''d'') ''t'' depot_keeper ''a'' depot_reversal depot_filled = Inr (i, d)"
    and out: "pu_status i = ''reversed''"
    using depot_reverses by (auto split: sum.splits)
  have step: "purchasing_run dec_exact (\<lambda>a b. a / b) depot_host depot_filled d"
    by (rule r_into_rtranclp) (rule step_reverse [OF run])
  have inv: "purchasing_inv depot_filled" using run_keeps [OF depot_filled_run depot_inv] by blast
  have i: "depot_invoice \<in> set (ps_invoices depot_filled)" "pu_tenant depot_invoice = ''t''" "pu_supplier depot_invoice = rd_supplier_id depot_receipt"
    "pu_normalized depot_invoice = pr_invoice_number depot_prepared" "truthy (pr_invoice_number depot_prepared)"
    by (simp_all add: depot_defs truthy_def)
  from supplier_number_used_once [OF inv i(1) step depot_prepares i(5,2,3,4)] run out show ?thesis by simp
qed

end
