(* ===== verification/Permissions.thy ===== *)
theory Permissions
  imports Branch_Access
begin

text \<open>
  \<open>backend/src/identity\<close>: the permission keys and the grants of the system roles
  (\<open>system-roles.ts\<close>, \<open>permission-catalog.ts\<close>), the stored snapshot of the grants that is in force
  (\<open>permission-policy.service.ts\<close>), and the guard in front of a handler (\<open>permission.guard.ts\<close>).
  Beside it stands the older guard of \<open>backend/src/auth\<close>, over capabilities and legacy roles
  (\<open>permissions.ts\<close>, \<open>roles.guard.ts\<close>): a request has to pass both.
\<close>

section \<open>The catalog\<close>

text \<open>\<open>tenant_owner\<close>, \<open>location_manager\<close>, \<open>cashier\<close>, \<open>warehouse_manager\<close> and \<open>seller\<close>.\<close>

datatype membership_role = Tenant_Owner | Location_Manager | Cashier_Member | Warehouse_Member | Seller_Member

definition identity_permissions :: "string list" where
  "identity_permissions =
     [''membership.invite'', ''membership.status.change'', ''membership.role.assign'', ''access_scope.assign_tenant_wide'',
      ''location.create_close'', ''warehouse.create_disable'', ''terminal.enroll_revoke'', ''ownership.transfer'',
      ''support_access.grant'', ''tenant_data.export_all'', ''tenant.request_closure'']"

fun system_role_permissions :: "membership_role \<Rightarrow> string list" where
  "system_role_permissions Tenant_Owner = identity_permissions"
| "system_role_permissions Location_Manager =
     [''membership.invite'', ''membership.status.change'', ''membership.role.assign'', ''location.create_close'',
      ''warehouse.create_disable'', ''terminal.enroll_revoke'']"
| "system_role_permissions Warehouse_Member = [''warehouse.create_disable'', ''terminal.enroll_revoke'']"
| "system_role_permissions Cashier_Member = []"
| "system_role_permissions Seller_Member = []"

definition catalog_permissions :: "string list" where
  "catalog_permissions =
     [''catalog.product.view'', ''catalog.product.view-cost-sensitive'', ''catalog.product.create'',
      ''catalog.product.update'', ''catalog.product.archive'', ''catalog.variant.create'',
      ''catalog.variant.update'', ''catalog.export'', ''catalog.brand.manage'', ''catalog.uom.view'',
      ''catalog.uom.create'', ''catalog.uom.update'', ''catalog.uom-conversion.publish'',
      ''catalog.assortment.view'', ''catalog.assortment.manage'', ''catalog.bundle.manage'', ''promotion.view'',
      ''promotion.create'', ''promotion.update-draft'', ''promotion.submit'', ''promotion.approve'',
      ''promotion.schedule'', ''promotion.activate'', ''promotion.pause'', ''promotion.resume'', ''promotion.end'',
      ''promotion.simulate'']"

definition coupon_permissions :: "string list" where
  "coupon_permissions =
     [''coupon.campaign.create'', ''coupon.code.generate'', ''coupon.code.view-sensitive'', ''coupon.usage.view'',
      ''coupon.redemption.override'', ''coupon.export-codes'']"

definition pricing_permissions :: "string list" where
  "pricing_permissions =
     [''pricing.price-book.view'', ''pricing.price-book.create'', ''pricing.price-book.update-draft'',
      ''pricing.price-book.submit'', ''pricing.price-book.approve'', ''pricing.price-book.schedule'',
      ''pricing.price-book.activate'', ''pricing.price-book.end'', ''pricing.price-entry.manage'',
      ''pricing.cost.view'', ''pricing.margin.view'', ''pricing.floor.configure'',
      ''pricing.manual-override.apply'', ''pricing.manual-override.approve'',
      ''pricing.manual-override.above-threshold'', ''pricing.export'']"

definition tax_permissions :: "string list" where
  "tax_permissions =
     [''tax.code.view'', ''tax.rule.create'', ''tax.rule.update-draft'', ''tax.rule.submit'', ''tax.rule.approve'',
      ''tax.rule.schedule'', ''tax.rule.activate'', ''tax.rule.supersede'', ''tax.exemption.apply'',
      ''tax.exemption.approve'', ''tax.calculation.override'', ''tax.export'']"

definition sales_permissions :: "string list" where
  "sales_permissions =
     [''sales.sale.view'', ''sales.sale.view-all-in-scope'', ''sales.sale.create'', ''sales.sale.complete'',
      ''sales.sale.view-cost-margin'', ''sales.sale.reprint-receipt'', ''returns.return.view'',
      ''returns.return.request'', ''returns.return.approve-standard'', ''returns.return.post'']"

definition inventory_permissions :: "string list" where
  "inventory_permissions =
     [''inventory.position.view'', ''inventory.position.view-cost'', ''inventory.movement.view'',
      ''inventory.movement.post-standard'', ''inventory.adjustment.request'', ''inventory.adjustment.approve'',
      ''inventory.adjustment.post'', ''inventory.availability.export'', ''transfer.view'', ''transfer.create'',
      ''transfer.update-draft'', ''transfer.submit'', ''transfer.approve'', ''transfer.cancel-before-shipment'',
      ''transfer.ship'', ''transfer.receive'', ''transfer.record-discrepancy'', ''transfer.resolve-discrepancy'',
      ''transfer.close'']"

definition purchasing_permissions :: "string list" where
  "purchasing_permissions =
     [''supplier.view'', ''supplier.create'', ''supplier.update'', ''supplier.archive'',
      ''purchasing.purchase-order.view'', ''purchasing.purchase-order.create'',
      ''purchasing.purchase-order.approve'', ''purchasing.purchase-order.cancel'',
      ''purchasing.goods-receipt.view'', ''purchasing.goods-receipt.create'', ''purchasing.goods-receipt.post'',
      ''purchasing.supplier-return.create'', ''purchasing.supplier-return.post'', ''purchasing.export'']"

definition customer_permissions :: "string list" where
  "customer_permissions =
     [''customer.profile.view'', ''customer.profile.view-sensitive'', ''customer.profile.search'',
      ''customer.profile.create'', ''customer.profile.update'', ''customer.export'']"

definition terminal_shift_permissions :: "string list" where
  "terminal_shift_permissions =
     [''terminal.view'', ''terminal.view-health'', ''terminal.provision'', ''terminal.activate'',
      ''terminal.block'', ''terminal.retire'', ''shift.view'', ''shift.open-own'', ''shift.close-own'',
      ''shift.close-for-other'', ''shift.view-history'']"

definition reporting_permissions :: "string list" where
  "reporting_permissions =
     [''reports.sales.view'', ''reports.sales.view-cost-margin'', ''reports.sales.export'',
      ''reports.inventory.view'', ''reports.inventory.view-cost'', ''reports.purchasing.view'',
      ''reports.customers.view'', ''reports.schedule.manage-recipients'', ''notifications.notification.view'',
      ''notifications.notification.resend'']"

definition tenant_structure_permissions :: "string list" where
  "tenant_structure_permissions =
     [''location.view'', ''location.create'', ''location.update'', ''location.close'', ''tenant.membership.view'']"

definition business_permissions :: "string list" where
  "business_permissions =
     catalog_permissions
     @ coupon_permissions
     @ pricing_permissions
     @ tax_permissions
     @ sales_permissions
     @ inventory_permissions
     @ purchasing_permissions
     @ customer_permissions
     @ terminal_shift_permissions
     @ reporting_permissions
     @ tenant_structure_permissions"

definition cashier_grants :: "string list" where
  "cashier_grants =
     [''catalog.product.view'', ''inventory.position.view'', ''sales.sale.view'', ''sales.sale.create'',
      ''sales.sale.complete'', ''sales.sale.reprint-receipt'', ''returns.return.view'', ''returns.return.request'',
      ''customer.profile.view'', ''customer.profile.search'', ''shift.view'', ''shift.open-own'',
      ''shift.close-own'', ''terminal.view-health'', ''pricing.manual-override.apply'']"

definition seller_grants :: "string list" where
  "seller_grants =
     [''catalog.product.view'', ''inventory.position.view'', ''customer.profile.view'', ''customer.profile.search'']"

definition warehouse_manager_grants :: "string list" where
  "warehouse_manager_grants =
     [''catalog.product.view'', ''catalog.product.view-cost-sensitive'', ''catalog.product.create'',
      ''catalog.product.update'', ''catalog.product.archive'', ''catalog.variant.create'',
      ''catalog.variant.update'', ''catalog.brand.manage'', ''catalog.uom.view'', ''catalog.uom.create'',
      ''catalog.uom.update'', ''catalog.uom-conversion.publish'', ''catalog.assortment.view'',
      ''catalog.assortment.manage'', ''catalog.bundle.manage'', ''inventory.position.view'',
      ''inventory.position.view-cost'', ''inventory.movement.view'', ''inventory.movement.post-standard'',
      ''inventory.adjustment.request'', ''inventory.adjustment.approve'', ''inventory.adjustment.post'',
      ''transfer.view'', ''transfer.create'', ''transfer.update-draft'', ''transfer.submit'', ''transfer.approve'',
      ''transfer.cancel-before-shipment'', ''transfer.ship'', ''transfer.receive'',
      ''transfer.record-discrepancy'', ''transfer.resolve-discrepancy'', ''transfer.close'', ''supplier.view'',
      ''supplier.create'', ''supplier.update'', ''supplier.archive'', ''purchasing.purchase-order.view'',
      ''purchasing.purchase-order.create'', ''purchasing.purchase-order.approve'',
      ''purchasing.purchase-order.cancel'', ''purchasing.goods-receipt.view'', ''purchasing.goods-receipt.create'',
      ''purchasing.goods-receipt.post'', ''purchasing.supplier-return.create'',
      ''purchasing.supplier-return.post'', ''reports.sales.view'', ''reports.inventory.view'',
      ''reports.inventory.view-cost'', ''reports.purchasing.view'']"

definition location_manager_grants :: "string list" where
  "location_manager_grants =
     warehouse_manager_grants @ pricing_permissions @
     [''tax.code.view'', ''promotion.view'', ''promotion.create'', ''promotion.update-draft'',
      ''promotion.submit'', ''promotion.approve'', ''promotion.schedule'', ''promotion.activate'',
      ''promotion.pause'', ''promotion.resume'', ''promotion.end'', ''promotion.simulate'',
      ''coupon.campaign.create'', ''coupon.code.generate'', ''coupon.code.view-sensitive'', ''coupon.usage.view'',
      ''coupon.redemption.override'', ''sales.sale.view'', ''sales.sale.view-all-in-scope'', ''sales.sale.create'',
      ''sales.sale.complete'', ''sales.sale.view-cost-margin'', ''sales.sale.reprint-receipt'',
      ''returns.return.view'', ''returns.return.request'', ''returns.return.approve-standard'',
      ''returns.return.post'', ''customer.profile.view'', ''customer.profile.view-sensitive'',
      ''customer.profile.search'', ''customer.profile.create'', ''customer.profile.update'', ''terminal.view'',
      ''terminal.view-health'', ''terminal.provision'', ''terminal.activate'', ''terminal.block'',
      ''terminal.retire'', ''shift.view'', ''shift.open-own'', ''shift.close-own'', ''shift.close-for-other'',
      ''shift.view-history'', ''reports.sales.view-cost-margin'', ''reports.sales.export'',
      ''reports.customers.view'', ''reports.schedule.manage-recipients'', ''notifications.notification.view'',
      ''notifications.notification.resend'', ''location.view'', ''tenant.membership.view'']"

definition deny_by_default_permissions :: "string list" where
  "deny_by_default_permissions = [''tax.calculation.override'']"

definition tenant_owner_grants :: "string list" where
  "tenant_owner_grants = filter (\<lambda>p. p \<notin> set deny_by_default_permissions) business_permissions"

text \<open>\<open>[...new Set(values)]\<close>: each value where it first occurs.\<close>

definition dedupe :: "'a list \<Rightarrow> 'a list" where
  "dedupe xs = rev (remdups (rev xs))"

fun business_role_permissions :: "membership_role \<Rightarrow> string list" where
  "business_role_permissions Tenant_Owner = tenant_owner_grants"
| "business_role_permissions Location_Manager = dedupe location_manager_grants"
| "business_role_permissions Warehouse_Member = warehouse_manager_grants"
| "business_role_permissions Cashier_Member = cashier_grants"
| "business_role_permissions Seller_Member = seller_grants"

definition all_permissions :: "string list" where
  "all_permissions = identity_permissions @ business_permissions"

definition all_role_permissions :: "membership_role \<Rightarrow> string list" where
  "all_role_permissions r = dedupe (system_role_permissions r @ business_role_permissions r)"

definition permission_policy_current_version :: int where
  "permission_policy_current_version = 7"

section \<open>The snapshot in force\<close>

text \<open>A row of \<open>PermissionPolicySnapshot\<close>: its version is unique; \<open>grants\<close> is a JSON object by role.\<close>

record policy_snapshot =
  py_version :: int
  py_grants :: "membership_role \<Rightarrow> string list option"
  py_active :: bool

definition current_snapshot :: "policy_snapshot list \<Rightarrow> policy_snapshot option" where
  "current_snapshot ps =
     fold (\<lambda>p best. case best of None \<Rightarrow> Some p | Some b \<Rightarrow> if py_version p > py_version b then Some p else best)
       (filter py_active ps) None"

definition new_snapshot :: policy_snapshot where
  "new_snapshot = \<lparr>py_version = permission_policy_current_version, py_grants = (\<lambda>r. Some (all_role_permissions r)), py_active = True\<rparr>"

definition ensure_seeded :: "policy_snapshot list \<Rightarrow> (policy_snapshot \<times> policy_snapshot list) result" where
  "ensure_seeded ps =
     (let existing = current_snapshot ps in
      case existing of
        Some e \<Rightarrow>
          if py_version e \<ge> permission_policy_current_version then Inr (e, ps)
          else if list_ex (\<lambda>p. py_version p = permission_policy_current_version) ps then Inr (e, ps)
          else Inr (new_snapshot, map (\<lambda>p. if p = e then p\<lparr>py_active := False\<rparr> else p) ps @ [new_snapshot])
      | None \<Rightarrow>
          if list_ex (\<lambda>p. py_version p = permission_policy_current_version) ps then Inl (JsError ''P2002'')
          else Inr (new_snapshot, ps @ [new_snapshot]))"

definition get_grants :: "membership_role \<Rightarrow> policy_snapshot list \<Rightarrow> (string list \<times> policy_snapshot list) result" where
  "get_grants role ps =
     and_then (ensure_seeded ps) (\<lambda>(p, ps').
     Inr ((case py_grants p role of None \<Rightarrow> [] | Some gs \<Rightarrow> gs), ps'))"

definition has_permission :: "membership_role \<Rightarrow> string \<Rightarrow> policy_snapshot list \<Rightarrow> (bool \<times> policy_snapshot list) result" where
  "has_permission role permission ps =
     and_then (get_grants role ps) (\<lambda>(gs, ps'). Inr (permission \<in> set gs, ps'))"

section \<open>The guard\<close>

text \<open>
  \<open>required\<close> are the keys the handler declares, \<open>public\<close> whether it is declared public, and the role
  is the one of the session's membership, if it has one.
\<close>

definition require_permission :: "membership_role \<Rightarrow> string \<Rightarrow> policy_snapshot list \<Rightarrow> policy_snapshot list result" where
  "require_permission role permission ps =
     and_then (has_permission role permission ps) (\<lambda>(allowed, ps').
     and_then (throw_if (\<not> allowed) (DomainError ''PERMISSION_DENIED'')) (\<lambda>_. Inr ps'))"

definition permission_guard :: "string list \<Rightarrow> bool \<Rightarrow> membership_role option \<Rightarrow> policy_snapshot list \<Rightarrow> policy_snapshot list result" where
  "permission_guard required public role ps =
     (if required = [] \<or> public then Inr ps
      else case role of
        None \<Rightarrow> Inl (DomainError ''PERMISSION_DENIED'')
      | Some r \<Rightarrow> fold_result (require_permission r) required ps)"

section \<open>The older guard\<close>

definition capabilities :: "string list" where
  "capabilities =
     [''dashboard.read'', ''products.read'', ''products.manage'', ''inventory.read'', ''sales.read'', ''sales.create'',
      ''returns.create'', ''customers.read'', ''customers.manage'', ''purchasing.read'', ''purchasing.manage'',
      ''suppliers.manage'', ''pricing.manage'', ''offers.manage'', ''transfers.manage'', ''reports.read'', ''reports.send'',
      ''branches.manage'', ''users.manage'', ''shifts.manage'', ''terminals.read'', ''terminals.manage'', ''settings.manage'',
      ''seller_reports.read'', ''seller_settings.manage'', ''seller_periods.close'']"

fun capabilities_for :: "role \<Rightarrow> string list" where
  "capabilities_for Owner = capabilities"
| "capabilities_for Branch_Manager =
     [''dashboard.read'', ''products.read'', ''products.manage'', ''inventory.read'', ''sales.read'', ''sales.create'',
      ''returns.create'', ''customers.read'', ''customers.manage'', ''purchasing.read'', ''purchasing.manage'',
      ''suppliers.manage'', ''pricing.manage'', ''offers.manage'', ''transfers.manage'', ''reports.read'', ''reports.send'',
      ''shifts.manage'', ''terminals.read'', ''terminals.manage'', ''users.manage'', ''seller_reports.read'']"
| "capabilities_for Cashier =
     [''products.read'', ''inventory.read'', ''sales.read'', ''sales.create'', ''returns.create'', ''customers.read'',
      ''shifts.manage'']"
| "capabilities_for Warehouse_Manager =
     [''dashboard.read'', ''products.read'', ''products.manage'', ''inventory.read'', ''purchasing.read'',
      ''purchasing.manage'', ''suppliers.manage'', ''transfers.manage'', ''reports.read'']"
| "capabilities_for Seller = [''products.read'', ''inventory.read'', ''customers.read'']"

text \<open>\<open>Set.add\<close> and \<open>Set.delete\<close> on a set kept in order of insertion.\<close>

definition set_add :: "'a \<Rightarrow> 'a list \<Rightarrow> 'a list" where
  "set_add x xs = (if x \<in> set xs then xs else xs @ [x])"

definition set_delete :: "'a \<Rightarrow> 'a list \<Rightarrow> 'a list" where
  "set_delete x xs = filter (\<lambda>y. y \<noteq> x) xs"

text \<open>The lists granted to and revoked from one user; an absent list is \<open>None\<close>.\<close>

definition effective_capabilities :: "role \<Rightarrow> string list option \<Rightarrow> string list option \<Rightarrow> string list" where
  "effective_capabilities r granted revoked =
     (if r = Owner then capabilities
      else fold set_delete (case revoked of None \<Rightarrow> [] | Some cs \<Rightarrow> cs)
             (fold (\<lambda>c cs. if c \<in> set capabilities then set_add c cs else cs)
                (case granted of None \<Rightarrow> [] | Some cs \<Rightarrow> cs) (dedupe (capabilities_for r))))"

text \<open>
  \<open>RolesGuard.canActivate\<close>: \<open>required\<close> is what \<open>@Roles\<close> declares and \<open>wanted\<close> what
  \<open>@RequireCapabilities\<close> declares, on the handler or else on the controller. The session is a
  role with its capabilities, or there is none. Declared capabilities that exist decide alone.
\<close>

definition roles_guard :: "role list option \<Rightarrow> string list option \<Rightarrow> (role \<times> string list) option \<Rightarrow> bool" where
  "roles_guard required wanted user =
     (if (case wanted of None \<Rightarrow> False | Some cs \<Rightarrow> set cs \<subseteq> set capabilities)
      then set (the wanted) \<subseteq> set (case user of None \<Rightarrow> [] | Some (_, cs) \<Rightarrow> cs)
      else case required of
        None \<Rightarrow> True
      | Some rs \<Rightarrow> (case user of None \<Rightarrow> False | Some (r, _) \<Rightarrow> r \<in> set rs))"

text \<open>The membership role a legacy role became.\<close>

fun membership_role_of :: "role \<Rightarrow> membership_role" where
  "membership_role_of Owner = Tenant_Owner"
| "membership_role_of Branch_Manager = Location_Manager"
| "membership_role_of Cashier = Cashier_Member"
| "membership_role_of Warehouse_Manager = Warehouse_Member"
| "membership_role_of Seller = Seller_Member"

section \<open>What the guard decides\<close>

lemma set_dedupe [simp]: "set (dedupe xs) = set xs"
  by (simp add: dedupe_def)

lemma in_all_role_permissions:
  "x \<in> set (all_role_permissions r) \<longleftrightarrow> x \<in> set (system_role_permissions r) \<or> x \<in> set (business_role_permissions r)"
  by (simp add: all_role_permissions_def)

text \<open>The catalog is in force, or the next request puts it in force.\<close>

definition catalog_in_force :: "policy_snapshot list \<Rightarrow> bool" where
  "catalog_in_force ps =
     (case current_snapshot ps of
        None \<Rightarrow> \<not> list_ex (\<lambda>p. py_version p = permission_policy_current_version) ps
      | Some e \<Rightarrow>
          (py_version e = permission_policy_current_version \<and> py_grants e = py_grants new_snapshot)
          \<or> (py_version e < permission_policy_current_version
             \<and> \<not> list_ex (\<lambda>p. py_version p = permission_policy_current_version) ps))"

definition newer :: "policy_snapshot \<Rightarrow> policy_snapshot option \<Rightarrow> policy_snapshot option" where
  "newer p best = (case best of None \<Rightarrow> Some p | Some b \<Rightarrow> if py_version p > py_version b then Some p else best)"

lemma current_snapshot_newer: "current_snapshot ps = fold newer (filter py_active ps) None"
  by (simp add: current_snapshot_def newer_def [abs_def])

lemma fold_newer:
  assumes "fold newer xs b = Some e"
  shows "(b = Some e \<or> e \<in> set xs) \<and> (\<forall>p \<in> set xs. py_version p \<le> py_version e)
    \<and> (\<forall>x. b = Some x \<longrightarrow> py_version x \<le> py_version e)"
  using assms
proof (induction xs arbitrary: b)
  case (Cons x xs)
  have "fold newer xs (newer x b) = Some e" using Cons.prems by simp
  note ih = Cons.IH [OF this]
  obtain y where y: "newer x b = Some y" "y = x \<or> b = Some y" "py_version x \<le> py_version y"
      "\<forall>z. b = Some z \<longrightarrow> py_version z \<le> py_version y"
    by (cases b; cases "py_version x > py_version (the b)") (simp_all add: newer_def)
  have "py_version y \<le> py_version e" using ih y(1) by blast
  then show ?case using ih y by force
qed simp

lemma fold_newer_None: "fold newer xs b = None \<longleftrightarrow> xs = [] \<and> b = None"
proof (induction xs arbitrary: b)
  case (Cons x xs)
  have "newer x b \<noteq> None" by (auto simp: newer_def split: option.splits)
  then show ?case using Cons by simp
qed simp

lemma current_snapshot_Some:
  assumes "current_snapshot ps = Some e"
  shows "e \<in> set ps" "py_active e" "\<And>p. p \<in> set ps \<Longrightarrow> py_active p \<Longrightarrow> py_version p \<le> py_version e"
  using fold_newer [OF assms [unfolded current_snapshot_newer]] by auto

lemma current_snapshot_None: "current_snapshot ps = None \<longleftrightarrow> filter py_active ps = []"
  by (simp add: current_snapshot_newer fold_newer_None)

lemma current_snapshot_append_new:
  assumes "\<And>p. p \<in> set ps \<Longrightarrow> py_active p \<Longrightarrow> py_version p < permission_policy_current_version"
  shows "current_snapshot (ps @ [new_snapshot]) = Some new_snapshot"
proof -
  have a: "py_active new_snapshot" and v: "py_version new_snapshot = permission_policy_current_version"
    by (simp_all add: new_snapshot_def)
  have "newer new_snapshot (current_snapshot ps) = Some new_snapshot"
  proof (cases "current_snapshot ps")
    case (Some e)
    then show ?thesis using current_snapshot_Some [OF Some] assms v by (simp add: newer_def)
  qed (simp add: newer_def)
  then show ?thesis using a by (simp add: current_snapshot_newer)
qed

lemma ensure_seeded_in_force:
  assumes "catalog_in_force ps"
  obtains p ps' where "ensure_seeded ps = Inr (p, ps')" "py_grants p = py_grants new_snapshot" "catalog_in_force ps'"
proof -
  have v: "py_version new_snapshot = permission_policy_current_version" by (simp add: new_snapshot_def)
  show thesis
  proof (cases "current_snapshot ps")
    case None
    have "current_snapshot (ps @ [new_snapshot]) = Some new_snapshot"
      using None by (intro current_snapshot_append_new) (auto simp: current_snapshot_None filter_empty_conv)
    then show thesis using that [of new_snapshot "ps @ [new_snapshot]"] assms None v
      by (simp add: ensure_seeded_def catalog_in_force_def)
  next
    case (Some e)
    show thesis
    proof (cases "py_version e = permission_policy_current_version")
      case True
      then show thesis using that [of e ps] assms Some by (simp add: ensure_seeded_def catalog_in_force_def)
    next
      case False
      with assms Some have e: "py_version e < permission_policy_current_version"
          "\<not> list_ex (\<lambda>p. py_version p = permission_policy_current_version) ps"
        by (auto simp: catalog_in_force_def)
      let ?ps = "map (\<lambda>p. if p = e then p\<lparr>py_active := False\<rparr> else p) ps"
      have "current_snapshot (?ps @ [new_snapshot]) = Some new_snapshot"
      proof (rule current_snapshot_append_new)
        fix p assume "p \<in> set ?ps" "py_active p"
        then have "p \<in> set ps" by (auto split: if_splits)
        then have "py_version p \<le> py_version e" using current_snapshot_Some(3) [OF Some _ \<open>py_active p\<close>] by simp
        then show "py_version p < permission_policy_current_version" using e(1) by simp
      qed
      then show thesis using that [of new_snapshot "?ps @ [new_snapshot]"] Some e v
        by (simp add: ensure_seeded_def catalog_in_force_def)
    qed
  qed
qed

lemma has_permission_in_force:
  assumes "catalog_in_force ps"
  obtains ps' where "has_permission r k ps = Inr (k \<in> set (all_role_permissions r), ps')" "catalog_in_force ps'"
proof -
  obtain p ps' where p: "ensure_seeded ps = Inr (p, ps')" "py_grants p = py_grants new_snapshot" "catalog_in_force ps'"
    using assms by (rule ensure_seeded_in_force)
  show thesis using that [of ps'] p by (simp add: has_permission_def get_grants_def new_snapshot_def)
qed

lemma require_all_in_force:
  assumes "catalog_in_force ps"
  shows "(set keys \<subseteq> set (all_role_permissions r) \<longrightarrow>
      (\<exists>ps'. fold_result (require_permission r) keys ps = Inr ps' \<and> catalog_in_force ps'))
    \<and> (\<not> set keys \<subseteq> set (all_role_permissions r) \<longrightarrow>
      fold_result (require_permission r) keys ps = Inl (DomainError ''PERMISSION_DENIED''))"
  using assms
proof (induction keys arbitrary: ps)
  case (Cons k keys)
  obtain ps1 where ps1: "has_permission r k ps = Inr (k \<in> set (all_role_permissions r), ps1)" "catalog_in_force ps1"
    using Cons.prems by (rule has_permission_in_force)
  show ?case
  proof (cases "k \<in> set (all_role_permissions r)")
    case True
    then show ?thesis using Cons.IH [OF ps1(2)] ps1(1) by (simp add: require_permission_def)
  next
    case False
    then show ?thesis using ps1(1) by (simp add: require_permission_def)
  qed
qed simp

definition permitted :: "string list \<Rightarrow> bool \<Rightarrow> membership_role \<Rightarrow> bool" where
  "permitted keys public r \<longleftrightarrow> keys = [] \<or> public \<or> set keys \<subseteq> set (all_role_permissions r)"

lemma guard_permits:
  assumes "catalog_in_force ps" and "permitted keys public r"
  shows "\<exists>ps'. permission_guard keys public (Some r) ps = Inr ps' \<and> catalog_in_force ps'"
  using require_all_in_force [OF assms(1), of keys r] assms
  by (cases "keys = [] \<or> public") (auto simp: permission_guard_def permitted_def)

lemma guard_denies:
  assumes "catalog_in_force ps" and "\<not> permitted keys public r"
  shows "permission_guard keys public (Some r) ps = Inl (DomainError ''PERMISSION_DENIED'')"
  using require_all_in_force [OF assms(1), of keys r] assms(2) by (auto simp: permission_guard_def permitted_def)

lemma guard_Inr_iff:
  assumes "catalog_in_force ps"
  shows "(\<exists>ps'. permission_guard keys public (Some r) ps = Inr ps') \<longleftrightarrow> permitted keys public r"
  using guard_permits [OF assms, of keys public r] guard_denies [OF assms, of keys public r]
  by (cases "permitted keys public r") auto

section \<open>The ladder of the roles\<close>

lemma seller_within_cashier: "set seller_grants \<subseteq> set cashier_grants"
  by (simp add: seller_grants_def cashier_grants_def)

lemma cashier_within_manager: "set cashier_grants \<subseteq> set location_manager_grants"
  by (simp add: cashier_grants_def location_manager_grants_def warehouse_manager_grants_def pricing_permissions_def)

lemma warehouse_within_business: "set warehouse_manager_grants \<subseteq> set business_permissions"
  unfolding business_permissions_def
  by (simp add: warehouse_manager_grants_def catalog_permissions_def inventory_permissions_def
      purchasing_permissions_def reporting_permissions_def)

lemma manager_within_business: "set location_manager_grants \<subseteq> set business_permissions"
proof -
  have "set (drop (length warehouse_manager_grants + length pricing_permissions) location_manager_grants)
      \<subseteq> set business_permissions"
    unfolding business_permissions_def
    by (simp add: location_manager_grants_def catalog_permissions_def coupon_permissions_def tax_permissions_def
        sales_permissions_def customer_permissions_def terminal_shift_permissions_def reporting_permissions_def
        tenant_structure_permissions_def)
  moreover have "set location_manager_grants = set warehouse_manager_grants \<union> set pricing_permissions
      \<union> set (drop (length warehouse_manager_grants + length pricing_permissions) location_manager_grants)"
    by (simp add: location_manager_grants_def Un_assoc)
  ultimately show ?thesis using warehouse_within_business by (auto simp: business_permissions_def)
qed

lemma override_not_granted: "''tax.calculation.override'' \<notin> set location_manager_grants"
  by (simp add: location_manager_grants_def warehouse_manager_grants_def pricing_permissions_def)

lemma manager_within_owner: "set location_manager_grants \<subseteq> set tenant_owner_grants"
  using manager_within_business override_not_granted
  by (auto simp: tenant_owner_grants_def deny_by_default_permissions_def)

text \<open>Each role and the next one above it.\<close>

fun above :: "membership_role \<Rightarrow> membership_role option" where
  "above Seller_Member = Some Cashier_Member"
| "above Cashier_Member = Some Location_Manager"
| "above Warehouse_Member = Some Location_Manager"
| "above Location_Manager = Some Tenant_Owner"
| "above Tenant_Owner = None"

lemma grants_grow:
  assumes "above r = Some r'"
  shows "set (all_role_permissions r) \<subseteq> set (all_role_permissions r')"
proof -
  have "set (system_role_permissions r) \<subseteq> set (system_role_permissions r')"
    using assms by (cases r) (auto simp: identity_permissions_def)
  moreover have "set (business_role_permissions r) \<subseteq> set (business_role_permissions r')"
    using assms seller_within_cashier cashier_within_manager manager_within_owner
    by (cases r) (auto simp: location_manager_grants_def)
  ultimately show ?thesis by (auto simp: all_role_permissions_def)
qed

lemma permitted_grows: "above r = Some r' \<Longrightarrow> permitted keys public r \<Longrightarrow> permitted keys public r'"
  using grants_grow by (auto simp: permitted_def)

lemma override_denied: "''tax.calculation.override'' \<notin> set (all_role_permissions r)"
proof -
  have i: "''tax.calculation.override'' \<notin> set (system_role_permissions r)"
    by (cases r) (simp_all add: identity_permissions_def)
  have o: "''tax.calculation.override'' \<notin> set tenant_owner_grants"
    by (simp add: tenant_owner_grants_def deny_by_default_permissions_def)
  have "''tax.calculation.override'' \<notin> set (business_role_permissions r)"
    using o override_not_granted manager_within_owner
      cashier_within_manager seller_within_cashier by (cases r) (auto simp: location_manager_grants_def)
  with i show ?thesis by (simp add: in_all_role_permissions)
qed

text \<open>C19: The guard in front of the handlers decides by the catalog, once the catalog is in force or
  a request can put it in force: a request passes exactly when its handler declares no key, is public, or
  its membership role is granted every declared key; otherwise it is refused with \<open>PERMISSION_DENIED\<close>.
  Rights grow along seller, cashier, branch manager, owner, and along warehouse manager, branch manager:
  what the lower role is let through to, so is the one above. Nobody, the owner included, is let through
  to a handler that asks for \<open>tax.calculation.override\<close>, and no request takes the catalog out of force.\<close>
theorem permission_ladder:
  assumes "catalog_in_force ps"
  shows "((\<exists>ps'. permission_guard keys public (Some r) ps = Inr ps')
           \<longleftrightarrow> keys = [] \<or> public \<or> set keys \<subseteq> set (all_role_permissions r))
    \<and> (\<forall>e. permission_guard keys public (Some r) ps = Inl e \<longrightarrow> e = DomainError ''PERMISSION_DENIED'')
    \<and> (\<forall>ps' r'. permission_guard keys public (Some r) ps = Inr ps' \<and> above r = Some r'
           \<longrightarrow> catalog_in_force ps' \<and> (\<exists>ps''. permission_guard keys public (Some r') ps = Inr ps''))
    \<and> (\<not> public \<and> ''tax.calculation.override'' \<in> set keys
           \<longrightarrow> permission_guard keys public (Some r) ps = Inl (DomainError ''PERMISSION_DENIED''))"
proof (intro conjI allI impI)
  show "(\<exists>ps'. permission_guard keys public (Some r) ps = Inr ps')
      \<longleftrightarrow> keys = [] \<or> public \<or> set keys \<subseteq> set (all_role_permissions r)"
    using guard_Inr_iff [OF assms] by (simp add: permitted_def)
next
  fix e assume "permission_guard keys public (Some r) ps = Inl e"
  then show "e = DomainError ''PERMISSION_DENIED''"
    using guard_permits [OF assms, of keys public r] guard_denies [OF assms, of keys public r]
    by (cases "permitted keys public r") auto
next
  fix ps' r' assume a: "permission_guard keys public (Some r) ps = Inr ps' \<and> above r = Some r'"
  then have p: "permitted keys public r" using guard_Inr_iff [OF assms] by blast
  show "catalog_in_force ps'" using guard_permits [OF assms p] a by auto
  show "\<exists>ps''. permission_guard keys public (Some r') ps = Inr ps''"
    using guard_permits [OF assms permitted_grows [OF _ p]] a by blast
next
  assume "\<not> public \<and> ''tax.calculation.override'' \<in> set keys"
  then have "\<not> permitted keys public r" using override_denied [of r] by (auto simp: permitted_def)
  then show "permission_guard keys public (Some r) ps = Inl (DomainError ''PERMISSION_DENIED'')"
    by (rule guard_denies [OF assms])
qed

text \<open>The store of a deployment still on the first policy, which granted the identity keys only.\<close>

definition first_policy :: "policy_snapshot list" where
  "first_policy = [\<lparr>py_version = 1, py_grants = (\<lambda>r. Some (system_role_permissions r)), py_active = True\<rparr>]"

lemma first_policy_in_force: "catalog_in_force first_policy"
  by (simp add: first_policy_def catalog_in_force_def current_snapshot_def permission_policy_current_version_def)

lemma permission_ladder_witness:
  "(\<exists>ps'. permission_guard [''customer.profile.search''] False (Some Seller_Member) first_policy = Inr ps')
   \<and> (\<exists>ps'. permission_guard [''customer.profile.search''] False (Some Cashier_Member) first_policy = Inr ps')
   \<and> permission_guard [''tax.calculation.override''] False (Some Tenant_Owner) first_policy
       = Inl (DomainError ''PERMISSION_DENIED'')"
proof (intro conjI)
  have "''customer.profile.search'' \<in> set (all_role_permissions Seller_Member)"
    by (simp add: in_all_role_permissions seller_grants_def)
  then have "set [''customer.profile.search''] \<subseteq> set (all_role_permissions Seller_Member)" by simp
  then show s: "\<exists>ps'. permission_guard [''customer.profile.search''] False (Some Seller_Member) first_policy = Inr ps'"
    using conjunct1 [OF permission_ladder [OF first_policy_in_force,
        where keys = "[''customer.profile.search'']" and public = False and r = Seller_Member]] by blast
  have "above Seller_Member = Some Cashier_Member" by simp
  then show "\<exists>ps'. permission_guard [''customer.profile.search''] False (Some Cashier_Member) first_policy = Inr ps'"
    using conjunct1 [OF conjunct2 [OF conjunct2 [OF permission_ladder [OF first_policy_in_force,
        where keys = "[''customer.profile.search'']" and public = False and r = Seller_Member]]]] s by blast
  show "permission_guard [''tax.calculation.override''] False (Some Tenant_Owner) first_policy
      = Inl (DomainError ''PERMISSION_DENIED'')"
    by (rule mp [OF conjunct2 [OF conjunct2 [OF conjunct2 [OF permission_ladder [OF first_policy_in_force]]]]]) simp
qed

lemma no_quote_for_the_till:
  "r \<in> {Cashier_Member, Warehouse_Member, Seller_Member} \<Longrightarrow>
     ''pricing.price-book.view'' \<notin> set (all_role_permissions r)"
  by (auto simp: in_all_role_permissions cashier_grants_def warehouse_manager_grants_def seller_grants_def)

lemma no_margin_for_the_warehouse: "''reports.sales.view-cost-margin'' \<notin> set (all_role_permissions Warehouse_Member)"
  by (simp add: in_all_role_permissions warehouse_manager_grants_def)

lemma grants_keep: "c \<in> set cs \<Longrightarrow> c \<in> set (fold (\<lambda>c cs. if c \<in> set capabilities then set_add c cs else cs) gs cs)"
  by (induction gs arbitrary: cs) (auto simp: set_add_def)

lemma effective_keeps: "c \<in> set (capabilities_for r) \<Longrightarrow> c \<in> set (effective_capabilities r granted None)"
  by (cases r) (auto simp: effective_capabilities_def intro: grants_keep)

lemma roles_guard_capability:
  "c \<in> set capabilities \<Longrightarrow> roles_guard rs (Some [c]) (Some (r, cs)) \<longleftrightarrow> c \<in> set cs"
  by (simp add: roles_guard_def)

text \<open>The two guards do not agree on the quote. \<open>POST /pricing/calculate\<close> asks for the capability
  \<open>products.read\<close>, which every legacy role has, and for \<open>pricing.price-book.view\<close>, which the catalog
  grants to the owner and the branch manager only: once the catalog is in force every quote a cashier, a
  warehouse manager or a seller asks for is refused, so the promotion and coupon evaluation behind it
  never reaches the till either. In the same way the profit report lets the
  warehouse manager through the older guard and is refused by the newer one.\<close>
theorem quote_refused_at_the_till:
  assumes "catalog_in_force ps" and "r \<in> {Cashier, Warehouse_Manager, Seller}"
  shows "roles_guard None (Some [''products.read'']) (Some (r, effective_capabilities r granted None))
    \<and> permission_guard [''pricing.price-book.view''] False (Some (membership_role_of r)) ps
        = Inl (DomainError ''PERMISSION_DENIED'')
    \<and> roles_guard (Some [Owner, Branch_Manager, Warehouse_Manager]) (Some [''reports.read''])
        (Some (Warehouse_Manager, effective_capabilities Warehouse_Manager granted None))
    \<and> permission_guard [''reports.sales.view-cost-margin''] False (Some Warehouse_Member) ps
        = Inl (DomainError ''PERMISSION_DENIED'')"
proof -
  have c: "''products.read'' \<in> set capabilities" "''reports.read'' \<in> set capabilities"
    by (simp_all add: capabilities_def)
  have "''products.read'' \<in> set (effective_capabilities r granted None)"
    using assms(2) by (intro effective_keeps) auto
  moreover have "''reports.read'' \<in> set (effective_capabilities Warehouse_Manager granted None)"
    by (intro effective_keeps) simp
  moreover have "membership_role_of r \<in> {Cashier_Member, Warehouse_Member, Seller_Member}" using assms(2) by auto
  then have "\<not> permitted [''pricing.price-book.view''] False (membership_role_of r)"
    using no_quote_for_the_till by (simp add: permitted_def)
  moreover have "\<not> permitted [''reports.sales.view-cost-margin''] False Warehouse_Member"
    using no_margin_for_the_warehouse by (simp add: permitted_def)
  ultimately show ?thesis by (simp only: roles_guard_capability c guard_denies [OF assms(1)] simp_thms)
qed

lemma quote_refused_at_the_till_witness:
  "permission_guard [''pricing.price-book.view''] False (Some Cashier_Member) first_policy
     = Inl (DomainError ''PERMISSION_DENIED'')
   \<and> roles_guard None (Some [''products.read'']) (Some (Cashier, effective_capabilities Cashier None None))"
  using quote_refused_at_the_till [OF first_policy_in_force, of Cashier None] by simp

end
