(* ===== verification/Guarded_Rows.thy ===== *)
theory Guarded_Rows
  imports Js_Arrays
begin

text \<open>
  Rows the backend administers through guarded updates: \<open>updateMany\<close>, whose \<open>where\<close> clause carries the
  status the row has to have, unique indexes, and the histories such updates can produce. The
  services for price books, tax codes, promotions and coupons all write their tables this way.
\<close>

section \<open>Statements\<close>

text \<open>\<open>updateMany({ where, data })\<close>: the number of rows hit, and the table after it.\<close>

definition update_many :: "('r \<Rightarrow> bool) \<Rightarrow> ('r \<Rightarrow> 'r) \<Rightarrow> 'r list \<Rightarrow> nat \<times> 'r list" where
  "update_many p f rows = (length (filter p rows), map (\<lambda>r. if p r then f r else r) rows)"

text \<open>The code Prisma gives a statement a unique index refuses.\<close>

definition unique_violation :: error where
  "unique_violation = JsError ''P2002''"

text \<open>
  A handler that turns the refusal of a unique index into a domain error and lets every other
  error through.
\<close>

definition as_conflict :: "'a result \<Rightarrow> string \<Rightarrow> 'a result" where
  "as_conflict operation code = (case operation of
     Inl e \<Rightarrow> if e = unique_violation then Inl (DomainError code) else Inl e
   | Inr x \<Rightarrow> Inr x)"

lemma as_conflict_Inr [result_simps]: "as_conflict m code = Inr x \<longleftrightarrow> m = Inr x"
  by (cases m) (auto simp: as_conflict_def)

lemma as_conflict_simps [simp]: "as_conflict (Inr x) code = Inr x"
  by (simp add: as_conflict_def)

text \<open>A unique index over the rows a condition selects: no two of them have one key.\<close>

definition unique_on :: "('r \<Rightarrow> bool) \<Rightarrow> ('r \<Rightarrow> 'k) \<Rightarrow> 'r list \<Rightarrow> bool" where
  "unique_on p key rows = distinct (map key (filter p rows))"

section \<open>Rows under guarded updates\<close>

lemma list_all2_map_id: "(\<And>x. x \<in> set xs \<Longrightarrow> R x (f x)) \<Longrightarrow> list_all2 R xs (map f xs)"
  by (simp add: list_all2_map2 list.rel_refl_strong)

lemma update_many_rows:
  assumes "update_many p f rows = (n, rows')" and "\<And>r. r \<in> set rows \<Longrightarrow> R r r"
    and "\<And>r. r \<in> set rows \<Longrightarrow> p r \<Longrightarrow> R r (f r)"
  shows "list_all2 R rows rows'"
proof -
  have "rows' = map (\<lambda>r. if p r then f r else r) rows" using assms(1) by (simp add: update_many_def)
  then show ?thesis using assms(2,3) by (auto intro: list_all2_map_id)
qed

lemma filter_key_single:
  assumes "distinct (map key rows)" and "r \<in> set rows"
  shows "filter (\<lambda>x. key x = key r) rows = [r]"
  using assms
proof (induction rows)
  case (Cons x rows)
  show ?case
  proof (cases "key x = key r")
    case True
    then have "r = x" using Cons.prems by (auto simp: image_iff)
    moreover have "filter (\<lambda>y. key y = key x) rows = []"
      using Cons.prems(1) by (auto simp: filter_empty_conv image_iff)
    ultimately show ?thesis by simp
  next
    case False
    then show ?thesis using Cons by auto
  qed
qed simp

text \<open>An index says: two rows it covers with the same key are one row.\<close>

lemma unique_on_same:
  assumes "unique_on p key rows" and "r \<in> set rows" "s \<in> set rows" "p r" "p s" "key r = key s"
  shows "r = s"
proof -
  have "inj_on key (set (filter p rows))" using assms(1) by (simp add: unique_on_def distinct_map)
  then show ?thesis using assms by (auto dest: inj_onD)
qed

lemma distinct_map_same:
  assumes "distinct (map key rows)" and "r \<in> set rows" "s \<in> set rows" "key r = key s"
  shows "r = s"
  using assms by (auto simp: distinct_map dest: inj_onD)

lemma map_key_update:
  "(\<And>x. key (f x) = key x) \<Longrightarrow> map key (map (\<lambda>x. if p x then f x else x) xs) = map key xs"
  by (induction xs) auto

text \<open>A guard \<open>column && column === actor\<close> that lets an actor with a name through.\<close>

lemma not_same_actor: "\<not> (truthy x \<and> x = Some a) \<Longrightarrow> a \<noteq> [] \<Longrightarrow> x \<noteq> Some a"
  by auto

lemma list_all2_in_right: "list_all2 R xs ys \<Longrightarrow> y \<in> set ys \<Longrightarrow> \<exists>x \<in> set xs. R x y"
  by (induction rule: list_all2_induct) auto

section \<open>Histories\<close>

text \<open>
  A system whose steps let each row of a table move and append rows that are born in a known
  form. \<open>moves\<close> relates a row before and after one step.
\<close>

locale row_history =
  fixes rows :: "'s \<Rightarrow> 'r list"
    and step :: "'s \<Rightarrow> 's \<Rightarrow> bool"
    and moves :: "'r \<Rightarrow> 'r \<Rightarrow> bool"
    and born :: "'r \<Rightarrow> bool"
  assumes step_rows: "step s t \<Longrightarrow> \<exists>old new. rows t = old @ new \<and> list_all2 moves (rows s) old \<and> list_all born new"
begin

text \<open>What holds of rows when they are born and is kept by their moves holds of all rows, always.\<close>

lemma rows_invariant:
  assumes "step\<^sup>*\<^sup>* s t" and "list_all I (rows s)"
    and "\<And>r. born r \<Longrightarrow> I r" and "\<And>r r'. moves r r' \<Longrightarrow> I r \<Longrightarrow> I r'"
  shows "list_all I (rows t)"
  using assms(1,2)
proof (induction rule: rtranclp_induct)
  case (step t u)
  obtain old new where u: "rows u = old @ new" "list_all2 moves (rows t) old" "list_all born new"
    using step_rows [OF step.hyps(2)] by blast
  have "list_all I old" using u(2) step.IH [OF step.prems] assms(4)
    by (auto simp: list_all2_conv_all_nth list_all_length)
  moreover have "list_all I new" using u(3) assms(3) by (auto simp: list_all_iff)
  ultimately show ?case using u(1) by simp
qed

text \<open>No row is lost, and every row moves the way single rows move.\<close>

lemma rows_move:
  assumes "step\<^sup>*\<^sup>* s t" and "i < length (rows s)"
  shows "i < length (rows t) \<and> moves\<^sup>*\<^sup>* (rows s ! i) (rows t ! i)"
  using assms
proof (induction rule: rtranclp_induct)
  case (step t u)
  obtain old new where u: "rows u = old @ new" "list_all2 moves (rows t) old"
    using step_rows [OF step.hyps(2)] by blast
  have i: "i < length (rows t)" "moves\<^sup>*\<^sup>* (rows s ! i) (rows t ! i)" using step.IH [OF step.prems] by auto
  have "i < length old" using i(1) u(2) by (simp add: list_all2_lengthD)
  moreover have "moves (rows t ! i) (old ! i)" using u(2) i(1) by (simp add: list_all2_conv_all_nth)
  ultimately show ?case using u(1) i(2) by (auto simp: nth_append intro: rtranclp.rtrancl_into_rtrancl)
qed simp

end

end
