(* ===== verification/Price_Books.thy ===== *)
theory Price_Books
  imports Guarded_Rows Permissions Pricing
begin

text \<open>
  The administration of price books: \<open>backend/src/pricing/price-book.service.ts\<close> over
  \<open>price-book.repository.ts\<close>, with the indexes and checks of the two tables they write
  (\<open>backend/prisma/migrations/202608070001\<close> and \<open>202608070002\<close>) and the guards of
  \<open>price-book.controller.ts\<close>. A handler checks in one statement and writes in a later one; \<open>book_race\<close> lets the
  handlers of several requests overlap. The time stamps of the transitions are left out: nothing reads them.
\<close>

section \<open>The tables\<close>

datatype book_scope = Tenant_Default | Location_Book | Customer_Group | Contract | Wholesale

datatype book_status =
    Book_Draft | Book_Submitted | Book_Approved | Book_Scheduled | Book_Active | Book_Ended | Book_Archived

record price_book =
  pb_id :: string
  pb_tenant :: string
  pb_name :: string
  pb_currency :: string
  pb_scope :: book_scope
  pb_ref :: "string option"
  pb_status :: book_status
  pb_default :: bool
  pb_effective_from :: "int option"
  pb_created_by :: "string option"
  pb_submitted_by :: "string option"
  pb_approved_by :: "string option"
  pb_scheduled_by :: "string option"
  pb_activated_by :: "string option"
  pb_ended_by :: "string option"

text \<open>A row of \<open>PriceBookEntry\<close>; the columns the price engine reads are those of \<open>price_entry\<close>.\<close>

record book_entry = price_entry +
  be_tenant :: string
  be_status :: string
  be_effective_from :: int
  be_effective_to :: "int option"
  be_allow_zero :: bool
  be_tax_percent :: rat
  be_version :: int
  be_superseded_by :: "string option"
  be_created_by :: "string option"

text \<open>
  \<open>bs_currency\<close> is the default currency of each tenant there is, \<open>bs_policy\<close> the stored permission
  policy the entry operations consult.
\<close>

record book_store =
  bs_currency :: "(string \<times> string) list"
  bs_policy :: "policy_snapshot list"
  bs_books :: "price_book list"
  bs_entries :: "book_entry list"

text \<open>\<open>COALESCE(ref, '00000000-...')\<close> in the two indexes.\<close>

definition zero_uuid :: string where
  "zero_uuid = ''00000000-0000-0000-0000-000000000000''"

definition ref_key :: "string option \<Rightarrow> string" where
  "ref_key r = (case r of None \<Rightarrow> zero_uuid | Some i \<Rightarrow> i)"

definition default_key :: "price_book \<Rightarrow> string \<times> string \<times> book_scope \<times> string" where
  "default_key b = (pb_tenant b, pb_currency b, pb_scope b, ref_key (pb_ref b))"

definition active_default :: "price_book \<Rightarrow> bool" where
  "active_default b \<longleftrightarrow> pb_default b \<and> pb_status b = Book_Active"

definition entry_key :: "book_entry \<Rightarrow> string \<times> scope_type \<times> string \<times> rat" where
  "entry_key e = (pe_book e, pe_scope e, ref_key (pe_scope_id e), pe_min_qty e)"

definition active_entry :: "book_entry \<Rightarrow> bool" where
  "active_entry e \<longleftrightarrow> be_status e = ''active''"

definition entry_checks :: "book_entry \<Rightarrow> bool" where
  "entry_checks e \<longleftrightarrow> 0 \<le> pe_unit_price e \<and> (0 < pe_unit_price e \<or> be_allow_zero e) \<and> 0 < pe_min_qty e"

text \<open>A statement takes effect when the primary key and the partial indexes allow its result.\<close>

definition put_books :: "price_book list \<Rightarrow> book_store \<Rightarrow> book_store result" where
  "put_books bs st =
     (if distinct (map pb_id bs) \<and> unique_on active_default default_key bs then Inr (st\<lparr>bs_books := bs\<rparr>)
      else Inl unique_violation)"

definition put_entries :: "book_entry list \<Rightarrow> book_store \<Rightarrow> book_store result" where
  "put_entries es st =
     (if \<not> list_all entry_checks es then Inl (JsError ''check_violation'')
      else if distinct (map pe_id es) \<and> unique_on active_entry entry_key es then Inr (st\<lparr>bs_entries := es\<rparr>)
      else Inl unique_violation)"

section \<open>The repository\<close>

definition find_book :: "string \<Rightarrow> string \<Rightarrow> price_book list \<Rightarrow> price_book option" where
  "find_book tenant i bs = find (\<lambda>b. pb_id b = i \<and> pb_tenant b = tenant) bs"

definition book_in_tenant :: "string \<Rightarrow> string \<Rightarrow> book_store \<Rightarrow> price_book result" where
  "book_in_tenant tenant i st = or_throw (find_book tenant i (bs_books st)) (DomainError ''RESOURCE_NOT_FOUND'')"

definition entry_in_tenant :: "string \<Rightarrow> string \<Rightarrow> book_store \<Rightarrow> book_entry result" where
  "entry_in_tenant tenant i st =
     or_throw (find (\<lambda>e. pe_id e = i \<and> be_tenant e = tenant) (bs_entries st)) (DomainError ''RESOURCE_NOT_FOUND'')"

definition insert_book :: "price_book \<Rightarrow> book_store \<Rightarrow> (price_book \<times> book_store) result" where
  "insert_book b st = and_then (put_books (bs_books st @ [b]) st) (\<lambda>st'. Inr (b, st'))"

definition update_draft_name :: "string \<Rightarrow> string \<Rightarrow> string \<Rightarrow> book_store \<Rightarrow> (price_book \<times> book_store) result" where
  "update_draft_name tenant i name st =
     and_then (book_in_tenant tenant i st) (\<lambda>b.
     and_then (put_books (map (\<lambda>x. if pb_id x = i then x\<lparr>pb_name := name\<rparr> else x) (bs_books st)) st) (\<lambda>st'.
     Inr (b\<lparr>pb_name := name\<rparr>, st')))"

definition invalid_book_transition :: error where
  "invalid_book_transition = DomainError ''PRICING_PRICE_BOOK_INVALID_TRANSITION''"

definition book_transition ::
  "string \<Rightarrow> string \<Rightarrow> book_status list \<Rightarrow> book_status \<Rightarrow> (price_book \<Rightarrow> price_book) \<Rightarrow> book_store
     \<Rightarrow> (price_book \<times> book_store) result" where
  "book_transition tenant i from_statuses to_status data st =
     (let (count, bs) = update_many (\<lambda>b. pb_id b = i \<and> pb_tenant b = tenant \<and> pb_status b \<in> set from_statuses)
                          (\<lambda>b. (data b)\<lparr>pb_status := to_status\<rparr>) (bs_books st) in
      and_then (put_books bs st) (\<lambda>st'.
        if count \<noteq> 1 then
          and_then (book_in_tenant tenant i st') (\<lambda>current. Inl invalid_book_transition)
        else and_then (book_in_tenant tenant i st') (\<lambda>b. Inr (b, st'))))"

definition repo_end_book :: "string \<Rightarrow> string \<Rightarrow> string \<Rightarrow> book_store \<Rightarrow> (price_book \<times> book_store) result" where
  "repo_end_book tenant i actor =
     book_transition tenant i [Book_Active] Book_Ended (\<lambda>b. b\<lparr>pb_ended_by := Some actor, pb_default := False\<rparr>)"

definition insert_entry :: "book_entry \<Rightarrow> book_store \<Rightarrow> (book_entry \<times> book_store) result" where
  "insert_entry e st = and_then (put_entries (bs_entries st @ [e]) st) (\<lambda>st'. Inr (e, st'))"

definition immutable_entry :: error where
  "immutable_entry = DomainError ''PRICING_ENTRY_IMMUTABLE''"

record entry_data =
  ed_unit_price :: rat
  ed_allow_zero :: bool
  ed_tax_percent :: rat
  ed_tax_mode :: tax_mode
  ed_floor_price :: "rat option"
  ed_created_by :: string

definition successor_of :: "book_entry \<Rightarrow> string \<Rightarrow> string \<Rightarrow> int \<Rightarrow> entry_data \<Rightarrow> book_entry" where
  "successor_of previous tenant next_id now data =
     \<lparr>pe_id = next_id, pe_book = pe_book previous, pe_scope = pe_scope previous, pe_scope_id = pe_scope_id previous,
      pe_min_qty = pe_min_qty previous, pe_unit_price = ed_unit_price data, pe_tax_mode = ed_tax_mode data,
      pe_floor_price = ed_floor_price data, be_tenant = tenant, be_status = ''active'', be_effective_from = now,
      be_effective_to = None, be_allow_zero = ed_allow_zero data, be_tax_percent = ed_tax_percent data,
      be_version = be_version previous + 1, be_superseded_by = None, be_created_by = Some (ed_created_by data)\<rparr>"

text \<open>
  \<open>supersedeEntry\<close> reads the entry in a statement of its own; the two writes are one transaction, which finds
  the entry again by its id and its status.
\<close>

definition supersede_read :: "string \<Rightarrow> string \<Rightarrow> book_store \<Rightarrow> book_entry result" where
  "supersede_read tenant previous_id st =
     and_then (entry_in_tenant tenant previous_id st) (\<lambda>previous.
     and_then (throw_if (be_status previous \<noteq> ''active'') immutable_entry) (\<lambda>_. Inr previous))"

definition supersede_transaction ::
  "string \<Rightarrow> book_entry \<Rightarrow> string \<Rightarrow> int \<Rightarrow> entry_data \<Rightarrow> book_store \<Rightarrow> (book_entry \<times> book_store) result" where
  "supersede_transaction tenant previous next_id now data st =
     (let (count, es) = update_many (\<lambda>e. pe_id e = pe_id previous \<and> be_tenant e = tenant \<and> be_status e = ''active'')
                          (\<lambda>e. e\<lparr>be_status := ''superseded'', be_superseded_by := Some next_id\<rparr>) (bs_entries st) in
      and_then (put_entries es st) (\<lambda>st'.
      and_then (throw_if (count \<noteq> 1) immutable_entry) (\<lambda>_.
      insert_entry (successor_of previous tenant next_id now data) st')))"

definition repo_supersede_entry ::
  "string \<Rightarrow> string \<Rightarrow> string \<Rightarrow> int \<Rightarrow> entry_data \<Rightarrow> book_store \<Rightarrow> (book_entry \<times> book_store) result" where
  "repo_supersede_entry tenant previous_id next_id now data st =
     and_then (supersede_read tenant previous_id st) (\<lambda>previous.
     supersede_transaction tenant previous next_id now data st)"

section \<open>The service\<close>

record book_actor =
  ba_sub :: string
  ba_role :: "membership_role option"

definition create_book ::
  "string \<Rightarrow> string \<Rightarrow> string \<Rightarrow> string \<Rightarrow> string option \<Rightarrow> book_scope option \<Rightarrow> string option \<Rightarrow> bool option \<Rightarrow> book_store
     \<Rightarrow> (price_book \<times> book_store) result" where
  "create_book tenant actor new_id name currency scope ref is_default st =
     and_then (or_throw (map_of (bs_currency st) tenant) (DomainError ''RESOURCE_NOT_FOUND'')) (\<lambda>operating.
     let cur = (case currency of None \<Rightarrow> operating | Some c \<Rightarrow> c) in
     and_then (throw_if (cur \<noteq> operating) (DomainError ''PRICING_CURRENCY_MISMATCH'')) (\<lambda>_.
     as_conflict (insert_book
       \<lparr>pb_id = new_id, pb_tenant = tenant, pb_name = name, pb_currency = cur,
        pb_scope = (case scope of None \<Rightarrow> Tenant_Default | Some s \<Rightarrow> s), pb_ref = ref, pb_status = Book_Draft,
        pb_default = (is_default = Some True), pb_effective_from = None, pb_created_by = Some actor,
        pb_submitted_by = None, pb_approved_by = None, pb_scheduled_by = None, pb_activated_by = None,
        pb_ended_by = None\<rparr> st) ''PRICING_DEFAULT_PRICE_BOOK_CONFLICT''))"

text \<open>
  A handler that reads a row, checks it and writes afterwards is two definitions, the check and the write, and
  their composition; between the two, other requests may be served (\<open>book_race\<close>).
\<close>

definition update_draft_check :: "string \<Rightarrow> string \<Rightarrow> book_store \<Rightarrow> unit result" where
  "update_draft_check tenant i st =
     and_then (book_in_tenant tenant i st) (\<lambda>b. throw_if (pb_status b \<noteq> Book_Draft) invalid_book_transition)"

definition update_book_draft :: "string \<Rightarrow> string \<Rightarrow> string \<Rightarrow> book_store \<Rightarrow> (price_book \<times> book_store) result" where
  "update_book_draft tenant i name st =
     and_then (update_draft_check tenant i st) (\<lambda>_. update_draft_name tenant i name st)"

definition submit_book :: "string \<Rightarrow> string \<Rightarrow> string \<Rightarrow> book_store \<Rightarrow> (price_book \<times> book_store) result" where
  "submit_book tenant actor i =
     book_transition tenant i [Book_Draft] Book_Submitted (\<lambda>b. b\<lparr>pb_submitted_by := Some actor\<rparr>)"

definition approve_check :: "string \<Rightarrow> string \<Rightarrow> string \<Rightarrow> book_store \<Rightarrow> unit result" where
  "approve_check tenant actor i st =
     and_then (book_in_tenant tenant i st) (\<lambda>b.
     and_then (throw_if (truthy (pb_created_by b) \<and> pb_created_by b = Some actor)
                 (DomainError ''PRICING_PRICE_BOOK_SELF_APPROVAL_FORBIDDEN'')) (\<lambda>_.
     throw_if (truthy (pb_submitted_by b) \<and> pb_submitted_by b = Some actor)
       (DomainError ''PRICING_PRICE_BOOK_SELF_APPROVAL_FORBIDDEN'')))"

definition approve_write :: "string \<Rightarrow> string \<Rightarrow> string \<Rightarrow> book_store \<Rightarrow> (price_book \<times> book_store) result" where
  "approve_write tenant actor i =
     book_transition tenant i [Book_Submitted] Book_Approved (\<lambda>b. b\<lparr>pb_approved_by := Some actor\<rparr>)"

definition approve_book :: "string \<Rightarrow> string \<Rightarrow> string \<Rightarrow> book_store \<Rightarrow> (price_book \<times> book_store) result" where
  "approve_book tenant actor i st = and_then (approve_check tenant actor i st) (\<lambda>_. approve_write tenant actor i st)"

definition schedule_book ::
  "string \<Rightarrow> string \<Rightarrow> string \<Rightarrow> int option \<Rightarrow> book_store \<Rightarrow> (price_book \<times> book_store) result" where
  "schedule_book tenant actor i effective_from =
     book_transition tenant i [Book_Approved] Book_Scheduled
       (\<lambda>b. b\<lparr>pb_scheduled_by := Some actor,
              pb_effective_from := (case effective_from of None \<Rightarrow> pb_effective_from b | Some t \<Rightarrow> Some t)\<rparr>)"

definition activate_in_transaction ::
  "string \<Rightarrow> string \<Rightarrow> string \<Rightarrow> price_book \<Rightarrow> book_store \<Rightarrow> (price_book \<times> book_store) result" where
  "activate_in_transaction tenant actor i book st =
     and_then
       (if \<not> pb_default book then Inr st
        else case find (\<lambda>b. pb_tenant b = tenant \<and> pb_currency b = pb_currency book \<and> pb_scope b = pb_scope book
                         \<and> pb_ref b = pb_ref book \<and> pb_default b \<and> pb_status b = Book_Active
                         \<and> pb_id b \<noteq> pb_id book) (bs_books st) of
          None \<Rightarrow> Inr st
        | Some previous \<Rightarrow>
            put_books (map (\<lambda>b. if pb_id b = pb_id previous
                                then b\<lparr>pb_status := Book_Ended, pb_ended_by := Some actor, pb_default := False\<rparr>
                                else b) (bs_books st)) st)
       (\<lambda>st1.
     let (count, bs) = update_many (\<lambda>b. pb_id b = i \<and> pb_tenant b = tenant \<and> pb_status b = Book_Scheduled)
                         (\<lambda>b. b\<lparr>pb_status := Book_Active, pb_activated_by := Some actor\<rparr>) (bs_books st1) in
     and_then (put_books bs st1) (\<lambda>st2.
     and_then (throw_if (count \<noteq> 1) invalid_book_transition) (\<lambda>_.
     and_then (book_in_tenant tenant i st2) (\<lambda>b. Inr (b, st2)))))"

definition activate_check :: "string \<Rightarrow> string \<Rightarrow> book_store \<Rightarrow> price_book result" where
  "activate_check tenant i st =
     and_then (book_in_tenant tenant i st) (\<lambda>book.
     and_then (throw_if (pb_status book \<noteq> Book_Scheduled) invalid_book_transition) (\<lambda>_. Inr book))"

definition activate_write ::
  "string \<Rightarrow> string \<Rightarrow> string \<Rightarrow> price_book \<Rightarrow> book_store \<Rightarrow> (price_book \<times> book_store) result" where
  "activate_write tenant actor i book st =
     as_conflict (activate_in_transaction tenant actor i book st) ''PRICING_DEFAULT_PRICE_BOOK_CONFLICT''"

definition activate_book :: "string \<Rightarrow> string \<Rightarrow> string \<Rightarrow> book_store \<Rightarrow> (price_book \<times> book_store) result" where
  "activate_book tenant actor i st =
     and_then (activate_check tenant i st) (\<lambda>book. activate_write tenant actor i book st)"

definition end_book :: "string \<Rightarrow> string \<Rightarrow> string \<Rightarrow> book_store \<Rightarrow> (price_book \<times> book_store) result" where
  "end_book tenant actor i = repo_end_book tenant i actor"

text \<open>Entries of a live book take the right to make prices live as well.\<close>

definition assert_entries_manageable :: "book_status \<Rightarrow> book_actor \<Rightarrow> book_store \<Rightarrow> book_store result" where
  "assert_entries_manageable status actor st =
     and_then (throw_if (status \<noteq> Book_Draft \<and> status \<noteq> Book_Active) invalid_book_transition) (\<lambda>_.
     if status \<noteq> Book_Active then Inr st
     else case ba_role actor of
       None \<Rightarrow> Inl invalid_book_transition
     | Some r \<Rightarrow>
         and_then (has_permission r ''pricing.price-book.activate'' (bs_policy st)) (\<lambda>(allowed, ps).
         and_then (throw_if (\<not> allowed) invalid_book_transition) (\<lambda>_. Inr (st\<lparr>bs_policy := ps\<rparr>))))"

definition assert_valid_price :: "rat \<Rightarrow> bool \<Rightarrow> unit result" where
  "assert_valid_price unit_price allow_zero =
     and_then (throw_if (unit_price < 0) (DomainError ''PRICING_ZERO_OR_NEGATIVE_PRICE_NOT_ALLOWED'')) (\<lambda>_.
     throw_if (unit_price = 0 \<and> \<not> allow_zero) (DomainError ''PRICING_ZERO_OR_NEGATIVE_PRICE_NOT_ALLOWED''))"

record create_entry_dto =
  ce_book :: string
  ce_scope :: scope_type
  ce_scope_id :: "string option"
  ce_min_qty :: "rat option"
  ce_unit_price :: rat
  ce_allow_zero :: "bool option"
  ce_tax_percent :: "rat option"
  ce_tax_mode :: tax_mode
  ce_floor_price :: "rat option"

definition create_entry_check ::
  "string \<Rightarrow> book_actor \<Rightarrow> string \<Rightarrow> int \<Rightarrow> create_entry_dto \<Rightarrow> book_store \<Rightarrow> (book_entry \<times> book_store) result" where
  "create_entry_check tenant actor new_id now dto st =
     and_then (book_in_tenant tenant (ce_book dto) st) (\<lambda>book.
     and_then (assert_entries_manageable (pb_status book) actor st) (\<lambda>st1.
     and_then (throw_if (ce_scope dto \<noteq> Global_Scope \<and> \<not> truthy (ce_scope_id dto))
                 (DomainError ''REQUEST_FIELD_VALUE_INVALID'')) (\<lambda>_.
     and_then (assert_valid_price (ce_unit_price dto) (ce_allow_zero dto = Some True)) (\<lambda>_.
     Inr (\<lparr>pe_id = new_id, pe_book = pb_id book, pe_scope = ce_scope dto,
        pe_scope_id = (if ce_scope dto = Global_Scope then None else ce_scope_id dto),
        pe_min_qty = (case ce_min_qty dto of None \<Rightarrow> 1 | Some q \<Rightarrow> q), pe_unit_price = ce_unit_price dto,
        pe_tax_mode = ce_tax_mode dto, pe_floor_price = ce_floor_price dto, be_tenant = tenant,
        be_status = ''active'', be_effective_from = now, be_effective_to = None,
        be_allow_zero = (ce_allow_zero dto = Some True),
        be_tax_percent = (case ce_tax_percent dto of None \<Rightarrow> 14 | Some p \<Rightarrow> p), be_version = 1,
        be_superseded_by = None, be_created_by = Some (ba_sub actor)\<rparr>, st1)))))"

definition create_entry_write :: "book_entry \<Rightarrow> book_store \<Rightarrow> (book_entry \<times> book_store) result" where
  "create_entry_write e st = as_conflict (insert_entry e st) ''PRICING_ENTRY_IMMUTABLE''"

definition create_entry ::
  "string \<Rightarrow> book_actor \<Rightarrow> string \<Rightarrow> int \<Rightarrow> create_entry_dto \<Rightarrow> book_store \<Rightarrow> (book_entry \<times> book_store) result" where
  "create_entry tenant actor new_id now dto st =
     and_then (create_entry_check tenant actor new_id now dto st) (\<lambda>(e, st1). create_entry_write e st1)"

record supersede_entry_dto =
  se_unit_price :: rat
  se_allow_zero :: "bool option"
  se_tax_percent :: "rat option"
  se_tax_mode :: "tax_mode option"
  se_floor_price :: "rat option"

text \<open>\<open>a ?? b\<close>\<close>

definition or_else :: "'a option \<Rightarrow> 'a \<Rightarrow> 'a" where
  "or_else a b = (case a of None \<Rightarrow> b | Some x \<Rightarrow> x)"

definition supersede_check ::
  "string \<Rightarrow> book_actor \<Rightarrow> string \<Rightarrow> supersede_entry_dto \<Rightarrow> book_store \<Rightarrow> (entry_data \<times> book_store) result" where
  "supersede_check tenant actor i dto st =
     and_then (entry_in_tenant tenant i st) (\<lambda>entry.
     and_then (book_in_tenant tenant (pe_book entry) st) (\<lambda>book.
     and_then (assert_entries_manageable (pb_status book) actor st) (\<lambda>st1.
     let allow_zero = or_else (se_allow_zero dto) (be_allow_zero entry) in
     and_then (assert_valid_price (se_unit_price dto) allow_zero) (\<lambda>_.
     Inr (\<lparr>ed_unit_price = se_unit_price dto, ed_allow_zero = allow_zero,
        ed_tax_percent = or_else (se_tax_percent dto) (be_tax_percent entry),
        ed_tax_mode = or_else (se_tax_mode dto) (pe_tax_mode entry),
        ed_floor_price = (case se_floor_price dto of None \<Rightarrow> pe_floor_price entry | Some f \<Rightarrow> Some f),
        ed_created_by = ba_sub actor\<rparr>, st1)))))"

definition supersede_entry ::
  "string \<Rightarrow> book_actor \<Rightarrow> string \<Rightarrow> string \<Rightarrow> int \<Rightarrow> supersede_entry_dto \<Rightarrow> book_store \<Rightarrow> (book_entry \<times> book_store) result" where
  "supersede_entry tenant actor i next_id now dto st =
     and_then (supersede_check tenant actor i dto st) (\<lambda>(data, st1). repo_supersede_entry tenant i next_id now data st1)"

section \<open>Requests\<close>

text \<open>The mutating routes of \<open>PriceBookController\<close>, each with the permission it declares.\<close>

datatype book_request =
    Create_Book string string "string option" "book_scope option" "string option" "bool option"
  | Rename_Book string string
  | Submit_Book string
  | Approve_Book string
  | Schedule_Book string "int option"
  | Activate_Book string
  | End_Book string
  | Create_Entry string create_entry_dto
  | Supersede_Entry string string supersede_entry_dto

fun book_route_key :: "book_request \<Rightarrow> string" where
  "book_route_key (Create_Book new_id name currency scope ref is_default) = ''pricing.price-book.create''"
| "book_route_key (Rename_Book i name) = ''pricing.price-book.update-draft''"
| "book_route_key (Submit_Book i) = ''pricing.price-book.submit''"
| "book_route_key (Approve_Book i) = ''pricing.price-book.approve''"
| "book_route_key (Schedule_Book i t) = ''pricing.price-book.schedule''"
| "book_route_key (Activate_Book i) = ''pricing.price-book.activate''"
| "book_route_key (End_Book i) = ''pricing.price-book.end''"
| "book_route_key (Create_Entry new_id dto) = ''pricing.price-entry.manage''"
| "book_route_key (Supersede_Entry i next_id dto) = ''pricing.price-entry.manage''"

fun book_route :: "string \<Rightarrow> book_actor \<Rightarrow> int \<Rightarrow> book_request \<Rightarrow> book_store \<Rightarrow> book_store result" where
  "book_route tenant actor now (Create_Book new_id name currency scope ref is_default) st =
     and_then (create_book tenant (ba_sub actor) new_id name currency scope ref is_default st) (\<lambda>(b, st'). Inr st')"
| "book_route tenant actor now (Rename_Book i name) st =
     and_then (update_book_draft tenant i name st) (\<lambda>(b, st'). Inr st')"
| "book_route tenant actor now (Submit_Book i) st =
     and_then (submit_book tenant (ba_sub actor) i st) (\<lambda>(b, st'). Inr st')"
| "book_route tenant actor now (Approve_Book i) st =
     and_then (approve_book tenant (ba_sub actor) i st) (\<lambda>(b, st'). Inr st')"
| "book_route tenant actor now (Schedule_Book i t) st =
     and_then (schedule_book tenant (ba_sub actor) i t st) (\<lambda>(b, st'). Inr st')"
| "book_route tenant actor now (Activate_Book i) st =
     and_then (activate_book tenant (ba_sub actor) i st) (\<lambda>(b, st'). Inr st')"
| "book_route tenant actor now (End_Book i) st =
     and_then (end_book tenant (ba_sub actor) i st) (\<lambda>(b, st'). Inr st')"
| "book_route tenant actor now (Create_Entry new_id dto) st =
     and_then (create_entry tenant actor new_id now dto st) (\<lambda>(e, st'). Inr st')"
| "book_route tenant actor now (Supersede_Entry i next_id dto) st =
     and_then (supersede_entry tenant actor i next_id now dto st) (\<lambda>(e, st'). Inr st')"

definition price_book_request :: "string \<Rightarrow> book_actor \<Rightarrow> int \<Rightarrow> book_request \<Rightarrow> book_store \<Rightarrow> book_store result" where
  "price_book_request tenant actor now r st =
     and_then (permission_guard [book_route_key r] False (ba_role actor) (bs_policy st)) (\<lambda>ps.
     book_route tenant actor now r (st\<lparr>bs_policy := ps\<rparr>))"

section \<open>Requests that overlap\<close>

text \<open>
  A request between its statements: admitted by the guard, or past its checks with what it is about to write.
  A statement or a \<open>$transaction\<close> takes effect at once; anything may be served between two of them.
\<close>

datatype open_request =
    Admitted string book_actor int book_request
  | Renaming string string string
  | Approving string string string
  | Activating string string string price_book
  | Pricing_Entry book_entry
  | Superseding string string string int entry_data
  | Replacing string book_entry string int entry_data

text \<open>The checks of an admitted request that has any, and what is then left to do.\<close>

fun open_check :: "open_request \<Rightarrow> book_store \<Rightarrow> (open_request \<times> book_store) result" where
  "open_check (Admitted tenant actor now (Rename_Book i name)) st =
     and_then (update_draft_check tenant i st) (\<lambda>_. Inr (Renaming tenant i name, st))"
| "open_check (Admitted tenant actor now (Approve_Book i)) st =
     and_then (approve_check tenant (ba_sub actor) i st) (\<lambda>_. Inr (Approving tenant (ba_sub actor) i, st))"
| "open_check (Admitted tenant actor now (Activate_Book i)) st =
     and_then (activate_check tenant i st) (\<lambda>book. Inr (Activating tenant (ba_sub actor) i book, st))"
| "open_check (Admitted tenant actor now (Create_Entry new_id dto)) st =
     and_then (create_entry_check tenant actor new_id now dto st) (\<lambda>(e, st1). Inr (Pricing_Entry e, st1))"
| "open_check (Admitted tenant actor now (Supersede_Entry i next_id dto)) st =
     and_then (supersede_check tenant actor i dto st) (\<lambda>(data, st1). Inr (Superseding tenant i next_id now data, st1))"
| "open_check (Superseding tenant i next_id now data) st =
     and_then (supersede_read tenant i st) (\<lambda>previous. Inr (Replacing tenant previous next_id now data, st))"
| "open_check w st = Inl (JsError ''nothing to check'')"

text \<open>The last statement of a request, or the whole of one that has a single statement.\<close>

fun open_write :: "open_request \<Rightarrow> book_store \<Rightarrow> book_store result" where
  "open_write (Admitted tenant actor now r) st = book_route tenant actor now r st"
| "open_write (Renaming tenant i name) st = and_then (update_draft_name tenant i name st) (\<lambda>(b, st'). Inr st')"
| "open_write (Approving tenant actor i) st = and_then (approve_write tenant actor i st) (\<lambda>(b, st'). Inr st')"
| "open_write (Activating tenant actor i book) st = and_then (activate_write tenant actor i book st) (\<lambda>(b, st'). Inr st')"
| "open_write (Pricing_Entry e) st = and_then (create_entry_write e st) (\<lambda>(e, st'). Inr st')"
| "open_write (Superseding tenant i next_id now data) st =
     and_then (repo_supersede_entry tenant i next_id now data st) (\<lambda>(e, st'). Inr st')"
| "open_write (Replacing tenant previous next_id now data) st =
     and_then (supersede_transaction tenant previous next_id now data st) (\<lambda>(e, st'). Inr st')"

inductive book_race :: "book_store \<times> open_request list \<Rightarrow> book_store \<times> open_request list \<Rightarrow> bool" where
  Admits: "ba_sub actor \<noteq> [] \<Longrightarrow> permission_guard [book_route_key r] False (ba_role actor) (bs_policy st) = Inr ps
    \<Longrightarrow> book_race (st, ws) (st\<lparr>bs_policy := ps\<rparr>, Admitted tenant actor now r # ws)"
| Checks: "w \<in> set ws \<Longrightarrow> open_check w st = Inr (w', st') \<Longrightarrow> book_race (st, ws) (st', w' # remove1 w ws)"
| Writes: "w \<in> set ws \<Longrightarrow> open_write w st = Inr st' \<Longrightarrow> book_race (st, ws) (st', remove1 w ws)"
| Drops: "w \<in> set ws \<Longrightarrow> book_race (st, ws) (st, remove1 w ws)"

section \<open>The rows of the price engine\<close>

text \<open>The rows the price engine joins: each entry with the columns of its book it filters by.\<close>

fun book_status_name :: "book_status \<Rightarrow> string" where
  "book_status_name Book_Draft = ''draft''"
| "book_status_name Book_Submitted = ''submitted''"
| "book_status_name Book_Approved = ''approved''"
| "book_status_name Book_Scheduled = ''scheduled''"
| "book_status_name Book_Active = ''active''"
| "book_status_name Book_Ended = ''ended''"
| "book_status_name Book_Archived = ''archived''"

definition priced_row :: "price_book list \<Rightarrow> book_entry \<Rightarrow> price_entry_row list" where
  "priced_row bs e =
     (case find (\<lambda>b. pb_id b = pe_book e \<and> pb_tenant b = be_tenant e) bs of
        None \<Rightarrow> []
      | Some b \<Rightarrow>
          [\<lparr>pe_id = pe_id e, pe_book = pe_book e, pe_scope = pe_scope e, pe_scope_id = pe_scope_id e,
            pe_min_qty = pe_min_qty e, pe_unit_price = pe_unit_price e, pe_tax_mode = pe_tax_mode e,
            pe_floor_price = pe_floor_price e, pe_tenant = be_tenant e, pe_status = be_status e,
            pe_effective_from = be_effective_from e, pe_effective_to = be_effective_to e,
            pe_book_tenant = pb_tenant b, pe_book_status = book_status_name (pb_status b),
            pe_book_default = pb_default b\<rparr>])"

definition priced_rows :: "book_store \<Rightarrow> price_entry_row list" where
  "priced_rows st = concat (map (priced_row (bs_books st)) (bs_entries st))"

end
