(* ===== verification/Price_Books_Correct.thy ===== *)
theory Price_Books_Correct
  imports Price_Books
begin

text \<open>
  What the administration of price books keeps, when its requests are served one after the other and when they
  overlap: the life of a book, the separation of its author from its approver, the prices that are frozen while they are
  under review, and what the price engine then sees.
\<close>

section \<open>Statements\<close>

definition books_indexed :: "price_book list \<Rightarrow> bool" where
  "books_indexed bs \<longleftrightarrow> distinct (map pb_id bs) \<and> unique_on active_default default_key bs"

definition entries_indexed :: "book_entry list \<Rightarrow> bool" where
  "entries_indexed es \<longleftrightarrow> list_all entry_checks es \<and> distinct (map pe_id es) \<and> unique_on active_entry entry_key es"

lemma put_books_Inr: "put_books bs st = Inr st' \<longleftrightarrow> books_indexed bs \<and> st' = st\<lparr>bs_books := bs\<rparr>"
  by (auto simp: put_books_def books_indexed_def)

lemma put_entries_Inr: "put_entries es st = Inr st' \<longleftrightarrow> entries_indexed es \<and> st' = st\<lparr>bs_entries := es\<rparr>"
  by (auto simp: put_entries_def entries_indexed_def)

lemma find_book_Some:
  "find_book tenant i bs = Some b \<Longrightarrow> b \<in> set bs \<and> pb_id b = i \<and> pb_tenant b = tenant"
  by (auto simp: find_book_def dest: find_Some_iff_set)

lemma book_in_tenant_Inr:
  "book_in_tenant tenant i st = Inr b \<Longrightarrow> b \<in> set (bs_books st) \<and> pb_id b = i \<and> pb_tenant b = tenant"
  by (auto simp: book_in_tenant_def result_simps dest: find_book_Some)

lemma entry_in_tenant_Inr:
  "entry_in_tenant tenant i st = Inr e \<Longrightarrow> e \<in> set (bs_entries st) \<and> pe_id e = i \<and> be_tenant e = tenant"
  by (auto simp: entry_in_tenant_def result_simps dest: find_Some_iff_set)

section \<open>The life of a book\<close>

text \<open>
  What one statement can do to one book. \<open>serial\<close> says that requests are served one after the other: then a
  book is renamed as a draft and its approver is not the one who submitted it. Otherwise these
  checks may be out of date when the row is written.
\<close>

inductive book_moves :: "bool \<Rightarrow> price_book \<Rightarrow> price_book \<Rightarrow> bool" for serial where
  Same: "book_moves serial b b"
| Renamed: "(serial \<Longrightarrow> pb_status b = Book_Draft) \<Longrightarrow> book_moves serial b (b\<lparr>pb_name := name\<rparr>)"
| Submits: "pb_status b = Book_Draft \<Longrightarrow> book_moves serial b (b\<lparr>pb_submitted_by := Some a, pb_status := Book_Submitted\<rparr>)"
| Approves: "pb_status b = Book_Submitted \<Longrightarrow> pb_created_by b \<noteq> Some a \<Longrightarrow> (serial \<Longrightarrow> pb_submitted_by b \<noteq> Some a)
    \<Longrightarrow> book_moves serial b (b\<lparr>pb_approved_by := Some a, pb_status := Book_Approved\<rparr>)"
| Schedules: "pb_status b = Book_Approved
    \<Longrightarrow> book_moves serial b (b\<lparr>pb_scheduled_by := Some a, pb_effective_from := t, pb_status := Book_Scheduled\<rparr>)"
| Activates: "pb_status b = Book_Scheduled
    \<Longrightarrow> book_moves serial b (b\<lparr>pb_status := Book_Active, pb_activated_by := Some a\<rparr>)"
| Ends: "pb_status b = Book_Active
    \<Longrightarrow> book_moves serial b (b\<lparr>pb_status := Book_Ended, pb_ended_by := Some a, pb_default := False\<rparr>)"

definition book_born :: "price_book \<Rightarrow> bool" where
  "book_born b \<longleftrightarrow> pb_status b = Book_Draft \<and> pb_created_by b \<noteq> None \<and> pb_submitted_by b = None
     \<and> pb_approved_by b = None"

fun book_rank :: "book_status \<Rightarrow> nat" where
  "book_rank Book_Draft = 0"
| "book_rank Book_Submitted = 1"
| "book_rank Book_Approved = 2"
| "book_rank Book_Scheduled = 3"
| "book_rank Book_Active = 4"
| "book_rank Book_Ended = 5"
| "book_rank Book_Archived = 6"

text \<open>
  From a passed review on, the approver is not the author and, when requests are served one after the
  other, not the one who submitted either.
\<close>

definition approved_by_other :: "price_book \<Rightarrow> bool" where
  "approved_by_other b \<longleftrightarrow>
     (\<exists>c s a. pb_created_by b = Some c \<and> pb_submitted_by b = Some s \<and> pb_approved_by b = Some a \<and> a \<noteq> c)"

definition independently_approved :: "price_book \<Rightarrow> bool" where
  "independently_approved b \<longleftrightarrow>
     (\<exists>c s a. pb_created_by b = Some c \<and> pb_submitted_by b = Some s \<and> pb_approved_by b = Some a \<and> a \<noteq> c \<and> a \<noteq> s)"

definition book_sound :: "bool \<Rightarrow> price_book \<Rightarrow> bool" where
  "book_sound serial b \<longleftrightarrow> pb_created_by b \<noteq> None
     \<and> (1 \<le> book_rank (pb_status b) \<longrightarrow> pb_submitted_by b \<noteq> None)
     \<and> (2 \<le> book_rank (pb_status b) \<longrightarrow> (if serial then independently_approved b else approved_by_other b))
     \<and> pb_status b \<noteq> Book_Archived"

lemma book_born_sound: "book_born b \<Longrightarrow> book_sound serial b"
  by (simp add: book_born_def book_sound_def)

lemma book_moves_sound: "book_moves serial b b' \<Longrightarrow> book_sound serial b \<Longrightarrow> book_sound serial b'"
  by (induction rule: book_moves.induct) (auto simp: book_sound_def independently_approved_def approved_by_other_def)

lemma book_moves_rank: "book_moves serial b b' \<Longrightarrow> book_rank (pb_status b) \<le> book_rank (pb_status b')"
  by (induction rule: book_moves.induct) auto

lemma book_moves_key:
  "book_moves serial b b' \<Longrightarrow> pb_id b' = pb_id b \<and> pb_tenant b' = pb_tenant b \<and> pb_currency b' = pb_currency b
     \<and> pb_scope b' = pb_scope b \<and> pb_ref b' = pb_ref b \<and> pb_created_by b' = pb_created_by b"
  by (induction rule: book_moves.induct) auto

section \<open>What each request does to the books\<close>

text \<open>The books move; no entry changes.\<close>

definition books_move :: "bool \<Rightarrow> book_store \<Rightarrow> book_store \<Rightarrow> bool" where
  "books_move serial st st' \<longleftrightarrow> (\<exists>bs. st' = st\<lparr>bs_books := bs\<rparr> \<and> list_all2 (book_moves serial) (bs_books st) bs \<and> books_indexed bs)"

lemma book_transition_Inr:
  assumes "book_transition tenant i froms to data st = Inr (b, st')"
    and "\<And>x. x \<in> set (bs_books st) \<Longrightarrow> pb_id x = i \<Longrightarrow> pb_tenant x = tenant \<Longrightarrow> pb_status x \<in> set froms
           \<Longrightarrow> book_moves serial x ((data x)\<lparr>pb_status := to\<rparr>)"
  shows "books_move serial st st'"
proof -
  obtain n bs where u: "update_many (\<lambda>b. pb_id b = i \<and> pb_tenant b = tenant \<and> pb_status b \<in> set froms)
      (\<lambda>b. (data b)\<lparr>pb_status := to\<rparr>) (bs_books st) = (n, bs)" by fastforce
  note c = assms(1) [unfolded book_transition_def u Let_def prod.case and_then_Inr_iff put_books_Inr]
  from c have "st' = st\<lparr>bs_books := bs\<rparr>" and i: "books_indexed bs"
    by (auto simp: result_simps split: if_splits)
  moreover have "list_all2 (book_moves serial) (bs_books st) bs"
    by (rule update_many_rows [OF u]) (auto intro: Same assms(2))
  ultimately show ?thesis by (auto simp: books_move_def)
qed

lemma submit_moves: "submit_book tenant actor i st = Inr (b, st') \<Longrightarrow> books_move serial st st'"
  unfolding submit_book_def by (erule book_transition_Inr) (auto intro: Submits)

lemma schedule_moves: "schedule_book tenant actor i t st = Inr (b, st') \<Longrightarrow> books_move serial st st'"
  unfolding schedule_book_def by (erule book_transition_Inr) (auto intro: Schedules)

lemma end_moves:
  assumes "end_book tenant actor i st = Inr (b, st')"
  shows "books_move serial st st'"
proof (rule book_transition_Inr [OF assms [unfolded end_book_def repo_end_book_def]])
  fix x :: price_book
  assume "pb_status x \<in> set [Book_Active]"
  then show "book_moves serial x (x\<lparr>pb_ended_by := Some actor, pb_default := False, pb_status := Book_Ended\<rparr>)"
    using Ends [of x serial actor] by (cases x) simp
qed

text \<open>
  The write of an approval after a check that the author and the submitter of the row still pass.
\<close>

lemma approve_write_moves:
  assumes "approve_write tenant actor i st = Inr (b, st')"
    and "\<And>x. x \<in> set (bs_books st) \<Longrightarrow> pb_id x = i \<Longrightarrow> pb_created_by x \<noteq> Some actor"
    and "\<And>x. serial \<Longrightarrow> x \<in> set (bs_books st) \<Longrightarrow> pb_id x = i \<Longrightarrow> pb_submitted_by x \<noteq> Some actor"
  shows "books_move serial st st'"
  using assms(1) unfolding approve_write_def
  by (rule book_transition_Inr) (use assms(2,3) in \<open>auto intro: Approves\<close>)

lemma rename_write_moves:
  assumes "update_draft_name tenant i name st = Inr (b, st')"
    and "\<And>x. serial \<Longrightarrow> x \<in> set (bs_books st) \<Longrightarrow> pb_id x = i \<Longrightarrow> pb_status x = Book_Draft"
  shows "books_move serial st st'"
proof -
  let ?bs = "map (\<lambda>x. if pb_id x = i then x\<lparr>pb_name := name\<rparr> else x) (bs_books st)"
  have st': "books_indexed ?bs" "st' = st\<lparr>bs_books := ?bs\<rparr>"
    using assms(1) by (auto simp: update_draft_name_def result_simps put_books_Inr)
  have "list_all2 (book_moves serial) (bs_books st) ?bs"
    by (rule list_all2_map_id) (use assms(2) in \<open>auto intro: Same Renamed\<close>)
  then show ?thesis using st' by (auto simp: books_move_def)
qed

lemma rename_moves:
  assumes "update_book_draft tenant i name st = Inr (b, st')" and "distinct (map pb_id (bs_books st))"
  shows "books_move serial st st'"
proof -
  obtain b0 where b0: "book_in_tenant tenant i st = Inr b0" "pb_status b0 = Book_Draft"
      "update_draft_name tenant i name st = Inr (b, st')"
    using assms(1) by (auto simp: update_book_draft_def update_draft_check_def result_simps)
  show ?thesis
    by (rule rename_write_moves [OF b0(3)])
      (use distinct_map_same [OF assms(2)] book_in_tenant_Inr [OF b0(1)] b0(2) in auto)
qed

lemma approve_check_Inr:
  assumes "approve_check tenant actor i st = Inr u" and "actor \<noteq> []"
  obtains b where "b \<in> set (bs_books st)" "pb_id b = i" "pb_created_by b \<noteq> Some actor" "pb_submitted_by b \<noteq> Some actor"
proof -
  obtain b where "book_in_tenant tenant i st = Inr b" "\<not> (truthy (pb_created_by b) \<and> pb_created_by b = Some actor)"
      "\<not> (truthy (pb_submitted_by b) \<and> pb_submitted_by b = Some actor)"
    using assms(1) by (auto simp: approve_check_def result_simps)
  then show thesis
    using that [of b] book_in_tenant_Inr [of tenant i st b] not_same_actor [OF _ assms(2)] by blast
qed

lemma books_move_indexed: "books_move serial st st' \<Longrightarrow> books_indexed (bs_books st')"
  by (auto simp: books_move_def)

lemma books_move_ids: "books_move serial st st' \<Longrightarrow> map pb_id (bs_books st') = map pb_id (bs_books st)"
  unfolding books_move_def
  by (auto simp: list_all2_conv_all_nth intro!: nth_equalityI dest!: book_moves_key)

lemma approve_moves:
  assumes "approve_book tenant actor i st = Inr (b, st')" and "actor \<noteq> []" and "distinct (map pb_id (bs_books st))"
  shows "books_move serial st st'"
proof -
  have c: "approve_check tenant actor i st = Inr ()" "approve_write tenant actor i st = Inr (b, st')"
    using assms(1) by (auto simp: approve_book_def result_simps)
  obtain b0 where b0: "b0 \<in> set (bs_books st)" "pb_id b0 = i" "pb_created_by b0 \<noteq> Some actor"
      "pb_submitted_by b0 \<noteq> Some actor"
    using c(1) assms(2) by (rule approve_check_Inr)
  have "x = b0" if "x \<in> set (bs_books st)" "pb_id x = i" for x
    using distinct_map_same [OF assms(3)] that b0 by auto
  then show ?thesis by (intro approve_write_moves [OF c(2)]) (use b0 in auto)
qed

text \<open>An activation may move two books: the default in force so far ends first.\<close>

lemma activate_write_moves:
  assumes "activate_write tenant actor i book st = Inr (b, st')" and "distinct (map pb_id (bs_books st))"
  shows "books_move serial st st'"
proof -
  have book: "activate_in_transaction tenant actor i book st = Inr (b, st')"
    using assms(1) by (simp add: activate_write_def as_conflict_Inr)
  let ?one = "\<lambda>x. x\<lparr>pb_status := Book_Ended, pb_ended_by := Some actor, pb_default := False\<rparr>"
  let ?p = "\<lambda>b. pb_tenant b = tenant \<and> pb_currency b = pb_currency book \<and> pb_scope b = pb_scope book
                \<and> pb_ref b = pb_ref book \<and> pb_default b \<and> pb_status b = Book_Active \<and> pb_id b \<noteq> pb_id book"
  let ?two = "\<lambda>x. x\<lparr>pb_status := Book_Active, pb_activated_by := Some actor\<rparr>"
  let ?q = "\<lambda>b. pb_id b = i \<and> pb_tenant b = tenant \<and> pb_status b = Book_Scheduled"
  note c = book [unfolded activate_in_transaction_def and_then_Inr_iff]
  obtain st1 where st1: "(if \<not> pb_default book then Inr st
        else case find ?p (bs_books st) of None \<Rightarrow> Inr st
        | Some previous \<Rightarrow> put_books (map (\<lambda>b. if pb_id b = pb_id previous then ?one b else b) (bs_books st)) st) = Inr st1"
      and rest: "(let (count, bs) = update_many ?q ?two (bs_books st1) in
     and_then (put_books bs st1) (\<lambda>st2.
     and_then (throw_if (count \<noteq> 1) invalid_book_transition) (\<lambda>_.
     and_then (book_in_tenant tenant i st2) (\<lambda>b. Inr (b, st2))))) = Inr (b, st')"
    using c by auto
  let ?ends = "\<lambda>x y :: price_book. y = x \<or> (pb_status x = Book_Active \<and> y = ?one x)"
  have s1: "\<exists>bs. st1 = st\<lparr>bs_books := bs\<rparr> \<and> list_all2 ?ends (bs_books st) bs"
  proof (cases "pb_default book")
    case False
    then show ?thesis using st1 by (auto intro!: exI [of _ "bs_books st"] list.rel_refl)
  next
    case True
    show ?thesis
    proof (cases "find ?p (bs_books st)")
      case None
      then show ?thesis using st1 True by (auto intro!: exI [of _ "bs_books st"] list.rel_refl)
    next
      case (Some previous)
      have prev: "previous \<in> set (bs_books st)" "pb_status previous = Book_Active"
        using find_Some_iff_set [OF Some] by auto
      let ?bs = "map (\<lambda>b. if pb_id b = pb_id previous then ?one b else b) (bs_books st)"
      have "list_all2 ?ends (bs_books st) ?bs"
        by (rule list_all2_map_id) (use distinct_map_same [OF assms(2)] prev in auto)
      moreover have "st1 = st\<lparr>bs_books := ?bs\<rparr>" using st1 True Some by (simp add: put_books_Inr)
      ultimately show ?thesis by blast
    qed
  qed
  then obtain bs1 where bs1: "st1 = st\<lparr>bs_books := bs1\<rparr>" "list_all2 ?ends (bs_books st) bs1" by blast
  obtain n bs where u: "update_many ?q ?two (bs_books st1) = (n, bs)" by fastforce
  have st': "st' = st1\<lparr>bs_books := bs\<rparr>" "books_indexed bs"
    using rest [unfolded u Let_def prod.case and_then_Inr_iff put_books_Inr] by auto
  have two: "list_all2 (\<lambda>x y :: price_book. y = x \<or> (pb_status x = Book_Scheduled \<and> y = ?two x)) bs1 bs"
    using update_many_rows [OF u, of "\<lambda>x y. y = x \<or> (pb_status x = Book_Scheduled \<and> y = ?two x)"] bs1(1) by simp
  have "list_all2 (book_moves serial) (bs_books st) bs"
  proof (rule list_all2_trans [OF _ bs1(2) two])
    fix x y z :: price_book assume xy: "?ends x y" and yz: "z = y \<or> (pb_status y = Book_Scheduled \<and> z = ?two y)"
    from xy show "book_moves serial x z"
    proof
      assume "y = x"
      then show ?thesis using yz by (metis book_moves.Same book_moves.Activates)
    next
      assume e: "pb_status x = Book_Active \<and> y = ?one x"
      then have "z = ?one x" using yz by simp
      then show ?thesis using e Ends [of x serial actor] by simp
    qed
  qed
  then show ?thesis using st' bs1(1) by (auto simp: books_move_def)
qed

lemma activate_moves:
  assumes "activate_book tenant actor i st = Inr (b, st')" and "distinct (map pb_id (bs_books st))"
  shows "books_move serial st st'"
  using assms(1) activate_write_moves [OF _ assms(2)] by (auto simp: activate_book_def result_simps)

section \<open>What each request does to the entries\<close>

text \<open>The columns of a price never change; it may only be superseded.\<close>

definition entry_moves :: "book_entry \<Rightarrow> book_entry \<Rightarrow> bool" where
  "entry_moves e e' \<longleftrightarrow> e' = e
     \<or> (be_status e = ''active'' \<and> (\<exists>n. e' = e\<lparr>be_status := ''superseded'', be_superseded_by := Some n\<rparr>))"

definition entry_born :: "book_entry \<Rightarrow> bool" where
  "entry_born e \<longleftrightarrow> be_status e = ''active'' \<and> be_superseded_by e = None"

text \<open>Which entry succeeds which.\<close>

definition succeeds :: "book_entry \<Rightarrow> book_entry \<Rightarrow> bool" where
  "succeeds s e \<longleftrightarrow> be_superseded_by e = Some (pe_id s) \<and> be_version s = be_version e + 1
     \<and> entry_key s = entry_key e \<and> be_tenant s = be_tenant e"

text \<open>The table after \<open>p\<close> was superseded by the entry \<open>n\<close>.\<close>

definition superseding :: "book_entry \<Rightarrow> string \<Rightarrow> book_entry list \<Rightarrow> book_entry list" where
  "superseding p n es = map (\<lambda>x. if x = p then x\<lparr>be_status := ''superseded'', be_superseded_by := Some n\<rparr> else x) es"

lemma superseding_moves:
  assumes "be_status p = ''active''"
  shows "list_all2 entry_moves es (superseding p n es)"
  unfolding superseding_def
proof (rule list_all2_map_id)
  fix x
  show "entry_moves x (if x = p then x\<lparr>be_status := ''superseded'', be_superseded_by := Some n\<rparr> else x)"
    using assms by (cases "x = p") (simp_all only: entry_moves_def if_True if_False refl simp_thms, blast)
qed

lemma superseding_other:
  "pe_book p \<noteq> i \<Longrightarrow> filter (\<lambda>e. pe_book e = i) (superseding p n es) = filter (\<lambda>e. pe_book e = i) es"
  by (induction es) (auto simp: superseding_def)

lemma in_superseding:
  assumes "x \<in> set (superseding p n es)"
  shows "x \<in> set es \<or> (p \<in> set es \<and> x = p\<lparr>be_status := ''superseded'', be_superseded_by := Some n\<rparr>)"
  using assms by (auto simp: superseding_def split: if_splits)

lemma superseding_has:
  assumes "s \<in> set es"
  obtains s' where "s' \<in> set (superseding p n es)" "pe_id s' = pe_id s" "be_version s' = be_version s"
    "entry_key s' = entry_key s" "be_tenant s' = be_tenant s"
proof (rule that)
  show "(if s = p then s\<lparr>be_status := ''superseded'', be_superseded_by := Some n\<rparr> else s) \<in> set (superseding p n es)"
    using assms unfolding superseding_def set_map by (rule image_eqI [OF refl])
qed (simp_all add: entry_key_def)

text \<open>
  A request on the entries of book \<open>b\<close>: it may supersede one of them, and adds one. When requests are
  served one after the other, the book is a draft or active.
\<close>

definition entries_extend :: "bool \<Rightarrow> price_book \<Rightarrow> book_store \<Rightarrow> book_store \<Rightarrow> bool" where
  "entries_extend serial b st st' \<longleftrightarrow>
     (\<exists>es e. st' = st\<lparr>bs_entries := es @ [e]\<rparr> \<and> entries_indexed (es @ [e])
        \<and> (serial \<longrightarrow> b \<in> set (bs_books st) \<and> pb_status b \<in> {Book_Draft, Book_Active} \<and> pe_book e = pb_id b) \<and> entry_born e
        \<and> (es = bs_entries st \<and> be_version e = 1 \<and> (pe_scope e = Global_Scope \<longrightarrow> pe_scope_id e = None)
           \<or> (\<exists>p \<in> set (bs_entries st). be_status p = ''active'' \<and> es = superseding p (pe_id e) (bs_entries st)
                \<and> be_version e = be_version p + 1 \<and> entry_key e = entry_key p
                \<and> pe_scope_id e = pe_scope_id p \<and> be_tenant e = be_tenant p)))"

lemma entries_extend_cases:
  assumes "entries_extend serial b st st'"
  obtains (First) e where "bs_entries st' = bs_entries st @ [e]" "entry_born e"
      "serial \<Longrightarrow> b \<in> set (bs_books st) \<and> pb_status b \<in> {Book_Draft, Book_Active} \<and> pe_book e = pb_id b"
      "pe_scope e = Global_Scope \<longrightarrow> pe_scope_id e = None"
    | (Next) p e where "bs_entries st' = superseding p (pe_id e) (bs_entries st) @ [e]" "entry_born e"
      "serial \<Longrightarrow> b \<in> set (bs_books st) \<and> pb_status b \<in> {Book_Draft, Book_Active} \<and> pe_book e = pb_id b"
      "p \<in> set (bs_entries st)" "be_status p = ''active''" "pe_book p = pe_book e"
      "be_version e = be_version p + 1" "entry_key e = entry_key p" "be_tenant e = be_tenant p"
      "pe_scope_id e = pe_scope_id p"
proof -
  obtain es e where e: "st' = st\<lparr>bs_entries := es @ [e]\<rparr>" "entry_born e"
      "serial \<longrightarrow> b \<in> set (bs_books st) \<and> pb_status b \<in> {Book_Draft, Book_Active} \<and> pe_book e = pb_id b"
      and c: "es = bs_entries st \<and> be_version e = 1 \<and> (pe_scope e = Global_Scope \<longrightarrow> pe_scope_id e = None)
           \<or> (\<exists>p \<in> set (bs_entries st). be_status p = ''active'' \<and> es = superseding p (pe_id e) (bs_entries st)
                \<and> be_version e = be_version p + 1 \<and> entry_key e = entry_key p
                \<and> pe_scope_id e = pe_scope_id p \<and> be_tenant e = be_tenant p)"
    using assms unfolding entries_extend_def by blast
  have st': "bs_entries st' = es @ [e]" using e(1) by simp
  from c show thesis
  proof (elim disjE bexE conjE)
    assume "es = bs_entries st" "pe_scope e = Global_Scope \<longrightarrow> pe_scope_id e = None"
    then show thesis using First [of e] st' e(2-) by simp
  next
    fix p
    assume p: "p \<in> set (bs_entries st)" "be_status p = ''active''" "es = superseding p (pe_id e) (bs_entries st)"
      "be_version e = be_version p + 1" "entry_key e = entry_key p" "pe_scope_id e = pe_scope_id p" "be_tenant e = be_tenant p"
    then have "pe_book p = pe_book e" by (simp add: entry_key_def)
    then show thesis using Next [of p e] st' e(2-) p by simp
  qed
qed

inductive book_effect :: "bool \<Rightarrow> book_store \<Rightarrow> book_store \<Rightarrow> bool" for serial where
  Moves_Books: "books_move serial st st' \<Longrightarrow> book_effect serial st st'"
| Adds_Book: "book_born b \<Longrightarrow> map_of (bs_currency st) (pb_tenant b) = Some (pb_currency b)
    \<Longrightarrow> books_indexed (bs_books st @ [b]) \<Longrightarrow> book_effect serial st (st\<lparr>bs_books := bs_books st @ [b]\<rparr>)"
| Prices: "entries_extend serial b st st' \<Longrightarrow> book_effect serial st st'"

lemma create_book_effect:
  assumes "create_book tenant actor new_id name currency scope ref d st = Inr (b, st')"
  shows "book_effect serial st st'"
proof -
  note c = assms [unfolded create_book_def Let_def and_then_Inr_iff or_throw_Inr_iff throw_if_Inr_iff as_conflict_Inr
      insert_book_def put_books_Inr]
  then obtain b' where b': "st' = st\<lparr>bs_books := bs_books st @ [b']\<rparr>" "books_indexed (bs_books st @ [b'])"
      "b' = b" "pb_status b = Book_Draft" "pb_created_by b = Some actor" "pb_submitted_by b = None" "pb_approved_by b = None"
      "map_of (bs_currency st) (pb_tenant b) = Some (pb_currency b)"
    by auto
  then have "book_born b" by (simp add: book_born_def)
  then show ?thesis using Adds_Book [of b st] b' by simp
qed

lemma assert_entries_manageable_Inr:
  assumes "assert_entries_manageable status actor st = Inr st'"
  obtains ps where "st' = st\<lparr>bs_policy := ps\<rparr>" "status \<in> {Book_Draft, Book_Active}"
proof -
  have s: "status \<in> {Book_Draft, Book_Active}"
    using assms by (auto simp: assert_entries_manageable_def result_simps)
  show thesis
  proof (cases "status = Book_Active")
    case False
    then have "st' = st" using assms by (auto simp: assert_entries_manageable_def result_simps)
    then show thesis using that [of "bs_policy st"] s by simp
  next
    case True
    then show thesis using assms that s
      by (auto simp: assert_entries_manageable_def result_simps split: option.splits)
  qed
qed

lemma create_entry_check_Inr:
  assumes "create_entry_check tenant actor new_id now dto st = Inr (e, st1)"
  obtains ps b where "st1 = st\<lparr>bs_policy := ps\<rparr>" "b \<in> set (bs_books st)" "pb_status b \<in> {Book_Draft, Book_Active}"
    "pe_book e = pb_id b" "entry_born e" "be_version e = 1" "pe_scope e = Global_Scope \<longrightarrow> pe_scope_id e = None"
proof -
  obtain b where b: "book_in_tenant tenant (ce_book dto) st = Inr b"
      "assert_entries_manageable (pb_status b) actor st = Inr st1"
      "pe_book e = pb_id b" "be_status e = ''active''" "be_superseded_by e = None"
      "be_version e = 1" "pe_scope e = Global_Scope \<longrightarrow> pe_scope_id e = None"
    using assms by (auto simp: create_entry_check_def result_simps)
  from b(2) show thesis
    by (rule assert_entries_manageable_Inr) (use that b book_in_tenant_Inr [OF b(1)] in \<open>auto simp: entry_born_def\<close>)
qed

text \<open>The write of an entry whose check found its book, be it long ago.\<close>

lemma create_entry_write_effect:
  assumes "create_entry_write e st = Inr (e', st')"
    and "entry_born e" "be_version e = 1" "pe_scope e = Global_Scope \<longrightarrow> pe_scope_id e = None"
    and "serial \<Longrightarrow> b \<in> set (bs_books st) \<and> pb_status b \<in> {Book_Draft, Book_Active} \<and> pe_book e = pb_id b"
  shows "entries_extend serial b st st'"
  using assms unfolding entries_extend_def
  by (intro exI [of _ "bs_entries st"] exI [of _ e])
    (auto simp: create_entry_write_def as_conflict_Inr insert_entry_def put_entries_Inr result_simps)

lemma create_entry_effect:
  assumes "create_entry tenant actor new_id now dto st = Inr (e, st')"
  shows "\<exists>ps b. entries_extend serial b (st\<lparr>bs_policy := ps\<rparr>) st'"
proof -
  obtain e0 st1 where c: "create_entry_check tenant actor new_id now dto st = Inr (e0, st1)"
      "create_entry_write e0 st1 = Inr (e, st')"
    using assms by (auto simp: create_entry_def result_simps)
  from c(1) obtain ps b where b: "st1 = st\<lparr>bs_policy := ps\<rparr>" "b \<in> set (bs_books st)" "pb_status b \<in> {Book_Draft, Book_Active}"
    "pe_book e0 = pb_id b" "entry_born e0" "be_version e0 = 1" "pe_scope e0 = Global_Scope \<longrightarrow> pe_scope_id e0 = None"
    by (rule create_entry_check_Inr)
  have "entries_extend serial b st1 st'"
    by (rule create_entry_write_effect [OF c(2)]) (use b in auto)
  then show ?thesis using b(1) by blast
qed

text \<open>
  The transaction of a supersession finds the entry it read unless it was superseded since: \<open>known_entry\<close> is what
  the table says of an entry read before.
\<close>

definition known_entry :: "book_entry \<Rightarrow> book_entry list \<Rightarrow> bool" where
  "known_entry p es \<longleftrightarrow> be_status p = ''active'' \<and> (\<exists>x \<in> set es. pe_id x = pe_id p \<and> (x = p \<or> be_status x \<noteq> ''active''))"

lemma supersede_transaction_effect:
  assumes "supersede_transaction tenant p next_id now data st = Inr (e, st')" and "distinct (map pe_id (bs_entries st))"
    and "known_entry p (bs_entries st)"
    and "serial \<Longrightarrow> b \<in> set (bs_books st) \<and> pb_status b \<in> {Book_Draft, Book_Active} \<and> pe_book p = pb_id b"
  shows "entries_extend serial b st st'"
proof -
  let ?p = "\<lambda>x. pe_id x = pe_id p \<and> be_tenant x = tenant \<and> be_status x = ''active''"
  let ?f = "\<lambda>x. x\<lparr>be_status := ''superseded'', be_superseded_by := Some next_id\<rparr>"
  let ?e = "successor_of p tenant next_id now data"
  have w: "entries_indexed (map (\<lambda>x. if ?p x then ?f x else x) (bs_entries st) @ [?e])"
      "st' = st\<lparr>bs_entries := map (\<lambda>x. if ?p x then ?f x else x) (bs_entries st) @ [?e]\<rparr>"
      "length (filter ?p (bs_entries st)) = 1"
    using assms(1) by (auto simp: supersede_transaction_def update_many_def insert_entry_def put_entries_Inr result_simps)
  from w(3) have "filter ?p (bs_entries st) \<noteq> []" by auto
  then obtain x where x: "x \<in> set (bs_entries st)" "?p x" by (auto simp: filter_empty_conv)
  obtain y where y: "y \<in> set (bs_entries st)" "pe_id y = pe_id p" "y = p \<or> be_status y \<noteq> ''active''"
    using assms(3) by (auto simp: known_entry_def)
  have "x = y" using distinct_map_same [OF assms(2) x(1) y(1)] x(2) y(2) by simp
  then have p: "p \<in> set (bs_entries st)" "be_tenant p = tenant" "be_status p = ''active''" using x y by auto
  have m: "map (\<lambda>x. if ?p x then ?f x else x) (bs_entries st) = superseding p (pe_id ?e) (bs_entries st)"
    unfolding superseding_def
  proof (rule list.map_cong0)
    fix x assume x: "x \<in> set (bs_entries st)"
    have "?p x \<longleftrightarrow> x = p" using distinct_map_same [OF assms(2) x p(1)] p by auto
    then show "(if ?p x then ?f x else x)
        = (if x = p then x\<lparr>be_status := ''superseded'', be_superseded_by := Some (pe_id ?e)\<rparr> else x)"
      by (simp add: successor_of_def)
  qed
  show ?thesis
    unfolding entries_extend_def
    by (rule exI [of _ "superseding p (pe_id ?e) (bs_entries st)"], rule exI [of _ ?e])
      (use w [unfolded m] p assms(4) in \<open>auto simp: successor_of_def entry_key_def entry_born_def intro!: bexI [of _ p]\<close>)
qed

lemma supersede_read_Inr:
  assumes "supersede_read tenant i st = Inr p"
  shows "p \<in> set (bs_entries st) \<and> pe_id p = i \<and> known_entry p (bs_entries st)"
  using assms by (auto simp: supersede_read_def result_simps known_entry_def dest!: entry_in_tenant_Inr)

lemma repo_supersede_effect:
  assumes "repo_supersede_entry tenant i next_id now data st = Inr (e, st')" and "distinct (map pe_id (bs_entries st))"
    and "\<And>p. serial \<Longrightarrow> p \<in> set (bs_entries st) \<Longrightarrow> pe_id p = i
           \<Longrightarrow> b \<in> set (bs_books st) \<and> pb_status b \<in> {Book_Draft, Book_Active} \<and> pe_book p = pb_id b"
  shows "entries_extend serial b st st'"
proof -
  obtain p where p: "supersede_read tenant i st = Inr p" "supersede_transaction tenant p next_id now data st = Inr (e, st')"
    using assms(1) by (auto simp: repo_supersede_entry_def result_simps)
  note r = supersede_read_Inr [OF p(1)]
  show ?thesis by (rule supersede_transaction_effect [OF p(2) assms(2)]) (use r assms(3) in auto)
qed

lemma supersede_entry_effect:
  assumes "supersede_entry tenant actor i next_id now dto st = Inr (e, st')" and "distinct (map pe_id (bs_entries st))"
  shows "\<exists>ps b. entries_extend serial b (st\<lparr>bs_policy := ps\<rparr>) st'"
proof -
  obtain entry book st1 data where entry: "entry_in_tenant tenant i st = Inr entry"
      and book: "book_in_tenant tenant (pe_book entry) st = Inr book"
      and m: "assert_entries_manageable (pb_status book) actor st = Inr st1"
      and r: "repo_supersede_entry tenant i next_id now data st1 = Inr (e, st')"
    using assms(1) by (auto simp: supersede_entry_def supersede_check_def Let_def result_simps)
  obtain ps where ps: "st1 = st\<lparr>bs_policy := ps\<rparr>" "pb_status book \<in> {Book_Draft, Book_Active}"
    using m by (rule assert_entries_manageable_Inr)
  have "entries_extend serial book st1 st'"
  proof (rule repo_supersede_effect [OF r])
    show "distinct (map pe_id (bs_entries st1))" using assms(2) ps(1) by simp
    fix p assume p: "p \<in> set (bs_entries st1)" "pe_id p = i"
    have "p = entry" using distinct_map_same [OF assms(2), of p entry] p entry_in_tenant_Inr [OF entry] ps(1) by simp
    then show "book \<in> set (bs_books st1) \<and> pb_status book \<in> {Book_Draft, Book_Active} \<and> pe_book p = pb_id book"
      using book_in_tenant_Inr [OF book] ps by simp
  qed
  then show ?thesis using ps(1) by blast
qed

section \<open>Histories\<close>

definition store_indexed :: "book_store \<Rightarrow> bool" where
  "store_indexed st \<longleftrightarrow> books_indexed (bs_books st) \<and> entries_indexed (bs_entries st)"

text \<open>One accepted request, by anyone with a session, on tables the indexes hold of.\<close>

definition book_step :: "book_store \<Rightarrow> book_store \<Rightarrow> bool" where
  "book_step st st' \<longleftrightarrow> store_indexed st
     \<and> (\<exists>tenant actor now r. ba_sub actor \<noteq> [] \<and> price_book_request tenant actor now r st = Inr st')"

lemma book_route_effect:
  assumes "book_route tenant actor now r st = Inr st'" and "ba_sub actor \<noteq> []" and "store_indexed st"
  shows "\<exists>ps. book_effect serial (st\<lparr>bs_policy := ps\<rparr>) st'"
proof -
  have d: "distinct (map pb_id (bs_books st))" "distinct (map pe_id (bs_entries st))"
    using assms(3) by (auto simp: store_indexed_def books_indexed_def entries_indexed_def)
  have same: "\<And>ps. book_effect serial st st' \<Longrightarrow> \<exists>ps. book_effect serial (st\<lparr>bs_policy := ps\<rparr>) st'"
    by (rule exI [of _ "bs_policy st"]) simp
  show ?thesis
  proof (cases r)
    case (Create_Entry new_id dto)
    then show ?thesis using assms(1) by (auto simp: result_simps dest!: create_entry_effect intro: Prices)
  next
    case (Supersede_Entry i next_id dto)
    then show ?thesis using assms(1) by (auto simp: result_simps dest!: supersede_entry_effect [OF _ d(2)] intro: Prices)
  next
    case (Create_Book new_id name currency scope ref is_default)
    then show ?thesis using assms(1) same by (auto simp: result_simps dest!: create_book_effect)
  next
    case (Approve_Book i)
    then show ?thesis using assms(1) same by (auto simp: result_simps dest!: approve_moves [OF _ assms(2) d(1)] Moves_Books)
  next
    case (Activate_Book i)
    then show ?thesis using assms(1) same by (auto simp: result_simps dest!: activate_moves [OF _ d(1)] Moves_Books)
  next
    case (Rename_Book i name)
    then show ?thesis using assms(1) same by (auto simp: result_simps dest!: rename_moves [OF _ d(1)] Moves_Books)
  next
    case (Submit_Book i)
    then show ?thesis using assms(1) same by (auto simp: result_simps dest!: submit_moves Moves_Books)
  next
    case (Schedule_Book i t)
    then show ?thesis using assms(1) same by (auto simp: result_simps dest!: schedule_moves Moves_Books)
  next
    case (End_Book i)
    then show ?thesis using assms(1) same by (auto simp: result_simps dest!: end_moves Moves_Books)
  qed
qed

lemma entries_extend_entries:
  assumes "entries_extend serial b st st'"
  shows "bs_books st' = bs_books st" "entries_indexed (bs_entries st')"
    "\<exists>old e. bs_entries st' = old @ [e] \<and> list_all2 entry_moves (bs_entries st) old \<and> entry_born e"
proof -
  show "bs_books st' = bs_books st" "entries_indexed (bs_entries st')"
    using assms by (auto simp: entries_extend_def)
  have re: "list_all2 entry_moves es es" for es by (intro list.rel_refl) (simp add: entry_moves_def)
  from assms show "\<exists>old e. bs_entries st' = old @ [e] \<and> list_all2 entry_moves (bs_entries st) old \<and> entry_born e"
  proof (cases rule: entries_extend_cases)
    case (First e)
    then show ?thesis using re by blast
  next
    case (Next p e)
    then show ?thesis using superseding_moves by blast
  qed
qed

lemma book_effect_rows:
  assumes "book_effect serial st st'"
  shows "\<exists>old new. bs_books st' = old @ new \<and> list_all2 (book_moves serial) (bs_books st) old \<and> list_all book_born new"
    and "\<exists>old new. bs_entries st' = old @ new \<and> list_all2 entry_moves (bs_entries st) old \<and> list_all entry_born new"
    and "store_indexed st \<Longrightarrow> store_indexed st'"
proof -
  have rb: "list_all2 (book_moves serial) bs bs" for bs by (intro list.rel_refl) (rule Same)
  have re: "list_all2 entry_moves es es" for es by (intro list.rel_refl) (simp add: entry_moves_def)
  show "\<exists>old new. bs_books st' = old @ new \<and> list_all2 (book_moves serial) (bs_books st) old \<and> list_all book_born new"
    using assms
  proof cases
    case Moves_Books
    then obtain bs where "st' = st\<lparr>bs_books := bs\<rparr>" "list_all2 (book_moves serial) (bs_books st) bs" by (auto simp: books_move_def)
    then show ?thesis by (intro exI [of _ bs] exI [of _ "[]"]) simp
  next
    case (Adds_Book b)
    then show ?thesis using rb by (intro exI [of _ "bs_books st"] exI [of _ "[b]"]) simp
  next
    case (Prices b)
    then show ?thesis using rb entries_extend_entries(1) [OF Prices]
      by (intro exI [of _ "bs_books st"] exI [of _ "[]"]) simp
  qed
  show "\<exists>old new. bs_entries st' = old @ new \<and> list_all2 entry_moves (bs_entries st) old \<and> list_all entry_born new"
    using assms
  proof cases
    case Moves_Books
    then show ?thesis using re by (intro exI [of _ "bs_entries st"] exI [of _ "[]"]) (auto simp: books_move_def)
  next
    case (Adds_Book b)
    then show ?thesis using re by (intro exI [of _ "bs_entries st"] exI [of _ "[]"]) simp
  next
    case (Prices b)
    then obtain old e where "bs_entries st' = old @ [e]" "list_all2 entry_moves (bs_entries st) old" "entry_born e"
      using entries_extend_entries(3) by blast
    then show ?thesis by (intro exI [of _ old] exI [of _ "[e]"]) simp
  qed
  assume "store_indexed st"
  with assms show "store_indexed st'"
    by cases (auto simp: store_indexed_def books_move_def entries_extend_entries)
qed

text \<open>What a request did, on tables the indexes hold of; it may have filled the cache of the policy before.\<close>

definition effect_step :: "bool \<Rightarrow> book_store \<Rightarrow> book_store \<Rightarrow> bool" where
  "effect_step serial st st' \<longleftrightarrow> store_indexed st \<and> (\<exists>ps. book_effect serial (st\<lparr>bs_policy := ps\<rparr>) st')"

lemma book_step_effect:
  assumes "book_step st st'"
  shows "effect_step serial st st'"
proof -
  obtain tenant actor now r ps where r: "ba_sub actor \<noteq> []" "book_route tenant actor now r (st\<lparr>bs_policy := ps\<rparr>) = Inr st'"
    using assms by (auto simp: book_step_def price_book_request_def result_simps)
  have i: "store_indexed st" using assms by (simp add: book_step_def)
  then have "store_indexed (st\<lparr>bs_policy := ps\<rparr>)" by (simp add: store_indexed_def)
  then show ?thesis using book_route_effect [OF r(2,1)] i by (simp add: effect_step_def)
qed

lemma effect_step_rows:
  assumes "effect_step serial st st'"
  shows "\<exists>old new. bs_books st' = old @ new \<and> list_all2 (book_moves serial) (bs_books st) old \<and> list_all book_born new"
    and "\<exists>old new. bs_entries st' = old @ new \<and> list_all2 entry_moves (bs_entries st) old \<and> list_all entry_born new"
    and "store_indexed st" and "store_indexed st'"
proof -
  obtain ps where e: "store_indexed st" "book_effect serial (st\<lparr>bs_policy := ps\<rparr>) st'"
    using assms by (auto simp: effect_step_def)
  note rows = book_effect_rows [OF e(2)]
  from rows(1) show "\<exists>old new. bs_books st' = old @ new \<and> list_all2 (book_moves serial) (bs_books st) old \<and> list_all book_born new"
    by simp
  from rows(2) show "\<exists>old new. bs_entries st' = old @ new \<and> list_all2 entry_moves (bs_entries st) old \<and> list_all entry_born new"
    by simp
  show "store_indexed st" by (rule e(1))
  then have "store_indexed (st\<lparr>bs_policy := ps\<rparr>)" by (simp add: store_indexed_def)
  then show "store_indexed st'" by (rule rows(3))
qed

interpretation book_rows: row_history bs_books "effect_step serial" "book_moves serial" book_born for serial
  by unfold_locales (rule effect_step_rows(1))

interpretation entry_rows: row_history bs_entries "effect_step serial" entry_moves entry_born for serial
  by unfold_locales (rule effect_step_rows(2))

text \<open>What every effect keeps, and the policy has no part in, holds along every history.\<close>

lemma effect_run_induct:
  assumes "(effect_step serial)\<^sup>*\<^sup>* st st'" and "P st"
    and "\<And>s ps. P s \<Longrightarrow> P (s\<lparr>bs_policy := ps\<rparr>)"
    and "\<And>s s'. book_effect serial s s' \<Longrightarrow> P s \<Longrightarrow> P s'"
  shows "P st'"
  using assms(1,2)
proof (induction rule: rtranclp_induct)
  case (step t u)
  then obtain ps where "book_effect serial (t\<lparr>bs_policy := ps\<rparr>) u" by (auto simp: effect_step_def)
  then show ?case using step assms(3,4) by blast
qed

lemma effect_run_indexed:
  assumes "(effect_step serial)\<^sup>*\<^sup>* st st'" and "store_indexed st"
  shows "store_indexed st'"
  by (rule effect_run_induct [OF assms(1), of store_indexed]) (use assms(2) book_effect_rows(3) in \<open>auto simp: store_indexed_def\<close>)

lemma book_run_effect: "book_step\<^sup>*\<^sup>* st st' \<Longrightarrow> (effect_step serial)\<^sup>*\<^sup>* st st'"
  by (induction rule: rtranclp_induct) (auto intro: rtranclp.rtrancl_into_rtrancl book_step_effect)

lemma book_run_indexed: "book_step\<^sup>*\<^sup>* st st' \<Longrightarrow> store_indexed st \<Longrightarrow> store_indexed st'"
  using effect_run_indexed [of False] book_run_effect by blast

text \<open>Every book is in the operating currency of its tenant.\<close>

definition in_operating_currency :: "book_store \<Rightarrow> bool" where
  "in_operating_currency st \<longleftrightarrow> (\<forall>b \<in> set (bs_books st). map_of (bs_currency st) (pb_tenant b) = Some (pb_currency b))"

lemma book_effect_currency:
  assumes "book_effect serial st st'" and "in_operating_currency st"
  shows "in_operating_currency st'"
  using assms(1)
proof cases
  case Moves_Books
  then obtain bs where bs: "st' = st\<lparr>bs_books := bs\<rparr>" "list_all2 (book_moves serial) (bs_books st) bs" by (auto simp: books_move_def)
  show ?thesis
    unfolding in_operating_currency_def
  proof
    fix b' assume "b' \<in> set (bs_books st')"
    then obtain b where "b \<in> set (bs_books st)" "book_moves serial b b'"
      using bs list_all2_in_right [OF bs(2)] by auto
    then show "map_of (bs_currency st') (pb_tenant b') = Some (pb_currency b')"
      using assms(2) bs(1) book_moves_key [of serial b b'] by (auto simp: in_operating_currency_def)
  qed
next
  case (Adds_Book b)
  then show ?thesis using assms(2) by (auto simp: in_operating_currency_def)
next
  case (Prices b)
  then show ?thesis using assms(2) by (auto simp: in_operating_currency_def entries_extend_def)
qed

text \<open>An entry for everything names nothing.\<close>

definition globals_plain :: "book_store \<Rightarrow> bool" where
  "globals_plain st \<longleftrightarrow> (\<forall>e \<in> set (bs_entries st). pe_scope e = Global_Scope \<longrightarrow> pe_scope_id e = None)"

lemma globals_plain_extend:
  assumes "entries_extend serial b st st'" and "globals_plain st"
  shows "globals_plain st'"
  using assms(1)
proof (cases rule: entries_extend_cases)
  case (First e)
  then show ?thesis using assms(2) by (auto simp: globals_plain_def)
next
  case (Next p e)
  have "pe_scope x = Global_Scope \<longrightarrow> pe_scope_id x = None" if "x \<in> set (bs_entries st')" for x
  proof -
    from that Next(1) consider "x = e" | "x \<in> set (superseding p (pe_id e) (bs_entries st))" by auto
    then show ?thesis
    proof cases
      case 1
      then show ?thesis using Next(4,8,10) assms(2) by (auto simp: globals_plain_def entry_key_def)
    next
      case 2
      then show ?thesis using in_superseding [OF 2] assms(2) by (auto simp: globals_plain_def)
    qed
  qed
  then show ?thesis by (simp add: globals_plain_def)
qed

lemma globals_plain_effect:
  assumes "book_effect serial st st'" and "globals_plain st"
  shows "globals_plain st'"
  using assms(1)
proof cases
  case (Prices b)
  then show ?thesis using globals_plain_extend assms(2) by blast
qed (use assms(2) in \<open>auto simp: globals_plain_def books_move_def\<close>)

section \<open>Requests that overlap\<close>

text \<open>What is still known of a request past its checks, whatever was served since.\<close>

fun pending_ok :: "book_store \<Rightarrow> open_request \<Rightarrow> bool" where
  "pending_ok st (Admitted tenant actor now r) \<longleftrightarrow> ba_sub actor \<noteq> []"
| "pending_ok st (Approving tenant actor i) \<longleftrightarrow> (\<exists>b \<in> set (bs_books st). pb_id b = i \<and> pb_created_by b \<noteq> Some actor)"
| "pending_ok st (Pricing_Entry e) \<longleftrightarrow>
     entry_born e \<and> be_version e = 1 \<and> (pe_scope e = Global_Scope \<longrightarrow> pe_scope_id e = None)"
| "pending_ok st (Replacing tenant previous next_id now data) \<longleftrightarrow> known_entry previous (bs_entries st)"
| "pending_ok st w \<longleftrightarrow> True"

definition race_inv :: "book_store \<times> open_request list \<Rightarrow> bool" where
  "race_inv s \<longleftrightarrow> store_indexed (fst s) \<and> (\<forall>w \<in> set (snd s). pending_ok (fst s) w)"

lemma open_check_ok:
  assumes "open_check w st = Inr (w', st')" and "pending_ok st w"
  shows "\<exists>ps. st' = st\<lparr>bs_policy := ps\<rparr> \<and> pending_ok st' w'"
  using assms
proof (induction w st rule: open_check.induct)
  case (1 tenant actor now i name st)
  then show ?case by (auto simp: result_simps intro!: exI [of _ "bs_policy st"])
next
  case (2 tenant actor now i st)
  then show ?case
    by (auto simp: result_simps intro!: exI [of _ "bs_policy st"] elim!: approve_check_Inr)
next
  case (3 tenant actor now i st)
  then show ?case by (auto simp: result_simps intro!: exI [of _ "bs_policy st"])
next
  case (4 tenant actor now new_id dto st)
  then obtain e where e: "create_entry_check tenant actor new_id now dto st = Inr (e, st')" "w' = Pricing_Entry e"
    by (auto simp: result_simps)
  from e(1) show ?case by (rule create_entry_check_Inr) (use e(2) in auto)
next
  case (5 tenant actor now i next_id dto st)
  then show ?case
    by (auto simp: result_simps supersede_check_def Let_def elim!: assert_entries_manageable_Inr)
next
  case (6 tenant i next_id now data st)
  then show ?case
    by (auto simp: result_simps intro!: exI [of _ "bs_policy st"] dest: supersede_read_Inr)
qed simp_all

lemma open_write_effect:
  assumes "open_write w st = Inr st'" and "pending_ok st w" and "store_indexed st"
  shows "effect_step False st st'"
proof -
  have d: "distinct (map pb_id (bs_books st))" "distinct (map pe_id (bs_entries st))"
    using assms(3) by (auto simp: store_indexed_def books_indexed_def entries_indexed_def)
  have same: "effect_step False st st'" if "book_effect False st st'"
    unfolding effect_step_def using that assms(3) by (intro conjI exI [of _ "bs_policy st"]) simp_all
  show ?thesis
  proof (cases w)
    case (Admitted tenant actor now r)
    then show ?thesis using assms book_route_effect [of tenant actor now r st st' False] by (simp add: effect_step_def)
  next
    case (Renaming tenant i name)
    then obtain b where "update_draft_name tenant i name st = Inr (b, st')" using assms(1) by (auto simp: result_simps)
    then show ?thesis by (intro same Moves_Books) (rule rename_write_moves, assumption, simp)
  next
    case (Approving tenant actor i)
    then obtain b where b: "approve_write tenant actor i st = Inr (b, st')" using assms(1) by (auto simp: result_simps)
    obtain b0 where b0: "b0 \<in> set (bs_books st)" "pb_id b0 = i" "pb_created_by b0 \<noteq> Some actor"
      using assms(2) Approving by auto
    have "x = b0" if "x \<in> set (bs_books st)" "pb_id x = i" for x using distinct_map_same [OF d(1)] that b0 by auto
    then show ?thesis by (intro same Moves_Books approve_write_moves [OF b]) (use b0 in auto)
  next
    case (Activating tenant actor i book)
    then obtain b where "activate_write tenant actor i book st = Inr (b, st')" using assms(1) by (auto simp: result_simps)
    then show ?thesis by (intro same Moves_Books) (rule activate_write_moves [OF _ d(1)])
  next
    case (Pricing_Entry e)
    then obtain e' where e': "create_entry_write e st = Inr (e', st')" using assms(1) by (auto simp: result_simps)
    show ?thesis
      by (intro same Prices, rule create_entry_write_effect [OF e']) (use assms(2) Pricing_Entry in auto)
  next
    case (Superseding tenant i next_id now data)
    then obtain e where e: "repo_supersede_entry tenant i next_id now data st = Inr (e, st')"
      using assms(1) by (auto simp: result_simps)
    show ?thesis by (intro same Prices, rule repo_supersede_effect [OF e d(2)]) simp
  next
    case (Replacing tenant previous next_id now data)
    then obtain e where e: "supersede_transaction tenant previous next_id now data st = Inr (e, st')"
      using assms(1) by (auto simp: result_simps)
    show ?thesis
      by (intro same Prices, rule supersede_transaction_effect [OF e d(2)]) (use assms(2) Replacing in auto)
  qed
qed

lemma list_all2_in_left: "list_all2 R xs ys \<Longrightarrow> x \<in> set xs \<Longrightarrow> \<exists>y \<in> set ys. R x y"
  by (induction rule: list_all2_induct) auto

lemma known_entry_moves:
  assumes "known_entry p es" and "list_all2 entry_moves es old"
  shows "known_entry p (old @ new)"
proof -
  obtain x where x: "x \<in> set es" "be_status p = ''active''" "pe_id x = pe_id p" "x = p \<or> be_status x \<noteq> ''active''"
    using assms(1) by (auto simp: known_entry_def)
  obtain x' where x': "x' \<in> set old" "entry_moves x x'"
    using list_all2_in_left [OF assms(2) x(1)] by blast
  have "pe_id x' = pe_id p \<and> (x' = p \<or> be_status x' \<noteq> ''active'')"
    using x'(2) x(3,4) by (auto simp: entry_moves_def)
  then show ?thesis using x(2) x'(1) by (auto simp: known_entry_def)
qed

lemma pending_ok_step:
  assumes "effect_step serial st st'" and "pending_ok st w"
  shows "pending_ok st' w"
proof (cases w)
  case (Approving tenant actor i)
  obtain old new where st': "bs_books st' = old @ new" "list_all2 (book_moves serial) (bs_books st) old"
    using effect_step_rows(1) [OF assms(1)] by blast
  obtain b where b: "b \<in> set (bs_books st)" "pb_id b = i" "pb_created_by b \<noteq> Some actor" using assms(2) Approving by auto
  obtain b' where "b' \<in> set old" "book_moves serial b b'"
    using list_all2_in_left [OF st'(2) b(1)] by blast
  then show ?thesis using b(2,3) st'(1) Approving book_moves_key [of serial b b'] by auto
next
  case (Replacing tenant previous next_id now data)
  then show ?thesis using assms(2) known_entry_moves effect_step_rows(2) [OF assms(1)] by fastforce
qed (use assms(2) in auto)

lemma pending_ok_policy: "pending_ok (st\<lparr>bs_policy := ps\<rparr>) w = pending_ok st w"
  by (cases w) auto

lemma policy_effect: "store_indexed st \<Longrightarrow> effect_step serial st (st\<lparr>bs_policy := ps\<rparr>)"
  unfolding effect_step_def
  by (intro conjI exI [of _ ps] Moves_Books)
    (auto simp: store_indexed_def books_move_def intro!: exI [of _ "bs_books st"] list.rel_refl Same)

lemma book_race_effect:
  assumes "book_race s s'" and "race_inv s"
  shows "effect_step False (fst s) (fst s')" and "race_inv s'"
proof -
  have "effect_step False (fst s) (fst s') \<and> (\<forall>w \<in> set (snd s'). w \<in> set (snd s) \<or> pending_ok (fst s') w)"
    using assms(1)
  proof cases
    case (Admits actor r st ps ws tenant now)
    then show ?thesis using assms(2) policy_effect by (auto simp: race_inv_def)
  next
    case (Checks w ws st w' st')
    then obtain ps where "st' = st\<lparr>bs_policy := ps\<rparr>" "pending_ok st' w'"
      using open_check_ok assms(2) by (fastforce simp: race_inv_def)
    then show ?thesis using Checks assms(2) policy_effect by (auto simp: race_inv_def dest: set_remove1_subset [THEN subsetD])
  next
    case (Writes w ws st st')
    then have "effect_step False st st'" using open_write_effect assms(2) by (auto simp: race_inv_def)
    then show ?thesis using Writes by (auto dest: set_remove1_subset [THEN subsetD])
  next
    case (Drops w ws st)
    have "effect_step False st (st\<lparr>bs_policy := bs_policy st\<rparr>)" using assms(2) Drops by (intro policy_effect) (simp add: race_inv_def)
    then show ?thesis using Drops by (auto dest: set_remove1_subset [THEN subsetD])
  qed
  note e = this
  then show "effect_step False (fst s) (fst s')" ..
  then show "race_inv s'"
    using e assms(2) pending_ok_step effect_step_rows(4) by (fastforce simp: race_inv_def)
qed

lemma book_race_run:
  assumes "book_race\<^sup>*\<^sup>* s s'" and "race_inv s"
  shows "(effect_step False)\<^sup>*\<^sup>* (fst s) (fst s') \<and> race_inv s'"
  using assms
proof (induction rule: rtranclp_induct)
  case (step t u)
  then show ?case using book_race_effect [OF step.hyps(2)] by (auto intro: rtranclp.rtrancl_into_rtrancl)
qed simp

lemma race_run_effect:
  assumes "book_race\<^sup>*\<^sup>* (st0, []) (st, ws)" and "store_indexed st0"
  shows "(effect_step False)\<^sup>*\<^sup>* st0 st"
  using book_race_run [OF assms(1)] assms(2) by (simp add: race_inv_def)

text \<open>Requests served one after the other are one of the ways to serve them.\<close>

lemma book_step_races:
  assumes "book_step st st'"
  shows "book_race\<^sup>*\<^sup>* (st, ws) (st', ws)"
proof -
  obtain tenant actor now r ps where r: "ba_sub actor \<noteq> []"
      "permission_guard [book_route_key r] False (ba_role actor) (bs_policy st) = Inr ps"
      "book_route tenant actor now r (st\<lparr>bs_policy := ps\<rparr>) = Inr st'"
    using assms by (auto simp: book_step_def price_book_request_def result_simps)
  let ?w = "Admitted tenant actor now r"
  have "book_race (st\<lparr>bs_policy := ps\<rparr>, ?w # ws) (st', remove1 ?w (?w # ws))"
    by (rule Writes) (simp_all add: r(3))
  then show ?thesis
    using Admits [OF r(1,2), of ws tenant now] by (auto intro: converse_rtranclp_into_rtranclp)
qed

lemma book_run_races: "book_step\<^sup>*\<^sup>* st st' \<Longrightarrow> book_race\<^sup>*\<^sup>* (st, ws) (st', ws)"
  by (induction rule: rtranclp_induct) (auto intro: rtranclp_trans book_step_races)

end
