(* ===== verification/Price_Books_Properties.thy ===== *)
theory Price_Books_Properties
  imports Price_Books_Correct
begin

text \<open>
  The properties of price book administration over whole histories of requests, overlapping ones included, and their meaning for
  the price engine, which reads the entries of the active default books.
\<close>

section \<open>The versions of a price\<close>

text \<open>Every superseded entry points to its successor.\<close>

definition chained :: "book_store \<Rightarrow> bool" where
  "chained st \<longleftrightarrow> (\<forall>e \<in> set (bs_entries st).
     be_status e = ''active'' \<or> (\<exists>s \<in> set (bs_entries st). succeeds s e))"

lemma chained_extend:
  assumes "entries_extend serial b st st'" and "chained st"
  shows "chained st'"
  using assms(1)
proof (cases rule: entries_extend_cases)
  case (First e)
  then show ?thesis using assms(2) by (auto simp: chained_def entry_born_def)
next
  case (Next p e)
  show ?thesis
    unfolding chained_def
  proof
    fix x assume "x \<in> set (bs_entries st')"
    then consider "x = e" | "x \<in> set (bs_entries st)"
      | "x = p\<lparr>be_status := ''superseded'', be_superseded_by := Some (pe_id e)\<rparr>"
      using Next(1) in_superseding by fastforce
    then show "be_status x = ''active'' \<or> (\<exists>s \<in> set (bs_entries st'). succeeds s x)"
    proof cases
      case 1
      then show ?thesis using Next(2) by (simp add: entry_born_def)
    next
      case 2
      show ?thesis
      proof (cases "be_status x = ''active''")
        case False
        then obtain s where s: "s \<in> set (bs_entries st)" "succeeds s x" using assms(2) 2 by (auto simp: chained_def)
        obtain s' where s': "s' \<in> set (superseding p (pe_id e) (bs_entries st))" "pe_id s' = pe_id s"
            "be_version s' = be_version s" "entry_key s' = entry_key s" "be_tenant s' = be_tenant s"
          using s(1) by (rule superseding_has)
        then have "succeeds s' x" using s(2) by (simp add: succeeds_def)
        then show ?thesis using s'(1) Next(1) by auto
      qed simp
    next
      case 3
      then have "succeeds e x" using Next(7-9) by (simp add: succeeds_def entry_key_def)
      then show ?thesis using Next(1) by auto
    qed
  qed
qed

lemma chained_effect:
  assumes "book_effect serial st st'" and "chained st"
  shows "chained st'"
  using assms(1)
proof cases
  case (Prices b)
  then show ?thesis using chained_extend assms(2) by blast
qed (use assms(2) in \<open>auto simp: chained_def books_move_def\<close>)

text \<open>What a history of requests keeps, however they overlap.\<close>

lemma effect_run_keeps:
  assumes "(effect_step serial)\<^sup>*\<^sup>* st st'"
  shows "in_operating_currency st \<Longrightarrow> in_operating_currency st'" and "globals_plain st \<Longrightarrow> globals_plain st'"
    and "chained st \<Longrightarrow> chained st'"
proof -
  note ind = effect_run_induct [OF assms]
  show "in_operating_currency st'" if "in_operating_currency st"
    by (rule ind) (use that book_effect_currency in \<open>auto simp: in_operating_currency_def\<close>)
  show "globals_plain st'" if "globals_plain st"
    by (rule ind) (use that globals_plain_effect in \<open>auto simp: globals_plain_def\<close>)
  show "chained st'" if "chained st"
    by (rule ind) (use that chained_effect in \<open>auto simp: chained_def\<close>)
qed

text \<open>Following the successors ends at an entry in force.\<close>

lemma chain_ends:
  assumes "chained st" and "e \<in> set (bs_entries st)"
  shows "\<exists>a \<in> set (bs_entries st). active_entry a \<and> entry_key a = entry_key e \<and> be_version e \<le> be_version a"
  using assms(2)
proof (induction "nat (Max (be_version ` set (bs_entries st)) - be_version e)" arbitrary: e rule: less_induct)
  case less
  show ?case
  proof (cases "be_status e = ''active''")
    case True
    then show ?thesis using less.prems by (auto simp: active_entry_def)
  next
    case False
    then obtain s where s: "s \<in> set (bs_entries st)" "succeeds s e"
      using assms(1) less.prems by (auto simp: chained_def)
    have "be_version s \<le> Max (be_version ` set (bs_entries st))" using s(1) by (intro Max_ge) auto
    then have "nat (Max (be_version ` set (bs_entries st)) - be_version s)
        < nat (Max (be_version ` set (bs_entries st)) - be_version e)"
      using s(2) by (simp add: succeeds_def)
    from less.hyps [OF this s(1)] show ?thesis using s(2) by (auto simp: succeeds_def)
  qed
qed

lemma entry_moves_columns:
  assumes "entry_moves\<^sup>*\<^sup>* e e'"
  shows "\<exists>s n. e' = e\<lparr>be_status := s, be_superseded_by := n\<rparr>"
  using assms
proof (induction rule: rtranclp_induct)
  case base
  show ?case by (intro exI [of _ "be_status e"] exI [of _ "be_superseded_by e"]) simp
next
  case (step y z)
  then obtain s n where y: "y = e\<lparr>be_status := s, be_superseded_by := n\<rparr>" by blast
  from step.hyps(2) show ?case
    unfolding entry_moves_def by (elim disjE exE conjE) (use y in \<open>auto intro!: exI\<close>)
qed

lemma empty_indexed: "bs_books st = [] \<Longrightarrow> bs_entries st = [] \<Longrightarrow> store_indexed st"
  by (simp add: store_indexed_def books_indexed_def entries_indexed_def unique_on_def)

section \<open>Prices under review\<close>

lemma frozen_step:
  assumes "effect_step True st st'" and "b \<in> set (bs_books st)"
    and "pb_status b \<noteq> Book_Draft" and "pb_status b \<noteq> Book_Active"
  shows "filter (\<lambda>e. pe_book e = pb_id b) (bs_entries st') = filter (\<lambda>e. pe_book e = pb_id b) (bs_entries st)"
proof -
  obtain ps where "book_effect True (st\<lparr>bs_policy := ps\<rparr>) st'" using assms(1) by (auto simp: effect_step_def)
  then show ?thesis
  proof cases
    case (Prices c)
    have d: "distinct (map pb_id (bs_books st))"
      using effect_step_rows(3) [OF assms(1)] by (simp add: store_indexed_def books_indexed_def)
    have ne: "pb_id c \<noteq> pb_id b" if "c \<in> set (bs_books st)" "pb_status c \<in> {Book_Draft, Book_Active}"
    proof
      assume "pb_id c = pb_id b"
      then have "c = b" by (rule distinct_map_same [OF d that(1) assms(2)])
      then show False using that(2) assms(3,4) by simp
    qed
    from Prices show ?thesis
    proof (cases rule: entries_extend_cases)
      case (First e)
      then show ?thesis using ne by simp
    next
      case (Next p e)
      have "pb_id c \<noteq> pb_id b" using ne Next(3) by simp
      then show ?thesis using Next(1,3,6) by (simp add: superseding_other)
    qed
  qed (auto simp: books_move_def)
qed

lemma book_moves_rank_run:
  "(book_moves serial)\<^sup>*\<^sup>* b b' \<Longrightarrow> book_rank (pb_status b) \<le> book_rank (pb_status b') \<and> pb_id b' = pb_id b"
proof (induction rule: rtranclp_induct)
  case (step y z)
  then show ?case using book_moves_rank [OF step.hyps(2)] book_moves_key [OF step.hyps(2)] by auto
qed simp

lemma frozen_run:
  assumes "(effect_step True)\<^sup>*\<^sup>* st st'" and "k < length (bs_books st)"
    and "1 \<le> book_rank (pb_status (bs_books st ! k))" and "book_rank (pb_status (bs_books st' ! k)) \<le> 3"
  shows "filter (\<lambda>e. pe_book e = pb_id (bs_books st ! k)) (bs_entries st')
       = filter (\<lambda>e. pe_book e = pb_id (bs_books st ! k)) (bs_entries st)"
  using assms(1,4)
proof (induction rule: rtranclp_induct)
  case (step t u)
  have t: "k < length (bs_books t)" "(book_moves True)\<^sup>*\<^sup>* (bs_books st ! k) (bs_books t ! k)"
    using book_rows.rows_move [OF step.hyps(1) assms(2)] by auto
  have u: "(book_moves True)\<^sup>*\<^sup>* (bs_books t ! k) (bs_books u ! k)"
    using book_rows.rows_move [OF _ t(1)] step.hyps(2) by blast
  have r: "1 \<le> book_rank (pb_status (bs_books t ! k))" "book_rank (pb_status (bs_books t ! k)) \<le> 3"
    using book_moves_rank_run [OF t(2)] book_moves_rank_run [OF u] step.prems assms(3) by auto
  then have s: "pb_status (bs_books t ! k) \<noteq> Book_Draft" "pb_status (bs_books t ! k) \<noteq> Book_Active"
    by (auto dest: sym)
  have i: "pb_id (bs_books t ! k) = pb_id (bs_books st ! k)" using book_moves_rank_run [OF t(2)] by simp
  show ?case using frozen_step [OF step.hyps(2) nth_mem [OF t(1)] s] step.IH [OF r(2)] unfolding i by simp
qed simp

section \<open>What the price engine sees\<close>

lemma priced_row_Some:
  assumes "r \<in> set (priced_row bs e)"
  obtains b where "b \<in> set bs" "pb_id b = pe_book e" "pb_tenant b = be_tenant e" "pe_book r = pe_book e"
    "pe_scope r = pe_scope e" "pe_scope_id r = pe_scope_id e" "pe_min_qty r = pe_min_qty e" "pe_tenant r = be_tenant e"
    "pe_status r = be_status e" "pe_book_status r = book_status_name (pb_status b)"
    "pe_book_default r = pb_default b" "priced_row bs e = [r]"
proof (cases "find (\<lambda>b. pb_id b = pe_book e \<and> pb_tenant b = be_tenant e) bs")
  case None
  then show thesis using assms by (simp add: priced_row_def)
next
  case (Some b)
  have b: "b \<in> set bs" "pb_id b = pe_book e" "pb_tenant b = be_tenant e" using find_Some_iff_set [OF Some] by auto
  have p: "priced_row bs e = [r]" using assms Some by (simp add: priced_row_def)
  then have r: "pe_book r = pe_book e" "pe_scope r = pe_scope e" "pe_scope_id r = pe_scope_id e"
      "pe_min_qty r = pe_min_qty e" "pe_tenant r = be_tenant e" "pe_status r = be_status e"
      "pe_book_status r = book_status_name (pb_status b)" "pe_book_default r = pb_default b"
    using Some by (auto simp: priced_row_def)
  show thesis by (rule that [OF b r p])
qed

text \<open>A row the engine loads stands for an active entry of a book that is the active default of its scope.\<close>

lemma loaded_row:
  assumes "r \<in> set (load_active_rules tenant now (priced_rows st))"
  obtains e b where "e \<in> set (bs_entries st)" "active_entry e" "b \<in> set (bs_books st)" "active_default b"
    "pb_tenant b = tenant" "pb_id b = pe_book e" "pe_book r = pe_book e" "pe_scope r = pe_scope e"
    "pe_scope_id r = pe_scope_id e" "pe_min_qty r = pe_min_qty e" "priced_row (bs_books st) e = [r]"
proof -
  have l: "r \<in> set (priced_rows st)" "pe_tenant r = tenant" "pe_status r = ''active''" "pe_book_status r = ''active''"
      "pe_book_default r"
    using assms by (auto simp: load_active_rules_def)
  then obtain e where e: "e \<in> set (bs_entries st)" "r \<in> set (priced_row (bs_books st) e)" by (auto simp: priced_rows_def)
  from e(2) obtain b where b: "b \<in> set (bs_books st)" "pb_id b = pe_book e" "pb_tenant b = be_tenant e"
      "pe_book r = pe_book e" "pe_scope r = pe_scope e" "pe_scope_id r = pe_scope_id e" "pe_min_qty r = pe_min_qty e"
      "pe_tenant r = be_tenant e" "pe_status r = be_status e"
      "pe_book_status r = book_status_name (pb_status b)"
      "pe_book_default r = pb_default b" "priced_row (bs_books st) e = [r]"
    by (rule priced_row_Some)
  have "active_default b" using l(4,5) b(10,11) by (cases "pb_status b") (auto simp: active_default_def)
  moreover have "active_entry e" using l(3) b(9) by (simp add: active_entry_def)
  ultimately show thesis using that [of e b] e(1) b l(2) by simp
qed

text \<open>C10: What was submitted is what is approved, by someone else. The service checks a book in one
  statement and writes in a later one, and requests may overlap. However they do, in every store made from one without books, a
  book that got past review was approved by an actor who is not its author, and at most one book is the
  active default of its tenant, currency, scope and reference. When requests are served one
  after the other, the approver is not the one who submitted either; and as long as they are, from a book's
  submission to its activation no request changes its entries: the prices that become live are
  those that were submitted. (Overlapping requests can break these last two, see
  \<open>submitter_can_approve\<close> and \<open>unreviewed_price\<close>.)\<close>
theorem price_book_review:
  assumes "book_race\<^sup>*\<^sup>* (st0, []) (st, ws)" and "bs_books st0 = []" and "store_indexed st0"
  shows "(\<forall>b \<in> set (bs_books st). pb_status b \<in> {Book_Approved, Book_Scheduled, Book_Active, Book_Ended}
            \<longrightarrow> approved_by_other b \<and> (book_step\<^sup>*\<^sup>* st0 st \<longrightarrow> independently_approved b))
    \<and> (\<forall>b \<in> set (bs_books st). \<forall>c \<in> set (bs_books st).
         active_default b \<and> active_default c \<and> default_key b = default_key c \<longrightarrow> b = c)
    \<and> (\<forall>st' k. book_step\<^sup>*\<^sup>* st st' \<and> k < length (bs_books st)
         \<and> pb_status (bs_books st ! k) = Book_Submitted
         \<and> pb_status (bs_books st' ! k) \<in> {Book_Submitted, Book_Approved, Book_Scheduled}
         \<longrightarrow> pb_id (bs_books st' ! k) = pb_id (bs_books st ! k)
           \<and> filter (\<lambda>e. pe_book e = pb_id (bs_books st ! k)) (bs_entries st')
             = filter (\<lambda>e. pe_book e = pb_id (bs_books st ! k)) (bs_entries st))"
proof (intro conjI)
  note run = race_run_effect [OF assms(1,3)]
  have sound: "list_all (book_sound serial) (bs_books st)" if "(effect_step serial)\<^sup>*\<^sup>* st0 st" for serial
    using book_rows.rows_invariant [OF that, of "book_sound serial"] assms(2) book_born_sound book_moves_sound by simp
  show "\<forall>b \<in> set (bs_books st). pb_status b \<in> {Book_Approved, Book_Scheduled, Book_Active, Book_Ended}
      \<longrightarrow> approved_by_other b \<and> (book_step\<^sup>*\<^sup>* st0 st \<longrightarrow> independently_approved b)"
    using sound [OF run] sound [OF book_run_effect, of True] by (auto simp: list_all_iff book_sound_def)
  have u: "unique_on active_default default_key (bs_books st)"
    using effect_run_indexed [OF run assms(3)] by (simp add: store_indexed_def books_indexed_def)
  show "\<forall>b \<in> set (bs_books st). \<forall>c \<in> set (bs_books st).
      active_default b \<and> active_default c \<and> default_key b = default_key c \<longrightarrow> b = c"
    using unique_on_same [OF u] by blast
  show "\<forall>st' k. book_step\<^sup>*\<^sup>* st st' \<and> k < length (bs_books st)
         \<and> pb_status (bs_books st ! k) = Book_Submitted
         \<and> pb_status (bs_books st' ! k) \<in> {Book_Submitted, Book_Approved, Book_Scheduled}
         \<longrightarrow> pb_id (bs_books st' ! k) = pb_id (bs_books st ! k)
           \<and> filter (\<lambda>e. pe_book e = pb_id (bs_books st ! k)) (bs_entries st')
             = filter (\<lambda>e. pe_book e = pb_id (bs_books st ! k)) (bs_entries st)"
  proof (intro allI impI)
    fix st' k
    assume a: "book_step\<^sup>*\<^sup>* st st' \<and> k < length (bs_books st)
         \<and> pb_status (bs_books st ! k) = Book_Submitted
         \<and> pb_status (bs_books st' ! k) \<in> {Book_Submitted, Book_Approved, Book_Scheduled}"
    then have r: "(effect_step True)\<^sup>*\<^sup>* st st'" using book_run_effect by blast
    have "pb_id (bs_books st' ! k) = pb_id (bs_books st ! k)"
      using book_rows.rows_move [OF r, of k] book_moves_rank_run a by blast
    then show "pb_id (bs_books st' ! k) = pb_id (bs_books st ! k)
           \<and> filter (\<lambda>e. pe_book e = pb_id (bs_books st ! k)) (bs_entries st')
             = filter (\<lambda>e. pe_book e = pb_id (bs_books st ! k)) (bs_entries st)"
      using frozen_run [OF r, of k] a by auto
  qed
qed

text \<open>C11: Prices are versioned, never rewritten. In every store that requests make from an
  empty one, overlapping in any way, each entry's book, scope and quantity break have exactly one entry in force, however often
  the price was superseded, and its version is at least that of every earlier one. Later requests leave every stored entry in place and may
  change nothing of it but its status and the pointer to its successor.\<close>
theorem price_history_kept:
  assumes "book_race\<^sup>*\<^sup>* (st0, []) (st, ws)" and "bs_books st0 = []" and "bs_entries st0 = []"
    and "k < length (bs_entries st)"
  shows "(\<exists>!a. a \<in> set (bs_entries st) \<and> active_entry a \<and> entry_key a = entry_key (bs_entries st ! k))
    \<and> (\<exists>a \<in> set (bs_entries st). active_entry a \<and> entry_key a = entry_key (bs_entries st ! k)
         \<and> be_version (bs_entries st ! k) \<le> be_version a)
    \<and> (\<forall>st' ws'. book_race\<^sup>*\<^sup>* (st, ws) (st', ws') \<longrightarrow> k < length (bs_entries st')
         \<and> (\<exists>s n. bs_entries st' ! k = (bs_entries st ! k)\<lparr>be_status := s, be_superseded_by := n\<rparr>))"
proof (intro conjI)
  have i0: "store_indexed st0" using assms(2,3) by (rule empty_indexed)
  have inv: "race_inv (st, ws)" using book_race_run [OF assms(1)] i0 by (simp add: race_inv_def)
  note run = race_run_effect [OF assms(1) i0]
  have u: "unique_on active_entry entry_key (bs_entries st)"
    using effect_run_indexed [OF run i0] by (simp add: store_indexed_def entries_indexed_def)
  have c: "chained st" by (rule effect_run_keeps(3) [OF run]) (simp add: chained_def assms(3))
  show e: "\<exists>a \<in> set (bs_entries st). active_entry a \<and> entry_key a = entry_key (bs_entries st ! k)
      \<and> be_version (bs_entries st ! k) \<le> be_version a"
    using chain_ends [OF c nth_mem [OF assms(4)]] .
  then show "\<exists>!a. a \<in> set (bs_entries st) \<and> active_entry a \<and> entry_key a = entry_key (bs_entries st ! k)"
    using unique_on_same [OF u] by (metis (lifting))
  show "\<forall>st' ws'. book_race\<^sup>*\<^sup>* (st, ws) (st', ws') \<longrightarrow> k < length (bs_entries st')
      \<and> (\<exists>s n. bs_entries st' ! k = (bs_entries st ! k)\<lparr>be_status := s, be_superseded_by := n\<rparr>)"
    using book_race_run [OF _ inv] entry_rows.rows_move [OF _ assms(4)] entry_moves_columns by fastforce
qed

text \<open>Entries told apart by scope and quantity break resolve the same in every order.\<close>

lemma resolve_levels_order:
  assumes "set es = set es'"
    and "\<And>e e'. e \<in> set es \<Longrightarrow> e' \<in> set es \<Longrightarrow> pe_scope e = pe_scope e' \<Longrightarrow> pe_scope_id e = pe_scope_id e'
      \<Longrightarrow> pe_min_qty e = pe_min_qty e' \<Longrightarrow> e = e'"
    and "\<And>e. e \<in> set es \<Longrightarrow> pe_scope e = Global_Scope \<Longrightarrow> pe_scope_id e = None"
  shows "resolve_levels v qty es levels = resolve_levels v qty es' levels"
proof (induction levels)
  case (Cons level levels)
  let ?f = "filter (\<lambda>e. pe_scope e = level \<and> qualifies v qty e)"
  have f: "set (?f es) = set (?f es')" using assms(1) by simp
  show ?case
  proof (cases "?f es = []")
    case True
    then have "?f es' = []" using f by (metis set_empty)
    then show ?thesis using True Cons.IH by simp
  next
    case False
    then have False': "?f es' \<noteq> []" using f by (metis set_empty)
    let ?x = "tightest_break (?f es)" and ?y = "tightest_break (?f es')"
    have x: "?x \<in> set (?f es)" by (rule tightest_break(1) [OF False])
    have y: "?y \<in> set (?f es)" unfolding f by (rule tightest_break(1) [OF False'])
    have "pe_min_qty ?x = pe_min_qty ?y"
      using tightest_break(2) [OF False y] tightest_break(2) [OF False' x [unfolded f]] by simp
    moreover have "pe_scope ?x = level" "pe_scope ?y = level" using x y by auto
    moreover have "pe_scope_id ?x = pe_scope_id ?y"
      using x y assms(3) by (cases "level = Global_Scope") (auto simp: qualifies_def)
    ultimately have "?x = ?y" using x y by (intro assms(2)) auto
    then show ?thesis using False False' by simp
  qed
qed simp

text \<open>
  What the price engine loads for a tenant whose books all have the default scope: entries of one book, at most one of
  each scope and quantity break.
\<close>

lemma loaded_rows_one:
  assumes i: "store_indexed st" and c: "in_operating_currency st"
    and s: "\<forall>b \<in> set (bs_books st). pb_tenant b = tenant \<longrightarrow> pb_scope b = Tenant_Default \<and> pb_ref b = None"
    and r: "r \<in> set (load_active_rules tenant now (priced_rows st))" and r': "r' \<in> set (load_active_rules tenant now (priced_rows st))"
  shows "pe_book r = pe_book r'
    \<and> (pe_scope r = pe_scope r' \<and> pe_scope_id r = pe_scope_id r' \<and> pe_min_qty r = pe_min_qty r' \<longrightarrow> r = r')"
proof -
  have u: "unique_on active_default default_key (bs_books st)" "unique_on active_entry entry_key (bs_entries st)"
    using i by (auto simp: store_indexed_def books_indexed_def entries_indexed_def)
  from r obtain e b where e: "e \<in> set (bs_entries st)" "active_entry e" "b \<in> set (bs_books st)" "active_default b"
      "pb_tenant b = tenant" "pb_id b = pe_book e" "pe_book r = pe_book e" "pe_scope r = pe_scope e"
      "pe_scope_id r = pe_scope_id e" "pe_min_qty r = pe_min_qty e" "priced_row (bs_books st) e = [r]"
    by (rule loaded_row)
  from r' obtain e' b' where e': "e' \<in> set (bs_entries st)" "active_entry e'" "b' \<in> set (bs_books st)" "active_default b'"
      "pb_tenant b' = tenant" "pb_id b' = pe_book e'" "pe_book r' = pe_book e'" "pe_scope r' = pe_scope e'"
      "pe_scope_id r' = pe_scope_id e'" "pe_min_qty r' = pe_min_qty e'" "priced_row (bs_books st) e' = [r']"
    by (rule loaded_row)
  have "map_of (bs_currency st) tenant = Some (pb_currency b)" "map_of (bs_currency st) tenant = Some (pb_currency b')"
    using c e(3,5) e'(3,5) by (auto simp: in_operating_currency_def)
  then have "pb_currency b = pb_currency b'" by simp
  then have "default_key b = default_key b'" using s e(3,5) e'(3,5) by (simp add: default_key_def)
  then have "b = b'" using unique_on_same [OF u(1) e(3) e'(3) e(4) e'(4)] by simp
  then have bk: "pe_book e = pe_book e'" using e(6) e'(6) by simp
  moreover have "r = r'" if "pe_scope r = pe_scope r'" "pe_scope_id r = pe_scope_id r'" "pe_min_qty r = pe_min_qty r'"
  proof -
    have "entry_key e = entry_key e'" using that bk e(8-10) e'(8-10) by (simp add: entry_key_def)
    then have "e = e'" using unique_on_same [OF u(2) e(1) e'(1) e(2) e'(2)] by simp
    then show ?thesis using e(11) e'(11) by simp
  qed
  ultimately show ?thesis using e(7) e'(7) by simp
qed

text \<open>C12: One live price. As long as the books of a tenant all have its default scope, the entries the
  price engine loads belong to a single book, however the requests that made them overlapped, and the quote of a variant does not depend on the order
  in which the database returns them (it returns them in none in particular).\<close>
theorem one_live_price:
  assumes "book_race\<^sup>*\<^sup>* (st0, []) (st, ws)" and "bs_books st0 = []" and "bs_entries st0 = []"
    and "\<forall>b \<in> set (bs_books st). pb_tenant b = tenant \<longrightarrow> pb_scope b = Tenant_Default \<and> pb_ref b = None"
    and "set rows = set (load_active_rules tenant now (priced_rows st))"
  shows "(\<forall>r \<in> set rows. \<forall>r' \<in> set rows. pe_book r = pe_book r')
    \<and> quote L v rows qty codes = quote L v (load_active_rules tenant now (priced_rows st)) qty codes"
proof -
  have i0: "store_indexed st0" using assms(2,3) by (rule empty_indexed)
  note run = race_run_effect [OF assms(1) i0]
  have "in_operating_currency st"
    by (rule effect_run_keeps(1) [OF run]) (simp add: in_operating_currency_def assms(2))
  note one = loaded_rows_one [OF effect_run_indexed [OF run i0] this assms(4), of _ now, folded assms(5)]
  have g: "globals_plain st"
    by (rule effect_run_keeps(2) [OF run]) (simp add: globals_plain_def assms(3))
  have plain: "pe_scope_id r = None" if "r \<in> set rows" "pe_scope r = Global_Scope" for r
    using that(1) unfolding assms(5)
    by (rule loaded_row) (use that(2) g in \<open>auto simp: globals_plain_def\<close>)
  have "resolve_levels v qty rows scope_priority
      = resolve_levels v qty (load_active_rules tenant now (priced_rows st)) scope_priority"
  proof (rule resolve_levels_order [OF assms(5)])
    fix e e'
    assume m: "e \<in> set rows" "e' \<in> set rows"
      and k: "pe_scope e = pe_scope e'" "pe_scope_id e = pe_scope_id e'" "pe_min_qty e = pe_min_qty e'"
    from one [OF m] k show "e = e'" by simp
  qed (rule plain)
  then have "quote L v rows qty codes = quote L v (load_active_rules tenant now (priced_rows st)) qty codes"
    by (simp only: quote_resolve)
  then show ?thesis using one by blast
qed

section \<open>Runs\<close>

text \<open>A sequence of accepted requests of one tenant.\<close>

definition serve_books :: "string \<Rightarrow> int \<Rightarrow> (book_actor \<times> book_request) list \<Rightarrow> book_store \<Rightarrow> book_store result" where
  "serve_books tenant now = fold_result (\<lambda>(actor, r). price_book_request tenant actor now r)"

lemma serve_books_run:
  assumes "serve_books tenant now calls st = Inr st'" and "store_indexed st"
    and "\<forall>(actor, r) \<in> set calls. ba_sub actor \<noteq> []"
  shows "book_step\<^sup>*\<^sup>* st st'"
  using assms unfolding serve_books_def
proof (induction calls arbitrary: st)
  case (Cons call calls)
  obtain actor r where c: "call = (actor, r)" by (cases call) auto
  obtain t where t: "price_book_request tenant actor now r st = Inr t"
      "fold_result (\<lambda>(actor, r). price_book_request tenant actor now r) calls t = Inr st'"
    using Cons.prems(1) c by (auto simp: result_simps)
  have "book_step st t" using t(1) Cons.prems(2,3) c by (auto simp: book_step_def)
  moreover have "book_step\<^sup>*\<^sup>* t st'"
    using Cons.IH [OF t(2) effect_step_rows(4) [OF book_step_effect [OF \<open>book_step st t\<close>]]] Cons.prems(3) by simp
  ultimately show ?case by (rule converse_rtranclp_into_rtranclp)
qed simp

text \<open>Once the policy in force is the current catalog, a branch manager passes the guard of every route.\<close>

lemma seeded_guard:
  assumes "k \<in> set (all_role_permissions r)"
  shows "permission_guard [k] False (Some r) [new_snapshot] = Inr [new_snapshot]"
proof -
  have "current_snapshot [new_snapshot] = Some new_snapshot" by (simp add: current_snapshot_def new_snapshot_def)
  then have "ensure_seeded [new_snapshot] = Inr (new_snapshot, [new_snapshot])"
    by (simp add: ensure_seeded_def new_snapshot_def)
  then show ?thesis
    using assms by (simp add: permission_guard_def require_permission_def has_permission_def get_grants_def new_snapshot_def)
qed

lemma manager_prices: "set pricing_permissions \<subseteq> set (all_role_permissions Location_Manager)"
  by (auto simp: in_all_role_permissions location_manager_grants_def)

lemma manager_request:
  assumes "ba_role actor = Some Location_Manager" and "bs_policy st = [new_snapshot]"
  shows "price_book_request tenant actor now r st = book_route tenant actor now r st"
proof -
  have "book_route_key r \<in> set pricing_permissions" by (cases r) (simp_all add: pricing_permissions_def)
  then have "book_route_key r \<in> set (all_role_permissions Location_Manager)" using manager_prices by blast
  from seeded_guard [OF this]
  have g: "permission_guard [book_route_key r] False (ba_role actor) (bs_policy st) = Inr [new_snapshot]"
    using assms by simp
  have e: "st\<lparr>bs_policy := [new_snapshot]\<rparr> = st" using assms(2) by (cases st) simp
  show ?thesis unfolding price_book_request_def g and_then_simps e ..
qed

text \<open>Three branch managers of one tenant, a retail book for everything, and a wholesale book for one variant.\<close>

definition manager :: "string \<Rightarrow> book_actor" where
  "manager name = \<lparr>ba_sub = name, ba_role = Some Location_Manager\<rparr>"

definition sample_store :: book_store where
  "sample_store = \<lparr>bs_currency = [(''t'', ''EGP'')], bs_policy = [new_snapshot], bs_books = [], bs_entries = []\<rparr>"

definition sample_dto :: "string \<Rightarrow> scope_type \<Rightarrow> string option \<Rightarrow> rat \<Rightarrow> create_entry_dto" where
  "sample_dto book scope scope_id price =
     \<lparr>ce_book = book, ce_scope = scope, ce_scope_id = scope_id, ce_min_qty = None, ce_unit_price = price,
      ce_allow_zero = None, ce_tax_percent = None, ce_tax_mode = Exclusive, ce_floor_price = None\<rparr>"

definition sample_calls :: "string \<Rightarrow> book_scope option \<Rightarrow> string \<Rightarrow> create_entry_dto \<Rightarrow> (book_actor \<times> book_request) list" where
  "sample_calls i scope entry dto =
     [(manager ''a'', Create_Book i ''Prices'' None scope None (Some True)), (manager ''a'', Create_Entry entry dto),
      (manager ''b'', Submit_Book i), (manager ''c'', Approve_Book i), (manager ''b'', Schedule_Book i None),
      (manager ''b'', Activate_Book i)]"

definition retail_calls :: "(book_actor \<times> book_request) list" where
  "retail_calls = sample_calls ''r'' None ''e1'' (sample_dto ''r'' Global_Scope None 100)"

definition wholesale_calls :: "(book_actor \<times> book_request) list" where
  "wholesale_calls = sample_calls ''w'' (Some Wholesale) ''e2'' (sample_dto ''w'' Variant_Scope (Some ''v1'') 60)"

definition sample_book :: "string \<Rightarrow> book_scope \<Rightarrow> book_status \<Rightarrow> price_book" where
  "sample_book i scope status =
     \<lparr>pb_id = i, pb_tenant = ''t'', pb_name = ''Prices'', pb_currency = ''EGP'', pb_scope = scope, pb_ref = None,
      pb_status = status, pb_default = True, pb_effective_from = None, pb_created_by = Some ''a'',
      pb_submitted_by = (if book_rank status \<ge> 1 then Some ''b'' else None),
      pb_approved_by = (if book_rank status \<ge> 2 then Some ''c'' else None),
      pb_scheduled_by = (if book_rank status \<ge> 3 then Some ''b'' else None),
      pb_activated_by = (if book_rank status \<ge> 4 then Some ''b'' else None), pb_ended_by = None\<rparr>"

definition sample_book_entry :: "string \<Rightarrow> string \<Rightarrow> scope_type \<Rightarrow> string option \<Rightarrow> rat \<Rightarrow> book_entry" where
  "sample_book_entry i book scope scope_id price =
     \<lparr>pe_id = i, pe_book = book, pe_scope = scope, pe_scope_id = scope_id, pe_min_qty = 1, pe_unit_price = price,
      pe_tax_mode = Exclusive, pe_floor_price = None, be_tenant = ''t'', be_status = ''active'', be_effective_from = 0,
      be_effective_to = None, be_allow_zero = False, be_tax_percent = 14, be_version = 1, be_superseded_by = None,
      be_created_by = Some ''a''\<rparr>"

definition retail_store :: "book_status \<Rightarrow> book_store" where
  "retail_store status = sample_store\<lparr>bs_books := [sample_book ''r'' Tenant_Default status],
     bs_entries := [sample_book_entry ''e1'' ''r'' Global_Scope None 100]\<rparr>"

lemmas book_evaluation =
  Let_def create_book_def insert_book_def put_books_def create_entry_def create_entry_check_def create_entry_write_def insert_entry_def put_entries_def book_in_tenant_def
  find_book_def assert_entries_manageable_def assert_valid_price_def submit_book_def approve_book_def approve_check_def
  approve_write_def schedule_book_def activate_book_def activate_check_def activate_write_def activate_in_transaction_def book_transition_def update_many_def
  unique_on_def active_default_def default_key_def active_entry_def entry_key_def entry_checks_def ref_key_def
  manager_def sample_dto_def sample_book_def sample_book_entry_def

lemma retail_run: "serve_books ''t'' 0 (take 5 retail_calls) sample_store = Inr (retail_store Book_Scheduled)"
  unfolding retail_calls_def sample_calls_def serve_books_def
  by (simp add: manager_request sample_store_def retail_store_def book_evaluation cong: and_then_weak_cong)

lemma retail_activation: "serve_books ''t'' 0 (drop 5 retail_calls) (retail_store Book_Scheduled) = Inr (retail_store Book_Active)"
  unfolding retail_calls_def sample_calls_def serve_books_def
  by (simp add: manager_request sample_store_def retail_store_def book_evaluation cong: and_then_weak_cong)

definition both_store :: book_store where
  "both_store = sample_store\<lparr>
     bs_books := [sample_book ''r'' Tenant_Default Book_Active, sample_book ''w'' Wholesale Book_Active],
     bs_entries := [sample_book_entry ''e1'' ''r'' Global_Scope None 100,
       sample_book_entry ''e2'' ''w'' Variant_Scope (Some ''v1'') 60]\<rparr>"

lemma wholesale_run: "serve_books ''t'' 0 wholesale_calls (retail_store Book_Active) = Inr both_store"
  unfolding wholesale_calls_def sample_calls_def serve_books_def
  by (simp add: manager_request sample_store_def retail_store_def both_store_def book_evaluation cong: and_then_weak_cong)

lemma sample_store_indexed: "store_indexed sample_store"
  by (simp add: sample_store_def store_indexed_def books_indexed_def entries_indexed_def unique_on_def)

lemma retail_reached: "book_step\<^sup>*\<^sup>* sample_store (retail_store Book_Scheduled)"
  by (rule serve_books_run [OF retail_run sample_store_indexed]) (simp add: retail_calls_def sample_calls_def manager_def)

lemma retail_live: "book_step\<^sup>*\<^sup>* sample_store (retail_store Book_Active)"
proof -
  have "book_step\<^sup>*\<^sup>* (retail_store Book_Scheduled) (retail_store Book_Active)"
    by (rule serve_books_run [OF retail_activation book_run_indexed [OF retail_reached sample_store_indexed]])
      (simp add: retail_calls_def sample_calls_def manager_def)
  then show ?thesis using retail_reached by simp
qed

lemma both_live: "book_step\<^sup>*\<^sup>* (retail_store Book_Active) both_store"
  by (rule serve_books_run [OF wholesale_run book_run_indexed [OF retail_live sample_store_indexed]])
    (simp add: wholesale_calls_def sample_calls_def manager_def)

lemma price_book_review_witness:
  "independently_approved (sample_book ''r'' Tenant_Default Book_Scheduled)
   \<and> filter (\<lambda>e. pe_book e = ''r'') (bs_entries (retail_store Book_Scheduled))
     = [sample_book_entry ''e1'' ''r'' Global_Scope None 100]"
proof
  have b: "sample_book ''r'' Tenant_Default Book_Scheduled \<in> set (bs_books (retail_store Book_Scheduled))"
    "pb_status (sample_book ''r'' Tenant_Default Book_Scheduled) = Book_Scheduled" "bs_books sample_store = []"
    by (simp_all add: retail_store_def sample_book_def sample_store_def)
  show "independently_approved (sample_book ''r'' Tenant_Default Book_Scheduled)"
    using conjunct1 [OF price_book_review [OF book_run_races [OF retail_reached] b(3) sample_store_indexed]] b(1,2)
      retail_reached by blast
  show "filter (\<lambda>e. pe_book e = ''r'') (bs_entries (retail_store Book_Scheduled))
     = [sample_book_entry ''e1'' ''r'' Global_Scope None 100]"
    by (simp add: retail_store_def sample_book_entry_def)
qed

lemma price_history_kept_witness:
  "\<exists>!a. a \<in> set (bs_entries both_store) \<and> active_entry a
      \<and> entry_key a = entry_key (sample_book_entry ''e2'' ''w'' Variant_Scope (Some ''v1'') 60)"
proof -
  have e: "bs_books sample_store = []" "bs_entries sample_store = []" "1 < length (bs_entries both_store)"
      "bs_entries both_store ! 1 = sample_book_entry ''e2'' ''w'' Variant_Scope (Some ''v1'') 60"
    by (simp_all add: sample_store_def both_store_def)
  have "book_step\<^sup>*\<^sup>* sample_store both_store" using retail_live both_live by simp
  from conjunct1 [OF price_history_kept [OF book_run_races [OF this] e(1,2,3)]] show ?thesis unfolding e(4) .
qed

lemma one_live_price_witness:
  "quote dec_exact sample_variant (rev (load_active_rules ''t'' 0 (priced_rows (retail_store Book_Active)))) 1 sample_codes
     = quote dec_exact sample_variant (load_active_rules ''t'' 0 (priced_rows (retail_store Book_Active))) 1 sample_codes"
  by (rule conjunct2 [OF one_live_price [OF book_run_races [OF retail_live]]])
    (simp_all add: sample_store_def retail_store_def sample_book_def)

section \<open>Where two books are live\<close>

definition sample_row :: "string \<Rightarrow> string \<Rightarrow> scope_type \<Rightarrow> string option \<Rightarrow> rat \<Rightarrow> price_entry_row" where
  "sample_row i book scope scope_id price =
     \<lparr>pe_id = i, pe_book = book, pe_scope = scope, pe_scope_id = scope_id, pe_min_qty = 1, pe_unit_price = price,
      pe_tax_mode = Exclusive, pe_floor_price = None, pe_tenant = ''t'', pe_status = ''active'', pe_effective_from = 0,
      pe_effective_to = None, pe_book_tenant = ''t'', pe_book_status = ''active'', pe_book_default = True\<rparr>"

lemma sample_row_price:
  assumes "resolve_levels sample_variant 1 rows scope_priority = Some (sample_row i b s sid p)"
    and "moneyq dec_exact p = p"
  shows "\<exists>q. quote dec_exact sample_variant rows 1 sample_codes = Inr (Some q) \<and> pq_net_price q = p \<and> ps_book (pq_source q) = b"
  using assms
  by (simp add: quote_resolve price_from_entry_def Let_def resolve_category_id_def sample_variant_def sample_codes_def
      sample_row_def tax_calculate_def)

text \<open>The scope of a book does not scope its prices. A branch manager may flag a wholesale book as the default
  of its own scope, and the index allows it beside the retail default. The engine loads the
  entries of every active default book alike, so from the moment the wholesale book is activated each
  sale of its variant is priced at wholesale, whoever the customer is: 60 in place of 100, with the rows in
  either order. The schema says that only the tenant's default scope takes part in selection.\<close>
theorem wholesale_book_prices_everyone:
  "book_step\<^sup>*\<^sup>* sample_store (retail_store Book_Active) \<and> book_step\<^sup>*\<^sup>* (retail_store Book_Active) both_store
   \<and> (\<exists>q. quote dec_exact sample_variant (load_active_rules ''t'' 0 (priced_rows (retail_store Book_Active))) 1 sample_codes
        = Inr (Some q) \<and> pq_net_price q = 100 \<and> ps_book (pq_source q) = ''r'')
   \<and> (\<forall>rows \<in> {load_active_rules ''t'' 0 (priced_rows both_store), rev (load_active_rules ''t'' 0 (priced_rows both_store))}.
        \<exists>q. quote dec_exact sample_variant rows 1 sample_codes = Inr (Some q)
          \<and> pq_net_price q = 60 \<and> ps_book (pq_source q) = ''w'')"
proof (intro conjI)
  define r1 where "r1 = sample_row ''e1'' ''r'' Global_Scope None 100"
  define r2 where "r2 = sample_row ''e2'' ''w'' Variant_Scope (Some ''v1'') 60"
  have one: "load_active_rules ''t'' 0 (priced_rows (retail_store Book_Active)) = [r1]"
    and two: "load_active_rules ''t'' 0 (priced_rows both_store) = [r1, r2]"
    by (simp_all add: load_active_rules_def priced_rows_def priced_row_def retail_store_def both_store_def sample_store_def
        sample_book_def sample_book_entry_def sample_row_def r1_def r2_def)
  have scopes: "pe_scope r1 = Global_Scope" "pe_scope r2 = Variant_Scope" "pe_scope_id r2 = Some ''v1''"
      "pe_min_qty r1 = 1" "pe_min_qty r2 = 1"
    by (simp_all add: r1_def r2_def sample_row_def)
  have found: "resolve_levels sample_variant 1 [r1] scope_priority = Some r1"
      "resolve_levels sample_variant 1 [r1, r2] scope_priority = Some r2"
      "resolve_levels sample_variant 1 [r2, r1] scope_priority = Some r2"
    by (simp_all add: scope_priority_def qualifies_def scopes sample_variant_def tightest_break_def)
  have m: "moneyq dec_exact 100 = 100" "moneyq dec_exact 60 = 60" by code_simp+
  show "\<exists>q. quote dec_exact sample_variant (load_active_rules ''t'' 0 (priced_rows (retail_store Book_Active))) 1 sample_codes
      = Inr (Some q) \<and> pq_net_price q = 100 \<and> ps_book (pq_source q) = ''r''"
    unfolding one by (rule sample_row_price [OF found(1) [unfolded r1_def] m(1), folded r1_def])
  have "\<exists>q. quote dec_exact sample_variant rows 1 sample_codes = Inr (Some q)
      \<and> pq_net_price q = 60 \<and> ps_book (pq_source q) = ''w''" if "rows \<in> {[r1, r2], [r2, r1]}" for rows
    by (rule sample_row_price [OF _ m(2)]) (use that found(2,3) in \<open>auto simp: r2_def\<close>)
  then show "\<forall>rows \<in> {load_active_rules ''t'' 0 (priced_rows both_store), rev (load_active_rules ''t'' 0 (priced_rows both_store))}.
      \<exists>q. quote dec_exact sample_variant rows 1 sample_codes = Inr (Some q)
        \<and> pq_net_price q = 60 \<and> ps_book (pq_source q) = ''w''"
    unfolding two rev.simps append.simps by blast
qed (rule retail_live both_live)+

section \<open>Requests that overlap\<close>

definition one_book :: "book_status \<Rightarrow> book_store" where
  "one_book status = sample_store\<lparr>bs_books := [sample_book ''r'' Tenant_Default status]\<rparr>"

definition self_approved :: book_store where
  "self_approved = sample_store\<lparr>bs_books := [(sample_book ''r'' Tenant_Default Book_Approved)\<lparr>pb_approved_by := Some ''b''\<rparr>]\<rparr>"

lemma one_book_indexed: "store_indexed (one_book status)"
  by (simp add: one_book_def sample_store_def store_indexed_def books_indexed_def entries_indexed_def unique_on_def)

lemma one_book_reached: "book_step\<^sup>*\<^sup>* sample_store (one_book Book_Draft)"
proof (rule serve_books_run [OF _ sample_store_indexed])
  show "serve_books ''t'' 0 (take 1 retail_calls) sample_store = Inr (one_book Book_Draft)"
    unfolding retail_calls_def sample_calls_def serve_books_def
    by (simp add: manager_request sample_store_def one_book_def book_evaluation cong: and_then_weak_cong)
qed (simp add: retail_calls_def sample_calls_def manager_def)

lemma one_book_submitted: "book_step\<^sup>*\<^sup>* (one_book Book_Draft) (one_book Book_Submitted)"
proof (rule serve_books_run [OF _ one_book_indexed])
  show "serve_books ''t'' 0 [(manager ''b'', Submit_Book ''r'')] (one_book Book_Draft) = Inr (one_book Book_Submitted)"
    unfolding serve_books_def
    by (simp add: manager_request one_book_def sample_store_def book_evaluation cong: and_then_weak_cong)
qed (simp add: manager_def)

text \<open>A manager's request is admitted and passes its check.\<close>

lemma checked_request:
  assumes "bs_policy st = [new_snapshot]" and "name \<noteq> []"
    and "open_check (Admitted ''t'' (manager name) 0 r) st = Inr (w, st)"
  shows "book_race\<^sup>*\<^sup>* (st, []) (st, [w])"
proof -
  let ?a = "Admitted ''t'' (manager name) 0 r"
  have "book_route_key r \<in> set pricing_permissions" by (cases r) (simp_all add: pricing_permissions_def)
  then have "book_route_key r \<in> set (all_role_permissions Location_Manager)" using manager_prices by blast
  from seeded_guard [OF this]
  have g: "permission_guard [book_route_key r] False (ba_role (manager name)) (bs_policy st) = Inr [new_snapshot]"
    using assms(1) by (simp add: manager_def)
  have "st\<lparr>bs_policy := [new_snapshot]\<rparr> = st" using assms(1) by (cases st) simp
  then have "book_race (st, []) (st, [?a])" using Admits [OF _ g, of "[]" "''t''" 0] assms(2) by (simp add: manager_def)
  moreover have "book_race (st, [?a]) (st, [w])" using Checks [OF _ assms(3), of "[?a]"] by simp
  ultimately show ?thesis by (blast intro: converse_rtranclp_into_rtranclp)
qed

text \<open>
  An approval that was checked while the book was still a draft, without a submitter, is not checked again when
  it is written; if its actor submits the book in between, the write finds the book submitted
  and approves it in the name of the submitter, which the check exists to refuse.
\<close>

theorem submitter_can_approve:
  "\<exists>st. book_race\<^sup>*\<^sup>* (sample_store, []) (st, [])
      \<and> (\<exists>b \<in> set (bs_books st). pb_status b = Book_Approved \<and> pb_submitted_by b = Some ''b'' \<and> pb_approved_by b = Some ''b'')"
proof (intro exI conjI)
  let ?w = "Approving ''t'' ''b'' ''r''"
  have "book_race\<^sup>*\<^sup>* (one_book Book_Draft, []) (one_book Book_Draft, [?w])"
    by (rule checked_request [of _ "''b''" "Approve_Book ''r''"])
      (simp_all add: one_book_def sample_store_def manager_def approve_check_def book_in_tenant_def find_book_def sample_book_def)
  moreover have "approve_write ''t'' ''b'' ''r'' (one_book Book_Submitted) = Inr (hd (bs_books self_approved), self_approved)"
    by (simp add: self_approved_def one_book_def sample_store_def book_evaluation)
  then have "book_race (one_book Book_Submitted, [?w]) (self_approved, remove1 ?w [?w])" by (intro Writes) simp_all
  ultimately show "book_race\<^sup>*\<^sup>* (sample_store, []) (self_approved, [])"
    using book_run_races [OF one_book_reached, of "[]"] book_run_races [OF one_book_submitted, of "[?w]"]
    by (auto dest: r_into_rtranclp [of book_race] intro: rtranclp_trans)
  show "\<exists>b \<in> set (bs_books self_approved). pb_status b = Book_Approved \<and> pb_submitted_by b = Some ''b'' \<and> pb_approved_by b = Some ''b''"
    by (simp add: self_approved_def sample_book_def)
qed

text \<open>
  The entry of a new price is checked against its book in one statement and inserted in another. A price that was
  checked on a draft is inserted after the book was submitted: the book is approved with a price that
  was not there when it was submitted.
\<close>

theorem unreviewed_price:
  "\<exists>st st' w. book_race\<^sup>*\<^sup>* (sample_store, []) (st, [w]) \<and> book_race\<^sup>*\<^sup>* (st, [w]) (st', [])
      \<and> (\<exists>b \<in> set (bs_books st). pb_status b = Book_Submitted) \<and> bs_books st' = bs_books st
      \<and> bs_entries st = [] \<and> bs_entries st' = [sample_book_entry ''e1'' ''r'' Global_Scope None 100]"
proof (intro exI conjI)
  let ?e = "sample_book_entry ''e1'' ''r'' Global_Scope None 100"
  let ?w = "Pricing_Entry ?e"
  have "book_race\<^sup>*\<^sup>* (one_book Book_Draft, []) (one_book Book_Draft, [?w])"
    by (rule checked_request [of _ "''a''" "Create_Entry ''e1'' (sample_dto ''r'' Global_Scope None 100)"])
      (simp_all add: one_book_def sample_store_def book_evaluation)
  then show "book_race\<^sup>*\<^sup>* (sample_store, []) (one_book Book_Submitted, [?w])"
    using book_run_races [OF one_book_reached, of "[]"] book_run_races [OF one_book_submitted, of "[?w]"]
    by (auto intro: rtranclp_trans)
  let ?st' = "retail_store Book_Submitted"
  have "open_write ?w (one_book Book_Submitted) = Inr ?st'"
    by (simp add: one_book_def sample_store_def retail_store_def book_evaluation)
  then have "book_race (one_book Book_Submitted, [?w]) (?st', remove1 ?w [?w])" by (intro Writes) simp_all
  then show "book_race\<^sup>*\<^sup>* (one_book Book_Submitted, [?w]) (?st', [])" by simp
qed (simp_all add: one_book_def retail_store_def sample_store_def sample_book_def)

end
