(* ===== verification/Promotions.thy ===== *)
theory Promotions
  imports Guarded_Rows Js_Text
begin

text \<open>
  Promotions and their life: \<open>backend/src/promotions/promotion.service.ts\<close> over
  \<open>promotion.repository.ts\<close>. Approving, scheduling and activating read the promotion and write in a later
  statement; \<open>promotion_race\<close> lets other requests be served in between. The time stamps of the transitions are left
  out: nothing reads them.
\<close>

section \<open>The table\<close>

datatype promotion_status =
    Promo_Draft | Promo_Scheduled | Promo_Active | Promo_Paused | Promo_Ended | Promo_Cancelled | Promo_Archived

datatype benefit_type = Percentage | Fixed_Amount | Fixed_Price | Bogo

datatype stackability = Exclusive_Promo | Stackable_Group | Stackable_Manual

datatype promotion_scope = Promo_Variant | Promo_Product | Promo_Brand | Promo_Category | Promo_All

datatype spend_basis = Before_Tax | After_Tax

datatype promotion_return = Line_Prorated | Whole_Promotion

text \<open>What a promotion says: the columns a draft may still change.\<close>

record promotion_terms =
  pt_name :: string
  pt_timezone :: string
  pt_starts_at :: int
  pt_ends_at :: "int option"
  pt_priority :: int
  pt_stackability :: stackability
  pt_stack_group :: "string option"
  pt_benefit :: benefit_type
  pt_value :: "rat option"
  pt_bogo_buy :: "int option"
  pt_bogo_get :: "int option"
  pt_bogo_percent :: "rat option"
  pt_max_discount :: "rat option"
  pt_max_units :: "int option"
  pt_max_uses :: "int option"
  pt_scope :: promotion_scope
  pt_scope_id :: "string option"
  pt_min_qty :: "rat option"
  pt_min_spend :: "rat option"
  pt_min_spend_basis :: "spend_basis option"
  pt_branch :: "string option"
  pt_customer :: "string option"
  pt_requires_coupon :: bool
  pt_return_policy :: "promotion_return option"

record promotion =
  pm_id :: string
  pm_tenant :: string
  pm_created_at :: int
  pm_terms :: promotion_terms
  pm_status :: promotion_status
  pm_created_by :: "string option"
  pm_submitted_by :: "string option"
  pm_approved_by :: "string option"
  pm_scheduled_by :: "string option"
  pm_activated_by :: "string option"
  pm_paused_by :: "string option"
  pm_resumed_by :: "string option"
  pm_ended_by :: "string option"
  pm_cancelled_by :: "string option"

section \<open>The repository\<close>

definition find_promotion :: "string \<Rightarrow> string \<Rightarrow> promotion list \<Rightarrow> promotion option" where
  "find_promotion tenant i ps = find (\<lambda>p. pm_id p = i \<and> pm_tenant p = tenant) ps"

definition promotion_in_tenant :: "string \<Rightarrow> string \<Rightarrow> promotion list \<Rightarrow> promotion result" where
  "promotion_in_tenant tenant i ps = or_throw (find_promotion tenant i ps) (DomainError ''RESOURCE_NOT_FOUND'')"

definition invalid_promotion_transition :: error where
  "invalid_promotion_transition = DomainError ''PROMOTION_INVALID_TRANSITION''"

text \<open>The guarded update every one of the writes below is.\<close>

definition promotion_write ::
  "string \<Rightarrow> string \<Rightarrow> (promotion \<Rightarrow> bool) \<Rightarrow> (promotion \<Rightarrow> promotion) \<Rightarrow> promotion list
     \<Rightarrow> (promotion \<times> promotion list) result" where
  "promotion_write tenant i guarded data ps =
     (let (count, ps') = update_many (\<lambda>p. pm_id p = i \<and> pm_tenant p = tenant \<and> guarded p) data ps in
      if count \<noteq> 1 then and_then (promotion_in_tenant tenant i ps') (\<lambda>current. Inl invalid_promotion_transition)
      else and_then (promotion_in_tenant tenant i ps') (\<lambda>p. Inr (p, ps')))"

definition repo_create_promotion :: "promotion \<Rightarrow> promotion list \<Rightarrow> (promotion \<times> promotion list) result" where
  "repo_create_promotion p ps =
     and_then (throw_if (\<exists>q \<in> set ps. pm_id q = pm_id p) unique_violation) (\<lambda>_. Inr (p, ps @ [p]))"

definition repo_update_draft ::
  "string \<Rightarrow> string \<Rightarrow> (promotion_terms \<Rightarrow> promotion_terms) \<Rightarrow> promotion list \<Rightarrow> (promotion \<times> promotion list) result" where
  "repo_update_draft tenant i f =
     promotion_write tenant i (\<lambda>p. pm_status p = Promo_Draft) (\<lambda>p. p\<lparr>pm_terms := f (pm_terms p)\<rparr>)"

definition mark_submitted :: "string \<Rightarrow> string \<Rightarrow> string \<Rightarrow> promotion list \<Rightarrow> (promotion \<times> promotion list) result" where
  "mark_submitted tenant i actor =
     promotion_write tenant i (\<lambda>p. pm_status p = Promo_Draft) (\<lambda>p. p\<lparr>pm_submitted_by := Some actor\<rparr>)"

definition mark_approved :: "string \<Rightarrow> string \<Rightarrow> string \<Rightarrow> promotion list \<Rightarrow> (promotion \<times> promotion list) result" where
  "mark_approved tenant i actor =
     promotion_write tenant i (\<lambda>p. pm_status p = Promo_Draft \<and> pm_submitted_by p \<noteq> None)
       (\<lambda>p. p\<lparr>pm_approved_by := Some actor\<rparr>)"

definition promotion_transition ::
  "string \<Rightarrow> string \<Rightarrow> promotion_status list \<Rightarrow> promotion_status \<Rightarrow> (promotion \<Rightarrow> promotion) \<Rightarrow> promotion list
     \<Rightarrow> (promotion \<times> promotion list) result" where
  "promotion_transition tenant i from_statuses to_status data =
     promotion_write tenant i (\<lambda>p. pm_status p \<in> set from_statuses) (\<lambda>p. (data p)\<lparr>pm_status := to_status\<rparr>)"

section \<open>The service\<close>

text \<open>
  The body of a \<open>POST\<close>: \<open>None\<close> is a field left out or null, which \<open>??\<close> does not tell apart. Where the
  benefit needs a field, the pipe (\<open>ValidateIf\<close>) refuses null before the service runs.
\<close>

record create_promotion_dto =
  cp_name :: string
  cp_timezone :: "string option"
  cp_starts_at :: int
  cp_ends_at :: "int option"
  cp_priority :: "int option"
  cp_stackability :: "stackability option"
  cp_stack_group :: "string option"
  cp_benefit :: benefit_type
  cp_value :: "rat option"
  cp_bogo_buy :: "int option"
  cp_bogo_get :: "int option"
  cp_bogo_percent :: "rat option"
  cp_max_discount :: "rat option"
  cp_max_units :: "int option"
  cp_max_uses :: "int option"
  cp_scope :: "promotion_scope option"
  cp_scope_id :: "string option"
  cp_min_qty :: "rat option"
  cp_min_spend :: "rat option"
  cp_min_spend_basis :: "spend_basis option"
  cp_branch :: "string option"
  cp_customer :: "string option"
  cp_requires_coupon :: "bool option"
  cp_return_policy :: "promotion_return option"

text \<open>\<open>!n\<close> of an optional whole number, which holds of zero as well.\<close>

definition no_number :: "int option \<Rightarrow> bool" where
  "no_number n \<longleftrightarrow> n = None \<or> n = Some 0"

definition assert_benefit_shape :: "create_promotion_dto \<Rightarrow> unit result" where
  "assert_benefit_shape dto =
     (if cp_benefit dto = Bogo then
        throw_if (no_number (cp_bogo_buy dto) \<or> no_number (cp_bogo_get dto) \<or> cp_bogo_percent dto = None)
          (DomainError ''REQUEST_FIELD_VALUE_INVALID'')
      else throw_if (cp_value dto = None) (DomainError ''REQUEST_FIELD_VALUE_INVALID''))"

definition given :: "'a option \<Rightarrow> 'a \<Rightarrow> 'a" where
  "given a d = (case a of None \<Rightarrow> d | Some x \<Rightarrow> x)"

definition terms_of :: "create_promotion_dto \<Rightarrow> promotion_terms" where
  "terms_of dto =
     \<lparr>pt_name = trim (cp_name dto),
      pt_timezone = given (map_option trim (cp_timezone dto)) ''Africa/Cairo'',
      pt_starts_at = cp_starts_at dto, pt_ends_at = cp_ends_at dto,
      pt_priority = given (cp_priority dto) 100, pt_stackability = given (cp_stackability dto) Exclusive_Promo,
      pt_stack_group = cp_stack_group dto, pt_benefit = cp_benefit dto, pt_value = cp_value dto,
      pt_bogo_buy = cp_bogo_buy dto, pt_bogo_get = cp_bogo_get dto, pt_bogo_percent = cp_bogo_percent dto,
      pt_max_discount = cp_max_discount dto, pt_max_units = cp_max_units dto, pt_max_uses = cp_max_uses dto,
      pt_scope = given (cp_scope dto) Promo_All, pt_scope_id = cp_scope_id dto, pt_min_qty = cp_min_qty dto,
      pt_min_spend = cp_min_spend dto, pt_min_spend_basis = cp_min_spend_basis dto, pt_branch = cp_branch dto,
      pt_customer = cp_customer dto, pt_requires_coupon = given (cp_requires_coupon dto) False,
      pt_return_policy = cp_return_policy dto\<rparr>"

definition create_promotion ::
  "string \<Rightarrow> string \<Rightarrow> string \<Rightarrow> int \<Rightarrow> create_promotion_dto \<Rightarrow> promotion list \<Rightarrow> (promotion \<times> promotion list) result" where
  "create_promotion tenant actor new_id now dto ps =
     and_then (assert_benefit_shape dto) (\<lambda>_.
     repo_create_promotion
       \<lparr>pm_id = new_id, pm_tenant = tenant, pm_created_at = now, pm_terms = terms_of dto, pm_status = Promo_Draft,
        pm_created_by = Some actor, pm_submitted_by = None, pm_approved_by = None, pm_scheduled_by = None,
        pm_activated_by = None, pm_paused_by = None, pm_resumed_by = None, pm_ended_by = None,
        pm_cancelled_by = None\<rparr> ps)"

text \<open>
  The body of a \<open>PATCH\<close>. \<open>IsOptional\<close> lets a field be left out and lets it be \<open>null\<close>, and the service only
  asks whether it is \<open>undefined\<close>: a field is left out, null or a value. The dates are instants, so a date
  the pipe accepts and \<open>new Date\<close> does not read is outside the model.
\<close>

datatype 'a patch = Left_Out | Set_Null | Given 'a

record update_promotion_dto =
  pu_name :: "string patch"
  pu_timezone :: "string patch"
  pu_starts_at :: "int patch"
  pu_ends_at :: "int patch"
  pu_priority :: "int patch"
  pu_stackability :: "stackability patch"
  pu_stack_group :: "string patch"
  pu_benefit :: "benefit_type patch"
  pu_value :: "rat patch"
  pu_bogo_buy :: "int patch"
  pu_bogo_get :: "int patch"
  pu_bogo_percent :: "rat patch"
  pu_max_discount :: "rat patch"
  pu_max_units :: "int patch"
  pu_max_uses :: "int patch"
  pu_scope :: "promotion_scope patch"
  pu_scope_id :: "string patch"
  pu_min_qty :: "rat patch"
  pu_min_spend :: "rat patch"
  pu_min_spend_basis :: "spend_basis patch"
  pu_branch :: "string patch"
  pu_customer :: "string patch"
  pu_requires_coupon :: "bool patch"
  pu_return_policy :: "promotion_return patch"

text \<open>A nullable column: null clears it.\<close>

fun patch_column :: "'a patch \<Rightarrow> 'a option \<Rightarrow> 'a option" where
  "patch_column Left_Out old = old"
| "patch_column Set_Null old = None"
| "patch_column (Given x) old = Some x"

text \<open>
  A column that cannot be null: the last argument is what the code makes of null, which the statement only
  sees for \<open>starts_at\<close> (\<open>new Date(null)\<close> is the epoch); for the others the request has failed before.
\<close>

fun patch_value :: "'a patch \<Rightarrow> 'a \<Rightarrow> 'a \<Rightarrow> 'a" where
  "patch_value Left_Out null_as old = old"
| "patch_value Set_Null null_as old = null_as"
| "patch_value (Given x) null_as old = x"

text \<open>
  A null the code cannot use: \<open>name\<close> and \<open>timezone\<close> are trimmed, and Prisma refuses null for a required
  column before any statement is sent.
\<close>

definition patch_accepted :: "update_promotion_dto \<Rightarrow> unit result" where
  "patch_accepted dto =
     and_then (throw_if (pu_name dto = Set_Null \<or> pu_timezone dto = Set_Null) (JsError ''TypeError'')) (\<lambda>_.
     throw_if (pu_priority dto = Set_Null \<or> pu_stackability dto = Set_Null \<or> pu_benefit dto = Set_Null \<or> pu_scope dto = Set_Null
                 \<or> pu_requires_coupon dto = Set_Null) (JsError ''PrismaClientValidationError''))"

definition patched_terms :: "update_promotion_dto \<Rightarrow> promotion_terms \<Rightarrow> promotion_terms" where
  "patched_terms dto t =
     \<lparr>pt_name = patch_value (map_patch trim (pu_name dto)) (pt_name t) (pt_name t),
      pt_timezone = patch_value (map_patch trim (pu_timezone dto)) (pt_timezone t) (pt_timezone t),
      pt_starts_at = patch_value (pu_starts_at dto) 0 (pt_starts_at t),
      pt_ends_at = patch_column (pu_ends_at dto) (pt_ends_at t),
      pt_priority = patch_value (pu_priority dto) (pt_priority t) (pt_priority t),
      pt_stackability = patch_value (pu_stackability dto) (pt_stackability t) (pt_stackability t),
      pt_stack_group = patch_column (pu_stack_group dto) (pt_stack_group t),
      pt_benefit = patch_value (pu_benefit dto) (pt_benefit t) (pt_benefit t),
      pt_value = patch_column (pu_value dto) (pt_value t),
      pt_bogo_buy = patch_column (pu_bogo_buy dto) (pt_bogo_buy t),
      pt_bogo_get = patch_column (pu_bogo_get dto) (pt_bogo_get t),
      pt_bogo_percent = patch_column (pu_bogo_percent dto) (pt_bogo_percent t),
      pt_max_discount = patch_column (pu_max_discount dto) (pt_max_discount t),
      pt_max_units = patch_column (pu_max_units dto) (pt_max_units t),
      pt_max_uses = patch_column (pu_max_uses dto) (pt_max_uses t),
      pt_scope = patch_value (pu_scope dto) (pt_scope t) (pt_scope t),
      pt_scope_id = patch_column (pu_scope_id dto) (pt_scope_id t),
      pt_min_qty = patch_column (pu_min_qty dto) (pt_min_qty t),
      pt_min_spend = patch_column (pu_min_spend dto) (pt_min_spend t),
      pt_min_spend_basis = patch_column (pu_min_spend_basis dto) (pt_min_spend_basis t),
      pt_branch = patch_column (pu_branch dto) (pt_branch t),
      pt_customer = patch_column (pu_customer dto) (pt_customer t),
      pt_requires_coupon = patch_value (pu_requires_coupon dto) (pt_requires_coupon t) (pt_requires_coupon t),
      pt_return_policy = patch_column (pu_return_policy dto) (pt_return_policy t)\<rparr>"

definition update_promotion_draft ::
  "string \<Rightarrow> string \<Rightarrow> update_promotion_dto \<Rightarrow> promotion list \<Rightarrow> (promotion \<times> promotion list) result" where
  "update_promotion_draft tenant i dto ps =
     and_then (patch_accepted dto) (\<lambda>_. repo_update_draft tenant i (patched_terms dto) ps)"

definition submit_promotion :: "string \<Rightarrow> string \<Rightarrow> string \<Rightarrow> promotion list \<Rightarrow> (promotion \<times> promotion list) result" where
  "submit_promotion tenant actor i = mark_submitted tenant i actor"

text \<open>
  \<open>approve\<close>, \<open>schedule\<close> and \<open>activate\<close> read the promotion in one statement and write it in another. The
  check and the write are definitions of their own; the handler is one after the other.
\<close>

definition approve_promotion_check :: "string \<Rightarrow> string \<Rightarrow> string \<Rightarrow> promotion list \<Rightarrow> unit result" where
  "approve_promotion_check tenant actor i ps =
     and_then (promotion_in_tenant tenant i ps) (\<lambda>current.
     throw_if (truthy (pm_submitted_by current) \<and> pm_submitted_by current = Some actor)
       (DomainError ''PROMOTION_SELF_APPROVAL_FORBIDDEN''))"

definition approve_promotion :: "string \<Rightarrow> string \<Rightarrow> string \<Rightarrow> promotion list \<Rightarrow> (promotion \<times> promotion list) result" where
  "approve_promotion tenant actor i ps =
     and_then (approve_promotion_check tenant actor i ps) (\<lambda>_. mark_approved tenant i actor ps)"

definition schedule_promotion_check :: "string \<Rightarrow> string \<Rightarrow> promotion list \<Rightarrow> unit result" where
  "schedule_promotion_check tenant i ps =
     and_then (promotion_in_tenant tenant i ps) (\<lambda>current.
     throw_if (\<not> truthy (pm_submitted_by current) \<or> \<not> truthy (pm_approved_by current)) invalid_promotion_transition)"

definition schedule_promotion_write ::
  "string \<Rightarrow> string \<Rightarrow> string \<Rightarrow> promotion list \<Rightarrow> (promotion \<times> promotion list) result" where
  "schedule_promotion_write tenant actor i =
     promotion_transition tenant i [Promo_Draft] Promo_Scheduled (\<lambda>p. p\<lparr>pm_scheduled_by := Some actor\<rparr>)"

definition schedule_promotion :: "string \<Rightarrow> string \<Rightarrow> string \<Rightarrow> promotion list \<Rightarrow> (promotion \<times> promotion list) result" where
  "schedule_promotion tenant actor i ps =
     and_then (schedule_promotion_check tenant i ps) (\<lambda>_. schedule_promotion_write tenant actor i ps)"

definition activate_promotion_check :: "string \<Rightarrow> string \<Rightarrow> promotion list \<Rightarrow> unit result" where
  "activate_promotion_check tenant i ps =
     and_then (promotion_in_tenant tenant i ps) (\<lambda>current.
     throw_if (pt_return_policy (pm_terms current) = None) (DomainError ''PROMOTION_RETURN_POLICY_REQUIRED''))"

definition activate_promotion_write ::
  "string \<Rightarrow> string \<Rightarrow> string \<Rightarrow> promotion list \<Rightarrow> (promotion \<times> promotion list) result" where
  "activate_promotion_write tenant actor i =
     promotion_transition tenant i [Promo_Scheduled] Promo_Active (\<lambda>p. p\<lparr>pm_activated_by := Some actor\<rparr>)"

definition activate_promotion :: "string \<Rightarrow> string \<Rightarrow> string \<Rightarrow> promotion list \<Rightarrow> (promotion \<times> promotion list) result" where
  "activate_promotion tenant actor i ps =
     and_then (activate_promotion_check tenant i ps) (\<lambda>_. activate_promotion_write tenant actor i ps)"

definition pause_promotion :: "string \<Rightarrow> string \<Rightarrow> string \<Rightarrow> promotion list \<Rightarrow> (promotion \<times> promotion list) result" where
  "pause_promotion tenant actor i =
     promotion_transition tenant i [Promo_Active] Promo_Paused (\<lambda>p. p\<lparr>pm_paused_by := Some actor\<rparr>)"

definition resume_promotion :: "string \<Rightarrow> string \<Rightarrow> string \<Rightarrow> promotion list \<Rightarrow> (promotion \<times> promotion list) result" where
  "resume_promotion tenant actor i =
     promotion_transition tenant i [Promo_Paused] Promo_Active (\<lambda>p. p\<lparr>pm_resumed_by := Some actor\<rparr>)"

definition end_promotion :: "string \<Rightarrow> string \<Rightarrow> string \<Rightarrow> promotion list \<Rightarrow> (promotion \<times> promotion list) result" where
  "end_promotion tenant actor i =
     promotion_transition tenant i [Promo_Active, Promo_Paused] Promo_Ended (\<lambda>p. p\<lparr>pm_ended_by := Some actor\<rparr>)"

definition cancel_promotion :: "string \<Rightarrow> string \<Rightarrow> string \<Rightarrow> promotion list \<Rightarrow> (promotion \<times> promotion list) result" where
  "cancel_promotion tenant actor i =
     promotion_transition tenant i [Promo_Draft, Promo_Scheduled] Promo_Cancelled (\<lambda>p. p\<lparr>pm_cancelled_by := Some actor\<rparr>)"

text \<open>The mutating routes of \<open>PromotionController\<close>.\<close>

datatype promotion_request =
    Create_Promotion string create_promotion_dto
  | Update_Promotion string update_promotion_dto
  | Submit_Promotion string
  | Approve_Promotion string
  | Schedule_Promotion string
  | Activate_Promotion string
  | Pause_Promotion string
  | Resume_Promotion string
  | End_Promotion string
  | Cancel_Promotion string

fun promotion_route ::
  "string \<Rightarrow> string \<Rightarrow> int \<Rightarrow> promotion_request \<Rightarrow> promotion list \<Rightarrow> (promotion \<times> promotion list) result" where
  "promotion_route tenant actor now (Create_Promotion new_id dto) ps = create_promotion tenant actor new_id now dto ps"
| "promotion_route tenant actor now (Update_Promotion i dto) ps = update_promotion_draft tenant i dto ps"
| "promotion_route tenant actor now (Submit_Promotion i) ps = submit_promotion tenant actor i ps"
| "promotion_route tenant actor now (Approve_Promotion i) ps = approve_promotion tenant actor i ps"
| "promotion_route tenant actor now (Schedule_Promotion i) ps = schedule_promotion tenant actor i ps"
| "promotion_route tenant actor now (Activate_Promotion i) ps = activate_promotion tenant actor i ps"
| "promotion_route tenant actor now (Pause_Promotion i) ps = pause_promotion tenant actor i ps"
| "promotion_route tenant actor now (Resume_Promotion i) ps = resume_promotion tenant actor i ps"
| "promotion_route tenant actor now (End_Promotion i) ps = end_promotion tenant actor i ps"
| "promotion_route tenant actor now (Cancel_Promotion i) ps = cancel_promotion tenant actor i ps"

section \<open>Requests that overlap\<close>

text \<open>
  A request that passed its check is open until its write: anything may be served in between. \<open>Serves\<close>
  is a request answered at once (for the routes with a single statement that is every request),
  \<open>Drops\<close> an open request whose write is refused or whose process stops.
\<close>

datatype promotion_pending =
    Approving string string string
  | Scheduling string string string
  | Activating string string string

fun pending_check :: "promotion_pending \<Rightarrow> promotion list \<Rightarrow> unit result" where
  "pending_check (Approving tenant actor i) ps = approve_promotion_check tenant actor i ps"
| "pending_check (Scheduling tenant actor i) ps = schedule_promotion_check tenant i ps"
| "pending_check (Activating tenant actor i) ps = activate_promotion_check tenant i ps"

fun pending_write :: "promotion_pending \<Rightarrow> promotion list \<Rightarrow> (promotion \<times> promotion list) result" where
  "pending_write (Approving tenant actor i) ps = mark_approved tenant i actor ps"
| "pending_write (Scheduling tenant actor i) ps = schedule_promotion_write tenant actor i ps"
| "pending_write (Activating tenant actor i) ps = activate_promotion_write tenant actor i ps"

record promotion_system =
  py_rows :: "promotion list"
  py_open :: "promotion_pending list"

inductive promotion_race :: "promotion_system \<Rightarrow> promotion_system \<Rightarrow> bool" where
  Serves: "actor \<noteq> [] \<Longrightarrow> promotion_route tenant actor now r (py_rows y) = Inr (p, ps)
    \<Longrightarrow> promotion_race y (y\<lparr>py_rows := ps\<rparr>)"
| Checks: "pending_check w (py_rows y) = Inr () \<Longrightarrow> promotion_race y (y\<lparr>py_open := w # py_open y\<rparr>)"
| Writes: "w \<in> set (py_open y) \<Longrightarrow> pending_write w (py_rows y) = Inr (p, ps)
    \<Longrightarrow> promotion_race y (y\<lparr>py_rows := ps, py_open := remove1 w (py_open y)\<rparr>)"
| Drops: "w \<in> set (py_open y) \<Longrightarrow> promotion_race y (y\<lparr>py_open := remove1 w (py_open y)\<rparr>)"

end
