(* ===== verification/Promotions_Correct.thy ===== *)
theory Promotions_Correct
  imports Promotions
begin

text \<open>
  What holds of promotions over every history of requests, overlapping ones included: the order of their states, the terms that are
  frozen once scheduled, and what the review of a draft does not cover.
\<close>

section \<open>Single writes\<close>

lemma find_promotion_Some: "find_promotion tenant i ps = Some p \<Longrightarrow> p \<in> set ps \<and> pm_id p = i \<and> pm_tenant p = tenant"
  by (auto simp: find_promotion_def dest: find_Some_iff_set)

lemma promotion_in_tenant_Inr:
  "promotion_in_tenant tenant i ps = Inr p \<Longrightarrow> p \<in> set ps \<and> pm_id p = i \<and> pm_tenant p = tenant"
  by (auto simp: promotion_in_tenant_def result_simps dest: find_promotion_Some)

lemma promotion_write_Inr:
  assumes "promotion_write tenant i guarded data ps = Inr (p, ps')"
  shows "ps' = map (\<lambda>p. if pm_id p = i \<and> pm_tenant p = tenant \<and> guarded p then data p else p) ps"
  using assms by (auto simp: promotion_write_def update_many_def result_simps split: if_splits)

lemma promotion_write_rows:
  assumes "promotion_write tenant i guarded data ps = Inr (p, ps')"
    and "\<And>x. x \<in> set ps \<Longrightarrow> R x x" and "\<And>x. x \<in> set ps \<Longrightarrow> pm_id x = i \<Longrightarrow> guarded x \<Longrightarrow> R x (data x)"
  shows "list_all2 R ps ps'"
  unfolding promotion_write_Inr [OF assms(1)] by (rule list_all2_map_id) (use assms(2,3) in auto)

section \<open>The life of a promotion\<close>

text \<open>
  The moves of one row. \<open>serial\<close> says that requests are served one after the other: then an approver is not
  the submitter at that time and an activated promotion has its policy. Without it the two checks may
  be out of date when the row is written.
\<close>

inductive promotion_moves :: "bool \<Rightarrow> promotion \<Rightarrow> promotion \<Rightarrow> bool" for serial where
  Same: "promotion_moves serial p p"
| Edited: "pm_status p = Promo_Draft \<Longrightarrow> promotion_moves serial p (p\<lparr>pm_terms := t\<rparr>)"
| Submitted: "pm_status p = Promo_Draft \<Longrightarrow> promotion_moves serial p (p\<lparr>pm_submitted_by := Some a\<rparr>)"
| Approved: "pm_status p = Promo_Draft \<Longrightarrow> pm_submitted_by p = Some s \<Longrightarrow> (serial \<Longrightarrow> a \<noteq> s)
    \<Longrightarrow> promotion_moves serial p (p\<lparr>pm_approved_by := Some a\<rparr>)"
| Scheduled: "pm_status p = Promo_Draft \<Longrightarrow> pm_submitted_by p \<noteq> None \<Longrightarrow> pm_approved_by p \<noteq> None
    \<Longrightarrow> promotion_moves serial p (p\<lparr>pm_scheduled_by := Some a, pm_status := Promo_Scheduled\<rparr>)"
| Activated: "pm_status p = Promo_Scheduled \<Longrightarrow> (serial \<Longrightarrow> pt_return_policy (pm_terms p) \<noteq> None)
    \<Longrightarrow> promotion_moves serial p (p\<lparr>pm_activated_by := Some a, pm_status := Promo_Active\<rparr>)"
| Paused: "pm_status p = Promo_Active
    \<Longrightarrow> promotion_moves serial p (p\<lparr>pm_paused_by := Some a, pm_status := Promo_Paused\<rparr>)"
| Resumed: "pm_status p = Promo_Paused
    \<Longrightarrow> promotion_moves serial p (p\<lparr>pm_resumed_by := Some a, pm_status := Promo_Active\<rparr>)"
| Ended: "pm_status p \<in> {Promo_Active, Promo_Paused}
    \<Longrightarrow> promotion_moves serial p (p\<lparr>pm_ended_by := Some a, pm_status := Promo_Ended\<rparr>)"
| Cancelled: "pm_status p \<in> {Promo_Draft, Promo_Scheduled}
    \<Longrightarrow> promotion_moves serial p (p\<lparr>pm_cancelled_by := Some a, pm_status := Promo_Cancelled\<rparr>)"

definition promotion_born :: "promotion \<Rightarrow> bool" where
  "promotion_born p \<longleftrightarrow> pm_status p = Promo_Draft \<and> pm_submitted_by p = None \<and> pm_approved_by p = None"

text \<open>The states that can still come after a state.\<close>

fun later_states :: "promotion_status \<Rightarrow> promotion_status set" where
  "later_states Promo_Draft =
     {Promo_Draft, Promo_Scheduled, Promo_Active, Promo_Paused, Promo_Ended, Promo_Cancelled}"
| "later_states Promo_Scheduled = {Promo_Scheduled, Promo_Active, Promo_Paused, Promo_Ended, Promo_Cancelled}"
| "later_states Promo_Active = {Promo_Active, Promo_Paused, Promo_Ended}"
| "later_states Promo_Paused = {Promo_Active, Promo_Paused, Promo_Ended}"
| "later_states Promo_Ended = {Promo_Ended}"
| "later_states Promo_Cancelled = {Promo_Cancelled}"
| "later_states Promo_Archived = {Promo_Archived}"

definition promotion_reviewed :: "promotion \<Rightarrow> bool" where
  "promotion_reviewed p \<longleftrightarrow>
     (pm_status p \<in> {Promo_Scheduled, Promo_Active, Promo_Paused, Promo_Ended}
        \<longrightarrow> pm_submitted_by p \<noteq> None \<and> pm_approved_by p \<noteq> None)
     \<and> pm_status p \<noteq> Promo_Archived"

definition promotion_returnable :: "promotion \<Rightarrow> bool" where
  "promotion_returnable p \<longleftrightarrow>
     (pm_status p \<in> {Promo_Active, Promo_Paused, Promo_Ended} \<longrightarrow> pt_return_policy (pm_terms p) \<noteq> None)"

lemma promotion_moves_reviewed: "promotion_moves serial p p' \<Longrightarrow> promotion_reviewed p \<Longrightarrow> promotion_reviewed p'"
  by (induction rule: promotion_moves.induct) (auto simp: promotion_reviewed_def)

lemma promotion_moves_returnable: "promotion_moves True p p' \<Longrightarrow> promotion_returnable p \<Longrightarrow> promotion_returnable p'"
  by (induction rule: promotion_moves.induct) (auto simp: promotion_returnable_def)

lemma later_refl: "s \<in> later_states s"
  by (cases s) simp_all

lemma later_trans: "b \<in> later_states a \<Longrightarrow> c \<in> later_states b \<Longrightarrow> c \<in> later_states a"
  by (cases a; cases b) auto

lemma promotion_moves_later: "promotion_moves serial p p' \<Longrightarrow> pm_status p' \<in> later_states (pm_status p)"
  by (induction rule: promotion_moves.induct) (auto simp: later_refl)

lemma promotion_moves_frozen:
  "promotion_moves serial p p' \<Longrightarrow> pm_id p' = pm_id p \<and> pm_tenant p' = pm_tenant p
     \<and> (pm_status p \<noteq> Promo_Draft \<longrightarrow> pm_terms p' = pm_terms p \<and> pm_submitted_by p' = pm_submitted_by p
          \<and> pm_approved_by p' = pm_approved_by p)
     \<and> (pm_submitted_by p \<noteq> None \<longrightarrow> pm_submitted_by p' \<noteq> None) \<and> (pm_approved_by p \<noteq> None \<longrightarrow> pm_approved_by p' \<noteq> None)"
  by (induction rule: promotion_moves.induct) auto

lemma promotion_run_moves:
  assumes "(promotion_moves serial)\<^sup>*\<^sup>* p p'"
  shows "pm_id p' = pm_id p \<and> pm_status p' \<in> later_states (pm_status p)
    \<and> (pm_status p \<noteq> Promo_Draft \<longrightarrow> pm_terms p' = pm_terms p \<and> pm_status p' \<noteq> Promo_Draft)"
  using assms
proof (induction rule: rtranclp_induct)
  case base
  then show ?case by (simp add: later_refl)
next
  case (step y z)
  have l: "pm_status z \<in> later_states (pm_status p)"
    using later_trans promotion_moves_later [OF step.hyps(2)] step.IH by blast
  moreover have "pm_status z \<noteq> Promo_Draft" if "pm_status p \<noteq> Promo_Draft"
    using l that by (cases "pm_status p") auto
  ultimately show ?case using step.IH promotion_moves_frozen [OF step.hyps(2)] by auto
qed

section \<open>What each request does\<close>

definition promotions_indexed :: "promotion list \<Rightarrow> bool" where
  "promotions_indexed ps \<longleftrightarrow> distinct (map pm_id ps)"

text \<open>
  What the check of an open request still guarantees when it is written, if only requests that keep
  \<open>submitted\<close> and \<open>approved\<close> came in between: a schedule saw a reviewed row.
\<close>

definition reviewed_row :: "string \<Rightarrow> promotion list \<Rightarrow> bool" where
  "reviewed_row i ps \<longleftrightarrow> (\<forall>p \<in> set ps. pm_id p = i \<longrightarrow> pm_submitted_by p \<noteq> None \<and> pm_approved_by p \<noteq> None)
     \<and> (\<exists>p \<in> set ps. pm_id p = i)"

lemma in_tenant_row:
  assumes "promotion_in_tenant tenant i ps = Inr c" and "promotions_indexed ps" and "x \<in> set ps" "pm_id x = i"
  shows "x = c"
  using promotion_in_tenant_Inr [OF assms(1)] distinct_map_same [OF assms(2) [unfolded promotions_indexed_def] assms(3)] assms(4)
  by auto

lemma schedule_check_reviewed:
  assumes "schedule_promotion_check tenant i ps = Inr ()" and "promotions_indexed ps"
  shows "reviewed_row i ps"
proof -
  obtain c where c: "promotion_in_tenant tenant i ps = Inr c" "truthy (pm_submitted_by c)" "truthy (pm_approved_by c)"
    using assms(1) by (auto simp: schedule_promotion_check_def result_simps)
  then have "pm_submitted_by c \<noteq> None" "pm_approved_by c \<noteq> None" by (simp_all add: truthy_def split: option.splits)
  then show ?thesis using in_tenant_row [OF c(1) assms(2)] promotion_in_tenant_Inr [OF c(1)]
    by (auto simp: reviewed_row_def)
qed

lemma mark_approved_moves:
  assumes "mark_approved tenant i actor ps = Inr (p, ps')"
    and "\<And>x. serial \<Longrightarrow> x \<in> set ps \<Longrightarrow> pm_id x = i \<Longrightarrow> pm_submitted_by x \<noteq> Some actor"
  shows "list_all2 (promotion_moves serial) ps ps'"
  by (rule promotion_write_rows [OF assms(1) [unfolded mark_approved_def]]) (use assms(2) in \<open>auto intro: Same Approved\<close>)

lemma schedule_write_moves:
  assumes "schedule_promotion_write tenant actor i ps = Inr (p, ps')" and "reviewed_row i ps"
  shows "list_all2 (promotion_moves serial) ps ps'"
  by (rule promotion_write_rows [OF assms(1) [unfolded schedule_promotion_write_def promotion_transition_def]])
    (use assms(2) in \<open>auto simp: reviewed_row_def intro: Same Scheduled\<close>)

lemma activation_write_moves:
  assumes "activate_promotion_write tenant actor i ps = Inr (p, ps')"
    and "\<And>x. serial \<Longrightarrow> x \<in> set ps \<Longrightarrow> pm_id x = i \<Longrightarrow> pt_return_policy (pm_terms x) \<noteq> None"
  shows "list_all2 (promotion_moves serial) ps ps'"
  by (rule promotion_write_rows [OF assms(1) [unfolded activate_promotion_write_def promotion_transition_def]])
    (use assms(2) in \<open>auto intro: Same Activated\<close>)

lemma approve_promotion_moves:
  assumes "approve_promotion tenant actor i ps = Inr (p, ps')" and "actor \<noteq> []" and "promotions_indexed ps"
  shows "list_all2 (promotion_moves serial) ps ps'"
proof -
  obtain c where c: "promotion_in_tenant tenant i ps = Inr c"
      "\<not> (truthy (pm_submitted_by c) \<and> pm_submitted_by c = Some actor)" "mark_approved tenant i actor ps = Inr (p, ps')"
    using assms(1) by (auto simp: approve_promotion_def approve_promotion_check_def result_simps)
  show ?thesis using mark_approved_moves [OF c(3)] in_tenant_row [OF c(1) assms(3)] not_same_actor [OF c(2) assms(2)] by blast
qed

lemma schedule_promotion_moves:
  assumes "schedule_promotion tenant actor i ps = Inr (p, ps')" and "promotions_indexed ps"
  shows "list_all2 (promotion_moves serial) ps ps'"
  using assms schedule_write_moves schedule_check_reviewed by (auto simp: schedule_promotion_def result_simps)

lemma activate_promotion_moves:
  assumes "activate_promotion tenant actor i ps = Inr (p, ps')" and "promotions_indexed ps"
  shows "list_all2 (promotion_moves serial) ps ps'"
proof -
  obtain c where c: "promotion_in_tenant tenant i ps = Inr c" "pt_return_policy (pm_terms c) \<noteq> None"
      "activate_promotion_write tenant actor i ps = Inr (p, ps')"
    using assms(1) by (auto simp: activate_promotion_def activate_promotion_check_def result_simps)
  show ?thesis using activation_write_moves [OF c(3)] in_tenant_row [OF c(1) assms(2)] c(2) by blast
qed

lemmas simple_promotion_writes =
  update_promotion_draft_def repo_update_draft_def submit_promotion_def mark_submitted_def pause_promotion_def
  resume_promotion_def end_promotion_def cancel_promotion_def promotion_transition_def

lemma promotion_route_rows:
  assumes "promotion_route tenant actor now r ps = Inr (p, ps')" and "actor \<noteq> []" and "promotions_indexed ps"
  shows "\<exists>old new. ps' = old @ new \<and> list_all2 (promotion_moves serial) ps old \<and> list_all promotion_born new"
proof -
  have step: "\<exists>old new. ps' = old @ new \<and> list_all2 (promotion_moves serial) ps old \<and> list_all promotion_born new"
    if "list_all2 (promotion_moves serial) ps ps'"
    using that by (intro exI [of _ ps'] exI [of _ "[]"]) simp
  show ?thesis
  proof (cases r)
    case (Create_Promotion new_id dto)
    then have "ps' = ps @ [p]" "promotion_born p"
      using assms(1) by (auto simp: create_promotion_def repo_create_promotion_def result_simps promotion_born_def)
    moreover have "list_all2 (promotion_moves serial) ps ps" by (intro list.rel_refl) (rule Same)
    ultimately show ?thesis by (intro exI [of _ ps] exI [of _ "[p]"]) simp
  next
    case (Approve_Promotion i)
    then show ?thesis using step approve_promotion_moves [OF _ assms(2,3)] assms(1) by simp
  next
    case (Schedule_Promotion i)
    then show ?thesis using step schedule_promotion_moves [OF _ assms(3)] assms(1) by simp
  next
    case (Activate_Promotion i)
    then show ?thesis using step activate_promotion_moves [OF _ assms(3)] assms(1) by simp
  next
    case (Update_Promotion i dto)
    then have "promotion_write tenant i (\<lambda>p. pm_status p = Promo_Draft)
        (\<lambda>p. p\<lparr>pm_terms := patched_terms dto (pm_terms p)\<rparr>) ps = Inr (p, ps')"
      using assms(1) by (simp add: simple_promotion_writes result_simps)
    then show ?thesis by (intro step) (erule promotion_write_rows; auto intro: promotion_moves.intros)
  next
    case (Submit_Promotion i)
    then have "promotion_write tenant i (\<lambda>p. pm_status p = Promo_Draft)
        (\<lambda>p. p\<lparr>pm_submitted_by := Some actor\<rparr>) ps = Inr (p, ps')"
      using assms(1) by (simp add: simple_promotion_writes)
    then show ?thesis by (intro step) (erule promotion_write_rows; auto intro: promotion_moves.intros)
  next
    case (Pause_Promotion i)
    then have "promotion_write tenant i (\<lambda>p. pm_status p \<in> set [Promo_Active])
        (\<lambda>p. p\<lparr>pm_paused_by := Some actor, pm_status := Promo_Paused\<rparr>) ps = Inr (p, ps')"
      using assms(1) by (simp add: simple_promotion_writes)
    then show ?thesis by (intro step) (erule promotion_write_rows; auto intro: promotion_moves.intros)
  next
    case (Resume_Promotion i)
    then have "promotion_write tenant i (\<lambda>p. pm_status p \<in> set [Promo_Paused])
        (\<lambda>p. p\<lparr>pm_resumed_by := Some actor, pm_status := Promo_Active\<rparr>) ps = Inr (p, ps')"
      using assms(1) by (simp add: simple_promotion_writes)
    then show ?thesis by (intro step) (erule promotion_write_rows; auto intro: promotion_moves.intros)
  next
    case (End_Promotion i)
    then have "promotion_write tenant i (\<lambda>p. pm_status p \<in> set [Promo_Active, Promo_Paused])
        (\<lambda>p. p\<lparr>pm_ended_by := Some actor, pm_status := Promo_Ended\<rparr>) ps = Inr (p, ps')"
      using assms(1) by (simp add: simple_promotion_writes)
    then show ?thesis by (intro step) (erule promotion_write_rows; auto intro: promotion_moves.intros)
  next
    case (Cancel_Promotion i)
    then have "promotion_write tenant i (\<lambda>p. pm_status p \<in> set [Promo_Draft, Promo_Scheduled])
        (\<lambda>p. p\<lparr>pm_cancelled_by := Some actor, pm_status := Promo_Cancelled\<rparr>) ps = Inr (p, ps')"
      using assms(1) by (simp add: simple_promotion_writes)
    then show ?thesis by (intro step) (erule promotion_write_rows; auto intro: promotion_moves.intros)
  qed
qed

section \<open>Histories\<close>

text \<open>Requests served one after the other.\<close>

definition promotion_step :: "promotion list \<Rightarrow> promotion list \<Rightarrow> bool" where
  "promotion_step ps ps' \<longleftrightarrow> promotions_indexed ps
     \<and> (\<exists>tenant actor now r p. actor \<noteq> [] \<and> promotion_route tenant actor now r ps = Inr (p, ps'))"

interpretation promotion_rows: row_history "\<lambda>ps. ps" promotion_step "promotion_moves True" promotion_born
proof unfold_locales
  fix s t assume "promotion_step s t"
  then show "\<exists>old new. t = old @ new \<and> list_all2 (promotion_moves True) s old \<and> list_all promotion_born new"
    using promotion_route_rows by (auto simp: promotion_step_def)
qed

lemma promotion_write_ids:
  assumes "promotion_write tenant i guarded data ps = Inr (p, ps')" and "\<And>x. pm_id (data x) = pm_id x"
  shows "map pm_id ps' = map pm_id ps"
  using promotion_write_Inr [OF assms(1)] assms(2) by simp

lemmas promotion_ids =
  approve_promotion_def schedule_promotion_def activate_promotion_def mark_approved_def schedule_promotion_write_def
  activate_promotion_write_def

lemma promotion_route_indexed:
  assumes "promotion_route tenant actor now r ps = Inr (p, ps')" and "promotions_indexed ps"
  shows "promotions_indexed ps'"
proof (cases "\<exists>new_id dto. r = Create_Promotion new_id dto")
  case True
  then have "ps' = ps @ [p]" "\<forall>q \<in> set ps. pm_id q \<noteq> pm_id p"
    using assms(1) by (auto simp: create_promotion_def repo_create_promotion_def result_simps)
  then show ?thesis using assms(2) by (force simp: promotions_indexed_def)
next
  case False
  have "map pm_id ps' = map pm_id ps"
    using False assms(1)
    by (cases r) (auto simp: simple_promotion_writes promotion_ids result_simps dest!: promotion_write_ids)
  then show ?thesis using assms(2) by (simp add: promotions_indexed_def)
qed

lemma pending_write_indexed:
  assumes "pending_write w ps = Inr (p, ps')" and "promotions_indexed ps"
  shows "promotions_indexed ps'"
proof -
  have "map pm_id ps' = map pm_id ps"
    using assms(1) by (cases w) (auto simp: promotion_ids promotion_transition_def dest!: promotion_write_ids)
  then show ?thesis using assms(2) by (simp add: promotions_indexed_def)
qed

text \<open>No promotion goes away.\<close>

definition promotion_key :: "promotion \<Rightarrow> string \<times> string" where
  "promotion_key p = (pm_id p, pm_tenant p)"

lemma promotion_write_keys:
  assumes "promotion_write tenant i guarded data ps = Inr (p, ps')"
    and "\<And>x. pm_id (data x) = pm_id x \<and> pm_tenant (data x) = pm_tenant x"
  shows "map promotion_key ps' = map promotion_key ps"
  using promotion_write_Inr [OF assms(1)] assms(2) by (simp add: promotion_key_def)

lemma promotion_in_tenant_key:
  "(\<exists>p. promotion_in_tenant tenant i ps = Inr p) \<longleftrightarrow> (i, tenant) \<in> set (map promotion_key ps)"
  by (cases "find_promotion tenant i ps")
    (auto simp: promotion_in_tenant_def result_simps find_promotion_def promotion_key_def find_None_set
      dest: find_Some_iff_set)

lemma race_promotion_stays:
  assumes "promotion_race y y'" and "promotion_in_tenant tenant i (py_rows y) = Inr p"
  shows "\<exists>p'. promotion_in_tenant tenant i (py_rows y') = Inr p'"
proof -
  have "set (map promotion_key (py_rows y)) \<subseteq> set (map promotion_key (py_rows y'))"
    using assms(1)
  proof cases
    case (Serves actor tenant now r p ps)
    then show ?thesis
      by (cases r) (auto simp: create_promotion_def repo_create_promotion_def simple_promotion_writes promotion_ids
          result_simps simp flip: set_map dest!: promotion_write_keys)
  next
    case (Writes w p ps)
    then show ?thesis
      by (cases w) (auto simp: promotion_ids promotion_transition_def simp flip: set_map dest!: promotion_write_keys)
  qed auto
  then show ?thesis using assms(2) promotion_in_tenant_key by blast
qed

text \<open>Requests that overlap: an open schedule still has its reviewed row, whatever came in between.\<close>

definition race_inv :: "promotion_system \<Rightarrow> bool" where
  "race_inv y \<longleftrightarrow> promotions_indexed (py_rows y)
     \<and> (\<forall>tenant actor i. Scheduling tenant actor i \<in> set (py_open y) \<longrightarrow> reviewed_row i (py_rows y))"

lemma reviewed_row_moves:
  assumes "reviewed_row i ps" and "list_all2 (promotion_moves serial) ps old" and "promotions_indexed (old @ new)"
  shows "reviewed_row i (old @ new)"
proof -
  obtain p where p: "p \<in> set ps" "pm_id p = i" using assms(1) by (auto simp: reviewed_row_def)
  obtain k where k: "k < length ps" "ps ! k = p" using p(1) by (auto simp: in_set_conv_nth)
  have l: "length old = length ps" using assms(2) by (simp add: list_all2_lengthD)
  have m: "promotion_moves serial p (old ! k)" using list_all2_nthD [OF assms(2) k(1)] k(2) by simp
  have q: "old ! k \<in> set (old @ new)" "pm_id (old ! k) = i"
    using k(1) l promotion_moves_frozen [OF m] p(2) by auto
  have r: "pm_submitted_by (old ! k) \<noteq> None" "pm_approved_by (old ! k) \<noteq> None"
    using promotion_moves_frozen [OF m] assms(1) p by (auto simp: reviewed_row_def)
  have "x = old ! k" if "x \<in> set (old @ new)" "pm_id x = i" for x
    using distinct_map_same [OF assms(3) [unfolded promotions_indexed_def] that(1) q(1)] that(2) q(2) by simp
  then show ?thesis using q r unfolding reviewed_row_def by blast
qed

lemma pending_write_moves:
  assumes "pending_write w (py_rows y) = Inr (p, ps)" and "w \<in> set (py_open y)" and "race_inv y"
  shows "list_all2 (promotion_moves False) (py_rows y) ps"
proof (cases w)
  case (Approving tenant actor i)
  then show ?thesis using assms(1) by (auto intro: mark_approved_moves)
next
  case (Scheduling tenant actor i)
  then show ?thesis using assms by (auto simp: race_inv_def intro: schedule_write_moves)
next
  case (Activating tenant actor i)
  then show ?thesis using assms(1) by (auto intro: activation_write_moves)
qed

lemma race_rows:
  assumes "promotion_race y y'" and "race_inv y"
  shows "(\<exists>old new. py_rows y' = old @ new \<and> list_all2 (promotion_moves False) (py_rows y) old \<and> list_all promotion_born new)
    \<and> promotions_indexed (py_rows y')"
  using assms
proof cases
  case (Serves actor tenant now r p ps)
  then show ?thesis using promotion_route_rows [OF Serves(3,2)] promotion_route_indexed [OF Serves(3)] assms(2)
    by (simp add: race_inv_def)
next
  case (Writes w p ps)
  have "list_all2 (promotion_moves False) (py_rows y) ps" using pending_write_moves [OF Writes(3,2) assms(2)] .
  then show ?thesis using pending_write_indexed [OF Writes(3)] assms(2) Writes(1)
    by (simp add: race_inv_def, intro exI [of _ ps] exI [of _ "[]"]) simp
qed (use assms(2) in \<open>simp_all add: race_inv_def,
    (intro exI [of _ "py_rows y"] exI [of _ "[]"], simp add: list.rel_refl Same)+\<close>)

lemma race_keeps_inv:
  assumes "promotion_race y y'" and "race_inv y"
  shows "race_inv y'"
proof -
  obtain old new where r: "py_rows y' = old @ new" "list_all2 (promotion_moves False) (py_rows y) old"
      "promotions_indexed (py_rows y')"
    using race_rows [OF assms] by blast
  have "reviewed_row i (py_rows y')" if s: "Scheduling tenant actor i \<in> set (py_open y')" for tenant actor i
  proof (cases "Scheduling tenant actor i \<in> set (py_open y)")
    case True
    then have "reviewed_row i (py_rows y)" using assms(2) by (simp add: race_inv_def)
    then show ?thesis using reviewed_row_moves r by metis
  next
    case False
    from assms(1) show ?thesis
    proof cases
      case (Checks w)
      then have "schedule_promotion_check tenant i (py_rows y) = Inr ()" using s False by auto
      then show ?thesis using schedule_check_reviewed Checks(1) assms(2) by (simp add: race_inv_def)
    qed (use s False set_remove1_subset in fastforce)+
  qed
  then show ?thesis using r(3) by (simp add: race_inv_def)
qed

definition sound_race :: "promotion_system \<Rightarrow> promotion_system \<Rightarrow> bool" where
  "sound_race y y' \<longleftrightarrow> race_inv y \<and> promotion_race y y'"

lemma race_sound_run: "promotion_race\<^sup>*\<^sup>* y y' \<Longrightarrow> race_inv y \<Longrightarrow> sound_race\<^sup>*\<^sup>* y y' \<and> race_inv y'"
proof (induction rule: rtranclp_induct)
  case (step y z)
  then have "race_inv y" "sound_race y z" by (auto simp: sound_race_def)
  with step show ?case using race_keeps_inv rtranclp.rtrancl_into_rtrancl [of sound_race] by blast
qed simp

interpretation race_history: row_history py_rows sound_race "promotion_moves False" promotion_born
  by unfold_locales (use race_rows in \<open>auto simp: sound_race_def\<close>)

text \<open>Serving one request after the other is one way for requests to overlap.\<close>

lemma steps_race:
  "promotion_step\<^sup>*\<^sup>* ps ps' \<Longrightarrow> promotion_race\<^sup>*\<^sup>* \<lparr>py_rows = ps, py_open = ws\<rparr> \<lparr>py_rows = ps', py_open = ws\<rparr>"
proof (induction rule: rtranclp_induct)
  case (step qs rs)
  then obtain tenant actor now r p where "actor \<noteq> []" "promotion_route tenant actor now r qs = Inr (p, rs)"
    by (auto simp: promotion_step_def)
  then have "promotion_race \<lparr>py_rows = qs, py_open = ws\<rparr> (\<lparr>py_rows = qs, py_open = ws\<rparr>\<lparr>py_rows := rs\<rparr>)"
    by (intro promotion_race.Serves) simp_all
  then show ?case using step.IH by simp
qed simp

text \<open>C15: The life of a promotion. In every store that requests make from an empty one, however their reads and
  writes overlap, a promotion that was ever scheduled has been submitted and approved; whatever is requested later, no
  promotion disappears, its state moves along draft, scheduled, active or paused, ended (cancelled only before
  it was active) and never back, and once it is scheduled nothing changes its terms any more. When
  requests are served one after the other, a promotion that was ever active also declares its return policy;
  overlapping requests can activate one without (\<open>active_without_policy\<close>).\<close>
theorem promotion_lifecycle:
  assumes "promotion_race\<^sup>*\<^sup>* y0 y" and "py_rows y0 = []" and "py_open y0 = []"
  shows "(\<forall>p \<in> set (py_rows y). promotion_reviewed p)
    \<and> (promotion_step\<^sup>*\<^sup>* [] (py_rows y) \<longrightarrow> (\<forall>p \<in> set (py_rows y). promotion_returnable p))
    \<and> (\<forall>y' k. promotion_race\<^sup>*\<^sup>* y y' \<and> k < length (py_rows y) \<longrightarrow>
         k < length (py_rows y') \<and> pm_id (py_rows y' ! k) = pm_id (py_rows y ! k)
         \<and> pm_status (py_rows y' ! k) \<in> later_states (pm_status (py_rows y ! k))
         \<and> (pm_status (py_rows y ! k) \<noteq> Promo_Draft \<longrightarrow> pm_terms (py_rows y' ! k) = pm_terms (py_rows y ! k)))"
proof (intro conjI impI allI)
  have "race_inv y0" using assms(2,3) by (simp add: race_inv_def promotions_indexed_def)
  note run = race_sound_run [OF assms(1) this]
  have "list_all promotion_reviewed (py_rows y)"
    using race_history.rows_invariant [OF conjunct1 [OF run], of promotion_reviewed] promotion_moves_reviewed assms(2)
    by (simp add: promotion_born_def promotion_reviewed_def)
  then show "\<forall>p \<in> set (py_rows y). promotion_reviewed p" by (simp add: list_all_iff)
  fix y' k assume a: "promotion_race\<^sup>*\<^sup>* y y' \<and> k < length (py_rows y)"
  note later = race_sound_run [OF conjunct1 [OF a] conjunct2 [OF run]]
  note m = race_history.rows_move [OF conjunct1 [OF later] conjunct2 [OF a]]
  note r = promotion_run_moves [OF conjunct2 [OF m]]
  show "k < length (py_rows y')" using m by simp
  show "pm_id (py_rows y' ! k) = pm_id (py_rows y ! k)" using r by simp
  show "pm_status (py_rows y' ! k) \<in> later_states (pm_status (py_rows y ! k))" using r by simp
  show "pm_terms (py_rows y' ! k) = pm_terms (py_rows y ! k)" if "pm_status (py_rows y ! k) \<noteq> Promo_Draft"
    using r that by simp
next
  assume s: "promotion_step\<^sup>*\<^sup>* [] (py_rows y)"
  have "list_all promotion_returnable (py_rows y)"
    using promotion_rows.rows_invariant [OF s, of promotion_returnable] promotion_moves_returnable
    by (simp add: promotion_born_def promotion_returnable_def)
  then show "\<forall>p \<in> set (py_rows y). promotion_returnable p" by (simp add: list_all_iff)
qed

section \<open>What the review does not cover\<close>

definition serve_promotions ::
  "string \<Rightarrow> int \<Rightarrow> (string \<times> promotion_request) list \<Rightarrow> promotion list \<Rightarrow> promotion list result" where
  "serve_promotions tenant now =
     fold_result (\<lambda>(actor, r) ps. and_then (promotion_route tenant actor now r ps) (\<lambda>(p, ps'). Inr ps'))"

lemma serve_promotions_run:
  assumes "serve_promotions tenant now calls ps = Inr ps'" and "promotions_indexed ps"
    and "\<forall>(actor, r) \<in> set calls. actor \<noteq> []"
  shows "promotion_step\<^sup>*\<^sup>* ps ps'"
  using assms unfolding serve_promotions_def
proof (induction calls arbitrary: ps)
  case (Cons call calls)
  obtain actor r where c: "call = (actor, r)" by (cases call) auto
  obtain p qs where q: "promotion_route tenant actor now r ps = Inr (p, qs)"
      "serve_promotions tenant now calls qs = Inr ps'"
    using Cons.prems(1) c by (auto simp: result_simps serve_promotions_def)
  have "actor \<noteq> []" using Cons.prems(3) c by simp
  then have "promotion_step ps qs" using q(1) Cons.prems(2) unfolding promotion_step_def by blast
  moreover have "promotions_indexed qs" using promotion_route_indexed [OF q(1) Cons.prems(2)] .
  then have "promotion_step\<^sup>*\<^sup>* qs ps'" using Cons.IH q(2) Cons.prems(3) by (simp add: serve_promotions_def)
  ultimately show ?case by (rule converse_rtranclp_into_rtranclp)
qed simp

definition ten_percent :: create_promotion_dto where
  "ten_percent =
     \<lparr>cp_name = ''Ten'', cp_timezone = None, cp_starts_at = 0, cp_ends_at = None, cp_priority = None,
      cp_stackability = None, cp_stack_group = None, cp_benefit = Percentage, cp_value = Some 10, cp_bogo_buy = None,
      cp_bogo_get = None, cp_bogo_percent = None, cp_max_discount = None, cp_max_units = None, cp_max_uses = None,
      cp_scope = None, cp_scope_id = None, cp_min_qty = None, cp_min_spend = None, cp_min_spend_basis = None,
      cp_branch = None, cp_customer = None, cp_requires_coupon = None, cp_return_policy = Some Line_Prorated\<rparr>"

definition no_changes :: update_promotion_dto where
  "no_changes =
     \<lparr>pu_name = Left_Out, pu_timezone = Left_Out, pu_starts_at = Left_Out, pu_ends_at = Left_Out, pu_priority = Left_Out,
      pu_stackability = Left_Out, pu_stack_group = Left_Out, pu_benefit = Left_Out, pu_value = Left_Out,
      pu_bogo_buy = Left_Out, pu_bogo_get = Left_Out, pu_bogo_percent = Left_Out, pu_max_discount = Left_Out,
      pu_max_units = Left_Out, pu_max_uses = Left_Out, pu_scope = Left_Out, pu_scope_id = Left_Out, pu_min_qty = Left_Out,
      pu_min_spend = Left_Out, pu_min_spend_basis = Left_Out, pu_branch = Left_Out, pu_customer = Left_Out,
      pu_requires_coupon = Left_Out, pu_return_policy = Left_Out\<rparr>"

definition to_ninety :: update_promotion_dto where
  "to_ninety = no_changes\<lparr>pu_value := Given 90\<rparr>"

definition no_policy :: update_promotion_dto where
  "no_policy = no_changes\<lparr>pu_return_policy := Set_Null\<rparr>"

definition reviewed_calls :: "(string \<times> promotion_request) list" where
  "reviewed_calls = [(''a'', Create_Promotion ''p'' ten_percent), (''a'', Submit_Promotion ''p''), (''b'', Approve_Promotion ''p'')]"

definition rewriting_calls :: "(string \<times> promotion_request) list" where
  "rewriting_calls = [(''b'', Update_Promotion ''p'' to_ninety), (''b'', Submit_Promotion ''p''),
     (''b'', Schedule_Promotion ''p''), (''b'', Activate_Promotion ''p'')]"

definition sample_promotion :: "rat \<Rightarrow> promotion_status \<Rightarrow> promotion" where
  "sample_promotion percent status =
     \<lparr>pm_id = ''p'', pm_tenant = ''t'', pm_created_at = 0, pm_terms = (terms_of ten_percent)\<lparr>pt_value := Some percent\<rparr>,
      pm_status = status, pm_created_by = Some ''a'', pm_submitted_by = Some ''a'', pm_approved_by = Some ''b'',
      pm_scheduled_by = None, pm_activated_by = None, pm_paused_by = None, pm_resumed_by = None, pm_ended_by = None,
      pm_cancelled_by = None\<rparr>"

definition rewritten_promotion :: promotion where
  "rewritten_promotion = (sample_promotion 90 Promo_Active)\<lparr>pm_submitted_by := Some ''b'', pm_scheduled_by := Some ''b'',
     pm_activated_by := Some ''b''\<rparr>"

lemmas promotion_evaluation =
  Let_def create_promotion_def repo_create_promotion_def assert_benefit_shape_def simple_promotion_writes
  promotion_write_def update_many_def promotion_in_tenant_def find_promotion_def promotion_ids
  approve_promotion_check_def schedule_promotion_check_def activate_promotion_check_def

lemma terms_ten: "pt_return_policy (terms_of ten_percent) = Some Line_Prorated" "pt_value (terms_of ten_percent) = Some 10"
  by (simp_all add: terms_of_def ten_percent_def)

lemma patch_ninety: "patched_terms to_ninety (t\<lparr>pt_value := v\<rparr>) = t\<lparr>pt_value := Some 90\<rparr>" "patch_accepted to_ninety = Inr ()"
  by (cases t; simp add: patched_terms_def patch_accepted_def to_ninety_def no_changes_def)+

lemma patch_policy: "patched_terms no_policy t = t\<lparr>pt_return_policy := None\<rparr>" "patch_accepted no_policy = Inr ()"
  by (cases t; simp add: patched_terms_def patch_accepted_def no_policy_def no_changes_def)+

lemma reviewed_run: "serve_promotions ''t'' 0 reviewed_calls [] = Inr [sample_promotion 10 Promo_Draft]"
proof -
  have "terms_of ten_percent = (terms_of ten_percent)\<lparr>pt_value := Some 10\<rparr>" by (simp add: terms_of_def ten_percent_def)
  moreover have "cp_benefit ten_percent = Percentage" "cp_value ten_percent = Some 10" by (simp_all add: ten_percent_def)
  ultimately show ?thesis
    by (simp add: serve_promotions_def reviewed_calls_def promotion_evaluation sample_promotion_def cong: and_then_weak_cong)
qed

lemma rewriting_run: "serve_promotions ''t'' 0 rewriting_calls [sample_promotion 10 Promo_Draft] = Inr [rewritten_promotion]"
  by (simp add: serve_promotions_def rewriting_calls_def promotion_evaluation sample_promotion_def rewritten_promotion_def
      patch_ninety terms_ten cong: and_then_weak_cong)

lemma reviewed_reached: "promotion_step\<^sup>*\<^sup>* [] [sample_promotion 10 Promo_Draft]"
  by (rule serve_promotions_run [OF reviewed_run]) (simp_all add: promotions_indexed_def reviewed_calls_def)

lemma rewritten_reached: "promotion_step\<^sup>*\<^sup>* [sample_promotion 10 Promo_Draft] [rewritten_promotion]"
  by (rule serve_promotions_run [OF rewriting_run]) (simp_all add: promotions_indexed_def rewriting_calls_def)

lemma promotion_lifecycle_witness:
  "promotion_reviewed rewritten_promotion \<and> promotion_returnable rewritten_promotion
   \<and> pm_status rewritten_promotion = Promo_Active \<and> pm_status rewritten_promotion \<in> later_states Promo_Draft"
proof -
  let ?y = "\<lambda>ps. \<lparr>py_rows = ps, py_open = []\<rparr>"
  note l = promotion_lifecycle [OF steps_race [OF reviewed_reached], of "[]", simplified]
  note live = promotion_lifecycle [OF steps_race [OF rtranclp_trans [OF reviewed_reached rewritten_reached]], of "[]", simplified]
  have "promotion_reviewed rewritten_promotion" "promotion_returnable rewritten_promotion"
    using live rtranclp_trans [OF reviewed_reached rewritten_reached] by auto
  moreover have "pm_status (py_rows (?y [rewritten_promotion]) ! 0) \<in> later_states (pm_status (sample_promotion 10 Promo_Draft))"
    using l steps_race [OF rewritten_reached, of "[]"] by blast
  ultimately show ?thesis by (simp add: rewritten_promotion_def sample_promotion_def)
qed

text \<open>An active promotion without a return policy. \<open>activate\<close> reads the policy of a promotion that is still a
  draft, whatever its state; before its write, another request patches the policy to null and a third one
  schedules the promotion. The guarded write then finds the scheduled promotion and activates it.\<close>

definition unreturnable_promotion :: promotion where
  "unreturnable_promotion = (sample_promotion 10 Promo_Active)\<lparr>pm_terms := (terms_of ten_percent)\<lparr>pt_return_policy := None\<rparr>,
     pm_scheduled_by := Some ''c'', pm_activated_by := Some ''c''\<rparr>"

definition unreturnable_calls :: "(string \<times> promotion_request) list" where
  "unreturnable_calls = [(''c'', Update_Promotion ''p'' no_policy), (''c'', Schedule_Promotion ''p'')]"

lemma ten_again: "(terms_of ten_percent)\<lparr>pt_value := Some 10\<rparr> = terms_of ten_percent"
  by (simp add: terms_of_def ten_percent_def)

lemma unreturnable_run:
  "serve_promotions ''t'' 0 unreturnable_calls [sample_promotion 10 Promo_Draft]
     = Inr [unreturnable_promotion\<lparr>pm_status := Promo_Scheduled, pm_activated_by := None\<rparr>]"
  by (simp add: serve_promotions_def unreturnable_calls_def promotion_evaluation sample_promotion_def
      unreturnable_promotion_def patch_policy ten_again cong: and_then_weak_cong)

theorem active_without_policy:
  "promotion_race\<^sup>*\<^sup>* \<lparr>py_rows = [], py_open = []\<rparr> \<lparr>py_rows = [unreturnable_promotion], py_open = []\<rparr>
   \<and> pm_status unreturnable_promotion = Promo_Active \<and> pt_return_policy (pm_terms unreturnable_promotion) = None"
proof (intro conjI)
  let ?p = "sample_promotion 10 Promo_Draft"
  let ?q = "unreturnable_promotion\<lparr>pm_status := Promo_Scheduled, pm_activated_by := None\<rparr>"
  let ?w = "Activating ''t'' ''c'' ''p''"
  let ?y = "\<lambda>p ws. \<lparr>py_rows = [p], py_open = ws\<rparr>"
  have path: "promotion_race\<^sup>*\<^sup>* a e" if "promotion_race\<^sup>*\<^sup>* a b" "promotion_race b c"
      "promotion_race\<^sup>*\<^sup>* c d" "promotion_race d e" for a b c d e
    using that by (meson rtranclp.rtrancl_into_rtrancl rtranclp_trans)
  have r1: "promotion_race\<^sup>*\<^sup>* \<lparr>py_rows = [], py_open = []\<rparr> (?y ?p [])"
    by (rule steps_race [OF reviewed_reached])
  have "promotion_race (?y ?p []) ((?y ?p [])\<lparr>py_open := ?w # py_open (?y ?p [])\<rparr>)"
    by (rule promotion_race.Checks)
      (simp add: activate_promotion_check_def promotion_in_tenant_def find_promotion_def sample_promotion_def terms_ten)
  then have r2: "promotion_race (?y ?p []) (?y ?p [?w])" by (simp only: promotion_system.simps)
  have r3: "promotion_race\<^sup>*\<^sup>* (?y ?p [?w]) (?y ?q [?w])"
    by (rule steps_race [OF serve_promotions_run [OF unreturnable_run]])
      (simp_all add: promotions_indexed_def unreturnable_calls_def)
  have w: "pending_write ?w [?q] = Inr (unreturnable_promotion, [unreturnable_promotion])"
    by (simp add: promotion_evaluation unreturnable_promotion_def sample_promotion_def)
  have "promotion_race (?y ?q [?w]) ((?y ?q [?w])\<lparr>py_rows := [unreturnable_promotion],
      py_open := remove1 ?w (py_open (?y ?q [?w]))\<rparr>)"
    by (rule promotion_race.Writes) (simp_all only: promotion_system.simps list.set insert_iff simp_thms w)
  then have r4: "promotion_race (?y ?q [?w]) (?y unreturnable_promotion [])"
    by (simp only: promotion_system.simps remove1.simps if_True simp_thms)
  show "promotion_race\<^sup>*\<^sup>* \<lparr>py_rows = [], py_open = []\<rparr> (?y unreturnable_promotion [])"
    by (rule path [OF r1 r2 r3 r4])
qed (simp_all add: unreturnable_promotion_def sample_promotion_def)

text \<open>The review of a promotion does not bind what goes live. Approval leaves the promotion a draft, and
  neither editing a draft nor submitting it again takes the approval back: here \<open>a\<close> submits ten
  percent, \<open>b\<close> approves it, and \<open>b\<close> then makes it ninety percent, submits, schedules and activates it,
  alone. The active promotion has terms nobody else reviewed, and its submitter and its approver are the same person,
  which \<open>approve\<close> refuses as self-approval.\<close>
theorem approval_outlives_terms:
  "promotion_step\<^sup>*\<^sup>* [] [sample_promotion 10 Promo_Draft]
   \<and> promotion_step\<^sup>*\<^sup>* [sample_promotion 10 Promo_Draft] [rewritten_promotion]
   \<and> pm_status rewritten_promotion = Promo_Active
   \<and> pt_value (pm_terms (sample_promotion 10 Promo_Draft)) = Some 10 \<and> pt_value (pm_terms rewritten_promotion) = Some 90
   \<and> pm_submitted_by rewritten_promotion = Some ''b'' \<and> pm_approved_by rewritten_promotion = Some ''b''
   \<and> approve_promotion ''t'' ''a'' ''p'' [(sample_promotion 10 Promo_Draft)\<lparr>pm_approved_by := None\<rparr>]
       = Inl (DomainError ''PROMOTION_SELF_APPROVAL_FORBIDDEN'')"
  by (intro conjI reviewed_reached rewritten_reached)
    (simp_all add: rewritten_promotion_def sample_promotion_def approve_promotion_def approve_promotion_check_def
      promotion_in_tenant_def find_promotion_def)

end
