(* ===== verification/Coupons.thy ===== *)
theory Coupons
  imports Promotions_Correct
begin

text \<open>
  Coupons and their redemption: \<open>backend/src/promotions/coupon.service.ts\<close> over
  \<open>coupon.repository.ts\<close>. A redemption is three statements with other requests served in between: the
  row of the redemption is inserted, the use is counted against the coupon's cap, and when the cap
  leaves no room the row is deleted again. Each phase is a definition of its own.
\<close>

section \<open>The tables\<close>

datatype coupon_type = Public_Coupon | Single_Use | Customer_Bound

datatype coupon_status = Coupon_Active | Coupon_Disabled

record coupon =
  cn_id :: string
  cn_tenant :: string
  cn_promotion :: string
  cn_code :: string
  cn_display :: string
  cn_type :: coupon_type
  cn_status :: coupon_status
  cn_customer :: "string option"
  cn_max_total :: "int option"
  cn_max_per_customer :: "int option"
  cn_use_count :: int
  cn_expires_at :: "int option"
  cn_created_by :: "string option"

record redemption =
  rd_id :: string
  rd_tenant :: string
  rd_coupon :: string
  rd_key :: string
  rd_customer :: "string option"
  rd_amount :: "rat option"
  rd_by :: "string option"

record coupon_store =
  cs_promotions :: "promotion list"
  cs_coupons :: "coupon list"
  cs_redemptions :: "redemption list"

section \<open>The repository\<close>

definition normalize_coupon_code :: "string \<Rightarrow> string" where
  "normalize_coupon_code raw = to_upper (trim raw)"

definition find_coupon :: "string \<Rightarrow> string \<Rightarrow> coupon list \<Rightarrow> coupon option" where
  "find_coupon tenant i cs = find (\<lambda>c. cn_id c = i \<and> cn_tenant c = tenant) cs"

definition coupon_in_tenant :: "string \<Rightarrow> string \<Rightarrow> coupon list \<Rightarrow> coupon result" where
  "coupon_in_tenant tenant i cs = or_throw (find_coupon tenant i cs) (DomainError ''RESOURCE_NOT_FOUND'')"

definition coupon_by_code :: "string \<Rightarrow> string \<Rightarrow> coupon list \<Rightarrow> coupon option" where
  "coupon_by_code tenant raw cs = find (\<lambda>c. cn_tenant c = tenant \<and> cn_code c = normalize_coupon_code raw) cs"

definition coupon_invalid :: error where
  "coupon_invalid = DomainError ''COUPON_INVALID_OR_EXPIRED''"

definition coupon_limit :: error where
  "coupon_limit = DomainError ''COUPON_USAGE_LIMIT_EXCEEDED''"

text \<open>The primary key and the unique code of a tenant.\<close>

definition insert_coupon :: "coupon \<Rightarrow> coupon list \<Rightarrow> coupon list result" where
  "insert_coupon c cs =
     and_then (throw_if (\<exists>x \<in> set cs. cn_id x = cn_id c \<or> (cn_tenant x = cn_tenant c \<and> cn_code x = cn_code c))
                 unique_violation) (\<lambda>_. Inr (cs @ [c]))"

definition repo_create_coupon :: "coupon \<Rightarrow> coupon list \<Rightarrow> (coupon \<times> coupon list) result" where
  "repo_create_coupon c cs =
     as_conflict (and_then (insert_coupon c cs) (\<lambda>cs'. Inr (c, cs'))) ''COUPON_INVALID_OR_EXPIRED''"

definition repo_update_coupon ::
  "string \<Rightarrow> string \<Rightarrow> (coupon \<Rightarrow> coupon) \<Rightarrow> coupon list \<Rightarrow> (coupon \<times> coupon list) result" where
  "repo_update_coupon tenant i data cs =
     (let (count, cs') = update_many (\<lambda>c. cn_id c = i \<and> cn_tenant c = tenant) data cs in
      and_then (throw_if (count \<noteq> 1) (DomainError ''RESOURCE_NOT_FOUND'')) (\<lambda>_.
      and_then (coupon_in_tenant tenant i cs') (\<lambda>c. Inr (c, cs'))))"

definition insert_redemption :: "redemption \<Rightarrow> redemption list \<Rightarrow> redemption list result" where
  "insert_redemption r rs =
     and_then (throw_if (\<exists>x \<in> set rs. rd_id x = rd_id r
                 \<or> (rd_tenant x = rd_tenant r \<and> rd_coupon x = rd_coupon r \<and> rd_key x = rd_key r)) unique_violation)
       (\<lambda>_. Inr (rs @ [r]))"

text \<open>
  The first phase. \<open>Placed r\<close> goes on to the second phase; \<open>Replayed r\<close> is the answer for a
  key that has a row already.
\<close>

datatype placement = Placed redemption | Replayed redemption

definition redeem_place :: "redemption \<Rightarrow> redemption list \<Rightarrow> (placement \<times> redemption list) result" where
  "redeem_place r rs =
     (case insert_redemption r rs of
        Inr rs' \<Rightarrow> Inr (Placed r, rs')
      | Inl e \<Rightarrow>
          if e = unique_violation then
            (case find (\<lambda>x. rd_tenant x = rd_tenant r \<and> rd_coupon x = rd_coupon r \<and> rd_key x = rd_key r) rs of
               None \<Rightarrow> Inl coupon_invalid
             | Some existing \<Rightarrow> Inr (Replayed existing, rs))
          else Inl e)"

text \<open>
  The second phase: the conditional increment, and the deletion that undoes the first phase. The table
  changes even when the answer is an error.
\<close>

definition redeem_reserve :: "redemption \<Rightarrow> coupon_store \<Rightarrow> (redemption \<times> bool) result \<times> coupon_store" where
  "redeem_reserve r st =
     (let (capacity, cs) = update_many (\<lambda>c. cn_id c = rd_coupon r \<and> cn_tenant c = rd_tenant r \<and> cn_status c = Coupon_Active
                              \<and> (case cn_max_total c of None \<Rightarrow> True | Some m \<Rightarrow> cn_use_count c < m))
                            (\<lambda>c. c\<lparr>cn_use_count := cn_use_count c + 1\<rparr>) (cs_coupons st);
          st1 = st\<lparr>cs_coupons := cs\<rparr> in
      if capacity \<noteq> 1 then
        (let st2 = st1\<lparr>cs_redemptions := filter (\<lambda>x. rd_id x \<noteq> rd_id r) (cs_redemptions st1)\<rparr> in
         case find_coupon (rd_tenant r) (rd_coupon r) (cs_coupons st2) of
           None \<Rightarrow> (Inl coupon_invalid, st2)
         | Some current \<Rightarrow> (Inl (if cn_status current \<noteq> Coupon_Active then coupon_invalid else coupon_limit), st2))
      else (Inr (r, False), st1))"

definition repo_redeem :: "redemption \<Rightarrow> coupon_store \<Rightarrow> (redemption \<times> bool) result \<times> coupon_store" where
  "repo_redeem r st =
     (case redeem_place r (cs_redemptions st) of
        Inl e \<Rightarrow> (Inl e, st)
      | Inr (Replayed existing, rs) \<Rightarrow> (Inr (existing, True), st)
      | Inr (Placed r, rs) \<Rightarrow> redeem_reserve r (st\<lparr>cs_redemptions := rs\<rparr>))"

definition redemptions_of_customer :: "string \<Rightarrow> string \<Rightarrow> string \<Rightarrow> redemption list \<Rightarrow> nat" where
  "redemptions_of_customer tenant i customer rs =
     length (filter (\<lambda>r. rd_tenant r = tenant \<and> rd_coupon r = i \<and> rd_customer r = Some customer) rs)"

section \<open>The service\<close>

text \<open>
  The body of a \<open>POST\<close>. \<open>max_total_uses\<close> may be left out or null, which the code tells apart for a single
  use; for the other fields \<open>None\<close> is either.
\<close>

record create_coupon_dto =
  cc_promotion :: string
  cc_code :: string
  cc_type :: "coupon_type option"
  cc_customer :: "string option"
  cc_max_total :: "int patch"
  cc_max_per_customer :: "int option"
  cc_expires_at :: "int option"

definition create_coupon ::
  "string \<Rightarrow> string \<Rightarrow> string \<Rightarrow> create_coupon_dto \<Rightarrow> coupon_store \<Rightarrow> (coupon \<times> coupon_store) result" where
  "create_coupon tenant actor new_id dto st =
     and_then (promotion_in_tenant tenant (cc_promotion dto) (cs_promotions st)) (\<lambda>_.
     let type = given (cc_type dto) Public_Coupon in
     and_then (throw_if (type = Customer_Bound \<and> \<not> truthy (cc_customer dto)) (DomainError ''REQUEST_FIELD_VALUE_INVALID'')) (\<lambda>_.
     and_then (throw_if (type = Single_Use \<and> cc_max_total dto \<noteq> Left_Out \<and> cc_max_total dto \<noteq> Given 1)
                 (DomainError ''REQUEST_FIELD_VALUE_INVALID'')) (\<lambda>_.
     and_then (repo_create_coupon
       \<lparr>cn_id = new_id, cn_tenant = tenant, cn_promotion = cc_promotion dto, cn_code = normalize_coupon_code (cc_code dto),
        cn_display = trim (cc_code dto), cn_type = type, cn_status = Coupon_Active,
        cn_customer = (if type = Customer_Bound then cc_customer dto else None),
        cn_max_total = (if type = Single_Use then Some 1 else patch_column (cc_max_total dto) None),
        cn_max_per_customer = cc_max_per_customer dto, cn_use_count = 0, cn_expires_at = cc_expires_at dto,
        cn_created_by = Some actor\<rparr> (cs_coupons st)) (\<lambda>(c, cs). Inr (c, st\<lparr>cs_coupons := cs\<rparr>)))))"

text \<open>
  The body of a \<open>PATCH\<close>: null lifts a cap or the expiry; a null \<open>status\<close> is refused by Prisma before the
  statement is sent.
\<close>

record update_coupon_dto =
  uc_status :: "coupon_status patch"
  uc_max_total :: "int patch"
  uc_max_per_customer :: "int patch"
  uc_expires_at :: "int patch"

definition patched_coupon :: "update_coupon_dto \<Rightarrow> coupon \<Rightarrow> coupon" where
  "patched_coupon dto c =
     c\<lparr>cn_status := patch_value (uc_status dto) (cn_status c) (cn_status c),
       cn_max_total := patch_column (uc_max_total dto) (cn_max_total c),
       cn_max_per_customer := patch_column (uc_max_per_customer dto) (cn_max_per_customer c),
       cn_expires_at := patch_column (uc_expires_at dto) (cn_expires_at c)\<rparr>"

definition update_coupon ::
  "string \<Rightarrow> string \<Rightarrow> update_coupon_dto \<Rightarrow> coupon_store \<Rightarrow> (coupon \<times> coupon_store) result" where
  "update_coupon tenant i dto st =
     and_then (throw_if (uc_status dto = Set_Null) (JsError ''PrismaClientValidationError'')) (\<lambda>_.
     and_then (repo_update_coupon tenant i (patched_coupon dto) (cs_coupons st))
       (\<lambda>(c, cs). Inr (c, st\<lparr>cs_coupons := cs\<rparr>)))"

record redeem_dto =
  re_code :: string
  re_customer :: "string option"
  re_amount :: "rat option"

text \<open>Everything the handler checks before it writes: the coupon the code names, or the refusal.\<close>

definition redeem_check :: "string \<Rightarrow> int \<Rightarrow> redeem_dto \<Rightarrow> coupon_store \<Rightarrow> coupon result" where
  "redeem_check tenant now dto st =
     and_then (or_throw (coupon_by_code tenant (re_code dto) (cs_coupons st)) coupon_invalid) (\<lambda>c.
     and_then (throw_if (cn_status c \<noteq> Coupon_Active) coupon_invalid) (\<lambda>_.
     and_then (throw_if (case cn_expires_at c of None \<Rightarrow> False | Some t \<Rightarrow> t < now) coupon_invalid) (\<lambda>_.
     and_then (throw_if (cn_type c = Customer_Bound \<and> (\<not> truthy (re_customer dto) \<or> re_customer dto \<noteq> cn_customer c))
                 coupon_invalid) (\<lambda>_.
     and_then (promotion_in_tenant tenant (cn_promotion c) (cs_promotions st)) (\<lambda>p.
     and_then (throw_if (pm_status p \<noteq> Promo_Active) coupon_invalid) (\<lambda>_.
     and_then (case cn_max_per_customer c of
         Some m \<Rightarrow>
           if m \<noteq> 0 \<and> truthy (re_customer dto) then
             throw_if (int (redemptions_of_customer tenant (cn_id c) (the (re_customer dto)) (cs_redemptions st)) \<ge> m)
               coupon_limit
           else Inr ()
       | None \<Rightarrow> Inr ()) (\<lambda>_. Inr c)))))))"

definition redemption_row :: "string \<Rightarrow> string \<Rightarrow> string \<Rightarrow> string \<Rightarrow> redeem_dto \<Rightarrow> coupon \<Rightarrow> redemption" where
  "redemption_row tenant actor key new_id dto c =
     \<lparr>rd_id = new_id, rd_tenant = tenant, rd_coupon = cn_id c, rd_key = key, rd_customer = re_customer dto,
      rd_amount = re_amount dto, rd_by = Some actor\<rparr>"

definition redeem_coupon ::
  "string \<Rightarrow> string \<Rightarrow> string \<Rightarrow> string \<Rightarrow> int \<Rightarrow> redeem_dto \<Rightarrow> coupon_store \<Rightarrow> (redemption \<times> bool) result \<times> coupon_store" where
  "redeem_coupon tenant actor key new_id now dto st =
     (case redeem_check tenant now dto st of
        Inl e \<Rightarrow> (Inl e, st)
      | Inr c \<Rightarrow> repo_redeem (redemption_row tenant actor key new_id dto c) st)"

section \<open>Redemptions that overlap\<close>

text \<open>
  The requests in flight: those that passed their checks, and those whose row is inserted. Answers are
  kept with their key. A process may stop at any point and leave what it wrote behind. The requests for
  promotions that are open beside them are those of \<open>promotion_race\<close>.
\<close>

datatype in_flight = Checked redemption | Inserted redemption

record coupon_system =
  cy_store :: coupon_store
  cy_flights :: "in_flight list"
  cy_answers :: "(string \<times> (redemption \<times> bool) result) list"
  cy_abandoned :: "redemption list"
  cy_reviews :: "promotion_pending list"

inductive coupon_step :: "coupon_system \<Rightarrow> coupon_system \<Rightarrow> bool" where
  Creates: "create_coupon tenant actor new_id dto (cy_store y) = Inr (c, st)
    \<Longrightarrow> coupon_step y (y\<lparr>cy_store := st\<rparr>)"
| Updates: "update_coupon tenant i dto (cy_store y) = Inr (c, st) \<Longrightarrow> coupon_step y (y\<lparr>cy_store := st\<rparr>)"
| Promotes: "promotion_race \<lparr>py_rows = cs_promotions (cy_store y), py_open = cy_reviews y\<rparr> \<lparr>py_rows = ps, py_open = ws\<rparr>
    \<Longrightarrow> coupon_step y (y\<lparr>cy_store := (cy_store y)\<lparr>cs_promotions := ps\<rparr>, cy_reviews := ws\<rparr>)"
| Checks: "redeem_check tenant now dto (cy_store y) = Inr c
    \<Longrightarrow> coupon_step y (y\<lparr>cy_flights := Checked (redemption_row tenant actor key new_id dto c) # cy_flights y\<rparr>)"
| Places: "Checked r \<in> set (cy_flights y) \<Longrightarrow> redeem_place r (cs_redemptions (cy_store y)) = Inr (Placed r, rs)
    \<Longrightarrow> coupon_step y (y\<lparr>cy_store := (cy_store y)\<lparr>cs_redemptions := rs\<rparr>,
                        cy_flights := Inserted r # remove1 (Checked r) (cy_flights y)\<rparr>)"
| Replays: "Checked r \<in> set (cy_flights y) \<Longrightarrow> redeem_place r (cs_redemptions (cy_store y)) = Inr (Replayed q, rs)
    \<Longrightarrow> coupon_step y (y\<lparr>cy_flights := remove1 (Checked r) (cy_flights y),
                        cy_answers := (rd_key r, Inr (q, True)) # cy_answers y\<rparr>)"
| Fails: "Checked r \<in> set (cy_flights y) \<Longrightarrow> redeem_place r (cs_redemptions (cy_store y)) = Inl e
    \<Longrightarrow> coupon_step y (y\<lparr>cy_flights := remove1 (Checked r) (cy_flights y),
                        cy_answers := (rd_key r, Inl e) # cy_answers y\<rparr>)"
| Reserves: "Inserted r \<in> set (cy_flights y) \<Longrightarrow> redeem_reserve r (cy_store y) = (answer, st)
    \<Longrightarrow> coupon_step y (y\<lparr>cy_store := st, cy_flights := remove1 (Inserted r) (cy_flights y),
                        cy_answers := (rd_key r, answer) # cy_answers y\<rparr>)"
| Stops: "Inserted r \<in> set (cy_flights y)
    \<Longrightarrow> coupon_step y (y\<lparr>cy_flights := remove1 (Inserted r) (cy_flights y), cy_abandoned := r # cy_abandoned y\<rparr>)"

end
