(* ===== verification/Coupons_Correct.thy ===== *)
theory Coupons_Correct
  imports Coupons
begin

text \<open>
  What overlapping redemptions keep: the counter of a coupon is the number of its confirmed rows, it moves
  only below the cap in force, and a confirmed redemption stays. What they do not keep is shown beside it.
\<close>

section \<open>The counting invariant\<close>

fun inserted_rows :: "in_flight list \<Rightarrow> redemption list" where
  "inserted_rows [] = []"
| "inserted_rows (Checked r # fs) = inserted_rows fs"
| "inserted_rows (Inserted r # fs) = r # inserted_rows fs"

lemma inserted_rows_checked [simp]: "inserted_rows (remove1 (Checked r) fs) = inserted_rows fs"
  by (induction fs rule: inserted_rows.induct) auto

lemma inserted_rows_inserted [simp]: "inserted_rows (remove1 (Inserted r) fs) = remove1 r (inserted_rows fs)"
  by (induction fs rule: inserted_rows.induct) auto

lemma inserted_rows_set: "set (inserted_rows fs) = {r. Inserted r \<in> set fs}"
  by (induction fs rule: inserted_rows.induct) auto

text \<open>The rows that neither await their count nor were left behind by a process that stopped.\<close>

definition confirmed :: "coupon_system \<Rightarrow> redemption \<Rightarrow> bool" where
  "confirmed y r \<longleftrightarrow> r \<in> set (cs_redemptions (cy_store y)) \<and> Inserted r \<notin> set (cy_flights y) \<and> r \<notin> set (cy_abandoned y)"

definition row_of :: "coupon \<Rightarrow> redemption \<Rightarrow> bool" where
  "row_of c r \<longleftrightarrow> rd_tenant r = cn_tenant c \<and> rd_coupon r = cn_id c"

definition confirmed_rows :: "coupon_system \<Rightarrow> coupon \<Rightarrow> redemption list" where
  "confirmed_rows y c = filter (\<lambda>r. row_of c r \<and> confirmed y r) (cs_redemptions (cy_store y))"

definition redemption_key :: "redemption \<Rightarrow> string \<times> string \<times> string" where
  "redemption_key r = (rd_tenant r, rd_coupon r, rd_key r)"

definition has_coupon :: "coupon_system \<Rightarrow> redemption \<Rightarrow> bool" where
  "has_coupon y r \<longleftrightarrow> (\<exists>c \<in> set (cs_coupons (cy_store y)). row_of c r)"

definition coupons_sound :: "coupon_system \<Rightarrow> bool" where
  "coupons_sound y \<longleftrightarrow>
     distinct (map cn_id (cs_coupons (cy_store y)))
     \<and> distinct (map rd_id (cs_redemptions (cy_store y)))
     \<and> distinct (map redemption_key (cs_redemptions (cy_store y)))
     \<and> distinct (inserted_rows (cy_flights y) @ cy_abandoned y)
     \<and> set (inserted_rows (cy_flights y) @ cy_abandoned y) \<subseteq> set (cs_redemptions (cy_store y))
     \<and> (\<forall>r \<in> set (cs_redemptions (cy_store y)). has_coupon y r)
     \<and> (\<forall>r. Checked r \<in> set (cy_flights y) \<longrightarrow> has_coupon y r)
     \<and> (\<forall>c \<in> set (cs_coupons (cy_store y)). cn_use_count c = int (length (confirmed_rows y c)))
     \<and> (\<forall>k r. (k, Inr (r, False)) \<in> set (cy_answers y) \<longrightarrow> confirmed y r)"

lemma coupons_soundD:
  assumes "coupons_sound y"
  shows "distinct (map cn_id (cs_coupons (cy_store y)))" "distinct (map rd_id (cs_redemptions (cy_store y)))"
    "distinct (map redemption_key (cs_redemptions (cy_store y)))" "distinct (inserted_rows (cy_flights y) @ cy_abandoned y)"
    "set (inserted_rows (cy_flights y) @ cy_abandoned y) \<subseteq> set (cs_redemptions (cy_store y))"
    "\<And>r. r \<in> set (cs_redemptions (cy_store y)) \<Longrightarrow> has_coupon y r"
    "\<And>r. Checked r \<in> set (cy_flights y) \<Longrightarrow> has_coupon y r"
    "\<And>c. c \<in> set (cs_coupons (cy_store y)) \<Longrightarrow> cn_use_count c = int (length (confirmed_rows y c))"
    "\<And>k r. (k, Inr (r, False)) \<in> set (cy_answers y) \<Longrightarrow> confirmed y r"
  using assms by (auto simp: coupons_sound_def)

lemma coupons_soundI:
  assumes "distinct (map cn_id (cs_coupons (cy_store y)))" "distinct (map rd_id (cs_redemptions (cy_store y)))"
    "distinct (map redemption_key (cs_redemptions (cy_store y)))" "distinct (inserted_rows (cy_flights y) @ cy_abandoned y)"
    "set (inserted_rows (cy_flights y) @ cy_abandoned y) \<subseteq> set (cs_redemptions (cy_store y))"
    "\<And>r. r \<in> set (cs_redemptions (cy_store y)) \<Longrightarrow> has_coupon y r"
    "\<And>r. Checked r \<in> set (cy_flights y) \<Longrightarrow> has_coupon y r"
    "\<And>c. c \<in> set (cs_coupons (cy_store y)) \<Longrightarrow> cn_use_count c = int (length (confirmed_rows y c))"
    "\<And>k r. (k, Inr (r, False)) \<in> set (cy_answers y) \<Longrightarrow> confirmed y r"
  shows "coupons_sound y"
  unfolding coupons_sound_def using assms by blast

lemma inserted_in_flight: "Inserted r \<in> set fs \<longleftrightarrow> r \<in> set (inserted_rows fs)"
  by (simp add: inserted_rows_set)

lemma checked_removed: "Checked x \<in> set (remove1 f fs) \<Longrightarrow> Checked x \<in> set fs"
  using set_remove1_subset by fastforce

text \<open>
  A step that leaves the rows, the rows in flight and the abandoned ones as they are, and every coupon with its
  key and count, keeps the invariant when its answers do.
\<close>

lemma coupons_sound_same:
  assumes "coupons_sound y"
    and "list_all2 (\<lambda>c c'. cn_id c' = cn_id c \<and> cn_tenant c' = cn_tenant c \<and> cn_use_count c' = cn_use_count c)
           (cs_coupons (cy_store y)) (cs_coupons (cy_store y'))"
    and "cs_redemptions (cy_store y') = cs_redemptions (cy_store y)"
    and "inserted_rows (cy_flights y') = inserted_rows (cy_flights y)" and "cy_abandoned y' = cy_abandoned y"
    and "\<And>r. Checked r \<in> set (cy_flights y') \<Longrightarrow> has_coupon y r"
    and "\<And>k r. (k, Inr (r, False)) \<in> set (cy_answers y') \<Longrightarrow> confirmed y r"
  shows "coupons_sound y'"
proof -
  note s = coupons_soundD [OF assms(1)]
  have f: "Inserted r \<in> set (cy_flights y') \<longleftrightarrow> Inserted r \<in> set (cy_flights y)" for r
    using assms(4) inserted_rows_set by (metis mem_Collect_eq)
  have c: "confirmed y' r \<longleftrightarrow> confirmed y r" for r by (simp add: confirmed_def assms(3,5) f)
  have ids: "map cn_id (cs_coupons (cy_store y')) = map cn_id (cs_coupons (cy_store y))"
    using assms(2) by (induction rule: list_all2_induct) auto
  have h: "has_coupon y' r" if hr: "has_coupon y r" for r
  proof -
    from hr obtain c where "c \<in> set (cs_coupons (cy_store y))" "row_of c r" by (auto simp: has_coupon_def)
    with assms(2) show ?thesis
      unfolding has_coupon_def by (induction rule: list_all2_induct) (auto simp: row_of_def)
  qed
  have "cn_use_count c' = int (length (confirmed_rows y' c'))" if m: "c' \<in> set (cs_coupons (cy_store y'))" for c'
  proof -
    obtain c where "c \<in> set (cs_coupons (cy_store y))" "cn_id c' = cn_id c" "cn_tenant c' = cn_tenant c"
        "cn_use_count c' = cn_use_count c"
      using list_all2_in_right [OF assms(2) m] by blast
    moreover from this have "confirmed_rows y' c' = confirmed_rows y c"
      by (simp add: confirmed_rows_def c assms(3) row_of_def)
    ultimately show ?thesis using s(8) by simp
  qed
  then show ?thesis using s h assms(6,7) by (simp add: coupons_sound_def c ids assms(3-5))
qed

section \<open>The phases\<close>

lemma insert_redemption_Inr:
  "insert_redemption r rs = Inr rs' \<longleftrightarrow>
     rs' = rs @ [r] \<and> rd_id r \<notin> rd_id ` set rs \<and> redemption_key r \<notin> redemption_key ` set rs"
  by (force simp: insert_redemption_def result_simps redemption_key_def image_iff)

lemma redeem_place_Placed:
  "redeem_place r rs = Inr (Placed r', rs') \<Longrightarrow>
     r' = r \<and> rs' = rs @ [r] \<and> rd_id r \<notin> rd_id ` set rs \<and> redemption_key r \<notin> redemption_key ` set rs"
  by (auto simp: redeem_place_def insert_redemption_Inr split: sum.splits if_splits option.splits)

lemma redeem_place_Replayed:
  "redeem_place r rs = Inr (Replayed q, rs') \<Longrightarrow> q \<in> set rs \<and> redemption_key q = redemption_key r \<and> rs' = rs"
  by (auto simp: redeem_place_def redemption_key_def split: sum.splits if_splits option.splits dest!: find_Some_iff_set)

text \<open>The condition of the increment, on the coupon the row names.\<close>

definition has_room :: "coupon \<Rightarrow> bool" where
  "has_room c \<longleftrightarrow> cn_status c = Coupon_Active \<and> (case cn_max_total c of None \<Rightarrow> True | Some m \<Rightarrow> cn_use_count c < m)"

lemma redeem_reserve_cases:
  assumes "redeem_reserve r st = (answer, st')" and "distinct (map cn_id (cs_coupons st))"
  obtains (Counted) c where "answer = Inr (r, False)" "c \<in> set (cs_coupons st)" "row_of c r" "has_room c"
      "st' = st\<lparr>cs_coupons := map (\<lambda>x. if x = c then x\<lparr>cn_use_count := cn_use_count x + 1\<rparr> else x) (cs_coupons st)\<rparr>"
    | (Refused) e where "answer = Inl e"
      "st' = st\<lparr>cs_redemptions := filter (\<lambda>x. rd_id x \<noteq> rd_id r) (cs_redemptions st)\<rparr>"
proof -
  let ?p = "\<lambda>c. cn_id c = rd_coupon r \<and> cn_tenant c = rd_tenant r \<and> cn_status c = Coupon_Active
      \<and> (case cn_max_total c of None \<Rightarrow> True | Some m \<Rightarrow> cn_use_count c < m)"
  let ?f = "\<lambda>c. c\<lparr>cn_use_count := cn_use_count c + 1\<rparr>"
  have p: "?p c \<longleftrightarrow> row_of c r \<and> has_room c" for c by (auto simp: row_of_def has_room_def)
  show thesis
  proof (cases "\<exists>c \<in> set (cs_coupons st). ?p c")
    case True
    then obtain c where c: "c \<in> set (cs_coupons st)" "?p c" by blast
    have one: "?p x \<longleftrightarrow> x = c" if "x \<in> set (cs_coupons st)" for x
      using distinct_map_same [OF assms(2) that c(1)] c(2) by auto
    have "filter ?p (cs_coupons st) = filter (\<lambda>x. cn_id x = cn_id c) (cs_coupons st)"
      by (rule filter_cong [OF refl]) (use one distinct_map_same [OF assms(2) _ c(1)] in auto)
    then have "length (filter ?p (cs_coupons st)) = 1" using filter_key_single [OF assms(2) c(1)] by simp
    then have "answer = Inr (r, False) \<and> st' = st\<lparr>cs_coupons := map (\<lambda>x. if ?p x then ?f x else x) (cs_coupons st)\<rparr>"
      using assms(1) by (auto simp: redeem_reserve_def update_many_def Let_def)
    moreover have "map (\<lambda>x. if ?p x then ?f x else x) (cs_coupons st) = map (\<lambda>x. if x = c then ?f x else x) (cs_coupons st)"
      by (rule list.map_cong0) (use one in simp)
    ultimately have "answer = Inr (r, False)"
        "st' = st\<lparr>cs_coupons := map (\<lambda>x. if x = c then ?f x else x) (cs_coupons st)\<rparr>"
      by (simp_all only: simp_thms)
    then show thesis using Counted [of c] c p by blast
  next
    case False
    then have "filter ?p (cs_coupons st) = []" by (auto simp: filter_empty_conv)
    then have z: "length (filter ?p (cs_coupons st)) = 0" by simp
    have "map (\<lambda>x. if ?p x then ?f x else x) (cs_coupons st) = cs_coupons st"
      by (rule map_idI) (use False in simp)
    then have "\<exists>e. answer = Inl e" "st' = st\<lparr>cs_redemptions := filter (\<lambda>x. rd_id x \<noteq> rd_id r) (cs_redemptions st)\<rparr>"
      using assms(1) z by (auto simp: redeem_reserve_def update_many_def Let_def split: option.splits)
    then show thesis using Refused by blast
  qed
qed

section \<open>Every step keeps the counts\<close>

lemma create_coupon_Inr:
  assumes "create_coupon tenant actor new_id dto st = Inr (c, st')"
  shows "st' = st\<lparr>cs_coupons := cs_coupons st @ [c]\<rparr> \<and> cn_use_count c = 0 \<and> cn_id c \<notin> cn_id ` set (cs_coupons st)"
  using assms
  by (auto simp: create_coupon_def Let_def repo_create_coupon_def as_conflict_Inr insert_coupon_def result_simps)

lemma update_coupon_Inr:
  assumes "update_coupon tenant i dto st = Inr (c, st')"
  shows "\<exists>cs. st' = st\<lparr>cs_coupons := cs\<rparr>
    \<and> list_all2 (\<lambda>c c'. cn_id c' = cn_id c \<and> cn_tenant c' = cn_tenant c \<and> cn_use_count c' = cn_use_count c) (cs_coupons st) cs"
proof -
  have "st' = st\<lparr>cs_coupons := map (\<lambda>c. if cn_id c = i \<and> cn_tenant c = tenant then patched_coupon dto c else c) (cs_coupons st)\<rparr>"
    using assms by (auto simp: update_coupon_def repo_update_coupon_def update_many_def result_simps)
  moreover have "list_all2 (\<lambda>c c'. cn_id c' = cn_id c \<and> cn_tenant c' = cn_tenant c \<and> cn_use_count c' = cn_use_count c)
      (cs_coupons st) (map (\<lambda>c. if cn_id c = i \<and> cn_tenant c = tenant then patched_coupon dto c else c) (cs_coupons st))"
    by (rule list_all2_map_id) (simp add: patched_coupon_def)
  ultimately show ?thesis by blast
qed

lemma redeem_check_Inr:
  "redeem_check tenant now dto st = Inr c \<Longrightarrow> c \<in> set (cs_coupons st) \<and> cn_tenant c = tenant"
  by (auto simp: redeem_check_def coupon_by_code_def result_simps dest: find_Some_iff_set)

lemma same_coupons:
  "list_all2 (\<lambda>c c'. cn_id c' = cn_id c \<and> cn_tenant c' = cn_tenant c \<and> cn_use_count c' = cn_use_count c) cs cs"
  by (rule list.rel_refl) simp

lemma sound_creates:
  assumes "coupons_sound y" and "create_coupon tenant actor new_id dto (cy_store y) = Inr (c, st)"
    and "cy_store y' = st" "cy_flights y' = cy_flights y" "cy_answers y' = cy_answers y" "cy_abandoned y' = cy_abandoned y"
  shows "coupons_sound y'"
proof -
  note s = coupons_soundD [OF assms(1)]
  have c: "cs_coupons (cy_store y') = cs_coupons (cy_store y) @ [c]" "cn_use_count c = 0"
      "cn_id c \<notin> cn_id ` set (cs_coupons (cy_store y))" "cs_redemptions (cy_store y') = cs_redemptions (cy_store y)"
    using create_coupon_Inr [OF assms(2)] assms(3) by auto
  have conf: "confirmed y' r \<longleftrightarrow> confirmed y r" for r by (simp add: confirmed_def c(4) assms(4,6))
  have rows: "confirmed_rows y' x = confirmed_rows y x" for x by (simp add: confirmed_rows_def conf c(4))
  have h: "has_coupon y' r" if "has_coupon y r" for r using that by (auto simp: has_coupon_def c(1))
  have "\<not> row_of c r" if r: "r \<in> set (cs_redemptions (cy_store y))" for r
  proof
    assume "row_of c r"
    moreover obtain d where "d \<in> set (cs_coupons (cy_store y))" "row_of d r" using s(6) [OF r] by (auto simp: has_coupon_def)
    ultimately show False using c(3) by (auto simp: row_of_def image_iff)
  qed
  then have z: "confirmed_rows y c = []" by (auto simp: confirmed_rows_def filter_empty_conv)
  show ?thesis
  proof (rule coupons_soundI)
    show "cn_use_count x = int (length (confirmed_rows y' x))" if "x \<in> set (cs_coupons (cy_store y'))" for x
      using that s(8) c(1,2) z by (auto simp: rows)
  qed (use s c h conf in \<open>auto simp: assms(4-6)\<close>)
qed

lemma sound_places:
  assumes "coupons_sound y" and "Checked r \<in> set (cy_flights y)"
    and "redeem_place r (cs_redemptions (cy_store y)) = Inr (Placed r, rs)"
    and y': "cs_coupons (cy_store y') = cs_coupons (cy_store y)" "cs_redemptions (cy_store y') = rs"
      "cy_flights y' = Inserted r # remove1 (Checked r) (cy_flights y)" "cy_answers y' = cy_answers y"
      "cy_abandoned y' = cy_abandoned y"
  shows "coupons_sound y'"
proof -
  note s = coupons_soundD [OF assms(1)]
  have r: "rs = cs_redemptions (cy_store y) @ [r]" "rd_id r \<notin> rd_id ` set (cs_redemptions (cy_store y))"
      "redemption_key r \<notin> redemption_key ` set (cs_redemptions (cy_store y))"
    using redeem_place_Placed [OF assms(3)] by auto
  have new: "r \<notin> set (cs_redemptions (cy_store y))" using r(2) by auto
  have fl: "Inserted x \<in> set (cy_flights y') \<longleftrightarrow> x = r \<or> Inserted x \<in> set (cy_flights y)" for x
    by (auto simp: inserted_in_flight y'(3))
  have conf: "confirmed y' x \<longleftrightarrow> confirmed y x" for x
    using new fl [of x] r(1) y' by (auto simp: confirmed_def)
  have nc: "\<not> confirmed y r" using new by (simp add: confirmed_def)
  have rows: "confirmed_rows y' c = confirmed_rows y c" for c
    by (simp add: confirmed_rows_def conf y'(2) r(1) nc)
  have h: "has_coupon y' x \<longleftrightarrow> has_coupon y x" for x by (simp add: has_coupon_def y'(1))
  have ab: "r \<notin> set (inserted_rows (cy_flights y) @ cy_abandoned y)" using s(5) new by blast
  show ?thesis
  proof (rule coupons_soundI)
    show "has_coupon y' x" if "Checked x \<in> set (cy_flights y')" for x
      using that s(7) checked_removed [of x "Checked r" "cy_flights y"] by (auto simp: y'(3) h)
    show "has_coupon y' x" if "x \<in> set (cs_redemptions (cy_store y'))" for x
      using that s(6) s(7) [OF assms(2)] by (auto simp: y'(2) r(1) h)
    show "distinct (map cn_id (cs_coupons (cy_store y')))" using s(1) by (simp add: y'(1))
    show "distinct (map rd_id (cs_redemptions (cy_store y')))" using s(2) r(2) by (simp add: y'(2) r(1))
    show "distinct (map redemption_key (cs_redemptions (cy_store y')))" using s(3) r(3) by (simp add: y'(2) r(1))
    show "distinct (inserted_rows (cy_flights y') @ cy_abandoned y')" using s(4) ab by (simp add: y'(3,5))
    show "set (inserted_rows (cy_flights y') @ cy_abandoned y') \<subseteq> set (cs_redemptions (cy_store y'))"
      using s(5) by (auto simp: y'(2,3,5) r(1))
    show "cn_use_count c = int (length (confirmed_rows y' c))" if "c \<in> set (cs_coupons (cy_store y'))" for c
      using s(8) that by (simp add: y'(1) rows)
    show "confirmed y' x" if "(k, Inr (x, False)) \<in> set (cy_answers y')" for k x
      using s(9) that by (simp add: y'(4) conf)
  qed
qed

lemma set_update_in: "c \<in> set xs \<Longrightarrow> d \<in> set xs \<Longrightarrow> (if d = c then f d else d) \<in> set (map (\<lambda>x. if x = c then f x else x) xs)"
  by simp

lemma filter_one_more:
  assumes "distinct xs" and "r \<in> set xs" and "\<not> P r"
  shows "length (filter (\<lambda>x. Q x \<and> (x = r \<or> P x)) xs) = length (filter (\<lambda>x. Q x \<and> P x) xs) + (if Q r then 1 else 0)"
  using assms
proof (induction xs)
  case (Cons x xs)
  show ?case
  proof (cases "x = r")
    case True
    have "filter (\<lambda>x. Q x \<and> (x = r \<or> P x)) xs = filter (\<lambda>x. Q x \<and> P x) xs"
      using Cons.prems(1) True by (intro filter_cong) auto
    then show ?thesis using True Cons.prems(3) by simp
  next
    case False
    then show ?thesis using Cons by simp
  qed
qed simp

lemma sound_counted:
  assumes "coupons_sound y" and "Inserted r \<in> set (cy_flights y)" and "c \<in> set (cs_coupons (cy_store y))" and "row_of c r"
    and y': "cs_coupons (cy_store y') = map (\<lambda>x. if x = c then x\<lparr>cn_use_count := cn_use_count x + 1\<rparr> else x) (cs_coupons (cy_store y))"
      "cs_redemptions (cy_store y') = cs_redemptions (cy_store y)" "cy_flights y' = remove1 (Inserted r) (cy_flights y)"
      "cy_answers y' = (k, Inr (r, False)) # cy_answers y" "cy_abandoned y' = cy_abandoned y"
  shows "coupons_sound y'"
proof -
  note s = coupons_soundD [OF assms(1)]
  let ?up = "\<lambda>x. x\<lparr>cn_use_count := cn_use_count x + 1\<rparr>"
  have ins: "r \<in> set (inserted_rows (cy_flights y))" using assms(2) by (simp add: inserted_rows_set)
  have rr: "r \<in> set (cs_redemptions (cy_store y))" "r \<notin> set (cy_abandoned y)" using ins s(4,5) by auto
  have fl: "Inserted x \<in> set (cy_flights y') \<longleftrightarrow> Inserted x \<in> set (cy_flights y) \<and> x \<noteq> r" for x
    using s(4) by (simp add: inserted_in_flight y'(3) set_remove1_eq)
  have conf: "confirmed y' x \<longleftrightarrow> x = r \<or> confirmed y x" for x
    using fl [of x] rr y' unfolding confirmed_def by auto
  have nc: "\<not> confirmed y r" using assms(2) by (simp add: confirmed_def)
  have ids: "map cn_id (cs_coupons (cy_store y')) = map cn_id (cs_coupons (cy_store y))"
    unfolding y'(1) by (rule map_key_update) simp
  have h: "has_coupon y' x" if hx: "has_coupon y x" for x
  proof -
    from hx obtain d where d: "d \<in> set (cs_coupons (cy_store y))" "row_of d x" by (auto simp: has_coupon_def)
    have "(if d = c then ?up d else d) \<in> set (cs_coupons (cy_store y'))"
      unfolding y'(1) by (rule set_update_in [OF assms(3) d(1)])
    moreover have "row_of (if d = c then ?up d else d) x" using d(2) by (simp add: row_of_def)
    ultimately show ?thesis unfolding has_coupon_def by blast
  qed
  have count: "length (confirmed_rows y' d) = length (confirmed_rows y d) + (if row_of d r then 1 else 0)" for d
    unfolding confirmed_rows_def conf y'(2)
    by (rule filter_one_more) (use s(2) rr(1) nc in \<open>auto simp: distinct_map\<close>)
  have other: "\<not> row_of d r" if "d \<in> set (cs_coupons (cy_store y))" "d \<noteq> c" for d
    using distinct_map_same [OF s(1) that(1) assms(3)] that(2) assms(4) by (auto simp: row_of_def)
  show ?thesis
  proof (rule coupons_soundI)
    fix x assume "x \<in> set (cs_coupons (cy_store y'))"
    then obtain d where d: "d \<in> set (cs_coupons (cy_store y))" "x = (if d = c then ?up d else d)" by (auto simp: y'(1))
    have "confirmed_rows y' x = confirmed_rows y' d" using d(2) by (simp add: confirmed_rows_def row_of_def)
    then show "cn_use_count x = int (length (confirmed_rows y' x))"
      using d s(8) [OF d(1)] count [of d] other [OF d(1)] assms(4) by (cases "d = c") simp_all
  next
    show "has_coupon y' x" if "Checked x \<in> set (cy_flights y')" for x
      using that s(7) [of x] h [of x] checked_removed [of x "Inserted r" "cy_flights y"] by (auto simp: y'(3))
    show "confirmed y' x" if "(k', Inr (x, False)) \<in> set (cy_answers y')" for k' x
      using that s(9) by (auto simp: y'(4) conf)
    show "set (inserted_rows (cy_flights y') @ cy_abandoned y') \<subseteq> set (cs_redemptions (cy_store y'))"
      using s(5) set_remove1_subset by (fastforce simp: y')
    show "distinct (map cn_id (cs_coupons (cy_store y')))" using s(1) by (simp only: ids)
    show "distinct (map rd_id (cs_redemptions (cy_store y')))" using s(2) by (simp add: y'(2))
    show "distinct (map redemption_key (cs_redemptions (cy_store y')))" using s(3) by (simp add: y'(2))
    show "distinct (inserted_rows (cy_flights y') @ cy_abandoned y')"
      using s(4) by (auto simp: y'(3,5) distinct_remove1 dest: set_remove1_subset [THEN subsetD])
    show "has_coupon y' x" if "x \<in> set (cs_redemptions (cy_store y'))" for x
      using s(6) that h by (simp add: y'(2))
  qed
qed

lemma filter_drop:
  assumes "\<And>x. x \<in> set xs \<Longrightarrow> P x \<Longrightarrow> Q x"
  shows "filter P (filter Q xs) = filter P xs"
  using assms by (induction xs) auto

lemma sound_refused:
  assumes "coupons_sound y" and "Inserted r \<in> set (cy_flights y)"
    and y': "cs_coupons (cy_store y') = cs_coupons (cy_store y)"
      "cs_redemptions (cy_store y') = filter (\<lambda>x. rd_id x \<noteq> rd_id r) (cs_redemptions (cy_store y))"
      "cy_flights y' = remove1 (Inserted r) (cy_flights y)"
      "cy_answers y' = (k, Inl e) # cy_answers y" "cy_abandoned y' = cy_abandoned y"
  shows "coupons_sound y'"
proof -
  note s = coupons_soundD [OF assms(1)]
  have ins: "r \<in> set (inserted_rows (cy_flights y))" using assms(2) by (simp add: inserted_rows_set)
  have rr: "r \<in> set (cs_redemptions (cy_store y))" "r \<notin> set (cy_abandoned y)" using ins s(4,5) by auto
  have same: "rd_id x \<noteq> rd_id r \<longleftrightarrow> x \<noteq> r" if "x \<in> set (cs_redemptions (cy_store y))" for x
    using distinct_map_same [OF s(2) that rr(1)] by auto
  have fl: "Inserted x \<in> set (cy_flights y') \<longleftrightarrow> Inserted x \<in> set (cy_flights y) \<and> x \<noteq> r" for x
    using s(4) by (simp add: inserted_in_flight y'(3) set_remove1_eq)
  have nc: "\<not> confirmed y r" using assms(2) by (simp add: confirmed_def)
  have conf: "confirmed y' x \<longleftrightarrow> confirmed y x" for x
    using fl [of x] same [of x] nc unfolding confirmed_def y'(2,5) by auto
  have rows: "confirmed_rows y' c = confirmed_rows y c" for c
    unfolding confirmed_rows_def conf y'(2) by (rule filter_drop) (use same nc in auto)
  have h: "has_coupon y' x \<longleftrightarrow> has_coupon y x" for x by (simp add: has_coupon_def y'(1))
  show ?thesis
  proof (rule coupons_soundI)
    show "distinct (map cn_id (cs_coupons (cy_store y')))" using s(1) by (simp add: y'(1))
    show "distinct (map rd_id (cs_redemptions (cy_store y')))" using s(2) by (simp add: y'(2) distinct_map_filter)
    show "distinct (map redemption_key (cs_redemptions (cy_store y')))" using s(3) by (simp add: y'(2) distinct_map_filter)
    show "distinct (inserted_rows (cy_flights y') @ cy_abandoned y')"
      using s(4) by (auto simp: y'(3,5) distinct_remove1 dest: set_remove1_subset [THEN subsetD])
    show "set (inserted_rows (cy_flights y') @ cy_abandoned y') \<subseteq> set (cs_redemptions (cy_store y'))"
    proof
      fix x assume "x \<in> set (inserted_rows (cy_flights y') @ cy_abandoned y')"
      then have "x \<in> set (inserted_rows (cy_flights y) @ cy_abandoned y)" "x \<noteq> r"
        using s(4) rr(2) by (auto simp: y'(3,5) set_remove1_eq)
      then show "x \<in> set (cs_redemptions (cy_store y'))" using s(5) same [of x] by (auto simp: y'(2))
    qed
    show "has_coupon y' x" if "x \<in> set (cs_redemptions (cy_store y'))" for x
      using s(6) that by (simp add: y'(2) h)
    show "has_coupon y' x" if "Checked x \<in> set (cy_flights y')" for x
      using that s(7) [of x] checked_removed [of x "Inserted r" "cy_flights y"] by (auto simp: y'(3) h)
    show "cn_use_count c = int (length (confirmed_rows y' c))" if "c \<in> set (cs_coupons (cy_store y'))" for c
      using s(8) that by (simp add: y'(1) rows)
    show "confirmed y' x" if "(k', Inr (x, False)) \<in> set (cy_answers y')" for k' x
      using s(9) that by (simp add: y'(4) conf)
  qed
qed

lemma sound_stops:
  assumes "coupons_sound y" and "Inserted r \<in> set (cy_flights y)"
    and y': "cy_store y' = cy_store y" "cy_flights y' = remove1 (Inserted r) (cy_flights y)"
      "cy_answers y' = cy_answers y" "cy_abandoned y' = r # cy_abandoned y"
  shows "coupons_sound y'"
proof -
  note s = coupons_soundD [OF assms(1)]
  have ins: "r \<in> set (inserted_rows (cy_flights y))" using assms(2) by (simp add: inserted_rows_set)
  have fl: "Inserted x \<in> set (cy_flights y') \<longleftrightarrow> Inserted x \<in> set (cy_flights y) \<and> x \<noteq> r" for x
    using s(4) by (simp add: inserted_in_flight y'(2) set_remove1_eq)
  have conf: "confirmed y' x \<longleftrightarrow> confirmed y x" for x
    using fl [of x] assms(2) unfolding confirmed_def y'(1,4) by auto
  have rows: "confirmed_rows y' c = confirmed_rows y c" for c by (simp add: confirmed_rows_def conf y'(1))
  have h: "has_coupon y' x \<longleftrightarrow> has_coupon y x" for x by (simp add: has_coupon_def y'(1))
  show ?thesis
  proof (rule coupons_soundI)
    show "distinct (inserted_rows (cy_flights y') @ cy_abandoned y')"
      using s(4) ins by (auto simp: y'(2,4) set_remove1_eq distinct_remove1)
    show "set (inserted_rows (cy_flights y') @ cy_abandoned y') \<subseteq> set (cs_redemptions (cy_store y'))"
      using s(4,5) ins by (auto simp: y' set_remove1_eq)
    show "has_coupon y' x" if "Checked x \<in> set (cy_flights y')" for x
      using that s(7) [of x] checked_removed [of x "Inserted r" "cy_flights y"] by (auto simp: y'(2) h)
  qed (use s in \<open>simp_all add: y'(1,3) h rows conf\<close>)
qed

lemma coupon_step_sound:
  assumes "coupon_step y y'" and "coupons_sound y"
  shows "coupons_sound y'"
  using assms(1)
proof cases
  case (Creates tenant actor new_id dto c st)
  then show ?thesis using sound_creates [OF assms(2) Creates(2)] by simp
next
  case (Updates tenant i dto c st)
  then show ?thesis using update_coupon_Inr [OF Updates(2)] coupons_soundD [OF assms(2)]
    by (auto intro!: coupons_sound_same [OF assms(2)])
next
  case (Promotes ps ws)
  show ?thesis unfolding Promotes(1)
    by (rule coupons_sound_same [OF assms(2)]) (simp_all add: same_coupons coupons_soundD [OF assms(2)])
next
  case (Checks tenant now dto c actor key new_id)
  have "has_coupon y (redemption_row tenant actor key new_id dto c)"
    using redeem_check_Inr [OF Checks(2)] by (auto simp: has_coupon_def row_of_def redemption_row_def)
  then show ?thesis unfolding Checks(1)
    by (intro coupons_sound_same [OF assms(2)]) (auto simp: same_coupons dest: coupons_soundD(7,9) [OF assms(2)])
next
  case (Places r rs)
  then show ?thesis using sound_places [OF assms(2) Places(2,3)] by simp
next
  case (Replays r q rs)
  show ?thesis unfolding Replays(1)
    by (rule coupons_sound_same [OF assms(2)]) (auto simp: same_coupons dest: coupons_soundD(7,9) [OF assms(2)] checked_removed)
next
  case (Fails r e)
  show ?thesis unfolding Fails(1)
    by (rule coupons_sound_same [OF assms(2)]) (auto simp: same_coupons dest: coupons_soundD(7,9) [OF assms(2)] checked_removed)
next
  case (Reserves r answer st)
  from Reserves(3) coupons_soundD(1) [OF assms(2)] show ?thesis
  proof (cases rule: redeem_reserve_cases)
    case (Counted c)
    then show ?thesis using sound_counted [OF assms(2) Reserves(2) Counted(2,3)] Reserves(1) by simp
  next
    case (Refused e)
    then show ?thesis using sound_refused [OF assms(2) Reserves(2)] Reserves(1) by simp
  qed
next
  case (Stops r)
  then show ?thesis using sound_stops [OF assms(2) Stops(2)] by simp
qed

section \<open>The cap in force\<close>

lemma coupon_step_cap:
  assumes "coupon_step y y'" and "coupons_sound y" and k: "k < length (cs_coupons (cy_store y))"
  shows "cn_use_count (cs_coupons (cy_store y') ! k) = cn_use_count (cs_coupons (cy_store y) ! k)
    \<or> (has_room (cs_coupons (cy_store y) ! k)
       \<and> cn_use_count (cs_coupons (cy_store y') ! k) = cn_use_count (cs_coupons (cy_store y) ! k) + 1)"
  using assms(1)
proof cases
  case (Creates tenant actor new_id dto c st)
  then show ?thesis using create_coupon_Inr [OF Creates(2)] k by (simp add: nth_append)
next
  case (Updates tenant i dto c st)
  then show ?thesis using update_coupon_Inr [OF Updates(2)] k by (auto simp: list_all2_conv_all_nth)
next
  case (Reserves r answer st)
  from Reserves(3) coupons_soundD(1) [OF assms(2)] show ?thesis
  proof (cases rule: redeem_reserve_cases)
    case (Counted c)
    then show ?thesis using Reserves(1) k by auto
  next
    case (Refused e)
    then show ?thesis using Reserves(1) by simp
  qed
qed simp_all

definition fresh_coupons :: "coupon_system \<Rightarrow> bool" where
  "fresh_coupons y \<longleftrightarrow> cs_coupons (cy_store y) = [] \<and> cs_redemptions (cy_store y) = [] \<and> cy_flights y = []
     \<and> cy_answers y = [] \<and> cy_abandoned y = []"

lemma coupon_run_sound: "coupon_step\<^sup>*\<^sup>* y y' \<Longrightarrow> coupons_sound y \<Longrightarrow> coupons_sound y'"
  by (induction rule: rtranclp_induct) (auto intro: coupon_step_sound)

lemma fresh_sound: "fresh_coupons y \<Longrightarrow> coupons_sound y"
  by (simp add: fresh_coupons_def coupons_sound_def)

text \<open>C13: Uses of a coupon are counted, under every interleaving of redemptions, administration and processes that
  stop half way. The counter of each coupon is the number of its confirmed rows, those that are
  neither still waiting to be counted nor left behind; a redemption key has at most one row; a redemption that was answered as
  a new use keeps its row and its place in the count; and no step raises a counter except by one, on an
  active coupon with room under the cap then in force.\<close>
theorem coupon_uses_counted:
  assumes "coupon_step\<^sup>*\<^sup>* y0 y" and "fresh_coupons y0"
  shows "(\<forall>c \<in> set (cs_coupons (cy_store y)). cn_use_count c = int (length (confirmed_rows y c)))
    \<and> distinct (map redemption_key (cs_redemptions (cy_store y)))
    \<and> (\<forall>k r. (k, Inr (r, False)) \<in> set (cy_answers y) \<longrightarrow> confirmed y r)
    \<and> (\<forall>y' k. coupon_step y y' \<and> k < length (cs_coupons (cy_store y)) \<longrightarrow>
         cn_use_count (cs_coupons (cy_store y') ! k) = cn_use_count (cs_coupons (cy_store y) ! k)
         \<or> (has_room (cs_coupons (cy_store y) ! k)
            \<and> cn_use_count (cs_coupons (cy_store y') ! k) = cn_use_count (cs_coupons (cy_store y) ! k) + 1))"
proof -
  have s: "coupons_sound y" by (rule coupon_run_sound [OF assms(1) fresh_sound [OF assms(2)]])
  show ?thesis using coupons_soundD(3,8,9) [OF s] coupon_step_cap [OF _ s] by blast
qed

lemma answers_kept: "coupon_step\<^sup>*\<^sup>* y y' \<Longrightarrow> set (cy_answers y) \<subseteq> set (cy_answers y')"
proof (induction rule: rtranclp_induct)
  case (step y z)
  from step.hyps(2) have "set (cy_answers y) \<subseteq> set (cy_answers z)" by cases auto
  then show ?case using step.IH by blast
qed simp

section \<open>What a coupon stays\<close>

text \<open>What no request changes of a coupon once it is made.\<close>

definition coupon_kept :: "coupon \<Rightarrow> coupon \<Rightarrow> bool" where
  "coupon_kept c c' \<longleftrightarrow> cn_id c' = cn_id c \<and> cn_tenant c' = cn_tenant c \<and> cn_code c' = cn_code c \<and> cn_type c' = cn_type c
     \<and> cn_customer c' = cn_customer c \<and> cn_promotion c' = cn_promotion c"

lemma coupon_kept_refl: "coupon_kept c c"
  by (simp add: coupon_kept_def)

lemma coupon_kept_trans: "coupon_kept a b \<Longrightarrow> coupon_kept b c \<Longrightarrow> coupon_kept a c"
  by (simp add: coupon_kept_def)

lemma update_coupon_kept:
  "update_coupon tenant i dto st = Inr (c, st') \<Longrightarrow> list_all2 coupon_kept (cs_coupons st) (cs_coupons st')"
  by (auto simp: update_coupon_def repo_update_coupon_def update_many_def result_simps patched_coupon_def coupon_kept_def
      intro!: list_all2_map_id)

lemma redeem_reserve_kept:
  assumes "redeem_reserve r st = (answer, st')"
  shows "list_all2 coupon_kept (cs_coupons st) (cs_coupons st')"
proof -
  have "cs_coupons st' = snd (update_many (\<lambda>c. cn_id c = rd_coupon r \<and> cn_tenant c = rd_tenant r \<and> cn_status c = Coupon_Active
      \<and> (case cn_max_total c of None \<Rightarrow> True | Some m \<Rightarrow> cn_use_count c < m)) (\<lambda>c. c\<lparr>cn_use_count := cn_use_count c + 1\<rparr>) (cs_coupons st))"
    using assms by (auto simp: redeem_reserve_def Let_def split: prod.splits if_splits option.splits)
  then show ?thesis unfolding update_many_def snd_conv by (auto simp: coupon_kept_def intro: list_all2_map_id)
qed

lemma coupon_step_coupons:
  assumes "coupon_step y y'"
  shows "\<exists>old new. cs_coupons (cy_store y') = old @ new \<and> list_all2 coupon_kept (cs_coupons (cy_store y)) old"
proof -
  have same: "list_all2 coupon_kept cs cs" for cs by (rule list.rel_refl) (rule coupon_kept_refl)
  have whole: ?thesis if "list_all2 coupon_kept (cs_coupons (cy_store y)) (cs_coupons (cy_store y'))"
    using that by (intro exI [of _ "cs_coupons (cy_store y')"] exI [of _ "[]"]) simp
  from assms show ?thesis
  proof cases
    case (Creates tenant actor new_id dto c st)
    then show ?thesis using create_coupon_Inr [OF Creates(2)] same
      by (intro exI [of _ "cs_coupons (cy_store y)"] exI [of _ "[c]"]) simp
  next
    case (Updates tenant i dto c st)
    then show ?thesis using update_coupon_kept [OF Updates(2)] whole by simp
  next
    case (Reserves r answer st)
    then show ?thesis using redeem_reserve_kept [OF Reserves(3)] whole by simp
  qed (use whole same in simp_all)
qed

lemma find_kept:
  assumes "list_all2 R xs ys" and "find P xs = Some x" and "\<And>a b. R a b \<Longrightarrow> P b = P a"
  shows "\<exists>y. find P (ys @ zs) = Some y \<and> R x y"
  using assms by (induction rule: list_all2_induct) (auto split: if_splits)

lemma coupon_run_code:
  assumes "coupon_step\<^sup>*\<^sup>* y y'" and "coupon_by_code tenant code (cs_coupons (cy_store y)) = Some c"
  shows "\<exists>c'. coupon_by_code tenant code (cs_coupons (cy_store y')) = Some c' \<and> coupon_kept c c'"
  using assms
proof (induction rule: rtranclp_induct)
  case base
  then show ?case using coupon_kept_refl by blast
next
  case (step y z)
  then obtain c' where c': "coupon_by_code tenant code (cs_coupons (cy_store y)) = Some c'" "coupon_kept c c'" by blast
  obtain old new where z: "cs_coupons (cy_store z) = old @ new" "list_all2 coupon_kept (cs_coupons (cy_store y)) old"
    using coupon_step_coupons [OF step.hyps(2)] by blast
  obtain d where "find (\<lambda>c. cn_tenant c = tenant \<and> cn_code c = normalize_coupon_code code) (old @ new) = Some d" "coupon_kept c' d"
    using find_kept [OF z(2) c'(1) [unfolded coupon_by_code_def], of new] by (auto simp: coupon_kept_def)
  then show ?case using z(1) coupon_kept_trans [OF c'(2)] by (auto simp: coupon_by_code_def)
qed

text \<open>The promotion of a coupon stays too.\<close>

lemma coupon_run_promotion:
  assumes "coupon_step\<^sup>*\<^sup>* y y'" and "promotion_in_tenant tenant i (cs_promotions (cy_store y)) = Inr p"
  shows "\<exists>p'. promotion_in_tenant tenant i (cs_promotions (cy_store y')) = Inr p'"
  using assms
proof (induction rule: rtranclp_induct)
  case (step y z)
  then obtain q where q: "promotion_in_tenant tenant i (cs_promotions (cy_store y)) = Inr q" by blast
  from step.hyps(2) show ?case
  proof cases
    case (Creates tenant' actor new_id dto c st)
    then show ?thesis using create_coupon_Inr [OF Creates(2)] q by auto
  next
    case (Updates tenant' i' dto c st)
    then show ?thesis using update_coupon_Inr [OF Updates(2)] q by auto
  next
    case (Promotes ps ws)
    then show ?thesis using race_promotion_stays [OF Promotes(2)] q by simp
  next
    case (Reserves r answer st)
    then have "cs_promotions st = cs_promotions (cy_store y)"
      by (auto simp: redeem_reserve_def update_many_def Let_def split: if_splits option.splits)
    then show ?thesis using Reserves(1) q by simp
  qed (use q in auto)
qed blast

section \<open>Trying again\<close>

lemma find_same_key:
  assumes "distinct (map redemption_key rs)" and "r \<in> set rs" and "redemption_key r = (t, c, k)"
  shows "find (\<lambda>x. rd_tenant x = t \<and> rd_coupon x = c \<and> rd_key x = k) rs = Some r"
proof -
  let ?p = "\<lambda>x. rd_tenant x = t \<and> rd_coupon x = c \<and> rd_key x = k"
  have p: "?p r" using assms(3) by (simp add: redemption_key_def)
  then obtain x where x: "find ?p rs = Some x" using assms(2) by (cases "find ?p rs") (auto simp: find_None_set)
  have "redemption_key x = redemption_key r" using find_Some_iff_set [OF x] assms(3) by (simp add: redemption_key_def)
  then show ?thesis using distinct_map_same [OF assms(1) _ assms(2)] find_Some_iff_set [OF x] x by auto
qed

text \<open>A key that has its row: whatever else happened, placing it again finds that row.\<close>

lemma redeem_place_again:
  assumes "coupons_sound y" and "r \<in> set (cs_redemptions (cy_store y))" and "redemption_key q = redemption_key r"
  shows "redeem_place q (cs_redemptions (cy_store y)) = Inr (Replayed r, cs_redemptions (cy_store y))"
proof -
  let ?rs = "cs_redemptions (cy_store y)"
  have k: "rd_tenant r = rd_tenant q" "rd_coupon r = rd_coupon q" "rd_key r = rd_key q"
    using assms(3) by (simp_all add: redemption_key_def)
  then have "insert_redemption q ?rs = Inl unique_violation" using assms(2) by (auto simp: insert_redemption_def throw_if_def)
  moreover have "find (\<lambda>x. rd_tenant x = rd_tenant q \<and> rd_coupon x = rd_coupon q \<and> rd_key x = rd_key q) ?rs = Some r"
    by (rule find_same_key [OF coupons_soundD(3) [OF assms(1)] assms(2)]) (simp add: redemption_key_def k)
  ultimately show ?thesis by (simp add: redeem_place_def)
qed

text \<open>What may refuse a request whose code, type and customer were right when it was first sent.\<close>

definition coupon_closed :: "int \<Rightarrow> coupon \<Rightarrow> promotion \<Rightarrow> bool" where
  "coupon_closed now c p \<longleftrightarrow> cn_status c \<noteq> Coupon_Active \<or> (case cn_expires_at c of None \<Rightarrow> False | Some t \<Rightarrow> t < now)
     \<or> pm_status p \<noteq> Promo_Active"

definition customer_capped :: "redeem_dto \<Rightarrow> coupon \<Rightarrow> redemption list \<Rightarrow> bool" where
  "customer_capped dto c rs \<longleftrightarrow> truthy (re_customer dto)
     \<and> (case cn_max_per_customer c of None \<Rightarrow> False
        | Some m \<Rightarrow> m \<noteq> 0 \<and> m \<le> int (redemptions_of_customer (cn_tenant c) (cn_id c) (the (re_customer dto)) rs))"

lemma redeem_check_again:
  assumes "coupon_by_code tenant (re_code dto) (cs_coupons st) = Some c"
    and "promotion_in_tenant tenant (cn_promotion c) (cs_promotions st) = Inr p"
    and "\<not> (cn_type c = Customer_Bound \<and> (\<not> truthy (re_customer dto) \<or> re_customer dto \<noteq> cn_customer c))"
  shows "redeem_check tenant now dto st =
    (if coupon_closed now c p then Inl coupon_invalid
     else if customer_capped dto c (cs_redemptions st) then Inl coupon_limit else Inr c)"
proof -
  have t: "cn_tenant c = tenant" using assms(1) by (auto simp: coupon_by_code_def dest: find_Some_iff_set)
  consider (shut) "coupon_closed now c p" | (usable) "\<not> coupon_closed now c p" by blast
  then show ?thesis
  proof cases
    case shut
    then show ?thesis using assms(2,3)
      by (auto simp: redeem_check_def assms(1) throw_if_def coupon_closed_def split: option.splits)
  next
    case usable
    then have "cn_status c = Coupon_Active" "\<not> (case cn_expires_at c of None \<Rightarrow> False | Some t \<Rightarrow> t < now)" "pm_status p = Promo_Active"
      by (auto simp: coupon_closed_def)
    then show ?thesis using assms(2,3) usable t
      by (cases "cn_max_per_customer c") (auto simp: redeem_check_def assms(1) throw_if_def customer_capped_def)
  qed
qed

text \<open>C14: A redemption that is repeated. A request passed its checks and was answered as a new use; however other requests
  overlap with it and whatever is served afterwards, sending it again writes nothing and counts nothing. The answer is
  the first redemption, marked as a replay, while the coupon is active and not expired and its promotion is active;
  once the coupon is disabled or expired or the promotion is paused or ended, the retry is refused as invalid, and when
  the customer's redemptions, the repeated one among them, reach the coupon's cap per customer it is refused as over the
  limit. A retry whose insert is reached later than its checks finds the first redemption all the same.\<close>
theorem coupon_retry:
  assumes "coupon_step\<^sup>*\<^sup>* y0 y1" and "fresh_coupons y0"
    and "redeem_check tenant now dto (cy_store y1) = Inr c" and "r = redemption_row tenant actor key i dto c"
    and "coupon_step\<^sup>*\<^sup>* y1 y2" and "(key, Inr (r, False)) \<in> set (cy_answers y2)"
    and "coupon_step\<^sup>*\<^sup>* y2 y3"
  shows "(\<exists>c' p. coupon_by_code tenant (re_code dto) (cs_coupons (cy_store y3)) = Some c' \<and> coupon_kept c c'
       \<and> promotion_in_tenant tenant (cn_promotion c) (cs_promotions (cy_store y3)) = Inr p
       \<and> redeem_coupon tenant actor' key i' now' dto (cy_store y3) =
           (if coupon_closed now' c' p then Inl coupon_invalid
            else if customer_capped dto c' (cs_redemptions (cy_store y3)) then Inl coupon_limit
            else Inr (r, True), cy_store y3))
    \<and> (\<forall>q. redemption_key q = redemption_key r \<longrightarrow>
         redeem_place q (cs_redemptions (cy_store y3)) = Inr (Replayed r, cs_redemptions (cy_store y3)))"
proof -
  have s2: "coupons_sound y2"
    by (rule coupon_run_sound [OF rtranclp_trans [OF assms(1,5)] fresh_sound [OF assms(2)]])
  have s3: "coupons_sound y3" by (rule coupon_run_sound [OF assms(7) s2])
  have "(key, Inr (r, False)) \<in> set (cy_answers y3)" using answers_kept [OF assms(7)] assms(6) by blast
  then have r: "r \<in> set (cs_redemptions (cy_store y3))" using coupons_soundD(9) [OF s3] by (auto simp: confirmed_def)
  note again = redeem_place_again [OF s3 r]
  have run: "coupon_step\<^sup>*\<^sup>* y1 y3" using assms(5,7) by (rule rtranclp_trans)
  obtain p0 where chk: "coupon_by_code tenant (re_code dto) (cs_coupons (cy_store y1)) = Some c"
      "\<not> (cn_type c = Customer_Bound \<and> (\<not> truthy (re_customer dto) \<or> re_customer dto \<noteq> cn_customer c))"
      "promotion_in_tenant tenant (cn_promotion c) (cs_promotions (cy_store y1)) = Inr p0"
    using assms(3) by (auto simp: redeem_check_def result_simps)
  obtain c' where c': "coupon_by_code tenant (re_code dto) (cs_coupons (cy_store y3)) = Some c'" "coupon_kept c c'"
    using coupon_run_code [OF run chk(1)] by blast
  obtain p where p: "promotion_in_tenant tenant (cn_promotion c) (cs_promotions (cy_store y3)) = Inr p"
    using coupon_run_promotion [OF run chk(3)] by blast
  have "promotion_in_tenant tenant (cn_promotion c') (cs_promotions (cy_store y3)) = Inr p"
    "\<not> (cn_type c' = Customer_Bound \<and> (\<not> truthy (re_customer dto) \<or> re_customer dto \<noteq> cn_customer c'))"
    using p chk(2) c'(2) by (auto simp: coupon_kept_def)
  note check = redeem_check_again [OF c'(1) this]
  have k: "redemption_key (redemption_row tenant actor' key i' dto c') = redemption_key r"
    using c'(2) by (simp add: assms(4) redemption_row_def redemption_key_def coupon_kept_def)
  have "repo_redeem (redemption_row tenant actor' key i' dto c') (cy_store y3) = (Inr (r, True), cy_store y3)"
    by (simp add: repo_redeem_def again [OF k])
  then have "redeem_coupon tenant actor' key i' now' dto (cy_store y3) =
      (if coupon_closed now' c' p then Inl coupon_invalid
       else if customer_capped dto c' (cs_redemptions (cy_store y3)) then Inl coupon_limit
       else Inr (r, True), cy_store y3)"
    by (simp add: redeem_coupon_def check)
  then show ?thesis using c' p again by blast
qed

section \<open>What the counting does not cover\<close>

definition live_promotion :: promotion where
  "live_promotion = rewritten_promotion"

definition one_use :: create_coupon_dto where
  "one_use = \<lparr>cc_promotion = ''p'', cc_code = ''once'', cc_type = Some Single_Use, cc_customer = None, cc_max_total = Left_Out,
     cc_max_per_customer = Some 1, cc_expires_at = None\<rparr>"

definition one_use_coupon :: "int option \<Rightarrow> int \<Rightarrow> coupon" where
  "one_use_coupon cap uses = \<lparr>cn_id = ''c'', cn_tenant = ''t'', cn_promotion = ''p'', cn_code = ''ONCE'', cn_display = ''once'',
     cn_type = Single_Use, cn_status = Coupon_Active, cn_customer = None, cn_max_total = cap, cn_max_per_customer = Some 1,
     cn_use_count = uses, cn_expires_at = None, cn_created_by = Some ''a''\<rparr>"

definition coupon_shop :: "coupon list \<Rightarrow> redemption list \<Rightarrow> coupon_store" where
  "coupon_shop cs rs = \<lparr>cs_promotions = [live_promotion], cs_coupons = cs, cs_redemptions = rs\<rparr>"

definition use_once :: "string option \<Rightarrow> redeem_dto" where
  "use_once customer = \<lparr>re_code = ''once'', re_customer = customer, re_amount = None\<rparr>"

definition use_row :: "string \<Rightarrow> string \<Rightarrow> string option \<Rightarrow> redemption" where
  "use_row i key customer = \<lparr>rd_id = i, rd_tenant = ''t'', rd_coupon = ''c'', rd_key = key, rd_customer = customer,
     rd_amount = None, rd_by = Some ''a''\<rparr>"

lemma once_normal: "normalize_coupon_code ''once'' = ''ONCE''" "trim ''once'' = ''once''"
  by code_simp+

lemma live_promotion_found: "promotion_in_tenant ''t'' ''p'' [live_promotion] = Inr live_promotion"
    "pm_status live_promotion = Promo_Active"
  by (simp_all add: promotion_in_tenant_def find_promotion_def live_promotion_def rewritten_promotion_def sample_promotion_def)

lemma one_use_created:
  "create_coupon ''t'' ''a'' ''c'' one_use (coupon_shop [] []) = Inr (one_use_coupon (Some 1) 0, coupon_shop [one_use_coupon (Some 1) 0] [])"
  by (simp add: create_coupon_def coupon_shop_def one_use_def one_use_coupon_def live_promotion_found once_normal given_def
      repo_create_coupon_def insert_coupon_def)

lemma one_use_check:
  "redeem_check ''t'' now (use_once customer) (coupon_shop [one_use_coupon cap uses] rs) =
     (if truthy customer \<and> redemptions_of_customer ''t'' ''c'' (the customer) rs \<noteq> 0 then Inl coupon_limit
      else Inr (one_use_coupon cap uses))"
  by (auto simp: redeem_check_def coupon_by_code_def coupon_shop_def one_use_coupon_def use_once_def once_normal
      live_promotion_found throw_if_def)

lemma use_row_of: "redemption_row ''t'' ''a'' key i (use_once customer) (one_use_coupon cap uses) = use_row i key customer"
  by (simp add: redemption_row_def use_once_def one_use_coupon_def use_row_def)

definition shop_system :: "coupon list \<Rightarrow> redemption list \<Rightarrow> in_flight list \<Rightarrow> (string \<times> (redemption \<times> bool) result) list
     \<Rightarrow> coupon_system" where
  "shop_system cs rs fs as =
     \<lparr>cy_store = coupon_shop cs rs, cy_flights = fs, cy_answers = as, cy_abandoned = [], cy_reviews = []\<rparr>"

text \<open>A coupon is made, and its only use is redeemed: the three phases of one request.\<close>

lemma use_checked: "redeem_check ''t'' now (use_once u) (coupon_shop [one_use_coupon (Some 1) 0] []) = Inr (one_use_coupon (Some 1) 0)"
  by (simp add: one_use_check redemptions_of_customer_def)

lemma shop_made: "coupon_step (shop_system [] [] [] []) (shop_system [one_use_coupon (Some 1) 0] [] [] [])"
proof -
  have "coupon_step (shop_system [] [] [] []) ((shop_system [] [] [] [])\<lparr>cy_store := coupon_shop [one_use_coupon (Some 1) 0] []\<rparr>)"
    by (rule coupon_step.Creates [where tenant = "''t''" and actor = "''a''" and new_id = "''c''" and dto = one_use])
      (simp add: one_use_created shop_system_def)
  then show ?thesis by (simp add: shop_system_def)
qed

lemma shop_used:
  "coupon_step\<^sup>*\<^sup>* (shop_system [one_use_coupon (Some 1) 0] [] [] [])
     (shop_system [one_use_coupon (Some 1) 1] [use_row ''r1'' ''k'' u] [] [(''k'', Inr (use_row ''r1'' ''k'' u, False))])"
proof -
  let ?r = "use_row ''r1'' ''k'' u"
  let ?y0 = "shop_system [one_use_coupon (Some 1) 0] [] [] []"
  let ?y1 = "shop_system [one_use_coupon (Some 1) 0] [] [Checked ?r] []"
  let ?y2 = "shop_system [one_use_coupon (Some 1) 0] [?r] [Inserted ?r] []"
  have "coupon_step ?y0 (?y0\<lparr>cy_flights := Checked (redemption_row ''t'' ''a'' ''k'' ''r1'' (use_once u) (one_use_coupon (Some 1) 0))
      # cy_flights ?y0\<rparr>)"
    by (rule coupon_step.Checks [where now = 0]) (simp add: use_checked shop_system_def)
  then have s1: "coupon_step ?y0 ?y1" by (simp add: shop_system_def use_row_of)
  have "redeem_place ?r [] = Inr (Placed ?r, [?r])" by (simp add: redeem_place_def insert_redemption_def)
  then have "coupon_step ?y1 (?y1\<lparr>cy_store := (cy_store ?y1)\<lparr>cs_redemptions := [?r]\<rparr>,
      cy_flights := Inserted ?r # remove1 (Checked ?r) (cy_flights ?y1)\<rparr>)"
    by (intro coupon_step.Places) (simp_all add: shop_system_def coupon_shop_def)
  then have s2: "coupon_step ?y1 ?y2" by (simp add: shop_system_def coupon_shop_def)
  have "redeem_reserve ?r (cy_store ?y2) = (Inr (?r, False), coupon_shop [one_use_coupon (Some 1) 1] [?r])"
    by (simp add: redeem_reserve_def update_many_def shop_system_def coupon_shop_def one_use_coupon_def use_row_def)
  then have "coupon_step ?y2 (?y2\<lparr>cy_store := coupon_shop [one_use_coupon (Some 1) 1] [?r],
      cy_flights := remove1 (Inserted ?r) (cy_flights ?y2), cy_answers := (rd_key ?r, Inr (?r, False)) # cy_answers ?y2\<rparr>)"
    by (intro coupon_step.Reserves) (simp_all add: shop_system_def)
  then have s3: "coupon_step ?y2 (shop_system [one_use_coupon (Some 1) 1] [?r] [] [(''k'', Inr (?r, False))])"
    by (simp add: shop_system_def use_row_def)
  note c = converse_rtranclp_into_rtranclp [of coupon_step]
  show ?thesis by (rule c [OF s1 c [OF s2 c [OF s3 rtranclp.rtrancl_refl]]])
qed

lemma shop_fresh: "fresh_coupons (shop_system [] [] [] [])"
  by (simp add: fresh_coupons_def shop_system_def coupon_shop_def)

lemma coupon_retry_witness:
  "redeem_coupon ''t'' ''a'' ''k'' ''r2'' 5 (use_once None) (coupon_shop [one_use_coupon (Some 1) 1] [use_row ''r1'' ''k'' None])
     = (Inr (use_row ''r1'' ''k'' None, True), coupon_shop [one_use_coupon (Some 1) 1] [use_row ''r1'' ''k'' None])
   \<and> redeem_coupon ''t'' ''a'' ''k'' ''r2'' 5 (use_once (Some ''u'')) (coupon_shop [one_use_coupon (Some 1) 1] [use_row ''r1'' ''k'' (Some ''u'')])
     = (Inl coupon_limit, coupon_shop [one_use_coupon (Some 1) 1] [use_row ''r1'' ''k'' (Some ''u'')])"
proof -
  let ?st = "\<lambda>u. coupon_shop [one_use_coupon (Some 1) 1] [use_row ''r1'' ''k'' u]"
  have r: "use_row ''r1'' ''k'' u = redemption_row ''t'' ''a'' ''k'' ''r1'' (use_once u) (one_use_coupon (Some 1) 0)" for u
    by (simp add: use_row_of)
  have chk: "redeem_check ''t'' 0 (use_once u) (cy_store (shop_system [one_use_coupon (Some 1) 0] [] [] [])) = Inr (one_use_coupon (Some 1) 0)" for u
    by (simp add: shop_system_def use_checked)
  have ans: "(''k'', Inr (use_row ''r1'' ''k'' u, False))
      \<in> set (cy_answers (shop_system [one_use_coupon (Some 1) 1] [use_row ''r1'' ''k'' u] [] [(''k'', Inr (use_row ''r1'' ''k'' u, False))]))" for u
    by (simp add: shop_system_def)
  note t = coupon_retry [OF r_into_rtranclp [of coupon_step, OF shop_made] shop_fresh chk r shop_used ans rtranclp.rtrancl_refl]
  have code: "coupon_by_code ''t'' (re_code (use_once u)) [one_use_coupon (Some 1) 1] = Some (one_use_coupon (Some 1) 1)" for u
    by (simp add: coupon_by_code_def use_once_def once_normal one_use_coupon_def)
  have prom: "promotion_in_tenant ''t'' (cn_promotion (one_use_coupon (Some 1) 0)) [live_promotion] = Inr live_promotion"
    by (simp add: one_use_coupon_def live_promotion_found)
  have open5: "\<not> coupon_closed 5 (one_use_coupon (Some 1) 1) live_promotion"
    by (simp add: coupon_closed_def one_use_coupon_def live_promotion_found)
  have e: "redeem_coupon ''t'' ''a'' ''k'' ''r2'' 5 (use_once u) (?st u)
      = (if customer_capped (use_once u) (one_use_coupon (Some 1) 1) [use_row ''r1'' ''k'' u] then Inl coupon_limit
         else Inr (use_row ''r1'' ''k'' u, True), ?st u)" for u
    using conjunct1 [OF t [of u "''a''" "''r2''" 5]] code [of u] prom open5
    by (auto simp: shop_system_def coupon_shop_def)
  show ?thesis unfolding e
    by (simp add: customer_capped_def use_once_def one_use_coupon_def redemptions_of_customer_def use_row_def)
qed

lemma coupon_uses_counted_witness:
  "\<exists>y0 y. coupon_step\<^sup>*\<^sup>* y0 y \<and> fresh_coupons y0 \<and> cs_coupons (cy_store y) = [one_use_coupon (Some 1) 1]
     \<and> cn_use_count (one_use_coupon (Some 1) 1) = int (length (confirmed_rows y (one_use_coupon (Some 1) 1)))
     \<and> confirmed y (use_row ''r1'' ''k'' None)"
proof -
  let ?y = "shop_system [one_use_coupon (Some 1) 1] [use_row ''r1'' ''k'' None] [] [(''k'', Inr (use_row ''r1'' ''k'' None, False))]"
  have run: "coupon_step\<^sup>*\<^sup>* (shop_system [] [] [] []) ?y"
    by (rule converse_rtranclp_into_rtranclp [OF shop_made shop_used])
  have "cs_coupons (cy_store ?y) = [one_use_coupon (Some 1) 1]" "(''k'', Inr (use_row ''r1'' ''k'' None, False)) \<in> set (cy_answers ?y)"
    by (simp_all add: shop_system_def coupon_shop_def)
  with coupon_uses_counted [OF run shop_fresh] run shop_fresh show ?thesis
    by (intro exI [of _ "shop_system [] [] [] []"] exI [of _ ?y]) auto
qed

text \<open>What counting does not cover. A coupon made for a single use can be given a higher total afterwards, because only
  its creation ties the type to the cap, and is then redeemed twice. And a redemption can be answered as a replay
  whose row is then deleted: it is sent again with the same key while the first attempt has inserted
  its row but not yet found the cap exhausted; the second answer reports a use that never counted and is gone when the first one ends.\<close>
theorem coupon_use_lost_or_doubled:
  "(\<exists>st c. update_coupon ''t'' ''c'' \<lparr>uc_status = Left_Out, uc_max_total = Given 2, uc_max_per_customer = Left_Out, uc_expires_at = Left_Out\<rparr>
        (coupon_shop [one_use_coupon (Some 1) 1] [use_row ''r1'' ''k'' None]) = Inr (c, st)
      \<and> cn_type c = Single_Use \<and> fst (redeem_coupon ''t'' ''a'' ''k2'' ''r2'' 0 (use_once None) st) = Inr (use_row ''r2'' ''k2'' None, False))
   \<and> (\<exists>y0 y. coupon_step\<^sup>*\<^sup>* y0 y \<and> coupons_sound y0
      \<and> (''k2'', Inr (use_row ''r2'' ''k2'' None, True)) \<in> set (cy_answers y)
      \<and> use_row ''r2'' ''k2'' None \<notin> set (cs_redemptions (cy_store y)) \<and> cy_flights y = [] \<and> cy_abandoned y = [])"
proof
  show "\<exists>st c. update_coupon ''t'' ''c'' \<lparr>uc_status = Left_Out, uc_max_total = Given 2, uc_max_per_customer = Left_Out, uc_expires_at = Left_Out\<rparr>
        (coupon_shop [one_use_coupon (Some 1) 1] [use_row ''r1'' ''k'' None]) = Inr (c, st)
      \<and> cn_type c = Single_Use \<and> fst (redeem_coupon ''t'' ''a'' ''k2'' ''r2'' 0 (use_once None) st) = Inr (use_row ''r2'' ''k2'' None, False)"
  proof (intro exI conjI)
    show "update_coupon ''t'' ''c'' \<lparr>uc_status = Left_Out, uc_max_total = Given 2, uc_max_per_customer = Left_Out, uc_expires_at = Left_Out\<rparr>
        (coupon_shop [one_use_coupon (Some 1) 1] [use_row ''r1'' ''k'' None])
        = Inr (one_use_coupon (Some 2) 1, coupon_shop [one_use_coupon (Some 2) 1] [use_row ''r1'' ''k'' None])"
      by (simp add: update_coupon_def repo_update_coupon_def update_many_def coupon_in_tenant_def find_coupon_def coupon_shop_def
          one_use_coupon_def patched_coupon_def)
    show "cn_type (one_use_coupon (Some 2) 1) = Single_Use" by (simp add: one_use_coupon_def)
    have c: "redeem_check ''t'' 0 (use_once None) (coupon_shop [one_use_coupon (Some 2) 1] [use_row ''r1'' ''k'' None])
        = Inr (one_use_coupon (Some 2) 1)"
      by (simp add: one_use_check)
    show "fst (redeem_coupon ''t'' ''a'' ''k2'' ''r2'' 0 (use_once None)
        (coupon_shop [one_use_coupon (Some 2) 1] [use_row ''r1'' ''k'' None])) = Inr (use_row ''r2'' ''k2'' None, False)"
      unfolding redeem_coupon_def c sum.case use_row_of
      by (simp add: repo_redeem_def redeem_place_def insert_redemption_def redeem_reserve_def update_many_def coupon_shop_def
          one_use_coupon_def use_row_def)
  qed
next
  let ?r = "\<lambda>i. use_row i ''k2'' None"
  let ?used = "[use_row ''r1'' ''k'' None]"
  let ?y = "\<lambda>rs fs as. \<lparr>cy_store = coupon_shop [one_use_coupon (Some 1) 1] rs, cy_flights = fs, cy_answers = as, cy_abandoned = [], cy_reviews = []\<rparr>"
  have chk: "redeem_check ''t'' 0 (use_once None) (coupon_shop [one_use_coupon (Some 1) 1] ?used) = Inr (one_use_coupon (Some 1) 1)"
    by (simp add: one_use_check)
  have "coupon_step (?y ?used [] []) ((?y ?used [] [])\<lparr>cy_flights :=
      Checked (redemption_row ''t'' ''a'' ''k2'' ''r2'' (use_once None) (one_use_coupon (Some 1) 1)) # cy_flights (?y ?used [] [])\<rparr>)"
    by (rule coupon_step.Checks [where now = 0]) (simp add: chk)
  then have s1: "coupon_step (?y ?used [] []) (?y ?used [Checked (?r ''r2'')] [])" by (simp add: use_row_of)
  have "coupon_step (?y ?used [Checked (?r ''r2'')] []) ((?y ?used [Checked (?r ''r2'')] [])\<lparr>cy_flights :=
      Checked (redemption_row ''t'' ''a'' ''k2'' ''r3'' (use_once None) (one_use_coupon (Some 1) 1))
        # cy_flights (?y ?used [Checked (?r ''r2'')] [])\<rparr>)"
    by (rule coupon_step.Checks [where now = 0]) (simp add: chk)
  then have s2: "coupon_step (?y ?used [Checked (?r ''r2'')] []) (?y ?used [Checked (?r ''r3''), Checked (?r ''r2'')] [])"
    by (simp add: use_row_of)
  have ne: "Checked (?r ''r3'') \<noteq> Checked (?r ''r2'')" by (simp add: use_row_def)
  have "redeem_place (?r ''r2'') ?used = Inr (Placed (?r ''r2''), ?used @ [?r ''r2''])"
    by (simp add: redeem_place_def insert_redemption_def use_row_def)
  then have "coupon_step (?y ?used [Checked (?r ''r3''), Checked (?r ''r2'')] [])
      ((?y ?used [Checked (?r ''r3''), Checked (?r ''r2'')] [])\<lparr>
        cy_store := (cy_store (?y ?used [Checked (?r ''r3''), Checked (?r ''r2'')] []))\<lparr>cs_redemptions := ?used @ [?r ''r2'']\<rparr>,
        cy_flights := Inserted (?r ''r2'') # remove1 (Checked (?r ''r2'')) (cy_flights (?y ?used [Checked (?r ''r3''), Checked (?r ''r2'')] []))\<rparr>)"
    by (intro coupon_step.Places) (simp_all add: coupon_shop_def)
  then have s3: "coupon_step (?y ?used [Checked (?r ''r3''), Checked (?r ''r2'')] [])
      (?y (?used @ [?r ''r2'']) [Inserted (?r ''r2''), Checked (?r ''r3'')] [])"
    using ne by (simp add: coupon_shop_def)
  have "redeem_place (?r ''r3'') (?used @ [?r ''r2'']) = Inr (Replayed (?r ''r2''), ?used @ [?r ''r2''])"
    by (simp add: redeem_place_def insert_redemption_def use_row_def)
  then have "coupon_step (?y (?used @ [?r ''r2'']) [Inserted (?r ''r2''), Checked (?r ''r3'')] [])
      ((?y (?used @ [?r ''r2'']) [Inserted (?r ''r2''), Checked (?r ''r3'')] [])\<lparr>
        cy_flights := remove1 (Checked (?r ''r3'')) (cy_flights (?y (?used @ [?r ''r2'']) [Inserted (?r ''r2''), Checked (?r ''r3'')] [])),
        cy_answers := (rd_key (?r ''r3''), Inr (?r ''r2'', True)) # cy_answers (?y (?used @ [?r ''r2'']) [Inserted (?r ''r2''), Checked (?r ''r3'')] [])\<rparr>)"
    by (intro coupon_step.Replays) (simp_all add: coupon_shop_def)
  then have s4: "coupon_step (?y (?used @ [?r ''r2'']) [Inserted (?r ''r2''), Checked (?r ''r3'')] [])
      (?y (?used @ [?r ''r2'']) [Inserted (?r ''r2'')] [(''k2'', Inr (?r ''r2'', True))])"
    by (simp add: use_row_def)
  have res: "redeem_reserve (?r ''r2'') (coupon_shop [one_use_coupon (Some 1) 1] (?used @ [?r ''r2'']))
      = (Inl coupon_limit, coupon_shop [one_use_coupon (Some 1) 1] ?used)"
    by (simp add: redeem_reserve_def update_many_def coupon_shop_def one_use_coupon_def use_row_def find_coupon_def)
  have "coupon_step (?y (?used @ [?r ''r2'']) [Inserted (?r ''r2'')] [(''k2'', Inr (?r ''r2'', True))])
      ((?y (?used @ [?r ''r2'']) [Inserted (?r ''r2'')] [(''k2'', Inr (?r ''r2'', True))])\<lparr>
        cy_store := coupon_shop [one_use_coupon (Some 1) 1] ?used,
        cy_flights := remove1 (Inserted (?r ''r2'')) (cy_flights (?y (?used @ [?r ''r2'']) [Inserted (?r ''r2'')] [(''k2'', Inr (?r ''r2'', True))])),
        cy_answers := (rd_key (?r ''r2''), Inl coupon_limit) # cy_answers (?y (?used @ [?r ''r2'']) [Inserted (?r ''r2'')] [(''k2'', Inr (?r ''r2'', True))])\<rparr>)"
    by (intro coupon_step.Reserves) (simp_all add: res [simplified])
  then have s5: "coupon_step (?y (?used @ [?r ''r2'']) [Inserted (?r ''r2'')] [(''k2'', Inr (?r ''r2'', True))])
      (?y ?used [] [(''k2'', Inl coupon_limit), (''k2'', Inr (?r ''r2'', True))])"
    by (simp add: use_row_def)
  note c = converse_rtranclp_into_rtranclp [of coupon_step]
  have "coupon_step\<^sup>*\<^sup>* (?y ?used [] []) (?y ?used [] [(''k2'', Inl coupon_limit), (''k2'', Inr (?r ''r2'', True))])"
    by (rule c [OF s1 c [OF s2 c [OF s3 c [OF s4 c [OF s5 rtranclp.rtrancl_refl]]]]])
  moreover have "coupons_sound (?y ?used [] [])"
    by (simp add: coupons_sound_def coupon_shop_def one_use_coupon_def use_row_def has_coupon_def row_of_def confirmed_rows_def confirmed_def)
  moreover have "?r ''r2'' \<notin> set ?used" by (simp add: use_row_def)
  ultimately show "\<exists>y0 y. coupon_step\<^sup>*\<^sup>* y0 y \<and> coupons_sound y0
      \<and> (''k2'', Inr (?r ''r2'', True)) \<in> set (cy_answers y)
      \<and> ?r ''r2'' \<notin> set (cs_redemptions (cy_store y)) \<and> cy_flights y = [] \<and> cy_abandoned y = []"
    by (intro exI [of _ "?y ?used [] []"] exI [of _ "?y ?used [] [(''k2'', Inl coupon_limit), (''k2'', Inr (?r ''r2'', True))]"])
      (simp add: coupon_shop_def)
qed

end
