(* ===== verification/Promotion_Evaluation.thy ===== *)
theory Promotion_Evaluation
  imports Coupons Tax "HOL-Library.Product_Lexorder" "HOL-Library.List_Lexorder" "HOL-Library.Char_ord"
begin

text \<open>
  The promotion a quote shows: \<open>backend/src/promotions/promotion-evaluation.service.ts\<close> and
  \<open>listActiveForEvaluation\<close> of \<open>promotion.repository.ts\<close>. The reads of the database may fail, so they
  are a record of functions; the quantity is the whole number of at least one the request declares.
  \<open>toNumber\<close> of an amount with two places keeps its value.
\<close>

section \<open>Data\<close>

record promoted_variant =
  vt_id :: string
  vt_product :: string
  vt_brand :: "string option"
  vt_category :: "string option"

record evaluation_line =
  el_variant :: string
  el_qty :: int
  el_unit_net :: rat
  el_rate :: rat
  el_mode :: tax_mode
  el_coupon :: "string option"
  el_customer :: "string option"
  el_branch :: "string option"

record candidate_trace =
  ct_promotion :: string
  ct_name :: string
  ct_eligible :: bool
  ct_reason :: string

record promotion_benefit =
  bf_type :: benefit_type
  bf_units :: int
  bf_amount :: rat
  bf_unit_net :: rat
  bf_tax :: rat
  bf_selling :: rat

record applied_promotion =
  ap_promotion :: string
  ap_name :: string
  ap_coupon :: "string option"
  ap_benefit :: promotion_benefit

record evaluation_result =
  ev_applied :: "applied_promotion option"
  ev_candidates :: "candidate_trace list"
  ev_failed :: bool

text \<open>What the service asks the database, each for a tenant.\<close>

record evaluation_reads =
  rq_variant :: "string \<Rightarrow> string \<Rightarrow> promoted_variant option result"
  rq_promotions :: "string \<Rightarrow> promotion list result"
  rq_coupon :: "string \<Rightarrow> string \<Rightarrow> coupon option result"

definition no_discount :: evaluation_result where
  "no_discount = \<lparr>ev_applied = None, ev_candidates = [], ev_failed = False\<rparr>"

section \<open>The candidates\<close>

text \<open>\<open>orderBy: [{ priority: 'asc' }, { created_at: 'asc' }, { id: 'asc' }]\<close>\<close>

definition evaluation_key :: "promotion \<Rightarrow> int \<times> int \<times> string" where
  "evaluation_key p = (pt_priority (pm_terms p), pm_created_at p, pm_id p)"

definition running_at :: "string \<Rightarrow> int \<Rightarrow> promotion \<Rightarrow> bool" where
  "running_at tenant now p \<longleftrightarrow> pm_tenant p = tenant \<and> pm_status p = Promo_Active \<and> pt_starts_at (pm_terms p) \<le> now
     \<and> (case pt_ends_at (pm_terms p) of None \<Rightarrow> True | Some t \<Rightarrow> t \<ge> now)"

definition list_active_for_evaluation :: "string \<Rightarrow> int \<Rightarrow> promotion list \<Rightarrow> promotion list" where
  "list_active_for_evaluation tenant now ps = sort_key evaluation_key (filter (running_at tenant now) ps)"

definition scope_matches :: "promotion \<Rightarrow> promoted_variant \<Rightarrow> bool" where
  "scope_matches p v =
     (case pt_scope (pm_terms p) of
        Promo_All \<Rightarrow> True
      | Promo_Variant \<Rightarrow> pt_scope_id (pm_terms p) = Some (vt_id v)
      | Promo_Product \<Rightarrow> pt_scope_id (pm_terms p) = Some (vt_product v)
      | Promo_Brand \<Rightarrow> truthy (vt_brand v) \<and> pt_scope_id (pm_terms p) = vt_brand v
      | Promo_Category \<Rightarrow> truthy (vt_category v) \<and> pt_scope_id (pm_terms p) = vt_category v)"

record eligibility =
  eg_ok :: bool
  eg_reason :: string
  eg_coupon :: "string option"

definition excluded :: "string \<Rightarrow> eligibility" where
  "excluded reason = \<lparr>eg_ok = False, eg_reason = reason, eg_coupon = None\<rparr>"

text \<open>A \<open>Decimal\<close> column that is not null is truthy, zero included.\<close>

definition check_eligibility ::
  "evaluation_reads \<Rightarrow> string \<Rightarrow> int \<Rightarrow> promotion \<Rightarrow> promoted_variant \<Rightarrow> evaluation_line \<Rightarrow> eligibility result" where
  "check_eligibility D tenant now p v line =
     (let t = pm_terms p in
      if \<not> scope_matches p v then Inr (excluded ''scope_mismatch'')
      else if (case pt_min_qty t of None \<Rightarrow> False | Some m \<Rightarrow> of_int (el_qty line) < m) then Inr (excluded ''min_qty_not_met'')
      else if pt_min_spend t \<noteq> None then Inr (excluded ''min_spend_requires_cart_context'')
      else if truthy (pt_branch t) \<and> (\<not> truthy (el_branch line) \<or> el_branch line \<noteq> pt_branch t)
        then Inr (excluded ''branch_mismatch'')
      else if truthy (pt_customer t) \<and> (\<not> truthy (el_customer line) \<or> el_customer line \<noteq> pt_customer t)
        then Inr (excluded ''customer_mismatch'')
      else if pt_requires_coupon t then
        (if \<not> truthy (el_coupon line) then Inr (excluded ''requires_coupon'')
         else and_then (rq_coupon D tenant (the (el_coupon line))) (\<lambda>found.
           case found of
             None \<Rightarrow> Inr (excluded ''coupon_invalid'')
           | Some c \<Rightarrow>
               if cn_promotion c \<noteq> pm_id p \<or> cn_status c \<noteq> Coupon_Active
                  \<or> (case cn_expires_at c of None \<Rightarrow> False | Some e \<Rightarrow> e < now)
                  \<or> (cn_type c = Customer_Bound \<and> cn_customer c \<noteq> el_customer line)
               then Inr (excluded ''coupon_invalid'')
               else Inr \<lparr>eg_ok = True, eg_reason = ''eligible'', eg_coupon = Some (cn_id c)\<rparr>))
      else Inr \<lparr>eg_ok = True, eg_reason = ''eligible'', eg_coupon = None\<rparr>)"

section \<open>The benefit\<close>

text \<open>The units a promotion discounts and what it takes off the net line, before the cap on the amount.\<close>

definition raw_discount :: "dec_lib \<Rightarrow> promotion_terms \<Rightarrow> rat \<Rightarrow> int \<Rightarrow> (int \<times> rat) option" where
  "raw_discount L t unit qty =
     (let cap = (case pt_max_units t of None \<Rightarrow> qty | Some m \<Rightarrow> if m \<noteq> 0 then min qty m else qty);
          benefit_value = (case pt_value t of None \<Rightarrow> 0 | Some x \<Rightarrow> x) in
      case pt_benefit t of
        Percentage \<Rightarrow>
          Some (cap, moneyq L (dec_div L (dec_mul L (dec_mul L unit (of_int cap)) benefit_value) 100))
      | Fixed_Amount \<Rightarrow> Some (cap, moneyq L (dec_mul L benefit_value (of_int cap)))
      | Fixed_Price \<Rightarrow>
          (let target = moneyq L benefit_value in
           if target \<ge> unit then None else Some (cap, moneyq L (dec_mul L (dec_minus L unit target) (of_int cap))))
      | Bogo \<Rightarrow>
          (let buy = given (pt_bogo_buy t) 0; get = given (pt_bogo_get t) 0 in
           if buy \<le> 0 \<or> get \<le> 0 then None
           else (let groups = qty div (buy + get) in
             if groups \<le> 0 then None
             else (let free = groups * get;
                       units = (case pt_max_units t of None \<Rightarrow> free | Some m \<Rightarrow> if m \<noteq> 0 then min free m else free)
                   in Some (units, moneyq L (dec_div L (dec_mul L (dec_mul L unit (of_int units)) (given (pt_bogo_percent t) 0)) 100))))))"

text \<open>The net, tax and gross of the line after a discount, as \<open>computeBenefit\<close> ends.\<close>

definition discounted_line ::
  "dec_lib \<Rightarrow> evaluation_line \<Rightarrow> rat \<Rightarrow> rat \<Rightarrow> (rat \<times> rat \<times> rat) result" where
  "discounted_line L line unit amount =
     (let qty = of_int (el_qty line); rate = el_rate line; line_net = moneyq L (dec_mul L unit qty) in
      and_then (throw_if (line_net < 0) (JsError ''DecimalError'')) (\<lambda>_.
      let effective_line_net = moneyq L (min (max (dec_minus L line_net amount) 0) line_net);
          effective_unit_net = moneyq L (dec_div L effective_line_net qty) in
      if el_mode line = Inclusive then
        (let original_gross = moneyq L (dec_mul L unit (dec_plus L 1 (dec_div L rate 100)));
             gross_per_unit = moneyq L (dec_minus L original_gross (dec_div L amount qty));
             net_per_unit = moneyq L (dec_div L gross_per_unit (dec_plus L 1 (dec_div L rate 100))) in
         Inr (effective_unit_net, moneyq L (dec_mul L (dec_minus L gross_per_unit net_per_unit) qty),
              moneyq L (dec_mul L gross_per_unit qty)))
      else
        (let tax = moneyq L (dec_mul L (dec_div L (dec_mul L effective_unit_net rate) 100) qty) in
         Inr (effective_unit_net, tax, moneyq L (dec_plus L effective_line_net tax)))))"

definition compute_benefit :: "dec_lib \<Rightarrow> promotion \<Rightarrow> evaluation_line \<Rightarrow> promotion_benefit option result" where
  "compute_benefit L p line =
     (let t = pm_terms p; unit = moneyq L (el_unit_net line) in
      case raw_discount L t unit (el_qty line) of
        None \<Rightarrow> Inr None
      | Some (units, raw) \<Rightarrow>
          (let amount = (case pt_max_discount t of None \<Rightarrow> raw | Some m \<Rightarrow> if raw > m then moneyq L m else raw) in
           if amount \<le> 0 then Inr None
           else and_then (discounted_line L line unit amount) (\<lambda>(net, tax, gross).
             Inr (Some \<lparr>bf_type = pt_benefit t, bf_units = units, bf_amount = amount, bf_unit_net = net,
                        bf_tax = tax, bf_selling = gross\<rparr>))))"

section \<open>The evaluation\<close>

text \<open>One turn of the loop over the candidates: their traces so far, and the first that was eligible.\<close>

definition weigh_candidate ::
  "evaluation_reads \<Rightarrow> string \<Rightarrow> int \<Rightarrow> promoted_variant \<Rightarrow> evaluation_line \<Rightarrow> promotion
   \<Rightarrow> candidate_trace list \<times> (promotion \<times> string option) option
   \<Rightarrow> (candidate_trace list \<times> (promotion \<times> string option) option) result" where
  "weigh_candidate D tenant now v line p s =
     (let (traces, winner) = s in
      and_then (check_eligibility D tenant now p v line) (\<lambda>e.
      let reason = (if eg_ok e \<and> winner \<noteq> None then ''lower_priority_excluded'' else eg_reason e);
          trace = \<lparr>ct_promotion = pm_id p, ct_name = pt_name (pm_terms p), ct_eligible = eg_ok e, ct_reason = reason\<rparr> in
      Inr (traces @ [trace], if eg_ok e \<and> winner = None then Some (p, eg_coupon e) else winner)))"

definition evaluate_unsafe ::
  "dec_lib \<Rightarrow> evaluation_reads \<Rightarrow> string \<Rightarrow> int \<Rightarrow> evaluation_line \<Rightarrow> evaluation_result result" where
  "evaluate_unsafe L D tenant now line =
     and_then (rq_variant D tenant (el_variant line)) (\<lambda>found.
     case found of
       None \<Rightarrow> Inr no_discount
     | Some v \<Rightarrow>
         and_then (rq_promotions D tenant) (\<lambda>rows.
         let candidates = list_active_for_evaluation tenant now rows in
         if candidates = [] then Inr no_discount
         else and_then (fold_result (weigh_candidate D tenant now v line) candidates ([], None)) (\<lambda>(traces, winner).
           case winner of
             None \<Rightarrow> Inr \<lparr>ev_applied = None, ev_candidates = traces, ev_failed = False\<rparr>
           | Some (p, coupon_id) \<Rightarrow>
               and_then (compute_benefit L p line) (\<lambda>benefit.
               case benefit of
                 None \<Rightarrow> Inr \<lparr>ev_applied = None, ev_candidates = traces, ev_failed = False\<rparr>
               | Some b \<Rightarrow>
                   Inr \<lparr>ev_applied = Some \<lparr>ap_promotion = pm_id p, ap_name = pt_name (pm_terms p),
                                          ap_coupon = coupon_id, ap_benefit = b\<rparr>,
                        ev_candidates = traces, ev_failed = False\<rparr>))))"

definition evaluate :: "dec_lib \<Rightarrow> evaluation_reads \<Rightarrow> string \<Rightarrow> int \<Rightarrow> evaluation_line \<Rightarrow> evaluation_result" where
  "evaluate L D tenant now line =
     (case evaluate_unsafe L D tenant now line of
        Inl e \<Rightarrow> \<lparr>ev_applied = None, ev_candidates = [], ev_failed = True\<rparr>
      | Inr r \<Rightarrow> r)"

end
