(* ===== verification/Promotion_Evaluation_Correct.thy ===== *)
theory Promotion_Evaluation_Correct
  imports Promotion_Evaluation Pricing
begin

text \<open>
  What the evaluation of promotions promises: which promotion it takes, whatever order the database
  returns the rows in, and what the benefit leaves to pay.
\<close>

section \<open>The choice\<close>

lemma evaluation_order:
  assumes "distinct (map pm_id ps)" and "mset ps' = mset ps"
  shows "list_active_for_evaluation tenant now ps' = list_active_for_evaluation tenant now ps"
  unfolding list_active_for_evaluation_def
proof (rule sort_key_inj_key_eq)
  let ?run = "filter (running_at tenant now)"
  show "mset (?run ps') = mset (sort_key evaluation_key (?run ps))" using assms(2) by simp
  show "sorted (map evaluation_key (sort_key evaluation_key (?run ps)))" by simp
  show "inj_on evaluation_key (set (?run ps'))"
  proof (rule inj_onI)
    fix p q assume "p \<in> set (?run ps')" "q \<in> set (?run ps')" and e: "evaluation_key p = evaluation_key q"
    then have "p \<in> set ps" "q \<in> set ps" using mset_eq_setD [OF assms(2)] by auto
    then show "p = q" using distinct_map_same [OF assms(1)] e by (simp add: evaluation_key_def)
  qed
qed

lemma set_candidates: "set (list_active_for_evaluation tenant now ps) = {p \<in> set ps. running_at tenant now p}"
  by (auto simp: list_active_for_evaluation_def)

definition eligible_for :: "evaluation_reads \<Rightarrow> string \<Rightarrow> int \<Rightarrow> promoted_variant \<Rightarrow> evaluation_line \<Rightarrow> promotion \<Rightarrow> bool" where
  "eligible_for D tenant now v line p =
     (case check_eligibility D tenant now p v line of Inl _ \<Rightarrow> False | Inr e \<Rightarrow> eg_ok e)"

lemma weigh_candidate_pair:
  "weigh_candidate D tenant now v line p (traces, winner) =
     and_then (check_eligibility D tenant now p v line) (\<lambda>e.
     Inr (traces @ [\<lparr>ct_promotion = pm_id p, ct_name = pt_name (pm_terms p), ct_eligible = eg_ok e,
            ct_reason = (if eg_ok e \<and> winner \<noteq> None then ''lower_priority_excluded'' else eg_reason e)\<rparr>],
          if eg_ok e \<and> winner = None then Some (p, eg_coupon e) else winner))"
  by (simp add: weigh_candidate_def Let_def)

text \<open>The trace of a candidate, which depends on the others only in whether an earlier one has won.\<close>

definition trace_of :: "evaluation_reads \<Rightarrow> string \<Rightarrow> int \<Rightarrow> promoted_variant \<Rightarrow> evaluation_line \<Rightarrow> bool \<Rightarrow> promotion \<Rightarrow> candidate_trace" where
  "trace_of D tenant now v line lost p =
     \<lparr>ct_promotion = pm_id p, ct_name = pt_name (pm_terms p), ct_eligible = eligible_for D tenant now v line p,
      ct_reason = (if eligible_for D tenant now v line p then (if lost then ''lower_priority_excluded'' else ''eligible'')
        else (case check_eligibility D tenant now p v line of Inl _ \<Rightarrow> [] | Inr e \<Rightarrow> eg_reason e))\<rparr>"

lemma eligible_reason:
  assumes "check_eligibility D tenant now p v line = Inr e"
  shows "if eg_ok e then eg_reason e = ''eligible'' else eg_reason e \<noteq> ''eligible'' \<and> eg_reason e \<noteq> ''lower_priority_excluded''"
  using assms by (auto simp: check_eligibility_def excluded_def Let_def result_simps split: if_splits option.splits)

text \<open>What the loop leaves: the traces of all candidates, and the first of them that is eligible.\<close>

lemma weigh_some:
  assumes "fold_result (weigh_candidate D tenant now v line) ps (ts, Some w) = Inr (ts', w')"
  shows "w' = Some w \<and> ts' = ts @ map (trace_of D tenant now v line True) ps
    \<and> (\<forall>p \<in> set ps. \<exists>e. check_eligibility D tenant now p v line = Inr e)"
  using assms
proof (induction ps arbitrary: ts)
  case (Cons p ps)
  then obtain e where e: "check_eligibility D tenant now p v line = Inr e"
    by (auto simp: weigh_candidate_pair result_simps)
  have "fold_result (weigh_candidate D tenant now v line) ps (ts @ [trace_of D tenant now v line True p], Some w) = Inr (ts', w')"
    using Cons.prems e by (cases "eg_ok e") (simp_all add: weigh_candidate_pair trace_of_def eligible_for_def)
  from Cons.IH [OF this] e show ?case by simp
qed simp

lemma weigh_none:
  assumes "fold_result (weigh_candidate D tenant now v line) ps (ts0, None) = Inr (ts, w)" and "distinct (map pm_id ps)"
  shows "map_option fst w = find (eligible_for D tenant now v line) ps
    \<and> ts = ts0 @ map (\<lambda>p. trace_of D tenant now v line (find (eligible_for D tenant now v line) ps \<noteq> Some p) p) ps
    \<and> (\<forall>p \<in> set ps. \<exists>e. check_eligibility D tenant now p v line = Inr e)"
  using assms
proof (induction ps arbitrary: ts0)
  case (Cons p ps)
  then obtain e where e: "check_eligibility D tenant now p v line = Inr e"
    by (auto simp: weigh_candidate_pair result_simps)
  let ?E = "eligible_for D tenant now v line"
  have E: "?E p = eg_ok e" using e by (simp add: eligible_for_def)
  have f: "fold_result (weigh_candidate D tenant now v line) ps
      (ts0 @ [trace_of D tenant now v line False p], if eg_ok e then Some (p, eg_coupon e) else None) = Inr (ts, w)"
    using Cons.prems(1) e E eligible_reason [OF e] by (cases "eg_ok e") (simp_all add: weigh_candidate_pair trace_of_def)
  show ?case
  proof (cases "eg_ok e")
    case True
    have "p \<notin> set ps" using Cons.prems(2) by auto
    have "map (\<lambda>q. trace_of D tenant now v line (Some p \<noteq> Some q) q) ps = map (trace_of D tenant now v line True) ps"
    proof (rule list.map_cong0)
      fix q assume "q \<in> set ps"
      with \<open>p \<notin> set ps\<close> have "Some p \<noteq> Some q" by auto
      then show "trace_of D tenant now v line (Some p \<noteq> Some q) q = trace_of D tenant now v line True q" by (simp only: simp_thms)
    qed
    moreover have "fold_result (weigh_candidate D tenant now v line) ps
        (ts0 @ [trace_of D tenant now v line False p], Some (p, eg_coupon e)) = Inr (ts, w)"
      using f True by simp
    ultimately show ?thesis using weigh_some E True e by fastforce
  next
    case False
    then have "fold_result (weigh_candidate D tenant now v line) ps (ts0 @ [trace_of D tenant now v line False p], None) = Inr (ts, w)"
      using f by simp
    note i = Cons.IH [OF this] Cons.prems(2)
    have "trace_of D tenant now v line (find ?E ps \<noteq> Some p) p = trace_of D tenant now v line False p"
      using False E by (simp add: trace_of_def)
    then show ?thesis using i E False e by simp
  qed
qed simp

lemma trace_of_facts:
  assumes "\<exists>e. check_eligibility D tenant now p v line = Inr e" and "w = Some p \<longrightarrow> eligible_for D tenant now v line p"
  shows "ct_promotion (trace_of D tenant now v line (w \<noteq> Some p) p) = pm_id p
    \<and> (ct_eligible (trace_of D tenant now v line (w \<noteq> Some p) p) \<longleftrightarrow> eligible_for D tenant now v line p)
    \<and> (ct_reason (trace_of D tenant now v line (w \<noteq> Some p) p) = ''eligible'' \<longleftrightarrow> w = Some p)
    \<and> (ct_reason (trace_of D tenant now v line (w \<noteq> Some p) p) = ''lower_priority_excluded''
         \<longleftrightarrow> eligible_for D tenant now v line p \<and> w \<noteq> Some p)"
proof -
  obtain e where e: "check_eligibility D tenant now p v line = Inr e" using assms(1) by blast
  show ?thesis using assms(2) eligible_reason [OF e] e by (auto simp: trace_of_def eligible_for_def split: if_splits)
qed

lemma find_sorted_least:
  assumes "find P xs = Some x" and "sorted (map f xs)" and "y \<in> set xs" and "P y"
  shows "f x \<le> f y"
  using assms by (induction xs) (auto split: if_splits dest: find_Some_iff_set)

text \<open>The reads of the request change what is evaluated only through the rows they return.\<close>

lemma evaluate_any_order:
  assumes "rq_variant D tenant (el_variant line) = Inr (Some v)" and "rq_promotions D tenant = Inr ps"
    and "distinct (map pm_id ps)" and "mset ps' = mset ps"
  shows "evaluate L (D\<lparr>rq_promotions := \<lambda>_. Inr ps'\<rparr>) tenant now line = evaluate L D tenant now line"
proof -
  have rq: "rq_coupon (D\<lparr>rq_promotions := f\<rparr>) = rq_coupon D" for f by simp
  have chk: "check_eligibility (D\<lparr>rq_promotions := f\<rparr>) = check_eligibility D" for f
    unfolding check_eligibility_def [abs_def] rq ..
  then have w: "weigh_candidate (D\<lparr>rq_promotions := f\<rparr>) = weigh_candidate D" for f
    by (simp add: weigh_candidate_def [abs_def])
  show ?thesis
    using evaluation_order [OF assms(3,4), of tenant now] assms(1,2) by (simp add: evaluate_def evaluate_unsafe_def w Let_def)
qed

text \<open>An evaluation fails, or answers with the traces and the winner of the loop.\<close>

lemma evaluate_cases:
  assumes "rq_variant D tenant (el_variant line) = Inr (Some v)" and "rq_promotions D tenant = Inr ps"
  obtains "evaluate L D tenant now line = \<lparr>ev_applied = None, ev_candidates = [], ev_failed = True\<rparr>"
  | ts win where "\<not> ev_failed (evaluate L D tenant now line)" "ev_candidates (evaluate L D tenant now line) = ts"
      "fold_result (weigh_candidate D tenant now v line) (list_active_for_evaluation tenant now ps) ([], None) = Inr (ts, win)"
      "\<And>a. ev_applied (evaluate L D tenant now line) = Some a \<Longrightarrow>
         \<exists>p k. win = Some (p, k) \<and> ap_promotion a = pm_id p \<and> compute_benefit L p line = Inr (Some (ap_benefit a))"
proof (cases "evaluate_unsafe L D tenant now line")
  case (Inl e)
  then show thesis by (intro that(1)) (simp add: evaluate_def)
next
  case (Inr r)
  then have r: "evaluate L D tenant now line = r" by (simp add: evaluate_def)
  let ?cs = "list_active_for_evaluation tenant now ps"
  show thesis
  proof (cases "?cs = []")
    case True
    then show thesis using Inr assms by (intro that(2) [of "[]" None]) (auto simp: r evaluate_unsafe_def Let_def no_discount_def)
  next
    case False
    then obtain ts win where f: "fold_result (weigh_candidate D tenant now v line) ?cs ([], None) = Inr (ts, win)"
      using Inr assms by (auto simp: evaluate_unsafe_def Let_def result_simps)
    show thesis
      by (rule that(2) [OF _ _ f])
        (use Inr assms f False in \<open>auto simp: r evaluate_unsafe_def Let_def result_simps split: option.splits\<close>)
  qed
qed

text \<open>C16: Which promotion a quote shows. It does not depend on the order in which the database returns the promotions. The
  promotion that is applied is eligible, and of all promotions that run for the tenant and are
  eligible it is the first by priority, age and id. Unless the evaluation fails, each promotion that runs is
  traced, in that order, as eligible exactly when it is; the first eligible one has the reason \<open>eligible\<close>, every
  other eligible one is recorded as excluded by its lower priority, and no other promotion has one of the two
  reasons. An evaluation that fails applies nothing.\<close>
theorem promotion_choice:
  assumes "rq_variant D tenant (el_variant line) = Inr (Some v)" and "rq_promotions D tenant = Inr ps"
    and "distinct (map pm_id ps)" and "mset ps' = mset ps"
  shows "evaluate L (D\<lparr>rq_promotions := \<lambda>_. Inr ps'\<rparr>) tenant now line = evaluate L D tenant now line
    \<and> (\<forall>a. ev_applied (evaluate L D tenant now line) = Some a \<longrightarrow>
         (\<exists>p \<in> set ps. running_at tenant now p \<and> eligible_for D tenant now v line p \<and> ap_promotion a = pm_id p
            \<and> compute_benefit L p line = Inr (Some (ap_benefit a))
            \<and> find (eligible_for D tenant now v line) (list_active_for_evaluation tenant now ps) = Some p
            \<and> (\<forall>q \<in> set ps. running_at tenant now q \<and> eligible_for D tenant now v line q \<longrightarrow> evaluation_key p \<le> evaluation_key q)))
    \<and> (\<not> ev_failed (evaluate L D tenant now line) \<longrightarrow>
         list_all2 (\<lambda>p t. ct_promotion t = pm_id p
             \<and> (ct_eligible t \<longleftrightarrow> eligible_for D tenant now v line p)
             \<and> (ct_reason t = ''eligible'' \<longleftrightarrow>
                  find (eligible_for D tenant now v line) (list_active_for_evaluation tenant now ps) = Some p)
             \<and> (ct_reason t = ''lower_priority_excluded'' \<longleftrightarrow> eligible_for D tenant now v line p
                  \<and> find (eligible_for D tenant now v line) (list_active_for_evaluation tenant now ps) \<noteq> Some p))
           (list_active_for_evaluation tenant now ps) (ev_candidates (evaluate L D tenant now line)))
    \<and> (ev_failed (evaluate L D tenant now line) \<longrightarrow>
         ev_applied (evaluate L D tenant now line) = None \<and> ev_candidates (evaluate L D tenant now line) = [])"
proof -
  let ?r = "evaluate L D tenant now line"
  let ?cs = "list_active_for_evaluation tenant now ps"
  let ?E = "eligible_for D tenant now v line"
  note order = evaluate_any_order [OF assms]
  have sorted: "sorted (map evaluation_key ?cs)" by (simp add: list_active_for_evaluation_def)
  have ids: "distinct (map pm_id ?cs)"
    using assms(3) by (simp add: list_active_for_evaluation_def distinct_map inj_on_def)
  show ?thesis
  proof (cases rule: evaluate_cases [OF assms(1,2), of L now, case_names failed answered])
    case failed
    then show ?thesis using order by simp
  next
    case (answered ts win)
    note n = weigh_none [OF answered(3) ids]
    have "\<exists>p \<in> set ps. running_at tenant now p \<and> ?E p \<and> ap_promotion a = pm_id p
          \<and> compute_benefit L p line = Inr (Some (ap_benefit a)) \<and> find ?E ?cs = Some p
          \<and> (\<forall>q \<in> set ps. running_at tenant now q \<and> ?E q \<longrightarrow> evaluation_key p \<le> evaluation_key q)"
      if "ev_applied ?r = Some a" for a
    proof -
      from answered(4) [OF that] obtain p where p: "ap_promotion a = pm_id p"
          "compute_benefit L p line = Inr (Some (ap_benefit a))" "find ?E ?cs = Some p" using n by auto
      then have "p \<in> set ps" "running_at tenant now p" "?E p"
        using find_Some_iff_set [OF p(3)] by (simp_all add: set_candidates)
      then show ?thesis using p find_sorted_least [OF p(3) sorted] by (auto simp: set_candidates)
    qed
    moreover have "find ?E ?cs = Some p \<longrightarrow> ?E p" for p using find_Some_iff_set by fastforce
    then have "list_all2 (\<lambda>p t. ct_promotion t = pm_id p \<and> (ct_eligible t \<longleftrightarrow> ?E p)
           \<and> (ct_reason t = ''eligible'' \<longleftrightarrow> find ?E ?cs = Some p)
           \<and> (ct_reason t = ''lower_priority_excluded'' \<longleftrightarrow> ?E p \<and> find ?E ?cs \<noteq> Some p)) ?cs ts"
      using n trace_of_facts [of D tenant now _ v line "find ?E ?cs"] by (simp add: list_all2_map2 list.rel_refl_strong)
    ultimately show ?thesis using order answered(1,2) by simp
  qed
qed

section \<open>What is left to pay\<close>

lemma places_le:
  assumes "has_places 2 a" and "has_places 2 b" and "a < b + 1 / 100"
  shows "a \<le> b"
proof -
  obtain m where m: "a * 10 ^ 2 = of_int m" using assms(1) by (auto simp: has_places_def elim: Ints_cases)
  obtain k where k: "b * 10 ^ 2 = of_int k" using assms(2) by (auto simp: has_places_def elim: Ints_cases)
  have "(of_int m :: rat) < of_int (k + 1)" using m k assms(3) by simp
  then have "m \<le> k" by (simp only: of_int_less_iff)
  then have "(of_int m :: rat) \<le> of_int k" by simp
  then show ?thesis using m k by simp
qed

text \<open>Quotes of everyday size: the price is below a million, the tax at most all of it.\<close>

definition quoted_line :: "evaluation_line \<Rightarrow> bool" where
  "quoted_line line \<longleftrightarrow> has_places 2 (el_unit_net line) \<and> 0 \<le> el_unit_net line \<and> el_unit_net line < 10 ^ 6
     \<and> has_places 4 (el_rate line) \<and> 0 \<le> el_rate line \<and> el_rate line \<le> 100
     \<and> 1 \<le> el_qty line \<and> el_qty line < 10 ^ 5"

lemma quoted_columns:
  assumes "quoted_line line"
  shows "price_column (el_unit_net line)" "rate_column (el_rate line)"
  using assms by (simp_all add: quoted_line_def price_column_def rate_column_def)

lemma bogo_units:
  assumes "0 < b" "0 < g" "0 \<le> (q::int)"
  shows "q div (b + g) * g \<le> q"
proof -
  have "q div (b + g) * g \<le> q div (b + g) * (b + g)"
    using assms by (intro mult_left_mono) (simp_all add: pos_imp_zdiv_nonneg_iff)
  also have "\<dots> \<le> q" using assms by (simp add: minus_mod_eq_div_mult [symmetric])
  finally show ?thesis .
qed

lemma raw_discount_units:
  assumes "raw_discount L t unit qty = Some (units, raw)" and "1 \<le> qty"
  shows "units \<le> qty"
proof (cases "pt_benefit t = Bogo")
  case True
  let ?b = "given (pt_bogo_buy t) 0" and ?g = "given (pt_bogo_get t) 0"
  have p: "0 < ?b" "0 < ?g" using True assms(1) by (auto simp: raw_discount_def Let_def split: if_splits)
  have "units \<le> qty div (?b + ?g) * ?g"
    using True assms(1) by (auto simp: raw_discount_def Let_def min_def split: if_splits option.splits)
  also have "\<dots> \<le> qty" using p assms(2) by (intro bogo_units) simp_all
  finally show ?thesis .
next
  case False
  then show ?thesis using assms(1)
    by (auto simp: raw_discount_def Let_def min_def split: benefit_type.splits option.splits if_splits)
qed

lemma compute_benefit_Some:
  assumes "compute_benefit L p line = Inr (Some b)"
  obtains raw where "raw_discount L (pm_terms p) (moneyq L (el_unit_net line)) (el_qty line) = Some (bf_units b, raw)"
    "bf_amount b = (case pt_max_discount (pm_terms p) of None \<Rightarrow> raw | Some m \<Rightarrow> if raw > m then moneyq L m else raw)"
    "0 < bf_amount b"
    "discounted_line L line (moneyq L (el_unit_net line)) (bf_amount b) = Inr (bf_unit_net b, bf_tax b, bf_selling b)"
proof -
  obtain units raw where r: "raw_discount L (pm_terms p) (moneyq L (el_unit_net line)) (el_qty line) = Some (units, raw)"
    using assms by (auto simp: compute_benefit_def Let_def split: option.splits)
  let ?a = "case pt_max_discount (pm_terms p) of None \<Rightarrow> raw | Some m \<Rightarrow> if raw > m then moneyq L m else raw"
  have pos: "0 < ?a" using assms r by (auto simp: compute_benefit_def Let_def not_le split: if_splits)
  then obtain net tax gross where d: "discounted_line L line (moneyq L (el_unit_net line)) ?a = Inr (net, tax, gross)"
      and b: "b = \<lparr>bf_type = pt_benefit (pm_terms p), bf_units = units, bf_amount = ?a, bf_unit_net = net,
                bf_tax = tax, bf_selling = gross\<rparr>"
    using assms r by (auto simp: compute_benefit_def Let_def result_simps)
  show thesis by (rule that [of raw]) (use r pos d b in simp_all)
qed

context decimal_js
begin

lemma raw_discount_places:
  assumes "raw_discount L t unit qty = Some (units, raw)"
  shows "has_places 2 raw"
  using assms by (auto simp: raw_discount_def Let_def split: benefit_type.splits option.splits if_splits)

lemma moneyq_between:
  assumes "0 \<le> x" and "x < b + 1 / 250" and "has_places 2 b"
  shows "0 \<le> moneyq L x" and "moneyq L x \<le> b"
proof -
  show "0 \<le> moneyq L x" using assms(1) by (simp add: moneyq_eq round_places_nonneg)
  have "\<bar>moneyq L x - x\<bar> \<le> 1 / 200" using round_places_nearest [of 2 x] by (simp add: moneyq_eq)
  then have "moneyq L x < b + 1 / 100" using assms(2) by linarith
  then show "moneyq L x \<le> b" using assms(3) by (intro places_le) simp_all
qed

lemma quoted_amounts:
  assumes q: "quoted_line line"
  shows "moneyq L (el_unit_net line) = el_unit_net line"
    and "dec_mul L (el_unit_net line) (of_int (el_qty line)) = el_unit_net line * of_int (el_qty line)"
    and "moneyq L (el_unit_net line * of_int (el_qty line)) = el_unit_net line * of_int (el_qty line)"
    and "has_places 2 (el_unit_net line * of_int (el_qty line))"
    and "0 \<le> el_unit_net line * of_int (el_qty line)" and "el_unit_net line * of_int (el_qty line) < 10 ^ 11"
proof -
  let ?u = "el_unit_net line" and ?q = "of_int (el_qty line) :: rat"
  have u: "has_places 2 ?u" "0 \<le> ?u" "?u < 10 ^ 6" and k: "1 \<le> el_qty line" "el_qty line < 10 ^ 5"
    using q by (simp_all add: quoted_line_def)
  have k': "1 \<le> ?q" "?q < 10 ^ 5" using k by simp_all
  show p: "has_places 2 (?u * ?q)" using u(1) by (rule has_places_mult_int)
  show nn: "0 \<le> ?u * ?q" using u(2) k' by simp
  have "?u * ?q \<le> 10 ^ 6 * ?q" using u(3) k' by (intro mult_right_mono) simp_all
  also have "\<dots> < 10 ^ 11" using k' by simp
  finally show b: "?u * ?q < 10 ^ 11" .
  have "\<bar>?u * ?q\<bar> < 10 ^ 18" unfolding abs_of_nonneg [OF nn] using b by simp
  then show "dec_mul L ?u ?q = ?u * ?q" by (intro mul_exact cents_fits20 p)
  show "moneyq L ?u = ?u" "moneyq L (?u * ?q) = ?u * ?q" using u(1) p by (simp_all add: moneyq_id)
qed

lemma quoted_tax:
  assumes q: "quoted_line line" and e: "has_places 2 e" "0 \<le> e" "e \<le> el_unit_net line"
  shows "dec_mul L (dec_div L (dec_mul L e (el_rate line)) 100) (of_int (el_qty line)) = e * el_rate line / 100 * of_int (el_qty line)"
    and "0 \<le> e * el_rate line / 100 * of_int (el_qty line)" and "e * el_rate line / 100 * of_int (el_qty line) < 10 ^ 11"
proof -
  let ?r = "el_rate line" and ?q = "of_int (el_qty line) :: rat"
  have l: "el_unit_net line < 10 ^ 6" "has_places 4 ?r" "0 \<le> ?r" "?r \<le> 100" "0 \<le> ?q" "?q < 10 ^ 5"
    using q by (simp_all add: quoted_line_def)
  have er: "0 \<le> e * ?r" "e * ?r < 10 ^ 8"
  proof -
    show "0 \<le> e * ?r" using e l by simp
    have "e * ?r \<le> e * 100" using e l by (intro mult_left_mono) simp_all
    also have "\<dots> < 10 ^ 8" using e l by simp
    finally show "e * ?r < 10 ^ 8" .
  qed
  have i: "(e * 10 ^ 2) * (?r * 10 ^ 4) \<in> \<int>" using e(1) l(2) by (simp only: has_places_def Ints_mult)
  have p6: "has_places 6 (e * ?r)" using i by (simp add: has_places_def ac_simps)
  have p8: "has_places 8 (e * ?r / 100)" using i by (simp add: has_places_def ac_simps)
  show nn: "0 \<le> e * ?r / 100 * ?q" using er l by simp
  have "e * ?r / 100 * ?q \<le> 10 ^ 6 * ?q" using er l by (intro mult_right_mono) simp_all
  also have "\<dots> < 10 ^ 11" using l by simp
  finally show b: "e * ?r / 100 * ?q < 10 ^ 11" .
  have "fits20 (e * ?r)" using p6 er by (intro fits20_places [of 6]) (simp_all add: abs_of_nonneg del: abs_mult)
  moreover have "fits20 (e * ?r / 100)" using p8 er by (intro fits20_places [of 8]) (simp_all add: abs_of_nonneg del: abs_mult)
  moreover have "fits20 (e * ?r / 100 * ?q)"
  proof (rule fits20_places)
    show "has_places 8 (e * ?r / 100 * ?q)" using p8 by (rule has_places_mult_int)
    show "\<bar>e * ?r / 100 * ?q\<bar> * 10 ^ 8 < 10 ^ 20" unfolding abs_of_nonneg [OF nn] using b by simp
  qed
  ultimately show "dec_mul L (dec_div L (dec_mul L e ?r) 100) ?q = e * ?r / 100 * ?q" by (simp add: mul_exact div_exact)
qed

text \<open>What a line costs after a discount, by its tax mode.\<close>

lemma discounted_unit:
  assumes q: "quoted_line line" and n: "has_places 2 n" "0 \<le> n" "n \<le> el_unit_net line * of_int (el_qty line)"
  shows "0 \<le> moneyq L (dec_div L n (of_int (el_qty line)))" and "moneyq L (dec_div L n (of_int (el_qty line))) \<le> el_unit_net line"
    and "\<bar>moneyq L (dec_div L n (of_int (el_qty line))) - n / of_int (el_qty line)\<bar> \<le> 1 / 200 + 1 / 10 ^ 9"
proof -
  let ?u = "el_unit_net line" and ?q = "of_int (el_qty line) :: rat"
  let ?d = "dec_div L n ?q"
  have l: "has_places 2 ?u" "?u < 10 ^ 6" "1 \<le> ?q" using q by (simp_all add: quoted_line_def)
  have nq: "0 \<le> n / ?q" "n / ?q \<le> ?u" using n l by (simp_all add: divide_le_eq)
  have "\<bar>?d - n / ?q\<bar> \<le> \<bar>n / ?q\<bar> / 10 ^ 19" using l by (intro div_close) simp
  also have "\<bar>n / ?q\<bar> = n / ?q" using nq(1) by (rule abs_of_nonneg)
  also have "n / ?q / 10 ^ 19 \<le> 10 ^ 6 / 10 ^ 19" using nq(2) l(2) by (intro divide_right_mono order.trans [OF nq(2)]) simp_all
  finally have d: "\<bar>?d - n / ?q\<bar> \<le> 1 / 10 ^ 9" by simp
  have dn: "0 \<le> ?d" using n l by (intro div_nonneg) simp_all
  have "(1::rat) / 10 ^ 9 < 1 / 250" by simp
  then have db: "?d < ?u + 1 / 250" using d nq(2) by linarith
  show "0 \<le> moneyq L ?d" "moneyq L ?d \<le> ?u" using moneyq_between [OF dn db l(1)] by simp_all
  have "\<bar>moneyq L ?d - ?d\<bar> \<le> 1 / 200" using round_places_nearest [of 2 ?d] by (simp add: moneyq_eq)
  then show "\<bar>moneyq L ?d - n / ?q\<bar> \<le> 1 / 200 + 1 / 10 ^ 9" using d by linarith
qed

lemma discounted_net:
  assumes q: "quoted_line line" and a: "has_places 2 a" "0 < a"
  defines "whole \<equiv> el_unit_net line * of_int (el_qty line)"
  defines "n \<equiv> moneyq L (min (max (dec_minus L whole a) 0) whole)"
  shows "has_places 2 n" and "0 \<le> n" and "n \<le> whole" and "a < 10 ^ 16 \<Longrightarrow> n = max 0 (whole - a)"
proof -
  note w = quoted_amounts [OF q, folded whole_def]
  show "has_places 2 n" by (simp add: n_def)
  have m: "0 \<le> min (max (dec_minus L whole a) 0) whole" "min (max (dec_minus L whole a) 0) whole < whole + 1 / 250"
    using w(5) by (simp_all add: min_def)
  show "0 \<le> n" "n \<le> whole" using moneyq_between [OF m w(4)] by (simp_all add: n_def)
  assume s: "a < 10 ^ 16"
  have p: "has_places 2 (whole - a)" using w(4) a(1) by (rule has_places_diff)
  have "\<bar>whole - a\<bar> < 10 ^ 18" using s a(2) w(5,6) by (simp add: abs_less_iff)
  then have "dec_minus L whole a = whole - a" by (intro minus_exact cents_fits20 p)
  moreover have "min (max (whole - a) 0) whole = max 0 (whole - a)" using a(2) w(5) by (auto simp: min_def max_def)
  moreover have "has_places 2 (max 0 (whole - a))" using p by (simp add: max_def)
  ultimately show "n = max 0 (whole - a)" by (simp add: n_def moneyq_id)
qed

lemma exclusive_line:
  assumes q: "quoted_line line" and m: "el_mode line = Exclusive" and a: "has_places 2 a" "0 < a"
    and d: "discounted_line L line (moneyq L (el_unit_net line)) a = Inr (net, tax, gross)"
  obtains n where "0 \<le> n" "n \<le> el_unit_net line * of_int (el_qty line)"
    "a < 10 ^ 16 \<Longrightarrow> n = max 0 (el_unit_net line * of_int (el_qty line) - a)"
    "0 \<le> net" "net \<le> el_unit_net line" "\<bar>net - n / of_int (el_qty line)\<bar> \<le> 1 / 200 + 1 / 10 ^ 9"
    "tax = round_places 2 (net * el_rate line / 100 * of_int (el_qty line))" "0 \<le> tax" "gross = n + tax"
proof -
  note w = quoted_amounts [OF q]
  let ?n = "moneyq L (min (max (dec_minus L (el_unit_net line * of_int (el_qty line)) a) 0) (el_unit_net line * of_int (el_qty line)))"
  note n = discounted_net [OF q a]
  have net: "net = moneyq L (dec_div L ?n (of_int (el_qty line)))"
    and tax: "tax = moneyq L (dec_mul L (dec_div L (dec_mul L net (el_rate line)) 100) (of_int (el_qty line)))"
    and gross: "gross = moneyq L (dec_plus L ?n tax)"
    using d m w(5) by (auto simp: discounted_line_def Let_def w(1,2,3) throw_if_def)
  note u = discounted_unit [OF q n(1-3), folded net]
  have "has_places 2 net" by (simp add: net)
  note t = quoted_tax [OF q this u(1,2)]
  have tax': "tax = round_places 2 (net * el_rate line / 100 * of_int (el_qty line))"
    unfolding tax t(1) moneyq_eq ..
  have t0: "0 \<le> tax" using t(2) by (simp add: tax' round_places_nonneg)
  let ?t = "net * el_rate line / 100 * of_int (el_qty line)"
  have h: "1 / (2 * 10 ^ 2) = (1 / 200 :: rat)" "(10 :: rat) ^ 11 + 1 / 200 < 10 ^ 12" by simp_all
  have "\<bar>tax - ?t\<bar> \<le> 1 / 200" unfolding h(1) [symmetric] tax' by (rule round_places_nearest)
  then have t1: "tax < 10 ^ 12" using t(3) h(2) by linarith
  have p: "has_places 2 (?n + tax)" using n(1) by (intro has_places_add) (simp_all add: tax')
  have "\<bar>?n + tax\<bar> < 10 ^ 18" using n(2,3) w(6) t0 t1 by simp
  then have "gross = ?n + tax" using p by (simp add: gross plus_exact cents_fits20 moneyq_id)
  then show thesis using that [of ?n] n u tax' t0 by blast
qed

text \<open>On a line whose price contains the tax, the discount of the net price is taken from the gross one.\<close>

lemma inclusive_line:
  assumes q: "quoted_line line" and m: "el_mode line = Inclusive" and one: "el_qty line = 1"
    and a: "has_places 2 a" "0 < a" "a < 10 ^ 16"
    and d: "discounted_line L line (moneyq L (el_unit_net line)) a = Inr (net, tax, gross)"
  shows "net = max 0 (el_unit_net line - a)"
    and "gross = round_places 2 (el_unit_net line * (1 + el_rate line / 100)) - a"
proof -
  note w = quoted_amounts [OF q, simplified one of_int_1 mult_1_right]
  note n = discounted_net [OF q a(1,2), simplified one of_int_1 mult_1_right]
  let ?u = "el_unit_net line" and ?r = "el_rate line"
  have l: "has_places 2 ?u" "0 \<le> ?u" "?u < 10 ^ 6" "has_places 4 ?r" "0 \<le> ?r" "?r \<le> 100"
    using q by (simp_all add: quoted_line_def)
  have f: "dec_plus L 1 (dec_div L ?r 100) = 1 + ?r / 100" by (rule rate_factor [OF quoted_columns(2) [OF q]])
  have one_div: "dec_div L x 1 = x" if "has_places 2 x" "\<bar>x\<bar> < 10 ^ 18" for x
    using div_exact [of 1 x] cents_fits20 [OF that] by simp
  have one_mul: "dec_mul L x 1 = x" if "has_places 2 x" "\<bar>x\<bar> < 10 ^ 18" for x
    using mul_exact [of x 1] cents_fits20 [OF that] by simp
  have p8: "has_places 8 (?u * (1 + ?r / 100))"
  proof -
    have i: "(?u * 10 ^ 2) * (?r * 10 ^ 4) \<in> \<int>" using l by (simp only: has_places_def Ints_mult)
    have "?u * (1 + ?r / 100) * 10 ^ 8 = (?u * 10 ^ 2) * 10 ^ 6 + (?u * 10 ^ 2) * (?r * 10 ^ 4)"
      by (simp add: algebra_simps)
    moreover have "(?u * 10 ^ 2) * 10 ^ 6 \<in> \<int>" by (intro Ints_mult [OF l(1) [unfolded has_places_def]]) simp
    ultimately show ?thesis using i by (simp only: has_places_def Ints_add)
  qed
  have "?u * (1 + ?r / 100) \<le> ?u * 2" using l by (intro mult_left_mono) simp_all
  then have b: "?u * (1 + ?r / 100) < 10 ^ 7" and nn: "0 \<le> ?u * (1 + ?r / 100)" using l by simp_all
  have "dec_mul L ?u (1 + ?r / 100) = ?u * (1 + ?r / 100)"
  proof (intro mul_exact fits20_places [OF p8])
    show "\<bar>?u * (1 + ?r / 100)\<bar> * 10 ^ 8 < 10 ^ 20" unfolding abs_of_nonneg [OF nn] using b by simp
  qed
  then have g: "moneyq L (dec_mul L ?u (1 + ?r / 100)) = round_places 2 (?u * (1 + ?r / 100))" (is "_ = ?g")
    by (simp add: moneyq_eq)
  have gb: "0 \<le> ?g" "?g < 10 ^ 8"
  proof -
    show "0 \<le> ?g" using nn by (rule round_places_nonneg)
    have "1 / (2 * 10 ^ 2) = (1 / 200 :: rat)" "(10 :: rat) ^ 7 + 1 / 200 < 10 ^ 8" by simp_all
    then show "?g < 10 ^ 8" using b round_places_nearest [of 2 "?u * (1 + ?r / 100)"] by linarith
  qed
  have ga: "has_places 2 (?g - a)" "\<bar>?g - a\<bar> < 10 ^ 17"
    using a gb by (simp_all add: has_places_diff abs_less_iff)
  have da: "dec_div L a 1 = a" using a by (intro one_div) simp_all
  have ma: "moneyq L (dec_minus L ?g a) = ?g - a" using ga by (simp add: minus_exact cents_fits20 moneyq_id)
  have ml: "moneyq L (dec_mul L (?g - a) 1) = ?g - a" using ga by (simp add: one_mul moneyq_id)
  have n4: "moneyq L (min (max (dec_minus L ?u a) 0) ?u) = max 0 (?u - a)" using n(4) [OF a(3)] .
  have mx: "has_places 2 (max 0 (?u - a))" "\<bar>max 0 (?u - a)\<bar> < 10 ^ 18"
    using l a by (simp_all add: max_def has_places_diff)
  show "net = max 0 (?u - a)" "gross = ?g - a"
    using d m w by (auto simp: discounted_line_def Let_def throw_if_def one f g da ma ml n4 one_div [OF mx] moneyq_id [OF mx(1)])
qed

lemma leaves_price:
  assumes q: "quoted_line line" and m: "el_mode line = Exclusive" and c: "compute_benefit L p line = Inr (Some b)"
    and cap: "\<forall>m. pt_max_discount (pm_terms p) = Some m \<longrightarrow> has_places 2 m"
  shows "0 < bf_amount b \<and> (\<forall>m. pt_max_discount (pm_terms p) = Some m \<longrightarrow> bf_amount b \<le> m) \<and> bf_units b \<le> el_qty line
    \<and> 0 \<le> bf_unit_net b \<and> bf_unit_net b \<le> el_unit_net line
    \<and> bf_tax b = round_places 2 (bf_unit_net b * el_rate line / 100 * of_int (el_qty line)) \<and> 0 \<le> bf_tax b
    \<and> (\<exists>n. 0 \<le> n \<and> n \<le> el_unit_net line * of_int (el_qty line) \<and> bf_selling b = n + bf_tax b
         \<and> \<bar>bf_unit_net b - n / of_int (el_qty line)\<bar> \<le> 1 / 200 + 1 / 10 ^ 9
         \<and> (bf_amount b < 10 ^ 16 \<longrightarrow> n = max 0 (el_unit_net line * of_int (el_qty line) - bf_amount b)))"
proof -
  obtain raw where r: "raw_discount L (pm_terms p) (moneyq L (el_unit_net line)) (el_qty line) = Some (bf_units b, raw)"
    "bf_amount b = (case pt_max_discount (pm_terms p) of None \<Rightarrow> raw | Some m \<Rightarrow> if raw > m then moneyq L m else raw)"
    "0 < bf_amount b"
    "discounted_line L line (moneyq L (el_unit_net line)) (bf_amount b) = Inr (bf_unit_net b, bf_tax b, bf_selling b)"
    by (rule compute_benefit_Some [OF c])
  have p: "has_places 2 (bf_amount b)"
    using r(2) raw_discount_places [OF r(1)] by (auto split: option.splits)
  have "\<forall>m. pt_max_discount (pm_terms p) = Some m \<longrightarrow> bf_amount b \<le> m" using r(2) cap by (auto simp: moneyq_id)
  moreover have "bf_units b \<le> el_qty line" using q by (intro raw_discount_units [OF r(1)]) (simp add: quoted_line_def)
  ultimately show ?thesis using r(3) by (rule_tac exclusive_line [OF q m p r(3,4)]) auto
qed

lemma inclusive_leaves:
  assumes q: "quoted_line line" and m: "el_mode line = Inclusive" and one: "el_qty line = 1"
    and c: "compute_benefit L p line = Inr (Some b)" and a: "bf_amount b < 10 ^ 16"
  shows "bf_unit_net b = max 0 (el_unit_net line - bf_amount b)
    \<and> bf_selling b = round_places 2 (el_unit_net line * (1 + el_rate line / 100)) - bf_amount b"
proof -
  obtain raw where r: "raw_discount L (pm_terms p) (moneyq L (el_unit_net line)) (el_qty line) = Some (bf_units b, raw)"
    "bf_amount b = (case pt_max_discount (pm_terms p) of None \<Rightarrow> raw | Some m \<Rightarrow> if raw > m then moneyq L m else raw)"
    "0 < bf_amount b"
    "discounted_line L line (moneyq L (el_unit_net line)) (bf_amount b) = Inr (bf_unit_net b, bf_tax b, bf_selling b)"
    by (rule compute_benefit_Some [OF c])
  have "has_places 2 (bf_amount b)"
    using r(2) raw_discount_places [OF r(1)] by (auto split: option.splits)
  from inclusive_line [OF q m one this r(3) a r(4)] show ?thesis ..
qed

end

text \<open>C17: What a discount leaves to pay, where the tax comes on top of the price. The discount is positive, within its cap
  and on no more units than the line has. What remains of the net line is between nothing and the whole line,
  and exactly the line less the discount when that is positive; the unit price shown is its share to the cent and never above the
  undiscounted one, the tax is the rate on that unit price, and the selling price is what remains plus the tax.\<close>
theorem promotion_leaves_price:
  assumes "decimal_js L" and "quoted_line line" and "el_mode line = Exclusive"
    and "compute_benefit L p line = Inr (Some b)"
    and "\<forall>m. pt_max_discount (pm_terms p) = Some m \<longrightarrow> has_places 2 m"
  shows "0 < bf_amount b \<and> (\<forall>m. pt_max_discount (pm_terms p) = Some m \<longrightarrow> bf_amount b \<le> m) \<and> bf_units b \<le> el_qty line
    \<and> 0 \<le> bf_unit_net b \<and> bf_unit_net b \<le> el_unit_net line
    \<and> bf_tax b = round_places 2 (bf_unit_net b * el_rate line / 100 * of_int (el_qty line)) \<and> 0 \<le> bf_tax b
    \<and> (\<exists>n. 0 \<le> n \<and> n \<le> el_unit_net line * of_int (el_qty line) \<and> bf_selling b = n + bf_tax b
         \<and> \<bar>bf_unit_net b - n / of_int (el_qty line)\<bar> \<le> 1 / 200 + 1 / 10 ^ 9
         \<and> (bf_amount b < 10 ^ 16 \<longrightarrow> n = max 0 (el_unit_net line * of_int (el_qty line) - bf_amount b)))"
  using decimal_js.leaves_price [OF assms] .

text \<open>C18: Where the tax is in the price, a discount of the net price is taken from the gross one and nothing keeps
  the result positive. Of one unit the selling price is the gross price less the discount, while the
  net price shown is the net price less the discount, but not below zero. So a discount of a hundred percent
  still asks for the whole tax of the full price, and a fixed amount above the gross price leaves a negative price to pay.\<close>
theorem inclusive_discount_short:
  assumes "decimal_js L" and "quoted_line line" and "el_mode line = Inclusive" and "el_qty line = 1"
    and "compute_benefit L p line = Inr (Some b)" and "bf_amount b < 10 ^ 16"
  shows "bf_unit_net b = max 0 (el_unit_net line - bf_amount b)
    \<and> bf_selling b = round_places 2 (el_unit_net line * (1 + el_rate line / 100)) - bf_amount b"
  using decimal_js.inclusive_leaves [OF assms] .

section \<open>Examples\<close>

definition hundred :: "tax_mode \<Rightarrow> int \<Rightarrow> evaluation_line" where
  "hundred mode qty = \<lparr>el_variant = ''v'', el_qty = qty, el_unit_net = 100, el_rate = 14, el_mode = mode, el_coupon = None,
     el_customer = None, el_branch = None\<rparr>"

definition off_price :: "string \<Rightarrow> benefit_type \<Rightarrow> rat \<Rightarrow> int \<Rightarrow> promotion" where
  "off_price i benefit amount priority = (sample_promotion amount Promo_Active)\<lparr>pm_id := i,
     pm_terms := (terms_of ten_percent)\<lparr>pt_benefit := benefit, pt_value := Some amount, pt_priority := priority\<rparr>\<rparr>"

definition sample_reads :: "promotion list \<Rightarrow> evaluation_reads" where
  "sample_reads ps = \<lparr>rq_variant = (\<lambda>t i. Inr (Some \<lparr>vt_id = i, vt_product = ''p'', vt_brand = None, vt_category = None\<rparr>)),
     rq_promotions = (\<lambda>t. Inr ps), rq_coupon = (\<lambda>t code. Inr None)\<rparr>"

lemma hundred_quoted: "quoted_line (hundred mode 1)" "quoted_line (hundred mode 3)"
  using has_places_of_int [of 2 100] has_places_of_int [of 4 14] by (simp_all add: quoted_line_def hundred_def)

lemma off_price_terms [simp]:
  "pt_benefit (pm_terms (off_price i k a n)) = k" "pt_value (pm_terms (off_price i k a n)) = Some a"
  "pt_max_units (pm_terms (off_price i k a n)) = None" "pt_max_discount (pm_terms (off_price i k a n)) = None"
  "pt_scope (pm_terms (off_price i k a n)) = Promo_All" "pt_min_qty (pm_terms (off_price i k a n)) = None"
  "pt_min_spend (pm_terms (off_price i k a n)) = None" "pt_branch (pm_terms (off_price i k a n)) = None"
  "pt_customer (pm_terms (off_price i k a n)) = None" "pt_requires_coupon (pm_terms (off_price i k a n)) = False"
  "pt_priority (pm_terms (off_price i k a n)) = n" "pt_starts_at (pm_terms (off_price i k a n)) = 0"
  "pt_ends_at (pm_terms (off_price i k a n)) = None" "pm_id (off_price i k a n) = i" "pm_tenant (off_price i k a n) = ''t''"
  "pm_status (off_price i k a n) = Promo_Active" "pm_created_at (off_price i k a n) = 0"
  by (simp_all add: off_price_def sample_promotion_def terms_of_def ten_percent_def given_def)

lemma round_cents: "moneyq dec_exact (of_int n / 100) = of_int n / 100" "moneyq dec_exact (of_int n) = of_int n"
  "moneyq dec_exact (numeral k) = numeral k" "moneyq dec_exact (- numeral k) = - numeral k" "moneyq dec_exact 0 = 0"
proof -
  show "moneyq dec_exact 0 = 0" by (simp add: dec_exact.moneyq_id)
  have "has_places 2 (of_int n / 100)" by (simp add: has_places_def)
  then show "moneyq dec_exact (of_int n / 100) = of_int n / 100" by (rule dec_exact.moneyq_id)
  show "moneyq dec_exact (of_int n) = of_int n" by (rule dec_exact.moneyq_id) simp
  show "moneyq dec_exact (numeral k) = numeral k" "moneyq dec_exact (- numeral k) = - numeral k"
    using has_places_of_int [of 2 "numeral k"] has_places_of_int [of 2 "- numeral k"] by (simp_all add: dec_exact.moneyq_id)
qed

lemma exact_operations [simp]:
  "dec_plus dec_exact a b = a + b" "dec_minus dec_exact a b = a - b" "dec_mul dec_exact a b = a * b" "dec_div dec_exact a b = a / b"
  by (simp_all add: dec_exact_def)

lemma net_rounding: "moneyq dec_exact (700 / 57) = 307 / 25" "moneyq dec_exact (- (600 / 19)) = - (1579 / 50)"
    "moneyq dec_exact (147 / 5) = 147 / 5" "moneyq dec_exact (1197 / 5) = 1197 / 5" "moneyq dec_exact (43 / 25) = 43 / 25" "moneyq dec_exact (- (221 / 50)) = - (221 / 50)"
  by code_simp+

lemma half_off_three:
  "compute_benefit dec_exact (off_price i Percentage 50 n) (hundred Exclusive 3)
     = Inr (Some \<lparr>bf_type = Percentage, bf_units = 3, bf_amount = 150, bf_unit_net = 50, bf_tax = 21, bf_selling = 171\<rparr>)"
  by (simp add: compute_benefit_def raw_discount_def discounted_line_def hundred_def Let_def round_cents throw_if_def)

lemma all_off_inclusive:
  "compute_benefit dec_exact (off_price i Percentage 100 n) (hundred Inclusive 1)
     = Inr (Some \<lparr>bf_type = Percentage, bf_units = 1, bf_amount = 100, bf_unit_net = 0, bf_tax = 172 / 100, bf_selling = 14\<rparr>)"
  by (simp add: compute_benefit_def raw_discount_def discounted_line_def hundred_def Let_def round_cents net_rounding throw_if_def)

lemma too_much_inclusive:
  "compute_benefit dec_exact (off_price i Fixed_Amount 150 n) (hundred Inclusive 1)
     = Inr (Some \<lparr>bf_type = Fixed_Amount, bf_units = 1, bf_amount = 150, bf_unit_net = 0, bf_tax = - 442 / 100, bf_selling = - 36\<rparr>)"
  by (simp add: compute_benefit_def raw_discount_def discounted_line_def hundred_def Let_def round_cents net_rounding throw_if_def)

lemma promotion_leaves_price_witness:
  "compute_benefit dec_exact (off_price ''p'' Percentage 50 1) (hundred Exclusive 3)
     = Inr (Some \<lparr>bf_type = Percentage, bf_units = 3, bf_amount = 150, bf_unit_net = 50, bf_tax = 21, bf_selling = 171\<rparr>)
   \<and> round_places 2 (50 * 14 / 100 * 3) = (21 :: rat)"
proof -
  have "el_mode (hundred Exclusive 3) = Exclusive" by (simp add: hundred_def)
  from promotion_leaves_price [OF dec_exact.decimal_js_axioms hundred_quoted(2) this half_off_three, of "''p''" 1]
  show ?thesis using half_off_three [of "''p''" 1] by (simp add: hundred_def)
qed

lemma inclusive_discount_short_witness:
  "(\<exists>b. compute_benefit dec_exact (off_price ''p'' Percentage 100 1) (hundred Inclusive 1) = Inr (Some b)
      \<and> bf_unit_net b = 0 \<and> bf_selling b = 14)
   \<and> (\<exists>b. compute_benefit dec_exact (off_price ''p'' Fixed_Amount 150 1) (hundred Inclusive 1) = Inr (Some b)
      \<and> bf_unit_net b = 0 \<and> bf_selling b = - 36)"
proof -
  have l: "el_mode (hundred Inclusive 1) = Inclusive" "el_qty (hundred Inclusive 1) = 1" by (simp_all add: hundred_def)
  have g: "round_places 2 (100 * (1 + 14 / 100)) = (114 :: rat)"
    using round_cents(3) [of "num.Bit0 (num.Bit1 (num.Bit0 (num.Bit0 (num.Bit1 (num.Bit1 num.One)))))"]
    by (simp add: dec_exact.moneyq_eq)
  note short = inclusive_discount_short [OF dec_exact.decimal_js_axioms hundred_quoted(1) l]
  show ?thesis
    using short [OF all_off_inclusive [of "''p''" 1]] short [OF too_much_inclusive [of "''p''" 1]] g
      all_off_inclusive [of "''p''" 1] too_much_inclusive [of "''p''" 1]
    by (simp add: hundred_def)
qed

lemma promotion_choice_witness:
  "evaluate dec_exact (sample_reads [off_price ''p'' Percentage 50 2, off_price ''q'' Fixed_Amount 30 1]) ''t'' 5 (hundred Exclusive 3)
     = evaluate dec_exact (sample_reads [off_price ''q'' Fixed_Amount 30 1, off_price ''p'' Percentage 50 2]) ''t'' 5 (hundred Exclusive 3)
   \<and> map_option ap_promotion (ev_applied (evaluate dec_exact
        (sample_reads [off_price ''q'' Fixed_Amount 30 1, off_price ''p'' Percentage 50 2]) ''t'' 5 (hundred Exclusive 3))) = Some ''q''"
proof -
  let ?p = "off_price ''p'' Percentage 50 2" and ?q = "off_price ''q'' Fixed_Amount 30 1"
  let ?line = "hundred Exclusive 3"
  have c: "compute_benefit dec_exact ?q ?line
      = Inr (Some \<lparr>bf_type = Fixed_Amount, bf_units = 3, bf_amount = 90, bf_unit_net = 70, bf_tax = 147 / 5, bf_selling = 1197 / 5\<rparr>)"
    by (simp add: compute_benefit_def raw_discount_def discounted_line_def hundred_def Let_def round_cents net_rounding throw_if_def)
  have r: "rq_variant (sample_reads [?q, ?p]) ''t'' (el_variant ?line)
      = Inr (Some \<lparr>vt_id = ''v'', vt_product = ''p'', vt_brand = None, vt_category = None\<rparr>)"
    "rq_promotions (sample_reads [?q, ?p]) ''t'' = Inr [?q, ?p]" "distinct (map pm_id [?q, ?p])" "mset [?p, ?q] = mset [?q, ?p]"
    by (simp_all add: sample_reads_def hundred_def)
  have o1: "list_active_for_evaluation ''t'' 5 [?q, ?p] = [?q, ?p]"
    by (simp add: list_active_for_evaluation_def running_at_def evaluation_key_def)
  have e: "check_eligibility (sample_reads [?q, ?p]) ''t'' 5 (off_price i k a n) v ?line
      = Inr \<lparr>eg_ok = True, eg_reason = ''eligible'', eg_coupon = None\<rparr>" for i k a n v
    by (simp add: check_eligibility_def scope_matches_def)
  have "map_option ap_promotion (ev_applied (evaluate dec_exact (sample_reads [?q, ?p]) ''t'' 5 ?line)) = Some ''q''"
    using r(1,2) o1 c by (simp add: evaluate_def evaluate_unsafe_def weigh_candidate_pair e)
  moreover have "(sample_reads [?q, ?p])\<lparr>rq_promotions := \<lambda>_. Inr [?p, ?q]\<rparr> = sample_reads [?p, ?q]"
    by (simp add: sample_reads_def)
  ultimately show ?thesis using promotion_choice [OF r, of dec_exact 5] by simp
qed

end
