(* ===== verification/Spec2Isabelle.thy ===== *)
theory Spec2Isabelle
  imports
    Domain_Values Pos_Money Backend_Money Purchase_Accounting
    Pos_Validation Offline_Accounting Update_Policy Sync_Policy Pos_Store Pos_Sync
    Ledger Tax Pricing Branch_Access Transfers Transfers_Correct
    Cost_Ledger Sales Shifts Sales_Correct Sales_Runs
    Purchasing Purchasing_Correct Purchasing_Runs Purchasing_Lots Purchasing_Properties
    Permissions Guarded_Rows Price_Books Price_Books_Correct Price_Books_Properties
    Promotions Promotions_Correct Coupons Coupons_Correct
    Promotion_Evaluation Promotion_Evaluation_Correct
begin

text \<open>
  ATHR is a retail platform: a backend (NestJS over PostgreSQL, \<open>backend/src\<close>), a till that works
  offline (Electron over SQLite, \<open>pos-electron\<close>), an administration site (\<open>admin-web\<close>) and shared
  packages (\<open>packages\<close>). This development models the parts that decide about money, stock and the
  survival of a sale, and proves what they promise.

  \<^bold>\<open>Theories and the code they model\<close>

  \<^item> \<open>Prelude\<close>: errors as values (\<open>'a result\<close>, one constructor per exception class), sequencing
    (\<open>and_then\<close>, \<open>throw_if\<close>, \<open>or_throw\<close>) and loops over arrays whose body may throw.
  \<^item> \<open>Js_Text\<close>, \<open>Js_Arrays\<close>, \<open>Js_Value\<close>: what the sources use of the JavaScript library: text,
    stable sort with a comparator, maps, untyped values, \<open>JSON.stringify\<close>.
  \<^item> \<open>Domain_Decimal\<close>, \<open>Domain_Values\<close>: \<open>packages/domain-core/src\<close> (decimal text as scaled integers;
    Money, Percentage, Quantity, ids, e-mail, phone).
  \<^item> \<open>Pos_Money\<close>: the till's codecs \<open>pos-electron/electron/money.ts\<close> and \<open>money-codec.ts\<close>.
  \<^item> \<open>Decimal_Js\<close>, \<open>Backend_Money\<close>: the contract of the package decimal.js (a locale, interpreted by
    a function that rounds to twenty digits and by exact arithmetic) and \<open>backend/src/common/money.ts\<close>.
  \<^item> \<open>Purchase_Accounting\<close>: \<open>backend/src/purchasing/purchasing-accounting.ts\<close>.
  \<^item> \<open>Pos_Validation\<close>, \<open>Offline_Accounting\<close>, \<open>Update_Policy\<close>: \<open>sale-validation.ts\<close>, \<open>held-sale.ts\<close>,
    \<open>offline-accounting.ts\<close>, \<open>update-policy.ts\<close> and \<open>pos-compatibility.ts\<close> of the till.
  \<^item> \<open>Pos_Store\<close>: the local database of the till, the handlers \<open>pos:sale\<close> and \<open>sync:*\<close> of
    \<open>pos-electron/electron/main.ts\<close>, and the factory reset, which deletes the database
    (\<open>factory-reset-policy.ts\<close>, \<open>factory-reset-runtime.ts\<close>); \<open>Sync_Policy\<close> and \<open>Pos_Sync\<close>: \<open>pos-electron/src/sync-policy.ts\<close>
    and \<open>sync.ts\<close>, the upload of sales and the pull of the catalog over an abstract backend.
  \<^item> \<open>Ledger\<close>: stock, movements, the SQL function \<open>record_inventory_movement\<close> and the reconciliation
    of \<open>backend/src/inventory\<close>.
  \<^item> \<open>Tax\<close>, \<open>Pricing\<close>, \<open>Branch_Access\<close>: \<open>tax-resolution.service.ts\<close>,
    \<open>sales-tax-snapshot.service.ts\<close>, \<open>pricing.service.ts\<close> and \<open>branch-access.ts\<close> of the backend.
  \<^item> \<open>Transfers\<close>, \<open>Transfers_Correct\<close>: \<open>backend/src/transfers\<close> with the triggers of the database it
    relies on; the proofs are in the second theory.
  \<^item> \<open>Cost_Ledger\<close>: the moving-average cost of a variant, \<open>record_inventory_cost_movement\<close> of the
    database.
  \<^item> \<open>Sales\<close>, \<open>Shifts\<close>: \<open>createSale\<close> and \<open>createReturn\<close> of \<open>backend/src/sales/sales.service.ts\<close> with
    the triggers of a return and the CHECK constraints of an invoice, and \<open>backend/src/shifts\<close>. \<open>Sales_Correct\<close>
    proves what each handler keeps, \<open>Sales_Runs\<close> what holds along runs of them. Closing a shift is not a
    transaction: its reads and its write are steps of their own, between which sales and returns may be
    committed (\<open>sales_system\<close>; \<open>serial_step\<close> has it in one piece).
  \<^item> \<open>Purchasing\<close>: \<open>backend/src/purchasing/purchasing.service.ts\<close> and its controller. What a receipt, a
    supplier return and a reversal do is in \<open>Purchasing_Correct\<close>, what holds along runs of them in
    \<open>Purchasing_Runs\<close>; \<open>Purchasing_Lots\<close> is an abstract specification, goods in lots, and the proof
    that the service implements it; \<open>Purchasing_Properties\<close> states the properties.
  \<^item> \<open>Permissions\<close>: the catalog of permissions, the snapshot in force and the two guards of
    \<open>backend/src/identity\<close> and \<open>backend/src/auth\<close>.
  \<^item> \<open>Guarded_Rows\<close>: the statements the administration shares (\<open>updateMany\<close> with a predicate, the refusal of
    a unique index) and a locale for tables whose rows only move along a relation.
  \<^item> \<open>Price_Books\<close>: \<open>backend/src/pricing/price-book.service.ts\<close>, its repository, the routes of its
    controller and the indexes of the two tables. \<open>Price_Books_Correct\<close> shows how each request changes
    the rows, \<open>Price_Books_Properties\<close> what holds along runs, up to the quote of \<open>Pricing\<close>. \<open>book_step\<close> serves
    requests one after the other, \<open>book_race\<close> lets them overlap: a check, and later its write.
  \<^item> \<open>Promotions\<close>, \<open>Coupons\<close>: \<open>backend/src/promotions\<close> (\<open>promotion.service.ts\<close>, \<open>coupon.service.ts\<close> and
    their repositories), proved in \<open>Promotions_Correct\<close> and \<open>Coupons_Correct\<close>. \<open>promotion_race\<close> lets requests overlap, a
    \<open>PATCH\<close> may clear a column with null, and a redemption is split into its three statements, which the step relation
    \<open>coupon_step\<close> interleaves with everything else.
  \<^item> \<open>Promotion_Evaluation\<close>, \<open>Promotion_Evaluation_Correct\<close>: \<open>promotion-evaluation.service.ts\<close>, the promotion
    a quote shows and what it leaves to pay.

  \<^bold>\<open>State and operations\<close>

  A table with a unique key is a map or a list of rows in insertion order; a transaction is a
  function from the state to an error or to a result and the new state, and an error leaves the
  state as it was. Exceptions of TypeScript and of the database are values of \<open>error\<close>. Money of the
  backend is a rational with two places, money of the till an integer number of cents, \<open>BigInt\<close> is
  \<open>int\<close>, the hash of the retry jitter is computed on 32-bit words, and integer columns of the
  database check their range.

  \<^bold>\<open>What the lemmas show\<close>

  Money: conversions round-trip, the two codecs of the till agree, products and taxes are the
  nearest cent, a receipt's discount is spread without losing one. Sales of the till: input is
  validated, a committed sale is never doubled, and not lost either until a factory reset deletes
  the database, which it does only after the server took every sale; a successful synchronisation
  has answered each waiting sale; updates go forward as long as version numbers stay in the range of
  doubles. Stock: each change is recorded by a movement, a reconciliation finds no difference, and
  no unit is lost between two branches. Sales of the backend: an invoice's sums are its lines', a
  repeated upload changes nothing, no more units come back than were sold, refunds stay within the
  invoice (if its lines are taxed alike), a closed shift accounts for its cash except for what is
  committed while it is being closed, and the cost ledger is a chain whose averages are bounded.
  Purchasing: the stock follows the documents, what goes back to a supplier stays within the line it
  came from, and a reversal undoes its receipt. Pricing: the indexed lookup is the direct scan;
  price books are approved by someone else than their author (and, when requests are served one
  after the other, than their submitter), their entries are versions that are never rewritten, and
  one book prices a tenant that uses one scope. Promotions and coupons: states are never left
  backwards, each use is counted once under every interleaving, a repeated redemption changes
  nothing, and the promotion of a quote does not depend on the order of the rows.
  Permissions: the guard decides by the catalog, and a higher role may do what a lower one may.
  Some theorems show where the code does not keep what it promises; the manifest lists them as findings.

  \<^bold>\<open>Bounds\<close>

  \<open>perform_sync\<close> follows at most \<open>max_sync_pull_pages\<close> pages, the source's own limit, so the loop
  over pages is a recursion on that number and needs no other fuel. All other loops run over arrays.
  The twenty digits of decimal.js are enough for the amounts of the numeric columns
  (\<open>receipt_in_range\<close>, \<open>price_column\<close>, \<open>rate_column\<close>).

  \<^bold>\<open>Parameters\<close>

  Code outside the repository is a parameter: decimal.js (\<open>dec_lib\<close>), digest, collation, Unicode
  normalisation, dates and URLs of the host, \<open>randomUUID\<close>, and for the till the backend it talks to.

  \<^bold>\<open>Not modelled\<close>

  Screens, web pages, printing, HTTP glue, configuration and scripts, which decide nothing the
  properties are about; the drafts a cashier holds at the till (the factory reset takes their number as an
  argument) and \<open>local-state-migration.ts\<close>, which at a start without a database copies the one of an older
  product; the remaining workflows of the backend, listed in the manifest.
\<close>

end
